(* ===== verification/Hst_Prelude.thy ===== *)
theory Hst_Prelude
  imports Main "HOL-Library.Word"
begin

text \<open>
  Shared ground of the development: the machine types of the C++ sources, the two families of
  status codes they return, the faults a model can end in, and the generic list and word lemmas
  several components use.

  Machine integers. Unsigned fields whose wrap-around matters are words (\<open>u8\<close>, \<open>u32\<close>, \<open>u64\<close>);
  signed fields that are only compared, clipped or copied are \<open>int\<close>, because signed overflow is
  undefined in C++ and no operation modelled here relies on it. Counters that the code bounds
  itself (queue sizes) are \<open>nat\<close>.
\<close>

section \<open>Machine types\<close>

type_synonym u8 = "8 word"
type_synonym u16 = "16 word"
type_synonym u32 = "32 word"
type_synonym u64 = "64 word"

section \<open>Status codes\<close>

text \<open>
  \<open>Status\<close> of interface/inner_api/common/status.h. The enumerators keep their names;
  \<open>NO_ERROR\<close> is the same value as \<open>OK\<close> and has no constructor of its own.
\<close>

datatype status =
    END_OF_STREAM
  | OK
  | ERROR_UNKNOWN
  | ERROR_PLUGIN_ALREADY_EXISTS
  | ERROR_INCOMPATIBLE_VERSION
  | ERROR_NO_MEMORY
  | ERROR_WRONG_STATE
  | ERROR_UNIMPLEMENTED
  | ERROR_INVALID_PARAMETER
  | ERROR_INVALID_DATA
  | ERROR_MISMATCHED_TYPE
  | ERROR_TIMED_OUT
  | ERROR_UNSUPPORTED_FORMAT
  | ERROR_NOT_ENOUGH_DATA
  | ERROR_NOT_EXISTED
  | ERROR_AGAIN
  | ERROR_PERMISSION_DENIED
  | ERROR_NULL_POINTER
  | ERROR_INVALID_OPERATION
  | ERROR_CLIENT
  | ERROR_SERVER
  | ERROR_DELAY_READY
  | ERROR_INVALID_STATE
  | ERROR_AUDIO_INTERRUPT
  | ERROR_INVALID_BUFFER_SIZE
  | ERROR_UNEXPECTED_MEMORY_TYPE
  | ERROR_CREATE_BUFFER
  | ERROR_NULL_POINT_BUFFER
  | ERROR_INVALID_BUFFER_ID
  | ERROR_INVALID_BUFFER_STATE
  | ERROR_NO_FREE_BUFFER
  | ERROR_NO_DIRTY_BUFFER
  | ERROR_NO_CONSUMER_LISTENER
  | ERROR_NULL_BUFFER_QUEUE
  | ERROR_WAIT_TIMEOUT
  | ERROR_OUT_OF_RANGE
  | ERROR_NULL_SURFACE
  | ERROR_SURFACE_INNER
  | ERROR_NULL_SURFACE_BUFFER
  | ERROR_IPC_WRITE_INTERFACE_TOKEN
  | ERROR_IPC_SEND_REQUEST

text \<open>
  \<open>ErrorCode\<close> of engine/include/pipeline/core/error_code.h, the codes of the pipeline and scene
  layers. Constructors carry the prefix \<open>EC_\<close> to keep them apart from \<open>Status\<close>.
\<close>

datatype error_code =
    EC_END_OF_STREAM
  | EC_SUCCESS
  | EC_ERROR_UNKNOWN
  | EC_ERROR_UNIMPLEMENTED
  | EC_ERROR_AGAIN
  | EC_ERROR_INVALID_PARAMETER_VALUE
  | EC_ERROR_INVALID_PARAMETER_TYPE
  | EC_ERROR_INVALID_OPERATION
  | EC_ERROR_UNSUPPORTED_FORMAT
  | EC_ERROR_NOT_EXISTED
  | EC_ERROR_TIMED_OUT
  | EC_ERROR_NO_MEMORY
  | EC_ERROR_INVALID_STATE
  | EC_ERROR_PERMISSION_DENIED
  | EC_ERROR_NO_NOTIFY
  | EC_ERROR_NULL_POINTER

text \<open>
  What a C++ execution can end in besides returning: the models return \<open>Inl\<close> of a fault where
  the source would dereference a null pointer, index out of range, call an empty function, divide by zero, read
  a variable that was never set or use an iterator its container has invalidated.
\<close>

datatype fault = Null_Deref | Out_Of_Bounds | Empty_Function | Uninitialised | Div_By_Zero | Dangling_Iterator

text \<open>\<open>Sec2HstTime\<close> (engine/include/plugin/common/plugin_time.h): nanoseconds, if they can be represented.\<close>

definition Sec2HstTime :: "int \<Rightarrow> int option" where
  "Sec2HstTime sec = (if (2 ^ 63 - 1) div 1000000000 < sec \<or> - ((2 ^ 63) div 1000000000) > sec then None else Some (sec * 1000000000))"

section \<open>Lists\<close>

lemma sorted_wrt_filter: "sorted_wrt P xs \<Longrightarrow> sorted_wrt P (filter Q xs)"
  by (induction xs) auto

lemma distinct_length_le_card: "distinct xs \<Longrightarrow> set xs \<subseteq> A \<Longrightarrow> finite A \<Longrightarrow> length xs \<le> card A"
  by (metis card_mono distinct_card)

lemma map_cong_on: "(\<And>x. x \<in> set xs \<Longrightarrow> f x = g x) \<Longrightarrow> map f xs = map g xs"
  by simp

section \<open>Words\<close>

lemma unat_of_nat_lt [simp]: "n < 2 ^ LENGTH('a::len) \<Longrightarrow> unat (of_nat n :: 'a word) = n"
  by (simp add: unat_of_nat take_bit_nat_eq_self)

lemma unat_plus_no_wrap:
  "unat (a :: 'a::len word) + unat b < 2 ^ LENGTH('a) \<Longrightarrow> unat (a + b) = unat a + unat b"
  by (simp add: unat_word_ariths)

lemma unat_minus_no_wrap:
  "unat (b :: 'a::len word) \<le> unat a \<Longrightarrow> unat (a - b) = unat a - unat b"
  by (metis unat_sub_if_size)

lemma u64_less_2p: "unat (x :: u64) < 18446744073709551616"
  using unsigned_less [of x] by simp

lemma u32_less_2p: "unat (x :: u32) < 4294967296"
  using unsigned_less [of x] by simp

end
