(* ===== verification/Fifo_Spec.thy ===== *)
theory Fifo_Spec
  imports Hst_Prelude
begin

text \<open>
  The contract of a first-in first-out queue as its clients use it: \<open>put\<close> says whether it took the
  element, \<open>take\<close> gives the oldest one. The client's lemma is about whole schedules of calls. The
  contract is interpreted on the buffer queue (Buffer_Queue_Props) and on \<open>BlockingQueue\<close>
  (Blocking_Queue).
\<close>

datatype 'a fifo_op = Put 'a | Take

text \<open>A schedule of calls: what was accepted, what came out, and the final state.\<close>

fun fifo_run ::
  "('a \<Rightarrow> 's \<Rightarrow> bool \<times> 's) \<Rightarrow> ('s \<Rightarrow> 'a option \<times> 's) \<Rightarrow> 'a fifo_op list \<Rightarrow> 's \<Rightarrow> 'a list \<times> 'a list \<times> 's"
where
  "fifo_run put pop [] s = ([], [], s)"
| "fifo_run put pop (Put x # ops) s =
     (case put x s of (a, t) \<Rightarrow> case fifo_run put pop ops t of
        (acc, got, u) \<Rightarrow> (if a then x # acc else acc, got, u))"
| "fifo_run put pop (Take # ops) s =
     (case pop s of (x, t) \<Rightarrow> case fifo_run put pop ops t of
        (acc, got, u) \<Rightarrow> (acc, case x of None \<Rightarrow> got | Some y \<Rightarrow> y # got, u))"

locale fifo =
  fixes put :: "'a \<Rightarrow> 's \<Rightarrow> bool \<times> 's"
    and take_one :: "'s \<Rightarrow> 'a option \<times> 's"
    and view :: "'s \<Rightarrow> 'a list"
    and ok :: "'s \<Rightarrow> bool"
  assumes put_ok: "ok s \<Longrightarrow> ok (snd (put x s))"
    and put_view: "ok s \<Longrightarrow> view (snd (put x s)) = (if fst (put x s) then view s @ [x] else view s)"
    and take_ok: "ok s \<Longrightarrow> ok (snd (take_one s))"
    and take_empty: "ok s \<Longrightarrow> fst (take_one s) = None \<Longrightarrow> view (snd (take_one s)) = view s"
    and take_first: "ok s \<Longrightarrow> fst (take_one s) = Some x \<Longrightarrow> view s = x # view (snd (take_one s))"
begin

lemma run_fifo:
  "ok s \<Longrightarrow> fifo_run put take_one ops s = (acc, got, t) \<Longrightarrow> ok t \<and> view s @ acc = got @ view t"
proof (induction ops arbitrary: s acc got t)
  case Nil
  then show ?case by simp
next
  case (Cons op ops)
  show ?case
  proof (cases op)
    case (Put x)
    obtain acc' where r: "fifo_run put take_one ops (snd (put x s)) = (acc', got, t)"
      "acc = (if fst (put x s) then x # acc' else acc')"
      using Cons.prems(2) Put by (auto split: prod.splits)
    have "ok t \<and> view (snd (put x s)) @ acc' = got @ view t"
      by (rule Cons.IH [OF put_ok [OF Cons.prems(1)] r(1)])
    then show ?thesis using put_view [OF Cons.prems(1), of x] r(2) by (cases "fst (put x s)") auto
  next
    case Take
    obtain got' where r: "fifo_run put take_one ops (snd (take_one s)) = (acc, got', t)"
      "got = (case fst (take_one s) of None \<Rightarrow> got' | Some y \<Rightarrow> y # got')"
      using Cons.prems(2) Take by (auto split: prod.splits)
    have "ok t \<and> view (snd (take_one s)) @ acc = got' @ view t"
      by (rule Cons.IH [OF take_ok [OF Cons.prems(1)] r(1)])
    then show ?thesis
      using take_empty [OF Cons.prems(1)] take_first [OF Cons.prems(1)] r(2)
      by (cases "fst (take_one s)") auto
  qed
qed

lemma run_all_out:
  assumes "ok s" "view s = []" "fifo_run put take_one ops s = (acc, got, t)"
  shows "\<exists>rest. acc = got @ rest"
  using run_fifo [OF assms(1,3)] assms(2) by auto

end

end
