(* ===== verification/Blocking_Queue.thy ===== *)
theory Blocking_Queue
  imports Fifo_Spec
begin

text \<open>
  \<open>BlockingQueue\<close> (engine/include/foundation/utils/blocking_queue.h) and \<open>Synchronizer\<close>
  (engine/include/foundation/osal/base/synchronizer.h), the two meeting points of the engine's
  threads.

  A call that waits on a condition variable is split where it gives up the lock: the entering half
  may answer \<open>Blocks\<close>, and the resuming half runs when the thread was notified. The queue counts
  the threads asleep on each of its two condition variables and the ones woken but not yet run.
  A call with a timeout gets what the other threads do meanwhile as the argument \<open>env\<close>.
\<close>

section \<open>BlockingQueue\<close>

record 'a bqueue =
  bl_que :: "'a list"
  bl_capacity :: nat
  bl_active :: bool
  bl_waitFull :: nat
  bl_waitEmpty :: nat
  bl_wokeFull :: nat
  bl_wokeEmpty :: nat

datatype 'r call = Returns 'r | Blocks

definition DEFAULT_QUEUE_SIZE :: nat where "DEFAULT_QUEUE_SIZE = 10"

definition new_bqueue :: "nat \<Rightarrow> 'a bqueue" where
  "new_bqueue n = \<lparr>bl_que = [], bl_capacity = n, bl_active = True, bl_waitFull = 0, bl_waitEmpty = 0,
     bl_wokeFull = 0, bl_wokeEmpty = 0\<rparr>"

definition bl_Size :: "'a bqueue \<Rightarrow> nat" where "bl_Size q = length (bl_que q)"
definition bl_Empty :: "'a bqueue \<Rightarrow> bool" where "bl_Empty q \<longleftrightarrow> bl_que q = []"

definition notify_one_full :: "'a bqueue \<Rightarrow> 'a bqueue" where
  "notify_one_full q = (if bl_waitFull q > 0
     then q\<lparr>bl_waitFull := bl_waitFull q - 1, bl_wokeFull := bl_wokeFull q + 1\<rparr> else q)"

definition notify_one_empty :: "'a bqueue \<Rightarrow> 'a bqueue" where
  "notify_one_empty q = (if bl_waitEmpty q > 0
     then q\<lparr>bl_waitEmpty := bl_waitEmpty q - 1, bl_wokeEmpty := bl_wokeEmpty q + 1\<rparr> else q)"

definition notify_all_empty :: "'a bqueue \<Rightarrow> 'a bqueue" where
  "notify_all_empty q = q\<lparr>bl_waitEmpty := 0, bl_wokeEmpty := bl_wokeEmpty q + bl_waitEmpty q\<rparr>"

text \<open>The tail of \<open>Push\<close> after the wait, and the wait itself with its predicate.\<close>

definition push_done :: "'a \<Rightarrow> 'a bqueue \<Rightarrow> bool call \<times> 'a bqueue" where
  "push_done x q =
     (if \<not> bl_active q then (Returns False, q)
      else (Returns True, notify_all_empty (q\<lparr>bl_que := bl_que q @ [x]\<rparr>)))"

definition push_wait :: "'a \<Rightarrow> 'a bqueue \<Rightarrow> bool call \<times> 'a bqueue" where
  "push_wait x q =
     (if \<not> bl_active q \<or> bl_Size q < bl_capacity q then push_done x q
      else (Blocks, q\<lparr>bl_waitFull := bl_waitFull q + 1\<rparr>))"

definition bl_Push :: "'a \<Rightarrow> 'a bqueue \<Rightarrow> bool call \<times> 'a bqueue" where
  "bl_Push x q =
     (if \<not> bl_active q then (Returns False, q)
      else if bl_Size q \<ge> bl_capacity q then push_wait x q
      else push_done x q)"

definition bl_Push_resume :: "'a \<Rightarrow> 'a bqueue \<Rightarrow> bool call \<times> 'a bqueue" where
  "bl_Push_resume x q = push_wait x (q\<lparr>bl_wokeFull := bl_wokeFull q - 1\<rparr>)"

definition bl_Push_timed :: "('a bqueue \<Rightarrow> 'a bqueue) \<Rightarrow> 'a \<Rightarrow> 'a bqueue \<Rightarrow> bool \<times> 'a bqueue" where
  "bl_Push_timed env x q =
     (if \<not> bl_active q then (False, q)
      else let q1 = (if bl_Size q \<ge> bl_capacity q then env q else q)
           in if \<not> bl_active q1 \<or> bl_Size q1 = bl_capacity q1 then (False, q1)
              else (True, notify_all_empty (q1\<lparr>bl_que := bl_que q1 @ [x]\<rparr>)))"

text \<open>\<open>None\<close> is the value-initialised element \<open>{}\<close>.\<close>

definition pop_done :: "'a bqueue \<Rightarrow> 'a option call \<times> 'a bqueue" where
  "pop_done q =
     (if \<not> bl_active q then (Returns None, q)
      else (case bl_que q of [] \<Rightarrow> (Returns None, q)
            | x # r \<Rightarrow> (Returns (Some x), notify_one_full (q\<lparr>bl_que := r\<rparr>))))"

definition pop_wait :: "'a bqueue \<Rightarrow> 'a option call \<times> 'a bqueue" where
  "pop_wait q =
     (if \<not> bl_active q \<or> \<not> bl_Empty q then pop_done q
      else (Blocks, q\<lparr>bl_waitEmpty := bl_waitEmpty q + 1\<rparr>))"

definition bl_Pop :: "'a bqueue \<Rightarrow> 'a option call \<times> 'a bqueue" where
  "bl_Pop q =
     (if \<not> bl_active q then (Returns None, q)
      else if bl_Empty q then pop_wait q
      else pop_done q)"

definition bl_Pop_resume :: "'a bqueue \<Rightarrow> 'a option call \<times> 'a bqueue" where
  "bl_Pop_resume q = pop_wait (q\<lparr>bl_wokeEmpty := bl_wokeEmpty q - 1\<rparr>)"

definition bl_Pop_timed :: "('a bqueue \<Rightarrow> 'a bqueue) \<Rightarrow> 'a bqueue \<Rightarrow> 'a option \<times> 'a bqueue" where
  "bl_Pop_timed env q =
     (if \<not> bl_active q then (None, q)
      else let q1 = (if bl_Empty q then env q else q)
           in if \<not> bl_active q1 then (None, q1)
              else (case bl_que q1 of [] \<Rightarrow> (None, q1)
                    | x # r \<Rightarrow> (Some x, notify_one_full (q1\<lparr>bl_que := r\<rparr>))))"

definition bl_ClearUnprotected :: "'a bqueue \<Rightarrow> 'a bqueue" where
  "bl_ClearUnprotected q =
     (if bl_Empty q then q
      else let needNotify = (bl_Size q = bl_capacity q); q1 = q\<lparr>bl_que := []\<rparr>
           in if needNotify then notify_one_full q1 else q1)"

definition bl_SetActive :: "bool \<Rightarrow> bool \<Rightarrow> 'a bqueue \<Rightarrow> 'a bqueue" where
  "bl_SetActive active cleanData q =
     (let q1 = q\<lparr>bl_active := active\<rparr>
      in if \<not> active then notify_one_empty (if cleanData then bl_ClearUnprotected q1 else q1) else q1)"

subsection \<open>Facts\<close>

lemmas bl_notify = notify_one_full_def notify_one_empty_def notify_all_empty_def

lemma bl_notify_frame [simp]:
  "bl_que (notify_one_full q) = bl_que q" "bl_que (notify_one_empty q) = bl_que q"
  "bl_que (notify_all_empty q) = bl_que q"
  "bl_capacity (notify_one_full q) = bl_capacity q" "bl_capacity (notify_one_empty q) = bl_capacity q"
  "bl_capacity (notify_all_empty q) = bl_capacity q"
  "bl_active (notify_one_full q) = bl_active q" "bl_active (notify_one_empty q) = bl_active q"
  "bl_active (notify_all_empty q) = bl_active q"
  by (simp_all add: bl_notify)

lemmas bl_ops = bl_Push_def bl_Push_resume_def push_wait_def push_done_def bl_Pop_def bl_Pop_resume_def
  pop_wait_def pop_done_def bl_Size_def bl_Empty_def

definition bl_ok :: "'a bqueue \<Rightarrow> bool" where
  "bl_ok q \<longleftrightarrow> length (bl_que q) \<le> bl_capacity q"

definition bl_put :: "'a \<Rightarrow> 'a bqueue \<Rightarrow> bool \<times> 'a bqueue" where
  "bl_put x q = (case bl_Push x q of (Returns b, t) \<Rightarrow> (b, t) | (Blocks, t) \<Rightarrow> (False, t))"

definition bl_take :: "'a bqueue \<Rightarrow> 'a option \<times> 'a bqueue" where
  "bl_take q = (case bl_Pop q of (Returns r, t) \<Rightarrow> (r, t) | (Blocks, t) \<Rightarrow> (None, t))"

interpretation blf: fifo bl_put bl_take bl_que bl_ok
proof unfold_locales
  fix q :: "'a bqueue" and x :: 'a
  assume ok: "bl_ok q"
  show "bl_ok (snd (bl_put x q))"
    "bl_que (snd (bl_put x q)) = (if fst (bl_put x q) then bl_que q @ [x] else bl_que q)"
    using ok by (auto simp: bl_put_def bl_ops bl_ok_def)
  show "bl_ok (snd (bl_take q))" "fst (bl_take q) = None \<Longrightarrow> bl_que (snd (bl_take q)) = bl_que q"
    "fst (bl_take q) = Some x \<Longrightarrow> bl_que q = x # bl_que (snd (bl_take q))"
    using ok by (auto simp: bl_take_def bl_ops bl_ok_def split: list.splits if_splits)
qed

text \<open>
  A blocking queue delivers in order: in any schedule of pushes and pops the elements popped are
  those accepted, in order, none lost or duplicated, and the capacity is never exceeded.
\<close>

theorem blocking_queue_in_order:
  assumes "length (bl_que q) \<le> bl_capacity q" "fifo_run bl_put bl_take ops q = (acc, got, t)"
  shows "bl_que q @ acc = got @ bl_que t \<and> length (bl_que t) \<le> bl_capacity t"
  using blf.run_fifo [of q ops acc got t] assms by (simp add: bl_ok_def)

lemma blocking_queue_in_order_witness:
  "fifo_run bl_put bl_take [Put 1, Put 2, Put 3, Take, Take] (new_bqueue 2 :: nat bqueue) =
     ([1, 2], [1, 2], snd (snd (fifo_run bl_put bl_take [Put 1, Put 2, Put 3, Take, Take] (new_bqueue 2)))) \<and>
   length (bl_que (snd (snd (fifo_run bl_put bl_take [Put 1, Put 2, Put 3, Take, Take] (new_bqueue 2 :: nat bqueue))))) \<le> 2"
proof -
  have r: "fifo_run bl_put bl_take [Put 1, Put 2, Put 3, Take, Take] (new_bqueue 2 :: nat bqueue) =
     ([1, 2], [1, 2], new_bqueue 2\<lparr>bl_wokeFull := 1\<rparr>)"
    by (simp add: bl_put_def bl_take_def bl_ops bl_notify new_bqueue_def)
  have "length (bl_que (new_bqueue 2 :: nat bqueue)) \<le> bl_capacity (new_bqueue 2 :: nat bqueue)"
    by (simp add: new_bqueue_def)
  from blocking_queue_in_order [OF this r] show ?thesis unfolding r by (simp add: new_bqueue_def)
qed

text \<open>
  Deactivating a queue strands its producers: \<open>SetActive(false)\<close> signals only the condition
  variable of the consumers, and of the producers asleep in \<open>Push\<close> it wakes at most one, and none
  when the data is kept, although for all of them the wait is over.
\<close>

theorem deactivate_strands_producers:
  "bl_waitFull q \<le> bl_waitFull (bl_SetActive False clean q) + 1 \<and>
   bl_waitFull (bl_SetActive False False q) = bl_waitFull q"
  by (simp add: bl_SetActive_def Let_def bl_ClearUnprotected_def bl_notify)

section \<open>Synchronizer\<close>

text \<open>
  \<open>Notify\<close> takes effect only for an id somebody waits for. \<open>WaitFor\<close> calls \<open>asyncOps\<close> under the
  lock and then waits; what happens until it wakes up, by notification or timeout, is \<open>env\<close>.
\<close>

record ('k, 'r) syncer =
  sy_map :: "'k \<Rightarrow> 'r option"
  sy_wait :: "'k set"

definition sy_Notify :: "'k \<Rightarrow> 'r \<Rightarrow> ('k, 'r) syncer \<Rightarrow> ('k, 'r) syncer" where
  "sy_Notify k r s =
     (if k \<in> sy_wait s
      then s\<lparr>sy_wait := sy_wait s - {k},
             sy_map := (case sy_map s k of None \<Rightarrow> (sy_map s)(k \<mapsto> r) | Some _ \<Rightarrow> sy_map s)\<rparr>
      else s)"

definition sy_WaitFor ::
  "(('k, 'r) syncer \<Rightarrow> ('k, 'r) syncer) \<Rightarrow> 'k \<Rightarrow> bool option \<Rightarrow> 'r \<Rightarrow> ('k, 'r) syncer
     \<Rightarrow> bool \<times> 'r \<times> ('k, 'r) syncer" where
  "sy_WaitFor env k asyncOps result s =
     (case asyncOps of None \<Rightarrow> (False, result, s)
      | Some started \<Rightarrow>
         let s1 = s\<lparr>sy_wait := insert k (sy_wait s)\<rparr>
         in if \<not> started then (False, result, s1\<lparr>sy_wait := sy_wait s1 - {k}\<rparr>)
            else let s2 = env s1
                 in case sy_map s2 k of
                      Some r \<Rightarrow> (True, r, s2\<lparr>sy_map := (sy_map s2)(k := None)\<rparr>)
                    | None \<Rightarrow> (False, result, s2\<lparr>sy_wait := sy_wait s2 - {k}\<rparr>))"

fun sy_notifies :: "('k \<times> 'r) list \<Rightarrow> ('k, 'r) syncer \<Rightarrow> ('k, 'r) syncer" where
  "sy_notifies [] s = s"
| "sy_notifies ((k, r) # ns) s = sy_notifies ns (sy_Notify k r s)"

lemma sy_notifies_done:
  "sy_map s k = Some r \<Longrightarrow> sy_map (sy_notifies ns s) k = Some r"
proof (induction ns s rule: sy_notifies.induct)
  case (2 j r' ns s)
  then have "sy_map (sy_Notify j r' s) k = Some r" by (cases "k = j") (auto simp: sy_Notify_def split: option.splits)
  then show ?case using 2 by simp
qed simp

lemma sy_notifies_wait:
  "k \<in> sy_wait s \<Longrightarrow> sy_map s k = None \<Longrightarrow>
     sy_map (sy_notifies ns s) k = map_of ns k \<and> (map_of ns k = None \<longrightarrow> k \<in> sy_wait (sy_notifies ns s))"
proof (induction ns s rule: sy_notifies.induct)
  case (2 j r ns s)
  show ?case
  proof (cases "j = k")
    case True
    then have "sy_map (sy_Notify j r s) k = Some r" using 2 by (simp add: sy_Notify_def)
    then show ?thesis using True sy_notifies_done by fastforce
  next
    case False
    then show ?thesis using 2 by (auto simp: sy_Notify_def split: option.splits)
  qed
qed auto

text \<open>
  A synchronous wait returns the result of the first notification for its id: whatever ids are
  notified while it waits, \<open>WaitFor\<close> succeeds exactly if its own id is among them, with the first
  result sent for it, leaving no stale result behind; otherwise it reports failure, leaves the
  caller's result alone and is no longer registered.
\<close>

theorem synchronizer_first_result:
  assumes "sy_map s k = None"
  shows "\<exists>t. sy_WaitFor (sy_notifies ns) k (Some True) dflt s =
      (case map_of ns k of Some r \<Rightarrow> (True, r, t) | None \<Rightarrow> (False, dflt, t)) \<and>
    sy_map t k = None \<and> (map_of ns k = None \<longrightarrow> k \<notin> sy_wait t)"
proof -
  let ?s1 = "s\<lparr>sy_wait := insert k (sy_wait s)\<rparr>"
  have w: "sy_map (sy_notifies ns ?s1) k = map_of ns k"
    using sy_notifies_wait [of k ?s1 ns] assms by simp
  show ?thesis
  proof (cases "map_of ns k")
    case None
    then show ?thesis using w by (simp add: sy_WaitFor_def Let_def)
  next
    case (Some r)
    then show ?thesis using w by (simp add: sy_WaitFor_def Let_def)
  qed
qed

lemma synchronizer_first_result_witness:
  "\<exists>t. sy_WaitFor (sy_notifies [(1, False), (2, True), (2, False)]) (2 :: nat) (Some True) False
     \<lparr>sy_map = (\<lambda>_. None), sy_wait = {}\<rparr> = (True, True, t)"
  using synchronizer_first_result [of "\<lparr>sy_map = (\<lambda>_. None), sy_wait = {}\<rparr>" "2 :: nat"
    "[(1, False), (2, True), (2, False)]" False] by auto

end
