(* ===== verification/Buffer_Pool.thy ===== *)
theory Buffer_Pool
  imports Fifo_Spec
begin

text \<open>
  \<open>BufferPool\<close> (engine/include/foundation/utils/buffer_pool.h): the pool the codec filters take
  their frames from. A buffer is represented by the size its memory was allocated with. A buffer
  goes back to the pool when its last user drops it (the deleter calls \<open>RecycleBuffer\<close>); who holds
  buffers is \<open>bp_out\<close>. A blocking allocation gets what happens while it waits as \<open>env\<close>.
\<close>

section \<open>State and operations\<close>

record pool =
  bp_free :: "nat list"
  bp_poolSize :: nat
  bp_msgSize :: nat
  bp_align :: nat
  bp_active :: bool
  bp_out :: "nat list"

definition new_pool :: "nat \<Rightarrow> pool" where
  "new_pool n = \<lparr>bp_free = [], bp_poolSize = n, bp_msgSize = 0, bp_align = 0, bp_active = True, bp_out = []\<rparr>"

definition bp_Init :: "nat \<Rightarrow> nat \<Rightarrow> pool \<Rightarrow> pool" where
  "bp_Init msgSize align p =
     (if bp_msgSize p = msgSize \<and> align = bp_align p then p
      else p\<lparr>bp_msgSize := msgSize, bp_align := align, bp_free := replicate (bp_poolSize p) msgSize\<rparr>)"

definition bp_Append :: "nat \<Rightarrow> pool \<Rightarrow> bool \<times> pool" where
  "bp_Append b p =
     (if \<not> bp_active p \<or> length (bp_free p) \<ge> bp_poolSize p then (False, p)
      else (True, p\<lparr>bp_free := bp_free p @ [b]\<rparr>))"

definition bp_SetActive :: "bool \<Rightarrow> pool \<Rightarrow> pool" where
  "bp_SetActive a p = p\<lparr>bp_active := a\<rparr>"

definition bp_RecycleBuffer :: "nat \<Rightarrow> pool \<Rightarrow> pool" where
  "bp_RecycleBuffer b p = p\<lparr>bp_free := bp_free p @ [b], bp_out := remove1 b (bp_out p)\<rparr>"

definition bp_AllocateBufferUnprotected :: "pool \<Rightarrow> nat option \<times> pool" where
  "bp_AllocateBufferUnprotected p =
     (case bp_free p of [] \<Rightarrow> (None, p)
      | b # bs \<Rightarrow> (Some b, p\<lparr>bp_free := bs, bp_out := b # bp_out p\<rparr>))"

definition bp_AllocateBuffer :: "(pool \<Rightarrow> pool) \<Rightarrow> pool \<Rightarrow> nat option \<times> pool" where
  "bp_AllocateBuffer env p =
     (let p1 = (if bp_free p = [] \<and> bp_active p then env p else p)
      in if bp_active p1 then bp_AllocateBufferUnprotected p1 else (None, p1))"

definition bp_AllocateBufferNonBlocking :: "pool \<Rightarrow> nat option \<times> pool" where
  "bp_AllocateBufferNonBlocking p =
     (if bp_free p = [] \<or> \<not> bp_active p then (None, p) else bp_AllocateBufferUnprotected p)"

definition bp_AllocateAppendBufferNonBlocking :: "pool \<Rightarrow> nat option \<times> pool" where
  "bp_AllocateAppendBufferNonBlocking p =
     (if \<not> bp_active p then (None, p)
      else let p1 = (if bp_free p = []
                     then p\<lparr>bp_poolSize := bp_poolSize p + 1, bp_free := [bp_msgSize p]\<rparr> else p)
           in bp_AllocateBufferUnprotected p1)"

definition bp_Size :: "pool \<Rightarrow> nat" where "bp_Size p = length (bp_free p)"
definition bp_Capacity :: "pool \<Rightarrow> nat" where "bp_Capacity p = bp_poolSize p"
definition bp_Empty :: "pool \<Rightarrow> bool" where "bp_Empty p \<longleftrightarrow> bp_free p = []"

section \<open>Properties\<close>

text \<open>What a client does that only takes buffers and gives back what it took.\<close>

datatype pool_op = P_Take | P_Take_Append | P_Give nat | P_Active bool

fun pool_step :: "pool_op \<Rightarrow> pool \<Rightarrow> pool" where
  "pool_step P_Take p = snd (bp_AllocateBufferNonBlocking p)"
| "pool_step P_Take_Append p = snd (bp_AllocateAppendBufferNonBlocking p)"
| "pool_step (P_Give b) p = (if b \<in> set (bp_out p) then bp_RecycleBuffer b p else p)"
| "pool_step (P_Active a) p = bp_SetActive a p"

definition pool_ok :: "pool \<Rightarrow> bool" where
  "pool_ok p \<longleftrightarrow> length (bp_free p) + length (bp_out p) = bp_poolSize p \<and>
     (\<forall>b \<in> set (bp_free p) \<union> set (bp_out p). b = bp_msgSize p)"

lemma pool_step_ok: "pool_ok p \<Longrightarrow> pool_ok (pool_step op p)"
proof (cases op)
  case P_Take
  assume "pool_ok p"
  then show ?thesis unfolding P_Take
    by (cases "bp_free p") (auto simp: pool_ok_def bp_AllocateBufferNonBlocking_def bp_AllocateBufferUnprotected_def)
next
  case P_Take_Append
  assume "pool_ok p"
  then show ?thesis unfolding P_Take_Append
    by (cases "bp_free p")
      (auto simp: pool_ok_def bp_AllocateAppendBufferNonBlocking_def bp_AllocateBufferUnprotected_def Let_def)
next
  case (P_Give b)
  assume ok: "pool_ok p"
  show ?thesis
  proof (cases "b \<in> set (bp_out p)")
    case True
    then have "length (bp_out p) = Suc (length (remove1 b (bp_out p)))"
      using length_pos_if_in_set [OF True] True by (simp add: length_remove1)
    moreover have "set (remove1 b (bp_out p)) \<subseteq> set (bp_out p)" by (rule set_remove1_subset)
    ultimately show ?thesis unfolding P_Give using ok True
      by (auto simp: pool_ok_def bp_RecycleBuffer_def simp del: length_remove1)
  qed (use ok P_Give in simp)
next
  case (P_Active a)
  assume "pool_ok p"
  then show ?thesis unfolding P_Active by (simp add: pool_ok_def bp_SetActive_def)
qed

text \<open>
  The pool loses and invents no buffers: after initialisation, in any sequence of allocations,
  growing allocations and recyclings, the free buffers and those in use together are exactly the
  pool's size, and all have the initialised size.
\<close>

theorem pool_conserves:
  assumes "0 < m"
  shows "let p = fold pool_step ops (bp_Init m 0 (new_pool n)) in
    length (bp_free p) + length (bp_out p) = bp_Capacity p \<and>
    (\<forall>b \<in> set (bp_free p) \<union> set (bp_out p). b = bp_msgSize p)"
proof -
  have i: "pool_ok (bp_Init m 0 (new_pool n))" using assms by (auto simp: pool_ok_def bp_Init_def new_pool_def)
  have "pool_ok p \<Longrightarrow> pool_ok (fold pool_step ops p)" for p
    by (induction ops arbitrary: p) (auto simp: pool_step_ok)
  from this [OF i] show ?thesis by (simp add: pool_ok_def bp_Capacity_def Let_def)
qed

lemma pool_conserves_witness:
  "let p = fold pool_step [P_Take, P_Take_Append, P_Take_Append, P_Give 8] (bp_Init 8 0 (new_pool 2)) in
     length (bp_free p) + length (bp_out p) = bp_Capacity p"
  using pool_conserves [of 8 "[P_Take, P_Take_Append, P_Take_Append, P_Give 8]" 2]
  by (simp add: Let_def)

text \<open>
  Initialising a pool for larger frames while buffers are in use breaks both halves of that: the
  buffers in use come back with their old size, and the pool then holds more buffers than its
  capacity, so a later allocation may hand out a buffer too small for a frame.
\<close>

theorem pool_reinit_stale:
  assumes "0 < m" "m < m'" "0 < n" "bp_AllocateBufferNonBlocking (bp_Init m 0 (new_pool n)) = (Some b, p)"
  shows "b = m \<and> bp_Size (bp_RecycleBuffer b (bp_Init m' 0 p)) = bp_Capacity p + 1 \<and>
    m \<in> set (bp_free (bp_RecycleBuffer b (bp_Init m' 0 p))) \<and> bp_msgSize (bp_RecycleBuffer b (bp_Init m' 0 p)) = m'"
  using assms
  by (cases n) (auto simp: bp_AllocateBufferNonBlocking_def bp_AllocateBufferUnprotected_def bp_Init_def
      new_pool_def bp_RecycleBuffer_def bp_Size_def bp_Capacity_def)

lemma pool_reinit_stale_witness:
  "4 \<in> set (bp_free (bp_RecycleBuffer 4 (bp_Init 9 0 (snd (bp_AllocateBufferNonBlocking (bp_Init 4 0 (new_pool 1)))))))"
proof -
  have "bp_AllocateBufferNonBlocking (bp_Init 4 0 (new_pool 1)) =
      (Some 4, snd (bp_AllocateBufferNonBlocking (bp_Init 4 0 (new_pool 1))))"
    by (simp add: bp_AllocateBufferNonBlocking_def bp_AllocateBufferUnprotected_def bp_Init_def new_pool_def)
  from pool_reinit_stale [OF _ _ _ this, of 9] show ?thesis by simp
qed

end
