(* ===== verification/Std_Map.thy ===== *)
theory Std_Map
  imports Hst_Prelude
begin

text \<open>
  \<open>std::map\<close> as the sources use it: \<open>find\<close>, \<open>operator[]\<close> (which inserts a default element when
  the key is absent), \<open>erase\<close>, \<open>size\<close> and iteration in key order. A map is the list of its
  entries in iteration order. The interface the components rely on is the locale \<open>std_map\<close>.
\<close>

section \<open>The interface\<close>

locale std_map =
  fixes lookup :: "'m \<Rightarrow> 'k::linorder \<Rightarrow> 'v option"
    and put :: "'k \<Rightarrow> 'v \<Rightarrow> 'm \<Rightarrow> 'm"
    and del :: "'k \<Rightarrow> 'm \<Rightarrow> 'm"
    and keys :: "'m \<Rightarrow> 'k list"
    and inv :: "'m \<Rightarrow> bool"
  assumes lookup_put: "lookup (put k v m) k' = (if k' = k then Some v else lookup m k')"
    and lookup_del: "lookup (del k m) k' = (if k' = k then None else lookup m k')"
    and keys_lookup: "k \<in> set (keys m) \<longleftrightarrow> lookup m k \<noteq> None"
    and inv_keys: "inv m \<Longrightarrow> sorted_wrt (<) (keys m)"
    and inv_put: "inv m \<Longrightarrow> inv (put k v m)"
    and inv_del: "inv m \<Longrightarrow> inv (del k m)"
begin

lemma distinct_keys: "inv m \<Longrightarrow> distinct (keys m)"
  using inv_keys by (simp add: strict_sorted_iff)

lemma set_keys_put: "set (keys (put k v m)) = insert k (set (keys m))"
  by (auto simp: keys_lookup lookup_put split: if_splits)

lemma set_keys_del: "set (keys (del k m)) = set (keys m) - {k}"
  by (auto simp: keys_lookup lookup_del split: if_splits)

lemma size_put:
  assumes "inv m"
  shows "length (keys (put k v m)) = (if lookup m k = None then Suc (length (keys m)) else length (keys m))"
proof -
  have "length (keys (put k v m)) = card (insert k (set (keys m)))"
    using assms by (metis distinct_card distinct_keys inv_put set_keys_put)
  then show ?thesis
    using assms by (auto simp: card_insert_if keys_lookup distinct_card [OF distinct_keys])
qed

lemma size_del:
  assumes "inv m"
  shows "length (keys (del k m)) = (if lookup m k = None then length (keys m) else length (keys m) - 1)"
proof -
  have "length (keys (del k m)) = card (set (keys m) - {k})"
    using assms by (metis distinct_card distinct_keys inv_del set_keys_del)
  then show ?thesis
    using assms by (auto simp: card_Diff_singleton_if keys_lookup distinct_card [OF distinct_keys])
qed

lemma size_del_le: "inv m \<Longrightarrow> length (keys (del k m)) \<le> length (keys m)"
  by (simp add: size_del)

lemma sublist_size:
  assumes "inv m" "distinct xs" "\<And>x. x \<in> set xs \<Longrightarrow> lookup m x \<noteq> None"
  shows "length xs \<le> length (keys m)"
proof -
  have "set xs \<subseteq> set (keys m)" using assms(3) by (auto simp: keys_lookup)
  then show ?thesis
    using assms(1,2) by (metis card_mono distinct_card distinct_keys finite_set)
qed

end

section \<open>The implementation: entries in key order\<close>

type_synonym ('k, 'v) smap = "('k \<times> 'v) list"

fun smap_find :: "('k, 'v) smap \<Rightarrow> 'k \<Rightarrow> 'v option" where
  "smap_find [] k = None"
| "smap_find ((a, b) # m) k = (if a = k then Some b else smap_find m k)"

fun smap_put :: "'k::linorder \<Rightarrow> 'v \<Rightarrow> ('k, 'v) smap \<Rightarrow> ('k, 'v) smap" where
  "smap_put k v [] = [(k, v)]"
| "smap_put k v ((a, b) # m) =
     (if k < a then (k, v) # (a, b) # m
      else if k = a then (k, v) # m
      else (a, b) # smap_put k v m)"

fun smap_erase :: "'k \<Rightarrow> ('k, 'v) smap \<Rightarrow> ('k, 'v) smap" where
  "smap_erase k [] = []"
| "smap_erase k ((a, b) # m) = (if a = k then smap_erase k m else (a, b) # smap_erase k m)"

definition smap_keys :: "('k, 'v) smap \<Rightarrow> 'k list" where
  "smap_keys m = map fst m"

definition smap_ok :: "('k::linorder, 'v) smap \<Rightarrow> bool" where
  "smap_ok m \<longleftrightarrow> sorted_wrt (<) (map fst m)"

text \<open>\<open>m[k]\<close> as an expression: the map afterwards has an entry for \<open>k\<close>.\<close>

definition smap_touch :: "'v \<Rightarrow> 'k::linorder \<Rightarrow> ('k, 'v) smap \<Rightarrow> ('k, 'v) smap" where
  "smap_touch d k m = (case smap_find m k of None \<Rightarrow> smap_put k d m | Some _ \<Rightarrow> m)"

definition smap_at :: "'v \<Rightarrow> ('k, 'v) smap \<Rightarrow> 'k \<Rightarrow> 'v" where
  "smap_at d m k = (case smap_find m k of None \<Rightarrow> d | Some v \<Rightarrow> v)"

lemma smap_find_put: "smap_find (smap_put k v m) k' = (if k' = k then Some v else smap_find m k')"
  by (induction k v m rule: smap_put.induct) auto

lemma smap_find_erase: "smap_find (smap_erase k m) k' = (if k' = k then None else smap_find m k')"
  by (induction k m rule: smap_erase.induct) auto

lemma smap_keys_find: "k \<in> set (smap_keys m) \<longleftrightarrow> smap_find m k \<noteq> None"
  by (induction m k rule: smap_find.induct) (auto simp: smap_keys_def)

lemma set_fst_put: "set (map fst (smap_put k v m)) = insert k (set (map fst m))"
  by (induction k v m rule: smap_put.induct) auto

lemma set_fst_erase: "set (map fst (smap_erase k m)) = set (map fst m) - {k}"
  by (induction k m rule: smap_erase.induct) auto

lemma smap_ok_put: "smap_ok m \<Longrightarrow> smap_ok (smap_put k v m)"
proof (induction k v m rule: smap_put.induct)
  case (2 k v a b m)
  then show ?case
    using set_fst_put [of k v m] by (auto simp: smap_ok_def)
qed (simp add: smap_ok_def)

lemma smap_ok_erase: "smap_ok m \<Longrightarrow> smap_ok (smap_erase k m)"
proof (induction k m rule: smap_erase.induct)
  case (2 k a b m)
  then show ?case
    using set_fst_erase [of k m] by (auto simp: smap_ok_def)
qed simp

interpretation sm: std_map smap_find smap_put smap_erase smap_keys smap_ok
proof unfold_locales
  show "smap_ok m \<Longrightarrow> sorted_wrt (<) (smap_keys m)" for m :: "('a, 'b) smap"
    by (simp add: smap_ok_def smap_keys_def)
qed (simp_all only: smap_find_put smap_find_erase smap_keys_find smap_ok_put smap_ok_erase)

lemmas smap_simps [simp] = smap_find_put smap_find_erase

lemma length_smap_keys [simp]: "length (smap_keys m) = length m"
  by (simp add: smap_keys_def)

lemma smap_ok_Nil [simp]: "smap_ok []"
  by (simp add: smap_ok_def)

lemma smap_size_put:
  "smap_ok m \<Longrightarrow> length (smap_put k v m) = (if smap_find m k = None then Suc (length m) else length m)"
  using sm.size_put [of m k v] by simp

lemma smap_size_erase:
  "smap_ok m \<Longrightarrow> length (smap_erase k m) = (if smap_find m k = None then length m else length m - 1)"
  using sm.size_del [of m k] by simp

lemma smap_touch_present [simp]: "smap_find m k = Some e \<Longrightarrow> smap_touch d k m = m"
  by (simp add: smap_touch_def)

lemma smap_at_present [simp]: "smap_find m k = Some e \<Longrightarrow> smap_at d m k = e"
  by (simp add: smap_at_def)

lemma smap_erase_put [simp]: "smap_erase k (smap_put k v m) = smap_erase k m"
  by (induction k v m rule: smap_put.induct) auto

lemma smap_find_member: "smap_ok m \<Longrightarrow> smap_find m k = Some e \<longleftrightarrow> (k, e) \<in> set m"
proof (induction m k rule: smap_find.induct)
  case (2 a b m k)
  then show ?case
    by (auto simp: smap_ok_def)
qed simp

end
