(* ===== verification/Av_Memory.thy ===== *)
theory Av_Memory
  imports Std_Map
begin

unbundle bit_operations_syntax

text \<open>
  \<open>AVBufferConfig\<close> (src/buffer/avbuffer/avbuffer_common.cpp) and \<open>AVMemory\<close>
  (src/buffer/avbuffer/avmemory.cpp): the configuration order the buffer queue reuses buffers
  by, and the bounded byte memory behind a buffer with its positioned \<open>Write\<close> and \<open>Read\<close>.

  \<open>memcpy_s\<close> (securec) and \<open>MessageParcel\<close> (IPC) are not part of the repository: the copies take
  a predicate that says whether a copy of so many bytes returned \<open>EOK\<close>, and the parcel readers
  are arguments. \<open>int32_t\<close> fields are \<open>int\<close>; pointers to \<open>n\<close> bytes are byte lists, \<open>None\<close> for
  \<open>nullptr\<close>.
\<close>

section \<open>Configurations\<close>

datatype mem_type =
  VIRTUAL_MEMORY | SHARED_MEMORY | SURFACE_MEMORY | HARDWARE_MEMORY | UNKNOWN_MEMORY

definition MEMORY_READ_ONLY :: u8 where "MEMORY_READ_ONLY = 1"
definition MEMORY_WRITE_ONLY :: u8 where "MEMORY_WRITE_ONLY = 2"
definition MEMORY_READ_WRITE :: u8 where "MEMORY_READ_WRITE = MEMORY_READ_ONLY OR MEMORY_WRITE_ONLY"

lemma MEMORY_READ_WRITE_eq [simp]: "MEMORY_READ_WRITE = 3"
  by (simp add: MEMORY_READ_WRITE_def MEMORY_READ_ONLY_def MEMORY_WRITE_ONLY_def)

text \<open>\<open>BufferRequestConfig\<close> of the surface buffers (the fields the sources read).\<close>

record surface_config =
  sc_width :: int
  sc_height :: int
  sc_stride :: int
  sc_format :: int
  sc_usage :: u64
  sc_timeout :: int
  sc_gamut :: int
  sc_transform :: int

record av_config =
  cf_size :: int
  cf_align :: int
  cf_memtype :: mem_type
  cf_memflag :: u8
  cf_surface :: surface_config
  cf_dmafd :: int
  cf_capacity :: int

definition default_surface :: surface_config where
  "default_surface = \<lparr>sc_width = 0, sc_height = 0, sc_stride = 0, sc_format = 0, sc_usage = 0,
     sc_timeout = 0, sc_gamut = 0, sc_transform = 0\<rparr>"

definition default_config :: av_config where
  "default_config = \<lparr>cf_size = 0, cf_align = 0, cf_memtype = UNKNOWN_MEMORY,
     cf_memflag = MEMORY_READ_WRITE, cf_surface = default_surface, cf_dmafd = - 1, cf_capacity = 0\<rparr>"

definition config_alloc_size :: "av_config \<Rightarrow> int" where
  "config_alloc_size c = (if cf_align c \<noteq> 0 then cf_capacity c + cf_align c - 1 else cf_capacity c)"

definition surface_agrees :: "surface_config \<Rightarrow> surface_config \<Rightarrow> bool" where
  "surface_agrees a b \<longleftrightarrow>
     sc_width a = sc_width b \<and> sc_height a = sc_height b \<and> sc_stride a = sc_stride b \<and>
     sc_format a = sc_format b \<and> sc_usage a = sc_usage b \<and> sc_transform a = sc_transform b \<and>
     sc_gamut a = sc_gamut b"

definition config_le :: "av_config \<Rightarrow> av_config \<Rightarrow> bool" where
  "config_le c rhs =
     (if cf_memtype c \<noteq> cf_memtype rhs then False
      else (case cf_memtype c of
          VIRTUAL_MEMORY \<Rightarrow> cf_size c \<le> config_alloc_size rhs
        | SHARED_MEMORY \<Rightarrow> cf_size c \<le> config_alloc_size rhs \<and>
            (cf_memflag c = cf_memflag rhs \<or> cf_memflag rhs = MEMORY_READ_WRITE)
        | HARDWARE_MEMORY \<Rightarrow> cf_size c \<le> config_alloc_size rhs \<and>
            (cf_memflag c = cf_memflag rhs \<or> cf_memflag rhs = MEMORY_READ_WRITE)
        | SURFACE_MEMORY \<Rightarrow> surface_agrees (cf_surface c) (cf_surface rhs)
        | _ \<Rightarrow> False))"

lemma config_le_memtype: "config_le c rhs \<Longrightarrow> cf_memtype c = cf_memtype rhs \<and> cf_memtype c \<noteq> UNKNOWN_MEMORY"
  by (auto simp: config_le_def split: if_splits mem_type.splits)

lemma config_le_default [simp]: "\<not> config_le c default_config"
  using config_le_memtype [of c default_config] by (auto simp: default_config_def)

section \<open>The memory\<close>

record av_memory =
  am_type :: mem_type
  am_flag :: u8
  am_capacity :: int
  am_align :: int
  am_offset :: int
  am_size :: int
  am_base :: "u8 list option"
  am_fd :: int
  am_surface :: surface_config

definition INVALID_POSITION :: int where "INVALID_POSITION = - 1"

text \<open>The state a memory is in between two calls.\<close>

definition mem_ok :: "av_memory \<Rightarrow> bool" where
  "mem_ok m \<longleftrightarrow> 0 \<le> am_size m \<and> am_size m \<le> am_capacity m \<and>
     (\<forall>bs. am_base m = Some bs \<longrightarrow> int (length bs) = am_capacity m)"

definition SetSize :: "int \<Rightarrow> av_memory \<Rightarrow> status \<times> av_memory" where
  "SetSize n m = (OK, m\<lparr>am_size := min (am_capacity m) (max 0 n)\<rparr>)"

definition SetOffset :: "int \<Rightarrow> av_memory \<Rightarrow> status \<times> av_memory" where
  "SetOffset off m = (OK, m\<lparr>am_offset := min (am_capacity m) (max 0 off)\<rparr>)"

definition Reset :: "av_memory \<Rightarrow> av_memory" where
  "Reset m = m\<lparr>am_size := 0\<rparr>"

text \<open>Overwriting a slice of the bytes: the effect of a copy into \<open>addr + start\<close>.\<close>

definition blit :: "nat \<Rightarrow> 'a list \<Rightarrow> 'a list \<Rightarrow> 'a list" where
  "blit start src dst = take start dst @ src @ drop (start + length src) dst"

definition Write :: "(int \<Rightarrow> bool) \<Rightarrow> u8 list option \<Rightarrow> int \<Rightarrow> int \<Rightarrow> av_memory \<Rightarrow> int \<times> av_memory" where
  "Write cpy inp writeSize position m =
     (case inp of None \<Rightarrow> (0, m) | Some src \<Rightarrow>
      if \<not> writeSize > 0 then (0, m)
      else if am_flag m AND MEMORY_WRITE_ONLY = 0 then (0, m)
      else (case am_base m of None \<Rightarrow> (0, m) | Some addr \<Rightarrow>
        let start = (if position \<le> INVALID_POSITION then am_size m else min position (am_capacity m));
            unusedSize = am_capacity m - start;
            len = min writeSize unusedSize
        in if \<not> len + start \<le> am_capacity m then (0, m)
           else if \<not> cpy len then (0, m)
           else (len, m\<lparr>am_base := Some (blit (nat start) (take (nat len) src) addr),
                        am_size := start + len\<rparr>)))"

text \<open>The conversion \<open>int32_t\<close> to \<open>size_t\<close> of \<open>Read\<close>.\<close>

definition to_size_t :: "int \<Rightarrow> int" where
  "to_size_t x = x mod 2 ^ 64"

definition Read :: "(int \<Rightarrow> bool) \<Rightarrow> bool \<Rightarrow> int \<Rightarrow> int \<Rightarrow> av_memory \<Rightarrow> int \<times> u8 list" where
  "Read cpy outNonNull readSize position m =
     (if \<not> outNonNull then (0, [])
      else if \<not> readSize > 0 then (0, [])
      else if am_flag m AND MEMORY_READ_ONLY = 0 then (0, [])
      else (case am_base m of None \<Rightarrow> (0, []) | Some addr \<Rightarrow>
        let start = (if position > INVALID_POSITION then min position (am_size m) else 0);
            maxLength = (if position > INVALID_POSITION then to_size_t (am_size m - start)
                         else to_size_t (am_size m));
            len = min (to_size_t readSize) maxLength
        in if \<not> len + start \<le> am_capacity m then (0, [])
           else if \<not> cpy len then (0, [])
           else (len, take (nat len) (drop (nat start) addr))))"

text \<open>
  \<open>ReadCommonFromMessageParcel\<close>: the readers return success, the value and the rest of the
  parcel. The validations are the ones of the code.
\<close>

definition ReadCommonFromMessageParcel ::
  "('p \<Rightarrow> 'p) \<Rightarrow> ('p \<Rightarrow> bool \<times> 'p) \<Rightarrow> ('p \<Rightarrow> bool \<times> int \<times> 'p) \<Rightarrow> 'p \<Rightarrow> av_memory
     \<Rightarrow> bool \<times> av_memory \<times> 'p" where
  "ReadCommonFromMessageParcel skipU64 rdString rdI32 p m =
     (let p0 = skipU64 p; (ok1, p1) = rdString p0;
          (ok2, cap, p2) = (if ok1 then rdI32 p1 else (False, am_capacity m, p1));
          m2 = m\<lparr>am_capacity := cap\<rparr>
      in if \<not> cap \<ge> 0 then (False, m2, p2)
         else let (ok3, al, p3) = rdI32 p2; m3 = m2\<lparr>am_align := al\<rparr>
      in if \<not> al \<ge> 0 then (False, m3, p3)
         else let (ok4, off, p4) = rdI32 p3; m4 = m3\<lparr>am_offset := off\<rparr>
      in if \<not> off \<ge> 0 then (False, m4, p4)
         else let (ok5, sz, p5) = rdI32 p4; m5 = m4\<lparr>am_size := sz\<rparr>
      in if \<not> (sz \<ge> 0 \<or> cap < sz) then (False, m5, p5)
         else (ok1 \<and> ok2 \<and> ok3 \<and> ok4 \<and> ok5, m5, p5))"

section \<open>Allocation\<close>

text \<open>
  \<open>AlignUp\<close> (src/buffer/avbuffer/include/avbuffer_utils.h) on 64-bit addresses, and
  \<open>AVVirtualMemory::Init\<close>: \<open>alloc n\<close> is the address the allocator returns for \<open>n\<close> bytes.
\<close>

definition AlignUp :: "u64 \<Rightarrow> u64 \<Rightarrow> u64" where
  "AlignUp num alignment =
     (if alignment > 0 then (num + alignment - 1) AND NOT (alignment - 1) else num)"

definition AVVirtualMemory_Init :: "(int \<Rightarrow> (u64 \<times> u8 list) option) \<Rightarrow> av_memory \<Rightarrow> status \<times> av_memory" where
  "AVVirtualMemory_Init alloc m =
     (let allocSize = (if am_align m \<noteq> 0 then am_capacity m + am_align m - 1 else am_capacity m)
      in case alloc allocSize of
           None \<Rightarrow> (ERROR_NO_MEMORY, m\<lparr>am_base := None\<rparr>)
         | Some (addrBase, bytes) \<Rightarrow>
             (OK, m\<lparr>am_base := Some bytes,
                    am_offset := uint (AlignUp addrBase (word_of_int (am_offset m)) - addrBase)\<rparr>))"

section \<open>Facts\<close>

lemma length_blit: "start + length src \<le> length dst \<Longrightarrow> length (blit start src dst) = length dst"
  by (simp add: blit_def)

lemma blit_slice: "start + length src \<le> length dst \<Longrightarrow>
    take (length src) (drop start (blit start src dst)) = src"
  by (simp add: blit_def)

lemma blit_nth_outside:
  assumes "start + length src \<le> length dst" "i < length dst" "i < start \<or> start + length src \<le> i"
  shows "blit start src dst ! i = dst ! i"
  using assms by (auto simp: blit_def nth_append min_def)

lemma to_size_t_nonneg: "0 \<le> x \<Longrightarrow> x < 2 ^ 64 \<Longrightarrow> to_size_t x = x"
  by (simp add: to_size_t_def)


text \<open>The position a \<open>Write\<close> starts at, and how much of it is stored.\<close>

definition write_start :: "int \<Rightarrow> av_memory \<Rightarrow> int" where
  "write_start position m =
     (if position \<le> INVALID_POSITION then am_size m else min position (am_capacity m))"

lemma Write_cases:
  assumes w: "Write cpy inp n position m = (k, m')"
  obtains (unchanged) "k = 0" "m' = m"
    | (stored) src addr where "inp = Some src" "am_base m = Some addr" "0 < n"
        "k = min n (am_capacity m - write_start position m)"
        "m' = m\<lparr>am_base := Some (blit (nat (write_start position m)) (take (nat k) src) addr),
               am_size := write_start position m + k\<rparr>"
proof (cases "(k, m') = (0, m)")
  case True
  with unchanged show ?thesis by simp
next
  case False
  obtain src where src: "inp = Some src" using w False by (cases inp) (auto simp: Write_def)
  obtain addr where addr: "am_base m = Some addr"
    using w False src by (cases "am_base m") (auto simp: Write_def split: if_splits)
  have pos: "0 < n" using w False src by (cases "0 < n") (auto simp: Write_def)
  let ?st = "write_start position m" and ?k = "min n (am_capacity m - write_start position m)"
  have "Write cpy inp n position m = (0, m) \<or>
      Write cpy inp n position m =
        (?k, m\<lparr>am_base := Some (blit (nat ?st) (take (nat ?k) src) addr), am_size := ?st + ?k\<rparr>)"
    unfolding Write_def write_start_def by (simp add: src addr pos Let_def)
  with w False have "(k, m') =
      (?k, m\<lparr>am_base := Some (blit (nat ?st) (take (nat ?k) src) addr), am_size := ?st + ?k\<rparr>)"
    by metis
  with stored [OF src addr pos] show ?thesis by simp
qed

lemma write_start_range: "mem_ok m \<Longrightarrow> 0 \<le> write_start position m \<and> write_start position m \<le> am_capacity m"
  by (auto simp: write_start_def mem_ok_def INVALID_POSITION_def)

text \<open>
  A write never leaves its memory: from a well-formed memory it stores at most what was
  asked and at most what fits, keeps the size within the capacity and the byte array at its
  length, and changes no byte outside the slice it reports.
\<close>

theorem Write_in_bounds:
  assumes ok: "mem_ok m" and src: "\<forall>src. inp = Some src \<longrightarrow> n \<le> int (length src)"
    and w: "Write cpy inp n position m = (k, m')"
  shows "0 \<le> k \<and> (0 < n \<longrightarrow> k \<le> n) \<and> mem_ok m' \<and> am_capacity m' = am_capacity m \<and>
    (\<forall>addr addr' i. am_base m = Some addr \<longrightarrow> am_base m' = Some addr' \<longrightarrow> i < length addr \<longrightarrow>
       int i < write_start position m \<or> write_start position m + k \<le> int i \<longrightarrow> addr' ! i = addr ! i)"
  using w
proof (cases rule: Write_cases)
  case unchanged
  with ok show ?thesis by auto
next
  case (stored s addr)
  define st where "st = write_start position m"
  have r: "0 \<le> st" "st \<le> am_capacity m" using write_start_range [OF ok, of position] by (auto simp: st_def)
  have k: "0 \<le> k" "k \<le> n" "st + k \<le> am_capacity m" using stored(3,4) r by (auto simp: st_def)
  define new where "new = blit (nat st) (take (nat k) s) addr"
  have m': "m' = m\<lparr>am_base := Some new, am_size := st + k\<rparr>"
    using stored(5) by (simp add: st_def new_def)
  have ls: "length (take (nat k) s) = nat k" using stored(1) src k by auto
  have la: "int (length addr) = am_capacity m" using ok stored(2) by (simp add: mem_ok_def)
  have fits: "nat st + length (take (nat k) s) \<le> length addr" using r k ls la by linarith
  have len: "length new = length addr" unfolding new_def by (rule length_blit [OF fits])
  have frame: "new ! i = addr ! i" if "i < length addr" "int i < st \<or> st + k \<le> int i" for i
    unfolding new_def by (rule blit_nth_outside [OF fits]) (use that r k ls in auto)
  have "mem_ok m'" using r k la len by (simp add: m' mem_ok_def)
  then show ?thesis
    using k frame stored(2) by (auto simp: m' st_def [symmetric])
qed

text \<open>
  What was written can be read back: a write of \<open>n\<close> bytes that fits, at an explicit
  position of a readable and writable memory, returns \<open>n\<close>, and a read of \<open>n\<close> bytes at the same
  position returns exactly those bytes.
\<close>

theorem Write_Read_roundtrip:
  assumes ok: "mem_ok m" and base: "am_base m \<noteq> None" and flag: "am_flag m = MEMORY_READ_WRITE"
    and n: "0 < n" "n = int (length src)" and pos: "0 \<le> pos" "pos + n \<le> am_capacity m"
    and cap: "am_capacity m < 2 ^ 31" and cpy: "cpy n"
  shows "fst (Write cpy (Some src) n pos m) = n \<and>
    Read cpy True n pos (snd (Write cpy (Some src) n pos m)) = (n, src)"
proof -
  obtain addr where addr: "am_base m = Some addr" using base by auto
  have la: "int (length addr) = am_capacity m" using ok addr by (simp add: mem_ok_def)
  have fits: "nat pos + length src \<le> length addr" using n pos la by linarith
  have len_src: "take (nat n) src = src" using n by simp
  have w: "Write cpy (Some src) n pos m =
      (n, m\<lparr>am_base := Some (blit (nat pos) src addr), am_size := pos + n\<rparr>)"
    using n(1) pos cpy addr flag len_src
    by (simp add: Write_def Let_def INVALID_POSITION_def MEMORY_WRITE_ONLY_def)
  have "take (nat n) (drop (nat pos) (blit (nat pos) src addr)) = src"
    using blit_slice [OF fits] n by simp
  moreover have "to_size_t n = n" using n pos cap by (intro to_size_t_nonneg) auto
  ultimately show ?thesis
    using n(1) pos cpy flag
    by (simp add: w Read_def Let_def INVALID_POSITION_def MEMORY_READ_ONLY_def)
qed

definition sample_memory :: av_memory where
  "sample_memory = \<lparr>am_type = VIRTUAL_MEMORY, am_flag = 3, am_capacity = 4, am_align = 0,
     am_offset = 0, am_size = 0, am_base = Some [0, 0, 0, 0],
     am_fd = - 1, am_surface = default_surface\<rparr>"


theorem Write_in_bounds_witness:
  "mem_ok (snd (Write (\<lambda>_. True) (Some [1, 2, 3, 4, 5, 6]) 6 2 sample_memory)) \<and>
   fst (Write (\<lambda>_. True) (Some [1, 2, 3, 4, 5, 6]) 6 2 sample_memory) = 2"
proof -
  have ok: "mem_ok sample_memory" by (simp add: mem_ok_def sample_memory_def)
  have w: "Write (\<lambda>_. True) (Some [1, 2, 3, 4, 5, 6]) 6 2 sample_memory =
      (2, sample_memory\<lparr>am_base := Some [0, 0, 1, 2], am_size := 4\<rparr>)"
    by (simp add: Write_def sample_memory_def INVALID_POSITION_def MEMORY_WRITE_ONLY_def blit_def)
  show ?thesis
    using Write_in_bounds [OF ok _ w] by (simp add: w)
qed

theorem Write_Read_roundtrip_witness:
  "Read (\<lambda>_. True) True 2 1 (snd (Write (\<lambda>_. True) (Some [7, 8]) 2 1 sample_memory)) = (2, [7, 8])"
  by (rule Write_Read_roundtrip [THEN conjunct2])
    (simp_all add: sample_memory_def mem_ok_def)

text \<open>
  \<open>AVVirtualMemory::Init\<close> never aligns: it calls \<open>AlignUp\<close> with \<open>offset_\<close>, which the
  constructor set to 0, where the alignment belongs. So for every requested \<open>align\<close> the offset
  stays 0 and the data starts at the unaligned base, although \<open>align - 1\<close> bytes more were
  allocated for it.
\<close>

theorem Init_never_aligns:
  assumes "am_offset m = 0"
  shows "am_offset (snd (AVVirtualMemory_Init alloc m)) = 0"
  using assms by (auto simp: AVVirtualMemory_Init_def Let_def AlignUp_def split: option.splits)

theorem Init_never_aligns_witness:
  "am_offset (snd (AVVirtualMemory_Init (\<lambda>n. Some (8193, replicate (nat n) 0))
     (sample_memory\<lparr>am_align := 64\<rparr>))) = 0 \<and> AlignUp 8193 64 = 8256"
proof -
  have "am_offset (sample_memory\<lparr>am_align := 64\<rparr>) = 0" by (simp add: sample_memory_def)
  from Init_never_aligns [OF this] show ?thesis by (simp add: AlignUp_def)
qed

text \<open>
  The size check of \<open>ReadCommonFromMessageParcel\<close> accepts any parcel that announces more
  data than the memory holds: whatever capacity, alignment and offset are read, a size above the
  capacity passes, and the memory is left with \<open>size_ > capacity_\<close>.
\<close>

theorem ReadCommon_accepts_oversize:
  assumes "rdString (skipU64 p) = (True, p1)" "rdI32 p1 = (True, cap, p2)"
    "rdI32 p2 = (True, al, p3)" "rdI32 p3 = (True, off, p4)" "rdI32 p4 = (True, sz, p5)"
    and "0 \<le> cap" "0 \<le> al" "0 \<le> off" "cap < sz"
  shows "\<exists>m'. ReadCommonFromMessageParcel skipU64 rdString rdI32 p m = (True, m', p5) \<and>
    am_size m' > am_capacity m' \<and> \<not> mem_ok m'"
  using assms by (simp add: ReadCommonFromMessageParcel_def Let_def mem_ok_def)

text \<open>A parcel as the list of the numbers still to be read.\<close>

definition list_reader :: "int list \<Rightarrow> bool \<times> int \<times> int list" where
  "list_reader p = (case p of [] \<Rightarrow> (False, 0, []) | x # r \<Rightarrow> (True, x, r))"

theorem ReadCommon_accepts_oversize_witness:
  "\<exists>m'. ReadCommonFromMessageParcel id (\<lambda>p. (True, p)) list_reader [4, 0, 0, 100] sample_memory
     = (True, m', []) \<and> am_size m' > am_capacity m' \<and> \<not> mem_ok m'"
  by (rule ReadCommon_accepts_oversize [where cap = 4 and al = 0 and off = 0 and sz = 100
      and ?p1.0 = "[4, 0, 0, 100]" and ?p2.0 = "[0, 0, 100]" and ?p3.0 = "[0, 100]" and ?p4.0 = "[100]"])
    (simp_all add: list_reader_def)

end
