(* ===== verification/Plugin_Buffer.thy ===== *)
theory Plugin_Buffer
  imports Av_Memory
begin

text \<open>
  \<open>Plugin::Memory\<close> and the part of \<open>Plugin::Buffer\<close> the data packer uses
  (engine/plugin/common/plugin_buffer.cpp): a block of bytes of fixed capacity with a data size.
  \<open>size_t\<close> values are naturals, sums of them wrap at 64 bits (\<open>add64\<close>); \<open>INVALID_POSITION\<close> is
  the largest \<open>size_t\<close>. A pointer into the memory is the position it points to. An \<open>AVBufferPtr\<close>
  that is null or has no memory is \<open>None\<close> where the code tests for it.
\<close>

section \<open>Integer conversions\<close>

definition add64 :: "nat \<Rightarrow> nat \<Rightarrow> nat" where "add64 a b = (a + b) mod 2 ^ 64"
definition to_u32 :: "int \<Rightarrow> nat" where "to_u32 x = nat (x mod 2 ^ 32)"
definition to_i32 :: "int \<Rightarrow> int" where "to_i32 x = (x + 2 ^ 31) mod 2 ^ 32 - 2 ^ 31"

lemma add64_eq: "a + b < 2 ^ 64 \<Longrightarrow> add64 a b = a + b"
  by (simp add: add64_def)

lemma to_u32_eq: "0 \<le> x \<Longrightarrow> x < 2 ^ 32 \<Longrightarrow> to_u32 x = nat x"
  by (simp add: to_u32_def)

lemma to_i32_eq: "- (2 ^ 31) \<le> x \<Longrightarrow> x < 2 ^ 31 \<Longrightarrow> to_i32 x = x"
  by (simp add: to_i32_def)

section \<open>Memory\<close>

record pmem =
  pm_bytes :: "u8 list"
  pm_size :: nat

definition PM_INVALID_POSITION :: nat where "PM_INVALID_POSITION = 2 ^ 64 - 1"

definition new_pmem :: "u8 list \<Rightarrow> pmem" where
  "new_pmem raw = \<lparr>pm_bytes = raw, pm_size = 0\<rparr>"

definition pm_GetCapacity :: "pmem \<Rightarrow> nat" where "pm_GetCapacity m = length (pm_bytes m)"
definition pm_GetSize :: "pmem \<Rightarrow> nat" where "pm_GetSize m = pm_size m"
definition pm_Reset :: "pmem \<Rightarrow> pmem" where "pm_Reset m = m\<lparr>pm_size := 0\<rparr>"

text \<open>\<open>inp\<close> are the \<open>writeSize\<close> bytes at the source pointer.\<close>

definition pm_Write :: "u8 list \<Rightarrow> nat \<Rightarrow> pmem \<Rightarrow> nat \<times> pmem" where
  "pm_Write inp position m =
     (let start = (if position = PM_INVALID_POSITION then pm_size m else min position (pm_GetCapacity m));
          len = min (length inp) (pm_GetCapacity m - start)
      in (len, m\<lparr>pm_bytes := blit start (take len inp) (pm_bytes m), pm_size := start + len\<rparr>))"

definition pm_Read :: "nat \<Rightarrow> nat \<Rightarrow> pmem \<Rightarrow> u8 list" where
  "pm_Read readSize position m =
     (let start = (if position = PM_INVALID_POSITION then 0 else min position (pm_size m));
          maxLength = (if position = PM_INVALID_POSITION then pm_size m else pm_size m - start)
      in take (min readSize maxLength) (drop start (pm_bytes m)))"

definition pm_GetReadOnlyData :: "nat \<Rightarrow> pmem \<Rightarrow> nat option" where
  "pm_GetReadOnlyData position m = (if position > pm_GetCapacity m then None else Some position)"

definition pm_GetWritableAddr :: "nat \<Rightarrow> nat \<Rightarrow> pmem \<Rightarrow> (nat \<times> pmem) option" where
  "pm_GetWritableAddr estimated position m =
     (if add64 position estimated > pm_GetCapacity m then None
      else Some (position, m\<lparr>pm_size := add64 estimated position\<rparr>))"

definition pm_UpdateDataSize :: "nat \<Rightarrow> nat \<Rightarrow> pmem \<Rightarrow> pmem" where
  "pm_UpdateDataSize real position m =
     (if add64 position real > pm_GetCapacity m then m else m\<lparr>pm_size := add64 real position\<rparr>)"

section \<open>Buffers\<close>

record abuf =
  ab_mem :: pmem
  ab_pts :: int
  ab_dts :: int

text \<open>The valid data of a buffer, and a buffer that holds given bytes.\<close>

definition payload :: "abuf \<Rightarrow> u8 list" where
  "payload b = take (pm_size (ab_mem b)) (pm_bytes (ab_mem b))"

definition buf_ok :: "abuf \<Rightarrow> bool" where
  "buf_ok b \<longleftrightarrow> 0 < pm_size (ab_mem b) \<and> pm_size (ab_mem b) \<le> length (pm_bytes (ab_mem b))"

definition buf_of :: "u8 list \<Rightarrow> abuf" where
  "buf_of xs = \<lparr>ab_mem = \<lparr>pm_bytes = xs, pm_size = length xs\<rparr>, ab_pts = 0, ab_dts = 0\<rparr>"

definition fresh_buf :: "nat \<Rightarrow> abuf" where
  "fresh_buf n = \<lparr>ab_mem = new_pmem (replicate n 0), ab_pts = 0, ab_dts = 0\<rparr>"

lemma length_payload: "buf_ok b \<Longrightarrow> length (payload b) = pm_size (ab_mem b)"
  by (simp add: payload_def buf_ok_def)

lemma payload_buf_of [simp]: "payload (buf_of xs) = xs"
  by (simp add: payload_def buf_of_def)

lemma buf_ok_buf_of [simp]: "buf_ok (buf_of xs) \<longleftrightarrow> xs \<noteq> []"
  by (simp add: buf_ok_def buf_of_def)

lemma take_drop_payload:
  "buf_ok b \<Longrightarrow> off + n \<le> pm_size (ab_mem b) \<Longrightarrow> take n (drop off (pm_bytes (ab_mem b))) = take n (drop off (payload b))"
  by (simp add: payload_def buf_ok_def drop_take min_def)

lemma blit_append:
  assumes "start + length a + length b \<le> length dst"
  shows "blit (start + length a) b (blit start a dst) = blit start (a @ b) dst"
proof -
  have "take (start + length a) (blit start a dst) = take start dst @ a"
    using assms by (simp add: blit_def)
  moreover have "drop (start + length a + length b) (blit start a dst) = drop (start + (length a + length b)) dst"
    using assms by (simp add: blit_def ac_simps)
  ultimately show ?thesis by (simp add: blit_def)
qed

lemma take_blit0: "take (length a) (blit 0 a dst) = a"
  by (simp add: blit_def)

end
