(* ===== verification/Data_Packer.thy ===== *)
theory Data_Packer
  imports Plugin_Buffer
begin

text \<open>
  \<open>DataPacker\<close> (engine/pipeline/filters/demux/data_packer.{h,cpp}): the window of the media file
  the demuxer keeps in memory, a queue of buffers whose first byte is at \<open>mediaOffset_\<close>. Ranges
  are peeked and got across buffer boundaries; what was got is removed.

  Sizes and offsets are naturals; \<open>uint64_t\<close> sums wrap (\<open>add64\<close>), \<open>size_\<close> is 32 bits wide
  (\<open>to_u32\<close>), casts to \<open>int32_t\<close> are \<open>to_i32\<close>. A wait on a condition variable is a list of what
  the other threads do each time the waiting thread sleeps; a wait that is not over when the list
  ends answers \<open>None\<close>. \<open>memcpy_s\<close> copies, as it does for the lengths the code passes.
\<close>

section \<open>State\<close>

record position =
  ps_index :: int
  ps_bufferOffset :: nat
  ps_mediaOffset :: nat

definition position_less :: "position \<Rightarrow> position \<Rightarrow> bool" where
  "position_less p q =
     (if ps_index p < 0 \<or> ps_index q < 0 then False
      else if ps_index p \<noteq> ps_index q then ps_index p < ps_index q
      else ps_bufferOffset p < ps_bufferOffset q)"

definition INVALID_DP_POSITION :: position where
  "INVALID_DP_POSITION = \<lparr>ps_index = - 1, ps_bufferOffset = 0, ps_mediaOffset = 0\<rparr>"

definition MAX_BUFFER_NUMBER :: nat where "MAX_BUFFER_NUMBER = 30"

record packer =
  dp_que :: "abuf list"
  dp_size :: nat
  dp_mediaOffset :: nat
  dp_pts :: int
  dp_dts :: int
  dp_isEos :: bool
  dp_prevGet :: position
  dp_currentGet :: position
  dp_stopped :: bool

definition new_packer :: packer where
  "new_packer = \<lparr>dp_que = [], dp_size = 0, dp_mediaOffset = 0, dp_pts = 0, dp_dts = 0, dp_isEos = False,
     dp_prevGet = INVALID_DP_POSITION, dp_currentGet = INVALID_DP_POSITION, dp_stopped = False\<rparr>"

definition GetBufferSize :: "abuf \<Rightarrow> nat" where "GetBufferSize b = pm_GetSize (ab_mem b)"

section \<open>Removing data\<close>

definition dp_FlushInternal :: "packer \<Rightarrow> packer" where
  "dp_FlushInternal p = p\<lparr>dp_que := [], dp_size := 0, dp_mediaOffset := 0, dp_dts := 0, dp_pts := 0,
     dp_isEos := False, dp_prevGet := INVALID_DP_POSITION, dp_currentGet := INVALID_DP_POSITION\<rparr>"

definition UpdateWhenFrontDataRemoved :: "nat \<Rightarrow> packer \<Rightarrow> bool \<times> packer" where
  "UpdateWhenFrontDataRemoved removeSize p =
     (let p1 = p\<lparr>dp_mediaOffset := add64 (dp_mediaOffset p) removeSize\<rparr>
      in if dp_size p1 \<ge> removeSize then (True, p1\<lparr>dp_size := dp_size p1 - removeSize\<rparr>) else (False, p1))"

text \<open>\<open>RemoveBufferContent\<close> moves the rest of the buffer, here the front one, to its start.\<close>

definition shift_buffer :: "nat \<Rightarrow> abuf \<Rightarrow> abuf" where
  "shift_buffer removeSize b =
     (let m = ab_mem b; copySize = pm_GetSize m - removeSize
      in b\<lparr>ab_mem := m\<lparr>pm_bytes := blit 0 (take copySize (drop removeSize (pm_bytes m))) (pm_bytes m),
                        pm_size := copySize\<rparr>\<rparr>)"

definition RemoveBufferContent :: "nat \<Rightarrow> packer \<Rightarrow> packer" where
  "RemoveBufferContent removeSize p =
     (if removeSize = 0 then p
      else case dp_que p of [] \<Rightarrow> p
      | b # bs \<Rightarrow>
          if \<not> removeSize < GetBufferSize b then p
          else snd (UpdateWhenFrontDataRemoved removeSize (p\<lparr>dp_que := shift_buffer removeSize b # bs\<rparr>)))"

text \<open>The loop of \<open>RemoveTo\<close> that removes up to \<open>n\<close> whole buffers.\<close>

fun remove_whole :: "nat \<Rightarrow> packer \<Rightarrow> bool \<times> packer" where
  "remove_whole 0 p = (True, p)"
| "remove_whole (Suc n) p =
     (case dp_que p of [] \<Rightarrow> (True, p)
      | b # bs \<Rightarrow>
          (case UpdateWhenFrontDataRemoved (GetBufferSize b) p of (ok, p1) \<Rightarrow>
             if \<not> ok then (False, p1) else remove_whole n (p1\<lparr>dp_que := bs\<rparr>)))"

definition RemoveTo :: "position \<Rightarrow> packer \<Rightarrow> bool \<times> packer" where
  "RemoveTo pos p =
     (case remove_whole (nat (ps_index pos)) p of (ok, p1) \<Rightarrow>
      if \<not> ok then (False, p1)
      else case dp_que p1 of [] \<Rightarrow> (True, p1)
      | b # bs \<Rightarrow>
          let removeSize = GetBufferSize b
          in if ps_bufferOffset pos \<ge> removeSize then
               (case UpdateWhenFrontDataRemoved removeSize p1 of (ok2, p2) \<Rightarrow>
                  if \<not> ok2 then (False, p2) else (True, p2\<lparr>dp_que := bs\<rparr>))
             else (True, RemoveBufferContent (ps_bufferOffset pos) p1))"

definition RemoveOldData :: "position \<Rightarrow> packer \<Rightarrow> packer" where
  "RemoveOldData pos p =
     (let p1 = snd (RemoveTo pos p)
      in case dp_que p1 of
           [] \<Rightarrow> p1\<lparr>dp_mediaOffset := 0, dp_size := 0, dp_pts := 0, dp_dts := 0\<rparr>
         | b # _ \<Rightarrow> p1\<lparr>dp_pts := ab_pts b, dp_dts := ab_dts b\<rparr>)"

section \<open>Copying\<close>

text \<open>The index and media offset of the first buffer to copy from.\<close>

fun FindFirstBufferToCopy :: "nat \<Rightarrow> nat \<Rightarrow> nat \<Rightarrow> abuf list \<Rightarrow> (nat \<times> nat) option" where
  "FindFirstBufferToCopy offset startIndex prevOffset [] = None"
| "FindFirstBufferToCopy offset startIndex prevOffset (b # bs) =
     (if offset \<ge> prevOffset \<and> offset - prevOffset < GetBufferSize b then Some (startIndex, prevOffset)
      else FindFirstBufferToCopy offset (Suc startIndex) (add64 prevOffset (GetBufferSize b)) bs)"

text \<open>Copies go into the destination buffer at position \<open>at\<close>, the pointer \<open>dstPtr\<close>.\<close>

definition store :: "nat \<Rightarrow> u8 list \<Rightarrow> abuf \<Rightarrow> abuf" where
  "store at xs b = b\<lparr>ab_mem := (ab_mem b)\<lparr>pm_bytes := blit at xs (pm_bytes (ab_mem b))\<rparr>\<rparr>"

definition CopyFirstBuffer :: "nat \<Rightarrow> abuf \<Rightarrow> nat \<Rightarrow> abuf \<Rightarrow> nat \<Rightarrow> nat \<times> abuf" where
  "CopyFirstBuffer sz src at dst bufferOffset =
     (let remainSize = to_i32 (int (GetBufferSize src) - int bufferOffset)
      in if \<not> remainSize > 0 then (0, dst)
         else let copySize = min (nat remainSize) sz
              in (copySize, (store at (take copySize (drop bufferOffset (pm_bytes (ab_mem src)))) dst)
                    \<lparr>ab_pts := ab_pts src, ab_dts := ab_dts src\<rparr>))"

text \<open>The loop of \<open>CopyFromSuccessiveBuffer\<close>, over the buffers after the first.\<close>

fun CopyFromSuccessiveBuffer :: "nat \<Rightarrow> nat \<Rightarrow> nat \<Rightarrow> nat \<Rightarrow> abuf \<Rightarrow> abuf list \<Rightarrow> nat \<times> abuf" where
  "CopyFromSuccessiveBuffer prevOffset offsetEnd at needCopySize dst [] = (needCopySize, dst)"
| "CopyFromSuccessiveBuffer prevOffset offsetEnd at needCopySize dst (b # bs) =
     (let curOffsetEnd = add64 prevOffset (GetBufferSize b)
      in if curOffsetEnd \<ge> offsetEnd then (0, store at (take needCopySize (pm_bytes (ab_mem b))) dst)
         else let copySize = GetBufferSize b
              in CopyFromSuccessiveBuffer (add64 prevOffset copySize) offsetEnd (at + copySize)
                   (to_u32 (int needCopySize - int copySize))
                   (store at (take copySize (pm_bytes (ab_mem b))) dst) bs)"

definition update_size :: "nat \<Rightarrow> abuf \<Rightarrow> abuf" where
  "update_size n b = b\<lparr>ab_mem := pm_UpdateDataSize n 0 (ab_mem b)\<rparr>"

text \<open>The callers wait for data first, so the queue is not empty here.\<close>

definition PeekRangeInternal :: "nat \<Rightarrow> nat \<Rightarrow> abuf \<Rightarrow> bool \<Rightarrow> packer \<Rightarrow> bool \<times> abuf \<times> packer" where
  "PeekRangeInternal offset sz dst isGet p =
     (case pm_GetWritableAddr sz 0 (ab_mem dst) of None \<Rightarrow> (False, dst, p)
      | Some (at, m) \<Rightarrow>
     (let dst1 = dst\<lparr>ab_mem := m\<rparr>;
          offsetEnd = add64 offset sz;
          note_get = (\<lambda>i off. if isGet
             then p\<lparr>dp_currentGet := \<lparr>ps_index = int i, ps_bufferOffset = off, ps_mediaOffset = offset\<rparr>\<rparr> else p);
          first = hd (dp_que p)
      in if offsetEnd \<le> add64 (dp_mediaOffset p) (GetBufferSize first) then
           let bufferOffset = to_i32 (int offset - int (dp_mediaOffset p))
           in if \<not> bufferOffset \<ge> 0 then (False, dst1, p)
              else let dst2 = snd (CopyFirstBuffer sz first at dst1 (nat bufferOffset))
                   in (True, dst2, note_get 0 (nat bufferOffset))
         else (case FindFirstBufferToCopy offset 0 (dp_mediaOffset p) (dp_que p) of None \<Rightarrow> (False, dst1, p)
         | Some (startIndex, prevOffset) \<Rightarrow>
           let bufferOffset = to_i32 (int offset - int prevOffset)
           in if \<not> bufferOffset \<ge> 0 then (False, dst1, p)
              else (case CopyFirstBuffer sz (dp_que p ! startIndex) at dst1 (nat bufferOffset) of (copySize, dst2) \<Rightarrow>
                let needCopySize = to_u32 (int sz - int copySize)
                in if needCopySize = 0 then (True, dst2, note_get startIndex (nat bufferOffset))
                   else (case CopyFromSuccessiveBuffer (add64 prevOffset (GetBufferSize (dp_que p ! startIndex)))
                           offsetEnd (at + copySize) needCopySize dst2 (drop (Suc startIndex) (dp_que p)) of (need, dst3) \<Rightarrow>
                     (True, update_size (to_u32 (int sz - int need)) dst3,
                      note_get startIndex (nat bufferOffset)))))))"

section \<open>Operations\<close>

text \<open>The wait for room in \<open>PushData\<close>: whether the push goes on.\<close>

fun wait_room :: "(packer \<Rightarrow> packer) list \<Rightarrow> packer \<Rightarrow> (bool \<times> packer) option" where
  "wait_room env p =
     (if dp_stopped p then Some (False, p)
      else if length (dp_que p) < MAX_BUFFER_NUMBER then Some (True, p)
      else (case env of [] \<Rightarrow> None | e # es \<Rightarrow> wait_room es (e p)))"

definition push_now :: "abuf \<Rightarrow> nat \<Rightarrow> packer \<Rightarrow> packer" where
  "push_now b offset p =
     (let p1 = p\<lparr>dp_size := to_u32 (int (dp_size p) + int (GetBufferSize b))\<rparr>;
          p2 = (if dp_que p1 = [] then p1\<lparr>dp_mediaOffset := offset, dp_dts := ab_dts b, dp_pts := ab_pts b\<rparr> else p1)
      in p2\<lparr>dp_que := dp_que p2 @ [b]\<rparr>)"

definition dp_PushData :: "(packer \<Rightarrow> packer) list \<Rightarrow> abuf \<Rightarrow> nat \<Rightarrow> packer \<Rightarrow> packer option" where
  "dp_PushData env b offset p =
     (if \<not> GetBufferSize b > 0 then Some p
      else if length (dp_que p) \<ge> MAX_BUFFER_NUMBER then
        (case wait_room env p of None \<Rightarrow> None
         | Some (room, p1) \<Rightarrow> Some (if room then push_now b offset p1 else p1))
      else Some (push_now b offset p))"

text \<open>The scan of \<open>IsDataAvailable\<close> over the buffers after the first: either the range ends within
  them or the offset they end at.\<close>

fun scan_available :: "nat \<Rightarrow> nat \<Rightarrow> abuf list \<Rightarrow> nat option" where
  "scan_available preOffsetEnd offsetEnd [] = (if preOffsetEnd \<ge> offsetEnd then None else Some preOffsetEnd)"
| "scan_available preOffsetEnd offsetEnd (b # bs) =
     (let curOffsetEnd = add64 preOffsetEnd (GetBufferSize b)
      in if curOffsetEnd \<ge> offsetEnd then None else scan_available curOffsetEnd offsetEnd bs)"

definition IsDataAvailable :: "nat \<Rightarrow> nat \<Rightarrow> nat \<Rightarrow> packer \<Rightarrow> bool \<times> nat \<times> packer" where
  "IsDataAvailable offset sz curOffset p =
     (case dp_que p of [] \<Rightarrow> (False, offset, dp_FlushInternal p)
      | b # bs \<Rightarrow>
        if offset < dp_mediaOffset p \<or> offset > add64 (dp_mediaOffset p) (dp_size p)
        then (False, offset, dp_FlushInternal p)
        else
          let offsetEnd = add64 offset sz;
              curOffsetEnd = add64 (dp_mediaOffset p) (GetBufferSize b)
          in if bs = [] then (offsetEnd \<le> curOffsetEnd, curOffsetEnd, p)
             else (case scan_available curOffsetEnd offsetEnd bs of
                     None \<Rightarrow> (True, curOffset, p)
                   | Some c \<Rightarrow> (False, c, p)))"

text \<open>The waits for data: \<open>live\<close> waits also end at the end of the stream.\<close>

fun wait_data :: "bool \<Rightarrow> (packer \<Rightarrow> packer) list \<Rightarrow> packer \<Rightarrow> packer option" where
  "wait_data live env p =
     (if dp_que p \<noteq> [] \<or> live \<and> dp_isEos p then Some p
      else (case env of [] \<Rightarrow> None | e # es \<Rightarrow> wait_data live es (e p)))"

definition dp_PeekRange :: "(packer \<Rightarrow> packer) list \<Rightarrow> nat \<Rightarrow> nat \<Rightarrow> abuf \<Rightarrow> packer \<Rightarrow> (bool \<times> abuf \<times> packer) option" where
  "dp_PeekRange env offset sz dst p =
     (case wait_data False env p of None \<Rightarrow> None
      | Some p1 \<Rightarrow> Some (PeekRangeInternal offset sz dst False p1))"

definition dp_GetRange ::
  "(packer \<Rightarrow> packer) list \<Rightarrow> nat \<Rightarrow> nat \<Rightarrow> abuf option \<Rightarrow> packer \<Rightarrow> (bool \<times> abuf option \<times> packer) option" where
  "dp_GetRange env offset sz out p =
     (case out of None \<Rightarrow> Some (False, out, p)
      | Some dst \<Rightarrow>
        if \<not> pm_GetCapacity (ab_mem dst) \<ge> sz then Some (False, out, p)
        else (case wait_data False env p of None \<Rightarrow> None
        | Some p1 \<Rightarrow>
          let p2 = p1\<lparr>dp_prevGet := dp_currentGet p1\<rparr>
          in (case PeekRangeInternal offset sz dst True p2 of (ok, dst1, p3) \<Rightarrow>
              if \<not> ok then Some (False, Some dst1, p3)
              else Some (True, Some dst1,
                if dp_isEos p3 \<and> dp_size p3 \<le> sz then dp_FlushInternal p3
                else if position_less (dp_prevGet p3) (dp_currentGet p3)
                then RemoveOldData (dp_currentGet p3) p3 else p3))))"

text \<open>
  The loop of the live \<open>GetRange\<close> over the queue from \<open>index\<close> on: what is still needed, where it
  stopped and the end in the last buffer used.
\<close>

fun live_copy :: "int \<Rightarrow> nat \<Rightarrow> nat \<Rightarrow> nat \<Rightarrow> abuf \<Rightarrow> abuf list \<Rightarrow> int \<times> nat \<times> nat \<times> abuf" where
  "live_copy needCopySize index lastEnd at dst [] = (needCopySize, index, lastEnd, dst)"
| "live_copy needCopySize index lastEnd at dst (b # bs) =
     (let wanted = min (to_i32 (int (GetBufferSize b))) needCopySize
      in case CopyFirstBuffer (nat (wanted mod 2 ^ 64)) b at dst 0 of (copied, dst1) \<Rightarrow>
         let currCopySize = to_i32 (int copied);
             need = needCopySize - currCopySize
         in if need \<le> 0 then (need, index, to_u32 currCopySize, dst1)
            else live_copy need (Suc index) 0 (nat (int at + currCopySize)) dst1 bs)"

definition dp_GetRange_live ::
  "(packer \<Rightarrow> packer) list \<Rightarrow> nat \<Rightarrow> abuf option \<Rightarrow> packer \<Rightarrow> (bool \<times> abuf option \<times> packer) option" where
  "dp_GetRange_live env sz out p =
     (case out of None \<Rightarrow> Some (False, out, p)
      | Some dst \<Rightarrow>
        if \<not> pm_GetCapacity (ab_mem dst) \<ge> sz then Some (False, out, p)
        else if dp_que p = [] \<and> dp_isEos p then Some (False, out, p)
        else (case wait_data True env p of None \<Rightarrow> None
        | Some p1 \<Rightarrow>
          if dp_que p = [] \<and> dp_isEos p1 then Some (False, out, p1)
          else (case pm_GetWritableAddr sz 0 (ab_mem dst) of None \<Rightarrow> Some (False, out, p1)
          | Some (at, m) \<Rightarrow>
            (case live_copy (to_i32 (int sz)) 0 0 at (dst\<lparr>ab_mem := m\<rparr>) (dp_que p1) of (need, index, lastEnd, dst1) \<Rightarrow>
               let need1 = max need 0;
                   endPosition = \<lparr>ps_index = int index, ps_bufferOffset = lastEnd,
                     ps_mediaOffset = nat ((int (dp_mediaOffset p1) + int sz - need1) mod 2 ^ 64)\<rparr>
               in Some (True, Some (update_size (to_u32 (int sz - need1)) dst1), RemoveOldData endPosition p1)))))"

definition dp_Flush :: "packer \<Rightarrow> packer" where "dp_Flush p = dp_FlushInternal p"
definition dp_SetEos :: "packer \<Rightarrow> packer" where "dp_SetEos p = p\<lparr>dp_isEos := True\<rparr>"
definition dp_IsEmpty :: "packer \<Rightarrow> bool" where "dp_IsEmpty p \<longleftrightarrow> dp_size p > 0"
definition dp_Start :: "packer \<Rightarrow> packer" where "dp_Start p = p\<lparr>dp_stopped := False\<rparr>"
definition dp_Stop :: "packer \<Rightarrow> packer" where "dp_Stop p = p\<lparr>dp_stopped := True\<rparr>"

end
