(* ===== verification/Ring_Buffer.thy ===== *)
theory Ring_Buffer
  imports Av_Memory
begin

text \<open>
  \<open>RingBuffer\<close> (engine/include/foundation/utils/ring_buffer.h), the byte buffer between a download
  and its reader, and the contract of a byte stream it refines.

  \<open>head_\<close> and \<open>tail_\<close> count the bytes read and written since the last clear; they are natural
  numbers, as 64 bits do not wrap in practice. \<open>memcpy_s\<close> (securec) copies, as it does whenever
  the lengths are those the code passes. Waiting hands the buffer to the other threads, the
  argument \<open>env\<close>; a write that would still wait after it answers \<open>None\<close>.
\<close>

section \<open>The contract\<close>

datatype stream_op = SWrite "u8 list" | SRead nat

fun stream_run ::
  "(u8 list \<Rightarrow> 's \<Rightarrow> bool \<times> 's) \<Rightarrow> (nat \<Rightarrow> 's \<Rightarrow> u8 list \<times> 's) \<Rightarrow> stream_op list \<Rightarrow> 's
     \<Rightarrow> u8 list \<times> u8 list \<times> 's"
where
  "stream_run w r [] s = ([], [], s)"
| "stream_run w r (SWrite xs # ops) s =
     (case w xs s of (ok, t) \<Rightarrow> case stream_run w r ops t of
        (put, got, u) \<Rightarrow> (if ok then xs @ put else put, got, u))"
| "stream_run w r (SRead n # ops) s =
     (case r n s of (ys, t) \<Rightarrow> case stream_run w r ops t of
        (put, got, u) \<Rightarrow> (put, ys @ got, u))"

locale byte_stream =
  fixes wr :: "u8 list \<Rightarrow> 's \<Rightarrow> bool \<times> 's"
    and rd :: "nat \<Rightarrow> 's \<Rightarrow> u8 list \<times> 's"
    and bytes :: "'s \<Rightarrow> u8 list"
    and ok :: "'s \<Rightarrow> bool"
  assumes write_ok: "ok s \<Longrightarrow> ok (snd (wr xs s))"
    and write_bytes: "ok s \<Longrightarrow> bytes (snd (wr xs s)) = (if fst (wr xs s) then bytes s @ xs else bytes s)"
    and read_ok: "ok s \<Longrightarrow> ok (snd (rd n s))"
    and read_bytes: "ok s \<Longrightarrow> fst (rd n s) @ bytes (snd (rd n s)) = bytes s"
    and read_length: "ok s \<Longrightarrow> length (fst (rd n s)) = min n (length (bytes s))"
begin

lemma run_stream:
  "ok s \<Longrightarrow> stream_run wr rd ops s = (put, got, t) \<Longrightarrow> ok t \<and> bytes s @ put = got @ bytes t"
proof (induction ops arbitrary: s put got t)
  case Nil
  then show ?case by simp
next
  case (Cons op ops)
  show ?case
  proof (cases op)
    case (SWrite xs)
    obtain put' where r: "stream_run wr rd ops (snd (wr xs s)) = (put', got, t)"
      "put = (if fst (wr xs s) then xs @ put' else put')"
      using Cons.prems(2) SWrite by (auto split: prod.splits)
    have "ok t \<and> bytes (snd (wr xs s)) @ put' = got @ bytes t"
      by (rule Cons.IH [OF write_ok [OF Cons.prems(1)] r(1)])
    then show ?thesis using write_bytes [OF Cons.prems(1), of xs] r(2) by (cases "fst (wr xs s)") auto
  next
    case (SRead n)
    obtain got' where r: "stream_run wr rd ops (snd (rd n s)) = (put, got', t)"
      "got = fst (rd n s) @ got'"
      using Cons.prems(2) SRead by (auto split: prod.splits)
    have "ok t \<and> bytes (snd (rd n s)) @ put = got' @ bytes t"
      by (rule Cons.IH [OF read_ok [OF Cons.prems(1)] r(1)])
    then show ?thesis using read_bytes [OF Cons.prems(1), of n] r(2)
      by (metis append.assoc)
  qed
qed

lemma read_prefix: "ok s \<Longrightarrow> fst (rd n s) = take n (bytes s)"
  using read_bytes [of s n] read_length [of s n]
  by (metis append_eq_conv_conj append_take_drop_id length_take min.commute)

end

section \<open>The ring buffer\<close>

record ring =
  rb_size :: nat
  rb_bytes :: "u8 list"
  rb_head :: nat
  rb_tail :: nat
  rb_active :: bool
  rb_offset :: nat

definition rb_Init :: "nat \<Rightarrow> ring" where
  "rb_Init n = \<lparr>rb_size = n, rb_bytes = replicate n 0, rb_head = 0, rb_tail = 0, rb_active = True, rb_offset = 0\<rparr>"

definition rb_GetSize :: "ring \<Rightarrow> nat" where "rb_GetSize r = rb_tail r - rb_head r"

text \<open>The waiting loop of \<open>ReadBuffer\<close>: \<open>None\<close> when the buffer was deactivated meanwhile.\<close>

fun rb_wait_data :: "(ring \<Rightarrow> ring) \<Rightarrow> nat \<Rightarrow> ring \<Rightarrow> bool \<times> ring" where
  "rb_wait_data env 0 r = (True, r)"
| "rb_wait_data env (Suc n) r =
     (if rb_GetSize r = 0 then
        (let r1 = env r in if \<not> rb_active r1 then (False, r1) else rb_wait_data env n r1)
      else (True, r))"

text \<open>The copy out of the array, in one piece or two.\<close>

definition rb_copy_out :: "nat \<Rightarrow> nat \<Rightarrow> ring \<Rightarrow> u8 list" where
  "rb_copy_out index available r =
     (if index + available < rb_size r then take available (drop index (rb_bytes r))
      else take (rb_size r - index) (drop index (rb_bytes r)) @
           take (available - (rb_size r - index)) (rb_bytes r))"

definition rb_ReadBuffer :: "(ring \<Rightarrow> ring) \<Rightarrow> nat \<Rightarrow> nat \<Rightarrow> ring \<Rightarrow> u8 list \<times> ring" where
  "rb_ReadBuffer env readSize waitTimes r =
     (if \<not> rb_active r then ([], r)
      else case rb_wait_data env waitTimes r of (go, r1) \<Rightarrow>
        if \<not> go then ([], r1)
        else let available0 = rb_tail r1 - rb_head r1;
                 available = (if available0 > readSize then readSize else available0);
                 index = rb_head r1 mod rb_size r1
             in (rb_copy_out index available r1,
                 r1\<lparr>rb_head := rb_head r1 + available, rb_offset := rb_offset r1 + available\<rparr>))"

definition rb_copy_in :: "nat \<Rightarrow> u8 list \<Rightarrow> ring \<Rightarrow> u8 list" where
  "rb_copy_in index xs r =
     (if index + length xs < rb_size r then blit index xs (rb_bytes r)
      else let k = rb_size r - index
           in blit 0 (drop k xs) (blit index (take k xs) (rb_bytes r)))"

text \<open>
  \<open>WriteBuffer\<close>: \<open>Some False\<close> when inactive, \<open>None\<close> when there is still no room after waiting (the
  thread sleeps on).
\<close>

definition rb_write_now :: "u8 list \<Rightarrow> ring \<Rightarrow> ring" where
  "rb_write_now xs r = r\<lparr>rb_bytes := rb_copy_in (rb_tail r mod rb_size r) xs r, rb_tail := rb_tail r + length xs\<rparr>"

definition rb_full_for :: "nat \<Rightarrow> ring \<Rightarrow> bool" where
  "rb_full_for n r \<longleftrightarrow> n + rb_tail r > rb_head r + rb_size r"

fun rb_WriteBuffer :: "(ring \<Rightarrow> ring) list \<Rightarrow> u8 list \<Rightarrow> ring \<Rightarrow> bool option \<times> ring" where
  "rb_WriteBuffer [] xs r =
     (if \<not> rb_active r then (Some False, r)
      else if rb_full_for (length xs) r then (None, r)
      else (Some True, rb_write_now xs r))"
| "rb_WriteBuffer (env # envs) xs r =
     (if \<not> rb_active r then (Some False, r)
      else if rb_full_for (length xs) r then rb_WriteBuffer envs xs (env r)
      else (Some True, rb_write_now xs r))"

definition rb_SetActive :: "bool \<Rightarrow> bool \<Rightarrow> ring \<Rightarrow> ring" where
  "rb_SetActive active cleanData r =
     (let r1 = r\<lparr>rb_active := active\<rparr>
      in if \<not> active \<and> cleanData then r1\<lparr>rb_head := 0, rb_tail := 0\<rparr> else r1)"

definition rb_GetMediaOffset :: "ring \<Rightarrow> nat" where "rb_GetMediaOffset r = rb_offset r"

definition rb_SetMediaOffset :: "nat \<Rightarrow> ring \<Rightarrow> ring" where "rb_SetMediaOffset n r = r\<lparr>rb_offset := n\<rparr>"

definition rb_Clear :: "ring \<Rightarrow> ring" where "rb_Clear r = r\<lparr>rb_head := 0, rb_tail := 0\<rparr>"

definition rb_Seek :: "nat \<Rightarrow> ring \<Rightarrow> bool \<times> ring" where
  "rb_Seek offset r =
     (if offset \<ge> rb_offset r \<and> offset - rb_offset r < rb_GetSize r
      then (True, r\<lparr>rb_head := rb_head r + (offset - rb_offset r)\<rparr>)
      else (False, r))"

section \<open>Its contents\<close>

definition rb_ok :: "ring \<Rightarrow> bool" where
  "rb_ok r \<longleftrightarrow> 0 < rb_size r \<and> length (rb_bytes r) = rb_size r \<and> rb_head r \<le> rb_tail r \<and>
     rb_tail r \<le> rb_head r + rb_size r"

definition rb_contents :: "ring \<Rightarrow> u8 list" where
  "rb_contents r = map (\<lambda>i. rb_bytes r ! (i mod rb_size r)) [rb_head r ..< rb_tail r]"

lemma length_rb_contents [simp]: "length (rb_contents r) = rb_GetSize r"
  by (simp add: rb_contents_def rb_GetSize_def)

lemma mod_add_wrap:
  assumes "0 < (n :: nat)" "i < n"
  shows "(h + i) mod n = (if h mod n + i < n then h mod n + i else h mod n + i - n)"
proof -
  have e: "(h + i) mod n = (h mod n + i) mod n" by (simp add: mod_add_left_eq)
  have "h mod n < n" using assms by simp
  then have "h mod n + i - n < n" using assms by linarith
  then show ?thesis unfolding e using assms
    by (cases "h mod n + i < n") (simp_all add: le_mod_geq)
qed

text \<open>The place of the \<open>i\<close>-th byte after index \<open>idx\<close>.\<close>

definition wrap :: "nat \<Rightarrow> nat \<Rightarrow> nat \<Rightarrow> nat" where
  "wrap n idx i = (if idx + i < n then idx + i else idx + i - n)"

lemma blit_nth:
  "start + length src \<le> length dst \<Longrightarrow> p < length dst \<Longrightarrow>
     blit start src dst ! p = (if start \<le> p \<and> p < start + length src then src ! (p - start) else dst ! p)"
  by (auto simp: blit_def nth_append min_def)

lemma copy_out_nth:
  assumes "length bs = n" "idx < n" "av \<le> n" "i < av"
  shows "(if idx + av < n then take av (drop idx bs)
          else take (n - idx) (drop idx bs) @ take (av - (n - idx)) bs) ! i = bs ! wrap n idx i"
proof (cases "idx + i < n")
  case True
  then have "i < n - idx" by simp
  then show ?thesis using assms True by (simp add: nth_append wrap_def)
next
  case False
  then have "i - (n - idx) = idx + i - n" "n - idx \<le> i" using assms by auto
  then show ?thesis using assms False by (simp add: nth_append wrap_def)
qed

lemma copy_in_nth:
  assumes "length bs = n" "idx < n" "length xs \<le> n" "i < n"
  shows "(if idx + length xs < n then blit idx xs bs
          else blit 0 (drop (n - idx) xs) (blit idx (take (n - idx) xs) bs)) ! wrap n idx i =
         (if i < length xs then xs ! i else bs ! wrap n idx i)"
proof (cases "idx + length xs < n")
  case True
  then show ?thesis using assms by (auto simp: blit_nth wrap_def)
next
  case False
  have l1: "length (take (n - idx) xs) = n - idx" using False assms by simp
  have lb: "length (blit idx (take (n - idx) xs) bs) = n"
    using assms l1 by (simp add: length_blit)
  show ?thesis
  proof (cases "idx + i < n")
    case True
    then have w: "wrap n idx i = idx + i" by (simp add: wrap_def)
    have "length xs - (n - idx) \<le> idx + i \<or> i < length xs" using assms by auto
    then show ?thesis using assms False True l1 lb
      by (auto simp: w blit_nth)
  next
    case c: False
    then have w: "wrap n idx i = idx + i - n" "idx + i - n < idx" using assms by (auto simp: wrap_def)
    have "n - idx + (idx + i - n) = i" using c assms by auto
    then show ?thesis using assms False l1 lb w
      by (auto simp: blit_nth)
  qed
qed

lemma length_copy_in:
  assumes "length bs = n" "idx < n" "length xs \<le> n"
  shows "length (if idx + length xs < n then blit idx xs bs
          else blit 0 (drop (n - idx) xs) (blit idx (take (n - idx) xs) bs)) = n"
  using assms by (auto simp: length_blit)

lemma wrap_mod: "0 < n \<Longrightarrow> i < n \<Longrightarrow> wrap n (h mod n) i = (h + i) mod n"
  by (simp add: wrap_def mod_add_wrap)

lemma rb_copy_out_contents:
  assumes ok: "rb_ok r" and av: "available \<le> rb_GetSize r"
  shows "rb_copy_out (rb_head r mod rb_size r) available r = take available (rb_contents r)"
proof (rule nth_equalityI)
  have n: "0 < rb_size r" "length (rb_bytes r) = rb_size r" "available \<le> rb_size r"
    using ok av by (auto simp: rb_ok_def rb_GetSize_def)
  have m: "rb_head r mod rb_size r < rb_size r" using n by simp
  define idx where "idx = rb_head r mod rb_size r"
  have l: "length (rb_copy_out idx available r) = available"
    using n m unfolding rb_copy_out_def idx_def [symmetric] by auto
  then show "length (rb_copy_out (rb_head r mod rb_size r) available r) = length (take available (rb_contents r))"
    using av by (simp add: idx_def)
  fix i
  assume "i < length (rb_copy_out (rb_head r mod rb_size r) available r)"
  then have i: "i < available" using l by (simp add: idx_def)
  have "rb_copy_out idx available r ! i = rb_bytes r ! wrap (rb_size r) idx i"
    unfolding rb_copy_out_def by (rule copy_out_nth) (use n m i in \<open>simp_all add: idx_def\<close>)
  also have "wrap (rb_size r) idx i = (rb_head r + i) mod rb_size r"
    unfolding idx_def by (rule wrap_mod) (use n i in simp_all)
  finally show "rb_copy_out (rb_head r mod rb_size r) available r ! i = take available (rb_contents r) ! i"
    using i av by (simp add: idx_def rb_contents_def rb_GetSize_def)
qed

lemma rb_copy_in_at:
  assumes "0 < rb_size r" "length (rb_bytes r) = rb_size r" "length xs \<le> rb_size r" "i < rb_size r"
  shows "rb_copy_in (h mod rb_size r) xs r ! ((h + i) mod rb_size r) =
    (if i < length xs then xs ! i else rb_bytes r ! ((h + i) mod rb_size r))"
proof -
  have m: "h mod rb_size r < rb_size r" using assms by simp
  show ?thesis
    using copy_in_nth [OF assms(2) m assms(3,4)]
    unfolding wrap_mod [OF assms(1,4)] rb_copy_in_def Let_def .
qed

lemma length_rb_copy_in:
  assumes "0 < rb_size r" "length (rb_bytes r) = rb_size r" "length xs \<le> rb_size r"
  shows "length (rb_copy_in (h mod rb_size r) xs r) = rb_size r"
proof -
  have m: "h mod rb_size r < rb_size r" using assms by simp
  show ?thesis using length_copy_in [OF assms(2) m assms(3)] unfolding rb_copy_in_def Let_def .
qed

lemma rb_write_contents:
  assumes ok: "rb_ok r" and room: "\<not> rb_full_for (length xs) r"
  shows "rb_ok (rb_write_now xs r) \<and> rb_contents (rb_write_now xs r) = rb_contents r @ xs"
proof -
  define n where "n = rb_size r"
  define bs where "bs = rb_copy_in (rb_tail r mod n) xs r"
  have f: "0 < n" "length (rb_bytes r) = n" "rb_head r \<le> rb_tail r" "rb_tail r + length xs \<le> rb_head r + n"
    "rb_tail r \<le> rb_head r + n"
    using ok room by (auto simp: rb_ok_def rb_full_for_def n_def)
  have lx: "length xs \<le> n" using f(3,4) by linarith
  have lb: "length bs = n" unfolding bs_def n_def by (rule length_rb_copy_in) (use f lx in \<open>simp_all add: n_def\<close>)
  have at: "bs ! ((rb_tail r + i) mod n) = (if i < length xs then xs ! i else rb_bytes r ! ((rb_tail r + i) mod n))"
    if "i < n" for i
    unfolding bs_def n_def by (rule rb_copy_in_at) (use f lx that in \<open>simp_all add: n_def\<close>)
  have old: "bs ! (k mod n) = rb_bytes r ! (k mod n)" if "rb_head r \<le> k" "k < rb_tail r" for k
  proof -
    define i where "i = k + n - rb_tail r"
    have i1: "i < n" unfolding i_def using that(2) f(1) by linarith
    have i2: "\<not> i < length xs" unfolding i_def using that(1) f(4) by linarith
    have i3: "rb_tail r + i = k + n" unfolding i_def using that(1) f(5) by linarith
    show ?thesis using at [OF i1] i2 unfolding i3 mod_add_self2 by (simp only: if_False)
  qed
  have new: "bs ! (k mod n) = xs ! (k - rb_tail r)" if "rb_tail r \<le> k" "k < rb_tail r + length xs" for k
  proof -
    have i1: "k - rb_tail r < n" using that lx by linarith
    have i2: "rb_tail r + (k - rb_tail r) = k" using that(1) by linarith
    have i3: "k - rb_tail r < length xs" using that by linarith
    show ?thesis using at [OF i1] i3 unfolding i2 by (simp only: if_True)
  qed
  have split: "[rb_head r ..< rb_tail r + length xs] = [rb_head r ..< rb_tail r] @ [rb_tail r ..< rb_tail r + length xs]"
    by (rule upt_add_eq_append [OF f(3)])
  have w: "rb_write_now xs r = r\<lparr>rb_bytes := bs, rb_tail := rb_tail r + length xs\<rparr>"
    by (simp add: rb_write_now_def bs_def n_def)
  have "map (\<lambda>i. bs ! (i mod n)) [rb_head r ..< rb_tail r] = rb_contents r"
    unfolding rb_contents_def n_def [symmetric] by (rule map_cong [OF refl]) (simp add: old)
  moreover have "map (\<lambda>i. bs ! (i mod n)) [rb_tail r ..< rb_tail r + length xs] = xs"
    by (rule nth_equalityI) (simp_all add: new)
  ultimately have "rb_contents (rb_write_now xs r) = rb_contents r @ xs"
    unfolding w by (simp add: rb_contents_def split n_def)
  moreover have "rb_ok (rb_write_now xs r)"
    unfolding w using f lb by (simp add: rb_ok_def n_def)
  ultimately show ?thesis by blast
qed

text \<open>The two ends without waiting.\<close>

definition rb_put :: "u8 list \<Rightarrow> ring \<Rightarrow> bool \<times> ring" where
  "rb_put xs r = (case rb_WriteBuffer [] xs r of (res, t) \<Rightarrow> (res = Some True, t))"

definition rb_get :: "nat \<Rightarrow> ring \<Rightarrow> u8 list \<times> ring" where
  "rb_get n r = rb_ReadBuffer (\<lambda>x. x) n 0 r"

definition rb_live :: "ring \<Rightarrow> bool" where
  "rb_live r \<longleftrightarrow> rb_ok r \<and> rb_active r"

lemma rb_get_eq:
  assumes "rb_live r"
  shows "fst (rb_get n r) = take n (rb_contents r) \<and> rb_live (snd (rb_get n r)) \<and>
    rb_contents (snd (rb_get n r)) = drop n (rb_contents r)"
proof -
  have ok: "rb_ok r" "rb_active r" using assms by (simp_all add: rb_live_def)
  let ?a = "if rb_tail r - rb_head r > n then n else rb_tail r - rb_head r"
  have eq: "rb_get n r = (rb_copy_out (rb_head r mod rb_size r) ?a r,
      r\<lparr>rb_head := rb_head r + ?a, rb_offset := rb_offset r + ?a\<rparr>)"
    using ok by (simp add: rb_get_def rb_ReadBuffer_def Let_def)
  define a where "a = (if rb_tail r - rb_head r > n then n else rb_tail r - rb_head r)"
  have a_le: "a \<le> rb_GetSize r" by (simp add: a_def rb_GetSize_def)
  have "take a (rb_contents r) = take n (rb_contents r)"
    by (cases "rb_tail r - rb_head r > n") (simp_all add: a_def rb_GetSize_def)
  then have "fst (rb_get n r) = take n (rb_contents r)"
    using rb_copy_out_contents [OF ok(1) a_le] by (simp only: eq a_def [symmetric] fst_conv)
  moreover have "rb_live (snd (rb_get n r))"
    using ok a_le unfolding eq a_def [symmetric] by (auto simp: rb_live_def rb_ok_def rb_GetSize_def)
  moreover have "rb_contents (snd (rb_get n r)) = drop n (rb_contents r)"
  proof (cases "rb_tail r - rb_head r > n")
    case True
    then show ?thesis by (simp add: eq rb_contents_def drop_map)
  next
    case False
    then show ?thesis by (simp add: eq rb_contents_def drop_map)
  qed
  ultimately show ?thesis by blast
qed

interpretation rbs: byte_stream rb_put rb_get rb_contents rb_live
proof unfold_locales
  fix r :: ring and xs :: "u8 list" and n :: nat
  assume l: "rb_live r"
  show "rb_live (snd (rb_put xs r))"
    "rb_contents (snd (rb_put xs r)) = (if fst (rb_put xs r) then rb_contents r @ xs else rb_contents r)"
    using l rb_write_contents [of r xs] by (auto simp: rb_put_def rb_live_def rb_write_now_def)
  show "rb_live (snd (rb_get n r))" "fst (rb_get n r) @ rb_contents (snd (rb_get n r)) = rb_contents r"
    "length (fst (rb_get n r)) = min n (length (rb_contents r))"
    using rb_get_eq [OF l, of n] by (simp_all add: min.commute)
qed

section \<open>Properties\<close>

text \<open>
  C8. The ring buffer is a byte stream: in every schedule of writes and reads the bytes read are
  exactly the bytes of the accepted writes in order, whatever the alignment of head and tail at
  the wrap-around of the array; what was not read is still in it.
\<close>

theorem ring_buffer_stream:
  assumes "0 < rb_size r" "length (rb_bytes r) = rb_size r" "rb_head r = rb_tail r" "rb_active r"
    and "stream_run rb_put rb_get ops r = (put, got, t)"
  shows "put = got @ rb_contents t"
proof -
  have "rb_live r" "rb_contents r = []"
    using assms by (simp_all add: rb_live_def rb_ok_def rb_contents_def)
  then show ?thesis using rbs.run_stream [of r ops put got t] assms(5) by simp
qed

lemma ring_buffer_stream_witness:
  "fst (snd (stream_run rb_put rb_get [SWrite [1, 2, 3], SRead 2, SWrite [4, 5], SRead 9] (rb_Init 4))) = [1, 2, 3, 4, 5]"
proof -
  obtain put got t where r: "stream_run rb_put rb_get [SWrite [1, 2, 3], SRead 2, SWrite [4, 5], SRead 9] (rb_Init 4) = (put, got, t)"
    by (metis prod_cases3)
  have "put = got @ rb_contents t"
    by (rule ring_buffer_stream [OF _ _ _ _ r]) (simp_all add: rb_Init_def)
  moreover have "fst (stream_run rb_put rb_get [SWrite [1, 2, 3], SRead 2, SWrite [4, 5], SRead 9] (rb_Init 4)) = [1, 2, 3, 4, 5]"
    "rb_contents (snd (snd (stream_run rb_put rb_get [SWrite [1, 2, 3], SRead 2, SWrite [4, 5], SRead 9] (rb_Init 4)))) = []"
    by code_simp+
  ultimately show ?thesis using r by simp
qed

text \<open>
  A successful \<open>Seek\<close> moves the head but not \<open>mediaOffset_\<close>, so the buffer forgets where it is:
  the reader's position stays at the old offset, and seeking again to the offset just reached
  skips the same distance once more, past the wanted byte.
\<close>

theorem ring_seek_forgets_offset:
  assumes "rb_offset r < offset" "2 * (offset - rb_offset r) < rb_GetSize r"
  shows "\<exists>s t. rb_Seek offset r = (True, s) \<and> rb_GetMediaOffset s = rb_offset r \<and>
    rb_contents s = drop (offset - rb_offset r) (rb_contents r) \<and>
    rb_Seek offset s = (True, t) \<and> rb_contents t = drop (2 * (offset - rb_offset r)) (rb_contents r)"
proof -
  obtain d where d: "offset = rb_offset r + d" "0 < d" "2 * d < rb_tail r - rb_head r"
    using assms by (metis add_diff_cancel_left' less_imp_add_positive rb_GetSize_def)
  let ?s = "r\<lparr>rb_head := rb_head r + d\<rparr>"
  have "rb_Seek offset r = (True, ?s)" using d by (simp add: rb_Seek_def rb_GetSize_def)
  moreover have "rb_Seek offset ?s = (True, r\<lparr>rb_head := rb_head r + d + d\<rparr>)"
    using d by (simp add: rb_Seek_def rb_GetSize_def)
  ultimately show ?thesis
    using d by (simp add: rb_GetMediaOffset_def rb_contents_def drop_map mult_2 add.assoc)
qed

lemma ring_seek_forgets_offset_witness:
  "\<exists>s. rb_Seek 1 (snd (rb_put [1, 2, 3] (rb_Init 4))) = (True, s) \<and> rb_GetMediaOffset s = 0"
proof -
  have "rb_offset (snd (rb_put [1, 2, 3] (rb_Init 4))) = 0" "rb_GetSize (snd (rb_put [1, 2, 3] (rb_Init 4))) = 3"
    by code_simp+
  then show ?thesis
    using ring_seek_forgets_offset [of "snd (rb_put [1, 2, 3] (rb_Init 4))" 1] by auto
qed

text \<open>
  A write larger than the buffer never returns: however often the writer is woken and whatever
  the readers did meanwhile, as long as the buffer stays active it goes back to sleep.
\<close>

theorem ring_oversize_write_blocks:
  assumes "rb_active r" "rb_head r \<le> rb_tail r" "rb_size r < length xs"
    and "\<And>e q. e \<in> set envs \<Longrightarrow> rb_active q \<and> rb_head q \<le> rb_tail q \<and> rb_size q = rb_size r \<Longrightarrow>
      rb_active (e q) \<and> rb_head (e q) \<le> rb_tail (e q) \<and> rb_size (e q) = rb_size r"
  shows "fst (rb_WriteBuffer envs xs r) = None"
  using assms
proof (induction envs arbitrary: r)
  case Nil
  then show ?case by (simp add: rb_full_for_def)
next
  case (Cons e envs)
  have e: "rb_active (e r)" "rb_head (e r) \<le> rb_tail (e r)" "rb_size (e r) = rb_size r"
    using Cons.prems(4) [of e r] Cons.prems(1,2) by auto
  have "fst (rb_WriteBuffer envs xs (e r)) = None"
    by (rule Cons.IH) (use e Cons.prems in auto)
  then show ?case using Cons.prems by (simp add: rb_full_for_def)
qed

lemma ring_oversize_write_blocks_witness:
  "fst (rb_WriteBuffer [\<lambda>r. snd (rb_get 4 r)] [1, 2, 3] (rb_Init 2)) = None"
  by (rule ring_oversize_write_blocks)
    (auto simp: rb_Init_def rb_get_def rb_ReadBuffer_def Let_def)

end
