(* ===== verification/Data_Packer_Props.thy ===== *)
theory Data_Packer_Props
  imports Data_Packer Ring_Buffer
begin

text \<open>
  The data packer as a window of bytes: its bytes are those of its buffers in order, starting at its
  media offset. Each operation is described by what it does to the window, the copying ones by the
  slice of the window they deliver. The live packer is a byte stream (locale \<open>byte_stream\<close>).
\<close>

declare wait_room.simps [simp del] wait_data.simps [simp del]

lemma to_u32_diff: "b \<le> a \<Longrightarrow> a < 2 ^ 32 \<Longrightarrow> to_u32 (int a - int b) = a - b"
  by (subst to_u32_eq) (simp_all add: nat_minus_as_int)

section \<open>The window\<close>

definition qbytes :: "abuf list \<Rightarrow> u8 list" where "qbytes bs = concat (map payload bs)"

definition packer_ok :: "packer \<Rightarrow> bool" where
  "packer_ok p \<longleftrightarrow> (\<forall>b \<in> set (dp_que p). buf_ok b) \<and> dp_size p = length (qbytes (dp_que p)) \<and>
     length (qbytes (dp_que p)) < 2 ^ 31 \<and> dp_mediaOffset p + length (qbytes (dp_que p)) < 2 ^ 64"

lemma qbytes_simps [simp]:
  "qbytes [] = []" "qbytes (b # bs) = payload b @ qbytes bs" "qbytes (as @ bs) = qbytes as @ qbytes bs"
  by (simp_all add: qbytes_def)

lemma size_payload: "buf_ok b \<Longrightarrow> GetBufferSize b = length (payload b)"
  by (simp add: GetBufferSize_def pm_GetSize_def length_payload)

lemma payload_nonempty: "buf_ok b \<Longrightarrow> payload b \<noteq> []"
  by (simp add: payload_def buf_ok_def) auto

lemma payload_bytes: "buf_ok b \<Longrightarrow> off + n \<le> length (payload b) \<Longrightarrow>
    take n (drop off (pm_bytes (ab_mem b))) = take n (drop off (payload b))"
  by (rule take_drop_payload) (simp_all add: length_payload)

lemma qbytes_nonempty: "\<forall>b \<in> set bs. buf_ok b \<Longrightarrow> (qbytes bs = []) = (bs = [])"
  by (cases bs) (auto simp: payload_nonempty)

lemma qbytes_split: "i < length bs \<Longrightarrow> qbytes bs = qbytes (take i bs) @ payload (bs ! i) @ qbytes (drop (Suc i) bs)"
  by (metis id_take_nth_drop qbytes_simps(2) qbytes_simps(3))

section \<open>Copying\<close>

lemma find_spec:
  assumes "\<forall>b \<in> set bs. buf_ok b" "prev + length (qbytes bs) < 2 ^ 64" "prev \<le> off" "off < prev + length (qbytes bs)"
  obtains k where "FindFirstBufferToCopy off i prev bs = Some (i + k, prev + length (qbytes (take k bs)))"
    "k < length bs" "prev + length (qbytes (take k bs)) \<le> off"
    "off < prev + length (qbytes (take k bs)) + length (payload (bs ! k))"
  using assms
proof (induction bs arbitrary: i prev thesis)
  case Nil
  then show ?case by simp
next
  case (Cons b bs)
  have sz: "GetBufferSize b = length (payload b)" using Cons.prems by (simp add: size_payload)
  show ?case
  proof (cases "off < prev + length (payload b)")
    case True
    then have "off - prev < length (payload b)" using Cons.prems(4) by linarith
    then show ?thesis using Cons.prems(1) [of 0] Cons.prems(4) True sz by simp
  next
    case False
    have a: "add64 prev (length (payload b)) = prev + length (payload b)"
      using Cons.prems(3) by (intro add64_eq) simp
    have nf: "\<not> (prev \<le> off \<and> off - prev < length (payload b))" using False by linarith
    obtain k where k: "FindFirstBufferToCopy off (Suc i) (prev + length (payload b)) bs =
        Some (Suc i + k, prev + length (payload b) + length (qbytes (take k bs)))"
      "k < length bs" "prev + length (payload b) + length (qbytes (take k bs)) \<le> off"
      "off < prev + length (payload b) + length (qbytes (take k bs)) + length (payload (bs ! k))"
    proof (rule Cons.IH [of "Suc i" "prev + length (payload b)"])
      show "\<forall>b \<in> set bs. buf_ok b" using Cons.prems by simp
      show "prev + length (payload b) + length (qbytes bs) < 2 ^ 64" using Cons.prems(3) by simp
      show "prev + length (payload b) \<le> off" using False by simp
      show "off < prev + length (payload b) + length (qbytes bs)" using Cons.prems(5) by simp
    qed (rule that)
    show ?thesis by (rule Cons.prems(1) [of "Suc k"]) (use k nf in \<open>simp_all add: sz a add.assoc\<close>)
  qed
qed

lemma store_store:
  "at + length a + length b \<le> length (pm_bytes (ab_mem dst)) \<Longrightarrow>
     store (at + length a) b (store at a dst) = store at (a @ b) dst"
  by (simp add: store_def blit_append)

lemma capacity_store [simp]:
  "at + length a \<le> length (pm_bytes (ab_mem dst)) \<Longrightarrow> length (pm_bytes (ab_mem (store at a dst))) = length (pm_bytes (ab_mem dst))"
  by (simp add: store_def length_blit)

lemma copy_rest_spec:
  assumes "\<forall>b \<in> set bs. buf_ok b" "prev + length (qbytes bs) < 2 ^ 64" "need < 2 ^ 32"
    "at + need \<le> length (pm_bytes (ab_mem dst))"
  shows "CopyFromSuccessiveBuffer prev (prev + need) at need dst bs =
    (need - length (qbytes bs), store at (take need (qbytes bs)) dst)"
  using assms
proof (induction bs arbitrary: prev at need dst)
  case Nil
  then show ?case by (simp add: store_def blit_def)
next
  case (Cons b bs)
  let ?n = "length (payload b)"
  have ok: "buf_ok b" using Cons.prems by simp
  have a: "add64 prev ?n = prev + ?n" using Cons.prems(2) by (intro add64_eq) simp
  show ?case
  proof (cases "need \<le> ?n")
    case True
    then show ?thesis using payload_bytes [OF ok, of 0 need] by (simp add: size_payload [OF ok] a)
  next
    case False
    have u: "to_u32 (int need - int ?n) = need - ?n" using False Cons.prems(3) by (intro to_u32_diff) auto
    have p: "take ?n (pm_bytes (ab_mem b)) = payload b" using payload_bytes [OF ok, of 0 ?n] by simp
    have e: "(prev + ?n) + (need - ?n) = prev + need" using False by simp
    have r: "CopyFromSuccessiveBuffer (prev + ?n) ((prev + ?n) + (need - ?n)) (at + ?n) (need - ?n) (store at (payload b) dst) bs =
        (need - ?n - length (qbytes bs), store (at + ?n) (take (need - ?n) (qbytes bs)) (store at (payload b) dst))"
    proof (rule Cons.IH)
      show "\<forall>b \<in> set bs. buf_ok b" using Cons.prems(1) by simp
      show "prev + ?n + length (qbytes bs) < 2 ^ 64" using Cons.prems(2) by simp
      show "need - ?n < 2 ^ 32" using Cons.prems(3) by linarith
      show "at + ?n + (need - ?n) \<le> length (pm_bytes (ab_mem (store at (payload b) dst)))"
        using Cons.prems(4) False by simp
    qed
    have s: "store (at + ?n) (take (need - ?n) (qbytes bs)) (store at (payload b) dst) =
        store at (take need (qbytes (b # bs))) dst"
      using False Cons.prems(4) by (subst store_store) auto
    have "\<not> prev + need \<le> prev + ?n" using False by simp
    then show ?thesis by (simp add: size_payload [OF ok] a u p r [unfolded e] s Let_def)
  qed
qed

lemma copy_first_spec:
  assumes "buf_ok b" "off < length (payload b)" "length (payload b) < 2 ^ 31"
  shows "CopyFirstBuffer n b at dst off =
    (min (length (payload b) - off) n,
     (store at (take n (drop off (payload b))) dst)\<lparr>ab_pts := ab_pts b, ab_dts := ab_dts b\<rparr>)"
proof -
  have i: "to_i32 (int (length (payload b)) - int off) = int (length (payload b)) - int off"
    using assms by (subst to_i32_eq) auto
  have n: "nat (int (length (payload b)) - int off) = length (payload b) - off" by linarith
  have "take (min (length (payload b) - off) n) (drop off (pm_bytes (ab_mem b))) = take n (drop off (payload b))"
    using payload_bytes [OF assms(1), of off "min (length (payload b) - off) n"] assms(2)
    by (cases "n \<le> length (payload b) - off") (simp_all add: min_absorb1 min_absorb2)
  then show ?thesis using assms by (simp add: CopyFirstBuffer_def size_payload i n Let_def)
qed

section \<open>Peeking\<close>

text \<open>The destination after a copy of \<open>xs\<close> to its start with the size set to match.\<close>

lemma payload_filled:
  assumes "ab_mem d = \<lparr>pm_bytes = blit 0 xs raw, pm_size = length xs\<rparr>" "length xs \<le> length raw"
  shows "payload d = xs \<and> length (pm_bytes (ab_mem d)) = length raw"
  using assms by (simp add: payload_def take_blit0 length_blit)

lemma writable_start:
  "n \<le> length (pm_bytes m) \<Longrightarrow> n < 2 ^ 64 \<Longrightarrow> pm_GetWritableAddr n 0 m = Some (0, m\<lparr>pm_size := n\<rparr>)"
  by (simp add: pm_GetWritableAddr_def pm_GetCapacity_def add64_eq)

lemma update_size_mem:
  "n \<le> length (pm_bytes (ab_mem d)) \<Longrightarrow> n < 2 ^ 64 \<Longrightarrow> ab_mem (update_size n d) = (ab_mem d)\<lparr>pm_size := n\<rparr>"
  by (simp add: update_size_def pm_UpdateDataSize_def pm_GetCapacity_def add64_eq)

lemma drop_into: "drop (length A + k) (A @ P @ R) = drop k (P @ R)"
  by simp

text \<open>Both copying branches: a first buffer \<open>P\<close> from \<open>k\<close> on, then the buffers after it.\<close>

definition copy_range :: "nat \<Rightarrow> nat \<Rightarrow> nat \<Rightarrow> abuf \<Rightarrow> nat \<Rightarrow> abuf \<Rightarrow> abuf list \<Rightarrow> abuf" where
  "copy_range prev offsetEnd sz P k dst R =
     (case CopyFirstBuffer sz P 0 dst k of (copied, d2) \<Rightarrow>
        let need = to_u32 (int sz - int copied)
        in if need = 0 then d2
           else (case CopyFromSuccessiveBuffer (add64 prev (GetBufferSize P)) offsetEnd copied need d2 R of
                   (left, d3) \<Rightarrow> update_size (to_u32 (int sz - int left)) d3))"

lemma copy_range_spec:
  assumes ok: "buf_ok P" "\<forall>b \<in> set R. buf_ok b" and k: "k < length (payload P)"
    and small: "length (payload P) < 2 ^ 31" "prev + length (payload P) + length (qbytes R) < 2 ^ 64" "sz < 2 ^ 32"
    and room: "sz \<le> length (pm_bytes (ab_mem dst))" and size: "pm_size (ab_mem dst) = sz"
  shows "payload (copy_range prev (prev + k + sz) sz P k dst R) = take sz (drop k (payload P @ qbytes R)) \<and>
    length (pm_bytes (ab_mem (copy_range prev (prev + k + sz) sz P k dst R))) = length (pm_bytes (ab_mem dst))"
proof -
  let ?L = "length (payload P)" and ?x = "take sz (drop k (payload P))"
  let ?d2 = "(store 0 ?x dst)\<lparr>ab_pts := ab_pts P, ab_dts := ab_dts P\<rparr>"
  have c: "CopyFirstBuffer sz P 0 dst k = (min (?L - k) sz, ?d2)" by (rule copy_first_spec [OF ok(1) k small(1)])
  show ?thesis
  proof (cases "sz \<le> ?L - k")
    case True
    have lx: "length ?x = sz" using True by simp
    have u: "to_u32 (int sz - int (min (?L - k) sz)) = 0" using True by (simp add: min_absorb2 to_u32_def)
    have r: "copy_range prev (prev + k + sz) sz P k dst R = ?d2" by (simp add: copy_range_def c u Let_def)
    have m: "ab_mem ?d2 = \<lparr>pm_bytes = blit 0 ?x (pm_bytes (ab_mem dst)), pm_size = length ?x\<rparr>"
      using lx size by (simp add: store_def)
    have "payload ?d2 = ?x \<and> length (pm_bytes (ab_mem ?d2)) = length (pm_bytes (ab_mem dst))"
      by (rule payload_filled [OF m]) (use lx room in simp)
    then show ?thesis using True by (simp add: r)
  next
    case False
    let ?n = "sz - (?L - k)"
    have x: "?x = drop k (payload P)" using False by simp
    have mn: "min (?L - k) sz = ?L - k" using False by simp
    have u: "to_u32 (int sz - int (?L - k)) = ?n" using False small(3) by (intro to_u32_diff) auto
    have n0: "?n \<noteq> 0" using False by simp
    have a: "add64 prev (GetBufferSize P) = prev + ?L" using small(2) by (simp add: size_payload [OF ok(1)] add64_eq)
    have e: "prev + k + sz = (prev + ?L) + ?n" using False k by simp
    have lx: "length ?x = ?L - k" using False by simp
    have cr: "CopyFromSuccessiveBuffer (prev + ?L) ((prev + ?L) + ?n) (?L - k) ?n ?d2 R =
        (?n - length (qbytes R), store (?L - k) (take ?n (qbytes R)) ?d2)"
    proof (rule copy_rest_spec [OF ok(2)])
      show "prev + ?L + length (qbytes R) < 2 ^ 64" by (rule small(2))
      show "?n < 2 ^ 32" using small(3) by linarith
      show "?L - k + ?n \<le> length (pm_bytes (ab_mem ?d2))" using False room lx by simp
    qed
    let ?y = "take ?n (qbytes R)"
    have d3: "ab_mem (store (?L - k) ?y ?d2) = (ab_mem dst)\<lparr>pm_bytes := blit 0 (?x @ ?y) (pm_bytes (ab_mem dst))\<rparr>"
      using blit_append [of 0 ?x ?y "pm_bytes (ab_mem dst)"] lx room False by (simp add: store_def)
    have ly: "length (?x @ ?y) = sz - (?n - length (qbytes R))" using lx False by auto
    have u2: "to_u32 (int sz - int (?n - length (qbytes R))) = length (?x @ ?y)"
      unfolding ly by (rule to_u32_diff) (use small(3) in auto)
    let ?d = "update_size (length (?x @ ?y)) (store (?L - k) ?y ?d2)"
    have r: "copy_range prev (prev + k + sz) sz P k dst R = ?d"
      by (simp only: copy_range_def c mn prod.case Let_def u n0 if_False a e cr u2)
    have lb: "length (?x @ ?y) \<le> length (pm_bytes (ab_mem dst))" using ly room by linarith
    have lb2: "length (?x @ ?y) < 2 ^ 64" unfolding ly using small(3) by simp
    have cap: "length (?x @ ?y) \<le> length (pm_bytes (ab_mem (store (?L - k) ?y ?d2)))"
      using lb unfolding d3 by (simp add: length_blit)
    have "ab_mem ?d = \<lparr>pm_bytes = blit 0 (?x @ ?y) (pm_bytes (ab_mem dst)), pm_size = length (?x @ ?y)\<rparr>"
      unfolding update_size_mem [OF cap lb2] d3 by simp
    then have "payload ?d = ?x @ ?y \<and> length (pm_bytes (ab_mem ?d)) = length (pm_bytes (ab_mem dst))"
      using lb by (rule payload_filled)
    then show ?thesis using False k x by (simp add: r)
  qed
qed

text \<open>A peek or get of a range that starts in the window delivers the window from there on.\<close>

lemma PeekRangeInternal_spec:
  assumes ok: "packer_ok p" and ne: "dp_que p \<noteq> []"
    and off: "dp_mediaOffset p \<le> off" "off < dp_mediaOffset p + length (qbytes (dp_que p))"
    and sz: "sz < 2 ^ 32" "off + sz < 2 ^ 64" "sz \<le> length (pm_bytes (ab_mem dst))" "0 < sz"
  obtains dst' i k where "PeekRangeInternal off sz dst isGet p = (True, dst',
      if isGet then p\<lparr>dp_currentGet := \<lparr>ps_index = int i, ps_bufferOffset = k, ps_mediaOffset = off\<rparr>\<rparr> else p)"
    "payload dst' = take sz (drop (off - dp_mediaOffset p) (qbytes (dp_que p)))"
    "length (pm_bytes (ab_mem dst')) = length (pm_bytes (ab_mem dst))"
    "i < length (dp_que p)" "k < length (payload (dp_que p ! i))"
    "off = dp_mediaOffset p + length (qbytes (take i (dp_que p))) + k"
proof -
  have all: "\<forall>b \<in> set (dp_que p). buf_ok b" and len: "length (qbytes (dp_que p)) < 2 ^ 31"
    and top: "dp_mediaOffset p + length (qbytes (dp_que p)) < 2 ^ 64"
    using ok by (auto simp: packer_ok_def)
  obtain i where i: "FindFirstBufferToCopy off 0 (dp_mediaOffset p) (dp_que p) =
      Some (i, dp_mediaOffset p + length (qbytes (take i (dp_que p))))" "i < length (dp_que p)"
    "dp_mediaOffset p + length (qbytes (take i (dp_que p))) \<le> off"
    "off < dp_mediaOffset p + length (qbytes (take i (dp_que p))) + length (payload (dp_que p ! i))"
    by (rule find_spec [OF all top off, of 0]) simp
  define prev where "prev = dp_mediaOffset p + length (qbytes (take i (dp_que p)))"
  define k where "k = off - prev"
  let ?P = "dp_que p ! i" and ?R = "drop (Suc i) (dp_que p)"
  have offk: "off = prev + k" and k: "k < length (payload ?P)" using i(3,4) by (auto simp: prev_def k_def)
  have split: "qbytes (dp_que p) = qbytes (take i (dp_que p)) @ payload ?P @ qbytes ?R" by (rule qbytes_split [OF i(2)])
  have okP: "buf_ok ?P" "\<forall>b \<in> set ?R. buf_ok b" using all i(2) by (auto dest: in_set_dropD)
  let ?d1 = "dst\<lparr>ab_mem := (ab_mem dst)\<lparr>pm_size := sz\<rparr>\<rparr>"
  let ?out = "copy_range prev (prev + k + sz) sz ?P k ?d1 ?R"
  have lens: "length (payload ?P) < 2 ^ 31" "prev + length (payload ?P) + length (qbytes ?R) < 2 ^ 64"
    using len top by (simp_all add: split prev_def)
  have spec: "payload ?out = take sz (drop k (payload ?P @ qbytes ?R)) \<and>
      length (pm_bytes (ab_mem ?out)) = length (pm_bytes (ab_mem ?d1))"
    by (rule copy_range_spec [OF okP k lens sz(1)]) (use sz(3) in simp_all)
  have "off - dp_mediaOffset p = length (qbytes (take i (dp_que p))) + k" using offk by (simp add: prev_def)
  then have data: "drop (off - dp_mediaOffset p) (qbytes (dp_que p)) = drop k (payload ?P @ qbytes ?R)"
    by (simp only: split drop_into)
  have w: "pm_GetWritableAddr sz 0 (ab_mem dst) = Some (0, (ab_mem dst)\<lparr>pm_size := sz\<rparr>)"
    using sz by (intro writable_start) simp_all
  have e: "add64 off sz = prev + k + sz" using sz(2) by (simp add: add64_eq offk)
  have ci: "to_i32 (int off - int prev) = int k" using k lens(1) offk by (subst to_i32_eq) auto
  have first: "add64 (dp_mediaOffset p) (GetBufferSize (hd (dp_que p))) = dp_mediaOffset p + length (payload (hd (dp_que p)))"
    using ne all top by (cases "dp_que p") (simp_all add: size_payload add64_eq)
  let ?p' = "if isGet then p\<lparr>dp_currentGet := \<lparr>ps_index = int i, ps_bufferOffset = k, ps_mediaOffset = off\<rparr>\<rparr> else p"
  have "PeekRangeInternal off sz dst isGet p = (True, ?out, ?p')"
  proof (cases "prev + k + sz \<le> dp_mediaOffset p + length (payload (hd (dp_que p)))")
    case True
    have i0: "i = 0"
    proof -
      obtain b bs where q: "dp_que p = b # bs" using ne by (cases "dp_que p") auto
      have "off - dp_mediaOffset p < GetBufferSize b" using True sz(4) offk off(1) all q by (simp add: size_payload)
      then show ?thesis using i(1) off(1) q by simp
    qed
    then have prev: "prev = dp_mediaOffset p" and hd: "?P = hd (dp_que p)" using ne by (simp_all add: prev_def hd_conv_nth)
    have m: "min (length (payload ?P) - k) sz = sz" using True hd prev k by simp
    have "copy_range prev (prev + k + sz) sz ?P k ?d1 ?R = snd (CopyFirstBuffer sz ?P 0 ?d1 k)"
      by (simp add: copy_range_def copy_first_spec [OF okP(1) k lens(1)] m to_u32_def Let_def)
    then show ?thesis using True i0 ci
      by (simp add: PeekRangeInternal_def w e first [unfolded hd_conv_nth [OF ne]] Let_def hd_conv_nth [OF ne] prev)
  next
    case False
    show ?thesis
    proof (cases "to_u32 (int sz - int (fst (CopyFirstBuffer sz ?P 0 ?d1 k))) = 0")
      case True
      then show ?thesis using False ci i(1) [folded prev_def]
        by (simp add: PeekRangeInternal_def w e first Let_def copy_range_def split: prod.split)
    next
      case g: False
      then show ?thesis using False ci i(1) [folded prev_def]
        by (simp add: PeekRangeInternal_def w e first Let_def copy_range_def split: prod.split)
    qed
  qed
  from that [OF this _ _ i(2) k offk [unfolded prev_def]] spec data show ?thesis by simp
qed

section \<open>Removing\<close>

lemma UpdateWhenFrontDataRemoved_eq:
  "n \<le> dp_size p \<Longrightarrow> dp_mediaOffset p + n < 2 ^ 64 \<Longrightarrow> UpdateWhenFrontDataRemoved n p =
     (True, p\<lparr>dp_mediaOffset := dp_mediaOffset p + n, dp_size := dp_size p - n\<rparr>)"
  by (simp add: UpdateWhenFrontDataRemoved_def add64_eq)

lemma packer_ok_Cons:
  assumes "packer_ok p" "dp_que p = b # bs"
  shows "buf_ok b" "GetBufferSize b = length (payload b)" "dp_size p = length (payload b) + length (qbytes bs)"
    "dp_mediaOffset p + length (payload b) + length (qbytes bs) < 2 ^ 64"
    "length (payload b) + length (qbytes bs) < 2 ^ 31" "\<forall>b \<in> set bs. buf_ok b"
  using assms by (auto simp: packer_ok_def size_payload)

lemma remove_whole_spec:
  "packer_ok p \<Longrightarrow> n \<le> length (dp_que p) \<Longrightarrow> remove_whole n p =
     (True, p\<lparr>dp_mediaOffset := dp_mediaOffset p + length (qbytes (take n (dp_que p))),
       dp_size := dp_size p - length (qbytes (take n (dp_que p))), dp_que := drop n (dp_que p)\<rparr>)"
proof (induction n arbitrary: p)
  case 0
  then show ?case by simp
next
  case (Suc n)
  then obtain b bs where q: "dp_que p = b # bs" by (cases "dp_que p") auto
  note c = packer_ok_Cons [OF Suc.prems(1) q]
  let ?p = "p\<lparr>dp_mediaOffset := dp_mediaOffset p + length (payload b), dp_size := dp_size p - length (payload b), dp_que := bs\<rparr>"
  have u: "UpdateWhenFrontDataRemoved (GetBufferSize b) p =
      (True, p\<lparr>dp_mediaOffset := dp_mediaOffset p + length (payload b), dp_size := dp_size p - length (payload b)\<rparr>)"
    unfolding c(2) by (rule UpdateWhenFrontDataRemoved_eq) (use c(3,4) in linarith)+
  have ok: "packer_ok ?p" using c by (simp add: packer_ok_def)
  have "remove_whole n ?p = (True, ?p\<lparr>dp_mediaOffset := dp_mediaOffset ?p + length (qbytes (take n (dp_que ?p))),
       dp_size := dp_size ?p - length (qbytes (take n (dp_que ?p))), dp_que := drop n (dp_que ?p)\<rparr>)"
    by (rule Suc.IH [OF ok]) (use Suc.prems(2) q in simp)
  then show ?case by (simp add: q u add.assoc)
qed

lemma shift_buffer_spec:
  assumes "buf_ok b" "n < length (payload b)"
  shows "payload (shift_buffer n b) = drop n (payload b)" "buf_ok (shift_buffer n b)"
proof -
  let ?raw = "pm_bytes (ab_mem b)"
  let ?xs = "drop n (payload b)"
  have s: "pm_size (ab_mem b) = length (payload b)" using assms(1) by (simp add: length_payload)
  have x: "take (length (payload b) - n) (drop n ?raw) = ?xs"
    using payload_bytes [OF assms(1), of n "length (payload b) - n"] assms(2) by simp
  have lx: "length ?xs \<le> length ?raw" using s assms(1) unfolding buf_ok_def length_drop by linarith
  have m: "ab_mem (shift_buffer n b) = \<lparr>pm_bytes = blit 0 ?xs ?raw, pm_size = length ?xs\<rparr>"
    by (simp add: shift_buffer_def pm_GetSize_def Let_def s x)
  from payload_filled [OF m lx] show "payload (shift_buffer n b) = ?xs" by simp
  from payload_filled [OF m lx] m lx assms(2) show "buf_ok (shift_buffer n b)" by (simp add: buf_ok_def)
qed

text \<open>Removing up to a position in the queue drops exactly the window's bytes before it.\<close>

lemma RemoveTo_spec:
  assumes ok: "packer_ok p" and i: "ps_index pos = int n" "n \<le> length (dp_que p)"
    and k: "n < length (dp_que p) \<Longrightarrow> ps_bufferOffset pos \<le> length (payload (dp_que p ! n))"
    and c: "c = length (qbytes (take n (dp_que p))) + (if n < length (dp_que p) then ps_bufferOffset pos else 0)"
  obtains q where "RemoveTo pos p = (True, p\<lparr>dp_mediaOffset := dp_mediaOffset p + c, dp_size := dp_size p - c, dp_que := q\<rparr>)"
    "\<forall>b \<in> set q. buf_ok b" "qbytes q = drop c (qbytes (dp_que p))" "length q \<le> length (dp_que p)"
    "\<forall>m. (\<forall>b \<in> set (dp_que p). length (payload b) \<le> m) \<longrightarrow> (\<forall>b \<in> set q. length (payload b) \<le> m)"
proof -
  let ?A = "length (qbytes (take n (dp_que p)))"
  let ?p1 = "p\<lparr>dp_mediaOffset := dp_mediaOffset p + ?A, dp_size := dp_size p - ?A, dp_que := drop n (dp_que p)\<rparr>"
  have w: "remove_whole n p = (True, ?p1)" by (rule remove_whole_spec [OF ok i(2)])
  have Q: "qbytes (dp_que p) = qbytes (take n (dp_que p)) @ qbytes (drop n (dp_que p))"
    by (metis append_take_drop_id qbytes_simps(3))
  have dA: "drop (?A + m) (qbytes (dp_que p)) = drop m (qbytes (drop n (dp_que p)))" for m
    by (subst Q) simp
  have ok1: "packer_ok ?p1"
    using ok by (simp add: packer_ok_def Q) (meson in_set_dropD)
  show thesis
  proof (cases "drop n (dp_que p)")
    case Nil
    then have n: "\<not> n < length (dp_que p)" by simp
    show thesis
      by (rule that [of "[]"]) (use Nil n dA [of 0] in \<open>simp_all add: RemoveTo_def i(1) w c\<close>)
  next
    case (Cons b bs)
    then have n: "n < length (dp_que p)" by (metis drop_eq_Nil linorder_not_less list.distinct(1))
    have b: "dp_que p ! n = b" using Cons n by (metis hd_drop_conv_nth list.sel(1))
    have q1: "dp_que ?p1 = b # bs" using Cons by simp
    note d = packer_ok_Cons [OF ok1 q1]
    let ?k = "ps_bufferOffset pos"
    have kb: "?k \<le> length (payload b)" using k n b by simp
    have cc: "c = ?A + ?k" using c n by simp
    have small: "length (payload b) \<le> m \<and> (\<forall>x \<in> set bs. length (payload x) \<le> m)"
      if "\<forall>b \<in> set (dp_que p). length (payload b) \<le> m" for m
      using that Cons by (metis in_set_dropD list.set_intros(1) list.set_intros(2))
    have lq: "Suc (length bs) \<le> length (dp_que p)" using Cons by (metis diff_le_self length_Cons length_drop)
    have upd: "UpdateWhenFrontDataRemoved m r = (True, r\<lparr>dp_mediaOffset := dp_mediaOffset ?p1 + m, dp_size := dp_size ?p1 - m\<rparr>)"
      if "m \<le> length (payload b)" "dp_size r = dp_size ?p1" "dp_mediaOffset r = dp_mediaOffset ?p1" for m r
      using UpdateWhenFrontDataRemoved_eq [of m r] that d(3,4) by simp
    show thesis
    proof (cases "length (payload b) \<le> ?k")
      case True
      then have ke: "?k = length (payload b)" using kb by simp
      show thesis
        by (rule that [of bs])
          (use True ke upd [of "length (payload b)" ?p1] d(2,6) lq dA [of ?k] Cons small in
            \<open>simp_all add: RemoveTo_def i(1) w cc Let_def add.assoc\<close>)
    next
      case less: False
      show thesis
      proof (cases "?k = 0")
        case True
        show thesis
          by (rule that [of "b # bs"])
            (use True less d(1,2,6) lq dA [of 0] Cons small in
              \<open>simp_all add: RemoveTo_def i(1) w cc Let_def RemoveBufferContent_def\<close>)
      next
        case False
        note s = shift_buffer_spec [OF d(1), of ?k]
        show thesis
          by (rule that [of "shift_buffer ?k b # bs"])
            (use False less d(2,6) lq dA [of ?k] Cons s upd [of ?k "?p1\<lparr>dp_que := shift_buffer ?k b # bs\<rparr>"] small in
              \<open>simp_all add: le_diff_conv trans_le_add1 RemoveTo_def i(1) w cc Let_def RemoveBufferContent_def add.assoc\<close>)
      qed
    qed
  qed
qed

lemma RemoveOldData_spec:
  assumes "packer_ok p" "ps_index pos = int n" "n \<le> length (dp_que p)"
    and "n < length (dp_que p) \<Longrightarrow> ps_bufferOffset pos \<le> length (payload (dp_que p ! n))"
    and "c = length (qbytes (take n (dp_que p))) + (if n < length (dp_que p) then ps_bufferOffset pos else 0)"
  shows "packer_ok (RemoveOldData pos p)" "qbytes (dp_que (RemoveOldData pos p)) = drop c (qbytes (dp_que p))"
    "dp_que (RemoveOldData pos p) \<noteq> [] \<Longrightarrow> dp_mediaOffset (RemoveOldData pos p) = dp_mediaOffset p + c"
    "length (dp_que (RemoveOldData pos p)) \<le> length (dp_que p)" "dp_isEos (RemoveOldData pos p) = dp_isEos p"
    "dp_stopped (RemoveOldData pos p) = dp_stopped p"
    "\<And>m. \<forall>b \<in> set (dp_que p). length (payload b) \<le> m \<Longrightarrow>
       \<forall>b \<in> set (dp_que (RemoveOldData pos p)). length (payload b) \<le> m"
proof -
  obtain q where q: "RemoveTo pos p = (True, p\<lparr>dp_mediaOffset := dp_mediaOffset p + c, dp_size := dp_size p - c, dp_que := q\<rparr>)"
    "\<forall>b \<in> set q. buf_ok b" "qbytes q = drop c (qbytes (dp_que p))" "length q \<le> length (dp_que p)"
    "\<forall>m. (\<forall>b \<in> set (dp_que p). length (payload b) \<le> m) \<longrightarrow> (\<forall>b \<in> set q. length (payload b) \<le> m)"
    by (rule RemoveTo_spec [OF assms])
  have f: "dp_size p = length (qbytes (dp_que p))" "length (qbytes (dp_que p)) < 2 ^ 31"
    "dp_mediaOffset p + length (qbytes (dp_que p)) < 2 ^ 64"
    using assms(1) by (auto simp: packer_ok_def)
  show "dp_isEos (RemoveOldData pos p) = dp_isEos p" "dp_stopped (RemoveOldData pos p) = dp_stopped p"
    "length (dp_que (RemoveOldData pos p)) \<le> length (dp_que p)"
    "qbytes (dp_que (RemoveOldData pos p)) = drop c (qbytes (dp_que p))"
    "dp_que (RemoveOldData pos p) \<noteq> [] \<Longrightarrow> dp_mediaOffset (RemoveOldData pos p) = dp_mediaOffset p + c"
    "\<And>m. \<forall>b \<in> set (dp_que p). length (payload b) \<le> m \<Longrightarrow>
       \<forall>b \<in> set (dp_que (RemoveOldData pos p)). length (payload b) \<le> m"
    using q(3-5) by (cases q; simp add: RemoveOldData_def q(1) Let_def)+
  have "length (qbytes q) = length (qbytes (dp_que p)) - c" using q(3) by simp
  moreover have "c < length (qbytes (dp_que p))" if "q \<noteq> []"
    using that q(2,3) qbytes_nonempty [of q] by (metis drop_eq_Nil linorder_not_less)
  ultimately show "packer_ok (RemoveOldData pos p)"
    using q(2) f by (cases q) (auto simp: RemoveOldData_def q(1) Let_def packer_ok_def)
qed

section \<open>Pushing\<close>

lemma push_now_spec:
  assumes ok: "packer_ok p" and b: "buf_ok b"
    and fit: "length (qbytes (dp_que p)) + length (payload b) < 2 ^ 31"
      "(if dp_que p = [] then off else dp_mediaOffset p) + length (qbytes (dp_que p)) + length (payload b) < 2 ^ 64"
  shows "packer_ok (push_now b off p)" "dp_que (push_now b off p) = dp_que p @ [b]"
    "dp_mediaOffset (push_now b off p) = (if dp_que p = [] then off else dp_mediaOffset p)"
    "dp_isEos (push_now b off p) = dp_isEos p" "dp_stopped (push_now b off p) = dp_stopped p"
proof -
  have s: "dp_size p = length (qbytes (dp_que p))" using ok by (simp add: packer_ok_def)
  have u: "to_u32 (int (dp_size p) + int (GetBufferSize b)) = dp_size p + length (payload b)"
    using fit(1) unfolding s size_payload [OF b] by (subst to_u32_eq) auto
  have "dp_size (push_now b off p) = dp_size p + length (payload b)" unfolding push_now_def Let_def u by simp
  then show "packer_ok (push_now b off p)"
    using ok b fit s by (cases "dp_que p") (simp_all add: packer_ok_def push_now_def Let_def)
qed (simp_all add: push_now_def Let_def)

lemma dp_PushData_room:
  "buf_ok b \<Longrightarrow> length (dp_que p) < MAX_BUFFER_NUMBER \<Longrightarrow> dp_PushData env b off p = Some (push_now b off p)"
  by (simp add: dp_PushData_def size_payload payload_nonempty)

lemma dp_PushData_full:
  "buf_ok b \<Longrightarrow> \<not> length (dp_que p) < MAX_BUFFER_NUMBER \<Longrightarrow>
     dp_PushData [] b off p = (if dp_stopped p then Some p else None)"
  by (simp add: dp_PushData_def size_payload payload_nonempty wait_room.simps)

section \<open>The live packer\<close>

lemma live_copy_spec:
  assumes "\<forall>b \<in> set bs. buf_ok b" "length (qbytes bs) < 2 ^ 31" "need < 2 ^ 31"
    "at + need \<le> length (pm_bytes (ab_mem dst))"
  obtains j e dst' where "live_copy (int need) i 0 at dst bs = (int (need - length (qbytes bs)), i + j, e, dst')"
    "ab_mem dst' = ab_mem (store at (take need (qbytes bs)) dst)"
    "j \<le> length bs" "j < length bs \<Longrightarrow> e \<le> length (payload (bs ! j))"
    "min need (length (qbytes bs)) = length (qbytes (take j bs)) + (if j < length bs then e else 0)"
  using assms
proof (induction bs arbitrary: i at need dst thesis)
  case Nil
  show ?case by (rule Nil.prems(1) [of 0 0 dst]) (simp_all add: store_def blit_def)
next
  case (Cons b bs)
  let ?n = "length (payload b)"
  have ok: "buf_ok b" using Cons.prems(2) by simp
  have n: "?n < 2 ^ 31" "0 < ?n" using Cons.prems(3) payload_nonempty [OF ok] by simp_all
  have w: "nat (min (to_i32 (int ?n)) (int need) mod 2 ^ 64) = min ?n need"
  proof -
    have "to_i32 (int ?n) = int ?n" using n(1) by (subst to_i32_eq) auto
    then have "min (to_i32 (int ?n)) (int need) = int (min ?n need)" by simp
    moreover have "int (min ?n need) mod 2 ^ 64 = int (min ?n need)" using n(1) by (intro mod_pos_pos_trivial) auto
    ultimately show ?thesis by simp
  qed
  let ?d = "(store at (take need (payload b)) dst)\<lparr>ab_pts := ab_pts b, ab_dts := ab_dts b\<rparr>"
  have c: "CopyFirstBuffer (min ?n need) b at dst 0 = (min ?n need, ?d)"
    using copy_first_spec [OF ok n(2,1), of "min ?n need" at dst] by (simp add: min_def)
  have i: "to_i32 (int (min ?n need)) = int (min ?n need)" using n(1) by (subst to_i32_eq) auto
  note step = live_copy.simps(2) Let_def size_payload [OF ok] w c i prod.case
  show ?case
  proof (cases "need \<le> ?n")
    case True
    then have m: "min ?n need = need" by simp
    have u: "to_u32 (int need) = need" using Cons.prems(4) by (simp add: to_u32_def)
    have l: "live_copy (int need) i 0 at dst (b # bs) = (0, i, need, ?d)"
      unfolding step m by (simp add: c [unfolded m] i [unfolded m] u)
    show ?thesis
      by (rule Cons.prems(1) [of 0 need ?d]) (use True l in \<open>simp_all add: store_def\<close>)
  next
    case False
    then have m: "min ?n need = ?n" by simp
    have pos: "\<not> int need - int ?n \<le> 0" "int need - int ?n = int (need - ?n)" "nat (int at + int ?n) = at + ?n"
      using False by auto
    have st: "ab_mem (store (at + ?n) (take (need - ?n) (qbytes bs)) ?d) = ab_mem (store at (take need (qbytes (b # bs))) dst)"
      using blit_append [of at "payload b" "take (need - ?n) (qbytes bs)" "pm_bytes (ab_mem dst)"] False Cons.prems(5)
      by (simp add: store_def)
    obtain j e dst' where r: "live_copy (int (need - ?n)) (Suc i) 0 (at + ?n) ?d bs =
        (int (need - ?n - length (qbytes bs)), Suc i + j, e, dst')"
      "ab_mem dst' = ab_mem (store (at + ?n) (take (need - ?n) (qbytes bs)) ?d)"
      "j \<le> length bs" "j < length bs \<Longrightarrow> e \<le> length (payload (bs ! j))"
      "min (need - ?n) (length (qbytes bs)) = length (qbytes (take j bs)) + (if j < length bs then e else 0)"
    proof (rule Cons.IH [where need = "need - ?n" and at = "at + ?n" and dst = ?d and i = "Suc i"])
      show "\<forall>b \<in> set bs. buf_ok b" using Cons.prems(2) by simp
      show "length (qbytes bs) < 2 ^ 31" using Cons.prems(3) by simp
      show "need - ?n < 2 ^ 31" using Cons.prems(4) by linarith
      show "at + ?n + (need - ?n) \<le> length (pm_bytes (ab_mem ?d))" using Cons.prems(5) False by simp
    qed (rule that)
    have l: "live_copy (int need) i 0 at dst (b # bs) =
        live_copy (int (need - ?n)) (Suc i) 0 (at + ?n) ?d bs"
      unfolding step unfolding m unfolding c [unfolded m] i [unfolded m] prod.case
      unfolding pos(2,3) using False by simp
    show ?thesis
    proof (rule Cons.prems(1) [of "Suc j" e dst'])
      show "live_copy (int need) i 0 at dst (b # bs) = (int (need - length (qbytes (b # bs))), i + Suc j, e, dst')"
        unfolding l r(1) by simp
      show "ab_mem dst' = ab_mem (store at (take need (qbytes (b # bs))) dst)" using r(2) st by simp
      show "min need (length (qbytes (b # bs))) =
          length (qbytes (take (Suc j) (b # bs))) + (if Suc j < length (b # bs) then e else 0)"
      proof -
        have "min need (?n + length (qbytes bs)) = ?n + min (need - ?n) (length (qbytes bs))"
          using False by linarith
        then show ?thesis using r(5) by simp
      qed
    qed (use r(3,4) in simp_all)
  qed
qed

lemma dp_GetRange_live_spec:
  assumes ok: "packer_ok p" and ne: "dp_que p \<noteq> []" and sz: "sz < 2 ^ 31" "sz \<le> length (pm_bytes (ab_mem dst))"
  obtains dst' p' where "dp_GetRange_live env sz (Some dst) p = Some (True, Some dst', p')"
    "payload dst' = take sz (qbytes (dp_que p))" "packer_ok p'" "qbytes (dp_que p') = drop sz (qbytes (dp_que p))"
    "length (dp_que p') \<le> length (dp_que p)" "dp_isEos p' = dp_isEos p" "dp_stopped p' = dp_stopped p"
proof -
  let ?Q = "qbytes (dp_que p)" and ?d = "dst\<lparr>ab_mem := (ab_mem dst)\<lparr>pm_size := sz\<rparr>\<rparr>"
  have all: "\<forall>b \<in> set (dp_que p). buf_ok b" and len: "length ?Q < 2 ^ 31" using ok by (auto simp: packer_ok_def)
  obtain j e dst1 where l: "live_copy (int sz) 0 0 0 ?d (dp_que p) = (int (sz - length ?Q), 0 + j, e, dst1)"
    "ab_mem dst1 = ab_mem (store 0 (take sz ?Q) ?d)" "j \<le> length (dp_que p)"
    "j < length (dp_que p) \<Longrightarrow> e \<le> length (payload (dp_que p ! j))"
    "min sz (length ?Q) = length (qbytes (take j (dp_que p))) + (if j < length (dp_que p) then e else 0)"
    by (rule live_copy_spec [OF all len sz(1), of 0 ?d 0]) (use sz in simp_all)
  let ?n = "length (take sz ?Q)"
  have w: "pm_GetWritableAddr sz 0 (ab_mem dst) = Some (0, (ab_mem dst)\<lparr>pm_size := sz\<rparr>)"
    using sz by (intro writable_start) simp_all
  have i: "to_i32 (int sz) = int sz" using sz(1) by (subst to_i32_eq) auto
  have n: "sz - (sz - length ?Q) = ?n" by simp
  have u: "to_u32 (int sz - int (sz - length ?Q)) = ?n"
    using to_u32_diff [of "sz - length ?Q" sz] sz(1) by (simp add: n del: length_take)
  define pos where "pos = \<lparr>ps_index = int j, ps_bufferOffset = e,
     ps_mediaOffset = nat ((int (dp_mediaOffset p) + int sz - int (sz - length ?Q)) mod 2 ^ 64)\<rparr>"
  have ps: "ps_index pos = int j" "ps_bufferOffset pos = e" by (simp_all add: pos_def)
  have g: "dp_GetRange_live env sz (Some dst) p = Some (True, Some (update_size ?n dst1), RemoveOldData pos p)"
    using ne sz(2) l(1) u
    by (simp add: pos_def dp_GetRange_live_def pm_GetCapacity_def wait_data.simps w i Let_def del: length_take)
  have cap: "?n \<le> length (pm_bytes (ab_mem dst1))" "?n < 2 ^ 64" using sz by (simp_all add: l(2))
  have "ab_mem (update_size ?n dst1) = \<lparr>pm_bytes = blit 0 (take sz ?Q) (pm_bytes (ab_mem dst)), pm_size = ?n\<rparr>"
    unfolding update_size_mem [OF cap] l(2) by (simp add: store_def)
  then have pay: "payload (update_size ?n dst1) = take sz ?Q" by (rule payload_filled [THEN conjunct1]) (use sz in simp)
  note rem = RemoveOldData_spec [OF ok ps(1) l(3) l(4) [folded ps(2)] l(5) [folded ps(2)]]
  have d: "drop (min sz (length ?Q)) ?Q = drop sz ?Q" by (simp add: min_def)
  show thesis
    by (rule that [OF g pay rem(1) rem(2) [unfolded d] rem(4-6)])
qed

text \<open>
  A live client pushes whole frames, keeping less than 2 GB cached (and offsets below 64 bits), and
  reads by length; a push that would have to wait for room is refused, a read of an empty packer
  gets nothing.
\<close>

definition live_put :: "u8 list \<Rightarrow> packer \<Rightarrow> bool \<times> packer" where
  "live_put xs p =
     (if xs = [] \<or> length (qbytes (dp_que p)) + length xs \<ge> 2 ^ 31 \<or>
         dp_mediaOffset p + length (qbytes (dp_que p)) + length xs \<ge> 2 ^ 64 \<or>
         \<not> length (dp_que p) < MAX_BUFFER_NUMBER
      then (False, p)
      else case dp_PushData [] (buf_of xs) 0 p of None \<Rightarrow> (False, p) | Some q \<Rightarrow> (True, q))"

definition live_get :: "nat \<Rightarrow> packer \<Rightarrow> u8 list \<times> packer" where
  "live_get n p =
     (case dp_GetRange_live [] (min n (2 ^ 31 - 1)) (Some (fresh_buf (min n (2 ^ 31 - 1)))) p of
           Some (True, Some dst, q) \<Rightarrow> (payload dst, q)
         | _ \<Rightarrow> ([], p))"

lemma live_put_spec:
  assumes "packer_ok p"
  shows "packer_ok (snd (live_put xs p))"
    "qbytes (dp_que (snd (live_put xs p))) = (if fst (live_put xs p) then qbytes (dp_que p) @ xs else qbytes (dp_que p))"
proof -
  show "packer_ok (snd (live_put xs p))"
    using assms push_now_spec(1) [OF assms, of "buf_of xs" 0]
    by (auto simp: live_put_def dp_PushData_room)
  show "qbytes (dp_que (snd (live_put xs p))) = (if fst (live_put xs p) then qbytes (dp_que p) @ xs else qbytes (dp_que p))"
    using assms push_now_spec(2) [OF assms, of "buf_of xs" 0]
    by (auto simp: live_put_def dp_PushData_room)
qed

lemma live_get_empty: "dp_que p = [] \<Longrightarrow> live_get n p = ([], p)"
  by (simp add: live_get_def dp_GetRange_live_def wait_data.simps)

lemma live_get_spec:
  assumes "packer_ok p"
  shows "packer_ok (snd (live_get n p))" "fst (live_get n p) = take n (qbytes (dp_que p))"
    "qbytes (dp_que (snd (live_get n p))) = drop n (qbytes (dp_que p))"
proof -
  let ?Q = "qbytes (dp_que p)" and ?sz = "min n (2 ^ 31 - 1)"
  have len: "length ?Q < 2 ^ 31" using assms by (simp add: packer_ok_def)
  then have e: "take ?sz ?Q = take n ?Q" "drop ?sz ?Q = drop n ?Q" by (cases "n \<le> 2 ^ 31 - 1"; simp)+
  have "packer_ok (snd (live_get n p)) \<and> fst (live_get n p) = take n ?Q \<and> qbytes (dp_que (snd (live_get n p))) = drop n ?Q"
  proof (cases "dp_que p")
    case Nil
    then show ?thesis using assms by (simp add: live_get_empty)
  next
    case (Cons b bs)
    then have ne: "dp_que p \<noteq> []" by simp
    have sz: "?sz < 2 ^ 31" "?sz \<le> length (pm_bytes (ab_mem (fresh_buf ?sz)))" by (simp_all add: fresh_buf_def new_pmem_def)
    obtain d q where g: "dp_GetRange_live [] ?sz (Some (fresh_buf ?sz)) p = Some (True, Some d, q)"
      "payload d = take ?sz ?Q" "packer_ok q" "qbytes (dp_que q) = drop ?sz ?Q"
      by (rule dp_GetRange_live_spec [OF assms ne sz, of "[]"])
    then show ?thesis by (simp only: live_get_def e option.case prod.case bool.case fst_conv snd_conv simp_thms)
  qed
  then show "packer_ok (snd (live_get n p))" "fst (live_get n p) = take n ?Q"
    "qbytes (dp_que (snd (live_get n p))) = drop n ?Q" by simp_all
qed

interpretation lps: byte_stream live_put live_get "\<lambda>p. qbytes (dp_que p)" packer_ok
  by unfold_locales (simp_all add: live_put_spec live_get_spec min.commute)

text \<open>
  C7. In push mode nothing is lost, repeated or reordered: whatever the sequence of pushed frames
  and of reads of any length, what the demuxer has read followed by what is still cached is the
  concatenation of the frames accepted.
\<close>

theorem live_packer_stream:
  "case stream_run live_put live_get ops new_packer of
     (put, got, p) \<Rightarrow> put = got @ qbytes (dp_que p) \<and> dp_size p = length put - length got"
proof -
  obtain put got p where r: "stream_run live_put live_get ops new_packer = (put, got, p)" by (metis prod_cases3)
  have ok: "packer_ok new_packer" by (simp add: packer_ok_def new_packer_def)
  have "packer_ok p \<and> qbytes (dp_que new_packer) @ put = got @ qbytes (dp_que p)"
    by (rule lps.run_stream [OF ok r])
  then have "packer_ok p" "put = got @ qbytes (dp_que p)" by (simp_all add: new_packer_def)
  then show ?thesis by (simp add: r packer_ok_def)
qed

end
