(* ===== verification/Media_Source.thy ===== *)
theory Media_Source
  imports Data_Packer_Props
begin

text \<open>
  Where the bytes come from: \<open>FileSourcePlugin\<close>
  (engine/plugin/plugins/source/file_source/file_source_plugin.cpp) and the pulling half of
  \<open>MediaSourceFilter\<close> (engine/pipeline/filters/source/media_source/media_source_filter.cpp). The
  filter works with any source plugin, whose calls are its arguments; what it relies on is the
  locale \<open>seekable_source\<close>, what it promises the demuxer the locale \<open>pull_source\<close>.

  The C library's \<open>FILE\<close> is its content, its position and its end-of-file flag. \<open>None\<close> stands for
  the undefined behaviour of reading a null \<open>FILE\<close> or writing through a null pointer. The plugin
  \<open>Status\<close> has the enumerators of \<open>status\<close>.
\<close>

section \<open>The file source\<close>

datatype seekable = SEEK_INVALID | SEEKABLE | UNSEEKABLE

record file_source =
  fs_open :: bool
  fs_data :: "u8 list"
  fs_fpos :: nat
  fs_eof :: bool
  fs_fileSize :: nat
  fs_seekable :: seekable
  fs_position :: nat

definition new_file_source :: file_source where
  "new_file_source = \<lparr>fs_open = False, fs_data = [], fs_fpos = 0, fs_eof = False, fs_fileSize = 0,
     fs_seekable = SEEKABLE, fs_position = 0\<rparr>"

definition fs_CloseFile :: "file_source \<Rightarrow> file_source" where
  "fs_CloseFile f = f\<lparr>fs_open := False\<rparr>"

text \<open>\<open>st\<close> is what \<open>CheckFileStat\<close> finds, \<open>content\<close> what \<open>fopen\<close> opens, if it does.\<close>

definition fs_OpenFile :: "status \<Rightarrow> u8 list option \<Rightarrow> file_source \<Rightarrow> status \<times> file_source" where
  "fs_OpenFile st content f =
     (if st \<noteq> OK then (st, fs_CloseFile f)
      else let f1 = fs_CloseFile f
           in case content of None \<Rightarrow> (ERROR_UNKNOWN, f1)
              | Some xs \<Rightarrow> (OK, f1\<lparr>fs_open := True, fs_data := xs, fs_fpos := 0, fs_eof := False,
                   fs_fileSize := length xs, fs_position := 0\<rparr>))"

definition fs_Reset :: "file_source \<Rightarrow> status \<times> file_source" where "fs_Reset f = (OK, fs_CloseFile f)"
definition fs_Deinit :: "file_source \<Rightarrow> status \<times> file_source" where "fs_Deinit f = (OK, fs_CloseFile f)"

definition fread :: "nat \<Rightarrow> file_source \<Rightarrow> u8 list \<times> file_source" where
  "fread n f =
     (let xs = take n (drop (fs_fpos f) (fs_data f))
      in (xs, f\<lparr>fs_fpos := fs_fpos f + length xs, fs_eof := (length xs < n \<or> fs_eof f)\<rparr>))"

definition fs_Read :: "abuf option \<Rightarrow> nat \<Rightarrow> file_source \<Rightarrow> (status \<times> abuf option \<times> file_source) option" where
  "fs_Read buffer expectedLen f =
     (if \<not> fs_open f then None
      else if fs_eof f \<or> fs_fileSize f = fs_position f then Some (END_OF_STREAM, buffer, f)
      else let b = (case buffer of None \<Rightarrow> fresh_buf expectedLen | Some b \<Rightarrow> b);
               n = min (pm_GetCapacity (ab_mem b)) (min (fs_fileSize f - fs_position f) expectedLen)
           in (case pm_GetWritableAddr n 0 (ab_mem b) of None \<Rightarrow> None
               | Some (at, m) \<Rightarrow>
                 (case fread n f of (xs, f1) \<Rightarrow>
                    let b1 = update_size (length xs) (store at xs (b\<lparr>ab_mem := m\<rparr>))
                    in Some (OK, Some b1, f1\<lparr>fs_position := fs_position f1 + pm_GetSize (ab_mem b1)\<rparr>))))"

definition fs_GetSize :: "file_source \<Rightarrow> status \<times> nat" where
  "fs_GetSize f = (if \<not> fs_open f then (ERROR_WRONG_STATE, 0) else (OK, fs_fileSize f))"

definition fs_GetSeekable :: "file_source \<Rightarrow> seekable" where "fs_GetSeekable f = fs_seekable f"

text \<open>\<open>fseek\<close> fails for offsets a \<open>long\<close> cannot hold and clears the end-of-file flag otherwise.\<close>

definition fs_SeekToPos :: "nat \<Rightarrow> file_source \<Rightarrow> status \<times> file_source" where
  "fs_SeekToPos offset f =
     (if \<not> fs_open f \<or> offset > fs_fileSize f \<or> fs_position f = offset then (ERROR_WRONG_STATE, f)
      else if offset \<ge> 2 ^ 63 then (ERROR_UNKNOWN, f\<lparr>fs_eof := False, fs_fpos := fs_position f\<rparr>)
      else (OK, f\<lparr>fs_eof := False, fs_fpos := offset, fs_position := offset\<rparr>))"

section \<open>The source filter\<close>

fun TranslatePluginStatus :: "status \<Rightarrow> error_code" where
  "TranslatePluginStatus END_OF_STREAM = EC_END_OF_STREAM"
| "TranslatePluginStatus OK = EC_SUCCESS"
| "TranslatePluginStatus ERROR_NO_MEMORY = EC_ERROR_NO_MEMORY"
| "TranslatePluginStatus ERROR_WRONG_STATE = EC_ERROR_INVALID_OPERATION"
| "TranslatePluginStatus ERROR_UNIMPLEMENTED = EC_ERROR_UNIMPLEMENTED"
| "TranslatePluginStatus ERROR_INVALID_PARAMETER = EC_ERROR_INVALID_PARAMETER_VALUE"
| "TranslatePluginStatus ERROR_MISMATCHED_TYPE = EC_ERROR_INVALID_PARAMETER_TYPE"
| "TranslatePluginStatus ERROR_TIMED_OUT = EC_ERROR_TIMED_OUT"
| "TranslatePluginStatus ERROR_UNSUPPORTED_FORMAT = EC_ERROR_UNSUPPORTED_FORMAT"
| "TranslatePluginStatus ERROR_NOT_EXISTED = EC_ERROR_NOT_EXISTED"
| "TranslatePluginStatus ERROR_AGAIN = EC_ERROR_AGAIN"
| "TranslatePluginStatus ERROR_PERMISSION_DENIED = EC_ERROR_PERMISSION_DENIED"
| "TranslatePluginStatus ERROR_DELAY_READY = EC_SUCCESS"
| "TranslatePluginStatus _ = EC_ERROR_UNKNOWN"

record 'p media_source =
  ms_plugin :: "'p option"
  ms_seekable :: seekable
  ms_position :: nat

text \<open>\<open>PullData\<close> with the plugin's \<open>GetSize\<close>, \<open>SeekToPos\<close> and \<open>Read\<close>.\<close>

definition ms_PullData ::
  "('p \<Rightarrow> status \<times> nat) \<Rightarrow> (nat \<Rightarrow> 'p \<Rightarrow> status \<times> 'p) \<Rightarrow>
   (abuf option \<Rightarrow> nat \<Rightarrow> 'p \<Rightarrow> (status \<times> abuf option \<times> 'p) option) \<Rightarrow>
   nat \<Rightarrow> nat \<Rightarrow> abuf option \<Rightarrow> 'p media_source \<Rightarrow> (error_code \<times> abuf option \<times> 'p media_source) option"
where
  "ms_PullData getSize seekTo rd offset sz data s =
     (case ms_plugin s of None \<Rightarrow> Some (EC_ERROR_INVALID_OPERATION, data, s)
      | Some plugin \<Rightarrow>
        let (st, totalSize) = getSize plugin;
            known = (ms_seekable s = SEEKABLE \<and> st = OK \<and> totalSize \<noteq> 0)
        in if known \<and> offset \<ge> totalSize then Some (EC_END_OF_STREAM, data, s)
           else
             let clipped = (if add64 offset sz > totalSize then totalSize - offset else sz);
                 readSize = (if \<not> known then sz
                   else case data of None \<Rightarrow> clipped | Some b \<Rightarrow> min clipped (pm_GetCapacity (ab_mem b)));
                 (err, plugin1) = (if ms_seekable s = SEEKABLE \<and> ms_position s \<noteq> offset
                   then case seekTo offset plugin of (st2, q) \<Rightarrow> (TranslatePluginStatus st2, q)
                   else (EC_SUCCESS, plugin));
                 s1 = s\<lparr>ms_plugin := Some plugin1\<rparr>
             in if err \<noteq> EC_SUCCESS then Some (err, data, s1)
                else
                  let s2 = (if ms_seekable s = SEEKABLE then s1\<lparr>ms_position := offset\<rparr> else s1)
                  in (case rd data readSize plugin1 of None \<Rightarrow> None
                      | Some (st3, data1, plugin2) \<Rightarrow>
                        let s3 = s2\<lparr>ms_plugin := Some plugin2\<rparr>; err3 = TranslatePluginStatus st3
                        in if err3 = EC_SUCCESS
                           then (case data1 of None \<Rightarrow> None
                             | Some b \<Rightarrow> Some (err3, data1, s3\<lparr>ms_position := ms_position s3 + pm_GetSize (ab_mem b)\<rparr>))
                           else Some (err3, data1, s3)))"

section \<open>Contracts\<close>

text \<open>What the demuxer gets from upstream: the bytes of a file from an offset on.\<close>

locale pull_source =
  fixes pull :: "nat \<Rightarrow> nat \<Rightarrow> abuf option \<Rightarrow> 's \<Rightarrow> (error_code \<times> abuf option \<times> 's) option"
    and content :: "'s \<Rightarrow> u8 list"
    and sok :: "'s \<Rightarrow> bool"
  assumes content_bound: "sok s \<Longrightarrow> length (content s) < 2 ^ 63"
    and pull_data: "sok s \<Longrightarrow> off < length (content s) \<Longrightarrow> 0 < n \<Longrightarrow> n < 2 ^ 32 \<Longrightarrow>
      \<exists>b s'. pull off n (Some (fresh_buf n)) s = Some (EC_SUCCESS, Some b, s') \<and> buf_ok b \<and>
        payload b = take n (drop off (content s)) \<and> sok s' \<and> content s' = content s"
    and pull_end: "sok s \<Longrightarrow> length (content s) \<le> off \<Longrightarrow> 0 < n \<Longrightarrow> n < 2 ^ 32 \<Longrightarrow>
      pull off n (Some (fresh_buf n)) s = Some (EC_END_OF_STREAM, Some (fresh_buf n), s)"

text \<open>What the source filter needs of its plugin: it knows the size, seeks anywhere but to where it
  is, and reads on from there.\<close>

locale seekable_source =
  fixes getSize :: "'p \<Rightarrow> status \<times> nat"
    and seekTo :: "nat \<Rightarrow> 'p \<Rightarrow> status \<times> 'p"
    and rd :: "abuf option \<Rightarrow> nat \<Rightarrow> 'p \<Rightarrow> (status \<times> abuf option \<times> 'p) option"
    and bytes :: "'p \<Rightarrow> u8 list"
    and pos :: "'p \<Rightarrow> nat"
    and ok :: "'p \<Rightarrow> bool"
  assumes bytes_bound: "ok p \<Longrightarrow> bytes p \<noteq> [] \<and> length (bytes p) < 2 ^ 63"
    and size_known: "ok p \<Longrightarrow> getSize p = (OK, length (bytes p))"
    and seek: "ok p \<Longrightarrow> off < length (bytes p) \<Longrightarrow> off \<noteq> pos p \<Longrightarrow>
      \<exists>q. seekTo off p = (OK, q) \<and> ok q \<and> bytes q = bytes p \<and> pos q = off"
    and read: "ok p \<Longrightarrow> pos p < length (bytes p) \<Longrightarrow> 0 < n \<Longrightarrow> n \<le> length (pm_bytes (ab_mem b)) \<Longrightarrow> n < 2 ^ 32 \<Longrightarrow>
      \<exists>b' q. rd (Some b) n p = Some (OK, Some b', q) \<and> buf_ok b' \<and>
        payload b' = take n (drop (pos p) (bytes p)) \<and> ok q \<and> bytes q = bytes p \<and> pos q = pos p + length (payload b')"
begin

definition filter_ok :: "'p media_source \<Rightarrow> bool" where
  "filter_ok s \<longleftrightarrow> ms_seekable s = SEEKABLE \<and> (\<exists>p. ms_plugin s = Some p \<and> ok p \<and> ms_position s = pos p)"

definition filter_bytes :: "'p media_source \<Rightarrow> u8 list" where
  "filter_bytes s = (case ms_plugin s of None \<Rightarrow> [] | Some p \<Rightarrow> bytes p)"

lemma filter_pull:
  assumes "filter_ok s" "off < length (filter_bytes s)" "0 < n" "n < 2 ^ 32"
  shows "\<exists>b s'. ms_PullData getSize seekTo rd off n (Some (fresh_buf n)) s = Some (EC_SUCCESS, Some b, s') \<and> buf_ok b \<and>
    payload b = take n (drop off (filter_bytes s)) \<and> filter_ok s' \<and> filter_bytes s' = filter_bytes s"
proof -
  obtain p where p: "ms_plugin s = Some p" "ok p" "ms_position s = pos p" "ms_seekable s = SEEKABLE"
    using assms(1) by (auto simp: filter_ok_def)
  have fb: "filter_bytes s = bytes p" by (simp add: filter_bytes_def p)
  obtain q where q: "ok q" "bytes q = bytes p" "pos q = off"
    "(if ms_position s \<noteq> off then case seekTo off p of (st2, q) \<Rightarrow> (TranslatePluginStatus st2, q) else (EC_SUCCESS, p)) =
      (EC_SUCCESS, q)"
    using seek [OF p(2), of off] assms(2) p(2,3) fb by (cases "pos p = off") auto
  let ?b = "fresh_buf n" and ?r = "min n (length (bytes p) - off)"
  have a: "add64 off n = off + n" using bytes_bound [OF p(2)] assms(2,4) fb by (intro add64_eq) simp
  have cap: "length (pm_bytes (ab_mem ?b)) = n" by (simp add: fresh_buf_def new_pmem_def)
  have r: "min (if add64 off n > length (bytes p) then length (bytes p) - off else n) (pm_GetCapacity (ab_mem ?b)) = ?r"
    using assms(2) fb by (auto simp: a pm_GetCapacity_def cap min_def)
  obtain b' t where t: "rd (Some ?b) ?r q = Some (OK, Some b', t)" "buf_ok b'"
    "payload b' = take ?r (drop off (bytes p))" "ok t" "bytes t = bytes p" "pos t = off + length (payload b')"
  proof -
    have "pos q < length (bytes q)" "0 < ?r" "?r \<le> length (pm_bytes (ab_mem ?b))" "?r < 2 ^ 32"
      using assms(2-4) fb q(2,3) by (simp_all add: cap)
    from read [OF q(1) this] show ?thesis using that q(2,3) by auto
  qed
  have len: "length (bytes p) \<noteq> 0" using bytes_bound [OF p(2)] by simp
  have "take ?r (drop off (bytes p)) = take n (drop off (bytes p))" by (simp add: min_def)
  moreover have "pm_GetSize (ab_mem b') = length (payload b')"
    using size_payload [OF t(2)] by (simp add: GetBufferSize_def)
  ultimately show ?thesis
    using p(1,4) len assms(2) fb q(4) t
    by (simp add: ms_PullData_def size_known [OF p(2)] r filter_ok_def filter_bytes_def Let_def)
qed

lemma filter_end:
  assumes "filter_ok s" "length (filter_bytes s) \<le> off"
  shows "ms_PullData getSize seekTo rd off n (Some (fresh_buf n)) s = Some (EC_END_OF_STREAM, Some (fresh_buf n), s)"
proof -
  obtain p where p: "ms_plugin s = Some p" "ok p" "ms_seekable s = SEEKABLE" using assms(1) by (auto simp: filter_ok_def)
  then show ?thesis using assms(2) bytes_bound [OF p(2)]
    by (simp add: ms_PullData_def size_known [OF p(2)] filter_bytes_def)
qed

end

sublocale seekable_source \<subseteq> fps: pull_source "ms_PullData getSize seekTo rd" filter_bytes filter_ok
proof
  fix s assume "filter_ok s"
  then show "length (filter_bytes s) < 2 ^ 63"
    using bytes_bound by (auto simp: filter_ok_def filter_bytes_def)
qed (fact filter_pull, rule filter_end)

section \<open>The file source keeps the contract\<close>

definition fs_ok :: "file_source \<Rightarrow> bool" where
  "fs_ok f \<longleftrightarrow> fs_open f \<and> fs_data f \<noteq> [] \<and> length (fs_data f) < 2 ^ 63 \<and> fs_fileSize f = length (fs_data f) \<and>
     fs_fpos f = fs_position f \<and> fs_position f \<le> length (fs_data f) \<and> \<not> fs_eof f"

lemma fs_Read_spec:
  assumes "fs_ok f" "fs_position f < length (fs_data f)" "0 < n" "n \<le> length (pm_bytes (ab_mem b))" "n < 2 ^ 32"
  shows "\<exists>b' g. fs_Read (Some b) n f = Some (OK, Some b', g) \<and> buf_ok b' \<and>
    payload b' = take n (drop (fs_position f) (fs_data f)) \<and> fs_ok g \<and> fs_data g = fs_data f \<and>
    fs_position g = fs_position f + length (payload b')"
proof -
  let ?k = "min (length (fs_data f) - fs_position f) n"
  let ?xs = "take n (drop (fs_position f) (fs_data f))"
  have lx: "length ?xs = ?k" by simp
  have k: "?k \<le> length (pm_bytes (ab_mem b))" "?k < 2 ^ 64" "0 < ?k" using assms by (auto simp: min_def)
  have m: "min (pm_GetCapacity (ab_mem b)) ?k = ?k" using k(1) by (simp add: pm_GetCapacity_def)
  have w: "pm_GetWritableAddr ?k 0 (ab_mem b) = Some (0, (ab_mem b)\<lparr>pm_size := ?k\<rparr>)" by (rule writable_start [OF k(1,2)])
  have fr: "fread ?k f = (?xs, f\<lparr>fs_fpos := fs_position f + ?k, fs_eof := False\<rparr>)"
    using assms(1) by (simp add: fread_def fs_ok_def min_def Let_def)
  let ?d = "store 0 ?xs (b\<lparr>ab_mem := (ab_mem b)\<lparr>pm_size := ?k\<rparr>\<rparr>)"
  let ?b = "update_size ?k ?d"
  have cap: "?k \<le> length (pm_bytes (ab_mem ?d))" using k(1) lx by simp
  have mem: "ab_mem ?b = \<lparr>pm_bytes = blit 0 ?xs (pm_bytes (ab_mem b)), pm_size = length ?xs\<rparr>"
    unfolding update_size_mem [OF cap k(2)] by (simp add: store_def)
  have pay: "payload ?b = ?xs \<and> length (pm_bytes (ab_mem ?b)) = length (pm_bytes (ab_mem b))"
    using mem by (rule payload_filled) (use k(1) lx in simp)
  have sz: "pm_GetSize (ab_mem ?b) = ?k" unfolding mem pm_GetSize_def using lx by simp
  have okb: "buf_ok ?b" unfolding buf_ok_def mem using k lx by (simp add: length_blit)
  let ?g = "f\<lparr>fs_fpos := fs_position f + ?k, fs_eof := False, fs_position := fs_position f + ?k\<rparr>"
  have "fs_Read (Some b) n f = Some (OK, Some ?b, ?g)"
    using assms(1,2) unfolding fs_ok_def
    by (simp add: fs_Read_def m w fr lx sz Let_def del: length_take)
  moreover have "fs_ok ?g" using assms(1) by (auto simp: fs_ok_def min_def)
  ultimately show ?thesis using okb pay lx by auto
qed

interpretation fss: seekable_source fs_GetSize fs_SeekToPos fs_Read fs_data fs_position fs_ok
proof
  fix f off assume "fs_ok f" "off < length (fs_data f)" "off \<noteq> fs_position f"
  then show "\<exists>g. fs_SeekToPos off f = (OK, g) \<and> fs_ok g \<and> fs_data g = fs_data f \<and> fs_position g = off"
    by (auto simp: fs_SeekToPos_def fs_ok_def)
qed (simp_all only: fs_Read_spec, simp_all add: fs_ok_def fs_GetSize_def)

text \<open>A filter over an opened file that is not empty.\<close>

definition file_filter :: "u8 list \<Rightarrow> file_source media_source" where
  "file_filter xs = \<lparr>ms_plugin = Some (snd (fs_OpenFile OK (Some xs) new_file_source)), ms_seekable = SEEKABLE, ms_position = 0\<rparr>"

lemma file_filter_ok: "xs \<noteq> [] \<Longrightarrow> length xs < 2 ^ 63 \<Longrightarrow> fss.filter_ok (file_filter xs)"
  by (simp add: fss.filter_ok_def file_filter_def fs_OpenFile_def fs_ok_def new_file_source_def fs_CloseFile_def Let_def)

lemma file_filter_bytes: "fss.filter_bytes (file_filter xs) = xs"
  by (simp add: fss.filter_bytes_def file_filter_def fs_OpenFile_def new_file_source_def fs_CloseFile_def Let_def)

end
