(* ===== verification/Codec_Modes.thy ===== *)
theory Codec_Modes
  imports Blocking_Queue Buffer_Pool Media_Source
begin

text \<open>
  How the decoder filters drive a codec plugin: \<open>SyncMode\<close> on the thread of the caller and \<open>AsyncMode\<close> with
  three threads of its own (engine/pipeline/filters/codec/sync_mode.cpp, async_mode.cpp, codec_mode.cpp).

  The plugin is the record \<open>codec_ops\<close> of its two methods. Where a plugin calls \<open>OnOutputBufferDone\<close> it does
  so inside \<open>QueueOutputBuffer\<close>, so the buffer it is called with is a result. A buffer of the pool is known by
  its size; \<open>cd_blank\<close> is such a buffer after \<open>Reset\<close>, with what its memory holds from before. Surface
  memory is left out.
\<close>

section \<open>Buffers and plugins\<close>

record codec_buffer =
  cb_mem :: "pmem option"
  cb_pts :: int
  cb_eos :: bool

record 'c codec_ops =
  cd_In :: "codec_buffer \<Rightarrow> 'c \<Rightarrow> (fault, status \<times> 'c) sum"
  cd_Out :: "codec_buffer \<Rightarrow> 'c \<Rightarrow> (fault, status \<times> codec_buffer option \<times> 'c) sum"
  cd_blank :: "nat \<Rightarrow> codec_buffer"

section \<open>The synchronous mode\<close>

record 'c sync_mode =
  sm_codec :: 'c
  sm_outBufPool :: "pool option"
  sm_push :: bool
  sm_port :: "codec_buffer list"

definition sm_HandleFrame :: "'c codec_ops \<Rightarrow> codec_buffer \<Rightarrow> 'c sync_mode \<Rightarrow> (fault, error_code \<times> 'c sync_mode) sum" where
  "sm_HandleFrame V b s =
     (case cd_In V b (sm_codec s) of Inl f \<Rightarrow> Inl f | Inr (st, c) \<Rightarrow> Inr (TranslatePluginStatus st, s\<lparr>sm_codec := c\<rparr>))"

definition sm_OnOutputBufferDone :: "codec_buffer \<Rightarrow> 'c sync_mode \<Rightarrow> 'c sync_mode" where
  "sm_OnOutputBufferDone b s = (if sm_push s then s\<lparr>sm_port := sm_port s @ [b]\<rparr> else s)"

text \<open>A buffer that is delivered is held by those behind the port; another goes back to the pool.\<close>

definition sm_FinishFrame :: "'c codec_ops \<Rightarrow> 'c sync_mode \<Rightarrow> (fault, error_code \<times> 'c sync_mode) sum" where
  "sm_FinishFrame V s =
     (case sm_outBufPool s of
        None \<Rightarrow> Inl Null_Deref
      | Some p \<Rightarrow>
          (case bp_AllocateAppendBufferNonBlocking p of
             (None, p1) \<Rightarrow> Inr (EC_ERROR_NO_MEMORY, s\<lparr>sm_outBufPool := Some p1\<rparr>)
           | (Some n, p1) \<Rightarrow>
               (case cd_Out V (cd_blank V n) (sm_codec s) of
                  Inl f \<Rightarrow> Inl f
                | Inr (st, out, c) \<Rightarrow>
                    let s1 = s\<lparr>sm_codec := c\<rparr>
                    in Inr (TranslatePluginStatus st,
                         case out of
                           None \<Rightarrow> s1\<lparr>sm_outBufPool := Some (bp_RecycleBuffer n p1)\<rparr>
                         | Some b \<Rightarrow> sm_OnOutputBufferDone b (s1\<lparr>sm_outBufPool := Some p1\<rparr>)))))"

text \<open>Frames are taken until there is none; \<open>None\<close> when they never end.\<close>

partial_function (option) finish_frames :: "'c codec_ops \<Rightarrow> 'c sync_mode \<Rightarrow> (fault, 'c sync_mode) sum option" where
  "finish_frames V s =
     (case sm_FinishFrame V s of
        Inl f \<Rightarrow> Some (Inl f)
      | Inr (e, s1) \<Rightarrow> if e = EC_SUCCESS then finish_frames V s1 else Some (Inr s1))"

definition MAX_RETRY_TIMES :: nat where "MAX_RETRY_TIMES = 3"

fun push_tries :: "'c codec_ops \<Rightarrow> nat \<Rightarrow> codec_buffer \<Rightarrow> 'c sync_mode \<Rightarrow> (fault, 'c sync_mode) sum option" where
  "push_tries V 0 b s = Some (Inr s)"
| "push_tries V (Suc n) b s =
     (case sm_HandleFrame V b s of
        Inl f \<Rightarrow> Some (Inl f)
      | Inr (e, s1) \<Rightarrow>
          (case finish_frames V s1 of
             None \<Rightarrow> None
           | Some (Inl f) \<Rightarrow> Some (Inl f)
           | Some (Inr s2) \<Rightarrow> if e = EC_ERROR_TIMED_OUT \<or> e = EC_ERROR_AGAIN then push_tries V n b s2 else Some (Inr s2)))"

definition sm_PushData :: "'c codec_ops \<Rightarrow> codec_buffer \<Rightarrow> 'c sync_mode \<Rightarrow> (fault, error_code \<times> 'c sync_mode) sum option" where
  "sm_PushData V b s = map_option (map_sum id (Pair EC_SUCCESS)) (push_tries V MAX_RETRY_TIMES b s)"

definition sm_Stop :: "'c sync_mode \<Rightarrow> error_code \<times> 'c sync_mode" where "sm_Stop s = (EC_SUCCESS, s)"
definition sm_FlushStart :: "'c sync_mode \<Rightarrow> 'c sync_mode" where "sm_FlushStart s = s"
definition sm_FlushEnd :: "'c sync_mode \<Rightarrow> 'c sync_mode" where "sm_FlushEnd s = s"

text \<open>The pool; without an allocator of the plugin its buffers are of the size asked for.\<close>

definition CreateOutBufferPool :: "bool \<Rightarrow> (nat \<Rightarrow> bool) \<Rightarrow> nat \<Rightarrow> nat \<Rightarrow> pool" where
  "CreateOutBufferPool allocator alloc bufferCnt bufferSize =
     (if \<not> allocator then bp_Init bufferSize 0 (new_pool bufferCnt)
      else fold (\<lambda>cnt p. if alloc cnt then snd (bp_Append bufferSize p) else p) [0..<bufferCnt] (new_pool bufferCnt))"

text \<open>A mode whose codec is well and whose pool has buffers that are large enough.\<close>

definition mode_ready :: "'c codec_ops \<Rightarrow> ('c \<Rightarrow> bool) \<Rightarrow> (codec_buffer \<Rightarrow> bool) \<Rightarrow> 'c sync_mode \<Rightarrow> bool" where
  "mode_ready V good fits s \<longleftrightarrow> good (sm_codec s) \<and> sm_push s \<and>
     (\<exists>p. sm_outBufPool s = Some p \<and> bp_active p \<and> (\<forall>n \<in> set (bp_free p) \<union> {bp_msgSize p}. fits (cd_blank V n)))"

section \<open>The contract of a codec that is fed one packet at a time\<close>

text \<open>
  \<open>inside\<close> are the frames still to come, as \<open>view\<close> sees them, \<open>hist\<close> what decoding depends on, and \<open>dec\<close> the
  frames of a packet. A codec that is \<open>idle\<close>, which has given all its frames, takes the next packet or refuses it for good; it gives its
  frames one by one, each with \<open>OK\<close> or \<open>END_OF_STREAM\<close>, and with any status but \<open>OK\<close> it is idle.
\<close>

locale frame_codec =
  fixes V :: "'c codec_ops" and good :: "'c \<Rightarrow> bool" and idle :: "'c \<Rightarrow> bool" and inside :: "'c \<Rightarrow> 'o list" and hist :: "'c \<Rightarrow> 'h"
    and dec :: "codec_buffer \<Rightarrow> 'h \<Rightarrow> 'o list \<times> 'h" and takes :: "codec_buffer \<Rightarrow> bool"
    and fits :: "codec_buffer \<Rightarrow> bool" and view :: "codec_buffer \<Rightarrow> 'o"
  assumes idle_empty: "idle c \<Longrightarrow> inside c = []"
    and feed: "good c \<Longrightarrow> idle c \<Longrightarrow> \<exists>st c1. cd_In V b c = Inr (st, c1) \<and> good c1 \<and> st \<noteq> ERROR_AGAIN \<and> st \<noteq> ERROR_TIMED_OUT \<and>
      inside c1 = (if takes b then fst (dec b (hist c)) else []) \<and> hist c1 = (if takes b then snd (dec b (hist c)) else hist c)"
    and fetch: "good c \<Longrightarrow> fits b \<Longrightarrow> \<exists>st out c1. cd_Out V b c = Inr (st, out, c1) \<and> good c1 \<and> hist c1 = hist c \<and> st \<noteq> ERROR_DELAY_READY \<and>
      (case out of None \<Rightarrow> inside c1 = inside c \<and> st \<noteq> OK | Some f \<Rightarrow> inside c = view f # inside c1) \<and> (st \<noteq> OK \<longrightarrow> idle c1)"
begin

lemma translate_success: "TranslatePluginStatus st = EC_SUCCESS \<Longrightarrow> st = OK \<or> st = ERROR_DELAY_READY"
  by (cases st) simp_all

text \<open>A buffer can always be taken from the pool.\<close>

lemma pool_gives:
  assumes "bp_active p" "\<forall>n \<in> set (bp_free p) \<union> {bp_msgSize p}. fits (cd_blank V n)"
  shows "\<exists>n p1. bp_AllocateAppendBufferNonBlocking p = (Some n, p1) \<and> fits (cd_blank V n) \<and> bp_active p1 \<and>
    (\<forall>m \<in> set (bp_free p1) \<union> {bp_msgSize p1}. fits (cd_blank V m))"
  using assms by (cases "bp_free p") (auto simp: bp_AllocateAppendBufferNonBlocking_def bp_AllocateBufferUnprotected_def)

lemma finish_one:
  assumes "mode_ready V good fits s"
  shows "\<exists>e s1. sm_FinishFrame V s = Inr (e, s1) \<and> mode_ready V good fits s1 \<and> hist (sm_codec s1) = hist (sm_codec s) \<and>
    map view (sm_port s1) @ inside (sm_codec s1) = map view (sm_port s) @ inside (sm_codec s) \<and>
    (if e = EC_SUCCESS then length (inside (sm_codec s1)) < length (inside (sm_codec s)) else idle (sm_codec s1))"
proof -
  obtain p where p: "sm_outBufPool s = Some p" "bp_active p" "\<forall>n \<in> set (bp_free p) \<union> {bp_msgSize p}. fits (cd_blank V n)"
    and s: "good (sm_codec s)" "sm_push s"
    using assms by (auto simp: mode_ready_def)
  obtain n p1 where n: "bp_AllocateAppendBufferNonBlocking p = (Some n, p1)" "fits (cd_blank V n)" "bp_active p1"
    "\<forall>m \<in> set (bp_free p1) \<union> {bp_msgSize p1}. fits (cd_blank V m)"
    using pool_gives [OF p(2,3)] by blast
  obtain st out c1 where out: "cd_Out V (cd_blank V n) (sm_codec s) = Inr (st, out, c1)" "good c1" "hist c1 = hist (sm_codec s)" "st \<noteq> ERROR_DELAY_READY"
    "case out of None \<Rightarrow> inside c1 = inside (sm_codec s) \<and> st \<noteq> OK | Some f \<Rightarrow> inside (sm_codec s) = view f # inside c1"
    "st \<noteq> OK \<longrightarrow> idle c1"
    using fetch [OF s(1) n(2)] by blast
  have e: "TranslatePluginStatus st \<noteq> EC_SUCCESS \<Longrightarrow> st \<noteq> OK" by auto
  show ?thesis
    using p(1) n out s e
    by (cases out) (auto simp: sm_FinishFrame_def sm_OnOutputBufferDone_def mode_ready_def bp_RecycleBuffer_def dest: translate_success)
qed

lemma finish_all:
  "mode_ready V good fits s \<Longrightarrow> \<exists>s1. finish_frames V s = Some (Inr s1) \<and> mode_ready V good fits s1 \<and> hist (sm_codec s1) = hist (sm_codec s) \<and> idle (sm_codec s1) \<and>
    map view (sm_port s1) = map view (sm_port s) @ inside (sm_codec s)"
proof (induction "length (inside (sm_codec s))" arbitrary: s rule: less_induct)
  case less
  obtain e s1 where one: "sm_FinishFrame V s = Inr (e, s1)" "mode_ready V good fits s1" "hist (sm_codec s1) = hist (sm_codec s)"
    "map view (sm_port s1) @ inside (sm_codec s1) = map view (sm_port s) @ inside (sm_codec s)"
    "if e = EC_SUCCESS then length (inside (sm_codec s1)) < length (inside (sm_codec s)) else idle (sm_codec s1)"
    using finish_one [OF less.prems] by blast
  show ?case
  proof (cases "e = EC_SUCCESS")
    case True
    then obtain s2 where "finish_frames V s1 = Some (Inr s2)" "mode_ready V good fits s2" "hist (sm_codec s2) = hist (sm_codec s1)" "idle (sm_codec s2)"
      "map view (sm_port s2) = map view (sm_port s1) @ inside (sm_codec s1)"
      using less.hyps [OF _ one(2)] one(5) by auto
    then show ?thesis using one True by (simp add: finish_frames.simps [of V s])
  next
    case False
    then show ?thesis using one idle_empty by (simp add: finish_frames.simps [of V s])
  qed
qed

lemma push_one:
  assumes "mode_ready V good fits s" "idle (sm_codec s)"
  shows "\<exists>s1. sm_PushData V b s = Some (Inr (EC_SUCCESS, s1)) \<and> mode_ready V good fits s1 \<and> idle (sm_codec s1) \<and>
    map view (sm_port s1) = map view (sm_port s) @ (if takes b then fst (dec b (hist (sm_codec s))) else []) \<and>
    hist (sm_codec s1) = (if takes b then snd (dec b (hist (sm_codec s))) else hist (sm_codec s))"
proof -
  obtain st c1 where c1: "cd_In V b (sm_codec s) = Inr (st, c1)" "good c1" "st \<noteq> ERROR_AGAIN" "st \<noteq> ERROR_TIMED_OUT"
    "inside c1 = (if takes b then fst (dec b (hist (sm_codec s))) else [])"
    "hist c1 = (if takes b then snd (dec b (hist (sm_codec s))) else hist (sm_codec s))"
    using feed [of "sm_codec s" b] assms by (auto simp: mode_ready_def)
  have "mode_ready V good fits (s\<lparr>sm_codec := c1\<rparr>)" using assms(1) c1(2) by (simp add: mode_ready_def)
  from finish_all [OF this] obtain s1 where s1: "finish_frames V (s\<lparr>sm_codec := c1\<rparr>) = Some (Inr s1)" "mode_ready V good fits s1" "hist (sm_codec s1) = hist c1"
    "idle (sm_codec s1)" "map view (sm_port s1) = map view (sm_port s) @ inside c1" by auto
  have "TranslatePluginStatus st \<noteq> EC_ERROR_TIMED_OUT \<and> TranslatePluginStatus st \<noteq> EC_ERROR_AGAIN" using c1(3,4) by (cases st) simp_all
  then show ?thesis using c1 s1 by (simp add: sm_PushData_def MAX_RETRY_TIMES_def sm_HandleFrame_def numeral_3_eq_3)
qed

end

text \<open>A run of packets through the mode, and what decoding them gives.\<close>

fun push_all :: "'c codec_ops \<Rightarrow> codec_buffer list \<Rightarrow> 'c sync_mode \<Rightarrow> (fault, 'c sync_mode) sum option" where
  "push_all V [] s = Some (Inr s)"
| "push_all V (b # bs) s =
     (case sm_PushData V b s of None \<Rightarrow> None | Some (Inl f) \<Rightarrow> Some (Inl f) | Some (Inr (_, s1)) \<Rightarrow> push_all V bs s1)"

fun decode_all :: "(codec_buffer \<Rightarrow> 'h \<Rightarrow> 'o list \<times> 'h) \<Rightarrow> (codec_buffer \<Rightarrow> bool) \<Rightarrow> codec_buffer list \<Rightarrow> 'h \<Rightarrow> 'o list" where
  "decode_all dec takes [] h = []"
| "decode_all dec takes (b # bs) h =
     (if takes b then fst (dec b h) @ decode_all dec takes bs (snd (dec b h)) else decode_all dec takes bs h)"

context frame_codec begin

lemma push_all_in_order:
  "mode_ready V good fits s \<Longrightarrow> idle (sm_codec s) \<Longrightarrow>
    \<exists>s1. push_all V bs s = Some (Inr s1) \<and> map view (sm_port s1) = map view (sm_port s) @ decode_all dec takes bs (hist (sm_codec s))"
proof (induction bs arbitrary: s)
  case (Cons b bs)
  from push_one [OF Cons.prems, of b] obtain s1 where s1: "sm_PushData V b s = Some (Inr (EC_SUCCESS, s1))" "mode_ready V good fits s1" "idle (sm_codec s1)"
    "map view (sm_port s1) = map view (sm_port s) @ (if takes b then fst (dec b (hist (sm_codec s))) else [])"
    "hist (sm_codec s1) = (if takes b then snd (dec b (hist (sm_codec s))) else hist (sm_codec s))" by blast
  from Cons.IH [OF s1(2,3)] show ?case using s1 by auto
qed simp

end

end
