(* ===== verification/Async_Codec.thy ===== *)
theory Async_Codec
  imports Codec_Modes
begin

text \<open>
  \<open>AsyncMode\<close> (engine/pipeline/filters/codec/async_mode.cpp): one thread gives packets to the plugin, one
  takes frames from it, one pushes them on.

  The thread of the packets is split where it waits and where another thread may come between what it
  learned and what it does with it: it holds a packet, has been told to try again, or waits. A turn of
  either other thread is one step. A task that is off starts no turn; that a call waits for the end of a
  turn is a condition of its second half. \<open>Blocks\<close> is a turn that waits for a buffer.
\<close>

section \<open>State\<close>

datatype handle_turn = H_Idle | H_Holding codec_buffer | H_Again codec_buffer | H_Waiting codec_buffer

record 'c async_mode =
  am_codec :: 'c
  am_inBufQue :: "codec_buffer bqueue option"
  am_outBufPool :: "pool option"
  am_outBufQue :: "codec_buffer list"
  am_stopped :: bool
  am_isNeedQueueInputBuffer :: bool
  am_handle :: handle_turn
  am_handleTask :: bool
  am_decodeTask :: bool
  am_pushTask :: bool
  am_push :: bool
  am_port :: "codec_buffer list"

definition new_async_mode :: "'c \<Rightarrow> 'c async_mode" where
  "new_async_mode c = \<lparr>am_codec = c, am_inBufQue = None, am_outBufPool = None, am_outBufQue = [], am_stopped = False,
     am_isNeedQueueInputBuffer = True, am_handle = H_Idle, am_handleTask = False, am_decodeTask = False, am_pushTask = False, am_push = True, am_port = []\<rparr>"

text \<open>The condition variable, and the flag with it.\<close>

definition cv_notify :: "'c async_mode \<Rightarrow> 'c async_mode" where
  "cv_notify s = (case am_handle s of H_Waiting b \<Rightarrow> s\<lparr>am_handle := H_Holding b\<rparr> | _ \<Rightarrow> s)"

definition need_input :: "'c async_mode \<Rightarrow> 'c async_mode" where
  "need_input s = (if \<not> am_isNeedQueueInputBuffer s then cv_notify (s\<lparr>am_isNeedQueueInputBuffer := True\<rparr>) else s)"

definition set_queue :: "bool \<Rightarrow> 'c async_mode \<Rightarrow> 'c async_mode" where
  "set_queue a s = s\<lparr>am_inBufQue := map_option (bl_SetActive a True) (am_inBufQue s)\<rparr>"

definition set_pool :: "bool \<Rightarrow> 'c async_mode \<Rightarrow> 'c async_mode" where
  "set_pool a s = s\<lparr>am_outBufPool := map_option (bp_SetActive a) (am_outBufPool s)\<rparr>"

section \<open>The threads\<close>

definition am_PushData :: "codec_buffer option \<Rightarrow> 'c async_mode \<Rightarrow> (fault, unit call \<times> 'c async_mode) sum" where
  "am_PushData buffer s =
     (case am_inBufQue s of
        None \<Rightarrow> Inl Null_Deref
      | Some q \<Rightarrow>
          (case buffer of
             None \<Rightarrow> Inr (Returns (), s)
           | Some b \<Rightarrow>
               if am_stopped s then Inr (Returns (), s)
               else case bl_Push b q of (r, q1) \<Rightarrow> Inr (case r of Blocks \<Rightarrow> Blocks | Returns _ \<Rightarrow> Returns (), s\<lparr>am_inBufQue := Some q1\<rparr>)))"

text \<open>A turn of \<open>HandleFrame\<close>: it takes a packet, tries it, and waits when it is to try again.\<close>

definition HandleFrame_take :: "'c async_mode \<Rightarrow> (fault, unit call \<times> 'c async_mode) sum" where
  "HandleFrame_take s =
     (case am_inBufQue s of
        None \<Rightarrow> Inl Null_Deref
      | Some q \<Rightarrow>
          (case bl_Pop q of
             (Blocks, q1) \<Rightarrow> Inr (Blocks, s\<lparr>am_inBufQue := Some q1\<rparr>)
           | (Returns None, q1) \<Rightarrow> Inr (Returns (), s\<lparr>am_inBufQue := Some q1\<rparr>)
           | (Returns (Some b), q1) \<Rightarrow> Inr (Returns (), s\<lparr>am_inBufQue := Some q1, am_handle := H_Holding b\<rparr>)))"

definition HandleFrame_try :: "'c codec_ops \<Rightarrow> codec_buffer \<Rightarrow> 'c async_mode \<Rightarrow> (fault, 'c async_mode) sum" where
  "HandleFrame_try V b s =
     (case cd_In V b (am_codec s) of
        Inl f \<Rightarrow> Inl f
      | Inr (st, c) \<Rightarrow>
          let s1 = s\<lparr>am_codec := c\<rparr>
          in Inr (if st \<noteq> ERROR_AGAIN \<or> am_stopped s
                  then s1\<lparr>am_handle := H_Idle, am_handleTask := am_handleTask s \<and> \<not> cb_eos b\<rparr>
                  else s1\<lparr>am_handle := H_Again b\<rparr>))"

definition HandleFrame_wait :: "codec_buffer \<Rightarrow> 'c async_mode \<Rightarrow> 'c async_mode" where
  "HandleFrame_wait b s = s\<lparr>am_isNeedQueueInputBuffer := False, am_handle := H_Waiting b\<rparr>"

definition am_OnOutputBufferDone :: "codec_buffer \<Rightarrow> 'c async_mode \<Rightarrow> 'c async_mode" where
  "am_OnOutputBufferDone b s =
     (let s1 = (if cb_eos b then (set_pool False s)\<lparr>am_decodeTask := False\<rparr> else s)
      in need_input (s1\<lparr>am_outBufQue := am_outBufQue s1 @ [b]\<rparr>))"

definition DecodeFrame :: "'c codec_ops \<Rightarrow> 'c async_mode \<Rightarrow> (fault, unit call \<times> 'c async_mode) sum" where
  "DecodeFrame V s =
     (case am_outBufPool s of
        None \<Rightarrow> Inl Null_Deref
      | Some p \<Rightarrow>
          if bp_Empty p \<and> bp_active p then Inr (Blocks, s)
          else case bp_AllocateBuffer (\<lambda>p. p) p of
                 (None, p1) \<Rightarrow> Inr (Returns (), s\<lparr>am_outBufPool := Some p1\<rparr>)
               | (Some n, p1) \<Rightarrow>
                   (case cd_Out V (cd_blank V n) (am_codec s) of
                      Inl f \<Rightarrow> Inl f
                    | Inr (st, out, c) \<Rightarrow>
                        let s1 = s\<lparr>am_codec := c, am_outBufPool := Some p1\<rparr>;
                            s2 = (case out of None \<Rightarrow> s1 | Some b \<Rightarrow> am_OnOutputBufferDone b s1);
                            s3 = (if st = ERROR_NOT_ENOUGH_DATA \<and> \<not> am_isNeedQueueInputBuffer s2 then cv_notify s2 else s2)
                        in Inr (Returns (), if out = None then s3\<lparr>am_outBufPool := map_option (bp_RecycleBuffer n) (am_outBufPool s3)\<rparr> else s3)))"

definition am_FinishFrame :: "'c async_mode \<Rightarrow> error_code \<times> 'c async_mode" where
  "am_FinishFrame s =
     (case am_outBufQue s of
        [] \<Rightarrow> (EC_SUCCESS, s)
      | b # bs \<Rightarrow>
          let s1 = s\<lparr>am_outBufQue := bs\<rparr>
          in if \<not> am_push s then (EC_ERROR_INVALID_OPERATION, s1)
             else (EC_SUCCESS, s1\<lparr>am_port := am_port s @ [b], am_pushTask := am_pushTask s \<and> \<not> cb_eos b\<rparr>))"

section \<open>The calls of the filter\<close>

definition am_Prepare :: "nat \<Rightarrow> 'c async_mode \<Rightarrow> error_code \<times> 'c async_mode" where
  "am_Prepare inBufPoolSize s =
     (EC_SUCCESS, case am_inBufQue s of None \<Rightarrow> s\<lparr>am_inBufQue := Some (new_bqueue inBufPoolSize)\<rparr> | Some _ \<Rightarrow> set_queue True s)"

text \<open>All buffers of the pool are offered to the plugin until it refuses one. \<open>n\<close> is how many there are at most.\<close>

fun queue_all :: "'c codec_ops \<Rightarrow> nat \<Rightarrow> 'c async_mode \<Rightarrow> (fault, 'c async_mode) sum" where
  "queue_all V 0 s = Inr s"
| "queue_all V (Suc n) s =
     (case am_outBufPool s of
        None \<Rightarrow> Inl Null_Deref
      | Some p \<Rightarrow>
          if bp_Empty p then Inr s
          else case bp_AllocateBuffer (\<lambda>p. p) p of
                 (None, p1) \<Rightarrow> Inr (s\<lparr>am_outBufPool := Some p1\<rparr>)
               | (Some k, p1) \<Rightarrow>
                   (case cd_Out V (cd_blank V k) (am_codec s) of
                      Inl f \<Rightarrow> Inl f
                    | Inr (st, out, c) \<Rightarrow>
                        let s1 = s\<lparr>am_codec := c, am_outBufPool := Some p1\<rparr>;
                            s2 = (case out of None \<Rightarrow> s1 | Some b \<Rightarrow> am_OnOutputBufferDone b s1)
                        in if TranslatePluginStatus st = EC_SUCCESS then queue_all V n s2
                           else Inr (if out = None then s2\<lparr>am_outBufPool := Some (bp_RecycleBuffer k p1)\<rparr> else s2)))"

definition am_Configure :: "'c codec_ops \<Rightarrow> ('c \<Rightarrow> status \<times> 'c) \<Rightarrow> ('c \<Rightarrow> status \<times> 'c) \<Rightarrow> 'c async_mode \<Rightarrow> (fault, error_code \<times> 'c async_mode) sum" where
  "am_Configure V prepare start s =
     (case am_outBufPool s of
        None \<Rightarrow> Inl Null_Deref
      | Some p \<Rightarrow>
          (case queue_all V (length (bp_free p)) (s\<lparr>am_stopped := False\<rparr>) of
             Inl f \<Rightarrow> Inl f
           | Inr s1 \<Rightarrow>
               (case prepare (am_codec s1) of
                  (st, c) \<Rightarrow>
                    let s2 = s1\<lparr>am_codec := c\<rparr>
                    in if TranslatePluginStatus st \<noteq> EC_SUCCESS then Inr (TranslatePluginStatus st, s2)
                       else case start c of
                              (st2, c2) \<Rightarrow>
                                let s3 = s2\<lparr>am_codec := c2\<rparr>
                                in if TranslatePluginStatus st2 \<noteq> EC_SUCCESS then Inr (TranslatePluginStatus st2, s3)
                                   else Inr (EC_SUCCESS, (need_input s3)\<lparr>am_handleTask := True, am_decodeTask := True, am_pushTask := True\<rparr>))))"

text \<open>\<open>Stop\<close>, \<open>FlushStart\<close> and \<open>Release\<close> up to where they wait for the turn of the packets, and after.\<close>

definition am_Stop_begin :: "'c async_mode \<Rightarrow> (fault, 'c async_mode) sum" where
  "am_Stop_begin s =
     (case am_inBufQue s of
        None \<Rightarrow> Inl Null_Deref
      | Some _ \<Rightarrow> Inr (need_input ((set_queue False ((set_pool False (s\<lparr>am_stopped := True\<rparr>))\<lparr>am_decodeTask := False, am_pushTask := False\<rparr>))\<lparr>am_outBufQue := []\<rparr>)))"

definition am_Stop_end :: "'c async_mode \<Rightarrow> ('c async_mode) option" where
  "am_Stop_end s = (if am_handle s = H_Idle then Some (s\<lparr>am_handleTask := False, am_outBufPool := None\<rparr>) else None)"

definition am_FlushStart_begin :: "'c async_mode \<Rightarrow> 'c async_mode" where
  "am_FlushStart_begin s = need_input (set_queue False (s\<lparr>am_stopped := True\<rparr>))"

definition am_FlushStart_end :: "'c async_mode \<Rightarrow> ('c async_mode) option" where
  "am_FlushStart_end s =
     (if am_handle s = H_Idle
      then Some ((set_pool False (s\<lparr>am_handleTask := False\<rparr>))\<lparr>am_decodeTask := False, am_pushTask := False, am_outBufQue := []\<rparr>) else None)"

definition am_FlushEnd :: "'c async_mode \<Rightarrow> 'c async_mode" where
  "am_FlushEnd s =
     (set_pool True (need_input (set_queue True (s\<lparr>am_stopped := False\<rparr>))))\<lparr>am_handleTask := True, am_decodeTask := True, am_pushTask := True\<rparr>"

definition am_Release_begin :: "'c async_mode \<Rightarrow> 'c async_mode" where
  "am_Release_begin s = need_input (s\<lparr>am_stopped := True, am_inBufQue := None\<rparr>)"

definition am_Release_end :: "'c async_mode \<Rightarrow> ('c async_mode) option" where
  "am_Release_end s =
     (if am_handle s = H_Idle
      then Some ((set_pool False (s\<lparr>am_handleTask := False\<rparr>))\<lparr>am_decodeTask := False, am_pushTask := False, am_outBufQue := []\<rparr>) else None)"

section \<open>Nothing is lost while it runs\<close>

text \<open>What the threads and those before and behind the filter do, with the packets given so far.\<close>

inductive async_run :: "'c codec_ops \<Rightarrow> 'c async_mode \<Rightarrow> codec_buffer list \<Rightarrow> 'c async_mode \<Rightarrow> bool" for V s0 where
  async_Start: "async_run V s0 [] s0"
| async_Push: "async_run V s0 fed s \<Longrightarrow> am_PushData (Some b) s = Inr (Returns (), s1) \<Longrightarrow> async_run V s0 (fed @ [b]) s1"
| async_Take: "async_run V s0 fed s \<Longrightarrow> am_handle s = H_Idle \<Longrightarrow> am_handleTask s \<Longrightarrow> HandleFrame_take s = Inr (Returns (), s1) \<Longrightarrow> async_run V s0 fed s1"
| async_Try: "async_run V s0 fed s \<Longrightarrow> am_handle s = H_Holding b \<Longrightarrow> HandleFrame_try V b s = Inr s1 \<Longrightarrow> async_run V s0 fed s1"
| async_Wait: "async_run V s0 fed s \<Longrightarrow> am_handle s = H_Again b \<Longrightarrow> async_run V s0 fed (HandleFrame_wait b s)"
| async_Decode: "async_run V s0 fed s \<Longrightarrow> am_decodeTask s \<Longrightarrow> DecodeFrame V s = Inr (Returns (), s1) \<Longrightarrow> async_run V s0 fed s1"
| async_Finish: "async_run V s0 fed s \<Longrightarrow> am_pushTask s \<Longrightarrow> am_FinishFrame s = (e, s1) \<Longrightarrow> async_run V s0 fed s1"
| async_Recycle: "async_run V s0 fed s \<Longrightarrow> am_outBufPool s = Some p \<Longrightarrow> n \<in> set (bp_out p) \<Longrightarrow>
    async_run V s0 fed (s\<lparr>am_outBufPool := Some (bp_RecycleBuffer n p)\<rparr>)"

text \<open>
  A codec that keeps what it takes: a packet is taken or to be tried again, and what is inside comes out in
  order, a frame at a time.
\<close>

definition lossless_codec ::
  "'c codec_ops \<Rightarrow> ('c \<Rightarrow> 'o list) \<Rightarrow> ('c \<Rightarrow> 'h) \<Rightarrow> (codec_buffer \<Rightarrow> 'h \<Rightarrow> 'o list \<times> 'h) \<Rightarrow> (codec_buffer \<Rightarrow> 'o) \<Rightarrow> bool" where
  "lossless_codec V inside hist dec view \<longleftrightarrow>
     (\<forall>b c st c1. cd_In V b c = Inr (st, c1) \<longrightarrow>
        (if st = OK then inside c1 = inside c @ fst (dec b (hist c)) \<and> hist c1 = snd (dec b (hist c))
         else st = ERROR_AGAIN \<and> inside c1 = inside c \<and> hist c1 = hist c)) \<and>
     (\<forall>b c st out c1. cd_Out V b c = Inr (st, out, c1) \<longrightarrow>
        hist c1 = hist c \<and> inside c = (case out of None \<Rightarrow> [] | Some f \<Rightarrow> [view f]) @ inside c1)"

fun held :: "handle_turn \<Rightarrow> codec_buffer list" where
  "held H_Idle = []"
| "held (H_Holding b) = [b]"
| "held (H_Again b) = [b]"
| "held (H_Waiting b) = [b]"

fun after_all :: "(codec_buffer \<Rightarrow> 'h \<Rightarrow> 'o list \<times> 'h) \<Rightarrow> codec_buffer list \<Rightarrow> 'h \<Rightarrow> 'h" where
  "after_all dec [] h = h"
| "after_all dec (b # bs) h = after_all dec bs (snd (dec b h))"

lemma decode_all_append: "decode_all dec (\<lambda>_. True) (xs @ ys) h = decode_all dec (\<lambda>_. True) xs h @ decode_all dec (\<lambda>_. True) ys (after_all dec xs h)"
  by (induction xs arbitrary: h) auto

lemma after_all_append: "after_all dec (xs @ ys) h = after_all dec ys (after_all dec xs h)"
  by (induction xs arbitrary: h) auto

definition frames :: "(codec_buffer \<Rightarrow> 'o) \<Rightarrow> ('c \<Rightarrow> 'o list) \<Rightarrow> 'c async_mode \<Rightarrow> 'o list" where
  "frames view inside s = map view (am_port s) @ map view (am_outBufQue s) @ inside (am_codec s)"

definition in_flight ::
  "('c \<Rightarrow> 'o list) \<Rightarrow> ('c \<Rightarrow> 'h) \<Rightarrow> (codec_buffer \<Rightarrow> 'h \<Rightarrow> 'o list \<times> 'h) \<Rightarrow> (codec_buffer \<Rightarrow> 'o) \<Rightarrow> 'h \<Rightarrow> codec_buffer list \<Rightarrow> 'c async_mode \<Rightarrow> bool" where
  "in_flight inside hist dec view h fed s \<longleftrightarrow>
     (\<exists>done q. am_inBufQue s = Some q \<and> bl_active q \<and> \<not> am_stopped s \<and> am_push s \<and> fed = done @ held (am_handle s) @ bl_que q \<and>
        frames view inside s = decode_all dec (\<lambda>_. True) done h \<and> hist (am_codec s) = after_all dec done h)"

text \<open>Waking the thread, the flag and the pool matter to none of this.\<close>

lemma cv_notify_frame [simp]:
  "am_codec (cv_notify s) = am_codec s" "am_inBufQue (cv_notify s) = am_inBufQue s" "am_outBufQue (cv_notify s) = am_outBufQue s"
  "am_stopped (cv_notify s) = am_stopped s" "am_push (cv_notify s) = am_push s" "am_port (cv_notify s) = am_port s"
  "held (am_handle (cv_notify s)) = held (am_handle s)" "am_outBufPool (cv_notify s) = am_outBufPool s"
  "am_decodeTask (cv_notify s) = am_decodeTask s" "am_pushTask (cv_notify s) = am_pushTask s"
  by (simp_all add: cv_notify_def split: handle_turn.split)

lemma need_input_frame [simp]:
  "am_codec (need_input s) = am_codec s" "am_inBufQue (need_input s) = am_inBufQue s" "am_outBufQue (need_input s) = am_outBufQue s"
  "am_stopped (need_input s) = am_stopped s" "am_push (need_input s) = am_push s" "am_port (need_input s) = am_port s"
  "held (am_handle (need_input s)) = held (am_handle s)" "am_outBufPool (need_input s) = am_outBufPool s"
  "am_decodeTask (need_input s) = am_decodeTask s" "am_pushTask (need_input s) = am_pushTask s"
  by (simp_all add: need_input_def)

lemma done_frame [simp]:
  "am_codec (am_OnOutputBufferDone b s) = am_codec s" "am_inBufQue (am_OnOutputBufferDone b s) = am_inBufQue s"
  "am_outBufQue (am_OnOutputBufferDone b s) = am_outBufQue s @ [b]" "am_stopped (am_OnOutputBufferDone b s) = am_stopped s"
  "am_push (am_OnOutputBufferDone b s) = am_push s" "am_port (am_OnOutputBufferDone b s) = am_port s"
  "held (am_handle (am_OnOutputBufferDone b s)) = held (am_handle s)"
  by (simp_all add: am_OnOutputBufferDone_def set_pool_def Let_def)

lemma decode_turn:
  assumes "DecodeFrame V s = Inr (Returns (), s1)" "lossless_codec V inside hist dec view"
  shows "frames view inside s1 = frames view inside s \<and> hist (am_codec s1) = hist (am_codec s) \<and> am_inBufQue s1 = am_inBufQue s \<and>
    am_stopped s1 = am_stopped s \<and> am_push s1 = am_push s \<and> held (am_handle s1) = held (am_handle s)"
proof -
  obtain p where p: "am_outBufPool s = Some p" using assms(1) by (auto simp: DecodeFrame_def split: option.splits)
  obtain k p1 where k: "bp_AllocateBuffer (\<lambda>p. p) p = (k, p1)" by fastforce
  show ?thesis
  proof (cases k)
    case None
    then show ?thesis using assms(1) p k by (auto simp: DecodeFrame_def frames_def split: if_splits)
  next
    case (Some n)
    then obtain st out c1 where out: "cd_Out V (cd_blank V n) (am_codec s) = Inr (st, out, c1)"
      using assms(1) p k by (auto simp: DecodeFrame_def split: sum.splits if_splits)
    then have "hist c1 = hist (am_codec s)" "inside (am_codec s) = (case out of None \<Rightarrow> [] | Some f \<Rightarrow> [view f]) @ inside c1"
      using assms(2) unfolding lossless_codec_def by blast+
    then show ?thesis using assms(1) p k Some out
      by (cases out) (auto simp: DecodeFrame_def frames_def Let_def split: if_splits)
  qed
qed

lemma try_turn:
  assumes "HandleFrame_try V b s = Inr s1" "lossless_codec V inside hist dec view" "am_handle s = H_Holding b"
    "in_flight inside hist dec view h fed s"
  shows "in_flight inside hist dec view h fed s1"
proof -
  obtain past q where *: "am_inBufQue s = Some q" "bl_active q" "\<not> am_stopped s" "am_push s" "fed = past @ [b] @ bl_que q"
    "frames view inside s = decode_all dec (\<lambda>_. True) past h" "hist (am_codec s) = after_all dec past h"
    using assms(3,4) by (auto simp: in_flight_def)
  obtain st c1 where c1: "cd_In V b (am_codec s) = Inr (st, c1)" using assms(1) by (auto simp: HandleFrame_try_def split: sum.splits)
  then have in1: "if st = OK then inside c1 = inside (am_codec s) @ fst (dec b (hist (am_codec s))) \<and> hist c1 = snd (dec b (hist (am_codec s)))
      else st = ERROR_AGAIN \<and> inside c1 = inside (am_codec s) \<and> hist c1 = hist (am_codec s)"
    using assms(2) unfolding lossless_codec_def by blast
  show ?thesis
  proof (cases "st = OK")
    case True
    then have "frames view inside s1 = decode_all dec (\<lambda>_. True) (past @ [b]) h" "hist (am_codec s1) = after_all dec (past @ [b]) h"
      using in1 * assms(1) c1 by (auto simp: HandleFrame_try_def frames_def decode_all_append after_all_append)
    moreover have "am_inBufQue s1 = Some q" "am_handle s1 = H_Idle" "\<not> am_stopped s1" "am_push s1"
      using True * assms(1) c1 by (auto simp: HandleFrame_try_def)
    ultimately show ?thesis unfolding in_flight_def using *
      by (intro exI [of _ "past @ [b]"] exI [of _ q]) simp
  next
    case False
    then show ?thesis unfolding in_flight_def using in1 * assms(1) c1
      by (intro exI [of _ past] exI [of _ q]) (auto simp: HandleFrame_try_def frames_def)
  qed
qed

lemma async_run_in_flight:
  assumes "async_run V s0 fed s" "lossless_codec V inside hist dec view" "in_flight inside hist dec view h [] s0"
  shows "in_flight inside hist dec view h fed s"
  using assms(1)
proof induction
  case (async_Push fed s b s1)
  then obtain past q where *: "am_inBufQue s = Some q" "bl_active q" "\<not> am_stopped s" "am_push s" "fed = past @ held (am_handle s) @ bl_que q"
    "frames view inside s = decode_all dec (\<lambda>_. True) past h" "hist (am_codec s) = after_all dec past h"
    by (auto simp: in_flight_def)
  obtain r q1 where push: "bl_Push b q = (r, q1)" by fastforce
  then have s1: "s1 = s\<lparr>am_inBufQue := Some q1\<rparr>" "r \<noteq> Blocks" using async_Push.hyps(2) * by (cases r; simp add: am_PushData_def)+
  then have "bl_que q1 = bl_que q @ [b] \<and> bl_active q1"
    using push *(2) by (auto simp: bl_Push_def push_wait_def push_done_def split: if_splits)
  then show ?case unfolding in_flight_def using * s1
    by (intro exI [of _ past] exI [of _ q1]) (simp add: frames_def)
next
  case (async_Take fed s s1)
  then obtain past q where *: "am_inBufQue s = Some q" "bl_active q" "\<not> am_stopped s" "am_push s" "fed = past @ bl_que q"
    "frames view inside s = decode_all dec (\<lambda>_. True) past h" "hist (am_codec s) = after_all dec past h"
    by (auto simp: in_flight_def)
  obtain r q1 where pop: "bl_Pop q = (r, q1)" by fastforce
  then have "(\<exists>x. r = Returns (Some x) \<and> bl_que q = x # bl_que q1 \<and> bl_active q1) \<or> r = Blocks"
    using *(2) by (auto simp: bl_Pop_def pop_wait_def pop_done_def bl_Empty_def split: if_splits list.splits)
  then obtain x where x: "s1 = s\<lparr>am_inBufQue := Some q1, am_handle := H_Holding x\<rparr>" "bl_que q = x # bl_que q1" "bl_active q1"
    using async_Take.hyps(4) * pop by (auto simp: HandleFrame_take_def)
  then show ?case unfolding in_flight_def using *
    by (intro exI [of _ past] exI [of _ q1]) (simp add: frames_def)
next
  case (async_Try fed s b s1)
  show ?case by (rule try_turn [OF async_Try.hyps(3) assms(2) async_Try.hyps(2) async_Try.IH])
next
  case (async_Wait fed s b)
  then show ?case by (auto simp: in_flight_def HandleFrame_wait_def frames_def)
next
  case (async_Decode fed s s1)
  then show ?case using decode_turn [OF async_Decode.hyps(3) assms(2)] by (simp add: in_flight_def)
next
  case (async_Finish fed s e s1)
  then have "frames view inside s1 = frames view inside s \<and> am_codec s1 = am_codec s \<and> am_inBufQue s1 = am_inBufQue s \<and>
    am_stopped s1 = am_stopped s \<and> am_push s1 = am_push s \<and> am_handle s1 = am_handle s"
    by (auto simp: am_FinishFrame_def frames_def in_flight_def Let_def split: list.splits)
  then show ?case using async_Finish.IH by (simp add: in_flight_def)
next
  case (async_Recycle fed s p n)
  then show ?case by (simp add: in_flight_def frames_def)
qed (use assms(3) in simp)


text \<open>A codec with room for two packets, which gives them back.\<close>

definition two_slots :: "codec_buffer list codec_ops" where
  "two_slots = \<lparr>cd_In = (\<lambda>b c. Inr (if length c < 2 then (OK, c @ [b]) else (ERROR_AGAIN, c))),
     cd_Out = (\<lambda>b c. Inr (case c of [] \<Rightarrow> (ERROR_NOT_ENOUGH_DATA, None, []) | x # xs \<Rightarrow> (OK, Some x, xs))),
     cd_blank = (\<lambda>n. \<lparr>cb_mem = Some (new_pmem (replicate n 0)), cb_pts = 0, cb_eos = False\<rparr>)\<rparr>"

lemma two_slots_lossless: "lossless_codec two_slots (\<lambda>c. c) (\<lambda>_. ()) (\<lambda>b h. ([b], h)) (\<lambda>b. b)"
  by (auto simp: lossless_codec_def two_slots_def split: list.splits if_splits)

definition ex_async :: "codec_buffer list async_mode" where
  "ex_async = (new_async_mode [])\<lparr>am_inBufQue := Some (new_bqueue 5), am_outBufPool := Some (bp_Init 8 0 (new_pool 1)),
     am_handleTask := True, am_decodeTask := True, am_pushTask := True\<rparr>"

definition ex_packet :: "int \<Rightarrow> codec_buffer" where
  "ex_packet t = \<lparr>cb_mem = None, cb_pts = t, cb_eos = False\<rparr>"

lemmas async_eval = ex_async_def new_async_mode_def new_bqueue_def bp_Init_def new_pool_def am_PushData_def bl_Push_def bl_Size_def push_done_def
  notify_all_empty_def HandleFrame_take_def bl_Pop_def bl_Empty_def pop_done_def notify_one_full_def HandleFrame_try_def two_slots_def
  DecodeFrame_def bp_Empty_def bp_AllocateBuffer_def bp_AllocateBufferUnprotected_def am_OnOutputBufferDone_def need_input_def cv_notify_def
  am_FinishFrame_def ex_packet_def Let_def


section \<open>Stopping\<close>


text \<open>A thread that waits already is woken, and its next try ends its turn.\<close>

lemma stop_wakes_waiting:
  assumes "am_handle s = H_Waiting b" "\<not> am_isNeedQueueInputBuffer s" "am_Stop_begin s = Inr s1" "HandleFrame_try V b s1 = Inr s2"
  shows "am_handle s1 = H_Holding b \<and> am_handle s2 = H_Idle"
  using assms
  by (auto simp: am_Stop_begin_def need_input_def cv_notify_def set_pool_def set_queue_def HandleFrame_try_def Let_def split: option.splits sum.splits)


end
