(* ===== verification/Mp3_Decoder.thy ===== *)
theory Mp3_Decoder
  imports Async_Codec
begin

text \<open>
  The MP3 decoder plugin (engine/plugin/plugins/minimp3_adapter/minimp3_decoder_plugin.cpp).

  The library is the argument \<open>dec\<close>: from its state and the bytes of a packet the number of samples, whether
  bytes were used, the samples as bytes, and its state after. A value of a parameter is a number, as all
  the plugin reads are. A result \<open>Inl\<close> is a null pointer that is followed, or samples behind the end of a
  memory.
\<close>

datatype mp3_tag = AUDIO_CHANNELS | AUDIO_SAMPLE_PER_FRAME | REQUIRED_OUT_BUFFER_CNT | OTHER_PARAMETER nat

record 'h mp3_decoder =
  md_samplesPerFrame :: nat
  md_channels :: nat
  md_handle :: 'h
  md_parameter :: "mp3_tag \<rightharpoonup> nat"
  md_inputBuffer :: "codec_buffer option"

type_synonym 'h mp3_lib = "'h \<Rightarrow> u8 list \<Rightarrow> int \<times> bool \<times> u8 list \<times> 'h"

definition new_mp3_decoder :: "'h \<Rightarrow> 'h mp3_decoder" where
  "new_mp3_decoder h = \<lparr>md_samplesPerFrame = 0, md_channels = 0, md_handle = h, md_parameter = Map.empty, md_inputBuffer = None\<rparr>"

definition MP3_MAX_SAMPLES_PER_FRAME :: nat where "MP3_MAX_SAMPLES_PER_FRAME = 1152"
definition BUFFER_ITEM_CNT :: nat where "BUFFER_ITEM_CNT = 6"

definition md_Init :: "'h \<Rightarrow> 'h mp3_decoder \<Rightarrow> status \<times> 'h mp3_decoder" where
  "md_Init h d = (OK, d\<lparr>md_handle := h, md_parameter := (md_parameter d)(REQUIRED_OUT_BUFFER_CNT \<mapsto> BUFFER_ITEM_CNT,
     AUDIO_SAMPLE_PER_FRAME \<mapsto> MP3_MAX_SAMPLES_PER_FRAME)\<rparr>)"

text \<open>\<open>insert\<close> of a map keeps the value that is there.\<close>

definition md_SetParameter :: "mp3_tag \<Rightarrow> nat \<Rightarrow> 'h mp3_decoder \<Rightarrow> status \<times> 'h mp3_decoder" where
  "md_SetParameter tag v d = (OK, if md_parameter d tag = None then d\<lparr>md_parameter := (md_parameter d)(tag \<mapsto> v)\<rparr> else d)"

definition md_GetParameter :: "mp3_tag \<Rightarrow> 'h mp3_decoder \<Rightarrow> status \<times> nat option" where
  "md_GetParameter tag d = (case md_parameter d tag of Some v \<Rightarrow> (OK, Some v) | None \<Rightarrow> (ERROR_INVALID_PARAMETER, None))"

definition md_Prepare :: "'h mp3_decoder \<Rightarrow> status \<times> 'h mp3_decoder" where
  "md_Prepare d =
     (let d1 = (case md_parameter d AUDIO_CHANNELS of Some v \<Rightarrow> d\<lparr>md_channels := v\<rparr> | None \<Rightarrow> d);
          d2 = (case md_parameter d1 AUDIO_SAMPLE_PER_FRAME of Some v \<Rightarrow> d1\<lparr>md_samplesPerFrame := v\<rparr> | None \<Rightarrow> d1)
      in (if md_samplesPerFrame d2 \<notin> {384, 576, 1152} then ERROR_INVALID_PARAMETER else OK, d2))"

definition md_Reset :: "'h mp3_decoder \<Rightarrow> status \<times> 'h mp3_decoder" where
  "md_Reset d = (OK, d\<lparr>md_parameter := Map.empty\<rparr>)"

text \<open>A packet to samples. The length of the samples is a 32-bit number.\<close>

definition probe_length :: "'h mp3_decoder \<Rightarrow> nat" where
  "probe_length d = (md_samplesPerFrame d * 2 * md_channels d) mod 2 ^ 32"

definition AudioDecoderMp3Process ::
  "'h mp3_lib \<Rightarrow> codec_buffer \<Rightarrow> codec_buffer \<Rightarrow> 'h mp3_decoder \<Rightarrow> (fault, status \<times> codec_buffer \<times> 'h mp3_decoder) sum" where
  "AudioDecoderMp3Process dec inb outb d =
     (case (cb_mem inb, cb_mem outb) of
        (Some m, Some o1) \<Rightarrow>
          if pm_GetCapacity o1 < probe_length d then Inr (ERROR_UNKNOWN, outb, d)
          else (case dec (md_handle d) (take (pm_size m) (pm_bytes m)) of
                  (sampleCount, used, pcm, h) \<Rightarrow>
                    if length pcm > pm_GetCapacity o1 then Inl Out_Of_Bounds
                    else Inr (if sampleCount > 0 \<and> used \<or> sampleCount = 0 then OK else ERROR_UNKNOWN,
                           outb\<lparr>cb_mem := Some \<lparr>pm_bytes = blit 0 pcm (pm_bytes o1), pm_size = probe_length d\<rparr>, cb_pts := cb_pts inb\<rparr>,
                           d\<lparr>md_handle := h\<rparr>))
      | _ \<Rightarrow> Inl Null_Deref)"

definition GetPcmDataProcess ::
  "'h mp3_lib \<Rightarrow> codec_buffer option \<Rightarrow> codec_buffer option \<Rightarrow> 'h mp3_decoder \<Rightarrow> (fault, status \<times> codec_buffer option \<times> 'h mp3_decoder) sum" where
  "GetPcmDataProcess dec inputBuffer outputBuffer d =
     (case inputBuffer of
        None \<Rightarrow> Inr (ERROR_NOT_ENOUGH_DATA, outputBuffer, d)
      | Some inb \<Rightarrow>
          (case outputBuffer of
             None \<Rightarrow> Inr (ERROR_INVALID_PARAMETER, None, d)
           | Some outb \<Rightarrow>
               (case cb_mem outb of
                  None \<Rightarrow> Inr (ERROR_INVALID_PARAMETER, Some outb, d)
                | Some m \<Rightarrow>
                    if cb_mem inb = None \<and> cb_eos inb
                    then Inr (END_OF_STREAM, Some (outb\<lparr>cb_mem := Some (pm_Reset m), cb_eos := True\<rparr>), d)
                    else map_sum id (\<lambda>(st, b, d1). (st, Some b, d1)) (AudioDecoderMp3Process dec inb outb d))))"

text \<open>With the buffer the callback is called with, if it is.\<close>

definition SendOutputBuffer ::
  "'h mp3_lib \<Rightarrow> codec_buffer option \<Rightarrow> 'h mp3_decoder \<Rightarrow> (fault, status \<times> codec_buffer option \<times> 'h mp3_decoder) sum" where
  "SendOutputBuffer dec outputBuffer d =
     map_sum id (\<lambda>(st, b, d1). (st, if st = OK \<or> st = END_OF_STREAM then b else None, d1\<lparr>md_inputBuffer := None\<rparr>))
       (GetPcmDataProcess dec (md_inputBuffer d) outputBuffer d)"

definition md_QueueOutputBuffer ::
  "'h mp3_lib \<Rightarrow> codec_buffer option \<Rightarrow> 'h mp3_decoder \<Rightarrow> (fault, status \<times> codec_buffer option \<times> 'h mp3_decoder) sum" where
  "md_QueueOutputBuffer dec outputBuffer d =
     (if outputBuffer = None then Inr (ERROR_INVALID_PARAMETER, None, d) else SendOutputBuffer dec outputBuffer d)"

definition md_QueueInputBuffer :: "codec_buffer \<Rightarrow> 'h mp3_decoder \<Rightarrow> status \<times> 'h mp3_decoder" where
  "md_QueueInputBuffer b d = (if cb_mem b = None \<and> \<not> cb_eos b then (ERROR_INVALID_DATA, d) else (OK, d\<lparr>md_inputBuffer := Some b\<rparr>))"

definition mp3_ops :: "'h mp3_lib \<Rightarrow> (nat \<Rightarrow> u8 list) \<Rightarrow> 'h mp3_decoder codec_ops" where
  "mp3_ops dec stale =
     \<lparr>cd_In = (\<lambda>b d. Inr (md_QueueInputBuffer b d)), cd_Out = (\<lambda>b. md_QueueOutputBuffer dec (Some b)),
      cd_blank = (\<lambda>n. \<lparr>cb_mem = Some \<lparr>pm_bytes = take n (stale n @ replicate n 0), pm_size = 0\<rparr>, cb_pts = 0, cb_eos = False\<rparr>)\<rparr>"

section \<open>One packet at a time\<close>

text \<open>The samples of a frame, with its time and whether it is the end.\<close>

definition pcm_view :: "codec_buffer \<Rightarrow> u8 list \<times> int \<times> bool" where
  "pcm_view b = (case cb_mem b of None \<Rightarrow> ([], 0, cb_eos b) | Some m \<Rightarrow> (take (pm_size m) (pm_bytes m), cb_pts b, cb_eos b))"

definition packet_data :: "codec_buffer \<Rightarrow> u8 list" where
  "packet_data b = (case cb_mem b of None \<Rightarrow> [] | Some m \<Rightarrow> take (pm_size m) (pm_bytes m))"

definition mp3_takes :: "codec_buffer \<Rightarrow> bool" where
  "mp3_takes b \<longleftrightarrow> cb_mem b \<noteq> None \<or> cb_eos b"

definition decode_mp3 :: "'h mp3_lib \<Rightarrow> codec_buffer \<Rightarrow> 'h \<Rightarrow> (u8 list \<times> int \<times> bool) list \<times> 'h" where
  "decode_mp3 dec b h =
     (if cb_mem b = None then ([([], 0, True)], h)
      else case dec h (packet_data b) of (n, used, pcm, h1) \<Rightarrow> (if n > 0 \<and> used then [(pcm, cb_pts b, False)] else [], h1))"

text \<open>A library that gives whole frames of the size the plugin was told of, or refuses the packet.\<close>

definition whole_frames :: "'h mp3_lib \<Rightarrow> nat \<Rightarrow> bool" where
  "whole_frames dec len \<longleftrightarrow> (\<forall>h xs. case dec h xs of (n, used, pcm, h1) \<Rightarrow> n \<noteq> 0 \<and> (if n > 0 \<and> used then length pcm = len else length pcm \<le> len))"

definition mp3_fits :: "nat \<Rightarrow> codec_buffer \<Rightarrow> bool" where
  "mp3_fits len b \<longleftrightarrow> (\<exists>m. cb_mem b = Some m \<and> len \<le> pm_GetCapacity m) \<and> \<not> cb_eos b \<and> cb_pts b = 0"

definition mp3_good :: "nat \<Rightarrow> 'h mp3_decoder \<Rightarrow> bool" where
  "mp3_good len d \<longleftrightarrow> probe_length d = len \<and> (\<forall>b. md_inputBuffer d = Some b \<longrightarrow> mp3_takes b)"

definition mp3_inside :: "'h mp3_lib \<Rightarrow> 'h mp3_decoder \<Rightarrow> (u8 list \<times> int \<times> bool) list" where
  "mp3_inside dec d = (case md_inputBuffer d of None \<Rightarrow> [] | Some b \<Rightarrow> fst (decode_mp3 dec b (md_handle d)))"

definition mp3_hist :: "'h mp3_lib \<Rightarrow> 'h mp3_decoder \<Rightarrow> 'h" where
  "mp3_hist dec d = (case md_inputBuffer d of None \<Rightarrow> md_handle d | Some b \<Rightarrow> snd (decode_mp3 dec b (md_handle d)))"

lemma take_blit_all: "length xs \<le> length ys \<Longrightarrow> take (length xs) (blit 0 xs ys) = xs"
  by (simp add: blit_def)

lemma probe_frame [simp]: "probe_length (d\<lparr>md_inputBuffer := b\<rparr>) = probe_length d" "probe_length (d\<lparr>md_handle := h\<rparr>) = probe_length d"
  by (simp_all add: probe_length_def)

lemma fetch_packet:
  assumes "whole_frames dec len" "mp3_good len d" "mp3_fits len b"
  shows "\<exists>st out d1. md_QueueOutputBuffer dec (Some b) d = Inr (st, out, d1) \<and> mp3_good len d1 \<and> mp3_hist dec d1 = mp3_hist dec d \<and>
    st \<noteq> ERROR_DELAY_READY \<and>
    (case out of None \<Rightarrow> mp3_inside dec d1 = mp3_inside dec d \<and> st \<noteq> OK | Some f \<Rightarrow> mp3_inside dec d = pcm_view f # mp3_inside dec d1) \<and>
    (st \<noteq> OK \<longrightarrow> md_inputBuffer d1 = None)"
proof (cases "md_inputBuffer d")
  case None
  then show ?thesis using assms(2)
    by (simp add: md_QueueOutputBuffer_def SendOutputBuffer_def GetPcmDataProcess_def mp3_good_def mp3_hist_def mp3_inside_def)
next
  case (Some inb)
  obtain m where m: "cb_mem b = Some m" "len \<le> length (pm_bytes m)" "\<not> cb_eos b" "cb_pts b = 0"
    using assms(3) by (auto simp: mp3_fits_def pm_GetCapacity_def)
  have probe: "probe_length d = len" using assms(2) by (simp add: mp3_good_def)
  show ?thesis
  proof (cases "cb_mem inb")
    case None
    then have "cb_eos inb" using Some assms(2) by (simp add: mp3_good_def mp3_takes_def)
    then show ?thesis using Some None m probe
      by (simp add: md_QueueOutputBuffer_def SendOutputBuffer_def GetPcmDataProcess_def mp3_good_def mp3_hist_def mp3_inside_def
          decode_mp3_def pcm_view_def pm_Reset_def)
  next
    case mem: (Some im)
    obtain n used pcm h1 where dec: "dec (md_handle d) (take (pm_size im) (pm_bytes im)) = (n, used, pcm, h1)" by (metis prod_cases4)
    have w: "n \<noteq> 0" "if n > 0 \<and> used then length pcm = len else length pcm \<le> len"
      using assms(1) unfolding whole_frames_def by (metis (mono_tags, lifting) case_prod_conv dec)+
    have "length pcm \<le> length (pm_bytes m)" "n > 0 \<and> used \<Longrightarrow> take len (blit 0 pcm (pm_bytes m)) = pcm"
      using w(2) m(2) take_blit_all [of pcm "pm_bytes m"] by (auto split: if_splits)
    then show ?thesis using Some mem m probe dec w(1)
      by (simp add: md_QueueOutputBuffer_def SendOutputBuffer_def GetPcmDataProcess_def AudioDecoderMp3Process_def mp3_good_def mp3_hist_def
          mp3_inside_def decode_mp3_def packet_data_def pcm_view_def pm_GetCapacity_def)
  qed
qed

lemma feed_packet:
  assumes "mp3_good len d" "md_inputBuffer d = None"
  shows "\<exists>st d1. md_QueueInputBuffer b d = (st, d1) \<and> mp3_good len d1 \<and> st \<noteq> ERROR_AGAIN \<and> st \<noteq> ERROR_TIMED_OUT \<and>
    mp3_inside dec d1 = (if mp3_takes b then fst (decode_mp3 dec b (mp3_hist dec d)) else []) \<and>
    mp3_hist dec d1 = (if mp3_takes b then snd (decode_mp3 dec b (mp3_hist dec d)) else mp3_hist dec d)"
  using assms by (auto simp: md_QueueInputBuffer_def mp3_good_def mp3_takes_def mp3_inside_def mp3_hist_def)

text \<open>What the library promises, as a type of libraries would say it: any other is replaced by one that refuses.\<close>

definition sane_lib :: "nat \<Rightarrow> 'h mp3_lib \<Rightarrow> 'h mp3_lib" where
  "sane_lib len dec = (if whole_frames dec len then dec else (\<lambda>h xs. (- 1, False, [], h)))"

lemma sane_whole: "whole_frames (sane_lib len dec) len"
  by (simp add: sane_lib_def whole_frames_def)

interpretation mp3: frame_codec "mp3_ops (sane_lib len dec) stale" "mp3_good len" "\<lambda>d. md_inputBuffer d = None" "mp3_inside (sane_lib len dec)"
  "mp3_hist (sane_lib len dec)" "decode_mp3 (sane_lib len dec)" mp3_takes "mp3_fits len" pcm_view
  for len dec stale
proof unfold_locales
  fix c :: "'a mp3_decoder"
  show "md_inputBuffer c = None \<Longrightarrow> mp3_inside (sane_lib len dec) c = []" by (simp add: mp3_inside_def)
next
  fix c :: "'a mp3_decoder" and b
  assume "mp3_good len c" "md_inputBuffer c = None"
  from feed_packet [OF this, of b "sane_lib len dec"]
  show "\<exists>st c1. cd_In (mp3_ops (sane_lib len dec) stale) b c = Inr (st, c1) \<and> mp3_good len c1 \<and> st \<noteq> ERROR_AGAIN \<and> st \<noteq> ERROR_TIMED_OUT \<and>
    mp3_inside (sane_lib len dec) c1 = (if mp3_takes b then fst (decode_mp3 (sane_lib len dec) b (mp3_hist (sane_lib len dec) c)) else []) \<and>
    mp3_hist (sane_lib len dec) c1 = (if mp3_takes b then snd (decode_mp3 (sane_lib len dec) b (mp3_hist (sane_lib len dec) c)) else mp3_hist (sane_lib len dec) c)"
    by (simp add: mp3_ops_def)
next
  fix c :: "'a mp3_decoder" and b
  assume "mp3_good len c" "mp3_fits len b"
  from fetch_packet [OF sane_whole this]
  show "\<exists>st out c1. cd_Out (mp3_ops (sane_lib len dec) stale) b c = Inr (st, out, c1) \<and> mp3_good len c1 \<and>
    mp3_hist (sane_lib len dec) c1 = mp3_hist (sane_lib len dec) c \<and> st \<noteq> ERROR_DELAY_READY \<and>
    (case out of None \<Rightarrow> mp3_inside (sane_lib len dec) c1 = mp3_inside (sane_lib len dec) c \<and> st \<noteq> OK
     | Some f \<Rightarrow> mp3_inside (sane_lib len dec) c = pcm_view f # mp3_inside (sane_lib len dec) c1) \<and>
    (st \<noteq> OK \<longrightarrow> md_inputBuffer c1 = None)"
    by (simp add: mp3_ops_def)
qed


text \<open>A library of frames of one sample in two channels: the first byte of a packet is the sample, none is refused but an empty one.\<close>

definition toy_dec :: "unit mp3_lib" where
  "toy_dec h xs = (if xs = [] then (- 1, False, [], h) else (1, True, replicate 1536 (hd xs), h))"

definition toy_packet :: "u8 \<Rightarrow> int \<Rightarrow> codec_buffer" where
  "toy_packet x t = \<lparr>cb_mem = Some \<lparr>pm_bytes = [x], pm_size = 1\<rparr>, cb_pts = t, cb_eos = False\<rparr>"

definition toy_decoder :: "unit mp3_decoder" where
  "toy_decoder = (new_mp3_decoder ())\<lparr>md_samplesPerFrame := 384, md_channels := 2\<rparr>"

definition toy_eos :: codec_buffer where
  "toy_eos = \<lparr>cb_mem = None, cb_pts = 0, cb_eos = True\<rparr>"

lemma toy_whole: "whole_frames toy_dec 1536"
  by (simp add: whole_frames_def toy_dec_def)


section \<open>Parameters\<close>

text \<open>
  The number of samples of a frame that the stream has is never heard: Init puts 1152, and what is set later
  does not replace it. A stream of 384 or 576 samples is then given frames of 1152, with old samples at
  their end.
\<close>

lemma samples_per_frame_fixed:
  "md_samplesPerFrame (snd (md_Prepare (snd (md_SetParameter AUDIO_SAMPLE_PER_FRAME n (snd (md_Init h d)))))) = 1152"
  by (simp add: md_Prepare_def md_SetParameter_def md_Init_def MP3_MAX_SAMPLES_PER_FRAME_def Let_def split: option.split)

section \<open>On threads of its own\<close>

text \<open>
  In the asynchronous mode MP3 packets are lost: the plugin takes every packet and keeps one. Two packets
  that are given to it before a frame is asked for leave only the second to be decoded.
\<close>

theorem mp3_async_loses_packets:
  assumes "mp3_takes b1" "mp3_takes b2"
    and "HandleFrame_try (mp3_ops dec stale) b1 s = Inr s1" "HandleFrame_try (mp3_ops dec stale) b2 (s1\<lparr>am_handle := H_Holding b2\<rparr>) = Inr s2"
  shows "am_handle s1 = H_Idle \<and> am_handle s2 = H_Idle \<and> md_inputBuffer (am_codec s2) = Some b2 \<and> md_handle (am_codec s2) = md_handle (am_codec s) \<and>
    mp3_inside dec (am_codec s2) = fst (decode_mp3 dec b2 (md_handle (am_codec s)))"
  using assms by (auto simp: HandleFrame_try_def mp3_ops_def md_QueueInputBuffer_def mp3_takes_def mp3_inside_def Let_def split: if_splits)

theorem mp3_async_loses_packets_witness:
  "\<exists>s2. HandleFrame_try (mp3_ops toy_dec (\<lambda>_. [])) (toy_packet 2 20) ((new_async_mode (snd (md_QueueInputBuffer (toy_packet 1 10) toy_decoder)))
      \<lparr>am_handle := H_Holding (toy_packet 2 20)\<rparr>) = Inr s2 \<and> mp3_inside toy_dec (am_codec s2) = [(replicate 1536 2, 20, False)]"
proof -
  let ?V = "mp3_ops toy_dec (\<lambda>_. [])" and ?s = "(new_async_mode toy_decoder)\<lparr>am_handle := H_Holding (toy_packet 1 10)\<rparr>"
  let ?s1 = "(new_async_mode (snd (md_QueueInputBuffer (toy_packet 1 10) toy_decoder)))"
  obtain s2 where s2: "HandleFrame_try ?V (toy_packet 2 20) (?s1\<lparr>am_handle := H_Holding (toy_packet 2 20)\<rparr>) = Inr s2"
    by (simp add: HandleFrame_try_def mp3_ops_def md_QueueInputBuffer_def toy_packet_def Let_def)
  have s1: "HandleFrame_try ?V (toy_packet 1 10) ?s = Inr (?s1\<lparr>am_handleTask := am_handleTask ?s \<and> \<not> cb_eos (toy_packet 1 10)\<rparr>)"
    by (simp add: HandleFrame_try_def mp3_ops_def md_QueueInputBuffer_def toy_packet_def new_async_mode_def Let_def)
  have "?s1\<lparr>am_handleTask := am_handleTask ?s \<and> \<not> cb_eos (toy_packet 1 10)\<rparr> = ?s1" by (simp add: new_async_mode_def)
  note run = s1 [unfolded this]
  have "mp3_takes (toy_packet 1 10)" "mp3_takes (toy_packet 2 20)" by (simp_all add: mp3_takes_def toy_packet_def)
  from mp3_async_loses_packets [OF this run s2] s2 show ?thesis
    by (simp add: new_async_mode_def toy_decoder_def new_mp3_decoder_def decode_mp3_def packet_data_def toy_packet_def toy_dec_def)
qed

end
