(* ===== verification/Recorder_Fsm.thy ===== *)
theory Recorder_Fsm
  imports Blocking_Queue
begin

text \<open>
  The recorder's state machine (engine/scene/recorder/internal), in the manner of Player_Fsm: a
  state class is the record of its virtual methods, the \<open>RecorderExecutor\<close> is an argument, and
  \<open>Plugin::Any\<close> parameters, which the states only hand on, are of any type \<open>'p\<close>.
\<close>

section \<open>Data\<close>

datatype rec_state = RS_INIT | RS_RECORDING_SETTING | RS_READY | RS_PAUSE | RS_RECORDING | RS_ERROR

datatype rec_intent =
    RI_SET_OBS | RI_SET_VIDEO_SOURCE | RI_SET_AUDIO_SOURCE | RI_SET_OUTPUT_FORMAT | RI_CONFIGURE
  | RI_PREPARE | RI_START | RI_PAUSE | RI_RESUME | RI_STOP | RI_RESET | RI_NOTIFY_READY
  | RI_NOTIFY_COMPLETE | RI_NOTIFY_ERROR | RI_INTENT_BUTT

datatype rec_action =
    RA_TRANS_TO_INIT | RA_TRANS_TO_RECORDING_SETTING | RA_TRANS_TO_READY | RA_TRANS_TO_RECORDING
  | RA_TRANS_TO_PAUSE | RA_TRANS_TO_ERROR | RA_ACTION_PENDING | RA_ACTION_BUTT

datatype 'p rec_call =
    RDoSetVideoSource 'p | RDoSetAudioSource 'p | RDoConfigure 'p | RDoSetOutputFormat 'p | RDoPrepare
  | RDoStart | RDoPause | RDoResume | RDoStop 'p | RDoOnComplete | RDoReset

type_synonym ('p, 'x) rec_executor = "'p rec_call \<Rightarrow> 'x \<Rightarrow> error_code \<times> 'x"
type_synonym 'x rec_reply = "(error_code \<times> rec_action) \<times> 'x"

section \<open>The state classes\<close>

record ('p, 'x) rec_class =
  rc_Enter :: "rec_intent \<Rightarrow> 'x \<Rightarrow> 'x rec_reply"
  rc_SetVideoSource :: "'p \<Rightarrow> 'x \<Rightarrow> 'x rec_reply"
  rc_SetAudioSource :: "'p \<Rightarrow> 'x \<Rightarrow> 'x rec_reply"
  rc_Configure :: "'p \<Rightarrow> 'x \<Rightarrow> 'x rec_reply"
  rc_SetOutputFormat :: "'p \<Rightarrow> 'x \<Rightarrow> 'x rec_reply"
  rc_SetObs :: "'x \<Rightarrow> 'x rec_reply"
  rc_GetSurface :: "'x \<Rightarrow> 'x rec_reply"
  rc_Prepare :: "'x \<Rightarrow> 'x rec_reply"
  rc_Start :: "'x \<Rightarrow> 'x rec_reply"
  rc_Stop :: "'p \<Rightarrow> 'x \<Rightarrow> 'x rec_reply"
  rc_Pause :: "'x \<Rightarrow> 'x rec_reply"
  rc_Resume :: "'x \<Rightarrow> 'x rec_reply"
  rc_Reset :: "'x \<Rightarrow> 'x rec_reply"
  rc_OnReady :: "'x \<Rightarrow> 'x rec_reply"
  rc_OnError :: "'p \<Rightarrow> 'x \<Rightarrow> 'x rec_reply"
  rc_OnComplete :: "'x \<Rightarrow> 'x rec_reply"

definition r_invalid :: "'x \<Rightarrow> 'x rec_reply" where
  "r_invalid x = ((EC_ERROR_INVALID_OPERATION, RA_ACTION_BUTT), x)"

definition r_goes :: "rec_action \<Rightarrow> 'x \<Rightarrow> 'x rec_reply" where
  "r_goes a x = ((EC_SUCCESS, a), x)"

text \<open>\<open>auto ret = executor_.c(); action = ret == SUCCESS ? good : bad\<close>.\<close>

definition r_call :: "('p, 'x) rec_executor \<Rightarrow> 'p rec_call \<Rightarrow> rec_action \<Rightarrow> rec_action \<Rightarrow> 'x \<Rightarrow> 'x rec_reply" where
  "r_call ex c good bad x = (case ex c x of (ret, y) \<Rightarrow> ((ret, if ret = EC_SUCCESS then good else bad), y))"

definition RecState :: "('p, 'x) rec_executor \<Rightarrow> ('p, 'x) rec_class" where
  "RecState ex =
     \<lparr>rc_Enter = (\<lambda>i. r_goes RA_ACTION_BUTT),
      rc_SetVideoSource = (\<lambda>p. r_invalid), rc_SetAudioSource = (\<lambda>p. r_invalid),
      rc_Configure = (\<lambda>p. r_invalid), rc_SetOutputFormat = (\<lambda>p. r_invalid),
      rc_SetObs = r_invalid, rc_GetSurface = r_invalid, rc_Prepare = r_invalid, rc_Start = r_invalid,
      rc_Stop = (\<lambda>p. r_invalid), rc_Pause = r_invalid, rc_Resume = r_invalid,
      rc_Reset = (\<lambda>x. r_goes RA_TRANS_TO_INIT (snd (ex RDoReset x))),
      rc_OnReady = r_invalid,
      rc_OnError = (\<lambda>p. r_goes RA_TRANS_TO_ERROR),
      rc_OnComplete = r_goes RA_ACTION_BUTT\<rparr>"

definition RecInitState :: "('p, 'x) rec_executor \<Rightarrow> ('p, 'x) rec_class" where
  "RecInitState ex = (RecState ex)
     \<lparr>rc_SetVideoSource := (\<lambda>p. r_call ex (RDoSetVideoSource p) RA_TRANS_TO_RECORDING_SETTING RA_ACTION_BUTT),
      rc_SetAudioSource := (\<lambda>p. r_call ex (RDoSetAudioSource p) RA_TRANS_TO_RECORDING_SETTING RA_ACTION_BUTT),
      rc_Stop := (\<lambda>p x. ((EC_ERROR_INVALID_OPERATION, RA_TRANS_TO_ERROR), x)),
      rc_OnComplete := r_call ex RDoOnComplete RA_ACTION_BUTT RA_ACTION_BUTT\<rparr>"

definition RecordingSettingState :: "('p, 'x) rec_executor \<Rightarrow> ('p, 'x) rec_class" where
  "RecordingSettingState ex = (RecState ex)
     \<lparr>rc_SetVideoSource := (\<lambda>p. r_call ex (RDoSetVideoSource p) RA_TRANS_TO_RECORDING_SETTING RA_ACTION_BUTT),
      rc_SetAudioSource := (\<lambda>p. r_call ex (RDoSetAudioSource p) RA_TRANS_TO_RECORDING_SETTING RA_ACTION_BUTT),
      rc_Configure := (\<lambda>p. r_call ex (RDoConfigure p) RA_TRANS_TO_RECORDING_SETTING RA_ACTION_BUTT),
      rc_SetOutputFormat := (\<lambda>p. r_call ex (RDoSetOutputFormat p) RA_TRANS_TO_RECORDING_SETTING RA_ACTION_BUTT),
      rc_Prepare := r_call ex RDoPrepare RA_ACTION_BUTT RA_TRANS_TO_ERROR,
      rc_Start := r_goes RA_ACTION_PENDING,
      rc_Stop := (\<lambda>p. r_call ex (RDoStop p) RA_TRANS_TO_INIT RA_TRANS_TO_ERROR),
      rc_OnReady := r_goes RA_TRANS_TO_READY\<rparr>"

definition RecReadyState :: "('p, 'x) rec_executor \<Rightarrow> ('p, 'x) rec_class" where
  "RecReadyState ex = (RecState ex)
     \<lparr>rc_Start := r_goes RA_TRANS_TO_RECORDING,
      rc_Stop := (\<lambda>p x. ((EC_ERROR_INVALID_OPERATION, RA_TRANS_TO_ERROR), x))\<rparr>"

definition RecordingState :: "('p, 'x) rec_executor \<Rightarrow> ('p, 'x) rec_class" where
  "RecordingState ex = (RecState ex)
     \<lparr>rc_Enter := (\<lambda>i. r_call ex (if i = RI_RESUME then RDoResume else RDoStart) RA_ACTION_BUTT RA_ACTION_BUTT),
      rc_Start := r_goes RA_ACTION_BUTT, rc_Resume := r_goes RA_ACTION_BUTT,
      rc_Pause := r_goes RA_TRANS_TO_PAUSE,
      rc_Stop := (\<lambda>p. r_call ex (RDoStop p) RA_ACTION_BUTT RA_TRANS_TO_ERROR),
      rc_OnComplete := r_call ex RDoOnComplete RA_TRANS_TO_INIT RA_ACTION_BUTT\<rparr>"

definition RecPauseState :: "('p, 'x) rec_executor \<Rightarrow> ('p, 'x) rec_class" where
  "RecPauseState ex = (RecState ex)
     \<lparr>rc_Enter := (\<lambda>i. r_call ex RDoPause RA_ACTION_BUTT RA_ACTION_BUTT),
      rc_Start := r_goes RA_TRANS_TO_RECORDING, rc_Pause := r_goes RA_ACTION_BUTT,
      rc_Resume := r_goes RA_TRANS_TO_RECORDING,
      rc_Stop := (\<lambda>p. r_call ex (RDoStop p) RA_TRANS_TO_INIT RA_TRANS_TO_ERROR)\<rparr>"

definition RecErrorState :: "('p, 'x) rec_executor \<Rightarrow> ('p, 'x) rec_class" where
  "RecErrorState ex = RecState ex"

fun rec_state_of :: "('p, 'x) rec_executor \<Rightarrow> rec_state \<Rightarrow> ('p, 'x) rec_class" where
  "rec_state_of ex RS_INIT = RecInitState ex"
| "rec_state_of ex RS_ERROR = RecErrorState ex"
| "rec_state_of ex RS_RECORDING_SETTING = RecordingSettingState ex"
| "rec_state_of ex RS_READY = RecReadyState ex"
| "rec_state_of ex RS_RECORDING = RecordingState ex"
| "rec_state_of ex RS_PAUSE = RecPauseState ex"

definition rec_DispatchIntent :: "('p, 'x) rec_class \<Rightarrow> rec_intent \<Rightarrow> 'p \<Rightarrow> 'x \<Rightarrow> 'x rec_reply" where
  "rec_DispatchIntent c i p x =
     (case i of
        RI_SET_OBS \<Rightarrow> rc_SetObs c x
      | RI_SET_VIDEO_SOURCE \<Rightarrow> rc_SetVideoSource c p x
      | RI_SET_AUDIO_SOURCE \<Rightarrow> rc_SetAudioSource c p x
      | RI_CONFIGURE \<Rightarrow> rc_Configure c p x
      | RI_SET_OUTPUT_FORMAT \<Rightarrow> rc_SetOutputFormat c p x
      | RI_PREPARE \<Rightarrow> rc_Prepare c x
      | RI_START \<Rightarrow> rc_Start c x
      | RI_PAUSE \<Rightarrow> rc_Pause c x
      | RI_RESUME \<Rightarrow> rc_Resume c x
      | RI_RESET \<Rightarrow> rc_Reset c x
      | RI_STOP \<Rightarrow> rc_Stop c p x
      | RI_NOTIFY_READY \<Rightarrow> rc_OnReady c x
      | RI_NOTIFY_COMPLETE \<Rightarrow> rc_OnComplete c x
      | RI_NOTIFY_ERROR \<Rightarrow> rc_OnError c p x
      | RI_INTENT_BUTT \<Rightarrow> r_goes RA_ACTION_BUTT x)"

lemmas rec_class_defs = RecState_def RecInitState_def RecordingSettingState_def RecReadyState_def
  RecordingState_def RecPauseState_def RecErrorState_def

lemmas rec_reply_defs = r_invalid_def r_goes_def r_call_def

section \<open>The machine\<close>

record ('p, 'x) recorder =
  rm_cur :: rec_state
  rm_last :: rec_intent
  rm_jobs :: "(rec_intent \<times> 'p) bqueue"
  rm_pending :: "(rec_intent \<times> 'p) list"
  rm_callback :: bool
  rm_changes :: "rec_state list"
  rm_sync :: "(rec_intent, error_code) syncer"
  rm_exec :: 'x

definition new_recorder :: "'x \<Rightarrow> ('p, 'x) recorder" where
  "new_recorder x = \<lparr>rm_cur = RS_INIT, rm_last = RI_INTENT_BUTT, rm_jobs = new_bqueue DEFAULT_QUEUE_SIZE,
     rm_pending = [], rm_callback = False, rm_changes = [],
     rm_sync = \<lparr>sy_map = (\<lambda>_. None), sy_wait = {}\<rparr>, rm_exec = x\<rparr>"

fun rec_next :: "rec_action \<Rightarrow> rec_state option" where
  "rec_next RA_TRANS_TO_INIT = Some RS_INIT"
| "rec_next RA_TRANS_TO_RECORDING_SETTING = Some RS_RECORDING_SETTING"
| "rec_next RA_TRANS_TO_READY = Some RS_READY"
| "rec_next RA_TRANS_TO_RECORDING = Some RS_RECORDING"
| "rec_next RA_TRANS_TO_PAUSE = Some RS_PAUSE"
| "rec_next RA_TRANS_TO_ERROR = Some RS_ERROR"
| "rec_next RA_ACTION_PENDING = None"
| "rec_next RA_ACTION_BUTT = None"

definition rec_note :: "('p, 'x) recorder \<Rightarrow> ('p, 'x) recorder" where
  "rec_note s = (if rm_callback s then s\<lparr>rm_changes := rm_changes s @ [rm_cur s]\<rparr> else s)"

lemma rec_Enter_stays: "sc = rec_state_of ex st \<Longrightarrow> rc_Enter sc i x = ((r, a), y) \<Longrightarrow> a = RA_ACTION_BUTT"
  by (cases st) (auto simp: rec_class_defs rec_reply_defs split: prod.splits if_splits)

function rec_ProcAction :: "('p, 'x) rec_executor \<Rightarrow> rec_action \<Rightarrow> ('p, 'x) recorder \<Rightarrow> error_code \<times> ('p, 'x) recorder"
  and rec_TransitionTo :: "('p, 'x) rec_executor \<Rightarrow> rec_state \<Rightarrow> ('p, 'x) recorder \<Rightarrow> error_code \<times> ('p, 'x) recorder"
where
  "rec_ProcAction ex a s =
     (case rec_next a of None \<Rightarrow> (EC_SUCCESS, s) | Some st \<Rightarrow> rec_TransitionTo ex st s)"
| "rec_TransitionTo ex st s =
     (if st \<noteq> rm_cur s then
        (case rc_Enter (rec_state_of ex st) (rm_last s) (rm_exec s) of
           ((rtv, nextAction), x) \<Rightarrow>
             let s1 = s\<lparr>rm_cur := st, rm_exec := x\<rparr>;
                 (rtv2, s2) = (if rtv = EC_SUCCESS then rec_ProcAction ex nextAction s1 else (rtv, s1))
             in (rtv2, rec_note s2))
      else (EC_SUCCESS, s))"
  by pat_completeness auto
termination
  by (relation "measure (\<lambda>z. case z of Inl (ex, a, s) \<Rightarrow> (if rec_next a = None then 0 else 2) | Inr _ \<Rightarrow> 1)")
    (auto dest: rec_Enter_stays [OF refl sym])

declare rec_ProcAction.simps [simp del] rec_TransitionTo.simps [simp del]

definition rec_Notify :: "rec_intent \<Rightarrow> error_code \<Rightarrow> ('p, 'x) recorder \<Rightarrow> ('p, 'x) recorder" where
  "rec_Notify i code s = s\<lparr>rm_sync := sy_Notify i code (rm_sync s)\<rparr>"

definition rec_OnIntentExecuted :: "rec_intent \<Rightarrow> rec_action \<Rightarrow> error_code \<Rightarrow> ('p, 'x) recorder \<Rightarrow> ('p, 'x) recorder" where
  "rec_OnIntentExecuted i a result s =
     (if a = RA_ACTION_PENDING then s
      else if i = RI_NOTIFY_READY \<and> a = RA_TRANS_TO_RECORDING then rec_Notify RI_START result s
      else rec_Notify i result s)"

definition rec_execute ::
  "('p, 'x) rec_executor \<Rightarrow> rec_intent \<Rightarrow> 'p \<Rightarrow> ('p, 'x) recorder \<Rightarrow> error_code \<times> rec_action \<times> ('p, 'x) recorder" where
  "rec_execute ex i p s =
     (let s1 = s\<lparr>rm_last := i\<rparr>
      in case rec_DispatchIntent (rec_state_of ex (rm_cur s1)) i p (rm_exec s1) of
           ((rtv, nextAction), x) \<Rightarrow>
             let s2 = s1\<lparr>rm_exec := x\<rparr>;
                 (rtv2, s3) =
                   (if nextAction \<noteq> RA_ACTION_BUTT then
                      (if rtv = EC_SUCCESS then rec_ProcAction ex nextAction s2
                       else (rtv, snd (rec_ProcAction ex nextAction s2)))
                    else (rtv, s2))
             in (rtv2, nextAction, s3))"

definition rec_ProcessIntent ::
  "('p, 'x) rec_executor \<Rightarrow> rec_intent \<times> 'p \<Rightarrow> ('p, 'x) recorder \<Rightarrow> rec_action \<times> ('p, 'x) recorder" where
  "rec_ProcessIntent ex j s =
     (case rec_execute ex (fst j) (snd j) s of (rtv, nextAction, t) \<Rightarrow>
        (if rtv = EC_SUCCESS then nextAction else RA_ACTION_BUTT,
         rec_OnIntentExecuted (fst j) nextAction rtv t))"

definition rec_run_pending :: "('p, 'x) rec_executor \<Rightarrow> ('p, 'x) recorder \<Rightarrow> ('p, 'x) recorder" where
  "rec_run_pending ex s =
     (case rm_pending s of [] \<Rightarrow> s
      | j # js \<Rightarrow>
          (case rec_ProcessIntent ex j (s\<lparr>rm_pending := js\<rparr>) of (a, s1) \<Rightarrow>
             if a = RA_ACTION_PENDING then s1\<lparr>rm_pending := rm_pending s1 @ [j]\<rparr> else s1))"

text \<open>\<open>TRANS_TO_ERROR\<close> is not among the actions after which a pending job is run.\<close>

definition rec_DoTask :: "('p, 'x) rec_executor \<Rightarrow> ('p, 'x) recorder \<Rightarrow> ('p, 'x) recorder" where
  "rec_DoTask ex s =
     (case bl_Pop (rm_jobs s) of
        (Blocks, q) \<Rightarrow> s\<lparr>rm_jobs := q\<rparr>
      | (Returns None, q) \<Rightarrow> s\<lparr>rm_jobs := q\<rparr>
      | (Returns (Some j), q) \<Rightarrow>
          (case rec_ProcessIntent ex j (s\<lparr>rm_jobs := q\<rparr>) of (a, s1) \<Rightarrow>
             if a = RA_ACTION_PENDING then s1\<lparr>rm_pending := rm_pending s1 @ [j]\<rparr>
             else if a \<in> {RA_TRANS_TO_INIT, RA_TRANS_TO_RECORDING_SETTING, RA_TRANS_TO_READY,
                          RA_TRANS_TO_RECORDING, RA_TRANS_TO_PAUSE}
             then rec_run_pending ex s1
             else s1))"

definition rec_SendEventAsync :: "rec_intent \<Rightarrow> 'p \<Rightarrow> ('p, 'x) recorder \<Rightarrow> error_code call \<times> ('p, 'x) recorder" where
  "rec_SendEventAsync i p s =
     (case bl_Push (i, p) (rm_jobs s) of
        (Blocks, q) \<Rightarrow> (Blocks, s\<lparr>rm_jobs := q\<rparr>)
      | (Returns b, q) \<Rightarrow> (Returns (if b then EC_SUCCESS else EC_ERROR_UNKNOWN), s\<lparr>rm_jobs := q\<rparr>))"

definition rec_SendEvent ::
  "(('p, 'x) recorder \<Rightarrow> ('p, 'x) recorder) \<Rightarrow> rec_intent \<Rightarrow> 'p \<Rightarrow> ('p, 'x) recorder \<Rightarrow> error_code call \<times> ('p, 'x) recorder" where
  "rec_SendEvent env i p s =
     (let s1 = s\<lparr>rm_sync := (rm_sync s)\<lparr>sy_wait := insert i (sy_wait (rm_sync s))\<rparr>\<rparr>;
          unwait = (\<lambda>t. t\<lparr>rm_sync := (rm_sync t)\<lparr>sy_wait := sy_wait (rm_sync t) - {i}\<rparr>\<rparr>)
      in case rec_SendEventAsync i p s1 of
           (Blocks, s2) \<Rightarrow> (Blocks, s2)
         | (Returns ec, s2) \<Rightarrow>
             if ec \<noteq> EC_SUCCESS then (Returns EC_ERROR_TIMED_OUT, unwait s2)
             else let s3 = env s2
                  in case sy_map (rm_sync s3) i of
                       Some r \<Rightarrow> (Returns r, s3\<lparr>rm_sync := (rm_sync s3)\<lparr>sy_map := (sy_map (rm_sync s3))(i := None)\<rparr>\<rparr>)
                     | None \<Rightarrow> (Returns EC_ERROR_TIMED_OUT, unwait s3))"

definition rec_Stop :: "('p, 'x) recorder \<Rightarrow> ('p, 'x) recorder" where
  "rec_Stop s = s\<lparr>rm_jobs := bl_SetActive False True (rm_jobs s)\<rparr>"

section \<open>Facts\<close>

lemma rec_TransitionTo_eq:
  "rec_TransitionTo ex st s =
     (if st \<noteq> rm_cur s then
        (case rc_Enter (rec_state_of ex st) (rm_last s) (rm_exec s) of
           ((rtv, nextAction), x) \<Rightarrow> (rtv, rec_note (s\<lparr>rm_cur := st, rm_exec := x\<rparr>)))
      else (EC_SUCCESS, s))"
proof (cases "rc_Enter (rec_state_of ex st) (rm_last s) (rm_exec s)")
  case (Pair ra x)
  obtain rtv a where ra: "ra = (rtv, a)" by (cases ra)
  then have "a = RA_ACTION_BUTT" using rec_Enter_stays [OF refl] Pair by metis
  then show ?thesis using Pair ra
    by (subst rec_TransitionTo.simps) (simp add: rec_ProcAction.simps Let_def)
qed

lemma rec_ProcAction_eq:
  "rec_ProcAction ex a s = (case rec_next a of None \<Rightarrow> (EC_SUCCESS, s) | Some st \<Rightarrow> rec_TransitionTo ex st s)"
  by (simp add: rec_ProcAction.simps)

lemma rec_note_frame [simp]:
  "rm_cur (rec_note s) = rm_cur s" "rm_exec (rec_note s) = rm_exec s" "rm_jobs (rec_note s) = rm_jobs s"
  "rm_pending (rec_note s) = rm_pending s" "rm_sync (rec_note s) = rm_sync s" "rm_last (rec_note s) = rm_last s"
  by (simp_all add: rec_note_def)

lemma rec_Notify_frame [simp]:
  "rm_cur (rec_Notify i r s) = rm_cur s" "rm_exec (rec_Notify i r s) = rm_exec s"
  "rm_jobs (rec_Notify i r s) = rm_jobs s" "rm_pending (rec_Notify i r s) = rm_pending s"
  by (simp_all add: rec_Notify_def)

lemma rec_OnIntentExecuted_frame [simp]:
  "rm_cur (rec_OnIntentExecuted i a r s) = rm_cur s" "rm_exec (rec_OnIntentExecuted i a r s) = rm_exec s"
  "rm_jobs (rec_OnIntentExecuted i a r s) = rm_jobs s" "rm_pending (rec_OnIntentExecuted i a r s) = rm_pending s"
  by (simp_all add: rec_OnIntentExecuted_def)

lemma rec_ProcAction_cur:
  "rm_cur (snd (rec_ProcAction ex a s)) = (case rec_next a of None \<Rightarrow> rm_cur s | Some st \<Rightarrow> st)"
  by (auto simp: rec_ProcAction_eq rec_TransitionTo_eq split: option.splits prod.splits)

text \<open>The transitions each state asks for.\<close>

fun rec_may_ask :: "rec_state \<Rightarrow> rec_intent \<Rightarrow> rec_action list" where
  "rec_may_ask st RI_RESET = [RA_TRANS_TO_INIT]"
| "rec_may_ask st RI_NOTIFY_ERROR = [RA_TRANS_TO_ERROR]"
| "rec_may_ask RS_INIT RI_SET_VIDEO_SOURCE = [RA_TRANS_TO_RECORDING_SETTING]"
| "rec_may_ask RS_INIT RI_SET_AUDIO_SOURCE = [RA_TRANS_TO_RECORDING_SETTING]"
| "rec_may_ask RS_INIT RI_STOP = [RA_TRANS_TO_ERROR]"
| "rec_may_ask RS_RECORDING_SETTING RI_SET_VIDEO_SOURCE = [RA_TRANS_TO_RECORDING_SETTING]"
| "rec_may_ask RS_RECORDING_SETTING RI_SET_AUDIO_SOURCE = [RA_TRANS_TO_RECORDING_SETTING]"
| "rec_may_ask RS_RECORDING_SETTING RI_CONFIGURE = [RA_TRANS_TO_RECORDING_SETTING]"
| "rec_may_ask RS_RECORDING_SETTING RI_SET_OUTPUT_FORMAT = [RA_TRANS_TO_RECORDING_SETTING]"
| "rec_may_ask RS_RECORDING_SETTING RI_PREPARE = [RA_TRANS_TO_ERROR]"
| "rec_may_ask RS_RECORDING_SETTING RI_START = [RA_ACTION_PENDING]"
| "rec_may_ask RS_RECORDING_SETTING RI_STOP = [RA_TRANS_TO_INIT, RA_TRANS_TO_ERROR]"
| "rec_may_ask RS_RECORDING_SETTING RI_NOTIFY_READY = [RA_TRANS_TO_READY]"
| "rec_may_ask RS_READY RI_START = [RA_TRANS_TO_RECORDING]"
| "rec_may_ask RS_READY RI_STOP = [RA_TRANS_TO_ERROR]"
| "rec_may_ask RS_RECORDING RI_PAUSE = [RA_TRANS_TO_PAUSE]"
| "rec_may_ask RS_RECORDING RI_STOP = [RA_TRANS_TO_ERROR]"
| "rec_may_ask RS_RECORDING RI_NOTIFY_COMPLETE = [RA_TRANS_TO_INIT]"
| "rec_may_ask RS_PAUSE RI_START = [RA_TRANS_TO_RECORDING]"
| "rec_may_ask RS_PAUSE RI_RESUME = [RA_TRANS_TO_RECORDING]"
| "rec_may_ask RS_PAUSE RI_STOP = [RA_TRANS_TO_INIT, RA_TRANS_TO_ERROR]"
| "rec_may_ask st i = []"

lemma rec_Dispatch_may_ask:
  assumes "rec_DispatchIntent (rec_state_of ex st) i p x = ((rtv, a), y)"
  shows "a = RA_ACTION_BUTT \<or> a \<in> set (rec_may_ask st i)"
  using assms
  by (cases st; cases i)
    (auto simp: rec_DispatchIntent_def rec_class_defs rec_reply_defs split: prod.splits if_splits)

lemma rec_execute_split:
  assumes "rec_execute ex i p s = (rtv, a, t)"
  shows "\<exists>r x. rec_DispatchIntent (rec_state_of ex (rm_cur s)) i p (rm_exec s) = ((r, a), x) \<and>
    t = snd (rec_ProcAction ex a (s\<lparr>rm_last := i, rm_exec := x\<rparr>)) \<and>
    rtv = (if r = EC_SUCCESS then fst (rec_ProcAction ex a (s\<lparr>rm_last := i, rm_exec := x\<rparr>)) else r)"
  using assms
  by (auto simp: rec_execute_def Let_def rec_ProcAction_eq split: prod.splits if_splits)

section \<open>Properties\<close>

text \<open>
  The recorder moves only along its diagram: whatever the executor answers, an intent leaves the
  state or takes one of the transitions \<open>rec_may_ask\<close> lists for it. In particular recording is
  entered only from ready and paused, and from the error state only a reset leads away.
\<close>

theorem recorder_transitions:
  assumes "rec_ProcessIntent ex (i, p) s = (act, t)"
  shows "(rm_cur t = rm_cur s \<or> (\<exists>a \<in> set (rec_may_ask (rm_cur s) i). rec_next a = Some (rm_cur t))) \<and>
    (rm_cur t = RS_RECORDING \<longrightarrow> rm_cur s \<in> {RS_READY, RS_PAUSE, RS_RECORDING}) \<and>
    (rm_cur s = RS_ERROR \<longrightarrow> i \<noteq> RI_RESET \<longrightarrow> rm_cur t = RS_ERROR)"
proof -
  obtain rtv a u where e: "rec_execute ex i p s = (rtv, a, u)" by (metis prod_cases3)
  obtain r x where d: "rec_DispatchIntent (rec_state_of ex (rm_cur s)) i p (rm_exec s) = ((r, a), x)"
    and u: "u = snd (rec_ProcAction ex a (s\<lparr>rm_last := i, rm_exec := x\<rparr>))"
    using rec_execute_split [OF e] by blast
  have "rm_cur t = rm_cur u" using assms e by (auto simp: rec_ProcessIntent_def)
  then have c: "rm_cur t = (case rec_next a of None \<Rightarrow> rm_cur s | Some st \<Rightarrow> st)"
    by (simp add: u rec_ProcAction_cur split: option.splits)
  have m: "a = RA_ACTION_BUTT \<or> a \<in> set (rec_may_ask (rm_cur s) i)" by (rule rec_Dispatch_may_ask [OF d])
  have r: "rec_next b = Some RS_RECORDING \<Longrightarrow> b \<in> set (rec_may_ask st i) \<Longrightarrow> st \<in> {RS_READY, RS_PAUSE}" for b st
    by (cases st; cases i) auto
  have er: "b \<in> set (rec_may_ask RS_ERROR i) \<Longrightarrow> i \<noteq> RI_RESET \<Longrightarrow> rec_next b = Some RS_ERROR" for b
    by (cases i) auto
  show ?thesis
  proof (cases "rec_next a")
    case None
    then show ?thesis using c by simp
  next
    case (Some st)
    then have "a \<in> set (rec_may_ask (rm_cur s) i)" using m by auto
    then show ?thesis using c Some r [of a "rm_cur s"] er [of a] by auto
  qed
qed

text \<open>
  Stopping a recording is two-phased: the stop intent hands the request to the executor and, when
  that succeeds, the machine keeps recording until the pipeline reports completion; only then it
  is back in init. A stop the executor refuses ends in the error state and the caller gets that
  error.
\<close>

theorem recorder_stop_protocol:
  assumes "rm_cur s = RS_RECORDING" "ex (RDoStop p) (rm_exec s) = (r, x)" "ex RDoOnComplete x = (EC_SUCCESS, y)"
  shows "\<exists>a t. rec_execute ex RI_STOP p s = (r, a, t) \<and>
    (if r = EC_SUCCESS
     then rm_cur t = RS_RECORDING \<and>
       (\<exists>u. rec_execute ex RI_NOTIFY_COMPLETE p t = (EC_SUCCESS, RA_TRANS_TO_INIT, u) \<and> rm_cur u = RS_INIT)
     else rm_cur t = RS_ERROR)"
proof (cases "r = EC_SUCCESS")
  case True
  let ?t = "s\<lparr>rm_last := RI_STOP, rm_exec := x\<rparr>"
  have "rec_execute ex RI_STOP p s = (r, RA_ACTION_BUTT, ?t)"
    using assms True by (simp add: rec_execute_def rec_DispatchIntent_def rec_class_defs rec_reply_defs Let_def)
  moreover have "rec_execute ex RI_NOTIFY_COMPLETE p ?t =
      (EC_SUCCESS, RA_TRANS_TO_INIT, rec_note (?t\<lparr>rm_last := RI_NOTIFY_COMPLETE, rm_cur := RS_INIT, rm_exec := y\<rparr>))"
    using assms True by (simp add: rec_execute_def rec_DispatchIntent_def rec_class_defs rec_reply_defs Let_def
        rec_ProcAction_eq rec_TransitionTo_eq)
  ultimately show ?thesis using True assms by simp
next
  case False
  have "rec_execute ex RI_STOP p s =
      (r, RA_TRANS_TO_ERROR, rec_note (s\<lparr>rm_last := RI_STOP, rm_cur := RS_ERROR, rm_exec := x\<rparr>))"
    using assms False by (simp add: rec_execute_def rec_DispatchIntent_def rec_class_defs rec_reply_defs Let_def
        rec_ProcAction_eq rec_TransitionTo_eq)
  then show ?thesis using False by simp
qed

text \<open>
  A start request deferred while the recorder is being set up is forgotten when the pipeline then
  reports an error: the machine goes to the error state, the start stays in the pending queue, and
  its caller is not notified, unlike after every other transition.
\<close>

theorem recorder_error_forgets_start:
  assumes st: "rm_cur s = RS_RECORDING_SETTING" and pend: "rm_pending s = []"
    and q: "bl_active (rm_jobs s)" "bl_que (rm_jobs s) = [(RI_START, p1), (RI_NOTIFY_ERROR, p2)]"
    and w: "RI_START \<in> sy_wait (rm_sync s)" "sy_map (rm_sync s) RI_START = None"
  shows "\<exists>t. rec_DoTask ex (rec_DoTask ex s) = t \<and> rm_cur t = RS_ERROR \<and> rm_pending t = [(RI_START, p1)] \<and>
    sy_map (rm_sync t) RI_START = None \<and> RI_START \<in> sy_wait (rm_sync t) \<and> bl_que (rm_jobs t) = []"
proof -
  let ?q1 = "notify_one_full ((rm_jobs s)\<lparr>bl_que := [(RI_NOTIFY_ERROR, p2)]\<rparr>)"
  let ?s1 = "s\<lparr>rm_jobs := ?q1, rm_last := RI_START, rm_pending := [(RI_START, p1)]\<rparr>"
  have pop1: "bl_Pop (rm_jobs s) = (Returns (Some (RI_START, p1)), ?q1)" using q by (simp add: bl_ops)
  have pi1: "rec_ProcessIntent ex (RI_START, p1) (s\<lparr>rm_jobs := ?q1\<rparr>) =
      (RA_ACTION_PENDING, s\<lparr>rm_jobs := ?q1, rm_last := RI_START\<rparr>)"
    using st by (simp add: rec_ProcessIntent_def rec_execute_def rec_DispatchIntent_def rec_class_defs
        rec_reply_defs rec_ProcAction_eq rec_OnIntentExecuted_def Let_def)
  have d1: "rec_DoTask ex s = ?s1" unfolding rec_DoTask_def pop1 using pi1 pend by simp
  let ?q2 = "notify_one_full (?q1\<lparr>bl_que := []\<rparr>)"
  let ?s2 = "?s1\<lparr>rm_jobs := ?q2, rm_last := RI_NOTIFY_ERROR, rm_cur := RS_ERROR\<rparr>"
  have pop2: "bl_Pop (rm_jobs ?s1) = (Returns (Some (RI_NOTIFY_ERROR, p2)), ?q2)" using q(1) by (simp add: bl_ops)
  have pi2: "rec_ProcessIntent ex (RI_NOTIFY_ERROR, p2) (?s1\<lparr>rm_jobs := ?q2\<rparr>) =
      (RA_TRANS_TO_ERROR, rec_Notify RI_NOTIFY_ERROR EC_SUCCESS (rec_note ?s2))"
    using st by (simp add: rec_ProcessIntent_def rec_execute_def rec_DispatchIntent_def rec_class_defs
        rec_reply_defs rec_ProcAction_eq rec_TransitionTo_eq rec_OnIntentExecuted_def Let_def)
  have "rec_DoTask ex ?s1 = rec_Notify RI_NOTIFY_ERROR EC_SUCCESS (rec_note ?s2)"
    unfolding rec_DoTask_def pop2 using pi2 by simp
  then show ?thesis using d1 w by (auto simp: rec_Notify_def sy_Notify_def split: option.splits)
qed

section \<open>The properties at work\<close>

definition demo_recorder :: "rec_state \<Rightarrow> (rec_intent \<times> unit) list \<Rightarrow> (unit, unit) recorder" where
  "demo_recorder st js = (new_recorder ())\<lparr>rm_cur := st, rm_jobs := (new_bqueue 10)\<lparr>bl_que := js\<rparr>,
     rm_sync := \<lparr>sy_map = (\<lambda>_. None), sy_wait = {RI_START}\<rparr>\<rparr>"

lemma recorder_transitions_witness:
  "rm_cur (snd (rec_ProcessIntent (\<lambda>c x. (EC_SUCCESS, x)) (RI_START, ()) (demo_recorder RS_ERROR []))) = RS_ERROR"
proof -
  obtain act t where r: "rec_ProcessIntent (\<lambda>c x. (EC_SUCCESS, x)) (RI_START, ()) (demo_recorder RS_ERROR []) = (act, t)"
    by (metis surj_pair)
  show ?thesis using recorder_transitions [OF r] r by (simp add: demo_recorder_def)
qed

lemma recorder_stop_protocol_witness:
  "\<exists>a t. rec_execute (\<lambda>c x. (EC_SUCCESS, x)) RI_STOP () (demo_recorder RS_RECORDING []) = (EC_SUCCESS, a, t) \<and>
     rm_cur t = RS_RECORDING"
  using recorder_stop_protocol [of "demo_recorder RS_RECORDING []" "\<lambda>c x. (EC_SUCCESS, x)" "()" EC_SUCCESS "()" "()"]
  by (auto simp: demo_recorder_def)

lemma recorder_error_forgets_start_witness:
  "rm_pending (rec_DoTask (\<lambda>c x. (EC_SUCCESS, x)) (rec_DoTask (\<lambda>c x. (EC_SUCCESS, x))
     (demo_recorder RS_RECORDING_SETTING [(RI_START, ()), (RI_NOTIFY_ERROR, ())]))) = [(RI_START, ())]"
  using recorder_error_forgets_start [of "demo_recorder RS_RECORDING_SETTING [(RI_START, ()), (RI_NOTIFY_ERROR, ())]"
      "()" "()" "\<lambda>c x. (EC_SUCCESS, x)"]
  by (simp add: demo_recorder_def new_recorder_def new_bqueue_def)

end
