(* ===== verification/Player_Fsm.thy ===== *)
theory Player_Fsm
  imports Blocking_Queue
begin

text \<open>
  The player's state machine (engine/scene/player/internal): the states with their handlers, the
  machine that runs one intent at a time, the job queue in front of it and the pending jobs.

  A state class is the record of its virtual methods, and a subclass is an update of the base
  class's record, so that what a class does not override it inherits. The \<open>PlayExecutor\<close> the
  states drive (in the product the player itself) is an argument: \<open>pe_call\<close> answers each of its
  operations and changes the executor's own state, of any type. \<open>Plugin::Any\<close> arguments are a
  datatype of the types the code tests for.
\<close>

section \<open>Data\<close>

datatype state_id = ST_IDLE | ST_INIT | ST_PREPARING | ST_READY | ST_PAUSE | ST_PLAYING | ST_STOPPED | ST_EOS

datatype intent =
    SET_SOURCE | SEEK | PREPARE | PLAY | PAUSE | RESUME | STOP | RESET | SET_ATTRIBUTE
  | NOTIFY_READY | NOTIFY_COMPLETE | NOTIFY_ERROR | INTENT_BUTT

datatype action =
    TRANS_TO_IDLE | TRANS_TO_INIT | TRANS_TO_PREPARING | TRANS_TO_READY | TRANS_TO_PLAYING
  | TRANS_TO_PAUSE | TRANS_TO_STOPPED | TRANS_TO_EOS | ACTION_PENDING | ACTION_BUTT

datatype seek_mode = SEEK_NEXT_SYNC | SEEK_PREVIOUS_SYNC | SEEK_CLOSEST_SYNC | SEEK_CLOSEST

datatype any_param = Any_Empty | Any_Source "nat option" | Any_Seek int seek_mode | Any_Error error_code

datatype player_call =
    PrepareFilters | DoSetSource nat | DoPlay | DoPause | DoResume | DoStop | DoReset
  | DoSeek int seek_mode bool | DoOnReady | DoOnComplete | DoOnError error_code

record 'x player_executor =
  pe_call :: "player_call \<Rightarrow> 'x \<Rightarrow> error_code \<times> 'x"
  pe_loop :: "'x \<Rightarrow> bool"

type_synonym 'x reply = "(error_code \<times> action) \<times> 'x"

section \<open>The state classes\<close>

record 'x state_class =
  sc_Enter :: "intent \<Rightarrow> 'x \<Rightarrow> 'x reply"
  sc_SetSource :: "any_param \<Rightarrow> 'x \<Rightarrow> 'x reply"
  sc_Prepare :: "'x \<Rightarrow> 'x reply"
  sc_Play :: "'x \<Rightarrow> 'x reply"
  sc_Stop :: "'x \<Rightarrow> 'x reply"
  sc_Reset :: "'x \<Rightarrow> 'x reply"
  sc_Pause :: "'x \<Rightarrow> 'x reply"
  sc_Resume :: "'x \<Rightarrow> 'x reply"
  sc_Seek :: "any_param \<Rightarrow> 'x \<Rightarrow> 'x reply"
  sc_SetAttribute :: "'x \<Rightarrow> 'x reply"
  sc_OnReady :: "'x \<Rightarrow> 'x reply"
  sc_OnError :: "any_param \<Rightarrow> 'x \<Rightarrow> 'x reply"
  sc_OnComplete :: "'x \<Rightarrow> 'x reply"

definition invalid_op :: "'x \<Rightarrow> 'x reply" where
  "invalid_op x = ((EC_ERROR_INVALID_OPERATION, ACTION_BUTT), x)"

definition goes_to :: "action \<Rightarrow> 'x \<Rightarrow> 'x reply" where
  "goes_to a x = ((EC_SUCCESS, a), x)"

definition State :: "'x player_executor \<Rightarrow> 'x state_class" where
  "State ex =
     \<lparr>sc_Enter = (\<lambda>i. goes_to ACTION_BUTT),
      sc_SetSource = (\<lambda>p. invalid_op),
      sc_Prepare = invalid_op,
      sc_Play = invalid_op,
      sc_Stop = invalid_op,
      sc_Reset = goes_to TRANS_TO_IDLE,
      sc_Pause = invalid_op,
      sc_Resume = invalid_op,
      sc_Seek = (\<lambda>p. invalid_op),
      sc_SetAttribute = invalid_op,
      sc_OnReady = invalid_op,
      sc_OnError = (\<lambda>p x.
        let errorCode = (case p of Any_Error e \<Rightarrow> e | _ \<Rightarrow> EC_ERROR_UNKNOWN)
        in goes_to TRANS_TO_INIT (snd (pe_call ex (DoOnError errorCode) x))),
      sc_OnComplete = invalid_op\<rparr>"

text \<open>\<open>SetSource\<close> of the idle and of the init state, and \<open>Seek\<close> of ready, playing and paused.\<close>

definition set_source :: "'x player_executor \<Rightarrow> any_param \<Rightarrow> 'x \<Rightarrow> 'x reply" where
  "set_source ex p x =
     (case p of
        Any_Source (Some src) \<Rightarrow>
          (case pe_call ex (DoSetSource src) x of (ret, y) \<Rightarrow>
             ((ret, if ret = EC_SUCCESS then TRANS_TO_INIT else ACTION_BUTT), y))
      | _ \<Rightarrow> ((EC_ERROR_INVALID_PARAMETER_TYPE, ACTION_BUTT), x))"

definition seek_to :: "'x player_executor \<Rightarrow> any_param \<Rightarrow> 'x \<Rightarrow> 'x reply" where
  "seek_to ex p x =
     (case p of
        Any_Seek t m \<Rightarrow> (case pe_call ex (DoSeek t m True) x of (ret, y) \<Rightarrow> ((ret, ACTION_BUTT), y))
      | _ \<Rightarrow> ((EC_ERROR_INVALID_PARAMETER_TYPE, ACTION_BUTT), x))"

definition stay_after :: "'x player_executor \<Rightarrow> player_call \<Rightarrow> 'x \<Rightarrow> 'x reply" where
  "stay_after ex c x = (case pe_call ex c x of (ret, y) \<Rightarrow> ((ret, ACTION_BUTT), y))"

text \<open>Entering a state whose work may fail: on failure the answer asks for the init state.\<close>

definition or_init :: "'x player_executor \<Rightarrow> player_call \<Rightarrow> 'x \<Rightarrow> 'x reply" where
  "or_init ex c x =
     (case pe_call ex c x of (rtv, y) \<Rightarrow>
        ((rtv, if rtv = EC_SUCCESS then ACTION_BUTT else TRANS_TO_INIT), y))"

definition IdleState :: "'x player_executor \<Rightarrow> 'x state_class" where
  "IdleState ex = (State ex)
     \<lparr>sc_SetSource := set_source ex, sc_Enter := (\<lambda>i. stay_after ex DoReset)\<rparr>"

definition InitState :: "'x player_executor \<Rightarrow> 'x state_class" where
  "InitState ex = (State ex)
     \<lparr>sc_SetSource := set_source ex, sc_Prepare := goes_to TRANS_TO_PREPARING,
      sc_Stop := goes_to TRANS_TO_STOPPED\<rparr>"

definition PreparingState :: "'x player_executor \<Rightarrow> 'x state_class" where
  "PreparingState ex = (State ex)
     \<lparr>sc_Enter := (\<lambda>i. or_init ex PrepareFilters), sc_Play := goes_to ACTION_PENDING,
      sc_Stop := goes_to TRANS_TO_STOPPED, sc_OnReady := goes_to TRANS_TO_READY\<rparr>"

definition ReadyState :: "'x player_executor \<Rightarrow> 'x state_class" where
  "ReadyState ex = (State ex)
     \<lparr>sc_Enter := (\<lambda>i. or_init ex DoOnReady), sc_Seek := seek_to ex,
      sc_Play := goes_to TRANS_TO_PLAYING, sc_Stop := goes_to TRANS_TO_STOPPED\<rparr>"

definition PlayingState :: "'x player_executor \<Rightarrow> 'x state_class" where
  "PlayingState ex = (State ex)
     \<lparr>sc_Enter := (\<lambda>i. stay_after ex (if i = RESUME then DoResume else DoPlay)),
      sc_Play := goes_to ACTION_BUTT, sc_Seek := seek_to ex, sc_Pause := goes_to TRANS_TO_PAUSE,
      sc_Stop := goes_to TRANS_TO_STOPPED,
      sc_OnComplete := (\<lambda>x.
        case pe_call ex DoOnComplete x of (ret, y) \<Rightarrow>
          if pe_loop ex y then stay_after ex (DoSeek 0 SEEK_PREVIOUS_SYNC False) y
          else ((ret, TRANS_TO_EOS), y))\<rparr>"

definition PauseState :: "'x player_executor \<Rightarrow> 'x state_class" where
  "PauseState ex = (State ex)
     \<lparr>sc_Enter := (\<lambda>i. stay_after ex DoPause), sc_Play := goes_to TRANS_TO_PLAYING,
      sc_Seek := seek_to ex, sc_Pause := goes_to ACTION_BUTT, sc_Resume := goes_to TRANS_TO_PLAYING,
      sc_Stop := goes_to TRANS_TO_STOPPED\<rparr>"

definition StoppedState :: "'x player_executor \<Rightarrow> 'x state_class" where
  "StoppedState ex = (State ex)\<lparr>sc_Enter := (\<lambda>i. stay_after ex DoStop)\<rparr>"

definition EosState :: "'x player_executor \<Rightarrow> 'x state_class" where
  "EosState ex = (State ex)
     \<lparr>sc_Play := (\<lambda>x.
        case pe_call ex (DoSeek 0 SEEK_PREVIOUS_SYNC False) x of (ret, y) \<Rightarrow>
          ((ret, if ret = EC_SUCCESS then TRANS_TO_PLAYING else ACTION_BUTT), y)),
      sc_Seek := (\<lambda>p. invalid_op), sc_Enter := (\<lambda>i. stay_after ex DoPause),
      sc_Stop := goes_to TRANS_TO_STOPPED\<rparr>"

text \<open>The machine's table of states, filled by its constructor.\<close>

fun state_of :: "'x player_executor \<Rightarrow> state_id \<Rightarrow> 'x state_class" where
  "state_of ex ST_IDLE = IdleState ex"
| "state_of ex ST_INIT = InitState ex"
| "state_of ex ST_PREPARING = PreparingState ex"
| "state_of ex ST_READY = ReadyState ex"
| "state_of ex ST_PLAYING = PlayingState ex"
| "state_of ex ST_PAUSE = PauseState ex"
| "state_of ex ST_STOPPED = StoppedState ex"
| "state_of ex ST_EOS = EosState ex"

definition DispatchIntent :: "'x state_class \<Rightarrow> intent \<Rightarrow> any_param \<Rightarrow> 'x \<Rightarrow> 'x reply" where
  "DispatchIntent c i p x =
     (case i of
        SET_SOURCE \<Rightarrow> sc_SetSource c p x
      | PREPARE \<Rightarrow> sc_Prepare c x
      | SEEK \<Rightarrow> sc_Seek c p x
      | PLAY \<Rightarrow> sc_Play c x
      | PAUSE \<Rightarrow> sc_Pause c x
      | RESUME \<Rightarrow> sc_Resume c x
      | STOP \<Rightarrow> sc_Stop c x
      | RESET \<Rightarrow> sc_Reset c x
      | SET_ATTRIBUTE \<Rightarrow> sc_SetAttribute c x
      | NOTIFY_READY \<Rightarrow> sc_OnReady c x
      | NOTIFY_COMPLETE \<Rightarrow> sc_OnComplete c x
      | NOTIFY_ERROR \<Rightarrow> sc_OnError c p x
      | INTENT_BUTT \<Rightarrow> goes_to ACTION_BUTT x)"

section \<open>The machine\<close>

type_synonym job = "intent \<times> any_param"

record 'x fsm =
  fs_cur :: state_id
  fs_last :: intent
  fs_jobs :: "job bqueue"
  fs_pending :: "job list"
  fs_callback :: bool
  fs_changes :: "state_id list"
  fs_sync :: "(intent, error_code) syncer"
  fs_exec :: 'x

definition new_fsm :: "'x \<Rightarrow> 'x fsm" where
  "new_fsm x = \<lparr>fs_cur = ST_IDLE, fs_last = INTENT_BUTT, fs_jobs = new_bqueue DEFAULT_QUEUE_SIZE,
     fs_pending = [], fs_callback = False, fs_changes = [],
     fs_sync = \<lparr>sy_map = (\<lambda>_. None), sy_wait = {}\<rparr>, fs_exec = x\<rparr>"

definition SetStateCallback :: "bool \<Rightarrow> 'x fsm \<Rightarrow> 'x fsm" where
  "SetStateCallback c s = s\<lparr>fs_callback := c\<rparr>"

fun next_state :: "action \<Rightarrow> state_id option" where
  "next_state TRANS_TO_IDLE = Some ST_IDLE"
| "next_state TRANS_TO_INIT = Some ST_INIT"
| "next_state TRANS_TO_PREPARING = Some ST_PREPARING"
| "next_state TRANS_TO_READY = Some ST_READY"
| "next_state TRANS_TO_PLAYING = Some ST_PLAYING"
| "next_state TRANS_TO_PAUSE = Some ST_PAUSE"
| "next_state TRANS_TO_STOPPED = Some ST_STOPPED"
| "next_state TRANS_TO_EOS = Some ST_EOS"
| "next_state ACTION_PENDING = None"
| "next_state ACTION_BUTT = None"

lemmas class_defs = State_def IdleState_def InitState_def PreparingState_def ReadyState_def
  PlayingState_def PauseState_def StoppedState_def EosState_def

lemmas reply_defs = invalid_op_def goes_to_def set_source_def seek_to_def stay_after_def or_init_def

text \<open>Entering a state asks for another transition only together with an error.\<close>

lemma Enter_success_stays:
  "sc_Enter (state_of ex st) i x = ((EC_SUCCESS, a), y) \<Longrightarrow> a = ACTION_BUTT"
  by (cases st) (auto simp: class_defs reply_defs split: prod.splits if_splits)

definition note_change :: "'x fsm \<Rightarrow> 'x fsm" where
  "note_change s = (if fs_callback s then s\<lparr>fs_changes := fs_changes s @ [fs_cur s]\<rparr> else s)"

text \<open>
  \<open>ProcAction\<close> and \<open>TransitionTo\<close> call each other; the recursion ends because a state that enters
  successfully asks for no further transition.
\<close>

function ProcAction :: "'x player_executor \<Rightarrow> action \<Rightarrow> 'x fsm \<Rightarrow> error_code \<times> 'x fsm"
  and TransitionTo :: "'x player_executor \<Rightarrow> state_id \<Rightarrow> 'x fsm \<Rightarrow> error_code \<times> 'x fsm" where
  "ProcAction ex a s =
     (case next_state a of None \<Rightarrow> (EC_SUCCESS, s) | Some st \<Rightarrow> TransitionTo ex st s)"
| "TransitionTo ex st s =
     (if st \<noteq> fs_cur s then
        (case sc_Enter (state_of ex st) (fs_last s) (fs_exec s) of
           ((rtv, nextAction), x) \<Rightarrow>
             let s1 = s\<lparr>fs_cur := st, fs_exec := x\<rparr>;
                 (rtv2, s2) = (if rtv = EC_SUCCESS then ProcAction ex nextAction s1 else (rtv, s1))
             in (rtv2, note_change s2))
      else (EC_SUCCESS, s))"
  by pat_completeness auto
termination
  by (relation "measure (\<lambda>z. case z of Inl (ex, a, s) \<Rightarrow> (if next_state a = None then 0 else 2) | Inr _ \<Rightarrow> 1)")
    (auto dest: Enter_success_stays [OF sym])

declare ProcAction.simps [simp del] TransitionTo.simps [simp del]

text \<open>So one transition enters one state and no more.\<close>

lemma TransitionTo_eq:
  "TransitionTo ex st s =
     (if st \<noteq> fs_cur s then
        (case sc_Enter (state_of ex st) (fs_last s) (fs_exec s) of
           ((rtv, nextAction), x) \<Rightarrow> (rtv, note_change (s\<lparr>fs_cur := st, fs_exec := x\<rparr>)))
      else (EC_SUCCESS, s))"
proof (cases "sc_Enter (state_of ex st) (fs_last s) (fs_exec s)")
  case (Pair ra x)
  obtain rtv a where ra: "ra = (rtv, a)" by (cases ra)
  show ?thesis
  proof (cases "rtv = EC_SUCCESS")
    case True
    then have "a = ACTION_BUTT" using Enter_success_stays [of ex st] Pair ra by metis
    then show ?thesis using Pair ra True
      by (subst TransitionTo.simps) (simp add: ProcAction.simps Let_def)
  next
    case False
    then show ?thesis using Pair ra by (subst TransitionTo.simps) (simp add: Let_def)
  qed
qed

lemma ProcAction_eq:
  "ProcAction ex a s = (case next_state a of None \<Rightarrow> (EC_SUCCESS, s) | Some st \<Rightarrow> TransitionTo ex st s)"
  by (simp add: ProcAction.simps)

definition Notify :: "intent \<Rightarrow> error_code \<Rightarrow> 'x fsm \<Rightarrow> 'x fsm" where
  "Notify i code s = s\<lparr>fs_sync := sy_Notify i code (fs_sync s)\<rparr>"

definition OnIntentExecuted :: "intent \<Rightarrow> action \<Rightarrow> error_code \<Rightarrow> 'x fsm \<Rightarrow> 'x fsm" where
  "OnIntentExecuted i a result s =
     (if a = ACTION_PENDING then s
      else if result = EC_ERROR_NO_NOTIFY then s
      else if i = NOTIFY_READY \<and> a = TRANS_TO_PLAYING then Notify PLAY result s
      else Notify i result s)"

text \<open>
  \<open>ProcessIntent\<close>: the current state answers, the action it asks for is carried out, and whoever
  waits for the intent is notified of the result.
\<close>

definition execute_intent :: "'x player_executor \<Rightarrow> job \<Rightarrow> 'x fsm \<Rightarrow> error_code \<times> action \<times> 'x fsm" where
  "execute_intent ex j s =
     (case j of (i, p) \<Rightarrow>
        let s1 = s\<lparr>fs_last := i\<rparr>
        in case DispatchIntent (state_of ex (fs_cur s1)) i p (fs_exec s1) of
             ((rtv, nextAction), x) \<Rightarrow>
               let s2 = s1\<lparr>fs_exec := x\<rparr>;
                   (rtv2, s3) =
                     (if nextAction \<noteq> ACTION_BUTT then
                        (if rtv = EC_SUCCESS then ProcAction ex nextAction s2
                         else (rtv, snd (ProcAction ex nextAction s2)))
                      else (rtv, s2))
               in (rtv2, nextAction, s3))"

definition ProcessIntent :: "'x player_executor \<Rightarrow> job \<Rightarrow> 'x fsm \<Rightarrow> action \<times> 'x fsm" where
  "ProcessIntent ex j s =
     (case execute_intent ex j s of (rtv, nextAction, t) \<Rightarrow>
        (if rtv = EC_SUCCESS then nextAction else ACTION_BUTT,
         OnIntentExecuted (fst j) nextAction rtv t))"

text \<open>
  One round of the machine's thread. A pop that blocks leaves the machine as it is (the thread
  sleeps); a pop from an inactive queue yields no job.
\<close>

definition run_pending :: "'x player_executor \<Rightarrow> 'x fsm \<Rightarrow> 'x fsm" where
  "run_pending ex s =
     (case fs_pending s of [] \<Rightarrow> s
      | j # js \<Rightarrow>
          (case ProcessIntent ex j (s\<lparr>fs_pending := js\<rparr>) of (a, s1) \<Rightarrow>
             if a = ACTION_PENDING then s1\<lparr>fs_pending := fs_pending s1 @ [j]\<rparr> else s1))"

definition DoTask :: "'x player_executor \<Rightarrow> 'x fsm \<Rightarrow> 'x fsm" where
  "DoTask ex s =
     (case bl_Pop (fs_jobs s) of
        (Blocks, q) \<Rightarrow> s\<lparr>fs_jobs := q\<rparr>
      | (Returns None, q) \<Rightarrow> s\<lparr>fs_jobs := q\<rparr>
      | (Returns (Some j), q) \<Rightarrow>
          (case ProcessIntent ex j (s\<lparr>fs_jobs := q\<rparr>) of (a, s1) \<Rightarrow>
             if a = ACTION_PENDING then s1\<lparr>fs_pending := fs_pending s1 @ [j]\<rparr>
             else if a = ACTION_BUTT then s1
             else run_pending ex s1))"

definition SendEventAsync :: "intent \<Rightarrow> any_param \<Rightarrow> 'x fsm \<Rightarrow> error_code call \<times> 'x fsm" where
  "SendEventAsync i p s =
     (case bl_Push (i, p) (fs_jobs s) of
        (Blocks, q) \<Rightarrow> (Blocks, s\<lparr>fs_jobs := q\<rparr>)
      | (Returns b, q) \<Rightarrow> (Returns (if b then EC_SUCCESS else EC_ERROR_UNKNOWN), s\<lparr>fs_jobs := q\<rparr>))"

text \<open>
  \<open>SendEvent\<close> waits for the intent's notification; \<open>env\<close> is what the machine's thread does until
  the caller wakes up.
\<close>

definition SendEvent :: "('x fsm \<Rightarrow> 'x fsm) \<Rightarrow> intent \<Rightarrow> any_param \<Rightarrow> 'x fsm \<Rightarrow> error_code call \<times> 'x fsm" where
  "SendEvent env i p s =
     (let s1 = s\<lparr>fs_sync := (fs_sync s)\<lparr>sy_wait := insert i (sy_wait (fs_sync s))\<rparr>\<rparr>;
          unwait = (\<lambda>t. t\<lparr>fs_sync := (fs_sync t)\<lparr>sy_wait := sy_wait (fs_sync t) - {i}\<rparr>\<rparr>)
      in case SendEventAsync i p s1 of
           (Blocks, s2) \<Rightarrow> (Blocks, s2)
         | (Returns ec, s2) \<Rightarrow>
             if ec \<noteq> EC_SUCCESS then (Returns EC_ERROR_TIMED_OUT, unwait s2)
             else let s3 = env s2
                  in case sy_map (fs_sync s3) i of
                       Some r \<Rightarrow> (Returns r, s3\<lparr>fs_sync := (fs_sync s3)\<lparr>sy_map := (sy_map (fs_sync s3))(i := None)\<rparr>\<rparr>)
                     | None \<Rightarrow> (Returns EC_ERROR_TIMED_OUT, unwait s3))"

text \<open>\<open>Stop\<close> once the job queue has drained.\<close>

definition fsm_Stop :: "'x fsm \<Rightarrow> 'x fsm" where
  "fsm_Stop s = s\<lparr>fs_jobs := bl_SetActive False True (fs_jobs s)\<rparr>"

section \<open>What one intent does\<close>

text \<open>The transitions the state classes ask for, intent by intent.\<close>

fun may_ask :: "state_id \<Rightarrow> intent \<Rightarrow> action list" where
  "may_ask st RESET = [TRANS_TO_IDLE]"
| "may_ask st NOTIFY_ERROR = [TRANS_TO_INIT]"
| "may_ask ST_IDLE SET_SOURCE = [TRANS_TO_INIT]"
| "may_ask ST_INIT SET_SOURCE = [TRANS_TO_INIT]"
| "may_ask ST_INIT PREPARE = [TRANS_TO_PREPARING]"
| "may_ask ST_INIT STOP = [TRANS_TO_STOPPED]"
| "may_ask ST_PREPARING PLAY = [ACTION_PENDING]"
| "may_ask ST_PREPARING STOP = [TRANS_TO_STOPPED]"
| "may_ask ST_PREPARING NOTIFY_READY = [TRANS_TO_READY]"
| "may_ask ST_READY PLAY = [TRANS_TO_PLAYING]"
| "may_ask ST_READY STOP = [TRANS_TO_STOPPED]"
| "may_ask ST_PLAYING PAUSE = [TRANS_TO_PAUSE]"
| "may_ask ST_PLAYING STOP = [TRANS_TO_STOPPED]"
| "may_ask ST_PLAYING NOTIFY_COMPLETE = [TRANS_TO_EOS]"
| "may_ask ST_PAUSE PLAY = [TRANS_TO_PLAYING]"
| "may_ask ST_PAUSE RESUME = [TRANS_TO_PLAYING]"
| "may_ask ST_PAUSE STOP = [TRANS_TO_STOPPED]"
| "may_ask ST_EOS PLAY = [TRANS_TO_PLAYING]"
| "may_ask ST_EOS STOP = [TRANS_TO_STOPPED]"
| "may_ask st i = []"

lemma Dispatch_may_ask:
  assumes "DispatchIntent (state_of ex st) i p x = ((rtv, a), y)"
  shows "a = ACTION_BUTT \<or> a \<in> set (may_ask st i)"
  using assms
  by (cases st; cases i)
    (auto simp: DispatchIntent_def class_defs reply_defs Let_def split: prod.splits if_splits any_param.splits option.splits)

end
