(* ===== verification/Media_Sync.thy ===== *)
theory Media_Sync
  imports Hst_Prelude
begin

text \<open>
  The clock of a player (engine/pipeline/core/media_sync_manager.cpp) and the sinks that are
  synchronised with it (engine/pipeline/filters/sink/media_synchronous_sink.cpp, and the writing
  of a frame in audio_sink_filter.cpp and video_sink_filter.cpp).

  Times are nanoseconds, -1 is no time. The system clock is an argument of the operations that read
  it. The floating-point arithmetic with the playback rate is the argument \<open>A\<close>: \<open>ar_media a d r\<close> is
  \<open>a + d * (double) r\<close> and \<open>ar_clock a d r\<close> is \<open>a + d / (double) r\<close>, both as \<open>int64_t\<close>; \<open>ar_neg r\<close> is
  \<open>r < 0\<close> and \<open>ar_zero r\<close> is \<open>fabs(r) < 1e-9\<close>. The sinks are numbers, their fields are part of the
  state.
\<close>

section \<open>State\<close>

abbreviation (input) HST_TIME_NONE :: int where "HST_TIME_NONE \<equiv> -1"

definition HstTime2Ms :: "int \<Rightarrow> int" where
  "HstTime2Ms t = (if t < 0 then - ((- t) div 1000000) else t div 1000000)"

record 'r time_arith =
  ar_one :: 'r
  ar_neg :: "'r \<Rightarrow> bool"
  ar_zero :: "'r \<Rightarrow> bool"
  ar_media :: "int \<Rightarrow> int \<Rightarrow> 'r \<Rightarrow> int"
  ar_clock :: "int \<Rightarrow> int \<Rightarrow> 'r \<Rightarrow> int"

datatype clock_state = RESUMED | PAUSED

record sync_sink =
  ss_priority :: int
  ss_reported :: bool
  ss_wait :: bool

record 'r sync_manager =
  sm_clockState :: clock_state
  sm_priority :: int
  sm_anchorClock :: int
  sm_anchorMedia :: int
  sm_pausedMedia :: int
  sm_pausedClock :: int
  sm_playRate :: 'r
  sm_alreadyWait :: bool
  sm_shouldPreroll :: bool
  sm_isSeeking :: bool
  sm_seekingMedia :: int
  sm_trackRange :: "(int \<times> int \<times> int) list"
  sm_minStart :: int
  sm_maxEnd :: int
  sm_syncers :: "nat list"
  sm_prerolled :: "nat list"
  sm_sinks :: "nat \<Rightarrow> sync_sink"

definition PRIORITY_NONE :: int where "PRIORITY_NONE = -1"

definition new_sync :: "'r time_arith \<Rightarrow> (nat \<Rightarrow> sync_sink) \<Rightarrow> 'r sync_manager" where
  "new_sync A sinks =
     \<lparr>sm_clockState = PAUSED, sm_priority = PRIORITY_NONE, sm_anchorClock = HST_TIME_NONE, sm_anchorMedia = HST_TIME_NONE,
      sm_pausedMedia = HST_TIME_NONE, sm_pausedClock = HST_TIME_NONE, sm_playRate = ar_one A, sm_alreadyWait = False,
      sm_shouldPreroll = True, sm_isSeeking = False, sm_seekingMedia = HST_TIME_NONE, sm_trackRange = [],
      sm_minStart = HST_TIME_NONE, sm_maxEnd = HST_TIME_NONE, sm_syncers = [], sm_prerolled = [], sm_sinks = sinks\<rparr>"

section \<open>Synchronizers\<close>

definition AddSynchronizer :: "nat option \<Rightarrow> 'r sync_manager \<Rightarrow> 'r sync_manager" where
  "AddSynchronizer syncer s =
     (case syncer of None \<Rightarrow> s
      | Some i \<Rightarrow> if i \<in> set (sm_syncers s) then s else s\<lparr>sm_syncers := sm_syncers s @ [i]\<rparr>)"

definition RemoveSynchronizer :: "nat option \<Rightarrow> 'r sync_manager \<Rightarrow> 'r sync_manager" where
  "RemoveSynchronizer syncer s =
     (case syncer of None \<Rightarrow> s | Some i \<Rightarrow> s\<lparr>sm_syncers := remove1 i (sm_syncers s)\<rparr>)"

definition upd_sink :: "nat \<Rightarrow> (sync_sink \<Rightarrow> sync_sink) \<Rightarrow> 'r sync_manager \<Rightarrow> 'r sync_manager" where
  "upd_sink i h s = s\<lparr>sm_sinks := (sm_sinks s)(i := h (sm_sinks s i))\<rparr>"

definition sink_WaitAllPrerolled :: "bool \<Rightarrow> nat \<Rightarrow> 'r sync_manager \<Rightarrow> 'r sync_manager" where
  "sink_WaitAllPrerolled shouldWait i = upd_sink i (\<lambda>k. k\<lparr>ss_wait := shouldWait\<rparr>)"

definition sink_NotifyAllPrerolled :: "nat \<Rightarrow> 'r sync_manager \<Rightarrow> 'r sync_manager" where
  "sink_NotifyAllPrerolled i = upd_sink i (\<lambda>k. k\<lparr>ss_wait := False\<rparr>)"

definition ResetPrerollReported :: "nat \<Rightarrow> 'r sync_manager \<Rightarrow> 'r sync_manager" where
  "ResetPrerollReported i = upd_sink i (\<lambda>k. k\<lparr>ss_reported := False\<rparr>)"

definition GetPriority :: "'r sync_manager \<Rightarrow> nat \<Rightarrow> int" where
  "GetPriority s i = ss_priority (sm_sinks s i)"

definition IsSupplierValid :: "'r sync_manager \<Rightarrow> nat \<Rightarrow> bool" where
  "IsSupplierValid s i \<longleftrightarrow> i \<in> set (sm_syncers s)"

definition WaitAllPrerolled :: "bool \<Rightarrow> 'r sync_manager \<Rightarrow> 'r sync_manager" where
  "WaitAllPrerolled prerolled s = s\<lparr>sm_shouldPreroll := prerolled\<rparr>"

definition SetAllSyncShouldWaitNoLock :: "'r sync_manager \<Rightarrow> 'r sync_manager" where
  "SetAllSyncShouldWaitNoLock s =
     (if sm_shouldPreroll s \<and> \<not> sm_alreadyWait s then
        let s1 = s\<lparr>sm_prerolled := []\<rparr>;
            s2 = if length (sm_syncers s1) > 1 then fold (sink_WaitAllPrerolled True) (sm_syncers s1) s1 else s1
        in s2\<lparr>sm_alreadyWait := True\<rparr>
      else s)"

definition ReportPrerolled :: "nat option \<Rightarrow> 'r sync_manager \<Rightarrow> 'r sync_manager" where
  "ReportPrerolled supplier s =
     (case supplier of None \<Rightarrow> s
      | Some i \<Rightarrow>
          if \<not> sm_shouldPreroll s then s
          else if i \<in> set (sm_prerolled s) then s
          else let s1 = s\<lparr>sm_prerolled := sm_prerolled s @ [i]\<rparr>
               in if length (sm_prerolled s1) = length (sm_syncers s1)
                  then (fold sink_NotifyAllPrerolled (sm_prerolled s1) s1)\<lparr>sm_prerolled := []\<rparr>
                  else s1)"

section \<open>Media time\<close>

definition ClipMediaTime :: "'r sync_manager \<Rightarrow> int \<Rightarrow> int" where
  "ClipMediaTime s inTime =
     (let ret1 = if sm_minStart s \<noteq> HST_TIME_NONE \<and> inTime < sm_minStart s then sm_minStart s else inTime
      in if sm_maxEnd s \<noteq> HST_TIME_NONE \<and> ret1 > sm_maxEnd s then sm_maxEnd s else ret1)"

definition SimpleUpdatePlayRate :: "'r \<Rightarrow> 'r sync_manager \<Rightarrow> 'r sync_manager" where
  "SimpleUpdatePlayRate r s = s\<lparr>sm_playRate := r\<rparr>"

definition SimpleUpdateTimeAnchor :: "int \<Rightarrow> int \<Rightarrow> 'r sync_manager \<Rightarrow> 'r sync_manager" where
  "SimpleUpdateTimeAnchor clockTime mediaTime s = s\<lparr>sm_anchorMedia := mediaTime, sm_anchorClock := clockTime\<rparr>"

definition ResetTimeAnchorNoLock :: "'r sync_manager \<Rightarrow> 'r sync_manager" where
  "ResetTimeAnchorNoLock s =
     SimpleUpdateTimeAnchor HST_TIME_NONE HST_TIME_NONE (s\<lparr>sm_pausedMedia := HST_TIME_NONE, sm_priority := PRIORITY_NONE\<rparr>)"

definition SimpleGetMediaTime :: "'r time_arith \<Rightarrow> int \<Rightarrow> int \<Rightarrow> int \<Rightarrow> 'r \<Rightarrow> int" where
  "SimpleGetMediaTime A anchorClockTime nowClockTime anchorMediaTime playRate =
     (if ar_zero A playRate then HST_TIME_NONE
      else if anchorClockTime = HST_TIME_NONE \<or> nowClockTime = HST_TIME_NONE \<or> anchorMediaTime = HST_TIME_NONE
      then HST_TIME_NONE
      else ar_media A anchorMediaTime (nowClockTime - anchorClockTime) playRate)"

definition SimpleGetClockTime :: "'r time_arith \<Rightarrow> int \<Rightarrow> int \<Rightarrow> int \<Rightarrow> 'r \<Rightarrow> int" where
  "SimpleGetClockTime A anchorClockTime nowMediaTime anchorMediaTime playRate =
     (if ar_zero A playRate then HST_TIME_NONE
      else if anchorClockTime = HST_TIME_NONE \<or> nowMediaTime = HST_TIME_NONE \<or> anchorMediaTime = HST_TIME_NONE
      then HST_TIME_NONE
      else ar_clock A anchorClockTime (nowMediaTime - anchorMediaTime) playRate)"

definition SetPlaybackRate :: "'r time_arith \<Rightarrow> int \<Rightarrow> 'r \<Rightarrow> 'r sync_manager \<Rightarrow> error_code \<times> 'r sync_manager" where
  "SetPlaybackRate A now rate s =
     (if ar_neg A rate then (EC_ERROR_INVALID_PARAMETER_VALUE, s)
      else if sm_anchorClock s = HST_TIME_NONE \<or> sm_anchorMedia s = HST_TIME_NONE
      then (EC_SUCCESS, SimpleUpdatePlayRate rate s)
      else let currentMedia = SimpleGetMediaTime A (sm_anchorClock s) now (sm_anchorMedia s) (sm_playRate s)
           in (EC_SUCCESS, SimpleUpdatePlayRate rate (SimpleUpdateTimeAnchor now currentMedia s)))"

fun set_range :: "int \<Rightarrow> int \<Rightarrow> int \<Rightarrow> (int \<times> int \<times> int) list \<Rightarrow> (int \<times> int \<times> int) list" where
  "set_range trackId index val [] =
     [(trackId, if index = 1 then val else HST_TIME_NONE, if index = 2 then val else HST_TIME_NONE)]"
| "set_range trackId index val ((t, a, b) # rs) =
     (if t = trackId then (t, if index = 1 then val else a, if index = 2 then val else b) # rs
      else (t, a, b) # set_range trackId index val rs)"

definition SetMediaTimeStartEnd :: "int \<Rightarrow> int \<Rightarrow> int \<Rightarrow> 'r sync_manager \<Rightarrow> 'r sync_manager" where
  "SetMediaTimeStartEnd trackId index val s = s\<lparr>sm_trackRange := set_range trackId index val (sm_trackRange s)\<rparr>"

definition SetMediaTimeRangeStart :: "int \<Rightarrow> int \<Rightarrow> 'r sync_manager \<Rightarrow> 'r sync_manager" where
  "SetMediaTimeRangeStart startMediaTime trackId s =
     (let s1 = SetMediaTimeStartEnd trackId 1 startMediaTime s
      in if sm_minStart s1 = HST_TIME_NONE \<or> startMediaTime < sm_minStart s1 then s1\<lparr>sm_minStart := startMediaTime\<rparr> else s1)"

definition SetMediaTimeRangeEnd :: "int \<Rightarrow> int \<Rightarrow> 'r sync_manager \<Rightarrow> 'r sync_manager" where
  "SetMediaTimeRangeEnd endMediaTime trackId s =
     (let s1 = SetMediaTimeStartEnd trackId 2 endMediaTime s
      in if sm_maxEnd s1 = HST_TIME_NONE \<or> endMediaTime > sm_maxEnd s1 then s1\<lparr>sm_maxEnd := endMediaTime\<rparr> else s1)"

definition sm_Resume :: "int \<Rightarrow> 'r sync_manager \<Rightarrow> error_code \<times> 'r sync_manager" where
  "sm_Resume now s =
     (let s1 = if sm_clockState s = PAUSED \<and> sm_pausedMedia s \<noteq> HST_TIME_NONE \<and> sm_alreadyWait s
               then (SimpleUpdateTimeAnchor now (sm_pausedMedia s) s)\<lparr>sm_pausedMedia := HST_TIME_NONE, sm_pausedClock := HST_TIME_NONE\<rparr>
               else s
      in if sm_clockState s1 = RESUMED then (EC_SUCCESS, s1)
         else (EC_SUCCESS, (SetAllSyncShouldWaitNoLock s1)\<lparr>sm_clockState := RESUMED\<rparr>))"

definition sm_Pause :: "'r time_arith \<Rightarrow> int \<Rightarrow> 'r sync_manager \<Rightarrow> error_code \<times> 'r sync_manager" where
  "sm_Pause A now s =
     (if sm_clockState s = PAUSED then (EC_SUCCESS, s)
      else let s1 = s\<lparr>sm_pausedClock := now\<rparr>;
               t = if sm_anchorMedia s1 \<noteq> HST_TIME_NONE \<and> sm_anchorClock s1 \<noteq> HST_TIME_NONE
                   then SimpleGetMediaTime A (sm_anchorClock s1) (sm_pausedClock s1) (sm_anchorMedia s1) (sm_playRate s1)
                   else HST_TIME_NONE
           in (EC_SUCCESS, s1\<lparr>sm_pausedMedia := ClipMediaTime s1 t, sm_clockState := PAUSED\<rparr>))"

definition sm_Seek :: "int \<Rightarrow> 'r sync_manager \<Rightarrow> error_code \<times> 'r sync_manager" where
  "sm_Seek mediaTime s =
     (if sm_minStart s = HST_TIME_NONE \<or> sm_maxEnd s = HST_TIME_NONE then (EC_ERROR_INVALID_OPERATION, s)
      else if mediaTime > sm_maxEnd s \<or> mediaTime < sm_minStart s then (EC_ERROR_INVALID_PARAMETER_VALUE, s)
      else (EC_SUCCESS, ResetTimeAnchorNoLock (SetAllSyncShouldWaitNoLock
              (s\<lparr>sm_isSeeking := True, sm_seekingMedia := mediaTime, sm_alreadyWait := False\<rparr>))))"

definition sm_Reset :: "'r time_arith \<Rightarrow> 'r sync_manager \<Rightarrow> error_code \<times> 'r sync_manager" where
  "sm_Reset A s =
     (let s1 = ResetTimeAnchorNoLock (s\<lparr>sm_clockState := PAUSED\<rparr>)
      in (EC_SUCCESS, s1\<lparr>sm_pausedClock := HST_TIME_NONE, sm_playRate := ar_one A, sm_alreadyWait := False,
            sm_shouldPreroll := True, sm_isSeeking := False, sm_seekingMedia := HST_TIME_NONE, sm_trackRange := [],
            sm_minStart := HST_TIME_NONE, sm_maxEnd := HST_TIME_NONE, sm_syncers := [], sm_prerolled := []\<rparr>))"

definition UpdateTimeAnchor :: "int \<Rightarrow> int \<Rightarrow> nat option \<Rightarrow> 'r sync_manager \<Rightarrow> bool \<times> 'r sync_manager" where
  "UpdateTimeAnchor clockTime mediaTime supplier s =
     (if clockTime = HST_TIME_NONE \<or> mediaTime = HST_TIME_NONE then (True, s)
      else case supplier of None \<Rightarrow> (True, s)
      | Some i \<Rightarrow>
          let s1 = if IsSupplierValid s i \<and> GetPriority s i \<ge> sm_priority s
                   then SimpleUpdateTimeAnchor clockTime mediaTime (s\<lparr>sm_priority := GetPriority s i\<rparr>) else s;
              s2 = if sm_isSeeking s1 \<and> HstTime2Ms \<bar>mediaTime - sm_seekingMedia s1\<bar> \<le> 50
                   then s1\<lparr>sm_isSeeking := False\<rparr> else s1
          in (\<not> sm_isSeeking s2, s2))"

definition GetMediaTimeNow :: "'r time_arith \<Rightarrow> int \<Rightarrow> 'r sync_manager \<Rightarrow> int" where
  "GetMediaTimeNow A now s =
     (if sm_isSeeking s then sm_seekingMedia s
      else if sm_clockState s = PAUSED then (if sm_pausedMedia s = HST_TIME_NONE then 0 else sm_pausedMedia s)
      else ClipMediaTime s (SimpleGetMediaTime A (sm_anchorClock s) now (sm_anchorMedia s) (sm_playRate s)))"

definition GetClockTimeNow :: "int \<Rightarrow> 'r sync_manager \<Rightarrow> int" where
  "GetClockTimeNow now s = (if sm_clockState s = PAUSED then sm_pausedClock s else now)"

definition GetClockTime :: "'r time_arith \<Rightarrow> int \<Rightarrow> 'r sync_manager \<Rightarrow> int" where
  "GetClockTime A mediaTime s = SimpleGetClockTime A (sm_anchorClock s) mediaTime (sm_anchorMedia s) (sm_playRate s)"

section \<open>Sinks\<close>

text \<open>
  \<open>WaitFor\<close> of the condition variable (engine/include/foundation/osal/thread/condition_variable.h):
  \<open>env\<close> is what the others make of the state while the caller does not hold the mutex, once before it
  gets the mutex, and then at each wake-up; the end of \<open>env\<close> is the timeout. The answer says whether
  the wait was in time; the second component counts the times the caller slept.
\<close>

fun WaitFor :: "('s \<Rightarrow> bool) \<Rightarrow> ('s \<Rightarrow> 's) list \<Rightarrow> 's \<Rightarrow> bool \<times> nat \<times> 's" where
  "WaitFor pred [] s = (if pred s then (True, 0, s) else (pred s, 1, s))"
| "WaitFor pred (e # es) s =
     (if pred s then (True, 0, s) else case WaitFor pred es (e s) of (b, n, s1) \<Rightarrow> (b, n + 1, s1))"

definition WriteToPluginRefTimeSync ::
  "('r sync_manager \<Rightarrow> error_code \<times> 'r sync_manager) \<Rightarrow> ('r sync_manager \<Rightarrow> 'r sync_manager) \<Rightarrow>
   ('r sync_manager \<Rightarrow> 'r sync_manager) list \<Rightarrow> nat \<Rightarrow> 'r sync_manager \<Rightarrow> nat \<times> error_code \<times> 'r sync_manager"
where
  "WriteToPluginRefTimeSync DoSyncWrite others env i s =
     (let s1 = if \<not> ss_reported (sm_sinks s i) then upd_sink i (\<lambda>k. k\<lparr>ss_reported := True\<rparr>) (ReportPrerolled (Some i) s) else s
      in if ss_wait (sm_sinks s1 i)
         then case WaitFor (\<lambda>s. ss_wait (sm_sinks s i)) env (others s1) of (in_time, slept, s2) \<Rightarrow>
                (slept, DoSyncWrite (upd_sink i (\<lambda>k. k\<lparr>ss_wait := False\<rparr>) s2))
         else (0, DoSyncWrite s1))"

definition UpdateMediaTimeRange :: "int option \<Rightarrow> int option \<Rightarrow> int option \<Rightarrow> 'r sync_manager \<Rightarrow> 'r sync_manager" where
  "UpdateMediaTimeRange startTime trackIdTag duration s =
     (let trackStartTime = (case startTime of Some t \<Rightarrow> t | None \<Rightarrow> 0);
          trackId = (case trackIdTag of Some t \<Rightarrow> t | None \<Rightarrow> 0);
          s1 = SetMediaTimeRangeStart trackStartTime trackId s
      in case duration of Some trackDuration \<Rightarrow> SetMediaTimeRangeEnd (trackDuration + trackStartTime) trackId s1
         | None \<Rightarrow> SetMediaTimeRangeEnd (2 ^ 63 - 1) trackId s1)"

end
