(* ===== verification/Hi_Player.thy ===== *)
theory Hi_Player
  imports Player_Fsm Media_Sync Plugin_Buffer
begin

text \<open>
  The player of the standard system (engine/scene/player/standard/hiplayer_impl.cpp, with the codes
  of media_utils.cpp and the counting of finished sinks of scene/common/media_stat_stub.cpp): its
  operations, the events of the pipeline it answers, and what it tells the application.

  The filters and the pipeline are the argument \<open>E\<close>: what a call of them answers, the events it
  reports meanwhile, which the player handles, and their own state. The system clock is \<open>now\<close>.
  What the player asks of its callback looper is the list \<open>hp_calls\<close>. The events of other threads
  while an operation waits are the argument \<open>env\<close>; an operation that waits for ever is \<open>None\<close>.
  Volumes and speeds are floating-point numbers; their comparisons, mean and conversion are part of \<open>E\<close>.
\<close>

section \<open>Codes\<close>

datatype player_state =
    PLAYER_STATE_ERROR | PLAYER_IDLE | PLAYER_INITIALIZED | PLAYER_PREPARING | PLAYER_PREPARED
  | PLAYER_STARTED | PLAYER_PAUSED | PLAYER_STOPPED | PLAYER_PLAYBACK_COMPLETE

datatype mserr =
    MSERR_OK | MSERR_UNKNOWN | MSERR_UNSUPPORT | MSERR_INVALID_VAL | MSERR_INVALID_OPERATION
  | MSERR_UNSUPPORT_CONTAINER_TYPE | MSERR_OPEN_FILE_FAILED | MSERR_EXT_TIMEOUT | MSERR_EXT_NO_MEMORY
  | MSERR_INVALID_STATE | MSERR_SEEK_FAILED | MSERR_NETWORK_TIMEOUT

fun TransErrorCode :: "error_code \<Rightarrow> mserr" where
  "TransErrorCode EC_SUCCESS = MSERR_OK"
| "TransErrorCode EC_ERROR_UNKNOWN = MSERR_UNKNOWN"
| "TransErrorCode EC_ERROR_AGAIN = MSERR_UNKNOWN"
| "TransErrorCode EC_ERROR_UNIMPLEMENTED = MSERR_UNSUPPORT"
| "TransErrorCode EC_ERROR_INVALID_PARAMETER_VALUE = MSERR_INVALID_VAL"
| "TransErrorCode EC_ERROR_INVALID_PARAMETER_TYPE = MSERR_INVALID_VAL"
| "TransErrorCode EC_ERROR_INVALID_OPERATION = MSERR_INVALID_OPERATION"
| "TransErrorCode EC_ERROR_UNSUPPORTED_FORMAT = MSERR_UNSUPPORT_CONTAINER_TYPE"
| "TransErrorCode EC_ERROR_NOT_EXISTED = MSERR_OPEN_FILE_FAILED"
| "TransErrorCode EC_ERROR_TIMED_OUT = MSERR_EXT_TIMEOUT"
| "TransErrorCode EC_ERROR_NO_MEMORY = MSERR_EXT_NO_MEMORY"
| "TransErrorCode EC_ERROR_INVALID_STATE = MSERR_INVALID_STATE"
| "TransErrorCode _ = MSERR_UNKNOWN"

fun TransStateId2PlayerState :: "state_id \<Rightarrow> player_state" where
  "TransStateId2PlayerState ST_IDLE = PLAYER_IDLE"
| "TransStateId2PlayerState ST_INIT = PLAYER_INITIALIZED"
| "TransStateId2PlayerState ST_PREPARING = PLAYER_PREPARING"
| "TransStateId2PlayerState ST_READY = PLAYER_PREPARED"
| "TransStateId2PlayerState ST_PAUSE = PLAYER_PAUSED"
| "TransStateId2PlayerState ST_PLAYING = PLAYER_STARTED"
| "TransStateId2PlayerState ST_STOPPED = PLAYER_STOPPED"
| "TransStateId2PlayerState ST_EOS = PLAYER_PLAYBACK_COMPLETE"

datatype player_seek_mode = PSEEK_NEXT_SYNC | PSEEK_PREVIOUS_SYNC | PSEEK_CLOSEST_SYNC | PSEEK_CLOSEST

fun Transform2SeekMode :: "player_seek_mode \<Rightarrow> seek_mode" where
  "Transform2SeekMode PSEEK_NEXT_SYNC = SEEK_NEXT_SYNC"
| "Transform2SeekMode PSEEK_PREVIOUS_SYNC = SEEK_PREVIOUS_SYNC"
| "Transform2SeekMode PSEEK_CLOSEST_SYNC = SEEK_CLOSEST_SYNC"
| "Transform2SeekMode PSEEK_CLOSEST = SEEK_CLOSEST"

definition Ms2HstTime :: "int \<Rightarrow> int option" where
  "Ms2HstTime ms =
     (if (2 ^ 63 - 1) div 1000000 < ms \<or> - ((2 ^ 63) div 1000000) > ms then None else Some (ms * 1000000))"

section \<open>Finished sinks\<close>

type_synonym media_stats = "(string \<times> bool) list"

definition ms_Append :: "string \<Rightarrow> media_stats \<Rightarrow> media_stats" where
  "ms_Append reporter st = (if reporter \<in> fst ` set st then st else st @ [(reporter, False)])"

fun ms_ReceiveComplete :: "string \<Rightarrow> media_stats \<Rightarrow> media_stats" where
  "ms_ReceiveComplete src [] = []"
| "ms_ReceiveComplete src ((r, c) # st) = (if r = src then (r, True) # st else (r, c) # ms_ReceiveComplete src st)"

definition IsEventCompleteAllReceived :: "media_stats \<Rightarrow> bool" where
  "IsEventCompleteAllReceived st = list_all snd st"

definition ResetEventCompleteAllReceived :: "media_stats \<Rightarrow> media_stats" where
  "ResetEventCompleteAllReceived st = map (\<lambda>(r, c). (r, False)) st"

section \<open>Events, calls and state\<close>

datatype hi_event =
    HE_ERROR "error_code option" | HE_READY | HE_COMPLETE string
  | HE_PLUGIN_ERROR "bool option" \<comment> \<open>a client error of the network, and whether it is a timeout\<close>
  | HE_RESOLUTION_CHANGE int int | HE_AUDIO_INTERRUPT int int int
  | HE_AUDIO_STATE_CHANGE bool \<comment> \<open>whether the renderer is paused\<close>
  | HE_PLUGIN_EVENT | HE_VIDEO_RENDERING_START | HE_IS_LIVE_STREAM | HE_UNKNOWN

datatype player_message =
    STATE_CHANGE player_state | BUFFERING_UPDATE bool \<comment> \<open>start or end\<close> | POSITION_UPDATE int
  | DURATION_UPDATE int | BITRATE_COLLECT "u32 list" | SEEKDONE int | VOLUME_CHANGE int | EOS_MESSAGE
  | SPEEDDONE | RESOLUTION_CHANGE int int | RENDERING_START | LIVE_STREAM | INTERRUPT_EVENT int int int
  | STATE_CHANGE_BY_AUDIO player_state
  | PLAYER_ERROR mserr | PLAYER_ERROR_UNKNOWN mserr

datatype looper_call =
    L_Message player_message | L_StartReport int | L_StopReport | L_ManualReport

datatype pass = P_Prepare | P_Start | P_Pause | P_Resume | P_Stop | P_FlushStart | P_FlushEnd

record ('x, 'v) engine =
  en_AddFilters :: "'x \<Rightarrow> error_code \<times> 'x"
  en_LinkFilters :: "'x \<Rightarrow> error_code \<times> 'x"
  en_RemoveFilterChain :: "'x \<Rightarrow> 'x"
  en_SetSource :: "string option \<Rightarrow> 'x \<Rightarrow> error_code \<times> 'x"
  en_pass :: "pass \<Rightarrow> 'x \<Rightarrow> error_code \<times> hi_event list \<times> 'x"
  en_StopTask :: "'x \<Rightarrow> 'x"
  en_SeekToTime :: "int \<Rightarrow> 'x \<Rightarrow> error_code \<times> 'x"
  en_SeekTo :: "int \<Rightarrow> seek_mode \<Rightarrow> int \<Rightarrow> 'x \<Rightarrow> error_code \<times> int \<times> 'x"
  en_seekable :: "'x \<Rightarrow> bool"
  en_SetVolume :: "'v \<Rightarrow> 'x \<Rightarrow> error_code \<times> 'x"
  en_globalDuration :: "'x \<Rightarrow> int option"
  en_streamDurations :: "'x \<Rightarrow> int option list"
  en_bitRates :: "'x \<Rightarrow> error_code \<times> u32 list"
  en_SelectBitRate :: "int \<Rightarrow> 'x \<Rightarrow> error_code \<times> 'x"
  en_SetSpeed :: "'v \<Rightarrow> 'x \<Rightarrow> 'x"
  vo_inRange :: "'v \<Rightarrow> bool"
  vo_tiny :: "'v \<Rightarrow> bool"
  vo_mean :: "'v \<Rightarrow> 'v \<Rightarrow> 'v"
  vo_normal :: "'v \<Rightarrow> 'v"
  vo_set :: "'v \<Rightarrow> bool"
  vo_to_int32 :: "'v \<Rightarrow> int"

record ('x, 'r, 'v) hiplayer =
  hp_state :: player_state
  hp_pending :: "player_state list"
  hp_started :: bool
  hp_calls :: "looper_call list"
  hp_initialized :: bool
  hp_duration :: int
  hp_loop :: bool
  hp_volume :: 'v
  hp_stats :: media_stats
  hp_url :: string
  hp_width :: int
  hp_height :: int
  hp_sync :: "'r sync_manager"
  hp_notified :: nat \<comment> \<open>how often \<open>cond_\<close> was notified\<close>
  hp_world :: 'x

definition new_player :: "'v \<Rightarrow> 'r sync_manager \<Rightarrow> 'x \<Rightarrow> ('x, 'r, 'v) hiplayer" where
  "new_player vol sync x =
     \<lparr>hp_state = PLAYER_IDLE, hp_pending = [], hp_started = False, hp_calls = [], hp_initialized = False, hp_duration = -1,
      hp_loop = False, hp_volume = vol, hp_stats = [], hp_url = [], hp_width = 0, hp_height = 0, hp_sync = sync, hp_notified = 0, hp_world = x\<rparr>"

definition ask :: "looper_call list \<Rightarrow> ('x, 'r, 'v) hiplayer \<Rightarrow> ('x, 'r, 'v) hiplayer" where
  "ask cs s = s\<lparr>hp_calls := hp_calls s @ cs\<rparr>"

definition tell :: "player_message \<Rightarrow> ('x, 'r, 'v) hiplayer \<Rightarrow> ('x, 'r, 'v) hiplayer" where
  "tell m s = ask [L_Message m] s"

section \<open>State reports\<close>

definition UpdateStateNoLock :: "player_state \<Rightarrow> ('x, 'r, 'v) hiplayer \<Rightarrow> ('x, 'r, 'v) hiplayer" where
  "UpdateStateNoLock newState s =
     (if hp_state s = newState then s
      else let s1 = s\<lparr>hp_state := newState\<rparr>
           in if newState = PLAYER_IDLE \<or> newState = PLAYER_PREPARING then s1
              else if hp_started s1
              then ask (map (\<lambda>p. L_Message (STATE_CHANGE p)) (hp_pending s1) @ [L_Message (STATE_CHANGE newState)]) (s1\<lparr>hp_pending := []\<rparr>)
              else s1\<lparr>hp_pending := hp_pending s1 @ [newState]\<rparr>)"

definition OnStateChanged :: "state_id \<Rightarrow> ('x, 'r, 'v) hiplayer \<Rightarrow> ('x, 'r, 'v) hiplayer" where
  "OnStateChanged st s =
     (let s1 = UpdateStateNoLock (TransStateId2PlayerState st) s in s1\<lparr>hp_notified := hp_notified s1 + 1\<rparr>)"

definition error_unless :: "error_code \<Rightarrow> ('x, 'r, 'v) hiplayer \<Rightarrow> ('x, 'r, 'v) hiplayer" where
  "error_unless ret s = (if ret \<noteq> EC_SUCCESS then UpdateStateNoLock PLAYER_STATE_ERROR s else s)"

definition hi_SetObs :: "('x, 'r, 'v) hiplayer \<Rightarrow> mserr \<times> ('x, 'r, 'v) hiplayer" where
  "hi_SetObs s = (MSERR_OK, s\<lparr>hp_started := True\<rparr>)"

section \<open>Volume\<close>

definition SetVolumeToSink ::
  "('x, 'v) engine \<Rightarrow> 'v \<Rightarrow> bool \<Rightarrow> ('x, 'r, 'v) hiplayer \<Rightarrow> error_code \<times> ('x, 'r, 'v) hiplayer"
where
  "SetVolumeToSink E volume reportUpward s =
     (case (if vo_set E (hp_volume s)
            then case en_SetVolume E volume (hp_world s) of (ret, x) \<Rightarrow> (ret, s\<lparr>hp_world := x\<rparr>)
            else (EC_SUCCESS, s)) of
        (ret, s1) \<Rightarrow>
          (ret, if ret \<noteq> EC_SUCCESS then tell (PLAYER_ERROR (TransErrorCode ret)) s1
                else if reportUpward then tell (VOLUME_CHANGE (vo_to_int32 E volume)) s1 else s1))"

definition hi_SetVolume ::
  "('x, 'v) engine \<Rightarrow> 'v \<Rightarrow> 'v \<Rightarrow> ('x, 'r, 'v) hiplayer \<Rightarrow> mserr \<times> ('x, 'r, 'v) hiplayer"
where
  "hi_SetVolume E leftVolume rightVolume s =
     (if \<not> vo_inRange E leftVolume \<or> \<not> vo_inRange E rightVolume then (TransErrorCode EC_ERROR_INVALID_PARAMETER_VALUE, s)
      else let volume = vo_normal E
                 (if vo_tiny E leftVolume \<and> \<not> vo_tiny E rightVolume then rightVolume
                  else if vo_tiny E rightVolume \<and> \<not> vo_tiny E leftVolume then leftVolume
                  else vo_mean E leftVolume rightVolume);
               s1 = s\<lparr>hp_volume := volume\<rparr>
           in if hp_state s1 \<in> {PLAYER_IDLE, PLAYER_INITIALIZED, PLAYER_PREPARING, PLAYER_STOPPED}
              then (TransErrorCode EC_SUCCESS, s1)
              else case SetVolumeToSink E volume True s1 of (ret, s2) \<Rightarrow> (TransErrorCode ret, s2))"

section \<open>Events\<close>

definition longest :: "int \<Rightarrow> bool \<Rightarrow> int option list \<Rightarrow> int \<times> bool" where
  "longest duration found ds =
     fold (\<lambda>d (m, f). case d of Some tmp \<Rightarrow> (max m tmp, True) | None \<Rightarrow> (m, f)) ds (duration, found)"

definition hi_DoOnReady :: "('x, 'v) engine \<Rightarrow> ('x, 'r, 'v) hiplayer \<Rightarrow> error_code \<times> ('x, 'r, 'v) hiplayer" where
  "hi_DoOnReady E s =
     (let s1 = snd (SetVolumeToSink E (hp_volume s) False s);
          (d0, f0) = (case en_globalDuration E (hp_world s1) of Some d \<Rightarrow> (d, True) | None \<Rightarrow> (0, False));
          (duration, found) = longest d0 f0 (en_streamDurations E (hp_world s1));
          s2 = (if found then tell (DURATION_UPDATE (to_i32 (HstTime2Ms duration))) (s1\<lparr>hp_duration := duration\<rparr>) else s1);
          (ret, vBitRates) = en_bitRates E (hp_world s2)
      in (EC_SUCCESS, if ret = EC_SUCCESS \<and> vBitRates \<noteq> [] then tell (BITRATE_COLLECT vBitRates) s2 else s2))"

definition HandleReadyEvent :: "('x, 'v) engine \<Rightarrow> ('x, 'r, 'v) hiplayer \<Rightarrow> ('x, 'r, 'v) hiplayer" where
  "HandleReadyEvent E s =
     (case hi_DoOnReady E s of (errorCode, s1) \<Rightarrow>
        if errorCode = EC_SUCCESS then tell (POSITION_UPDATE 0) (OnStateChanged ST_READY s1) else OnStateChanged ST_INIT s1)"

definition hi_DoOnError :: "error_code \<Rightarrow> ('x, 'r, 'v) hiplayer \<Rightarrow> ('x, 'r, 'v) hiplayer" where
  "hi_DoOnError errorCode s = tell (PLAYER_ERROR (TransErrorCode errorCode)) (UpdateStateNoLock PLAYER_STATE_ERROR s)"

definition HandleErrorEvent :: "error_code option \<Rightarrow> ('x, 'r, 'v) hiplayer \<Rightarrow> ('x, 'r, 'v) hiplayer" where
  "HandleErrorEvent param s = hi_DoOnError (case param of Some e \<Rightarrow> e | None \<Rightarrow> EC_ERROR_UNKNOWN) s"

definition hi_DoOnComplete :: "('x, 'r, 'v) hiplayer \<Rightarrow> ('x, 'r, 'v) hiplayer" where
  "hi_DoOnComplete s =
     (let s1 = (if hp_loop s then tell EOS_MESSAGE s else ask [L_StopReport, L_ManualReport] (OnStateChanged ST_EOS s))
      in s1\<lparr>hp_stats := ResetEventCompleteAllReceived (hp_stats s1)\<rparr>)"

definition HandleCompleteEvent :: "string \<Rightarrow> ('x, 'r, 'v) hiplayer \<Rightarrow> ('x, 'r, 'v) hiplayer" where
  "HandleCompleteEvent src s =
     (let s1 = s\<lparr>hp_stats := ms_ReceiveComplete src (hp_stats s)\<rparr>
      in if IsEventCompleteAllReceived (hp_stats s1) then hi_DoOnComplete s1 else s1)"

definition HandlePluginErrorEvent :: "bool option \<Rightarrow> ('x, 'r, 'v) hiplayer \<Rightarrow> ('x, 'r, 'v) hiplayer" where
  "HandlePluginErrorEvent client s =
     (case client of None \<Rightarrow> s
      | Some True \<Rightarrow> tell (PLAYER_ERROR MSERR_NETWORK_TIMEOUT) s
      | Some False \<Rightarrow> tell (PLAYER_ERROR_UNKNOWN MSERR_UNKNOWN) s)"

fun hi_OnEvent :: "('x, 'v) engine \<Rightarrow> hi_event \<Rightarrow> ('x, 'r, 'v) hiplayer \<Rightarrow> ('x, 'r, 'v) hiplayer" where
  "hi_OnEvent E (HE_ERROR param) s = HandleErrorEvent param s"
| "hi_OnEvent E HE_READY s = HandleReadyEvent E s"
| "hi_OnEvent E (HE_COMPLETE src) s = HandleCompleteEvent src s"
| "hi_OnEvent E (HE_PLUGIN_ERROR client) s = HandlePluginErrorEvent client s"
| "hi_OnEvent E (HE_RESOLUTION_CHANGE w h) s = (tell (RESOLUTION_CHANGE w h) s)\<lparr>hp_width := w, hp_height := h\<rparr>"
| "hi_OnEvent E (HE_AUDIO_INTERRUPT t f h) s = tell (INTERRUPT_EVENT t f h) s"
| "hi_OnEvent E (HE_AUDIO_STATE_CHANGE paused) s = (if paused then tell (STATE_CHANGE_BY_AUDIO PLAYER_PAUSED) s else s)"
| "hi_OnEvent E HE_PLUGIN_EVENT s = s"
| "hi_OnEvent E HE_VIDEO_RENDERING_START s = tell RENDERING_START s"
| "hi_OnEvent E HE_IS_LIVE_STREAM s = tell LIVE_STREAM s"
| "hi_OnEvent E HE_UNKNOWN s = s"

definition OnEvents :: "('x, 'v) engine \<Rightarrow> hi_event list \<Rightarrow> ('x, 'r, 'v) hiplayer \<Rightarrow> ('x, 'r, 'v) hiplayer" where
  "OnEvents E es s = fold (hi_OnEvent E) es s"

text \<open>A call of the pipeline; the events it reports are handled meanwhile.\<close>

definition pipeline_pass ::
  "('x, 'v) engine \<Rightarrow> pass \<Rightarrow> ('x, 'r, 'v) hiplayer \<Rightarrow> error_code \<times> ('x, 'r, 'v) hiplayer"
where
  "pipeline_pass E p s = (case en_pass E p (hp_world s) of (ret, es, x) \<Rightarrow> (ret, OnEvents E es (s\<lparr>hp_world := x\<rparr>)))"

section \<open>Operations\<close>

definition hi_Init :: "('x, 'v) engine \<Rightarrow> ('x, 'r, 'v) hiplayer \<Rightarrow> error_code \<times> ('x, 'r, 'v) hiplayer" where
  "hi_Init E s0 =
     (let s = s0\<lparr>hp_stats := []\<rparr>
      in if hp_initialized s then (EC_SUCCESS, s)
         else case en_AddFilters E (hp_world s) of (ret1, x1) \<Rightarrow>
              case (if ret1 = EC_SUCCESS then en_LinkFilters E x1 else (ret1, x1)) of (ret, x2) \<Rightarrow>
                if ret = EC_SUCCESS then (ret, s\<lparr>hp_world := x2, hp_initialized := True\<rparr>)
                else (ret, UpdateStateNoLock PLAYER_STATE_ERROR (s\<lparr>hp_world := en_RemoveFilterChain E x2\<rparr>)))"

definition hi_DoSetSource ::
  "('x, 'v) engine \<Rightarrow> string option \<Rightarrow> ('x, 'r, 'v) hiplayer \<Rightarrow> error_code \<times> ('x, 'r, 'v) hiplayer"
where
  "hi_DoSetSource E source s =
     (case en_SetSource E source (hp_world s) of (ret, x) \<Rightarrow> (ret, error_unless ret (s\<lparr>hp_world := x\<rparr>)))"

text \<open>From a uri, and from a data source (\<open>None\<close>).\<close>

definition hi_SetSource ::
  "('x, 'v) engine \<Rightarrow> string option \<Rightarrow> ('x, 'r, 'v) hiplayer \<Rightarrow> mserr \<times> ('x, 'r, 'v) hiplayer"
where
  "hi_SetSource E source s =
     (case hi_Init E s of (ret0, s1) \<Rightarrow>
      case (if ret0 = EC_SUCCESS
            then case hi_DoSetSource E source s1 of (ret, s2) \<Rightarrow>
                   (ret, case source of Some uri \<Rightarrow> s2\<lparr>hp_url := uri\<rparr> | None \<Rightarrow> s2)
            else (ret0, s1)) of (ret, s2) \<Rightarrow>
        (TransErrorCode ret, if ret \<noteq> EC_SUCCESS then s2 else OnStateChanged ST_INIT s2))"

definition hi_PrepareFilters :: "('x, 'v) engine \<Rightarrow> ('x, 'r, 'v) hiplayer \<Rightarrow> error_code \<times> ('x, 'r, 'v) hiplayer" where
  "hi_PrepareFilters E s = (case pipeline_pass E P_Prepare s of (ret, s1) \<Rightarrow> (ret, error_unless ret s1))"

text \<open>
  The wait of \<open>Prepare\<close>: the state is looked at when the wait begins and each time \<open>cond_\<close> was
  notified (\<open>awake\<close>); asleep, the thread leaves the events to the others. An event that changes the
  state without a notification, an error for one, does not wake it.
\<close>

fun wait_prepared ::
  "('x, 'v) engine \<Rightarrow> bool \<Rightarrow> hi_event list \<Rightarrow> ('x, 'r, 'v) hiplayer \<Rightarrow> ('x, 'r, 'v) hiplayer option"
where
  "wait_prepared E awake env s =
     (if awake \<and> hp_state s \<noteq> PLAYER_PREPARING then Some s
      else case env of [] \<Rightarrow> None
           | e # es \<Rightarrow> let t = hi_OnEvent E e s in wait_prepared E (hp_notified t \<noteq> hp_notified s) es t)"

definition may_prepare :: "('x, 'r, 'v) hiplayer \<Rightarrow> bool" where
  "may_prepare s \<longleftrightarrow> hp_state s = PLAYER_INITIALIZED \<or> hp_state s = PLAYER_STOPPED"

text \<open>What \<open>Prepare\<close> and \<open>PrepareAsync\<close> begin with.\<close>

definition begin_prepare :: "('x, 'v) engine \<Rightarrow> ('x, 'r, 'v) hiplayer \<Rightarrow> error_code \<times> ('x, 'r, 'v) hiplayer" where
  "begin_prepare E s =
     (let s1 = (if hp_state s = PLAYER_STOPPED then snd (hi_SetSource E (Some (hp_url s)) s) else s)
      in hi_PrepareFilters E (tell (BUFFERING_UPDATE True) s1))"

definition hi_Prepare ::
  "('x, 'v) engine \<Rightarrow> hi_event list \<Rightarrow> ('x, 'r, 'v) hiplayer \<Rightarrow> (mserr \<times> ('x, 'r, 'v) hiplayer) option"
where
  "hi_Prepare E env s =
     (if \<not> may_prepare s then Some (MSERR_INVALID_OPERATION, s)
      else case begin_prepare E s of (ret, s1) \<Rightarrow>
        if ret \<noteq> EC_SUCCESS then Some (TransErrorCode ret, s1)
        else case wait_prepared E True env (OnStateChanged ST_PREPARING s1) of None \<Rightarrow> None
        | Some s2 \<Rightarrow>
            if hp_state s2 = PLAYER_PREPARED
            then Some (MSERR_OK, tell (POSITION_UPDATE 0) (tell (BUFFERING_UPDATE False) s2))
            else Some (TransErrorCode EC_ERROR_UNKNOWN, s2))"

definition hi_PrepareAsync :: "('x, 'v) engine \<Rightarrow> ('x, 'r, 'v) hiplayer \<Rightarrow> mserr \<times> ('x, 'r, 'v) hiplayer" where
  "hi_PrepareAsync E s =
     (if \<not> may_prepare s then (MSERR_INVALID_OPERATION, s)
      else case begin_prepare E s of (ret, s1) \<Rightarrow>
        (TransErrorCode ret, tell (BUFFERING_UPDATE False) (OnStateChanged ST_PREPARING s1)))"

definition hi_DoPlay :: "('x, 'v) engine \<Rightarrow> int \<Rightarrow> ('x, 'r, 'v) hiplayer \<Rightarrow> error_code \<times> ('x, 'r, 'v) hiplayer" where
  "hi_DoPlay E now s =
     (case pipeline_pass E P_Start (s\<lparr>hp_sync := snd (sm_Resume now (hp_sync s))\<rparr>) of (ret, s1) \<Rightarrow> (ret, error_unless ret s1))"

definition hi_DoResume :: "('x, 'v) engine \<Rightarrow> int \<Rightarrow> ('x, 'r, 'v) hiplayer \<Rightarrow> error_code \<times> ('x, 'r, 'v) hiplayer" where
  "hi_DoResume E now s =
     (case pipeline_pass E P_Resume (s\<lparr>hp_sync := snd (sm_Resume now (hp_sync s))\<rparr>) of (ret, s1) \<Rightarrow> (ret, error_unless ret s1))"

definition hi_DoPause ::
  "('x, 'v) engine \<Rightarrow> 'r time_arith \<Rightarrow> int \<Rightarrow> ('x, 'r, 'v) hiplayer \<Rightarrow> error_code \<times> ('x, 'r, 'v) hiplayer"
where
  "hi_DoPause E A now s =
     (case pipeline_pass E P_Pause s of (ret, s1) \<Rightarrow>
        (ret, error_unless ret (s1\<lparr>hp_sync := snd (sm_Pause A now (hp_sync s1))\<rparr>)))"

definition hi_DoStop ::
  "('x, 'v) engine \<Rightarrow> 'r time_arith \<Rightarrow> ('x, 'r, 'v) hiplayer \<Rightarrow> error_code \<times> ('x, 'r, 'v) hiplayer"
where
  "hi_DoStop E A s =
     (case pipeline_pass E P_Stop (s\<lparr>hp_stats := [], hp_world := en_StopTask E (hp_world s)\<rparr>) of (ret, s1) \<Rightarrow>
        (ret, error_unless ret (s1\<lparr>hp_sync := snd (sm_Reset A (hp_sync s1))\<rparr>)))"

definition hi_DoSeek ::
  "('x, 'v) engine \<Rightarrow> int \<Rightarrow> seek_mode \<Rightarrow> ('x, 'r, 'v) hiplayer \<Rightarrow> error_code \<times> ('x, 'r, 'v) hiplayer"
where
  "hi_DoSeek E seekTime mode s =
     (case (if seekTime \<ge> 0
            then let s1 = snd (pipeline_pass E P_FlushStart s)
                 in case en_SeekToTime E seekTime (hp_world s1) of (r1, x1) \<Rightarrow>
                    case (if r1 \<noteq> EC_SUCCESS then en_SeekTo E seekTime mode seekTime x1 else (r1, seekTime, x1)) of (rtv, realSeekTime, x2) \<Rightarrow>
                      let s2 = s1\<lparr>hp_world := x2\<rparr>;
                          s3 = (if rtv = EC_SUCCESS then s2\<lparr>hp_sync := snd (sm_Seek realSeekTime (hp_sync s2))\<rparr> else s2)
                      in (rtv, snd (pipeline_pass E P_FlushEnd s3))
            else (EC_ERROR_INVALID_OPERATION, s)) of
        (rtv, s4) \<Rightarrow>
          (rtv, if rtv \<noteq> EC_SUCCESS then tell (PLAYER_ERROR MSERR_SEEK_FAILED) s4
                else let currentPos = to_i32 (HstTime2Ms seekTime)
                     in tell (POSITION_UPDATE currentPos) (tell (SEEKDONE currentPos) s4)))"

definition hi_Play :: "('x, 'v) engine \<Rightarrow> int \<Rightarrow> ('x, 'r, 'v) hiplayer \<Rightarrow> mserr \<times> ('x, 'r, 'v) hiplayer" where
  "hi_Play E now s0 =
     (let s = ask [L_StartReport 100] s0
      in case (if hp_state s = PLAYER_PLAYBACK_COMPLETE then hi_DoSeek E 0 SEEK_PREVIOUS_SYNC s
               else if hp_state s = PLAYER_PAUSED then hi_DoResume E now s
               else hi_DoPlay E now s) of
           (ret, s1) \<Rightarrow> (TransErrorCode ret, if ret = EC_SUCCESS then OnStateChanged ST_PLAYING s1 else s1))"

definition hi_Pause ::
  "('x, 'v) engine \<Rightarrow> 'r time_arith \<Rightarrow> int \<Rightarrow> ('x, 'r, 'v) hiplayer \<Rightarrow> mserr \<times> ('x, 'r, 'v) hiplayer"
where
  "hi_Pause E A now s =
     (case hi_DoPause E A now s of (ret, s1) \<Rightarrow>
        (TransErrorCode ret, OnStateChanged ST_PAUSE (ask [L_StopReport, L_ManualReport] s1)))"

definition hi_Stop ::
  "('x, 'v) engine \<Rightarrow> 'r time_arith \<Rightarrow> ('x, 'r, 'v) hiplayer \<Rightarrow> mserr \<times> ('x, 'r, 'v) hiplayer"
where
  "hi_Stop E A s =
     (if hp_state s = PLAYER_STOPPED then (TransErrorCode EC_SUCCESS, s)
      else case hi_DoStop E A s of (ret, s1) \<Rightarrow>
        (TransErrorCode ret, ask [L_StopReport, L_ManualReport] (OnStateChanged ST_STOPPED s1)))"

definition hi_Reset ::
  "('x, 'v) engine \<Rightarrow> 'r time_arith \<Rightarrow> ('x, 'r, 'v) hiplayer \<Rightarrow> mserr \<times> ('x, 'r, 'v) hiplayer"
where
  "hi_Reset E A s =
     (if hp_state s = PLAYER_STOPPED then (TransErrorCode EC_SUCCESS, s)
      else case hi_DoStop E A (s\<lparr>hp_loop := False, hp_stats := []\<rparr>) of (ret, s1) \<Rightarrow>
        (TransErrorCode ret, OnStateChanged ST_STOPPED s1))"

definition hi_GetDuration :: "('x, 'r, 'v) hiplayer \<Rightarrow> mserr \<times> int" where
  "hi_GetDuration s =
     (if hp_state s = PLAYER_IDLE \<or> hp_state s = PLAYER_PREPARING then (MSERR_INVALID_STATE, 0)
      else if hp_duration s < 0 then (MSERR_UNKNOWN, -1)
      else (MSERR_OK, to_i32 (HstTime2Ms (hp_duration s))))"

definition hi_GetCurrentTime :: "'r time_arith \<Rightarrow> int \<Rightarrow> ('x, 'r, 'v) hiplayer \<Rightarrow> mserr \<times> int" where
  "hi_GetCurrentTime A now s = (MSERR_OK, to_i32 (HstTime2Ms (GetMediaTimeNow A now (hp_sync s))))"

definition hi_Seek ::
  "('x, 'v) engine \<Rightarrow> int \<Rightarrow> player_seek_mode \<Rightarrow> ('x, 'r, 'v) hiplayer \<Rightarrow> mserr \<times> ('x, 'r, 'v) hiplayer"
where
  "hi_Seek E mSeconds mode s =
     (case hi_GetDuration s of (code, durationMs) \<Rightarrow>
        if code \<noteq> MSERR_OK then (code, s)
        else let ms1 = (if mSeconds \<ge> durationMs then durationMs else mSeconds);
                 ms2 = (if ms1 < 0 then 0 else ms1)
             in if \<not> en_seekable E (hp_world s) then (MSERR_INVALID_OPERATION, s)
                else case Ms2HstTime ms2 of
                  None \<Rightarrow> (TransErrorCode EC_ERROR_INVALID_PARAMETER_VALUE, s)
                | Some hstTime \<Rightarrow>
                    (case hi_DoSeek E hstTime (Transform2SeekMode mode) s of (ret, s1) \<Rightarrow> (TransErrorCode ret, s1)))"

definition hi_SetLooping :: "bool \<Rightarrow> ('x, 'r, 'v) hiplayer \<Rightarrow> mserr \<times> ('x, 'r, 'v) hiplayer" where
  "hi_SetLooping loop s = (TransErrorCode EC_SUCCESS, s\<lparr>hp_loop := loop\<rparr>)"

definition hi_SetPlaybackSpeed ::
  "('x, 'v) engine \<Rightarrow> 'r time_arith \<Rightarrow> int \<Rightarrow> 'v \<Rightarrow> ('x, 'r, 'v) hiplayer \<Rightarrow> mserr \<times> ('x, 'r, 'v) hiplayer"
where
  "hi_SetPlaybackSpeed E A now speed s =
     (let s1 = tell SPEEDDONE (s\<lparr>hp_world := en_SetSpeed E speed (hp_world s)\<rparr>)
      in case hi_GetDuration s1 of (code, durationMs) \<Rightarrow>
           if code \<noteq> MSERR_OK then (code, s1)
           else let pos = min (snd (hi_GetCurrentTime A now s1)) durationMs
                in (MSERR_OK, tell (POSITION_UPDATE (if pos < 0 then 0 else pos)) s1))"

definition hi_SelectBitRate :: "('x, 'v) engine \<Rightarrow> u32 \<Rightarrow> ('x, 'r, 'v) hiplayer \<Rightarrow> mserr \<times> ('x, 'r, 'v) hiplayer" where
  "hi_SelectBitRate E bitRate s =
     (let s1 = snd (pipeline_pass E P_FlushStart s)
      in case en_SelectBitRate E (uint bitRate) (hp_world s1) of (ret, x) \<Rightarrow>
           (TransErrorCode ret, snd (pipeline_pass E P_FlushEnd (s1\<lparr>hp_world := x\<rparr>))))"

end
