(* ===== verification/Filter_Graph.thy ===== *)
theory Filter_Graph
  imports Hst_Prelude
begin

text \<open>
  Filters, their ports and the links between them (engine/pipeline/core/port.cpp and
  filter_base.cpp), and \<open>ReorderFilters\<close> of engine/pipeline/core/pipeline_core.cpp, which sorts the
  filters of a pipeline along the links.

  Ports and filters are indices into the lists of a graph. The empty port that \<open>GetInPort\<close> and
  \<open>GetOutPort\<close> answer for an unknown name is \<open>None\<close>; connecting an in-port to it leaves the in-port
  without an owner behind its peer, so it is no link. Ports live as long as the graph.
\<close>

section \<open>Ports and links\<close>

record port =
  pt_owner :: nat
  pt_name :: string
  pt_peer :: "nat option"

record fnode =
  ft_in :: "nat list"
  ft_out :: "nat list"
  ft_pipeline :: "nat option"

record graph =
  gr_ports :: "port list"
  gr_filters :: "fnode list"

definition PORT_NAME_DEFAULT :: string where "PORT_NAME_DEFAULT = ''default''"

definition FindPort :: "graph \<Rightarrow> nat list \<Rightarrow> string \<Rightarrow> nat option" where
  "FindPort g ports name = find (\<lambda>p. pt_name (gr_ports g ! p) = name) ports"

definition GetInPort :: "graph \<Rightarrow> nat \<Rightarrow> string \<Rightarrow> nat option" where
  "GetInPort g f name = FindPort g (ft_in (gr_filters g ! f)) name"

definition GetOutPort :: "graph \<Rightarrow> nat \<Rightarrow> string \<Rightarrow> nat option" where
  "GetOutPort g f name = FindPort g (ft_out (gr_filters g ! f)) name"

definition GetPeerPort :: "graph \<Rightarrow> nat \<Rightarrow> nat option" where
  "GetPeerPort g p = pt_peer (gr_ports g ! p)"

definition set_peer :: "nat \<Rightarrow> nat option \<Rightarrow> graph \<Rightarrow> graph" where
  "set_peer p q g = g\<lparr>gr_ports := (gr_ports g)[p := (gr_ports g ! p)\<lparr>pt_peer := q\<rparr>]\<rparr>"

definition InPort_Connect :: "nat option \<Rightarrow> nat option \<Rightarrow> graph \<Rightarrow> error_code \<times> graph" where
  "InPort_Connect p q g = (EC_SUCCESS, case p of None \<Rightarrow> g | Some i \<Rightarrow> set_peer i q g)"

definition InSamePipeline :: "graph \<Rightarrow> nat \<Rightarrow> nat option \<Rightarrow> bool" where
  "InSamePipeline g p q =
     (case q of None \<Rightarrow> False
      | Some j \<Rightarrow>
        let pipeline1 = ft_pipeline (gr_filters g ! pt_owner (gr_ports g ! p));
            pipeline2 = ft_pipeline (gr_filters g ! pt_owner (gr_ports g ! j))
        in pipeline1 \<noteq> None \<and> pipeline2 \<noteq> None \<and> pipeline1 = pipeline2)"

definition OutPort_Connect :: "nat option \<Rightarrow> nat option \<Rightarrow> graph \<Rightarrow> error_code \<times> graph" where
  "OutPort_Connect p q g =
     (case p of None \<Rightarrow> (EC_SUCCESS, g)
      | Some i \<Rightarrow> if InSamePipeline g i q then (EC_SUCCESS, set_peer i q g)
                  else (EC_ERROR_INVALID_PARAMETER_VALUE, g))"

definition Disconnect :: "nat \<Rightarrow> graph \<Rightarrow> graph" where
  "Disconnect p g = set_peer p None g"

definition peer_owner :: "graph \<Rightarrow> nat \<Rightarrow> nat option" where
  "peer_owner g p = map_option (\<lambda>q. pt_owner (gr_ports g ! q)) (GetPeerPort g p)"

definition GetNextFilters :: "graph \<Rightarrow> nat \<Rightarrow> nat list" where
  "GetNextFilters g f = List.map_filter (peer_owner g) (ft_out (gr_filters g ! f))"

definition GetPreFilters :: "graph \<Rightarrow> nat \<Rightarrow> nat list" where
  "GetPreFilters g f = List.map_filter (peer_owner g) (ft_in (gr_filters g ! f))"

definition unlink_port :: "nat \<Rightarrow> graph \<Rightarrow> graph" where
  "unlink_port p g =
     (let peer = GetPeerPort g p; g1 = Disconnect p g
      in case peer of None \<Rightarrow> g1 | Some q \<Rightarrow> Disconnect q g1)"

definition UnlinkPrevFilters :: "nat \<Rightarrow> graph \<Rightarrow> graph" where
  "UnlinkPrevFilters f g = fold unlink_port (ft_in (gr_filters g ! f)) g"

definition LinkPorts :: "nat option \<Rightarrow> nat option \<Rightarrow> graph \<Rightarrow> error_code \<times> graph" where
  "LinkPorts port1 port2 g =
     (case OutPort_Connect port1 port2 g of (ec, g1) \<Rightarrow>
        if ec \<noteq> EC_SUCCESS then (ec, g1)
        else (case InPort_Connect port2 port1 g1 of (ec2, g2) \<Rightarrow> if ec2 \<noteq> EC_SUCCESS then (ec2, g2) else (EC_SUCCESS, g2)))"

fun LinkFilters :: "nat list \<Rightarrow> graph \<Rightarrow> error_code \<times> graph" where
  "LinkFilters (f # h # fs) g =
     (let out = GetOutPort g f PORT_NAME_DEFAULT; inp = GetInPort g h PORT_NAME_DEFAULT;
          g1 = snd (OutPort_Connect out inp g);
          g2 = snd (InPort_Connect inp out g1)
      in LinkFilters (h # fs) g2)"
| "LinkFilters _ g = (EC_SUCCESS, g)"

section \<open>Sorting along the links\<close>

text \<open>
  \<open>ConstructGraph\<close>: a node per filter, in the filters' order, with the number of its predecessors
  and the indices of its successors, and the stack of the filters without predecessors.
  \<open>mapInfo\<close> is a \<open>std::map\<close> whose \<open>operator[]\<close> answers 0 for a filter it does not know; the index
  of a filter that is there twice is the later one.
\<close>

fun last_index :: "nat \<Rightarrow> 'f \<Rightarrow> 'f list \<Rightarrow> nat option" where
  "last_index i f [] = None"
| "last_index i f (x # xs) =
     (case last_index (Suc i) f xs of Some j \<Rightarrow> Some j | None \<Rightarrow> if x = f then Some i else None)"

definition mapInfo :: "'f list \<Rightarrow> 'f \<Rightarrow> nat" where
  "mapInfo fs f = (case last_index 0 f fs of Some i \<Rightarrow> i | None \<Rightarrow> 0)"

definition ConstructGraph ::
  "('f \<Rightarrow> 'f list) \<Rightarrow> ('f \<Rightarrow> 'f list) \<Rightarrow> 'f list \<Rightarrow> u64 list \<times> nat list list \<times> nat list"
where
  "ConstructGraph pre nxt fs =
     (map (\<lambda>f. of_nat (length (pre f))) fs,
      fold (\<lambda>f nexts. nexts[mapInfo fs f := nexts ! mapInfo fs f @ map (mapInfo fs) (nxt f)])
        fs (map (\<lambda>_. []) fs),
      rev (filter (\<lambda>i. pre (fs ! i) = []) [0..<length fs]))"

text \<open>One successor of the node on top of the stack; the stack's top is the head of the list.\<close>

definition visit_next :: "nat \<Rightarrow> u64 list \<times> nat list \<Rightarrow> u64 list \<times> nat list" where
  "visit_next idx s =
     (case s of (deg, stack) \<Rightarrow>
        let d = deg ! idx - 1 in (deg[idx := d], if d = 0 then idx # stack else stack))"

text \<open>The loop of \<open>ReorderFilters\<close>; a graph that is not consistent could keep it busy for ever.\<close>

partial_function (option) reorder_loop :: "nat list list \<Rightarrow> u64 list \<Rightarrow> nat list \<Rightarrow> nat list \<Rightarrow> nat list option" where
  "reorder_loop nexts deg stack result =
     (case stack of [] \<Rightarrow> Some result
      | cur # rest \<Rightarrow>
          (case fold visit_next (nexts ! cur) (deg, rest) of (deg1, stack1) \<Rightarrow>
             reorder_loop nexts deg1 stack1 (result @ [cur])))"

definition ReorderFilters :: "('f \<Rightarrow> 'f list) \<Rightarrow> ('f \<Rightarrow> 'f list) \<Rightarrow> 'f list \<Rightarrow> 'f list option" where
  "ReorderFilters pre nxt fs =
     (case ConstructGraph pre nxt fs of (deg, nexts, stack) \<Rightarrow>
        map_option (\<lambda>result. if length result = length fs then map (\<lambda>i. fs ! i) result else fs)
          (reorder_loop nexts deg stack []))"

end
