(* ===== verification/Filter_Graph_Props.thy ===== *)
theory Filter_Graph_Props
  imports Filter_Graph "HOL-Library.Multiset"
begin

text \<open>
  \<open>ReorderFilters\<close> is a topological sort: on consistent links it ends, keeps the filters, and puts
  every filter behind those it gets data from, or leaves the order alone when the links have a
  cycle. Linking and unlinking keep links consistent.
\<close>

section \<open>One node\<close>

lemma visit_all:
  assumes "\<forall>v \<in> set vs. v < length deg" "\<forall>v < length deg. count_list vs v \<le> unat (deg ! v)"
  obtains deg' new where "fold visit_next vs (deg, stack) = (deg', new @ stack)" "length deg' = length deg"
    "\<forall>v < length deg. unat (deg' ! v) = unat (deg ! v) - count_list vs v"
    "distinct new" "set new = {v \<in> set vs. deg' ! v = 0}"
  using assms
proof (induction vs arbitrary: deg stack thesis)
  case Nil
  show ?case by (rule Nil.prems(1) [of deg "[]"]) simp_all
next
  case (Cons x vs)
  have x: "x < length deg" and one: "1 \<le> unat (deg ! x)" using Cons.prems(2,3) by (auto dest: spec [of _ x])
  have d: "unat (deg ! x - 1) = unat (deg ! x) - 1" using one by (metis unat_1 unat_minus_no_wrap)
  let ?deg = "deg[x := deg ! x - 1]" and ?stack = "if deg ! x - 1 = 0 then x # stack else stack"
  have cnt: "\<forall>v < length ?deg. count_list vs v \<le> unat (?deg ! v)"
  proof (intro allI impI)
    fix v assume "v < length ?deg"
    then show "count_list vs v \<le> unat (?deg ! v)" using Cons.prems(3) x d one by (cases "v = x") (auto dest!: spec [of _ v])
  qed
  obtain deg' new where r: "fold visit_next vs (?deg, ?stack) = (deg', new @ ?stack)" "length deg' = length ?deg"
    "\<forall>v < length ?deg. unat (deg' ! v) = unat (?deg ! v) - count_list vs v" "distinct new"
    "set new = {v \<in> set vs. deg' ! v = 0}"
    by (rule Cons.IH [OF _ _ cnt]) (use Cons.prems(2) in auto)
  have step: "fold visit_next (x # vs) (deg, stack) = (deg', new @ ?stack)" using r(1) by (simp add: visit_next_def Let_def)
  have deg': "\<forall>v < length deg. unat (deg' ! v) = unat (deg ! v) - count_list (x # vs) v"
  proof (intro allI impI)
    fix v assume v: "v < length deg"
    then have "unat (deg' ! v) = unat (?deg ! v) - count_list vs v" using r(3) by simp
    then show "unat (deg' ! v) = unat (deg ! v) - count_list (x # vs) v" using d one x by (cases "v = x") auto
  qed
  show ?case
  proof (cases "deg ! x - 1 = 0")
    case True
    then have "unat (deg ! x) = 1" using d one by simp
    then have c0: "count_list vs x = 0" and z: "deg' ! x = 0"
      using Cons.prems(3) x deg' by (auto dest!: spec [of _ x] simp: unat_eq_0)
    have nx: "x \<notin> set vs" using c0 by (simp add: count_list_0_iff)
    show ?thesis
      by (rule Cons.prems(1) [of deg' "new @ [x]"]) (use step True r deg' nx z in auto)
  next
    case False
    have "x \<in> set vs" if "deg' ! x = 0"
    proof (rule ccontr)
      assume "x \<notin> set vs"
      then have "unat (deg' ! x) = unat (deg ! x - 1)" using deg' x d by (simp add: count_list_0_iff)
      then show False using that False by (simp add: unat_eq_0)
    qed
    then show ?thesis
      by (intro Cons.prems(1) [of deg' new]) (use step False r deg' in auto)
  qed
qed

section \<open>The loop\<close>

definition edges_in :: "nat list list \<Rightarrow> nat set \<Rightarrow> nat \<Rightarrow> nat" where
  "edges_in nexts us v = (\<Sum>u \<in> us. count_list (nexts ! u) v)"

definition topo_inv :: "nat list list \<Rightarrow> u64 list \<Rightarrow> nat list \<Rightarrow> nat list \<Rightarrow> bool" where
  "topo_inv nexts deg stack result \<longleftrightarrow>
     length deg = length nexts \<and> (\<forall>u < length nexts. set (nexts ! u) \<subseteq> {..<length nexts}) \<and>
     distinct (result @ stack) \<and> set (result @ stack) \<subseteq> {..<length nexts} \<and>
     (\<forall>v < length nexts. unat (deg ! v) = edges_in nexts ({..<length nexts} - set result) v) \<and>
     (\<forall>v < length nexts. v \<in> set (result @ stack) \<longleftrightarrow> deg ! v = 0) \<and>
     (\<forall>i < length result. \<forall>u < length nexts. result ! i \<in> set (nexts ! u) \<longrightarrow> u \<in> set (take i result))"

lemma edges_in_remove:
  "finite us \<Longrightarrow> c \<in> us \<Longrightarrow> edges_in nexts us v = count_list (nexts ! c) v + edges_in nexts (us - {c}) v"
  by (simp add: edges_in_def sum.remove)

lemma edges_in_0: "finite us \<Longrightarrow> edges_in nexts us v = 0 \<longleftrightarrow> (\<forall>u \<in> us. v \<notin> set (nexts ! u))"
  by (simp add: edges_in_def count_list_0_iff)

lemma topo_step:
  assumes inv: "topo_inv nexts deg (cur # rest) result"
  obtains deg1 new where "fold visit_next (nexts ! cur) (deg, rest) = (deg1, new @ rest)"
    "topo_inv nexts deg1 (new @ rest) (result @ [cur])"
proof -
  let ?n = "length nexts" and ?open = "{..<length nexts} - set result"
  have cur: "cur < ?n" "cur \<in> ?open" "cur \<notin> set rest" and len: "length deg = ?n"
    using inv by (auto simp: topo_inv_def)
  have deg: "unat (deg ! v) = count_list (nexts ! cur) v + edges_in nexts (?open - {cur}) v" if "v < ?n" for v
    using inv that edges_in_remove [of ?open cur nexts v] cur(2) by (simp add: topo_inv_def)
  have vs: "\<forall>v \<in> set (nexts ! cur). v < length deg" using inv cur(1) len by (auto simp: topo_inv_def)
  obtain deg1 new where r: "fold visit_next (nexts ! cur) (deg, rest) = (deg1, new @ rest)" "length deg1 = length deg"
    "\<forall>v < length deg. unat (deg1 ! v) = unat (deg ! v) - count_list (nexts ! cur) v" "distinct new"
    "set new = {v \<in> set (nexts ! cur). deg1 ! v = 0}"
    by (rule visit_all [OF vs]) (use deg len in simp_all)
  have zero: "v \<in> set (result @ cur # rest) \<longleftrightarrow> deg ! v = 0" if "v < ?n" for v
    using inv that by (simp add: topo_inv_def)
  have new: "v < ?n \<and> deg ! v \<noteq> 0" if "v \<in> set new" for v
  proof -
    have "v < ?n" "0 < count_list (nexts ! cur) v" using that r(5) vs len by (auto simp: count_list_0_iff simp flip: neq0_conv)
    then show ?thesis using deg [of v] by auto
  qed
  have open1: "{..<?n} - set (result @ [cur]) = ?open - {cur}" by auto
  have "topo_inv nexts deg1 (new @ rest) (result @ [cur])"
    unfolding topo_inv_def
  proof (intro conjI)
    show "length deg1 = ?n" "\<forall>u < ?n. set (nexts ! u) \<subseteq> {..<?n}" using r(2) inv by (simp_all add: topo_inv_def)
    show "distinct ((result @ [cur]) @ new @ rest)"
      using inv r(4) new zero by (auto simp: topo_inv_def)
    show "set ((result @ [cur]) @ new @ rest) \<subseteq> {..<?n}" using inv new by (auto simp: topo_inv_def)
    show "\<forall>v < ?n. unat (deg1 ! v) = edges_in nexts ({..<?n} - set (result @ [cur])) v"
      unfolding open1 using r(3) len deg by simp
    show "\<forall>v < ?n. v \<in> set ((result @ [cur]) @ new @ rest) \<longleftrightarrow> deg1 ! v = 0"
    proof (intro allI impI)
      fix v assume v: "v < ?n"
      have d1: "unat (deg1 ! v) = unat (deg ! v) - count_list (nexts ! cur) v" using r(3) len v by simp
      show "v \<in> set ((result @ [cur]) @ new @ rest) \<longleftrightarrow> deg1 ! v = 0"
      proof (cases "deg ! v = 0")
        case True
        then show ?thesis using zero [OF v] d1 by (auto simp: unat_eq_0)
      next
        case False
        then have "v \<notin> set (result @ cur # rest)" using zero [OF v] by simp
        moreover have "v \<in> set (nexts ! cur)" if "deg1 ! v = 0"
          using that d1 False by (metis count_notin diff_zero unat_eq_0)
        ultimately show ?thesis using r(5) by auto
      qed
    qed
    show "\<forall>i < length (result @ [cur]). \<forall>u < ?n. (result @ [cur]) ! i \<in> set (nexts ! u) \<longrightarrow> u \<in> set (take i (result @ [cur]))"
    proof (intro allI impI)
      fix i u assume i: "i < length (result @ [cur])" and u: "u < ?n" and e: "(result @ [cur]) ! i \<in> set (nexts ! u)"
      show "u \<in> set (take i (result @ [cur]))"
      proof (cases "i < length result")
        case True
        then show ?thesis using inv u e by (simp add: topo_inv_def nth_append)
      next
        case False
        then have c: "cur \<in> set (nexts ! u)" "i = length result" using i e by (simp_all add: nth_append)
        have "unat (deg ! cur) = edges_in nexts ?open cur" using inv cur(1) by (simp add: topo_inv_def)
        moreover have "deg ! cur = 0" using zero [OF cur(1)] by simp
        ultimately have "edges_in nexts ?open cur = 0" by simp
        then have "u \<notin> ?open" using c(1) by (auto simp: edges_in_0)
        then show ?thesis using u c(2) by simp
      qed
    qed
  qed
  with r(1) show thesis by (rule that)
qed

lemma reorder_loop_ends:
  "topo_inv nexts deg stack result \<Longrightarrow>
     \<exists>deg1 result1. reorder_loop nexts deg stack result = Some result1 \<and> topo_inv nexts deg1 [] result1"
proof (induction "length nexts - length result" arbitrary: deg stack result rule: less_induct)
  case less
  show ?case
  proof (cases stack)
    case Nil
    then show ?thesis using less.prems by (auto simp: reorder_loop.simps)
  next
    case (Cons cur rest)
    obtain deg1 new where s: "fold visit_next (nexts ! cur) (deg, rest) = (deg1, new @ rest)"
      "topo_inv nexts deg1 (new @ rest) (result @ [cur])"
      by (rule topo_step [OF less.prems [unfolded Cons]])
    have "set (result @ [cur]) \<subseteq> {..<length nexts}" "distinct (result @ [cur])"
      using s(2) by (auto simp: topo_inv_def)
    then have "length (result @ [cur]) \<le> length nexts" by (metis card_lessThan card_mono distinct_card finite_lessThan)
    then have "length nexts - length (result @ [cur]) < length nexts - length result" by simp
    moreover have "reorder_loop nexts deg stack result = reorder_loop nexts deg1 (new @ rest) (result @ [cur])"
      unfolding Cons by (subst reorder_loop.simps) (simp add: s(1))
    ultimately show ?thesis using less.hyps [OF _ s(2)] by simp
  qed
qed

text \<open>When the stack is empty and the edges have no cycle, every node has been visited.\<close>

lemma topo_complete:
  assumes inv: "topo_inv nexts deg [] result" and ac: "acyclic {(u, v). u < length nexts \<and> v \<in> set (nexts ! u)}"
  shows "length result = length nexts"
proof -
  let ?E = "{(u, v). u < length nexts \<and> v \<in> set (nexts ! u)}"
  have sub: "set result \<subseteq> {..<length nexts}" and dist: "distinct result" using inv by (auto simp: topo_inv_def)
  have "?E \<subseteq> {..<length nexts} \<times> {..<length nexts}" using inv by (auto simp: topo_inv_def)
  then have "finite ?E" by (rule finite_subset) simp
  then have wf: "wf ?E" using ac by (rule finite_acyclic_wf)
  have "{..<length nexts} - set result = {}"
  proof (rule ccontr)
    assume "{..<length nexts} - set result \<noteq> {}"
    then obtain v where v: "v < length nexts" "v \<notin> set result" "\<And>u. (u, v) \<in> ?E \<Longrightarrow> u \<notin> {..<length nexts} - set result"
      using wf [unfolded wf_eq_minimal, rule_format, of _ "{..<length nexts} - set result"] by blast
    have "deg ! v \<noteq> 0" using inv v(1,2) by (simp add: topo_inv_def)
    then have "edges_in nexts ({..<length nexts} - set result) v \<noteq> 0"
      using inv v(1) by (simp add: topo_inv_def unat_eq_0 flip: unat_eq_0)
    then obtain u where "u \<in> {..<length nexts} - set result" "v \<in> set (nexts ! u)" by (auto simp: edges_in_0)
    then show False using v(3) by auto
  qed
  then have "set result = {..<length nexts}" using sub by auto
  then show ?thesis using distinct_card [OF dist] by simp
qed

section \<open>The graph of a list of filters\<close>

text \<open>Links are consistent when every link leads to a filter of the list, and a filter has as many
  predecessors as there are links to it.\<close>

definition consistent :: "('f \<Rightarrow> 'f list) \<Rightarrow> ('f \<Rightarrow> 'f list) \<Rightarrow> 'f list \<Rightarrow> bool" where
  "consistent pre nxt fs \<longleftrightarrow> distinct fs \<and>
     (\<forall>f \<in> set fs. set (nxt f) \<subseteq> set fs \<and> length (pre f) < 2 ^ 64 \<and>
        length (pre f) = (\<Sum>e \<in> set fs. count_list (nxt e) f))"

definition links :: "('f \<Rightarrow> 'f list) \<Rightarrow> 'f list \<Rightarrow> ('f \<times> 'f) set" where
  "links nxt fs = {(f, h). f \<in> set fs \<and> h \<in> set (nxt f)}"

lemma last_index_notin: "f \<notin> set fs \<Longrightarrow> last_index i f fs = None"
  by (induction fs arbitrary: i) auto

lemma last_index_nth: "distinct fs \<Longrightarrow> k < length fs \<Longrightarrow> last_index i (fs ! k) fs = Some (i + k)"
proof (induction fs arbitrary: i k)
  case Nil
  then show ?case by simp
next
  case (Cons x fs)
  then show ?case by (cases k) (simp_all add: last_index_notin)
qed

lemma mapInfo_nth: "distinct fs \<Longrightarrow> k < length fs \<Longrightarrow> mapInfo fs (fs ! k) = k"
  by (simp add: mapInfo_def last_index_nth)

lemma nexts_of:
  assumes "distinct fs"
  shows "fold (\<lambda>f nexts. nexts[mapInfo fs f := nexts ! mapInfo fs f @ map (mapInfo fs) (nxt f)]) fs (map (\<lambda>_. []) fs) =
    map (\<lambda>f. map (mapInfo fs) (nxt f)) fs"
proof -
  let ?step = "\<lambda>f nexts. nexts[mapInfo fs f := nexts ! mapInfo fs f @ map (mapInfo fs) (nxt f)]"
  have "fold ?step (take k fs) (map (\<lambda>_. []) fs) =
      map (\<lambda>f. map (mapInfo fs) (nxt f)) (take k fs) @ map (\<lambda>_. []) (drop k fs)" if "k \<le> length fs" for k
    using that
  proof (induction k)
    case 0
    then show ?case by simp
  next
    case (Suc k)
    then have k: "k < length fs" by simp
    then have d: "drop k fs = fs ! k # drop (Suc k) fs" by (rule Cons_nth_drop_Suc [symmetric])
    show ?case using Suc.IH k
      by (simp add: take_Suc_conv_app_nth mapInfo_nth [OF assms] nth_append list_update_append d)
  qed
  from this [of "length fs"] show ?thesis by simp
qed

lemma count_list_map_inj: "inj_on h A \<Longrightarrow> set xs \<subseteq> A \<Longrightarrow> x \<in> A \<Longrightarrow> count_list (map h xs) (h x) = count_list xs x"
  by (induction xs) (auto simp: inj_on_def)

lemma ConstructGraph_inv:
  assumes c: "consistent pre nxt fs"
  obtains deg nexts stack where "ConstructGraph pre nxt fs = (deg, nexts, stack)" "topo_inv nexts deg stack []"
    "nexts = map (\<lambda>f. map (mapInfo fs) (nxt f)) fs"
proof -
  have dist: "distinct fs" using c by (simp add: consistent_def)
  let ?nexts = "map (\<lambda>f. map (mapInfo fs) (nxt f)) fs" and ?deg = "map (\<lambda>f. of_nat (length (pre f)) :: u64) fs"
  let ?stack = "rev (filter (\<lambda>i. pre (fs ! i) = []) [0..<length fs])"
  have inj: "inj_on (mapInfo fs) (set fs)"
    by (metis (no_types, lifting) dist in_set_conv_nth inj_onI mapInfo_nth)
  have deg: "unat (?deg ! v) = length (pre (fs ! v))" if "v < length fs" for v
  proof -
    have "length (pre (fs ! v)) < 2 ^ 64" using c that unfolding consistent_def by (metis nth_mem)
    then show ?thesis using that by (simp del: of_nat_sum)
  qed
  have bij: "(\<Sum>e \<in> set fs. h e) = (\<Sum>u < length fs. h (fs ! u))" for h :: "_ \<Rightarrow> nat"
    using sum.reindex [of "\<lambda>u. fs ! u" "{..<length fs}" h] dist
    by (simp add: nth_image [of "length fs" fs, simplified] inj_on_nth atLeast0LessThan [symmetric])
  have "topo_inv ?nexts ?deg ?stack []"
    unfolding topo_inv_def
  proof (intro conjI)
    show "length ?deg = length ?nexts" by simp
    show "\<forall>u < length ?nexts. set (?nexts ! u) \<subseteq> {..<length ?nexts}"
    proof (intro allI impI)
      fix u assume u: "u < length ?nexts"
      then have "set (nxt (fs ! u)) \<subseteq> set fs" using c by (simp add: consistent_def)
      then show "set (?nexts ! u) \<subseteq> {..<length ?nexts}"
        using u mapInfo_nth [OF dist] by (force simp: in_set_conv_nth)
    qed
    show "distinct ([] @ ?stack)" by simp
    show "set ([] @ ?stack) \<subseteq> {..<length ?nexts}" by auto
    show "\<forall>v < length ?nexts. unat (?deg ! v) = edges_in ?nexts ({..<length ?nexts} - set []) v"
    proof (intro allI impI)
      fix v assume v: "v < length ?nexts"
      then have "unat (?deg ! v) = (\<Sum>e \<in> set fs. count_list (nxt e) (fs ! v))" using deg c by (simp add: consistent_def)
      also have "\<dots> = (\<Sum>u < length fs. count_list (nxt (fs ! u)) (fs ! v))" by (rule bij)
      also have "\<dots> = (\<Sum>u < length fs. count_list (?nexts ! u) v)"
      proof (rule sum.cong)
        fix u assume "u \<in> {..<length fs}"
        then have "set (nxt (fs ! u)) \<subseteq> set fs" using c by (simp add: consistent_def)
        then show "count_list (nxt (fs ! u)) (fs ! v) = count_list (?nexts ! u) v"
          using count_list_map_inj [OF inj, of "nxt (fs ! u)" "fs ! v"] v mapInfo_nth [OF dist, of v] \<open>u \<in> _\<close> by simp
      qed simp
      finally show "unat (?deg ! v) = edges_in ?nexts ({..<length ?nexts} - set []) v" by (simp add: edges_in_def)
    qed
    show "\<forall>v < length ?nexts. v \<in> set ([] @ ?stack) \<longleftrightarrow> ?deg ! v = 0"
      using deg by (auto simp: unat_eq_0 [symmetric])
  qed simp
  then show thesis
    using that [of ?deg ?nexts ?stack] by (simp add: ConstructGraph_def nexts_of [OF dist])
qed

lemma acyclic_map:
  assumes "acyclic r" "\<And>u v. (u, v) \<in> s \<Longrightarrow> (h u, h v) \<in> r"
  shows "acyclic s"
proof -
  have "(u, v) \<in> s\<^sup>+ \<Longrightarrow> (h u, h v) \<in> r\<^sup>+" for u v
    by (induction rule: trancl_induct) (auto intro: assms(2) trancl_into_trancl)
  then show ?thesis using assms(1) by (auto simp: acyclic_def)
qed

text \<open>The sort: it ends with the same filters; without cycles in the order of the links.\<close>

lemma ReorderFilters_sorts:
  assumes c: "consistent pre nxt fs"
  obtains fs' where "ReorderFilters pre nxt fs = Some fs'" "mset fs' = mset fs" "distinct fs'"
    "acyclic (links nxt fs) \<Longrightarrow> \<forall>i < length fs'. \<forall>f. (f, fs' ! i) \<in> links nxt fs \<longrightarrow> f \<in> set (take i fs')"
proof -
  have dist: "distinct fs" using c by (simp add: consistent_def)
  obtain deg nexts stack where g: "ConstructGraph pre nxt fs = (deg, nexts, stack)" "topo_inv nexts deg stack []"
    "nexts = map (\<lambda>f. map (mapInfo fs) (nxt f)) fs"
    by (rule ConstructGraph_inv [OF c])
  obtain deg1 result where r: "reorder_loop nexts deg stack [] = Some result" "topo_inv nexts deg1 [] result"
    using reorder_loop_ends [OF g(2)] by blast
  have n: "length nexts = length fs" using g(3) by simp
  have res: "distinct result" "set result \<subseteq> {..<length fs}" using r(2) n by (auto simp: topo_inv_def)
  let ?fs = "if length result = length fs then map (\<lambda>i. fs ! i) result else fs"
  have eq: "ReorderFilters pre nxt fs = Some ?fs" by (simp add: ReorderFilters_def g(1) r(1))
  have dist': "distinct ?fs" using dist res by (auto simp: distinct_map inj_on_def nth_eq_iff_index_eq subset_iff)
  have perm: "mset ?fs = mset fs"
  proof (cases "length result = length fs")
    case True
    then have "set result = {..<length fs}" using res by (metis card_lessThan card_subset_eq distinct_card finite_lessThan)
    then have "set ?fs = (\<lambda>i. fs ! i) ` {..<length fs}" using True by simp
    also have "\<dots> = set fs" by (auto simp: in_set_conv_nth)
    finally have "set ?fs = set fs" .
    then show ?thesis using dist dist' set_eq_iff_mset_eq_distinct by blast
  next
    case False
    then show ?thesis by simp
  qed
  have "\<forall>i < length ?fs. \<forall>f. (f, ?fs ! i) \<in> links nxt fs \<longrightarrow> f \<in> set (take i ?fs)" if ac: "acyclic (links nxt fs)"
  proof -
    have edge: "(fs ! u, fs ! v) \<in> links nxt fs \<longleftrightarrow> v \<in> set (nexts ! u)" if "u < length fs" "v < length fs" for u v
    proof -
      have sub: "set (nxt (fs ! u)) \<subseteq> set fs" using c that(1) by (simp add: consistent_def)
      have "v \<in> mapInfo fs ` set (nxt (fs ! u)) \<longleftrightarrow> fs ! v \<in> set (nxt (fs ! u))"
      proof
        assume "v \<in> mapInfo fs ` set (nxt (fs ! u))"
        then obtain x where x: "x \<in> set (nxt (fs ! u))" "v = mapInfo fs x" by auto
        then obtain k where "k < length fs" "x = fs ! k" using sub by (metis in_set_conv_nth subsetD)
        then show "fs ! v \<in> set (nxt (fs ! u))" using x mapInfo_nth [OF dist] by simp
      next
        assume "fs ! v \<in> set (nxt (fs ! u))"
        then show "v \<in> mapInfo fs ` set (nxt (fs ! u))" using mapInfo_nth [OF dist that(2)] by (metis imageI)
      qed
      then show ?thesis using that by (simp add: links_def g(3))
    qed
    have "acyclic {(u, v). u < length nexts \<and> v \<in> set (nexts ! u)}"
      by (rule acyclic_map [OF ac, of _ "\<lambda>i. fs ! i"]) (use edge r(2) n in \<open>auto simp: topo_inv_def\<close>)
    then have full: "length result = length fs" using topo_complete [OF r(2)] n by simp
    show ?thesis
    proof (intro allI impI)
      fix i f assume i: "i < length ?fs" and l: "(f, ?fs ! i) \<in> links nxt fs"
      obtain u where u: "u < length fs" "f = fs ! u" using l by (auto simp: links_def in_set_conv_nth)
      have ri: "i < length result" "result ! i < length fs" using i full res(2) by (auto simp: subset_iff)
      have "result ! i \<in> set (nexts ! u)" using l full i edge [OF u(1) ri(2)] u(2) by simp
      then have "u \<in> set (take i result)" using r(2) ri(1) u(1) n by (simp add: topo_inv_def)
      then show "f \<in> set (take i ?fs)" using full u(2) by (simp add: take_map)
    qed
  qed
  from that [OF eq perm dist' this] show thesis .
qed

section \<open>Links between ports\<close>

text \<open>
  Each port belongs to one filter, as in-port or as out-port; a link joins an out-port and an
  in-port, and both know it.
\<close>

definition in_ports :: "graph \<Rightarrow> nat set" where
  "in_ports g = {p. p < length (gr_ports g) \<and> p \<in> set (ft_in (gr_filters g ! pt_owner (gr_ports g ! p)))}"

definition out_ports :: "graph \<Rightarrow> nat set" where
  "out_ports g = {p. p < length (gr_ports g) \<and> p \<in> set (ft_out (gr_filters g ! pt_owner (gr_ports g ! p)))}"

definition graph_ok :: "graph \<Rightarrow> bool" where
  "graph_ok g \<longleftrightarrow> length (gr_ports g) < 2 ^ 64 \<and>
     (\<forall>f < length (gr_filters g). distinct (ft_in (gr_filters g ! f)) \<and> distinct (ft_out (gr_filters g ! f)) \<and>
        set (ft_in (gr_filters g ! f)) \<inter> set (ft_out (gr_filters g ! f)) = {} \<and>
        (\<forall>p \<in> set (ft_in (gr_filters g ! f)) \<union> set (ft_out (gr_filters g ! f)).
           p < length (gr_ports g) \<and> pt_owner (gr_ports g ! p) = f)) \<and>
     (\<forall>p < length (gr_ports g). pt_owner (gr_ports g ! p) < length (gr_filters g)) \<and>
     (\<forall>p < length (gr_ports g). \<forall>q. GetPeerPort g p = Some q \<longrightarrow> q < length (gr_ports g) \<and> GetPeerPort g q = Some p \<and>
        (p \<in> in_ports g \<and> q \<in> out_ports g \<or> p \<in> out_ports g \<and> q \<in> in_ports g))"

lemma graph_ok_in: "graph_ok g \<Longrightarrow> f < length (gr_filters g) \<Longrightarrow>
    p \<in> set (ft_in (gr_filters g ! f)) \<longleftrightarrow> p \<in> in_ports g \<and> pt_owner (gr_ports g ! p) = f"
  by (auto simp: graph_ok_def in_ports_def)

lemma graph_ok_out: "graph_ok g \<Longrightarrow> f < length (gr_filters g) \<Longrightarrow>
    p \<in> set (ft_out (gr_filters g ! f)) \<longleftrightarrow> p \<in> out_ports g \<and> pt_owner (gr_ports g ! p) = f"
  by (auto simp: graph_ok_def out_ports_def)

lemma in_out_disjoint: "graph_ok g \<Longrightarrow> p \<in> in_ports g \<Longrightarrow> p \<notin> out_ports g"
  by (auto simp: graph_ok_def in_ports_def out_ports_def)

lemma graph_ok_peer:
  assumes "graph_ok g" "p < length (gr_ports g)" "GetPeerPort g p = Some q"
  shows "q < length (gr_ports g)" "GetPeerPort g q = Some p"
    "p \<in> in_ports g \<and> q \<in> out_ports g \<or> p \<in> out_ports g \<and> q \<in> in_ports g"
  using assms unfolding graph_ok_def by blast+

lemma peer_of_in:
  assumes "graph_ok g" "p \<in> in_ports g" "GetPeerPort g p = Some q"
  shows "q \<in> out_ports g \<and> GetPeerPort g q = Some p"
proof -
  have "p < length (gr_ports g)" using assms(2) by (simp add: in_ports_def)
  from graph_ok_peer [OF assms(1) this assms(3)] in_out_disjoint [OF assms(1,2)] show ?thesis by blast
qed

lemma peer_of_out:
  assumes "graph_ok g" "p \<in> out_ports g" "GetPeerPort g p = Some q"
  shows "q \<in> in_ports g \<and> GetPeerPort g q = Some p"
proof -
  have "p < length (gr_ports g)" using assms(2) by (simp add: out_ports_def)
  from graph_ok_peer [OF assms(1) this assms(3)] in_out_disjoint [OF assms(1)] assms(2) show ?thesis by blast
qed

lemma map_filter_Cons: "List.map_filter h (x # xs) = (case h x of None \<Rightarrow> List.map_filter h xs | Some y \<Rightarrow> y # List.map_filter h xs)"
  by (simp add: List.map_filter_simps)

lemma map_filter_Nil: "List.map_filter h [] = []"
  by (simp add: List.map_filter_simps)

lemma set_map_filter: "set (List.map_filter h xs) = {y. \<exists>x \<in> set xs. h x = Some y}"
  by (induction xs) (auto simp: map_filter_Cons map_filter_Nil split: option.splits)

lemma Collect_Cons: "{z \<in> set (x # xs). P z} = (if P x then insert x {z \<in> set xs. P z} else {z \<in> set xs. P z})"
  by auto

lemma count_map_filter: "distinct xs \<Longrightarrow> count_list (List.map_filter h xs) y = card {x \<in> set xs. h x = Some y}"
proof (induction xs)
  case Nil
  then show ?case by (simp add: map_filter_Nil)
next
  case (Cons x xs)
  then show ?case unfolding Collect_Cons by (simp add: map_filter_Cons split: option.split)
qed

lemma length_map_filter: "distinct xs \<Longrightarrow> length (List.map_filter h xs) = card {x \<in> set xs. h x \<noteq> None}"
proof (induction xs)
  case Nil
  then show ?case by (simp add: map_filter_Nil)
next
  case (Cons x xs)
  then show ?case unfolding Collect_Cons by (simp add: map_filter_Cons split: option.split)
qed

lemma graph_ok_consistent:
  assumes ok: "graph_ok g" and fs: "distinct fs" "\<forall>f \<in> set fs. f < length (gr_filters g)"
    and closed: "\<forall>f \<in> set fs. set (GetNextFilters g f) \<subseteq> set fs \<and> set (GetPreFilters g f) \<subseteq> set fs"
  shows "consistent (GetPreFilters g) (GetNextFilters g) fs"
  unfolding consistent_def
proof (intro conjI ballI)
  show "distinct fs" by (rule fs(1))
  fix f assume f: "f \<in> set fs"
  then have fl: "f < length (gr_filters g)" using fs(2) by simp
  show "set (GetNextFilters g f) \<subseteq> set fs" using closed f by simp
  have dist: "distinct (ft_in (gr_filters g ! e))" "distinct (ft_out (gr_filters g ! e))" if "e \<in> set fs" for e
    using ok fs(2) that by (auto simp: graph_ok_def)
  let ?I = "{p \<in> set (ft_in (gr_filters g ! f)). peer_owner g p \<noteq> None}"
  let ?O = "\<lambda>e. {q \<in> set (ft_out (gr_filters g ! e)). peer_owner g q = Some f}"
  have len: "length (GetPreFilters g f) = card ?I" unfolding GetPreFilters_def by (rule length_map_filter [OF dist(1) [OF f]])
  have "?I \<subseteq> {..<length (gr_ports g)}" using ok fl by (auto simp: graph_ok_def)
  then have "card ?I \<le> length (gr_ports g)" by (metis card_lessThan card_mono finite_lessThan)
  then show "length (GetPreFilters g f) < 2 ^ 64" using ok len by (simp add: graph_ok_def)
  have "bij_betw (\<lambda>p. the (GetPeerPort g p)) ?I (\<Union>e \<in> set fs. ?O e)"
    unfolding bij_betw_def
  proof (intro conjI)
    show "inj_on (\<lambda>p. the (GetPeerPort g p)) ?I"
    proof (rule inj_onI)
      fix p q assume pq: "p \<in> ?I" "q \<in> ?I" "the (GetPeerPort g p) = the (GetPeerPort g q)"
      then obtain r where "GetPeerPort g p = Some r" "GetPeerPort g q = Some r" by (auto simp: peer_owner_def)
      then show "p = q" using peer_of_in [OF ok, of p r] peer_of_in [OF ok, of q r] pq graph_ok_in [OF ok fl] by auto
    qed
    show "(\<lambda>p. the (GetPeerPort g p)) ` ?I = (\<Union>e \<in> set fs. ?O e)"
    proof (intro equalityI subsetI)
      fix q assume "q \<in> (\<lambda>p. the (GetPeerPort g p)) ` ?I"
      then obtain p where p: "p \<in> set (ft_in (gr_filters g ! f))" "GetPeerPort g p = Some q" by (auto simp: peer_owner_def)
      then have pin: "p \<in> in_ports g" "pt_owner (gr_ports g ! p) = f" using graph_ok_in [OF ok fl] by auto
      have q: "q \<in> out_ports g" "GetPeerPort g q = Some p" using peer_of_in [OF ok pin(1) p(2)] by auto
      let ?e = "pt_owner (gr_ports g ! q)"
      have "peer_owner g p = Some ?e" using p(2) by (simp add: peer_owner_def)
      then have "?e \<in> set (GetPreFilters g f)" using p(1) by (auto simp: GetPreFilters_def set_map_filter)
      then have e: "?e \<in> set fs" using closed f by auto
      then have "q \<in> set (ft_out (gr_filters g ! ?e))" using q(1) graph_ok_out [OF ok] fs(2) by simp
      then show "q \<in> (\<Union>e \<in> set fs. ?O e)" using e q(2) pin(2) by (auto simp: peer_owner_def)
    next
      fix q assume "q \<in> (\<Union>e \<in> set fs. ?O e)"
      then obtain e p where e: "e \<in> set fs" "q \<in> set (ft_out (gr_filters g ! e))" "GetPeerPort g q = Some p"
        "pt_owner (gr_ports g ! p) = f" by (auto simp: peer_owner_def)
      have "q \<in> out_ports g" using e graph_ok_out [OF ok] fs(2) by simp
      from peer_of_out [OF ok this e(3)] have p: "p \<in> in_ports g" "GetPeerPort g p = Some q" by auto
      then have "p \<in> set (ft_in (gr_filters g ! f))" using graph_ok_in [OF ok fl] e(4) by simp
      then show "q \<in> (\<lambda>p. the (GetPeerPort g p)) ` ?I" using p(2) by (force simp: peer_owner_def)
    qed
  qed
  then have "card ?I = card (\<Union>e \<in> set fs. ?O e)" by (rule bij_betw_same_card)
  also have "\<dots> = (\<Sum>e \<in> set fs. card (?O e))"
  proof (rule card_UN_disjoint)
    show "\<forall>e \<in> set fs. \<forall>e' \<in> set fs. e \<noteq> e' \<longrightarrow> ?O e \<inter> ?O e' = {}" using graph_ok_out [OF ok] fs(2) by auto
  qed simp_all
  also have "\<dots> = (\<Sum>e \<in> set fs. count_list (GetNextFilters g e) f)"
    by (rule sum.cong) (simp_all add: GetNextFilters_def count_map_filter dist)
  finally show "length (GetPreFilters g f) = (\<Sum>e \<in> set fs. count_list (GetNextFilters g e) f)" using len by simp
qed

end
