(* ===== verification/Pipeline_Core.thy ===== *)
theory Pipeline_Core
  imports Filter_Graph_Props
begin

text \<open>
  \<open>PipelineCore\<close> (engine/pipeline/core/pipeline_core.cpp): the filters of a player or recorder, the
  calls it spreads over them from the last to the first, the ready events it counts, and the chains
  of filters it removes.

  The filters' own methods are the argument \<open>call\<close>: what a call to a filter returns and what it
  does to the pipeline (a filter may report events or ask for a chain to be removed while it is
  called). The loops run over the filters as they are when the loop starts. \<open>None\<close> stands for a
  loop that does not end.
\<close>

section \<open>State\<close>

datatype event_type =
    EVENT_READY | EVENT_AUDIO_PROGRESS | EVENT_VIDEO_PROGRESS | EVENT_COMPLETE | EVENT_ERROR
  | EVENT_PLUGIN_ERROR | EVENT_PLUGIN_EVENT | EVENT_BUFFERING | EVENT_BUFFER_PROGRESS
  | EVENT_DECODER_ERROR | EVENT_RESOLUTION_CHANGE | EVENT_VIDEO_RENDERING_START | EVENT_IS_LIVE_STREAM

record event =
  ev_src :: string
  ev_type :: event_type

datatype filter_state = FS_CREATED | FS_INITIALIZED | FS_PREPARING | FS_READY | FS_RUNNING | FS_PAUSED

record 'x pipeline =
  pl_ready :: nat
  pl_state :: filter_state
  pl_filters :: "nat list"
  pl_receiver :: bool
  pl_toRemove :: "nat list"
  pl_graph :: graph
  pl_notified :: "event list"
  pl_world :: 'x

datatype filter_call = F_Init | F_Prepare | F_Start | F_Pause | F_Resume | F_Stop | F_FlushStart | F_FlushEnd

text \<open>The loops over the filters: up to the first error, or over all of them.\<close>

fun until_error :: "(nat \<Rightarrow> 's \<Rightarrow> error_code \<times> 's) \<Rightarrow> nat list \<Rightarrow> 's \<Rightarrow> error_code \<times> 's" where
  "until_error h [] s = (EC_SUCCESS, s)"
| "until_error h (f # fs) s =
     (case h f s of (rtv, s1) \<Rightarrow> if rtv \<noteq> EC_SUCCESS then (rtv, s1) else until_error h fs s1)"

fun for_all :: "(nat \<Rightarrow> 's \<Rightarrow> error_code \<times> 's) \<Rightarrow> nat list \<Rightarrow> 's \<Rightarrow> 's" where
  "for_all h [] s = s"
| "for_all h (f # fs) s = for_all h fs (snd (h f s))"

section \<open>Events\<close>

definition pl_Init :: "bool \<Rightarrow> 'x pipeline \<Rightarrow> 'x pipeline" where
  "pl_Init receiver p = p\<lparr>pl_receiver := receiver, pl_state := FS_INITIALIZED\<rparr>"

definition NotifyEvent :: "event \<Rightarrow> 'x pipeline \<Rightarrow> 'x pipeline" where
  "NotifyEvent e p = (if pl_receiver p then p\<lparr>pl_notified := pl_notified p @ [e]\<rparr> else p)"

definition OnEvent :: "event \<Rightarrow> 'x pipeline \<Rightarrow> 'x pipeline" where
  "OnEvent e p =
     (if ev_type e \<noteq> EVENT_READY then NotifyEvent e p
      else let p1 = p\<lparr>pl_ready := pl_ready p + 1\<rparr>
           in if pl_ready p1 = length (pl_filters p1)
              then (NotifyEvent e (p1\<lparr>pl_state := FS_READY\<rparr>))\<lparr>pl_ready := 0\<rparr>
              else p1)"

section \<open>Calls to the filters\<close>

definition pl_ReorderFilters :: "'x pipeline \<Rightarrow> 'x pipeline option" where
  "pl_ReorderFilters p =
     map_option (\<lambda>fs. p\<lparr>pl_filters := fs\<rparr>)
       (ReorderFilters (GetPreFilters (pl_graph p)) (GetNextFilters (pl_graph p)) (pl_filters p))"

definition pl_Prepare ::
  "(filter_call \<Rightarrow> nat \<Rightarrow> 'x pipeline \<Rightarrow> error_code \<times> 'x pipeline) \<Rightarrow> 'x pipeline \<Rightarrow> (error_code \<times> 'x pipeline) option"
where
  "pl_Prepare call p =
     (case pl_ReorderFilters (p\<lparr>pl_state := FS_PREPARING\<rparr>) of None \<Rightarrow> None
      | Some p1 \<Rightarrow> Some (until_error (call F_Prepare) (rev (pl_filters p1)) p1))"

definition pl_Start ::
  "(filter_call \<Rightarrow> nat \<Rightarrow> 'x pipeline \<Rightarrow> error_code \<times> 'x pipeline) \<Rightarrow> 'x pipeline \<Rightarrow> error_code \<times> 'x pipeline"
where
  "pl_Start call p = (let p1 = p\<lparr>pl_state := FS_RUNNING\<rparr> in until_error (call F_Start) (rev (pl_filters p1)) p1)"

definition pl_Pause ::
  "(filter_call \<Rightarrow> nat \<Rightarrow> 'x pipeline \<Rightarrow> error_code \<times> 'x pipeline) \<Rightarrow> 'x pipeline \<Rightarrow> error_code \<times> 'x pipeline"
where
  "pl_Pause call p =
     (if pl_state p = FS_PAUSED then (EC_SUCCESS, p)
      else if pl_state p \<noteq> FS_READY \<and> pl_state p \<noteq> FS_RUNNING then (EC_ERROR_INVALID_OPERATION, p)
      else let p1 = p\<lparr>pl_state := FS_PAUSED\<rparr> in (EC_SUCCESS, for_all (call F_Pause) (rev (pl_filters p1)) p1))"

definition pl_Resume ::
  "(filter_call \<Rightarrow> nat \<Rightarrow> 'x pipeline \<Rightarrow> error_code \<times> 'x pipeline) \<Rightarrow> 'x pipeline \<Rightarrow> error_code \<times> 'x pipeline"
where
  "pl_Resume call p =
     (case until_error (call F_Resume) (rev (pl_filters p)) p of (rtv, p1) \<Rightarrow>
        if rtv \<noteq> EC_SUCCESS then (rtv, p1) else (EC_SUCCESS, p1\<lparr>pl_state := FS_RUNNING\<rparr>))"

definition pl_RemoveFilter :: "nat \<Rightarrow> 'x pipeline \<Rightarrow> 'x pipeline" where
  "pl_RemoveFilter f p = p\<lparr>pl_filters := remove1 f (pl_filters p)\<rparr>"

definition pl_Stop ::
  "(filter_call \<Rightarrow> nat \<Rightarrow> 'x pipeline \<Rightarrow> error_code \<times> 'x pipeline) \<Rightarrow> 'x pipeline \<Rightarrow> error_code \<times> 'x pipeline"
where
  "pl_Stop call p =
     (let p1 = p\<lparr>pl_ready := 0, pl_state := FS_INITIALIZED, pl_toRemove := []\<rparr>
      in case until_error (call F_Stop) (rev (pl_filters p1)) p1 of (rtv, p2) \<Rightarrow>
           if rtv \<noteq> EC_SUCCESS then (rtv, p2)
           else (EC_SUCCESS, fold pl_RemoveFilter (pl_toRemove p2) p2))"

definition pl_FlushStart ::
  "(filter_call \<Rightarrow> nat \<Rightarrow> 'x pipeline \<Rightarrow> error_code \<times> 'x pipeline) \<Rightarrow> 'x pipeline \<Rightarrow> 'x pipeline"
where
  "pl_FlushStart call p = for_all (call F_FlushStart) (rev (pl_filters p)) p"

definition pl_FlushEnd ::
  "(filter_call \<Rightarrow> nat \<Rightarrow> 'x pipeline \<Rightarrow> error_code \<times> 'x pipeline) \<Rightarrow> 'x pipeline \<Rightarrow> 'x pipeline"
where
  "pl_FlushEnd call p = for_all (call F_FlushEnd) (rev (pl_filters p)) p"

section \<open>Building and removing\<close>

definition pl_AddFilters ::
  "(filter_call \<Rightarrow> nat \<Rightarrow> 'x pipeline \<Rightarrow> error_code \<times> 'x pipeline) \<Rightarrow> nat list \<Rightarrow> 'x pipeline \<Rightarrow> error_code \<times> 'x pipeline"
where
  "pl_AddFilters call filtersIn p =
     (let filtersToAdd = filter (\<lambda>f. f \<notin> set (pl_filters p)) filtersIn
      in if filtersToAdd = [] then (EC_SUCCESS, p)
         else (EC_SUCCESS, for_all (call F_Init) filtersToAdd (p\<lparr>pl_filters := pl_filters p @ filtersToAdd\<rparr>)))"

definition pl_LinkFilters :: "nat list \<Rightarrow> 'x pipeline \<Rightarrow> error_code \<times> 'x pipeline" where
  "pl_LinkFilters fs p = (case LinkFilters fs (pl_graph p) of (ec, g) \<Rightarrow> (ec, p\<lparr>pl_graph := g\<rparr>))"

definition pl_LinkPorts :: "nat option \<Rightarrow> nat option \<Rightarrow> 'x pipeline \<Rightarrow> error_code \<times> 'x pipeline" where
  "pl_LinkPorts port1 port2 p = (case LinkPorts port1 port2 (pl_graph p) of (ec, g) \<Rightarrow> (ec, p\<lparr>pl_graph := g\<rparr>))"

partial_function (option) remove_chain :: "nat list \<Rightarrow> graph \<Rightarrow> nat list \<Rightarrow> (graph \<times> nat list) option" where
  "remove_chain levelFilters g toRemove =
     (case levelFilters of [] \<Rightarrow> Some (g, toRemove)
      | f # fs \<Rightarrow>
          let g1 = UnlinkPrevFilters f g
          in remove_chain (fs @ GetNextFilters g1 f) g1 (toRemove @ [f]))"

definition pl_RemoveFilterChain :: "nat option \<Rightarrow> 'x pipeline \<Rightarrow> (error_code \<times> 'x pipeline) option" where
  "pl_RemoveFilterChain firstFilter p =
     (case firstFilter of None \<Rightarrow> Some (EC_ERROR_INVALID_PARAMETER_VALUE, p)
      | Some f \<Rightarrow>
          (case remove_chain [f] (pl_graph p) (pl_toRemove p) of None \<Rightarrow> None
           | Some (g, r) \<Rightarrow> Some (EC_SUCCESS, p\<lparr>pl_graph := g, pl_toRemove := r\<rparr>)))"

text \<open>
  How a stopped demuxer leaves: its \<open>Stop\<close> reports its out-ports (\<open>DemuxerFilter::Stop\<close>), and the
  player answers by removing the chain behind each (\<open>HiPlayerImpl::RemoveFilterChains\<close>, whose argument
  says whether the ports reported are out-ports).
\<close>

definition remove_behind :: "nat \<Rightarrow> string \<Rightarrow> 'x pipeline option \<Rightarrow> 'x pipeline option" where
  "remove_behind f name s =
     (case s of None \<Rightarrow> None
      | Some p \<Rightarrow>
          (case GetOutPort (pl_graph p) f name of None \<Rightarrow> Some p
           | Some port \<Rightarrow>
               (case peer_owner (pl_graph p) port of None \<Rightarrow> Some p
                | Some nextFilter \<Rightarrow> map_option snd (pl_RemoveFilterChain (Some nextFilter) p))))"

definition RemoveFilterChains ::
  "nat \<Rightarrow> nat \<Rightarrow> bool \<Rightarrow> string list \<Rightarrow> 'x pipeline \<Rightarrow> (error_code \<times> 'x pipeline) option"
where
  "RemoveFilterChains demuxer f isOut ports p =
     (if f \<noteq> demuxer \<or> \<not> isOut then Some (EC_SUCCESS, p)
      else map_option (Pair EC_SUCCESS) (fold (remove_behind f) ports (Some p)))"

definition DemuxerFilter_Stop :: "nat \<Rightarrow> nat \<Rightarrow> 'x pipeline \<Rightarrow> (error_code \<times> 'x pipeline) option" where
  "DemuxerFilter_Stop demuxer f p =
     (let outPorts = ft_out (gr_filters (pl_graph p) ! f)
      in if outPorts = [] then Some (EC_SUCCESS, p)
         else map_option (\<lambda>(_, p1). (EC_SUCCESS, p1))
           (RemoveFilterChains demuxer f True (map (\<lambda>port. pt_name (gr_ports (pl_graph p) ! port)) outPorts) p))"

section \<open>Ready events\<close>

lemma OnEvent_filters [simp]: "pl_filters (OnEvent e p) = pl_filters p" "pl_receiver (OnEvent e p) = pl_receiver p"
  by (simp_all add: OnEvent_def NotifyEvent_def Let_def)

definition is_ready :: "event \<Rightarrow> bool" where "is_ready e \<longleftrightarrow> ev_type e = EVENT_READY"

lemma ready_run:
  assumes "pl_receiver p" "pl_filters p \<noteq> []" "pl_ready p < length (pl_filters p)"
  shows "pl_ready (fold OnEvent es p) < length (pl_filters p) \<and>
    length (filter is_ready (pl_notified (fold OnEvent es p))) * length (pl_filters p) + pl_ready (fold OnEvent es p) =
      length (filter is_ready (pl_notified p)) * length (pl_filters p) + pl_ready p + length (filter is_ready es) \<and>
    filter (\<lambda>e. \<not> is_ready e) (pl_notified (fold OnEvent es p)) =
      filter (\<lambda>e. \<not> is_ready e) (pl_notified p) @ filter (\<lambda>e. \<not> is_ready e) es"
  using assms
proof (induction es arbitrary: p)
  case Nil
  then show ?case by simp
next
  case (Cons e es)
  let ?q = "OnEvent e p" and ?n = "length (pl_filters p)"
  have q: "pl_ready ?q < ?n \<and>
      length (filter is_ready (pl_notified ?q)) * ?n + pl_ready ?q =
        length (filter is_ready (pl_notified p)) * ?n + pl_ready p + (if is_ready e then 1 else 0) \<and>
      filter (\<lambda>e. \<not> is_ready e) (pl_notified ?q) =
        filter (\<lambda>e. \<not> is_ready e) (pl_notified p) @ (if is_ready e then [] else [e])"
    using Cons.prems by (auto simp: OnEvent_def NotifyEvent_def is_ready_def Let_def)
  have "pl_receiver ?q" "pl_filters ?q \<noteq> []" "pl_ready ?q < length (pl_filters ?q)" using Cons.prems q by simp_all
  from Cons.IH [OF this] q show ?case by simp
qed

end
