(* ===== verification/Pipeline_Links.thy ===== *)
theory Pipeline_Links
  imports Pipeline_Core
begin

text \<open>
  What linking and unlinking do to the links of a graph, and the filters \<open>RemoveFilterChain\<close>
  collects: those reachable from the first one, whatever the order the links are cut in.
\<close>

section \<open>The shape of a graph\<close>

definition shape :: "graph \<Rightarrow> (nat \<times> string) list \<times> fnode list" where
  "shape g = (map (\<lambda>p. (pt_owner p, pt_name p)) (gr_ports g), gr_filters g)"

lemma shape_eqD:
  assumes "shape g' = shape g"
  shows "gr_filters g' = gr_filters g" "length (gr_ports g') = length (gr_ports g)"
    "p < length (gr_ports g) \<Longrightarrow> pt_owner (gr_ports g' ! p) = pt_owner (gr_ports g ! p)"
proof -
  have m: "map (\<lambda>p. (pt_owner p, pt_name p)) (gr_ports g') = map (\<lambda>p. (pt_owner p, pt_name p)) (gr_ports g)"
    and "gr_filters g' = gr_filters g" using assms by (simp_all add: shape_def)
  show len: "length (gr_ports g') = length (gr_ports g)" by (rule map_eq_imp_length_eq [OF m])
  show "gr_filters g' = gr_filters g" by fact
  assume "p < length (gr_ports g)"
  then show "pt_owner (gr_ports g' ! p) = pt_owner (gr_ports g ! p)"
    using arg_cong [OF m, of "\<lambda>xs. fst (xs ! p)"] len by simp
qed

lemma shape_ports:
  assumes "shape g' = shape g"
  shows "in_ports g' = in_ports g" "out_ports g' = out_ports g"
  using shape_eqD [OF assms] by (auto simp: in_ports_def out_ports_def)

lemma shape_set_peer [simp]: "p < length (gr_ports g) \<Longrightarrow> shape (set_peer p q g) = shape g"
  by (simp add: shape_def set_peer_def map_update list_update_same_conv)

lemma length_set_peer [simp]: "length (gr_ports (set_peer p q g)) = length (gr_ports g)"
  by (simp add: set_peer_def)

lemma peer_set_peer [simp]:
  "p < length (gr_ports g) \<Longrightarrow> GetPeerPort (set_peer p q g) x = (if x = p then q else GetPeerPort g x)"
  by (simp add: GetPeerPort_def set_peer_def)

text \<open>The part of \<open>graph_ok\<close> that speaks of the links; the rest depends on the shape alone.\<close>

definition links_ok :: "graph \<Rightarrow> bool" where
  "links_ok g \<longleftrightarrow> (\<forall>p < length (gr_ports g). \<forall>q. GetPeerPort g p = Some q \<longrightarrow>
     q < length (gr_ports g) \<and> GetPeerPort g q = Some p \<and>
     (p \<in> in_ports g \<and> q \<in> out_ports g \<or> p \<in> out_ports g \<and> q \<in> in_ports g))"

lemma graph_ok_links: "graph_ok g \<Longrightarrow> links_ok g"
  unfolding graph_ok_def links_ok_def by (elim conjE)

lemma graph_ok_shape:
  assumes "graph_ok g" "shape g' = shape g" "links_ok g'"
  shows "graph_ok g'"
proof -
  note sh = shape_eqD [OF assms(2)]
  have fs: "\<forall>f < length (gr_filters g). distinct (ft_in (gr_filters g ! f)) \<and> distinct (ft_out (gr_filters g ! f)) \<and>
        set (ft_in (gr_filters g ! f)) \<inter> set (ft_out (gr_filters g ! f)) = {} \<and>
        (\<forall>p \<in> set (ft_in (gr_filters g ! f)) \<union> set (ft_out (gr_filters g ! f)).
           p < length (gr_ports g) \<and> pt_owner (gr_ports g ! p) = f)"
    using assms(1) unfolding graph_ok_def by (elim conjE)
  have ow: "\<forall>p < length (gr_ports g). pt_owner (gr_ports g ! p) < length (gr_filters g)"
    using assms(1) unfolding graph_ok_def by (elim conjE)
  have bound: "length (gr_ports g) < 2 ^ 64" using assms(1) unfolding graph_ok_def by (elim conjE)
  show ?thesis unfolding graph_ok_def sh(1,2)
  proof (intro conjI)
    show "length (gr_ports g) < 2 ^ 64" by (rule bound)
    show "\<forall>f < length (gr_filters g). distinct (ft_in (gr_filters g ! f)) \<and> distinct (ft_out (gr_filters g ! f)) \<and>
        set (ft_in (gr_filters g ! f)) \<inter> set (ft_out (gr_filters g ! f)) = {} \<and>
        (\<forall>p \<in> set (ft_in (gr_filters g ! f)) \<union> set (ft_out (gr_filters g ! f)).
           p < length (gr_ports g) \<and> pt_owner (gr_ports g' ! p) = f)"
      using fs sh(3) by (metis (no_types, lifting))
    show "\<forall>p < length (gr_ports g). pt_owner (gr_ports g' ! p) < length (gr_filters g)" using ow sh(3) by simp
    show "\<forall>p < length (gr_ports g). \<forall>q. GetPeerPort g' p = Some q \<longrightarrow> q < length (gr_ports g) \<and> GetPeerPort g' q = Some p \<and>
        (p \<in> in_ports g' \<and> q \<in> out_ports g' \<or> p \<in> out_ports g' \<and> q \<in> in_ports g')"
      using assms(3) unfolding links_ok_def sh(2) .
  qed
qed

section \<open>Linking\<close>

lemma LinkPorts_link:
  assumes "LinkPorts (Some a) (Some b) g = (EC_SUCCESS, g')"
  shows "g' = set_peer b (Some a) (set_peer a (Some b) g)"
  using assms by (auto simp: LinkPorts_def OutPort_Connect_def InPort_Connect_def split: if_splits)

lemma LinkPorts_fail:
  assumes "LinkPorts (Some a) (Some b) g = (ec, g')" "ec \<noteq> EC_SUCCESS"
  shows "g' = g"
  using assms by (auto simp: LinkPorts_def OutPort_Connect_def InPort_Connect_def split: if_splits)

lemma LinkPorts_ok:
  assumes ok: "graph_ok g" and a: "a \<in> out_ports g" and b: "b \<in> in_ports g"
    and free: "GetPeerPort g a = None" "GetPeerPort g b = None"
  shows "graph_ok (snd (LinkPorts (Some a) (Some b) g))"
proof (cases "fst (LinkPorts (Some a) (Some b) g) = EC_SUCCESS")
  case False
  then show ?thesis using LinkPorts_fail ok by (metis prod.collapse)
next
  case True
  define g' where "g' = snd (LinkPorts (Some a) (Some b) g)"
  have g': "g' = set_peer b (Some a) (set_peer a (Some b) g)"
    by (rule LinkPorts_link) (use True in \<open>simp add: g'_def prod_eq_iff\<close>)
  have len: "a < length (gr_ports g)" "b < length (gr_ports g)" using a b by (simp_all add: in_ports_def out_ports_def)
  have sh: "shape g' = shape g" using len by (simp add: g')
  have ne: "a \<noteq> b" using in_out_disjoint [OF ok b] a by auto
  have peer: "GetPeerPort g' x = (if x = b then Some a else if x = a then Some b else GetPeerPort g x)" for x
    using len by (simp add: g')
  have "links_ok g'" unfolding links_ok_def shape_ports [OF sh] shape_eqD(2) [OF sh]
  proof (intro allI impI)
    fix p q assume p: "p < length (gr_ports g)" and q: "GetPeerPort g' p = Some q"
    show "q < length (gr_ports g) \<and> GetPeerPort g' q = Some p \<and>
        (p \<in> in_ports g \<and> q \<in> out_ports g \<or> p \<in> out_ports g \<and> q \<in> in_ports g)"
    proof (cases "p = a \<or> p = b")
      case True
      then show ?thesis using q len a b ne by (auto simp: peer split: if_splits)
    next
      case False
      then have old: "GetPeerPort g p = Some q" using q by (simp add: peer)
      note o = graph_ok_peer [OF ok p old]
      have "q \<noteq> a" "q \<noteq> b" using o(2) free by auto
      then show ?thesis using o by (simp add: peer)
    qed
  qed
  from graph_ok_shape [OF ok sh this] show ?thesis by (simp add: g'_def)
qed

section \<open>Unlinking\<close>

lemma unlink_port_peer:
  assumes ok: "graph_ok g" and p: "p < length (gr_ports g)"
  shows "shape (unlink_port p g) = shape g"
    "GetPeerPort (unlink_port p g) x = (if x = p \<or> GetPeerPort g p = Some x then None else GetPeerPort g x)"
proof -
  have "q < length (gr_ports g)" if "GetPeerPort g p = Some q" for q using graph_ok_peer(1) [OF ok p that] .
  then show "shape (unlink_port p g) = shape g"
    "GetPeerPort (unlink_port p g) x = (if x = p \<or> GetPeerPort g p = Some x then None else GetPeerPort g x)"
    using p by (auto simp: unlink_port_def Disconnect_def Let_def split: option.split)
qed

lemma unlink_port_ok:
  assumes ok: "graph_ok g" and p: "p < length (gr_ports g)"
  shows "graph_ok (unlink_port p g)"
proof -
  note u = unlink_port_peer [OF ok p]
  have "links_ok (unlink_port p g)" unfolding links_ok_def shape_ports [OF u(1)] shape_eqD(2) [OF u(1)]
  proof (intro allI impI)
    fix a b assume a: "a < length (gr_ports g)" and b: "GetPeerPort (unlink_port p g) a = Some b"
    then have old: "GetPeerPort g a = Some b" and "a \<noteq> p" "GetPeerPort g p \<noteq> Some a" by (auto simp: u(2) split: if_splits)
    note o = graph_ok_peer [OF ok a old]
    have "b \<noteq> p" using o(2) \<open>GetPeerPort g p \<noteq> Some a\<close> by auto
    have "GetPeerPort g p \<noteq> Some b"
    proof
      assume "GetPeerPort g p = Some b"
      from graph_ok_peer(2) [OF ok p this] o(2) \<open>a \<noteq> p\<close> show False by simp
    qed
    then show "b < length (gr_ports g) \<and> GetPeerPort (unlink_port p g) b = Some a \<and>
        (a \<in> in_ports g \<and> b \<in> out_ports g \<or> a \<in> out_ports g \<and> b \<in> in_ports g)"
      using o \<open>b \<noteq> p\<close> by (simp add: u(2))
  qed
  then show ?thesis by (rule graph_ok_shape [OF ok u(1)])
qed

lemma unlink_ports:
  assumes "graph_ok g" "\<forall>p \<in> set ps. p < length (gr_ports g)"
  shows "graph_ok (fold unlink_port ps g) \<and> shape (fold unlink_port ps g) = shape g \<and>
    (\<forall>x < length (gr_ports g). GetPeerPort (fold unlink_port ps g) x =
       (if x \<in> set ps \<or> (\<exists>y \<in> set ps. GetPeerPort g x = Some y) then None else GetPeerPort g x))"
  using assms
proof (induction ps arbitrary: g)
  case Nil
  then show ?case by simp
next
  case (Cons p ps)
  let ?g = "unlink_port p g"
  have p: "p < length (gr_ports g)" using Cons.prems(2) by simp
  note ok = \<open>graph_ok g\<close>
  note u = unlink_port_peer [OF ok p]
  have len: "length (gr_ports ?g) = length (gr_ports g)" by (rule shape_eqD(2) [OF u(1)])
  have IH: "graph_ok (fold unlink_port ps ?g) \<and> shape (fold unlink_port ps ?g) = shape ?g \<and>
    (\<forall>x < length (gr_ports ?g). GetPeerPort (fold unlink_port ps ?g) x =
       (if x \<in> set ps \<or> (\<exists>y \<in> set ps. GetPeerPort ?g x = Some y) then None else GetPeerPort ?g x))"
    by (rule Cons.IH [OF unlink_port_ok [OF ok p]]) (use Cons.prems(2) len in simp)
  have "GetPeerPort (fold unlink_port ps ?g) x =
       (if x \<in> set (p # ps) \<or> (\<exists>y \<in> set (p # ps). GetPeerPort g x = Some y) then None else GetPeerPort g x)"
    if x: "x < length (gr_ports g)" for x
  proof -
    have sym: "GetPeerPort g p = Some x \<longleftrightarrow> GetPeerPort g x = Some p"
      using graph_ok_peer(2) [OF ok p] graph_ok_peer(2) [OF ok x] by blast
    have "GetPeerPort (fold unlink_port ps ?g) x =
       (if x \<in> set ps \<or> (\<exists>y \<in> set ps. GetPeerPort ?g x = Some y) then None else GetPeerPort ?g x)"
      using IH x len by simp
    then show ?thesis unfolding u(2) sym by simp
  qed
  then show ?case using IH u(1) by simp
qed

lemma UnlinkPrevFilters_next:
  assumes ok: "graph_ok g" and f: "f < length (gr_filters g)"
  shows "graph_ok (UnlinkPrevFilters f g)" "shape (UnlinkPrevFilters f g) = shape g"
    "v < length (gr_filters g) \<Longrightarrow> GetNextFilters (UnlinkPrevFilters f g) v = filter (\<lambda>w. w \<noteq> f) (GetNextFilters g v)"
    "v < length (gr_filters g) \<Longrightarrow>
       GetPreFilters (UnlinkPrevFilters f g) v = (if v = f then [] else GetPreFilters g v)"
    "x \<in> out_ports g \<Longrightarrow> peer_owner (UnlinkPrevFilters f g) x = (if peer_owner g x = Some f then None else peer_owner g x)"
proof -
  have ps: "\<forall>p \<in> set (ft_in (gr_filters g ! f)). p < length (gr_ports g)" using ok f by (auto simp: graph_ok_def)
  note u0 = unlink_ports [OF ok ps, folded UnlinkPrevFilters_def]
  show "graph_ok (UnlinkPrevFilters f g)" and sh: "shape (UnlinkPrevFilters f g) = shape g" using u0 by simp_all
  let ?g = "UnlinkPrevFilters f g"
  have u: "GetPeerPort ?g x = (if x \<in> set (ft_in (gr_filters g ! f)) \<or>
      (\<exists>y \<in> set (ft_in (gr_filters g ! f)). GetPeerPort g x = Some y) then None else GetPeerPort g x)"
    if "x < length (gr_ports g)" for x using u0 that by simp
  have inn: "x \<in> set (ft_in (gr_filters g ! f)) \<longleftrightarrow> x \<in> in_ports g \<and> pt_owner (gr_ports g ! x) = f" for x
    by (rule graph_ok_in [OF ok f])
  have out: "peer_owner ?g x = (if peer_owner g x = Some f then None else peer_owner g x)"
    if x: "x \<in> out_ports g" for x
  proof -
    have xl: "x < length (gr_ports g)" using x by (simp add: out_ports_def)
    have "x \<notin> set (ft_in (gr_filters g ! f))" using inn in_out_disjoint [OF ok] x by auto
    moreover have "(\<exists>y \<in> set (ft_in (gr_filters g ! f)). GetPeerPort g x = Some y) \<longleftrightarrow> peer_owner g x = Some f"
      using peer_of_out [OF ok x] inn by (auto simp: peer_owner_def)
    ultimately have "GetPeerPort ?g x = (if peer_owner g x = Some f then None else GetPeerPort g x)" using u [OF xl] by simp
    then show ?thesis using shape_eqD(3) [OF sh] graph_ok_peer(1) [OF ok xl]
      by (cases "GetPeerPort g x") (simp_all add: peer_owner_def)
  qed
  { assume "x \<in> out_ports g" then show "peer_owner ?g x = (if peer_owner g x = Some f then None else peer_owner g x)" by (rule out) }
  assume v: "v < length (gr_filters g)"
  have "List.map_filter (peer_owner ?g) xs = filter (\<lambda>w. w \<noteq> f) (List.map_filter (peer_owner g) xs)"
    if "set xs \<subseteq> set (ft_out (gr_filters g ! v))" for xs
    using that by (induction xs) (auto simp: map_filter_Cons map_filter_Nil out graph_ok_out [OF ok v] split: option.split)
  then show "GetNextFilters ?g v = filter (\<lambda>w. w \<noteq> f) (GetNextFilters g v)"
    using shape_eqD(1) [OF sh] by (simp add: GetNextFilters_def)
  have inp: "peer_owner ?g x = (if v = f then None else peer_owner g x)" if "x \<in> set (ft_in (gr_filters g ! v))" for x
  proof -
    have x: "x \<in> in_ports g" "pt_owner (gr_ports g ! x) = v" using graph_ok_in [OF ok v] that by auto
    then have xl: "x < length (gr_ports g)" by (simp add: in_ports_def)
    have "\<not> (\<exists>y \<in> set (ft_in (gr_filters g ! f)). GetPeerPort g x = Some y)"
      using peer_of_in [OF ok x(1)] inn in_out_disjoint [OF ok] by blast
    then have "GetPeerPort ?g x = (if v = f then None else GetPeerPort g x)" using u [OF xl] inn x by simp
    then show ?thesis using shape_eqD(3) [OF sh] graph_ok_peer(1) [OF ok xl]
      by (cases "GetPeerPort g x") (simp_all add: peer_owner_def)
  qed
  have "List.map_filter (peer_owner ?g) xs = (if v = f then [] else List.map_filter (peer_owner g) xs)"
    if "set xs \<subseteq> set (ft_in (gr_filters g ! v))" for xs
    using that by (induction xs) (auto simp: map_filter_Cons map_filter_Nil inp split: option.split)
  then show "GetPreFilters ?g v = (if v = f then [] else GetPreFilters g v)"
    using shape_eqD(1) [OF sh] by (simp add: GetPreFilters_def)
qed

end
