(* ===== verification/Pipeline_Props.thy ===== *)
theory Pipeline_Props
  imports Pipeline_Links
begin

text \<open>
  The properties of the pipeline: the order its filters are prepared in, the links it keeps, the
  chains it removes and the ready events it passes on.
\<close>

section \<open>Removing a chain\<close>

definition flinks :: "graph \<Rightarrow> (nat \<times> nat) set" where
  "flinks g = {(u, v). u < length (gr_filters g) \<and> v \<in> set (GetNextFilters g u)}"

lemma next_filters_range:
  assumes ok: "graph_ok g" and u: "u < length (gr_filters g)"
  shows "set (GetNextFilters g u) \<subseteq> {..<length (gr_filters g)}"
proof
  fix v assume "v \<in> set (GetNextFilters g u)"
  then obtain p q where p: "p \<in> set (ft_out (gr_filters g ! u))" "GetPeerPort g p = Some q" "pt_owner (gr_ports g ! q) = v"
    by (auto simp: GetNextFilters_def set_map_filter peer_owner_def)
  have "p \<in> out_ports g" using graph_ok_out [OF ok u] p(1) by simp
  then have "q \<in> in_ports g" using peer_of_out [OF ok _ p(2)] by simp
  then have "q < length (gr_ports g)" by (simp add: in_ports_def)
  then show "v \<in> {..<length (gr_filters g)}" using ok p(3) unfolding graph_ok_def by blast
qed

lemma wf_flinks:
  assumes "graph_ok g" "acyclic (flinks g)"
  shows "wf ((flinks g)\<inverse>)"
proof (rule finite_acyclic_wf_converse [OF _ assms(2)])
  have "flinks g \<subseteq> {..<length (gr_filters g)} \<times> {..<length (gr_filters g)}"
    using next_filters_range [OF assms(1)] by (auto simp: flinks_def)
  then show "finite (flinks g)" by (rule finite_subset) simp
qed

text \<open>The links of \<open>g\<close> once the filters of \<open>D\<close> are cut off behind those before them.\<close>

definition cut_off :: "nat set \<Rightarrow> graph \<Rightarrow> graph \<Rightarrow> bool" where
  "cut_off D g g' \<longleftrightarrow> graph_ok g' \<and> shape g' = shape g \<and>
     (\<forall>u < length (gr_filters g). GetNextFilters g' u = filter (\<lambda>w. w \<notin> D) (GetNextFilters g u) \<and>
        GetPreFilters g' u = (if u \<in> D then [] else GetPreFilters g u)) \<and>
     (\<forall>x \<in> out_ports g. peer_owner g' x = (if peer_owner g x \<in> Some ` D then None else peer_owner g x))"

lemma cut_off_step:
  assumes "cut_off D g g'" "f < length (gr_filters g)"
  shows "cut_off (insert f D) g (UnlinkPrevFilters f g')"
proof -
  have ok: "graph_ok g'" and sh: "shape g' = shape g" using assms(1) by (simp_all add: cut_off_def)
  note len = shape_eqD(1) [OF sh]
  have f: "f < length (gr_filters g')" using assms(2) len by simp
  note u = UnlinkPrevFilters_next [OF ok f]
  have flt: "filter (\<lambda>w. w \<noteq> f) (filter (\<lambda>w. w \<notin> D) xs) = filter (\<lambda>w. w \<notin> insert f D) xs" for xs
    by (induction xs) simp_all
  have "peer_owner (UnlinkPrevFilters f g') x = (if peer_owner g x \<in> Some ` insert f D then None else peer_owner g x)"
    if "x \<in> out_ports g" for x
    using that u(5) assms(1) by (auto simp: cut_off_def shape_ports [OF sh])
  then show ?thesis using assms(1) u(1-4) len flt sh by (simp add: cut_off_def)
qed

lemma remove_chain_step:
  "remove_chain [] g r = Some (g, r)"
  "remove_chain (f # fs) g r =
     remove_chain (fs @ GetNextFilters (UnlinkPrevFilters f g) f) (UnlinkPrevFilters f g) (r @ [f])"
  by (simp_all add: remove_chain.simps Let_def)

lemma remove_chain_run:
  assumes ok: "graph_ok g" and ac: "acyclic (flinks g)"
  shows "cut_off D g g' \<Longrightarrow> set level \<subseteq> {..<length (gr_filters g)} \<Longrightarrow>
    flinks g `` D \<subseteq> D \<union> set level \<Longrightarrow>
    \<exists>g'' new. remove_chain level g' r = Some (g'', r @ new) \<and> cut_off (D \<union> set new) g g'' \<and> set level \<subseteq> set new \<and>
      flinks g `` (D \<union> set new) \<subseteq> D \<union> set new \<and> set new \<subseteq> (flinks g)\<^sup>* `` set level"
proof (induction level arbitrary: D g' r rule: wf_induct_rule [OF wf_inv_image [OF wf_mult [OF wf_flinks [OF ok ac]]], of mset])
  case (1 level)
  show ?case
  proof (cases level)
    case Nil
    then show ?thesis using 1 by (auto simp: remove_chain_step)
  next
    case (Cons f fs)
    have f: "f < length (gr_filters g)" using 1(3) Cons by simp
    let ?g = "UnlinkPrevFilters f g'" and ?D = "insert f D"
    let ?nexts = "GetNextFilters ?g f"
    have cut: "cut_off ?D g ?g" by (rule cut_off_step [OF 1(2) f])
    then have nexts: "?nexts = filter (\<lambda>w. w \<notin> ?D) (GetNextFilters g f)" using f by (simp add: cut_off_def)
    have edges: "(f, v) \<in> flinks g" if "v \<in> set ?nexts" for v using that nexts f by (simp add: flinks_def)
    have smaller: "(fs @ ?nexts, level) \<in> inv_image (mult ((flinks g)\<inverse>)) mset"
      using one_step_implies_mult [of "{#f#}" "mset ?nexts" "(flinks g)\<inverse>" "mset fs"] edges Cons by simp
    have range: "set (fs @ ?nexts) \<subseteq> {..<length (gr_filters g)}"
      using 1(3) Cons nexts next_filters_range [OF ok f] by auto
    have closed: "flinks g `` ?D \<subseteq> ?D \<union> set (fs @ ?nexts)"
    proof
      fix v assume "v \<in> flinks g `` ?D"
      then consider "v \<in> flinks g `` D" | "(f, v) \<in> flinks g" by auto
      then show "v \<in> ?D \<union> set (fs @ ?nexts)"
      proof cases
        case 1
        then show ?thesis using \<open>flinks g `` D \<subseteq> D \<union> set level\<close> Cons by auto
      next
        case 2
        then show ?thesis using nexts by (auto simp: flinks_def)
      qed
    qed
    obtain g'' new where r: "remove_chain (fs @ ?nexts) ?g (r @ [f]) = Some (g'', (r @ [f]) @ new)" "cut_off (?D \<union> set new) g g''"
      "set (fs @ ?nexts) \<subseteq> set new" "flinks g `` (?D \<union> set new) \<subseteq> ?D \<union> set new" "set new \<subseteq> (flinks g)\<^sup>* `` set (fs @ ?nexts)"
      using 1(1) [OF smaller cut range closed, of "r @ [f]"] by blast
    have "set (f # new) \<subseteq> (flinks g)\<^sup>* `` set level"
    proof
      fix v assume "v \<in> set (f # new)"
      then consider "v = f" | w where "w \<in> set fs" "(w, v) \<in> (flinks g)\<^sup>*" | w where "w \<in> set ?nexts" "(w, v) \<in> (flinks g)\<^sup>*"
        using r(5) by auto
      then show "v \<in> (flinks g)\<^sup>* `` set level"
      proof cases
        case 3
        then have "(f, v) \<in> (flinks g)\<^sup>*" using edges by (blast intro: converse_rtrancl_into_rtrancl)
        then show ?thesis using Cons by auto
      qed (use Cons in auto)
    qed
    moreover have "remove_chain level g' r = Some (g'', r @ f # new)" using r(1) Cons by (simp add: remove_chain_step)
    moreover have "cut_off (D \<union> set (f # new)) g g''" using r(2) by simp
    moreover have "set level \<subseteq> set (f # new)" using r(3) Cons by auto
    moreover have "flinks g `` (D \<union> set (f # new)) \<subseteq> D \<union> set (f # new)" using r(4) by simp
    ultimately show ?thesis by blast
  qed
qed

lemma RemoveFilterChain_collects:
  assumes ok: "graph_ok (pl_graph p)" and ac: "acyclic (flinks (pl_graph p))" and f: "f < length (gr_filters (pl_graph p))"
  obtains g new where "pl_RemoveFilterChain (Some f) p = Some (EC_SUCCESS, p\<lparr>pl_graph := g, pl_toRemove := pl_toRemove p @ new\<rparr>)"
    "set new = (flinks (pl_graph p))\<^sup>* `` {f}" "cut_off (set new) (pl_graph p) g"
proof -
  let ?g = "pl_graph p"
  have "cut_off {} ?g ?g" using ok by (simp add: cut_off_def)
  then obtain g new where r: "remove_chain [f] ?g (pl_toRemove p) = Some (g, pl_toRemove p @ new)" "cut_off (set new) ?g g"
    "f \<in> set new" "flinks ?g `` set new \<subseteq> set new" "set new \<subseteq> (flinks ?g)\<^sup>* `` {f}"
    using remove_chain_run [OF ok ac, of "{}" ?g "[f]" "pl_toRemove p"] f by auto
  have "(flinks ?g)\<^sup>* `` {f} \<subseteq> set new"
    using Image_closed_trancl [OF r(4)] r(3) by blast
  then have "set new = (flinks ?g)\<^sup>* `` {f}" using r(5) by blast
  then show thesis using that r by (simp add: pl_RemoveFilterChain_def)
qed

section \<open>Stopping behind the demuxer\<close>

lemma cut_off_out_port:
  assumes cut: "cut_off D g g'" and d: "d < length (gr_filters g)" and a: "a \<in> set (ft_out (gr_filters g ! d))" and ok: "graph_ok g"
  shows "peer_owner g' a = (if peer_owner g a \<in> Some ` D then None else peer_owner g a)"
    "peer_owner g a = Some w \<Longrightarrow> (d, w) \<in> flinks g"
proof -
  have "a \<in> out_ports g" using graph_ok_out [OF ok d] a by simp
  then show "peer_owner g' a = (if peer_owner g a \<in> Some ` D then None else peer_owner g a)" using cut unfolding cut_off_def by blast
  show "peer_owner g a = Some w \<Longrightarrow> (d, w) \<in> flinks g" using a d by (auto simp: flinks_def GetNextFilters_def set_map_filter)
qed

lemma GetOutPort_name:
  assumes "shape g' = shape g" "inj_on (\<lambda>a. pt_name (gr_ports g ! a)) (set (ft_out (gr_filters g ! d)))"
    "a \<in> set (ft_out (gr_filters g ! d))" "set (ft_out (gr_filters g ! d)) \<subseteq> {..<length (gr_ports g)}"
  shows "GetOutPort g' d (pt_name (gr_ports g ! a)) = Some a"
proof -
  have m: "map (\<lambda>p. (pt_owner p, pt_name p)) (gr_ports g') = map (\<lambda>p. (pt_owner p, pt_name p)) (gr_ports g)"
    using assms(1) by (simp add: shape_def)
  have name: "pt_name (gr_ports g' ! b) = pt_name (gr_ports g ! b)" if "b < length (gr_ports g)" for b
    using arg_cong [OF m, of "\<lambda>xs. snd (xs ! b)"] that map_eq_imp_length_eq [OF m] by simp
  have "find (\<lambda>b. pt_name (gr_ports g' ! b) = pt_name (gr_ports g ! a)) bs = Some a"
    if "a \<in> set bs" "set bs \<subseteq> set (ft_out (gr_filters g ! d))" for bs
    using that
  proof (induction bs)
    case (Cons b bs)
    have b: "b \<in> set (ft_out (gr_filters g ! d))" using Cons.prems by simp
    then have "pt_name (gr_ports g' ! b) = pt_name (gr_ports g ! b)" using name assms(4) by auto
    then have "pt_name (gr_ports g' ! b) = pt_name (gr_ports g ! a) \<longleftrightarrow> b = a"
      using inj_on_eq_iff [OF assms(2) b assms(3)] by simp
    then show ?case using Cons by auto
  qed simp
  then show ?thesis using assms(3) shape_eqD(1) [OF assms(1)] by (simp add: GetOutPort_def FindPort_def)
qed

lemma remove_behind_all:
  assumes ok: "graph_ok g" and ac: "acyclic (flinks g)" and d: "d < length (gr_filters g)"
    and inj: "inj_on (\<lambda>a. pt_name (gr_ports g ! a)) (set (ft_out (gr_filters g ! d)))"
  shows "cut_off D g (pl_graph p) \<Longrightarrow> flinks g `` D \<subseteq> D \<Longrightarrow> set outs \<subseteq> set (ft_out (gr_filters g ! d)) \<Longrightarrow>
    \<exists>g' new. fold (remove_behind d) (map (\<lambda>a. pt_name (gr_ports g ! a)) outs) (Some p) =
        Some (p\<lparr>pl_graph := g', pl_toRemove := pl_toRemove p @ new\<rparr>) \<and>
      cut_off (D \<union> set new) g g' \<and> flinks g `` (D \<union> set new) \<subseteq> D \<union> set new \<and> set new \<subseteq> (flinks g)\<^sup>+ `` {d} \<and>
      (\<forall>a \<in> set outs. \<forall>w. peer_owner g a = Some w \<longrightarrow> w \<in> D \<union> set new)"
proof (induction outs arbitrary: D p)
  case Nil
  then show ?case by (intro exI [of _ "pl_graph p"] exI [of _ "[]"]) simp
next
  case (Cons a outs)
  have a: "a \<in> set (ft_out (gr_filters g ! d))" using Cons.prems(3) by simp
  have range: "set (ft_out (gr_filters g ! d)) \<subseteq> {..<length (gr_ports g)}" using ok d by (auto simp: graph_ok_def)
  have sh: "shape (pl_graph p) = shape g" using Cons.prems(1) by (simp add: cut_off_def)
  have port: "GetOutPort (pl_graph p) d (pt_name (gr_ports g ! a)) = Some a" by (rule GetOutPort_name [OF sh inj a range])
  note po = cut_off_out_port [OF Cons.prems(1) d a ok]
  have outs: "set outs \<subseteq> set (ft_out (gr_filters g ! d))" using Cons.prems(3) by simp
  show ?case
  proof (cases "peer_owner (pl_graph p) a")
    case None
    then have "w \<in> D" if "peer_owner g a = Some w" for w using po(1) that by (auto split: if_splits)
    moreover have "fold (remove_behind d) (map (\<lambda>a. pt_name (gr_ports g ! a)) (a # outs)) (Some p) =
        fold (remove_behind d) (map (\<lambda>a. pt_name (gr_ports g ! a)) outs) (Some p)"
      using None port by (simp add: remove_behind_def)
    ultimately show ?thesis using Cons.IH [OF Cons.prems(1,2) outs] by auto
  next
    case (Some w)
    then have w: "peer_owner g a = Some w" "w \<notin> D" using po(1) by (auto split: if_splits)
    have dw: "(d, w) \<in> flinks g" by (rule po(2) [OF w(1)])
    then have "w < length (gr_filters g)" using next_filters_range [OF ok d] by (auto simp: flinks_def)
    then have "set [w] \<subseteq> {..<length (gr_filters g)}" "flinks g `` D \<subseteq> D \<union> set [w]" using Cons.prems(2) by auto
    from remove_chain_run [OF ok ac Cons.prems(1) this, of "pl_toRemove p"]
    obtain g1 new1 where r: "remove_chain [w] (pl_graph p) (pl_toRemove p) = Some (g1, pl_toRemove p @ new1)"
      "cut_off (D \<union> set new1) g g1" "w \<in> set new1" "flinks g `` (D \<union> set new1) \<subseteq> D \<union> set new1"
      "set new1 \<subseteq> (flinks g)\<^sup>* `` {w}" by auto
    let ?p = "p\<lparr>pl_graph := g1, pl_toRemove := pl_toRemove p @ new1\<rparr>"
    have "cut_off (D \<union> set new1) g (pl_graph ?p)" using r(2) by simp
    from Cons.IH [OF this r(4) outs] obtain g2 new2 where r2:
      "fold (remove_behind d) (map (\<lambda>a. pt_name (gr_ports g ! a)) outs) (Some ?p) =
        Some (?p\<lparr>pl_graph := g2, pl_toRemove := pl_toRemove ?p @ new2\<rparr>)"
      "cut_off (D \<union> set new1 \<union> set new2) g g2" "flinks g `` (D \<union> set new1 \<union> set new2) \<subseteq> D \<union> set new1 \<union> set new2"
      "set new2 \<subseteq> (flinks g)\<^sup>+ `` {d}" "\<forall>a \<in> set outs. \<forall>w. peer_owner g a = Some w \<longrightarrow> w \<in> D \<union> set new1 \<union> set new2"
      by blast
    have step: "remove_behind d (pt_name (gr_ports g ! a)) (Some p) = Some ?p"
      using port Some r(1) by (simp add: remove_behind_def pl_RemoveFilterChain_def)
    have "set new1 \<subseteq> (flinks g)\<^sup>+ `` {d}" using r(5) dw by (auto intro: rtrancl_into_trancl2)
    moreover have "fold (remove_behind d) (map (\<lambda>a. pt_name (gr_ports g ! a)) (a # outs)) (Some p) =
        Some (p\<lparr>pl_graph := g2, pl_toRemove := pl_toRemove p @ (new1 @ new2)\<rparr>)"
      using step r2(1) by simp
    ultimately show ?thesis using r2(2-5) r(3) w(1)
      by (intro exI [of _ g2] exI [of _ "new1 @ new2"]) (auto simp: Un_assoc)
  qed
qed

lemma demuxer_stop:
  assumes ok: "graph_ok g" and ac: "acyclic (flinks g)" and d: "d < length (gr_filters g)"
    and inj: "inj_on (\<lambda>a. pt_name (gr_ports g ! a)) (set (ft_out (gr_filters g ! d)))" and g: "g = pl_graph p"
  obtains g' new where "DemuxerFilter_Stop d d p = Some (EC_SUCCESS, p\<lparr>pl_graph := g', pl_toRemove := pl_toRemove p @ new\<rparr>)"
    "set new = (flinks g)\<^sup>+ `` {d}" "cut_off (set new) g g'"
proof -
  let ?outs = "ft_out (gr_filters g ! d)"
  have "cut_off {} g (pl_graph p)" "flinks g `` {} \<subseteq> {}" using ok g by (simp_all add: cut_off_def)
  from remove_behind_all [OF ok ac d inj this, of ?outs] obtain g' new where r:
    "fold (remove_behind d) (map (\<lambda>a. pt_name (gr_ports g ! a)) ?outs) (Some p) =
        Some (p\<lparr>pl_graph := g', pl_toRemove := pl_toRemove p @ new\<rparr>)" "cut_off (set new) g g'"
    "flinks g `` set new \<subseteq> set new" "set new \<subseteq> (flinks g)\<^sup>+ `` {d}"
    "\<forall>a \<in> set ?outs. \<forall>w. peer_owner g a = Some w \<longrightarrow> w \<in> set new" by auto
  have "v \<in> set new" if "(d, v) \<in> (flinks g)\<^sup>+" for v
    using that
  proof (induction rule: trancl_induct)
    case (base w)
    then show ?case using r(5) by (auto simp: flinks_def GetNextFilters_def set_map_filter)
  next
    case (step v w)
    then show ?case using r(3) by blast
  qed
  then have "set new = (flinks g)\<^sup>+ `` {d}" using r(4) by blast
  moreover have "DemuxerFilter_Stop d d p = Some (EC_SUCCESS, p\<lparr>pl_graph := g', pl_toRemove := pl_toRemove p @ new\<rparr>)"
  proof (cases "?outs = []")
    case True
    then show ?thesis using r(1) g by (simp add: DemuxerFilter_Stop_def)
  next
    case False
    then show ?thesis using r(1) g by (simp add: DemuxerFilter_Stop_def RemoveFilterChains_def Let_def)
  qed
  ultimately show thesis using that r(2) by blast
qed

lemma fold_remove: "distinct (pl_filters p) \<Longrightarrow>
    pl_filters (fold pl_RemoveFilter fs p) = filter (\<lambda>f. f \<notin> set fs) (pl_filters p)"
proof (induction fs arbitrary: p)
  case (Cons f fs)
  then show ?case
    by (auto simp: pl_RemoveFilter_def distinct_remove1_removeAll removeAll_filter_not_eq intro!: filter_cong)
qed simp

lemma fold_remove_rest [simp]: "pl_graph (fold pl_RemoveFilter fs p) = pl_graph p" "pl_state (fold pl_RemoveFilter fs p) = pl_state p"
    "pl_ready (fold pl_RemoveFilter fs p) = pl_ready p"
  by (induction fs arbitrary: p) (simp_all add: pl_RemoveFilter_def)

lemma until_error_quiet: "\<forall>f \<in> set fs. h f p = (EC_SUCCESS, p) \<Longrightarrow> until_error h fs p = (EC_SUCCESS, p)"
  by (induction fs) simp_all

lemma until_error_append:
  "until_error h (xs @ ys) p = (case until_error h xs p of (rtv, p1) \<Rightarrow> if rtv \<noteq> EC_SUCCESS then (rtv, p1) else until_error h ys p1)"
  by (induction xs arbitrary: p) (simp_all split: prod.split)

section \<open>Pipelines\<close>

text \<open>The filters of a pipeline, all its links among them, and each filter once.\<close>

definition pipeline_ok :: "'x pipeline \<Rightarrow> bool" where
  "pipeline_ok p \<longleftrightarrow> graph_ok (pl_graph p) \<and> distinct (pl_filters p) \<and>
     (\<forall>f \<in> set (pl_filters p). f < length (gr_filters (pl_graph p)) \<and>
        set (GetNextFilters (pl_graph p) f) \<subseteq> set (pl_filters p) \<and> set (GetPreFilters (pl_graph p) f) \<subseteq> set (pl_filters p))"

definition sorted_along :: "graph \<Rightarrow> nat list \<Rightarrow> bool" where
  "sorted_along g fs \<longleftrightarrow> (\<forall>i < length fs. \<forall>j < length fs. fs ! j \<in> set (GetNextFilters g (fs ! i)) \<longrightarrow> i < j)"

lemma pipeline_sorts:
  assumes ok: "pipeline_ok p"
  obtains fs where "pl_ReorderFilters p = Some (p\<lparr>pl_filters := fs\<rparr>)" "mset fs = mset (pl_filters p)" "distinct fs"
    "acyclic (flinks (pl_graph p)) \<Longrightarrow> sorted_along (pl_graph p) fs"
proof -
  let ?g = "pl_graph p"
  have c: "consistent (GetPreFilters ?g) (GetNextFilters ?g) (pl_filters p)"
    by (rule graph_ok_consistent) (use ok in \<open>auto simp: pipeline_ok_def\<close>)
  obtain fs where r: "ReorderFilters (GetPreFilters ?g) (GetNextFilters ?g) (pl_filters p) = Some fs" "mset fs = mset (pl_filters p)"
    "distinct fs" "acyclic (links (GetNextFilters ?g) (pl_filters p)) \<Longrightarrow>
      \<forall>i < length fs. \<forall>f. (f, fs ! i) \<in> links (GetNextFilters ?g) (pl_filters p) \<longrightarrow> f \<in> set (take i fs)"
    by (rule ReorderFilters_sorts [OF c]) blast
  have set_fs: "set fs = set (pl_filters p)" by (rule mset_eq_setD [OF r(2)])
  have "sorted_along ?g fs" if ac: "acyclic (flinks ?g)"
    unfolding sorted_along_def
  proof (intro allI impI)
    have "links (GetNextFilters ?g) (pl_filters p) \<subseteq> flinks ?g" using ok by (auto simp: links_def flinks_def pipeline_ok_def)
    then have before: "\<forall>i < length fs. \<forall>f. (f, fs ! i) \<in> links (GetNextFilters ?g) (pl_filters p) \<longrightarrow> f \<in> set (take i fs)"
      by (intro r(4) acyclic_subset [OF ac])
    fix i j assume ij: "i < length fs" "j < length fs" "fs ! j \<in> set (GetNextFilters ?g (fs ! i))"
    have "fs ! i \<in> set (pl_filters p)" using ij(1) set_fs nth_mem by blast
    then have "(fs ! i, fs ! j) \<in> links (GetNextFilters ?g) (pl_filters p)" using ij(3) by (simp add: links_def)
    then have "fs ! i \<in> set (take j fs)" using before ij(2) by blast
    then obtain k where "k < j" "fs ! k = fs ! i" by (auto simp: in_set_conv_nth)
    then show "i < j" using nth_eq_iff_index_eq [OF r(3)] ij(1,2) by fastforce
  qed
  with r show thesis by (intro that [of fs]) (simp_all add: pl_ReorderFilters_def)
qed

text \<open>Filters whose methods only answer, and write down that they were called.\<close>

definition recording :: "(filter_call \<Rightarrow> nat \<Rightarrow> error_code) \<Rightarrow> filter_call \<Rightarrow> nat \<Rightarrow> (filter_call \<times> nat) list pipeline \<Rightarrow>
    error_code \<times> (filter_call \<times> nat) list pipeline" where
  "recording res c f p = (res c f, p\<lparr>pl_world := pl_world p @ [(c, f)]\<rparr>)"

lemma until_error_recorder:
  "\<exists>k \<le> length fs. snd (until_error (recording res c) fs p) = p\<lparr>pl_world := pl_world p @ map (Pair c) (take k fs)\<rparr> \<and>
     (\<forall>i. Suc i < k \<longrightarrow> res c (fs ! i) = EC_SUCCESS) \<and>
     (fst (until_error (recording res c) fs p) = EC_SUCCESS \<longleftrightarrow> (\<forall>f \<in> set fs. res c f = EC_SUCCESS)) \<and>
     (fst (until_error (recording res c) fs p) = EC_SUCCESS \<longrightarrow> k = length fs)"
proof (induction fs arbitrary: p)
  case Nil
  then show ?case by simp
next
  case (Cons f fs)
  let ?p = "p\<lparr>pl_world := pl_world p @ [(c, f)]\<rparr>"
  show ?case
  proof (cases "res c f = EC_SUCCESS")
    case False
    then show ?thesis by (intro exI [of _ 1]) (simp add: recording_def)
  next
    case True
    obtain k where k: "k \<le> length fs" "snd (until_error (recording res c) fs ?p) = ?p\<lparr>pl_world := pl_world ?p @ map (Pair c) (take k fs)\<rparr>"
      "\<forall>i. Suc i < k \<longrightarrow> res c (fs ! i) = EC_SUCCESS"
      "fst (until_error (recording res c) fs ?p) = EC_SUCCESS \<longleftrightarrow> (\<forall>f \<in> set fs. res c f = EC_SUCCESS)"
      "fst (until_error (recording res c) fs ?p) = EC_SUCCESS \<longrightarrow> k = length fs" using Cons.IH [of ?p] by blast
    have "until_error (recording res c) (f # fs) p = until_error (recording res c) fs ?p" using True by (simp add: recording_def)
    then show ?thesis using k True
      by (intro exI [of _ "Suc k"]) (auto simp: nth_Cons split: nat.split)
  qed
qed


section \<open>An example\<close>

text \<open>A source, a demuxer with an audio and a video port, and a sink for each, added out of order.\<close>

definition ex_graph :: graph where
  "ex_graph =
     \<lparr>gr_ports =
        [\<lparr>pt_owner = 0, pt_name = ''default'', pt_peer = Some 1\<rparr>, \<lparr>pt_owner = 1, pt_name = ''default'', pt_peer = Some 0\<rparr>,
         \<lparr>pt_owner = 1, pt_name = ''audio'', pt_peer = Some 4\<rparr>, \<lparr>pt_owner = 1, pt_name = ''video'', pt_peer = Some 5\<rparr>,
         \<lparr>pt_owner = 2, pt_name = ''default'', pt_peer = Some 2\<rparr>, \<lparr>pt_owner = 3, pt_name = ''default'', pt_peer = Some 3\<rparr>],
      gr_filters =
        [\<lparr>ft_in = [], ft_out = [0], ft_pipeline = Some 0\<rparr>, \<lparr>ft_in = [1], ft_out = [2, 3], ft_pipeline = Some 0\<rparr>,
         \<lparr>ft_in = [4], ft_out = [], ft_pipeline = Some 0\<rparr>, \<lparr>ft_in = [5], ft_out = [], ft_pipeline = Some 0\<rparr>]\<rparr>"

definition ex_pipeline :: "(filter_call \<times> nat) list pipeline" where
  "ex_pipeline = \<lparr>pl_ready = 0, pl_state = FS_INITIALIZED, pl_filters = [2, 1, 3, 0], pl_receiver = True, pl_toRemove = [],
     pl_graph = ex_graph, pl_notified = [], pl_world = []\<rparr>"

lemma ex_in_ports: "in_ports ex_graph = {1, 4, 5}" and ex_out_ports: "out_ports ex_graph = {0, 2, 3}"
  by (auto simp: in_ports_def out_ports_def ex_graph_def less_Suc_eq numeral_eq_Suc)

lemma ex_ports_less: "p < length (gr_ports ex_graph) \<longleftrightarrow> p = 0 \<or> p = Suc 0 \<or> p = 2 \<or> p = 3 \<or> p = 4 \<or> p = 5"
  and ex_filters_less: "f < length (gr_filters ex_graph) \<longleftrightarrow> f = 0 \<or> f = Suc 0 \<or> f = 2 \<or> f = 3"
  by (simp_all add: ex_graph_def) arith+

lemma ex_graph_ok: "graph_ok ex_graph"
  unfolding graph_ok_def ex_in_ports ex_out_ports ex_ports_less ex_filters_less
  by (intro conjI) (auto simp: ex_graph_def GetPeerPort_def)

lemma ex_next: "GetNextFilters ex_graph 0 = [Suc 0]" "GetNextFilters ex_graph (Suc 0) = [2, 3]" "GetNextFilters ex_graph 2 = []"
    "GetNextFilters ex_graph 3 = []"
    and ex_pre: "GetPreFilters ex_graph 0 = []" "GetPreFilters ex_graph (Suc 0) = [0]" "GetPreFilters ex_graph 2 = [Suc 0]"
    "GetPreFilters ex_graph 3 = [Suc 0]"
  by (simp_all add: GetNextFilters_def GetPreFilters_def map_filter_Cons map_filter_Nil peer_owner_def GetPeerPort_def ex_graph_def)

lemma ex_links: "flinks ex_graph = {(0, Suc 0), (Suc 0, 2), (Suc 0, 3)}"
  unfolding flinks_def ex_filters_less by (auto simp: ex_next)

lemma ex_acyclic: "acyclic (flinks ex_graph)"
proof -
  have "wf (flinks ex_graph)" by (rule wf_subset [OF wf_less_than]) (auto simp: ex_links)
  then show ?thesis by (rule wf_acyclic)
qed

lemma ex_pipeline_sel [simp]: "pl_graph ex_pipeline = ex_graph" "pl_filters ex_pipeline = [2, 1, 3, 0]" "pl_world ex_pipeline = []"
    "pl_receiver ex_pipeline" "pl_ready ex_pipeline = 0" "pl_notified ex_pipeline = []"
  by (simp_all add: ex_pipeline_def)

lemma ex_pipeline_ok: "pipeline_ok ex_pipeline"
  using ex_graph_ok by (simp add: pipeline_ok_def ex_next ex_pre ex_filters_less)

section \<open>Properties\<close>

text \<open>
  Sorting the filters always ends, and it changes nothing but their order: it loses no filter
  and adds none, also when the links have a cycle.
\<close>

theorem pipeline_sort_ends:
  assumes "pipeline_ok p"
  shows "\<exists>fs. pl_ReorderFilters p = Some (p\<lparr>pl_filters := fs\<rparr>) \<and> mset fs = mset (pl_filters p)"
  by (rule pipeline_sorts [OF assms]) blast

theorem pipeline_sort_ends_witness:
  "\<exists>fs. pl_ReorderFilters ex_pipeline = Some (ex_pipeline\<lparr>pl_filters := fs\<rparr>) \<and> mset fs = mset [2, 1, 3, 0]"
  using pipeline_sort_ends [OF ex_pipeline_ok] by simp

text \<open>
  Sorting is a topological sort: when the links have no cycle, every filter comes before the
  filters it passes data to.
\<close>

theorem pipeline_sort_topological:
  assumes "pipeline_ok p" "acyclic (flinks (pl_graph p))"
  shows "\<exists>fs. pl_ReorderFilters p = Some (p\<lparr>pl_filters := fs\<rparr>) \<and> mset fs = mset (pl_filters p) \<and> sorted_along (pl_graph p) fs"
  by (rule pipeline_sorts [OF assms(1)]) (use assms(2) in blast)

theorem pipeline_sort_topological_witness:
  "\<exists>fs. pl_ReorderFilters ex_pipeline = Some (ex_pipeline\<lparr>pl_filters := fs\<rparr>) \<and> mset fs = mset [2, 1, 3, 0] \<and> sorted_along ex_graph fs"
  using pipeline_sort_topological [OF ex_pipeline_ok] ex_acyclic by simp

text \<open>
  C9. Preparing a pipeline without cycles prepares the consumers first: each filter is prepared at
  most once, and only after every filter it passes data to has been prepared with success;
  \<open>Prepare\<close> succeeds exactly when all filters do, and then all were prepared.
\<close>

theorem pipeline_prepares_consumers_first:
  assumes "pipeline_ok p" "acyclic (flinks (pl_graph p))" "pl_world p = []"
  shows "\<exists>rtv q. pl_Prepare (recording res) p = Some (rtv, q) \<and> distinct (pl_world q) \<and>
    (\<forall>i < length (pl_world q). \<forall>h \<in> set (GetNextFilters (pl_graph p) (snd (pl_world q ! i))).
       (F_Prepare, h) \<in> set (take i (pl_world q)) \<and> res F_Prepare h = EC_SUCCESS) \<and>
    (rtv = EC_SUCCESS \<longleftrightarrow> (\<forall>f \<in> set (pl_filters p). res F_Prepare f = EC_SUCCESS)) \<and>
    (rtv = EC_SUCCESS \<longrightarrow> set (pl_world q) = Pair F_Prepare ` set (pl_filters p))"
proof -
  let ?p = "p\<lparr>pl_state := FS_PREPARING\<rparr>" and ?g = "pl_graph p"
  have "pipeline_ok ?p" using assms(1) by (simp add: pipeline_ok_def)
  then obtain fs where fs: "pl_ReorderFilters ?p = Some (?p\<lparr>pl_filters := fs\<rparr>)" "mset fs = mset (pl_filters ?p)" "distinct fs"
    "acyclic (flinks (pl_graph ?p)) \<Longrightarrow> sorted_along (pl_graph ?p) fs" by (rule pipeline_sorts) blast
  let ?q = "?p\<lparr>pl_filters := fs\<rparr>"
  have sorted: "sorted_along ?g fs" using fs(4) assms(2) by simp
  have sets: "set fs = set (pl_filters p)" using mset_eq_setD [OF fs(2)] by simp
  obtain k where k: "k \<le> length (rev fs)" "snd (until_error (recording res F_Prepare) (rev fs) ?q) =
      ?q\<lparr>pl_world := pl_world ?q @ map (Pair F_Prepare) (take k (rev fs))\<rparr>"
    "\<forall>i. Suc i < k \<longrightarrow> res F_Prepare (rev fs ! i) = EC_SUCCESS"
    "fst (until_error (recording res F_Prepare) (rev fs) ?q) = EC_SUCCESS \<longleftrightarrow> (\<forall>f \<in> set (rev fs). res F_Prepare f = EC_SUCCESS)"
    "fst (until_error (recording res F_Prepare) (rev fs) ?q) = EC_SUCCESS \<longrightarrow> k = length (rev fs)"
    using until_error_recorder [of "rev fs" res F_Prepare ?q] by blast
  let ?w = "map (Pair F_Prepare) (take k (rev fs))"
  have before: "(F_Prepare, h) \<in> set (take i ?w) \<and> res F_Prepare h = EC_SUCCESS"
    if i: "i < length ?w" and h: "h \<in> set (GetNextFilters ?g (snd (?w ! i)))" for i h
  proof -
    have ik: "i < k" "i < length fs" using i k(1) by simp_all
    have f: "snd (?w ! i) = fs ! (length fs - Suc i)" using ik by (simp add: rev_nth)
    have "fs ! (length fs - Suc i) \<in> set (pl_filters p)" using ik sets nth_mem by (metis diff_less less_zeroE linorder_neqE_nat zero_less_Suc)
    then have "h \<in> set fs" using assms(1) h f sets by (auto simp: pipeline_ok_def)
    then obtain j where j: "j < length fs" "fs ! j = h" by (auto simp: in_set_conv_nth)
    have "length fs - Suc i < j" using sorted j h f ik by (auto simp: sorted_along_def)
    then have ji: "length fs - Suc j < i" using j by linarith
    have hj: "rev fs ! (length fs - Suc j) = h" using j by (simp add: rev_nth)
    have "?w ! (length fs - Suc j) = (F_Prepare, h)" using ji ik hj by simp
    then have "(F_Prepare, h) \<in> set (take i ?w)" using ji i by (metis in_set_conv_nth length_take min.absorb4 nth_take)
    moreover have "res F_Prepare h = EC_SUCCESS" using k(3) ji ik hj by (metis Suc_lessI less_trans_Suc)
    ultimately show ?thesis by blast
  qed
  have w: "pl_world (snd (until_error (recording res F_Prepare) (rev fs) ?q)) = ?w" using k(2) assms(3) by simp
  have "distinct ?w" using fs(3) by (simp add: distinct_map inj_on_def)
  moreover have "pl_Prepare (recording res) p = Some (until_error (recording res F_Prepare) (rev fs) ?q)"
    using fs(1) by (simp add: pl_Prepare_def)
  moreover have "fst (until_error (recording res F_Prepare) (rev fs) ?q) = EC_SUCCESS \<longrightarrow> set ?w = Pair F_Prepare ` set (pl_filters p)"
    using k(5) sets by (simp add: take_all)
  moreover have "fst (until_error (recording res F_Prepare) (rev fs) ?q) = EC_SUCCESS \<longleftrightarrow>
      (\<forall>f \<in> set (pl_filters p). res F_Prepare f = EC_SUCCESS)" using k(4) sets by simp
  ultimately show ?thesis
    unfolding w [symmetric] using before [unfolded w [symmetric]] by (metis prod.collapse)
qed

theorem pipeline_prepares_consumers_first_witness:
  "\<exists>rtv q. pl_Prepare (recording (\<lambda>_ _. EC_SUCCESS)) ex_pipeline = Some (rtv, q) \<and> rtv = EC_SUCCESS \<and>
     set (pl_world q) = Pair F_Prepare ` {0, 1, 2, 3}"
  using pipeline_prepares_consumers_first [of ex_pipeline "\<lambda>_ _. EC_SUCCESS", OF ex_pipeline_ok] ex_acyclic
  by (auto simp: insert_commute)

text \<open>
  Linking keeps both ends of every link in agreement: linking a free out-port to a free in-port
  succeeds exactly when their filters are in the same pipeline, and then each knows the other;
  unlinking the predecessors of a filter takes exactly the links into it away.
\<close>

theorem links_stay_symmetric:
  assumes "graph_ok g" "a \<in> out_ports g" "b \<in> in_ports g" "GetPeerPort g a = None" "GetPeerPort g b = None"
    "f < length (gr_filters g)"
  shows "graph_ok (snd (LinkPorts (Some a) (Some b) g)) \<and>
    (fst (LinkPorts (Some a) (Some b) g) = EC_SUCCESS \<longleftrightarrow> InSamePipeline g a (Some b)) \<and>
    GetPeerPort (snd (LinkPorts (Some a) (Some b) g)) a = (if InSamePipeline g a (Some b) then Some b else None) \<and>
    graph_ok (UnlinkPrevFilters f g) \<and> GetPreFilters (UnlinkPrevFilters f g) f = [] \<and>
    (\<forall>v < length (gr_filters g). GetNextFilters (UnlinkPrevFilters f g) v = filter (\<lambda>w. w \<noteq> f) (GetNextFilters g v))"
proof -
  have len: "a < length (gr_ports g)" "b < length (gr_ports g)" using assms(2,3) by (simp_all add: in_ports_def out_ports_def)
  have "a \<noteq> b" using in_out_disjoint [OF assms(1,3)] assms(2) by auto
  then show ?thesis
    using LinkPorts_ok [OF assms(1-5)] UnlinkPrevFilters_next [OF assms(1,6)] assms(4,6) len
    by (simp add: LinkPorts_def OutPort_Connect_def InPort_Connect_def)
qed

theorem links_stay_symmetric_witness:
  "let g = UnlinkPrevFilters 3 ex_graph in
     graph_ok (snd (LinkPorts (Some 3) (Some 5) g)) \<and> fst (LinkPorts (Some 3) (Some 5) g) = EC_SUCCESS"
proof -
  let ?g = "UnlinkPrevFilters 3 ex_graph"
  have f: "3 < length (gr_filters ex_graph)" by (simp add: ex_graph_def)
  have ok: "graph_ok ?g" and sh: "shape ?g = shape ex_graph" by (rule UnlinkPrevFilters_next [OF ex_graph_ok f])+
  have ends: "3 \<in> out_ports ?g" "5 \<in> in_ports ?g" using shape_ports [OF sh] by (simp_all add: ex_in_ports ex_out_ports)
  have free: "GetPeerPort ?g 3 = None" "GetPeerPort ?g 5 = None" "InSamePipeline ?g 3 (Some 5)"
    by (simp_all add: UnlinkPrevFilters_def unlink_port_def Disconnect_def set_peer_def GetPeerPort_def InSamePipeline_def ex_graph_def Let_def)
  have "3 < length (gr_filters ?g)" using f shape_eqD(1) [OF sh] by simp
  from links_stay_symmetric [OF ok ends free(1,2) this] free(3) show ?thesis by (simp add: Let_def)
qed

text \<open>
  C12. Stopping takes what is behind the demuxer out of the pipeline: when the demuxer's \<open>Stop\<close> asks
  for the chains behind its ports to be removed and the other filters only stop, then the stopped
  pipeline holds, in their order, exactly the filters that the demuxer's data does not reach, no
  link leads to a removed filter any more, and the removal ends although the links are walked
  through while they are cut.
\<close>

theorem stop_removes_behind_demuxer:
  assumes "pipeline_ok p" "acyclic (flinks (pl_graph p))" "d \<in> set (pl_filters p)"
    "inj_on (\<lambda>a. pt_name (gr_ports (pl_graph p) ! a)) (set (ft_out (gr_filters (pl_graph p) ! d)))"
    "\<And>q r. DemuxerFilter_Stop d d q = Some r \<Longrightarrow> call F_Stop d q = r"
    "\<And>f q. f \<noteq> d \<Longrightarrow> call F_Stop f q = (EC_SUCCESS, q)"
  shows "fst (pl_Stop call p) = EC_SUCCESS \<and>
    pl_filters (snd (pl_Stop call p)) = filter (\<lambda>f. (d, f) \<notin> (flinks (pl_graph p))\<^sup>+) (pl_filters p) \<and>
    graph_ok (pl_graph (snd (pl_Stop call p))) \<and>
    (\<forall>f \<in> set (pl_filters p). GetNextFilters (pl_graph (snd (pl_Stop call p))) f =
       filter (\<lambda>h. (d, h) \<notin> (flinks (pl_graph p))\<^sup>+) (GetNextFilters (pl_graph p) f))"
proof -
  let ?p = "p\<lparr>pl_ready := 0, pl_state := FS_INITIALIZED, pl_toRemove := []\<rparr>" and ?g = "pl_graph p"
  have ok: "graph_ok ?g" "d < length (gr_filters ?g)" "distinct (pl_filters p)" using assms(1,3) by (auto simp: pipeline_ok_def)
  have pg: "?g = pl_graph ?p" by simp
  obtain g new where r: "DemuxerFilter_Stop d d ?p = Some (EC_SUCCESS, ?p\<lparr>pl_graph := g, pl_toRemove := pl_toRemove ?p @ new\<rparr>)"
    "set new = (flinks ?g)\<^sup>+ `` {d}" "cut_off (set new) ?g g"
    by (rule demuxer_stop [OF ok(1) assms(2) ok(2) assms(4) pg])
  let ?q = "?p\<lparr>pl_graph := g, pl_toRemove := new\<rparr>"
  have stop: "call F_Stop d ?p = (EC_SUCCESS, ?q)" using assms(5) [OF r(1)] by simp
  obtain xs ys where split: "rev (pl_filters p) = xs @ d # ys" using assms(3) by (metis in_set_conv_decomp set_rev)
  have "distinct (xs @ d # ys)" using ok(3) split by (metis distinct_rev)
  then have notd: "d \<notin> set xs" "d \<notin> set ys" by auto
  have "until_error (call F_Stop) xs ?p = (EC_SUCCESS, ?p)" "until_error (call F_Stop) ys ?q = (EC_SUCCESS, ?q)"
    by (rule until_error_quiet; use notd in \<open>auto intro: assms(6)\<close>)+
  then have "until_error (call F_Stop) (rev (pl_filters p)) ?p = (EC_SUCCESS, ?q)"
    using stop by (simp add: split until_error_append)
  then have res: "pl_Stop call p = (EC_SUCCESS, fold pl_RemoveFilter new ?q)" by (simp add: pl_Stop_def)
  have "pl_filters (fold pl_RemoveFilter new ?q) = filter (\<lambda>f. f \<notin> set new) (pl_filters p)" using ok(3) by (simp add: fold_remove)
  moreover have "\<forall>f \<in> set (pl_filters p). f < length (gr_filters ?g)" using assms(1) by (simp add: pipeline_ok_def)
  ultimately show ?thesis using res r(2,3) by (simp add: cut_off_def)
qed

text \<open>Filters of which only the demuxer does something when it is stopped.\<close>

definition stopper :: "nat \<Rightarrow> filter_call \<Rightarrow> nat \<Rightarrow> 'x pipeline \<Rightarrow> error_code \<times> 'x pipeline" where
  "stopper d c f p = (if f = d then (case DemuxerFilter_Stop d d p of Some r \<Rightarrow> r | None \<Rightarrow> (EC_SUCCESS, p)) else (EC_SUCCESS, p))"

theorem stop_removes_behind_demuxer_witness:
  "pl_filters (snd (pl_Stop (stopper 1) ex_pipeline)) = [1, 0]"
proof -
  have tr: "(flinks ex_graph)\<^sup>+ `` {1} = {2, 3}"
  proof -
    have "(1, v) \<in> (flinks ex_graph)\<^sup>+ \<Longrightarrow> v \<in> {2, 3}" for v
      by (induction rule: trancl_induct) (auto simp: ex_links)
    then show ?thesis by (auto simp: ex_links)
  qed
  then have "(1, f) \<in> (flinks ex_graph)\<^sup>+ \<longleftrightarrow> f = 2 \<or> f = 3" for f by blast
  moreover have "inj_on (\<lambda>a. pt_name (gr_ports (pl_graph ex_pipeline) ! a)) (set (ft_out (gr_filters (pl_graph ex_pipeline) ! 1)))"
    by (simp add: ex_graph_def)
  ultimately show ?thesis
    using stop_removes_behind_demuxer [of ex_pipeline 1 "stopper 1", OF ex_pipeline_ok] ex_acyclic by (simp add: stopper_def)
qed

text \<open>
  The pipeline is ready when all its filters are: of any sequence of events, in any order and
  from any filters, every event that is not a ready event is passed on, in order, and the ready
  events passed on are one for every n ready events received, n being the number of filters.
\<close>

theorem pipeline_ready_counts:
  assumes "pl_receiver p" "pl_filters p \<noteq> []" "pl_ready p = 0" "pl_notified p = []"
  shows "length (filter is_ready (pl_notified (fold OnEvent es p))) = length (filter is_ready es) div length (pl_filters p) \<and>
    filter (\<lambda>e. \<not> is_ready e) (pl_notified (fold OnEvent es p)) = filter (\<lambda>e. \<not> is_ready e) es"
proof -
  have "pl_ready p < length (pl_filters p)" using assms(2,3) by simp
  from ready_run [OF assms(1,2) this, of es] assms(3,4)
  have r: "pl_ready (fold OnEvent es p) < length (pl_filters p)"
    "length (filter is_ready es) = length (filter is_ready (pl_notified (fold OnEvent es p))) * length (pl_filters p) + pl_ready (fold OnEvent es p)"
    "filter (\<lambda>e. \<not> is_ready e) (pl_notified (fold OnEvent es p)) = filter (\<lambda>e. \<not> is_ready e) es"
    by simp_all
  then show ?thesis using assms(2) by (simp add: div_mult_self3)
qed

theorem pipeline_ready_counts_witness:
  "pl_filters (fold OnEvent (replicate 9 \<lparr>ev_src = ''sink'', ev_type = EVENT_READY\<rparr>) ex_pipeline) = [2, 1, 3, 0] \<and>
   length (filter is_ready (pl_notified (fold OnEvent (replicate 9 \<lparr>ev_src = ''sink'', ev_type = EVENT_READY\<rparr>) ex_pipeline))) = 2"
proof -
  let ?es = "replicate 9 \<lparr>ev_src = ''sink'', ev_type = EVENT_READY\<rparr>"
  have "pl_filters (fold OnEvent es p) = pl_filters p" for es and p :: "(filter_call \<times> nat) list pipeline"
    by (induction es arbitrary: p) simp_all
  then have "pl_filters (fold OnEvent ?es ex_pipeline) = [2, 1, 3, 0]" by (simp only: ex_pipeline_sel)
  moreover have "length (filter is_ready ?es) = 9" by (simp add: is_ready_def)
  ultimately show ?thesis
    using pipeline_ready_counts [of ex_pipeline ?es] by (simp only: ex_pipeline_sel) simp
qed

end
