(* ===== verification/Hi_Recorder.thy ===== *)
theory Hi_Recorder
  imports Recorder_Fsm Hi_Player Pipeline_Props
begin

text \<open>
  The recorder of the standard system (engine/scene/recorder/standard/hirecorder_impl.cpp with
  recorder_utils.cpp): the executor of the recorder's state machine and the operations of the application.

  The filters are numbers. The argument \<open>R\<close> is what the factory, the filters and the kernel answer; the
  pipeline is \<open>PipelineCore\<close> of Pipeline_Core. What the thread of the machine and the pipeline do
  while an operation waits is a list of \<open>rec_thing\<close>s. A parameter carries its value as the cast of
  recorder_utils.cpp would; floating-point numbers are their bits.
\<close>

section \<open>Sources, formats and parameters\<close>

datatype audio_source = AUDIO_SOURCE_INVALID | AUDIO_SOURCE_DEFAULT | AUDIO_MIC | AUDIO_SOURCE_OTHER nat
datatype video_source = VIDEO_SOURCE_SURFACE_YUV | VIDEO_SOURCE_SURFACE_ES | VIDEO_SOURCE_BUTT | VIDEO_SOURCE_OTHER nat
datatype src_input = SI_UNKNOWN | SI_AUD_MIC | SI_AUD_ES | SI_VID_SURFACE_YUV | SI_VID_SURFACE_RGB | SI_VID_SURFACE_ES
datatype output_format = FORMAT_DEFAULT | FORMAT_MPEG_4 | FORMAT_M4A | FORMAT_BUTT | FORMAT_OTHER nat
datatype audio_codec = AUDIO_DEFAULT | AAC_LC | AUDIO_CODEC_OTHER nat
datatype video_codec = VC_H264 | VC_MPEG4 | VIDEO_CODEC_OTHER nat

datatype rec_param =
    AudSampleRate int | AudChannel int | AudBitRate int | AudEnc audio_codec
  | CaptureRate u64 | VidRectangle int int | VidBitRate int | VidFrameRate int | VidEnc video_codec
  | OutFilePath string | OutFd int | RotationAngle int | GeoLocation u64 u64 | MaxDuration int | MaxFileSize int
  | OtherParam nat

fun TransAudioInputType :: "audio_source \<Rightarrow> src_input" where
  "TransAudioInputType AUDIO_MIC = SI_AUD_MIC"
| "TransAudioInputType AUDIO_SOURCE_DEFAULT = SI_AUD_MIC"
| "TransAudioInputType _ = SI_UNKNOWN"

fun TransVideoInputType :: "video_source \<Rightarrow> src_input" where
  "TransVideoInputType VIDEO_SOURCE_SURFACE_YUV = SI_VID_SURFACE_YUV"
| "TransVideoInputType VIDEO_SOURCE_SURFACE_ES = SI_VID_SURFACE_ES"
| "TransVideoInputType _ = SI_UNKNOWN"

datatype enc_meta = ENC_AAC_LC | ENC_H264_BASELINE int | ENC_MPEG4

fun TransAudioEncoderFmt :: "audio_codec \<Rightarrow> enc_meta option" where
  "TransAudioEncoderFmt AUDIO_DEFAULT = Some ENC_AAC_LC"
| "TransAudioEncoderFmt AAC_LC = Some ENC_AAC_LC"
| "TransAudioEncoderFmt _ = None"

fun TransVideoEncoderFmt :: "video_codec \<Rightarrow> enc_meta option" where
  "TransVideoEncoderFmt VC_H264 = Some (ENC_H264_BASELINE 32)"
| "TransVideoEncoderFmt VC_MPEG4 = Some ENC_MPEG4"
| "TransVideoEncoderFmt _ = None"

definition SOURCE_MASK :: u32 where "SOURCE_MASK = 0xF00"
definition VIDEO_MASK :: u32 where "VIDEO_MASK = 0x100"
definition AUDIO_MASK :: u32 where "AUDIO_MASK = 0x200"
definition INDEX_MASK :: u32 where "INDEX_MASK = 0xFF"

definition GenerateAudioSourceId :: "u32 \<Rightarrow> int" where
  "GenerateAudioSourceId index = sint (AUDIO_MASK + and INDEX_MASK index)"
definition GenerateVideoSourceId :: "u32 \<Rightarrow> int" where
  "GenerateVideoSourceId index = sint (VIDEO_MASK + and INDEX_MASK index)"
definition IsAudio :: "int \<Rightarrow> bool" where
  "IsAudio sourceId \<longleftrightarrow> sourceId > 0 \<and> and (word_of_int sourceId) SOURCE_MASK = AUDIO_MASK"
definition IsVideo :: "int \<Rightarrow> bool" where
  "IsVideo sourceId \<longleftrightarrow> sourceId > 0 \<and> and (word_of_int sourceId) SOURCE_MASK = VIDEO_MASK"

fun g_outputFormatToMimeMap :: "output_format \<Rightarrow> string option" where
  "g_outputFormatToMimeMap FORMAT_DEFAULT = Some ''video/mp4''"
| "g_outputFormatToMimeMap FORMAT_MPEG_4 = Some ''video/mp4''"
| "g_outputFormatToMimeMap FORMAT_M4A = Some ''video/mp4''"
| "g_outputFormatToMimeMap _ = None"

fun CastAudRecorderParam :: "rec_param \<Rightarrow> bool" where
  "CastAudRecorderParam (AudSampleRate _) = True" | "CastAudRecorderParam (AudChannel _) = True"
| "CastAudRecorderParam (AudBitRate _) = True" | "CastAudRecorderParam (AudEnc _) = True"
| "CastAudRecorderParam _ = False"

fun CastVidRecorderParam :: "rec_param \<Rightarrow> bool" where
  "CastVidRecorderParam (CaptureRate _) = True" | "CastVidRecorderParam (VidRectangle _ _) = True"
| "CastVidRecorderParam (VidBitRate _) = True" | "CastVidRecorderParam (VidFrameRate _) = True"
| "CastVidRecorderParam (VidEnc _) = True" | "CastVidRecorderParam _ = False"

fun CastDummyRecorderParam :: "rec_param \<Rightarrow> bool" where
  "CastDummyRecorderParam (OutFilePath _) = True" | "CastDummyRecorderParam (OutFd _) = True"
| "CastDummyRecorderParam (RotationAngle _) = True" | "CastDummyRecorderParam (GeoLocation _ _) = True"
| "CastDummyRecorderParam (MaxDuration _) = True" | "CastDummyRecorderParam (MaxFileSize _) = True"
| "CastDummyRecorderParam _ = False"

section \<open>State\<close>

datatype rec_any = Any_None | Any_Source int src_input | Any_Format output_format | Any_Param int rec_param
  | Any_Bool bool | Any_Error error_code

datatype rec_tag = RT_APP_TOKEN_ID | RT_APP_FULL_TOKEN_ID | RT_APP_UID | RT_APP_PID | RT_AUDIO_SAMPLE_RATE | RT_AUDIO_CHANNELS
  | RT_MEDIA_BITRATE | RT_VIDEO_WIDTH | RT_VIDEO_HEIGHT | RT_VIDEO_FRAME_RATE

datatype rec_request = RQ_SetParameter rec_tag int | RQ_SetInput src_input | RQ_SetCaptureRate u64 | RQ_SetEncoder int enc_meta
  | RQ_SetOutputFormat string | RQ_SetSinkFd int | RQ_SetMaxDuration int | RQ_SetMaxSize int | RQ_SendEos

record 'w recorder_ops =
  ro_create :: "string \<Rightarrow> 'w pipeline \<Rightarrow> nat option \<times> 'w pipeline"
  ro_call :: "filter_call \<Rightarrow> nat \<Rightarrow> 'w pipeline \<Rightarrow> error_code \<times> 'w pipeline"
  ro_ask :: "rec_request \<Rightarrow> nat \<Rightarrow> 'w pipeline \<Rightarrow> error_code \<times> 'w pipeline"
  ro_AddTrack :: "nat \<Rightarrow> 'w pipeline \<Rightarrow> error_code \<times> nat option \<times> 'w pipeline"
  ro_GetSurface :: "nat \<Rightarrow> 'w pipeline \<Rightarrow> error_code \<times> nat option"
  ro_dup :: "int \<Rightarrow> int"
  ro_IsAudioParam :: "rec_param \<Rightarrow> bool"
  ro_IsVideoParam :: "rec_param \<Rightarrow> bool"
  ro_DUMMY_SOURCE_ID :: int

datatype rec_info = RN_State rec_state | RN_Error mserr

text \<open>\<open>hr_gone\<close> are the filters whose last owner has let go of them.\<close>

record 'w hirec =
  hr_audioCount :: u32
  hr_videoCount :: u32
  hr_audioSourceId :: int
  hr_videoSourceId :: int
  hr_app :: "int \<times> int \<times> int \<times> int"
  hr_format :: output_format
  hr_cur :: rec_state
  hr_initialized :: bool
  hr_stats :: media_stats
  hr_obs :: bool
  hr_told :: "rec_info list"
  hr_muxer :: nat
  hr_sink :: nat
  hr_audioCapture :: "nat option"
  hr_audioEncoder :: "nat option"
  hr_videoCapture :: "nat option"
  hr_videoEncoder :: "nat option"
  hr_gone :: "nat list"
  hr_pipe :: "'w pipeline"

type_synonym 'w hi_recorder = "(rec_any, 'w hirec) recorder"

text \<open>A call with the pipeline as it is.\<close>

definition with_pipe :: "('w pipeline \<Rightarrow> error_code \<times> 'w pipeline) \<Rightarrow> 'w hirec \<Rightarrow> error_code \<times> 'w hirec" where
  "with_pipe h x = (case h (hr_pipe x) of (e, p) \<Rightarrow> (e, x\<lparr>hr_pipe := p\<rparr>))"

definition ask_filter :: "'w recorder_ops \<Rightarrow> rec_request \<Rightarrow> nat \<Rightarrow> 'w hirec \<Rightarrow> error_code \<times> 'w hirec" where
  "ask_filter R r f = with_pipe (ro_ask R r f)"

definition create_filter :: "'w recorder_ops \<Rightarrow> string \<Rightarrow> 'w hirec \<Rightarrow> nat option \<times> 'w hirec" where
  "create_filter R name x = (case ro_create R name (hr_pipe x) of (f, p) \<Rightarrow> (f, x\<lparr>hr_pipe := p\<rparr>))"

definition new_pipe :: "'w pipeline \<Rightarrow> 'w pipeline" where
  "new_pipe p = p\<lparr>pl_ready := 0, pl_state := FS_CREATED, pl_filters := [], pl_receiver := False, pl_toRemove := []\<rparr>"

text \<open>Without both filters there is no pipeline, and \<open>Init\<close> follows a null pointer.\<close>

definition new_hi_recorder :: "'w recorder_ops \<Rightarrow> int \<times> int \<times> int \<times> int \<Rightarrow> 'w pipeline \<Rightarrow> (fault, 'w hi_recorder) sum" where
  "new_hi_recorder R app p =
     (case ro_create R ''builtin.recorder.muxer'' p of
        (m, p1) \<Rightarrow>
          (case ro_create R ''builtin.recorder.output_sink'' p1 of
             (k, p2) \<Rightarrow>
               (case (m, k) of
                  (Some mux, Some sink) \<Rightarrow>
                    Inr (new_recorder \<lparr>hr_audioCount = 0, hr_videoCount = 0, hr_audioSourceId = 0, hr_videoSourceId = 0, hr_app = app,
                      hr_format = FORMAT_BUTT, hr_cur = RS_INIT, hr_initialized = False, hr_stats = [], hr_obs = False, hr_told = [],
                      hr_muxer = mux, hr_sink = sink, hr_audioCapture = None, hr_audioEncoder = None, hr_videoCapture = None,
                      hr_videoEncoder = None, hr_gone = [], hr_pipe = new_pipe p2\<rparr>)
                | _ \<Rightarrow> Inl Null_Deref)))"

definition hr_Init :: "'w recorder_ops \<Rightarrow> 'w hi_recorder \<Rightarrow> error_code \<times> 'w hi_recorder" where
  "hr_Init R s =
     (let x = rm_exec s
      in if hr_initialized x then (EC_SUCCESS, s)
         else let fs = [hr_muxer x, hr_sink x];
                  x1 = x\<lparr>hr_stats := [], hr_pipe := pl_Init True (hr_pipe x)\<rparr>;
                  (ret, x2) = with_pipe (pl_AddFilters (ro_call R) fs) x1;
                  (ret2, x3) = (if ret = EC_SUCCESS then with_pipe (pl_LinkFilters fs) x2 else (ret, x2))
              in if ret2 = EC_SUCCESS then (ret2, s\<lparr>rm_callback := True, rm_exec := x3\<lparr>hr_initialized := True\<rparr>\<rparr>)
                 else (ret2, s\<lparr>rm_exec := (case pl_RemoveFilterChain (Some (hr_muxer x)) (hr_pipe x3) of
                        None \<Rightarrow> x3 | Some (_, p) \<Rightarrow> x3\<lparr>hr_pipe := p\<rparr>)\<rparr>))"

section \<open>The executor of the machine\<close>

definition DoSetVideoSource :: "'w recorder_ops \<Rightarrow> rec_any \<Rightarrow> 'w hirec \<Rightarrow> error_code \<times> 'w hirec" where
  "DoSetVideoSource R param x =
     (case hr_videoCapture x of
        None \<Rightarrow> (EC_ERROR_INVALID_OPERATION, x)
      | Some f \<Rightarrow> (case param of Any_Source _ srcType \<Rightarrow> ask_filter R (RQ_SetInput srcType) f x | _ \<Rightarrow> (EC_ERROR_INVALID_PARAMETER_TYPE, x)))"

definition DoSetAudioSource :: "'w recorder_ops \<Rightarrow> rec_any \<Rightarrow> 'w hirec \<Rightarrow> error_code \<times> 'w hirec" where
  "DoSetAudioSource R param x =
     (case hr_audioCapture x of
        None \<Rightarrow> (EC_ERROR_INVALID_OPERATION, x)
      | Some f \<Rightarrow> (case param of Any_Source _ srcType \<Rightarrow> ask_filter R (RQ_SetInput srcType) f x | _ \<Rightarrow> (EC_ERROR_INVALID_PARAMETER_TYPE, x)))"

definition to_uint32 :: "int \<Rightarrow> int" where "to_uint32 i = i mod 2 ^ 32"

definition DoConfigureAudio :: "'w recorder_ops \<Rightarrow> int \<Rightarrow> rec_param \<Rightarrow> 'w hirec \<Rightarrow> error_code \<times> 'w hirec" where
  "DoConfigureAudio R srcId param x =
     (case (hr_audioCapture x, hr_audioEncoder x) of
        (Some capture, Some encoder) \<Rightarrow>
          (case param of
             AudSampleRate r \<Rightarrow> ask_filter R (RQ_SetParameter RT_AUDIO_SAMPLE_RATE (to_uint32 r)) capture x
           | AudChannel c \<Rightarrow> ask_filter R (RQ_SetParameter RT_AUDIO_CHANNELS (to_uint32 c)) capture x
           | AudBitRate b \<Rightarrow>
               if b > 0 then ask_filter R (RQ_SetParameter RT_MEDIA_BITRATE b) capture x else (EC_ERROR_INVALID_PARAMETER_VALUE, x)
           | AudEnc fmt \<Rightarrow>
               (case TransAudioEncoderFmt fmt of
                  None \<Rightarrow> (EC_ERROR_INVALID_PARAMETER_VALUE, x)
                | Some m \<Rightarrow> ask_filter R (RQ_SetEncoder srcId m) encoder x)
           | _ \<Rightarrow> (EC_SUCCESS, x))
      | _ \<Rightarrow> (EC_ERROR_INVALID_OPERATION, x))"

definition DoConfigureVideo :: "'w recorder_ops \<Rightarrow> int \<Rightarrow> rec_param \<Rightarrow> 'w hirec \<Rightarrow> error_code \<times> 'w hirec" where
  "DoConfigureVideo R srcId param x =
     (case (hr_videoCapture x, hr_videoEncoder x) of
        (Some capture, Some encoder) \<Rightarrow>
          (case param of
             VidRectangle w h \<Rightarrow>
               (case ask_filter R (RQ_SetParameter RT_VIDEO_WIDTH (to_uint32 w)) capture x of
                  (ret, x1) \<Rightarrow>
                    if ret = EC_SUCCESS then ask_filter R (RQ_SetParameter RT_VIDEO_HEIGHT (to_uint32 h)) capture x1 else (ret, x1))
           | CaptureRate r \<Rightarrow> ask_filter R (RQ_SetCaptureRate r) capture x
           | VidBitRate b \<Rightarrow> ask_filter R (RQ_SetParameter RT_MEDIA_BITRATE (if b \<ge> 0 then b else 0)) capture x
           | VidFrameRate r \<Rightarrow> ask_filter R (RQ_SetParameter RT_VIDEO_FRAME_RATE (to_uint32 (if r \<ge> 0 then r else 0))) capture x
           | VidEnc fmt \<Rightarrow>
               (case TransVideoEncoderFmt fmt of
                  None \<Rightarrow> (EC_ERROR_INVALID_PARAMETER_VALUE, x)
                | Some m \<Rightarrow> ask_filter R (RQ_SetEncoder srcId m) encoder x)
           | _ \<Rightarrow> (EC_SUCCESS, x))
      | _ \<Rightarrow> (EC_ERROR_INVALID_OPERATION, x))"

definition DoConfigureOther :: "'w recorder_ops \<Rightarrow> rec_param \<Rightarrow> 'w hirec \<Rightarrow> error_code \<times> 'w hirec" where
  "DoConfigureOther R param x =
     (case param of
        OutFd fd \<Rightarrow>
          let fd1 = ro_dup R fd
          in if fd1 \<ge> 0 then ask_filter R (RQ_SetSinkFd fd1) (hr_sink x) x else (EC_ERROR_INVALID_PARAMETER_VALUE, x)
      | MaxDuration d \<Rightarrow> ask_filter R (RQ_SetMaxDuration (max 0 (case Sec2HstTime d of Some t \<Rightarrow> t | None \<Rightarrow> 0))) (hr_muxer x) x
      | MaxFileSize n \<Rightarrow> ask_filter R (RQ_SetMaxSize (max 0 n)) (hr_muxer x) x
      | _ \<Rightarrow> (EC_SUCCESS, x))"

definition DoConfigure :: "'w recorder_ops \<Rightarrow> rec_any \<Rightarrow> 'w hirec \<Rightarrow> error_code \<times> 'w hirec" where
  "DoConfigure R param x =
     (case param of
        Any_Param srcId p \<Rightarrow>
          (case p of
             AudSampleRate _ \<Rightarrow> DoConfigureAudio R srcId p x | AudChannel _ \<Rightarrow> DoConfigureAudio R srcId p x
           | AudBitRate _ \<Rightarrow> DoConfigureAudio R srcId p x | AudEnc _ \<Rightarrow> DoConfigureAudio R srcId p x
           | CaptureRate _ \<Rightarrow> DoConfigureVideo R srcId p x | VidRectangle _ _ \<Rightarrow> DoConfigureVideo R srcId p x
           | VidBitRate _ \<Rightarrow> DoConfigureVideo R srcId p x | VidFrameRate _ \<Rightarrow> DoConfigureVideo R srcId p x
           | VidEnc _ \<Rightarrow> DoConfigureVideo R srcId p x
           | OutFilePath _ \<Rightarrow> DoConfigureOther R p x | OutFd _ \<Rightarrow> DoConfigureOther R p x
           | RotationAngle _ \<Rightarrow> DoConfigureOther R p x | GeoLocation _ _ \<Rightarrow> DoConfigureOther R p x
           | _ \<Rightarrow> (EC_SUCCESS, x))
      | _ \<Rightarrow> (EC_ERROR_INVALID_PARAMETER_TYPE, x))"

definition DoSetOutputFormat :: "'w recorder_ops \<Rightarrow> rec_any \<Rightarrow> 'w hirec \<Rightarrow> error_code \<times> 'w hirec" where
  "DoSetOutputFormat R param x =
     (case param of
        Any_Format fmt \<Rightarrow>
          (case g_outputFormatToMimeMap fmt of
             Some mime \<Rightarrow> ask_filter R (RQ_SetOutputFormat mime) (hr_muxer x) x
           | None \<Rightarrow> (EC_ERROR_INVALID_PARAMETER_TYPE, x))
      | _ \<Rightarrow> (EC_ERROR_INVALID_PARAMETER_TYPE, x))"

text \<open>
  Sorting the filters ends on the links of a pipeline (Pipeline_Props), so the last case of \<open>DoPrepare\<close> does
  not come up.
\<close>

definition DoPrepare :: "'w recorder_ops \<Rightarrow> 'w hirec \<Rightarrow> error_code \<times> 'w hirec" where
  "DoPrepare R x = with_pipe (\<lambda>p. case pl_Prepare (ro_call R) p of Some r \<Rightarrow> r | None \<Rightarrow> (EC_ERROR_UNKNOWN, p)) x"

definition DoPause :: "'w recorder_ops \<Rightarrow> 'w hirec \<Rightarrow> error_code \<times> 'w hirec" where
  "DoPause R x = (if hr_cur x = RS_READY then (EC_SUCCESS, x) else with_pipe (pl_Pause (ro_call R)) x)"

definition no_sources :: "'w hirec \<Rightarrow> 'w hirec" where
  "no_sources x = x\<lparr>hr_audioCount := 0, hr_videoCount := 0, hr_audioSourceId := 0, hr_videoSourceId := 0\<rparr>"

definition DoStop :: "'w recorder_ops \<Rightarrow> rec_any \<Rightarrow> 'w hirec \<Rightarrow> error_code \<times> 'w hirec" where
  "DoStop R param x =
     (let x1 = x\<lparr>hr_stats := []\<rparr>;
          eos = (\<lambda>f r. case f of None \<Rightarrow> r | Some g \<Rightarrow> ask_filter R RQ_SendEos g (snd r));
          (ret, x2) =
            (if param = Any_Bool True then eos (hr_videoCapture x1) (eos (hr_audioCapture x1) (EC_SUCCESS, x1))
             else ask_filter R RQ_SendEos (hr_muxer x1) x1)
      in (ret, no_sources x2))"

definition DoReset :: "'w recorder_ops \<Rightarrow> 'w hirec \<Rightarrow> error_code \<times> 'w hirec" where
  "DoReset R x = (case with_pipe (pl_Stop (ro_call R)) x of (ret, x1) \<Rightarrow> (ret, no_sources (x1\<lparr>hr_stats := []\<rparr>)))"

fun rec_exec :: "'w recorder_ops \<Rightarrow> (rec_any, 'w hirec) rec_executor" where
  "rec_exec R (RDoSetVideoSource p) = DoSetVideoSource R p"
| "rec_exec R (RDoSetAudioSource p) = DoSetAudioSource R p"
| "rec_exec R (RDoConfigure p) = DoConfigure R p"
| "rec_exec R (RDoSetOutputFormat p) = DoSetOutputFormat R p"
| "rec_exec R RDoPrepare = DoPrepare R"
| "rec_exec R RDoStart = with_pipe (pl_Start (ro_call R))"
| "rec_exec R RDoPause = DoPause R"
| "rec_exec R RDoResume = with_pipe (pl_Resume (ro_call R))"
| "rec_exec R (RDoStop p) = DoStop R p"
| "rec_exec R RDoOnComplete = with_pipe (pl_Stop (ro_call R))"
| "rec_exec R RDoReset = DoReset R"

section \<open>Events\<close>

datatype rec_event = RE_ERROR error_code | RE_READY | RE_COMPLETE string | RE_OTHER

definition hr_tell :: "rec_info \<Rightarrow> 'w hirec \<Rightarrow> 'w hirec" where
  "hr_tell n x = (if hr_obs x then x\<lparr>hr_told := hr_told x @ [n]\<rparr> else x)"

definition hr_OnStateChanged :: "rec_state \<Rightarrow> 'w hirec \<Rightarrow> 'w hirec" where
  "hr_OnStateChanged st x = hr_tell (RN_State st) (x\<lparr>hr_cur := st\<rparr>)"

definition hr_post :: "rec_intent \<Rightarrow> rec_any \<Rightarrow> 'w hi_recorder \<Rightarrow> 'w hi_recorder" where
  "hr_post i p s = snd (rec_SendEventAsync i p s)"

fun hr_OnEvent :: "rec_event \<Rightarrow> 'w hi_recorder \<Rightarrow> 'w hi_recorder" where
  "hr_OnEvent (RE_ERROR e) s =
     (let s1 = hr_post RI_NOTIFY_ERROR (Any_Error e) s in s1\<lparr>rm_exec := hr_tell (RN_Error (TransErrorCode e)) (rm_exec s1)\<rparr>)"
| "hr_OnEvent RE_READY s = hr_post RI_NOTIFY_READY Any_None s"
| "hr_OnEvent (RE_COMPLETE src) s =
     (let s1 = s\<lparr>rm_exec := (rm_exec s)\<lparr>hr_stats := ms_ReceiveComplete src (hr_stats (rm_exec s))\<rparr>\<rparr>
      in if IsEventCompleteAllReceived (hr_stats (rm_exec s1)) then hr_post RI_NOTIFY_COMPLETE Any_None s1 else s1)"
| "hr_OnEvent RE_OTHER s = s"

text \<open>
  A turn of the machine's thread, with the changes of state it reports. The code reports each inside
  \<open>TransitionTo\<close>, before whoever waits for the intent is notified; here they are reported at the
  end of the turn. It is the same to the executor: of its calls only \<open>DoPause\<close> looks at the reported
  state, and an intent to pause is the first of its turn, as only one to start is ever deferred.
\<close>

definition rec_turn :: "'w recorder_ops \<Rightarrow> 'w hi_recorder \<Rightarrow> 'w hi_recorder" where
  "rec_turn R s = (let s1 = rec_DoTask (rec_exec R) s in s1\<lparr>rm_changes := [], rm_exec := fold hr_OnStateChanged (rm_changes s1) (rm_exec s1)\<rparr>)"

datatype rec_thing = T_Turn | T_Event rec_event

fun rec_things :: "'w recorder_ops \<Rightarrow> rec_thing list \<Rightarrow> 'w hi_recorder \<Rightarrow> 'w hi_recorder" where
  "rec_things R [] s = s"
| "rec_things R (T_Turn # ts) s = rec_things R ts (rec_turn R s)"
| "rec_things R (T_Event e # ts) s = rec_things R ts (hr_OnEvent e s)"

definition hr_send :: "'w recorder_ops \<Rightarrow> rec_thing list \<Rightarrow> rec_intent \<Rightarrow> rec_any \<Rightarrow> 'w hi_recorder \<Rightarrow> error_code call \<times> 'w hi_recorder" where
  "hr_send R ts i p s = rec_SendEvent (rec_things R ts) i p s"

section \<open>Setting sources\<close>

text \<open>The four parameters of the application; what the filter answers is not looked at.\<close>

definition set_app :: "'w recorder_ops \<Rightarrow> nat \<Rightarrow> 'w hirec \<Rightarrow> 'w hirec" where
  "set_app R f x =
     (case hr_app x of
        (uid, pid, tok, full) \<Rightarrow>
          fold (\<lambda>(t, v) x. snd (ask_filter R (RQ_SetParameter t v) f x))
            [(RT_APP_TOKEN_ID, tok), (RT_APP_FULL_TOKEN_ID, full), (RT_APP_UID, uid), (RT_APP_PID, pid)] x)"

text \<open>\<open>FALSE_RETURN\<close> after each step of building a chain.\<close>

definition link_chain :: "'w recorder_ops \<Rightarrow> nat \<Rightarrow> nat \<Rightarrow> 'w hirec \<Rightarrow> error_code \<times> 'w hirec" where
  "link_chain R capture encoder x =
     (case with_pipe (pl_AddFilters (ro_call R) [capture, encoder]) x of
        (ret, x1) \<Rightarrow>
          if ret \<noteq> EC_SUCCESS then (ret, x1)
          else (case with_pipe (pl_LinkFilters [capture, encoder]) x1 of
                  (ret, x2) \<Rightarrow>
                    if ret \<noteq> EC_SUCCESS then (ret, x2)
                    else (case ro_AddTrack R (hr_muxer x2) (hr_pipe x2) of
                            (ret, port, p) \<Rightarrow>
                              if ret \<noteq> EC_SUCCESS then (ret, x2\<lparr>hr_pipe := p\<rparr>)
                              else with_pipe (pl_LinkPorts (GetOutPort (pl_graph p) encoder PORT_NAME_DEFAULT) port) (x2\<lparr>hr_pipe := p\<rparr>))))"

definition add_audio_chain :: "'w recorder_ops \<Rightarrow> 'w hirec \<Rightarrow> (fault, error_code \<times> 'w hirec) sum" where
  "add_audio_chain R x =
     (if hr_audioCapture x \<noteq> None then Inr (EC_SUCCESS, x)
      else case create_filter R ''builtin.recorder.audiocapture'' x of
             (c, x1) \<Rightarrow>
               (case create_filter R ''builtin.recorder.audioencoder'' (x1\<lparr>hr_audioCapture := c\<rparr>) of
                  (e, x2) \<Rightarrow>
                    let x3 = x2\<lparr>hr_audioEncoder := e, hr_gone := hr_gone x2 @ (case hr_audioEncoder x2 of None \<Rightarrow> [] | Some f \<Rightarrow> [f])\<rparr>
                    in (case (c, e) of (Some cf, Some ef) \<Rightarrow> Inr (link_chain R cf ef x3) | _ \<Rightarrow> Inl Null_Deref)))"

text \<open>A filter that is replaced was the recorder's alone.\<close>

definition let_go :: "nat option \<Rightarrow> 'w hirec \<Rightarrow> 'w hirec" where
  "let_go f x = x\<lparr>hr_gone := hr_gone x @ (case f of None \<Rightarrow> [] | Some g \<Rightarrow> [g])\<rparr>"

definition add_video_chain :: "'w recorder_ops \<Rightarrow> 'w hirec \<Rightarrow> error_code \<times> 'w hirec" where
  "add_video_chain R x =
     (case create_filter R ''builtin.recorder.videocapture'' x of
        (c, x1) \<Rightarrow>
          (case create_filter R ''builtin.recorder.videoencoder'' (let_go (hr_videoCapture x1) (x1\<lparr>hr_videoCapture := c\<rparr>)) of
             (e, x2) \<Rightarrow>
               let x3 = let_go (hr_videoEncoder x2) (x2\<lparr>hr_videoEncoder := e\<rparr>)
               in (case (c, e) of (Some cf, Some ef) \<Rightarrow> link_chain R cf ef x3 | _ \<Rightarrow> (EC_ERROR_UNKNOWN, x3))))"

definition SetAudioSourceInternal ::
  "'w recorder_ops \<Rightarrow> rec_thing list \<Rightarrow> audio_source \<Rightarrow> int \<Rightarrow> 'w hi_recorder \<Rightarrow> (fault, error_code call \<times> 'w hi_recorder) sum" where
  "SetAudioSourceInternal R ts source sourceId s =
     (case add_audio_chain R (rm_exec s) of
        Inl f \<Rightarrow> Inl f
      | Inr (ret, x) \<Rightarrow>
          if ret \<noteq> EC_SUCCESS then Inr (Returns ret, s\<lparr>rm_exec := x\<rparr>)
          else (case (hr_audioCapture x, hr_audioEncoder x) of
                  (Some cf, Some ef) \<Rightarrow>
                    Inr (hr_send R ts RI_SET_AUDIO_SOURCE (Any_Source sourceId (TransAudioInputType source)) (s\<lparr>rm_exec := set_app R cf x\<rparr>))
                | _ \<Rightarrow> Inr (Returns EC_ERROR_UNKNOWN, s\<lparr>rm_exec := x\<rparr>)))"

definition SetVideoSourceInternal ::
  "'w recorder_ops \<Rightarrow> rec_thing list \<Rightarrow> video_source \<Rightarrow> int \<Rightarrow> 'w hi_recorder \<Rightarrow> error_code call \<times> 'w hi_recorder" where
  "SetVideoSourceInternal R ts source sourceId s =
     (case add_video_chain R (rm_exec s) of
        (ret, x) \<Rightarrow>
          if ret \<noteq> EC_SUCCESS then (Returns ret, s\<lparr>rm_exec := x\<rparr>)
          else hr_send R ts RI_SET_VIDEO_SOURCE (Any_Source sourceId (TransVideoInputType source)) (s\<lparr>rm_exec := x\<rparr>))"

definition INVALID_SOURCE_ID :: int where "INVALID_SOURCE_ID = -1"
definition AUDIO_SOURCE_MAX_COUNT :: u32 where "AUDIO_SOURCE_MAX_COUNT = 1"
definition VIDEO_SOURCE_MAX_COUNT :: u32 where "VIDEO_SOURCE_MAX_COUNT = 1"

definition hr_SetAudioSource ::
  "'w recorder_ops \<Rightarrow> rec_thing list \<Rightarrow> audio_source \<Rightarrow> 'w hi_recorder \<Rightarrow> (fault, (mserr \<times> int) call \<times> 'w hi_recorder) sum" where
  "hr_SetAudioSource R ts source s =
     (if source = AUDIO_SOURCE_INVALID then Inr (Returns (TransErrorCode EC_ERROR_INVALID_PARAMETER_VALUE, INVALID_SOURCE_ID), s)
      else if \<not> hr_audioCount (rm_exec s) < AUDIO_SOURCE_MAX_COUNT
      then Inr (Returns (TransErrorCode EC_ERROR_INVALID_OPERATION, INVALID_SOURCE_ID), s)
      else let tempSourceId = GenerateAudioSourceId (hr_audioCount (rm_exec s))
           in (case SetAudioSourceInternal R ts source tempSourceId s of
                 Inl f \<Rightarrow> Inl f
               | Inr (Blocks, s1) \<Rightarrow> Inr (Blocks, s1)
               | Inr (Returns ret, s1) \<Rightarrow>
                   if ret = EC_SUCCESS
                   then Inr (Returns (TransErrorCode ret, tempSourceId),
                          s1\<lparr>rm_exec := (rm_exec s1)\<lparr>hr_audioCount := hr_audioCount (rm_exec s1) + 1, hr_audioSourceId := tempSourceId\<rparr>\<rparr>)
                   else Inr (Returns (TransErrorCode ret, INVALID_SOURCE_ID), s1)))"

definition hr_SetVideoSource ::
  "'w recorder_ops \<Rightarrow> rec_thing list \<Rightarrow> video_source \<Rightarrow> 'w hi_recorder \<Rightarrow> (mserr \<times> int) call \<times> 'w hi_recorder" where
  "hr_SetVideoSource R ts source s =
     (if source = VIDEO_SOURCE_BUTT then (Returns (TransErrorCode EC_ERROR_INVALID_PARAMETER_VALUE, INVALID_SOURCE_ID), s)
      else if \<not> hr_videoCount (rm_exec s) < VIDEO_SOURCE_MAX_COUNT
      then (Returns (TransErrorCode EC_ERROR_INVALID_OPERATION, INVALID_SOURCE_ID), s)
      else let tempSourceId = GenerateVideoSourceId (hr_videoCount (rm_exec s))
           in (case SetVideoSourceInternal R ts source tempSourceId s of
                 (Blocks, s1) \<Rightarrow> (Blocks, s1)
               | (Returns ret, s1) \<Rightarrow>
                   if ret = EC_SUCCESS
                   then (Returns (TransErrorCode ret, tempSourceId),
                          s1\<lparr>rm_exec := (rm_exec s1)\<lparr>hr_videoCount := hr_videoCount (rm_exec s1) + 1, hr_videoSourceId := tempSourceId\<rparr>\<rparr>)
                   else (Returns (TransErrorCode ret, INVALID_SOURCE_ID), s1)))"

section \<open>The other operations of the application\<close>

definition GetSurface :: "'w recorder_ops \<Rightarrow> int \<Rightarrow> 'w hirec \<Rightarrow> nat option" where
  "GetSurface R sourceId x =
     (if \<not> (IsVideo sourceId \<and> sourceId = hr_videoSourceId x) then None
      else case hr_videoCapture x of None \<Rightarrow> None
           | Some f \<Rightarrow> (case ro_GetSurface R f (hr_pipe x) of (ec, surface) \<Rightarrow> if ec = EC_SUCCESS then None else surface))"

definition trans_call :: "error_code call \<times> 's \<Rightarrow> mserr call \<times> 's" where
  "trans_call r = (map_call TransErrorCode (fst r), snd r)"

definition hr_SetOutputFormat :: "'w recorder_ops \<Rightarrow> rec_thing list \<Rightarrow> output_format \<Rightarrow> 'w hi_recorder \<Rightarrow> mserr call \<times> 'w hi_recorder" where
  "hr_SetOutputFormat R ts format s =
     (if format = FORMAT_BUTT then (Returns (TransErrorCode EC_ERROR_INVALID_OPERATION), s)
      else if \<not> hr_audioCount (rm_exec s) + hr_videoCount (rm_exec s) > 0 then (Returns (TransErrorCode EC_ERROR_INVALID_OPERATION), s)
      else trans_call (hr_send R ts RI_SET_OUTPUT_FORMAT (Any_Format format) (s\<lparr>rm_exec := (rm_exec s)\<lparr>hr_format := format\<rparr>\<rparr>)))"

definition hr_SetObs :: "'w hi_recorder \<Rightarrow> mserr \<times> 'w hi_recorder" where
  "hr_SetObs s = (TransErrorCode EC_SUCCESS, s\<lparr>rm_exec := (rm_exec s)\<lparr>hr_obs := True\<rparr>\<rparr>)"

definition CheckParamType :: "'w recorder_ops \<Rightarrow> int \<Rightarrow> rec_param \<Rightarrow> 'w hirec \<Rightarrow> bool" where
  "CheckParamType R sourceId p x \<longleftrightarrow>
     IsAudio sourceId \<and> ro_IsAudioParam R p \<and> hr_audioSourceId x = sourceId \<or>
     IsVideo sourceId \<and> ro_IsVideoParam R p \<and> hr_videoSourceId x = sourceId \<or>
     sourceId = ro_DUMMY_SOURCE_ID R \<and> \<not> (ro_IsAudioParam R p \<or> ro_IsVideoParam R p)"

definition CastRecorderParam :: "'w recorder_ops \<Rightarrow> rec_param \<Rightarrow> bool" where
  "CastRecorderParam R p =
     (if ro_IsAudioParam R p then CastAudRecorderParam p
      else if ro_IsVideoParam R p then CastVidRecorderParam p
      else CastDummyRecorderParam p)"

definition hr_Configure :: "'w recorder_ops \<Rightarrow> rec_thing list \<Rightarrow> int \<Rightarrow> rec_param \<Rightarrow> 'w hi_recorder \<Rightarrow> mserr call \<times> 'w hi_recorder" where
  "hr_Configure R ts sourceId p s =
     (if hr_format (rm_exec s) = FORMAT_BUTT then (Returns (TransErrorCode EC_ERROR_INVALID_OPERATION), s)
      else if \<not> CheckParamType R sourceId p (rm_exec s) then (Returns (TransErrorCode EC_ERROR_INVALID_PARAMETER_VALUE), s)
      else if \<not> CastRecorderParam R p then (Returns (TransErrorCode EC_ERROR_INVALID_PARAMETER_VALUE), s)
      else trans_call (hr_send R ts RI_CONFIGURE (Any_Param sourceId p) s))"

text \<open>While \<open>Prepare\<close> waits for its intent \<open>ts\<close> happens, while it waits for a change of state \<open>us\<close>.\<close>

definition hr_Prepare :: "'w recorder_ops \<Rightarrow> rec_thing list \<Rightarrow> rec_thing list \<Rightarrow> 'w hi_recorder \<Rightarrow> mserr call \<times> 'w hi_recorder" where
  "hr_Prepare R ts us s =
     (case hr_send R ts RI_PREPARE Any_None s of
        (Blocks, s1) \<Rightarrow> (Blocks, s1)
      | (Returns ret, s1) \<Rightarrow>
          if ret \<noteq> EC_SUCCESS then (Returns (TransErrorCode ret), s1)
          else let s2 = (if hr_cur (rm_exec s1) = RS_RECORDING_SETTING then rec_things R us s1 else s1)
               in if hr_cur (rm_exec s2) = RS_RECORDING_SETTING then (Blocks, s2)
                  else (Returns (TransErrorCode (if hr_cur (rm_exec s2) = RS_READY then EC_SUCCESS else EC_ERROR_UNKNOWN)), s2))"

definition hr_Start :: "'w recorder_ops \<Rightarrow> rec_thing list \<Rightarrow> 'w hi_recorder \<Rightarrow> mserr call \<times> 'w hi_recorder" where
  "hr_Start R ts s = trans_call (hr_send R ts (if hr_cur (rm_exec s) = RS_PAUSE then RI_RESUME else RI_START) Any_None s)"

definition hr_Pause :: "'w recorder_ops \<Rightarrow> rec_thing list \<Rightarrow> 'w hi_recorder \<Rightarrow> mserr call \<times> 'w hi_recorder" where
  "hr_Pause R ts s = trans_call (hr_send R ts RI_PAUSE Any_None s)"

definition hr_Resume :: "'w recorder_ops \<Rightarrow> rec_thing list \<Rightarrow> 'w hi_recorder \<Rightarrow> mserr call \<times> 'w hi_recorder" where
  "hr_Resume R ts s = trans_call (hr_send R ts RI_RESUME Any_None s)"

definition hr_Stop :: "'w recorder_ops \<Rightarrow> rec_thing list \<Rightarrow> rec_thing list \<Rightarrow> bool \<Rightarrow> 'w hi_recorder \<Rightarrow> mserr call \<times> 'w hi_recorder" where
  "hr_Stop R ts us isDrainAll s =
     (case hr_send R ts RI_STOP (Any_Bool isDrainAll) (s\<lparr>rm_exec := (rm_exec s)\<lparr>hr_format := FORMAT_BUTT\<rparr>\<rparr>) of
        (Blocks, s1) \<Rightarrow> (Blocks, s1)
      | (Returns ret, s1) \<Rightarrow>
          if TransErrorCode ret \<noteq> MSERR_OK then (Returns (TransErrorCode ret), s1)
          else let s2 = (if hr_cur (rm_exec s1) = RS_ERROR \<or> hr_cur (rm_exec s1) = RS_INIT then s1 else rec_things R us s1)
               in (Returns (if hr_cur (rm_exec s2) = RS_INIT then MSERR_OK else MSERR_UNKNOWN), s2))"

definition hr_Reset ::
  "'w recorder_ops \<Rightarrow> rec_thing list \<Rightarrow> rec_thing list \<Rightarrow> rec_thing list \<Rightarrow> 'w hi_recorder \<Rightarrow> mserr call \<times> 'w hi_recorder" where
  "hr_Reset R ts us vs s =
     (case (if hr_cur (rm_exec s) = RS_RECORDING then hr_Stop R ts us False s else (Returns MSERR_OK, s)) of
        (Blocks, s1) \<Rightarrow> (Blocks, s1)
      | (Returns _, s1) \<Rightarrow> trans_call (hr_send R vs RI_RESET Any_None s1))"

definition hr_SetParameter :: "'w recorder_ops \<Rightarrow> rec_thing list \<Rightarrow> int \<Rightarrow> rec_param \<Rightarrow> 'w hi_recorder \<Rightarrow> mserr call \<times> 'w hi_recorder" where
  "hr_SetParameter R ts sourceId p s = hr_Configure R ts sourceId p s"

section \<open>What the recorder believes of its machine\<close>

text \<open>The executor leaves the state the recorder was told of alone.\<close>

lemma with_pipe_cur: "hr_cur (snd (with_pipe h x)) = hr_cur x"
  by (simp add: with_pipe_def split: prod.split)

lemma ask_cur: "hr_cur (snd (ask_filter R r f x)) = hr_cur x"
  by (simp add: ask_filter_def with_pipe_cur)

lemma with_pipe_curD: "with_pipe h x = (r, y) \<Longrightarrow> hr_cur y = hr_cur x"
  by (metis snd_conv with_pipe_cur)

lemma ask_curD: "ask_filter R r f x = (e, y) \<Longrightarrow> hr_cur y = hr_cur x"
  by (metis snd_conv ask_cur)

lemma configure_cur:
  "hr_cur (snd (DoConfigureAudio R i p x)) = hr_cur x" "hr_cur (snd (DoConfigureVideo R i p x)) = hr_cur x"
  "hr_cur (snd (DoConfigureOther R p x)) = hr_cur x"
  by (auto simp: DoConfigureAudio_def DoConfigureVideo_def DoConfigureOther_def ask_cur Let_def
      dest: ask_curD split: option.split rec_param.split prod.split)

lemma exec_cur: "hr_cur (snd (rec_exec R c x)) = hr_cur x"
proof (cases c)
  case (RDoStop p)
  have "hr_cur (snd (DoStop R p x)) = hr_cur x"
    by (auto simp: DoStop_def no_sources_def ask_cur Let_def dest!: ask_curD
        split: option.split prod.split)
  then show ?thesis using RDoStop by simp
next
  case RDoReset
  then show ?thesis
    by (auto simp: DoReset_def no_sources_def dest: with_pipe_curD split: prod.split)
qed (auto simp: DoSetVideoSource_def DoSetAudioSource_def DoConfigure_def DoSetOutputFormat_def DoPrepare_def DoPause_def
    with_pipe_cur ask_cur configure_cur split: option.split rec_any.split rec_param.split)

text \<open>Every change of the machine's state is reported, in order.\<close>

definition noted :: "('p, 'x) recorder \<Rightarrow> ('p, 'x) recorder \<Rightarrow> bool" where
  "noted s t \<longleftrightarrow> rm_callback t = rm_callback s \<and>
     (rm_callback s \<longrightarrow> (\<exists>cs. rm_changes t = rm_changes s @ cs \<and> rm_cur t = last (rm_cur s # cs)))"

lemma noted_same: "rm_callback t = rm_callback s \<Longrightarrow> rm_changes t = rm_changes s \<Longrightarrow> rm_cur t = rm_cur s \<Longrightarrow> noted s t"
  by (simp add: noted_def)

lemma noted_trans: "noted s t \<Longrightarrow> noted t u \<Longrightarrow> noted s u"
  unfolding noted_def by (metis append.assoc last.simps last_append last_appendR append_Cons append_is_Nil_conv)

lemma action_noted:
  assumes "\<And>c x. g (snd (ex c x)) = g x"
  shows "noted s (snd (rec_ProcAction ex a s)) \<and> g (rm_exec (snd (rec_ProcAction ex a s))) = g (rm_exec s)"
proof -
  have keep: "ex c x = (r, y) \<Longrightarrow> g y = g x" for c x r y using assms [of c x] by simp
  have "noted s t \<and> g (rm_exec t) = g (rm_exec s)" if t: "t = snd (rec_TransitionTo ex st s)" for st t
  proof (cases "st = rm_cur s")
    case False
    obtain r b y where y: "rc_Enter (rec_state_of ex st) (rm_last s) (rm_exec s) = ((r, b), y)" by (metis surj_pair)
    then have "g y = g (rm_exec s)"
      by (cases st) (auto simp: rec_class_defs rec_reply_defs split: prod.splits if_splits dest!: keep)
    moreover have "t = rec_note (s\<lparr>rm_cur := st, rm_exec := y\<rparr>)" using t y False by (simp add: rec_TransitionTo_eq)
    ultimately show ?thesis by (simp add: noted_def rec_note_def)
  qed (use t in \<open>simp add: rec_TransitionTo_eq noted_same\<close>)
  then show ?thesis by (simp add: rec_ProcAction_eq noted_same split: option.split)
qed

lemma dispatch_exec:
  assumes "\<And>c x. g (snd (ex c x)) = g x" "rec_DispatchIntent (rec_state_of ex st) i p x = ((r, a), y)"
  shows "g y = g x"
proof -
  have keep: "ex c x = (r, y) \<Longrightarrow> g y = g x" for c x r y using assms(1) [of c x] by simp
  show ?thesis using assms(2)
    by (cases st; cases i)
      (auto simp: rec_DispatchIntent_def rec_class_defs rec_reply_defs assms(1) dest: keep split: prod.splits if_splits)
qed

lemma intent_noted:
  assumes "\<And>c x. g (snd (ex c x)) = g x"
  shows "noted s (snd (rec_ProcessIntent ex j s)) \<and> g (rm_exec (snd (rec_ProcessIntent ex j s))) = g (rm_exec s)"
proof -
  obtain rtv a t where e: "rec_execute ex (fst j) (snd j) s = (rtv, a, t)" by (metis prod_cases3)
  obtain r x where d: "rec_DispatchIntent (rec_state_of ex (rm_cur s)) (fst j) (snd j) (rm_exec s) = ((r, a), x)"
    "t = snd (rec_ProcAction ex a (s\<lparr>rm_last := fst j, rm_exec := x\<rparr>))"
    using rec_execute_split [OF e] by blast
  have "noted s (s\<lparr>rm_last := fst j, rm_exec := x\<rparr>)" by (simp add: noted_same)
  then have st: "noted s t" "g (rm_exec t) = g (rm_exec s)"
    using action_noted [where g = g and ex = ex, OF assms, of "s\<lparr>rm_last := fst j, rm_exec := x\<rparr>" a]
      dispatch_exec [where g = g and ex = ex, OF assms d(1)] d(2) noted_trans by auto
  have "noted t (rec_OnIntentExecuted i b c t)" for i b c by (simp add: noted_same rec_OnIntentExecuted_def rec_Notify_def)
  then show ?thesis using e st(2) noted_trans [OF st(1)] by (simp add: rec_ProcessIntent_def)
qed

lemma task_noted:
  assumes "\<And>c x. g (snd (ex c x)) = g x"
  shows "noted s (rec_DoTask ex s) \<and> g (rm_exec (rec_DoTask ex s)) = g (rm_exec s)"
proof -
  have pend: "noted t (rec_run_pending ex t) \<and> g (rm_exec (rec_run_pending ex t)) = g (rm_exec t)" for t
  proof (cases "rm_pending t")
    case (Cons j js)
    obtain a u where r: "rec_ProcessIntent ex j (t\<lparr>rm_pending := js\<rparr>) = (a, u)" by fastforce
    have "noted t (t\<lparr>rm_pending := js\<rparr>)" by (simp add: noted_same)
    then have u: "noted t u" "g (rm_exec u) = g (rm_exec t)"
      using intent_noted [where g = g and ex = ex, OF assms, of "t\<lparr>rm_pending := js\<rparr>" j] r noted_trans by auto
    have "noted t (u\<lparr>rm_pending := ks\<rparr>)" for ks by (rule noted_trans [OF u(1)]) (simp add: noted_same)
    then show ?thesis using u r Cons by (simp add: rec_run_pending_def)
  qed (simp add: rec_run_pending_def noted_same)
  obtain r q where pop: "bl_Pop (rm_jobs s) = (r, q)" by fastforce
  have s: "noted s (s\<lparr>rm_jobs := q\<rparr>)" by (simp add: noted_same)
  show ?thesis
  proof (cases "\<exists>j. r = Returns (Some j)")
    case True
    then obtain j where j: "r = Returns (Some j)" by blast
    obtain a t where t: "rec_ProcessIntent ex j (s\<lparr>rm_jobs := q\<rparr>) = (a, t)" by fastforce
    have st: "noted s t" "g (rm_exec t) = g (rm_exec s)"
      using intent_noted [where g = g and ex = ex, OF assms, of "s\<lparr>rm_jobs := q\<rparr>" j] t noted_trans [OF s] by auto
    have "noted s (t\<lparr>rm_pending := ks\<rparr>)" for ks by (rule noted_trans [OF st(1)]) (simp add: noted_same)
    moreover have "noted s (rec_run_pending ex t)" using pend [of t] noted_trans [OF st(1)] by blast
    ultimately show ?thesis using pend [of t] pop j t st by (simp add: rec_DoTask_def)
  next
    case False
    then show ?thesis using s pop by (auto simp: rec_DoTask_def split: call.split option.split)
  qed
qed

text \<open>What the recorder was told last is the state the machine is in.\<close>

definition knows_state :: "'w hi_recorder \<Rightarrow> bool" where
  "knows_state s \<longleftrightarrow> rm_callback s \<and> rm_changes s = [] \<and> hr_cur (rm_exec s) = rm_cur s"

lemma told_cur: "hr_cur (hr_tell n x) = hr_cur x"
  by (simp add: hr_tell_def)

lemma reports_cur: "hr_cur (fold hr_OnStateChanged cs x) = last (hr_cur x # cs)"
  by (induction cs arbitrary: x) (auto simp: hr_OnStateChanged_def told_cur)

lemma turn_knows: "knows_state s \<Longrightarrow> knows_state (rec_turn R s)"
  using task_noted [where g = hr_cur and ex = "rec_exec R", OF exec_cur, of s] by (auto simp: rec_turn_def knows_state_def noted_def Let_def reports_cur)

lemma post_knows: "knows_state s \<Longrightarrow> knows_state (hr_post i p s)"
  by (simp add: hr_post_def rec_SendEventAsync_def knows_state_def split: prod.split call.split)

lemma things_knows: "knows_state s \<Longrightarrow> knows_state (rec_things R ts s)"
proof (induction R ts s rule: rec_things.induct)
  case (3 R e ts s)
  have "knows_state (hr_OnEvent e s)"
  proof (cases e)
    case (RE_ERROR c)
    then show ?thesis using post_knows [OF "3.prems", of RI_NOTIFY_ERROR "Any_Error c"] by (simp add: Let_def knows_state_def told_cur)
  next
    case (RE_COMPLETE src)
    have "knows_state (s\<lparr>rm_exec := (rm_exec s)\<lparr>hr_stats := st\<rparr>\<rparr>)" for st using "3.prems" by (simp add: knows_state_def)
    then show ?thesis using RE_COMPLETE by (simp add: Let_def post_knows)
  qed (use 3 post_knows in simp_all)
  then show ?case using 3 by simp
qed (simp_all add: turn_knows)

lemma send_knows: "knows_state s \<Longrightarrow> hr_send R ts i p s = (r, t) \<Longrightarrow> knows_state t"
proof -
  assume s: "knows_state s" and r: "hr_send R ts i p s = (r, t)"
  have sync: "knows_state u \<Longrightarrow> knows_state (u\<lparr>rm_sync := y\<rparr>)" for u y by (simp add: knows_state_def)
  obtain c u where c: "rec_SendEventAsync i p (s\<lparr>rm_sync := (rm_sync s)\<lparr>sy_wait := insert i (sy_wait (rm_sync s))\<rparr>\<rparr>) = (c, u)" by fastforce
  have "knows_state u" using post_knows [OF sync [OF s], of i p] c unfolding hr_post_def by (metis snd_conv)
  then show "knows_state t" using r c sync things_knows [of u R ts]
    by (auto simp: hr_send_def rec_SendEvent_def Let_def split: call.splits if_splits option.splits)
qed

text \<open>The operations of an application, with what happens while each waits.\<close>

datatype recorder_use =
    U_SetAudioSource "rec_thing list" audio_source | U_SetVideoSource "rec_thing list" video_source
  | U_SetOutputFormat "rec_thing list" output_format | U_SetObs | U_Configure "rec_thing list" int rec_param
  | U_Prepare "rec_thing list" "rec_thing list" | U_Start "rec_thing list" | U_Pause "rec_thing list" | U_Resume "rec_thing list"
  | U_Stop "rec_thing list" "rec_thing list" bool | U_Reset "rec_thing list" "rec_thing list" "rec_thing list"
  | U_Things "rec_thing list"

fun use_recorder :: "'w recorder_ops \<Rightarrow> recorder_use \<Rightarrow> 'w hi_recorder \<Rightarrow> (fault, 'w hi_recorder) sum" where
  "use_recorder R (U_SetAudioSource ts a) s = map_sum id snd (hr_SetAudioSource R ts a s)"
| "use_recorder R (U_SetVideoSource ts v) s = Inr (snd (hr_SetVideoSource R ts v s))"
| "use_recorder R (U_SetOutputFormat ts f) s = Inr (snd (hr_SetOutputFormat R ts f s))"
| "use_recorder R U_SetObs s = Inr (snd (hr_SetObs s))"
| "use_recorder R (U_Configure ts i p) s = Inr (snd (hr_Configure R ts i p s))"
| "use_recorder R (U_Prepare ts us) s = Inr (snd (hr_Prepare R ts us s))"
| "use_recorder R (U_Start ts) s = Inr (snd (hr_Start R ts s))"
| "use_recorder R (U_Pause ts) s = Inr (snd (hr_Pause R ts s))"
| "use_recorder R (U_Resume ts) s = Inr (snd (hr_Resume R ts s))"
| "use_recorder R (U_Stop ts us d) s = Inr (snd (hr_Stop R ts us d s))"
| "use_recorder R (U_Reset ts us vs) s = Inr (snd (hr_Reset R ts us vs s))"
| "use_recorder R (U_Things ts) s = Inr (rec_things R ts s)"

fun use_recorder_all :: "'w recorder_ops \<Rightarrow> recorder_use list \<Rightarrow> 'w hi_recorder \<Rightarrow> (fault, 'w hi_recorder) sum" where
  "use_recorder_all R [] s = Inr s"
| "use_recorder_all R (u # us) s = (case use_recorder R u s of Inl f \<Rightarrow> Inl f | Inr t \<Rightarrow> use_recorder_all R us t)"

lemma knows_exec: "knows_state s \<Longrightarrow> hr_cur x = hr_cur (rm_exec s) \<Longrightarrow> knows_state (s\<lparr>rm_exec := x\<rparr>)"
  by (simp add: knows_state_def)

lemma chain_cur:
  "hr_cur (snd (link_chain R c e x)) = hr_cur x" "hr_cur (snd (add_video_chain R x)) = hr_cur x"
  "add_audio_chain R x = Inr (r, y) \<Longrightarrow> hr_cur y = hr_cur x" "hr_cur (set_app R f x) = hr_cur x"
proof -
  show link: "hr_cur (snd (link_chain R c e x)) = hr_cur x" for c e x
    by (auto simp: link_chain_def with_pipe_cur dest!: with_pipe_curD split: prod.split)
  then have linkD: "link_chain R c e x = (r, y) \<Longrightarrow> hr_cur y = hr_cur x" for c e x r y by (metis snd_conv)
  have create: "create_filter R n x = (f, y) \<Longrightarrow> hr_cur y = hr_cur x" for n x f y by (auto simp: create_filter_def split: prod.splits)
  show "hr_cur (snd (add_video_chain R x)) = hr_cur x"
    by (auto simp: add_video_chain_def let_go_def Let_def link dest!: create split: prod.split option.split)
  show "add_audio_chain R x = Inr (r, y) \<Longrightarrow> hr_cur y = hr_cur x"
    by (auto simp: add_audio_chain_def Let_def dest!: create linkD split: prod.splits option.splits if_splits)
  show "hr_cur (set_app R f x) = hr_cur x"
    by (simp add: set_app_def ask_cur split: prod.split)
qed

lemma send_knows_snd: "knows_state s \<Longrightarrow> knows_state (snd (trans_call (hr_send R ts i p s)))"
  unfolding trans_call_def snd_conv by (rule send_knows [OF _ surjective_pairing])

lemma stop_knows: "hr_Stop R ts us d s = (r, t) \<Longrightarrow> knows_state s \<Longrightarrow> knows_state t \<and> (r = Returns MSERR_OK \<longrightarrow> rm_cur t = RS_INIT)"
proof -
  assume r: "hr_Stop R ts us d s = (r, t)" and s: "knows_state s"
  let ?s = "s\<lparr>rm_exec := (rm_exec s)\<lparr>hr_format := FORMAT_BUTT\<rparr>\<rparr>"
  obtain c u where c: "hr_send R ts RI_STOP (Any_Bool d) ?s = (c, u)" by fastforce
  have "knows_state ?s" using s by (simp add: knows_state_def)
  from send_knows [OF this c] have u: "knows_state u" .
  have "knows_state (rec_things R us u)" by (rule things_knows [OF u])
  then show ?thesis using r c u by (auto simp: hr_Stop_def knows_state_def Let_def split: call.splits if_splits)
qed

lemma prepare_knows: "hr_Prepare R ts us s = (r, t) \<Longrightarrow> knows_state s \<Longrightarrow> knows_state t \<and> (r = Returns MSERR_OK \<longrightarrow> rm_cur t = RS_READY)"
proof -
  assume r: "hr_Prepare R ts us s = (r, t)" and s: "knows_state s"
  obtain c u where c: "hr_send R ts RI_PREPARE Any_None s = (c, u)" by fastforce
  from send_knows [OF s c] have u: "knows_state u" .
  have v: "knows_state (rec_things R us u)" by (rule things_knows [OF u])
  have ok: "TransErrorCode e = MSERR_OK \<Longrightarrow> e = EC_SUCCESS" for e by (cases e) simp_all
  show ?thesis using r c u v ok by (auto simp: hr_Prepare_def knows_state_def Let_def split: call.splits if_splits)
qed

lemma audio_knows: "knows_state s \<Longrightarrow> hr_SetAudioSource R ts a s = Inr (r, t) \<Longrightarrow> knows_state t"
proof -
  assume s: "knows_state s" and t: "hr_SetAudioSource R ts a s = Inr (r, t)"
  have inner: "knows_state v" if v: "SetAudioSourceInternal R ts a i s = Inr (c, v)" for i c v
  proof -
    obtain e x where x: "add_audio_chain R (rm_exec s) = Inr (e, x)" using v by (auto simp: SetAudioSourceInternal_def split: sum.splits)
    have cur: "hr_cur x = hr_cur (rm_exec s)" using chain_cur(3) [OF x] .
    have k: "knows_state (s\<lparr>rm_exec := set_app R f x\<rparr>)" "knows_state (s\<lparr>rm_exec := x\<rparr>)" for f using s cur by (simp_all add: knows_exec chain_cur(4))
    show ?thesis using v x k(2) send_knows [OF k(1)]
      by (auto simp: SetAudioSourceInternal_def split: if_splits option.splits)
  qed
  show "knows_state t" using t s
    by (auto simp: hr_SetAudioSource_def Let_def dest!: inner intro: knows_exec split: sum.splits call.splits if_splits prod.splits)
qed

lemma video_knows: "knows_state s \<Longrightarrow> knows_state (snd (hr_SetVideoSource R ts a s))"
proof -
  assume s: "knows_state s"
  have inner: "knows_state (snd (SetVideoSourceInternal R ts a i s))" for i
  proof -
    obtain e x where x: "add_video_chain R (rm_exec s) = (e, x)" by fastforce
    then have "hr_cur x = hr_cur (rm_exec s)" using chain_cur(2) [of R "rm_exec s"] by simp
    from knows_exec [OF s this] have k: "knows_state (s\<lparr>rm_exec := x\<rparr>)" .
    then show ?thesis using x send_knows [OF k surjective_pairing] by (simp add: SetVideoSourceInternal_def)
  qed
  show ?thesis
  proof (cases "SetVideoSourceInternal R ts a (GenerateVideoSourceId (hr_videoCount (rm_exec s))) s")
    case (Pair c v)
    then have "knows_state v" using inner [of "GenerateVideoSourceId (hr_videoCount (rm_exec s))"] by simp
    then show ?thesis using s Pair by (simp add: hr_SetVideoSource_def Let_def knows_exec split: call.split)
  qed
qed

lemma reset_knows: "knows_state s \<Longrightarrow> knows_state (snd (hr_Reset R ts us vs s))"
proof -
  assume s: "knows_state s"
  obtain c v where c: "(if hr_cur (rm_exec s) = RS_RECORDING then hr_Stop R ts us False s else (Returns MSERR_OK, s)) = (c, v)" by fastforce
  have "knows_state v"
  proof (cases "hr_cur (rm_exec s) = RS_RECORDING")
    case True
    then have "hr_Stop R ts us False s = (c, v)" using c by simp
    from stop_knows [OF this s] show ?thesis by blast
  qed (use c s in simp)
  then show ?thesis using c send_knows_snd [of v] by (cases c) (simp_all add: hr_Reset_def)
qed

lemma use_knows: "knows_state s \<Longrightarrow> use_recorder R u s = Inr t \<Longrightarrow> knows_state t"
proof (cases u)
  case (U_SetAudioSource ts a)
  then show "knows_state s \<Longrightarrow> use_recorder R u s = Inr t \<Longrightarrow> knows_state t"
    using audio_knows [of s R ts a] by (cases "hr_SetAudioSource R ts a s") auto
next
  case U_SetObs
  then show "knows_state s \<Longrightarrow> use_recorder R u s = Inr t \<Longrightarrow> knows_state t" by (auto simp: hr_SetObs_def knows_state_def)
next
  case (U_SetOutputFormat ts f)
  assume s: "knows_state s" and t: "use_recorder R u s = Inr t"
  have "knows_state (s\<lparr>rm_exec := (rm_exec s)\<lparr>hr_format := f\<rparr>\<rparr>)" using s by (simp add: knows_state_def)
  from send_knows_snd [OF this] show ?thesis using s t U_SetOutputFormat by (auto simp: hr_SetOutputFormat_def split: if_splits)
next
  case (U_Prepare ts us)
  then show "knows_state s \<Longrightarrow> use_recorder R u s = Inr t \<Longrightarrow> knows_state t"
    using prepare_knows [OF surjective_pairing, of s R ts us] by auto
next
  case (U_Stop ts us d)
  then show "knows_state s \<Longrightarrow> use_recorder R u s = Inr t \<Longrightarrow> knows_state t"
    using stop_knows [OF surjective_pairing, of s R ts us d] by auto
qed (auto simp: hr_Configure_def hr_Start_def hr_Pause_def hr_Resume_def video_knows reset_knows things_knows send_knows_snd split: if_splits)

lemma uses_knows: "knows_state s \<Longrightarrow> use_recorder_all R us s = Inr t \<Longrightarrow> knows_state t"
  by (induction R us s rule: use_recorder_all.induct) (auto dest: use_knows split: sum.splits)

lemma init_knows: "new_hi_recorder R app p = Inr s0 \<Longrightarrow> hr_Init R s0 = (EC_SUCCESS, s1) \<Longrightarrow> knows_state s1"
  by (auto simp: new_hi_recorder_def new_recorder_def hr_Init_def knows_state_def Let_def dest!: with_pipe_curD split: prod.splits option.splits if_splits)

text \<open>
  C35. Whatever the application does with a recorder, whatever the filters answer and report, and however
  the threads interleave, between two operations the state the recorder was told of is that of its machine;
  when \<open>Prepare\<close> answers with success the machine is ready, and when \<open>Stop\<close> does it is back in init.
\<close>

theorem recorder_knows_state:
  assumes "new_hi_recorder R app p = Inr s0" "hr_Init R s0 = (EC_SUCCESS, s1)" "use_recorder_all R us s1 = Inr s"
  shows "hr_cur (rm_exec s) = rm_cur s \<and>
    (\<forall>ts vs t. hr_Prepare R ts vs s = (Returns MSERR_OK, t) \<longrightarrow> rm_cur t = RS_READY) \<and>
    (\<forall>ts vs d t. hr_Stop R ts vs d s = (Returns MSERR_OK, t) \<longrightarrow> rm_cur t = RS_INIT)"
proof -
  have s: "knows_state s" using uses_knows [OF init_knows [OF assms(1,2)] assms(3)] .
  then have "hr_cur (rm_exec s) = rm_cur s" by (simp add: knows_state_def)
  then show ?thesis using prepare_knows [OF _ s] stop_knows [OF _ s] by blast
qed

section \<open>Filters are not taken out of the pipeline\<close>

lemma recording_all: "until_error (recording (\<lambda>_ _. EC_SUCCESS) c) fs p = (EC_SUCCESS, p\<lparr>pl_world := pl_world p @ map (Pair c) fs\<rparr>)"
  by (induction fs arbitrary: p) (simp_all add: recording_def)

text \<open>
  A video source that is set again, as for a second recording, leaves the filters of the first in the
  pipeline although they are destroyed: the recorder lets go of its video capture and encoder, and the
  next stop of the pipeline, as a reset makes it, calls both.
\<close>

theorem second_video_source_dangles:
  assumes "hr_videoCapture x = Some f" "hr_videoEncoder x = Some e" "{f, e} \<subseteq> set (pl_filters (hr_pipe x))"
    and "\<And>n p. pl_filters (snd (ro_create R n p)) = pl_filters p" "\<And>m p. pl_filters (snd (snd (ro_AddTrack R m p))) = pl_filters p"
    and "ro_call R = recording (\<lambda>_ _. EC_SUCCESS)" "add_video_chain R x = (EC_SUCCESS, y)"
  shows "{f, e} \<subseteq> set (hr_gone y) \<and> {(F_Stop, f), (F_Stop, e)} \<subseteq> set (pl_world (hr_pipe (snd (DoReset R y))))"
proof -
  have init: "for_all (recording (\<lambda>_ _. EC_SUCCESS) F_Init) fs p = p\<lparr>pl_world := pl_world p @ map (Pair F_Init) fs\<rparr>" for fs p
    by (induction fs arbitrary: p) (simp_all add: recording_def)
  have add: "set (pl_filters (snd (pl_AddFilters (ro_call R) fs p))) \<supseteq> set (pl_filters p)" for fs p
    by (simp add: pl_AddFilters_def Let_def assms(6) init)
  have link: "set (pl_filters (hr_pipe y)) \<supseteq> set (pl_filters (hr_pipe x)) \<and> hr_gone y = hr_gone x" if "link_chain R c d x = (EC_SUCCESS, y)" for c d x y
  proof -
    obtain r1 p1 where p1: "pl_AddFilters (ro_call R) [c, d] (hr_pipe x) = (r1, p1)" by fastforce
    obtain r2 p2 where p2: "pl_LinkFilters [c, d] p1 = (r2, p2)" by fastforce
    obtain r3 port p3 where p3: "ro_AddTrack R (hr_muxer x) p2 = (r3, port, p3)" by (metis prod_cases3)
    obtain r4 p4 where p4: "pl_LinkPorts (GetOutPort (pl_graph p3) d PORT_NAME_DEFAULT) port p3 = (r4, p4)" by fastforce
    have "set (pl_filters p1) \<supseteq> set (pl_filters (hr_pipe x))" using add [of "hr_pipe x" "[c, d]"] p1 by simp
    moreover have "pl_filters p2 = pl_filters p1" "pl_filters p4 = pl_filters p3" using p2 p4 by (auto simp: pl_LinkFilters_def pl_LinkPorts_def split: prod.splits)
    moreover have "pl_filters p3 = pl_filters p2" using assms(5) [of "hr_muxer x" p2] p3 by simp
    ultimately show ?thesis using that p1 p2 p3 p4 by (auto simp: link_chain_def with_pipe_def split: if_splits prod.splits)
  qed
  obtain c p1 where c: "ro_create R ''builtin.recorder.videocapture'' (hr_pipe x) = (c, p1)" by fastforce
  obtain d p2 where d: "ro_create R ''builtin.recorder.videoencoder'' p1 = (d, p2)" by fastforce
  have fs: "pl_filters p2 = pl_filters (hr_pipe x)" using assms(4) c d by (metis snd_conv)
  let ?y = "x\<lparr>hr_videoCapture := c, hr_pipe := p2, hr_videoEncoder := d, hr_gone := hr_gone x @ [f, e]\<rparr>"
  have "\<exists>cf ef. link_chain R cf ef ?y = (EC_SUCCESS, y)"
    using assms(1,2,7) c d by (auto simp: add_video_chain_def create_filter_def let_go_def Let_def split: option.splits)
  then have y: "{f, e} \<subseteq> set (pl_filters (hr_pipe y))" "{f, e} \<subseteq> set (hr_gone y)" using link fs assms(3) by fastforce+
  let ?p = "(hr_pipe y)\<lparr>pl_ready := 0, pl_state := FS_INITIALIZED, pl_toRemove := []\<rparr>"
  have "pl_world (hr_pipe (snd (DoReset R y))) = pl_world (hr_pipe y) @ map (Pair F_Stop) (rev (pl_filters (hr_pipe y)))"
    by (simp add: DoReset_def with_pipe_def pl_Stop_def no_sources_def assms(6) recording_all Let_def)
  then show ?thesis using y by auto
qed

text \<open>Filters with a port at either end, which answer with success.\<close>

definition toy_create :: "string \<Rightarrow> 'w pipeline \<Rightarrow> nat option \<times> 'w pipeline" where
  "toy_create n p =
     (let g = pl_graph p; f = length (gr_filters g); q = length (gr_ports g)
      in (Some f, p\<lparr>pl_graph := \<lparr>gr_ports = gr_ports g @ [\<lparr>pt_owner = f, pt_name = ''default'', pt_peer = None\<rparr>, \<lparr>pt_owner = f, pt_name = ''default'', pt_peer = None\<rparr>],
            gr_filters = gr_filters g @ [\<lparr>ft_in = [q], ft_out = [q + 1], ft_pipeline = Some 0\<rparr>]\<rparr>\<rparr>))"

definition toy_AddTrack :: "nat \<Rightarrow> 'w pipeline \<Rightarrow> error_code \<times> nat option \<times> 'w pipeline" where
  "toy_AddTrack m p =
     (let g = pl_graph p; q = length (gr_ports g)
      in (EC_SUCCESS, Some q, p\<lparr>pl_graph := \<lparr>gr_ports = gr_ports g @ [\<lparr>pt_owner = m, pt_name = ''track'', pt_peer = None\<rparr>],
            gr_filters = (gr_filters g)[m := (gr_filters g ! m)\<lparr>ft_in := ft_in (gr_filters g ! m) @ [q]\<rparr>]\<rparr>\<rparr>))"

definition toy_recorder :: "(filter_call \<times> nat) list recorder_ops" where
  "toy_recorder = \<lparr>ro_create = toy_create, ro_call = recording (\<lambda>_ _. EC_SUCCESS), ro_ask = (\<lambda>r f p. (EC_SUCCESS, p)),
     ro_AddTrack = toy_AddTrack, ro_GetSurface = (\<lambda>f p. (EC_SUCCESS, Some 7)), ro_dup = (\<lambda>fd. fd),
     ro_IsAudioParam = CastAudRecorderParam, ro_IsVideoParam = CastVidRecorderParam, ro_DUMMY_SOURCE_ID = -1\<rparr>"

definition toy_pipe :: "(filter_call \<times> nat) list pipeline" where
  "toy_pipe = \<lparr>pl_ready = 0, pl_state = FS_CREATED, pl_filters = [], pl_receiver = False, pl_toRemove = [],
     pl_graph = \<lparr>gr_ports = [], gr_filters = []\<rparr>, pl_notified = [], pl_world = []\<rparr>"

lemma toy_keeps: "pl_filters (snd (toy_create n p)) = pl_filters p" "pl_filters (snd (snd (toy_AddTrack m p))) = pl_filters p"
  by (simp_all add: toy_create_def toy_AddTrack_def Let_def)

lemmas chain_eval = add_video_chain_def create_filter_def let_go_def link_chain_def with_pipe_def pl_AddFilters_def pl_LinkFilters_def
  pl_LinkPorts_def LinkPorts_def OutPort_Connect_def InPort_Connect_def GetOutPort_def GetInPort_def FindPort_def InSamePipeline_def set_peer_def
  PORT_NAME_DEFAULT_def toy_create_def toy_AddTrack_def recording_def Let_def

definition toy_start :: "(filter_call \<times> nat) list hirec" where
  "toy_start = rm_exec (projr (new_hi_recorder toy_recorder (1, 2, 3, 4) toy_pipe))"

definition toy_once :: "(filter_call \<times> nat) list hirec" where
  "toy_once = snd (add_video_chain toy_recorder toy_start)"

lemma toy_chains:
  "fst (add_video_chain toy_recorder toy_start) = EC_SUCCESS" "fst (add_video_chain toy_recorder toy_once) = EC_SUCCESS"
  "hr_videoCapture toy_once = Some 2" "hr_videoEncoder toy_once = Some 3" "pl_filters (hr_pipe toy_once) = [2, 3]"
  by code_simp+

theorem second_video_source_dangles_witness:
  "add_video_chain toy_recorder toy_start = (EC_SUCCESS, toy_once) \<and>
    (\<exists>z. add_video_chain toy_recorder toy_once = (EC_SUCCESS, z) \<and> {2, 3} \<subseteq> set (hr_gone z) \<and>
      {(F_Stop, 2), (F_Stop, 3)} \<subseteq> set (pl_world (hr_pipe (snd (DoReset toy_recorder z)))))"
proof -
  have keeps: "pl_filters (snd (ro_create toy_recorder n p)) = pl_filters p" "pl_filters (snd (snd (ro_AddTrack toy_recorder m p))) = pl_filters p" for n m p
    by (simp_all add: toy_recorder_def toy_keeps)
  have call: "ro_call toy_recorder = recording (\<lambda>_ _. EC_SUCCESS)" by (simp add: toy_recorder_def)
  obtain z where z: "add_video_chain toy_recorder toy_once = (EC_SUCCESS, z)" using toy_chains(2) by (metis prod.collapse)
  have y: "add_video_chain toy_recorder toy_start = (EC_SUCCESS, toy_once)" using toy_chains(1) by (simp add: toy_once_def prod_eq_iff)
  have "{2, 3} \<subseteq> set (pl_filters (hr_pipe toy_once))" by (simp add: toy_chains(5))
  from second_video_source_dangles [OF toy_chains(3,4) this keeps call z] y z show ?thesis by blast
qed

section \<open>Stopping\<close>

lemma stop_turn:
  assumes "rm_cur s = RS_RECORDING" "RI_STOP \<in> sy_wait (rm_sync s)" "sy_map (rm_sync s) RI_STOP = None"
    and "bl_active (rm_jobs s)" "bl_que (rm_jobs s) = [(RI_STOP, p)]" "DoStop R p (rm_exec s) = (EC_SUCCESS, x)"
    and "rm_changes s = []"
  shows "\<exists>q. rec_turn R s = s\<lparr>rm_jobs := q, rm_last := RI_STOP, rm_exec := x,
      rm_sync := sy_Notify RI_STOP EC_SUCCESS (rm_sync s)\<rparr> \<and> bl_active q \<and> bl_que q = [] \<and> bl_capacity q = bl_capacity (rm_jobs s)"
proof -
  let ?q = "notify_one_full ((rm_jobs s)\<lparr>bl_que := []\<rparr>)"
  have pop: "bl_Pop (rm_jobs s) = (Returns (Some (RI_STOP, p)), ?q)" using assms(4,5) by (simp add: bl_ops)
  have pi: "rec_ProcessIntent (rec_exec R) (RI_STOP, p) (s\<lparr>rm_jobs := ?q\<rparr>) =
      (RA_ACTION_BUTT, rec_Notify RI_STOP EC_SUCCESS (s\<lparr>rm_jobs := ?q, rm_last := RI_STOP, rm_exec := x\<rparr>))"
    using assms by (simp add: rec_ProcessIntent_def rec_execute_def rec_DispatchIntent_def rec_class_defs rec_reply_defs rec_OnIntentExecuted_def Let_def)
  have "rec_DoTask (rec_exec R) s = rec_Notify RI_STOP EC_SUCCESS (s\<lparr>rm_jobs := ?q, rm_last := RI_STOP, rm_exec := x\<rparr>)"
    unfolding rec_DoTask_def pop using pi by simp
  then have "rec_turn R s = s\<lparr>rm_jobs := ?q, rm_last := RI_STOP, rm_exec := x, rm_sync := sy_Notify RI_STOP EC_SUCCESS (rm_sync s)\<rparr>"
    using assms(7) by (simp add: rec_turn_def rec_Notify_def)
  then show ?thesis using assms(4) by (intro exI [of _ ?q]) (simp add: bl_ops)
qed

lemma complete_turn:
  assumes "rm_cur s = RS_RECORDING" "rm_pending s = []" "bl_active (rm_jobs s)" "bl_que (rm_jobs s) = [(RI_NOTIFY_COMPLETE, p)]"
    and "fst (pl_Stop (ro_call R) (hr_pipe (rm_exec s))) = EC_SUCCESS" "rm_callback s" "rm_changes s = []"
  shows "rm_cur (rec_turn R s) = RS_INIT \<and> hr_cur (rm_exec (rec_turn R s)) = RS_INIT \<and> bl_que (rm_jobs (rec_turn R s)) = [] \<and>
    hr_audioCount (rm_exec (rec_turn R s)) = hr_audioCount (rm_exec s) \<and> hr_videoCount (rm_exec (rec_turn R s)) = hr_videoCount (rm_exec s) \<and>
    hr_pipe (rm_exec (rec_turn R s)) = snd (pl_Stop (ro_call R) (hr_pipe (rm_exec s)))"
proof -
  let ?q = "notify_one_full ((rm_jobs s)\<lparr>bl_que := []\<rparr>)"
  obtain p1 where stop: "pl_Stop (ro_call R) (hr_pipe (rm_exec s)) = (EC_SUCCESS, p1)" using assms(5) by (metis prod.collapse)
  let ?x = "(rm_exec s)\<lparr>hr_pipe := p1\<rparr>"
  let ?t = "s\<lparr>rm_jobs := ?q, rm_last := RI_NOTIFY_COMPLETE, rm_cur := RS_INIT, rm_exec := ?x\<rparr>"
  have pop: "bl_Pop (rm_jobs s) = (Returns (Some (RI_NOTIFY_COMPLETE, p)), ?q)" using assms(3,4) by (simp add: bl_ops)
  have pi: "rec_ProcessIntent (rec_exec R) (RI_NOTIFY_COMPLETE, p) (s\<lparr>rm_jobs := ?q\<rparr>) =
      (RA_TRANS_TO_INIT, rec_Notify RI_NOTIFY_COMPLETE EC_SUCCESS (rec_note ?t))"
    using assms(1) stop by (simp add: rec_ProcessIntent_def rec_execute_def rec_DispatchIntent_def rec_class_defs rec_reply_defs
        rec_ProcAction_eq rec_TransitionTo_eq rec_OnIntentExecuted_def with_pipe_def Let_def)
  have "rec_DoTask (rec_exec R) s = rec_Notify RI_NOTIFY_COMPLETE EC_SUCCESS (rec_note ?t)"
    unfolding rec_DoTask_def pop using pi assms(2) by (simp add: rec_run_pending_def)
  then show ?thesis using assms(6,7) stop
    by (simp add: rec_turn_def rec_Notify_def rec_note_def hr_OnStateChanged_def hr_tell_def bl_ops)
qed

text \<open>
  A log of what the filters are asked and called, as part of the world: \<open>logs lg R\<close> says that every
  request and call is appended to it, and that requests leave the pipeline's list of filters alone.
\<close>

datatype rec_entry = Asked rec_request nat | Called filter_call nat

definition logs :: "('w \<Rightarrow> rec_entry list) \<Rightarrow> 'w recorder_ops \<Rightarrow> bool" where
  "logs lg R \<longleftrightarrow>
     (\<forall>r f p. lg (pl_world (snd (ro_ask R r f p))) = lg (pl_world p) @ [Asked r f] \<and>
        pl_filters (snd (ro_ask R r f p)) = pl_filters p) \<and>
     (\<forall>c f p. lg (pl_world (snd (ro_call R c f p))) = lg (pl_world p) @ [Called c f])"

definition rec_log :: "('w \<Rightarrow> rec_entry list) \<Rightarrow> 'w hirec \<Rightarrow> rec_entry list" where
  "rec_log lg x = lg (pl_world (hr_pipe x))"

text \<open>Who is to send the end of the stream: the captures there are, or else the muxer.\<close>

definition eos_targets :: "bool \<Rightarrow> 'w hirec \<Rightarrow> nat list" where
  "eos_targets isDrainAll x =
     (if isDrainAll then (case hr_audioCapture x of None \<Rightarrow> [] | Some f \<Rightarrow> [f]) @ (case hr_videoCapture x of None \<Rightarrow> [] | Some f \<Rightarrow> [f])
      else [hr_muxer x])"

lemma stop_asks:
  assumes "logs lg R" "\<And>f p. fst (ro_ask R RQ_SendEos f p) = EC_SUCCESS"
  shows "\<exists>y. DoStop R (Any_Bool d) x = (EC_SUCCESS, y) \<and> hr_audioCount y = 0 \<and> hr_videoCount y = 0 \<and> hr_stats y = [] \<and>
    rec_log lg y = rec_log lg x @ map (Asked RQ_SendEos) (eos_targets d x) \<and> pl_filters (hr_pipe y) = pl_filters (hr_pipe x)"
proof -
  have ask: "\<exists>y. ask_filter R RQ_SendEos f x = (EC_SUCCESS, y) \<and> hr_stats y = hr_stats x \<and> rec_log lg y = rec_log lg x @ [Asked RQ_SendEos f] \<and>
      pl_filters (hr_pipe y) = pl_filters (hr_pipe x) \<and> hr_videoCapture y = hr_videoCapture x" for f x
    using assms(1) assms(2) [of f "hr_pipe x"]
    by (auto simp: ask_filter_def with_pipe_def logs_def rec_log_def split: prod.split) (metis snd_conv)+
  have eos: "\<exists>y. (case f of None \<Rightarrow> (EC_SUCCESS, x) | Some g \<Rightarrow> ask_filter R RQ_SendEos g x) = (EC_SUCCESS, y) \<and> hr_stats y = hr_stats x \<and>
      rec_log lg y = rec_log lg x @ map (Asked RQ_SendEos) (case f of None \<Rightarrow> [] | Some g \<Rightarrow> [g]) \<and>
      pl_filters (hr_pipe y) = pl_filters (hr_pipe x) \<and> hr_videoCapture y = hr_videoCapture x" for f x
    using ask by (cases f) auto
  let ?x = "x\<lparr>hr_stats := []\<rparr>"
  have same: "rec_log lg ?x = rec_log lg x" "rec_log lg (no_sources y) = rec_log lg y" for y
    by (simp_all add: rec_log_def no_sources_def)
  show ?thesis
  proof (cases d)
    case True
    obtain y1 where y1: "(case hr_audioCapture ?x of None \<Rightarrow> (EC_SUCCESS, ?x) | Some g \<Rightarrow> ask_filter R RQ_SendEos g ?x) = (EC_SUCCESS, y1)"
      "hr_stats y1 = []" "rec_log lg y1 = rec_log lg x @ map (Asked RQ_SendEos) (case hr_audioCapture x of None \<Rightarrow> [] | Some g \<Rightarrow> [g])"
      "pl_filters (hr_pipe y1) = pl_filters (hr_pipe x)" "hr_videoCapture y1 = hr_videoCapture x"
      using eos [where f = "hr_audioCapture ?x" and x = ?x] same(1) by auto
    obtain y2 where y2: "(case hr_videoCapture ?x of None \<Rightarrow> (EC_SUCCESS, y1) | Some g \<Rightarrow> ask_filter R RQ_SendEos g y1) = (EC_SUCCESS, y2)"
      "hr_stats y2 = []" "rec_log lg y2 = rec_log lg y1 @ map (Asked RQ_SendEos) (case hr_videoCapture x of None \<Rightarrow> [] | Some g \<Rightarrow> [g])"
      "pl_filters (hr_pipe y2) = pl_filters (hr_pipe y1)"
      using eos [where f = "hr_videoCapture ?x" and x = y1] y1(2) by auto
    have "DoStop R (Any_Bool d) x = (EC_SUCCESS, no_sources y2)"
      unfolding DoStop_def Let_def y1(1) snd_conv y2(1) using True by simp
    then show ?thesis using y1(3,4) y2(2-4) True same(2) by (simp add: eos_targets_def no_sources_def rec_log_def)
  next
    case False
    obtain y where y: "ask_filter R RQ_SendEos (hr_muxer ?x) ?x = (EC_SUCCESS, y)" "hr_stats y = []"
      "rec_log lg y = rec_log lg x @ [Asked RQ_SendEos (hr_muxer x)]" "pl_filters (hr_pipe y) = pl_filters (hr_pipe x)"
      using ask [where f = "hr_muxer ?x" and x = ?x] same(1) by auto
    have "DoStop R (Any_Bool d) x = (EC_SUCCESS, no_sources y)"
      unfolding DoStop_def Let_def y(1) using False by simp
    then show ?thesis using y(2-4) False same(2) by (simp add: eos_targets_def no_sources_def rec_log_def)
  qed
qed

lemma pipeline_stops:
  assumes "logs lg R" "\<And>f p. fst (ro_call R F_Stop f p) = EC_SUCCESS"
  shows "fst (pl_Stop (ro_call R) p) = EC_SUCCESS \<and>
    lg (pl_world (snd (pl_Stop (ro_call R) p))) = lg (pl_world p) @ map (Called F_Stop) (rev (pl_filters p))"
proof -
  have all: "\<exists>q. until_error (ro_call R F_Stop) fs p = (EC_SUCCESS, q) \<and> lg (pl_world q) = lg (pl_world p) @ map (Called F_Stop) fs" for fs p
  proof (induction fs arbitrary: p)
    case (Cons f fs)
    obtain e q where q: "ro_call R F_Stop f p = (e, q)" by fastforce
    then have "e = EC_SUCCESS" "lg (pl_world q) = lg (pl_world p) @ [Called F_Stop f]"
      using assms(2) [of f p] assms(1) unfolding logs_def by (metis fst_conv, metis snd_conv)
    then show ?case using Cons.IH [of q] q by auto
  qed simp
  have removed: "pl_world (fold pl_RemoveFilter fs q) = pl_world q" for fs and q :: "'a pipeline"
    by (induction fs arbitrary: q) (simp_all add: pl_RemoveFilter_def)
  let ?p = "p\<lparr>pl_ready := 0, pl_state := FS_INITIALIZED, pl_toRemove := []\<rparr>"
  obtain q where "until_error (ro_call R F_Stop) (rev (pl_filters ?p)) ?p = (EC_SUCCESS, q)"
    "lg (pl_world q) = lg (pl_world ?p) @ map (Called F_Stop) (rev (pl_filters ?p))"
    using all by blast
  then show ?thesis by (simp add: pl_Stop_def Let_def removed)
qed

text \<open>
  The pipeline as \<open>Stop\<close> needs it: the sink reports that it has completed when the filters that were
  to send the end of the stream have been asked to, and only then.
\<close>

definition sink_reports :: "string \<Rightarrow> nat list \<Rightarrow> rec_entry list \<Rightarrow> rec_thing list" where
  "sink_reports src fs l = (if \<forall>f \<in> set fs. Asked RQ_SendEos f \<in> set l then [T_Event (RE_COMPLETE src), T_Turn] else [])"

text \<open>The first half of \<open>Stop\<close>: its intent is carried out and answered, and the machine still records.\<close>

lemma stop_half:
  assumes "rm_cur s = RS_RECORDING" "knows_state s" "rm_pending s = []" "sy_map (rm_sync s) RI_STOP = None"
    and "bl_active (rm_jobs s)" "bl_que (rm_jobs s) = []" "0 < bl_capacity (rm_jobs s)"
    and lg: "logs lg R" and eos: "\<And>f p. fst (ro_ask R RQ_SendEos f p) = EC_SUCCESS"
  shows "\<exists>t. hr_send R [T_Turn] RI_STOP (Any_Bool d) (s\<lparr>rm_exec := (rm_exec s)\<lparr>hr_format := FORMAT_BUTT\<rparr>\<rparr>) = (Returns EC_SUCCESS, t) \<and>
    rm_cur t = RS_RECORDING \<and> knows_state t \<and> rm_pending t = [] \<and> bl_active (rm_jobs t) \<and> bl_que (rm_jobs t) = [] \<and> 0 < bl_capacity (rm_jobs t) \<and>
    hr_audioCount (rm_exec t) = 0 \<and> hr_videoCount (rm_exec t) = 0 \<and> hr_stats (rm_exec t) = [] \<and>
    rec_log lg (rm_exec t) = rec_log lg (rm_exec s) @ map (Asked RQ_SendEos) (eos_targets d (rm_exec s)) \<and>
    pl_filters (hr_pipe (rm_exec t)) = pl_filters (hr_pipe (rm_exec s))"
proof -
  let ?s = "s\<lparr>rm_exec := (rm_exec s)\<lparr>hr_format := FORMAT_BUTT\<rparr>\<rparr>" and ?p = "Any_Bool d"
  obtain q where q: "bl_Push (RI_STOP, ?p) (rm_jobs s) = (Returns True, q)" "bl_active q" "bl_que q = [(RI_STOP, ?p)]" "bl_capacity q = bl_capacity (rm_jobs s)"
    using assms(5-7) by (auto simp: bl_ops bl_Size_def)
  let ?s1 = "?s\<lparr>rm_sync := (rm_sync s)\<lparr>sy_wait := insert RI_STOP (sy_wait (rm_sync s))\<rparr>, rm_jobs := q\<rparr>"
  obtain y where y: "DoStop R ?p (rm_exec ?s1) = (EC_SUCCESS, y)" "hr_audioCount y = 0" "hr_videoCount y = 0" "hr_stats y = []"
    "rec_log lg y = rec_log lg (rm_exec ?s1) @ map (Asked RQ_SendEos) (eos_targets d (rm_exec ?s1))"
    "pl_filters (hr_pipe y) = pl_filters (hr_pipe (rm_exec ?s1))"
    using stop_asks [OF lg, OF eos] by blast
  have fmt: "rec_log lg (rm_exec ?s1) = rec_log lg (rm_exec s)" "eos_targets d (rm_exec ?s1) = eos_targets d (rm_exec s)"
    "pl_filters (hr_pipe (rm_exec ?s1)) = pl_filters (hr_pipe (rm_exec s))"
    by (simp_all add: rec_log_def eos_targets_def)
  have know: "rm_callback s" "rm_changes s = []" "hr_cur (rm_exec s) = RS_RECORDING" using assms(1,2) by (simp_all add: knows_state_def)
  obtain q2 where t: "rec_turn R ?s1 = ?s1\<lparr>rm_jobs := q2, rm_last := RI_STOP, rm_exec := y, rm_sync := sy_Notify RI_STOP EC_SUCCESS (rm_sync ?s1)\<rparr>"
    "bl_active q2" "bl_que q2 = []" "bl_capacity q2 = bl_capacity q"
    using stop_turn [of ?s1 ?p R y] assms(1,4) q(2,3) y(1) know(2) by auto
  let ?s2 = "?s1\<lparr>rm_jobs := q2, rm_last := RI_STOP, rm_exec := y, rm_sync := (rm_sync s)\<lparr>sy_wait := sy_wait (rm_sync s) - {RI_STOP}\<rparr>\<rparr>"
  have cur: "hr_cur y = RS_RECORDING" using exec_cur [of R "RDoStop ?p" "rm_exec ?s1"] y(1) know(3) by simp
  have "hr_send R [T_Turn] RI_STOP ?p ?s = (Returns EC_SUCCESS, ?s2)"
    using q(1) t(1) assms(4) by (simp add: hr_send_def rec_SendEvent_def rec_SendEventAsync_def sy_Notify_def Let_def fun_upd_idem)
  then show ?thesis using assms(1,3,7) know cur y(2-4) y(5,6) [unfolded fmt] t(2-4) q(4)
    by (intro exI [of _ ?s2]) (simp add: knows_state_def)
qed

text \<open>
  C36. Stopping a recording ends it, when the filters take the end of the stream and can be stopped:
  \<open>Stop\<close> asks the captures to send it, the audio's first (or the muxer, if nothing is to be drained),
  and nobody else; when the sink then reports that it has completed, and not before, the machine stops
  every filter of the pipeline, the last one first, and goes back to init, \<open>Stop\<close> answers with success,
  and the sources can be set anew. Without that report \<open>Stop\<close> answers with an error after its 3
  seconds, the machine still recording and no filter stopped.
\<close>

theorem recorder_stop_completes:
  assumes "rm_cur s = RS_RECORDING" "knows_state s" "rm_pending s = []" "sy_map (rm_sync s) RI_STOP = None"
    and "bl_active (rm_jobs s)" "bl_que (rm_jobs s) = []" "0 < bl_capacity (rm_jobs s)"
    and "logs lg R" and "\<And>f p. fst (ro_ask R RQ_SendEos f p) = EC_SUCCESS" "\<And>f p. fst (ro_call R F_Stop f p) = EC_SUCCESS"
    and "asked = map (Asked RQ_SendEos) (eos_targets d (rm_exec s))"
  shows "(\<exists>t. hr_Stop R [T_Turn] (sink_reports src (eos_targets d (rm_exec s)) (rec_log lg (rm_exec (snd (hr_send R [T_Turn] RI_STOP (Any_Bool d)
        (s\<lparr>rm_exec := (rm_exec s)\<lparr>hr_format := FORMAT_BUTT\<rparr>\<rparr>)))))) d s = (Returns MSERR_OK, t) \<and>
      rm_cur t = RS_INIT \<and> hr_audioCount (rm_exec t) = 0 \<and> hr_videoCount (rm_exec t) = 0 \<and> bl_que (rm_jobs t) = [] \<and>
      rec_log lg (rm_exec t) = rec_log lg (rm_exec s) @ asked @ map (Called F_Stop) (rev (pl_filters (hr_pipe (rm_exec s))))) \<and>
    (\<exists>t. hr_Stop R [T_Turn] [] d s = (Returns MSERR_UNKNOWN, t) \<and> rm_cur t = RS_RECORDING \<and>
      rec_log lg (rm_exec t) = rec_log lg (rm_exec s) @ asked)"
proof -
  let ?s = "s\<lparr>rm_exec := (rm_exec s)\<lparr>hr_format := FORMAT_BUTT\<rparr>\<rparr>"
  obtain t where send: "hr_send R [T_Turn] RI_STOP (Any_Bool d) ?s = (Returns EC_SUCCESS, t)"
    and t: "rm_cur t = RS_RECORDING" "knows_state t" "rm_pending t = []" "bl_active (rm_jobs t)" "bl_que (rm_jobs t) = []" "0 < bl_capacity (rm_jobs t)"
      "hr_audioCount (rm_exec t) = 0" "hr_videoCount (rm_exec t) = 0" "hr_stats (rm_exec t) = []"
      "rec_log lg (rm_exec t) = rec_log lg (rm_exec s) @ asked" "pl_filters (hr_pipe (rm_exec t)) = pl_filters (hr_pipe (rm_exec s))"
    using stop_half [OF assms(1-8), OF assms(9)] assms(11) by blast
  have know: "rm_callback t" "rm_changes t = []" "hr_cur (rm_exec t) = RS_RECORDING" using t(1,2) by (simp_all add: knows_state_def)
  have late: "hr_Stop R [T_Turn] [] d s = (Returns MSERR_UNKNOWN, t)" using send know(3) by (simp add: hr_Stop_def Let_def)
  have reports: "sink_reports src (eos_targets d (rm_exec s)) (rec_log lg (rm_exec t)) = [T_Event (RE_COMPLETE src), T_Turn]"
    using t(10) assms(11) by (simp add: sink_reports_def)
  obtain q where q: "bl_Push (RI_NOTIFY_COMPLETE, Any_None) (rm_jobs t) = (Returns True, q)" "bl_active q" "bl_que q = [(RI_NOTIFY_COMPLETE, Any_None)]"
    using t(4-6) by (auto simp: bl_ops bl_Size_def)
  have stats: "t\<lparr>rm_exec := (rm_exec t)\<lparr>hr_stats := ms_ReceiveComplete src (hr_stats (rm_exec t))\<rparr>\<rparr> = t" using t(9) by simp
  have event: "hr_OnEvent (RE_COMPLETE src) t = t\<lparr>rm_jobs := q\<rparr>"
    using t(9) q(1) by (simp add: stats hr_post_def rec_SendEventAsync_def IsEventCompleteAllReceived_def Let_def)
  note stops = pipeline_stops [OF assms(8), OF assms(10)]
  from complete_turn [of "t\<lparr>rm_jobs := q\<rparr>" Any_None R] have turn: "rm_cur (rec_turn R (t\<lparr>rm_jobs := q\<rparr>)) = RS_INIT"
    "hr_cur (rm_exec (rec_turn R (t\<lparr>rm_jobs := q\<rparr>))) = RS_INIT" "bl_que (rm_jobs (rec_turn R (t\<lparr>rm_jobs := q\<rparr>))) = []"
    "hr_audioCount (rm_exec (rec_turn R (t\<lparr>rm_jobs := q\<rparr>))) = 0" "hr_videoCount (rm_exec (rec_turn R (t\<lparr>rm_jobs := q\<rparr>))) = 0"
    "hr_pipe (rm_exec (rec_turn R (t\<lparr>rm_jobs := q\<rparr>))) = snd (pl_Stop (ro_call R) (hr_pipe (rm_exec t)))"
    using t(1,3,7,8) q(2,3) know stops by simp_all
  have "rec_log lg (rm_exec (rec_turn R (t\<lparr>rm_jobs := q\<rparr>))) = rec_log lg (rm_exec t) @ map (Called F_Stop) (rev (pl_filters (hr_pipe (rm_exec s))))"
    using stops [of "hr_pipe (rm_exec t)"] turn(6) t(11) by (simp add: rec_log_def)
  then show ?thesis using send late reports event turn t(1,10) know(3) by (simp add: hr_Stop_def Let_def)
qed

section \<open>A recording\<close>

definition toy_init :: "(filter_call \<times> nat) list hi_recorder" where
  "toy_init = projr (new_hi_recorder toy_recorder (1, 2, 3, 4) toy_pipe)"

definition toy_ready :: "(filter_call \<times> nat) list hi_recorder" where
  "toy_ready = snd (hr_Init toy_recorder toy_init)"

lemma toy_run:
  "hr_Init toy_recorder toy_init = (EC_SUCCESS, toy_ready)" "new_hi_recorder toy_recorder (1, 2, 3, 4) toy_pipe = Inr toy_init"
  "rm_sync toy_ready = \<lparr>sy_map = (\<lambda>_. None), sy_wait = {}\<rparr>" "rm_jobs toy_ready = new_bqueue DEFAULT_QUEUE_SIZE" "rm_pending toy_ready = []"
proof -
  show new: "new_hi_recorder toy_recorder (1, 2, 3, 4) toy_pipe = Inr toy_init"
    by (simp add: toy_init_def new_hi_recorder_def toy_recorder_def toy_create_def toy_pipe_def Let_def)
  have init: "toy_init = new_recorder (rm_exec toy_init)"
  proof -
    obtain x where "new_recorder x = toy_init" using new by (auto simp: new_hi_recorder_def split: prod.splits option.splits)
    moreover have "rm_exec (new_recorder x) = x" by (simp add: new_recorder_def)
    ultimately show ?thesis by metis
  qed
  have "fst (hr_Init toy_recorder toy_init) = EC_SUCCESS" by code_simp
  then show run: "hr_Init toy_recorder toy_init = (EC_SUCCESS, toy_ready)" by (simp add: toy_ready_def prod_eq_iff)
  show "rm_sync toy_ready = \<lparr>sy_map = (\<lambda>_. None), sy_wait = {}\<rparr>" "rm_jobs toy_ready = new_bqueue DEFAULT_QUEUE_SIZE" "rm_pending toy_ready = []"
    unfolding toy_ready_def by (subst init, simp add: hr_Init_def new_recorder_def Let_def split: prod.split)+
qed

theorem recorder_knows_state_witness:
  "\<exists>s. use_recorder_all toy_recorder [U_SetAudioSource [T_Turn] AUDIO_MIC] toy_ready = Inr s \<and> hr_cur (rm_exec s) = rm_cur s"
proof -
  have "\<not> isl (hr_SetAudioSource toy_recorder [T_Turn] AUDIO_MIC toy_ready)" by code_simp
  then obtain r where "hr_SetAudioSource toy_recorder [T_Turn] AUDIO_MIC toy_ready = Inr r" by (cases "hr_SetAudioSource toy_recorder [T_Turn] AUDIO_MIC toy_ready") auto
  then have run: "use_recorder_all toy_recorder [U_SetAudioSource [T_Turn] AUDIO_MIC] toy_ready = Inr (snd r)" by simp
  from recorder_knows_state [OF toy_run(2,1) this] run show ?thesis by blast
qed

text \<open>A recorder of sound whose world is the log, and which records.\<close>

definition log_recorder :: "rec_entry list recorder_ops" where
  "log_recorder = \<lparr>ro_create = toy_create, ro_call = (\<lambda>c f p. (EC_SUCCESS, p\<lparr>pl_world := pl_world p @ [Called c f]\<rparr>)),
     ro_ask = (\<lambda>r f p. (EC_SUCCESS, p\<lparr>pl_world := pl_world p @ [Asked r f]\<rparr>)),
     ro_AddTrack = toy_AddTrack, ro_GetSurface = (\<lambda>f p. (EC_SUCCESS, Some 7)), ro_dup = (\<lambda>fd. fd),
     ro_IsAudioParam = CastAudRecorderParam, ro_IsVideoParam = CastVidRecorderParam, ro_DUMMY_SOURCE_ID = -1\<rparr>"

definition log_recording :: "rec_entry list hi_recorder" where
  "log_recording = (new_recorder \<lparr>hr_audioCount = 1, hr_videoCount = 0, hr_audioSourceId = 512, hr_videoSourceId = 0, hr_app = (1, 2, 3, 4),
     hr_format = FORMAT_M4A, hr_cur = RS_RECORDING, hr_initialized = True, hr_stats = [], hr_obs = False, hr_told = [],
     hr_muxer = 0, hr_sink = 1, hr_audioCapture = Some 2, hr_audioEncoder = Some 3, hr_videoCapture = None,
     hr_videoEncoder = None, hr_gone = [], hr_pipe = \<lparr>pl_ready = 0, pl_state = FS_RUNNING, pl_filters = [0, 1, 2, 3], pl_receiver = True,
       pl_toRemove = [], pl_graph = \<lparr>gr_ports = [], gr_filters = []\<rparr>, pl_notified = [], pl_world = []\<rparr>\<rparr>)
     \<lparr>rm_cur := RS_RECORDING, rm_callback := True\<rparr>"

theorem recorder_stop_completes_witness:
  "\<exists>t. hr_Stop log_recorder [T_Turn] [T_Event (RE_COMPLETE ''sink''), T_Turn] True log_recording = (Returns MSERR_OK, t) \<and>
    rm_cur t = RS_INIT \<and> hr_audioCount (rm_exec t) = 0 \<and>
    rec_log id (rm_exec t) = [Asked RQ_SendEos 2, Called F_Stop 3, Called F_Stop 2, Called F_Stop 1, Called F_Stop 0]"
proof -
  let ?s = log_recording and ?R = log_recorder
  have s: "rm_cur ?s = RS_RECORDING" "knows_state ?s" "rm_pending ?s = []" "sy_map (rm_sync ?s) RI_STOP = None"
    "bl_active (rm_jobs ?s)" "bl_que (rm_jobs ?s) = []" "0 < bl_capacity (rm_jobs ?s)"
    by (simp_all add: log_recording_def new_recorder_def knows_state_def new_bqueue_def DEFAULT_QUEUE_SIZE_def)
  have R: "logs id ?R" "fst (ro_ask ?R RQ_SendEos f p) = EC_SUCCESS" "fst (ro_call ?R F_Stop f p) = EC_SUCCESS" for f p
    by (simp_all add: logs_def log_recorder_def)
  have e: "eos_targets True (rm_exec ?s) = [2]" "rec_log id (rm_exec ?s) = []" "pl_filters (hr_pipe (rm_exec ?s)) = [0, 1, 2, 3]"
    by (simp_all add: eos_targets_def rec_log_def log_recording_def new_recorder_def)
  have "list_all (\<lambda>x. x = Asked RQ_SendEos 2) (rec_log id (rm_exec (snd (hr_send ?R [T_Turn] RI_STOP (Any_Bool True)
      (?s\<lparr>rm_exec := (rm_exec ?s)\<lparr>hr_format := FORMAT_BUTT\<rparr>\<rparr>))))) \<and> rec_log id (rm_exec (snd (hr_send ?R [T_Turn] RI_STOP (Any_Bool True)
      (?s\<lparr>rm_exec := (rm_exec ?s)\<lparr>hr_format := FORMAT_BUTT\<rparr>\<rparr>)))) \<noteq> []" by code_simp
  then have "sink_reports ''sink'' [2] (rec_log id (rm_exec (snd (hr_send ?R [T_Turn] RI_STOP (Any_Bool True)
      (?s\<lparr>rm_exec := (rm_exec ?s)\<lparr>hr_format := FORMAT_BUTT\<rparr>\<rparr>))))) = [T_Event (RE_COMPLETE ''sink''), T_Turn]"
    by (auto simp: sink_reports_def list_all_iff neq_Nil_conv)
  with recorder_stop_completes [OF s R, of "map (Asked RQ_SendEos) [2]" True "''sink''"] show ?thesis unfolding e by auto
qed

section \<open>What is not heard\<close>

text \<open>Each source has an id of its kind.\<close>

lemma source_ids:
  "IsAudio (GenerateAudioSourceId 0)" "\<not> IsVideo (GenerateAudioSourceId 0)" "IsVideo (GenerateVideoSourceId 0)" "\<not> IsAudio (GenerateVideoSourceId 0)"
  by (simp_all add: IsAudio_def IsVideo_def GenerateAudioSourceId_def GenerateVideoSourceId_def AUDIO_MASK_def VIDEO_MASK_def SOURCE_MASK_def INDEX_MASK_def)

text \<open>A surface that the capture has is never given out.\<close>

lemma surface_never_given:
  "fst (ro_GetSurface R f (hr_pipe x)) = EC_SUCCESS \<Longrightarrow> hr_videoCapture x = Some f \<Longrightarrow> GetSurface R i x = None"
  by (auto simp: GetSurface_def split: prod.split)

text \<open>Limits of time and size are accepted and not passed on, although there is code that would.\<close>

lemma limits_ignored:
  "DoConfigure R (Any_Param i (MaxDuration d)) x = (EC_SUCCESS, x)" "DoConfigure R (Any_Param i (MaxFileSize n)) x = (EC_SUCCESS, x)"
  by (simp_all add: DoConfigure_def)

text \<open>An audio chain that could not be linked is taken for linked when the source is set again.\<close>

lemma half_linked_audio:
  "hr_audioCapture x = Some f \<Longrightarrow> add_audio_chain R x = Inr (EC_SUCCESS, x)"
  by (simp add: add_audio_chain_def)

text \<open>Of two ends of stream that fail, the video's answer is the one that counts, whatever the audio's was.\<close>

lemma video_eos_counts:
  assumes "hr_audioCapture x = Some a" "hr_videoCapture x = Some v" "ro_ask R RQ_SendEos a (hr_pipe x) = (e, p)"
    and "ro_ask R RQ_SendEos v p = (EC_SUCCESS, q)"
  shows "fst (DoStop R (Any_Bool True) x) = EC_SUCCESS"
  using assms by (simp add: DoStop_def ask_filter_def with_pipe_def Let_def)

end
