(* ===== verification/Filter_Tree.thy ===== *)
theory Filter_Tree
  imports Filter_Graph_Props
begin

text \<open>
  The pipeline of the new interface: \<open>Filter\<close> and \<open>Pipeline\<close> (src/filter/filter.cpp, src/pipeline/pipeline.cpp).

  A filter is a number, a null pointer among the heads is \<open>None\<close>. \<open>own c f\<close> is what an overriding class does before it hands the
  call \<open>c\<close> on to \<open>Filter\<close>, and its answer; for \<open>Filter\<close> itself it is \<open>(OK, s)\<close>. The next filters are read when they are
  about to be called. The first argument bounds the depth of the calls; \<open>None\<close> is a call that goes deeper. A
  job that is submitted is waited for, so it is part of the operation.
\<close>

section \<open>Filters\<close>

datatype stream_type = STREAMTYPE_PACKED | STREAMTYPE_ENCODED_AUDIO | STREAMTYPE_ENCODED_VIDEO | STREAMTYPE_RAW_AUDIO
  | STREAMTYPE_RAW_VIDEO | STREAMTYPE_SUBTITLE | STREAMTYPE_MAX

datatype tree_call = TC_Prepare | TC_Start | TC_Pause | TC_Resume | TC_Stop | TC_Flush | TC_Release

record 'w filter_net =
  fn_next :: "nat \<Rightarrow> (stream_type \<times> nat list) list"
  fn_world :: 'w

type_synonym 'w own_part = "tree_call \<Rightarrow> nat \<Rightarrow> 'w filter_net \<Rightarrow> status \<times> 'w filter_net"

definition next_filters :: "'w filter_net \<Rightarrow> nat \<Rightarrow> nat list" where
  "next_filters s f = concat (map snd (fn_next s f))"

fun each_of :: "(nat \<Rightarrow> 's \<Rightarrow> (status \<times> 's) option) \<Rightarrow> nat list \<Rightarrow> 's \<Rightarrow> 's option" where
  "each_of h [] s = Some s"
| "each_of h (f # fs) s = (case h f s of None \<Rightarrow> None | Some (_, s1) \<Rightarrow> each_of h fs s1)"

fun filter_method :: "'w own_part \<Rightarrow> nat \<Rightarrow> tree_call \<Rightarrow> nat \<Rightarrow> 'w filter_net \<Rightarrow> (status \<times> 'w filter_net) option" where
  "filter_method own 0 c f s = None"
| "filter_method own (Suc n) c f s =
     (case own c f s of
        (st, s1) \<Rightarrow>
          (case each_of (filter_method own n c) (next_filters s1 f) s1 of
             None \<Rightarrow> None
           | Some s2 \<Rightarrow> Some (st, if c = TC_Release then s2\<lparr>fn_next := (fn_next s2)(f := [])\<rparr> else s2)))"

section \<open>The pipeline\<close>

datatype tree_state = TS_CREATED | TS_INITIALIZED | TS_PREPARING | TS_READY | TS_RUNNING | TS_PAUSED

record 'w tree_pipeline =
  tp_state :: tree_state
  tp_filters :: "nat option list"
  tp_receiver :: bool
  tp_net :: "'w filter_net"

text \<open>A job over the heads that ends at the first that does not answer \<open>OK\<close>, and one that does not look.\<close>

fun until_bad :: "(nat \<Rightarrow> 's \<Rightarrow> (status \<times> 's) option) \<Rightarrow> nat option list \<Rightarrow> 's \<Rightarrow> (fault, status \<times> 's) sum option" where
  "until_bad h [] s = Some (Inr (OK, s))"
| "until_bad h (None # fs) s = Some (Inl Null_Deref)"
| "until_bad h (Some f # fs) s =
     (case h f s of None \<Rightarrow> None | Some (st, s1) \<Rightarrow> if st \<noteq> OK then Some (Inr (st, s1)) else until_bad h fs s1)"

fun all_heads :: "(nat \<Rightarrow> 's \<Rightarrow> (status \<times> 's) option) \<Rightarrow> nat option list \<Rightarrow> 's \<Rightarrow> (fault, 's) sum option" where
  "all_heads h [] s = Some (Inr s)"
| "all_heads h (None # fs) s = Some (Inl Null_Deref)"
| "all_heads h (Some f # fs) s = (case h f s of None \<Rightarrow> None | Some (_, s1) \<Rightarrow> all_heads h fs s1)"

definition with_net :: "'w tree_pipeline \<Rightarrow> 'w filter_net \<Rightarrow> 'w tree_pipeline" where
  "with_net p s = p\<lparr>tp_net := s\<rparr>"

text \<open>The answer of a job that looks at its filters is not that of the operation.\<close>

definition job_until_bad ::
  "'w own_part \<Rightarrow> nat \<Rightarrow> tree_call \<Rightarrow> 'w tree_pipeline \<Rightarrow> (fault, status \<times> 'w tree_pipeline) sum option" where
  "job_until_bad own n c p = map_option (map_sum id (apsnd (with_net p))) (until_bad (filter_method own n c) (tp_filters p) (tp_net p))"

definition job_all ::
  "'w own_part \<Rightarrow> nat \<Rightarrow> tree_call \<Rightarrow> 'w tree_pipeline \<Rightarrow> (fault, 'w tree_pipeline) sum option" where
  "job_all own n c p = map_option (map_sum id (with_net p)) (all_heads (filter_method own n c) (tp_filters p) (tp_net p))"

definition answer_OK :: "(fault, 'r \<times> 'p) sum option \<Rightarrow> (fault, status \<times> 'p) sum option" where
  "answer_OK r = map_option (map_sum id (\<lambda>(_, p). (OK, p))) r"

definition tp_Init :: "bool \<Rightarrow> 'w tree_pipeline \<Rightarrow> 'w tree_pipeline" where
  "tp_Init receiver p = p\<lparr>tp_state := TS_INITIALIZED, tp_receiver := receiver\<rparr>"

definition tp_Prepare :: "'w own_part \<Rightarrow> nat \<Rightarrow> 'w tree_pipeline \<Rightarrow> (fault, status \<times> 'w tree_pipeline) sum option" where
  "tp_Prepare own n p = answer_OK (job_until_bad own n TC_Prepare (p\<lparr>tp_state := TS_PREPARING\<rparr>))"

definition tp_Start :: "'w own_part \<Rightarrow> nat \<Rightarrow> 'w tree_pipeline \<Rightarrow> (fault, status \<times> 'w tree_pipeline) sum option" where
  "tp_Start own n p = answer_OK (job_until_bad own n TC_Start (p\<lparr>tp_state := TS_RUNNING\<rparr>))"

definition tp_Pause :: "'w own_part \<Rightarrow> nat \<Rightarrow> 'w tree_pipeline \<Rightarrow> (fault, status \<times> 'w tree_pipeline) sum option" where
  "tp_Pause own n p =
     (if tp_state p = TS_PAUSED then Some (Inr (OK, p))
      else if tp_state p \<noteq> TS_READY \<and> tp_state p \<noteq> TS_RUNNING then Some (Inr (ERROR_UNKNOWN, p))
      else map_option (map_sum id (Pair OK)) (job_all own n TC_Pause (p\<lparr>tp_state := TS_PAUSED\<rparr>)))"

definition tp_Resume :: "'w own_part \<Rightarrow> nat \<Rightarrow> 'w tree_pipeline \<Rightarrow> (fault, status \<times> 'w tree_pipeline) sum option" where
  "tp_Resume own n p =
     map_option (map_sum id (\<lambda>(st, q). (OK, if st = OK then q\<lparr>tp_state := TS_RUNNING\<rparr> else q))) (job_until_bad own n TC_Resume p)"

definition tp_Stop :: "'w own_part \<Rightarrow> nat \<Rightarrow> 'w tree_pipeline \<Rightarrow> (fault, status \<times> 'w tree_pipeline) sum option" where
  "tp_Stop own n p =
     (let p1 = p\<lparr>tp_state := TS_INITIALIZED\<rparr>
      in map_option (map_sum id (\<lambda>(_, s). (OK, with_net p1 s)))
           (until_bad (filter_method own n TC_Stop) (filter (\<lambda>f. f \<noteq> None) (tp_filters p1)) (tp_net p1)))"

definition tp_Flush :: "'w own_part \<Rightarrow> nat \<Rightarrow> 'w tree_pipeline \<Rightarrow> (fault, status \<times> 'w tree_pipeline) sum option" where
  "tp_Flush own n p = map_option (map_sum id (Pair OK)) (job_all own n TC_Flush p)"

definition tp_Release :: "'w own_part \<Rightarrow> nat \<Rightarrow> 'w tree_pipeline \<Rightarrow> (fault, status \<times> 'w tree_pipeline) sum option" where
  "tp_Release own n p =
     map_option (map_sum id (\<lambda>q. (OK, q\<lparr>tp_filters := []\<rparr>))) (job_all own n TC_Release (p\<lparr>tp_state := TS_CREATED\<rparr>))"

definition tp_AddHeadFilters :: "nat option list \<Rightarrow> 'w tree_pipeline \<Rightarrow> status \<times> 'w tree_pipeline" where
  "tp_AddHeadFilters filtersIn p =
     (let filtersToAdd = filter (\<lambda>f. f \<notin> set (tp_filters p)) filtersIn
      in (OK, if filtersToAdd = [] then p else p\<lparr>tp_filters := tp_filters p @ filtersToAdd\<rparr>))"

definition tp_RemoveHeadFilter ::
  "'w own_part \<Rightarrow> nat \<Rightarrow> nat option \<Rightarrow> 'w tree_pipeline \<Rightarrow> (fault, status \<times> 'w tree_pipeline) sum option" where
  "tp_RemoveHeadFilter own n filt p =
     (let p1 = p\<lparr>tp_filters := remove1 filt (tp_filters p)\<rparr>
      in case filt of
           None \<Rightarrow> Some (Inl Null_Deref)
         | Some f \<Rightarrow> map_option (\<lambda>(_, s). Inr (OK, with_net p1 s)) (filter_method own n TC_Release f (tp_net p1)))"

text \<open>What a filter does when it is linked is its own; \<open>Filter\<close> itself does nothing.\<close>

type_synonym 'w link_part = "nat \<Rightarrow> nat option \<Rightarrow> stream_type \<Rightarrow> 'w filter_net \<Rightarrow> status \<times> 'w filter_net"

definition each_link ::
  "'w link_part \<Rightarrow> nat option \<Rightarrow> nat option list \<Rightarrow> stream_type \<Rightarrow> 'w tree_pipeline \<Rightarrow> (fault, status \<times> 'w tree_pipeline) sum" where
  "each_link linkNext preFilter nextFilters type p =
     (case preFilter of
        None \<Rightarrow> if nextFilters = [] then Inr (OK, p) else Inl Null_Deref
      | Some f \<Rightarrow> Inr (OK, with_net p (fold (\<lambda>g s. snd (linkNext f g type s)) nextFilters (tp_net p))))"

definition tp_LinkFilters :: "'w link_part \<Rightarrow> nat option \<Rightarrow> nat option list \<Rightarrow> stream_type \<Rightarrow> 'w tree_pipeline \<Rightarrow> (fault, status \<times> 'w tree_pipeline) sum" where
  "tp_LinkFilters linkNext = each_link linkNext"
definition tp_UpdateFilters :: "'w link_part \<Rightarrow> nat option \<Rightarrow> nat option list \<Rightarrow> stream_type \<Rightarrow> 'w tree_pipeline \<Rightarrow> (fault, status \<times> 'w tree_pipeline) sum" where
  "tp_UpdateFilters updateNext = each_link updateNext"
definition tp_UnLinkFilters :: "'w link_part \<Rightarrow> nat option \<Rightarrow> nat option list \<Rightarrow> stream_type \<Rightarrow> 'w tree_pipeline \<Rightarrow> (fault, status \<times> 'w tree_pipeline) sum" where
  "tp_UnLinkFilters unLinkNext = each_link unLinkNext"

section \<open>What a call reaches\<close>

text \<open>Filters that answer and write down that they were called.\<close>

definition noting :: "(tree_call \<Rightarrow> nat \<Rightarrow> status) \<Rightarrow> (tree_call \<times> nat) list own_part" where
  "noting res c f s = (res c f, s\<lparr>fn_world := fn_world s @ [(c, f)]\<rparr>)"

definition leads :: "'w filter_net \<Rightarrow> (nat \<times> nat) set" where
  "leads s = {(f, g). g \<in> set (next_filters s f)}"

text \<open>A forest: ranks fall along the links, and a filter comes next to at most one other, once.\<close>

definition forest :: "'w filter_net \<Rightarrow> (nat \<Rightarrow> nat) \<Rightarrow> bool" where
  "forest s rank \<longleftrightarrow> (\<forall>f. \<forall>g \<in> set (next_filters s f). rank g < rank f) \<and> single_valued ((leads s)\<inverse>) \<and> (\<forall>f. distinct (next_filters s f))"

fun pre :: "nat \<Rightarrow> (nat \<Rightarrow> nat list) \<Rightarrow> nat \<Rightarrow> nat list" where
  "pre 0 nx f = []"
| "pre (Suc n) nx f = f # concat (map (pre n nx) (nx f))"

lemma forestD: "forest s rank \<Longrightarrow> g \<in> set (next_filters s f) \<Longrightarrow> rank g < rank f"
  by (simp add: forest_def)

lemma leads_rank:
  assumes "forest s rank" "(f, g) \<in> (leads s)\<^sup>*"
  shows "rank g \<le> rank f"
  using assms(2)
proof (induction rule: rtrancl_induct)
  case (step y z)
  then show ?case using forestD [OF assms(1), of z y] by (auto simp: leads_def)
qed simp

lemma set_pre: "forest s rank \<Longrightarrow> rank f < n \<Longrightarrow> set (pre n (next_filters s) f) = (leads s)\<^sup>* `` {f}"
proof (induction n arbitrary: f)
  case (Suc n)
  have IH: "set (pre n (next_filters s) g) = (leads s)\<^sup>* `` {g}" if "g \<in> set (next_filters s f)" for g
    using Suc.IH [OF Suc.prems(1), of g] forestD [OF Suc.prems(1) that] Suc.prems(2) by simp
  have "(leads s)\<^sup>* `` {f} = insert f (\<Union>g \<in> set (next_filters s f). (leads s)\<^sup>* `` {g})"
    by (auto simp: leads_def elim: converse_rtranclE intro: converse_rtrancl_into_rtrancl)
  then show ?case using IH by simp
qed simp

lemma apart:
  assumes "forest s rank" "g \<in> set (next_filters s f)" "h \<in> set (next_filters s f)" "g \<noteq> h"
  shows "(leads s)\<^sup>* `` {g} \<inter> (leads s)\<^sup>* `` {h} = {}"
proof -
  have no: "(a, b) \<notin> (leads s)\<^sup>*" if ab: "a \<in> set (next_filters s f)" "b \<in> set (next_filters s f)" "a \<noteq> b" for a b
  proof
    assume "(a, b) \<in> (leads s)\<^sup>*"
    then obtain c where c: "(a, c) \<in> (leads s)\<^sup>*" "(c, b) \<in> leads s" using ab(3) by (metis rtranclE)
    have "(f, b) \<in> leads s" using ab(2) by (simp add: leads_def)
    then have "c = f" using c(2) assms(1) by (auto simp: forest_def single_valued_def)
    then have "rank f \<le> rank a" using leads_rank [OF assms(1)] c(1) by blast
    then show False using forestD [OF assms(1) ab(1)] by simp
  qed
  have "False" if "(g, x) \<in> (leads s)\<^sup>*" "(h, x) \<in> (leads s)\<^sup>*" for x
  proof -
    have "(x, g) \<in> ((leads s)\<inverse>)\<^sup>*" "(x, h) \<in> ((leads s)\<inverse>)\<^sup>*" using that by (simp_all add: rtrancl_converse)
    from single_valued_confluent [OF _ this] have "(g, h) \<in> ((leads s)\<inverse>)\<^sup>* \<or> (h, g) \<in> ((leads s)\<inverse>)\<^sup>*" using assms(1) by (simp add: forest_def)
    then show False using no assms(2-4) by (auto simp: rtrancl_converse)
  qed
  then show ?thesis by auto
qed

lemma distinct_concat_map:
  assumes "distinct xs" "\<forall>x \<in> set xs. distinct (h x)" "\<forall>x \<in> set xs. \<forall>y \<in> set xs. x \<noteq> y \<longrightarrow> set (h x) \<inter> set (h y) = {}"
  shows "distinct (concat (map h xs))"
  using assms
proof (induction xs)
  case (Cons x xs)
  have "set (h x) \<inter> (\<Union>y \<in> set xs. set (h y)) = {}" using Cons.prems by auto
  then show ?case using Cons by simp
qed simp

lemma distinct_pre: "forest s rank \<Longrightarrow> rank f < n \<Longrightarrow> distinct (pre n (next_filters s) f)"
proof (induction n arbitrary: f)
  case (Suc n)
  have r: "rank g < n" "rank g < rank f" if "g \<in> set (next_filters s f)" for g
    using forestD [OF Suc.prems(1) that] Suc.prems(2) by simp_all
  have "distinct (concat (map (pre n (next_filters s)) (next_filters s f)))"
  proof (rule distinct_concat_map)
    show "distinct (next_filters s f)" using Suc.prems(1) by (simp add: forest_def)
    show "\<forall>g \<in> set (next_filters s f). distinct (pre n (next_filters s) g)" using Suc.IH Suc.prems(1) r(1) by blast
    show "\<forall>g \<in> set (next_filters s f). \<forall>h \<in> set (next_filters s f). g \<noteq> h \<longrightarrow>
        set (pre n (next_filters s) g) \<inter> set (pre n (next_filters s) h) = {}"
      using set_pre [OF Suc.prems(1)] r(1) apart [OF Suc.prems(1)] by simp
  qed
  moreover have "f \<notin> set (pre n (next_filters s) g)" if "g \<in> set (next_filters s f)" for g
    using set_pre [OF Suc.prems(1) r(1) [OF that]] leads_rank [OF Suc.prems(1), of g f] r(2) [OF that] by auto
  ultimately show ?case by auto
qed simp

text \<open>A filter's next filters come after it.\<close>

fun leads_on :: "(nat \<Rightarrow> nat list) \<Rightarrow> nat list \<Rightarrow> bool" where
  "leads_on nx [] \<longleftrightarrow> True"
| "leads_on nx (f # fs) \<longleftrightarrow> set (nx f) \<subseteq> set fs \<and> leads_on nx fs"

lemma leads_on_append: "leads_on nx fs \<Longrightarrow> leads_on nx gs \<Longrightarrow> leads_on nx (fs @ gs)"
  by (induction fs) auto

lemma leads_on_concat: "\<forall>xs \<in> set xss. leads_on nx xs \<Longrightarrow> leads_on nx (concat xss)"
  by (induction xss) (simp_all add: leads_on_append)

lemma pre_leads_on: "forest s rank \<Longrightarrow> rank f < n \<Longrightarrow> leads_on (next_filters s) (pre n (next_filters s) f)"
proof (induction n arbitrary: f)
  case (Suc n)
  have r: "rank g < n" if "g \<in> set (next_filters s f)" for g using forestD [OF Suc.prems(1) that] Suc.prems(2) by simp
  have "g \<in> set (pre n (next_filters s) g)" if "g \<in> set (next_filters s f)" for g using set_pre [OF Suc.prems(1) r [OF that]] by simp
  then show ?case using Suc.IH [OF Suc.prems(1) r] by (auto intro!: leads_on_concat)
qed simp

text \<open>What a call does: it notes the filters in this order, and a release takes away their links.\<close>

definition after_call :: "tree_call \<Rightarrow> nat list \<Rightarrow> (tree_call \<times> nat) list filter_net \<Rightarrow> (tree_call \<times> nat) list filter_net" where
  "after_call c fs s = \<lparr>fn_next = (\<lambda>x. if c = TC_Release \<and> x \<in> set fs then [] else fn_next s x), fn_world = fn_world s @ map (Pair c) fs\<rparr>"

lemma after_call_append: "after_call c gs (after_call c fs s) = after_call c (fs @ gs) s"
  by (auto simp: after_call_def fun_eq_iff)

lemma call_notes:
  "forest s rank \<Longrightarrow> rank f < n \<Longrightarrow> \<forall>x \<in> (leads s)\<^sup>* `` {f}. fn_next t x = fn_next s x \<Longrightarrow>
    filter_method (noting res) n c f t = Some (res c f, after_call c (pre n (next_filters s) f) t)"
proof (induction n arbitrary: f t)
  case (Suc n)
  note fo = Suc.prems(1)
  have r: "rank g < n" if "g \<in> set (next_filters s f)" for g using forestD [OF fo that] Suc.prems(2) by simp
  have each: "each_of (filter_method (noting res) n c) gs u = Some (after_call c (concat (map (pre n (next_filters s)) gs)) u)"
    if "set gs \<subseteq> set (next_filters s f)" "distinct gs" "\<forall>g \<in> set gs. \<forall>x \<in> (leads s)\<^sup>* `` {g}. fn_next u x = fn_next s x" for gs u
    using that
  proof (induction gs arbitrary: u)
    case Nil
    then show ?case by (simp add: after_call_def)
  next
    case (Cons g gs)
    let ?u = "after_call c (pre n (next_filters s) g) u"
    have g: "filter_method (noting res) n c g u = Some (res c g, ?u)" using Suc.IH [OF fo r] Cons.prems by simp
    have "fn_next ?u x = fn_next s x" if "h \<in> set gs" "x \<in> (leads s)\<^sup>* `` {h}" for h x
    proof -
      have "g \<noteq> h" using that Cons.prems(2) by auto
      then have "x \<notin> set (pre n (next_filters s) g)" using apart [OF fo, of g f h] set_pre [OF fo r, of g] Cons.prems(1) that by auto
      then show ?thesis using Cons.prems(3) that by (simp add: after_call_def)
    qed
    then have "each_of (filter_method (noting res) n c) gs ?u = Some (after_call c (concat (map (pre n (next_filters s)) gs)) ?u)"
      using Cons.IH [of ?u] Cons.prems by simp
    then show ?case using g by (simp add: after_call_append)
  qed
  let ?t = "t\<lparr>fn_world := fn_world t @ [(c, f)]\<rparr>"
  have nx: "next_filters ?t f = next_filters s f" using Suc.prems(3) by (simp add: next_filters_def)
  have reach: "(leads s)\<^sup>* `` {g} \<subseteq> (leads s)\<^sup>* `` {f}" if "g \<in> set (next_filters s f)" for g
    using that by (auto simp: leads_def intro: converse_rtrancl_into_rtrancl)
  have all: "each_of (filter_method (noting res) n c) (next_filters ?t f) ?t =
      Some (after_call c (concat (map (pre n (next_filters s)) (next_filters s f))) ?t)"
    unfolding nx using fo reach Suc.prems(3) by (intro each) (auto simp: forest_def)
  have own: "noting res c f t = (res c f, ?t)" by (simp add: noting_def)
  show ?case unfolding filter_method.simps own prod.case all option.case by (auto simp: after_call_def fun_eq_iff)
qed simp


text \<open>A source, a demuxer with an audio and a video decoder, and a sink behind each.\<close>

definition toy_net :: "(tree_call \<times> nat) list filter_net" where
  "toy_net = \<lparr>fn_next = (\<lambda>f. if f = 0 then [(STREAMTYPE_PACKED, [1])]
      else if f = 1 then [(STREAMTYPE_ENCODED_AUDIO, [2]), (STREAMTYPE_ENCODED_VIDEO, [3])]
      else if f = 2 then [(STREAMTYPE_RAW_AUDIO, [4])] else if f = 3 then [(STREAMTYPE_RAW_VIDEO, [5])] else []), fn_world = []\<rparr>"

lemma toy_forest: "forest toy_net (\<lambda>f. 5 - f)"
  by (auto simp: forest_def toy_net_def next_filters_def leads_def single_valued_def split: if_splits)


text \<open>
  \<open>Prepare\<close> of the pipeline hides that a filter failed: when the first head does, the filters of the other
  heads are not prepared, and the answer is \<open>OK\<close>; when a filter behind a head does, all go on.
\<close>

theorem prepare_hides_failure:
  assumes "forest (tp_net p) rank" "rank f < n" "tp_filters p = Some f # fs" "res TC_Prepare f \<noteq> OK"
  shows "\<exists>q. tp_Prepare (noting res) n p = Some (Inr (OK, q)) \<and> tp_state q = TS_PREPARING \<and>
    set (fn_world (tp_net q)) = set (fn_world (tp_net p)) \<union> Pair TC_Prepare ` (leads (tp_net p))\<^sup>* `` {f}"
proof -
  have "filter_method (noting res) n TC_Prepare f (tp_net p) = Some (res TC_Prepare f, after_call TC_Prepare (pre n (next_filters (tp_net p)) f) (tp_net p))"
    by (rule call_notes [OF assms(1,2)]) simp
  then show ?thesis using assms(3,4) set_pre [OF assms(1,2)]
    by (simp add: tp_Prepare_def job_until_bad_def answer_OK_def with_net_def after_call_def)
qed

theorem prepare_hides_failure_witness:
  "\<exists>q. tp_Prepare (noting (\<lambda>_ f. if f = 1 then ERROR_UNKNOWN else OK)) 6
      \<lparr>tp_state = TS_INITIALIZED, tp_filters = [Some 1, Some 6], tp_receiver = True, tp_net = toy_net\<rparr> = Some (Inr (OK, q)) \<and>
    (TC_Prepare, 6) \<notin> set (fn_world (tp_net q))"
proof -
  let ?p = "\<lparr>tp_state = TS_INITIALIZED, tp_filters = [Some 1, Some 6], tp_receiver = True, tp_net = toy_net\<rparr>"
  have "(1, 6) \<notin> (leads toy_net)\<^sup>*"
  proof
    assume "(1, 6) \<in> (leads toy_net)\<^sup>*"
    then obtain b where "(b, 6) \<in> leads toy_net" by (metis numeral_One numeral_eq_iff rtranclE semiring_norm(83,85,88))
    then show False by (auto simp: leads_def toy_net_def next_filters_def split: if_splits)
  qed
  then show ?thesis
    using prepare_hides_failure [of ?p "\<lambda>f. 5 - f" 1 6 "[Some 6]" "\<lambda>_ f. if f = 1 then ERROR_UNKNOWN else OK"] toy_forest
    by (fastforce simp: toy_net_def)
qed

section \<open>What is missing\<close>

text \<open>No event makes a pipeline ready, so one that was prepared cannot be paused before it is started.\<close>

lemma pause_before_start: "tp_Prepare own n p = Some (Inr (st, q)) \<Longrightarrow> tp_Pause own n q = Some (Inr (ERROR_UNKNOWN, q))"
proof -
  assume "tp_Prepare own n p = Some (Inr (st, q))"
  then have "tp_state q = TS_PREPARING"
    unfolding tp_Prepare_def answer_OK_def job_until_bad_def
    by (cases "until_bad (filter_method own n TC_Prepare) (tp_filters p) (tp_net p)"; cases "the (until_bad (filter_method own n TC_Prepare) (tp_filters p) (tp_net p))")
      (auto simp: with_net_def)
  then show ?thesis by (simp add: tp_Pause_def)
qed

end
