(* ===== verification/Any_Storage.thy ===== *)
theory Any_Storage
  imports Hst_Prelude
begin

text \<open>
  Where \<open>Any\<close> keeps its value (interface/inner_api/meta/any.h; engine/include/plugin/common/any.h is the same in this):
  the objects that its three tables of functions make, move and destroy.

  Objects are numbered as they are made; \<open>as_objs\<close> has the value of each that lives, \<open>as_bad\<close> says that one was destroyed that did
  not. A value of a trivial type is the bytes in the storage itself. \<open>Tmp\<close> is the temporary object of the
  operation that runs.
\<close>

section \<open>Storage and tables\<close>

datatype any_table = TrivialStackFunctionTable | StackFunctionTable | HeapFunctionTable

datatype 'v storage = S_zero | S_trivial 'v | S_object nat | S_heap nat

record 'v any_box =
  ab_table :: "any_table option"
  ab_storage :: "'v storage"

datatype box_id = Box nat | Tmp

record 'v any_state =
  as_box :: "box_id \<Rightarrow> 'v any_box"
  as_objs :: "nat \<Rightarrow> 'v option"
  as_next :: nat
  as_bad :: bool

definition empty_box :: "'v any_box" where "empty_box = \<lparr>ab_table = None, ab_storage = S_zero\<rparr>"

definition new_anys :: "'v any_state" where
  "new_anys = \<lparr>as_box = (\<lambda>_. empty_box), as_objs = (\<lambda>_. None), as_next = 0, as_bad = False\<rparr>"

definition set_box :: "box_id \<Rightarrow> 'v any_box \<Rightarrow> 'v any_state \<Rightarrow> 'v any_state" where
  "set_box i b s = s\<lparr>as_box := (as_box s)(i := b)\<rparr>"

definition table_of :: "'v any_state \<Rightarrow> box_id \<Rightarrow> any_table option" where "table_of s i = ab_table (as_box s i)"
definition storage_of :: "'v any_state \<Rightarrow> box_id \<Rightarrow> 'v storage" where "storage_of s i = ab_storage (as_box s i)"

definition HasValue :: "'v any_state \<Rightarrow> box_id \<Rightarrow> bool" where "HasValue s i \<longleftrightarrow> table_of s i \<noteq> None"

text \<open>A constructor and a destructor.\<close>

definition make :: "'v \<Rightarrow> 'v any_state \<Rightarrow> nat \<times> 'v any_state" where
  "make v s = (as_next s, s\<lparr>as_objs := (as_objs s)(as_next s \<mapsto> v), as_next := Suc (as_next s)\<rparr>)"

definition kill :: "nat \<Rightarrow> 'v any_state \<Rightarrow> 'v any_state" where
  "kill n s = s\<lparr>as_objs := (as_objs s)(n := None), as_bad := as_bad s \<or> as_objs s n = None\<rparr>"

definition set_storage :: "box_id \<Rightarrow> 'v storage \<Rightarrow> 'v any_state \<Rightarrow> 'v any_state" where
  "set_storage i x s = set_box i ((as_box s i)\<lparr>ab_storage := x\<rparr>) s"

definition set_table :: "box_id \<Rightarrow> any_table option \<Rightarrow> 'v any_state \<Rightarrow> 'v any_state" where
  "set_table i t s = set_box i ((as_box s i)\<lparr>ab_table := t\<rparr>) s"

text \<open>The three tables. Deleting a null pointer does nothing; the object behind the storage of a stack table is not forgotten.\<close>

fun Destroy :: "any_table \<Rightarrow> box_id \<Rightarrow> 'v any_state \<Rightarrow> 'v any_state" where
  "Destroy TrivialStackFunctionTable i s = s"
| "Destroy StackFunctionTable i s = (case storage_of s i of S_object n \<Rightarrow> kill n s | _ \<Rightarrow> s\<lparr>as_bad := True\<rparr>)"
| "Destroy HeapFunctionTable i s = set_storage i S_zero (case storage_of s i of S_heap n \<Rightarrow> kill n s | _ \<Rightarrow> s)"

fun Copy :: "any_table \<Rightarrow> box_id \<Rightarrow> box_id \<Rightarrow> 'v any_state \<Rightarrow> 'v any_state" where
  "Copy TrivialStackFunctionTable dest src s = set_storage dest (storage_of s src) s"
| "Copy StackFunctionTable dest src s =
     (case storage_of s src of
        S_object n \<Rightarrow>
          (case as_objs s n of Some v \<Rightarrow> (case make v s of (m, s1) \<Rightarrow> set_storage dest (S_object m) s1) | None \<Rightarrow> s\<lparr>as_bad := True\<rparr>)
      | _ \<Rightarrow> s\<lparr>as_bad := True\<rparr>)"
| "Copy HeapFunctionTable dest src s =
     (case storage_of s src of
        S_heap n \<Rightarrow>
          (case as_objs s n of Some v \<Rightarrow> (case make v s of (m, s1) \<Rightarrow> set_storage dest (S_heap m) s1) | None \<Rightarrow> s\<lparr>as_bad := True\<rparr>)
      | _ \<Rightarrow> s\<lparr>as_bad := True\<rparr>)"

fun Move :: "any_table \<Rightarrow> box_id \<Rightarrow> box_id \<Rightarrow> 'v any_state \<Rightarrow> 'v any_state" where
  "Move TrivialStackFunctionTable dest src s = set_storage src S_zero (Copy TrivialStackFunctionTable dest src s)"
| "Move StackFunctionTable dest src s = Destroy StackFunctionTable src (Copy StackFunctionTable dest src s)"
| "Move HeapFunctionTable dest src s = set_storage src S_zero (set_storage dest (storage_of s src) s)"

section \<open>Any\<close>

definition any_Reset :: "box_id \<Rightarrow> 'v any_state \<Rightarrow> 'v any_state" where
  "any_Reset i s =
     set_table i None (case table_of s i of None \<Rightarrow> s | Some t \<Rightarrow> set_storage i S_zero (Destroy t i s))"

definition any_copy_ctor :: "box_id \<Rightarrow> box_id \<Rightarrow> 'v any_state \<Rightarrow> 'v any_state" where
  "any_copy_ctor i other s =
     (let s1 = set_box i \<lparr>ab_table = table_of s other, ab_storage = S_zero\<rparr> s
      in case table_of s other of None \<Rightarrow> s1 | Some t \<Rightarrow> Copy t i other s1)"

definition any_move_ctor :: "box_id \<Rightarrow> box_id \<Rightarrow> 'v any_state \<Rightarrow> 'v any_state" where
  "any_move_ctor i other s =
     (let s1 = set_box i \<lparr>ab_table = table_of s other, ab_storage = S_zero\<rparr> s
      in case table_of s other of None \<Rightarrow> s1 | Some t \<Rightarrow> set_table other None (Move t i other s1))"

fun DoEmplace :: "box_id \<Rightarrow> any_table \<Rightarrow> 'v \<Rightarrow> 'v any_state \<Rightarrow> 'v any_state" where
  "DoEmplace i TrivialStackFunctionTable v s = set_box i \<lparr>ab_table = Some TrivialStackFunctionTable, ab_storage = S_trivial v\<rparr> s"
| "DoEmplace i StackFunctionTable v s =
     (case make v s of (n, s1) \<Rightarrow> set_box i \<lparr>ab_table = Some StackFunctionTable, ab_storage = S_object n\<rparr> s1)"
| "DoEmplace i HeapFunctionTable v s =
     (case make v s of (n, s1) \<Rightarrow> set_box i \<lparr>ab_table = Some HeapFunctionTable, ab_storage = S_heap n\<rparr> s1)"

definition any_MoveFrom :: "box_id \<Rightarrow> box_id \<Rightarrow> 'v any_state \<Rightarrow> 'v any_state" where
  "any_MoveFrom i other s =
     (case table_of s other of None \<Rightarrow> s | Some t \<Rightarrow> any_Reset other (Move t i other (set_table i (Some t) s)))"

definition any_move_assign :: "box_id \<Rightarrow> box_id \<Rightarrow> 'v any_state \<Rightarrow> 'v any_state" where
  "any_move_assign i other s = any_MoveFrom i other (any_Reset i s)"

text \<open>Assigning moves from a temporary, which is destroyed then.\<close>

definition any_copy_assign :: "box_id \<Rightarrow> box_id \<Rightarrow> 'v any_state \<Rightarrow> 'v any_state" where
  "any_copy_assign i other s = any_Reset Tmp (any_move_assign i Tmp (any_copy_ctor Tmp other s))"

definition any_value_assign :: "box_id \<Rightarrow> any_table \<Rightarrow> 'v \<Rightarrow> 'v any_state \<Rightarrow> 'v any_state" where
  "any_value_assign i t v s = any_Reset Tmp (any_move_assign i Tmp (DoEmplace Tmp t v (set_box Tmp empty_box s)))"

definition any_Emplace :: "box_id \<Rightarrow> any_table \<Rightarrow> 'v \<Rightarrow> 'v any_state \<Rightarrow> 'v any_state" where
  "any_Emplace i t v s = DoEmplace i t v (any_Reset i s)"

definition any_Swap :: "box_id \<Rightarrow> box_id \<Rightarrow> 'v any_state \<Rightarrow> 'v any_state" where
  "any_Swap i other s =
     any_Reset Tmp (any_move_assign other Tmp (any_move_assign i other (any_move_ctor Tmp i s)))"

text \<open>What \<open>Cast\<close> finds.\<close>

definition Cast :: "'v any_state \<Rightarrow> box_id \<Rightarrow> (any_table \<times> 'v) option" where
  "Cast s i =
     (case table_of s i of
        None \<Rightarrow> None
      | Some t \<Rightarrow>
          (case storage_of s i of
             S_trivial v \<Rightarrow> Some (t, v)
           | S_object n \<Rightarrow> map_option (Pair t) (as_objs s n)
           | S_heap n \<Rightarrow> map_option (Pair t) (as_objs s n)
           | S_zero \<Rightarrow> None))"

section \<open>What users see\<close>

text \<open>Boxes as their values; assigning a box to itself by moving leaves it empty.\<close>

datatype 'v any_use = U_Emplace nat any_table 'v | U_Assign nat any_table 'v | U_Copy nat nat | U_Move nat nat | U_Swap nat nat | U_Reset nat

fun use_any :: "'v any_use \<Rightarrow> 'v any_state \<Rightarrow> 'v any_state" where
  "use_any (U_Emplace i t v) s = any_Emplace (Box i) t v s"
| "use_any (U_Assign i t v) s = any_value_assign (Box i) t v s"
| "use_any (U_Copy i j) s = any_copy_assign (Box i) (Box j) s"
| "use_any (U_Move i j) s = any_move_assign (Box i) (Box j) s"
| "use_any (U_Swap i j) s = any_Swap (Box i) (Box j) s"
| "use_any (U_Reset i) s = any_Reset (Box i) s"

type_synonym 'v any_values = "nat \<Rightarrow> (any_table \<times> 'v) option"

fun use_value :: "'v any_use \<Rightarrow> 'v any_values \<Rightarrow> 'v any_values" where
  "use_value (U_Emplace i t v) f = f(i \<mapsto> (t, v))"
| "use_value (U_Assign i t v) f = f(i \<mapsto> (t, v))"
| "use_value (U_Copy i j) f = f(i := f j)"
| "use_value (U_Move i j) f = f(i := f j, j := None)"
| "use_value (U_Swap i j) f = f(i := f j, j := f i)"
| "use_value (U_Reset i) f = f(i := None)"

definition values_of :: "'v any_state \<Rightarrow> 'v any_values" where "values_of s i = Cast s (Box i)"

text \<open>The tables of a use; \<open>any_ok\<close> is what holds between uses when no table is that of the stack.\<close>

fun use_table :: "'v any_use \<Rightarrow> any_table option" where
  "use_table (U_Emplace i t v) = Some t"
| "use_table (U_Assign i t v) = Some t"
| "use_table _ = None"

fun fits :: "('v any_state) \<Rightarrow> any_table option \<Rightarrow> 'v storage \<Rightarrow> bool" where
  "fits s None x \<longleftrightarrow> x = S_zero"
| "fits s (Some TrivialStackFunctionTable) x \<longleftrightarrow> (\<exists>v. x = S_trivial v)"
| "fits s (Some StackFunctionTable) x \<longleftrightarrow> False"
| "fits s (Some HeapFunctionTable) x \<longleftrightarrow> (\<exists>n v. x = S_heap n \<and> as_objs s n = Some v)"

definition any_ok :: "'v any_state \<Rightarrow> bool" where
  "any_ok s \<longleftrightarrow> \<not> as_bad s \<and> (\<forall>i. fits s (table_of s i) (storage_of s i)) \<and>
     (\<forall>n. as_objs s n \<noteq> None \<longrightarrow> n < as_next s \<and> (\<exists>i. storage_of s i = S_heap n)) \<and>
     (\<forall>i j n. storage_of s i = S_heap n \<longrightarrow> storage_of s j = S_heap n \<longrightarrow> i = j)"

lemmas box_simps = set_box_def set_storage_def set_table_def table_of_def storage_of_def empty_box_def make_def kill_def

lemma any_okD:
  assumes "any_ok s"
  shows "\<not> as_bad s" "fits s (table_of s i) (storage_of s i)" "as_objs s n = Some v \<Longrightarrow> n < as_next s"
    "as_objs s n = Some v \<Longrightarrow> \<exists>i. storage_of s i = S_heap n"
    "storage_of s i = S_heap n \<Longrightarrow> storage_of s j = S_heap n \<Longrightarrow> i = j"
  using assms by (auto simp: any_ok_def)

text \<open>What a box without a stack table is.\<close>

lemma any_cases:
  assumes "any_ok s"
  obtains "table_of s i = None" "storage_of s i = S_zero" "Cast s i = None"
  | v where "table_of s i = Some TrivialStackFunctionTable" "storage_of s i = S_trivial v" "Cast s i = Some (TrivialStackFunctionTable, v)"
  | n v where "table_of s i = Some HeapFunctionTable" "storage_of s i = S_heap n" "as_objs s n = Some v" "Cast s i = Some (HeapFunctionTable, v)"
  using any_okD(2) [OF assms, of i] that
  by (cases "table_of s i"; cases "the (table_of s i)") (auto simp: Cast_def)

lemma empty_cast: "any_ok s \<Longrightarrow> table_of s i = None \<longleftrightarrow> Cast s i = None"
  by (erule any_cases [of s i]) auto

text \<open>What is found depends on the box and the objects only.\<close>

definition look :: "(nat \<Rightarrow> 'v option) \<Rightarrow> 'v any_box \<Rightarrow> (any_table \<times> 'v) option" where
  "look objs b =
     (case ab_table b of
        None \<Rightarrow> None
      | Some t \<Rightarrow>
          (case ab_storage b of
             S_trivial v \<Rightarrow> Some (t, v)
           | S_object n \<Rightarrow> map_option (Pair t) (objs n)
           | S_heap n \<Rightarrow> map_option (Pair t) (objs n)
           | S_zero \<Rightarrow> None))"

lemma Cast_look: "Cast s i = look (as_objs s) (as_box s i)"
  unfolding Cast_def look_def table_of_def storage_of_def by simp

lemma look_simps [simp]:
  "look objs \<lparr>ab_table = None, ab_storage = x\<rparr> = None" "look objs \<lparr>ab_table = Some t, ab_storage = S_trivial v\<rparr> = Some (t, v)"
  "look objs \<lparr>ab_table = Some t, ab_storage = S_heap n\<rparr> = map_option (Pair t) (objs n)"
  by (simp_all add: look_def)

lemma look_other:
  assumes "fits s (ab_table b) (ab_storage b)" "ab_storage b \<noteq> S_heap n"
  shows "look (objs(n := z)) b = look objs b"
  using assms by (cases "ab_table b"; cases "the (ab_table b)") (auto simp: look_def)


lemma okI:
  assumes "\<not> as_bad s" "\<And>i. fits s (table_of s i) (storage_of s i)" "\<And>n v. as_objs s n = Some v \<Longrightarrow> n < as_next s"
    "\<And>n v. as_objs s n = Some v \<Longrightarrow> \<exists>i. storage_of s i = S_heap n"
    "\<And>i j n. storage_of s i = S_heap n \<Longrightarrow> storage_of s j = S_heap n \<Longrightarrow> i = j"
  shows "any_ok s"
  unfolding any_ok_def using assms by blast

lemma fits_mono: "fits s t x \<Longrightarrow> (\<And>n. x = S_heap n \<Longrightarrow> as_objs s' n = as_objs s n) \<Longrightarrow> fits s' t x"
  by (cases t; cases "the t") auto

text \<open>The ways a box changes: it becomes empty, it gets a value, or it takes over that of another.\<close>

lemma clear_trivial:
  assumes "any_ok s" "\<And>n. storage_of s i \<noteq> S_heap n"
  shows "any_ok (set_box i empty_box s)" "Cast (set_box i empty_box s) = (Cast s)(i := None)"
proof -
  show "any_ok (set_box i empty_box s)"
  proof (rule okI)
    fix n v assume "as_objs (set_box i empty_box s) n = Some v"
    then obtain j where "storage_of s j = S_heap n" using any_okD(4) [OF assms(1)] by (auto simp: box_simps)
    then show "\<exists>j. storage_of (set_box i empty_box s) j = S_heap n" using assms(2) by (intro exI [of _ j]) (auto simp: box_simps)
  next
    fix j show "fits (set_box i empty_box s) (table_of (set_box i empty_box s) j) (storage_of (set_box i empty_box s) j)"
      using any_okD(2) [OF assms(1), of j] by (auto simp: box_simps intro: fits_mono)
  next
    fix j k n assume "storage_of (set_box i empty_box s) j = S_heap n" "storage_of (set_box i empty_box s) k = S_heap n"
    then show "j = k" using any_okD(5) [OF assms(1), of j n k] by (auto simp: box_simps split: if_splits)
  qed (use any_okD(1,3) [OF assms(1)] in \<open>auto simp: box_simps\<close>)
qed (auto simp: Cast_look box_simps fun_eq_iff)

lemma clear_heap:
  assumes "any_ok s" "storage_of s i = S_heap n"
  shows "any_ok (set_box i empty_box (kill n s))" "Cast (set_box i empty_box (kill n s)) = (Cast s)(i := None)"
proof -
  have other: "storage_of s j \<noteq> S_heap n" if "j \<noteq> i" for j using any_okD(5) [OF assms(1,2)] that by blast
  have live: "as_objs s n \<noteq> None" using any_okD(2) [OF assms(1), of i] assms(2) by (cases "table_of s i"; cases "the (table_of s i)") auto
  let ?t = "set_box i empty_box (kill n s)"
  show "any_ok ?t"
  proof (rule okI)
    fix m v assume "as_objs ?t m = Some v"
    then have m: "m \<noteq> n" "as_objs s m = Some v" by (auto simp: box_simps split: if_splits)
    then obtain j where "storage_of s j = S_heap m" using any_okD(4) [OF assms(1)] by auto
    then show "\<exists>j. storage_of ?t j = S_heap m" using assms(2) m(1) by (intro exI [of _ j]) (auto simp: box_simps)
  next
    fix j show "fits ?t (table_of ?t j) (storage_of ?t j)"
      using any_okD(2) [OF assms(1), of j] other [of j] by (auto simp: box_simps elim!: fits_mono)
  next
    fix j k m assume "storage_of ?t j = S_heap m" "storage_of ?t k = S_heap m"
    then show "j = k" using any_okD(5) [OF assms(1), of j m k] by (auto simp: box_simps split: if_splits)
  qed (use any_okD(1,3) [OF assms(1)] live in \<open>auto simp: box_simps split: if_splits\<close>)
  show "Cast ?t = (Cast s)(i := None)"
    using other any_okD(2) [OF assms(1)] by (auto simp: Cast_look box_simps fun_eq_iff intro!: look_other)
qed

lemma place_trivial:
  assumes "any_ok s" "table_of s i = None"
  shows "any_ok (set_box i \<lparr>ab_table = Some TrivialStackFunctionTable, ab_storage = S_trivial v\<rparr> s)" (is "any_ok ?t")
    "Cast (set_box i \<lparr>ab_table = Some TrivialStackFunctionTable, ab_storage = S_trivial v\<rparr> s) = (Cast s)(i \<mapsto> (TrivialStackFunctionTable, v))"
proof -
  have "storage_of s i = S_zero" using any_okD(2) [OF assms(1), of i] assms(2) by simp
  show "any_ok ?t"
  proof (rule okI)
    fix n v assume "as_objs ?t n = Some v"
    then obtain j where "storage_of s j = S_heap n" using any_okD(4) [OF assms(1)] by (auto simp: box_simps)
    then show "\<exists>j. storage_of ?t j = S_heap n" using \<open>storage_of s i = S_zero\<close> by (intro exI [of _ j]) (auto simp: box_simps)
  next
    fix j show "fits ?t (table_of ?t j) (storage_of ?t j)"
      using any_okD(2) [OF assms(1), of j] by (auto simp: box_simps elim!: fits_mono)
  next
    fix j k n assume "storage_of ?t j = S_heap n" "storage_of ?t k = S_heap n"
    then show "j = k" using any_okD(5) [OF assms(1), of j n k] by (auto simp: box_simps split: if_splits)
  qed (use any_okD(1,3) [OF assms(1)] in \<open>auto simp: box_simps\<close>)
qed (auto simp: Cast_look box_simps fun_eq_iff)

lemma place_heap:
  assumes "any_ok s" "table_of s i = None" "make v s = (n, s1)"
  shows "any_ok (set_box i \<lparr>ab_table = Some HeapFunctionTable, ab_storage = S_heap n\<rparr> s1)" (is "any_ok ?t")
    "Cast (set_box i \<lparr>ab_table = Some HeapFunctionTable, ab_storage = S_heap n\<rparr> s1) = (Cast s)(i \<mapsto> (HeapFunctionTable, v))"
proof -
  have z: "storage_of s i = S_zero" using any_okD(2) [OF assms(1), of i] assms(2) by simp
  have n: "n = as_next s" "as_objs s n = None" using assms(3) any_okD(3) [OF assms(1), of n] by (auto simp: make_def) (metis less_irrefl not_None_eq)
  have s1: "s1 = s\<lparr>as_objs := (as_objs s)(n \<mapsto> v), as_next := Suc n\<rparr>" using assms(3) by (auto simp: make_def)
  have fresh: "storage_of s j \<noteq> S_heap n" for j
    using any_okD(2) [OF assms(1), of j] n(2) by (cases "table_of s j"; cases "the (table_of s j)") auto
  show "any_ok ?t"
  proof (rule okI)
    fix m w assume m: "as_objs ?t m = Some w"
    show "\<exists>j. storage_of ?t j = S_heap m"
    proof (cases "m = n")
      case False
      then obtain j where "storage_of s j = S_heap m" using any_okD(4) [OF assms(1)] m s1 by (auto simp: box_simps)
      then show ?thesis using z s1 by (intro exI [of _ j]) (auto simp: box_simps)
    qed (auto simp: box_simps intro: exI [of _ i])
  next
    fix j show "fits ?t (table_of ?t j) (storage_of ?t j)"
      using any_okD(2) [OF assms(1), of j] s1 fresh [of j] by (auto simp: box_simps elim!: fits_mono)
  next
    fix j k m assume "storage_of ?t j = S_heap m" "storage_of ?t k = S_heap m"
    then show "j = k" using any_okD(5) [OF assms(1), of j m k] s1 fresh by (auto simp: box_simps split: if_splits)
  qed (use any_okD(1,3) [OF assms(1)] s1 n in \<open>auto simp: box_simps less_SucI split: if_splits\<close>)
  show "Cast ?t = (Cast s)(i \<mapsto> (HeapFunctionTable, v))"
    using fresh s1 any_okD(2) [OF assms(1)] by (auto simp: Cast_look box_simps fun_eq_iff intro!: look_other)
qed

lemma take_over:
  assumes "any_ok s" "table_of s i = None" "i \<noteq> j"
  shows "any_ok (set_box j empty_box (set_box i (as_box s j) s))" (is "any_ok ?t")
    "Cast (set_box j empty_box (set_box i (as_box s j) s)) = (Cast s)(i := Cast s j, j := None)"
proof -
  have z: "storage_of s i = S_zero" using any_okD(2) [OF assms(1), of i] assms(2) by simp
  show "any_ok ?t"
  proof (rule okI)
    fix n v assume "as_objs ?t n = Some v"
    then obtain k where "storage_of s k = S_heap n" using any_okD(4) [OF assms(1)] by (auto simp: box_simps)
    then show "\<exists>k. storage_of ?t k = S_heap n" using z assms(3) by (intro exI [of _ "if k = j then i else k"]) (auto simp: box_simps)
  next
    fix k show "fits ?t (table_of ?t k) (storage_of ?t k)"
      using any_okD(2) [OF assms(1), of k] any_okD(2) [OF assms(1), of j] by (auto simp: box_simps elim!: fits_mono)
  next
    fix k l n assume "storage_of ?t k = S_heap n" "storage_of ?t l = S_heap n"
    then show "k = l" using any_okD(5) [OF assms(1)] by (auto simp: box_simps split: if_splits)
  qed (use any_okD(1,3) [OF assms(1)] in \<open>auto simp: box_simps\<close>)
qed (use assms(3) in \<open>auto simp: Cast_look box_simps fun_eq_iff\<close>)

section \<open>Operations\<close>

lemma box_updates [simp]:
  "b\<lparr>ab_storage := x, ab_table := t\<rparr> = \<lparr>ab_table = t, ab_storage = x\<rparr>" "b\<lparr>ab_table := t, ab_storage := x\<rparr> = \<lparr>ab_table = t, ab_storage = x\<rparr>"
  for b :: "'v any_box"
  by (cases b; simp)+

lemma box_is: "table_of s i = t \<Longrightarrow> storage_of s i = x \<Longrightarrow> as_box s i = \<lparr>ab_table = t, ab_storage = x\<rparr>"
  by (cases "as_box s i") (simp add: table_of_def storage_of_def)

lemma reset_step:
  assumes "any_ok s"
  shows "any_ok (any_Reset i s)" "Cast (any_Reset i s) = (Cast s)(i := None)"
proof -
  have "any_ok (any_Reset i s) \<and> Cast (any_Reset i s) = (Cast s)(i := None)"
  proof (rule any_cases [OF assms, of i])
    assume i: "table_of s i = None" "Cast s i = None"
    then have "any_Reset i s = s" by (simp add: any_Reset_def set_table_def set_box_def table_of_def fun_upd_idem)
    then show ?thesis using assms i(2) by (simp add: fun_upd_idem)
  next
    fix v assume i: "table_of s i = Some TrivialStackFunctionTable" "storage_of s i = S_trivial v"
    then have "any_Reset i s = set_box i empty_box s" by (simp add: any_Reset_def box_simps)
    then show ?thesis using clear_trivial [OF assms, of i] i(2) by simp
  next
    fix n v assume i: "table_of s i = Some HeapFunctionTable" "storage_of s i = S_heap n"
    then have "any_Reset i s = set_box i empty_box (kill n s)" by (simp add: any_Reset_def box_simps)
    then show ?thesis using clear_heap [OF assms, of i n] i(2) by simp
  qed
  then show "any_ok (any_Reset i s)" "Cast (any_Reset i s) = (Cast s)(i := None)" by simp_all
qed

lemma reset_empty: "any_ok s \<Longrightarrow> table_of (any_Reset i s) i = None"
  by (simp add: empty_cast [OF reset_step(1)] reset_step(2))

lemma emplace_step:
  assumes "any_ok s" "table_of s i = None" "t \<noteq> StackFunctionTable"
  shows "any_ok (DoEmplace i t v s) \<and> Cast (DoEmplace i t v s) = (Cast s)(i \<mapsto> (t, v))"
proof (cases t)
  case HeapFunctionTable
  obtain n s1 where "make v s = (n, s1)" by (cases "make v s")
  then show ?thesis using place_heap [OF assms(1,2)] HeapFunctionTable by simp
qed (use place_trivial [OF assms(1,2)] assms(3) in simp_all)

text \<open>Moving into an empty box, with what is done to the one moved from.\<close>

lemma move_step:
  assumes "any_ok s" "table_of s i = None" "i \<noteq> j"
  shows "any_ok (any_MoveFrom i j s) \<and> Cast (any_MoveFrom i j s) = (Cast s)(i := Cast s j, j := None)"
    "any_move_ctor i j s = any_MoveFrom i j s"
proof -
  have z: "storage_of s i = S_zero" using any_okD(2) [OF assms(1), of i] assms(2) by simp
  have bi: "as_box s i = empty_box" using box_is [OF assms(2) z] by (simp add: empty_box_def)
  have "any_MoveFrom i j s = set_box j empty_box (set_box i (as_box s j) s) \<and> any_move_ctor i j s = any_MoveFrom i j s"
  proof (rule any_cases [OF assms(1), of j])
    assume "table_of s j = None" "storage_of s j = S_zero"
    with box_is [OF this] bi show ?thesis by (simp add: any_MoveFrom_def any_move_ctor_def box_simps fun_upd_idem)
  next
    fix v assume "table_of s j = Some TrivialStackFunctionTable" "storage_of s j = S_trivial v"
    with box_is [OF this] assms(3) bi show ?thesis
      by (simp add: any_MoveFrom_def any_move_ctor_def any_Reset_def box_simps fun_upd_twist)
  next
    fix n v assume "table_of s j = Some HeapFunctionTable" "storage_of s j = S_heap n"
    with box_is [OF this] assms(3) bi show ?thesis
      by (simp add: any_MoveFrom_def any_move_ctor_def any_Reset_def box_simps fun_upd_twist)
  qed
  then show "any_ok (any_MoveFrom i j s) \<and> Cast (any_MoveFrom i j s) = (Cast s)(i := Cast s j, j := None)"
    "any_move_ctor i j s = any_MoveFrom i j s" using take_over [OF assms] by simp_all
qed

lemma copy_step:
  assumes "any_ok s" "table_of s i = None" "i \<noteq> j"
  shows "any_ok (any_copy_ctor i j s) \<and> Cast (any_copy_ctor i j s) = (Cast s)(i := Cast s j)"
proof (rule any_cases [OF assms(1), of j])
  assume j: "table_of s j = None" "Cast s j = None"
  have z: "storage_of s i = S_zero" using any_okD(2) [OF assms(1), of i] assms(2) by simp
  have "any_copy_ctor i j s = set_box i empty_box s" using j by (simp add: any_copy_ctor_def empty_box_def)
  then show ?thesis using clear_trivial [OF assms(1), of i] z j(2) by simp
next
  fix v assume j: "table_of s j = Some TrivialStackFunctionTable" "storage_of s j = S_trivial v" "Cast s j = Some (TrivialStackFunctionTable, v)"
  then have "any_copy_ctor i j s = set_box i \<lparr>ab_table = Some TrivialStackFunctionTable, ab_storage = S_trivial v\<rparr> s"
    using assms(3) by (simp add: any_copy_ctor_def box_simps)
  then show ?thesis using place_trivial [OF assms(1,2)] j(3) by simp
next
  fix n v assume j: "table_of s j = Some HeapFunctionTable" "storage_of s j = S_heap n" "as_objs s n = Some v" "Cast s j = Some (HeapFunctionTable, v)"
  have "any_copy_ctor i j s = (case make v s of (m, s1) \<Rightarrow> set_box i \<lparr>ab_table = Some HeapFunctionTable, ab_storage = S_heap m\<rparr> s1)"
    using j assms(3) by (simp add: any_copy_ctor_def box_simps)
  then show ?thesis using place_heap [OF assms(1,2)] j(4) by (auto simp: make_def)
qed

lemma move_assign_step:
  assumes "any_ok s"
  shows "any_ok (any_move_assign i j s) \<and> Cast (any_move_assign i j s) = (Cast s)(i := Cast s j, j := None)"
proof (cases "i = j")
  case True
  then show ?thesis using reset_step [OF assms, of i] reset_empty [OF assms, of i] by (simp add: any_move_assign_def any_MoveFrom_def)
next
  case False
  then show ?thesis using move_step(1) [OF reset_step(1) reset_empty, OF assms assms False] reset_step(2) [OF assms]
    by (simp add: any_move_assign_def fun_upd_twist)
qed

text \<open>A use, when no temporary is left over from another.\<close>

lemma use_step:
  assumes "any_ok s" "Cast s Tmp = None" "use_table u \<noteq> Some StackFunctionTable"
  shows "any_ok (use_any u s) \<and> Cast (use_any u s) Tmp = None \<and> values_of (use_any u s) = use_value u (values_of s)"
proof (cases u)
  case (U_Emplace i t v)
  then show ?thesis using emplace_step [OF reset_step(1) reset_empty, OF assms(1,1), of t "Box i" v] assms(2,3) reset_step(2) [OF assms(1)]
    by (auto simp: any_Emplace_def values_of_def)
next
  case (U_Assign i t v)
  have tmp: "set_box Tmp empty_box s = s" using empty_cast [OF assms(1), of Tmp] assms(2) any_okD(2) [OF assms(1), of Tmp]
    by (simp add: box_simps fun_upd_idem)
  let ?s = "DoEmplace Tmp t v s"
  have e: "any_ok ?s \<and> Cast ?s = (Cast s)(Tmp \<mapsto> (t, v))"
    using emplace_step [OF assms(1)] empty_cast [OF assms(1), of Tmp] assms(2,3) U_Assign by simp
  then show ?thesis
    using move_assign_step [of ?s "Box i" Tmp] reset_step [of "any_move_assign (Box i) Tmp ?s" Tmp] tmp U_Assign
    by (auto simp: any_value_assign_def values_of_def)
next
  case (U_Copy i j)
  let ?s = "any_copy_ctor Tmp (Box j) s"
  have "any_ok ?s \<and> Cast ?s = (Cast s)(Tmp := Cast s (Box j))"
    using copy_step [OF assms(1), of Tmp "Box j"] empty_cast [OF assms(1), of Tmp] assms(2) by simp
  then show ?thesis
    using move_assign_step [of ?s "Box i" Tmp] reset_step [of "any_move_assign (Box i) Tmp ?s" Tmp] U_Copy
    by (auto simp: any_copy_assign_def values_of_def)
next
  case (U_Swap i j)
  let ?s = "any_move_ctor Tmp (Box i) s" and ?t = "any_move_assign (Box i) (Box j) (any_move_ctor Tmp (Box i) s)"
  have "any_ok ?s \<and> Cast ?s = (Cast s)(Tmp := Cast s (Box i), Box i := None)"
    using move_step [OF assms(1), of Tmp "Box i"] empty_cast [OF assms(1), of Tmp] assms(2) by simp
  moreover from this have "any_ok ?t \<and> Cast ?t = (Cast ?s)(Box i := Cast ?s (Box j), Box j := None)" using move_assign_step by blast
  ultimately show ?thesis
    using move_assign_step [of ?t "Box j" Tmp] reset_step [of "any_move_assign (Box j) Tmp ?t" Tmp] U_Swap
    by (auto simp: any_Swap_def values_of_def)
qed (use move_assign_step [OF assms(1)] reset_step [OF assms(1)] assms(2) in \<open>auto simp: values_of_def\<close>)



text \<open>
  A value in the storage whose type has a destructor, such as a shared pointer, is destroyed twice by each assignment:
  \<open>Move\<close> destroys what it moved from, and \<open>MoveFrom\<close> resets the other box.
\<close>

lemma stack_destroyed_twice: "as_bad (any_value_assign (Box i) StackFunctionTable v new_anys)"
  by (simp add: any_value_assign_def any_move_assign_def any_MoveFrom_def any_Reset_def new_anys_def box_simps)

end
