(* ===== verification/Meta_Data.thy ===== *)
theory Meta_Data
  imports Std_Map "HOL-Library.List_Lexorder" "HOL-Library.Char_ord"
begin

text \<open>
  Meta data of the new interface: \<open>Any\<close> with its transport in a parcel (interface/inner_api/meta/any.h,
  src/meta/any.cpp), \<open>Meta\<close> with its tables of tags (interface/inner_api/meta/meta.h, src/meta/meta.cpp), and
  \<open>Format\<close> (src/meta/format.cpp).

  An \<open>Any\<close> is its value together with the type it was made of; the value of an enumeration is the number behind it.
  Floating-point numbers are their bit patterns, which are only handed on. A parcel is an argument; what is
  known of it is \<open>parcel_laws\<close>.
\<close>

section \<open>Any\<close>

datatype any_enum = EN_SrcInputType | EN_AudioSampleFormat | EN_VideoPixelFormat | EN_MediaType | EN_VideoH264Profile | EN_VideoRotation
  | EN_ColorPrimary | EN_TransferCharacteristic | EN_MatrixCoefficient | EN_HEVCProfile | EN_HEVCLevel | EN_ChromaLocation
  | EN_FileType | EN_VideoEncodeBitrateMode | EN_AudioChannelLayout | EN_AudioAacProfile | EN_AudioAacStreamFormat

datatype any_value = AV_Empty | AV_bool bool | AV_uint8 u8 | AV_int32 u32 | AV_uint32 u32 | AV_int64 u64 | AV_uint64 u64
  | AV_float u32 | AV_double u64 | AV_string string | AV_bytes "u8 list" | AV_formats "u32 list" | AV_enum any_enum int

text \<open>The size of an enumeration, and what a number becomes when it is cast to it.\<close>

fun enum_size :: "any_enum \<Rightarrow> nat" where
  "enum_size EN_AudioChannelLayout = 8"
| "enum_size EN_AudioAacProfile = 1"
| "enum_size EN_AudioAacStreamFormat = 1"
| "enum_size _ = 4"

fun enum_cast :: "any_enum \<Rightarrow> int \<Rightarrow> int" where
  "enum_cast EN_AudioChannelLayout i = sint (word_of_int i :: u64)"
| "enum_cast EN_AudioAacProfile i = uint (word_of_int i :: u8)"
| "enum_cast EN_AudioAacStreamFormat i = uint (word_of_int i :: u8)"
| "enum_cast EN_SrcInputType i = uint (word_of_int i :: u32)"
| "enum_cast _ i = sint (word_of_int i :: u32)"

fun any_size :: "any_value \<Rightarrow> nat" where
  "any_size AV_Empty = 0"
| "any_size (AV_bool _) = 1" | "any_size (AV_uint8 _) = 1"
| "any_size (AV_int32 _) = 4" | "any_size (AV_uint32 _) = 4" | "any_size (AV_float _) = 4"
| "any_size (AV_int64 _) = 8" | "any_size (AV_uint64 _) = 8" | "any_size (AV_double _) = 8"
| "any_size (AV_string _) = 32" | "any_size (AV_bytes _) = 24" | "any_size (AV_formats _) = 24"
| "any_size (AV_enum e _) = enum_size e"

section \<open>Transport\<close>

datatype parcel_type = VT_INVALID_TYPE | VT_BOOL | VT_UINT8_T | VT_INT32_T | VT_UINT32_T | VT_INT64_T | VT_UINT64_T | VT_FLOAT
  | VT_DOUBLE | VT_VECTOR_UINT8 | VT_VECTOR_UINT32 | VT_STRING

fun vt_code :: "parcel_type \<Rightarrow> u32" where
  "vt_code VT_INVALID_TYPE = 1" | "vt_code VT_BOOL = 2" | "vt_code VT_UINT8_T = 3" | "vt_code VT_INT32_T = 4"
| "vt_code VT_UINT32_T = 5" | "vt_code VT_INT64_T = 6" | "vt_code VT_UINT64_T = 7" | "vt_code VT_FLOAT = 8"
| "vt_code VT_DOUBLE = 9" | "vt_code VT_VECTOR_UINT8 = 10" | "vt_code VT_VECTOR_UINT32 = 11" | "vt_code VT_STRING = 12"

datatype parcel_item = PI_bool bool | PI_int32 u32 | PI_int64 u64 | PI_float u32 | PI_double u64 | PI_string string | PI_bytes "u8 list"

record 'p parcel_ops =
  pc_new :: 'p
  pc_write :: "parcel_item \<Rightarrow> 'p \<Rightarrow> bool \<times> 'p"
  pc_append :: "'p \<Rightarrow> 'p \<Rightarrow> bool \<times> 'p"
  pc_capacity :: "'p \<Rightarrow> nat"
  pc_bool :: "'p \<Rightarrow> bool \<times> 'p"
  pc_int32 :: "'p \<Rightarrow> u32 \<times> 'p"
  pc_int64 :: "'p \<Rightarrow> u64 \<times> 'p"
  pc_float :: "'p \<Rightarrow> u32 \<times> 'p"
  pc_double :: "'p \<Rightarrow> u64 \<times> 'p"
  pc_string :: "'p \<Rightarrow> string \<times> 'p"
  pc_bytes :: "'p \<Rightarrow> u8 list \<times> 'p"

definition write_two :: "'p parcel_ops \<Rightarrow> parcel_type \<Rightarrow> parcel_item \<Rightarrow> 'p \<Rightarrow> bool \<times> 'p" where
  "write_two M t i p = (case pc_write M (PI_int32 (vt_code t)) p of (r1, p1) \<Rightarrow> (case pc_write M i p1 of (r2, p2) \<Rightarrow> (r1 \<and> r2, p2)))"

fun BaseTypesToParcel :: "'p parcel_ops \<Rightarrow> any_value \<Rightarrow> 'p \<Rightarrow> bool \<times> 'p" where
  "BaseTypesToParcel M (AV_bool b) p = write_two M VT_BOOL (PI_bool b) p"
| "BaseTypesToParcel M (AV_int32 i) p = write_two M VT_INT32_T (PI_int32 i) p"
| "BaseTypesToParcel M (AV_int64 i) p = write_two M VT_INT64_T (PI_int64 i) p"
| "BaseTypesToParcel M (AV_float i) p = write_two M VT_FLOAT (PI_float i) p"
| "BaseTypesToParcel M (AV_double i) p = write_two M VT_DOUBLE (PI_double i) p"
| "BaseTypesToParcel M (AV_string s) p = write_two M VT_STRING (PI_string s) p"
| "BaseTypesToParcel M (AV_bytes bs) p = write_two M VT_VECTOR_UINT8 (PI_bytes bs) p"
| "BaseTypesToParcel M _ p = (False, snd (pc_write M (PI_int32 (vt_code VT_INVALID_TYPE)) p))"

text \<open>\<open>WriteValueToParcel\<close> and \<open>WriteValueToParcelInt64\<close>, whose answers are not looked at.\<close>

fun write_enum :: "'p parcel_ops \<Rightarrow> any_value \<Rightarrow> 'p \<Rightarrow> 'p" where
  "write_enum M (AV_enum e i) p =
     snd (pc_write M (if enum_size e = 8 then PI_int64 (word_of_int i) else PI_int32 (word_of_int i)) p)"
| "write_enum M _ p = p"

definition any_ToParcel :: "'p parcel_ops \<Rightarrow> any_value \<Rightarrow> 'p \<Rightarrow> bool \<times> 'p" where
  "any_ToParcel M v p =
     (if v = AV_Empty then (False, p)
      else case BaseTypesToParcel M v p of
             (r, p1) \<Rightarrow> if r then (True, p1) else if any_size v > 8 then (False, p1) else (True, write_enum M v p1))"

definition BaseTypesFromParcel :: "'p parcel_ops \<Rightarrow> 'p \<Rightarrow> any_value option \<times> 'p" where
  "BaseTypesFromParcel M p =
     (case pc_int32 M p of
        (t, p1) \<Rightarrow>
          if t = vt_code VT_BOOL then apfst (Some \<circ> AV_bool) (pc_bool M p1)
          else if t = vt_code VT_INT32_T then apfst (Some \<circ> AV_int32) (pc_int32 M p1)
          else if t = vt_code VT_INT64_T then apfst (Some \<circ> AV_int64) (pc_int64 M p1)
          else if t = vt_code VT_FLOAT then apfst (Some \<circ> AV_float) (pc_float M p1)
          else if t = vt_code VT_DOUBLE then apfst (Some \<circ> AV_double) (pc_double M p1)
          else if t = vt_code VT_STRING then apfst (Some \<circ> AV_string) (pc_string M p1)
          else if t = vt_code VT_VECTOR_UINT8 then apfst (Some \<circ> AV_bytes) (pc_bytes M p1)
          else (None, p1))"

fun MakeAnyFromParcel :: "'p parcel_ops \<Rightarrow> any_value \<Rightarrow> 'p \<Rightarrow> any_value \<times> 'p" where
  "MakeAnyFromParcel M (AV_enum e i) p =
     (if enum_size e = 8 then apfst (\<lambda>w. AV_enum e (enum_cast e (sint w))) (pc_int64 M p)
      else apfst (\<lambda>w. AV_enum e (enum_cast e (sint w))) (pc_int32 M p))"
| "MakeAnyFromParcel M v p = (v, p)"

text \<open>It always answers true; an empty \<open>Any\<close> has no table of functions to call.\<close>

definition any_FromParcel :: "'p parcel_ops \<Rightarrow> any_value \<Rightarrow> 'p \<Rightarrow> (fault, any_value \<times> 'p) sum" where
  "any_FromParcel M v p =
     (if v = AV_Empty then Inl Null_Deref
      else Inr (case BaseTypesFromParcel M p of (Some w, p1) \<Rightarrow> (w, p1) | (None, p1) \<Rightarrow> MakeAnyFromParcel M v p1))"

section \<open>Tags\<close>

definition def_string :: any_value where "def_string = AV_string []"
definition def_int32 :: any_value where "def_int32 = AV_int32 0"
definition def_int64 :: any_value where "def_int64 = AV_int64 0"
definition def_uint64 :: any_value where "def_uint64 = AV_uint64 0"
definition def_float :: any_value where "def_float = AV_float 0"
definition def_double :: any_value where "def_double = AV_double 0"
definition def_bool :: any_value where "def_bool = AV_bool False"
definition def_bytes :: any_value where "def_bytes = AV_bytes []"
definition def_formats :: any_value where "def_formats = AV_formats []"

definition g_metadataDefaultValueMap :: "(string \<times> any_value) list" where
  "g_metadataDefaultValueMap = [
     (''regular.src.input.type'', AV_enum EN_SrcInputType 0), (''audio_sample_format'', AV_enum EN_AudioSampleFormat (- 1)),
     (''pixel_format'', AV_enum EN_VideoPixelFormat (- 1)), (''track_type'', AV_enum EN_MediaType (- 1)),
     (''video.h264.profile'', AV_enum EN_VideoH264Profile 0), (''rotation_angle'', AV_enum EN_VideoRotation 0),
     (''color_primaries'', AV_enum EN_ColorPrimary 9), (''transfer_characteristics'', AV_enum EN_TransferCharacteristic 12),
     (''matrix_coefficients'', AV_enum EN_MatrixCoefficient 10), (''video.h265.profile'', AV_enum EN_HEVCProfile (- 1)),
     (''video.h265.level'', AV_enum EN_HEVCLevel (- 1)), (''chroma_location'', AV_enum EN_ChromaLocation 6),
     (''file_type'', AV_enum EN_FileType 0), (''video_encode_bitrate_mode'', AV_enum EN_VideoEncodeBitrateMode 0),
     (''regular.app.uid'', def_int32), (''regular.app.pid'', def_int32), (''regular.app.token.id'', def_int32),
     (''max_input_buffer_count'', def_int32), (''max_input_size'', def_int32), (''max_output_buffer_count'', def_int32),
     (''regular.required.out.buffer.size'', def_int32), (''regular.buffering.size'', def_int32),
     (''regular.waterline.high'', def_int32), (''regular.waterline.low'', def_int32), (''channel_count'', def_int32),
     (''sample_rate'', def_int32), (''audio_samples_per_frame'', def_int32), (''audio.output.channels'', def_int32),
     (''audio.mpeg.version'', def_int32), (''audio.mpeg.layer'', def_int32), (''audio.aac.level'', def_int32),
     (''audio.object.number'', def_int32), (''audio.max.input.size'', def_int32), (''audio.max.output.size'', def_int32),
     (''width'', def_int32), (''height'', def_int32), (''video_delay'', def_int32), (''video.max.surface_num'', def_int32),
     (''video.h264.level'', def_int32), (''track_count'', def_int32), (''aac_is_adts'', def_int32),
     (''compression_level'', def_int32), (''bits_per_coded_sample'', def_int32), (''track_index'', def_int32),
     (''scale_type'', def_int32), (''i_frame_interval'', def_int32), (''codec_profile'', def_int32),
     (''quality'', def_int32), (''sbr'', def_int32), (''compliance_level'', def_int32), (''codec_level'', def_int32),
     (''stride'', def_int32), (''display_width'', def_int32), (''display_height'', def_int32), (''codec_mime'', def_string),
     (''media.file.uri'', def_string), (''title'', def_string), (''artist'', def_string), (''media.lyricist'', def_string),
     (''album'', def_string), (''album_artist'', def_string), (''date'', def_string), (''comment'', def_string),
     (''genre'', def_string), (''copyright'', def_string), (''language'', def_string), (''description'', def_string),
     (''user.time.sync.result'', def_string), (''user.av.sync.group.info'', def_string),
     (''user.shared.memory.fd'', def_string), (''author'', def_string), (''composer'', def_string),
     (''lyrics'', def_string), (''codec_name'', def_string), (''process_name'', def_string),
     (''creation_time'', def_string), (''latitude'', def_float), (''longitude'', def_float), (''capture_rate'', def_double),
     (''frame_rate'', def_double), (''range_flag'', def_bool), (''req_i_frame'', def_bool),
     (''video_is_hdr_vivid'', def_bool), (''has_video'', def_bool), (''has_audio'', def_bool), (''endOfStream'', def_bool),
     (''frame_rate_adaptive_mode'', def_bool), (''media.file.size'', def_uint64), (''media.position'', def_uint64),
     (''regular.app.full.token.id'', def_int64), (''duration'', def_int64), (''bitrate'', def_int64),
     (''media.start.time'', def_int64), (''user.frame.pts'', def_int64), (''user.push.data.time'', def_int64),
     (''timeStamp'', def_int64), (''channel_layout'', AV_enum EN_AudioChannelLayout 0),
     (''audio.output.channel.layout'', AV_enum EN_AudioChannelLayout 0),
     (''audio.aac.profile'', AV_enum EN_AudioAacProfile 39),
     (''audio.aac.stream.format'', AV_enum EN_AudioAacStreamFormat 4), (''codec_config'', def_bytes),
     (''audio.vivid.metadata'', def_bytes), (''cover'', def_bytes), (''identification_header'', def_bytes),
     (''setup_header'', def_bytes), (''video.bit.stream.format'', def_formats)]"

definition GetDefaultAnyValue :: "string \<Rightarrow> any_value" where
  "GetDefaultAnyValue tag = (case map_of g_metadataDefaultValueMap tag of None \<Rightarrow> def_string | Some v \<Rightarrow> v)"

definition g_metadataGetterSetterMap :: "(string \<times> any_enum) list" where
  "g_metadataGetterSetterMap = [
     (''regular.src.input.type'', EN_SrcInputType), (''audio_sample_format'', EN_AudioSampleFormat),
     (''pixel_format'', EN_VideoPixelFormat), (''track_type'', EN_MediaType), (''video.h264.profile'', EN_VideoH264Profile),
     (''rotation_angle'', EN_VideoRotation), (''color_primaries'', EN_ColorPrimary),
     (''transfer_characteristics'', EN_TransferCharacteristic), (''matrix_coefficients'', EN_MatrixCoefficient),
     (''video.h265.profile'', EN_HEVCProfile), (''video.h265.level'', EN_HEVCLevel),
     (''chroma_location'', EN_ChromaLocation), (''file_type'', EN_FileType),
     (''video_encode_bitrate_mode'', EN_VideoEncodeBitrateMode)]"

definition g_metadataGetterSetterInt64Map :: "(string \<times> any_enum) list" where
  "g_metadataGetterSetterInt64Map = [
     (''channel_layout'', EN_AudioChannelLayout), (''audio.output.channel.layout'', EN_AudioChannelLayout)]"

definition g_metadataBoolVector :: "string list" where
  "g_metadataBoolVector = [''range_flag'', ''req_i_frame'', ''video_is_hdr_vivid'', ''has_video'', ''has_audio'', ''endOfStream'']"

section \<open>Meta\<close>

type_synonym meta_data = "(string, any_value) smap"

definition SetMetaData :: "string \<Rightarrow> u32 \<Rightarrow> meta_data \<Rightarrow> bool \<times> meta_data" where
  "SetMetaData tag v m =
     (True, smap_put tag
        (case map_of g_metadataGetterSetterMap tag of
           Some e \<Rightarrow> AV_enum e (enum_cast e (sint v))
         | None \<Rightarrow> if tag \<in> set g_metadataBoolVector then AV_bool (v \<noteq> 0) else AV_int32 v) m)"

definition GetMetaData :: "meta_data \<Rightarrow> string \<Rightarrow> u32 option" where
  "GetMetaData m tag =
     (case map_of g_metadataGetterSetterMap tag of
        Some e \<Rightarrow> (case smap_find m tag of Some (AV_enum e' i) \<Rightarrow> if e' = e then Some (word_of_int i) else None | _ \<Rightarrow> None)
      | None \<Rightarrow>
          if tag \<in> set g_metadataBoolVector
          then (case smap_find m tag of Some (AV_bool b) \<Rightarrow> Some (if b then 1 else 0) | _ \<Rightarrow> None)
          else (case smap_find m tag of Some (AV_int32 i) \<Rightarrow> Some i | _ \<Rightarrow> None))"

definition SetMetaData_int64 :: "string \<Rightarrow> u64 \<Rightarrow> meta_data \<Rightarrow> bool \<times> meta_data" where
  "SetMetaData_int64 tag v m =
     (True, smap_put tag
        (case map_of g_metadataGetterSetterInt64Map tag of
           Some e \<Rightarrow> AV_enum e (enum_cast e (sint v))
         | None \<Rightarrow> AV_int64 v) m)"

definition GetMetaData_int64 :: "meta_data \<Rightarrow> string \<Rightarrow> u64 option" where
  "GetMetaData_int64 m tag =
     (case map_of g_metadataGetterSetterInt64Map tag of
        Some e \<Rightarrow> (case smap_find m tag of Some (AV_enum e' i) \<Rightarrow> if e' = e then Some (word_of_int i) else None | _ \<Rightarrow> None)
      | None \<Rightarrow> (case smap_find m tag of Some (AV_int64 i) \<Rightarrow> Some i | _ \<Rightarrow> None))"

fun write_entries :: "'p parcel_ops \<Rightarrow> meta_data \<Rightarrow> 'p \<Rightarrow> bool \<times> 'p" where
  "write_entries M [] p = (True, p)"
| "write_entries M ((k, v) # m) p =
     (case pc_write M (PI_string k) p of
        (r1, p1) \<Rightarrow>
          (case any_ToParcel M v p1 of
             (r2, p2) \<Rightarrow> if r1 \<and> r2 then write_entries M m p2 else (False, p2)))"

definition meta_ToParcel :: "'p parcel_ops \<Rightarrow> meta_data \<Rightarrow> 'p \<Rightarrow> bool \<times> 'p" where
  "meta_ToParcel M m p =
     (case write_entries M m (pc_new M) of
        (r, metaParcel) \<Rightarrow>
          if \<not> r then (False, p)
          else (case pc_write M (PI_int32 (of_nat (length m))) p of
                  (r1, p1) \<Rightarrow> (case pc_append M metaParcel p1 of (r2, p2) \<Rightarrow> (r1 \<and> r2, p2))))"

fun read_entries :: "'p parcel_ops \<Rightarrow> nat \<Rightarrow> meta_data \<Rightarrow> 'p \<Rightarrow> (fault, meta_data \<times> 'p) sum" where
  "read_entries M 0 m p = Inr (m, p)"
| "read_entries M (Suc n) m p =
     (case pc_string M p of
        (k, p1) \<Rightarrow>
          (case any_FromParcel M (GetDefaultAnyValue k) p1 of
             Inl f \<Rightarrow> Inl f
           | Inr (v, p2) \<Rightarrow> read_entries M n (smap_put k v m) p2))"

definition meta_FromParcel :: "'p parcel_ops \<Rightarrow> 'p \<Rightarrow> (fault, bool \<times> meta_data \<times> 'p) sum" where
  "meta_FromParcel M p =
     (case pc_int32 M p of
        (n, p1) \<Rightarrow>
          if sint n < 0 \<or> nat (sint n) > pc_capacity M p1 then Inr (False, [], p1)
          else map_sum id (Pair True) (read_entries M (unat n) [] p1))"

section \<open>Format\<close>

datatype format_type = FORMAT_TYPE_NONE | FORMAT_TYPE_INT32 | FORMAT_TYPE_INT64 | FORMAT_TYPE_FLOAT | FORMAT_TYPE_DOUBLE
  | FORMAT_TYPE_STRING | FORMAT_TYPE_ADDR

text \<open>An address with a size is what is found there.\<close>

datatype format_data = FD_int32 u32 | FD_int64 u64 | FD_float u32 | FD_double u64 | FD_string string | FD_addr "u8 list"

datatype meta_format = Meta_Format (fmt_meta: meta_data) (fmt_vecs: "(string \<times> meta_format list) list") (fmt_map: "(string \<times> format_data) list")

definition new_format :: meta_format where "new_format = Meta_Format [] [] []"

definition with_meta :: "meta_format \<Rightarrow> meta_data \<Rightarrow> meta_format" where
  "with_meta F m = Meta_Format m (fmt_vecs F) (fmt_map F)"

definition PutIntValue :: "string \<Rightarrow> u32 \<Rightarrow> meta_format \<Rightarrow> bool \<times> meta_format" where
  "PutIntValue k v F = apsnd (with_meta F) (SetMetaData k v (fmt_meta F))"

definition PutLongValue :: "string \<Rightarrow> u64 \<Rightarrow> meta_format \<Rightarrow> bool \<times> meta_format" where
  "PutLongValue k v F = apsnd (with_meta F) (SetMetaData_int64 k v (fmt_meta F))"

definition PutFloatValue :: "string \<Rightarrow> u32 \<Rightarrow> meta_format \<Rightarrow> bool \<times> meta_format" where
  "PutFloatValue k v F = (True, with_meta F (smap_put k (AV_float v) (fmt_meta F)))"

definition PutDoubleValue :: "string \<Rightarrow> u64 \<Rightarrow> meta_format \<Rightarrow> bool \<times> meta_format" where
  "PutDoubleValue k v F = (True, with_meta F (smap_put k (AV_double v) (fmt_meta F)))"

definition PutStringValue :: "string \<Rightarrow> string \<Rightarrow> meta_format \<Rightarrow> bool \<times> meta_format" where
  "PutStringValue k v F = (True, with_meta F (smap_put k (AV_string v) (fmt_meta F)))"

definition BUFFER_SIZE_MAX :: nat where "BUFFER_SIZE_MAX = 1 * 1024 * 1024"

text \<open>\<open>copies\<close>: whether \<open>memcpy_s\<close> takes an empty destination; \<open>has\<close>: whether an empty vector has an address.\<close>

definition PutBuffer :: "bool \<Rightarrow> bool \<Rightarrow> string \<Rightarrow> u8 list option \<Rightarrow> meta_format \<Rightarrow> bool \<times> meta_format" where
  "PutBuffer copies has k addr F =
     (case addr of
        None \<Rightarrow> (False, F)
      | Some bs \<Rightarrow>
          if length bs > BUFFER_SIZE_MAX then (False, F)
          else (case smap_find (fmt_meta F) k of
                  None \<Rightarrow> (True, with_meta F (smap_put k (AV_bytes bs) (fmt_meta F)))
                | Some (AV_bytes old) \<Rightarrow>
                    let F1 = with_meta F (smap_put k (AV_bytes bs) (fmt_meta F))
                    in if bs = [] \<and> \<not> copies then (False, F1)
                       else (True, if smap_find (fmt_map F) k = None then F1
                                   else Meta_Format (fmt_meta F1) (fmt_vecs F1)
                                     (let t = smap_erase k (fmt_map F1) in if bs = [] \<and> \<not> has then t else smap_put k (FD_addr bs) t))
                | Some _ \<Rightarrow> (False, F)))"

definition GetIntValue :: "meta_format \<Rightarrow> string \<Rightarrow> u32 option" where
  "GetIntValue F k = GetMetaData (fmt_meta F) k"

definition GetLongValue :: "meta_format \<Rightarrow> string \<Rightarrow> u64 option" where
  "GetLongValue F k = GetMetaData_int64 (fmt_meta F) k"

definition GetFloatValue :: "meta_format \<Rightarrow> string \<Rightarrow> u32 option" where
  "GetFloatValue F k = (case smap_find (fmt_meta F) k of Some (AV_float v) \<Rightarrow> Some v | _ \<Rightarrow> None)"

definition GetDoubleValue :: "meta_format \<Rightarrow> string \<Rightarrow> u64 option" where
  "GetDoubleValue F k = (case smap_find (fmt_meta F) k of Some (AV_double v) \<Rightarrow> Some v | _ \<Rightarrow> None)"

definition GetStringValue :: "meta_format \<Rightarrow> string \<Rightarrow> string option" where
  "GetStringValue F k = (case smap_find (fmt_meta F) k of Some (AV_string v) \<Rightarrow> Some v | _ \<Rightarrow> None)"

definition GetBuffer :: "meta_format \<Rightarrow> string \<Rightarrow> u8 list option" where
  "GetBuffer F k = (case smap_find (fmt_meta F) k of Some (AV_bytes v) \<Rightarrow> Some v | _ \<Rightarrow> None)"

definition RemoveKey :: "string \<Rightarrow> meta_format \<Rightarrow> meta_format" where
  "RemoveKey k F = Meta_Format (smap_erase k (fmt_meta F)) (smap_erase k (fmt_vecs F)) (fmt_map F)"

definition PutFormatVector :: "string \<Rightarrow> meta_format list \<Rightarrow> meta_format \<Rightarrow> bool \<times> meta_format" where
  "PutFormatVector k v F =
     (let F1 = RemoveKey k F in (True, Meta_Format (fmt_meta F1) (smap_put k v (fmt_vecs F1)) (fmt_map F1)))"

definition GetFormatVector :: "meta_format \<Rightarrow> string \<Rightarrow> meta_format list option" where
  "GetFormatVector F k = smap_find (fmt_vecs F) k"

definition ContainKey :: "meta_format \<Rightarrow> string \<Rightarrow> bool" where
  "ContainKey F k \<longleftrightarrow> smap_find (fmt_meta F) k \<noteq> None \<or> smap_find (fmt_vecs F) k \<noteq> None"

definition GetValueType :: "meta_format \<Rightarrow> string \<Rightarrow> format_type" where
  "GetValueType F k =
     (case smap_find (fmt_meta F) k of
        None \<Rightarrow> FORMAT_TYPE_NONE
      | Some v \<Rightarrow>
          (case v of
             AV_int32 _ \<Rightarrow> FORMAT_TYPE_INT32 | AV_int64 _ \<Rightarrow> FORMAT_TYPE_INT64 | AV_float _ \<Rightarrow> FORMAT_TYPE_FLOAT
           | AV_double _ \<Rightarrow> FORMAT_TYPE_DOUBLE | AV_string _ \<Rightarrow> FORMAT_TYPE_STRING | AV_bytes _ \<Rightarrow> FORMAT_TYPE_ADDR
           | _ \<Rightarrow> if GetMetaData_int64 (fmt_meta F) k \<noteq> None then FORMAT_TYPE_INT64 else FORMAT_TYPE_INT32))"

text \<open>\<open>AnyCast\<close> to a value follows a null pointer when the type is another.\<close>

fun cast_int32 :: "any_value \<Rightarrow> (fault, u32) sum" where
  "cast_int32 (AV_int32 i) = Inr i" | "cast_int32 _ = Inl Null_Deref"
fun cast_int64 :: "any_value \<Rightarrow> (fault, u64) sum" where
  "cast_int64 (AV_int64 i) = Inr i" | "cast_int64 _ = Inl Null_Deref"
fun cast_float :: "any_value \<Rightarrow> (fault, u32) sum" where
  "cast_float (AV_float i) = Inr i" | "cast_float _ = Inl Null_Deref"
fun cast_double :: "any_value \<Rightarrow> (fault, u64) sum" where
  "cast_double (AV_double i) = Inr i" | "cast_double _ = Inl Null_Deref"
fun cast_string :: "any_value \<Rightarrow> (fault, string) sum" where
  "cast_string (AV_string i) = Inr i" | "cast_string _ = Inl Null_Deref"
fun cast_bytes :: "any_value \<Rightarrow> (fault, u8 list) sum" where
  "cast_bytes (AV_bytes i) = Inr i" | "cast_bytes _ = Inl Null_Deref"

text \<open>The entry of one value; a buffer without an address is left out.\<close>

definition format_entry :: "bool \<Rightarrow> meta_format \<Rightarrow> string \<Rightarrow> any_value \<Rightarrow> (fault, format_data option) sum" where
  "format_entry has F k v =
     (case GetValueType F k of
        FORMAT_TYPE_INT32 \<Rightarrow> map_sum id (Some \<circ> FD_int32) (cast_int32 v)
      | FORMAT_TYPE_INT64 \<Rightarrow> map_sum id (Some \<circ> FD_int64) (cast_int64 v)
      | FORMAT_TYPE_FLOAT \<Rightarrow> map_sum id (Some \<circ> FD_float) (cast_float v)
      | FORMAT_TYPE_DOUBLE \<Rightarrow> map_sum id (Some \<circ> FD_double) (cast_double v)
      | FORMAT_TYPE_STRING \<Rightarrow> map_sum id (Some \<circ> FD_string) (cast_string v)
      | FORMAT_TYPE_ADDR \<Rightarrow> map_sum id (\<lambda>bs. if bs = [] \<and> \<not> has then None else Some (FD_addr bs)) (cast_bytes v)
      | FORMAT_TYPE_NONE \<Rightarrow> Inr None)"

fun format_entries :: "(string \<Rightarrow> bool) \<Rightarrow> meta_format \<Rightarrow> meta_data \<Rightarrow> (string \<times> format_data) list \<Rightarrow> (fault, (string \<times> format_data) list) sum" where
  "format_entries has F [] t = Inr t"
| "format_entries has F ((k, v) # m) t =
     (case format_entry (has k) F k v of
        Inl f \<Rightarrow> Inl f
      | Inr None \<Rightarrow> format_entries has F m t
      | Inr (Some d) \<Rightarrow> format_entries has F m (if smap_find t k = None then smap_put k d t else t))"

definition GetFormatMap :: "(string \<Rightarrow> bool) \<Rightarrow> meta_format \<Rightarrow> (fault, (string \<times> format_data) list \<times> meta_format) sum" where
  "GetFormatMap has F = map_sum id (\<lambda>t. (t, Meta_Format (fmt_meta F) (fmt_vecs F) t)) (format_entries has F (fmt_meta F) [])"

text \<open>\<open>show_int\<close>, \<open>show_float\<close>, \<open>show_double\<close>: \<open>std::to_string\<close> and the stream.\<close>

record to_string =
  show_int :: "int \<Rightarrow> string"
  show_float :: "u32 \<Rightarrow> string"
  show_double :: "u64 \<Rightarrow> string"

definition string_entry :: "to_string \<Rightarrow> meta_format \<Rightarrow> string \<Rightarrow> any_value \<Rightarrow> (fault, string) sum" where
  "string_entry P F k v =
     (case GetValueType F k of
        FORMAT_TYPE_INT32 \<Rightarrow> map_sum id (\<lambda>i. k @ '' = '' @ show_int P (sint i) @ '' | '') (cast_int32 v)
      | FORMAT_TYPE_INT64 \<Rightarrow> map_sum id (\<lambda>i. k @ '' = '' @ show_int P (sint i) @ '' | '') (cast_int64 v)
      | FORMAT_TYPE_FLOAT \<Rightarrow> map_sum id (\<lambda>i. k @ '' = '' @ show_float P i @ '' | '') (cast_float v)
      | FORMAT_TYPE_DOUBLE \<Rightarrow> map_sum id (\<lambda>i. k @ '' = '' @ show_double P i @ '' | '') (cast_double v)
      | FORMAT_TYPE_STRING \<Rightarrow> map_sum id (\<lambda>s. k @ '' = '' @ s @ '' | '') (cast_string v)
      | FORMAT_TYPE_ADDR \<Rightarrow> map_sum id (\<lambda>bs. k @ '', bufferSize = '' @ show_int P (int (length bs)) @ '' | '') (cast_bytes v)
      | FORMAT_TYPE_NONE \<Rightarrow> Inr [])"

fun Stringify_from :: "to_string \<Rightarrow> meta_format \<Rightarrow> meta_data \<Rightarrow> (fault, string) sum" where
  "Stringify_from P F [] = Inr []"
| "Stringify_from P F ((k, v) # m) =
     (case string_entry P F k v of Inl f \<Rightarrow> Inl f | Inr s \<Rightarrow> map_sum id ((@) s) (Stringify_from P F m))"

definition Stringify :: "to_string \<Rightarrow> meta_format \<Rightarrow> (fault, string) sum" where
  "Stringify P F = Stringify_from P F (fmt_meta F)"

definition SetMeta :: "meta_data option \<Rightarrow> meta_format \<Rightarrow> bool \<times> meta_format" where
  "SetMeta meta F = (case meta of None \<Rightarrow> (False, F) | Some m \<Rightarrow> (True, with_meta F m))"

section \<open>Put and get\<close>

lemma enum_cast_back: "word_of_int (enum_cast e (sint (w :: u32))) = w" if "e \<in> snd ` set g_metadataGetterSetterMap" for w
  using that by (auto simp: g_metadataGetterSetterMap_def)

lemma int64_tags: "e \<in> snd ` set g_metadataGetterSetterInt64Map \<Longrightarrow> e = EN_AudioChannelLayout"
  by (auto simp: g_metadataGetterSetterInt64Map_def)

text \<open>What was put as an integer is got back, and put as a truth value where the tag is one.\<close>

lemma put_get_int:
  "GetIntValue (snd (PutIntValue k v F)) k = Some (if k \<in> set g_metadataBoolVector \<and> map_of g_metadataGetterSetterMap k = None \<and> v \<noteq> 0 then 1 else v)"
proof (cases "map_of g_metadataGetterSetterMap k")
  case (Some e)
  then have "word_of_int (enum_cast e (sint v)) = v" by (intro enum_cast_back) (force dest: map_of_SomeD)
  then show ?thesis using Some by (simp add: GetIntValue_def PutIntValue_def SetMetaData_def GetMetaData_def with_meta_def)
qed (simp add: GetIntValue_def PutIntValue_def SetMetaData_def GetMetaData_def with_meta_def)

lemma put_get_long: "GetLongValue (snd (PutLongValue k v F)) k = Some v"
proof (cases "map_of g_metadataGetterSetterInt64Map k")
  case (Some e)
  then have "e = EN_AudioChannelLayout" by (intro int64_tags) (force dest: map_of_SomeD)
  then show ?thesis using Some by (simp add: GetLongValue_def PutLongValue_def SetMetaData_int64_def GetMetaData_int64_def with_meta_def)
qed (simp add: GetLongValue_def PutLongValue_def SetMetaData_int64_def GetMetaData_int64_def with_meta_def)

section \<open>Reading values that are not plain\<close>

fun plain_value :: "any_value \<Rightarrow> bool" where
  "plain_value (AV_int32 _) = True" | "plain_value (AV_int64 _) = True" | "plain_value (AV_float _) = True"
| "plain_value (AV_double _) = True" | "plain_value (AV_string _) = True" | "plain_value (AV_bytes _) = True"
| "plain_value _ = False"

lemma format_entry_faults:
  assumes "smap_find (fmt_meta F) k = Some v"
  shows "format_entry has F k v = Inl Null_Deref \<longleftrightarrow> \<not> plain_value v" "\<not> plain_value v \<or> (\<exists>d. format_entry has F k v = Inr d)"
    "string_entry P F k v = Inl Null_Deref \<longleftrightarrow> \<not> plain_value v" "\<not> plain_value v \<or> (\<exists>d. string_entry P F k v = Inr d)"
  using assms by (cases v; simp add: format_entry_def string_entry_def GetValueType_def)+

lemma format_entries_faults:
  assumes "set m \<subseteq> set (fmt_meta F)" "smap_ok (fmt_meta F)"
  shows "if \<forall>(k, v) \<in> set m. plain_value v then \<exists>u. format_entries has F m t = Inr u else format_entries has F m t = Inl Null_Deref"
  using assms(1)
proof (induction m arbitrary: t)
  case (Cons kv m)
  obtain k v where kv: "kv = (k, v)" by (cases kv)
  have find: "smap_find (fmt_meta F) k = Some v" using Cons.prems assms(2) kv by (simp add: smap_find_member)
  show ?case
    using format_entry_faults(1,2) [OF find, where has = "has k"] Cons.IH Cons.prems kv
    by (cases "plain_value v") (auto split: sum.split option.split)
qed simp

lemma Stringify_faults:
  assumes "set m \<subseteq> set (fmt_meta F)" "smap_ok (fmt_meta F)"
  shows "if \<forall>(k, v) \<in> set m. plain_value v then \<exists>u. Stringify_from P F m = Inr u else Stringify_from P F m = Inl Null_Deref"
  using assms(1)
proof (induction m)
  case (Cons kv m)
  obtain k v where kv: "kv = (k, v)" by (cases kv)
  have find: "smap_find (fmt_meta F) k = Some v" using Cons.prems assms(2) kv by (simp add: smap_find_member)
  show ?case
    using format_entry_faults(3,4) [OF find, where P = P] Cons.IH Cons.prems kv
    by (cases "plain_value v") (auto split: sum.split)
qed simp

text \<open>
  A format can be printed, and its map asked for, exactly as long as each value is a number of 32 or 64 bits, a
  floating-point number, a string or a buffer: one value of an enumeration or a truth value, as
  \<open>PutIntValue\<close> stores them under their tags, and both operations follow a null pointer.
\<close>

theorem format_prints_plain_values:
  assumes "smap_ok (fmt_meta F)"
  shows "if \<forall>(k, v) \<in> set (fmt_meta F). plain_value v
    then (\<exists>s. Stringify P F = Inr s) \<and> (\<exists>r. GetFormatMap has F = Inr r)
    else Stringify P F = Inl Null_Deref \<and> GetFormatMap has F = Inl Null_Deref"
  using Stringify_faults [OF order_refl assms, of P] format_entries_faults [OF order_refl assms, of has "[]"]
  by (auto simp: Stringify_def GetFormatMap_def split: if_splits)

lemma put_enum: "fmt_meta (snd (PutIntValue ''pixel_format'' 2 new_format)) = [(''pixel_format'', AV_enum EN_VideoPixelFormat 2)]"
  by (simp add: PutIntValue_def SetMetaData_def with_meta_def new_format_def g_metadataGetterSetterMap_def)

theorem format_prints_plain_values_witness:
  "Stringify \<lparr>show_int = (\<lambda>_. []), show_float = (\<lambda>_. []), show_double = (\<lambda>_. [])\<rparr> (snd (PutIntValue ''pixel_format'' 2 new_format)) = Inl Null_Deref"
  using format_prints_plain_values [of "snd (PutIntValue ''pixel_format'' 2 new_format)"
      "\<lparr>show_int = (\<lambda>_. []), show_float = (\<lambda>_. []), show_double = (\<lambda>_. [])\<rparr>"]
  by (simp add: put_enum smap_ok_def)

section \<open>The journey in a parcel\<close>

text \<open>
  What a parcel promises: it gives what was written, in order and by the kind it was written as; writing and
  appending succeed while there is memory.
\<close>

definition parcel_laws :: "'p parcel_ops \<Rightarrow> ('p \<Rightarrow> parcel_item list \<Rightarrow> bool) \<Rightarrow> bool" where
  "parcel_laws M holds \<longleftrightarrow>
     holds (pc_new M) [] \<and>
     (\<forall>p is i. holds p is \<longrightarrow> (\<exists>q. pc_write M i p = (True, q) \<and> holds q (is @ [i]))) \<and>
     (\<forall>p is q js. holds p is \<longrightarrow> holds q js \<longrightarrow> (\<exists>r. pc_append M q p = (True, r) \<and> holds r (is @ js))) \<and>
     (\<forall>p is b. holds p (PI_bool b # is) \<longrightarrow> (\<exists>q. pc_bool M p = (b, q) \<and> holds q is)) \<and>
     (\<forall>p is b. holds p (PI_int32 b # is) \<longrightarrow> (\<exists>q. pc_int32 M p = (b, q) \<and> holds q is)) \<and>
     (\<forall>p is b. holds p (PI_int64 b # is) \<longrightarrow> (\<exists>q. pc_int64 M p = (b, q) \<and> holds q is)) \<and>
     (\<forall>p is b. holds p (PI_float b # is) \<longrightarrow> (\<exists>q. pc_float M p = (b, q) \<and> holds q is)) \<and>
     (\<forall>p is b. holds p (PI_double b # is) \<longrightarrow> (\<exists>q. pc_double M p = (b, q) \<and> holds q is)) \<and>
     (\<forall>p is b. holds p (PI_string b # is) \<longrightarrow> (\<exists>q. pc_string M p = (b, q) \<and> holds q is)) \<and>
     (\<forall>p is b. holds p (PI_bytes b # is) \<longrightarrow> (\<exists>q. pc_bytes M p = (b, q) \<and> holds q is))"

lemma parcel_new: "parcel_laws M holds \<Longrightarrow> holds (pc_new M) []"
  by (simp add: parcel_laws_def)

lemma parcel_write:
  assumes "parcel_laws M holds" "holds p is"
  obtains q where "pc_write M i p = (True, q)" "holds q (is @ [i])"
  using assms unfolding parcel_laws_def by (elim conjE) metis

lemma parcel_append:
  assumes "parcel_laws M holds" "holds p is" "holds q js"
  obtains r where "pc_append M q p = (True, r)" "holds r (is @ js)"
  using assms unfolding parcel_laws_def by (elim conjE) metis

lemma parcel_reads:
  assumes "parcel_laws M holds"
  shows "holds p (PI_bool b # is) \<Longrightarrow> \<exists>q. pc_bool M p = (b, q) \<and> holds q is"
    "holds p (PI_int32 i # is) \<Longrightarrow> \<exists>q. pc_int32 M p = (i, q) \<and> holds q is"
    "holds p (PI_int64 l # is) \<Longrightarrow> \<exists>q. pc_int64 M p = (l, q) \<and> holds q is"
    "holds p (PI_float f # is) \<Longrightarrow> \<exists>q. pc_float M p = (f, q) \<and> holds q is"
    "holds p (PI_double d # is) \<Longrightarrow> \<exists>q. pc_double M p = (d, q) \<and> holds q is"
    "holds p (PI_string s # is) \<Longrightarrow> \<exists>q. pc_string M p = (s, q) \<and> holds q is"
    "holds p (PI_bytes bs # is) \<Longrightarrow> \<exists>q. pc_bytes M p = (bs, q) \<and> holds q is"
  using assms unfolding parcel_laws_def by (elim conjE, metis)+

text \<open>What stands for a value in a parcel, if it goes there.\<close>

fun value_items :: "any_value \<Rightarrow> parcel_item list" where
  "value_items (AV_bool b) = [PI_int32 2, PI_bool b]"
| "value_items (AV_int32 i) = [PI_int32 4, PI_int32 i]"
| "value_items (AV_int64 i) = [PI_int32 6, PI_int64 i]"
| "value_items (AV_float i) = [PI_int32 8, PI_float i]"
| "value_items (AV_double i) = [PI_int32 9, PI_double i]"
| "value_items (AV_string s) = [PI_int32 12, PI_string s]"
| "value_items (AV_bytes bs) = [PI_int32 10, PI_bytes bs]"
| "value_items (AV_enum e i) = [PI_int32 1, if enum_size e = 8 then PI_int64 (word_of_int i) else PI_int32 (word_of_int i)]"
| "value_items _ = [PI_int32 1]"

lemma two_written:
  assumes "parcel_laws M holds" "holds p is"
  obtains q where "write_two M t i p = (True, q)" "holds q (is @ [PI_int32 (vt_code t), i])"
proof -
  obtain p1 where p1: "pc_write M (PI_int32 (vt_code t)) p = (True, p1)" "holds p1 (is @ [PI_int32 (vt_code t)])"
    using parcel_write [OF assms] by blast
  obtain p2 where "pc_write M i p1 = (True, p2)" "holds p2 (is @ [PI_int32 (vt_code t), i])"
    using parcel_write [OF assms(1) p1(2), of i] by auto
  then show thesis using that p1(1) by (simp add: write_two_def)
qed

fun is_base :: "any_value \<Rightarrow> bool" where
  "is_base (AV_bool _) = True" | "is_base (AV_int32 _) = True" | "is_base (AV_int64 _) = True" | "is_base (AV_float _) = True"
| "is_base (AV_double _) = True" | "is_base (AV_string _) = True" | "is_base (AV_bytes _) = True" | "is_base _ = False"

lemma base_items:
  "is_base v \<Longrightarrow> \<exists>t i. BaseTypesToParcel M v p = write_two M t i p \<and> value_items v = [PI_int32 (vt_code t), i]"
  by (cases v) (force)+

lemma value_written:
  assumes "parcel_laws M holds" "holds p is" "any_size v \<le> 8 \<or> (\<exists>s. v = AV_string s) \<or> (\<exists>bs. v = AV_bytes bs)" "v \<noteq> AV_Empty"
  shows "\<exists>q. any_ToParcel M v p = (True, q) \<and> holds q (is @ value_items v)"
proof (cases "is_base v")
  case True
  then obtain t i where ti: "BaseTypesToParcel M v p = write_two M t i p" "value_items v = [PI_int32 (vt_code t), i]" using base_items [of v M p] by metis
  obtain q where "write_two M t i p = (True, q)" "holds q (is @ [PI_int32 (vt_code t), i])" using two_written [OF assms(1,2)] by blast
  then show ?thesis using ti assms(4) by (simp add: any_ToParcel_def)
next
  case False
  obtain p1 where p1: "pc_write M (PI_int32 1) p = (True, p1)" "holds p1 (is @ [PI_int32 1])" using parcel_write [OF assms(1,2)] by blast
  have to: "any_ToParcel M v p = (True, write_enum M v p1)" using False assms(3,4) p1(1) by (cases v) (auto simp: any_ToParcel_def)
  show ?thesis
  proof (cases v)
    case (AV_enum e i)
    let ?i = "if enum_size e = 8 then PI_int64 (word_of_int i) else PI_int32 (word_of_int i)"
    obtain p2 where "pc_write M ?i p1 = (True, p2)" "holds p2 ((is @ [PI_int32 1]) @ [?i])" using parcel_write [OF assms(1) p1(2)] by blast
    then show ?thesis using AV_enum to by simp
  qed (use to p1 False assms(4) in auto)
qed

text \<open>A value is read back when it is of a kind with an id of its own, or of the enumeration its tag is for.\<close>

definition travels :: "string \<Rightarrow> any_value \<Rightarrow> bool" where
  "travels k v \<longleftrightarrow> is_base v \<or> (\<exists>e i j. v = AV_enum e i \<and> enum_cast e i = i \<and> GetDefaultAnyValue k = AV_enum e j)"

lemma default_not_empty: "GetDefaultAnyValue k \<noteq> AV_Empty"
proof (cases "map_of g_metadataDefaultValueMap k")
  case (Some v)
  have "AV_Empty \<notin> snd ` set g_metadataDefaultValueMap"
    by (simp add: g_metadataDefaultValueMap_def def_int32_def def_int64_def def_uint64_def def_string_def def_float_def def_double_def
        def_bool_def def_bytes_def def_formats_def)
  moreover have "v \<in> snd ` set g_metadataDefaultValueMap" using map_of_SomeD [OF Some] by (metis image_eqI snd_conv)
  ultimately have "v \<noteq> AV_Empty" by metis
  then show ?thesis using Some by (simp add: GetDefaultAnyValue_def)
qed (simp add: GetDefaultAnyValue_def def_string_def)

lemma sint_small: "0 \<le> i \<Longrightarrow> i < 256 \<Longrightarrow> sint (word_of_int i :: u32) = i"
  by (simp add: signed_of_int signed_take_bit_int_eq_self)

lemma enum_cast_word:
  assumes "enum_cast e i = i"
  shows "if enum_size e = 8 then enum_cast e (sint (word_of_int i :: u64)) = i else enum_cast e (sint (word_of_int i :: u32)) = i"
proof -
  have u8: "uint (word_of_int i :: u8) = i \<Longrightarrow> sint (word_of_int i :: u32) = i"
    using uint_lt2p [of "word_of_int i :: u8"] uint_ge_0 [of "word_of_int i :: u8"] by (intro sint_small) simp_all
  show ?thesis using assms u8 by (cases e) (simp_all add: of_int_sint)
qed

lemma value_read:
  assumes "parcel_laws M holds" "holds p (value_items v @ is)" "travels k v"
  shows "\<exists>q. any_FromParcel M (GetDefaultAnyValue k) p = Inr (v, q) \<and> holds q is"
proof -
  obtain t items where items: "value_items v = PI_int32 t # items" by (cases v) auto
  then obtain p1 where p1: "pc_int32 M p = (t, p1)" "holds p1 (items @ is)" using parcel_reads(2) [OF assms(1)] assms(2) by force
  show ?thesis
  proof (cases "is_base v")
    case True
    then have "\<exists>q. BaseTypesFromParcel M p = (Some v, q) \<and> holds q is"
      using items p1 parcel_reads [OF assms(1), of p1] by (cases v) (fastforce simp: BaseTypesFromParcel_def)+
    then show ?thesis using default_not_empty by (auto simp: any_FromParcel_def)
  next
    case False
    then obtain e i j where v: "v = AV_enum e i" "enum_cast e i = i" "GetDefaultAnyValue k = AV_enum e j"
      using assms(3) by (auto simp: travels_def)
    have "BaseTypesFromParcel M p = (None, p1)" using items p1(1) v(1) by (auto simp: BaseTypesFromParcel_def)
    moreover have "\<exists>q. MakeAnyFromParcel M (AV_enum e j) p1 = (v, q) \<and> holds q is"
      using items p1(2) v(1) enum_cast_word [OF v(2)] parcel_reads(2,3) [OF assms(1), of p1]
      by (cases "enum_size e = 8") fastforce+
    ultimately show ?thesis using v(3) by (auto simp: any_FromParcel_def)
  qed
qed

abbreviation entry_items :: "meta_data \<Rightarrow> parcel_item list" where
  "entry_items m \<equiv> concat (map (\<lambda>(k, v). PI_string k # value_items v) m)"

lemma travels_goes: "travels k v \<Longrightarrow> (any_size v \<le> 8 \<or> (\<exists>s. v = AV_string s) \<or> (\<exists>bs. v = AV_bytes bs)) \<and> v \<noteq> AV_Empty"
proof (cases v)
  case (AV_enum e i) then show ?thesis by (cases e) simp_all
qed (auto simp: travels_def)

lemma entries_written:
  assumes "parcel_laws M holds" "holds p is" "\<And>k v. (k, v) \<in> set m \<Longrightarrow> travels k v"
  shows "\<exists>q. write_entries M m p = (True, q) \<and> holds q (is @ entry_items m)"
  using assms(2,3)
proof (induction m arbitrary: p "is")
  case (Cons kv m)
  obtain k v where kv: "kv = (k, v)" by (cases kv)
  obtain p1 where p1: "pc_write M (PI_string k) p = (True, p1)" "holds p1 (is @ [PI_string k])" using parcel_write [OF assms(1) Cons.prems(1)] by blast
  obtain p2 where p2: "any_ToParcel M v p1 = (True, p2)" "holds p2 ((is @ [PI_string k]) @ value_items v)"
    using value_written [OF assms(1) p1(2), of v] travels_goes [of k v] Cons.prems(2) [of k v] kv by auto
  then show ?case using Cons.IH [OF p2(2)] Cons.prems(2) kv p1(1) by auto
qed simp

lemma put_last: "\<forall>(k', v') \<in> set m. k' < k \<Longrightarrow> smap_put k v m = m @ [(k, v)]"
  by (induction k v m rule: smap_put.induct) auto

lemma entries_read:
  assumes "parcel_laws M holds" "holds p (entry_items m @ is)" "\<And>k v. (k, v) \<in> set m \<Longrightarrow> travels k v" "smap_ok (m0 @ m)"
  shows "\<exists>q. read_entries M (length m) m0 p = Inr (m0 @ m, q) \<and> holds q is"
  using assms(2-4)
proof (induction m arbitrary: p m0)
  case (Cons kv m)
  obtain k v where kv: "kv = (k, v)" by (cases kv)
  obtain p1 where p1: "pc_string M p = (k, p1)" "holds p1 (value_items v @ entry_items m @ is)"
    using parcel_reads(6) [OF assms(1), of p k] Cons.prems(1) kv by auto
  obtain p2 where p2: "any_FromParcel M (GetDefaultAnyValue k) p1 = Inr (v, p2)" "holds p2 (entry_items m @ is)"
    using value_read [OF assms(1) p1(2)] Cons.prems(2) [of k v] kv by auto
  have put: "smap_put k v m0 = m0 @ [(k, v)]"
    using Cons.prems(3) kv by (intro put_last) (auto simp: smap_ok_def sorted_wrt_append)
  show ?case using Cons.IH [of p2 "m0 @ [(k, v)]"] p1(1) p2 put Cons.prems(2,3) kv by auto
qed simp

text \<open>
  C39. Meta data sent in a parcel is received as it was: each entry whose value is of a kind with an id of its own, or of
  the enumeration that the table of defaults has for its tag, whatever the tags and however many there are; and
  nothing is left in the parcel.
\<close>

theorem meta_parcel_roundtrip:
  assumes "parcel_laws M holds" "holds p []" "smap_ok m" "\<And>k v. (k, v) \<in> set m \<Longrightarrow> travels k v"
    and "\<And>q. length m \<le> pc_capacity M q" "length m < 2 ^ 31"
  shows "\<exists>q r. meta_ToParcel M m p = (True, q) \<and> meta_FromParcel M q = Inr (True, m, r) \<and> holds r []"
proof -
  obtain w where w: "write_entries M m (pc_new M) = (True, w)" "holds w (entry_items m)"
    using entries_written [OF assms(1) parcel_new [OF assms(1)], of m] assms(4) by auto
  obtain p1 where p1: "pc_write M (PI_int32 (of_nat (length m))) p = (True, p1)" "holds p1 [PI_int32 (of_nat (length m))]"
    using parcel_write [OF assms(1,2), of "PI_int32 (of_nat (length m))"] by auto
  obtain q where q: "pc_append M w p1 = (True, q)" "holds q (PI_int32 (of_nat (length m)) # entry_items m)"
    using parcel_append [OF assms(1) p1(2) w(2)] by auto
  obtain p2 where p2: "pc_int32 M q = (of_nat (length m), p2)" "holds p2 (entry_items m @ [])"
    using parcel_reads(2) [OF assms(1) q(2)] by auto
  obtain r where r: "read_entries M (length m) [] p2 = Inr (m, r)" "holds r []"
    using entries_read [OF assms(1) p2(2), of "[]"] assms(3,4) by auto
  have n: "unat (of_nat (length m) :: u32) = length m" using assms(6) by (simp add: unat_of_nat take_bit_nat_eq_self)
  have "sint (of_nat (length m) :: u32) = int (length m)"
    using assms(6) by (simp add: signed_of_nat signed_take_bit_int_eq_self)
  then have "meta_FromParcel M q = Inr (True, m, r)" using p2(1) r(1) n assms(5) [of p2] by (simp add: meta_FromParcel_def)
  moreover have "meta_ToParcel M m p = (True, q)" using w(1) p1(1) q(1) by (simp add: meta_ToParcel_def)
  ultimately show ?thesis using r(2) by blast
qed

text \<open>A parcel that is the list of what it holds.\<close>

definition list_parcel :: "parcel_item list parcel_ops" where
  "list_parcel = \<lparr>pc_new = [], pc_write = (\<lambda>i p. (True, p @ [i])), pc_append = (\<lambda>q p. (True, p @ q)), pc_capacity = (\<lambda>_. 100),
     pc_bool = (\<lambda>p. case p of PI_bool b # q \<Rightarrow> (b, q) | _ \<Rightarrow> (False, p)), pc_int32 = (\<lambda>p. case p of PI_int32 b # q \<Rightarrow> (b, q) | _ \<Rightarrow> (0, p)),
     pc_int64 = (\<lambda>p. case p of PI_int64 b # q \<Rightarrow> (b, q) | _ \<Rightarrow> (0, p)), pc_float = (\<lambda>p. case p of PI_float b # q \<Rightarrow> (b, q) | _ \<Rightarrow> (0, p)),
     pc_double = (\<lambda>p. case p of PI_double b # q \<Rightarrow> (b, q) | _ \<Rightarrow> (0, p)), pc_string = (\<lambda>p. case p of PI_string b # q \<Rightarrow> (b, q) | _ \<Rightarrow> ([], p)),
     pc_bytes = (\<lambda>p. case p of PI_bytes b # q \<Rightarrow> (b, q) | _ \<Rightarrow> ([], p))\<rparr>"

lemma list_parcel_laws: "parcel_laws list_parcel (=)"
  by (simp add: parcel_laws_def list_parcel_def)

definition some_meta :: meta_data where
  "some_meta = [(''bitrate'', AV_int64 128000), (''codec_mime'', AV_string ''audio/mpeg''), (''pixel_format'', AV_enum EN_VideoPixelFormat 2)]"

lemma default_pixel: "GetDefaultAnyValue ''pixel_format'' = AV_enum EN_VideoPixelFormat (- 1)"
  by (simp add: GetDefaultAnyValue_def g_metadataDefaultValueMap_def)

lemma some_meta_travels: "(k, v) \<in> set some_meta \<Longrightarrow> travels k v"
  by (auto simp: some_meta_def travels_def default_pixel)

theorem meta_parcel_roundtrip_witness:
  "\<exists>q r. meta_ToParcel list_parcel some_meta [] = (True, q) \<and> meta_FromParcel list_parcel q = Inr (True, some_meta, r) \<and> r = []"
  using meta_parcel_roundtrip [OF list_parcel_laws, of "[]" some_meta] some_meta_travels
  by (simp add: some_meta_def list_parcel_def smap_ok_def less_char_def)

text \<open>
  A value that has neither an id nor is an enumeration, such as the size of a file as an unsigned number, is replaced by the
  default of its tag, and both ends answer that all went well.
\<close>

lemma unsigned_lost:
  assumes "GetDefaultAnyValue k = AV_uint64 d"
  shows "meta_ToParcel list_parcel [(k, AV_uint64 n)] [] = (True, [PI_int32 1, PI_string k, PI_int32 1])"
    "meta_FromParcel list_parcel [PI_int32 1, PI_string k, PI_int32 1] = Inr (True, [(k, AV_uint64 d)], [])"
  using assms by (simp_all add: meta_ToParcel_def meta_FromParcel_def list_parcel_def any_ToParcel_def any_FromParcel_def BaseTypesFromParcel_def)

text \<open>The value of an enumeration under a tag of another kind stays in the parcel, in front of the next entry.\<close>

lemma enum_stays:
  assumes "GetDefaultAnyValue k = AV_int32 d"
  shows "meta_ToParcel list_parcel [(k, AV_enum EN_VideoPixelFormat 2)] [] = (True, [PI_int32 1, PI_string k, PI_int32 1, PI_int32 2])"
    "meta_FromParcel list_parcel [PI_int32 1, PI_string k, PI_int32 1, PI_int32 2] = Inr (True, [(k, AV_int32 d)], [PI_int32 2])"
  using assms by (simp_all add: meta_ToParcel_def meta_FromParcel_def list_parcel_def any_ToParcel_def any_FromParcel_def BaseTypesFromParcel_def)

end
