(* ===== verification/Muxer_Filter.thy ===== *)
theory Muxer_Filter
  imports Media_Source Pipeline_Core
begin

text \<open>
  The muxer filter of the recorder (engine/pipeline/filters/muxer/muxer_filter.cpp): tracks, negotiation, and the
  writing of frames that several encoders push at the same time.

  The plugin, the plugins that can be found and the filter behind the out-port are arguments. What the plugin writes
  through its data sink while it is called comes back with the answer. \<open>mx_plugin\<close> says that there is a
  plugin; names stand for plugin infos.
\<close>

section \<open>State\<close>

record mux_buffer =
  mb_trackID :: nat
  mb_memory :: "u8 list option"
  mb_eos :: bool

record 'v mux_meta =
  mm_MIME :: "string option"
  mm_GetData :: "int \<Rightarrow> 'v option"

record mux_track =
  mt_trackId :: int
  mt_inPort :: string
  mt_eos :: bool

record ('c, 'v, 'w) muxer =
  mx_state :: filter_state
  mx_inPorts :: "string list"
  mx_containerMime :: string
  mx_trackInfos :: "mux_track list"
  mx_plugin :: bool
  mx_targetPluginInfo :: "string option"
  mx_capabilityCache :: "(string \<times> 'c) list"
  mx_metaCache :: "(string \<times> 'v mux_meta) list"
  mx_hasWriteHeader :: bool
  mx_eos :: bool
  mx_eosTrackCnt :: int
  mx_outPort :: "(mux_buffer \<times> int) list"
  mx_events :: "event_type list"
  mx_world :: 'w

datatype 'v mux_call = MC_Init | MC_Reset | MC_Deinit | MC_SetCallback | MC_SetTrackParameter nat int 'v | MC_SetDataSink
  | MC_Prepare | MC_Start | MC_WriteHeader | MC_WriteFrame mux_buffer | MC_WriteTrailer

record ('c, 'v, 'w) mux_ops =
  mo_by_mime :: "string \<Rightarrow> string list"
  mo_available :: "'c \<Rightarrow> string list"
  mo_create :: "string \<Rightarrow> 'w \<Rightarrow> bool \<times> 'w"
  mo_call :: "'v mux_call \<Rightarrow> 'w \<Rightarrow> status \<times> (mux_buffer \<times> int) list \<times> 'w"
  mo_AddTrack :: "'w \<Rightarrow> status \<times> nat \<times> 'w"
  mo_Negotiate :: "string \<Rightarrow> bool"
  mo_Configure :: "string \<Rightarrow> bool"
  mo_parameters :: "(int \<times> bool \<times> ('v \<Rightarrow> bool)) list"

definition mx_OnEvent :: "event_type \<Rightarrow> ('c, 'v, 'w) muxer \<Rightarrow> ('c, 'v, 'w) muxer" where
  "mx_OnEvent e s = s\<lparr>mx_events := mx_events s @ [e]\<rparr>"

definition mx_WriteAt :: "mux_buffer \<times> int \<Rightarrow> ('c, 'v, 'w) muxer \<Rightarrow> ('c, 'v, 'w) muxer" where
  "mx_WriteAt b s = s\<lparr>mx_outPort := mx_outPort s @ [b]\<rparr>"

text \<open>A call of the plugin.\<close>

definition mx_call :: "('c, 'v, 'w) mux_ops \<Rightarrow> 'v mux_call \<Rightarrow> ('c, 'v, 'w) muxer \<Rightarrow> (fault, status \<times> ('c, 'v, 'w) muxer) sum" where
  "mx_call R c s =
     (if \<not> mx_plugin s then Inl Null_Deref
      else case mo_call R c (mx_world s) of (st, bs, w) \<Rightarrow> Inr (st, fold mx_WriteAt bs (s\<lparr>mx_world := w\<rparr>)))"

section \<open>Setting up\<close>

definition mx_Init :: "('c, 'v, 'w) muxer \<Rightarrow> ('c, 'v, 'w) muxer" where
  "mx_Init s = s\<lparr>mx_inPorts := [], mx_state := FS_INITIALIZED\<rparr>"

definition mx_SetOutputFormat :: "string \<Rightarrow> ('c, 'v, 'w) muxer \<Rightarrow> error_code \<times> ('c, 'v, 'w) muxer" where
  "mx_SetOutputFormat mime s = (EC_SUCCESS, s\<lparr>mx_containerMime := mime\<rparr>)"

text \<open>\<open>digits n\<close> is \<open>std::to_string\<close>; the name of the new port is the answer.\<close>

fun digits :: "nat \<Rightarrow> string" where
  "digits n = (if n < 10 then [char_of (48 + n)] else digits (n div 10) @ [char_of (48 + n mod 10)])"

declare digits.simps [simp del]

definition mx_AddTrack :: "('c, 'v, 'w) muxer \<Rightarrow> error_code \<times> string option \<times> ('c, 'v, 'w) muxer" where
  "mx_AddTrack s =
     (if mx_state s \<noteq> FS_INITIALIZED then (EC_ERROR_INVALID_OPERATION, None, s)
      else let port = PORT_NAME_DEFAULT @ digits (length (mx_inPorts s))
           in (EC_SUCCESS, Some port, s\<lparr>mx_inPorts := mx_inPorts s @ [port]\<rparr>))"

definition mx_SetMaxDuration :: "nat \<Rightarrow> ('c, 'v, 'w) muxer \<Rightarrow> error_code \<times> ('c, 'v, 'w) muxer" where
  "mx_SetMaxDuration d s = (EC_SUCCESS, s)"
definition mx_SetMaxSize :: "nat \<Rightarrow> ('c, 'v, 'w) muxer \<Rightarrow> error_code \<times> ('c, 'v, 'w) muxer" where
  "mx_SetMaxSize n s = (EC_SUCCESS, s)"

definition Intersections :: "string list \<Rightarrow> string list \<Rightarrow> string list" where
  "Intersections caps1 caps2 = concat (map (\<lambda>c. replicate (length (filter (\<lambda>d. c = d) caps2)) c) caps1)"

text \<open>The loop over the cached capabilities, which ends when no candidate is left.\<close>

fun candidates :: "('c, 'v, 'w) mux_ops \<Rightarrow> (string \<times> 'c) list \<Rightarrow> string list \<Rightarrow> string list" where
  "candidates R [] cs = cs"
| "candidates R ((port, cap) # rest) cs =
     (let cs1 = Intersections cs (mo_available R cap) in if cs1 = [] then [] else candidates R rest cs1)"

definition mx_create :: "('c, 'v, 'w) mux_ops \<Rightarrow> string \<Rightarrow> ('c, 'v, 'w) muxer \<Rightarrow> (fault, bool \<times> ('c, 'v, 'w) muxer) sum" where
  "mx_create R info s =
     (case mo_create R info (mx_world s) of
        (ok, w) \<Rightarrow>
          let s1 = s\<lparr>mx_plugin := ok, mx_world := w\<rparr>
          in if \<not> ok then Inr (False, s1)
             else case mx_call R MC_Init s1 of
                    Inl f \<Rightarrow> Inl f
                  | Inr (st, s2) \<Rightarrow>
                      if TranslatePluginStatus st \<noteq> EC_SUCCESS then Inr (False, s2)
                      else (case mx_call R MC_SetCallback s2 of
                              Inl f \<Rightarrow> Inl f
                            | Inr (_, s3) \<Rightarrow> Inr (True, s3\<lparr>mx_targetPluginInfo := Some info\<rparr>)))"

definition UpdateAndInitPluginByInfo ::
  "('c, 'v, 'w) mux_ops \<Rightarrow> string \<Rightarrow> ('c, 'v, 'w) muxer \<Rightarrow> (fault, bool \<times> ('c, 'v, 'w) muxer) sum" where
  "UpdateAndInitPluginByInfo R info s =
     (if \<not> mx_plugin s then mx_create R info s
      else case (if mx_targetPluginInfo s = Some info then map_sum id (apfst (\<lambda>st. st = OK)) (mx_call R MC_Reset s) else Inr (False, s)) of
             Inl f \<Rightarrow> Inl f
           | Inr (True, s1) \<Rightarrow> Inr (True, s1)
           | Inr (False, s1) \<Rightarrow> (case mx_call R MC_Deinit s1 of Inl f \<Rightarrow> Inl f | Inr (_, s2) \<Rightarrow> mx_create R info s2))"

definition mx_Negotiate ::
  "('c, 'v, 'w) mux_ops \<Rightarrow> string \<Rightarrow> 'c \<Rightarrow> ('c, 'v, 'w) muxer \<Rightarrow> (fault, bool \<times> ('c, 'v, 'w) muxer) sum" where
  "mx_Negotiate R inPort upstreamCap s =
     (if mx_state s \<noteq> FS_PREPARING then Inr (False, s)
      else let s1 = s\<lparr>mx_hasWriteHeader := False, mx_capabilityCache := mx_capabilityCache s @ [(inPort, upstreamCap)]\<rparr>
           in if length (mx_capabilityCache s1) < length (mx_inPorts s1) then Inr (True, s1)
              else (case candidates R (mx_capabilityCache s1) (mo_by_mime R (mx_containerMime s1)) of
                      [] \<Rightarrow> Inr (False, s1)
                    | info # _ \<Rightarrow>
                        if \<not> mo_Negotiate R (mx_containerMime s1) then Inr (False, s1) else UpdateAndInitPluginByInfo R info s1))"

fun set_parameters ::
  "('c, 'v, 'w) mux_ops \<Rightarrow> nat \<Rightarrow> 'v mux_meta \<Rightarrow> (int \<times> bool \<times> ('v \<Rightarrow> bool)) list \<Rightarrow> ('c, 'v, 'w) muxer \<Rightarrow> (fault, ('c, 'v, 'w) muxer) sum" where
  "set_parameters R trackId meta [] s = Inr s"
| "set_parameters R trackId meta ((key, settable, right_type) # ks) s =
     (case mm_GetData meta key of
        Some v \<Rightarrow>
          if settable \<and> right_type v
          then (case mx_call R (MC_SetTrackParameter trackId key v) s of Inl f \<Rightarrow> Inl f | Inr (_, s1) \<Rightarrow> set_parameters R trackId meta ks s1)
          else set_parameters R trackId meta ks s
      | None \<Rightarrow> set_parameters R trackId meta ks s)"

definition AddTrackThenConfigure ::
  "('c, 'v, 'w) mux_ops \<Rightarrow> string \<times> 'v mux_meta \<Rightarrow> ('c, 'v, 'w) muxer \<Rightarrow> (fault, error_code \<times> ('c, 'v, 'w) muxer) sum" where
  "AddTrackThenConfigure R metaPair s =
     (if \<not> mx_plugin s then Inl Null_Deref
      else case mo_AddTrack R (mx_world s) of
             (st, trackId, w) \<Rightarrow>
               let s1 = s\<lparr>mx_world := w\<rparr>
               in if TranslatePluginStatus st \<noteq> EC_SUCCESS then Inr (TranslatePluginStatus st, s1)
                  else map_sum id (Pair EC_SUCCESS) (set_parameters R trackId (snd metaPair) (mo_parameters R)
                         (s1\<lparr>mx_trackInfos := mx_trackInfos s1 @ [\<lparr>mt_trackId = int trackId, mt_inPort = fst metaPair, mt_eos = False\<rparr>]\<rparr>)))"

fun configure_tracks ::
  "('c, 'v, 'w) mux_ops \<Rightarrow> (string \<times> 'v mux_meta) list \<Rightarrow> ('c, 'v, 'w) muxer \<Rightarrow> (fault, error_code \<times> ('c, 'v, 'w) muxer) sum" where
  "configure_tracks R [] s = Inr (EC_SUCCESS, s)"
| "configure_tracks R (m # ms) s =
     (case AddTrackThenConfigure R m s of
        Inl f \<Rightarrow> Inl f | Inr (ret, s1) \<Rightarrow> if ret \<noteq> EC_SUCCESS then Inr (ret, s1) else configure_tracks R ms s1)"

definition ConfigureToStart :: "('c, 'v, 'w) mux_ops \<Rightarrow> ('c, 'v, 'w) muxer \<Rightarrow> (fault, error_code \<times> ('c, 'v, 'w) muxer) sum" where
  "ConfigureToStart R s =
     (case configure_tracks R (mx_metaCache s) s of
        Inl f \<Rightarrow> Inl f
      | Inr (ret, s1) \<Rightarrow>
          if ret \<noteq> EC_SUCCESS then Inr (ret, s1)
          else case mx_call R MC_Prepare s1 of
                 Inl f \<Rightarrow> Inl f
               | Inr (st, s2) \<Rightarrow>
                   if TranslatePluginStatus st \<noteq> EC_SUCCESS then Inr (TranslatePluginStatus st, s2)
                   else map_sum id (apfst TranslatePluginStatus) (mx_call R MC_Start s2))"

definition mx_Configure ::
  "('c, 'v, 'w) mux_ops \<Rightarrow> string \<Rightarrow> 'v mux_meta \<Rightarrow> ('c, 'v, 'w) muxer \<Rightarrow> (fault, bool \<times> ('c, 'v, 'w) muxer) sum" where
  "mx_Configure R inPort upstreamMeta s =
     (if mm_MIME upstreamMeta = None then Inr (False, s)
      else let s1 = s\<lparr>mx_metaCache := mx_metaCache s @ [(inPort, upstreamMeta)]\<rparr>
           in if length (mx_metaCache s1) < length (mx_inPorts s1) then Inr (True, s1)
              else if \<not> mx_plugin s1 \<or> \<not> mo_Configure R (mx_containerMime s1) then Inr (False, s1)
              else case mx_call R MC_SetDataSink s1 of
                     Inl f \<Rightarrow> Inl f
                   | Inr (_, s2) \<Rightarrow>
                       (case ConfigureToStart R s2 of
                          Inl f \<Rightarrow> Inl f
                        | Inr (ret, s3) \<Rightarrow>
                            if ret \<noteq> EC_SUCCESS then Inr (False, mx_OnEvent EVENT_ERROR s3)
                            else Inr (True, mx_OnEvent EVENT_READY (s3\<lparr>mx_state := FS_READY\<rparr>))))"

definition mx_Start :: "('c, 'v, 'w) muxer \<Rightarrow> error_code \<times> ('c, 'v, 'w) muxer" where
  "mx_Start s = (EC_SUCCESS, s\<lparr>mx_eos := False, mx_state := FS_RUNNING\<rparr>)"

section \<open>Writing\<close>

definition mx_SendEos :: "('c, 'v, 'w) mux_ops \<Rightarrow> ('c, 'v, 'w) muxer \<Rightarrow> (fault, error_code \<times> ('c, 'v, 'w) muxer) sum" where
  "mx_SendEos R s =
     (let s1 = s\<lparr>mx_eos := True\<rparr>
      in case (if mx_hasWriteHeader s1 \<and> mx_plugin s1 then map_sum id snd (mx_call R MC_WriteTrailer s1) else Inr s1) of
           Inl f \<Rightarrow> Inl f
         | Inr s2 \<Rightarrow>
             Inr (EC_SUCCESS, (mx_WriteAt (\<lparr>mb_trackID = 0, mb_memory = None, mb_eos = True\<rparr>, -1)
                (s2\<lparr>mx_hasWriteHeader := False\<rparr>))\<lparr>mx_metaCache := []\<rparr>))"

definition AllTracksEos :: "('c, 'v, 'w) muxer \<Rightarrow> bool" where
  "AllTracksEos s \<longleftrightarrow> mx_eosTrackCnt s = int (length (mx_trackInfos s))"

definition UpdateEosState :: "string \<Rightarrow> ('c, 'v, 'w) muxer \<Rightarrow> ('c, 'v, 'w) muxer" where
  "UpdateEosState inPort s =
     (let ts = map (\<lambda>t. if mt_inPort t = inPort then t\<lparr>mt_eos := True\<rparr> else t) (mx_trackInfos s)
      in s\<lparr>mx_trackInfos := ts, mx_eosTrackCnt := int (length (filter mt_eos ts))\<rparr>)"

text \<open>The part of \<open>PushData\<close> under the mutex; \<open>None\<close> goes on to ask whether all tracks have ended.\<close>

definition mx_push_locked ::
  "('c, 'v, 'w) mux_ops \<Rightarrow> string \<Rightarrow> mux_buffer \<Rightarrow> ('c, 'v, 'w) muxer \<Rightarrow> (fault, error_code option \<times> ('c, 'v, 'w) muxer) sum" where
  "mx_push_locked R inPort b s =
     (if mx_state s \<noteq> FS_READY \<and> mx_state s \<noteq> FS_PAUSED \<and> mx_state s \<noteq> FS_RUNNING then Inr (Some EC_ERROR_INVALID_OPERATION, s)
      else if mx_eos s then Inr (Some EC_SUCCESS, s)
      else case (if mx_hasWriteHeader s then Inr s
                 else map_sum id (\<lambda>(_, s1). s1\<lparr>mx_hasWriteHeader := True\<rparr>) (mx_call R MC_WriteHeader s)) of
             Inl f \<Rightarrow> Inl f
           | Inr s1 \<Rightarrow>
               (case mb_memory b of
                  None \<Rightarrow> Inl Null_Deref
                | Some bytes \<Rightarrow>
                    (case (if bytes \<noteq> [] then map_sum id snd (mx_call R (MC_WriteFrame b) s1) else Inr s1) of
                       Inl f \<Rightarrow> Inl f
                     | Inr s2 \<Rightarrow> Inr (None, if mb_eos b then UpdateEosState inPort s2 else s2))))"

section \<open>Several threads\<close>

text \<open>
  Where a thread that pushes is: not in \<open>PushData\<close>, behind the mutex, or about to send the end of the stream. A step that its
  thread is not ready for is no run (\<open>None\<close>).
\<close>

datatype push_at = PA_Out | PA_Ask | PA_Send

datatype mux_step = MS_Push nat string mux_buffer | MS_Ask nat | MS_Send nat | MS_SendEos

fun mux_do :: "('c, 'v, 'w) mux_ops \<Rightarrow> mux_step \<Rightarrow> ('c, 'v, 'w) muxer \<times> (nat \<Rightarrow> push_at) \<Rightarrow>
  (fault, ('c, 'v, 'w) muxer \<times> (nat \<Rightarrow> push_at)) sum option" where
  "mux_do R (MS_Push t inPort b) (s, at) =
     (if at t \<noteq> PA_Out then None
      else Some (map_sum id (\<lambda>(r, s1). (s1, if r = None then at(t := PA_Ask) else at)) (mx_push_locked R inPort b s)))"
| "mux_do R (MS_Ask t) (s, at) =
     (if at t \<noteq> PA_Ask then None else Some (Inr (s, at(t := if AllTracksEos s then PA_Send else PA_Out))))"
| "mux_do R (MS_Send t) (s, at) =
     (if at t \<noteq> PA_Send then None else Some (map_sum id (\<lambda>(_, s1). (s1, at(t := PA_Out))) (mx_SendEos R s)))"
| "mux_do R MS_SendEos (s, at) = Some (map_sum id (\<lambda>(_, s1). (s1, at)) (mx_SendEos R s))"

fun mux_run :: "('c, 'v, 'w) mux_ops \<Rightarrow> mux_step list \<Rightarrow> ('c, 'v, 'w) muxer \<times> (nat \<Rightarrow> push_at) \<Rightarrow>
  (fault, ('c, 'v, 'w) muxer \<times> (nat \<Rightarrow> push_at)) sum option" where
  "mux_run R [] x = Some (Inr x)"
| "mux_run R (m # ms) x =
     (case mux_do R m x of None \<Rightarrow> None | Some (Inl f) \<Rightarrow> Some (Inl f) | Some (Inr y) \<Rightarrow> mux_run R ms y)"

section \<open>What is written\<close>

lemma fold_WriteAt: "fold mx_WriteAt bs s = s\<lparr>mx_outPort := mx_outPort s @ bs\<rparr>"
  by (induction bs arbitrary: s) (simp_all add: mx_WriteAt_def)

text \<open>A plugin that keeps what it was called for: \<open>log\<close> reads it off.\<close>

definition logs :: "('c, 'v, 'w) mux_ops \<Rightarrow> ('w \<Rightarrow> 'v mux_call list) \<Rightarrow> bool" where
  "logs R log \<longleftrightarrow> (\<forall>c w. log (snd (snd (mo_call R c w))) = log w @ [c])"

lemma call_logs:
  assumes "logs R log" "mx_plugin s"
  obtains st bs w where "mx_call R c s = Inr (st, s\<lparr>mx_world := w, mx_outPort := mx_outPort s @ bs\<rparr>)" "log w = log (mx_world s) @ [c]"
proof -
  obtain st bs w where "mo_call R c (mx_world s) = (st, bs, w)" by (metis prod_cases3)
  moreover from this have "log w = log (mx_world s) @ [c]" using assms(1) by (metis logs_def snd_conv)
  ultimately show thesis using that assms(2) by (simp add: mx_call_def fold_WriteAt)
qed

fun pushed_frame :: "mux_step \<Rightarrow> mux_buffer list" where
  "pushed_frame (MS_Push t p b) = (if mb_memory b = Some [] then [] else [b])"
| "pushed_frame _ = []"

definition file_calls :: "bool \<Rightarrow> mux_buffer list \<Rightarrow> 'v mux_call list" where
  "file_calls ended fs = MC_WriteHeader # map MC_WriteFrame fs @ (if ended then [MC_WriteTrailer] else [])"

definition eos_sent :: "('c, 'v, 'w) muxer \<Rightarrow> bool" where
  "eos_sent s \<longleftrightarrow> (\<lparr>mb_trackID = 0, mb_memory = None, mb_eos = True\<rparr>, -1) \<in> set (mx_outPort s)"

text \<open>
  What holds after the steps \<open>ms\<close>: the calls of the plugin are those of one file, with the frames pushed up to the end; the
  count is that of the ended tracks; when all have ended a thread is on its way to say so.
\<close>

definition writes :: "('w \<Rightarrow> 'v mux_call list) \<Rightarrow> mux_step list \<Rightarrow> ('c, 'v, 'w) muxer \<Rightarrow> bool" where
  "writes log ms s \<longleftrightarrow>
     (\<exists>fs rest. concat (map pushed_frame ms) = fs @ rest \<and> (rest \<noteq> [] \<longrightarrow> mx_eos s) \<and>
        (log (mx_world s) = [] \<and> fs = [] \<and> \<not> mx_hasWriteHeader s \<and> (rest = [] \<or> mx_eos s) \<or>
         log (mx_world s) = file_calls (mx_eos s) fs \<and> mx_hasWriteHeader s = (\<not> mx_eos s)))"

definition ends :: "mux_step list \<Rightarrow> ('c, 'v, 'w) muxer \<Rightarrow> (nat \<Rightarrow> push_at) \<Rightarrow> bool" where
  "ends ms s at \<longleftrightarrow>
     mx_eosTrackCnt s = int (length (filter mt_eos (mx_trackInfos s))) \<and> (mx_eos s \<longrightarrow> eos_sent s) \<and>
     ((\<forall>t \<in> set (mx_trackInfos s). mt_eos t) \<longrightarrow> mx_eos s \<or> (\<exists>t. at t \<noteq> PA_Out)) \<and>
     (\<forall>t p b. MS_Push t p b \<in> set ms \<and> mb_eos b \<longrightarrow> mx_eos s \<or> (\<forall>x \<in> set (mx_trackInfos s). mt_inPort x = p \<longrightarrow> mt_eos x))"

definition mux_inv :: "('w \<Rightarrow> 'v mux_call list) \<Rightarrow> mux_step list \<Rightarrow> ('c, 'v, 'w) muxer \<times> (nat \<Rightarrow> push_at) \<Rightarrow> bool" where
  "mux_inv log ms x \<longleftrightarrow> mx_plugin (fst x) \<and> mx_state (fst x) = FS_RUNNING \<and> writes log ms (fst x) \<and> ends ms (fst x) (snd x)"

lemma all_eos_iff: "ends ms s at \<Longrightarrow> AllTracksEos s \<longleftrightarrow> (\<forall>t \<in> set (mx_trackInfos s). mt_eos t)"
  by (simp add: ends_def AllTracksEos_def) (metis filter_True length_filter_less nat_less_le)

lemma header_step:
  assumes "logs R log" "mx_plugin s" "\<not> mx_eos s" "writes log ms s"
    "(if mx_hasWriteHeader s then Inr s else map_sum id (\<lambda>(_, s1). s1\<lparr>mx_hasWriteHeader := True\<rparr>) (mx_call R MC_WriteHeader s)) = Inr s1"
  shows "log (mx_world s1) = file_calls False (concat (map pushed_frame ms))" "\<exists>w bs. s1 = s\<lparr>mx_world := w, mx_outPort := mx_outPort s @ bs, mx_hasWriteHeader := True\<rparr>"
proof -
  obtain st bs w where c: "mx_call R MC_WriteHeader s = Inr (st, s\<lparr>mx_world := w, mx_outPort := mx_outPort s @ bs\<rparr>)" "log w = log (mx_world s) @ [MC_WriteHeader]"
    using call_logs [OF assms(1,2)] by blast
  have "log (mx_world s1) = file_calls False (concat (map pushed_frame ms)) \<and>
    (\<exists>w bs. s1 = s\<lparr>mx_world := w, mx_outPort := mx_outPort s @ bs, mx_hasWriteHeader := True\<rparr>)"
  proof (cases "mx_hasWriteHeader s")
    case True
    then have s1: "s1 = s" "s = s\<lparr>mx_world := mx_world s, mx_outPort := mx_outPort s @ [], mx_hasWriteHeader := True\<rparr>" using assms(5) by simp_all
    moreover have "log (mx_world s) = file_calls False (concat (map pushed_frame ms))" using assms(3,4) True by (auto simp: writes_def)
    ultimately show ?thesis by blast
  next
    case False
    then have s1: "s1 = s\<lparr>mx_world := w, mx_outPort := mx_outPort s @ bs, mx_hasWriteHeader := True\<rparr>" using assms(5) c(1) by auto
    then show ?thesis using assms(3,4) False c(2) by (auto simp: writes_def file_calls_def)
  qed
  then show "log (mx_world s1) = file_calls False (concat (map pushed_frame ms))" "\<exists>w bs. s1 = s\<lparr>mx_world := w, mx_outPort := mx_outPort s @ bs, mx_hasWriteHeader := True\<rparr>" by auto
qed

lemma writes_more:
  assumes "writes log ms s" "pushed_frame m = [] \<or> mx_eos s"
  shows "writes log (ms @ [m]) s"
proof -
  obtain fs rest where fs: "concat (map pushed_frame ms) = fs @ rest" "rest \<noteq> [] \<longrightarrow> mx_eos s"
    "log (mx_world s) = [] \<and> fs = [] \<and> \<not> mx_hasWriteHeader s \<and> (rest = [] \<or> mx_eos s) \<or>
      log (mx_world s) = file_calls (mx_eos s) fs \<and> mx_hasWriteHeader s = (\<not> mx_eos s)"
    using assms(1) unfolding writes_def by blast
  then have "concat (map pushed_frame (ms @ [m])) = fs @ (rest @ pushed_frame m)" by simp
  then show ?thesis unfolding writes_def using fs assms(2) by (intro exI [of _ fs] exI [of _ "rest @ pushed_frame m"]) auto
qed

lemma push_step:
  assumes "logs R log" "mux_inv log ms (s, at)" "at t = PA_Out" "mx_push_locked R p b s = Inr (r, s1)"
  shows "mux_inv log (ms @ [MS_Push t p b]) (s1, if r = None then at(t := PA_Ask) else at)"
proof (cases "mx_eos s")
  case True
  then have "r = Some EC_SUCCESS" "s1 = s" using assms(2,4) by (simp_all add: mx_push_locked_def mux_inv_def)
  moreover have "writes log (ms @ [MS_Push t p b]) s" using writes_more assms(2) True by (auto simp: mux_inv_def)
  ultimately show ?thesis using assms(2) True by (auto simp: mux_inv_def ends_def)
next
  case False
  then obtain s2 bytes s3 where
      h: "(if mx_hasWriteHeader s then Inr s else map_sum id (\<lambda>(_, s1). s1\<lparr>mx_hasWriteHeader := True\<rparr>) (mx_call R MC_WriteHeader s)) = Inr s2"
    and b: "mb_memory b = Some bytes"
    and f: "(if bytes \<noteq> [] then map_sum id snd (mx_call R (MC_WriteFrame b) s2) else Inr s2) = Inr s3"
    and r: "r = None" "s1 = (if mb_eos b then UpdateEosState p s3 else s3)"
    using assms(2,4) by (auto simp: mx_push_locked_def mux_inv_def split: sum.splits option.splits if_splits)
  have inv: "mx_plugin s" "mx_state s = FS_RUNNING" "writes log ms s" "ends ms s at" using assms(2) by (simp_all add: mux_inv_def)
  note hd = header_step [OF assms(1) inv(1) False inv(3) h]
  then obtain w2 bs2 where s2: "s2 = s\<lparr>mx_world := w2, mx_outPort := mx_outPort s @ bs2, mx_hasWriteHeader := True\<rparr>" by blast
  obtain st bs w where c: "mx_call R (MC_WriteFrame b) s2 = Inr (st, s2\<lparr>mx_world := w, mx_outPort := mx_outPort s2 @ bs\<rparr>)"
      "log w = log (mx_world s2) @ [MC_WriteFrame b]"
    using call_logs [OF assms(1), of s2 "MC_WriteFrame b"] inv(1) s2 by auto
  have s3: "log (mx_world s3) = file_calls False (concat (map pushed_frame (ms @ [MS_Push t p b]))) \<and>
      (\<exists>w bs. s3 = s2\<lparr>mx_world := w, mx_outPort := mx_outPort s2 @ bs\<rparr>)"
  proof (cases "bytes = []")
    case True
    then have "s3 = s2" using f by simp
    moreover from this have "\<exists>w bs. s3 = s2\<lparr>mx_world := w, mx_outPort := mx_outPort s2 @ bs\<rparr>"
      by (intro exI [of _ "mx_world s2"] exI [of _ "[]"]) simp
    ultimately show ?thesis using hd(1) b True by simp
  next
    case False
    then have "s3 = s2\<lparr>mx_world := w, mx_outPort := mx_outPort s2 @ bs\<rparr>" using f c(1) by simp
    then show ?thesis using hd(1) b False c(2) by (auto simp: file_calls_def)
  qed
  obtain w3 bs3 where s3': "s3 = s2\<lparr>mx_world := w3, mx_outPort := mx_outPort s2 @ bs3\<rparr>" using s3 by blast
  let ?ts = "if mb_eos b then map (\<lambda>x. if mt_inPort x = p then x\<lparr>mt_eos := True\<rparr> else x) (mx_trackInfos s) else mx_trackInfos s"
  have s1: "mx_plugin s1" "mx_state s1 = FS_RUNNING" "\<not> mx_eos s1" "mx_hasWriteHeader s1" "mx_world s1 = mx_world s3" "mx_trackInfos s1 = ?ts"
    "mx_eosTrackCnt s1 = (if mb_eos b then int (length (filter mt_eos ?ts)) else mx_eosTrackCnt s)"
    using r(2) inv(1,2) False by (simp_all add: s3' s2 UpdateEosState_def Let_def)
  have "writes log (ms @ [MS_Push t p b]) s1"
    unfolding writes_def using conjunct1 [OF s3] s1(3-5)
    by (intro exI [of _ "concat (map pushed_frame (ms @ [MS_Push t p b]))"] exI [of _ "[]"]) simp
  moreover have "ends (ms @ [MS_Push t p b]) s1 (at(t := PA_Ask))"
    unfolding ends_def using s1(3,6,7) inv(4) False by (cases "mb_eos b") (auto simp: ends_def)
  ultimately show ?thesis using s1(1,2) r(1) by (simp add: mux_inv_def)
qed

lemma eos_step:
  assumes "logs R log" "mux_inv log ms (s, at)" "mx_SendEos R s = Inr (r, s1)"
  shows "mux_inv log ms (s1, at')"
proof -
  have inv: "mx_plugin s" "mx_state s = FS_RUNNING" "writes log ms s" "ends ms s at" using assms(2) by (simp_all add: mux_inv_def)
  obtain fs rest where fs: "concat (map pushed_frame ms) = fs @ rest" "rest \<noteq> [] \<longrightarrow> mx_eos s"
    "log (mx_world s) = [] \<and> fs = [] \<and> \<not> mx_hasWriteHeader s \<or>
      log (mx_world s) = file_calls (mx_eos s) fs \<and> mx_hasWriteHeader s = (\<not> mx_eos s)"
    using inv(3) unfolding writes_def by blast
  obtain st bs w where c: "mx_call R MC_WriteTrailer (s\<lparr>mx_eos := True\<rparr>) = Inr (st, s\<lparr>mx_eos := True, mx_world := w, mx_outPort := mx_outPort s @ bs\<rparr>)"
      "log w = log (mx_world s) @ [MC_WriteTrailer]"
    using call_logs [OF assms(1), of "s\<lparr>mx_eos := True\<rparr>" MC_WriteTrailer] inv(1) by auto
  let ?eos = "(\<lparr>mb_trackID = 0, mb_memory = None, mb_eos = True\<rparr>, -1)"
  obtain w1 out where s1: "s1 = s\<lparr>mx_eos := True, mx_world := w1, mx_hasWriteHeader := False, mx_outPort := out @ [?eos], mx_metaCache := []\<rparr>"
    "log w1 = log (mx_world s) @ (if mx_hasWriteHeader s then [MC_WriteTrailer] else [])"
  proof (cases "mx_hasWriteHeader s")
    case True
    then have "s1 = s\<lparr>mx_eos := True, mx_world := w, mx_hasWriteHeader := False, mx_outPort := (mx_outPort s @ bs) @ [?eos], mx_metaCache := []\<rparr>"
      using assms(3) c(1) inv(1) by (simp add: mx_SendEos_def mx_WriteAt_def Let_def)
    then show thesis by (rule that) (use True c(2) in simp)
  next
    case False
    then have "s1 = s\<lparr>mx_eos := True, mx_world := mx_world s, mx_hasWriteHeader := False, mx_outPort := mx_outPort s @ [?eos], mx_metaCache := []\<rparr>"
      using assms(3) by (simp add: mx_SendEos_def mx_WriteAt_def Let_def)
    then show thesis by (rule that) (use False in simp)
  qed
  have "log w1 = [] \<and> fs = [] \<or> log w1 = file_calls True fs" using fs(3) s1(2) by (auto simp: file_calls_def)
  then have "writes log ms s1" unfolding writes_def using fs(1) s1(1) by (intro exI [of _ fs] exI [of _ rest]) auto
  moreover have "ends ms s1 at'" using inv(4) s1(1) by (auto simp: ends_def eos_sent_def)
  ultimately show ?thesis using inv(1,2) s1(1) by (simp add: mux_inv_def)
qed

lemma inv_more: "mux_inv log ms (s, at) \<Longrightarrow> \<forall>t p b. m \<noteq> MS_Push t p b \<Longrightarrow> mux_inv log (ms @ [m]) (s, at)"
  using writes_more [of log ms s m] by (cases m) (auto simp: mux_inv_def ends_def)

lemma mux_step_inv:
  assumes "logs R log" "mux_inv log ms x" "mux_do R m x = Some (Inr y)"
  shows "mux_inv log (ms @ [m]) y"
proof -
  obtain s at where x: "x = (s, at)" by (cases x)
  show ?thesis
  proof (cases m)
    case (MS_Push t p b)
    then obtain r s1 where "at t = PA_Out" "mx_push_locked R p b s = Inr (r, s1)" "y = (s1, if r = None then at(t := PA_Ask) else at)"
      using assms(3) x by (cases "mx_push_locked R p b s") (auto split: if_splits)
    then show ?thesis using push_step [OF assms(1), of ms s at t p b] assms(2) x MS_Push by simp
  next
    case (MS_Ask t)
    have "mux_inv log ms (s, at(t := if AllTracksEos s then PA_Send else PA_Out))"
      using assms(2) x all_eos_iff [of ms s at] by (auto simp: mux_inv_def ends_def)
    then have "mux_inv log (ms @ [m]) (s, at(t := if AllTracksEos s then PA_Send else PA_Out))" using MS_Ask by (intro inv_more) simp_all
    then show ?thesis using MS_Ask assms(3) x by (auto split: if_splits)
  next
    case (MS_Send t)
    then obtain r s1 where "mx_SendEos R s = Inr (r, s1)" "y = (s1, at(t := PA_Out))"
      using assms(3) x by (cases "mx_SendEos R s") (auto split: if_splits)
    moreover from this have "mux_inv log ms (s1, at(t := PA_Out))" using eos_step [OF assms(1), of ms s at] assms(2) x by simp
    ultimately show ?thesis using inv_more [of log ms s1 _ m] MS_Send by simp
  next
    case MS_SendEos
    then obtain r s1 where "mx_SendEos R s = Inr (r, s1)" "y = (s1, at)"
      using assms(3) x by (cases "mx_SendEos R s") (auto split: if_splits)
    moreover from this have "mux_inv log ms (s1, at)" using eos_step [OF assms(1), of ms s at] assms(2) x by simp
    ultimately show ?thesis using inv_more [of log ms s1 _ m] MS_SendEos by simp
  qed
qed

lemma mux_run_inv:
  "logs R log \<Longrightarrow> mux_inv log ds x \<Longrightarrow> mux_run R ms x = Some (Inr y) \<Longrightarrow> mux_inv log (ds @ ms) y"
proof (induction ms arbitrary: ds x)
  case (Cons m ms)
  then obtain z where "mux_do R m x = Some (Inr z)" "mux_run R ms z = Some (Inr y)" by (auto split: option.splits sum.splits)
  then show ?case using Cons.IH [of "ds @ [m]" z] mux_step_inv [OF Cons.prems(1,2)] Cons.prems(1) by simp
qed simp

text \<open>A muxer that was configured and started, and has not been pushed to.\<close>

definition mux_started :: "('w \<Rightarrow> 'v mux_call list) \<Rightarrow> ('c, 'v, 'w) muxer \<Rightarrow> bool" where
  "mux_started log s \<longleftrightarrow> mx_plugin s \<and> mx_state s = FS_RUNNING \<and> \<not> mx_hasWriteHeader s \<and> \<not> mx_eos s \<and> log (mx_world s) = [] \<and>
     mx_trackInfos s \<noteq> [] \<and> (\<forall>t \<in> set (mx_trackInfos s). \<not> mt_eos t) \<and> mx_eosTrackCnt s = 0"

text \<open>
  C40. Whatever the encoders push at the same time, and whenever the recorder ends the recording, the plugin is called to
  write one file: the header before the first frame, the frames in the order in which they came, up to the end, and one
  trailer when the end was sent. It is sent, once the last of the tracks has pushed its end and all have returned.
\<close>

theorem muxer_writes_one_file:
  assumes "logs R log" "mux_started log s" "mux_run R ms (s, \<lambda>_. PA_Out) = Some (Inr (s', at))"
  shows "(\<exists>fs rest. concat (map pushed_frame ms) = fs @ rest \<and> (rest \<noteq> [] \<longrightarrow> mx_eos s') \<and>
      (log (mx_world s') = [] \<and> fs = [] \<or> log (mx_world s') = file_calls (mx_eos s') fs)) \<and>
    ((\<forall>x \<in> set (mx_trackInfos s'). \<exists>t b. MS_Push t (mt_inPort x) b \<in> set ms \<and> mb_eos b) \<and> (\<forall>t. at t = PA_Out) \<longrightarrow>
      mx_eos s' \<and> eos_sent s')"
proof -
  have "mux_inv log [] (s, \<lambda>_. PA_Out)"
    using assms(2) by (auto simp: mux_started_def mux_inv_def writes_def ends_def neq_Nil_conv)
  then have inv: "mux_inv log ms (s', at)" using mux_run_inv [OF assms(1) _ assms(3), of "[]"] by simp
  then have e: "ends ms s' at" by (simp add: mux_inv_def)
  have "mx_eos s' \<and> eos_sent s'"
    if a: "(\<forall>x \<in> set (mx_trackInfos s'). \<exists>t b. MS_Push t (mt_inPort x) b \<in> set ms \<and> mb_eos b) \<and> (\<forall>t. at t = PA_Out)"
  proof -
    have "mx_eos s'" using a e unfolding ends_def by metis
    then show ?thesis using e by (simp add: ends_def)
  qed
  then show ?thesis using inv unfolding mux_inv_def writes_def fst_conv by blast
qed

text \<open>Two encoders that end at the same time, at a plugin that only keeps what it is called for.\<close>

definition toy_muxer :: "(nat, nat, nat mux_call list) mux_ops" where
  "toy_muxer = \<lparr>mo_by_mime = (\<lambda>_. [''mp4'']), mo_available = (\<lambda>_. [''mp4'']), mo_create = (\<lambda>_ w. (True, w)),
     mo_call = (\<lambda>c w. (OK, [], w @ [c])), mo_AddTrack = (\<lambda>w. (OK, 0, w)), mo_Negotiate = (\<lambda>_. True), mo_Configure = (\<lambda>_. True),
     mo_parameters = []\<rparr>"

definition two_tracks :: "(nat, nat, nat mux_call list) muxer" where
  "two_tracks = \<lparr>mx_state = FS_RUNNING, mx_inPorts = [''a'', ''v''], mx_containerMime = ''video/mp4'',
     mx_trackInfos = [\<lparr>mt_trackId = 0, mt_inPort = ''a'', mt_eos = False\<rparr>, \<lparr>mt_trackId = 1, mt_inPort = ''v'', mt_eos = False\<rparr>],
     mx_plugin = True, mx_targetPluginInfo = Some ''mp4'', mx_capabilityCache = [], mx_metaCache = [], mx_hasWriteHeader = False, mx_eos = False,
     mx_eosTrackCnt = 0, mx_outPort = [], mx_events = [], mx_world = []\<rparr>"

definition mux_frame :: "u8 list \<Rightarrow> bool \<Rightarrow> mux_buffer" where
  "mux_frame bs e = \<lparr>mb_trackID = 0, mb_memory = Some bs, mb_eos = e\<rparr>"

definition both_end :: "mux_step list" where
  "both_end = [MS_Push 0 ''a'' (mux_frame [1] False), MS_Push 1 ''v'' (mux_frame [2] True), MS_Ask 0, MS_Push 0 ''a'' (mux_frame [] True),
     MS_Ask 1, MS_Ask 0, MS_Send 1, MS_Send 0]"

definition eos_buffer :: mux_buffer where "eos_buffer = \<lparr>mb_trackID = 0, mb_memory = None, mb_eos = True\<rparr>"

definition after_both :: "(nat, nat, nat mux_call list) muxer" where
  "after_both = two_tracks\<lparr>mx_trackInfos := [\<lparr>mt_trackId = 0, mt_inPort = ''a'', mt_eos = True\<rparr>, \<lparr>mt_trackId = 1, mt_inPort = ''v'', mt_eos = True\<rparr>],
     mx_eos := True, mx_eosTrackCnt := 2, mx_outPort := [(eos_buffer, -1), (eos_buffer, -1)],
     mx_world := [MC_WriteHeader, MC_WriteFrame (mux_frame [1] False), MC_WriteFrame (mux_frame [2] True), MC_WriteTrailer]\<rparr>"

lemma both_run: "\<exists>at. mux_run toy_muxer both_end (two_tracks, \<lambda>_. PA_Out) = Some (Inr (after_both, at)) \<and> (\<forall>t. at t = PA_Out)"
  by (simp add: both_end_def two_tracks_def toy_muxer_def after_both_def eos_buffer_def mux_frame_def mx_push_locked_def mx_call_def mx_SendEos_def
      mx_WriteAt_def UpdateEosState_def AllTracksEos_def Let_def)

text \<open>Each of them sends the end of the stream: the output gets it twice.\<close>

lemma eos_twice: "mx_outPort after_both = [(eos_buffer, -1), (eos_buffer, -1)]"
  by (simp add: after_both_def)

theorem muxer_writes_one_file_witness:
  "mx_world after_both = file_calls True [mux_frame [1] False, mux_frame [2] True] \<and> mx_eos after_both \<and> eos_sent after_both"
proof -
  obtain at where run: "mux_run toy_muxer both_end (two_tracks, \<lambda>_. PA_Out) = Some (Inr (after_both, at))" "\<forall>t. at t = PA_Out" using both_run by blast
  have l: "logs toy_muxer id" by (simp add: logs_def toy_muxer_def)
  have st: "mux_started id two_tracks" by (simp add: mux_started_def two_tracks_def)
  have tracks: "mt_inPort ` set (mx_trackInfos after_both) = {''a'', ''v''}" by (simp add: after_both_def)
  have "MS_Push 0 ''a'' (mux_frame [] True) \<in> set both_end \<and> mb_eos (mux_frame [] True)"
    "MS_Push 1 ''v'' (mux_frame [2] True) \<in> set both_end \<and> mb_eos (mux_frame [2] True)" by (simp_all add: both_end_def mux_frame_def)
  then have "\<exists>t b. MS_Push t p b \<in> set both_end \<and> mb_eos b" if "p \<in> {''a'', ''v''}" for p using that by blast
  then have "\<forall>x \<in> set (mx_trackInfos after_both). \<exists>t b. MS_Push t (mt_inPort x) b \<in> set both_end \<and> mb_eos b" using tracks by blast
  then have "mx_eos after_both \<and> eos_sent after_both" using conjunct2 [OF muxer_writes_one_file [OF l st run(1)]] run(2) by simp
  then show ?thesis by (simp add: after_both_def file_calls_def two_tracks_def)
qed

text \<open>
  A second recording is negotiated with what is left of the first: the cache of capabilities is never emptied, so that
  the plugin is chosen when the first of two tracks comes.
\<close>

lemma second_negotiation_early:
  assumes "mx_state s = FS_PREPARING" "length (mx_inPorts s) \<le> length (mx_capabilityCache s)"
    "candidates R (mx_capabilityCache s @ [(p, cap)]) (mo_by_mime R (mx_containerMime s)) = info # cs" "mo_Negotiate R (mx_containerMime s)"
  shows "mx_Negotiate R p cap s =
    UpdateAndInitPluginByInfo R info (s\<lparr>mx_hasWriteHeader := False, mx_capabilityCache := mx_capabilityCache s @ [(p, cap)]\<rparr>)"
  using assms by (simp add: mx_Negotiate_def Let_def)

end
