(* ===== verification/Hls_Tags.thy ===== *)
theory Hls_Tags
  imports Plugin_Buffer
begin

text \<open>
  The tags of an HLS playlist
  (engine/plugin/plugins/source/http_source/hls/hls_tags.cpp): splitting a playlist into lines, the
  tags by their names, and their attributes.

  A \<open>std::istringstream\<close> is the characters left and, where the code asks for it, its end-of-file
  flag. A tag object that is pointed to from two places is in the list of entries; the last tag is
  its place in the list. \<open>peek\<close> and \<open>get\<close> at the end answer the character 255. Reading a number
  follows \<open>strtoull\<close> and \<open>strtol\<close> in the C locale.
\<close>

section \<open>Attributes\<close>

record attribute =
  at_name :: string
  at_value :: string

definition is_space :: "char \<Rightarrow> bool" where
  "is_space c \<longleftrightarrow> (let n = of_char c :: nat in n = 32 \<or> (9 \<le> n \<and> n \<le> 13))"

definition digit_val :: "char \<Rightarrow> nat option" where
  "digit_val c = (let n = of_char c :: nat in if 48 \<le> n \<and> n \<le> 57 then Some (n - 48) else None)"

fun read_digits :: "nat \<Rightarrow> string \<Rightarrow> nat \<times> string" where
  "read_digits acc [] = (acc, [])"
| "read_digits acc (c # cs) = (case digit_val c of None \<Rightarrow> (acc, c # cs) | Some d \<Rightarrow> read_digits (10 * acc + d) cs)"

text \<open>An optional sign and digits after white space: the sign, the value if there are digits, the rest.\<close>

definition read_number :: "string \<Rightarrow> bool \<times> nat option \<times> string" where
  "read_number s =
     (let s1 = dropWhile is_space s;
          neg = (s1 \<noteq> [] \<and> hd s1 = CHR ''-'');
          s2 = (if s1 \<noteq> [] \<and> (hd s1 = CHR ''-'' \<or> hd s1 = CHR ''+'') then tl s1 else s1)
      in case read_digits 0 s2 of (v, rest) \<Rightarrow> (neg, if rest = s2 then None else Some v, rest))"

text \<open>
  A stream with nothing but white space leaves the variable it is read into as it was, and the code
  declares the variable without a value.
\<close>

definition Decimal :: "string \<Rightarrow> (fault, nat) sum" where
  "Decimal v =
     (if dropWhile is_space v = [] then Inl Uninitialised
      else case read_number v of
        (_, None, _) \<Rightarrow> Inr 0
      | (neg, Some n, _) \<Rightarrow> Inr (if n \<ge> 2 ^ 64 then 2 ^ 64 - 1 else if neg then (2 ^ 64 - n) mod 2 ^ 64 else n))"

definition FloatingPoint :: "(string \<Rightarrow> 'd) \<Rightarrow> string \<Rightarrow> (fault, 'd) sum" where
  "FloatingPoint strtod v = (if dropWhile is_space v = [] then Inl Uninitialised else Inr (strtod v))"

definition read_int :: "string \<Rightarrow> int \<times> bool \<times> string" where
  "read_int s =
     (case read_number s of
        (_, None, rest) \<Rightarrow> (0, False, rest)
      | (neg, Some n, rest) \<Rightarrow>
          let i = (if neg then - int n else int n)
          in if i > 2 ^ 31 - 1 then (2 ^ 31 - 1, False, rest)
             else if i < - (2 ^ 31) then (- (2 ^ 31), False, rest) else (i, True, rest))"

text \<open>After a number that could not be read nothing more can be; \<open>>>\<close> that reads to the end sets the end of file.\<close>

definition GetResolution :: "string \<Rightarrow> int \<times> int" where
  "GetResolution v =
     (case read_int v of (w, good, rest) \<Rightarrow>
        if rest = [] \<or> \<not> good then (w, 0)
        else if hd rest = CHR ''x'' then (w, fst (read_int (tl rest))) else (w, 0))"

fun unescape :: "string \<Rightarrow> string" where
  "unescape [] = []"
| "unescape (c # cs) =
     (if c = CHR 0x5C then (case cs of [] \<Rightarrow> [] | d # ds \<Rightarrow> d # unescape ds) else c # unescape cs)"

definition QuotedString :: "string \<Rightarrow> string" where
  "QuotedString v =
     (if v \<noteq> [] \<and> hd v \<noteq> CHR 0x22 then v
      else if length v < 2 then []
      else unescape (take (length v - 2) (drop 1 v)))"

section \<open>Tags\<close>

datatype hls_tag =
    EXTXDISCONTINUITY | EXTXENDLIST | EXTXIFRAMESONLY
  | URI | EXTXVERSION | EXTXBYTERANGE | EXTXPROGRAMDATETIME | EXTXTARGETDURATION
  | EXTXMEDIASEQUENCE | EXTXDISCONTINUITYSEQUENCE | EXTXPLAYLISTTYPE
  | EXTXKEY | EXTXMAP | EXTXMEDIA | EXTXSTART | EXTXSTREAMINF | EXTXIFRAMESTREAMINF | EXTXSESSIONKEY
  | EXTINF

text \<open>A plain tag, one with a value, one with attributes (a values list is one, too).\<close>

datatype tag = Tag hls_tag | SingleValueTag hls_tag string | AttributesTag hls_tag "attribute list"

fun GetType :: "tag \<Rightarrow> hls_tag" where
  "GetType (Tag t) = t"
| "GetType (SingleValueTag t v) = t"
| "GetType (AttributesTag t as) = t"

definition g_exttagmapping :: "(string \<times> hls_tag) list" where
  "g_exttagmapping =
    [(''EXT-X-BYTERANGE'', EXTXBYTERANGE), (''EXT-X-DISCONTINUITY'', EXTXDISCONTINUITY), (''EXT-X-KEY'', EXTXKEY),
     (''EXT-X-MAP'', EXTXMAP), (''EXT-X-VERSION'', EXTXVERSION), (''EXT-X-PROGRAM-DATE-TIME'', EXTXPROGRAMDATETIME),
     (''EXT-X-TARGETDURATION'', EXTXTARGETDURATION), (''EXT-X-MEDIA-SEQUENCE'', EXTXMEDIASEQUENCE),
     (''EXT-X-DISCONTINUITY-SEQUENCE'', EXTXDISCONTINUITYSEQUENCE), (''EXT-X-ENDLIST'', EXTXENDLIST),
     (''EXT-X-PLAYLIST-TYPE'', EXTXPLAYLISTTYPE), (''EXT-X-I-FRAMES-ONLY'', EXTXIFRAMESONLY), (''EXT-X-MEDIA'', EXTXMEDIA),
     (''EXT-X-START'', EXTXSTART), (''EXT-X-STREAM-INF'', EXTXSTREAMINF), (''EXT-X-I-FRAME-STREAM-INF'', EXTXIFRAMESTREAMINF),
     (''EXT-X-SESSION-KEY'', EXTXSESSIONKEY), (''EXTINF'', EXTINF), ([], URI)]"

definition GetAttributeByName :: "string \<Rightarrow> attribute list \<Rightarrow> attribute option" where
  "GetAttributeByName name attributes = find (\<lambda>a. at_name a = name) attributes"

definition name_char :: "char \<Rightarrow> bool" where
  "name_char c \<longleftrightarrow> (let n = of_char c :: nat in 65 \<le> n \<and> n \<le> 90 \<or> c = CHR ''-'')"

text \<open>What was read, what is left, and whether the end of file was seen.\<close>

fun ParseAttributeName :: "string \<Rightarrow> string \<Rightarrow> string \<times> string \<times> bool" where
  "ParseAttributeName [] oss = (oss, [], True)"
| "ParseAttributeName (c # iss) oss =
     (if name_char c then ParseAttributeName iss (oss @ [c])
      else if c = CHR ''='' then (oss, iss, False)
      else ParseAttributeName iss oss)"

fun ParseAttributeValue :: "bool \<Rightarrow> string \<Rightarrow> string \<Rightarrow> string \<times> string \<times> bool" where
  "ParseAttributeValue bQuoted [] oss = (oss, [], True)"
| "ParseAttributeValue bQuoted (c # iss) oss =
     (if c = CHR 0x5C \<and> bQuoted
      then (case iss of [] \<Rightarrow> (oss @ [char_of (255 :: nat)], [], True) | d # ds \<Rightarrow> ParseAttributeValue bQuoted ds (oss @ [d]))
      else if c = CHR '','' \<and> \<not> bQuoted then (oss, iss, False)
      else if c = CHR 0x22 then (if bQuoted then (oss @ [c], iss, False) else ParseAttributeValue True iss (oss @ [c]))
      else if \<not> bQuoted \<and> ((of_char c :: nat) < of_char (CHR ''-'') \<or> (of_char c :: nat) > of_char (CHR ''z''))
      then ParseAttributeValue bQuoted iss oss
      else ParseAttributeValue bQuoted iss (oss @ [c]))"

lemma ParseAttributeName_shorter: "ParseAttributeName iss oss = (name, rest, False) \<Longrightarrow> length rest < length iss"
  by (induction iss oss rule: ParseAttributeName.induct) (auto split: if_splits)

lemma ParseAttributeValue_le: "ParseAttributeValue q iss oss = (v, rest, e) \<Longrightarrow> length rest \<le> length iss"
  by (induction q iss oss arbitrary: v rest e rule: ParseAttributeValue.induct) (fastforce split: if_splits list.splits)+

text \<open>The loop of \<open>AttributesTag::ParseAttributes\<close>, from a stream whose end was not seen.\<close>

function ParseAttributes_loop :: "string \<Rightarrow> attribute list" where
  "ParseAttributes_loop iss =
     (case ParseAttributeName iss [] of (attrName, iss1, eof1) \<Rightarrow>
        case (if eof1 then ([], [], True) else ParseAttributeValue False iss1 []) of (attrValue, iss2, eof2) \<Rightarrow>
          (if attrName \<noteq> [] then [\<lparr>at_name = attrName, at_value = attrValue\<rparr>] else []) @
          (if eof2 then [] else if length iss2 < length iss then ParseAttributes_loop iss2 else []))"
  by auto
termination by (relation "measure length") auto

declare ParseAttributes_loop.simps [simp del]

definition AttributesTag_ParseAttributes :: "string \<Rightarrow> attribute list" where
  "AttributesTag_ParseAttributes field = ParseAttributes_loop field"

definition ValuesListTag_ParseAttributes :: "string \<Rightarrow> attribute list" where
  "ValuesListTag_ParseAttributes field =
     (let pos = length (takeWhile (\<lambda>c. c \<noteq> CHR '','') field)
      in if pos < length field
         then [\<lparr>at_name = ''DURATION'', at_value = take pos field\<rparr>, \<lparr>at_name = ''TITLE'', at_value = drop pos field\<rparr>]
         else [\<lparr>at_name = ''DURATION'', at_value = field\<rparr>])"

definition new_tag :: "hls_tag \<Rightarrow> string \<Rightarrow> tag" where
  "new_tag t value =
     (if t \<in> {EXTXDISCONTINUITY, EXTXENDLIST, EXTXIFRAMESONLY} then Tag t
      else if t \<in> {URI, EXTXVERSION, EXTXBYTERANGE, EXTXPROGRAMDATETIME, EXTXTARGETDURATION, EXTXMEDIASEQUENCE,
          EXTXDISCONTINUITYSEQUENCE, EXTXPLAYLISTTYPE} then SingleValueTag t value
      else if t = EXTINF then AttributesTag t (AttributesTag_ParseAttributes value @ ValuesListTag_ParseAttributes value)
      else AttributesTag t (AttributesTag_ParseAttributes value))"

definition CreateTagByName :: "string \<Rightarrow> string \<Rightarrow> tag option" where
  "CreateTagByName name value = map_option (\<lambda>t. new_tag t value) (map_of g_exttagmapping name)"

section \<open>Entries\<close>

text \<open>The place of the first occurrence of a string.\<close>

fun find_sub :: "string \<Rightarrow> string \<Rightarrow> nat option" where
  "find_sub p [] = (if p = [] then Some 0 else None)"
| "find_sub p (c # s) = (if take (length p) (c # s) = p then Some 0 else map_option Suc (find_sub p s))"

lemma find_sub_bound: "find_sub p s = Some i \<Longrightarrow> i + length p \<le> length s"
proof (induction p s arbitrary: i rule: find_sub.induct)
  case (2 p c s)
  show ?case
  proof (cases "take (length p) (c # s) = p")
    case True
    then have "length p \<le> length (c # s)" by (metis length_take min.cobounded1)
    then show ?thesis using 2 True by simp
  next
    case False
    then obtain j where "find_sub p s = Some j" "i = Suc j" using 2(2) by (auto split: if_splits)
    then show ?thesis using 2(1) [OF False] by simp
  qed
qed (auto split: if_splits)

text \<open>The pieces from position \<open>last\<close> on, which is where the argument starts; the delimiter is not empty.\<close>

function split_rest :: "string \<Rightarrow> string \<Rightarrow> string list" where
  "split_rest delim s =
     (case find_sub delim s of
        None \<Rightarrow> if length s > 0 then [s] else []
      | Some i \<Rightarrow> (if i > 0 then [take i s] else []) @
          (if delim = [] then [] else split_rest delim (drop (i + length delim) s)))"
  by auto
termination
proof (relation "measure (\<lambda>(delim, s). length s)")
  fix delim s :: string and i
  assume "find_sub delim s = Some i" "delim \<noteq> []"
  then show "((delim, drop (i + length delim) s), delim, s) \<in> measure (\<lambda>(delim, s). length s)"
    using find_sub_bound [of delim s i] by (cases delim) auto
qed simp

declare split_rest.simps [simp del]

definition Split :: "string \<Rightarrow> string \<Rightarrow> string list" where
  "Split s delim = (if s = [] then [[]] else split_rest delim s)"

type_synonym entries = "tag list \<times> nat option"

definition ParseTag :: "string \<Rightarrow> entries \<Rightarrow> (fault, entries) sum" where
  "ParseTag line st =
     (case st of (entriesList, lastTag) \<Rightarrow>
        if find_sub ''#EXT'' line \<noteq> None then
          let line1 = drop 1 line; keyValue = Split line1 '':''
          in if keyValue = [] then Inl Out_Of_Bounds
             else let key = keyValue ! 0; value = (if length keyValue = 2 then keyValue ! 1 else [])
                  in if key \<noteq> []
                     then (case CreateTagByName key value of
                             Some tag \<Rightarrow> Inr (entriesList @ [tag], Some (length entriesList))
                           | None \<Rightarrow> Inr (entriesList, None))
                     else Inr st
        else Inr st)"

fun add_attribute :: "attribute \<Rightarrow> tag \<Rightarrow> tag" where
  "add_attribute a (AttributesTag t as) = AttributesTag t (as @ [a])"
| "add_attribute a t = t"

definition ParseURI :: "string \<Rightarrow> entries \<Rightarrow> entries" where
  "ParseURI line st =
     (case st of (entriesList, lastTag) \<Rightarrow>
        (case lastTag of
           Some i \<Rightarrow>
             if GetType (entriesList ! i) = EXTXSTREAMINF
             then entriesList[i := add_attribute \<lparr>at_name = ''URI'', at_value = line\<rparr> (entriesList ! i)]
             else (case CreateTagByName [] line of Some tag \<Rightarrow> entriesList @ [tag] | None \<Rightarrow> entriesList)
         | None \<Rightarrow> (case CreateTagByName [] line of Some tag \<Rightarrow> entriesList @ [tag] | None \<Rightarrow> entriesList),
         None))"

fun parse_lines :: "string list \<Rightarrow> entries \<Rightarrow> (fault, entries) sum" where
  "parse_lines [] st = Inr st"
| "parse_lines (line # ls) st =
     (if line \<noteq> [] \<and> hd line = CHR ''#''
      then (case ParseTag line st of Inl e \<Rightarrow> Inl e | Inr st1 \<Rightarrow> parse_lines ls st1)
      else if line \<noteq> [] then parse_lines ls (ParseURI line st)
      else parse_lines ls (fst st, None))"

definition ParseEntries :: "string \<Rightarrow> (fault, tag list) sum" where
  "ParseEntries s =
     (let lines0 = Split s (map char_of [13 :: nat, 10]);
          lines = (if length lines0 = 1 then Split s (map char_of [10 :: nat]) else lines0)
      in case parse_lines lines ([], None) of Inl e \<Rightarrow> Inl e | Inr st \<Rightarrow> Inr (fst st))"

end
