(* ===== verification/Downloader.thy ===== *)
theory Downloader
  imports Blocking_Queue Hls_Tags
begin

text \<open>
  The downloader of the HTTP sources (engine/plugin/plugins/source/http_source/download/downloader.cpp
  and its header, and RequestData of http_curl_client.cpp).

  The server is the argument: a transfer for every range that is asked for, with the header lines and
  the pieces of the body libcurl hands to the callbacks and what \<open>curl_easy_perform\<close> answers. It stops
  at a piece that is not taken, as libcurl documents. Where the pieces go is the argument \<open>save\<close>.
  Calls of the task and of the status callback are a log. The content type, which nothing reads, is
  left out; waiting for the header at most 200 times is not.
\<close>

section \<open>Requests\<close>

datatype client_error = CE_OK | CE_TIME_OUT | CE_NOT_RETRY | CE_UNKNOWN

record header_info =
  hi_fileContentLen :: nat
  hi_contentLen :: int
  hi_isChunked :: bool
  hi_isClosed :: bool

record dl_request =
  rq_url :: string
  rq_header :: header_info
  rq_isHeaderUpdated :: bool
  rq_isEos :: bool
  rq_startPos :: nat
  rq_isDownloading :: bool
  rq_wholeFile :: bool
  rq_requestSize :: int
  rq_retryTimes :: nat
  rq_clientError :: client_error
  rq_serverError :: int

definition new_request :: "string \<Rightarrow> bool \<Rightarrow> dl_request" where
  "new_request url whole = \<lparr>rq_url = url, rq_header = \<lparr>hi_fileContentLen = 0, hi_contentLen = 0, hi_isChunked = False, hi_isClosed = False\<rparr>,
     rq_isHeaderUpdated = False, rq_isEos = False, rq_startPos = 0, rq_isDownloading = False, rq_wholeFile = whole, rq_requestSize = 0,
     rq_retryTimes = 0, rq_clientError = CE_OK, rq_serverError = 0\<rparr>"

text \<open>Waiting until the length is known: there is no answer when it never is.\<close>

definition GetFileContentLength :: "header_info \<Rightarrow> nat option" where
  "GetFileContentLength h = (if hi_fileContentLen h = 0 \<and> \<not> hi_isChunked h \<and> \<not> hi_isClosed h then None else Some (hi_fileContentLen h))"

definition rq_Close :: "dl_request \<Rightarrow> dl_request" where
  "rq_Close r = r\<lparr>rq_header := (rq_header r)\<lparr>hi_isClosed := True\<rparr>\<rparr>"

definition IsSame :: "dl_request \<Rightarrow> dl_request \<Rightarrow> bool" where
  "IsSame a b \<longleftrightarrow> rq_url a = rq_url b \<and> rq_startPos a = rq_startPos b"

section \<open>Headers\<close>

text \<open>\<open>strtok_s\<close> at colons: the token and what follows it.\<close>

definition strtok :: "string \<Rightarrow> (string \<times> string) option" where
  "strtok s = (let t = dropWhile (\<lambda>c. c = CHR '':'') s
               in if t = [] then None else Some (takeWhile (\<lambda>c. c \<noteq> CHR '':'') t, drop 1 (dropWhile (\<lambda>c. c \<noteq> CHR '':'') t)))"

definition StringTrim :: "string \<Rightarrow> string" where
  "StringTrim s = rev (dropWhile is_space (rev (dropWhile is_space s)))"

definition starts_with :: "string \<Rightarrow> string \<Rightarrow> bool" where
  "starts_with key pat \<longleftrightarrow> take (length pat) key = pat"

definition atol :: "string \<Rightarrow> int" where
  "atol s = (case read_number s of (_, None, _) \<Rightarrow> 0 | (neg, Some n, _) \<Rightarrow> if neg then - int n else int n)"

definition scan_number :: "string \<Rightarrow> (nat \<times> string) option" where
  "scan_number s = (case read_number s of (_, None, _) \<Rightarrow> None | (neg, Some n, r) \<Rightarrow> Some (if neg then (2 ^ 64 - n) mod 2 ^ 64 else n, r))"

text \<open>The third number of \<open>sscanf_s\<close> with "bytes %ld-%ld/%ld"; without it the variable keeps no value.\<close>

definition scan_range :: "string \<Rightarrow> nat option" where
  "scan_range s =
     (if \<not> starts_with s ''bytes'' then None
      else case scan_number (drop 5 s) of
             None \<Rightarrow> None
           | Some (_, r) \<Rightarrow>
               if r = [] \<or> hd r \<noteq> CHR ''-'' then None
               else case scan_number (tl r) of
                      None \<Rightarrow> None
                    | Some (_, r1) \<Rightarrow> if r1 = [] \<or> hd r1 \<noteq> CHR ''/'' then None else map_option fst (scan_number (tl r1)))"

definition header_content_length :: "string \<Rightarrow> header_info \<Rightarrow> header_info" where
  "header_content_length value h = h\<lparr>hi_contentLen := atol (StringTrim value)\<rparr>"

definition header_encoding :: "string \<Rightarrow> header_info \<Rightarrow> header_info" where
  "header_encoding value h = (if starts_with (StringTrim value) ''chunked'' then h\<lparr>hi_isChunked := True\<rparr> else h)"

definition header_range :: "string \<Rightarrow> header_info \<Rightarrow> (fault, header_info) sum" where
  "header_range value h =
     (case scan_range (StringTrim value) of
        None \<Rightarrow> Inl Uninitialised
      | Some fileLen \<Rightarrow> Inr (if hi_fileContentLen h = 0 then h\<lparr>hi_fileContentLen := fileLen\<rparr> else h))"

text \<open>The kinds of header the code looks for; a key can only be one of them.\<close>

definition RxHeaderData :: "string \<Rightarrow> dl_request \<Rightarrow> (fault, dl_request) sum" where
  "RxHeaderData line r =
     (case strtok line of
        None \<Rightarrow> Inr r
      | Some (key, rest) \<Rightarrow>
          let known = (\<lambda>a b. starts_with key a \<or> starts_with key b);
              saved = (\<lambda>h. r\<lparr>rq_header := h, rq_isHeaderUpdated := True\<rparr>)
          in if starts_with key ''Content-Type'' then
               (if strtok rest = None then Inr r else Inr (saved (rq_header r)))
             else if known ''Content-Length'' ''content-length'' then
               (case strtok rest of None \<Rightarrow> Inr r | Some (v, _) \<Rightarrow> Inr (saved (header_content_length v (rq_header r))))
             else if known ''Transfer-Encoding'' ''transfer-encoding'' then
               (case strtok rest of None \<Rightarrow> Inr r | Some (v, _) \<Rightarrow> Inr (saved (header_encoding v (rq_header r))))
             else if known ''Content-Range'' ''content-range'' then
               (case strtok rest of
                  None \<Rightarrow> Inr r
                | Some (v, _) \<Rightarrow> (case header_range v (rq_header r) of Inl f \<Rightarrow> Inl f | Inr h \<Rightarrow> Inr (saved h)))
             else Inr (saved (rq_header r)))"

text \<open>A piece of the body: whether it was taken.\<close>

definition RxBodyData :: "(dl_request \<Rightarrow> 's \<Rightarrow> u8 list \<Rightarrow> bool \<times> 's) \<Rightarrow> u8 list \<Rightarrow> dl_request \<Rightarrow> 's \<Rightarrow> bool \<times> dl_request \<times> 's" where
  "RxBodyData save piece r s =
     (let h = rq_header r
      in if hi_isClosed h then (piece = [], r, s)
         else if hi_fileContentLen h = 0 \<and> \<not> hi_contentLen h > 0 then (piece = [], r, s)
         else let r1 = (if hi_fileContentLen h = 0 then r\<lparr>rq_header := h\<lparr>hi_fileContentLen := nat (hi_contentLen h)\<rparr>\<rparr> else r);
                  r2 = r1\<lparr>rq_isDownloading := True\<rparr>
              in case save r2 s piece of (ok, s1) \<Rightarrow>
                   if \<not> ok then (piece = [], r2, s1)
                   else (True, r2\<lparr>rq_isDownloading := False, rq_startPos := rq_startPos r + length piece\<rparr>, s1))"

section \<open>Transfers\<close>

datatype byte_range = Same_As_Before | Range nat nat | Range_From nat

datatype curl_code = CURLE_OK | CURLE_WRITE_ERROR | CURLE_COULDNT_CONNECT | CURLE_OPERATION_TIMEDOUT | CURLE_OTHER

record transfer =
  tr_headers :: "string list"
  tr_pieces :: "u8 list list"
  tr_code :: curl_code
  tr_http :: int

fun run_headers :: "string list \<Rightarrow> dl_request \<Rightarrow> (fault, dl_request) sum" where
  "run_headers [] r = Inr r"
| "run_headers (l # ls) r = (case RxHeaderData l r of Inl f \<Rightarrow> Inl f | Inr r1 \<Rightarrow> run_headers ls r1)"

fun run_pieces :: "(dl_request \<Rightarrow> 's \<Rightarrow> u8 list \<Rightarrow> bool \<times> 's) \<Rightarrow> u8 list list \<Rightarrow> dl_request \<Rightarrow> 's \<Rightarrow> bool \<times> dl_request \<times> 's" where
  "run_pieces save [] r s = (True, r, s)"
| "run_pieces save (p # ps) r s =
     (case RxBodyData save p r s of (ok, r1, s1) \<Rightarrow> if ok then run_pieces save ps r1 s1 else (False, r1, s1))"

definition request_range :: "int \<Rightarrow> int \<Rightarrow> byte_range" where
  "request_range startPos len =
     (if startPos < 0 then Same_As_Before
      else if len > 0 then Range (nat startPos) (nat (startPos + len - 1)) else Range_From (nat startPos))"

text \<open>\<open>connected\<close> is whether the client has a handle.\<close>

definition RequestData ::
  "(byte_range \<Rightarrow> transfer) \<Rightarrow> (dl_request \<Rightarrow> 's \<Rightarrow> u8 list \<Rightarrow> bool \<times> 's) \<Rightarrow> bool \<Rightarrow> int \<Rightarrow> int \<Rightarrow> dl_request \<Rightarrow> 's \<Rightarrow>
    (fault, status \<times> int \<times> client_error \<times> dl_request \<times> 's) sum" where
  "RequestData server save connected startPos len r s =
     (if \<not> connected then Inr (ERROR_NULL_POINTER, 0, CE_OK, r, s)
      else let tr = server (request_range startPos len)
           in case run_headers (tr_headers tr) r of
                Inl f \<Rightarrow> Inl f
              | Inr r1 \<Rightarrow>
                  (case run_pieces save (tr_pieces tr) r1 s of (ok, r2, s1) \<Rightarrow>
                     let code = (if ok then tr_code tr else CURLE_WRITE_ERROR)
                     in if code \<noteq> CURLE_OK then
                          Inr (ERROR_CLIENT, 0,
                            if code = CURLE_WRITE_ERROR then CE_NOT_RETRY
                            else if code = CURLE_COULDNT_CONNECT \<or> code = CURLE_OPERATION_TIMEDOUT then CE_TIME_OUT else CE_UNKNOWN, r2, s1)
                        else if tr_http tr \<ge> 400 then Inr (ERROR_SERVER, tr_http tr, CE_OK, r2, s1)
                        else Inr (OK, 0, CE_OK, r2, s1)))"

section \<open>The downloader\<close>

definition PER_REQUEST_SIZE :: int where "PER_REQUEST_SIZE = 48 * 1024 * 10"
definition REQUEST_QUEUE_SIZE :: nat where "REQUEST_QUEUE_SIZE = 50"

datatype dl_call = Task_Start | Task_Pause | Task_PauseAsync | Task_Stop | Task_StopAsync | Status_Partial

record downloader =
  dl_que :: "dl_request bqueue"
  dl_current :: "dl_request option"
  dl_shouldStartNext :: bool
  dl_connected :: bool
  dl_log :: "dl_call list"

definition new_downloader :: downloader where
  "new_downloader = \<lparr>dl_que = new_bqueue REQUEST_QUEUE_SIZE, dl_current = None, dl_shouldStartNext = True, dl_connected = False, dl_log = []\<rparr>"

definition dl_call :: "dl_call \<Rightarrow> downloader \<Rightarrow> downloader" where
  "dl_call c d = d\<lparr>dl_log := dl_log d @ [c]\<rparr>"

definition dl_SetActive :: "bool \<Rightarrow> bool \<Rightarrow> downloader \<Rightarrow> downloader" where
  "dl_SetActive active clean d = d\<lparr>dl_que := bl_SetActive active clean (dl_que d)\<rparr>"

text \<open>A push without a limit may block; its entering half is here.\<close>

definition dl_Download :: "dl_request \<Rightarrow> downloader \<Rightarrow> bool call \<times> downloader" where
  "dl_Download r d =
     (let d1 = dl_SetActive True True d
      in case bl_Push r (dl_que d1) of
           (Blocks, q) \<Rightarrow> (Blocks, d1\<lparr>dl_que := q\<rparr>)
         | (Returns _, q) \<Rightarrow> (Returns True, d1\<lparr>dl_que := q\<rparr>))"

definition dl_Download_timed :: "(dl_request bqueue \<Rightarrow> dl_request bqueue) \<Rightarrow> dl_request \<Rightarrow> downloader \<Rightarrow> bool \<times> downloader" where
  "dl_Download_timed env r d =
     (let d1 = dl_SetActive True True d in case bl_Push_timed env r (dl_que d1) of (ok, q) \<Rightarrow> (ok, d1\<lparr>dl_que := q\<rparr>))"

definition dl_Start :: "downloader \<Rightarrow> downloader" where
  "dl_Start d = dl_call Task_Start (dl_SetActive True True d)"

definition dl_Pause :: "downloader \<Rightarrow> downloader" where
  "dl_Pause d = dl_call Task_Pause (dl_SetActive False False d)"

definition close_current :: "downloader \<Rightarrow> downloader" where
  "close_current d =
     (case dl_current d of
        None \<Rightarrow> d
      | Some r \<Rightarrow> d\<lparr>dl_current := Some (rq_Close r), dl_connected := False, dl_shouldStartNext := True\<rparr>)"

definition dl_Cancle :: "downloader \<Rightarrow> downloader" where
  "dl_Cancle d = dl_call Task_Pause (close_current (dl_SetActive False True d))"

definition dl_Resume :: "downloader \<Rightarrow> downloader" where
  "dl_Resume d =
     (let d1 = dl_SetActive True True d
      in dl_Start (d1\<lparr>dl_current := map_option (\<lambda>r. r\<lparr>rq_isEos := False\<rparr>) (dl_current d1)\<rparr>))"

definition dl_Stop :: "bool \<Rightarrow> downloader \<Rightarrow> downloader" where
  "dl_Stop isAsync d = dl_call (if isAsync then Task_StopAsync else Task_Stop) (close_current (dl_SetActive False True d))"

text \<open>A seek waits for the length of the file, with the lock of the loop held.\<close>

definition dl_Seek :: "int \<Rightarrow> downloader \<Rightarrow> (bool \<times> downloader) option" where
  "dl_Seek offset d =
     (case dl_current d of
        None \<Rightarrow> Some (False, d)
      | Some r \<Rightarrow>
          (case GetFileContentLength (rq_header r) of
             None \<Rightarrow> None
           | Some contentLength \<Rightarrow>
               let r1 = (if offset \<ge> 0 \<and> offset < int contentLength then r\<lparr>rq_startPos := nat offset\<rparr> else r);
                   temp = int contentLength - int (rq_startPos r1)
               in Some (True, d\<lparr>dl_current := Some (r1\<lparr>rq_requestSize := min temp PER_REQUEST_SIZE, rq_isEos := False\<rparr>),
                      dl_shouldStartNext := False\<rparr>)))"

definition dl_Retry :: "dl_request \<Rightarrow> downloader \<Rightarrow> bool \<times> downloader" where
  "dl_Retry request d =
     (if dl_shouldStartNext d then (False, d)
      else let d1 = dl_call Task_Pause (dl_SetActive False False d);
               d2 = (case dl_current d1 of
                       None \<Rightarrow> d1\<lparr>dl_connected := False\<rparr>
                     | Some r \<Rightarrow>
                         let r1 = (if IsSame r request then r\<lparr>rq_retryTimes := rq_retryTimes r + 1\<rparr> else r)
                         in (dl_SetActive True True d1)\<lparr>dl_connected := True, dl_current := Some (r1\<lparr>rq_isEos := False\<rparr>)\<rparr>)
           in (True, dl_call Task_Start d2))"

text \<open>An empty url is not opened, but the request stays the current one.\<close>

definition BeginDownload :: "dl_request \<Rightarrow> downloader \<Rightarrow> downloader" where
  "BeginDownload r d =
     (if rq_url r = [] then d\<lparr>dl_current := Some r\<rparr>
      else d\<lparr>dl_connected := True, dl_current := Some (r\<lparr>rq_requestSize := 1, rq_startPos := 0, rq_isEos := False, rq_retryTimes := 0\<rparr>)\<rparr>)"

definition HandleRetOK :: "dl_request \<Rightarrow> downloader \<Rightarrow> downloader" where
  "HandleRetOK r0 d =
     (let r = r0\<lparr>rq_retryTimes := 0\<rparr>;
          len = hi_fileContentLen (rq_header r);
          remaining = int len - int (rq_startPos r);
          finish = (\<lambda>q. (if bl_Empty (dl_que d) then dl_call Task_PauseAsync d else d)\<lparr>dl_current := Some q, dl_shouldStartNext := True\<rparr>)
      in if len > 0 \<and> remaining \<le> 0 then finish (r\<lparr>rq_isEos := True\<rparr>)
         else if len = 0 \<and> remaining \<le> 0 then finish (rq_Close (r\<lparr>rq_isEos := True\<rparr>))
         else d\<lparr>dl_current := Some (r\<lparr>rq_requestSize := (if remaining < PER_REQUEST_SIZE then remaining else PER_REQUEST_SIZE)\<rparr>)\<rparr>)"

text \<open>One turn of the loop; \<open>env\<close> is what the others do while it waits for a request.\<close>

definition HttpDownloadLoop ::
  "(dl_request bqueue \<Rightarrow> dl_request bqueue) \<Rightarrow> (byte_range \<Rightarrow> transfer) \<Rightarrow> (dl_request \<Rightarrow> 's \<Rightarrow> u8 list \<Rightarrow> bool \<times> 's) \<Rightarrow> downloader \<Rightarrow> 's \<Rightarrow>
    (fault, downloader \<times> 's) sum" where
  "HttpDownloadLoop env server save d s =
     (let (ready, d1) =
        (if dl_shouldStartNext d then
           (case bl_Pop_timed env (dl_que d) of
              (None, q) \<Rightarrow> (False, d\<lparr>dl_que := q\<rparr>)
            | (Some r, q) \<Rightarrow> (True, (BeginDownload r (d\<lparr>dl_que := q\<rparr>))\<lparr>dl_shouldStartNext := False\<rparr>))
         else (True, d))
      in if \<not> ready then Inr (d1, s)
         else case dl_current d1 of
                None \<Rightarrow> Inr (d1, s)
              | Some r \<Rightarrow>
                  (case RequestData server save (dl_connected d1) (if rq_wholeFile r then - 1 else int (rq_startPos r)) (rq_requestSize r) r s of
                     Inl f \<Rightarrow> Inl f
                   | Inr (ret, serverCode, clientCode, r1, s1) \<Rightarrow>
                       let r2 = r1\<lparr>rq_clientError := clientCode, rq_serverError := serverCode\<rparr>
                       in if ret = OK then Inr (HandleRetOK r2 (d1\<lparr>dl_current := Some r2\<rparr>), s1)
                          else Inr (dl_call Task_PauseAsync (dl_call Status_Partial (d1\<lparr>dl_current := Some r2\<rparr>)), s1)))"

section \<open>What is saved\<close>

text \<open>A place for the pieces that may refuse some, and the servers that answer with the bytes of a file.\<close>

definition collect :: "(u8 list \<Rightarrow> u8 list \<Rightarrow> bool) \<Rightarrow> dl_request \<Rightarrow> u8 list \<Rightarrow> u8 list \<Rightarrow> bool \<times> u8 list" where
  "collect takes r s piece = (if takes s piece then (True, s @ piece) else (False, s))"

fun range_start :: "byte_range \<Rightarrow> nat" where
  "range_start Same_As_Before = 0"
| "range_start (Range a b) = a"
| "range_start (Range_From a) = a"

definition faithful :: "u8 list \<Rightarrow> (byte_range \<Rightarrow> transfer) \<Rightarrow> bool" where
  "faithful file server \<longleftrightarrow> (\<forall>r. \<exists>n. concat (tr_pieces (server r)) = take n (drop (range_start r) file))"

text \<open>Header lines change nothing but the header.\<close>

lemma RxHeaderData_frame:
  "RxHeaderData l r = Inr r1 \<Longrightarrow> rq_startPos r1 = rq_startPos r \<and> rq_isEos r1 = rq_isEos r \<and> rq_wholeFile r1 = rq_wholeFile r"
  by (auto simp: RxHeaderData_def Let_def split: option.splits if_splits sum.splits)

lemma run_headers_frame:
  "run_headers ls r = Inr r1 \<Longrightarrow> rq_startPos r1 = rq_startPos r \<and> rq_isEos r1 = rq_isEos r \<and> rq_wholeFile r1 = rq_wholeFile r"
  by (induction ls arbitrary: r) (auto dest!: RxHeaderData_frame split: sum.splits)

text \<open>A request that is being fetched, with what is held of the file up to where it stands.\<close>

definition stands :: "(u8 list \<Rightarrow> nat \<Rightarrow> 's \<Rightarrow> bool) \<Rightarrow> u8 list \<Rightarrow> dl_request \<Rightarrow> 's \<Rightarrow> bool" where
  "stands holds file r s \<longleftrightarrow> holds file (rq_startPos r) s \<and> rq_startPos r \<le> length file \<and> \<not> rq_wholeFile r"

definition download_ok :: "(u8 list \<Rightarrow> nat \<Rightarrow> 's \<Rightarrow> bool) \<Rightarrow> u8 list \<Rightarrow> downloader \<Rightarrow> 's \<Rightarrow> bool" where
  "download_ok holds file d s \<longleftrightarrow>
     (case dl_current d of
        None \<Rightarrow> holds file 0 s \<and> dl_shouldStartNext d \<and> (\<exists>url. bl_que (dl_que d) = [new_request url False])
      | Some r \<Rightarrow> stands holds file r s \<and> bl_que (dl_que d) = [] \<and>
          (rq_isEos r \<longrightarrow> dl_shouldStartNext d \<and> hi_fileContentLen (rq_header r) \<le> rq_startPos r))"

lemma bl_SetActive_que: "bl_que (bl_SetActive a False q) = bl_que q" "bl_que (bl_SetActive True c q) = bl_que q"
  by (simp_all add: bl_SetActive_def Let_def)

lemma HandleRetOK_ok:
  assumes "stands holds file r s" "\<not> rq_isEos r" "bl_que (dl_que d) = []"
  shows "download_ok holds file (HandleRetOK r d) s"
  using assms by (auto simp: HandleRetOK_def download_ok_def stands_def rq_Close_def dl_call_def Let_def)

lemma BeginDownload_ok:
  assumes "holds file 0 s"
  shows "\<exists>r. dl_current (BeginDownload (new_request url False) d) = Some r \<and> stands holds file r s \<and> \<not> rq_isEos r"
  using assms by (simp add: BeginDownload_def new_request_def stands_def)

text \<open>
  The interface between a downloader and the place its data goes to: the place holds a part of the file
  up to a position, and a piece that continues the file is either taken as a whole or not at all.
\<close>

locale body_sink =
  fixes save :: "dl_request \<Rightarrow> 's \<Rightarrow> u8 list \<Rightarrow> bool \<times> 's"
    and holds :: "u8 list \<Rightarrow> nat \<Rightarrow> 's \<Rightarrow> bool"
  assumes saves: "holds media p s \<Longrightarrow> take (length piece) (drop p media) = piece \<Longrightarrow> p + length piece \<le> length media \<Longrightarrow>
    save r s piece = (ok, s1) \<Longrightarrow> holds media (if ok then p + length piece else p) s1"
begin

lemma RxBodyData_holds:
  assumes "RxBodyData save piece r s = (ok, r1, s1)" "holds media (rq_startPos r) s"
    and "take (length piece) (drop (rq_startPos r) media) = piece" "rq_startPos r + length piece \<le> length media"
  shows "holds media (rq_startPos r1) s1 \<and> rq_startPos r1 = (if ok then rq_startPos r + length piece else rq_startPos r) \<and>
    rq_isEos r1 = rq_isEos r \<and> rq_wholeFile r1 = rq_wholeFile r"
proof -
  note * = saves [OF assms(2-4)]
  show ?thesis using assms(1,2) by (auto simp: RxBodyData_def Let_def split: if_splits prod.splits dest!: *)
qed

lemma run_pieces_holds:
  assumes "run_pieces save ps r s = (ok, r1, s1)" "holds media (rq_startPos r) s"
    and "take (length (concat ps)) (drop (rq_startPos r) media) = concat ps" "rq_startPos r + length (concat ps) \<le> length media"
  shows "holds media (rq_startPos r1) s1 \<and> rq_startPos r1 \<le> length media \<and> rq_isEos r1 = rq_isEos r \<and> rq_wholeFile r1 = rq_wholeFile r"
  using assms
proof (induction ps arbitrary: r s)
  case Nil
  then show ?case by auto
next
  case (Cons p ps)
  obtain k q t where one: "RxBodyData save p r s = (k, q, t)" by (metis prod_cases3)
  have "take (length p) (take (length (concat (p # ps))) (drop (rq_startPos r) media)) = p"
    unfolding Cons.prems(3) by simp
  then have piece: "take (length p) (drop (rq_startPos r) media) = p" by (simp add: min_def)
  have rest: "take (length (concat ps)) (drop (rq_startPos r + length p) media) = concat ps"
    using Cons.prems(3) piece by (simp add: take_add add.commute)
  have "rq_startPos r + length p \<le> length media" using Cons.prems(4) by simp
  note q = RxBodyData_holds [OF one Cons.prems(2) piece this]
  show ?case
  proof (cases k)
    case True
    then have "run_pieces save ps q t = (ok, r1, s1)" using Cons.prems(1) one by simp
    from Cons.IH [OF this conjunct1 [OF q]] show ?thesis using q True rest Cons.prems(4) by simp
  next
    case False
    then have "r1 = q" "s1 = t" using Cons.prems(1) one by simp_all
    then show ?thesis using q False Cons.prems(4) by auto
  qed
qed

lemma RequestData_stands:
  assumes "RequestData server save c (int (rq_startPos r)) len r s = Inr (ret, sc, cc, r1, s1)"
    and "faithful media server" "stands holds media r s"
  shows "stands holds media r1 s1 \<and> rq_isEos r1 = rq_isEos r"
proof (cases c)
  case False
  then show ?thesis using assms(1,3) by (simp add: RequestData_def)
next
  case True
  let ?tr = "server (request_range (int (rq_startPos r)) len)"
  obtain q where q: "run_headers (tr_headers ?tr) r = Inr q"
    using assms(1) True by (auto simp: RequestData_def Let_def split: sum.splits)
  note fq = run_headers_frame [OF q]
  obtain ok where ok: "run_pieces save (tr_pieces ?tr) q s = (ok, r1, s1)"
    using assms(1) True q by (auto simp: RequestData_def Let_def split: prod.splits if_splits)
  have "range_start (request_range (int (rq_startPos r)) len) = rq_startPos r" by (simp add: request_range_def)
  then obtain m where m: "concat (tr_pieces ?tr) = take m (drop (rq_startPos r) media)" using assms(2) unfolding faithful_def by metis
  have "take (length (concat (tr_pieces ?tr))) (drop (rq_startPos q) media) = concat (tr_pieces ?tr)"
    "rq_startPos q + length (concat (tr_pieces ?tr)) \<le> length media"
    using fq assms(3) unfolding m by (auto simp: stands_def min_def)
  from run_pieces_holds [OF ok _ this] show ?thesis using fq assms(3) by (simp add: stands_def)
qed

lemma turn_ok:
  assumes "faithful media server" "dl_current d = Some r" "stands holds media r s" "\<not> rq_isEos r" "bl_que (dl_que d) = []" "\<not> dl_shouldStartNext d"
    and "HttpDownloadLoop env server save d s = Inr (d1, s1)"
  shows "download_ok holds media d1 s1"
proof -
  have whole: "\<not> rq_wholeFile r" using assms(3) by (simp add: stands_def)
  obtain ret sc cc r1 where req:
    "RequestData server save (dl_connected d) (int (rq_startPos r)) (rq_requestSize r) r s = Inr (ret, sc, cc, r1, s1)"
    "d1 = (let r2 = r1\<lparr>rq_clientError := cc, rq_serverError := sc\<rparr>
           in if ret = OK then HandleRetOK r2 (d\<lparr>dl_current := Some r2\<rparr>)
              else dl_call Task_PauseAsync (dl_call Status_Partial (d\<lparr>dl_current := Some r2\<rparr>)))"
    using assms(2,6,7) whole by (auto simp: HttpDownloadLoop_def Let_def split: sum.splits if_splits)
  from RequestData_stands [OF req(1) assms(1,3)] have r1: "stands holds media r1 s1" "rq_isEos r1 = rq_isEos r" by simp_all
  let ?r2 = "r1\<lparr>rq_clientError := cc, rq_serverError := sc\<rparr>"
  have r2: "stands holds media ?r2 s1" "\<not> rq_isEos ?r2" using r1 assms(4) by (simp_all add: stands_def)
  show ?thesis
  proof (cases "ret = OK")
    case True
    then show ?thesis using HandleRetOK_ok [OF r2] req(2) assms(5) by (simp add: Let_def)
  next
    case False
    then show ?thesis using r2 req(2) assms(5) by (simp add: Let_def download_ok_def dl_call_def)
  qed
qed

lemma loop_ok:
  assumes "download_ok holds media d s" "faithful media server" "HttpDownloadLoop (\<lambda>q. q) server save d s = Inr (d1, s1)"
  shows "download_ok holds media d1 s1"
proof (cases "dl_shouldStartNext d")
  case False
  then show ?thesis
    using assms turn_ok [OF assms(2) _ _ _ _ False assms(3)] by (auto simp: download_ok_def split: option.splits)
next
  case next_one: True
  obtain p q where pop: "bl_Pop_timed (\<lambda>q. q) (dl_que d) = (p, q)" by fastforce
  show ?thesis
  proof (cases p)
    case None
    then have "bl_que q = bl_que (dl_que d)" using pop by (auto simp: bl_Pop_timed_def Let_def split: if_splits list.splits)
    moreover have "d1 = d\<lparr>dl_que := q\<rparr>" "s1 = s" using assms(3) next_one pop None by (simp_all add: HttpDownloadLoop_def)
    ultimately show ?thesis using assms(1) by (simp add: download_ok_def split: option.splits)
  next
    case (Some r)
    then have que: "bl_que (dl_que d) = r # bl_que q" using pop by (auto simp: bl_Pop_timed_def Let_def split: if_splits list.splits)
    then obtain url where "dl_current d = None" "r = new_request url False" "bl_que q = []" "holds media 0 s"
      using assms(1) by (auto simp: download_ok_def split: option.splits)
    let ?d = "(BeginDownload r (d\<lparr>dl_que := q\<rparr>))\<lparr>dl_shouldStartNext := False\<rparr>"
    obtain r1 where "dl_current ?d = Some r1" "stands holds media r1 s" "\<not> rq_isEos r1" "bl_que (dl_que ?d) = []"
      using BeginDownload_ok [of holds media s url "d\<lparr>dl_que := q\<rparr>"] \<open>r = _\<close> \<open>bl_que q = []\<close> \<open>holds media 0 s\<close>
      by (auto simp: BeginDownload_def)
    moreover have "HttpDownloadLoop (\<lambda>q. q) server save ?d s = Inr (d1, s1)"
      using assms(3) next_one pop Some by (simp add: HttpDownloadLoop_def)
    ultimately show ?thesis using turn_ok [OF assms(2), of ?d r1 s] by simp
  qed
qed

end

interpretation col: body_sink "collect takes" "\<lambda>media p s. s = take p media" for takes
proof unfold_locales
  fix media :: "u8 list" and p s piece r ok s1
  assume "s = take p media" "take (length piece) (drop p media) = piece" "collect takes r s piece = (ok, s1)"
  then show "s1 = take (if ok then p + length piece else p) media"
    by (auto simp: collect_def take_add split: if_splits)
qed

text \<open>
  A download of one request and everything its users and the network may do to it: every turn of the
  loop has a server and a place to save of its own. A stopped download closes its request.
\<close>

inductive download_run :: "u8 list \<Rightarrow> downloader \<Rightarrow> u8 list \<Rightarrow> bool" for media where
  run_Begin: "dl_shouldStartNext d \<Longrightarrow> dl_current d = None \<Longrightarrow> bl_que (dl_que d) = [new_request url False] \<Longrightarrow> download_run media d []"
| run_Loop: "download_run media d s \<Longrightarrow> faithful media server \<Longrightarrow> HttpDownloadLoop (\<lambda>q. q) server (collect takes) d s = Inr (d1, s1) \<Longrightarrow>
    download_run media d1 s1"
| run_Pause: "download_run media d s \<Longrightarrow> download_run media (dl_Pause d) s"
| run_Resume: "download_run media d s \<Longrightarrow> download_run media (dl_Resume d) s"
| run_Retry: "download_run media d s \<Longrightarrow> dl_Retry request d = (ok, d1) \<Longrightarrow> download_run media d1 s"

lemma Pause_ok: "download_ok holds file d s \<Longrightarrow> download_ok holds file (dl_Pause d) s"
  by (auto simp: download_ok_def dl_Pause_def dl_SetActive_def dl_call_def bl_SetActive_que split: option.splits)

lemma Resume_ok: "download_ok holds file d s \<Longrightarrow> download_ok holds file (dl_Resume d) s"
  by (auto simp: download_ok_def dl_Resume_def dl_Start_def dl_SetActive_def dl_call_def bl_SetActive_que stands_def Let_def split: option.splits)

lemma Retry_ok: "download_ok holds file d s \<Longrightarrow> dl_Retry request d = (ok, d1) \<Longrightarrow> download_ok holds file d1 s"
  by (auto simp: download_ok_def dl_Retry_def dl_SetActive_def dl_call_def bl_SetActive_que stands_def Let_def split: option.splits if_splits)

lemma download_run_ok: "download_run file d s \<Longrightarrow> download_ok (\<lambda>media p s. s = take p media) file d s"
proof (induction rule: download_run.induct)
  case (run_Begin d url)
  then show ?case by (auto simp: download_ok_def)
qed (blast intro: col.loop_ok Pause_ok Resume_ok Retry_ok)+


text \<open>A server that breaks off: it sends one byte at a time and then fails.\<close>

definition broken_server :: "u8 list \<Rightarrow> byte_range \<Rightarrow> transfer" where
  "broken_server file r = \<lparr>tr_headers = [''Content-Range: bytes 0-0/3''], tr_pieces = [take 1 (drop (range_start r) file)],
     tr_code = CURLE_OPERATION_TIMEDOUT, tr_http = 206\<rparr>"

lemma broken_faithful: "faithful file (broken_server file)"
  by (auto simp: faithful_def broken_server_def)

definition ex_begin :: downloader where
  "ex_begin = snd (dl_Download (new_request ''u'' False) new_downloader)"


section \<open>Downloads that end\<close>

fun dl_turns :: "(byte_range \<Rightarrow> transfer) \<Rightarrow> nat \<Rightarrow> downloader \<Rightarrow> u8 list \<Rightarrow> (fault, downloader \<times> u8 list) sum" where
  "dl_turns server 0 d s = Inr (d, s)"
| "dl_turns server (Suc n) d s =
     (case HttpDownloadLoop (\<lambda>q. q) server (collect (\<lambda>_ _. True)) d s of Inl f \<Rightarrow> Inl f | Inr (d1, s1) \<Rightarrow> dl_turns server n d1 s1)"

text \<open>A server that gives every range of the file, and its length.\<close>

definition honest :: "u8 list \<Rightarrow> (byte_range \<Rightarrow> transfer) \<Rightarrow> bool" where
  "honest file server \<longleftrightarrow> (\<forall>a b. a \<le> b \<longrightarrow> b < length file \<longrightarrow>
     (let tr = server (Range a b)
      in tr_code tr = CURLE_OK \<and> tr_http tr < 400 \<and> concat (tr_pieces tr) = take (b + 1 - a) (drop a file) \<and>
         (\<forall>r. hi_fileContentLen (rq_header r) = 0 \<or> hi_fileContentLen (rq_header r) = length file \<longrightarrow>
            (\<exists>h. run_headers (tr_headers tr) r = Inr (r\<lparr>rq_header := h, rq_isHeaderUpdated := True\<rparr>) \<and>
               hi_fileContentLen h = length file \<and> hi_isClosed h = hi_isClosed (rq_header r)))))"

lemma run_pieces_all:
  assumes "0 < hi_fileContentLen (rq_header r)" "\<not> hi_isClosed (rq_header r)"
  shows "\<exists>r1. run_pieces (collect (\<lambda>_ _. True)) ps r s = (True, r1, s @ concat ps) \<and>
    rq_startPos r1 = rq_startPos r + length (concat ps) \<and> rq_header r1 = rq_header r \<and> rq_wholeFile r1 = rq_wholeFile r"
  using assms
proof (induction ps arbitrary: r s)
  case (Cons p ps)
  let ?r = "r\<lparr>rq_isDownloading := False, rq_startPos := rq_startPos r + length p\<rparr>"
  have "RxBodyData (collect (\<lambda>_ _. True)) p r s = (True, ?r, s @ p)"
    using Cons.prems by (simp add: RxBodyData_def collect_def Let_def)
  moreover have "0 < hi_fileContentLen (rq_header ?r)" "\<not> hi_isClosed (rq_header ?r)" using Cons.prems by simp_all
  from Cons.IH [OF this, of "s @ p"] obtain r1 where "run_pieces (collect (\<lambda>_ _. True)) ps ?r (s @ p) = (True, r1, (s @ p) @ concat ps)"
    "rq_startPos r1 = rq_startPos ?r + length (concat ps)" "rq_header r1 = rq_header ?r" "rq_wholeFile r1 = rq_wholeFile ?r" by blast
  ultimately show ?case by simp
qed simp

definition ready_at :: "u8 list \<Rightarrow> nat \<Rightarrow> int \<Rightarrow> downloader \<Rightarrow> bool" where
  "ready_at file p k d \<longleftrightarrow> \<not> dl_shouldStartNext d \<and> dl_connected d \<and>
     (\<exists>r. dl_current d = Some r \<and> rq_startPos r = p \<and> rq_requestSize r = k \<and> \<not> rq_wholeFile r \<and> \<not> hi_isClosed (rq_header r) \<and>
       (hi_fileContentLen (rq_header r) = 0 \<or> hi_fileContentLen (rq_header r) = length file))"

definition finished :: "downloader \<Rightarrow> bool" where
  "finished d \<longleftrightarrow> dl_shouldStartNext d \<and> (\<exists>r. dl_current d = Some r \<and> rq_isEos r)"

lemma honest_turn:
  assumes "honest file server" "ready_at file p (int k) d" "0 < k" "p + k \<le> length file" "s = take p file"
  shows "\<exists>d1. HttpDownloadLoop (\<lambda>q. q) server (collect (\<lambda>_ _. True)) d s = Inr (d1, take (p + k) file) \<and>
    (if p + k = length file then finished d1 else ready_at file (p + k) (min (int (length file - (p + k))) PER_REQUEST_SIZE) d1)"
proof -
  obtain r where r: "dl_current d = Some r" "rq_startPos r = p" "rq_requestSize r = int k" "\<not> rq_wholeFile r" "\<not> hi_isClosed (rq_header r)"
    "hi_fileContentLen (rq_header r) = 0 \<or> hi_fileContentLen (rq_header r) = length file" and d: "\<not> dl_shouldStartNext d" "dl_connected d"
    using assms(2) by (auto simp: ready_at_def)
  let ?tr = "server (Range p (p + k - 1))"
  have b: "p \<le> p + k - 1" "p + k - 1 < length file" "p + k - 1 + 1 - p = k" using assms(3,4) by simp_all
  from assms(1) b(1,2) have tr: "tr_code ?tr = CURLE_OK" "tr_http ?tr < 400" "concat (tr_pieces ?tr) = take k (drop p file)"
    using b(3) by (auto simp: honest_def Let_def)
  have nonempty: "0 < length file" using assms(3,4) by linarith
  obtain h where h: "run_headers (tr_headers ?tr) r = Inr (r\<lparr>rq_header := h, rq_isHeaderUpdated := True\<rparr>)" "hi_fileContentLen h = length file"
    "\<not> hi_isClosed h"
    using assms(1) b(1,2) r(5,6) unfolding honest_def Let_def by metis
  let ?r = "r\<lparr>rq_header := h, rq_isHeaderUpdated := True\<rparr>"
  obtain r1 where r1: "run_pieces (collect (\<lambda>_ _. True)) (tr_pieces ?tr) ?r s = (True, r1, s @ take k (drop p file))"
    "rq_startPos r1 = p + k" "rq_header r1 = h" "rq_wholeFile r1 = rq_wholeFile r"
    using run_pieces_all [of ?r "tr_pieces ?tr" s] h(2,3) nonempty r(2) tr(3) assms(4) by auto
  have saved: "s @ take k (drop p file) = take (p + k) file" using assms(5) by (simp add: take_add)
  have range: "request_range (int p) (int k) = Range p (p + k - 1)" using assms(3) by (simp add: request_range_def nat_diff_distrib' nat_add_distrib)
  have "RequestData server (collect (\<lambda>_ _. True)) True (int p) (int k) r s = Inr (OK, 0, CE_OK, r1, take (p + k) file)"
    using range h(1) r1(1) tr(1,2) saved by (simp add: RequestData_def Let_def)
  then have run: "HttpDownloadLoop (\<lambda>q. q) server (collect (\<lambda>_ _. True)) d s =
      Inr (HandleRetOK (r1\<lparr>rq_clientError := CE_OK, rq_serverError := 0\<rparr>) (d\<lparr>dl_current := Some (r1\<lparr>rq_clientError := CE_OK, rq_serverError := 0\<rparr>)\<rparr>),
        take (p + k) file)"
    using r(1-4) d by (simp add: HttpDownloadLoop_def Let_def)
  show ?thesis
  proof (cases "p + k = length file")
    case True
    then show ?thesis using run r1(2,3) h(2) nonempty by (simp add: HandleRetOK_def finished_def Let_def dl_call_def)
  next
    case False
    then have "int (length file) - int (p + k) > 0" "int (length file - (p + k)) = int (length file) - int (p + k)" using assms(4) by simp_all
    then show ?thesis
      using run r1 h(2,3) False nonempty d r(4) by (simp add: HandleRetOK_def ready_at_def Let_def min_def)
  qed
qed

definition turns_for :: "nat \<Rightarrow> nat" where
  "turns_for n = (n + nat PER_REQUEST_SIZE - 1) div nat PER_REQUEST_SIZE"

lemma honest_rest:
  assumes "honest file server" "ready_at file p (min (int (length file - p)) PER_REQUEST_SIZE) d" "p < length file" "s = take p file"
  shows "\<exists>d1. dl_turns server (turns_for (length file - p)) d s = Inr (d1, file) \<and> finished d1"
  using assms
proof (induction "length file - p" arbitrary: p d s rule: less_induct)
  case less
  let ?m = "nat PER_REQUEST_SIZE" and ?n = "length file - p"
  have m: "?m = 491520" "PER_REQUEST_SIZE = 491520" by (simp_all add: PER_REQUEST_SIZE_def)
  let ?k = "min ?n ?m"
  have k: "0 < ?k" "p + ?k \<le> length file" "min (int ?n) PER_REQUEST_SIZE = int ?k" using less.prems(3) m by simp_all
  from honest_turn [OF less.prems(1) less.prems(2) [unfolded k(3)] k(1,2) less.prems(4)] obtain d1 where
    d1: "HttpDownloadLoop (\<lambda>q. q) server (collect (\<lambda>_ _. True)) d s = Inr (d1, take (p + ?k) file)"
      "if p + ?k = length file then finished d1 else ready_at file (p + ?k) (min (int (length file - (p + ?k))) PER_REQUEST_SIZE) d1" by blast
  show ?case
  proof (cases "?n \<le> ?m")
    case True
    then have k': "?k = ?n" "turns_for ?n = Suc 0" using less.prems(3) m by (simp_all add: turns_for_def div_nat_eqI)
    then show ?thesis using d1 less.prems(3) by simp
  next
    case False
    then have k': "?k = ?m" "turns_for ?n = Suc (turns_for (length file - (p + ?m)))" "p + ?m < length file" "length file - (p + ?m) < ?n"
      using m by (simp_all add: turns_for_def le_div_geq)
    have "\<exists>d2. dl_turns server (turns_for (length file - (p + ?m))) d1 (take (p + ?m) file) = Inr (d2, file) \<and> finished d2"
      using less.hyps [OF k'(4) less.prems(1) _ k'(3) refl] d1(2) k' by simp
    then show ?thesis using d1(1) k' by auto
  qed
qed

text \<open>
  C21. A download ends: with a server that gives what it is asked for, a request that is new is at its
  end after one turn for the first byte and one for every 480 kilobytes of the rest, and what was saved
  is the file.
\<close>

theorem honest_download_completes:
  assumes "honest file server" "file \<noteq> []" "url \<noteq> []"
  shows "\<exists>d. dl_turns server (Suc (turns_for (length file - 1))) (snd (dl_Download (new_request url False) new_downloader)) [] = Inr (d, file) \<and>
    finished d"
proof -
  let ?d = "snd (dl_Download (new_request url False) new_downloader)"
  let ?r = "(new_request url False)\<lparr>rq_requestSize := 1, rq_startPos := 0, rq_isEos := False, rq_retryTimes := 0\<rparr>"
  let ?begun = "?d\<lparr>dl_que := (dl_que ?d)\<lparr>bl_que := []\<rparr>, dl_connected := True, dl_current := Some ?r, dl_shouldStartNext := False\<rparr>"
  have fresh: "bl_que (dl_que ?d) = [new_request url False]" "bl_active (dl_que ?d)" "bl_waitFull (dl_que ?d) = 0" "dl_shouldStartNext ?d"
    by (simp_all add: new_downloader_def dl_Download_def dl_SetActive_def bl_SetActive_def new_bqueue_def bl_Push_def push_done_def
        bl_Size_def REQUEST_QUEUE_SIZE_def notify_all_empty_def Let_def)
  have first: "HttpDownloadLoop (\<lambda>q. q) server (collect (\<lambda>_ _. True)) ?d [] = HttpDownloadLoop (\<lambda>q. q) server (collect (\<lambda>_ _. True)) ?begun []"
    using fresh assms(3) by (simp add: HttpDownloadLoop_def bl_Pop_timed_def bl_Empty_def BeginDownload_def notify_one_full_def new_request_def Let_def)
  have "ready_at file 0 (int 1) ?begun" by (simp add: ready_at_def new_request_def)
  moreover have "(0 :: nat) < 1" "0 + 1 \<le> length file" "[] = take 0 file" using assms(2) by (simp_all add: Suc_le_eq)
  ultimately obtain d1 where d1: "HttpDownloadLoop (\<lambda>q. q) server (collect (\<lambda>_ _. True)) ?d [] = Inr (d1, take 1 file)"
    "if 1 = length file then finished d1 else ready_at file 1 (min (int (length file - 1)) PER_REQUEST_SIZE) d1"
    using honest_turn [OF assms(1), of 0 1 ?begun "[]", unfolded add_0] first by auto
  show ?thesis
  proof (cases "length file = 1")
    case True
    then have "turns_for (length file - 1) = 0" "take 1 file = file" by (simp_all add: turns_for_def PER_REQUEST_SIZE_def)
    then show ?thesis using d1 True by simp
  next
    case False
    moreover have "1 < length file" using False assms(2) by (cases "file"; cases "tl file") simp_all
    ultimately show ?thesis using d1 honest_rest [OF assms(1), of 1 d1 "take 1 file"] by simp
  qed
qed

definition small_server :: "byte_range \<Rightarrow> transfer" where
  "small_server r = (case r of
     Range a b \<Rightarrow> \<lparr>tr_headers = [''Content-Range: bytes 0-0/3''], tr_pieces = [take (b + 1 - a) (drop a [7, 8, 9])], tr_code = CURLE_OK, tr_http = 206\<rparr>
   | _ \<Rightarrow> \<lparr>tr_headers = [], tr_pieces = [], tr_code = CURLE_OTHER, tr_http = 0\<rparr>)"

lemma range_header_3:
  assumes "hi_fileContentLen (rq_header r) = 0 \<or> hi_fileContentLen (rq_header r) = 3"
  shows "RxHeaderData ''Content-Range: bytes 0-0/3'' r = Inr (r\<lparr>rq_header := (rq_header r)\<lparr>hi_fileContentLen := 3\<rparr>, rq_isHeaderUpdated := True\<rparr>)"
proof -
  have "strtok ''Content-Range: bytes 0-0/3'' = Some (''Content-Range'', '' bytes 0-0/3'')" "strtok '' bytes 0-0/3'' = Some ('' bytes 0-0/3'', [])"
    "scan_range (StringTrim '' bytes 0-0/3'') = Some 3" by code_simp+
  then show ?thesis using assms by (auto simp: RxHeaderData_def header_range_def starts_with_def)
qed

theorem honest_download_completes_witness:
  "\<exists>d. dl_turns small_server 2 (snd (dl_Download (new_request ''u'' False) new_downloader)) [] = Inr (d, [7, 8, 9]) \<and> finished d"
proof -
  have "honest [7, 8, 9] small_server"
    by (auto simp: honest_def small_server_def Let_def range_header_3)
  from honest_download_completes [OF this, of "''u''"] show ?thesis by (simp add: turns_for_def PER_REQUEST_SIZE_def numeral_2_eq_2)
qed

section \<open>Responses that go wrong\<close>

text \<open>A body without a length is refused at its first piece.\<close>

lemma run_pieces_no_length:
  "hi_fileContentLen (rq_header r) = 0 \<Longrightarrow> hi_contentLen (rq_header r) \<le> 0 \<Longrightarrow>
    run_pieces save ps r s = (\<forall>p \<in> set ps. p = [], r, s)"
  by (induction ps) (auto simp: RxBodyData_def Let_def)

text \<open>
  A stream that is sent in chunks, without a length, is never downloaded: its body is refused, the
  transfer is ended as one that is not to be tried again, the task pauses, and the request is neither
  at its end nor closed, which is what its reader waits for.
\<close>

theorem chunked_never_downloaded:
  assumes "dl_current d = Some r" "\<not> dl_shouldStartNext d" "dl_connected d" "\<not> rq_wholeFile r" "\<not> rq_isEos r" "\<not> hi_isClosed (rq_header r)"
    and "hi_fileContentLen (rq_header r) = 0" "hi_contentLen (rq_header r) \<le> 0"
    and "\<forall>rg. tr_headers (server rg) = [''Transfer-Encoding: chunked''] \<and> concat (tr_pieces (server rg)) \<noteq> []"
  shows "\<exists>d1 r1. HttpDownloadLoop env server save d s = Inr (d1, s) \<and> dl_current d1 = Some r1 \<and> dl_log d1 = dl_log d @ [Status_Partial, Task_PauseAsync] \<and>
    rq_clientError r1 = CE_NOT_RETRY \<and> rq_serverError r1 = 0 \<and> \<not> rq_isEos r1 \<and> \<not> hi_isClosed (rq_header r1) \<and> hi_isChunked (rq_header r1)"
proof -
  let ?rg = "request_range (int (rq_startPos r)) (rq_requestSize r)"
  let ?r = "r\<lparr>rq_header := (rq_header r)\<lparr>hi_isChunked := True\<rparr>, rq_isHeaderUpdated := True\<rparr>"
  have "strtok ''Transfer-Encoding: chunked'' = Some (''Transfer-Encoding'', '' chunked'')" "strtok '' chunked'' = Some ('' chunked'', [])"
    "starts_with (StringTrim '' chunked'') ''chunked''" by code_simp+
  then have h: "RxHeaderData ''Transfer-Encoding: chunked'' r = Inr ?r" by (simp add: RxHeaderData_def header_encoding_def starts_with_def)
  have p: "run_pieces save (tr_pieces (server ?rg)) ?r s = (False, ?r, s)"
    using run_pieces_no_length [of ?r save "tr_pieces (server ?rg)" s] assms(7-9) by auto
  have "RequestData server save True (int (rq_startPos r)) (rq_requestSize r) r s = Inr (ERROR_CLIENT, 0, CE_NOT_RETRY, ?r, s)"
    using assms(9) h p by (simp add: RequestData_def Let_def)
  then show ?thesis using assms(1-6) by (simp add: HttpDownloadLoop_def Let_def dl_call_def)
qed

theorem chunked_never_downloaded_witness:
  "\<exists>d1 r1. HttpDownloadLoop (\<lambda>q. q) (\<lambda>rg. \<lparr>tr_headers = [''Transfer-Encoding: chunked''], tr_pieces = [[1]], tr_code = CURLE_OK, tr_http = 200\<rparr>)
      (collect (\<lambda>_ _. True)) (new_downloader\<lparr>dl_current := Some (new_request ''u'' False), dl_shouldStartNext := False, dl_connected := True\<rparr>) [] =
      Inr (d1, []) \<and> dl_current d1 = Some r1 \<and> rq_clientError r1 = CE_NOT_RETRY \<and> \<not> rq_isEos r1"
  using chunked_never_downloaded [of "new_downloader\<lparr>dl_current := Some (new_request ''u'' False), dl_shouldStartNext := False, dl_connected := True\<rparr>"
      "new_request ''u'' False" "\<lambda>rg. \<lparr>tr_headers = [''Transfer-Encoding: chunked''], tr_pieces = [[1]], tr_code = CURLE_OK, tr_http = 200\<rparr>"
      "\<lambda>q. q" "collect (\<lambda>_ _. True)" "[]"]
  by (auto simp: new_request_def)

text \<open>A range whose total is not known, which the protocol allows, is read into a variable without a value.\<close>

lemma unknown_total_uninitialised: "RxHeaderData ''Content-Range: bytes 0-0/*'' r = Inl Uninitialised"
proof -
  have "strtok ''Content-Range: bytes 0-0/*'' = Some (''Content-Range'', '' bytes 0-0/*'')" "strtok '' bytes 0-0/*'' = Some ('' bytes 0-0/*'', [])"
    "scan_range (StringTrim '' bytes 0-0/*'') = None" by code_simp+
  then show ?thesis by (simp add: RxHeaderData_def header_range_def starts_with_def)
qed

text \<open>A seek before the length is known does not return, and no turn of the loop can tell it.\<close>

lemma early_seek_hangs:
  "dl_current d = Some r \<Longrightarrow> hi_fileContentLen (rq_header r) = 0 \<Longrightarrow> \<not> hi_isChunked (rq_header r) \<Longrightarrow> \<not> hi_isClosed (rq_header r) \<Longrightarrow>
    dl_Seek offset d = None"
  by (simp add: dl_Seek_def GetFileContentLength_def)

lemma seek_beyond_end_stays:
  "dl_current d = Some r \<Longrightarrow> 0 < hi_fileContentLen (rq_header r) \<Longrightarrow> int (hi_fileContentLen (rq_header r)) \<le> offset \<Longrightarrow>
    \<exists>d1 r1. dl_Seek offset d = Some (True, d1) \<and> dl_current d1 = Some r1 \<and> rq_startPos r1 = rq_startPos r"
  by (simp add: dl_Seek_def GetFileContentLength_def Let_def)

end
