(* ===== verification/Http_Media.thy ===== *)
theory Http_Media
  imports Downloader Ring_Buffer
begin

text \<open>
  The media of an HTTP source: \<open>HttpMediaDownloader\<close>
  (engine/plugin/plugins/source/http_source/http/http_media_downloader.cpp), which keeps what the
  downloader fetches in a ring buffer for a reader.

  The downloader is opened once; its request, which it shares with the media, is the one the downloader
  has taken or, before that, the new one. What the other thread does while an operation waits is a list
  of steps: those of the reader on the ring while the download waits for room, and those of the download
  while the reader waits for data. \<open>None\<close> is an operation that still waits after them.
\<close>

section \<open>The state\<close>

definition RING_BUFFER_SIZE :: nat where "RING_BUFFER_SIZE = 5 * 1024 * 1024"
definition WATER_LINE :: nat where "WATER_LINE = 8192"

datatype water_event = ABOVE_LOW_WATERLINE nat | BELOW_LOW_WATERLINE nat

text \<open>What the thread of the download shares with the reader. An event carries the size its ratio is of.\<close>

record http_out =
  ho_buffer :: ring
  ho_hasCallback :: bool
  ho_aboveWaterline :: bool
  ho_startedPlay :: bool
  ho_events :: "water_event list"

record http_media =
  hm_out :: http_out
  hm_downloader :: downloader
  hm_url :: string
  hm_hasStatusCallback :: bool

definition new_http_media :: http_media where
  "new_http_media = \<lparr>hm_out = \<lparr>ho_buffer = rb_Init RING_BUFFER_SIZE, ho_hasCallback = False, ho_aboveWaterline = False, ho_startedPlay = False,
       ho_events = []\<rparr>, hm_downloader = new_downloader, hm_url = [], hm_hasStatusCallback = False\<rparr>"

definition hm_request :: "http_media \<Rightarrow> dl_request" where
  "hm_request m = (case dl_current (hm_downloader m) of Some r \<Rightarrow> r | None \<Rightarrow> new_request (hm_url m) False)"

abbreviation hm_buffer :: "http_media \<Rightarrow> ring" where
  "hm_buffer m \<equiv> ho_buffer (hm_out m)"

definition with_buffer :: "(ring \<Rightarrow> ring) \<Rightarrow> http_media \<Rightarrow> http_media" where
  "with_buffer f m = m\<lparr>hm_out := (hm_out m)\<lparr>ho_buffer := f (hm_buffer m)\<rparr>\<rparr>"

definition with_downloader :: "(downloader \<Rightarrow> downloader) \<Rightarrow> http_media \<Rightarrow> http_media" where
  "with_downloader f m = m\<lparr>hm_downloader := f (hm_downloader m)\<rparr>"

section \<open>Saving\<close>

definition send_water :: "water_event \<Rightarrow> http_out \<Rightarrow> http_out" where
  "send_water e out = (if ho_hasCallback out then out\<lparr>ho_events := ho_events out @ [e]\<rparr> else out)"

text \<open>The water line; \<open>None\<close> when it waits for the length of the file.\<close>

definition water :: "header_info \<Rightarrow> http_out \<Rightarrow> http_out option" where
  "water h out =
     (let bufferSize = rb_GetSize (ho_buffer out);
          enough = (if bufferSize \<ge> WATER_LINE then Some True
                    else map_option (\<lambda>len. bufferSize \<ge> len div 2) (GetFileContentLength h))
      in case enough of
           None \<Rightarrow> None
         | Some high \<Rightarrow> Some
             (if high \<and> \<not> ho_aboveWaterline out then
                (send_water (ABOVE_LOW_WATERLINE bufferSize) (out\<lparr>ho_aboveWaterline := True\<rparr>))\<lparr>ho_startedPlay := True\<rparr>
              else if bufferSize < WATER_LINE \<and> ho_aboveWaterline out then
                send_water (BELOW_LOW_WATERLINE bufferSize) (out\<lparr>ho_aboveWaterline := False\<rparr>)
              else out))"

text \<open>\<open>envs\<close> says what is done to the ring while the piece at a position waits for room.\<close>

fun hm_SaveData :: "(dl_request \<Rightarrow> (ring \<Rightarrow> ring) list) \<Rightarrow> dl_request \<Rightarrow> http_out option \<Rightarrow> u8 list \<Rightarrow> bool \<times> http_out option" where
  "hm_SaveData envs r None piece = (False, None)"
| "hm_SaveData envs r (Some out) piece =
     (case rb_WriteBuffer (envs r) piece (ho_buffer out) of
        (None, b) \<Rightarrow> (False, None)
      | (Some False, b) \<Rightarrow> (False, Some (out\<lparr>ho_buffer := b\<rparr>))
      | (Some True, b) \<Rightarrow>
          (case water (rq_header r) (out\<lparr>ho_buffer := b\<rparr>) of None \<Rightarrow> (False, None) | Some out1 \<Rightarrow> (True, Some out1)))"

text \<open>A turn of the downloader over the ring; \<open>Inr None\<close> when it still waits.\<close>

definition hm_turn ::
  "(dl_request \<Rightarrow> (ring \<Rightarrow> ring) list) \<Rightarrow> (byte_range \<Rightarrow> transfer) \<Rightarrow> http_media \<Rightarrow> (fault, http_media option) sum" where
  "hm_turn envs server m =
     (case HttpDownloadLoop (\<lambda>q. q) server (hm_SaveData envs) (hm_downloader m) (Some (hm_out m)) of
        Inl f \<Rightarrow> Inl f
      | Inr (d, out) \<Rightarrow> Inr (map_option (\<lambda>o1. m\<lparr>hm_out := o1, hm_downloader := d\<rparr>) out))"

section \<open>Operations\<close>

definition hm_SetStatusCallback :: "http_media \<Rightarrow> http_media" where
  "hm_SetStatusCallback m = m\<lparr>hm_hasStatusCallback := True\<rparr>"

definition hm_SetCallback :: "http_media \<Rightarrow> http_media" where
  "hm_SetCallback m = m\<lparr>hm_out := (hm_out m)\<lparr>ho_hasCallback := True\<rparr>\<rparr>"

definition hm_Open :: "string \<Rightarrow> http_media \<Rightarrow> bool \<times> http_media" where
  "hm_Open url m =
     (if \<not> hm_hasStatusCallback m then (False, m)
      else let m1 = with_downloader (\<lambda>d. snd (dl_Download (new_request url False) d)) (m\<lparr>hm_url := url\<rparr>)
           in (True, with_downloader dl_Start (with_buffer (rb_SetMediaOffset 0) m1)))"

definition hm_Close :: "bool \<Rightarrow> http_media \<Rightarrow> http_media" where
  "hm_Close isAsync m = with_downloader (dl_Stop isAsync) (with_buffer (rb_SetActive False True) m)"

definition hm_seekable :: "http_media \<Rightarrow> bool" where
  "hm_seekable m \<longleftrightarrow> \<not> hi_isChunked (rq_header (hm_request m))"

definition hm_Pause :: "http_media \<Rightarrow> http_media" where
  "hm_Pause m = with_downloader dl_Pause (with_buffer (rb_SetActive False (\<not> hm_seekable m)) m)"

definition hm_Resume :: "http_media \<Rightarrow> http_media" where
  "hm_Resume m = with_downloader dl_Resume (with_buffer (rb_SetActive True True) m)"

definition hm_GetContentLength :: "http_media \<Rightarrow> nat option" where
  "hm_GetContentLength m = GetFileContentLength (rq_header (hm_request m))"

definition hm_GetStartedStatus :: "http_media \<Rightarrow> bool" where
  "hm_GetStartedStatus m = ho_startedPlay (hm_out m)"

text \<open>The two waits of a read. The first ends with the end of the stream (\<open>Inl\<close>) or with data.\<close>

fun wait_any :: "(http_media \<Rightarrow> http_media) list \<Rightarrow> http_media \<Rightarrow> (bool \<times> http_media, http_media) sum option" where
  "wait_any envs m =
     (if rb_GetSize (hm_buffer m) \<noteq> 0 then Some (Inr m)
      else if rq_isEos (hm_request m) \<or> hi_isClosed (rq_header (hm_request m)) then Some (Inl (rq_isEos (hm_request m), m))
      else case envs of [] \<Rightarrow> None | e # es \<Rightarrow> wait_any es (e m))"

fun wait_enough :: "nat \<Rightarrow> (http_media \<Rightarrow> http_media) list \<Rightarrow> http_media \<Rightarrow> http_media option" where
  "wait_enough want envs m =
     (if rb_GetSize (hm_buffer m) \<ge> want \<or> rq_isEos (hm_request m) \<or> hi_isClosed (rq_header (hm_request m)) then Some m
      else case envs of [] \<Rightarrow> None | e # es \<Rightarrow> wait_enough want es (e m))"

declare wait_any.simps [simp del] wait_enough.simps [simp del]

text \<open>
  \<open>Read\<close>: whether there was data, what was read, whether the stream is at its end. The sum of offset and
  length wraps as the \<open>uint64_t\<close> it is.
\<close>

definition hm_Read ::
  "(http_media \<Rightarrow> http_media) list \<Rightarrow> (http_media \<Rightarrow> http_media) list \<Rightarrow> (ring \<Rightarrow> ring) \<Rightarrow> nat \<Rightarrow> http_media \<Rightarrow>
    ((bool \<times> u8 list \<times> bool) \<times> http_media) option" where
  "hm_Read envs1 envs2 env want m =
     (case wait_any envs1 m of
        None \<Rightarrow> None
      | Some (Inl (eos, m1)) \<Rightarrow> Some ((False, [], eos), m1)
      | Some (Inr m1) \<Rightarrow>
          (case hm_GetContentLength m1 of
             None \<Rightarrow> None
           | Some len \<Rightarrow>
               (case (if (rb_GetMediaOffset (hm_buffer m1) + want) mod 2 ^ 64 \<le> len \<and> rb_GetSize (hm_buffer m1) < want
                      then wait_enough want envs2 m1 else Some m1) of
                  None \<Rightarrow> None
                | Some m2 \<Rightarrow>
                    (case rb_ReadBuffer env want 2 (hm_buffer m2) of (bytes, b) \<Rightarrow>
                       Some ((True, bytes, False), with_buffer (\<lambda>_. b) m2)))))"

text \<open>A seek, inside the ring or by asking the server again.\<close>

definition hm_SeekToPos :: "int \<Rightarrow> http_media \<Rightarrow> (bool \<times> http_media) option" where
  "hm_SeekToPos offset m =
     (let pos = nat (offset mod 2 ^ 64)
      in case rb_Seek pos (hm_buffer m) of
           (True, b) \<Rightarrow> Some (True, with_buffer (\<lambda>_. b) m)
         | (False, b) \<Rightarrow>
             let m1 = with_buffer (rb_SetActive True True) (with_buffer rb_Clear (with_downloader dl_Pause (with_buffer (rb_SetActive False True) m)))
             in case dl_Seek offset (hm_downloader m1) of
                  None \<Rightarrow> None
                | Some (result, d) \<Rightarrow>
                    let m2 = m1\<lparr>hm_downloader := d\<rparr>;
                        m3 = (if result then with_buffer (rb_SetMediaOffset pos) m2 else m2)
                    in Some (result, with_downloader dl_Resume m3))"

section \<open>The ring is a window of the file\<close>

definition window :: "u8 list \<Rightarrow> nat \<Rightarrow> ring \<Rightarrow> bool" where
  "window file p r \<longleftrightarrow> rb_ok r \<and> rb_offset r + rb_GetSize r = p \<and> rb_contents r = drop (rb_offset r) (take p file)"

definition out_window :: "u8 list \<Rightarrow> nat \<Rightarrow> http_out option \<Rightarrow> bool" where
  "out_window file p out \<longleftrightarrow> (case out of None \<Rightarrow> True | Some o1 \<Rightarrow> window file p (ho_buffer o1))"

text \<open>What a reader does to the ring.\<close>

definition reads :: "nat \<Rightarrow> ring \<Rightarrow> ring" where
  "reads n r = snd (rb_ReadBuffer (\<lambda>x. x) n 0 r)"

lemma ReadBuffer_window:
  assumes "window file p r" "rb_active r"
  shows "window file p (snd (rb_get n r)) \<and> fst (rb_get n r) = take n (drop (rb_offset r) (take p file)) \<and>
    rb_offset (snd (rb_get n r)) = rb_offset r + length (fst (rb_get n r))"
proof -
  have live: "rb_live r" using assms by (simp add: rb_live_def window_def)
  note get = rb_get_eq [OF live, of n]
  have off: "rb_offset (snd (rb_get n r)) = rb_offset r + min n (rb_GetSize r)"
    using assms(2) by (simp add: rb_get_def rb_ReadBuffer_def rb_GetSize_def min_def Let_def)
  have len: "length (fst (rb_get n r)) = min n (rb_GetSize r)" using get by (simp add: min.commute)
  have size: "rb_GetSize (snd (rb_get n r)) = rb_GetSize r - n"
    using get length_rb_contents [of "snd (rb_get n r)"] by simp
  have con: "rb_contents (snd (rb_get n r)) = drop (rb_offset r + n) (take p file)"
    using get assms(1) by (simp add: window_def add.commute)
  have drop_min: "drop (rb_offset r + min n (rb_GetSize r)) (take p file) = drop (rb_offset r + n) (take p file)"
    using assms(1) by (auto simp: window_def min_def)
  have "rb_offset (snd (rb_get n r)) = rb_offset r + length (fst (rb_get n r))" using off len by simp
  moreover have "fst (rb_get n r) = take n (drop (rb_offset r) (take p file))" using get assms(1) by (simp add: window_def)
  moreover have "window file p (snd (rb_get n r))"
    using get off size con drop_min assms(1) by (auto simp: window_def rb_live_def)
  ultimately show ?thesis by blast
qed

lemma reads_window: "window file p r \<Longrightarrow> window file p (reads n r)"
proof (cases "rb_active r")
  case True
  assume "window file p r"
  then show ?thesis using ReadBuffer_window [OF _ True] by (auto simp: reads_def rb_get_def)
qed (simp add: reads_def rb_ReadBuffer_def)

lemma write_now_window:
  assumes "window file p r" "\<not> rb_full_for (length xs) r" "take (length xs) (drop p file) = xs" "p + length xs \<le> length file"
  shows "window file (p + length xs) (rb_write_now xs r)"
proof -
  have ok: "rb_ok r" using assms(1) by (simp add: window_def)
  have "rb_offset (rb_write_now xs r) = rb_offset r" by (simp add: rb_write_now_def)
  moreover have "rb_GetSize (rb_write_now xs r) = rb_GetSize r + length xs"
    using ok by (simp add: rb_GetSize_def rb_write_now_def rb_ok_def)
  moreover have "take (p + length xs) file = take p file @ xs" using assms(3) by (simp add: take_add)
  moreover have "rb_offset r - length (take p file) = 0" using assms(1,4) by (simp add: window_def)
  ultimately show ?thesis using rb_write_contents [OF ok assms(2)] assms(1) by (simp add: window_def)
qed

lemma WriteBuffer_window:
  assumes "rb_WriteBuffer (map reads ns) xs r = (res, b)" "window file p r"
    and "take (length xs) (drop p file) = xs" "p + length xs \<le> length file"
  shows "window file (if res = Some True then p + length xs else p) b"
  using assms(1,2)
proof (induction ns arbitrary: r)
  case Nil
  then show ?case using write_now_window [OF Nil.prems(2) _ assms(3,4)] by (auto split: if_splits)
next
  case (Cons n ns)
  show ?case
  proof (cases "rb_active r \<and> rb_full_for (length xs) r")
    case True
    then have "rb_WriteBuffer (map reads ns) xs (reads n r) = (res, b)" using Cons.prems(1) by simp
    from Cons.IH [OF this reads_window [OF Cons.prems(2)]] show ?thesis .
  next
    case False
    then show ?thesis using Cons.prems write_now_window [OF Cons.prems(2) _ assms(3,4)] by (auto split: if_splits)
  qed
qed

lemma water_buffer: "water h out = Some out1 \<Longrightarrow> ho_buffer out1 = ho_buffer out"
  by (auto simp: water_def send_water_def Let_def split: option.splits if_splits)

interpretation hms: body_sink "hm_SaveData (\<lambda>r. map reads (script r))" out_window for script
proof unfold_locales
  fix media :: "u8 list" and p s piece r ok s1
  assume w: "out_window media p s" and piece: "take (length piece) (drop p media) = piece" "p + length piece \<le> length media"
    and save: "hm_SaveData (\<lambda>r. map reads (script r)) r s piece = (ok, s1)"
  show "out_window media (if ok then p + length piece else p) s1"
  proof (cases s)
    case None
    then show ?thesis using save by (simp add: out_window_def)
  next
    case (Some out)
    obtain res b where wb: "rb_WriteBuffer (map reads (script r)) piece (ho_buffer out) = (res, b)" by fastforce
    have "window media p (ho_buffer out)" using w Some by (simp add: out_window_def)
    note WriteBuffer_window [OF wb this piece]
    then show ?thesis
      using save wb Some
      by (cases res) (auto simp: out_window_def dest: water_buffer split: bool.splits option.splits)
  qed
qed

section \<open>Runs\<close>

text \<open>
  The media of one url, and what its users, the thread of its download and the network do to it. A seek
  that the ring cannot answer goes to a place inside a file whose length is known.
\<close>

inductive http_run :: "u8 list \<Rightarrow> http_media \<Rightarrow> bool" for media where
  run_Open: "hm_Open url (hm_SetStatusCallback (if cb then hm_SetCallback new_http_media else new_http_media)) = (True, m) \<Longrightarrow> http_run media m"
| run_Turn: "http_run media m \<Longrightarrow> faithful media server \<Longrightarrow> hm_turn (\<lambda>r. map reads (script r)) server m = Inr (Some m1) \<Longrightarrow> http_run media m1"
| run_Reads: "http_run media m \<Longrightarrow> http_run media (with_buffer (reads n) m)"
| run_Seek: "http_run media m \<Longrightarrow> fst (rb_Seek pos (hm_buffer m)) = False \<Longrightarrow> pos < hi_fileContentLen (rq_header (hm_request m)) \<Longrightarrow>
    hi_fileContentLen (rq_header (hm_request m)) \<le> length media \<Longrightarrow> pos < 2 ^ 63 \<Longrightarrow> hm_SeekToPos (int pos) m = Some (ok, m1) \<Longrightarrow> http_run media m1"
| run_Pause: "http_run media m \<Longrightarrow> hm_seekable m \<Longrightarrow> http_run media (hm_Pause m)"
| run_Resume: "http_run media m \<Longrightarrow> http_run media (hm_Resume m)"

definition http_ok :: "u8 list \<Rightarrow> http_media \<Rightarrow> bool" where
  "http_ok file m \<longleftrightarrow> download_ok out_window file (hm_downloader m) (Some (hm_out m))"

lemma http_ok_window:
  "http_ok file m \<Longrightarrow> window file (rq_startPos (hm_request m)) (hm_buffer m) \<and> rq_startPos (hm_request m) \<le> length file"
  by (auto simp: http_ok_def download_ok_def stands_def out_window_def hm_request_def new_request_def split: option.splits)

text \<open>Changing the ring alone, or the downloader alone.\<close>

lemma with_buffer_ok:
  assumes "http_ok file m" "\<And>p. window file p (hm_buffer m) \<Longrightarrow> window file p (f (hm_buffer m))"
  shows "http_ok file (with_buffer f m)"
  using assms by (auto simp: http_ok_def download_ok_def stands_def out_window_def with_buffer_def split: option.splits)

lemma with_downloader_ok:
  assumes "http_ok file m" "\<And>s. download_ok out_window file (hm_downloader m) s \<Longrightarrow> download_ok out_window file (f (hm_downloader m)) s"
  shows "http_ok file (with_downloader f m)"
  using assms by (simp add: http_ok_def with_downloader_def)

lemma window_active: "window file p (r\<lparr>rb_active := a\<rparr>) = window file p r"
  by (simp add: window_def rb_ok_def rb_GetSize_def rb_contents_def)

lemma SetActive_window: "a \<or> \<not> c \<Longrightarrow> window file p (rb_SetActive a c r) = window file p r"
  by (auto simp: rb_SetActive_def Let_def window_active)

lemma Open_ok:
  assumes "hm_Open url (hm_SetStatusCallback (if cb then hm_SetCallback new_http_media else new_http_media)) = (True, m)"
  shows "http_ok file m"
  using assms
  by (auto simp: hm_Open_def hm_SetStatusCallback_def hm_SetCallback_def new_http_media_def with_downloader_def with_buffer_def http_ok_def
      download_ok_def out_window_def window_def rb_ok_def rb_Init_def rb_GetSize_def rb_contents_def rb_SetMediaOffset_def RING_BUFFER_SIZE_def
      dl_Start_def dl_Download_def dl_SetActive_def dl_call_def bl_SetActive_def new_downloader_def new_bqueue_def bl_Push_def push_done_def
      bl_Size_def REQUEST_QUEUE_SIZE_def notify_all_empty_def Let_def)

text \<open>A ring that was emptied, and put to where the request is moved to.\<close>

lemma empty_window: "rb_ok r \<Longrightarrow> rb_head r = 0 \<Longrightarrow> rb_tail r = 0 \<Longrightarrow> rb_offset r = p \<Longrightarrow> p \<le> length file \<Longrightarrow> window file p r"
  by (simp add: window_def rb_GetSize_def rb_contents_def)

lemma cleared: "rb_SetActive True True (rb_Clear (rb_SetActive False True r)) = r\<lparr>rb_active := True, rb_head := 0, rb_tail := 0\<rparr>"
  by (simp add: rb_SetActive_def rb_Clear_def Let_def)

text \<open>What a seek does that leaves the ring.\<close>

lemma far_seek:
  assumes "fst (rb_Seek pos (hm_buffer m)) = False" "pos < 2 ^ 64" "dl_current (hm_downloader m) = Some r" "hi_fileContentLen (rq_header r) \<noteq> 0"
  shows "hm_SeekToPos (int pos) m = Some (True,
    (let len = hi_fileContentLen (rq_header r);
         start = (if pos < len then pos else rq_startPos r);
         r1 = r\<lparr>rq_startPos := start, rq_requestSize := min (int len - int start) PER_REQUEST_SIZE, rq_isEos := False\<rparr>
     in m\<lparr>hm_out := (hm_out m)\<lparr>ho_buffer := (hm_buffer m)\<lparr>rb_active := True, rb_head := 0, rb_tail := 0, rb_offset := pos\<rparr>\<rparr>,
          hm_downloader := dl_Resume ((dl_Pause (hm_downloader m))\<lparr>dl_current := Some r1, dl_shouldStartNext := False\<rparr>)\<rparr>))"
proof -
  obtain b where seek: "rb_Seek pos (hm_buffer m) = (False, b)" using assms(1) by (metis prod.collapse)
  have cur: "dl_current (dl_Pause (hm_downloader m)) = Some r"
    using assms(3) by (simp add: dl_Pause_def dl_SetActive_def dl_call_def)
  have pos: "nat (int pos mod 2 ^ 64) = pos" using assms(2) by simp
  show ?thesis
    unfolding hm_SeekToPos_def Let_def pos seek
    using cur assms(4)
    by (simp add: with_buffer_def with_downloader_def cleared dl_Seek_def GetFileContentLength_def rb_SetMediaOffset_def Let_def)
qed

lemma far_seek_ok:
  assumes "http_ok file m" "fst (rb_Seek pos (hm_buffer m)) = False" "pos < hi_fileContentLen (rq_header (hm_request m))"
    "hi_fileContentLen (rq_header (hm_request m)) \<le> length file" "pos < 2 ^ 63" "hm_SeekToPos (int pos) m = Some (ok, m1)"
  shows "http_ok file m1"
proof -
  obtain r where r: "dl_current (hm_downloader m) = Some r" "hi_fileContentLen (rq_header r) \<noteq> 0" "hm_request m = r"
    using assms(3) by (auto simp: hm_request_def new_request_def split: option.splits)
  have ok: "rb_ok (hm_buffer m)" using http_ok_window [OF assms(1)] by (simp add: window_def)
  have d: "bl_que (dl_que (hm_downloader m)) = []" "\<not> rq_wholeFile r"
    using assms(1) r(1) by (simp_all add: http_ok_def download_ok_def stands_def)
  let ?r = "r\<lparr>rq_startPos := pos, rq_requestSize := min (int (hi_fileContentLen (rq_header r)) - int pos) PER_REQUEST_SIZE, rq_isEos := False\<rparr>"
  let ?b = "(hm_buffer m)\<lparr>rb_active := True, rb_head := 0, rb_tail := 0, rb_offset := pos\<rparr>"
  have m1: "m1 = m\<lparr>hm_out := (hm_out m)\<lparr>ho_buffer := ?b\<rparr>,
      hm_downloader := dl_Resume ((dl_Pause (hm_downloader m))\<lparr>dl_current := Some ?r, dl_shouldStartNext := False\<rparr>)\<rparr>"
    using far_seek [OF assms(2) _ r(1,2)] assms(3,5,6) r(3) by (simp add: Let_def)
  have "window file pos ?b"
    by (rule empty_window) (use ok assms(3,4) in \<open>auto simp: rb_ok_def\<close>)
  then have "download_ok out_window file ((dl_Pause (hm_downloader m))\<lparr>dl_current := Some ?r, dl_shouldStartNext := False\<rparr>)
      (Some ((hm_out m)\<lparr>ho_buffer := ?b\<rparr>))"
    using d assms(3,4) r(3)
    by (simp add: download_ok_def stands_def out_window_def dl_Pause_def dl_SetActive_def dl_call_def bl_SetActive_que)
  then show ?thesis using Resume_ok by (simp add: http_ok_def m1)
qed

lemma http_run_ok: "http_run file m \<Longrightarrow> http_ok file m"
proof (induction rule: http_run.induct)
  case (run_Open url cb m)
  then show ?case by (rule Open_ok)
next
  case (run_Turn m server script m1)
  then obtain d o1 where loop: "HttpDownloadLoop (\<lambda>q. q) server (hm_SaveData (\<lambda>r. map reads (script r))) (hm_downloader m) (Some (hm_out m)) = Inr (d, Some o1)"
    "m1 = m\<lparr>hm_out := o1, hm_downloader := d\<rparr>"
    by (auto simp: hm_turn_def split: sum.splits prod.splits)
  then show ?case using hms.loop_ok [OF _ run_Turn.hyps(2) loop(1)] run_Turn.IH by (simp add: http_ok_def)
next
  case (run_Reads m n)
  then show ?case by (auto intro: with_buffer_ok reads_window)
next
  case (run_Seek m pos ok m1)
  then show ?case using far_seek_ok by blast
next
  case (run_Pause m)
  then have "http_ok file (with_buffer (rb_SetActive False False) m)" by (intro with_buffer_ok) (simp_all add: SetActive_window)
  from with_downloader_ok [OF this Pause_ok] show ?case using run_Pause.hyps(2) by (simp add: hm_Pause_def)
next
  case (run_Resume m)
  then have "http_ok file (with_buffer (rb_SetActive True True) m)" by (intro with_buffer_ok) (simp_all add: SetActive_window)
  from with_downloader_ok [OF this Resume_ok] show ?case by (simp add: hm_Resume_def)
qed

section \<open>Reading\<close>

lemma wait_data_inv:
  "(\<And>e x. e \<in> set envs \<Longrightarrow> P x \<Longrightarrow> P (e x)) \<Longrightarrow> P m \<Longrightarrow> wait_any envs m = Some (Inr m1) \<Longrightarrow> P m1"
proof (induction envs arbitrary: m)
  case Nil
  then show ?case by (auto simp: wait_any.simps [of "[]"] split: if_splits)
next
  case (Cons e envs)
  show ?case
  proof (cases "m1 = m")
    case True
    then show ?thesis using Cons.prems(2) by simp
  next
    case False
    then have "wait_any envs (e m) = Some (Inr m1)"
      using Cons.prems(3) by (auto simp: wait_any.simps [of "e # envs"] split: if_splits)
    with Cons.IH [OF _ _ this] Cons.prems(1,2) show ?thesis by simp
  qed
qed

lemma wait_enough_inv:
  "(\<And>e x. e \<in> set envs \<Longrightarrow> P x \<Longrightarrow> P (e x)) \<Longrightarrow> P m \<Longrightarrow> wait_enough want envs m = Some m1 \<Longrightarrow> P m1"
proof (induction envs arbitrary: m)
  case Nil
  then show ?case by (auto simp: wait_enough.simps [of _ "[]"] split: if_splits)
next
  case (Cons e envs)
  show ?case
  proof (cases "m1 = m")
    case True
    then show ?thesis using Cons.prems by simp
  next
    case False
    then have "wait_enough want envs (e m) = Some m1"
      using Cons.prems(3) by (auto simp: wait_enough.simps [of _ "e # envs"] split: if_splits)
    with Cons.IH [OF _ _ this] Cons.prems(1,2) show ?thesis by simp
  qed
qed

lemma wait_id: "rb_active r \<Longrightarrow> rb_wait_data (\<lambda>b. b) n r = (True, r)"
  by (induction n) simp_all

lemma ReadBuffer_id: "rb_ReadBuffer (\<lambda>b. b) want n r = rb_ReadBuffer (\<lambda>b. b) want 0 r"
  by (simp add: rb_ReadBuffer_def wait_id)

lemma hm_Read_file:
  assumes "http_run file m"
    and others: "\<And>e x. e \<in> set (envs1 @ envs2) \<Longrightarrow> http_run file x \<Longrightarrow>
      http_run file (e x) \<and> rb_GetMediaOffset (hm_buffer (e x)) = rb_GetMediaOffset (hm_buffer x)"
    and read: "hm_Read envs1 envs2 (\<lambda>b. b) want m = Some ((True, bytes, eos), m1)"
  shows "http_run file m1 \<and> length bytes \<le> want \<and> bytes = take (length bytes) (drop (rb_GetMediaOffset (hm_buffer m)) file) \<and>
    rb_GetMediaOffset (hm_buffer m1) = rb_GetMediaOffset (hm_buffer m) + length bytes"
proof -
  let ?P = "\<lambda>x. http_run file x \<and> rb_GetMediaOffset (hm_buffer x) = rb_GetMediaOffset (hm_buffer m)"
  obtain x len y b where x: "wait_any envs1 m = Some (Inr x)"
    and y: "(if (rb_GetMediaOffset (hm_buffer x) + want) mod 2 ^ 64 \<le> len \<and> rb_GetSize (hm_buffer x) < want
       then wait_enough want envs2 x else Some x) = Some y"
    and b: "rb_ReadBuffer (\<lambda>b. b) want 2 (hm_buffer y) = (bytes, b)" "m1 = with_buffer (\<lambda>_. b) y"
    using read unfolding hm_Read_def by (auto split: option.splits sum.splits prod.splits)
  have "?P x" by (rule wait_data_inv [OF _ _ x]) (use assms(1) others in auto)
  moreover have "?P y" if "?P x"
  proof (cases "(rb_GetMediaOffset (hm_buffer x) + want) mod 2 ^ 64 \<le> len \<and> rb_GetSize (hm_buffer x) < want")
    case True
    then have "wait_enough want envs2 x = Some y" using y by simp
    then show ?thesis by (rule wait_enough_inv [rotated 2]) (use that others in auto)
  next
    case False
    then show ?thesis using y that by auto
  qed
  ultimately have py: "?P y" by simp
  let ?p = "rq_startPos (hm_request y)"
  have w: "window file ?p (hm_buffer y)" "?p \<le> length file" using http_ok_window [OF http_run_ok] py by blast+
  have b1: "b = reads want (hm_buffer y)" using b(1) by (simp add: reads_def ReadBuffer_id [of want 2])
  have "m1 = with_buffer (reads want) y" by (simp add: b(2) b1 with_buffer_def)
  then have run: "http_run file m1" using run_Reads py by simp
  show ?thesis
  proof (cases "rb_active (hm_buffer y)")
    case True
    have get: "rb_get want (hm_buffer y) = (bytes, b)" using b(1) by (simp add: rb_get_def ReadBuffer_id [of want 2])
    have "length bytes \<le> want" "bytes = take (length bytes) (drop (rb_offset (hm_buffer y)) file)" "rb_offset b = rb_offset (hm_buffer y) + length bytes"
      using ReadBuffer_window [OF w(1) True, of want] get by (auto simp: drop_take min_def)
    then show ?thesis using run py b(2) by (simp add: rb_GetMediaOffset_def with_buffer_def)
  next
    case False
    then show ?thesis using run py b by (auto simp: rb_ReadBuffer_def rb_GetMediaOffset_def with_buffer_def)
  qed
qed


text \<open>A read that need not wait.\<close>

lemma hm_Read_now:
  assumes "rb_ok (hm_buffer m)" "rb_active (hm_buffer m)" "0 < want" "want \<le> rb_GetSize (hm_buffer m)" "hm_GetContentLength m = Some len"
  shows "hm_Read envs1 envs2 (\<lambda>b. b) want m = Some ((True, take want (rb_contents (hm_buffer m)), False), with_buffer (reads want) m)"
proof -
  have "rb_live (hm_buffer m)" using assms(1,2) by (simp add: rb_live_def)
  from rb_get_eq [OF this, of want] have "rb_ReadBuffer (\<lambda>b. b) want 2 (hm_buffer m) = (take want (rb_contents (hm_buffer m)), reads want (hm_buffer m))"
    by (metis ReadBuffer_id prod.collapse rb_get_def reads_def)
  moreover have "rb_GetSize (hm_buffer m) \<noteq> 0" using assms(3,4) by simp
  ultimately show ?thesis using assms(4,5) by (simp add: hm_Read_def wait_any.simps with_buffer_def)
qed

definition ex_media :: http_media where
  "ex_media = snd (hm_Open ''u'' (hm_SetStatusCallback new_http_media))"

lemma ex_media_run: "http_run file ex_media"
  by (rule run_Open [of "''u''" False]) (simp add: ex_media_def hm_Open_def hm_SetStatusCallback_def)

lemma ex_media_turns:
  "\<exists>m1 m2 r q. hm_turn (\<lambda>r. map reads []) small_server ex_media = Inr (Some m1) \<and> dl_current (hm_downloader m1) = Some r \<and> rq_startPos r = 1 \<and>
    hi_fileContentLen (rq_header r) = 3 \<and> rb_GetSize (hm_buffer m1) = 1 \<and> rb_GetMediaOffset (hm_buffer m1) = 0 \<and> rb_active (hm_buffer m1) \<and>
    hm_turn (\<lambda>r. map reads []) small_server m1 = Inr (Some m2) \<and> dl_current (hm_downloader m2) = Some q \<and>
    hi_fileContentLen (rq_header q) = 3 \<and> rb_GetSize (hm_buffer m2) = 3 \<and> rb_GetMediaOffset (hm_buffer m2) = 0 \<and> rb_active (hm_buffer m2)"
  by (simp add: ex_media_def hm_Open_def hm_SetStatusCallback_def new_http_media_def with_downloader_def with_buffer_def rb_Init_def rb_GetSize_def
      rb_SetMediaOffset_def RING_BUFFER_SIZE_def dl_Start_def dl_Download_def dl_SetActive_def dl_call_def bl_SetActive_def new_downloader_def
      new_bqueue_def bl_Push_def push_done_def bl_Size_def REQUEST_QUEUE_SIZE_def notify_all_empty_def notify_one_full_def hm_turn_def
      HttpDownloadLoop_def bl_Pop_timed_def bl_Empty_def BeginDownload_def new_request_def RequestData_def request_range_def small_server_def
      range_header_3 RxBodyData_def rb_full_for_def rb_write_now_def water_def send_water_def WATER_LINE_def GetFileContentLength_def
      HandleRetOK_def PER_REQUEST_SIZE_def rb_GetMediaOffset_def Let_def)

lemma small_faithful: "faithful [7, 8, 9] small_server"
proof -
  have "\<exists>n. concat (tr_pieces (small_server r)) = take n (drop (range_start r) [7, 8, 9])" for r
  proof (cases r)
    case (Range a b)
    then show ?thesis by (auto simp: small_server_def)
  qed (auto simp: small_server_def intro: exI [of _ 0])
  then show ?thesis by (simp add: faithful_def)
qed


text \<open>
  A seek inside the ring moves its head but not the position of the media. Seeking twice to one place,
  which a reader does that looks at a place again, reads from twice as far.
\<close>

theorem http_seek_twice_reads_elsewhere:
  assumes "http_run file m" "rb_active (hm_buffer m)" "hm_GetContentLength m = Some len"
    and "0 < d" "2 * d < rb_GetSize (hm_buffer m)" "rb_GetMediaOffset (hm_buffer m) + d < 2 ^ 64"
  defines "pos \<equiv> rb_GetMediaOffset (hm_buffer m) + d"
  shows "\<exists>m1 m2 m3. hm_SeekToPos (int pos) m = Some (True, m1) \<and> hm_SeekToPos (int pos) m1 = Some (True, m2) \<and>
    hm_Read envs1 envs2 (\<lambda>b. b) 1 m2 = Some ((True, [file ! (pos + d)], False), m3)"
proof -
  obtain p where w: "window file p (hm_buffer m)" using http_ok_window [OF http_run_ok [OF assms(1)]] by blast
  have d: "rb_offset (hm_buffer m) < pos" "2 * (pos - rb_offset (hm_buffer m)) < rb_GetSize (hm_buffer m)" "pos - rb_offset (hm_buffer m) = d"
    using assms(4,5) by (simp_all add: pos_def rb_GetMediaOffset_def)
  have nat: "nat (int pos mod 2 ^ 64) = pos" using assms(6) by (simp add: pos_def)
  let ?s = "(hm_buffer m)\<lparr>rb_head := rb_head (hm_buffer m) + d\<rparr>"
  let ?t = "(hm_buffer m)\<lparr>rb_head := rb_head (hm_buffer m) + d + d\<rparr>"
  have seeks: "rb_Seek pos (hm_buffer m) = (True, ?s)" "rb_Seek pos ?s = (True, ?t)"
    using d by (auto simp: rb_Seek_def rb_GetSize_def)
  let ?m1 = "with_buffer (\<lambda>_. ?s) m"
  let ?m2 = "with_buffer (\<lambda>_. ?t) ?m1"
  have b: "hm_buffer ?m1 = ?s" "hm_buffer ?m2 = ?t" by (simp_all add: with_buffer_def)
  have one: "hm_SeekToPos (int pos) m = Some (True, ?m1)" unfolding hm_SeekToPos_def Let_def nat seeks(1) by simp
  have two: "hm_SeekToPos (int pos) ?m1 = Some (True, ?m2)" unfolding hm_SeekToPos_def Let_def nat b(1) seeks(2) by simp
  have len: "hm_GetContentLength ?m2 = Some len" using assms(3) by (simp add: hm_GetContentLength_def hm_request_def with_buffer_def split: option.splits)
  have t: "rb_ok ?t" "rb_active ?t" "1 \<le> rb_GetSize ?t" using w assms(2,5) by (auto simp: window_def rb_ok_def rb_GetSize_def)
  have "rb_contents ?t = drop (d + d) (rb_contents (hm_buffer m))" by (simp add: rb_contents_def drop_map add.assoc)
  then have "rb_contents ?t = drop (pos + d) (take p file)" using w by (simp add: window_def pos_def rb_GetMediaOffset_def ac_simps)
  moreover have "pos + d < p" using w assms(5) by (simp add: window_def pos_def rb_GetMediaOffset_def)
  moreover have "p \<le> length file"
  proof -
    have "rb_GetSize (hm_buffer m) = length (drop (rb_offset (hm_buffer m)) (take p file))"
      using w length_rb_contents [of "hm_buffer m"] by (simp add: window_def del: length_rb_contents)
    then show ?thesis using w assms(5) by (auto simp: window_def min_def split: if_splits)
  qed
  ultimately have "take 1 (rb_contents ?t) = [file ! (pos + d)]" by (simp add: take_Suc_conv_app_nth hd_drop_conv_nth take_Suc)
  then have "hm_Read envs1 envs2 (\<lambda>b. b) 1 ?m2 = Some ((True, [file ! (pos + d)], False), with_buffer (reads 1) ?m2)"
    using hm_Read_now [of ?m2 1 len envs1 envs2] t len b(2) by simp
  then show ?thesis using one two by blast
qed

theorem http_seek_twice_reads_elsewhere_witness:
  "\<exists>m m1 m2 m3. http_run [7, 8, 9] m \<and> hm_SeekToPos 1 m = Some (True, m1) \<and> hm_SeekToPos 1 m1 = Some (True, m2) \<and>
    hm_Read [] [] (\<lambda>b. b) 1 m2 = Some ((True, [9], False), m3)"
proof -
  obtain m0 m r where m: "hm_turn (\<lambda>r. map reads []) small_server ex_media = Inr (Some m0)" "hm_turn (\<lambda>r. map reads []) small_server m0 = Inr (Some m)"
    "dl_current (hm_downloader m) = Some r" "hi_fileContentLen (rq_header r) = 3" "rb_GetSize (hm_buffer m) = 3"
    "rb_GetMediaOffset (hm_buffer m) = 0" "rb_active (hm_buffer m)"
    using ex_media_turns by blast
  have run: "http_run [7, 8, 9] m"
    by (rule run_Turn [OF run_Turn [OF ex_media_run small_faithful m(1)] small_faithful m(2)])
  have "hm_GetContentLength m = Some 3" using m(3,4) by (simp add: hm_GetContentLength_def hm_request_def GetFileContentLength_def)
  from http_seek_twice_reads_elsewhere [OF run m(7) this, of 1 "[]" "[]"] m(5,6) run show ?thesis by auto
qed

text \<open>
  The source plugin lets a seek go to the end of the media. It answers that it is there and the media
  takes that position, but the request stays where it was: what is fetched next, and read as the end of
  the media, is from the old place.
\<close>

theorem http_seek_to_end_fetches_old:
  assumes "http_run file m" "dl_current (hm_downloader m) = Some r" "hi_fileContentLen (rq_header r) = length file"
    and "rq_startPos r < length file" "length file < 2 ^ 64"
  shows "\<exists>m1 q. hm_SeekToPos (int (length file)) m = Some (True, m1) \<and> rb_GetMediaOffset (hm_buffer m1) = length file \<and>
    rb_GetSize (hm_buffer m1) = 0 \<and> dl_current (hm_downloader m1) = Some q \<and> \<not> dl_shouldStartNext (hm_downloader m1) \<and>
    \<not> rq_isEos q \<and> rq_startPos q = rq_startPos r"
proof -
  have w: "window file (rq_startPos r) (hm_buffer m)" using http_ok_window [OF http_run_ok [OF assms(1)]] assms(2) by (simp add: hm_request_def)
  have "fst (rb_Seek (length file) (hm_buffer m)) = False" using w assms(4) by (auto simp: rb_Seek_def window_def)
  moreover have "hi_fileContentLen (rq_header r) \<noteq> 0" using assms(3,4) by linarith
  ultimately show ?thesis using far_seek [OF _ assms(5,2)] assms(3,4)
    by (auto simp: rb_GetMediaOffset_def rb_GetSize_def dl_Resume_def dl_Start_def dl_SetActive_def dl_call_def Let_def)
qed

theorem http_seek_to_end_fetches_old_witness:
  "\<exists>m m1 q. http_run [7, 8, 9] m \<and> hm_SeekToPos 3 m = Some (True, m1) \<and> rb_GetMediaOffset (hm_buffer m1) = 3 \<and>
    dl_current (hm_downloader m1) = Some q \<and> rq_startPos q = 1"
proof -
  obtain m r where m: "hm_turn (\<lambda>r. map reads []) small_server ex_media = Inr (Some m)" "dl_current (hm_downloader m) = Some r"
    "hi_fileContentLen (rq_header r) = 3" "rq_startPos r = 1"
    using ex_media_turns by blast
  have run: "http_run [7, 8, 9] m" by (rule run_Turn [OF ex_media_run small_faithful m(1)])
  from http_seek_to_end_fetches_old [OF run m(2)] m(3,4) run show ?thesis by auto
qed

text \<open>
  A read of more than the ring can hold waits for ever when the file has so much left: whatever the
  others do to the ring, it never holds so much.
\<close>

lemma oversize_read_waits:
  assumes "\<And>e x. e \<in> set envs \<Longrightarrow> P x \<Longrightarrow> P (e x)"
    and "\<And>x. P x \<Longrightarrow> rb_ok (hm_buffer x) \<and> rb_size (hm_buffer x) < want \<and> \<not> rq_isEos (hm_request x) \<and> \<not> hi_isClosed (rq_header (hm_request x))"
    and "P m"
  shows "wait_enough want envs m = None"
  using assms
proof (induction envs arbitrary: m)
  case Nil
  from Nil.prems(2) [OF Nil.prems(3)] show ?case by (auto simp: wait_enough.simps rb_ok_def rb_GetSize_def)
next
  case (Cons e envs)
  have "wait_enough want envs (e m) = None" by (rule Cons.IH) (use Cons.prems in auto)
  with Cons.prems(2) [OF Cons.prems(3)] show ?case by (auto simp: wait_enough.simps [of _ "e # envs"] rb_ok_def rb_GetSize_def)
qed

end
