(* ===== verification/Download_Monitor.thy ===== *)
theory Download_Monitor
  imports Http_Media Media_Source
begin

text \<open>
  The monitor of a download and the HTTP source plugin
  (engine/plugin/plugins/source/http_source/monitor/download_monitor.cpp and http_source_plugin.cpp).

  The class \<open>MediaDownloader\<close> is the record \<open>media_ops\<close> of its virtual methods; a request is known by a key,
  because a request of the monitor's list is the object the downloader goes on changing. The ways the
  others run while a read waits are part of the method.
\<close>

section \<open>The interface of the media\<close>

record ('m, 'k) media_ops =
  op_Open :: "string \<Rightarrow> 'm \<Rightarrow> bool \<times> 'm"
  op_Close :: "bool \<Rightarrow> 'm \<Rightarrow> 'm"
  op_Pause :: "'m \<Rightarrow> 'm"
  op_Resume :: "'m \<Rightarrow> 'm"
  op_Read :: "nat \<Rightarrow> 'm \<Rightarrow> ((bool \<times> u8 list \<times> bool) \<times> 'm) option"
  op_SeekToPos :: "int \<Rightarrow> 'm \<Rightarrow> (bool \<times> 'm) option"
  op_SeekToTime :: "int \<Rightarrow> 'm \<Rightarrow> bool \<times> 'm"
  op_GetContentLength :: "'m \<Rightarrow> nat option"
  op_GetDuration :: "'m \<Rightarrow> int"
  op_GetSeekable :: "'m \<Rightarrow> seekable"
  op_SelectBitRate :: "u32 \<Rightarrow> 'm \<Rightarrow> bool \<times> 'm"
  op_SetCallback :: "'m \<Rightarrow> 'm"
  op_SetStatusCallback :: "'m \<Rightarrow> 'm"
  op_request :: "'k \<Rightarrow> 'm \<Rightarrow> dl_request"
  op_Retry :: "'k \<Rightarrow> 'm \<Rightarrow> 'm"

text \<open>The media of one url; a seek to a time and the choice of a bit rate answer the base class's 0.\<close>

definition http_ops ::
  "(http_media \<Rightarrow> http_media) list \<Rightarrow> (http_media \<Rightarrow> http_media) list \<Rightarrow> (ring \<Rightarrow> ring) \<Rightarrow> (http_media, unit) media_ops" where
  "http_ops envs1 envs2 env =
     \<lparr>op_Open = hm_Open, op_Close = hm_Close, op_Pause = hm_Pause, op_Resume = hm_Resume, op_Read = hm_Read envs1 envs2 env,
      op_SeekToPos = hm_SeekToPos, op_SeekToTime = (\<lambda>_ m. (False, m)), op_GetContentLength = hm_GetContentLength,
      op_GetDuration = (\<lambda>_. 0), op_GetSeekable = (\<lambda>m. if hm_seekable m then SEEKABLE else UNSEEKABLE),
      op_SelectBitRate = (\<lambda>_ m. (False, m)), op_SetCallback = hm_SetCallback, op_SetStatusCallback = hm_SetStatusCallback,
      op_request = (\<lambda>_. hm_request), op_Retry = (\<lambda>_ m. with_downloader (\<lambda>d. snd (dl_Retry (hm_request m) d)) m)\<rparr>"

section \<open>The monitor\<close>

definition RETRY_TIMES_TO_REPORT_ERROR :: nat where "RETRY_TIMES_TO_REPORT_ERROR = 5"

datatype net_event = CLIENT_ERROR client_error | SERVER_ERROR int

datatype monitor_task = Monitor_Started | Monitor_Stopped

record ('m, 'k) monitor =
  mo_media :: 'm
  mo_retryTasks :: "'k list"
  mo_isPlaying :: bool
  mo_lastReadTime :: int
  mo_hasCallback :: bool
  mo_task :: monitor_task
  mo_events :: "net_event list"

definition new_monitor :: "('m, 'k) media_ops \<Rightarrow> 'm \<Rightarrow> ('m, 'k) monitor" where
  "new_monitor V m = \<lparr>mo_media = op_SetStatusCallback V m, mo_retryTasks = [], mo_isPlaying = False, mo_lastReadTime = 0, mo_hasCallback = False,
     mo_task = Monitor_Started, mo_events = []\<rparr>"

definition mo_Pause :: "('m, 'k) media_ops \<Rightarrow> ('m, 'k) monitor \<Rightarrow> ('m, 'k) monitor" where
  "mo_Pause V s = s\<lparr>mo_media := op_Pause V (mo_media s), mo_isPlaying := False, mo_lastReadTime := 0\<rparr>"

definition mo_Resume :: "('m, 'k) media_ops \<Rightarrow> ('m, 'k) monitor \<Rightarrow> ('m, 'k) monitor" where
  "mo_Resume V s = s\<lparr>mo_media := op_Resume V (mo_media s), mo_isPlaying := True\<rparr>"

definition HttpMonitorLoop :: "('m, 'k) media_ops \<Rightarrow> int \<Rightarrow> ('m, 'k) monitor \<Rightarrow> ('m, 'k) monitor" where
  "HttpMonitorLoop V now s =
     (let s1 = (if mo_isPlaying s \<and> mo_lastReadTime s \<noteq> 0 \<and> now - mo_lastReadTime s \<ge> 60 then mo_Pause V s else s)
      in case mo_retryTasks s1 of
           [] \<Rightarrow> s1
         | k # ks \<Rightarrow> s1\<lparr>mo_retryTasks := ks, mo_media := op_Retry V k (mo_media s1)\<rparr>)"

definition mo_Open :: "('m, 'k) media_ops \<Rightarrow> string \<Rightarrow> ('m, 'k) monitor \<Rightarrow> bool \<times> ('m, 'k) monitor" where
  "mo_Open V url s = (case op_Open V url (mo_media s) of (ok, m) \<Rightarrow> (ok, s\<lparr>mo_isPlaying := True, mo_retryTasks := [], mo_media := m\<rparr>))"

definition mo_Close :: "('m, 'k) media_ops \<Rightarrow> bool \<Rightarrow> ('m, 'k) monitor \<Rightarrow> ('m, 'k) monitor" where
  "mo_Close V isAsync s =
     s\<lparr>mo_retryTasks := [], mo_task := Monitor_Stopped, mo_media := op_Close V isAsync (mo_media s), mo_isPlaying := False\<rparr>"

text \<open>A read; \<open>now\<close> is the time after it.\<close>

definition mo_Read :: "('m, 'k) media_ops \<Rightarrow> int \<Rightarrow> nat \<Rightarrow> ('m, 'k) monitor \<Rightarrow> ((bool \<times> u8 list \<times> bool) \<times> ('m, 'k) monitor) option" where
  "mo_Read V now want s =
     (let s1 = (if \<not> mo_isPlaying s then mo_Resume V s else s)
      in map_option (\<lambda>(res, m). (res, s1\<lparr>mo_media := m, mo_lastReadTime := now\<rparr>)) (op_Read V want (mo_media s1)))"

definition mo_SeekToPos :: "('m, 'k) media_ops \<Rightarrow> int \<Rightarrow> ('m, 'k) monitor \<Rightarrow> (bool \<times> ('m, 'k) monitor) option" where
  "mo_SeekToPos V offset s =
     map_option (\<lambda>(ok, m). (ok, s\<lparr>mo_isPlaying := True, mo_retryTasks := [], mo_media := m\<rparr>)) (op_SeekToPos V offset (mo_media s))"

definition mo_SeekToTime :: "('m, 'k) media_ops \<Rightarrow> int \<Rightarrow> ('m, 'k) monitor \<Rightarrow> bool \<times> ('m, 'k) monitor" where
  "mo_SeekToTime V time s =
     (case op_SeekToTime V time (mo_media s) of (ok, m) \<Rightarrow> (ok, s\<lparr>mo_isPlaying := True, mo_retryTasks := [], mo_media := m\<rparr>))"

definition mo_SelectBitRate :: "('m, 'k) media_ops \<Rightarrow> u32 \<Rightarrow> ('m, 'k) monitor \<Rightarrow> bool \<times> ('m, 'k) monitor" where
  "mo_SelectBitRate V rate s = (case op_SelectBitRate V rate (mo_media s) of (ok, m) \<Rightarrow> (ok, s\<lparr>mo_media := m\<rparr>))"

definition mo_SetCallback :: "('m, 'k) media_ops \<Rightarrow> ('m, 'k) monitor \<Rightarrow> ('m, 'k) monitor" where
  "mo_SetCallback V s = s\<lparr>mo_hasCallback := True, mo_media := op_SetCallback V (mo_media s)\<rparr>"

definition NeedRetry :: "('m, 'k) media_ops \<Rightarrow> 'k \<Rightarrow> ('m, 'k) monitor \<Rightarrow> bool \<times> ('m, 'k) monitor" where
  "NeedRetry V k s =
     (let r = op_request V k (mo_media s);
          clientError = rq_clientError r;
          serverError = rq_serverError r
      in if clientError \<noteq> CE_OK \<and> clientError \<noteq> CE_NOT_RETRY \<or> serverError \<noteq> 0 then
           (if rq_retryTimes r > RETRY_TIMES_TO_REPORT_ERROR then
              (False, s\<lparr>mo_events := mo_events s @
                   (if clientError \<noteq> CE_OK \<and> mo_hasCallback s then [CLIENT_ERROR clientError] else []) @
                   (if serverError \<noteq> 0 \<and> mo_hasCallback s then [SERVER_ERROR serverError] else []),
                 mo_task := Monitor_Stopped, mo_media := op_Close V True (mo_media s)\<rparr>)
            else (True, s))
         else (False, s))"

definition OnDownloadStatus :: "('m, 'k) media_ops \<Rightarrow> 'k \<Rightarrow> ('m, 'k) monitor \<Rightarrow> ('m, 'k) monitor" where
  "OnDownloadStatus V k s =
     (case NeedRetry V k s of (need, s1) \<Rightarrow>
        if need \<and> \<not> list_ex (\<lambda>i. IsSame (op_request V i (mo_media s1)) (op_request V k (mo_media s1))) (mo_retryTasks s1)
        then s1\<lparr>mo_retryTasks := mo_retryTasks s1 @ [k]\<rparr> else s1)"

text \<open>A turn of the download under the monitor: the callback is called when the transfer has failed.\<close>

definition http_turn ::
  "(http_media, unit) media_ops \<Rightarrow> (dl_request \<Rightarrow> (ring \<Rightarrow> ring) list) \<Rightarrow> (byte_range \<Rightarrow> transfer) \<Rightarrow> (http_media, unit) monitor \<Rightarrow>
    (fault, (http_media, unit) monitor option) sum" where
  "http_turn V envs server s =
     (case hm_turn envs server (mo_media s) of
        Inl f \<Rightarrow> Inl f
      | Inr None \<Rightarrow> Inr None
      | Inr (Some m) \<Rightarrow>
          let s1 = s\<lparr>mo_media := m\<rparr>;
              before = length (dl_log (hm_downloader (mo_media s)))
          in Inr (Some (if Status_Partial \<in> set (drop before (dl_log (hm_downloader m))) then OnDownloadStatus V () s1 else s1)))"

section \<open>The source plugin\<close>

record ('m, 'k) http_source =
  hs_bufferSize :: u32
  hs_waterline :: u32
  hs_hasCallback :: bool
  hs_downloader :: "('m, 'k) monitor option"
  hs_delayReady :: bool

definition new_http_source :: "('m, 'k) http_source" where
  "new_http_source = \<lparr>hs_bufferSize = 200 * 1024, hs_waterline = 0, hs_hasCallback = False, hs_downloader = None, hs_delayReady = True\<rparr>"

text \<open>What was closed is let go; it is the first result.\<close>

definition CloseUri :: "('m, 'k) media_ops \<Rightarrow> ('m, 'k) http_source \<Rightarrow> ('m, 'k) monitor option \<times> ('m, 'k) http_source" where
  "CloseUri V p = (map_option (mo_Close V False) (hs_downloader p), p\<lparr>hs_downloader := None\<rparr>)"

definition hs_Prepare :: "('m, 'k) http_source \<Rightarrow> status" where
  "hs_Prepare p = (if hs_delayReady p then ERROR_DELAY_READY else OK)"

definition hs_Stop :: "('m, 'k) media_ops \<Rightarrow> ('m, 'k) http_source \<Rightarrow> status \<times> ('m, 'k) monitor option \<times> ('m, 'k) http_source" where
  "hs_Stop V p = (OK, CloseUri V p)"

datatype source_tag = BUFFERING_SIZE | WATERLINE_HIGH | OTHER_TAG

definition hs_GetParameter :: "source_tag \<Rightarrow> ('m, 'k) http_source \<Rightarrow> status \<times> u32 option" where
  "hs_GetParameter tag p =
     (case tag of BUFFERING_SIZE \<Rightarrow> (OK, Some (hs_bufferSize p)) | WATERLINE_HIGH \<Rightarrow> (OK, Some (hs_waterline p)) | OTHER_TAG \<Rightarrow> (ERROR_INVALID_PARAMETER, None))"

definition hs_SetParameter :: "source_tag \<Rightarrow> u32 \<Rightarrow> ('m, 'k) http_source \<Rightarrow> status \<times> ('m, 'k) http_source" where
  "hs_SetParameter tag v p =
     (case tag of BUFFERING_SIZE \<Rightarrow> (OK, p\<lparr>hs_bufferSize := v\<rparr>) | WATERLINE_HIGH \<Rightarrow> (OK, p\<lparr>hs_waterline := v\<rparr>) | OTHER_TAG \<Rightarrow> (ERROR_INVALID_PARAMETER, p))"

definition hs_SetCallback :: "('m, 'k) media_ops \<Rightarrow> ('m, 'k) http_source \<Rightarrow> status \<times> ('m, 'k) http_source" where
  "hs_SetCallback V p = (OK, p\<lparr>hs_hasCallback := True, hs_downloader := map_option (mo_SetCallback V) (hs_downloader p)\<rparr>)"

fun occurs :: "string \<Rightarrow> string \<Rightarrow> bool" where
  "occurs pat [] = (pat = [])"
| "occurs pat (c # cs) = (take (length pat) (c # cs) = pat \<or> occurs pat cs)"

text \<open>The kinds of media; \<open>hls\<close> and \<open>http\<close> are what their constructors make.\<close>

definition hs_SetSource :: "('m, 'k) media_ops \<Rightarrow> 'm \<Rightarrow> 'm \<Rightarrow> string \<Rightarrow> ('m, 'k) http_source \<Rightarrow> status \<times> ('m, 'k) http_source" where
  "hs_SetSource V hls http uri p =
     (if hs_downloader p \<noteq> None then (ERROR_INVALID_OPERATION, p)
      else let p1 = (if occurs ''.m3u8'' uri then p\<lparr>hs_downloader := Some (new_monitor V hls), hs_delayReady := False\<rparr>
                     else if take 4 uri = ''http'' then p\<lparr>hs_downloader := Some (new_monitor V http)\<rparr> else p)
           in case hs_downloader p1 of
                None \<Rightarrow> (ERROR_NULL_POINTER, p1)
              | Some d \<Rightarrow>
                  (case mo_Open V uri (if hs_hasCallback p1 then mo_SetCallback V d else d) of (ok, d1) \<Rightarrow>
                     (if ok then OK else ERROR_UNKNOWN, p1\<lparr>hs_downloader := Some d1\<rparr>)))"

definition hs_Read :: "('m, 'k) media_ops \<Rightarrow> int \<Rightarrow> nat \<Rightarrow> ('m, 'k) http_source \<Rightarrow> ((status \<times> u8 list) \<times> ('m, 'k) http_source) option" where
  "hs_Read V now expectedLen p =
     (case hs_downloader p of
        None \<Rightarrow> Some ((ERROR_NULL_POINTER, []), p)
      | Some d \<Rightarrow> map_option (\<lambda>((result, bytes, eos), d1). ((if result then OK else END_OF_STREAM, bytes), p\<lparr>hs_downloader := Some d1\<rparr>))
          (mo_Read V now expectedLen d))"

definition hs_GetSize :: "('m, 'k) media_ops \<Rightarrow> ('m, 'k) http_source \<Rightarrow> (status \<times> nat) option" where
  "hs_GetSize V p =
     (case hs_downloader p of None \<Rightarrow> Some (ERROR_NULL_POINTER, 0) | Some d \<Rightarrow> map_option (Pair OK) (op_GetContentLength V (mo_media d)))"

definition hs_GetSeekable :: "('m, 'k) media_ops \<Rightarrow> ('m, 'k) http_source \<Rightarrow> seekable" where
  "hs_GetSeekable V p = (case hs_downloader p of None \<Rightarrow> SEEK_INVALID | Some d \<Rightarrow> op_GetSeekable V (mo_media d))"

text \<open>The offset is compared as an unsigned number.\<close>

definition hs_SeekToPos :: "('m, 'k) media_ops \<Rightarrow> int \<Rightarrow> ('m, 'k) http_source \<Rightarrow> (status \<times> ('m, 'k) http_source) option" where
  "hs_SeekToPos V offset p =
     (case hs_downloader p of
        None \<Rightarrow> Some (ERROR_NULL_POINTER, p)
      | Some d \<Rightarrow>
          if op_GetSeekable V (mo_media d) \<noteq> SEEKABLE then Some (ERROR_INVALID_OPERATION, p)
          else case op_GetContentLength V (mo_media d) of
                 None \<Rightarrow> None
               | Some len \<Rightarrow>
                   if \<not> nat (offset mod 2 ^ 64) \<le> len then Some (ERROR_INVALID_PARAMETER, p)
                   else map_option (\<lambda>(ok, d1). (if ok then OK else ERROR_UNKNOWN, p\<lparr>hs_downloader := Some d1\<rparr>)) (mo_SeekToPos V offset d))"

definition hs_SeekToTime :: "('m, 'k) media_ops \<Rightarrow> int \<Rightarrow> ('m, 'k) http_source \<Rightarrow> status \<times> ('m, 'k) http_source" where
  "hs_SeekToTime V time p =
     (case hs_downloader p of
        None \<Rightarrow> (ERROR_NULL_POINTER, p)
      | Some d \<Rightarrow>
          if op_GetSeekable V (mo_media d) \<noteq> SEEKABLE then (ERROR_INVALID_OPERATION, p)
          else if \<not> time \<le> op_GetDuration V (mo_media d) then (ERROR_INVALID_PARAMETER, p)
          else case mo_SeekToTime V time d of (ok, d1) \<Rightarrow> (if ok then OK else ERROR_UNKNOWN, p\<lparr>hs_downloader := Some d1\<rparr>))"

definition hs_GetDuration :: "('m, 'k) media_ops \<Rightarrow> ('m, 'k) http_source \<Rightarrow> status \<times> int" where
  "hs_GetDuration V p = (case hs_downloader p of None \<Rightarrow> (ERROR_NULL_POINTER, 0) | Some d \<Rightarrow> (OK, op_GetDuration V (mo_media d)))"

text \<open>The answer is the \<open>bool\<close> of the media cast to a status: 0 is \<open>OK\<close> and 1 is \<open>END_OF_STREAM\<close>.\<close>

definition hs_SelectBitRate :: "('m, 'k) media_ops \<Rightarrow> u32 \<Rightarrow> ('m, 'k) http_source \<Rightarrow> (fault, status \<times> ('m, 'k) http_source) sum" where
  "hs_SelectBitRate V rate p =
     (case hs_downloader p of
        None \<Rightarrow> Inl Null_Deref
      | Some d \<Rightarrow> (case mo_SelectBitRate V rate d of (ok, d1) \<Rightarrow> Inr (if ok then END_OF_STREAM else OK, p\<lparr>hs_downloader := Some d1\<rparr>)))"

section \<open>A server that does not answer\<close>

definition dead_server :: "byte_range \<Rightarrow> transfer" where
  "dead_server r = \<lparr>tr_headers = [], tr_pieces = [], tr_code = CURLE_COULDNT_CONNECT, tr_http = 0\<rparr>"

text \<open>A request being tried for the \<open>n\<close>-th time after the first.\<close>

definition trying :: "nat \<Rightarrow> (http_media, unit) monitor \<Rightarrow> bool" where
  "trying n s \<longleftrightarrow> mo_retryTasks s = [] \<and> mo_hasCallback s \<and> mo_lastReadTime s = 0 \<and>
     \<not> dl_shouldStartNext (hm_downloader (mo_media s)) \<and> dl_connected (hm_downloader (mo_media s)) \<and>
     (\<exists>r. dl_current (hm_downloader (mo_media s)) = Some r \<and> rq_retryTimes r = n \<and> \<not> rq_wholeFile r \<and> \<not> rq_isEos r)"

lemma dead_turn:
  assumes "\<not> dl_shouldStartNext (hm_downloader m)" "dl_connected (hm_downloader m)" "dl_current (hm_downloader m) = Some r"
  shows "hm_turn envs dead_server m = Inr (Some (m\<lparr>hm_downloader := (hm_downloader m)\<lparr>
    dl_current := Some (r\<lparr>rq_clientError := CE_TIME_OUT, rq_serverError := 0\<rparr>),
    dl_log := dl_log (hm_downloader m) @ [Status_Partial, Task_PauseAsync]\<rparr>\<rparr>))"
  using assms by (simp add: hm_turn_def HttpDownloadLoop_def RequestData_def dead_server_def dl_call_def Let_def)

lemma dead_round:
  assumes "trying n s" "n \<le> 5"
  shows "\<exists>s1. http_turn (http_ops e1 e2 e) envs dead_server s = Inr (Some s1) \<and> mo_retryTasks s1 = [()] \<and>
    trying (Suc n) (HttpMonitorLoop (http_ops e1 e2 e) now s1) \<and> mo_events (HttpMonitorLoop (http_ops e1 e2 e) now s1) = mo_events s"
proof -
  obtain r where r: "dl_current (hm_downloader (mo_media s)) = Some r" "rq_retryTimes r = n" "\<not> rq_wholeFile r" "\<not> rq_isEos r"
    and d: "\<not> dl_shouldStartNext (hm_downloader (mo_media s))" "dl_connected (hm_downloader (mo_media s))"
    and s: "mo_retryTasks s = []" "mo_hasCallback s" "mo_lastReadTime s = 0"
    using assms(1) by (auto simp: trying_def)
  let ?d = "(hm_downloader (mo_media s))\<lparr>dl_current := Some (r\<lparr>rq_clientError := CE_TIME_OUT, rq_serverError := 0\<rparr>),
    dl_log := dl_log (hm_downloader (mo_media s)) @ [Status_Partial, Task_PauseAsync]\<rparr>"
  let ?s = "s\<lparr>mo_media := (mo_media s)\<lparr>hm_downloader := ?d\<rparr>, mo_retryTasks := [()]\<rparr>"
  have turn: "http_turn (http_ops e1 e2 e) envs dead_server s = Inr (Some ?s)"
    using dead_turn [OF d r(1)] r(2) s(1) assms(2)
    by (simp add: http_turn_def OnDownloadStatus_def NeedRetry_def http_ops_def hm_request_def RETRY_TIMES_TO_REPORT_ERROR_def Let_def)
  moreover have "trying (Suc n) (HttpMonitorLoop (http_ops e1 e2 e) now ?s)" "mo_events (HttpMonitorLoop (http_ops e1 e2 e) now ?s) = mo_events s"
    using r d s by (simp_all add: HttpMonitorLoop_def trying_def http_ops_def with_downloader_def hm_request_def dl_Retry_def IsSame_def
        dl_SetActive_def dl_call_def Let_def)
  ultimately show ?thesis by auto
qed

text \<open>Rounds of a failing turn and of the monitor, at any times.\<close>

fun dead_rounds :: "(http_media, unit) media_ops \<Rightarrow> int list \<Rightarrow> (http_media, unit) monitor \<Rightarrow> (http_media, unit) monitor option" where
  "dead_rounds V [] s = Some s"
| "dead_rounds V (now # nows) s =
     (case http_turn V (\<lambda>_. []) dead_server s of
        Inr (Some s1) \<Rightarrow> dead_rounds V nows (HttpMonitorLoop V now s1)
      | _ \<Rightarrow> None)"

lemma dead_rounds_trying:
  "trying n s \<Longrightarrow> n + length nows \<le> 6 \<Longrightarrow>
    \<exists>s1. dead_rounds (http_ops e1 e2 e) nows s = Some s1 \<and> trying (n + length nows) s1 \<and> mo_events s1 = mo_events s"
proof (induction nows arbitrary: n s)
  case (Cons now nows)
  have n: "n \<le> 5" using Cons.prems(2) by simp
  obtain s1 where s1: "http_turn (http_ops e1 e2 e) (\<lambda>_. []) dead_server s = Inr (Some s1)"
    "trying (Suc n) (HttpMonitorLoop (http_ops e1 e2 e) now s1)" "mo_events (HttpMonitorLoop (http_ops e1 e2 e) now s1) = mo_events s"
    using dead_round [OF Cons.prems(1), of e1 e2 e "\<lambda>_. []" now] n by blast
  show ?case using Cons.IH [OF s1(2)] Cons.prems(2) s1 by simp
qed simp

text \<open>
  C24. A server that cannot be reached is tried again six times, each time when the monitor comes round;
  then the error is reported, the download closed and a reader that waits without data is told to stop.
\<close>

theorem unreachable_server_reported:
  assumes "trying 0 s" "length nows = 6"
  shows "\<exists>s6 s7. dead_rounds (http_ops e1 e2 e) nows s = Some s6 \<and> mo_events s6 = mo_events s \<and>
    http_turn (http_ops e1 e2 e) envs dead_server s6 = Inr (Some s7) \<and>
    mo_events s7 = mo_events s @ [CLIENT_ERROR CE_TIME_OUT] \<and> mo_task s7 = Monitor_Stopped \<and> mo_retryTasks s7 = [] \<and>
    (\<forall>want. hm_Read e1 e2 e want (mo_media s7) = Some ((False, [], False), mo_media s7))"
proof -
  obtain s6 where s6: "dead_rounds (http_ops e1 e2 e) nows s = Some s6" "trying 6 s6" "mo_events s6 = mo_events s"
    using dead_rounds_trying [OF assms(1), of nows e1 e2 e] assms(2) by auto
  then obtain r where r: "dl_current (hm_downloader (mo_media s6)) = Some r" "rq_retryTimes r = 6" "\<not> rq_isEos r"
    and d: "\<not> dl_shouldStartNext (hm_downloader (mo_media s6))" "dl_connected (hm_downloader (mo_media s6))"
    and s: "mo_retryTasks s6 = []" "mo_hasCallback s6"
    by (auto simp: trying_def)
  obtain s7 where s7: "http_turn (http_ops e1 e2 e) envs dead_server s6 = Inr (Some s7)"
    "mo_events s7 = mo_events s6 @ [CLIENT_ERROR CE_TIME_OUT]" "mo_task s7 = Monitor_Stopped" "mo_retryTasks s7 = []"
    "rb_GetSize (hm_buffer (mo_media s7)) = 0" "hi_isClosed (rq_header (hm_request (mo_media s7)))" "\<not> rq_isEos (hm_request (mo_media s7))"
    using dead_turn [OF d r(1)] r s
    by (simp add: http_turn_def OnDownloadStatus_def NeedRetry_def http_ops_def hm_request_def RETRY_TIMES_TO_REPORT_ERROR_def hm_Close_def
        with_downloader_def with_buffer_def dl_Stop_def close_current_def dl_SetActive_def dl_call_def rq_Close_def rb_SetActive_def rb_GetSize_def Let_def)
  then have "hm_Read e1 e2 e want (mo_media s7) = Some ((False, [], False), mo_media s7)" for want
    by (simp add: hm_Read_def wait_any.simps)
  then show ?thesis using s6(1,3) s7(1-4) by auto
qed

definition ex_monitor :: "(http_media, unit) monitor" where
  "ex_monitor = mo_SetCallback (http_ops [] [] (\<lambda>b. b)) (new_monitor (http_ops [] [] (\<lambda>b. b))
     (new_http_media\<lparr>hm_downloader := new_downloader\<lparr>dl_current := Some (new_request ''u'' False), dl_shouldStartNext := False, dl_connected := True\<rparr>\<rparr>))"

lemma ex_monitor_trying: "trying 0 ex_monitor"
  by (simp add: trying_def ex_monitor_def mo_SetCallback_def new_monitor_def http_ops_def hm_SetCallback_def hm_SetStatusCallback_def new_request_def)

theorem unreachable_server_reported_witness:
  "\<exists>s6 s7. dead_rounds (http_ops [] [] (\<lambda>b. b)) [1, 2, 3, 4, 5, 6] ex_monitor = Some s6 \<and>
    http_turn (http_ops [] [] (\<lambda>b. b)) (\<lambda>_. []) dead_server s6 = Inr (Some s7) \<and>
    mo_events s7 = mo_events ex_monitor @ [CLIENT_ERROR CE_TIME_OUT]"
  using unreachable_server_reported [OF ex_monitor_trying, of "[1, 2, 3, 4, 5, 6]" "[]" "[]" "\<lambda>b. b" "\<lambda>_. []"] by auto

text \<open>A download nobody has read for a minute is paused, and the next read resumes it.\<close>

lemma idle_download_paused:
  assumes "mo_isPlaying s" "mo_lastReadTime s \<noteq> 0" "now - mo_lastReadTime s \<ge> 60" "mo_retryTasks s = []"
  shows "HttpMonitorLoop V now s = s\<lparr>mo_media := op_Pause V (mo_media s), mo_isPlaying := False, mo_lastReadTime := 0\<rparr>"
    and "op_Read V want (op_Resume V (op_Pause V (mo_media s))) = Some (res, m) \<Longrightarrow>
      mo_Read V later want (HttpMonitorLoop V now s) = Some (res, s\<lparr>mo_media := m, mo_isPlaying := True, mo_lastReadTime := later\<rparr>)"
  using assms by (simp_all add: HttpMonitorLoop_def mo_Pause_def mo_Read_def mo_Resume_def)

text \<open>A bit rate that was taken is answered with an error, one that was not with success.\<close>

lemma bit_rate_answer_inverted:
  assumes "hs_downloader p = Some d"
  shows "\<exists>st q. hs_SelectBitRate V rate p = Inr (st, q) \<and> (st = OK \<longleftrightarrow> \<not> fst (op_SelectBitRate V rate (mo_media d)))"
  using assms by (auto simp: hs_SelectBitRate_def mo_SelectBitRate_def split: prod.splits)

text \<open>The source plugin over an http media reads the file.\<close>

lemma source_reads_file:
  assumes "http_run file m" "hs_downloader p = Some d" "mo_media d = m" "mo_isPlaying d"
    and "\<And>e x. e \<in> set (envs1 @ envs2) \<Longrightarrow> http_run file x \<Longrightarrow>
      http_run file (e x) \<and> rb_GetMediaOffset (hm_buffer (e x)) = rb_GetMediaOffset (hm_buffer x)"
    and "hs_Read (http_ops envs1 envs2 (\<lambda>b. b)) now want p = Some ((OK, bytes), q)"
  shows "bytes = take (length bytes) (drop (rb_GetMediaOffset (hm_buffer m)) file)"
proof -
  obtain eos m1 where "hm_Read envs1 envs2 (\<lambda>b. b) want m = Some ((True, bytes, eos), m1)"
    using assms(2,3,4,6) by (auto simp: hs_Read_def mo_Read_def http_ops_def split: if_splits)
  from hm_Read_file [OF assms(1) _ this] assms(5) show ?thesis by blast
qed

end
