(* ===== verification/M3u8.thy ===== *)
theory M3u8
  imports Hls_Tags
begin

text \<open>
  Media and master playlists (engine/plugin/plugins/source/http_source/hls/m3u8.cpp). Reading a
  floating-point number from a string is the argument \<open>strtod\<close>. A result \<open>Inl\<close> is a null pointer
  that is followed, or a variable that is read without having been set. The members of a fragment
  and a variant that nothing sets (key, codecs, programme and media lists) are left out.
\<close>

definition contains :: "string \<Rightarrow> string \<Rightarrow> bool" where
  "contains s p \<longleftrightarrow> find_sub p s \<noteq> None"

definition StrHasPrefix :: "string \<Rightarrow> string \<Rightarrow> bool" where
  "StrHasPrefix str prefix \<longleftrightarrow> find_sub prefix str = Some 0"

definition UriJoin :: "string \<Rightarrow> string \<Rightarrow> string" where
  "UriJoin baseUrl uri =
     (if contains uri ''http://'' \<or> contains uri ''https://'' then uri
      else if find_sub ''//'' uri = Some 0 then takeWhile (\<lambda>c. c \<noteq> CHR ''/'') baseUrl @ uri
      else rev (dropWhile (\<lambda>c. c \<noteq> CHR ''/'') (rev baseUrl)) @ uri)"

record 'd fragment =
  fg_uri :: string
  fg_title :: string
  fg_duration :: 'd
  fg_sequence :: int
  fg_discont :: bool

record 'd m3u8 =
  m3_uri :: string
  m3_name :: string
  m3_targetDuration :: 'd
  m3_bLive :: bool
  m3_files :: "'d fragment list"
  m3_sequence :: u64
  m3_discontSequence :: int
  m3_playList :: string

record 'd m3u8_info =
  mi_uri :: string
  mi_title :: string
  mi_duration :: 'd
  mi_discontinuity :: bool
  mi_bVod :: bool

definition new_m3u8 :: "'d \<Rightarrow> string \<Rightarrow> string \<Rightarrow> 'd m3u8" where
  "new_m3u8 zero uri name =
     \<lparr>m3_uri = uri, m3_name = name, m3_targetDuration = zero, m3_bLive = False, m3_files = [], m3_sequence = 1,
      m3_discontSequence = 0, m3_playList = []\<rparr>"

definition GetExtInf :: "(string \<Rightarrow> 'd) \<Rightarrow> attribute list \<Rightarrow> (fault, 'd \<times> string) sum" where
  "GetExtInf strtod item =
     (case GetAttributeByName ''DURATION'' item of None \<Rightarrow> Inl Null_Deref
      | Some a \<Rightarrow>
          (case FloatingPoint strtod (at_value a) of Inl e \<Rightarrow> Inl e
           | Inr d \<Rightarrow>
               (case GetAttributeByName ''TITLE'' item of None \<Rightarrow> Inl Null_Deref
                | Some b \<Rightarrow> Inr (d, QuotedString (at_value b)))))"

fun tag_value :: "tag \<Rightarrow> string" where
  "tag_value (SingleValueTag t v) = v"
| "tag_value _ = []"

fun tag_attributes :: "tag \<Rightarrow> attribute list" where
  "tag_attributes (AttributesTag t as) = as"
| "tag_attributes _ = []"

text \<open>The updater of a tag, if it has one.\<close>

definition tagUpdatersMap ::
  "(string \<Rightarrow> 'd) \<Rightarrow> tag \<Rightarrow> 'd m3u8 \<times> 'd m3u8_info \<Rightarrow> (fault, 'd m3u8 \<times> 'd m3u8_info) sum"
where
  "tagUpdatersMap strtod tag st =
     (case st of (m, info) \<Rightarrow>
      (case GetType tag of
         EXTXPLAYLISTTYPE \<Rightarrow> Inr (m\<lparr>m3_bLive := \<not> mi_bVod info \<and> QuotedString (tag_value tag) \<noteq> ''VOD''\<rparr>, info)
       | EXTXTARGETDURATION \<Rightarrow>
           (case FloatingPoint strtod (tag_value tag) of Inl e \<Rightarrow> Inl e
            | Inr d \<Rightarrow> Inr (m\<lparr>m3_targetDuration := d\<rparr>, info))
       | EXTXMEDIASEQUENCE \<Rightarrow>
           (case Decimal (tag_value tag) of Inl e \<Rightarrow> Inl e | Inr n \<Rightarrow> Inr (m\<lparr>m3_sequence := of_nat n\<rparr>, info))
       | EXTXDISCONTINUITYSEQUENCE \<Rightarrow>
           (case Decimal (tag_value tag) of Inl e \<Rightarrow> Inl e
            | Inr n \<Rightarrow> Inr (m\<lparr>m3_discontSequence := to_i32 (int n)\<rparr>, info\<lparr>mi_discontinuity := True\<rparr>))
       | EXTINF \<Rightarrow>
           (case GetExtInf strtod (tag_attributes tag) of Inl e \<Rightarrow> Inl e
            | Inr (d, t) \<Rightarrow> Inr (m, info\<lparr>mi_duration := d, mi_title := t\<rparr>))
       | URI \<Rightarrow> Inr (m, info\<lparr>mi_uri := UriJoin (m3_uri m) (QuotedString (tag_value tag))\<rparr>)
       | EXTXDISCONTINUITY \<Rightarrow>
           Inr (m\<lparr>m3_discontSequence := m3_discontSequence m + 1\<rparr>, info\<lparr>mi_discontinuity := True\<rparr>)
       | _ \<Rightarrow> Inr (m, info)))"

definition emit_file :: "'d \<Rightarrow> 'd m3u8 \<times> 'd m3u8_info \<Rightarrow> 'd m3u8 \<times> 'd m3u8_info" where
  "emit_file zero st =
     (case st of (m, info) \<Rightarrow>
        if mi_uri info \<noteq> []
        then (m\<lparr>m3_files := m3_files m @ [\<lparr>fg_uri = mi_uri info, fg_title = mi_title info, fg_duration = mi_duration info,
                  fg_sequence = to_i32 (uint (m3_sequence m)), fg_discont = mi_discontinuity info\<rparr>],
                m3_sequence := m3_sequence m + 1\<rparr>,
              info\<lparr>mi_uri := [], mi_title := [], mi_duration := zero, mi_discontinuity := False\<rparr>)
        else (m, info))"

fun update_tags :: "'d \<Rightarrow> (string \<Rightarrow> 'd) \<Rightarrow> tag list \<Rightarrow> 'd m3u8 \<times> 'd m3u8_info \<Rightarrow> (fault, 'd m3u8 \<times> 'd m3u8_info) sum" where
  "update_tags zero strtod [] st = Inr st"
| "update_tags zero strtod (tag # tags) st =
     (case tagUpdatersMap strtod tag st of Inl e \<Rightarrow> Inl e
      | Inr st1 \<Rightarrow> update_tags zero strtod tags (emit_file zero st1))"

definition UpdateFromTags :: "'d \<Rightarrow> (string \<Rightarrow> 'd) \<Rightarrow> tag list \<Rightarrow> 'd m3u8 \<Rightarrow> (fault, 'd m3u8) sum" where
  "UpdateFromTags zero strtod tags m =
     (let bVod = (tags \<noteq> [] \<and> GetType (last tags) = EXTXENDLIST);
          info = \<lparr>mi_uri = [], mi_title = [], mi_duration = zero, mi_discontinuity = False, mi_bVod = bVod\<rparr>
      in case update_tags zero strtod tags (m\<lparr>m3_bLive := \<not> bVod\<rparr>, info) of Inl e \<Rightarrow> Inl e | Inr st \<Rightarrow> Inr (fst st))"

abbreviation NL :: char where "NL \<equiv> CHR 0x0A"

definition m3_Update :: "'d \<Rightarrow> (string \<Rightarrow> 'd) \<Rightarrow> string \<Rightarrow> 'd m3u8 \<Rightarrow> (fault, bool \<times> 'd m3u8) sum" where
  "m3_Update zero strtod playList m =
     (if m3_playList m = playList then Inr (True, m)
      else if \<not> StrHasPrefix playList ''#EXTM3U'' then Inr (False, m)
      else if contains playList (NL # ''#EXT-X-STREAM-INF:'') then Inr (False, m)
      else case ParseEntries playList of Inl e \<Rightarrow> Inl e
      | Inr tags \<Rightarrow>
          (case UpdateFromTags zero strtod tags (m\<lparr>m3_files := []\<rparr>) of Inl e \<Rightarrow> Inl e
           | Inr m1 \<Rightarrow> Inr (True, m1\<lparr>m3_playList := playList\<rparr>)))"

definition GetDuration :: "'d \<Rightarrow> ('d \<Rightarrow> 'd \<Rightarrow> 'd) \<Rightarrow> 'd m3u8 \<Rightarrow> 'd" where
  "GetDuration zero plus_d m = fold (\<lambda>file d. plus_d d (fg_duration file)) (m3_files m) zero"

definition IsLive :: "'d m3u8 \<Rightarrow> bool" where "IsLive m = m3_bLive m"

section \<open>Master playlists\<close>

record 'd variant_stream =
  va_name :: string
  va_uri :: string
  va_bandWidth :: nat
  va_width :: int
  va_height :: int
  va_iframe :: bool
  va_m3u8 :: "'d m3u8"

text \<open>The default variant is a place in the list of the variants.\<close>

record 'd master_playlist =
  mp_variants :: "'d variant_stream list"
  mp_default :: "nat option"
  mp_uri :: string
  mp_isSimple :: bool
  mp_playList :: string
  mp_duration :: 'd
  mp_bLive :: bool

definition new_variant :: "'d \<Rightarrow> string \<Rightarrow> string \<Rightarrow> 'd m3u8 \<Rightarrow> 'd variant_stream" where
  "new_variant zero name uri m =
     \<lparr>va_name = name, va_uri = uri, va_bandWidth = 0, va_width = 0, va_height = 0, va_iframe = False, va_m3u8 = m\<rparr>"

definition UpdateMediaPlaylist ::
  "'d \<Rightarrow> ('d \<Rightarrow> 'd \<Rightarrow> 'd) \<Rightarrow> (string \<Rightarrow> 'd) \<Rightarrow> 'd master_playlist \<Rightarrow> (fault, 'd master_playlist) sum"
where
  "UpdateMediaPlaylist zero plus_d strtod p =
     (case m3_Update zero strtod (mp_playList p) (new_m3u8 zero (mp_uri p) []) of Inl e \<Rightarrow> Inl e
      | Inr (_, m) \<Rightarrow>
          Inr (p\<lparr>mp_variants := mp_variants p @ [new_variant zero (mp_uri p) (mp_uri p) m],
                 mp_default := Some (length (mp_variants p)),
                 mp_duration := GetDuration zero plus_d m, mp_bLive := IsLive m, mp_isSimple := True\<rparr>))"

definition master_tag :: "'d \<Rightarrow> tag \<Rightarrow> 'd master_playlist \<Rightarrow> (fault, 'd master_playlist) sum" where
  "master_tag zero tag p =
     (if GetType tag = EXTXSTREAMINF \<or> GetType tag = EXTXIFRAMESTREAMINF then
        let item = tag_attributes tag
        in case GetAttributeByName ''URI'' item of None \<Rightarrow> Inr p
           | Some uriAttribute \<Rightarrow>
               let name = QuotedString (at_value uriAttribute);
                   uri = UriJoin (mp_uri p) name;
                   stream = new_variant zero name uri (new_m3u8 zero uri name);
                   s1 = (if GetType tag = EXTXIFRAMESTREAMINF then stream\<lparr>va_iframe := True\<rparr> else stream)
               in case (case GetAttributeByName ''BANDWIDTH'' item of None \<Rightarrow> Inr s1
                        | Some a \<Rightarrow> (case Decimal (at_value a) of Inl e \<Rightarrow> Inl e | Inr n \<Rightarrow> Inr (s1\<lparr>va_bandWidth := n\<rparr>))) of
                    Inl e \<Rightarrow> Inl e
                  | Inr s2 \<Rightarrow>
                      let s3 = (case GetAttributeByName ''RESOLUTION'' item of None \<Rightarrow> s2
                                | Some a \<Rightarrow> s2\<lparr>va_width := fst (GetResolution (at_value a)),
                                              va_height := snd (GetResolution (at_value a))\<rparr>)
                      in Inr (p\<lparr>mp_variants := mp_variants p @ [s3], mp_default := Some (length (mp_variants p))\<rparr>)
      else Inr p)"

fun master_tags :: "'d \<Rightarrow> tag list \<Rightarrow> 'd master_playlist \<Rightarrow> (fault, 'd master_playlist) sum" where
  "master_tags zero [] p = Inr p"
| "master_tags zero (tag # tags) p = (case master_tag zero tag p of Inl e \<Rightarrow> Inl e | Inr p1 \<Rightarrow> master_tags zero tags p1)"

definition UpdateMasterPlaylist :: "'d \<Rightarrow> 'd master_playlist \<Rightarrow> (fault, 'd master_playlist) sum" where
  "UpdateMasterPlaylist zero p =
     (case ParseEntries (mp_playList p) of Inl e \<Rightarrow> Inl e | Inr tags \<Rightarrow> master_tags zero tags p)"

definition new_master_playlist ::
  "'d \<Rightarrow> ('d \<Rightarrow> 'd \<Rightarrow> 'd) \<Rightarrow> (string \<Rightarrow> 'd) \<Rightarrow> string \<Rightarrow> string \<Rightarrow> (fault, 'd master_playlist) sum"
where
  "new_master_playlist zero plus_d strtod playList uri =
     (let p = \<lparr>mp_variants = [], mp_default = None, mp_uri = uri, mp_isSimple = False, mp_playList = playList,
               mp_duration = zero, mp_bLive = False\<rparr>
      in if contains playList (NL # ''#EXTINF:'') then UpdateMediaPlaylist zero plus_d strtod p
         else UpdateMasterPlaylist zero p)"

end
