(* ===== verification/Hls_Props.thy ===== *)
theory Hls_Props
  imports M3u8
begin

text \<open>
  Reading a playlist that was written down gives back what was written, and where it does not.
\<close>

section \<open>Lines\<close>

abbreviation CR :: char where "CR \<equiv> CHR 0x0D"

lemma char_of_line_ends: "map char_of [13 :: nat, 10] = [CR, NL]" "map char_of [10 :: nat] = [NL]"
  by code_simp+

definition unlines :: "string list \<Rightarrow> string" where
  "unlines ls = concat (map (\<lambda>l. l @ [NL]) ls)"

lemma unlines_simps [simp]: "unlines [] = []" "unlines (l # ls) = l @ NL # unlines ls"
  by (simp_all add: unlines_def)

lemma find_sub_skip: "c \<notin> set l \<Longrightarrow> find_sub (c # p) (l @ r) = map_option (\<lambda>i. i + length l) (find_sub (c # p) r)"
  by (induction l) (auto simp: option.map_comp comp_def option.map_ident)

lemma find_sub_absent: "c \<notin> set l \<Longrightarrow> find_sub (c # p) l = None"
  by (induction l) auto

lemma find_sub_prefix: "take (length p) s = p \<Longrightarrow> find_sub p s = Some 0"
  by (cases s) auto

lemma split_rest_Nil [simp]: "delim \<noteq> [] \<Longrightarrow> split_rest delim [] = []"
  by (simp add: split_rest.simps)

lemma split_rest_line:
  assumes "c \<notin> set l"
  shows "split_rest [c] (l @ c # r) = (if l \<noteq> [] then [l] else []) @ split_rest [c] r"
proof -
  have "find_sub [c] (l @ c # r) = Some (length l)" using find_sub_skip [OF assms, of "[]" "c # r"] by simp
  then show ?thesis by (subst split_rest.simps) simp
qed

lemma split_rest_last: "c \<notin> set l \<Longrightarrow> split_rest [c] l = (if l \<noteq> [] then [l] else [])"
  by (subst split_rest.simps) (simp add: find_sub_absent)

lemma split_unlines: "\<forall>l \<in> set ls. NL \<notin> set l \<Longrightarrow> split_rest [NL] (unlines ls) = filter (\<lambda>l. l \<noteq> []) ls"
  by (induction ls) (simp_all add: split_rest_line)

lemma Split_colon: "CHR '':'' \<notin> set k \<Longrightarrow> CHR '':'' \<notin> set v \<Longrightarrow> k \<noteq> [] \<Longrightarrow> v \<noteq> [] \<Longrightarrow> Split (k @ CHR '':'' # v) '':'' = [k, v]"
  "CHR '':'' \<notin> set k \<Longrightarrow> k \<noteq> [] \<Longrightarrow> Split k '':'' = [k]"
  by (simp_all add: Split_def split_rest_line split_rest_last)

text \<open>A playlist written in lines, without carriage returns, is read line by line.\<close>

lemma ParseEntries_lines:
  assumes "\<forall>l \<in> set ls. NL \<notin> set l \<and> CR \<notin> set l \<and> l \<noteq> []" "ls \<noteq> []"
  shows "ParseEntries (unlines ls) = (case parse_lines ls ([], None) of Inl e \<Rightarrow> Inl e | Inr st \<Rightarrow> Inr (fst st))"
proof -
  have ne: "unlines ls \<noteq> []" using assms(2) by (cases ls) simp_all
  have "CR \<notin> set (unlines ls)" using assms(1) by (auto simp: unlines_def)
  then have "Split (unlines ls) [CR, NL] = [unlines ls]"
    using ne by (simp add: Split_def split_rest.simps find_sub_absent)
  moreover have "Split (unlines ls) [NL] = ls"
    using ne assms(1) by (simp add: Split_def split_unlines filter_id_conv)
  ultimately show ?thesis by (simp add: ParseEntries_def Let_def char_of_line_ends del: list.map)
qed

text \<open>A text after a line feed is the start of a line.\<close>

lemma contains_line:
  assumes "\<forall>l \<in> set (l0 # ls). NL \<notin> set l" "NL \<notin> set p" "contains (unlines (l0 # ls)) (NL # p)" "p \<noteq> []"
  shows "\<exists>l \<in> set ls. take (length p) l = p"
  using assms(1,3)
proof (induction ls arbitrary: l0)
  case Nil
  then show ?case using assms(4) by (simp add: contains_def find_sub_skip)
next
  case (Cons l ls)
  have "find_sub (NL # p) (NL # unlines (l # ls)) \<noteq> None"
    using Cons.prems find_sub_skip [of NL l0 p] by (simp add: contains_def)
  then consider "take (length p) (unlines (l # ls)) = p" | "contains (unlines (l # ls)) (NL # p)"
    by (auto simp: contains_def split: if_splits)
  then show ?case
  proof cases
    case 1
    have "length p \<le> length l"
    proof (rule ccontr)
      assume "\<not> length p \<le> length l"
      then have "unlines (l # ls) ! length l = p ! length l" using 1 by (metis not_le nth_take)
      then have "p ! length l = NL" by (simp add: nth_append)
      then show False using \<open>\<not> length p \<le> length l\<close> assms(2) by (metis not_le nth_mem)
    qed
    then show ?thesis using 1 by simp
  next
    case 2
    then show ?thesis using Cons.IH [of l] Cons.prems(1) by auto
  qed
qed

section \<open>Tags\<close>

lemma ext_line: "find_sub ''#EXT'' (''#EXT'' @ r) = Some 0"
  by (rule find_sub_prefix) simp

lemma parse_tag_known:
  assumes "CHR '':'' \<notin> set k" "CHR '':'' \<notin> set v" "v \<noteq> []" "map_of g_exttagmapping (''EXT'' @ k) = Some t"
  shows "ParseTag (''#EXT'' @ k @ CHR '':'' # v) (es, lt) = Inr (es @ [new_tag t v], Some (length es))"
proof -
  have "Split (''EXT'' @ k @ CHR '':'' # v) '':'' = [''EXT'' @ k, v]"
    using Split_colon(1) [of "''EXT'' @ k" v] assms by simp
  then show ?thesis using ext_line [of "k @ CHR '':'' # v"] assms(4) by (simp add: ParseTag_def CreateTagByName_def Let_def)
qed

lemma parse_tag_plain:
  assumes "CHR '':'' \<notin> set k"
  shows "ParseTag (''#EXT'' @ k) (es, lt) =
    Inr (case map_of g_exttagmapping (''EXT'' @ k) of None \<Rightarrow> (es, None) | Some t \<Rightarrow> (es @ [new_tag t []], Some (length es)))"
proof -
  have "Split (''EXT'' @ k) '':'' = [''EXT'' @ k]" using Split_colon(2) [of "''EXT'' @ k"] assms by simp
  then show ?thesis using ext_line [of k] by (simp add: ParseTag_def CreateTagByName_def Let_def split: option.split)
qed

lemma CreateTagByName_uri [simp]: "CreateTagByName [] u = Some (SingleValueTag URI u)"
  by (simp add: CreateTagByName_def g_exttagmapping_def new_tag_def)

lemma ParseURI_push: "lt = None \<or> lt = Some (length es - 1) \<and> es \<noteq> [] \<and> GetType (last es) \<noteq> EXTXSTREAMINF \<Longrightarrow>
    ParseURI u (es, lt) = (es @ [SingleValueTag URI u], None)"
  by (auto simp: ParseURI_def last_conv_nth)

lemma ParseAttributeName_all: "CHR ''='' \<notin> set s \<Longrightarrow> ParseAttributeName s oss = (oss @ filter name_char s, [], True)"
  by (induction s oss rule: ParseAttributeName.induct) auto

lemma attributes_without_value:
  assumes "CHR ''='' \<notin> set v"
  shows "AttributesTag_ParseAttributes v =
    (if filter name_char v \<noteq> [] then [\<lparr>at_name = filter name_char v, at_value = []\<rparr>] else [])"
  using ParseAttributeName_all [OF assms, of "[]"] by (simp add: AttributesTag_ParseAttributes_def ParseAttributes_loop.simps)

section \<open>Writing a media playlist\<close>

definition extinf_line :: "string \<Rightarrow> string \<Rightarrow> string" where
  "extinf_line d t = ''#EXTINF:'' @ d @ '','' @ t"

definition media_lines :: "string \<Rightarrow> (string \<times> string \<times> string) list \<Rightarrow> bool \<Rightarrow> string list" where
  "media_lines n segs vod =
     [''#EXTM3U'', ''#EXT-X-MEDIA-SEQUENCE:'' @ n] @ concat (map (\<lambda>(d, t, u). [extinf_line d t, u]) segs) @
     (if vod then [''#EXT-X-ENDLIST''] else [])"

definition text_ok :: "string \<Rightarrow> bool" where
  "text_ok s \<longleftrightarrow> NL \<notin> set s \<and> CR \<notin> set s \<and> CHR '':'' \<notin> set s \<and> CHR ''='' \<notin> set s"

text \<open>A duration, a title and a uri that can be written in a playlist.\<close>

definition seg_ok :: "string \<times> string \<times> string \<Rightarrow> bool" where
  "seg_ok s \<longleftrightarrow> (case s of (d, t, u) \<Rightarrow>
     text_ok d \<and> text_ok t \<and> CHR '','' \<notin> set d \<and> dropWhile is_space d \<noteq> [] \<and>
     filter name_char (d @ t) \<noteq> ''DURATION'' \<and> filter name_char (d @ t) \<noteq> ''TITLE'' \<and>
     u \<noteq> [] \<and> hd u \<noteq> CHR ''#'' \<and> hd u \<noteq> CHR 0x22 \<and> NL \<notin> set u \<and> CR \<notin> set u)"

definition extinf_tag :: "string \<Rightarrow> string \<Rightarrow> tag" where
  "extinf_tag d t = new_tag EXTINF (d @ '','' @ t)"

lemma extinf_attributes:
  assumes "seg_ok (d, t, u)"
  shows "GetExtInf strtod (tag_attributes (extinf_tag d t)) = Inr (strtod d, CHR '','' # t)"
proof -
  let ?v = "d @ CHR '','' # t"
  have e: "CHR ''='' \<notin> set ?v" using assms by (auto simp: seg_ok_def text_ok_def)
  have nc: "filter name_char ?v = filter name_char (d @ t)" by (simp add: name_char_def)
  have "\<forall>c \<in> set d. c \<noteq> CHR '',''" using assms by (auto simp: seg_ok_def)
  then have w: "takeWhile (\<lambda>c. c \<noteq> CHR '','') ?v = d" by (simp add: takeWhile_append2)
  have vl: "ValuesListTag_ParseAttributes ?v = [\<lparr>at_name = ''DURATION'', at_value = d\<rparr>, \<lparr>at_name = ''TITLE'', at_value = CHR '','' # t\<rparr>]"
    by (simp add: ValuesListTag_ParseAttributes_def w Let_def)
  have attrs: "tag_attributes (extinf_tag d t) = AttributesTag_ParseAttributes ?v @ ValuesListTag_ParseAttributes ?v"
    by (simp add: extinf_tag_def new_tag_def)
  have "filter name_char (d @ t) \<noteq> ''DURATION''" "filter name_char (d @ t) \<noteq> ''TITLE''" "dropWhile is_space d \<noteq> []"
    using assms by (simp_all add: seg_ok_def)
  then show ?thesis
    unfolding attrs vl attributes_without_value [OF e] nc
    by (auto simp: GetExtInf_def GetAttributeByName_def FloatingPoint_def QuotedString_def)
qed

definition seg_tags :: "(string \<times> string \<times> string) list \<Rightarrow> tag list" where
  "seg_tags segs = concat (map (\<lambda>(d, t, u). [extinf_tag d t, SingleValueTag URI u]) segs)"

lemma parse_segs:
  assumes "\<forall>s \<in> set segs. seg_ok s"
  shows "\<exists>lt'. parse_lines (concat (map (\<lambda>(d, t, u). [extinf_line d t, u]) segs) @ ls) (es, lt) = parse_lines ls (es @ seg_tags segs, lt')"
  using assms
proof (induction segs arbitrary: es lt)
  case Nil
  then show ?case by (auto simp: seg_tags_def)
next
  case (Cons s segs)
  obtain d t u where s: "s = (d, t, u)" by (cases s)
  then have ok: "seg_ok (d, t, u)" using Cons.prems by simp
  have colon: "CHR '':'' \<notin> set (d @ '','' @ t)" using ok by (auto simp: seg_ok_def text_ok_def)
  have "ParseTag (''#EXT'' @ ''INF'' @ CHR '':'' # (d @ '','' @ t)) (es, lt) = Inr (es @ [new_tag EXTINF (d @ '','' @ t)], Some (length es))"
    by (rule parse_tag_known) (use colon in \<open>simp_all add: g_exttagmapping_def\<close>)
  then have tag: "ParseTag (extinf_line d t) (es, lt) = Inr (es @ [extinf_tag d t], Some (length es))"
    by (simp add: extinf_line_def extinf_tag_def)
  have uri: "ParseURI u (es @ [extinf_tag d t], Some (length es)) = ((es @ [extinf_tag d t]) @ [SingleValueTag URI u], None)"
    by (rule ParseURI_push) (simp add: extinf_tag_def new_tag_def)
  have "extinf_line d t \<noteq> []" "hd (extinf_line d t) = CHR ''#''" by (simp_all add: extinf_line_def)
  moreover have "u \<noteq> []" "hd u \<noteq> CHR ''#''" using ok by (simp_all add: seg_ok_def)
  ultimately have "parse_lines ([extinf_line d t, u] @ rest) (es, lt) = parse_lines rest (es @ [extinf_tag d t, SingleValueTag URI u], None)" for rest
    using tag uri by simp
  moreover have "es @ seg_tags (s # segs) = (es @ [extinf_tag d t, SingleValueTag URI u]) @ seg_tags segs" by (simp add: seg_tags_def s)
  ultimately show ?case using Cons.IH [of "es @ [extinf_tag d t, SingleValueTag URI u]" None] Cons.prems s by simp
qed

definition media_tags :: "string \<Rightarrow> (string \<times> string \<times> string) list \<Rightarrow> bool \<Rightarrow> tag list" where
  "media_tags n segs vod = SingleValueTag EXTXMEDIASEQUENCE n # seg_tags segs @ (if vod then [Tag EXTXENDLIST] else [])"

lemma media_lines_ok:
  assumes "text_ok n" "\<forall>s \<in> set segs. seg_ok s" "l \<in> set (media_lines n segs vod)"
  shows "NL \<notin> set l \<and> CR \<notin> set l \<and> l \<noteq> []"
proof -
  consider "l \<in> {''#EXTM3U'', ''#EXT-X-ENDLIST''}" | "l = ''#EXT-X-MEDIA-SEQUENCE:'' @ n"
    | d t u where "(d, t, u) \<in> set segs" "l = extinf_line d t \<or> l = u"
    using assms(3) by (auto simp: media_lines_def split: if_splits)
  then show ?thesis
  proof cases
    case 3
    then have "seg_ok (d, t, u)" using assms(2) by blast
    then show ?thesis using 3 by (auto simp: seg_ok_def text_ok_def extinf_line_def)
  qed (use assms(1) in \<open>auto simp: text_ok_def\<close>)
qed

lemma parse_media:
  assumes "text_ok n" "n \<noteq> []" "\<forall>s \<in> set segs. seg_ok s"
  shows "ParseEntries (unlines (media_lines n segs vod)) = Inr (media_tags n segs vod)"
proof -
  let ?fin = "if vod then [''#EXT-X-ENDLIST''] else []"
  let ?segs = "concat (map (\<lambda>(d, t, u). [extinf_line d t, u]) segs)"
  have head: "ParseTag ''#EXTM3U'' ([], None) = Inr ([], None)"
    using parse_tag_plain [of "''M3U''" "[]" None] by (simp add: g_exttagmapping_def)
  have "CHR '':'' \<notin> set n" using assms(1) by (simp add: text_ok_def)
  then have "ParseTag (''#EXT'' @ ''-X-MEDIA-SEQUENCE'' @ CHR '':'' # n) ([], None) =
      Inr ([] @ [new_tag EXTXMEDIASEQUENCE n], Some (length ([] :: tag list)))"
    by (intro parse_tag_known) (simp_all add: g_exttagmapping_def assms(2))
  then have seq: "ParseTag (''#EXT-X-MEDIA-SEQUENCE:'' @ n) ([], None) = Inr ([SingleValueTag EXTXMEDIASEQUENCE n], Some 0)"
    by (simp add: new_tag_def)
  obtain lt where "parse_lines (?segs @ ?fin) ([SingleValueTag EXTXMEDIASEQUENCE n], Some 0) =
      parse_lines ?fin ([SingleValueTag EXTXMEDIASEQUENCE n] @ seg_tags segs, lt)"
    using parse_segs [OF assms(3), of ?fin] by blast
  moreover obtain lt' where
    "parse_lines ?fin ([SingleValueTag EXTXMEDIASEQUENCE n] @ seg_tags segs, lt) = Inr (media_tags n segs vod, lt')"
    using parse_tag_plain [of "''-X-ENDLIST''" "[SingleValueTag EXTXMEDIASEQUENCE n] @ seg_tags segs" lt]
    by (cases vod) (simp_all add: g_exttagmapping_def new_tag_def media_tags_def)
  ultimately have run: "parse_lines (media_lines n segs vod) ([], None) = Inr (media_tags n segs vod, lt')"
    using head seq by (simp add: media_lines_def)
  have "\<forall>l \<in> set (media_lines n segs vod). NL \<notin> set l \<and> CR \<notin> set l \<and> l \<noteq> []"
    using media_lines_ok [OF assms(1,3)] by blast
  moreover have "media_lines n segs vod \<noteq> []" by (simp add: media_lines_def)
  ultimately have "ParseEntries (unlines (media_lines n segs vod)) =
      (case parse_lines (media_lines n segs vod) ([], None) of Inl e \<Rightarrow> Inl e | Inr st \<Rightarrow> Inr (fst st))"
    by (rule ParseEntries_lines)
  then show ?thesis unfolding run by simp
qed

section \<open>Reading it back\<close>

definition seg_file :: "string \<Rightarrow> (string \<Rightarrow> 'd) \<Rightarrow> u64 \<Rightarrow> string \<times> string \<times> string \<Rightarrow> 'd fragment" where
  "seg_file base strtod q s = (case s of (d, t, u) \<Rightarrow>
     \<lparr>fg_uri = UriJoin base u, fg_title = CHR '','' # t, fg_duration = strtod d, fg_sequence = to_i32 (uint q), fg_discont = False\<rparr>)"

fun seg_files :: "string \<Rightarrow> (string \<Rightarrow> 'd) \<Rightarrow> u64 \<Rightarrow> (string \<times> string \<times> string) list \<Rightarrow> 'd fragment list" where
  "seg_files base strtod q [] = []"
| "seg_files base strtod q (s # segs) = seg_file base strtod q s # seg_files base strtod (q + 1) segs"

lemma UriJoin_nonempty: "u \<noteq> [] \<Longrightarrow> UriJoin base u \<noteq> []"
  by (simp add: UriJoin_def)

lemma update_segs:
  assumes "\<forall>s \<in> set segs. seg_ok s" "mi_uri info = []" "mi_title info = []" "mi_duration info = zero" "\<not> mi_discontinuity info"
  shows "update_tags zero strtod (seg_tags segs @ tags) (m, info) =
    update_tags zero strtod tags
      (m\<lparr>m3_files := m3_files m @ seg_files (m3_uri m) strtod (m3_sequence m) segs, m3_sequence := m3_sequence m + of_nat (length segs)\<rparr>, info)"
  using assms(1)
proof (induction segs arbitrary: m)
  case Nil
  then show ?case by (simp add: seg_tags_def)
next
  case (Cons s segs)
  obtain d t u where s: "s = (d, t, u)" by (cases s)
  then have ok: "seg_ok (d, t, u)" using Cons.prems by simp
  have g: "GetExtInf strtod (tag_attributes (extinf_tag d t)) = Inr (strtod d, CHR '','' # t)" by (rule extinf_attributes [OF ok])
  have ty: "GetType (extinf_tag d t) = EXTINF" by (simp add: extinf_tag_def new_tag_def)
  have q: "QuotedString u = u" "UriJoin (m3_uri m) u \<noteq> []" using ok UriJoin_nonempty by (auto simp: QuotedString_def seg_ok_def)
  let ?m = "m\<lparr>m3_files := m3_files m @ [seg_file (m3_uri m) strtod (m3_sequence m) s], m3_sequence := m3_sequence m + 1\<rparr>"
  have info: "info\<lparr>mi_uri := [], mi_title := [], mi_duration := zero, mi_discontinuity := False\<rparr> = info"
    using assms(2-5) by (cases info) simp
  have "update_tags zero strtod (seg_tags (s # segs) @ tags) (m, info) = update_tags zero strtod (seg_tags segs @ tags) (?m, info)"
    using assms(2,5) info g ty q by (simp add: seg_tags_def s tagUpdatersMap_def emit_file_def seg_file_def)
  also have "\<dots> = update_tags zero strtod tags
      (m\<lparr>m3_files := m3_files m @ seg_files (m3_uri m) strtod (m3_sequence m) (s # segs),
         m3_sequence := m3_sequence m + of_nat (length (s # segs))\<rparr>, info)"
    using Cons.IH [of ?m] Cons.prems by (simp add: algebra_simps)
  finally show ?case .
qed

lemma last_media_tags: "GetType (last (media_tags n segs vod)) = EXTXENDLIST \<longleftrightarrow> vod"
proof (cases segs rule: rev_cases)
  case Nil
  then show ?thesis by (simp add: media_tags_def seg_tags_def)
next
  case (snoc ss s)
  then show ?thesis by (cases s) (simp add: media_tags_def seg_tags_def)
qed

lemma media_not_master:
  assumes "text_ok n" "\<forall>s \<in> set segs. seg_ok s"
  shows "\<not> contains (unlines (media_lines n segs vod)) (NL # ''#EXT-X-STREAM-INF:'')"
proof
  let ?p = "''#EXT-X-STREAM-INF:''"
  assume c: "contains (unlines (media_lines n segs vod)) (NL # ?p)"
  obtain ls where ls: "media_lines n segs vod = ''#EXTM3U'' # ls" by (simp add: media_lines_def)
  have "\<forall>l \<in> set (''#EXTM3U'' # ls). NL \<notin> set l" using media_lines_ok [OF assms, of _ vod] unfolding ls by blast
  then have "\<exists>l \<in> set ls. take (length ?p) l = ?p"
    by (rule contains_line) (use c in \<open>simp_all only: ls\<close>, simp_all)
  then obtain l where l: "l \<in> set ls" "take (length ?p) l = ?p" by blast
  then consider "l = ''#EXT-X-MEDIA-SEQUENCE:'' @ n" | "l = ''#EXT-X-ENDLIST''" | d t u where "(d, t, u) \<in> set segs" "l = extinf_line d t \<or> l = u"
    using ls by (auto simp: media_lines_def split: if_splits)
  then show False
  proof cases
    case 3
    then have "u \<noteq> [] \<and> hd u \<noteq> CHR ''#''" using assms(2) by (auto simp: seg_ok_def)
    then show ?thesis using 3(2) l(2) by (cases u) (auto simp: extinf_line_def)
  qed (use l(2) in auto)
qed

section \<open>Reading never fails\<close>

lemma find_sub_member: "find_sub (c # p) s \<noteq> None \<Longrightarrow> c \<in> set s"
  by (rule ccontr) (simp add: find_sub_absent)

lemma split_rest_empty: "split_rest [c] s = [] \<Longrightarrow> set s \<subseteq> {c}"
proof (induction "[c]" s rule: split_rest.induct)
  case (1 s)
  show ?case
  proof (cases "find_sub [c] s")
    case None
    then show ?thesis using 1(2) by (subst (asm) split_rest.simps) (simp split: if_splits)
  next
    case (Some i)
    then have i: "i = 0" "split_rest [c] (drop (Suc i) s) = []"
      using 1(2) split_rest.simps [of "[c]" s] by (simp_all split: if_splits)
    then have "set (drop (Suc 0) s) \<subseteq> {c}" using 1(1) [OF Some] by simp
    moreover have "s = [] \<or> hd s = c" using Some i(1) by (cases s) (auto split: if_splits)
    ultimately show ?thesis by (cases s) auto
  qed
qed

lemma ParseTag_total: "hd line = CHR ''#'' \<Longrightarrow> line \<noteq> [] \<Longrightarrow> \<exists>st'. ParseTag line st = Inr st'"
proof (cases "find_sub ''#EXT'' line = None")
  case False
  assume l: "hd line = CHR ''#''" "line \<noteq> []"
  then obtain s where s: "line = CHR ''#'' # s" by (cases line) simp_all
  have "Split s '':'' \<noteq> []"
  proof
    assume "Split s '':'' = []"
    then have "s \<noteq> []" and colons: "set s \<subseteq> {CHR '':''}" using split_rest_empty by (auto simp: Split_def split: if_splits)
    show False
    proof (cases "take (length ''#EXT'') line = ''#EXT''")
      case True
      then show False using colons s by (cases s) auto
    next
      case other: False
      then have "find_sub ''#EXT'' line = map_option Suc (find_sub ''#EXT'' s)"
        unfolding s find_sub.simps by (simp only: if_False)
      then have "find_sub ''#EXT'' s \<noteq> None" using False by simp
      then show False using find_sub_member [of "CHR ''#''" "''EXT''" s] colons by auto
    qed
  qed
  then show ?thesis using s by (cases st) (auto simp: ParseTag_def Let_def split: option.split)
qed (auto simp: ParseTag_def)

lemma parse_lines_total: "\<exists>st'. parse_lines ls st = Inr st'"
proof (induction ls arbitrary: st)
  case (Cons l ls)
  then show ?case using ParseTag_total [of l st] by auto
qed simp

text \<open>A tag that is read stays, but for the uri of a stream.\<close>

lemma ParseTag_keeps:
  "ParseTag line (es, lt) = Inr (es', lt') \<Longrightarrow> i < length es \<Longrightarrow> i < length es' \<and> es' ! i = es ! i"
  by (auto simp: ParseTag_def Let_def nth_append split: if_splits option.splits)

lemma ParseURI_keeps:
  assumes "GetType (es ! i) \<noteq> EXTXSTREAMINF" "i < length es"
  shows "i < length (fst (ParseURI u (es, lt))) \<and> fst (ParseURI u (es, lt)) ! i = es ! i"
  using assms by (cases "lt = Some i") (auto simp: ParseURI_def nth_append intro: nth_list_update_neq split: option.split)

lemma parse_lines_keeps:
  "parse_lines ls (es, lt) = Inr st \<Longrightarrow> i < length es \<Longrightarrow> GetType (es ! i) \<noteq> EXTXSTREAMINF \<Longrightarrow>
   i < length (fst st) \<and> fst st ! i = es ! i"
proof (induction ls arbitrary: es lt)
  case (Cons l ls)
  consider "l = []" | "l \<noteq> []" "hd l = CHR ''#''" | "l \<noteq> []" "hd l \<noteq> CHR ''#''" by blast
  then show ?case
  proof cases
    case 1
    then show ?thesis using Cons.IH [of es None] Cons.prems by simp
  next
    case 2
    then obtain es' lt' where t: "ParseTag l (es, lt) = Inr (es', lt')" using ParseTag_total [of l "(es, lt)"] by auto
    then show ?thesis using Cons.IH [of es' lt'] Cons.prems 2 ParseTag_keeps [OF t] by simp
  next
    case 3
    obtain es' lt' where t: "ParseURI l (es, lt) = (es', lt')" by (cases "ParseURI l (es, lt)")
    then show ?thesis using Cons.IH [of es' lt'] Cons.prems 3 ParseURI_keeps [of es i l lt] by simp
  qed
qed auto

section \<open>Attribute lists and master playlists\<close>

definition escape :: "string \<Rightarrow> string" where
  "escape v = concat (map (\<lambda>c. if c = CHR 0x22 \<or> c = CHR 0x5C then [CHR 0x5C, c] else [c]) v)"

definition quote :: "string \<Rightarrow> string" where
  "quote v = CHR 0x22 # v @ [CHR 0x22]"

lemma escape_simps [simp]:
  "escape [] = []"
  "escape (c # v) = (if c = CHR 0x22 \<or> c = CHR 0x5C then [CHR 0x5C, c] else [c]) @ escape v"
  by (simp_all add: escape_def)

definition attr_text :: "string \<times> string \<Rightarrow> string" where
  "attr_text p = fst p @ CHR ''='' # quote (escape (snd p))"

text \<open>An attribute list: names with quoted values, commas between them.\<close>

definition attr_line :: "string \<times> string \<Rightarrow> (string \<times> string) list \<Rightarrow> string" where
  "attr_line p ps = attr_text p @ concat (map (\<lambda>p. CHR '','' # attr_text p) ps)"

lemma ParseAttributeName_skip:
  "\<forall>c \<in> set a. name_char c \<Longrightarrow> ParseAttributeName (a @ CHR ''='' # r) oss = (oss @ a, r, False)"
proof (induction a arbitrary: oss)
  case Nil
  show ?case by (simp add: name_char_def)
qed simp

lemma ParseAttributeValue_quoted:
  "ParseAttributeValue True (escape v @ CHR 0x22 # r) oss = (oss @ v @ [CHR 0x22], r, False)"
  by (induction v arbitrary: oss) auto

lemma ParseAttributeValue_quote: "ParseAttributeValue False (quote (escape v) @ r) [] = (quote v, r, False)"
  using ParseAttributeValue_quoted [of v r "[CHR 0x22]"] by (simp add: quote_def)

lemma ParseAttributes_comma: "ParseAttributes_loop (CHR '','' # r) = ParseAttributes_loop r"
proof -
  have "ParseAttributeName (CHR '','' # r) [] = ParseAttributeName r []" by (simp add: name_char_def)
  moreover have "length iss2 < length r" if "ParseAttributeName r [] = (n, iss1, False)" "ParseAttributeValue False iss1 [] = (v, iss2, e)"
    for n iss1 v iss2 e
    using ParseAttributeName_shorter [OF that(1)] ParseAttributeValue_le [OF that(2)] by simp
  ultimately show ?thesis
    by (subst (1 2) ParseAttributes_loop.simps) (auto split: prod.split if_splits, fastforce+)
qed

lemma ParseAttributes_Nil [simp]: "ParseAttributes_loop [] = []"
  by (simp add: ParseAttributes_loop.simps)

lemma ParseAttributes_attr:
  assumes "\<forall>c \<in> set a. name_char c" "a \<noteq> []"
  shows "ParseAttributes_loop (attr_text (a, v) @ r) = \<lparr>at_name = a, at_value = quote v\<rparr> # ParseAttributes_loop r"
proof -
  have "ParseAttributeName (attr_text (a, v) @ r) [] = (a, quote (escape v) @ r, False)"
    using ParseAttributeName_skip [OF assms(1), of "quote (escape v) @ r" "[]"] by (simp add: attr_text_def)
  moreover have "length r < length (attr_text (a, v) @ r)" by (simp add: attr_text_def)
  ultimately show ?thesis using assms(2) ParseAttributeValue_quote [of v r] by (subst ParseAttributes_loop.simps) simp
qed

lemma ParseAttributes_attrs:
  "\<forall>p \<in> set ps. (\<forall>c \<in> set (fst p). name_char c) \<and> fst p \<noteq> [] \<Longrightarrow>
   ParseAttributes_loop (concat (map (\<lambda>p. CHR '','' # attr_text p) ps)) = map (\<lambda>(a, v). \<lparr>at_name = a, at_value = quote v\<rparr>) ps"
  by (induction ps) (auto simp: ParseAttributes_comma ParseAttributes_attr)

lemma unescape_plain: "CHR 0x5C \<notin> set v \<Longrightarrow> unescape v = v"
  by (induction v) auto

lemma QuotedString_quote: "QuotedString (quote v) = unescape v"
  by (simp add: QuotedString_def quote_def)

text \<open>A number after the name of an attribute, to the end of the line.\<close>

lemma ParseAttributeValue_plain:
  "\<forall>c \<in> set v. digit_val c \<noteq> None \<Longrightarrow> ParseAttributeValue False v oss = (oss @ v, [], True)"
  by (induction v arbitrary: oss) (auto simp: digit_val_def Let_def split: if_splits)

definition stream_line :: "string \<Rightarrow> string" where
  "stream_line n = ''#EXT-X-STREAM-INF:BANDWIDTH='' @ n"

definition stream_attrs :: "string \<Rightarrow> attribute list" where
  "stream_attrs n = [\<lparr>at_name = ''BANDWIDTH'', at_value = n\<rparr>]"

lemma stream_attributes:
  assumes "\<forall>c \<in> set n. digit_val c \<noteq> None"
  shows "AttributesTag_ParseAttributes (''BANDWIDTH='' @ n) = stream_attrs n"
proof -
  have "ParseAttributeName (''BANDWIDTH'' @ CHR ''='' # n) [] = (''BANDWIDTH'', n, False)"
    using ParseAttributeName_skip [of "''BANDWIDTH''" n "[]"] by (simp add: name_char_def)
  then show ?thesis
    using ParseAttributeValue_plain [OF assms, of "[]"]
    by (simp add: AttributesTag_ParseAttributes_def stream_attrs_def ParseAttributes_loop.simps del: ParseAttributeName.simps)
qed

definition master_lines :: "(string \<times> string) list \<Rightarrow> string list" where
  "master_lines vs = ''#EXTM3U'' # concat (map (\<lambda>(n, u). [stream_line n, u]) vs)"

definition variant_ok :: "string \<times> string \<Rightarrow> bool" where
  "variant_ok v \<longleftrightarrow> (case v of (n, u) \<Rightarrow> n \<noteq> [] \<and> (\<forall>c \<in> set n. digit_val c \<noteq> None) \<and>
     u \<noteq> [] \<and> hd u \<noteq> CHR ''#'' \<and> hd u \<noteq> CHR 0x22 \<and> NL \<notin> set u \<and> CR \<notin> set u)"

definition stream_tag :: "string \<times> string \<Rightarrow> tag" where
  "stream_tag v = AttributesTag EXTXSTREAMINF (stream_attrs (fst v) @ [\<lparr>at_name = ''URI'', at_value = snd v\<rparr>])"

lemma digits_no: "\<forall>c \<in> set n. digit_val c \<noteq> None \<Longrightarrow> digit_val x = None \<Longrightarrow> x \<notin> set n"
  by auto

lemma no_digit [simp]: "digit_val NL = None" "digit_val CR = None" "digit_val CHR '':'' = None"
  by (simp_all add: digit_val_def)

lemma parse_variants:
  assumes "\<forall>v \<in> set vs. variant_ok v"
  shows "\<exists>lt'. parse_lines (concat (map (\<lambda>(n, u). [stream_line n, u]) vs)) (es, lt) = Inr (es @ map stream_tag vs, lt')"
  using assms
proof (induction vs arbitrary: es lt)
  case (Cons v vs)
  obtain n u where v: "v = (n, u)" by (cases v)
  have n: "n \<noteq> []" "\<forall>c \<in> set n. digit_val c \<noteq> None" and u: "u \<noteq> []" "hd u \<noteq> CHR ''#''" using Cons.prems v by (auto simp: variant_ok_def)
  let ?tag = "AttributesTag EXTXSTREAMINF (stream_attrs n)"
  have "new_tag EXTXSTREAMINF (''BANDWIDTH='' @ n) = ?tag" using stream_attributes [OF n(2)] by (simp add: new_tag_def)
  then have tag: "ParseTag (stream_line n) (es, lt) = Inr (es @ [?tag], Some (length es))"
    using parse_tag_known [of "''-X-STREAM-INF''" "''BANDWIDTH='' @ n" EXTXSTREAMINF es lt] digits_no [OF n(2), of "CHR '':''"]
    by (simp add: g_exttagmapping_def stream_line_def)
  have uri: "ParseURI u (es @ [?tag], Some (length es)) = (es @ [stream_tag v], None)" by (simp add: ParseURI_def stream_tag_def v)
  have "stream_line n \<noteq> []" "hd (stream_line n) = CHR ''#''" by (simp_all add: stream_line_def)
  then have "parse_lines (concat (map (\<lambda>(n, u). [stream_line n, u]) (v # vs))) (es, lt) =
      parse_lines (concat (map (\<lambda>(n, u). [stream_line n, u]) vs)) (es @ [stream_tag v], None)"
    using tag uri u by (simp add: v)
  then show ?case using Cons.IH [of "es @ [stream_tag v]" None] Cons.prems by simp
qed simp

lemma master_lines_ok: "\<forall>v \<in> set vs. variant_ok v \<Longrightarrow> l \<in> set (master_lines vs) \<Longrightarrow> NL \<notin> set l \<and> CR \<notin> set l \<and> l \<noteq> []"
proof -
  assume ok: "\<forall>v \<in> set vs. variant_ok v" and l: "l \<in> set (master_lines vs)"
  consider "l = ''#EXTM3U''" | n u where "(n, u) \<in> set vs" "l = stream_line n \<or> l = u"
    using l by (auto simp: master_lines_def)
  then show ?thesis
  proof cases
    case 2
    then have "\<forall>c \<in> set n. digit_val c \<noteq> None" "NL \<notin> set u \<and> CR \<notin> set u \<and> u \<noteq> []" using ok by (auto simp: variant_ok_def)
    then show ?thesis using 2(2) digits_no [of n NL] digits_no [of n CR] by (auto simp: stream_line_def)
  qed simp
qed

lemma parse_master:
  assumes "\<forall>v \<in> set vs. variant_ok v"
  shows "ParseEntries (unlines (master_lines vs)) = Inr (map stream_tag vs)"
proof -
  obtain lt' where "parse_lines (concat (map (\<lambda>(n, u). [stream_line n, u]) vs)) ([], None) = Inr (map stream_tag vs, lt')"
    using parse_variants [OF assms, of "[]" None] by auto
  moreover have "ParseTag ''#EXTM3U'' ([], None) = Inr ([], None)"
    using parse_tag_plain [of "''M3U''" "[]" None] by (simp add: g_exttagmapping_def)
  ultimately have run: "parse_lines (master_lines vs) ([], None) = Inr (map stream_tag vs, lt')" by (simp add: master_lines_def)
  have "ParseEntries (unlines (master_lines vs)) =
      (case parse_lines (master_lines vs) ([], None) of Inl e \<Rightarrow> Inl e | Inr st \<Rightarrow> Inr (fst st))"
    by (rule ParseEntries_lines) (use master_lines_ok [OF assms] in \<open>simp_all add: master_lines_def\<close>)
  then show ?thesis unfolding run by simp
qed

lemma master_not_media:
  assumes "\<forall>v \<in> set vs. variant_ok v"
  shows "\<not> contains (unlines (master_lines vs)) (NL # ''#EXTINF:'')"
proof
  let ?p = "''#EXTINF:''" and ?ls = "concat (map (\<lambda>(n, u). [stream_line n, u]) vs)"
  assume c: "contains (unlines (master_lines vs)) (NL # ?p)"
  have "\<forall>l \<in> set (''#EXTM3U'' # ?ls). NL \<notin> set l" using master_lines_ok [OF assms] by (simp add: master_lines_def)
  then have "\<exists>l \<in> set ?ls. take (length ?p) l = ?p"
    by (rule contains_line) (use c in \<open>simp_all only: master_lines_def\<close>, simp_all)
  then obtain n u where "(n, u) \<in> set vs" "take (length ?p) (stream_line n) = ?p \<or> take (length ?p) u = ?p" by auto
  moreover then have "u \<noteq> [] \<and> hd u \<noteq> CHR ''#''" using assms by (auto simp: variant_ok_def)
  ultimately show False by (cases u) (auto simp: stream_line_def)
qed

definition variant_of :: "'d \<Rightarrow> string \<Rightarrow> (string \<times> string) \<Rightarrow> 'd variant_stream" where
  "variant_of zero base v = (new_variant zero (snd v) (UriJoin base (snd v)) (new_m3u8 zero (UriJoin base (snd v)) (snd v)))
     \<lparr>va_bandWidth := projr (Decimal (fst v))\<rparr>"

lemma Decimal_digits:
  assumes "\<forall>c \<in> set n. digit_val c \<noteq> None" "n \<noteq> []"
  shows "\<exists>b. Decimal n = Inr b"
proof -
  have "\<not> is_space (hd n)" using assms by (cases n) (auto simp: is_space_def digit_val_def Let_def split: if_splits)
  then have "dropWhile is_space n \<noteq> []" using assms(2) by (cases n) simp_all
  then show ?thesis by (auto simp: Decimal_def split: prod.split option.split)
qed

lemma master_tags_variants:
  assumes "\<forall>v \<in> set vs. variant_ok v"
  shows "master_tags zero (map stream_tag vs) p =
    Inr (p\<lparr>mp_variants := mp_variants p @ map (variant_of zero (mp_uri p)) vs,
           mp_default := if vs = [] then mp_default p else Some (length (mp_variants p) + length vs - 1)\<rparr>)"
  using assms
proof (induction vs arbitrary: p)
  case (Cons v vs)
  have "\<forall>c \<in> set (fst v). digit_val c \<noteq> None" "fst v \<noteq> []" and u: "snd v \<noteq> []" "hd (snd v) \<noteq> CHR 0x22"
    using Cons.prems by (auto simp: variant_ok_def split: prod.splits)
  then obtain b where b: "Decimal (fst v) = Inr b" using Decimal_digits by blast
  let ?p = "p\<lparr>mp_variants := mp_variants p @ [variant_of zero (mp_uri p) v], mp_default := Some (length (mp_variants p))\<rparr>"
  have "QuotedString (snd v) = snd v" using u by (simp add: QuotedString_def)
  then have "master_tag zero (stream_tag v) p = Inr ?p"
    using b by (simp add: master_tag_def stream_tag_def stream_attrs_def GetAttributeByName_def variant_of_def Let_def)
  then show ?case using Cons.IH [of ?p] Cons.prems by simp
qed simp

section \<open>Properties\<close>



text \<open>
  Splitting a playlist into tags never fails: whatever the text of the playlist, each line that is
  taken for a tag has a name after its number sign, so the first piece is there when it is read.
\<close>

theorem playlist_tags_are_read: "\<exists>tags. ParseEntries s = Inr tags"
  using parse_lines_total by (simp add: ParseEntries_def Let_def) (metis (lifting) sum.case(2))

text \<open>
  A segment without the comma of its title is fatal: updating from a media playlist whose first
  segment has a duration only, as some playlists have, and whatever lines follow, reads the title
  through a null pointer.
\<close>

theorem extinf_without_comma_crashes:
  assumes "text_ok d" "CHR '','' \<notin> set d" "filter name_char d \<noteq> ''DURATION''" "filter name_char d \<noteq> ''TITLE''"
    and "dropWhile is_space d \<noteq> []"
    and "\<forall>l \<in> set ls. NL \<notin> set l \<and> CR \<notin> set l \<and> l \<noteq> [] \<and> take (length ''#EXT-X-STREAM-INF:'') l \<noteq> ''#EXT-X-STREAM-INF:''"
    and "m3_playList m \<noteq> unlines (''#EXTM3U'' # (''#EXTINF:'' @ d) # ls)"
  shows "m3_Update zero strtod (unlines (''#EXTM3U'' # (''#EXTINF:'' @ d) # ls)) m = Inl Null_Deref"
proof -
  let ?ls = "''#EXTM3U'' # (''#EXTINF:'' @ d) # ls" and ?p = "''#EXT-X-STREAM-INF:''" and ?tag = "new_tag EXTINF d"
  have d: "CHR '':'' \<notin> set d" "d \<noteq> []" "CHR ''='' \<notin> set d" using assms(1,5) by (auto simp: text_ok_def)
  have ok: "\<forall>l \<in> set ?ls. NL \<notin> set l \<and> CR \<notin> set l \<and> l \<noteq> []" using assms(1,6) by (auto simp: text_ok_def)
  have nm: "\<not> contains (unlines ?ls) (NL # ?p)"
  proof
    assume c: "contains (unlines ?ls) (NL # ?p)"
    have "\<exists>l \<in> set ((''#EXTINF:'' @ d) # ls). take (length ?p) l = ?p"
      by (rule contains_line [OF _ _ c]) (use ok in auto)
    then show False using assms(6) by auto
  qed
  have tag: "ParseTag ''#EXTM3U'' ([], None) = Inr ([], None)" "ParseTag (''#EXTINF:'' @ d) ([], None) = Inr ([?tag], Some 0)"
    using parse_tag_plain [of "''M3U''" "[]" None] parse_tag_known [of "''INF''" d EXTINF "[]" None] d
    by (simp_all add: g_exttagmapping_def)
  obtain st where st: "parse_lines ls ([?tag], Some 0) = Inr st" using parse_lines_total by blast
  have "0 < length (fst st) \<and> fst st ! 0 = ?tag" using parse_lines_keeps [OF st, of 0] by (simp add: new_tag_def)
  then obtain tags where tags: "fst st = ?tag # tags" by (cases "fst st") auto
  have "ParseEntries (unlines ?ls) = (case parse_lines ?ls ([], None) of Inl e \<Rightarrow> Inl e | Inr st \<Rightarrow> Inr (fst st))"
    by (rule ParseEntries_lines [OF ok]) simp
  then have entries: "ParseEntries (unlines ?ls) = Inr (?tag # tags)" using tag st tags by simp
  have "takeWhile (\<lambda>c. c \<noteq> CHR '','') d = d" using assms(2) by (auto simp: takeWhile_eq_all_conv)
  then have vl: "ValuesListTag_ParseAttributes d = [\<lparr>at_name = ''DURATION'', at_value = d\<rparr>]"
    by (simp only: ValuesListTag_ParseAttributes_def Let_def less_irrefl if_False)
  have attrs: "tag_attributes ?tag = AttributesTag_ParseAttributes d @ ValuesListTag_ParseAttributes d" by (simp add: new_tag_def)
  have "GetExtInf strtod (tag_attributes ?tag) = Inl Null_Deref"
    unfolding attrs vl attributes_without_value [OF d(3)]
    using assms(3-5) by (auto simp: GetExtInf_def GetAttributeByName_def FloatingPoint_def)
  then have "tagUpdatersMap strtod ?tag st = Inl Null_Deref" for st
    by (simp add: tagUpdatersMap_def new_tag_def split: prod.split)
  then have upd: "UpdateFromTags zero strtod (?tag # tags) m' = Inl Null_Deref" for m' by (simp add: UpdateFromTags_def Let_def)
  have "StrHasPrefix (unlines ?ls) ''#EXTM3U''" by (simp add: StrHasPrefix_def)
  then show ?thesis unfolding m3_Update_def using assms(7) nm entries upd by (simp only: if_False if_True not_True_eq_False sum.case)
qed

theorem extinf_without_comma_crashes_witness:
  "m3_Update 0 length (unlines (''#EXTM3U'' # (''#EXTINF:'' @ ''10'') # [''a.ts''])) (new_m3u8 0 ''u'' []) = Inl Null_Deref"
  by (rule extinf_without_comma_crashes) (simp_all add: text_ok_def name_char_def is_space_def new_m3u8_def)


text \<open>
  A list of attributes that was written is read back: names with quoted values, the quotes and
  backslashes in them escaped, give exactly these attributes in order, and the string that the
  program takes out of such a value is the one that was written when it has no backslash. (With
  one it is not: the escapes are taken away twice.)
\<close>

theorem attribute_list_roundtrip:
  assumes "\<forall>p \<in> set (p0 # ps). (\<forall>c \<in> set (fst p). name_char c) \<and> fst p \<noteq> []"
  shows "AttributesTag_ParseAttributes (attr_line p0 ps) = map (\<lambda>(a, v). \<lparr>at_name = a, at_value = quote v\<rparr>) (p0 # ps) \<and>
    map (\<lambda>at. QuotedString (at_value at)) (AttributesTag_ParseAttributes (attr_line p0 ps)) = map (\<lambda>(a, v). unescape v) (p0 # ps) \<and>
    (\<forall>v. CHR 0x5C \<in> set v \<or> unescape v = v)"
proof -
  have "AttributesTag_ParseAttributes (attr_line p0 ps) = map (\<lambda>(a, v). \<lparr>at_name = a, at_value = quote v\<rparr>) (p0 # ps)"
    using assms ParseAttributes_attrs [of ps]
    by (cases p0) (simp add: AttributesTag_ParseAttributes_def attr_line_def ParseAttributes_attr)
  then show ?thesis using unescape_plain by (cases p0) (auto simp: QuotedString_quote)
qed

theorem attribute_list_roundtrip_witness:
  "AttributesTag_ParseAttributes (attr_line (''URI'', ''a,b'') [(''GROUP-ID'', [CHR 0x5C, CHR ''x''])]) =
    [\<lparr>at_name = ''URI'', at_value = quote ''a,b''\<rparr>, \<lparr>at_name = ''GROUP-ID'', at_value = quote [CHR 0x5C, CHR ''x'']\<rparr>] \<and>
   map (\<lambda>at. QuotedString (at_value at)) (AttributesTag_ParseAttributes (attr_line (''URI'', ''a,b'') [(''GROUP-ID'', [CHR 0x5C, CHR ''x''])])) =
    [''a,b'', ''x'']"
proof -
  have "\<forall>p \<in> set ((''URI'', ''a,b'') # [(''GROUP-ID'', [CHR 0x5C, CHR ''x''])]). (\<forall>c \<in> set (fst p). name_char c) \<and> fst p \<noteq> []"
    by (simp add: name_char_def)
  then show ?thesis using attribute_list_roundtrip by fastforce
qed

text \<open>
  A master playlist that was written is read back: the variants are the streams that were
  written, in order, each with its uri joined to the playlist's and its bandwidth, it is not taken
  for a media playlist, and the one to play is the last, whatever the bandwidths.
\<close>

theorem master_playlist_roundtrip:
  assumes "\<forall>v \<in> set vs. variant_ok v"
  shows "\<exists>p. new_master_playlist zero plus_d strtod (unlines (master_lines vs)) base = Inr p \<and>
    mp_variants p = map (variant_of zero base) vs \<and> \<not> mp_isSimple p \<and>
    mp_default p = (if vs = [] then None else Some (length vs - 1))"
  using parse_master [OF assms] master_not_media [OF assms]
    master_tags_variants [OF assms, of zero "\<lparr>mp_variants = [], mp_default = None, mp_uri = base, mp_isSimple = False,
      mp_playList = unlines (master_lines vs), mp_duration = zero, mp_bLive = False\<rparr>"]
  by (simp add: new_master_playlist_def UpdateMasterPlaylist_def)

theorem master_playlist_roundtrip_witness:
  "\<exists>p. new_master_playlist 0 (+) length (unlines (master_lines [(''90'', ''hi/x.m3u8''), (''10'', ''lo.m3u8'')])) ''http://h/m.m3u8'' = Inr p \<and>
    mp_variants p = map (variant_of 0 ''http://h/m.m3u8'') [(''90'', ''hi/x.m3u8''), (''10'', ''lo.m3u8'')] \<and> mp_default p = Some (Suc 0)"
proof -
  have "\<forall>v \<in> set [(''90'', ''hi/x.m3u8''), (''10'', ''lo.m3u8'')]. variant_ok v" by (simp add: variant_ok_def digit_val_def)
  from master_playlist_roundtrip [OF this, of 0 "(+)" length "''http://h/m.m3u8''"] show ?thesis by auto
qed

end
