(* ===== verification/Hls_Download.thy ===== *)
theory Hls_Download
  imports Download_Monitor Hls_Props
begin

text \<open>
  HLS streams: the download of the playlist (playlist_downloader.cpp and hls_playlist_downloader.cpp of
  engine/plugin/plugins/source/http_source/hls) and of the fragments it names (hls_media_downloader.cpp).

  The durations are a type \<open>'d\<close> of floating-point numbers, as in M3u8; what the code needs of it is the
  record \<open>real_ops\<close>. A result \<open>None\<close> is a call that never returns: the mutex of a downloader is an ordinary
  one, and a thread that holds it and takes it again waits for itself. \<open>held\<close> says whether the caller is
  the loop of the downloader, which holds it during a transfer.
\<close>

record 'd real_ops =
  ro_zero :: 'd
  ro_plus :: "'d \<Rightarrow> 'd \<Rightarrow> 'd"
  ro_strtod :: "string \<Rightarrow> 'd"
  ro_trunc :: "'d \<Rightarrow> int"

type_synonym 'd play_info = "string \<times> 'd"

section \<open>The playlist\<close>

record 'd hls_playlist =
  pd_downloader :: downloader
  pd_text :: string
  pd_startedDownload :: bool
  pd_url :: string
  pd_master :: "'d master_playlist option"
  pd_current :: "nat option"
  pd_updates :: bool

definition new_hls_playlist :: "'d hls_playlist" where
  "new_hls_playlist = \<lparr>pd_downloader = new_downloader, pd_text = [], pd_startedDownload = False, pd_url = [], pd_master = None,
     pd_current = None, pd_updates = False\<rparr>"

text \<open>A new request for the whole of a file, and the start of the downloader.\<close>

definition DoOpen :: "bool \<Rightarrow> string \<Rightarrow> 'd hls_playlist \<Rightarrow> 'd hls_playlist option" where
  "DoOpen held url p =
     (if held then None
      else case dl_Download (new_request url True) (pd_downloader p) of
             (Blocks, d) \<Rightarrow> None
           | (Returns _, d) \<Rightarrow> Some (p\<lparr>pd_text := [], pd_downloader := dl_Start d\<rparr>))"

definition pd_Open :: "string \<Rightarrow> 'd hls_playlist \<Rightarrow> 'd hls_playlist option" where
  "pd_Open url p = DoOpen False url (p\<lparr>pd_url := url, pd_master := None\<rparr>)"

definition current_m3u8 :: "'d hls_playlist \<Rightarrow> 'd m3u8 option" where
  "current_m3u8 p = (case (pd_master p, pd_current p) of (Some m, Some i) \<Rightarrow> Some (va_m3u8 (mp_variants m ! i)) | _ \<Rightarrow> None)"

definition set_m3u8 :: "'d m3u8 \<Rightarrow> 'd hls_playlist \<Rightarrow> 'd hls_playlist" where
  "set_m3u8 m3 p =
     (case (pd_master p, pd_current p) of
        (Some m, Some i) \<Rightarrow> p\<lparr>pd_master := Some (m\<lparr>mp_variants := (mp_variants m)[i := (mp_variants m ! i)\<lparr>va_m3u8 := m3\<rparr>]\<rparr>)\<rparr>
      | _ \<Rightarrow> p)"

definition UpdateManifest :: "bool \<Rightarrow> 'd hls_playlist \<Rightarrow> 'd hls_playlist option" where
  "UpdateManifest held p =
     (case current_m3u8 p of
        None \<Rightarrow> Some p
      | Some m3 \<Rightarrow> if m3_uri m3 \<noteq> [] then DoOpen held (m3_uri m3) p else Some p)"

definition NotifyListChange :: "'d m3u8 \<Rightarrow> 'd play_info list" where
  "NotifyListChange m3 = map (\<lambda>f. (fg_uri f, fg_duration f)) (m3_files m3)"

text \<open>
  The text as it has come so far is parsed; the fragments to be told of, and the playlist after it. The
  playlist of a variant is read into the variant.
\<close>

definition update_current :: "'d real_ops \<Rightarrow> bool \<Rightarrow> 'd hls_playlist \<Rightarrow> (fault, 'd play_info list \<times> 'd hls_playlist) sum" where
  "update_current R simple p =
     (case current_m3u8 p of
        None \<Rightarrow> Inl Null_Deref
      | Some m3 \<Rightarrow>
          (case m3_Update (ro_zero R) (ro_strtod R) (pd_text p) m3 of
             Inl f \<Rightarrow> Inl f
           | Inr (ret, m4) \<Rightarrow>
               let p1 = set_m3u8 m4 p
               in Inr (if \<not> ret then ([], p1)
                       else (NotifyListChange m4,
                         if simple then p1
                         else p1\<lparr>pd_master := map_option (\<lambda>m. m\<lparr>mp_isSimple := True, mp_duration := GetDuration (ro_zero R) (ro_plus R) m4\<rparr>) (pd_master p1)\<rparr>))))"

definition ParseManifest :: "'d real_ops \<Rightarrow> bool \<Rightarrow> 'd hls_playlist \<Rightarrow> (fault, ('d play_info list \<times> 'd hls_playlist) option) sum" where
  "ParseManifest R held p =
     (case pd_master p of
        None \<Rightarrow>
          (case new_master_playlist (ro_zero R) (ro_plus R) (ro_strtod R) (pd_text p) (pd_url p) of
             Inl f \<Rightarrow> Inl f
           | Inr m \<Rightarrow>
               let p1 = p\<lparr>pd_master := Some m, pd_current := mp_default m\<rparr>
               in if \<not> mp_isSimple m then
                    Inr (map_option (\<lambda>p2. ([], p2\<lparr>pd_updates := True\<rparr>)) (UpdateManifest held p1))
                  else case current_m3u8 p1 of
                         None \<Rightarrow> Inl Null_Deref
                       | Some m3 \<Rightarrow> Inr (Some (NotifyListChange m3, p1\<lparr>pd_updates := True\<rparr>)))
      | Some m \<Rightarrow>
          map_sum id Some
            (update_current R (mp_isSimple m) (if mp_isSimple m then p else p\<lparr>pd_current := mp_default m\<rparr>)))"

text \<open>A piece of the text, which the loop of the downloader brings.\<close>

definition pd_SaveData :: "'d real_ops \<Rightarrow> string \<Rightarrow> 'd hls_playlist \<Rightarrow> (fault, ('d play_info list \<times> 'd hls_playlist) option) sum" where
  "pd_SaveData R piece p = ParseManifest R True (p\<lparr>pd_text := pd_text p @ piece, pd_startedDownload := True\<rparr>)"

text \<open>Every five seconds.\<close>

definition PlayListUpdateLoop :: "'d hls_playlist \<Rightarrow> 'd hls_playlist option" where
  "PlayListUpdateLoop p = UpdateManifest False p"

text \<open>A duration that cannot be represented leaves the time without a value.\<close>

definition duration_ns :: "'d real_ops \<Rightarrow> 'd \<Rightarrow> (fault, int) sum" where
  "duration_ns R d = (case Sec2HstTime (ro_trunc R d) of Some t \<Rightarrow> Inr t | None \<Rightarrow> Inl Uninitialised)"

definition pd_GetDuration :: "'d real_ops \<Rightarrow> 'd hls_playlist \<Rightarrow> (fault, int) sum" where
  "pd_GetDuration R p =
     (case pd_master p of None \<Rightarrow> Inr 0 | Some m \<Rightarrow> if mp_bLive m then Inr (- 1) else duration_ns R (mp_duration m))"

text \<open>It waits until there is a playlist of media; \<open>None\<close> while there is none.\<close>

definition pd_GetSeekable :: "'d hls_playlist \<Rightarrow> seekable option" where
  "pd_GetSeekable p =
     (case pd_master p of
        None \<Rightarrow> None
      | Some m \<Rightarrow> if mp_isSimple m then Some (if mp_bLive m then UNSEEKABLE else SEEKABLE) else None)"

definition pd_SelectBitRate :: "nat \<Rightarrow> 'd hls_playlist \<Rightarrow> (fault, 'd hls_playlist) sum" where
  "pd_SelectBitRate rate p =
     (case pd_master p of
        None \<Rightarrow> Inl Null_Deref
      | Some m \<Rightarrow>
          (case List.find (\<lambda>i. va_bandWidth (mp_variants m ! i) = rate) [0..<length (mp_variants m)] of
             None \<Rightarrow> Inr p | Some i \<Rightarrow> Inr (p\<lparr>pd_current := Some i\<rparr>)))"

definition IsBitrateSame :: "nat \<Rightarrow> 'd hls_playlist \<Rightarrow> (fault, bool) sum" where
  "IsBitrateSame rate p =
     (case (pd_master p, pd_current p) of (Some m, Some i) \<Rightarrow> Inr (rate = va_bandWidth (mp_variants m ! i)) | _ \<Rightarrow> Inl Null_Deref)"

definition GetBitRates :: "'d hls_playlist \<Rightarrow> (fault, nat list) sum" where
  "GetBitRates p =
     (case pd_master p of None \<Rightarrow> Inl Null_Deref | Some m \<Rightarrow> Inr (filter (\<lambda>b. b \<noteq> 0) (map va_bandWidth (mp_variants m))))"

definition pd_Resume :: "'d hls_playlist \<Rightarrow> 'd hls_playlist" where
  "pd_Resume p = p\<lparr>pd_downloader := dl_Resume (pd_downloader p), pd_updates := True\<rparr>"

definition pd_Pause :: "'d hls_playlist \<Rightarrow> 'd hls_playlist" where
  "pd_Pause p = p\<lparr>pd_updates := False, pd_downloader := dl_Pause (pd_downloader p)\<rparr>"

definition pd_Close :: "'d hls_playlist \<Rightarrow> 'd hls_playlist" where
  "pd_Close p = p\<lparr>pd_updates := False, pd_downloader := dl_Stop False (pd_downloader p)\<rparr>"

definition pd_Stop :: "'d hls_playlist \<Rightarrow> 'd hls_playlist" where
  "pd_Stop p = p\<lparr>pd_downloader := dl_Stop False (pd_downloader p)\<rparr>"

definition pd_Start :: "'d hls_playlist \<Rightarrow> 'd hls_playlist" where
  "pd_Start p = p\<lparr>pd_downloader := dl_Start (pd_downloader p)\<rparr>"

section \<open>The fragments\<close>

record 'd hls_media =
  hl_buffer :: ring
  hl_downloader :: downloader
  hl_playList :: "'d play_info bqueue"
  hl_fragmentDownloadStart :: "string list"
  hl_backPlayList :: "'d play_info list"
  hl_startedPlay :: bool
  hl_playlist :: "'d hls_playlist"
  hl_downloading :: bool

definition new_hls_media :: "'d hls_media" where
  "new_hls_media = \<lparr>hl_buffer = rb_Init (5 * 48 * 1024), hl_downloader = new_downloader, hl_playList = new_bqueue 50,
     hl_fragmentDownloadStart = [], hl_backPlayList = [], hl_startedPlay = False, hl_playlist = new_hls_playlist, hl_downloading = False\<rparr>"

text \<open>\<open>Blocks\<close> when the queue of requests is full: the caller waits with the mutex of the downloader.\<close>

definition PutRequestIntoDownloader :: "'d play_info \<Rightarrow> 'd hls_media \<Rightarrow> unit call \<times> 'd hls_media" where
  "PutRequestIntoDownloader info h =
     (let h1 = h\<lparr>hl_backPlayList := hl_backPlayList h @ [info]\<rparr>
      in case dl_Download (new_request (fst info) True) (hl_downloader h1) of
           (Blocks, d) \<Rightarrow> (Blocks, h1\<lparr>hl_downloader := d\<rparr>)
         | (Returns _, d) \<Rightarrow> (Returns (), h1\<lparr>hl_downloader := dl_Start d\<rparr>))"

definition FragmentDownloadLoop :: "'d hls_media \<Rightarrow> unit call \<times> 'd hls_media" where
  "FragmentDownloadLoop h =
     (case bl_Pop (hl_playList h) of
        (Blocks, q) \<Rightarrow> (Blocks, h\<lparr>hl_playList := q\<rparr>)
      | (Returns None, q) \<Rightarrow> (Returns (), h\<lparr>hl_playList := q\<rparr>)
      | (Returns (Some info), q) \<Rightarrow>
          if fst info = [] \<or> fst info \<in> set (hl_fragmentDownloadStart h) then (Returns (), h\<lparr>hl_playList := q\<rparr>)
          else PutRequestIntoDownloader info
                 (h\<lparr>hl_playList := q, hl_fragmentDownloadStart := fst info # hl_fragmentDownloadStart h\<rparr>))"

text \<open>The fragments are put into the queue one by one; the rest is left when one has to wait.\<close>

fun OnPlayListChanged :: "'d play_info list \<Rightarrow> 'd hls_media \<Rightarrow> 'd play_info list call \<times> 'd hls_media" where
  "OnPlayListChanged [] h = (Returns [], h)"
| "OnPlayListChanged (f # fs) h =
     (case bl_Push f (hl_playList h) of
        (Blocks, q) \<Rightarrow> (Blocks, h\<lparr>hl_playList := q\<rparr>)
      | (Returns _, q) \<Rightarrow> OnPlayListChanged fs (h\<lparr>hl_playList := q\<rparr>))"

definition hl_SaveData :: "(ring \<Rightarrow> ring) list \<Rightarrow> u8 list \<Rightarrow> 'd hls_media \<Rightarrow> bool option \<times> 'd hls_media" where
  "hl_SaveData envs piece h =
     (case rb_WriteBuffer envs piece (hl_buffer h) of (res, b) \<Rightarrow> (res, h\<lparr>hl_startedPlay := True, hl_buffer := b\<rparr>))"

definition hl_Open :: "string \<Rightarrow> 'd hls_media \<Rightarrow> (bool \<times> 'd hls_media) option" where
  "hl_Open url h = map_option (\<lambda>p. (True, h\<lparr>hl_playlist := p, hl_downloading := True\<rparr>)) (pd_Open url (hl_playlist h))"

definition hl_Close :: "bool \<Rightarrow> 'd hls_media \<Rightarrow> 'd hls_media" where
  "hl_Close isAsync h =
     h\<lparr>hl_buffer := rb_SetActive False True (hl_buffer h), hl_playList := bl_SetActive False True (hl_playList h), hl_downloading := False,
       hl_playlist := pd_Close (hl_playlist h), hl_downloader := dl_Stop False (hl_downloader h)\<rparr>"

definition hl_Pause :: "'d hls_media \<Rightarrow> 'd hls_media option" where
  "hl_Pause h =
     map_option (\<lambda>sk. let clean = (sk \<noteq> SEEKABLE)
       in h\<lparr>hl_buffer := rb_SetActive False clean (hl_buffer h), hl_playList := bl_SetActive False clean (hl_playList h),
            hl_playlist := pd_Pause (hl_playlist h), hl_downloading := False, hl_downloader := dl_Pause (hl_downloader h)\<rparr>)
       (pd_GetSeekable (hl_playlist h))"

definition hl_Resume :: "'d hls_media \<Rightarrow> 'd hls_media" where
  "hl_Resume h =
     h\<lparr>hl_buffer := rb_SetActive True True (hl_buffer h), hl_playList := bl_SetActive True True (hl_playList h),
       hl_playlist := pd_Resume (hl_playlist h), hl_downloading := True, hl_downloader := dl_Resume (hl_downloader h)\<rparr>"

definition hl_Read :: "(ring \<Rightarrow> ring) \<Rightarrow> nat \<Rightarrow> 'd hls_media \<Rightarrow> (bool \<times> u8 list \<times> bool) \<times> 'd hls_media" where
  "hl_Read env want h = (case rb_ReadBuffer env want 2 (hl_buffer h) of (bytes, b) \<Rightarrow> ((True, bytes, False), h\<lparr>hl_buffer := b\<rparr>))"

text \<open>
  The requests from a time on. The loop goes over the list to which putting a request adds: after the
  first its iterator is no longer valid.
\<close>

fun find_seek :: "'d real_ops \<Rightarrow> int \<Rightarrow> int \<Rightarrow> 'd play_info list \<Rightarrow> 'd hls_media \<Rightarrow> (fault, 'd hls_media) sum" where
  "find_seek R offset sofar [] h = Inr h"
| "find_seek R offset sofar (i # is) h =
     (case duration_ns R (snd i) of
        Inl f \<Rightarrow> Inl f
      | Inr t \<Rightarrow> if offset < sofar + t then Inl Dangling_Iterator else find_seek R offset (sofar + t) is h)"

definition FindSeekRequest :: "'d real_ops \<Rightarrow> int \<Rightarrow> 'd hls_media \<Rightarrow> (fault, 'd hls_media) sum" where
  "FindSeekRequest R offset h = find_seek R offset 0 (hl_backPlayList h) h"

definition hl_SeekToTime :: "'d real_ops \<Rightarrow> int \<Rightarrow> 'd hls_media \<Rightarrow> (fault, bool \<times> 'd hls_media) sum" where
  "hl_SeekToTime R offset h =
     (case rb_Seek (nat (offset mod 2 ^ 64)) (hl_buffer h) of
        (True, b) \<Rightarrow> Inr (True, h\<lparr>hl_buffer := b\<rparr>)
      | (False, b) \<Rightarrow>
          map_sum id (Pair True)
            (FindSeekRequest R offset (h\<lparr>hl_buffer := rb_Clear (hl_buffer h), hl_downloader := dl_Start (dl_Cancle (hl_downloader h))\<rparr>)))"

definition hl_GetStartedStatus :: "'d hls_media \<Rightarrow> bool" where
  "hl_GetStartedStatus h \<longleftrightarrow> pd_startedDownload (hl_playlist h) \<and> hl_startedPlay h"

text \<open>Changing the bit rate: everything of the old one is thrown away, and the new playlist asked for.\<close>

definition hl_SelectBitRate :: "nat \<Rightarrow> 'd hls_media \<Rightarrow> (fault, (bool \<times> 'd hls_media) option) sum" where
  "hl_SelectBitRate rate h =
     (case IsBitrateSame rate (hl_playlist h) of
        Inl f \<Rightarrow> Inl f
      | Inr True \<Rightarrow> Inr (Some (False, h))
      | Inr False \<Rightarrow>
          (case pd_SelectBitRate rate (pd_Stop (hl_playlist h)) of
             Inl f \<Rightarrow> Inl f
           | Inr p \<Rightarrow>
               Inr (map_option (\<lambda>p1. (True, h\<lparr>hl_buffer := rb_Clear (hl_buffer h), hl_downloader := dl_Start (dl_Stop False (hl_downloader h)),
                   hl_playList := bl_SetActive True True (bl_SetActive False True (hl_playList h)),
                   hl_fragmentDownloadStart := [], hl_backPlayList := [], hl_playlist := p1\<rparr>))
                 (UpdateManifest False (pd_Start p)))))"

section \<open>Turns of the two downloaders\<close>

definition hl_save :: "(dl_request \<Rightarrow> (ring \<Rightarrow> ring) list) \<Rightarrow> dl_request \<Rightarrow> 'd hls_media option \<Rightarrow> u8 list \<Rightarrow> bool \<times> 'd hls_media option" where
  "hl_save envs r s piece =
     (case s of
        None \<Rightarrow> (False, None)
      | Some h \<Rightarrow> (case hl_SaveData (envs r) piece h of (None, _) \<Rightarrow> (False, None) | (Some ok, h1) \<Rightarrow> (ok, Some h1)))"

definition hl_turn ::
  "(dl_request \<Rightarrow> (ring \<Rightarrow> ring) list) \<Rightarrow> (byte_range \<Rightarrow> transfer) \<Rightarrow> 'd hls_media \<Rightarrow> (fault, 'd hls_media option) sum" where
  "hl_turn envs server h =
     (case HttpDownloadLoop (\<lambda>q. q) server (hl_save envs) (hl_downloader h) (Some h) of
        Inl f \<Rightarrow> Inl f
      | Inr (d, s) \<Rightarrow> Inr (map_option (\<lambda>h1. h1\<lparr>hl_downloader := d\<rparr>) s))"

text \<open>The playlist's loop brings the characters of its text; the fragments it has told of are collected.\<close>

type_synonym 'd playlist_save = "(fault, ('d play_info list \<times> 'd hls_playlist) option) sum"

definition pd_save :: "'d real_ops \<Rightarrow> dl_request \<Rightarrow> 'd playlist_save \<Rightarrow> u8 list \<Rightarrow> bool \<times> 'd playlist_save" where
  "pd_save R r s piece =
     (case s of
        Inr (Some (told, p)) \<Rightarrow>
          (case pd_SaveData R (map (\<lambda>b. char_of (unat b)) piece) p of
             Inl f \<Rightarrow> (False, Inl f)
           | Inr None \<Rightarrow> (False, Inr None)
           | Inr (Some (news, p1)) \<Rightarrow> (True, Inr (Some (told @ news, p1))))
      | _ \<Rightarrow> (False, s))"

definition pd_turn :: "'d real_ops \<Rightarrow> (byte_range \<Rightarrow> transfer) \<Rightarrow> 'd hls_playlist \<Rightarrow> 'd playlist_save" where
  "pd_turn R server p =
     (case HttpDownloadLoop (\<lambda>q. q) server (pd_save R) (pd_downloader p) (Inr (Some ([], p))) of
        Inl f \<Rightarrow> Inl f
      | Inr (d, Inr (Some (told, p1))) \<Rightarrow> Inr (Some (told, p1\<lparr>pd_downloader := d\<rparr>))
      | Inr (d, s) \<Rightarrow> s)"

section \<open>Whole files\<close>

text \<open>A server that sends a whole file with its length. Requests for whole files set no range.\<close>

definition serves_whole :: "u8 list \<Rightarrow> (byte_range \<Rightarrow> transfer) \<Rightarrow> bool" where
  "serves_whole content server \<longleftrightarrow>
     (let tr = server Same_As_Before
      in tr_code tr = CURLE_OK \<and> tr_http tr < 400 \<and> concat (tr_pieces tr) = content \<and>
         (\<forall>r. \<not> hi_isClosed (rq_header r) \<longrightarrow> (\<exists>h. run_headers (tr_headers tr) r = Inr (r\<lparr>rq_header := h, rq_isHeaderUpdated := True\<rparr>) \<and>
            hi_fileContentLen h = hi_fileContentLen (rq_header r) \<and> hi_contentLen h = int (length content) \<and> \<not> hi_isClosed h)))"

text \<open>
  A place that takes every piece as long as it is live; a piece it cannot take leaves it stuck. The
  position of the data in what it holds need not be that of the request.
\<close>

locale patient_sink = body_sink +
  fixes live :: "'s \<Rightarrow> bool" and stuck :: "'s \<Rightarrow> bool"
  assumes patient: "live s \<Longrightarrow> save r s piece = (ok, s1) \<Longrightarrow> ok \<and> live s1 \<or> \<not> ok \<and> stuck s1"
    and stuck_stays: "stuck s \<Longrightarrow> save r s piece = (ok, s1) \<Longrightarrow> \<not> ok \<and> stuck s1"
begin

lemma run_pieces_stuck: "run_pieces save ps r s = (ok, r1, s1) \<Longrightarrow> stuck s \<Longrightarrow> stuck s1"
proof (induction ps arbitrary: r s)
  case (Cons p ps)
  obtain k r2 t where one: "RxBodyData save p r s = (k, r2, t)" by (metis prod_cases3)
  then have "stuck t" using Cons.prems(2) stuck_stays [OF Cons.prems(2)] by (auto simp: RxBodyData_def Let_def split: if_splits prod.splits)
  then show ?case using Cons.IH Cons.prems(1) one by (auto split: if_splits)
qed simp

lemma RxBodyData_patient:
  assumes "RxBodyData save p r s = (k, r2, t)" "live s" "holds media q s"
    and "take (length p) (drop q media) = p" "q + length p \<le> length media"
    and "\<not> hi_isClosed (rq_header r)" "hi_fileContentLen (rq_header r) > 0 \<or> hi_contentLen (rq_header r) > 0"
  shows "k \<and> live t \<and> holds media (q + length p) t \<and> rq_startPos r2 = rq_startPos r + length p \<and> rq_wholeFile r2 = rq_wholeFile r \<and>
      \<not> hi_isClosed (rq_header r2) \<and> hi_fileContentLen (rq_header r2) > 0 \<and>
      hi_fileContentLen (rq_header r2) = (if hi_fileContentLen (rq_header r) = 0 then nat (hi_contentLen (rq_header r)) else hi_fileContentLen (rq_header r))
    \<or> stuck t"
proof -
  let ?h = "rq_header r"
  let ?r = "(if hi_fileContentLen ?h = 0 then r\<lparr>rq_header := ?h\<lparr>hi_fileContentLen := nat (hi_contentLen ?h)\<rparr>\<rparr> else r)\<lparr>rq_isDownloading := True\<rparr>"
  obtain ok s1 where save: "save ?r s p = (ok, s1)" by fastforce
  note k = patient [OF assms(2) save] and h = saves [OF assms(3-5) save]
  have "(k, r2, t) = (if \<not> ok then (p = [], ?r, s1) else (True, ?r\<lparr>rq_isDownloading := False, rq_startPos := rq_startPos r + length p\<rparr>, s1))"
    using assms(1,6,7) save by (auto simp: RxBodyData_def Let_def)
  then show ?thesis using k h assms(6,7) by (cases ok) auto
qed

lemma run_pieces_patient:
  assumes "run_pieces save ps r s = (ok, r1, s1)" "live s" "holds media q s"
    and "take (length (concat ps)) (drop q media) = concat ps" "q + length (concat ps) \<le> length media"
    and "\<not> hi_isClosed (rq_header r)" "hi_fileContentLen (rq_header r) > 0 \<or> hi_contentLen (rq_header r) > 0"
  shows "ok \<and> live s1 \<and> holds media (q + length (concat ps)) s1 \<and> rq_startPos r1 = rq_startPos r + length (concat ps) \<and>
      rq_wholeFile r1 = rq_wholeFile r \<and> \<not> hi_isClosed (rq_header r1) \<and>
      (ps \<noteq> [] \<longrightarrow> hi_fileContentLen (rq_header r1) =
        (if hi_fileContentLen (rq_header r) = 0 then nat (hi_contentLen (rq_header r)) else hi_fileContentLen (rq_header r)))
    \<or> stuck s1"
  using assms
proof (induction ps arbitrary: r s q)
  case Nil
  then show ?case by auto
next
  case (Cons p ps)
  have "take (length p) (take (length (concat (p # ps))) (drop q media)) = p"
    unfolding Cons.prems(4) by simp
  then have piece: "take (length p) (drop q media) = p" by (simp add: min_def)
  have rest: "take (length (concat ps)) (drop (q + length p) media) = concat ps"
    using Cons.prems(4) piece by (simp add: take_add add.commute)
  have room: "q + length p \<le> length media" "q + length p + length (concat ps) \<le> length media" using Cons.prems(5) by simp_all
  obtain k r2 t where one: "RxBodyData save p r s = (k, r2, t)" by (metis prod_cases3)
  from RxBodyData_patient [OF one Cons.prems(2,3) piece room(1) Cons.prems(6,7)] show ?case
  proof
    assume "stuck t"
    then show ?thesis using Cons.prems(1) one run_pieces_stuck by (auto split: if_splits)
  next
    assume k: "k \<and> live t \<and> holds media (q + length p) t \<and> rq_startPos r2 = rq_startPos r + length p \<and> rq_wholeFile r2 = rq_wholeFile r \<and>
      \<not> hi_isClosed (rq_header r2) \<and> hi_fileContentLen (rq_header r2) > 0 \<and>
      hi_fileContentLen (rq_header r2) = (if hi_fileContentLen (rq_header r) = 0 then nat (hi_contentLen (rq_header r)) else hi_fileContentLen (rq_header r))"
    then have "run_pieces save ps r2 t = (ok, r1, s1)" using Cons.prems(1) one by simp
    from Cons.IH [OF this _ _ rest room(2)] k show ?thesis
      by (cases "ps = []") (use \<open>run_pieces save ps r2 t = _\<close> in \<open>auto simp: ac_simps\<close>)
  qed
qed

lemma whole_request:
  assumes "RequestData server save True (- 1) k r s = Inr (ret, sc, cc, r1, s1)" "serves_whole content server" "content \<noteq> []"
    and "live s" "holds media q s" "take (length content) (drop q media) = content" "q + length content \<le> length media"
    and "\<not> hi_isClosed (rq_header r)" "hi_fileContentLen (rq_header r) = 0 \<or> hi_fileContentLen (rq_header r) = length content"
  shows "ret = OK \<and> live s1 \<and> holds media (q + length content) s1 \<and> rq_startPos r1 = rq_startPos r + length content \<and>
      rq_wholeFile r1 = rq_wholeFile r \<and> \<not> hi_isClosed (rq_header r1) \<and> hi_fileContentLen (rq_header r1) = length content
    \<or> stuck s1"
proof -
  let ?tr = "server Same_As_Before"
  have tr: "tr_code ?tr = CURLE_OK" "tr_http ?tr < 400" "concat (tr_pieces ?tr) = content"
    using assms(2) by (simp_all add: serves_whole_def Let_def)
  obtain h where h: "run_headers (tr_headers ?tr) r = Inr (r\<lparr>rq_header := h, rq_isHeaderUpdated := True\<rparr>)"
    "hi_fileContentLen h = hi_fileContentLen (rq_header r)" "hi_contentLen h = int (length content)" "\<not> hi_isClosed h"
    using assms(2,8) unfolding serves_whole_def Let_def by metis
  let ?r = "r\<lparr>rq_header := h, rq_isHeaderUpdated := True\<rparr>"
  obtain ok r2 s2 where ps: "run_pieces save (tr_pieces ?tr) ?r s = (ok, r2, s2)" by (metis prod_cases3)
  have eq: "s1 = s2" "r1 = r2" "ok \<Longrightarrow> ret = OK"
    using assms(1) h(1) ps tr(1,2) by (auto simp: RequestData_def request_range_def Let_def split: if_splits)
  have "tr_pieces ?tr \<noteq> []" using tr(3) assms(3) by auto
  moreover have "hi_contentLen (rq_header ?r) > 0" using h(3) assms(3) by simp
  ultimately show ?thesis
    using run_pieces_patient [OF ps assms(4,5), unfolded tr(3), OF assms(6,7)] h assms(9) eq by auto
qed

lemma whole_turn:
  assumes "dl_shouldStartNext d" "bl_active (dl_que d)" "bl_que (dl_que d) = new_request url True # rest" "url \<noteq> []"
    and "serves_whole content server" "content \<noteq> []"
    and "live s" "holds media q s" "take (length content) (drop q media) = content" "q + length content \<le> length media"
    and "HttpDownloadLoop (\<lambda>q. q) server save d s = Inr (d1, s1)"
  shows "live s1 \<and> holds media (q + length content) s1 \<and> dl_shouldStartNext d1 \<and> bl_active (dl_que d1) \<and> bl_que (dl_que d1) = rest
    \<or> stuck s1"
proof -
  let ?r = "(new_request url True)\<lparr>rq_requestSize := 1\<rparr>"
  obtain que where pop: "bl_Pop_timed (\<lambda>q. q) (dl_que d) = (Some (new_request url True), que)" "bl_que que = rest" "bl_active que"
    using assms(2,3) by (simp add: bl_Pop_timed_def bl_Empty_def notify_one_full_def Let_def)
  let ?d = "d\<lparr>dl_que := que, dl_connected := True, dl_current := Some ?r, dl_shouldStartNext := False\<rparr>"
  obtain ret sc cc r1 where req: "RequestData server save True (- 1) 1 ?r s = Inr (ret, sc, cc, r1, s1)"
    "d1 = (let r2 = r1\<lparr>rq_clientError := cc, rq_serverError := sc\<rparr>
           in if ret = OK then HandleRetOK r2 (?d\<lparr>dl_current := Some r2\<rparr>)
              else dl_call Task_PauseAsync (dl_call Status_Partial (?d\<lparr>dl_current := Some r2\<rparr>)))"
    using assms(1,4,11) pop(1)
    by (auto simp: HttpDownloadLoop_def BeginDownload_def new_request_def Let_def split: sum.splits if_splits)
  have r: "\<not> hi_isClosed (rq_header ?r)" "hi_fileContentLen (rq_header ?r) = 0 \<or> hi_fileContentLen (rq_header ?r) = length content" "rq_startPos ?r = 0"
    by (simp_all add: new_request_def)
  from whole_request [OF req(1) assms(5-10) r(1,2)] show ?thesis
  proof
    assume "ret = OK \<and> live s1 \<and> holds media (q + length content) s1 \<and> rq_startPos r1 = rq_startPos ?r + length content \<and>
      rq_wholeFile r1 = rq_wholeFile ?r \<and> \<not> hi_isClosed (rq_header r1) \<and> hi_fileContentLen (rq_header r1) = length content"
    then show ?thesis using req(2) pop(2,3) assms(6) r(3) by (simp add: HandleRetOK_def dl_call_def Let_def)
  qed simp
qed

end

section \<open>The fragments' downloader as a place for data\<close>

text \<open>Its ring is a window of the data, and the lists are those it had.\<close>

definition hl_holds :: "'d hls_media \<Rightarrow> u8 list \<Rightarrow> nat \<Rightarrow> 'd hls_media option \<Rightarrow> bool" where
  "hl_holds h0 media p s \<longleftrightarrow>
     (case s of
        None \<Rightarrow> True
      | Some h \<Rightarrow> window media p (hl_buffer h) \<and> hl_playList h = hl_playList h0 \<and> hl_fragmentDownloadStart h = hl_fragmentDownloadStart h0)"

definition hl_live :: "'d hls_media option \<Rightarrow> bool" where
  "hl_live s \<longleftrightarrow> (case s of None \<Rightarrow> False | Some h \<Rightarrow> rb_active (hl_buffer h))"

lemma reads_active [simp]: "rb_active (reads n r) = rb_active r"
  by (simp add: reads_def rb_ReadBuffer_def Let_def)

text \<open>A writer that only waits for readers is not turned away.\<close>

lemma WriteBuffer_active:
  "rb_WriteBuffer (map reads ns) xs r = (res, b) \<Longrightarrow> rb_active r \<Longrightarrow> res \<noteq> Some False \<and> rb_active b"
proof (induction ns arbitrary: r)
  case Nil
  then show ?case by (auto simp: rb_write_now_def split: if_splits)
next
  case (Cons n ns)
  have "rb_active (reads n r)" using Cons.prems(2) by simp
  then show ?case using Cons by (auto simp: rb_write_now_def split: if_splits)
qed

interpretation hls: patient_sink "hl_save (\<lambda>r. map reads (script r))" "hl_holds h0" hl_live "\<lambda>s. s = None" for script h0
proof unfold_locales
  fix media :: "u8 list" and p and s :: "'a hls_media option" and piece r ok s1
  assume w: "hl_holds h0 media p s" and piece: "take (length piece) (drop p media) = piece" "p + length piece \<le> length media"
    and save: "hl_save (\<lambda>r. map reads (script r)) r s piece = (ok, s1)"
  show "hl_holds h0 media (if ok then p + length piece else p) s1"
  proof (cases s)
    case None
    then show ?thesis using save by (simp add: hl_save_def hl_holds_def)
  next
    case (Some h)
    obtain res b where wb: "rb_WriteBuffer (map reads (script r)) piece (hl_buffer h) = (res, b)" by fastforce
    have "window media p (hl_buffer h)" using w Some by (simp add: hl_holds_def)
    from WriteBuffer_window [OF wb this piece] show ?thesis using w save wb Some by (cases res) (auto simp: hl_save_def hl_SaveData_def hl_holds_def)
  qed
next
  fix s :: "'a hls_media option" and r piece ok s1
  assume live: "hl_live s" and save: "hl_save (\<lambda>r. map reads (script r)) r s piece = (ok, s1)"
  obtain h where h: "s = Some h" "rb_active (hl_buffer h)" using live by (auto simp: hl_live_def split: option.splits)
  obtain res b where wb: "rb_WriteBuffer (map reads (script r)) piece (hl_buffer h) = (res, b)" by fastforce
  from WriteBuffer_active [OF wb h(2)] show "ok \<and> hl_live s1 \<or> \<not> ok \<and> s1 = None"
    using save wb h(1) by (cases res) (auto simp: hl_save_def hl_SaveData_def hl_live_def)
qed (simp add: hl_save_def)

section \<open>Fragments in order\<close>

text \<open>The urls that are fetched: each at its first mention, and not the empty one.\<close>

definition first_uris :: "string list \<Rightarrow> string list" where
  "first_uris us = filter (\<lambda>u. u \<noteq> []) (rev (remdups (rev us)))"

lemma first_uris_Nil [simp]: "first_uris [] = []"
  by (simp add: first_uris_def)

lemma first_uris_snoc: "first_uris (us @ [u]) = (if u = [] \<or> u \<in> set us then first_uris us else first_uris us @ [u])"
  by (simp add: first_uris_def)

lemma set_first_uris: "set (first_uris us) = set us - {[]}"
  by (auto simp: first_uris_def)

lemma first_uris_append: "\<exists>vs. first_uris (us @ ws) = first_uris us @ vs"
proof (induction ws rule: rev_induct)
  case (snoc w ws)
  then obtain vs where vs: "first_uris (us @ ws) = first_uris us @ vs" by blast
  have "first_uris (us @ ws @ [w]) = (if w = [] \<or> w \<in> set (us @ ws) then first_uris us @ vs else first_uris us @ vs @ [w])"
    unfolding append_assoc [symmetric] first_uris_snoc by (simp add: vs)
  then show ?case by (cases "w = [] \<or> w \<in> set (us @ ws)") auto
qed simp

text \<open>
  The media of a stream: the playlist tells of fragments, the loop asks for them, the downloader fetches
  the files of the web, a reader reads.
\<close>

inductive hls_run :: "(string \<Rightarrow> u8 list) \<Rightarrow> string list \<Rightarrow> 'd hls_media \<Rightarrow> bool" for web where
  hls_Start: "hls_run web [] (new_hls_media\<lparr>hl_playlist := p\<rparr>)"
| hls_Told: "hls_run web told h \<Longrightarrow> OnPlayListChanged fs h = (Returns [], h1) \<Longrightarrow> hls_run web (told @ map fst fs) h1"
| hls_Ask: "hls_run web told h \<Longrightarrow> FragmentDownloadLoop h = (Returns (), h1) \<Longrightarrow> hls_run web told h1"
| hls_Turn: "hls_run web told h \<Longrightarrow> bl_que (dl_que (hl_downloader h)) = r # rs \<Longrightarrow> serves_whole (web (rq_url r)) server \<Longrightarrow>
    hl_turn (\<lambda>r. map reads (script r)) server h = Inr (Some h1) \<Longrightarrow> hls_run web told h1"
| hls_Reads: "hls_run web told h \<Longrightarrow> hls_run web told (h\<lparr>hl_buffer := reads n (hl_buffer h)\<rparr>)"

definition stream_of :: "(string \<Rightarrow> u8 list) \<Rightarrow> string list \<Rightarrow> u8 list" where
  "stream_of web us = concat (map web us)"

definition hls_ok :: "(string \<Rightarrow> u8 list) \<Rightarrow> string list \<Rightarrow> 'd hls_media \<Rightarrow> bool" where
  "hls_ok web told h \<longleftrightarrow>
     (\<exists>asked fetched wanted. told = asked @ map fst (bl_que (hl_playList h)) \<and>
        set (hl_fragmentDownloadStart h) = set asked - {[]} \<and> first_uris asked = fetched @ wanted \<and>
        bl_que (dl_que (hl_downloader h)) = map (\<lambda>u. new_request u True) wanted \<and>
        window (stream_of web (first_uris told)) (length (stream_of web fetched)) (hl_buffer h)) \<and>
     rb_active (hl_buffer h) \<and> bl_active (hl_playList h) \<and> dl_shouldStartNext (hl_downloader h) \<and> bl_active (dl_que (hl_downloader h))"

lemma window_more: "window media p r \<Longrightarrow> p \<le> length media \<Longrightarrow> window (media @ xs) p r"
  by (simp add: window_def)

lemma Push_que: "bl_Push x q = (Returns k, q1) \<Longrightarrow> bl_active q \<Longrightarrow> bl_que q1 = bl_que q @ [x] \<and> bl_active q1"
  by (auto simp: bl_Push_def push_wait_def push_done_def notify_all_empty_def split: if_splits)

lemma Pop_que: "bl_Pop q = (Returns k, q1) \<Longrightarrow> bl_active q \<Longrightarrow> \<exists>x. k = Some x \<and> bl_que q = x # bl_que q1 \<and> bl_active q1"
  by (auto simp: bl_Pop_def pop_wait_def pop_done_def bl_Empty_def notify_one_full_def split: if_splits list.splits)

lemma OnPlayListChanged_que:
  "OnPlayListChanged fs h = (Returns k, h1) \<Longrightarrow> bl_active (hl_playList h) \<Longrightarrow>
    \<exists>q. h1 = h\<lparr>hl_playList := q\<rparr> \<and> bl_que q = bl_que (hl_playList h) @ fs \<and> bl_active q"
proof (induction fs arbitrary: h)
  case Nil
  then show ?case by (intro exI [of _ "hl_playList h"]) simp
next
  case (Cons f fs)
  obtain k1 q where push: "bl_Push f (hl_playList h) = (k1, q)" by fastforce
  then obtain k2 where k: "k1 = Returns k2" "OnPlayListChanged fs (h\<lparr>hl_playList := q\<rparr>) = (Returns k, h1)"
    using Cons.prems(1) by (cases k1) auto
  then have "bl_que q = bl_que (hl_playList h) @ [f]" "bl_active q" using Push_que [OF push [unfolded k(1)] Cons.prems(2)] by auto
  with Cons.IH [OF k(2)] show ?case by auto
qed

lemma Put_que:
  assumes "PutRequestIntoDownloader info h = (Returns (), h1)"
  shows "bl_que (dl_que (hl_downloader h1)) = bl_que (dl_que (hl_downloader h)) @ [new_request (fst info) True] \<and>
    bl_active (dl_que (hl_downloader h1)) \<and> dl_shouldStartNext (hl_downloader h1) = dl_shouldStartNext (hl_downloader h) \<and>
    hl_buffer h1 = hl_buffer h \<and> hl_playList h1 = hl_playList h \<and> hl_fragmentDownloadStart h1 = hl_fragmentDownloadStart h"
proof -
  let ?q = "bl_SetActive True True (dl_que (hl_downloader h))"
  obtain k q where push: "bl_Push (new_request (fst info) True) ?q = (k, q)" by fastforce
  then obtain j where k: "k = Returns j"
    using assms by (cases k) (auto simp: PutRequestIntoDownloader_def dl_Download_def dl_SetActive_def Let_def)
  have "bl_active ?q" by (simp add: bl_SetActive_def Let_def)
  from Push_que [OF push [unfolded k] this] show ?thesis
    using assms push k
    by (auto simp: PutRequestIntoDownloader_def dl_Download_def dl_SetActive_def dl_Start_def dl_call_def bl_SetActive_def Let_def)
qed

lemma stream_of_append [simp]: "stream_of web (us @ vs) = stream_of web us @ stream_of web vs"
  by (simp add: stream_of_def)

lemma hls_turn_ok:
  assumes "hls_ok web told h" "\<And>u. web u \<noteq> []" "bl_que (dl_que (hl_downloader h)) = r # rs" "serves_whole (web (rq_url r)) server"
    and "hl_turn (\<lambda>r. map reads (script r)) server h = Inr (Some h1)"
  shows "hls_ok web told h1"
proof -
  obtain asked fetched wanted where ok: "told = asked @ map fst (bl_que (hl_playList h))"
    "set (hl_fragmentDownloadStart h) = set asked - {[]}" "first_uris asked = fetched @ wanted"
    "bl_que (dl_que (hl_downloader h)) = map (\<lambda>u. new_request u True) wanted"
    "window (stream_of web (first_uris told)) (length (stream_of web fetched)) (hl_buffer h)"
    and act: "rb_active (hl_buffer h)" "bl_active (hl_playList h)" "dl_shouldStartNext (hl_downloader h)" "bl_active (dl_que (hl_downloader h))"
    using assms(1) unfolding hls_ok_def by auto
  obtain u us where u: "wanted = u # us" "r = new_request u True" "rs = map (\<lambda>u. new_request u True) us"
    using ok(4) assms(3) by (cases wanted) auto
  obtain vs where vs: "first_uris told = fetched @ u # us @ vs" using first_uris_append [of asked] ok(1,3) u(1) by force
  have "u \<in> set (first_uris asked)" using ok(3) u(1) by simp
  then have ne: "u \<noteq> []" by (simp add: set_first_uris)
  obtain d s where loop: "HttpDownloadLoop (\<lambda>q. q) server (hl_save (\<lambda>r. map reads (script r))) (hl_downloader h) (Some h) = Inr (d, Some s)"
    "h1 = s\<lparr>hl_downloader := d\<rparr>"
    using assms(5) by (auto simp: hl_turn_def split: sum.splits prod.splits)
  let ?p = "length (stream_of web fetched)" and ?m = "stream_of web (first_uris told)"
  have m: "?m = stream_of web fetched @ web u @ stream_of web (us @ vs)" by (simp add: vs stream_of_def)
  have serve: "serves_whole (web u) server" using assms(4) u(2) by (simp add: new_request_def)
  have "bl_que (dl_que (hl_downloader h)) = new_request u True # rs" using assms(3) u(2) by simp
  from hls.whole_turn [OF act(3,4) this ne serve assms(2) _ _ _ _ loop(1), of h ?m ?p]
  have *: "rb_active (hl_buffer s) \<and> window ?m (?p + length (web u)) (hl_buffer s) \<and> dl_shouldStartNext d \<and> bl_active (dl_que d) \<and> bl_que (dl_que d) = rs"
    and same: "hl_playList s = hl_playList h \<and> hl_fragmentDownloadStart s = hl_fragmentDownloadStart h"
    using ok(5) act(1) by (simp_all add: hl_live_def hl_holds_def m)
  have "window ?m (length (stream_of web (fetched @ [u]))) (hl_buffer h1)" using * loop(2) by (simp add: stream_of_def)
  then show ?thesis
    unfolding hls_ok_def
    using ok(1-3) u * same loop(2) act(2)
    by (intro conjI exI [of _ asked] exI [of _ "fetched @ [u]"] exI [of _ us]) simp_all
qed

lemma hls_start_ok: "hls_ok web [] (new_hls_media\<lparr>hl_playlist := p\<rparr>)"
  by (simp add: hls_ok_def new_hls_media_def new_downloader_def new_bqueue_def stream_of_def window_def rb_Init_def rb_ok_def rb_GetSize_def
      rb_contents_def)

lemma hls_told_ok:
  assumes "hls_ok web told h" "OnPlayListChanged fs h = (Returns [], h1)"
  shows "hls_ok web (told @ map fst fs) h1"
proof -
  obtain asked fetched wanted where ok: "told = asked @ map fst (bl_que (hl_playList h))"
    "set (hl_fragmentDownloadStart h) = set asked - {[]}" "first_uris asked = fetched @ wanted"
    "bl_que (dl_que (hl_downloader h)) = map (\<lambda>u. new_request u True) wanted"
    "window (stream_of web (first_uris told)) (length (stream_of web fetched)) (hl_buffer h)"
    and act: "rb_active (hl_buffer h)" "bl_active (hl_playList h)" "dl_shouldStartNext (hl_downloader h)" "bl_active (dl_que (hl_downloader h))"
    using assms(1) unfolding hls_ok_def by auto
  obtain q where q: "h1 = h\<lparr>hl_playList := q\<rparr>" "bl_que q = bl_que (hl_playList h) @ fs" "bl_active q"
    using OnPlayListChanged_que [OF assms(2) act(2)] by blast
  obtain vs where vs: "first_uris (told @ map fst fs) = first_uris told @ vs" using first_uris_append by blast
  obtain ws where ws: "first_uris told = fetched @ wanted @ ws" using first_uris_append [of asked] ok(1,3) by force
  have "window (stream_of web (first_uris (told @ map fst fs))) (length (stream_of web fetched)) (hl_buffer h)"
    unfolding vs stream_of_append by (rule window_more [OF ok(5)]) (simp add: ws)
  then show ?thesis
    unfolding hls_ok_def using ok q act
    by (intro conjI exI [of _ asked] exI [of _ fetched] exI [of _ wanted]) simp_all
qed

lemma hls_ask_ok:
  assumes "hls_ok web told h" "FragmentDownloadLoop h = (Returns (), h1)"
  shows "hls_ok web told h1"
proof -
  obtain asked fetched wanted where ok: "told = asked @ map fst (bl_que (hl_playList h))"
    "set (hl_fragmentDownloadStart h) = set asked - {[]}" "first_uris asked = fetched @ wanted"
    "bl_que (dl_que (hl_downloader h)) = map (\<lambda>u. new_request u True) wanted"
    "window (stream_of web (first_uris told)) (length (stream_of web fetched)) (hl_buffer h)"
    and act: "rb_active (hl_buffer h)" "bl_active (hl_playList h)" "dl_shouldStartNext (hl_downloader h)" "bl_active (dl_que (hl_downloader h))"
    using assms(1) unfolding hls_ok_def by auto
  obtain k q where pop: "bl_Pop (hl_playList h) = (k, q)" by fastforce
  then obtain j where "k = Returns j" using assms(2) by (cases k) (auto simp: FragmentDownloadLoop_def)
  with Pop_que [of "hl_playList h" j q] pop act(2) obtain x where x: "k = Returns (Some x)" "bl_que (hl_playList h) = x # bl_que q" "bl_active q" by auto
  let ?h = "h\<lparr>hl_playList := q\<rparr>"
  have told: "told = (asked @ [fst x]) @ map fst (bl_que q)" using ok(1) x(2) by simp
  show ?thesis
  proof (cases "fst x = [] \<or> fst x \<in> set (hl_fragmentDownloadStart h)")
    case True
    then have "h1 = ?h" using assms(2) pop x(1) by (simp add: FragmentDownloadLoop_def)
    moreover have "first_uris (asked @ [fst x]) = first_uris asked" "set (asked @ [fst x]) - {[]} = set asked - {[]}"
      using True ok(2) by (auto simp: first_uris_snoc)
    ultimately show ?thesis
      unfolding hls_ok_def using ok told x act
      by (intro conjI exI [of _ "asked @ [fst x]"] exI [of _ fetched] exI [of _ wanted]) simp_all
  next
    case False
    let ?g = "?h\<lparr>hl_fragmentDownloadStart := fst x # hl_fragmentDownloadStart h\<rparr>"
    have "PutRequestIntoDownloader x ?g = (Returns (), h1)" using assms(2) pop x(1) False by (auto simp: FragmentDownloadLoop_def split: if_splits)
    note put = Put_que [OF this]
    have "first_uris (asked @ [fst x]) = fetched @ wanted @ [fst x]" "set (fst x # hl_fragmentDownloadStart h) = set (asked @ [fst x]) - {[]}"
      using False ok(2,3) by (auto simp: first_uris_snoc)
    then show ?thesis
      unfolding hls_ok_def using ok told x put act
      by (intro conjI exI [of _ "asked @ [fst x]"] exI [of _ fetched] exI [of _ "wanted @ [fst x]"]) simp_all
  qed
qed

lemma hls_reads_ok: "hls_ok web told h \<Longrightarrow> hls_ok web told (h\<lparr>hl_buffer := reads n (hl_buffer h)\<rparr>)"
  unfolding hls_ok_def by simp (blast intro: reads_window)

lemma hls_run_ok: "hls_run web told h \<Longrightarrow> (\<And>u. web u \<noteq> []) \<Longrightarrow> hls_ok web told h"
proof (induction rule: hls_run.induct)
  case (hls_Turn told h r rs server script h1)
  then show ?case using hls_turn_ok by blast
qed (auto intro: hls_start_ok hls_told_ok hls_ask_ok hls_reads_ok)


definition whole_server :: "byte_range \<Rightarrow> transfer" where
  "whole_server _ = \<lparr>tr_headers = [''Content-Length: 3''], tr_pieces = [[7, 8], [9]], tr_code = CURLE_OK, tr_http = 200\<rparr>"

lemma length_header_3:
  "RxHeaderData ''Content-Length: 3'' r = Inr (r\<lparr>rq_header := (rq_header r)\<lparr>hi_contentLen := 3\<rparr>, rq_isHeaderUpdated := True\<rparr>)"
proof -
  have "strtok ''Content-Length: 3'' = Some (''Content-Length'', '' 3'')" "strtok '' 3'' = Some ('' 3'', [])" "atol (StringTrim '' 3'') = 3" by code_simp+
  then show ?thesis by (simp add: RxHeaderData_def header_content_length_def starts_with_def)
qed

lemma whole_server_serves: "serves_whole [7, 8, 9] whole_server"
  by (auto simp: serves_whole_def whole_server_def length_header_3 Let_def)

definition ex_hls :: "'d \<Rightarrow> 'd hls_media" where
  "ex_hls t = snd (FragmentDownloadLoop (snd (FragmentDownloadLoop (snd (OnPlayListChanged [(''a'', t), (''a'', t)]
     (new_hls_media\<lparr>hl_playlist := new_hls_playlist\<rparr>))))))"

lemmas hls_eval = FragmentDownloadLoop_def PutRequestIntoDownloader_def new_hls_media_def bl_Pop_def bl_Push_def push_done_def pop_done_def
  bl_Size_def bl_Empty_def new_bqueue_def notify_all_empty_def notify_one_full_def new_downloader_def REQUEST_QUEUE_SIZE_def dl_Download_def
  dl_SetActive_def bl_SetActive_def dl_Start_def dl_call_def Let_def

lemma ex_hls_run: "hls_run web [''a'', ''a''] (ex_hls t)"
proof -
  let ?h = "snd (OnPlayListChanged [(''a'', t), (''a'', t)] (new_hls_media\<lparr>hl_playlist := new_hls_playlist\<rparr>))"
  have "OnPlayListChanged [(''a'', t), (''a'', t)] (new_hls_media\<lparr>hl_playlist := new_hls_playlist\<rparr>) = (Returns [], ?h)"
    by (simp add: hls_eval)
  from hls_Told [OF hls_Start this] have told: "hls_run web [''a'', ''a''] ?h" by simp
  have ask: "FragmentDownloadLoop ?h = (Returns (), snd (FragmentDownloadLoop ?h))"
    "FragmentDownloadLoop (snd (FragmentDownloadLoop ?h)) = (Returns (), ex_hls t)"
    by (simp_all add: hls_eval ex_hls_def)
  from hls_Ask [OF hls_Ask [OF told ask(1)] ask(2)] show ?thesis .
qed

lemma ex_hls_turn:
  "bl_que (dl_que (hl_downloader (ex_hls t))) = [new_request ''a'' True] \<and> bl_que (hl_playList (ex_hls t)) = [] \<and>
   (\<exists>h. hl_turn (\<lambda>r. map reads []) whole_server (ex_hls t) = Inr (Some h) \<and> bl_que (dl_que (hl_downloader h)) = [] \<and> bl_que (hl_playList h) = [] \<and>
     rb_offset (hl_buffer h) = 0)"
  by (simp add: ex_hls_def hls_eval hl_turn_def HttpDownloadLoop_def bl_Pop_timed_def BeginDownload_def new_request_def RequestData_def
      request_range_def whole_server_def length_header_3 RxBodyData_def hl_save_def hl_SaveData_def rb_full_for_def rb_write_now_def rb_Init_def
      HandleRetOK_def)


section \<open>What goes wrong\<close>

text \<open>
  A fragment whose transfer breaks off is asked for again as a whole: what had come of it is played
  twice. After the retry the ring holds the first bytes of the fragment and then all of it.
\<close>

theorem fragment_retry_repeats:
  assumes "dl_current (hl_downloader h) = Some r" "rq_wholeFile r" "\<not> dl_shouldStartNext (hl_downloader h)" "\<not> hi_isClosed (rq_header r)"
    and "hi_fileContentLen (rq_header r) = 0 \<or> hi_fileContentLen (rq_header r) = length content" "content \<noteq> []"
    and "rb_active (hl_buffer h)" "window (take k content) k (hl_buffer h)" "k \<le> length content"
    and "serves_whole content server"
    and "hl_turn (\<lambda>r. map reads (script r)) server (h\<lparr>hl_downloader := snd (dl_Retry r (hl_downloader h))\<rparr>) = Inr (Some h1)"
  shows "window (take k content @ content) (k + length content) (hl_buffer h1)"
proof -
  let ?d = "snd (dl_Retry r (hl_downloader h))" and ?r = "r\<lparr>rq_retryTimes := rq_retryTimes r + 1, rq_isEos := False\<rparr>"
  let ?m = "take k content @ content"
  have d: "dl_current ?d = Some ?r" "dl_connected ?d" "\<not> dl_shouldStartNext ?d"
    using assms(1,3) by (simp_all add: dl_Retry_def dl_SetActive_def dl_call_def IsSame_def Let_def)
  obtain dd s where loop: "HttpDownloadLoop (\<lambda>q. q) server (hl_save (\<lambda>r. map reads (script r))) ?d (Some (h\<lparr>hl_downloader := ?d\<rparr>)) = Inr (dd, Some s)"
    "h1 = s\<lparr>hl_downloader := dd\<rparr>"
    using assms(11) by (auto simp: hl_turn_def split: sum.splits prod.splits)
  obtain ret sc cc r1 where req: "RequestData server (hl_save (\<lambda>r. map reads (script r))) True (- 1) (rq_requestSize r) ?r (Some (h\<lparr>hl_downloader := ?d\<rparr>)) =
      Inr (ret, sc, cc, r1, Some s)"
    using loop(1) d assms(2) by (auto simp: HttpDownloadLoop_def Let_def split: sum.splits if_splits)
  have holds: "hl_live (Some (h\<lparr>hl_downloader := ?d\<rparr>))" "hl_holds h ?m k (Some (h\<lparr>hl_downloader := ?d\<rparr>))"
    using assms(7,9) window_more [OF assms(8)] by (simp_all add: hl_live_def hl_holds_def)
  have "take (length content) (drop k ?m) = content" "k + length content \<le> length ?m" using assms(9) by simp_all
  from hls.whole_request [OF req assms(10,6) holds this] assms(4,5)
  have "hl_holds h ?m (k + length content) (Some s)" by simp
  then show ?thesis using loop(2) by (simp add: hl_holds_def)
qed

definition breaking_server :: "byte_range \<Rightarrow> transfer" where
  "breaking_server _ = \<lparr>tr_headers = [''Content-Length: 3''], tr_pieces = [[7, 8]], tr_code = CURLE_OTHER, tr_http = 200\<rparr>"

lemma ex_hls_retry:
  "\<exists>h r h1. hl_turn (\<lambda>r. map reads []) breaking_server (ex_hls t) = Inr (Some h) \<and> dl_current (hl_downloader h) = Some r \<and> rq_wholeFile r \<and>
    \<not> dl_shouldStartNext (hl_downloader h) \<and> \<not> hi_isClosed (rq_header r) \<and> hi_fileContentLen (rq_header r) = 3 \<and> rb_active (hl_buffer h) \<and>
    hl_buffer h = rb_write_now [7, 8] (rb_Init 245760) \<and>
    hl_turn (\<lambda>r. map reads []) whole_server (h\<lparr>hl_downloader := snd (dl_Retry r (hl_downloader h))\<rparr>) = Inr (Some h1)"
  by (simp add: ex_hls_def hls_eval hl_turn_def HttpDownloadLoop_def bl_Pop_timed_def BeginDownload_def new_request_def RequestData_def
      request_range_def breaking_server_def whole_server_def length_header_3 RxBodyData_def hl_save_def hl_SaveData_def rb_full_for_def
      rb_write_now_def rb_Init_def HandleRetOK_def dl_Retry_def IsSame_def)

lemma two_bytes: "window [7, 8] 2 (rb_write_now [7, 8] (rb_Init 245760))"
proof -
  have "window [7, 8] 0 (rb_Init 245760)" by (simp add: window_def rb_Init_def rb_ok_def rb_GetSize_def rb_contents_def)
  from write_now_window [OF this, of "[7, 8]"] show ?thesis by (simp add: rb_full_for_def rb_Init_def numeral_2_eq_2)
qed

theorem fragment_retry_repeats_witness:
  "\<exists>(h :: int hls_media) r h1. hl_turn (\<lambda>r. map reads []) breaking_server (ex_hls 0) = Inr (Some h) \<and>
    hl_turn (\<lambda>r. map reads []) whole_server (h\<lparr>hl_downloader := snd (dl_Retry r (hl_downloader h))\<rparr>) = Inr (Some h1) \<and>
    window [7, 8, 7, 8, 9] 5 (hl_buffer h1)"
proof -
  obtain h :: "int hls_media" and r h1 where h: "hl_turn (\<lambda>r. map reads []) breaking_server (ex_hls 0) = Inr (Some h)"
    "dl_current (hl_downloader h) = Some r" "rq_wholeFile r" "\<not> dl_shouldStartNext (hl_downloader h)" "\<not> hi_isClosed (rq_header r)"
    "hi_fileContentLen (rq_header r) = 3" "rb_active (hl_buffer h)"
    "window [7, 8] 2 (hl_buffer h)"
    "hl_turn (\<lambda>r. map reads []) whole_server (h\<lparr>hl_downloader := snd (dl_Retry r (hl_downloader h))\<rparr>) = Inr (Some h1)"
    using ex_hls_retry [of "0 :: int"] two_bytes by fastforce
  from fragment_retry_repeats [OF h(2-5) _ _ h(7) _ _ whole_server_serves, of 2 "\<lambda>_. []"] h(6,8,9) show ?thesis using h(1) by auto
qed

text \<open>
  The playlist of a stream in several bit rates is never played: as its text comes, the loop of the
  downloader, which holds the mutex of the downloader, asks the same downloader for the playlist of a
  variant, and waits for that mutex for ever.
\<close>

theorem master_playlist_waits_for_itself:
  assumes "vs \<noteq> []" "\<forall>v \<in> set vs. variant_ok v" "url \<noteq> []" "pd_Open url new_hls_playlist = Some p"
    and "serves_whole text server" "tr_pieces (server Same_As_Before) = [text]"
    and "map (\<lambda>b. char_of (unat b)) text = unlines (master_lines vs)"
  shows "pd_turn R server p = Inr None"
proof -
  let ?s = "unlines (master_lines vs)"
  let ?p = "p\<lparr>pd_text := ?s, pd_startedDownload := True\<rparr>"
  have p: "pd_text p = []" "pd_master p = None" "pd_url p = url" "bl_que (dl_que (pd_downloader p)) = [new_request url True]"
    "dl_shouldStartNext (pd_downloader p)" "bl_active (dl_que (pd_downloader p))"
    using assms(4) by (auto simp: pd_Open_def DoOpen_def new_hls_playlist_def hls_eval)
  let ?m = "\<lparr>mp_variants = map (variant_of (ro_zero R) url) vs, mp_default = Some (length vs - 1), mp_uri = url, mp_isSimple = False, mp_playList = ?s,
      mp_duration = ro_zero R, mp_bLive = False\<rparr>"
  have "new_master_playlist (ro_zero R) (ro_plus R) (ro_strtod R) ?s url = Inr ?m"
    using master_not_media [OF assms(2)] parse_master [OF assms(2)]
      master_tags_variants [OF assms(2), of "ro_zero R" "?m\<lparr>mp_variants := [], mp_default := None\<rparr>"] assms(1)
    by (simp add: new_master_playlist_def UpdateMasterPlaylist_def Let_def)
  moreover have "m3_uri (va_m3u8 (mp_variants ?m ! (length vs - 1))) \<noteq> []"
  proof -
    have "length vs - 1 < length vs" using assms(1) by simp
    moreover from this have "snd (vs ! (length vs - 1)) \<noteq> []" using assms(2) nth_mem by (fastforce simp: variant_ok_def)
    ultimately show ?thesis by (simp add: variant_of_def new_variant_def new_m3u8_def UriJoin_def)
  qed
  ultimately have "pd_SaveData R ?s p = Inr None"
    using p by (simp add: pd_SaveData_def ParseManifest_def UpdateManifest_def current_m3u8_def DoOpen_def Let_def)
  then have save: "pd_save R r (Inr (Some ([], p))) text = (False, Inr None)" for r
    using assms(7) by (simp add: pd_save_def)
  have ne: "text \<noteq> []" using assms(7) by (auto simp: master_lines_def)
  let ?r = "(new_request url True)\<lparr>rq_requestSize := 1\<rparr>" and ?tr = "server Same_As_Before"
  obtain hd where hd: "run_headers (tr_headers ?tr) ?r = Inr (?r\<lparr>rq_header := hd, rq_isHeaderUpdated := True\<rparr>)" "hi_fileContentLen hd = 0"
    "hi_contentLen hd = int (length text)" "\<not> hi_isClosed hd"
  proof -
    have c: "\<not> hi_isClosed (rq_header ?r)" "hi_fileContentLen (rq_header ?r) = 0" by (simp_all add: new_request_def)
    with assms(5) that show ?thesis unfolding serves_whole_def Let_def by metis
  qed
  have body: "\<exists>q. run_pieces (pd_save R) [text] (?r\<lparr>rq_header := hd, rq_isHeaderUpdated := True\<rparr>) (Inr (Some ([], p))) = (False, q, Inr None)"
    using hd(2-4) ne save by (simp add: RxBodyData_def Let_def)
  have pop: "bl_Pop_timed (\<lambda>q. q) (dl_que (pd_downloader p)) = (Some (new_request url True), (dl_que (pd_downloader p))\<lparr>bl_que := []\<rparr>)
    \<or> (\<exists>q. bl_Pop_timed (\<lambda>q. q) (dl_que (pd_downloader p)) = (Some (new_request url True), q))"
    using p by (simp add: bl_Pop_timed_def bl_Empty_def)
  then obtain q where pop: "bl_Pop_timed (\<lambda>q. q) (dl_que (pd_downloader p)) = (Some (new_request url True), q)" by blast
  have "\<exists>sc cc r1. RequestData server (pd_save R) True (- 1) 1 ?r (Inr (Some ([], p))) = Inr (ERROR_CLIENT, sc, cc, r1, Inr None)"
    using hd(1) body assms(6) by (auto simp: RequestData_def request_range_def Let_def)
  then show ?thesis
    using p(5) pop assms(3)
    by (auto simp: pd_turn_def HttpDownloadLoop_def BeginDownload_def new_request_def Let_def)
qed

definition ex_master :: "u8 list" where
  "ex_master = map (\<lambda>c. of_nat (of_char c)) (unlines (master_lines [(''1'', ''v'')]))"

lemma ex_master_text: "map (\<lambda>b. char_of (unat b)) ex_master = unlines (master_lines [(''1'', ''v'')])"
  by (simp add: ex_master_def comp_def unat_of_nat take_bit_eq_mod)

theorem master_playlist_waits_for_itself_witness:
  "\<exists>p server. pd_Open ''u'' (new_hls_playlist :: int hls_playlist) = Some p \<and> pd_turn \<lparr>ro_zero = 0, ro_plus = (+), ro_strtod = (\<lambda>s. int (length s)), ro_trunc = id\<rparr> server p = Inr None"
proof -
  let ?server = "\<lambda>_ :: byte_range. \<lparr>tr_headers = [''Content-Length: 40''], tr_pieces = [ex_master], tr_code = CURLE_OK, tr_http = 200\<rparr>"
  have "strtok ''Content-Length: 40'' = Some (''Content-Length'', '' 40'')" "strtok '' 40'' = Some ('' 40'', [])" "atol (StringTrim '' 40'') = 40" by code_simp+
  then have hd: "RxHeaderData ''Content-Length: 40'' r = Inr (r\<lparr>rq_header := (rq_header r)\<lparr>hi_contentLen := 40\<rparr>, rq_isHeaderUpdated := True\<rparr>)" for r
    by (simp add: RxHeaderData_def header_content_length_def starts_with_def)
  have "length ex_master = 40" by (simp add: ex_master_def master_lines_def stream_line_def unlines_def)
  then have "serves_whole ex_master ?server" by (auto simp: serves_whole_def hd Let_def)
  moreover obtain p where "pd_Open ''u'' (new_hls_playlist :: int hls_playlist) = Some p"
    by (simp add: pd_Open_def DoOpen_def new_hls_playlist_def hls_eval)
  moreover have "\<forall>v \<in> set [(''1'', ''v'')]. variant_ok v" by (simp add: variant_ok_def digit_val_def)
  ultimately show ?thesis
    using master_playlist_waits_for_itself [of "[(''1'', ''v'')]" "''u''" p ex_master ?server] ex_master_text by auto
qed

text \<open>
  A seek to a time the ring does not hold asks for a fragment again inside a loop over the list of the
  fragments, and this adds to that list: the next step of the loop is with an iterator that is no longer
  valid. Every seek to a time before the end of the fragments asked for so far does this.
\<close>

theorem hls_seek_uses_dead_iterator:
  assumes "\<And>i. i \<in> set (hl_backPlayList h) \<Longrightarrow> duration_ns R (snd i) = Inr (time i)" "hl_backPlayList h \<noteq> []"
    and "offset < sum_list (map time (hl_backPlayList h))" "fst (rb_Seek (nat (offset mod 2 ^ 64)) (hl_buffer h)) = False"
  shows "hl_SeekToTime R offset h = Inl Dangling_Iterator"
proof -
  have find: "find_seek R offset t is g = Inl Dangling_Iterator"
    if "\<And>i. i \<in> set is \<Longrightarrow> duration_ns R (snd i) = Inr (time i)" "is \<noteq> []" "offset < t + sum_list (map time is)" for t "is" and g :: "'a hls_media"
    using that
  proof (induction "is" arbitrary: t)
    case (Cons i js)
    then show ?case by (cases "js = []") (auto simp: add.assoc)
  qed simp
  obtain b where "rb_Seek (nat (offset mod 2 ^ 64)) (hl_buffer h) = (False, b)" using assms(4) by (metis prod.collapse)
  moreover have "find_seek R offset 0 (hl_backPlayList h) g = Inl Dangling_Iterator" for g by (rule find) (use assms in auto)
  ultimately show ?thesis by (simp add: hl_SeekToTime_def FindSeekRequest_def)
qed

theorem hls_seek_uses_dead_iterator_witness:
  "hl_SeekToTime \<lparr>ro_zero = 0, ro_plus = (+), ro_strtod = (\<lambda>s. int (length s)), ro_trunc = id\<rparr> 5 (ex_hls 10) = Inl Dangling_Iterator"
proof -
  let ?R = "\<lparr>ro_zero = 0, ro_plus = (+), ro_strtod = (\<lambda>s. int (length s)), ro_trunc = id\<rparr>"
  have "hl_backPlayList (ex_hls (10 :: int)) = [(''a'', 10)]" "rb_GetSize (hl_buffer (ex_hls (10 :: int))) = 0"
    by (simp_all add: ex_hls_def hls_eval rb_GetSize_def rb_Init_def)
  moreover have "duration_ns ?R 10 = Inr 10000000000" by (simp add: duration_ns_def Sec2HstTime_def)
  ultimately show ?thesis
    using hls_seek_uses_dead_iterator [of "ex_hls 10" ?R "\<lambda>_. 10000000000" 5] by (simp add: rb_Seek_def)
qed

section \<open>Smaller findings\<close>

text \<open>A playlist that comes in two pieces is parsed after the first: a url that was cut is told of as it stands.\<close>

lemma cut_playlist_tells_cut_url:
  "map_sum id (map_option fst) (pd_SaveData \<lparr>ro_zero = 0, ro_plus = (+), ro_strtod = (\<lambda>s. int (length s)), ro_trunc = id\<rparr>
      (unlines [''#EXTM3U'', ''#EXTINF:9,one''] @ ''http://h/fragm'') new_hls_playlist) = Inr (Some [(''http://h/fragm'', 1)])"
  by code_simp

text \<open>A read never says that the stream is at its end, and the loop of a full queue waits with its mutex.\<close>

lemma hls_never_ends: "\<exists>bytes h1. hl_Read env want h = ((True, bytes, False), h1)"
  by (simp add: hl_Read_def split: prod.splits)

lemma full_request_queue_blocks:
  "length (bl_que (dl_que d)) \<ge> bl_capacity (dl_que d) \<Longrightarrow> fst (dl_Download r d) = Blocks"
  by (simp add: dl_Download_def dl_SetActive_def bl_SetActive_def bl_Push_def push_wait_def bl_Size_def Let_def)

end
