(* ===== verification/Wav_Demuxer.thy ===== *)
theory Wav_Demuxer
  imports Hst_Prelude
begin

text \<open>
  The demuxer of WAV files (engine/plugin/plugins/demuxer/wav_demuxer/wav_demuxer_plugin.cpp): the
  header, the reading of frames and the seek.

  The data source is the argument \<open>readAt\<close>, which answers what it read, and a size. The header is
  read into a structure of the machine, which has the layout of the file on little-endian machines.
  A read that fails leaves what the buffer held. A result \<open>Inl\<close> is a division by zero.
\<close>

section \<open>The header\<close>

unbundle bit_operations_syntax

record wav_header =
  wh_chunkID :: "u8 list"
  wh_chunkSize :: u32
  wh_format :: "u8 list"
  wh_subChunk1ID :: "u8 list"
  wh_subChunk1Size :: u32
  wh_audioFormat :: u16
  wh_numChannels :: u16
  wh_sampleRate :: u32
  wh_byteRate :: u32
  wh_blockAlign :: u16
  wh_bitsPerSample :: u16
  wh_subChunk2ID :: "u8 list"
  wh_subChunk2Size :: u32
  wh_dataFactSize :: u32
  wh_subChunk3ID :: "u8 list"
  wh_subChunk3Size :: u32

definition WAV_HEAD_INFO_LEN :: nat where "WAV_HEAD_INFO_LEN = 56"
definition WAV_PER_FRAME_SIZE :: nat where "WAV_PER_FRAME_SIZE = 8192"

definition le_word :: "u8 list \<Rightarrow> 'a::len word" where
  "le_word bs = foldr (\<lambda>b w. push_bit 8 w OR ucast b) bs 0"

text \<open>The structure in memory, and the structure whose memory is these bytes.\<close>

definition field :: "nat \<Rightarrow> nat \<Rightarrow> u8 list \<Rightarrow> u8 list" where
  "field pos n m = take n (drop pos m)"

definition header_of :: "u8 list \<Rightarrow> wav_header" where
  "header_of m =
     \<lparr>wh_chunkID = field 0 4 m, wh_chunkSize = le_word (field 4 4 m), wh_format = field 8 4 m, wh_subChunk1ID = field 12 4 m,
      wh_subChunk1Size = le_word (field 16 4 m), wh_audioFormat = le_word (field 20 2 m), wh_numChannels = le_word (field 22 2 m),
      wh_sampleRate = le_word (field 24 4 m), wh_byteRate = le_word (field 28 4 m), wh_blockAlign = le_word (field 32 2 m),
      wh_bitsPerSample = le_word (field 34 2 m), wh_subChunk2ID = field 36 4 m, wh_subChunk2Size = le_word (field 40 4 m),
      wh_dataFactSize = le_word (field 44 4 m), wh_subChunk3ID = field 48 4 m, wh_subChunk3Size = le_word (field 52 4 m)\<rparr>"

section \<open>Operations\<close>

datatype wav_seekable = WAV_INVALID | WAV_UNSEEKABLE | WAV_SEEKABLE

datatype sample_format = SF_NONE | SF_U8 | SF_S16 | SF_S32 | SF_F32

record track_info =
  ti_stereo :: bool
  ti_duration :: int
  ti_sampleRate :: u32
  ti_bitRate :: u32
  ti_channels :: u16
  ti_sampleFormat :: sample_format
  ti_bitsPerCodedSample :: u16

record wav =
  wv_fileSize :: u64
  wv_dataOffset :: u32
  wv_seekable :: wav_seekable
  wv_headLength :: u32
  wv_head :: "u8 list"

definition new_wav :: wav where
  "new_wav = \<lparr>wv_fileSize = 0, wv_dataOffset = 0, wv_seekable = WAV_INVALID, wv_headLength = 0, wv_head = replicate WAV_HEAD_INFO_LEN 0\<rparr>"

definition wav_SetDataSource :: "u64 \<Rightarrow> wav_seekable \<Rightarrow> wav \<Rightarrow> status \<times> wav" where
  "wav_SetDataSource fileSize seekable w = (OK, w\<lparr>wv_fileSize := fileSize, wv_seekable := seekable\<rparr>)"

definition g_WavAudioSampleFormatPacked :: "nat \<Rightarrow> sample_format" where
  "g_WavAudioSampleFormatPacked bits = (if bits = 8 then SF_U8 else if bits = 16 then SF_S16 else if bits = 32 then SF_S32 else SF_NONE)"

definition wav_sampleFormat :: "wav_header \<Rightarrow> sample_format" where
  "wav_sampleFormat h =
     (if wh_audioFormat h = 1 \<or> wh_audioFormat h = 0xFFFE then g_WavAudioSampleFormatPacked (unat (wh_bitsPerSample h))
      else if wh_audioFormat h = 3 then SF_F32 else SF_NONE)"

definition wav_GetMediaInfo :: "(nat \<Rightarrow> nat \<Rightarrow> status \<times> u8 list) \<Rightarrow> wav \<Rightarrow> (fault, status \<times> track_info option \<times> wav) sum" where
  "wav_GetMediaInfo readAt w =
     (case readAt 0 WAV_HEAD_INFO_LEN of (status, bytes) \<Rightarrow>
        if status \<noteq> OK then Inr (status, None, w)
        else let w1 = w\<lparr>wv_head := bytes @ drop (length bytes) (wv_head w)\<rparr>;
                 h = header_of (wv_head w1);
                 headLength = (if wh_audioFormat h = 1 then 56 - 12 else 56) :: u32;
                 w2 = w1\<lparr>wv_headLength := headLength, wv_dataOffset := headLength\<rparr>;
                 divisor = wh_sampleRate h * ucast (wh_bitsPerSample h) * ucast (wh_numChannels h)
             in if divisor = 0 then Inl Div_By_Zero
                else let seconds = (wv_fileSize w2 - ucast headLength) * 8 div ucast divisor
                     in Inr (OK, Some \<lparr>ti_stereo = (wh_numChannels h \<noteq> 1),
                           ti_duration = (case Sec2HstTime (sint seconds) of Some d \<Rightarrow> d | None \<Rightarrow> 0),
                           ti_sampleRate = wh_sampleRate h, ti_bitRate = wh_byteRate h * 8, ti_channels = wh_numChannels h,
                           ti_sampleFormat = wav_sampleFormat h, ti_bitsPerCodedSample = wh_bitsPerSample h\<rparr>, w2))"

text \<open>What the buffer of the frame holds before and after; an empty buffer gets memory first.\<close>

definition wav_ReadFrame :: "(nat \<Rightarrow> nat \<Rightarrow> status \<times> u8 list) \<Rightarrow> u8 list \<Rightarrow> wav \<Rightarrow> status \<times> u8 list \<times> wav" where
  "wav_ReadFrame readAt out w =
     (case readAt (unat (wv_dataOffset w)) WAV_PER_FRAME_SIZE of (status, bytes) \<Rightarrow>
        let out1 = (if status = OK then bytes else out)
        in (status, out1, w\<lparr>wv_dataOffset := wv_dataOffset w + of_nat (length out1)\<rparr>))"

text \<open>Division of C++ rounds towards zero; \<open>position\<close> is an \<open>int64_t\<close>.\<close>

definition c_div :: "int \<Rightarrow> int \<Rightarrow> int" where
  "c_div a b = sgn a * sgn b * (\<bar>a\<bar> div \<bar>b\<bar>)"

definition wav_SeekTo :: "int \<Rightarrow> wav \<Rightarrow> status \<times> wav" where
  "wav_SeekTo seekTime w =
     (if wv_fileSize w \<le> 0 \<or> wv_seekable w = WAV_INVALID \<or> wv_seekable w = WAV_UNSEEKABLE then (ERROR_INVALID_OPERATION, w)
      else let h = header_of (wv_head w);
               blockAlign = unat (wh_bitsPerSample h) div 8 * unat (wh_numChannels h);
               byteRate = (of_nat blockAlign :: u32) * wh_sampleRate h;
               position = c_div seekTime 1000000000 * uint byteRate;
               position1 = (if blockAlign \<noteq> 0 then c_div position (int blockAlign) * int blockAlign else position)
           in (OK, w\<lparr>wv_dataOffset := of_int position1\<rparr>))"

definition wav_Reset :: "wav \<Rightarrow> status \<times> wav" where
  "wav_Reset w = (OK, w\<lparr>wv_dataOffset := 0, wv_fileSize := 0, wv_seekable := WAV_SEEKABLE\<rparr>)"

definition WavSniff :: "u8 list \<Rightarrow> bool" where
  "WavSniff inputBuf \<longleftrightarrow> inputBuf ! 0 \<noteq> 0x52 \<or> inputBuf ! 1 \<noteq> 0x49 \<or> inputBuf ! 2 \<noteq> 0x46 \<or> inputBuf ! 3 \<noteq> 0x46"

text \<open>The probe has four bytes of memory, which the code does not initialise.\<close>

definition wav_Sniff :: "u8 list \<Rightarrow> (nat \<Rightarrow> nat \<Rightarrow> status \<times> u8 list) \<Rightarrow> nat" where
  "wav_Sniff junk readAt =
     (case readAt 0 4 of (status, bytes) \<Rightarrow>
        if status \<noteq> OK then 0 else if WavSniff (bytes @ drop (length bytes) junk) then 0 else 100)"

section \<open>Files\<close>

text \<open>A source that reads a file, and the bytes of a word in the order of the file.\<close>

definition wav_file :: "u8 list \<Rightarrow> nat \<Rightarrow> nat \<Rightarrow> status \<times> u8 list" where
  "wav_file file pos n = (if pos < length file then (OK, take n (drop pos file)) else (END_OF_STREAM, []))"

definition bytes16 :: "u16 \<Rightarrow> u8 list" where
  "bytes16 w = [ucast w, ucast (drop_bit 8 w)]"

definition bytes32 :: "u32 \<Rightarrow> u8 list" where
  "bytes32 w = [ucast w, ucast (drop_bit 8 w), ucast (drop_bit 16 w), ucast (drop_bit 24 w)]"

lemma le_word_bytes16 [simp]: "le_word (bytes16 w) = w"
  unfolding le_word_def bytes16_def by (rule bit_word_eqI) (auto simp: bit_simps)

lemma le_word_bytes32 [simp]: "le_word (bytes32 w) = w"
proof (rule bit_word_eqI)
  fix n assume "n < LENGTH(32)"
  then show "bit (le_word (bytes32 w) :: u32) n = bit w n"
    unfolding le_word_def bytes32_def by (cases "n < 8"; cases "n < 16"; cases "n < 24") (auto simp: bit_simps)
qed

text \<open>A PCM file: the header without the optional part, and the samples.\<close>

definition pcm_file :: "wav_header \<Rightarrow> u8 list \<Rightarrow> u8 list" where
  "pcm_file h samples =
     wh_chunkID h @ bytes32 (wh_chunkSize h) @ wh_format h @ wh_subChunk1ID h @ bytes32 (wh_subChunk1Size h) @
     bytes16 (wh_audioFormat h) @ bytes16 (wh_numChannels h) @ bytes32 (wh_sampleRate h) @ bytes32 (wh_byteRate h) @
     bytes16 (wh_blockAlign h) @ bytes16 (wh_bitsPerSample h) @ wh_subChunk3ID h @ bytes32 (wh_subChunk3Size h) @ samples"

definition header_ok :: "wav_header \<Rightarrow> bool" where
  "header_ok h \<longleftrightarrow> length (wh_chunkID h) = 4 \<and> length (wh_format h) = 4 \<and> length (wh_subChunk1ID h) = 4 \<and> length (wh_subChunk3ID h) = 4"

lemma length_bytes [simp]: "length (bytes16 w) = 2" "length (bytes32 v) = 4"
  by (simp_all add: bytes16_def bytes32_def)

lemma field_skip: "length xs = n \<Longrightarrow> n \<le> pos \<Longrightarrow> field pos k (xs @ m) = field (pos - n) k m"
  by (simp add: field_def)

lemma field_here: "length xs = k \<Longrightarrow> field 0 k (xs @ m) = xs"
  by (simp add: field_def)

lemma length_pcm: "header_ok h \<Longrightarrow> length (pcm_file h samples) = 44 + length samples"
  by (simp add: pcm_file_def header_ok_def)

lemma pcm_samples: "header_ok h \<Longrightarrow> drop 44 (pcm_file h samples) = samples"
  by (simp add: pcm_file_def header_ok_def)

text \<open>The fields of the format are those written, whatever follows.\<close>

lemma header_of_pcm:
  assumes "header_ok h"
  shows "wh_audioFormat (header_of (pcm_file h samples @ r)) = wh_audioFormat h" "wh_numChannels (header_of (pcm_file h samples @ r)) = wh_numChannels h"
    "wh_sampleRate (header_of (pcm_file h samples @ r)) = wh_sampleRate h" "wh_byteRate (header_of (pcm_file h samples @ r)) = wh_byteRate h"
    "wh_bitsPerSample (header_of (pcm_file h samples @ r)) = wh_bitsPerSample h"
  using assms by (simp_all add: header_of_def pcm_file_def header_ok_def field_skip field_here)

lemma take_pcm: "header_ok h \<Longrightarrow> take 56 (pcm_file h samples) = pcm_file h (take 12 samples)"
  by (simp add: pcm_file_def header_ok_def)

text \<open>Reading on from where the demuxer stands.\<close>

fun wav_frames :: "(nat \<Rightarrow> nat \<Rightarrow> status \<times> u8 list) \<Rightarrow> nat \<Rightarrow> wav \<Rightarrow> u8 list" where
  "wav_frames readAt 0 w = []"
| "wav_frames readAt (Suc n) w = (case wav_ReadFrame readAt [] w of (st, out, w1) \<Rightarrow> out @ wav_frames readAt n w1)"

lemma wav_ReadFrame_file:
  "wav_ReadFrame (wav_file file) [] w =
    (if unat (wv_dataOffset w) < length file
     then (OK, take 8192 (drop (unat (wv_dataOffset w)) file),
           w\<lparr>wv_dataOffset := wv_dataOffset w + of_nat (length (take 8192 (drop (unat (wv_dataOffset w)) file)))\<rparr>)
     else (END_OF_STREAM, [], w))"
  by (simp add: wav_ReadFrame_def wav_file_def WAV_PER_FRAME_SIZE_def Let_def)

lemma wav_frames_file:
  assumes "length file < 2 ^ 32" "unat (wv_dataOffset w) \<le> length file"
  shows "wav_frames (wav_file file) n w = take (n * 8192) (drop (unat (wv_dataOffset w)) file)"
  using assms(2)
proof (induction n arbitrary: w)
  case (Suc n)
  let ?pos = "unat (wv_dataOffset w)" and ?k = "length (take 8192 (drop (unat (wv_dataOffset w)) file))"
  let ?w = "w\<lparr>wv_dataOffset := wv_dataOffset w + of_nat ?k\<rparr>"
  show ?case
  proof (cases "?pos < length file")
    case True
    have "?pos + ?k \<le> length file" using True by simp
    then have "?pos + unat (of_nat ?k :: u32) < 2 ^ LENGTH(32)" using assms(1) by (simp add: unat_of_nat_lt)
    then have pos: "unat (wv_dataOffset ?w) = ?pos + ?k" using assms(1) by (simp add: unat_plus_no_wrap unat_of_nat_lt)
    then have "wav_frames (wav_file file) n ?w = take (n * 8192) (drop (?pos + ?k) file)"
      using Suc.IH [of ?w] \<open>?pos + ?k \<le> length file\<close> by simp
    then have "wav_frames (wav_file file) (Suc n) w = take 8192 (drop ?pos file) @ take (n * 8192) (drop (?pos + ?k) file)"
      using True by (simp add: wav_ReadFrame_file)
    also have "\<dots> = take (Suc n * 8192) (drop ?pos file)"
      by (cases "length (drop ?pos file) \<le> 8192") (simp_all add: take_add add.commute)
    finally show ?thesis .
  next
    case False
    then show ?thesis using Suc by (simp add: wav_ReadFrame_file)
  qed
qed simp

lemma head_pcm:
  assumes "header_ok h"
  shows "wh_audioFormat (header_of (take WAV_HEAD_INFO_LEN (pcm_file h samples) @ r)) = wh_audioFormat h"
    "wh_numChannels (header_of (take WAV_HEAD_INFO_LEN (pcm_file h samples) @ r)) = wh_numChannels h"
    "wh_sampleRate (header_of (take WAV_HEAD_INFO_LEN (pcm_file h samples) @ r)) = wh_sampleRate h"
    "wh_byteRate (header_of (take WAV_HEAD_INFO_LEN (pcm_file h samples) @ r)) = wh_byteRate h"
    "wh_bitsPerSample (header_of (take WAV_HEAD_INFO_LEN (pcm_file h samples) @ r)) = wh_bitsPerSample h"
  unfolding WAV_HEAD_INFO_LEN_def take_pcm [OF assms] by (simp_all add: header_of_pcm assms)

lemma GetMediaInfo_pcm:
  assumes "header_ok h" "wh_audioFormat h = 1"
  shows "wav_GetMediaInfo (wav_file (pcm_file h samples)) w =
    (if wh_sampleRate h * ucast (wh_bitsPerSample h) * ucast (wh_numChannels h) = 0 then Inl Div_By_Zero
     else Inr (OK, Some \<lparr>ti_stereo = (wh_numChannels h \<noteq> 1),
        ti_duration = (case Sec2HstTime (sint ((wv_fileSize w - 44) * 8 div ucast (wh_sampleRate h * ucast (wh_bitsPerSample h) * ucast (wh_numChannels h) :: u32)))
          of Some d \<Rightarrow> d | None \<Rightarrow> 0),
        ti_sampleRate = wh_sampleRate h, ti_bitRate = wh_byteRate h * 8, ti_channels = wh_numChannels h,
        ti_sampleFormat = g_WavAudioSampleFormatPacked (unat (wh_bitsPerSample h)), ti_bitsPerCodedSample = wh_bitsPerSample h\<rparr>,
        w\<lparr>wv_head := take WAV_HEAD_INFO_LEN (pcm_file h samples) @ drop (length (take WAV_HEAD_INFO_LEN (pcm_file h samples))) (wv_head w),
          wv_headLength := 44, wv_dataOffset := 44\<rparr>))"
proof -
  have "0 < length (pcm_file h samples)" using length_pcm [OF assms(1)] by simp
  then show ?thesis
    using assms(2) by (simp add: wav_GetMediaInfo_def wav_file_def head_pcm [OF assms(1)] wav_sampleFormat_def Let_def
        del: length_take)
qed

section \<open>Properties\<close>

text \<open>
  C28. A PCM file is described and played as it was written: with a rate, sample size and number of
  channels that are not zero the media information has those of the header, and reading frames
  gives the samples, from the first to the last, nothing before and nothing after.
\<close>

theorem wav_plays_samples:
  assumes "header_ok h" "wh_audioFormat h = 1" "wh_sampleRate h * ucast (wh_bitsPerSample h) * ucast (wh_numChannels h) \<noteq> 0"
    and "44 + length samples < 2 ^ 32" "length samples \<le> n * 8192"
  shows "\<exists>t w1. wav_GetMediaInfo (wav_file (pcm_file h samples)) w = Inr (OK, Some t, w1) \<and>
    ti_sampleRate t = wh_sampleRate h \<and> ti_channels t = wh_numChannels h \<and> ti_bitRate t = wh_byteRate h * 8 \<and>
    ti_bitsPerCodedSample t = wh_bitsPerSample h \<and> wav_frames (wav_file (pcm_file h samples)) n w1 = samples"
proof -
  have len: "length (pcm_file h samples) = 44 + length samples" by (rule length_pcm [OF assms(1)])
  have "wav_frames (wav_file (pcm_file h samples)) n w1 = samples" if "wv_dataOffset w1 = 44" for w1
    using wav_frames_file [of "pcm_file h samples" w1 n] that assms(4,5) len by (simp add: pcm_samples [OF assms(1)])
  then show ?thesis using assms(3) by (simp add: GetMediaInfo_pcm [OF assms(1,2)])
qed

definition ex_header :: wav_header where
  "ex_header = \<lparr>wh_chunkID = [0x52, 0x49, 0x46, 0x46], wh_chunkSize = 40, wh_format = [0x57, 0x41, 0x56, 0x45],
     wh_subChunk1ID = [0x66, 0x6D, 0x74, 0x20], wh_subChunk1Size = 16, wh_audioFormat = 1, wh_numChannels = 1, wh_sampleRate = 8000,
     wh_byteRate = 8000, wh_blockAlign = 1, wh_bitsPerSample = 8, wh_subChunk2ID = [], wh_subChunk2Size = 0, wh_dataFactSize = 0,
     wh_subChunk3ID = [0x64, 0x61, 0x74, 0x61], wh_subChunk3Size = 4\<rparr>"

theorem wav_plays_samples_witness:
  "\<exists>t w1. wav_GetMediaInfo (wav_file (pcm_file ex_header [1, 2, 3, 4])) new_wav = Inr (OK, Some t, w1) \<and>
    ti_sampleRate t = 8000 \<and> wav_frames (wav_file (pcm_file ex_header [1, 2, 3, 4])) 1 w1 = [1, 2, 3, 4]"
proof -
  have h: "header_ok ex_header" "wh_audioFormat ex_header = 1"
    "wh_sampleRate ex_header * ucast (wh_bitsPerSample ex_header) * ucast (wh_numChannels ex_header) \<noteq> 0"
    by (simp_all add: ex_header_def header_ok_def)
  have l: "44 + length [1, 2, 3, 4 :: u8] < 2 ^ 32" "length [1, 2, 3, 4 :: u8] \<le> 1 * 8192" by simp_all
  have "wh_sampleRate ex_header = 8000" by (simp add: ex_header_def)
  with wav_plays_samples [OF h l, of new_wav] show ?thesis by metis
qed

text \<open>
  A WAV file with a rate, a sample size or a number of channels of zero, or a product of them
  that is a multiple of \<open>2 ^ 32\<close>, makes the demuxer divide by zero when it is opened.
\<close>

theorem wav_zero_rate_divides:
  assumes "header_ok h" "wh_audioFormat h = 1" "wh_sampleRate h * ucast (wh_bitsPerSample h) * ucast (wh_numChannels h) = 0"
  shows "wav_GetMediaInfo (wav_file (pcm_file h samples)) w = Inl Div_By_Zero"
  using assms by (simp add: GetMediaInfo_pcm)

theorem wav_zero_rate_divides_witness:
  "wav_GetMediaInfo (wav_file (pcm_file (ex_header\<lparr>wh_numChannels := 0\<rparr>) [1])) new_wav = Inl Div_By_Zero"
  by (rule wav_zero_rate_divides) (simp_all add: ex_header_def header_ok_def)

lemma c_div_nonneg: "0 \<le> a \<Longrightarrow> 0 \<le> b \<Longrightarrow> c_div a b = a div b"
  by (cases "a = 0"; cases "b = 0") (simp_all add: c_div_def)

lemma unat_ucast_u16: "unat (ucast (c :: u16) :: u32) = unat c"
  using unsigned_less [of c, where 'a = nat] by (simp add: unsigned_ucast_eq take_bit_eq_mod)

text \<open>
  A seek takes the samples for the whole file: it places the reader at the second's byte counted
  from the first byte of the file, so with whole-byte samples the next frame begins at
  \<open>seconds * rate\<close> of the file, which is the sound of 44 bytes before; a seek to the beginning plays
  the header.
\<close>

theorem wav_seek_forgets_header:
  assumes "header_ok h" "wh_bitsPerSample h = 8 * of_nat bytes" "0 < bytes" "bytes < 2 ^ 13" "0 < wh_numChannels h"
    and "bytes * unat (wh_numChannels h) * unat (wh_sampleRate h) < 2 ^ 32"
    and "wv_head w = take WAV_HEAD_INFO_LEN (pcm_file h samples) @ r" "0 < wv_fileSize w" "wv_seekable w = WAV_SEEKABLE"
    and "sec * (bytes * unat (wh_numChannels h) * unat (wh_sampleRate h)) < 44 + length samples" "44 + length samples < 2 ^ 32"
  shows "\<exists>w1. wav_SeekTo (int sec * 1000000000) w = (OK, w1) \<and>
    fst (snd (wav_ReadFrame (wav_file (pcm_file h samples)) [] w1)) =
      take 8192 (drop (sec * (bytes * unat (wh_numChannels h) * unat (wh_sampleRate h))) (pcm_file h samples))"
proof -
  let ?ba = "bytes * unat (wh_numChannels h)" and ?br = "bytes * unat (wh_numChannels h) * unat (wh_sampleRate h)"
  have bits: "unat (wh_bitsPerSample h) div 8 = bytes"
    using assms(2,4) by (simp add: unat_word_ariths unat_of_nat)
  have c0: "0 < unat (wh_numChannels h)" using assms(5) by (simp add: unat_gt_0 word_neq_0_conv)
  have rate: "unat ((of_nat ?ba :: u32) * wh_sampleRate h) = ?br"
    using assms(6) by (simp add: unat_word_ariths unat_of_nat mod_mult_left_eq unat_ucast_u16)
  have uint_rate: "uint ((of_nat ?ba :: u32) * wh_sampleRate h) = int ?br"
    by (simp only: rate [symmetric] uint_nat)
  have pos: "c_div (c_div (int sec * 1000000000) 1000000000 * int ?br) (int ?ba) * int ?ba = int (sec * ?br)"
    using assms(3) c0 by (simp add: c_div_nonneg)
  have len: "length (pcm_file h samples) = 44 + length samples" by (rule length_pcm [OF assms(1)])
  have off: "unat (of_int (int (sec * ?br)) :: u32) = sec * ?br"
    unfolding of_int_of_nat_eq using assms(10,11) by (subst unat_of_nat) simp
  have guard: "\<not> (wv_fileSize w \<le> 0 \<or> wv_seekable w = WAV_INVALID \<or> wv_seekable w = WAV_UNSEEKABLE)" "?ba \<noteq> 0"
    using assms(3,8,9) c0 by simp_all
  have "wav_SeekTo (int sec * 1000000000) w = (OK, w\<lparr>wv_dataOffset := of_int (int (sec * ?br))\<rparr>)"
    unfolding wav_SeekTo_def assms(7) head_pcm [OF assms(1)] bits uint_rate Let_def if_not_P [OF guard(1)] if_P [OF guard(2)] pos ..
  then show ?thesis
    unfolding wav_ReadFrame_file using off len assms(10) by simp
qed

theorem wav_seek_forgets_header_witness:
  "\<exists>w1. wav_SeekTo 0 (new_wav\<lparr>wv_head := take WAV_HEAD_INFO_LEN (pcm_file ex_header [1, 2, 3, 4]), wv_fileSize := 48, wv_seekable := WAV_SEEKABLE\<rparr>) = (OK, w1) \<and>
    fst (snd (wav_ReadFrame (wav_file (pcm_file ex_header [1, 2, 3, 4])) [] w1)) = take 8192 (pcm_file ex_header [1, 2, 3, 4])"
  using wav_seek_forgets_header [of ex_header 1 "new_wav\<lparr>wv_head := take WAV_HEAD_INFO_LEN (pcm_file ex_header [1, 2, 3, 4]), wv_fileSize := 48, wv_seekable := WAV_SEEKABLE\<rparr>"
      "[1, 2, 3, 4]" "[]" 0]
  by (simp add: ex_header_def header_ok_def)

end
