(* ===== verification/Bit_Reader.thy ===== *)
theory Bit_Reader
  imports Hst_Prelude
begin

text \<open>
  The bit reader of the FFmpeg adapter (engine/plugin/plugins/ffmpeg_adapter/utils/bit_reader.h and
  .cpp), which the parsers of codec configurations use.

  A reader stands in a buffer at the byte \<open>br_cur\<close>, of which the last \<open>br_avail\<close> bits are still to be
  read. What is left to read is abstracted to a list of bits, the most significant of each byte
  first (\<open>pending\<close>), and every operation is shown to work on that list.
\<close>

unbundle bit_operations_syntax

section \<open>The reader\<close>

record reader =
  br_buf :: "u8 list"
  br_cur :: nat
  br_avail :: nat

definition new_reader :: "u8 list \<Rightarrow> reader" where
  "new_reader buf = \<lparr>br_buf = buf, br_cur = 0, br_avail = 8\<rparr>"

definition GetAvailableBits :: "reader \<Rightarrow> nat" where
  "GetAvailableBits r =
     (if br_cur r \<noteq> length (br_buf r) then (length (br_buf r) - br_cur r - 1) * 8 + br_avail r else 0)"

text \<open>The loop of \<open>ReadBits\<close>: what is read so far, the byte, the bits left in it.\<close>

function read_loop :: "u8 list \<Rightarrow> nat \<Rightarrow> 'a::len word \<Rightarrow> nat \<Rightarrow> nat \<Rightarrow> 'a word \<times> nat \<times> nat" where
  "read_loop buf remain val cur avail =
     (if remain = 0 then (val, cur, avail)
      else let (cur1, avail1) = (if avail = 0 then (cur + 1, 8) else (cur, avail));
               toRead = min remain avail1;
               shift = avail1 - toRead;
               mask = drop_bit (8 - toRead) 0xFF;
               val1 = push_bit toRead val OR ucast (drop_bit shift (buf ! cur1) AND mask)
           in read_loop buf (remain - toRead) val1 cur1 (avail1 - toRead))"
  by pat_completeness auto
termination by (relation "measure (\<lambda>(buf, remain, val, cur, avail). remain)") (auto split: if_splits)

declare read_loop.simps [simp del]

text \<open>A read that does not succeed changes neither the reader nor the variable.\<close>

definition ReadBits :: "nat \<Rightarrow> reader \<Rightarrow> ('a::len word \<times> reader) option" where
  "ReadBits bits r =
     (if GetAvailableBits r < bits then None
      else case read_loop (br_buf r) bits 0 (br_cur r) (br_avail r) of
             (val, cur, avail) \<Rightarrow> Some (val, r\<lparr>br_cur := cur, br_avail := avail\<rparr>))"

definition SkipBits :: "nat \<Rightarrow> reader \<Rightarrow> reader" where
  "SkipBits bits r =
     (if bits \<le> br_avail r then r\<lparr>br_avail := br_avail r - bits\<rparr>
      else let skipBits = bits - br_avail r;
               cur = br_cur r + (1 + skipBits div 8)
           in if cur \<ge> length (br_buf r) then r\<lparr>br_cur := length (br_buf r), br_avail := 0\<rparr>
              else r\<lparr>br_cur := cur, br_avail := 8 - skipBits mod 8\<rparr>)"

definition br_SeekTo :: "nat \<Rightarrow> reader \<Rightarrow> bool \<times> reader" where
  "br_SeekTo bitPos r =
     (let bytePos = bitPos div 8
      in if bytePos \<ge> length (br_buf r) then (False, r)
         else let skipBits = bitPos mod 8
              in (True, SkipBits skipBits (r\<lparr>br_cur := bytePos, br_avail := 8 - skipBits\<rparr>)))"

definition PeekBits :: "nat \<Rightarrow> reader \<Rightarrow> 'a::len word option" where
  "PeekBits bits r = map_option fst (ReadBits bits r)"

section \<open>The list of bits\<close>

definition byte_bits :: "u8 \<Rightarrow> bool list" where
  "byte_bits b = map (bit b) [7, 6, 5, 4, 3, 2, 1, 0]"

definition bits_of :: "u8 list \<Rightarrow> bool list" where
  "bits_of buf = concat (map byte_bits buf)"

definition bits_val :: "'a::len word \<Rightarrow> bool list \<Rightarrow> 'a word" where
  "bits_val = foldl (\<lambda>v b. push_bit 1 v OR of_bool b)"

definition bit_position :: "nat \<Rightarrow> nat \<Rightarrow> nat" where
  "bit_position cur avail = 8 * cur + (8 - avail)"

definition pending :: "reader \<Rightarrow> bool list" where
  "pending r = drop (bit_position (br_cur r) (br_avail r)) (bits_of (br_buf r))"

definition reader_ok :: "reader \<Rightarrow> bool" where
  "reader_ok r \<longleftrightarrow> br_cur r \<le> length (br_buf r) \<and> br_avail r \<le> 8"

lemma length_byte_bits [simp]: "length (byte_bits b) = 8"
  by (simp add: byte_bits_def)

lemma bits_of_simps [simp]: "bits_of [] = []" "bits_of (b # bs) = byte_bits b @ bits_of bs"
  "bits_of (xs @ ys) = bits_of xs @ bits_of ys"
  by (simp_all add: bits_of_def)

lemma length_bits_of [simp]: "length (bits_of buf) = 8 * length buf"
  by (induction buf) simp_all

lemma bits_val_simps [simp]: "bits_val v [] = v" "bits_val v (xs @ ys) = bits_val (bits_val v xs) ys"
  "bits_val v (b # xs) = bits_val (push_bit 1 v OR of_bool b) xs"
  by (simp_all add: bits_val_def)

lemma byte_bits_nth: "i < 8 \<Longrightarrow> byte_bits b ! i = bit b (7 - i)"
  by (auto simp: byte_bits_def less_Suc_eq numeral_eq_Suc)

lemma take_byte_bits: "t \<le> a \<Longrightarrow> a \<le> 8 \<Longrightarrow> take t (drop (8 - a) (byte_bits b)) = map (\<lambda>i. bit b (a - 1 - i)) [0..<t]"
  by (rule nth_equalityI) (auto simp: byte_bits_nth intro!: arg_cong [where f = "bit b"])

lemma bits_of_nth: "cur < length buf \<Longrightarrow> i < 8 \<Longrightarrow> bits_of buf ! (8 * cur + i) = byte_bits (buf ! cur) ! i"
proof (induction buf arbitrary: cur)
  case (Cons b buf)
  then show ?case by (cases cur) (simp_all add: nth_append)
qed simp

lemma take_bits_of:
  assumes "cur < length buf" "t \<le> a" "a \<le> 8"
  shows "take t (drop (bit_position cur a) (bits_of buf)) = map (\<lambda>i. bit (buf ! cur) (a - 1 - i)) [0..<t]"
proof (rule nth_equalityI)
  have pos: "bit_position cur a + t \<le> 8 * length buf" using assms by (simp add: bit_position_def)
  show "length (take t (drop (bit_position cur a) (bits_of buf))) = length (map (\<lambda>i. bit (buf ! cur) (a - 1 - i)) [0..<t])"
    using pos by simp
  fix i assume "i < length (take t (drop (bit_position cur a) (bits_of buf)))"
  then have i: "i < t" by simp
  have "bits_of buf ! (8 * cur + (8 - a + i)) = bit (buf ! cur) (7 - (8 - a + i))"
    using i assms bits_of_nth [of cur buf "8 - a + i"] byte_bits_nth [of "8 - a + i" "buf ! cur"] by linarith
  moreover have "7 - (8 - a + i) = a - 1 - i" "8 * cur + (8 - a + i) = bit_position cur a + i"
    using assms by (simp_all add: bit_position_def)
  ultimately have "bits_of buf ! (bit_position cur a + i) = bit (buf ! cur) (a - 1 - i)" by (simp only:)
  then show "take t (drop (bit_position cur a) (bits_of buf)) ! i = map (\<lambda>i. bit (buf ! cur) (a - 1 - i)) [0..<t] ! i"
    using i pos by simp
qed

section \<open>Reading\<close>

text \<open>One turn of the loop takes bits of one byte.\<close>

lemma mask_byte: "t \<le> 8 \<Longrightarrow> drop_bit (8 - t) (0xFF :: u8) = mask t"
proof -
  have ff: "(0xFF :: u8) = mask 8" by (simp add: mask_eq_exp_minus_1)
  assume "t \<le> 8"
  then show ?thesis unfolding ff by (intro bit_word_eqI) (auto simp: bit_simps)
qed

lemma bits_val_byte:
  fixes v :: "'a::len word"
  assumes "t \<le> a" "a \<le> 8"
  shows "bits_val v (map (\<lambda>i. bit b (a - 1 - i)) [0..<t]) = push_bit t v OR ucast (drop_bit (a - t) b AND drop_bit (8 - t) (0xFF :: u8))"
  using assms(1)
proof (induction t)
  case 0
  then show ?case by (simp add: drop_bit_eq_div)
next
  case (Suc t)
  then have masks: "drop_bit (8 - t) (0xFF :: u8) = mask t" "drop_bit (8 - Suc t) (0xFF :: u8) = mask (Suc t)"
    using assms(2) by (simp_all only: mask_byte)
  from Suc have "bits_val v (map (\<lambda>i. bit b (a - 1 - i)) [0..<Suc t]) =
    push_bit 1 (push_bit t v OR ucast (drop_bit (a - t) b AND drop_bit (8 - t) (0xFF :: u8))) OR of_bool (bit b (a - 1 - t))"
    by simp
  also have "\<dots> = push_bit (Suc t) v OR ucast (drop_bit (a - Suc t) b AND drop_bit (8 - Suc t) (0xFF :: u8))"
    unfolding masks
  proof (rule bit_word_eqI)
    fix n assume "n < LENGTH('a)"
    have "Suc (a + m - Suc t) = a + m - t" for m using Suc.prems by simp
    with Suc.prems assms(2) show "bit (push_bit 1 (push_bit t v OR ucast (drop_bit (a - t) b AND mask t)) OR of_bool (bit b (a - 1 - t))) n \<longleftrightarrow>
        bit (push_bit (Suc t) v OR ucast (drop_bit (a - Suc t) b AND mask (Suc t)) :: 'a word) n"
      unfolding bit_or_iff bit_push_bit_iff bit_unsigned_iff bit_drop_bit_eq bit_and_iff bit_mask_iff o_def bit_of_bool_iff
      by (cases n) (auto simp: Suc_diff_le)
  qed
  finally show ?case .
qed


lemma read_loop_spec:
  assumes "bit_position cur avail + remain \<le> 8 * length buf" "avail \<le> 8" "cur < length buf"
    and "read_loop buf remain val cur avail = (val1, cur1, avail1)"
  shows "val1 = bits_val val (take remain (drop (bit_position cur avail) (bits_of buf))) \<and>
    bit_position cur1 avail1 = bit_position cur avail + remain \<and> avail1 \<le> 8 \<and> cur1 < length buf"
  using assms
proof (induction buf remain val cur avail arbitrary: val1 cur1 avail1 rule: read_loop.induct)
  case (1 buf remain val cur avail)
  show ?case
  proof (cases "remain = 0")
    case True
    then show ?thesis using 1(5) 1(3,4) by (simp add: read_loop.simps)
  next
    case False
    obtain c a where ca: "(if avail = 0 then (cur + 1, 8) else (cur, avail)) = (c, a)" by fastforce
    have a: "0 < a" "a \<le> 8" and pos: "bit_position c a = bit_position cur avail"
      using ca 1(3) by (auto simp: bit_position_def split: if_splits)
    have c: "c < length buf"
      using ca 1(2,4) False by (auto simp: bit_position_def split: if_splits)
    let ?t = "min remain a"
    let ?v = "push_bit ?t val OR ucast (drop_bit (a - ?t) (buf ! c) AND drop_bit (8 - ?t) 0xFF)"
    have run: "read_loop buf (remain - ?t) ?v c (a - ?t) = (val1, cur1, avail1)"
      using 1(5) False ca by (subst (asm) read_loop.simps) (simp add: Let_def)
    have pos': "bit_position c (a - ?t) = bit_position cur avail + ?t"
      using a pos by (simp add: bit_position_def)
    have v: "?v = bits_val val (take ?t (drop (bit_position cur avail) (bits_of buf)))"
      using take_bits_of [OF c, of ?t a] bits_val_byte [of ?t a val "buf ! c"] a pos by simp
    have "bit_position c (a - ?t) + (remain - ?t) \<le> 8 * length buf" "a - ?t \<le> 8" using 1(2) pos' a by simp_all
    from 1(1) [OF False refl ca [symmetric] refl refl refl refl this c run]
    have IH: "val1 = bits_val ?v (take (remain - ?t) (drop (bit_position c (a - ?t)) (bits_of buf))) \<and>
      bit_position cur1 avail1 = bit_position c (a - ?t) + (remain - ?t) \<and> avail1 \<le> 8 \<and> cur1 < length buf" by simp
    have "take remain (drop (bit_position cur avail) (bits_of buf)) =
      take ?t (drop (bit_position cur avail) (bits_of buf)) @ take (remain - ?t) (drop (bit_position c (a - ?t)) (bits_of buf))"
      unfolding pos' by (metis add.commute drop_drop le_add_diff_inverse min.cobounded1 take_add)
    then show ?thesis using IH pos' by (simp add: v)
  qed
qed

text \<open>The operations work on the bits that are left.\<close>

lemma pending_new [simp]: "pending (new_reader buf) = bits_of buf" "reader_ok (new_reader buf)" "br_buf (new_reader buf) = buf"
  by (simp_all add: pending_def new_reader_def bit_position_def reader_ok_def)

lemma GetAvailableBits_pending: "reader_ok r \<Longrightarrow> GetAvailableBits r = length (pending r)"
  by (auto simp: GetAvailableBits_def pending_def reader_ok_def bit_position_def)

lemma ReadBits_None: "reader_ok r \<Longrightarrow> length (pending r) < n \<Longrightarrow> ReadBits n r = None"
  by (simp add: ReadBits_def GetAvailableBits_pending)

lemma ReadBits_pending:
  assumes "reader_ok r" "n \<le> length (pending r)"
  obtains r1 where "ReadBits n r = Some (bits_val 0 (take n (pending r)), r1)" "reader_ok r1" "br_buf r1 = br_buf r"
    "pending r1 = drop n (pending r)"
proof (cases "n = 0")
  case True
  then show ?thesis using that [of r] assms by (simp add: ReadBits_def read_loop.simps)
next
  case False
  obtain v c a where run: "read_loop (br_buf r) n (0 :: 'a word) (br_cur r) (br_avail r) = (v, c, a)" by (metis prod_cases3)
  have "bit_position (br_cur r) (br_avail r) + n \<le> 8 * length (br_buf r)" "br_avail r \<le> 8" "br_cur r < length (br_buf r)"
    using assms False by (auto simp: pending_def reader_ok_def bit_position_def)
  from read_loop_spec [OF this run]
  have "v = bits_val 0 (take n (pending r))" "bit_position c a = bit_position (br_cur r) (br_avail r) + n" "a \<le> 8" "c < length (br_buf r)"
    by (simp_all add: pending_def)
  then show ?thesis
    using that [of "r\<lparr>br_cur := c, br_avail := a\<rparr>"] assms run
    by (simp add: ReadBits_def GetAvailableBits_pending reader_ok_def pending_def add.commute)
qed

lemma SkipBits_pending:
  assumes "reader_ok r"
  shows "pending (SkipBits n r) = drop n (pending r)" "reader_ok (SkipBits n r)" "br_buf (SkipBits n r) = br_buf r"
proof -
  have div: "k mod 8 < 8" for k :: nat by simp
  have pos_mod: "bit_position c (8 - j) = 8 * c + j" if "j < 8" for c j using that by (simp add: bit_position_def)
  show "pending (SkipBits n r) = drop n (pending r)"
  proof (cases "n \<le> br_avail r")
    case True
    then have "bit_position (br_cur r) (br_avail r - n) = n + bit_position (br_cur r) (br_avail r)"
      using assms by (simp add: bit_position_def reader_ok_def)
    then show ?thesis using True by (simp add: SkipBits_def pending_def)
  next
    case False
    let ?k = "n - br_avail r" and ?c = "br_cur r + (1 + (n - br_avail r) div 8)"
    have skip: "SkipBits n r = (if ?c \<ge> length (br_buf r) then r\<lparr>br_cur := length (br_buf r), br_avail := 0\<rparr>
        else r\<lparr>br_cur := ?c, br_avail := 8 - ?k mod 8\<rparr>)"
      using False by (simp only: SkipBits_def Let_def if_False)
    have to: "8 * ?c + ?k mod 8 = n + bit_position (br_cur r) (br_avail r)"
    proof -
      obtain k where k: "?k = k" "n = br_avail r + k" using that [of ?k] False by simp
      obtain m where m: "8 - br_avail r = m" "br_avail r + m = 8" using assms by (simp add: reader_ok_def)
      show ?thesis using m(2) unfolding bit_position_def k(1) m(1) unfolding k(2) by simp
    qed
    show ?thesis
    proof (cases "?c \<ge> length (br_buf r)")
      case True
      have "8 * length (br_buf r) \<le> n + bit_position (br_cur r) (br_avail r)" 
        unfolding to [symmetric] by (rule trans_le_add1 [OF mult_le_mono2 [OF True]])
      then show ?thesis unfolding skip if_P [OF True] by (simp add: pending_def bit_position_def)
    next
      case c: False
      have "bit_position ?c (8 - ?k mod 8) = n + bit_position (br_cur r) (br_avail r)"
        unfolding to [symmetric] by (rule pos_mod) (rule div)
      then show ?thesis unfolding skip if_not_P [OF c] by (simp add: pending_def)
    qed
  qed
qed (use assms in \<open>auto simp: SkipBits_def reader_ok_def Let_def\<close>)

lemma br_SeekTo_pending:
  assumes "p < 8 * length (br_buf r)" "reader_ok r"
  shows "\<exists>r1. br_SeekTo p r = (True, r1) \<and> reader_ok r1 \<and> pending r1 = drop (p + p mod 8) (bits_of (br_buf r))"
proof -
  have b: "p div 8 < length (br_buf r)" using assms(1) by (simp add: div_less_iff_less_mult mult.commute)
  let ?r = "r\<lparr>br_cur := p div 8, br_avail := 8 - p mod 8\<rparr>"
  have "reader_ok ?r" using b by (simp add: reader_ok_def)
  moreover have "pending ?r = drop p (bits_of (br_buf r))"
    by (simp add: pending_def bit_position_def)
  ultimately show ?thesis using b SkipBits_pending [of ?r "p mod 8"] by (simp add: br_SeekTo_def Let_def add.commute)
qed

end
