(* ===== verification/Codec_Config.thy ===== *)
theory Codec_Config
  imports Bit_Reader
begin

text \<open>
  The parsers of codec configurations of the FFmpeg adapter: the \<open>AudioSpecificConfig\<close> of AAC
  (engine/plugin/plugins/ffmpeg_adapter/utils/aac_audio_config_parser.cpp) and the configuration
  record of AVC (avc_config_data_parser.cpp in the same directory).

  The one operation on \<open>float\<close> that rounds, the quotient of the rate by 48000 and its product with a
  small number, is written out in integers: 24 bits, rounded to the nearest, ties to even.
\<close>

section \<open>AAC\<close>

datatype aac_profile = AAC_NONE | AAC_MAIN | AAC_LC | AAC_SSR | AAC_LTP | AAC_HE | AAC_SCALABLE | AAC_ERLC | AAC_ER_SCALABLE | AAC_LD |
  AAC_HE_PS | AAC_ELD | AAC_XHE

record audio_config =
  ac_objectType :: u8
  ac_channelConfig :: u8
  ac_sampleRate :: u32
  ac_level :: u32
  ac_profile :: aac_profile

record aac_parser =
  ap_reader :: reader
  ap_valid :: bool
  ap_config :: audio_config

definition reset_config :: audio_config where
  "reset_config = \<lparr>ac_objectType = 0xFF, ac_channelConfig = 0xFF, ac_sampleRate = 0, ac_level = 0, ac_profile = AAC_NONE\<rparr>"

definition new_aac_parser :: "u8 list \<Rightarrow> aac_parser" where
  "new_aac_parser buf = \<lparr>ap_reader = new_reader buf, ap_valid = False, ap_config = reset_config\<rparr>"

definition ParseObjectType :: "aac_parser \<Rightarrow> bool \<times> aac_parser" where
  "ParseObjectType p =
     (case ReadBits 5 (ap_reader p) :: (u8 \<times> reader) option of
        None \<Rightarrow> (False, p)
      | Some (t, r) \<Rightarrow>
          if t = 31 then
            (case ReadBits 6 r :: (u8 \<times> reader) option of
               None \<Rightarrow> (False, p\<lparr>ap_reader := r\<rparr>)
             | Some (t1, r1) \<Rightarrow> (True, p\<lparr>ap_reader := r1, ap_config := (ap_config p)\<lparr>ac_objectType := t1 + 32\<rparr>\<rparr>))
          else (True, p\<lparr>ap_reader := r, ap_config := (ap_config p)\<lparr>ac_objectType := t\<rparr>\<rparr>))"

definition sampleRates :: "u32 list" where
  "sampleRates = [96000, 88200, 64000, 48000, 44100, 32000, 24000, 22050, 16000, 12000, 11025, 8000, 7350]"

definition ParseSampleRate :: "aac_parser \<Rightarrow> bool \<times> aac_parser" where
  "ParseSampleRate p =
     (case ReadBits 4 (ap_reader p) :: (u8 \<times> reader) option of
        None \<Rightarrow> (False, p)
      | Some (i, r) \<Rightarrow>
          if i = 0xf then
            (case ReadBits 24 r :: (u32 \<times> reader) option of
               None \<Rightarrow> (False, p\<lparr>ap_reader := r\<rparr>)
             | Some (rate, r1) \<Rightarrow> (True, p\<lparr>ap_reader := r1, ap_config := (ap_config p)\<lparr>ac_sampleRate := rate\<rparr>\<rparr>))
          else if unat i < length sampleRates then
            (True, p\<lparr>ap_reader := r, ap_config := (ap_config p)\<lparr>ac_sampleRate := sampleRates ! unat i\<rparr>\<rparr>)
          else (False, p\<lparr>ap_reader := r\<rparr>))"

definition ParseChannel :: "aac_parser \<Rightarrow> bool \<times> aac_parser" where
  "ParseChannel p =
     (case ReadBits 4 (ap_reader p) :: (u8 \<times> reader) option of
        None \<Rightarrow> (False, p)
      | Some (c, r) \<Rightarrow> (True, p\<lparr>ap_reader := r, ap_config := (ap_config p)\<lparr>ac_channelConfig := c\<rparr>\<rparr>))"

text \<open>One step after another, as \<open>&&\<close> runs them.\<close>

definition and_then :: "('s \<Rightarrow> bool \<times> 's) \<Rightarrow> ('s \<Rightarrow> bool \<times> 's) \<Rightarrow> 's \<Rightarrow> bool \<times> 's" where
  "and_then f g s = (case f s of (ok, s1) \<Rightarrow> if ok then g s1 else (False, s1))"

definition ParseObjectTypeFull :: "aac_parser \<Rightarrow> bool \<times> aac_parser" where
  "ParseObjectTypeFull p =
     (case and_then ParseObjectType (and_then ParseSampleRate ParseChannel) p of (ok, p1) \<Rightarrow>
        if \<not> ok then (False, p1)
        else if ac_objectType (ap_config p1) = 5 \<or> ac_objectType (ap_config p1) = 29 then and_then ParseSampleRate ParseObjectType p1
        else (True, p1))"

text \<open>Single elements, pairs and low frequency elements; there is none for a configuration not known.\<close>

definition ExtractChannelElements :: "audio_config \<Rightarrow> (int \<times> int \<times> int) option" where
  "ExtractChannelElements c =
     (let ch = unat (ac_channelConfig c)
      in if ch = 1 then Some (1, 0, 0) else if ch = 2 then Some (0, 1, 0) else if ch = 3 then Some (1, 1, 0)
         else if ch = 4 then Some (2, 1, 0) else if ch = 5 then Some (1, 2, 0) else if ch = 6 then Some (1, 2, 0)
         else if ch = 7 \<or> ch = 12 \<or> ch = 14 then Some (1, 3, 1) else if ch = 11 then Some (2, 2, 1) else None)"

definition ExtractReferencePRCU :: "audio_config \<Rightarrow> (int \<times> int) option" where
  "ExtractReferencePRCU c =
     (let t = ac_objectType c
      in if t = 0 then None else if t = 2 then Some (3, 3) else if t = 3 then Some (4, 3) else if t = 4 then Some (4, 4) else Some (5, 5))"

fun bit_count :: "int \<Rightarrow> nat" where
  "bit_count n = (if n \<le> 0 then 0 else Suc (bit_count (n div 2)))"

declare bit_count.simps [simp del]

definition round_div :: "int \<Rightarrow> int \<Rightarrow> int" where
  "round_div n d = (if 2 * (n mod d) < d \<or> 2 * (n mod d) = d \<and> even (n div d) then n div d else n div d + 1)"

text \<open>\<open>f32_div n d\<close> is \<open>(m, k)\<close> for the float \<open>m / 2 ^ k\<close>, where \<open>0 \<le> n / d < 2 ^ 24\<close>.\<close>

definition f32_div :: "int \<Rightarrow> int \<Rightarrow> int \<times> nat" where
  "f32_div n d =
     (let k = 24 + bit_count d - bit_count n;
          k1 = (if n * 2 ^ k div d \<ge> 2 ^ 24 then k - 1 else k)
      in (round_div (n * 2 ^ k1) d, k1))"

definition f32_times_trunc :: "int \<times> nat \<Rightarrow> int \<Rightarrow> int" where
  "f32_times_trunc q c = (case q of (m, k) \<Rightarrow> let j = bit_count (m * c) - 24 in round_div (m * c) (2 ^ j) * 2 ^ j div 2 ^ k)"

definition rate_factor :: "u32 \<Rightarrow> int \<Rightarrow> int" where
  "rate_factor rate refPcu = f32_times_trunc (f32_div (uint rate) 48000) refPcu"

definition CalculateProfile :: "int \<Rightarrow> int \<Rightarrow> int \<Rightarrow> audio_config \<Rightarrow> bool \<times> audio_config" where
  "CalculateProfile channelCnt pcu rcu c =
     (let fits = (\<lambda>maxChannelCnt maxSampleRate maxPcu maxRcu. channelCnt \<le> maxChannelCnt \<and> ac_sampleRate c \<le> maxSampleRate \<and> pcu \<le> maxPcu \<and> rcu \<le> maxRcu);
          ret = (if ac_objectType c = 2 then
                   if fits 2 24000 3 5 then 1 else if fits 2 48000 6 5 then 2 else if fits 5 48000 19 15 then 4
                   else if fits 5 96000 38 15 then 5 else if fits 7 48000 25 19 then 6 else if fits 7 96000 50 19 then 7 else - 1
                 else if pcu < 40 \<and> rcu < 20 then 1 else if pcu < 80 \<and> rcu < 64 then 2 else if pcu < 160 \<and> rcu < 128 then 3
                 else if pcu < 320 \<and> rcu < 256 then 4 else (- 1 :: int))
      in (ret \<noteq> - 1, c\<lparr>ac_level := of_int ret\<rparr>))"

definition ParseLevel :: "aac_parser \<Rightarrow> bool \<times> aac_parser" where
  "ParseLevel p =
     (case ExtractChannelElements (ap_config p) of
        None \<Rightarrow> (False, p)
      | Some (sceCnt, cpeCnt, lfeCnt) \<Rightarrow>
          (case ExtractReferencePRCU (ap_config p) of
             None \<Rightarrow> (False, p)
           | Some (refPcu, refRcu) \<Rightarrow>
               let tmp = rate_factor (ac_sampleRate (ap_config p)) refPcu;
                   pcu = tmp * (2 * cpeCnt + sceCnt + lfeCnt);
                   rcu = refRcu * (2 * sceCnt + lfeCnt) div 2;
                   rcu1 = (if cpeCnt < 2 then rcu + (refRcu + (refRcu - 1)) * cpeCnt
                           else rcu + (refRcu + (refRcu - 1) * (2 * cpeCnt - 1)))
               in case CalculateProfile (sceCnt + 2 * cpeCnt) pcu rcu1 (ap_config p) of
                    (ok, c) \<Rightarrow> (ok, p\<lparr>ap_config := c\<rparr>)))"

definition ParseProfile :: "aac_parser \<Rightarrow> bool \<times> aac_parser" where
  "ParseProfile p =
     (let t = ac_objectType (ap_config p);
          profile = (if t = 1 then AAC_MAIN else if t = 2 then AAC_LC else if t = 3 then AAC_SSR else if t = 4 then AAC_LTP else AAC_NONE)
      in (True, p\<lparr>ap_config := (ap_config p)\<lparr>ac_profile := profile\<rparr>\<rparr>))"

definition ParseConfigs :: "aac_parser \<Rightarrow> bool \<times> aac_parser" where
  "ParseConfigs p =
     (case and_then ParseObjectTypeFull (and_then ParseLevel ParseProfile) p of (ok, p1) \<Rightarrow>
        if ok then (True, p1\<lparr>ap_valid := True\<rparr>)
        else (False, p1\<lparr>ap_valid := False, ap_config := reset_config\<rparr>))"

section \<open>AVC\<close>

definition AVC_MIN_CONFIG_DATA_SIZE :: nat where "AVC_MIN_CONFIG_DATA_SIZE = 7"
definition AVC_NAL_HEADER :: "u8 list" where "AVC_NAL_HEADER = [0, 0, 0, 1]"
definition AVC_MAX_CONFIG_ITEM :: nat where "AVC_MAX_CONFIG_ITEM = 256"

text \<open>The items are the parameter sets with their start codes.\<close>

record avc_parser =
  av_reader :: reader
  av_items :: "u8 list list"
  av_nalUnitLen :: u8
  av_version :: u8
  av_profile :: u8
  av_compat :: u8
  av_level :: u8
  av_needHeader :: bool
  av_newCfg :: "u8 list option"

definition new_avc_parser :: "u8 list \<Rightarrow> avc_parser" where
  "new_avc_parser cfg =
     \<lparr>av_reader = new_reader cfg, av_items = [], av_nalUnitLen = 4, av_version = 1, av_profile = 0, av_compat = 0, av_level = 0,
      av_needHeader = False, av_newCfg = None\<rparr>"

text \<open>A field of one unit read into a byte of the parser.\<close>

definition read_field :: "(u8 \<Rightarrow> avc_parser \<Rightarrow> avc_parser) \<Rightarrow> avc_parser \<Rightarrow> bool \<times> avc_parser" where
  "read_field upd p =
     (case ReadBits 1 (av_reader p) of None \<Rightarrow> (False, p) | Some (v, r) \<Rightarrow> (True, upd v (p\<lparr>av_reader := r\<rparr>)))"

definition ParseNalUnitSizeLen :: "avc_parser \<Rightarrow> bool \<times> avc_parser" where
  "ParseNalUnitSizeLen p =
     (case ReadBits 1 (av_reader p) :: (u8 \<times> reader) option of
        None \<Rightarrow> (False, p)
      | Some (sizeLen, r) \<Rightarrow>
          let n = (sizeLen AND 3) + 1
          in (n = 1 \<or> n = 2 \<or> n = 4, p\<lparr>av_reader := r, av_nalUnitLen := n\<rparr>))"

definition ParseNalHeader :: "avc_parser \<Rightarrow> bool \<times> avc_parser" where
  "ParseNalHeader p =
     (if GetAvailableBits (av_reader p) < AVC_MIN_CONFIG_DATA_SIZE then (False, p)
      else case read_field (\<lambda>v. av_version_update (\<lambda>_. v)) p of (ok, p1) \<Rightarrow>
             if \<not> ok \<or> av_version p1 \<noteq> 1 then (False, p1)
             else and_then (read_field (\<lambda>v. av_profile_update (\<lambda>_. v)))
                    (and_then (read_field (\<lambda>v. av_compat_update (\<lambda>_. v)))
                      (and_then (read_field (\<lambda>v. av_level_update (\<lambda>_. v))) ParseNalUnitSizeLen)) p1)"

text \<open>The length of a set; a read that fails after the first has moved the reader.\<close>

definition GetSpsOrPpsLen :: "reader \<Rightarrow> u32 option \<times> reader" where
  "GetSpsOrPpsLen r =
     (case ReadBits 1 r :: (u8 \<times> reader) option of
        None \<Rightarrow> (None, r)
      | Some (tmp1, r1) \<Rightarrow>
          (case ReadBits 1 r1 :: (u8 \<times> reader) option of
             None \<Rightarrow> (None, r1)
           | Some (tmp2, r2) \<Rightarrow>
               let len = (push_bit 8 (ucast tmp1) OR ucast tmp2) AND 0xFFFF
               in if unat len > GetAvailableBits r2 then (None, r2) else (Some len, r2)))"

text \<open>The copy takes \<open>len\<close> bytes from the byte the reader stands in.\<close>

fun parse_sets :: "nat \<Rightarrow> avc_parser \<Rightarrow> (fault, bool \<times> avc_parser) sum" where
  "parse_sets 0 p = Inr (True, p)"
| "parse_sets (Suc n) p =
     (if GetAvailableBits (av_reader p) < 2 then Inr (False, p)
      else case GetSpsOrPpsLen (av_reader p) of
             (None, r) \<Rightarrow> Inr (False, p\<lparr>av_reader := r\<rparr>)
           | (Some len, r) \<Rightarrow>
               if length (av_items p) \<ge> AVC_MAX_CONFIG_ITEM then Inr (False, p\<lparr>av_reader := r\<rparr>)
               else if br_cur r + unat len > length (br_buf r) then Inl Out_Of_Bounds
               else let item = AVC_NAL_HEADER @ take (unat len) (drop (br_cur r) (br_buf r))
                    in parse_sets n (p\<lparr>av_items := av_items p @ [item], av_reader := SkipBits (unat len) r\<rparr>))"

definition ParseSpsOrPps :: "u32 \<Rightarrow> avc_parser \<Rightarrow> (fault, bool \<times> avc_parser) sum" where
  "ParseSpsOrPps bitmask p =
     (case ReadBits 1 (av_reader p) :: (u32 \<times> reader) option of
        None \<Rightarrow> Inr (False, p)
      | Some (setCount, r) \<Rightarrow> parse_sets (unat (setCount AND bitmask)) (p\<lparr>av_reader := r\<rparr>))"

definition ParseNal :: "avc_parser \<Rightarrow> (fault, bool \<times> avc_parser) sum" where
  "ParseNal p =
     (case ParseNalHeader p of (ok, p1) \<Rightarrow>
        if \<not> ok then Inr (False, p1)
        else case ParseSpsOrPps 0x1F p1 of
               Inl f \<Rightarrow> Inl f
             | Inr (ok2, p2) \<Rightarrow>
                 if \<not> ok2 then Inr (False, p2)
                 else if GetAvailableBits (av_reader p2) < 1 then Inr (False, p2)
                 else ParseSpsOrPps 0xFF p2)"

text \<open>
  A record that is parsed becomes its parameter sets with start codes; one that is not is taken as it
  is, and marked for a header by what was read of it.
\<close>

definition ParseConfigData :: "avc_parser \<Rightarrow> (fault, bool \<times> avc_parser) sum" where
  "ParseConfigData p =
     (let cfg = br_buf (av_reader p)
      in case ParseNal p of
           Inl f \<Rightarrow> Inl f
         | Inr (ok, p1) \<Rightarrow>
             if \<not> ok then
               let p2 = (if length cfg < 3 \<or> \<not> (av_version p1 = 0 \<and> av_profile p1 = 0 \<and> av_compat p1 \<le> 1)
                         then p1\<lparr>av_needHeader := True\<rparr> else p1)
               in if length cfg = 0 then Inr (False, p2) else Inr (True, p2\<lparr>av_newCfg := Some cfg\<rparr>)
             else let p2 = p1\<lparr>av_needHeader := True\<rparr>
                  in if av_items p2 = [] then Inr (False, p2)
                     else let newSize = sum_list (map (\<lambda>i. length i mod 4096) (av_items p2));
                              content = concat (av_items p2)
                          in if length content > newSize then Inl Out_Of_Bounds
                             else Inr (True, p2\<lparr>av_newCfg := Some (content @ replicate (newSize - length content) 0)\<rparr>))"

definition GetNewConfigData :: "avc_parser \<Rightarrow> u8 list option" where
  "GetNewConfigData p = av_newCfg p"

definition IsNeedAddFrameHeader :: "avc_parser \<Rightarrow> bool" where
  "IsNeedAddFrameHeader p = av_needHeader p"

lemma avc_unit_tests:
  "map (\<lambda>b. case ParseConfigData (new_avc_parser [b]) of Inr (ok, p) \<Rightarrow> ok) [1, 2, 4, 16, 91, 128, 160, 232, 255] =
    [True, True, True, True, True, False, False, False, True]"
  by code_simp

lemma aac_unit_tests:
  "map (\<lambda>bytes. fst (ParseConfigs (new_aac_parser bytes)))
     [[0x8A, 0xE6], [0x8F, 0xE6], [0x8F, 0xE6, 0x47, 0x6F, 0x5B], [0x8E, 0xE6], [0x2A, 0xE6], [0, 0], [0x11, 0x89], [0x1A, 0x92],
      [0x23, 0x1B], [0x0C, 0xA4], [0x86, 0xAD], [0x87, 0xB6], [0x87, 0x5F], [0x87, 0x65], [0xFA], [0xFA, 0xE6]] =
     [True, False, False, False, False, False, True, True, True, True, False, False, False, False, False, False]"
  "ac_level (ap_config (snd (ParseConfigs (new_aac_parser [0x8A, 0xE6])))) = 2"
  by code_simp+

lemma rate_factor_table_LC: "map (\<lambda>r. rate_factor r 3) sampleRates = [6, 5, 4, 3, 2, 2, 1, 1, 1, 0, 0, 0, 0]"
  by code_simp

section \<open>What is written is read\<close>

text \<open>A number as bits, the most significant first.\<close>

fun msb_bits :: "nat \<Rightarrow> nat \<Rightarrow> bool list" where
  "msb_bits 0 k = []"
| "msb_bits (Suc n) k = msb_bits n (k div 2) @ [odd k]"

lemma length_msb_bits [simp]: "length (msb_bits n k) = n"
  by (induction n arbitrary: k) simp_all

lemma push_or_bit: "push_bit 1 (of_nat (k div 2)) OR of_bool (odd k) = (of_nat k :: 'a::len word)"
proof -
  have "push_bit 1 (of_nat (k div 2)) OR of_bool (odd k) = push_bit 1 (of_nat (k div 2)) + (of_bool (odd k) :: 'a word)"
    by (rule disjunctive_add [symmetric]) (simp only: bit_push_bit_iff bit_of_bool_iff, simp)
  also have "\<dots> = of_nat (2 * (k div 2) + of_bool (odd k))" by (simp add: push_bit_eq_mult mult.commute)
  also have "2 * (k div 2) + of_bool (odd k) = k" by (cases "even k") simp_all
  finally show ?thesis .
qed

lemma bits_val_msb: "k < 2 ^ n \<Longrightarrow> bits_val 0 (msb_bits n k) = of_nat k"
proof (induction n arbitrary: k)
  case (Suc n)
  then have "bits_val 0 (msb_bits n (k div 2)) = (of_nat (k div 2) :: 'a::len word)" by simp
  then show ?case by (simp only: msb_bits.simps bits_val_simps push_or_bit)
qed simp

lemma ReadBits_msb:
  assumes "reader_ok r" "pending r = msb_bits n k @ rest" "k < 2 ^ n"
  obtains r1 where "ReadBits n r = Some (of_nat k :: 'a::len word, r1)" "reader_ok r1" "br_buf r1 = br_buf r" "pending r1 = rest"
  using ReadBits_pending [of r n, where 'a = 'a] assms by (auto simp: bits_val_msb)


text \<open>The bits of an audio configuration: the type, the rate by its index or written out, the channels.\<close>

datatype rate_code = Rate_Index nat | Rate_Explicit nat

datatype aac_spec = Plain nat rate_code nat | Extended nat rate_code nat rate_code nat

definition type_bits :: "nat \<Rightarrow> bool list" where
  "type_bits t = (if t < 31 then msb_bits 5 t else msb_bits 5 31 @ msb_bits 6 (t - 32))"

fun rate_bits :: "rate_code \<Rightarrow> bool list" where
  "rate_bits (Rate_Index i) = msb_bits 4 i"
| "rate_bits (Rate_Explicit k) = msb_bits 4 15 @ msb_bits 24 k"

fun rate_of :: "rate_code \<Rightarrow> u32" where
  "rate_of (Rate_Index i) = sampleRates ! i"
| "rate_of (Rate_Explicit k) = of_nat k"

definition type_ok :: "nat \<Rightarrow> bool" where
  "type_ok t \<longleftrightarrow> t < 31 \<or> 32 \<le> t \<and> t < 96"

fun rate_ok :: "rate_code \<Rightarrow> bool" where
  "rate_ok (Rate_Index i) \<longleftrightarrow> i < 13"
| "rate_ok (Rate_Explicit k) \<longleftrightarrow> k < 2 ^ 24"

fun aac_spec_bits :: "aac_spec \<Rightarrow> bool list" where
  "aac_spec_bits (Plain t rc ch) = type_bits t @ rate_bits rc @ msb_bits 4 ch"
| "aac_spec_bits (Extended t rc ch rc1 t1) = type_bits t @ rate_bits rc @ msb_bits 4 ch @ rate_bits rc1 @ type_bits t1"

fun aac_spec_ok :: "aac_spec \<Rightarrow> bool" where
  "aac_spec_ok (Plain t rc ch) \<longleftrightarrow> type_ok t \<and> t \<noteq> 5 \<and> t \<noteq> 29 \<and> rate_ok rc \<and> ch < 16"
| "aac_spec_ok (Extended t rc ch rc1 t1) \<longleftrightarrow> (t = 5 \<or> t = 29) \<and> rate_ok rc \<and> ch < 16 \<and> rate_ok rc1 \<and> type_ok t1"

fun aac_spec_config :: "aac_spec \<Rightarrow> audio_config \<Rightarrow> audio_config" where
  "aac_spec_config (Plain t rc ch) c = c\<lparr>ac_objectType := of_nat t, ac_sampleRate := rate_of rc, ac_channelConfig := of_nat ch\<rparr>"
| "aac_spec_config (Extended t rc ch rc1 t1) c = c\<lparr>ac_objectType := of_nat t1, ac_sampleRate := rate_of rc1, ac_channelConfig := of_nat ch\<rparr>"

text \<open>A step of the parser reads some bits and sets a part of the configuration.\<close>

definition parses :: "(aac_parser \<Rightarrow> bool \<times> aac_parser) \<Rightarrow> bool list \<Rightarrow> (audio_config \<Rightarrow> audio_config) \<Rightarrow> bool" where
  "parses f bs g \<longleftrightarrow> (\<forall>p rest. reader_ok (ap_reader p) \<longrightarrow> pending (ap_reader p) = bs @ rest \<longrightarrow>
     (\<exists>r. f p = (True, p\<lparr>ap_reader := r, ap_config := g (ap_config p)\<rparr>) \<and> reader_ok r \<and> pending r = rest))"

lemma parsesI:
  assumes "\<And>p rest. reader_ok (ap_reader p) \<Longrightarrow> pending (ap_reader p) = bs @ rest \<Longrightarrow>
    \<exists>r. f p = (True, p\<lparr>ap_reader := r, ap_config := g (ap_config p)\<rparr>) \<and> reader_ok r \<and> pending r = rest"
  shows "parses f bs g"
  using assms unfolding parses_def by blast

lemma parsesE:
  assumes "parses f bs g" "reader_ok (ap_reader p)" "pending (ap_reader p) = bs @ rest"
  obtains r where "f p = (True, p\<lparr>ap_reader := r, ap_config := g (ap_config p)\<rparr>)" "reader_ok r" "pending r = rest"
  using assms unfolding parses_def by blast

lemma parses_and_then:
  assumes "parses f bs g" "parses f1 bs1 g1"
  shows "parses (and_then f f1) (bs @ bs1) (\<lambda>c. g1 (g c))"
proof (rule parsesI)
  fix p :: aac_parser and rest assume p: "reader_ok (ap_reader p)" "pending (ap_reader p) = (bs @ bs1) @ rest"
  from p(2) have "pending (ap_reader p) = bs @ (bs1 @ rest)" by simp
  with assms(1) p(1) obtain r where r: "f p = (True, p\<lparr>ap_reader := r, ap_config := g (ap_config p)\<rparr>)" "reader_ok r" "pending r = bs1 @ rest"
    by (rule parsesE)
  let ?p = "p\<lparr>ap_reader := r, ap_config := g (ap_config p)\<rparr>"
  from assms(2) r(2,3) obtain q where "f1 ?p = (True, ?p\<lparr>ap_reader := q, ap_config := g1 (ap_config ?p)\<rparr>)" "reader_ok q" "pending q = rest"
    by (auto elim: parsesE [of f1 bs1 g1 ?p rest])
  then show "\<exists>r. and_then f f1 p = (True, p\<lparr>ap_reader := r, ap_config := g1 (g (ap_config p))\<rparr>) \<and> reader_ok r \<and> pending r = rest"
    using r(1) by (auto simp: and_then_def)
qed

lemma len8_exp: "2 ^ LENGTH(8) = (256 :: nat)"
  by simp

lemma of_nat_u8_eq: "k < 256 \<Longrightarrow> m < 256 \<Longrightarrow> (of_nat k :: u8) = of_nat m \<longleftrightarrow> k = m"
  using unat_of_nat_lt [of k, where 'a = 8] unat_of_nat_lt [of m, where 'a = 8] by (metis len8_exp)

lemma parses_type: 
  assumes "type_ok t"
  shows "parses ParseObjectType (type_bits t) (ac_objectType_update (\<lambda>_. of_nat t))"
proof (rule parsesI)
  fix p :: aac_parser and rest assume p: "reader_ok (ap_reader p)" "pending (ap_reader p) = type_bits t @ rest"
  show "\<exists>r. ParseObjectType p = (True, p\<lparr>ap_reader := r, ap_config := (ap_config p)\<lparr>ac_objectType := of_nat t\<rparr>\<rparr>) \<and> reader_ok r \<and> pending r = rest"
  proof (cases "t < 31")
    case True
    with p have "pending (ap_reader p) = msb_bits 5 t @ rest" "t < 2 ^ 5" by (simp_all add: type_bits_def)
    with p(1) obtain r where "ReadBits 5 (ap_reader p) = Some (of_nat t :: u8, r)" "reader_ok r" "pending r = rest"
      by (rule ReadBits_msb)
    moreover have "(of_nat t :: u8) \<noteq> 31" using of_nat_u8_eq [of t 31] True by simp
    ultimately show ?thesis by (intro exI [of _ r]) (simp add: ParseObjectType_def)
  next
    case False
    with assms have t: "32 \<le> t" "t < 96" by (simp_all add: type_ok_def)
    with p have "pending (ap_reader p) = msb_bits 5 31 @ (msb_bits 6 (t - 32) @ rest)" by (simp add: type_bits_def)
    with p(1) obtain r where r: "ReadBits 5 (ap_reader p) = Some (of_nat 31 :: u8, r)" "reader_ok r" "pending r = msb_bits 6 (t - 32) @ rest"
      by (rule ReadBits_msb) simp_all
    from r(2,3) obtain q where q: "ReadBits 6 r = Some (of_nat (t - 32) :: u8, q)" "reader_ok q" "pending q = rest"
      by (rule ReadBits_msb) (use t in simp_all)
    have "(of_nat (t - 32) :: u8) + 32 = of_nat t" using t(1) by (simp add: of_nat_diff)
    then show ?thesis using r(1) q by (intro exI [of _ q]) (simp add: ParseObjectType_def)
  qed
qed

lemma parses_rate:
  assumes "rate_ok rc"
  shows "parses ParseSampleRate (rate_bits rc) (ac_sampleRate_update (\<lambda>_. rate_of rc))"
proof (rule parsesI)
  fix p :: aac_parser and rest assume p: "reader_ok (ap_reader p)" "pending (ap_reader p) = rate_bits rc @ rest"
  show "\<exists>r. ParseSampleRate p = (True, p\<lparr>ap_reader := r, ap_config := (ap_config p)\<lparr>ac_sampleRate := rate_of rc\<rparr>\<rparr>) \<and>
    reader_ok r \<and> pending r = rest"
  proof (cases rc)
    case (Rate_Index i)
    with assms have i: "i < 13" by simp
    with Rate_Index p have "pending (ap_reader p) = msb_bits 4 i @ rest" "i < 2 ^ 4" by simp_all
    with p(1) obtain r where "ReadBits 4 (ap_reader p) = Some (of_nat i :: u8, r)" "reader_ok r" "pending r = rest"
      by (rule ReadBits_msb)
    moreover have "(of_nat i :: u8) \<noteq> 15" "unat (of_nat i :: u8) = i" using of_nat_u8_eq [of i 15] i by simp_all
    ultimately show ?thesis using i Rate_Index by (intro exI [of _ r]) (simp add: ParseSampleRate_def sampleRates_def)
  next
    case (Rate_Explicit k)
    with p have "pending (ap_reader p) = msb_bits 4 15 @ (msb_bits 24 k @ rest)" by simp
    with p(1) obtain r where r: "ReadBits 4 (ap_reader p) = Some (of_nat 15 :: u8, r)" "reader_ok r" "pending r = msb_bits 24 k @ rest"
      by (rule ReadBits_msb) simp_all
    from r(2,3) obtain q where q: "ReadBits 24 r = Some (of_nat k :: u32, q)" "reader_ok q" "pending q = rest"
      by (rule ReadBits_msb) (use assms Rate_Explicit in simp_all)
    show ?thesis using r(1) q Rate_Explicit by (intro exI [of _ q]) (simp add: ParseSampleRate_def)
  qed
qed

lemma parses_channel:
  assumes "ch < 16"
  shows "parses ParseChannel (msb_bits 4 ch) (ac_channelConfig_update (\<lambda>_. of_nat ch))"
proof (rule parsesI)
  fix p :: aac_parser and rest assume p: "reader_ok (ap_reader p)" "pending (ap_reader p) = msb_bits 4 ch @ rest"
  then obtain r where "ReadBits 4 (ap_reader p) = Some (of_nat ch :: u8, r)" "reader_ok r" "pending r = rest"
    by (rule ReadBits_msb) (use assms in simp)
  then show "\<exists>r. ParseChannel p = (True, p\<lparr>ap_reader := r, ap_config := (ap_config p)\<lparr>ac_channelConfig := of_nat ch\<rparr>\<rparr>) \<and>
    reader_ok r \<and> pending r = rest"
    by (intro exI [of _ r]) (simp add: ParseChannel_def)
qed

text \<open>
  C29. An AAC configuration comes back from its bits as it was written, with the type, rate and
  channels in every form there is (an escaped type, a rate by index or written out, an extension
  that gives the type and rate of its own), and the rest of the buffer is left to read.
\<close>

theorem aac_config_roundtrip:
  assumes "aac_spec_ok spec" "bits_of buf = aac_spec_bits spec @ rest"
  shows "\<exists>r. ParseObjectTypeFull (new_aac_parser buf) =
      (True, (new_aac_parser buf)\<lparr>ap_reader := r, ap_config := aac_spec_config spec reset_config\<rparr>) \<and> pending r = rest"
proof -
  let ?p = "new_aac_parser buf"
  have ok: "reader_ok (ap_reader ?p)" "pending (ap_reader ?p) = bits_of buf" by (simp_all add: new_aac_parser_def)
  have head: "parses (and_then ParseObjectType (and_then ParseSampleRate ParseChannel)) (type_bits t @ (rate_bits rc @ msb_bits 4 ch))
      (\<lambda>c. c\<lparr>ac_objectType := of_nat t, ac_sampleRate := rate_of rc, ac_channelConfig := of_nat ch\<rparr>)"
    if "type_ok t" "rate_ok rc" "ch < 16" for t rc ch
    using parses_and_then [OF parses_type [OF that(1)] parses_and_then [OF parses_rate [OF that(2)] parses_channel [OF that(3)]]] by simp
  have cfg: "ap_config ?p = reset_config" by (simp add: new_aac_parser_def)
  show ?thesis
  proof (cases spec)
    case (Plain t rc ch)
    with assms have t: "type_ok t" "rate_ok rc" "ch < 16" "t \<noteq> 5" "t \<noteq> 29" by simp_all
    have "t < 256" using t(1) by (auto simp: type_ok_def)
    then have "(of_nat t :: u8) \<noteq> 5" "(of_nat t :: u8) \<noteq> 29"
      using of_nat_u8_eq [of t 5] of_nat_u8_eq [of t 29] t(4,5) by simp_all
    moreover have "pending (ap_reader ?p) = (type_bits t @ (rate_bits rc @ msb_bits 4 ch)) @ rest" using ok(2) assms(2) Plain by simp
    from parsesE [OF head [OF t(1-3)] ok(1) this]
    obtain r where "and_then ParseObjectType (and_then ParseSampleRate ParseChannel) ?p =
        (True, ?p\<lparr>ap_reader := r, ap_config := (ap_config ?p)\<lparr>ac_objectType := of_nat t, ac_sampleRate := rate_of rc, ac_channelConfig := of_nat ch\<rparr>\<rparr>)"
      "pending r = rest" by auto
    ultimately show ?thesis
      using cfg Plain by (intro exI [of _ r]) (simp add: ParseObjectTypeFull_def)
  next
    case (Extended t rc ch rc1 t1)
    with assms have t: "type_ok t" "rate_ok rc" "ch < 16" "rate_ok rc1" "type_ok t1" and t5: "t = 5 \<or> t = 29"
      by (auto simp: type_ok_def)
    have tail: "parses (and_then ParseSampleRate ParseObjectType) (rate_bits rc1 @ type_bits t1)
        (\<lambda>c. c\<lparr>ac_sampleRate := rate_of rc1, ac_objectType := of_nat t1\<rparr>)"
      using parses_and_then [OF parses_rate [OF t(4)] parses_type [OF t(5)]] by simp
    have "pending (ap_reader ?p) = (type_bits t @ (rate_bits rc @ msb_bits 4 ch)) @ ((rate_bits rc1 @ type_bits t1) @ rest)"
      using ok(2) assms(2) Extended by simp
    from parsesE [OF head [OF t(1-3)] ok(1) this]
    obtain r where r: "and_then ParseObjectType (and_then ParseSampleRate ParseChannel) ?p =
        (True, ?p\<lparr>ap_reader := r, ap_config := (ap_config ?p)\<lparr>ac_objectType := of_nat t, ac_sampleRate := rate_of rc, ac_channelConfig := of_nat ch\<rparr>\<rparr>)"
      "reader_ok r" "pending r = (rate_bits rc1 @ type_bits t1) @ rest" by auto
    let ?q = "?p\<lparr>ap_reader := r, ap_config := (ap_config ?p)\<lparr>ac_objectType := of_nat t, ac_sampleRate := rate_of rc, ac_channelConfig := of_nat ch\<rparr>\<rparr>"
    have "reader_ok (ap_reader ?q)" "pending (ap_reader ?q) = (rate_bits rc1 @ type_bits t1) @ rest" using r(2,3) by simp_all
    from parsesE [OF tail this] obtain q where "and_then ParseSampleRate ParseObjectType ?q =
        (True, ?q\<lparr>ap_reader := q, ap_config := (ap_config ?q)\<lparr>ac_sampleRate := rate_of rc1, ac_objectType := of_nat t1\<rparr>\<rparr>)" "pending q = rest"
      by auto
    then show ?thesis
      using cfg Extended r(1) t5 by (intro exI [of _ q]) (auto simp: ParseObjectTypeFull_def)
  qed
qed

theorem aac_config_roundtrip_witness:
  "\<exists>r. ParseObjectTypeFull (new_aac_parser [0x12, 0x10]) =
    (True, (new_aac_parser [0x12, 0x10])\<lparr>ap_reader := r, ap_config := aac_spec_config (Plain 2 (Rate_Index 4) 2) reset_config\<rparr>) \<and>
    pending r = [False, False, False]"
proof (rule aac_config_roundtrip)
  show "aac_spec_ok (Plain 2 (Rate_Index 4) 2)" by (simp add: type_ok_def)
  show "bits_of [0x12, 0x10] = aac_spec_bits (Plain 2 (Rate_Index 4) 2) @ [False, False, False]" by code_simp
qed

section \<open>Outcomes\<close>

lemma if_in: "x \<in> S \<Longrightarrow> y \<in> S \<Longrightarrow> (if b then x else y) \<in> S"
  by simp

lemma CalculateProfile_level:
  "CalculateProfile ch pcu rcu c = (True, c1) \<Longrightarrow> ac_level c1 \<in> {1, 2, 3, 4, 5, 6, 7} \<and> c1 = c\<lparr>ac_level := ac_level c1\<rparr>"
proof -
  assume run: "CalculateProfile ch pcu rcu c = (True, c1)"
  have pick: "(A \<noteq> - 1, c\<lparr>ac_level := of_int A\<rparr>) = (True, c1) \<Longrightarrow> A \<in> {- 1, 1, 2, 3, 4, 5, 6, 7} \<Longrightarrow>
    ac_level c1 \<in> {1, 2, 3, 4, 5, 6, 7} \<and> c1 = c\<lparr>ac_level := ac_level c1\<rparr>" for A :: int by auto
  show ?thesis
    by (rule pick [OF run [unfolded CalculateProfile_def Let_def]]) (intro if_in, simp_all)
qed

lemma ExtractChannelElements_Some: "ExtractChannelElements c = Some e \<Longrightarrow> unat (ac_channelConfig c) \<in> {1, 2, 3, 4, 5, 6, 7, 11, 12, 14}"
  by (auto simp: ExtractChannelElements_def Let_def split: if_splits)

lemma ExtractReferencePRCU_Some: "ExtractReferencePRCU c = Some e \<Longrightarrow> ac_objectType c \<noteq> 0"
  by (auto simp: ExtractReferencePRCU_def)

lemma ParseLevel_True:
  assumes "ParseLevel p = (True, p1)"
  shows "ac_level (ap_config p1) \<in> {1, 2, 3, 4, 5, 6, 7} \<and> ac_objectType (ap_config p1) \<noteq> 0 \<and>
    unat (ac_channelConfig (ap_config p1)) \<in> {1, 2, 3, 4, 5, 6, 7, 11, 12, 14}"
proof -
  obtain e e1 where e: "ExtractChannelElements (ap_config p) = Some e" "ExtractReferencePRCU (ap_config p) = Some e1"
    using assms by (auto simp: ParseLevel_def split: option.splits prod.splits)
  obtain ch pcu rcu c where c: "CalculateProfile ch pcu rcu (ap_config p) = (True, c)" "p1 = p\<lparr>ap_config := c\<rparr>"
    using assms e unfolding ParseLevel_def Let_def by (auto split: prod.splits)
  from CalculateProfile_level [OF c(1)] obtain lv where "c = (ap_config p)\<lparr>ac_level := lv\<rparr>" "lv \<in> {1, 2, 3, 4, 5, 6, 7}" by blast
  then show ?thesis
    using ExtractChannelElements_Some [OF e(1)] ExtractReferencePRCU_Some [OF e(2)] c(2) by simp
qed

lemma ParseProfile_config:
  "ParseProfile p = (ok, p1) \<Longrightarrow> ok \<and> ac_level (ap_config p1) = ac_level (ap_config p) \<and>
    ac_objectType (ap_config p1) = ac_objectType (ap_config p) \<and> ac_channelConfig (ap_config p1) = ac_channelConfig (ap_config p)"
  by (auto simp: ParseProfile_def Let_def)

text \<open>
  C30. A configuration is accepted with a level from 1 to 7, a type that is not null and one of the
  ten channel configurations, or it is refused and everything read of it is forgotten, for every
  buffer.
\<close>

theorem aac_parse_outcome:
  "case ParseConfigs (new_aac_parser buf) of (ok, p) \<Rightarrow> ap_valid p = ok \<and>
     (if ok then ac_level (ap_config p) \<in> {1, 2, 3, 4, 5, 6, 7} \<and> ac_objectType (ap_config p) \<noteq> 0 \<and>
        unat (ac_channelConfig (ap_config p)) \<in> {1, 2, 3, 4, 5, 6, 7, 11, 12, 14}
      else ap_config p = reset_config)"
proof -
  obtain ok p1 where run: "and_then ParseObjectTypeFull (and_then ParseLevel ParseProfile) (new_aac_parser buf) = (ok, p1)"
    by (cases "and_then ParseObjectTypeFull (and_then ParseLevel ParseProfile) (new_aac_parser buf)")
  show ?thesis
  proof (cases ok)
    case True
    with run obtain q q1 where q: "ParseLevel q = (True, q1)" "ParseProfile q1 = (True, p1)"
      by (auto simp: and_then_def split: prod.splits if_splits)
    show ?thesis using ParseLevel_True [OF q(1)] ParseProfile_config [OF q(2)] run True by (simp add: ParseConfigs_def)
  qed (use run in \<open>simp add: ParseConfigs_def\<close>)
qed

text \<open>Reading one bit.\<close>

lemma ReadBits_1:
  assumes "reader_ok r" "pending r = b # rest"
  obtains r1 where "ReadBits 1 r = Some (of_bool b :: 'a::len word, r1)" "reader_ok r1" "br_buf r1 = br_buf r" "pending r1 = rest"
  using ReadBits_pending [of r 1, where 'a = 'a] assms by auto

text \<open>
  No configuration record of AVC is ever taken apart: the fields are read with a width of one
  bit where they have one byte, so a record, whose first byte is its version 1 (or any below 128),
  fails at the version, is handed on as it is, and frames are said not to need a header.
\<close>

theorem avc_record_never_parsed:
  assumes "version < 0x80" "2 \<le> length rest"
  shows "\<exists>p. ParseConfigData (new_avc_parser (version # rest)) = Inr (True, p) \<and>
    GetNewConfigData p = Some (version # rest) \<and> \<not> IsNeedAddFrameHeader p"
proof -
  let ?p = "new_avc_parser (version # rest)"
  have "\<not> bit version 7"
    using assms(1) by (simp add: bit_iff_odd div_word_less)
  then have bits: "pending (av_reader ?p) = False # map (bit version) [6, 5, 4, 3, 2, 1, 0] @ bits_of rest" and ok: "reader_ok (av_reader ?p)"
    by (simp_all add: new_avc_parser_def byte_bits_def)
  from ReadBits_1 [OF ok bits] obtain r where r: "ReadBits 1 (av_reader ?p) = Some (0 :: u8, r)" by auto
  have "7 \<le> GetAvailableBits (av_reader ?p)" unfolding GetAvailableBits_pending [OF ok] bits by simp
  then have "ParseNal ?p = Inr (False, ?p\<lparr>av_reader := r, av_version := 0\<rparr>)"
    using r by (simp add: ParseNal_def ParseNalHeader_def AVC_MIN_CONFIG_DATA_SIZE_def read_field_def)
  then show ?thesis using assms(2)
    by (simp add: ParseConfigData_def Let_def GetNewConfigData_def IsNeedAddFrameHeader_def new_avc_parser_def)
qed

theorem avc_record_never_parsed_witness:
  "\<exists>p. ParseConfigData (new_avc_parser [1, 0x64, 0, 0x1F, 0xFF, 0xE1, 0, 1, 0x67, 1, 0, 1, 0x68]) = Inr (True, p) \<and>
    GetNewConfigData p = Some [1, 0x64, 0, 0x1F, 0xFF, 0xE1, 0, 1, 0x67, 1, 0, 1, 0x68] \<and> \<not> IsNeedAddFrameHeader p"
  by (rule avc_record_never_parsed) simp_all

text \<open>
  A short configuration can make the parser read outside its memory: when the first byte has the
  bits \<open>1xxxx111\<close> and 33 to 255 bytes follow, the length of the set is taken as 257 bytes because only
  the number of bits left was compared with it.
\<close>

theorem avc_overread:
  assumes "bit b 7" "bit b 2" "bit b 1" "bit b 0" "33 \<le> length rest" "length rest \<le> 255"
  shows "ParseConfigData (new_avc_parser (b # rest)) = Inl Out_Of_Bounds"
proof -
  let ?p = "new_avc_parser (b # rest)"
  have bits: "pending (av_reader ?p) = True # bit b 6 # bit b 5 # bit b 4 # bit b 3 # True # True # True # bits_of rest"
    and ok: "reader_ok (av_reader ?p)" using assms(1-4) by (simp_all add: new_avc_parser_def byte_bits_def)
  from ReadBits_1 [OF ok bits] obtain r1 where r1: "ReadBits 1 (av_reader ?p) = Some (1 :: u8, r1)" "reader_ok r1" "br_buf r1 = b # rest"
    and p1: "pending r1 = bit b 6 # bit b 5 # bit b 4 # bit b 3 # True # True # True # bits_of rest" by (auto simp: new_avc_parser_def)
  from ReadBits_1 [OF r1(2) p1] obtain r2 where r2: "ReadBits 1 r1 = Some (of_bool (bit b 6) :: u8, r2)" "reader_ok r2" "br_buf r2 = b # rest"
    and p2: "pending r2 = bit b 5 # bit b 4 # bit b 3 # True # True # True # bits_of rest" using r1(3) by metis
  from ReadBits_1 [OF r2(2) p2] obtain r3 where r3: "ReadBits 1 r2 = Some (of_bool (bit b 5) :: u8, r3)" "reader_ok r3" "br_buf r3 = b # rest"
    and p3: "pending r3 = bit b 4 # bit b 3 # True # True # True # bits_of rest" using r2(3) by metis
  from ReadBits_1 [OF r3(2) p3] obtain r4 where r4: "ReadBits 1 r3 = Some (of_bool (bit b 4) :: u8, r4)" "reader_ok r4" "br_buf r4 = b # rest"
    and p4: "pending r4 = bit b 3 # True # True # True # bits_of rest" using r3(3) by metis
  from ReadBits_1 [OF r4(2) p4] obtain r5 where r5: "ReadBits 1 r4 = Some (of_bool (bit b 3) :: u8, r5)" "reader_ok r5" "br_buf r5 = b # rest"
    and p5: "pending r5 = True # True # True # bits_of rest" using r4(3) by metis
  from ReadBits_1 [OF r5(2) p5] obtain r6 where r6: "ReadBits 1 r5 = Some (1 :: u32, r6)" "reader_ok r6" "br_buf r6 = b # rest"
    and p6: "pending r6 = True # True # bits_of rest" using r5(3) by (metis of_bool_eq(2))
  from ReadBits_1 [OF r6(2) p6] obtain r7 where r7: "ReadBits 1 r6 = Some (1 :: u8, r7)" "reader_ok r7" "br_buf r7 = b # rest"
    and p7: "pending r7 = True # bits_of rest" using r6(3) by (metis of_bool_eq(2))
  from ReadBits_1 [OF r7(2) p7] obtain r8 where r8: "ReadBits 1 r7 = Some (1 :: u8, r8)" "reader_ok r8" "br_buf r8 = b # rest"
    and p8: "pending r8 = bits_of rest" using r7(3) by (metis of_bool_eq(2))
  have avail: "7 \<le> GetAvailableBits (av_reader ?p)" "2 \<le> GetAvailableBits r6" "257 \<le> GetAvailableBits r8"
    using ok r6(2) r8(2) bits p6 p8 assms(5) by (simp_all add: GetAvailableBits_pending)
  have nal: "((of_bool c :: u8) AND 3) + 1 \<in> {1, 2}" for c by (cases c) simp_all
  have n5: "((of_bool (bit b 3) :: u8) AND 3) + 1 = 1 \<or> ((of_bool (bit b 3) :: u8) AND 3) + 1 = 2" using nal [of "bit b 3"] by simp
  let ?q = "?p\<lparr>av_reader := r5, av_version := 1, av_profile := of_bool (bit b 6), av_compat := of_bool (bit b 5), av_level := of_bool (bit b 4),
      av_nalUnitLen := (of_bool (bit b 3) AND 3) + 1\<rparr>"
  have header: "ParseNalHeader ?p = (True, ?q)"
    using avail(1) r1(1) r2(1) r3(1) r4(1) r5(1) n5
    by (auto simp: ParseNalHeader_def AVC_MIN_CONFIG_DATA_SIZE_def read_field_def and_then_def ParseNalUnitSizeLen_def Let_def)
  have len: "GetSpsOrPpsLen r6 = (Some 257, r8)"
    using r7(1) r8(1) avail(3) by (simp add: GetSpsOrPpsLen_def Let_def)
  have "ParseSpsOrPps 0x1F ?q = Inl Out_Of_Bounds"
    using r6(1) avail(2) len r8(3) assms(6) by (simp add: ParseSpsOrPps_def new_avc_parser_def AVC_MAX_CONFIG_ITEM_def)
  then show ?thesis using header by (simp add: ParseConfigData_def ParseNal_def)
qed

theorem avc_overread_witness: "ParseConfigData (new_avc_parser (0xFF # replicate 40 0)) = Inl Out_Of_Bounds"
  by (rule avc_overread) simp_all

end
