(* ===== verification/Aac_Demuxer.thy ===== *)
theory Aac_Demuxer
  imports Hst_Prelude
begin

text \<open>
  The demuxer of AAC streams in ADTS frames (engine/plugin/plugins/demuxer/aac_demuxer/aac_demuxer_plugin.cpp).

  The data source is a state with a function that reads at an offset; it answers a status and what it
  read. What \<open>memset_s\<close> of the securec library answers for a destination of no bytes is the argument
  \<open>empty_ok\<close>. How much the last frame used is a variable of the file, shared by all demuxers: it is an
  argument and a result of the operations. Memory for a frame is always found, and the buffer handed
  in for a frame is empty.
\<close>

unbundle bit_operations_syntax

section \<open>Frames\<close>

definition MEDIA_IO_SIZE :: nat where "MEDIA_IO_SIZE = 2048"

definition samplingRateMap :: "int list" where
  "samplingRateMap = [96000, 88200, 64000, 48000, 44100, 32000, 24000, 22050, 16000, 12000, 11025, 8000, 7350]"

definition IsAACPattern :: "u8 list \<Rightarrow> bool" where
  "IsAACPattern data \<longleftrightarrow> data ! 0 = 0xff \<and> data ! 1 AND 0xf0 = 0xf0 \<and> data ! 1 AND 0x06 = 0"

definition GetFrameLength :: "u8 list \<Rightarrow> nat" where
  "GetFrameLength data =
     unat (push_bit 11 (ucast (data ! 3 AND 0x03)) OR push_bit 3 (ucast (data ! 4)) OR ucast (drop_bit 5 (data ! 5 AND 0xE0)) :: u32)"

record aac_rst =
  ar_usedInputLength :: nat
  ar_frame :: "u8 list"
  ar_frameSampleRate :: int
  ar_frameChannels :: nat
  ar_mpegVersion :: nat

definition AudioDemuxerAACPrepare :: "u8 list \<Rightarrow> aac_rst \<Rightarrow> (fault, bool \<times> aac_rst) sum" where
  "AudioDemuxerAACPrepare buf rst =
     (if IsAACPattern buf then
        let mpegVersionIndex = drop_bit 3 (buf ! 1 AND 0x0F);
            mpegVersion = (if mpegVersionIndex = 0 then 4 else 2);
            sampleIndex = unat (drop_bit 2 (buf ! 2 AND 0x3C));
            channelCount = unat (push_bit 2 (buf ! 2 AND 0x01) OR drop_bit 6 (buf ! 3 AND 0xC0))
        in if sampleIndex \<ge> length samplingRateMap then Inl Out_Of_Bounds
           else Inr (True, rst\<lparr>ar_frameChannels := channelCount, ar_frameSampleRate := samplingRateMap ! sampleIndex, ar_mpegVersion := mpegVersion\<rparr>)
      else Inr (False, rst))"

text \<open>The answer is whether there was no error; a frame that is not found is an empty one.\<close>

definition AudioDemuxerAACProcess :: "u8 list \<Rightarrow> nat \<Rightarrow> aac_rst \<Rightarrow> bool \<times> aac_rst" where
  "AudioDemuxerAACProcess buffer bufferLen rst0 =
     (let rst = rst0\<lparr>ar_frame := [], ar_usedInputLength := 0\<rparr>;
          resync = (True, rst\<lparr>ar_usedInputLength := 1\<rparr>)
      in if \<not> IsAACPattern buffer then resync
         else let len = GetFrameLength buffer
              in if len + 2 > bufferLen then (True, rst\<lparr>ar_usedInputLength := bufferLen\<rparr>)
                 else if len = 0 then (False, rst)
                 else if IsAACPattern (drop len buffer) then (True, rst\<lparr>ar_frame := take len buffer, ar_usedInputLength := len\<rparr>)
                 else resync)"

section \<open>The demuxer\<close>

record aac_demuxer =
  ad_fileSize :: nat
  ad_isSeekable :: bool
  ad_inIoBuffer :: "u8 list"
  ad_ioDataRemainSize :: nat
  ad_offset :: nat
  ad_eos :: bool
  ad_rst :: aac_rst

definition new_aac_rst :: aac_rst where
  "new_aac_rst = \<lparr>ar_usedInputLength = 0, ar_frame = [], ar_frameSampleRate = 0, ar_frameChannels = 0, ar_mpegVersion = 0\<rparr>"

text \<open>A demuxer after its \<open>Init\<close>.\<close>

definition ad_Init :: aac_demuxer where
  "ad_Init = \<lparr>ad_fileSize = 0, ad_isSeekable = False, ad_inIoBuffer = replicate MEDIA_IO_SIZE 0, ad_ioDataRemainSize = 0, ad_offset = 0,
     ad_eos = False, ad_rst = new_aac_rst\<rparr>"

definition ad_SetDataSource :: "nat \<Rightarrow> aac_demuxer \<Rightarrow> aac_demuxer" where
  "ad_SetDataSource fileSize d = d\<lparr>ad_fileSize := fileSize, ad_isSeekable := (fileSize > 0)\<rparr>"

definition ad_Reset :: "aac_demuxer \<Rightarrow> aac_demuxer" where
  "ad_Reset d = d\<lparr>ad_eos := False, ad_offset := 0, ad_ioDataRemainSize := 0, ad_inIoBuffer := replicate MEDIA_IO_SIZE 0\<rparr>"

type_synonym 's source = "'s \<Rightarrow> nat \<Rightarrow> nat \<Rightarrow> status \<times> u8 list \<times> 's"

definition store_at :: "nat \<Rightarrow> u8 list \<Rightarrow> u8 list \<Rightarrow> u8 list" where
  "store_at pos bytes buf = take pos buf @ bytes @ drop (pos + length bytes) buf"

text \<open>The loop of reading; \<open>n\<close> is how often it still waits for data.\<close>

fun read_tries :: "'s source \<Rightarrow> nat \<Rightarrow> nat \<Rightarrow> aac_demuxer \<Rightarrow> 's \<Rightarrow> (fault, status \<times> aac_demuxer \<times> 's) sum" where
  "read_tries readAt readSize n d s =
     (let offset = (if ad_isSeekable d then ad_offset d else 0)
      in case readAt s offset readSize of (result, bytes, s1) \<Rightarrow>
           if result \<noteq> OK then Inr (result, d, s1)
           else if readSize < length bytes then Inr (ERROR_UNKNOWN, d, s1)
           else if bytes \<noteq> [] \<and> ad_ioDataRemainSize d + length bytes > length (ad_inIoBuffer d) then Inl Out_Of_Bounds
           else let d1 = d\<lparr>ad_inIoBuffer := store_at (ad_ioDataRemainSize d) bytes (ad_inIoBuffer d),
                           ad_offset := (if ad_isSeekable d then ad_offset d + length bytes else ad_offset d),
                           ad_ioDataRemainSize := ad_ioDataRemainSize d + length bytes\<rparr>
                in case n of
                     0 \<Rightarrow> Inr (ERROR_NOT_ENOUGH_DATA, d1, s1)
                   | Suc m \<Rightarrow> if bytes = [] \<and> ad_ioDataRemainSize d1 = 0 then read_tries readAt readSize m d1 s1
                              else Inr (OK, d1, s1))"

declare read_tries.simps [simp del]

definition DoReadFromSource :: "'s source \<Rightarrow> nat \<Rightarrow> aac_demuxer \<Rightarrow> 's \<Rightarrow> (fault, status \<times> aac_demuxer \<times> 's) sum" where
  "DoReadFromSource readAt readSize d s = (if readSize = 0 then Inr (OK, d, s) else read_tries readAt readSize 200 d s)"

text \<open>What is left of the buffer is moved to its beginning, and the rest filled.\<close>

definition GetDataFromSource :: "bool \<Rightarrow> 's source \<Rightarrow> nat \<Rightarrow> aac_demuxer \<Rightarrow> 's \<Rightarrow> (fault, status \<times> aac_demuxer \<times> 's) sum" where
  "GetDataFromSource empty_ok readAt used d s =
     (let remain = ad_ioDataRemainSize d;
          need = MEDIA_IO_SIZE - remain;
          moved = d\<lparr>ad_inIoBuffer := take remain (drop used (ad_inIoBuffer d)) @ drop remain (ad_inIoBuffer d)\<rparr>;
          d1 = (if remain = 0 then d else moved\<lparr>ad_inIoBuffer := take remain (ad_inIoBuffer moved) @ replicate need 0\<rparr>)
      in if remain \<noteq> 0 \<and> used + remain > length (ad_inIoBuffer d) then Inl Out_Of_Bounds
         else if remain \<noteq> 0 \<and> need = 0 \<and> \<not> empty_ok then Inr (ERROR_UNKNOWN, moved, s)
         else if ad_isSeekable d1 \<and> ad_offset d1 \<ge> ad_fileSize d1 \<and> remain = 0
           then Inr (END_OF_STREAM, d1\<lparr>ad_eos := True, ad_offset := 0\<rparr>, s)
         else DoReadFromSource readAt (if ad_isSeekable d1 \<and> ad_offset d1 + need > ad_fileSize d1 then ad_fileSize d1 - ad_offset d1 else need) d1 s)"

definition ad_GetMediaInfo :: "bool \<Rightarrow> 's source \<Rightarrow> nat \<Rightarrow> aac_demuxer \<Rightarrow> 's \<Rightarrow> (fault, status \<times> aac_demuxer \<times> 's) sum" where
  "ad_GetMediaInfo empty_ok readAt used d s =
     (case GetDataFromSource empty_ok readAt used d s of
        Inl f \<Rightarrow> Inl f
      | Inr (st, d1, s1) \<Rightarrow>
          if st \<noteq> OK then Inr (st, d1, s1)
          else case AudioDemuxerAACPrepare (ad_inIoBuffer d1) (ad_rst d1) of
                 Inl f \<Rightarrow> Inl f
               | Inr (ok, rst) \<Rightarrow> Inr (if ok then OK else ERROR_UNSUPPORTED_FORMAT, d1\<lparr>ad_rst := rst\<rparr>, s1))"

definition ad_ReadFrame :: "bool \<Rightarrow> 's source \<Rightarrow> nat \<Rightarrow> aac_demuxer \<Rightarrow> 's \<Rightarrow> (fault, status \<times> u8 list \<times> nat \<times> aac_demuxer \<times> 's) sum" where
  "ad_ReadFrame empty_ok readAt used d s =
     (case GetDataFromSource empty_ok readAt used d s of
        Inl f \<Rightarrow> Inl f
      | Inr (st, d1, s1) \<Rightarrow>
          if st \<noteq> OK then Inr (st, [], used, d1, s1)
          else case AudioDemuxerAACProcess (ad_inIoBuffer d1) (ad_ioDataRemainSize d1) (ad_rst d1) of (ok, rst) \<Rightarrow>
                 if ok then Inr (OK, ar_frame rst, ar_usedInputLength rst,
                       d1\<lparr>ad_rst := rst\<lparr>ar_frame := []\<rparr>, ad_ioDataRemainSize := ad_ioDataRemainSize d1 - ar_usedInputLength rst\<rparr>, s1)
                 else Inr (ERROR_UNKNOWN, [], used, d1\<lparr>ad_rst := rst\<rparr>, s1))"

definition ad_Sniff :: "u8 list \<Rightarrow> 's source \<Rightarrow> 's \<Rightarrow> nat" where
  "ad_Sniff junk readAt s =
     (case readAt s 0 2 of (result, bytes, s1) \<Rightarrow>
        if result \<noteq> OK then 0 else if IsAACPattern (bytes @ drop (length bytes) junk) then 100 else 0)"

section \<open>Reading a file\<close>

definition file_reader :: "u8 list \<Rightarrow> unit source" where
  "file_reader file s offset n = (OK, take n (drop offset file), ())"

text \<open>What the buffer holds is the file from \<open>pos\<close> on.\<close>

definition stands_at :: "u8 list \<Rightarrow> nat \<Rightarrow> nat \<Rightarrow> aac_demuxer \<Rightarrow> bool" where
  "stands_at file pos used d \<longleftrightarrow> ad_isSeekable d \<and> ad_fileSize d = length file \<and> length (ad_inIoBuffer d) = MEDIA_IO_SIZE \<and>
     used + ad_ioDataRemainSize d \<le> MEDIA_IO_SIZE \<and> ad_offset d = pos + ad_ioDataRemainSize d \<and> ad_offset d \<le> length file \<and>
     take (ad_ioDataRemainSize d) (drop used (ad_inIoBuffer d)) = take (ad_ioDataRemainSize d) (drop pos file)"

lemma take_store_at: "pos \<le> length buf \<Longrightarrow> take (pos + length bytes) (store_at pos bytes buf) = take pos buf @ bytes"
  by (simp add: store_at_def)

lemma length_store_at: "pos + length bytes \<le> length buf \<Longrightarrow> length (store_at pos bytes buf) = length buf"
  by (simp add: store_at_def)

lemma DoReadFromSource_file:
  assumes "ad_isSeekable d" "length (ad_inIoBuffer d) = MEDIA_IO_SIZE" "ad_ioDataRemainSize d + n \<le> MEDIA_IO_SIZE"
    and "ad_offset d = pos + ad_ioDataRemainSize d" "ad_offset d + n \<le> length file"
    and "take (ad_ioDataRemainSize d) (ad_inIoBuffer d) = take (ad_ioDataRemainSize d) (drop pos file)"
    and "0 < ad_ioDataRemainSize d + n"
  obtains d1 where "DoReadFromSource (file_reader file) n d () = Inr (OK, d1, ())" "ad_ioDataRemainSize d1 = ad_ioDataRemainSize d + n"
    "take (ad_ioDataRemainSize d1) (ad_inIoBuffer d1) = take (ad_ioDataRemainSize d1) (drop pos file)"
    "length (ad_inIoBuffer d1) = MEDIA_IO_SIZE" "ad_offset d1 = pos + ad_ioDataRemainSize d1" "ad_isSeekable d1" "ad_fileSize d1 = ad_fileSize d"
    "ad_rst d1 = ad_rst d"
proof (cases "n = 0")
  case True
  then show ?thesis using that [of d] assms by (simp add: DoReadFromSource_def)
next
  case False
  let ?r = "ad_ioDataRemainSize d"
  let ?bytes = "take n (drop (ad_offset d) file)"
  let ?d = "d\<lparr>ad_inIoBuffer := store_at ?r ?bytes (ad_inIoBuffer d), ad_offset := ad_offset d + n, ad_ioDataRemainSize := ?r + n\<rparr>"
  have len: "length ?bytes = n" using assms(5) by simp
  have "read_tries (file_reader file) n 200 d () = Inr (OK, ?d, ())"
    using assms(1-5) False len by (subst read_tries.simps) (auto simp: file_reader_def Let_def)
  moreover have "take (?r + n) (store_at ?r ?bytes (ad_inIoBuffer d)) = take (?r + n) (drop pos file)"
  proof -
    have "take (?r + n) (store_at ?r ?bytes (ad_inIoBuffer d)) = take ?r (drop pos file) @ ?bytes"
      using take_store_at [of ?r "ad_inIoBuffer d" ?bytes] assms(2,3) unfolding len assms(6) by simp
    also have "\<dots> = take (?r + n) (drop pos file)" unfolding take_add assms(4) by (simp add: add.commute)
    finally show ?thesis .
  qed
  moreover have "length (store_at ?r ?bytes (ad_inIoBuffer d)) = MEDIA_IO_SIZE"
    using length_store_at [of ?r ?bytes "ad_inIoBuffer d"] len assms(2,3) by simp
  ultimately show ?thesis using that [of ?d] False assms(1,4) by (simp add: DoReadFromSource_def)
qed

lemma GetDataFromSource_file:
  assumes "stands_at file pos used d" "pos < length file"
  obtains d1 where "GetDataFromSource True (file_reader file) used d () = Inr (OK, d1, ())"
    "ad_ioDataRemainSize d1 = min MEDIA_IO_SIZE (length file - pos)"
    "take (ad_ioDataRemainSize d1) (ad_inIoBuffer d1) = take MEDIA_IO_SIZE (drop pos file)"
    "stands_at file pos 0 d1" "ad_rst d1 = ad_rst d"
proof -
  have st: "ad_isSeekable d" "ad_fileSize d = length file" "length (ad_inIoBuffer d) = MEDIA_IO_SIZE"
    "used + ad_ioDataRemainSize d \<le> MEDIA_IO_SIZE" "ad_offset d = pos + ad_ioDataRemainSize d" "ad_offset d \<le> length file"
    "take (ad_ioDataRemainSize d) (drop used (ad_inIoBuffer d)) = take (ad_ioDataRemainSize d) (drop pos file)"
    using assms(1) unfolding stands_at_def by blast+
  let ?r = "ad_ioDataRemainSize d"
  define e where "e = (if ?r = 0 then d else d\<lparr>ad_inIoBuffer := take ?r (drop used (ad_inIoBuffer d)) @ replicate (MEDIA_IO_SIZE - ?r) 0\<rparr>)"
  define n where "n = (if ad_offset d + (MEDIA_IO_SIZE - ?r) > length file then length file - ad_offset d else MEDIA_IO_SIZE - ?r)"
  have len: "length (take ?r (drop used (ad_inIoBuffer d))) = ?r"
    using st(3,4) unfolding length_take length_drop by linarith
  have run: "GetDataFromSource True (file_reader file) used d () = DoReadFromSource (file_reader file) n e ()"
  proof (cases "?r = 0")
    case True
    then show ?thesis using st(1,2,5) assms(2) by (simp add: GetDataFromSource_def Let_def e_def n_def)
  next
    case False
    have "take ?r (take ?r (drop used (ad_inIoBuffer d)) @ drop ?r (ad_inIoBuffer d)) = take ?r (drop used (ad_inIoBuffer d))"
      using len by (metis append_eq_conv_conj)
    then show ?thesis using False st(1-4) by (simp add: GetDataFromSource_def Let_def e_def n_def)
  qed
  have sum: "?r + n = min MEDIA_IO_SIZE (length file - pos)" using st(4-6) by (auto simp: n_def)
  have fits: "?r + n \<le> MEDIA_IO_SIZE" "0 < ?r + n" unfolding sum using assms(2) by (simp_all add: MEDIA_IO_SIZE_def)
  have ends: "ad_offset d + n \<le> length file" using st(6) by (simp add: n_def)
  have fields: "ad_isSeekable e" "ad_ioDataRemainSize e = ?r" "ad_offset e = ad_offset d" "ad_fileSize e = length file" "ad_rst e = ad_rst d"
    "length (ad_inIoBuffer e) = MEDIA_IO_SIZE" "take ?r (ad_inIoBuffer e) = take ?r (drop pos file)"
    using st(1-4,7) len by (simp_all add: e_def del: length_take length_drop)
  have pre: "ad_isSeekable e" "length (ad_inIoBuffer e) = MEDIA_IO_SIZE" "ad_ioDataRemainSize e + n \<le> MEDIA_IO_SIZE"
    "ad_offset e = pos + ad_ioDataRemainSize e" "ad_offset e + n \<le> length file"
    "take (ad_ioDataRemainSize e) (ad_inIoBuffer e) = take (ad_ioDataRemainSize e) (drop pos file)" "0 < ad_ioDataRemainSize e + n"
    using fields fits ends st(5) by simp_all
  obtain d1 where d1: "DoReadFromSource (file_reader file) n e () = Inr (OK, d1, ())" "ad_ioDataRemainSize d1 = ?r + n"
    "take (ad_ioDataRemainSize d1) (ad_inIoBuffer d1) = take (ad_ioDataRemainSize d1) (drop pos file)"
    "length (ad_inIoBuffer d1) = MEDIA_IO_SIZE" "ad_offset d1 = pos + ad_ioDataRemainSize d1" "ad_isSeekable d1" "ad_fileSize d1 = length file" "ad_rst d1 = ad_rst d"
    using DoReadFromSource_file [OF pre] fields(2,4,5) by metis
  have "take (?r + n) (drop pos file) = take MEDIA_IO_SIZE (drop pos file)" unfolding sum by (simp add: min_def)
  then show ?thesis using that [of d1] run d1 sum assms(2) by (simp add: stands_at_def)
qed

section \<open>Streams of frames\<close>

definition sample_index :: "u8 list \<Rightarrow> nat" where
  "sample_index f = unat (drop_bit 2 (f ! 2 AND 0x3C))"

text \<open>A frame that fits into the buffer with the beginning of the next.\<close>

definition adts_frame :: "u8 list \<Rightarrow> bool" where
  "adts_frame f \<longleftrightarrow> 7 \<le> length f \<and> length f \<le> 2046 \<and> IsAACPattern f \<and> GetFrameLength f = length f \<and> sample_index f < length samplingRateMap"

fun ad_reads :: "bool \<Rightarrow> 's source \<Rightarrow> nat \<Rightarrow> nat \<Rightarrow> aac_demuxer \<Rightarrow> 's \<Rightarrow> (fault, (status \<times> u8 list) list) sum" where
  "ad_reads empty_ok readAt 0 used d s = Inr []"
| "ad_reads empty_ok readAt (Suc n) used d s =
     (case ad_ReadFrame empty_ok readAt used d s of
        Inl f \<Rightarrow> Inl f
      | Inr (st, frame, used1, d1, s1) \<Rightarrow>
          (case ad_reads empty_ok readAt n used1 d1 s1 of Inl f \<Rightarrow> Inl f | Inr rs \<Rightarrow> Inr ((st, frame) # rs)))"

lemma nth_of_take: "take n xs = take m ys \<Longrightarrow> i < n \<Longrightarrow> i < m \<Longrightarrow> xs ! i = ys ! i"
  by (metis nth_take)

lemma pattern_cong: "xs ! 0 = ys ! 0 \<Longrightarrow> xs ! 1 = ys ! 1 \<Longrightarrow> IsAACPattern xs = IsAACPattern ys"
  by (simp add: IsAACPattern_def)

lemma frame_length_cong: "xs ! 3 = ys ! 3 \<Longrightarrow> xs ! 4 = ys ! 4 \<Longrightarrow> xs ! 5 = ys ! 5 \<Longrightarrow> GetFrameLength xs = GetFrameLength ys"
  by (simp add: GetFrameLength_def)

lemma Process_frame:
  assumes "adts_frame f" "take remain io = take MEDIA_IO_SIZE (f @ rest)" "remain = min MEDIA_IO_SIZE (length (f @ rest))" "remain \<le> length io"
  shows "rest = [] \<Longrightarrow> AudioDemuxerAACProcess io remain rst = (True, rst\<lparr>ar_frame := [], ar_usedInputLength := length f\<rparr>)"
    and "\<lbrakk>rest = g @ tail; adts_frame g\<rbrakk> \<Longrightarrow>
      AudioDemuxerAACProcess io remain rst = (True, rst\<lparr>ar_frame := f, ar_usedInputLength := length f\<rparr>)"
proof -
  have f: "7 \<le> length f" "length f \<le> 2046" using assms(1) by (simp_all add: adts_frame_def)
  have r: "length f \<le> remain" "remain \<le> MEDIA_IO_SIZE" using f assms(3) by (simp_all add: MEDIA_IO_SIZE_def)
  have nth: "io ! i = (f @ rest) ! i" if "i < remain" for i
    using nth_of_take [OF assms(2)] that r(2) by simp
  have nth_f: "io ! i = f ! i" if "i < length f" for i using nth [of i] that r(1) by (simp add: nth_append)
  have head: "IsAACPattern io" "GetFrameLength io = length f"
    using assms(1) pattern_cong [of io f] frame_length_cong [of io f] nth_f [of 0] nth_f [of 1] nth_f [of 3] nth_f [of 4] nth_f [of 5] f
    unfolding adts_frame_def by linarith+
  show "AudioDemuxerAACProcess io remain rst = (True, rst\<lparr>ar_frame := [], ar_usedInputLength := length f\<rparr>)" if "rest = []"
    using head that assms(3) f by (simp add: AudioDemuxerAACProcess_def Let_def MEDIA_IO_SIZE_def)
  show "AudioDemuxerAACProcess io remain rst = (True, rst\<lparr>ar_frame := f, ar_usedInputLength := length f\<rparr>)"
    if g: "rest = g @ tail" "adts_frame g"
  proof -
    have g7: "7 \<le> length g" using g(2) by (simp add: adts_frame_def)
    have fit: "length f + 2 \<le> remain" using assms(3) g(1) g7 f by (simp add: MEDIA_IO_SIZE_def)
    have "drop (length f) io ! i = g ! i" if "i < 2" for i
      using nth [of "length f + i"] that fit assms(4) g(1) g7 by (simp add: nth_append)
    then have "IsAACPattern (drop (length f) io)" using pattern_cong [of "drop (length f) io" g] g(2) by (simp add: adts_frame_def)
    moreover have "take (length f) io = f"
      using fit assms(4) nth_f by (intro nth_equalityI) simp_all
    moreover have "f \<noteq> []" using f by auto
    ultimately show ?thesis using head fit by (simp add: AudioDemuxerAACProcess_def Let_def)
  qed
qed

lemma ReadFrame_end:
  assumes "stands_at file (length file) used d" "ad_ioDataRemainSize d = 0"
  shows "\<exists>d1. ad_ReadFrame True (file_reader file) used d () = Inr (END_OF_STREAM, [], used, d1, ())"
proof -
  have "ad_isSeekable d" "ad_fileSize d = length file" "ad_offset d = length file" using assms by (simp_all add: stands_at_def)
  then show ?thesis using assms(2) by (simp add: ad_ReadFrame_def GetDataFromSource_def Let_def)
qed

lemma ReadFrame_frame:
  assumes "stands_at (pre @ f @ rest) (length pre) used d" "adts_frame f" "rest = [] \<or> (\<exists>g tail. rest = g @ tail \<and> adts_frame g)"
  obtains d1 where "ad_ReadFrame True (file_reader (pre @ f @ rest)) used d () = Inr (OK, if rest = [] then [] else f, length f, d1, ())"
    "stands_at (pre @ f @ rest) (length (pre @ f)) (length f) d1" "rest = [] \<longrightarrow> ad_ioDataRemainSize d1 = 0"
proof -
  let ?file = "pre @ f @ rest"
  have f: "7 \<le> length f" "length f \<le> 2046" using assms(2) by (simp_all add: adts_frame_def)
  then have "length pre < length ?file" by (cases f) simp_all
  from GetDataFromSource_file [OF assms(1) this]
  obtain d0 where d0: "GetDataFromSource True (file_reader ?file) used d () = Inr (OK, d0, ())"
    "ad_ioDataRemainSize d0 = min MEDIA_IO_SIZE (length (f @ rest))"
    "take (ad_ioDataRemainSize d0) (ad_inIoBuffer d0) = take MEDIA_IO_SIZE (f @ rest)" "stands_at ?file (length pre) 0 d0" by auto
  let ?r = "ad_ioDataRemainSize d0"
  have r: "?r \<le> length (ad_inIoBuffer d0)" "length f \<le> ?r" using d0(2,4) f by (simp_all add: stands_at_def MEDIA_IO_SIZE_def)
  let ?rst = "(ad_rst d0)\<lparr>ar_frame := if rest = [] then [] else f, ar_usedInputLength := length f\<rparr>"
  have p: "AudioDemuxerAACProcess (ad_inIoBuffer d0) ?r (ad_rst d0) = (True, ?rst)"
    using Process_frame [OF assms(2) d0(3,2) r(1)] assms(3) by (auto simp: adts_frame_def)
  let ?d = "d0\<lparr>ad_rst := ?rst\<lparr>ar_frame := []\<rparr>, ad_ioDataRemainSize := ?r - length f\<rparr>"
  have run: "ad_ReadFrame True (file_reader ?file) used d () = Inr (OK, if rest = [] then [] else f, length f, ?d, ())"
    using d0(1) p by (simp add: ad_ReadFrame_def)
  have "take (?r - length f) (drop (length f) (ad_inIoBuffer d0)) = take (?r - length f) (drop (length (pre @ f)) ?file)"
  proof -
    have "take ?r (ad_inIoBuffer d0) = take ?r (f @ rest)" using d0(2,3) by (simp add: min_def split: if_splits)
    then have "drop (length f) (take ?r (ad_inIoBuffer d0)) = drop (length f) (take ?r (f @ rest))" by simp
    then show ?thesis using r(2) by (simp add: drop_take del: take_append)
  qed
  then have "stands_at ?file (length (pre @ f)) (length f) ?d"
    using d0(4) r(2) by (simp add: stands_at_def)
  moreover have "rest = [] \<longrightarrow> ?r - length f = 0" using d0(2) by simp
  ultimately show ?thesis using that [of ?d] run by simp
qed

lemma reads_frames:
  assumes "\<forall>f \<in> set frames. adts_frame f" "frames \<noteq> []" "stands_at (pre @ concat frames) (length pre) used d"
  shows "ad_reads True (file_reader (pre @ concat frames)) (Suc (length frames)) used d () =
    Inr (map (Pair OK) (butlast frames @ [[]]) @ [(END_OF_STREAM, [])])"
  using assms
proof (induction frames arbitrary: pre used d)
  case (Cons f fs)
  have f: "adts_frame f" and st: "stands_at (pre @ f @ concat fs) (length pre) used d" using Cons.prems by simp_all
  have next_frame: "concat fs = [] \<or> (\<exists>g tail. concat fs = g @ tail \<and> adts_frame g)"
    using Cons.prems(1) by (cases fs) auto
  have empty: "concat fs = [] \<longleftrightarrow> fs = []"
    using Cons.prems(1) by (cases fs) (auto simp: adts_frame_def)
  from ReadFrame_frame [OF st f next_frame] obtain d1 where
    d1: "ad_ReadFrame True (file_reader (pre @ f @ concat fs)) used d () = Inr (OK, if concat fs = [] then [] else f, length f, d1, ())"
    "stands_at (pre @ f @ concat fs) (length (pre @ f)) (length f) d1" "concat fs = [] \<longrightarrow> ad_ioDataRemainSize d1 = 0" .
  show ?case
  proof (cases "fs = []")
    case True
    with d1(2,3) obtain d2 where "ad_ReadFrame True (file_reader (pre @ f)) (length f) d1 () = Inr (END_OF_STREAM, [], length f, d2, ())"
      using ReadFrame_end [of "pre @ f" "length f" d1] by auto
    then show ?thesis using d1(1) True by simp
  next
    case False
    have "ad_reads True (file_reader ((pre @ f) @ concat fs)) (Suc (length fs)) (length f) d1 () =
        Inr (map (Pair OK) (butlast fs @ [[]]) @ [(END_OF_STREAM, [])])"
      using Cons.IH [of "pre @ f" "length f" d1] Cons.prems(1) False d1(2) by simp
    moreover have "(if concat fs = [] then [] else f) = f" using False empty by (simp only: if_False)
    ultimately show ?thesis using d1(1) False by (simp del: concat_eq_Nil_conv)
  qed
qed simp


definition ex_frame :: "u8 \<Rightarrow> u8 list" where
  "ex_frame b = [0xFF, 0xF1, 0x50, 0x80, 0x01, 0x00, 0xFC, b]"

lemma ex_frame_ok: "adts_frame (ex_frame b)"
  by (simp add: adts_frame_def ex_frame_def IsAACPattern_def GetFrameLength_def sample_index_def samplingRateMap_def)


section \<open>Reads that fail\<close>

text \<open>The bytes of the buffer that are still to be looked at.\<close>

definition pending_bytes :: "nat \<Rightarrow> aac_demuxer \<Rightarrow> u8 list" where
  "pending_bytes used d = take (ad_ioDataRemainSize d) (drop used (ad_inIoBuffer d))"

text \<open>
  A read of a live stream that fails loses data: the rest of the buffer is moved to its beginning
  before the source is asked, but what the last frame used is not forgotten, so the next read skips
  as many bytes again, of data it has not looked at, and takes zeros in their place.
\<close>

theorem aac_failed_read_loses_data:
  assumes "length (ad_inIoBuffer d) = MEDIA_IO_SIZE" "0 < ad_ioDataRemainSize d" "ad_ioDataRemainSize d < MEDIA_IO_SIZE"
    and "used + ad_ioDataRemainSize d \<le> MEDIA_IO_SIZE" "\<not> ad_isSeekable d" "st \<noteq> OK" "\<forall>n. readAt s 0 n = (st, [], s1)"
  shows "\<exists>d1. ad_ReadFrame empty_ok readAt used d s = Inr (st, [], used, d1, s1) \<and> ad_ioDataRemainSize d1 = ad_ioDataRemainSize d \<and>
    pending_bytes used d1 = take (ad_ioDataRemainSize d)
      (drop used (pending_bytes used d @ replicate (MEDIA_IO_SIZE - ad_ioDataRemainSize d) 0))"
proof -
  let ?r = "ad_ioDataRemainSize d" and ?p = "take (ad_ioDataRemainSize d) (drop used (ad_inIoBuffer d))"
  let ?d = "d\<lparr>ad_inIoBuffer := ?p @ replicate (MEDIA_IO_SIZE - ?r) 0\<rparr>"
  have len: "length ?p = ?r" using assms(1,4) by simp
  then have moved: "take ?r (?p @ drop ?r (ad_inIoBuffer d)) = ?p" by (metis append_eq_conv_conj)
  have "GetDataFromSource empty_ok readAt used d s = DoReadFromSource readAt (MEDIA_IO_SIZE - ?r) ?d s"
    using assms(1-5) moved by (simp add: GetDataFromSource_def Let_def)
  also have "\<dots> = Inr (st, ?d, s1)"
    using assms(3,5-7) by (simp add: DoReadFromSource_def read_tries.simps Let_def)
  finally have "ad_ReadFrame empty_ok readAt used d s = Inr (st, [], used, ?d, s1)"
    using assms(6) by (simp add: ad_ReadFrame_def)
  then show ?thesis by (intro exI [of _ ?d]) (simp add: pending_bytes_def del: drop_append)
qed

definition two_frames :: aac_demuxer where
  "two_frames = ad_Init\<lparr>ad_inIoBuffer := ex_frame 1 @ ex_frame 2 @ replicate 2032 0, ad_ioDataRemainSize := 8\<rparr>"

theorem aac_failed_read_loses_data_witness:
  "pending_bytes 8 two_frames = ex_frame 2 \<and>
   (\<exists>d1. ad_ReadFrame True (\<lambda>s off n. (ERROR_TIMED_OUT, [], s)) 8 two_frames () = Inr (ERROR_TIMED_OUT, [], 8, d1, ()) \<and>
     pending_bytes 8 d1 = replicate 8 0)"
proof -
  have d: "length (ad_inIoBuffer two_frames) = MEDIA_IO_SIZE" "ad_ioDataRemainSize two_frames = 8" "\<not> ad_isSeekable two_frames"
    "pending_bytes 8 two_frames = ex_frame 2"
    by (simp_all add: two_frames_def ad_Init_def ex_frame_def MEDIA_IO_SIZE_def pending_bytes_def)
  then have "take 8 (drop 8 (pending_bytes 8 two_frames @ replicate (MEDIA_IO_SIZE - 8) 0)) = replicate 8 0"
    by (simp add: ex_frame_def MEDIA_IO_SIZE_def del: replicate.simps replicate_Suc)
  then show ?thesis
    using aac_failed_read_loses_data [of two_frames 8 ERROR_TIMED_OUT "\<lambda>s off n. (ERROR_TIMED_OUT, [], s)" "()" "()" True] d
    by (auto simp: MEDIA_IO_SIZE_def)
qed

end
