(* ===== verification/Shared_Memory_Pool.thy ===== *)
theory Shared_Memory_Pool
  imports Hst_Prelude
begin

text \<open>
  The pool of shared memory blocks (src/common/avsharedmemorypool.cpp and its header).

  A block is a number; the memory of the process is the map of the blocks that exist to their sizes.
  Whether a block can be made (\<open>AVSharedMemoryBase::Init\<close>, which asks the system for shared memory)
  is the argument \<open>can_make\<close>. An acquisition is one turn of the loop of \<open>AcquireMemory\<close>, which ends it
  or lets it wait, and a turn for each time it is woken.
\<close>

section \<open>The pool\<close>

record pool_option =
  po_preAllocMemCnt :: nat
  po_memSize :: int
  po_maxMemCnt :: nat
  po_enableFixedSize :: bool
  po_notifier :: bool

record shm_pool =
  sp_option :: pool_option
  sp_idle :: "nat list"
  sp_busy :: "nat list"
  sp_inited :: bool
  sp_notifier :: bool
  sp_forceNonBlocking :: bool
  sp_live :: "nat \<rightharpoonup> int"
  sp_fresh :: nat

definition MAX_MEM_SIZE :: int where "MAX_MEM_SIZE = 100 * 1024 * 1024"

definition new_shm_pool :: shm_pool where
  "new_shm_pool = \<lparr>sp_option = \<lparr>po_preAllocMemCnt = 0, po_memSize = 0, po_maxMemCnt = 0, po_enableFixedSize = True, po_notifier = False\<rparr>,
     sp_idle = [], sp_busy = [], sp_inited = False, sp_notifier = False, sp_forceNonBlocking = False, sp_live = Map.empty, sp_fresh = 0\<rparr>"

definition sp_AllocMemory :: "(nat \<Rightarrow> int \<Rightarrow> bool) \<Rightarrow> int \<Rightarrow> shm_pool \<Rightarrow> nat option \<times> shm_pool" where
  "sp_AllocMemory can_make s p =
     (if can_make (sp_fresh p) s
      then (Some (sp_fresh p), p\<lparr>sp_live := (sp_live p)(sp_fresh p \<mapsto> s), sp_fresh := Suc (sp_fresh p)\<rparr>)
      else (None, p\<lparr>sp_fresh := Suc (sp_fresh p)\<rparr>))"

fun pre_alloc :: "(nat \<Rightarrow> int \<Rightarrow> bool) \<Rightarrow> nat \<Rightarrow> int \<Rightarrow> shm_pool \<Rightarrow> bool \<times> shm_pool" where
  "pre_alloc can_make 0 s p = (True, p)"
| "pre_alloc can_make (Suc n) s p =
     (case sp_AllocMemory can_make s p of
        (None, p1) \<Rightarrow> (False, p1)
      | (Some b, p1) \<Rightarrow> pre_alloc can_make n s (p1\<lparr>sp_idle := sp_idle p1 @ [b]\<rparr>))"

definition sp_Init :: "(nat \<Rightarrow> int \<Rightarrow> bool) \<Rightarrow> pool_option \<Rightarrow> shm_pool \<Rightarrow> int \<times> shm_pool" where
  "sp_Init can_make opt p =
     (if sp_inited p then (- 1, p)
      else if \<not> po_memSize opt < MAX_MEM_SIZE then (- 1, p)
      else if po_maxMemCnt opt = 0 then (- 1, p)
      else let opt1 = opt\<lparr>po_preAllocMemCnt := min (po_preAllocMemCnt opt) (po_maxMemCnt opt)\<rparr>
           in case pre_alloc can_make (po_preAllocMemCnt opt1) (po_memSize opt1) (p\<lparr>sp_option := opt1\<rparr>) of
                (ok, p1) \<Rightarrow> if ok then (0, p1\<lparr>sp_inited := True, sp_notifier := po_notifier opt\<rparr>) else (- 1, p1))"

text \<open>The answer is whether the notifier was called.\<close>

definition ReleaseMemory :: "nat \<Rightarrow> shm_pool \<Rightarrow> bool \<times> shm_pool" where
  "ReleaseMemory b p =
     (if b \<in> set (sp_busy p)
      then (sp_notifier p, p\<lparr>sp_busy := remove1 b (sp_busy p), sp_idle := sp_idle p @ [b]\<rparr>)
      else (False, p\<lparr>sp_live := (sp_live p)(b := None)\<rparr>))"

definition block_size :: "shm_pool \<Rightarrow> nat \<Rightarrow> int" where
  "block_size p b = (case sp_live p b of Some s \<Rightarrow> s | None \<Rightarrow> 0)"

definition INT32_MAX :: int where "INT32_MAX = 2 ^ 31 - 1"

text \<open>The first block that is big enough, and else the smallest, the first of several.\<close>

fun find_idle :: "(nat \<Rightarrow> int) \<Rightarrow> int \<Rightarrow> int \<Rightarrow> nat option \<Rightarrow> nat list \<Rightarrow> nat option \<times> nat option" where
  "find_idle sz s minSize minMem [] = (None, minMem)"
| "find_idle sz s minSize minMem (b # bs) =
     (if sz b \<ge> s then (Some b, minMem)
      else if sz b < minSize then find_idle sz s (sz b) (Some b) bs
      else find_idle sz s minSize minMem bs)"

definition DoAcquireMemory :: "(nat \<Rightarrow> int \<Rightarrow> bool) \<Rightarrow> int \<Rightarrow> shm_pool \<Rightarrow> bool \<times> nat option \<times> shm_pool" where
  "DoAcquireMemory can_make s p =
     (case find_idle (block_size p) s INT32_MAX None (sp_idle p) of
        (Some b, _) \<Rightarrow> (True, Some b, p\<lparr>sp_idle := remove1 b (sp_idle p)\<rparr>)
      | (None, minMem) \<Rightarrow>
          let total = length (sp_busy p) + length (sp_idle p);
              (ok, result, p1) =
                (if total < po_maxMemCnt (sp_option p)
                 then (case sp_AllocMemory can_make s p of (r, q) \<Rightarrow> (r \<noteq> None, r, q))
                 else (True, None, p))
          in if \<not> ok then (False, None, p1)
             else (case minMem of
                     Some m \<Rightarrow>
                       if \<not> po_enableFixedSize (sp_option p)
                       then (case sp_AllocMemory can_make s (p1\<lparr>sp_live := (sp_live p1)(m := None), sp_idle := remove1 m (sp_idle p1)\<rparr>) of
                               (r, q) \<Rightarrow> (r \<noteq> None, r, q))
                       else (True, result, p1)
                   | None \<Rightarrow> (True, result, p1)))"

definition CheckSize :: "int \<Rightarrow> shm_pool \<Rightarrow> bool" where
  "CheckSize s p =
     (if s \<le> 0 \<and> s \<noteq> - 1 then False
      else if \<not> po_enableFixedSize (sp_option p) \<and> s = - 1 then False
      else if po_enableFixedSize (sp_option p) then (if s > po_memSize (sp_option p) then False else \<not> (s \<le> 0 \<and> s \<noteq> - 1))
      else True)"

datatype acquisition = Acquired nat | Refused | Waits int

text \<open>One turn for the size that is looked for; the caller holds a block acquired.\<close>

definition acquire_turn :: "(nat \<Rightarrow> int \<Rightarrow> bool) \<Rightarrow> int \<Rightarrow> bool \<Rightarrow> shm_pool \<Rightarrow> acquisition \<times> shm_pool" where
  "acquire_turn can_make s blocking p =
     (case DoAcquireMemory can_make s p of
        (ok, Some b, p1) \<Rightarrow> (if ok then (Acquired b, p1\<lparr>sp_busy := sp_busy p1 @ [b]\<rparr>) else (Refused, p1))
      | (ok, None, p1) \<Rightarrow> if \<not> ok \<or> \<not> blocking \<or> sp_forceNonBlocking p1 then (Refused, p1) else (Waits s, p1))"

definition AcquireMemory :: "(nat \<Rightarrow> int \<Rightarrow> bool) \<Rightarrow> int \<Rightarrow> bool \<Rightarrow> shm_pool \<Rightarrow> acquisition \<times> shm_pool" where
  "AcquireMemory can_make s blocking p =
     (if \<not> CheckSize s p then (Refused, p)
      else acquire_turn can_make (if po_enableFixedSize (sp_option p) then po_memSize (sp_option p) else s) blocking p)"

text \<open>A waiting acquisition is woken.\<close>

definition acquire_woken :: "(nat \<Rightarrow> int \<Rightarrow> bool) \<Rightarrow> int \<Rightarrow> shm_pool \<Rightarrow> acquisition \<times> shm_pool" where
  "acquire_woken can_make s p =
     (if sp_inited p \<and> \<not> sp_forceNonBlocking p then acquire_turn can_make s True p else (Refused, p))"

definition sp_SetNonBlocking :: "bool \<Rightarrow> shm_pool \<Rightarrow> shm_pool" where
  "sp_SetNonBlocking enable p = p\<lparr>sp_forceNonBlocking := enable\<rparr>"

definition sp_Reset :: "shm_pool \<Rightarrow> shm_pool" where
  "sp_Reset p = p\<lparr>sp_live := sp_live p |` (- set (sp_idle p)), sp_idle := [], sp_inited := False, sp_forceNonBlocking := False, sp_notifier := False\<rparr>"

section \<open>Blocks are accounted for\<close>

definition accounted :: "shm_pool \<Rightarrow> bool" where
  "accounted p \<longleftrightarrow> distinct (sp_idle p @ sp_busy p) \<and> set (sp_idle p) \<union> set (sp_busy p) = dom (sp_live p) \<and>
     (\<forall>b \<in> dom (sp_live p). b < sp_fresh p)"

lemma accountedD: "accounted p \<Longrightarrow> sp_fresh p \<notin> set (sp_idle p)" "accounted p \<Longrightarrow> sp_fresh p \<notin> set (sp_busy p)"
  unfolding accounted_def by blast+

lemma accounted_fresh: "accounted p \<Longrightarrow> accounted (p\<lparr>sp_fresh := Suc (sp_fresh p)\<rparr>)"
  by (simp add: accounted_def less_SucI)

lemma find_idle_mem: "find_idle sz s mn m bs = (Some b, m1) \<Longrightarrow> b \<in> set bs \<and> s \<le> sz b"
  by (induction sz s mn m bs rule: find_idle.induct) (auto split: if_splits)

lemma find_idle_None: "find_idle sz s mn m bs = (None, m1) \<Longrightarrow> (\<forall>b \<in> set bs. sz b < s) \<and> (m1 = m \<or> (\<exists>b \<in> set bs. m1 = Some b))"
  by (induction sz s mn m bs rule: find_idle.induct) (auto split: if_splits)

lemma pre_alloc_accounted:
  "pre_alloc can_make n s p = (ok, p1) \<Longrightarrow> accounted p \<Longrightarrow>
    accounted p1 \<and> sp_busy p1 = sp_busy p \<and> length (sp_idle p1) \<le> length (sp_idle p) + n \<and> sp_option p1 = sp_option p"
proof (induction n arbitrary: p)
  case (Suc n)
  show ?case
  proof (cases "can_make (sp_fresh p) s")
    case True
    let ?q = "p\<lparr>sp_live := (sp_live p)(sp_fresh p \<mapsto> s), sp_fresh := Suc (sp_fresh p), sp_idle := sp_idle p @ [sp_fresh p]\<rparr>"
    have "accounted ?q" using Suc.prems(2) accountedD [OF Suc.prems(2)] by (auto simp: accounted_def less_Suc_eq)
    moreover have "pre_alloc can_make n s ?q = (ok, p1)" using Suc.prems(1) True by (simp add: sp_AllocMemory_def)
    ultimately have "accounted p1 \<and> sp_busy p1 = sp_busy ?q \<and> length (sp_idle p1) \<le> length (sp_idle ?q) + n \<and> sp_option p1 = sp_option ?q"
      by (intro Suc.IH)
    then show ?thesis by simp
  next
    case False
    then have "p1 = p\<lparr>sp_fresh := Suc (sp_fresh p)\<rparr>" using Suc.prems(1) by (simp add: sp_AllocMemory_def)
    then show ?thesis using Suc.prems(2) by (auto simp: accounted_def less_Suc_eq)
  qed
qed auto

text \<open>What an acquisition finds in a pool of one size.\<close>

lemma DoAcquire_fixed:
  assumes "DoAcquireMemory can_make s p = (ok, r, p1)" "po_enableFixedSize (sp_option p)" "accounted p"
  shows "case r of
      Some b \<Rightarrow> ok \<and> s \<le> block_size p1 b \<and> b \<notin> set (sp_busy p) \<and> accounted (p1\<lparr>sp_busy := sp_busy p1 @ [b]\<rparr>) \<and>
        (length (sp_busy p) + length (sp_idle p) \<le> po_maxMemCnt (sp_option p) \<longrightarrow>
          Suc (length (sp_busy p1) + length (sp_idle p1)) \<le> po_maxMemCnt (sp_option p))
    | None \<Rightarrow> accounted p1 \<and> sp_idle p1 = sp_idle p"
    and "sp_busy p1 = sp_busy p" "sp_option p1 = sp_option p"
proof -
  obtain f m where f: "find_idle (block_size p) s INT32_MAX None (sp_idle p) = (f, m)" by fastforce
  have "(case r of
      Some b \<Rightarrow> ok \<and> s \<le> block_size p1 b \<and> b \<notin> set (sp_busy p) \<and> accounted (p1\<lparr>sp_busy := sp_busy p1 @ [b]\<rparr>) \<and>
        (length (sp_busy p) + length (sp_idle p) \<le> po_maxMemCnt (sp_option p) \<longrightarrow>
          Suc (length (sp_busy p1) + length (sp_idle p1)) \<le> po_maxMemCnt (sp_option p))
    | None \<Rightarrow> accounted p1 \<and> sp_idle p1 = sp_idle p) \<and> sp_busy p1 = sp_busy p \<and> sp_option p1 = sp_option p"
  proof (cases f)
    case (Some b)
    have b: "b \<in> set (sp_idle p)" "s \<le> block_size p b" using find_idle_mem f Some by metis+
    have p1: "ok" "r = Some b" "p1 = p\<lparr>sp_idle := remove1 b (sp_idle p)\<rparr>" using assms(1) f Some by (auto simp: DoAcquireMemory_def)
    have "Suc (length (remove1 b (sp_idle p))) = length (sp_idle p)"
      using b(1) length_pos_if_in_set [OF b(1)] by (simp add: length_remove1)
    moreover have "b \<notin> set (sp_busy p)" using b(1) assms(3) by (auto simp: accounted_def)
    ultimately show ?thesis
      using p1 b assms(3) by (auto simp: accounted_def block_size_def simp del: length_remove1)
  next
    case None
    have none: "\<forall>b \<in> set (sp_idle p). block_size p b < s" using find_idle_None f None by metis
    show ?thesis
    proof (cases "length (sp_busy p) + length (sp_idle p) < po_maxMemCnt (sp_option p) \<and> can_make (sp_fresh p) s")
      case True
      then have "ok" "r = Some (sp_fresh p)" "p1 = p\<lparr>sp_live := (sp_live p)(sp_fresh p \<mapsto> s), sp_fresh := Suc (sp_fresh p)\<rparr>"
        using assms(1,2) f None by (auto simp: DoAcquireMemory_def sp_AllocMemory_def Let_def split: option.splits if_splits)
      then show ?thesis using True accountedD [OF assms(3)] assms(3) by (auto simp: accounted_def block_size_def less_Suc_eq)
    next
      case False
      then have "r = None" "p1 = p \<or> p1 = p\<lparr>sp_fresh := Suc (sp_fresh p)\<rparr>"
        using assms(1,2) f None by (auto simp: DoAcquireMemory_def sp_AllocMemory_def Let_def split: option.splits if_splits)
      then show ?thesis using assms(3) accounted_fresh [OF assms(3)] by auto
    qed
  qed
  then show "case r of
      Some b \<Rightarrow> ok \<and> s \<le> block_size p1 b \<and> b \<notin> set (sp_busy p) \<and> accounted (p1\<lparr>sp_busy := sp_busy p1 @ [b]\<rparr>) \<and>
        (length (sp_busy p) + length (sp_idle p) \<le> po_maxMemCnt (sp_option p) \<longrightarrow>
          Suc (length (sp_busy p1) + length (sp_idle p1)) \<le> po_maxMemCnt (sp_option p))
    | None \<Rightarrow> accounted p1 \<and> sp_idle p1 = sp_idle p" "sp_busy p1 = sp_busy p" "sp_option p1 = sp_option p" by blast+
qed

lemma acquire_turn_fixed:
  assumes "acquire_turn can_make s blocking p = (r, p1)" "po_enableFixedSize (sp_option p)" "accounted p"
    and "length (sp_busy p) + length (sp_idle p) \<le> po_maxMemCnt (sp_option p)"
  shows "accounted p1 \<and> length (sp_busy p1) + length (sp_idle p1) \<le> po_maxMemCnt (sp_option p1) \<and> sp_option p1 = sp_option p \<and>
    (\<forall>b. r = Acquired b \<longrightarrow> b \<notin> set (sp_busy p) \<and> sp_busy p1 = sp_busy p @ [b] \<and> s \<le> block_size p1 b)"
proof -
  obtain ok m q where d: "DoAcquireMemory can_make s p = (ok, m, q)" by (metis prod_cases3)
  note f = DoAcquire_fixed [OF d assms(2,3)]
  show ?thesis
  proof (cases m)
    case None
    then have "p1 = q" "r = Refused \<or> r = Waits s" using assms(1) d by (auto simp: acquire_turn_def split: if_splits)
    then show ?thesis using f None assms(4) by auto
  next
    case (Some b)
    then have "p1 = q\<lparr>sp_busy := sp_busy q @ [b]\<rparr>" "r = Acquired b" using assms(1) d f(1) by (auto simp: acquire_turn_def)
    then show ?thesis using f Some assms(4) by (auto simp: block_size_def)
  qed
qed

text \<open>What the users of a pool do after it was set up; only blocks that were acquired are given back.\<close>

inductive pool_run :: "(nat \<Rightarrow> int \<Rightarrow> bool) \<Rightarrow> pool_option \<Rightarrow> shm_pool \<Rightarrow> bool" for can_make opt where
  run_Init: "sp_Init can_make opt new_shm_pool = (0, p) \<Longrightarrow> pool_run can_make opt p"
| run_Acquire: "pool_run can_make opt p \<Longrightarrow> AcquireMemory can_make s blocking p = (r, p1) \<Longrightarrow> pool_run can_make opt p1"
| run_Woken: "pool_run can_make opt p \<Longrightarrow> acquire_woken can_make s p = (r, p1) \<Longrightarrow> pool_run can_make opt p1"
| run_Release: "pool_run can_make opt p \<Longrightarrow> b \<in> set (sp_busy p) \<Longrightarrow> ReleaseMemory b p = (n, p1) \<Longrightarrow> pool_run can_make opt p1"
| run_NonBlocking: "pool_run can_make opt p \<Longrightarrow> pool_run can_make opt (sp_SetNonBlocking e p)"
| run_Reset: "pool_run can_make opt p \<Longrightarrow> pool_run can_make opt (sp_Reset p)"

lemma release_accounted:
  assumes "accounted p" "b \<in> set (sp_busy p)" "ReleaseMemory b p = (n, p1)"
  shows "accounted p1 \<and> sp_option p1 = sp_option p \<and> length (sp_busy p1) + length (sp_idle p1) = length (sp_busy p) + length (sp_idle p)"
proof -
  have "Suc (length (remove1 b (sp_busy p))) = length (sp_busy p)"
    using assms(2) length_pos_if_in_set [OF assms(2)] by (simp add: length_remove1)
  moreover have p1: "p1 = p\<lparr>sp_busy := remove1 b (sp_busy p), sp_idle := sp_idle p @ [b]\<rparr>"
    using assms(2,3) by (simp add: ReleaseMemory_def)
  moreover have "set (sp_idle p1) \<union> set (sp_busy p1) = set (sp_idle p) \<union> set (sp_busy p)" "distinct (sp_idle p1 @ sp_busy p1)"
    using assms(1,2) p1 by (auto simp: accounted_def)
  ultimately show ?thesis using assms(1) by (simp add: accounted_def del: length_remove1)
qed

lemma reset_accounted: "accounted p \<Longrightarrow> accounted (sp_Reset p)"
  by (auto simp: accounted_def sp_Reset_def)

lemma pool_run_inv:
  assumes "pool_run can_make opt p" "po_enableFixedSize opt"
  shows "accounted p \<and> po_enableFixedSize (sp_option p) \<and> po_maxMemCnt (sp_option p) = po_maxMemCnt opt \<and>
    length (sp_busy p) + length (sp_idle p) \<le> po_maxMemCnt opt"
  using assms(1)
proof induction
  case (run_Init p)
  let ?opt = "opt\<lparr>po_preAllocMemCnt := min (po_preAllocMemCnt opt) (po_maxMemCnt opt)\<rparr>"
  obtain ok q where q: "pre_alloc can_make (po_preAllocMemCnt ?opt) (po_memSize ?opt) (new_shm_pool\<lparr>sp_option := ?opt\<rparr>) = (ok, q)"
    by fastforce
  have "accounted (new_shm_pool\<lparr>sp_option := ?opt\<rparr>)" by (simp add: accounted_def new_shm_pool_def)
  from pre_alloc_accounted [OF q this]
  have "accounted q" "sp_busy q = []" "length (sp_idle q) \<le> po_maxMemCnt opt" "sp_option q = ?opt" by (simp_all add: new_shm_pool_def)
  moreover have "p = q\<lparr>sp_inited := True, sp_notifier := po_notifier opt\<rparr>"
    using run_Init q by (auto simp: sp_Init_def Let_def new_shm_pool_def split: if_splits)
  ultimately show ?case using assms(2) by (simp add: accounted_def)
next
  case (run_Acquire p s blocking r p1)
  then show ?case by (auto simp: AcquireMemory_def dest!: acquire_turn_fixed split: if_splits)
next
  case (run_Woken p s r p1)
  then show ?case by (auto simp: acquire_woken_def dest!: acquire_turn_fixed split: if_splits)
next
  case (run_Release p b n p1)
  then show ?case using release_accounted by metis
next
  case (run_NonBlocking p e)
  then show ?case by (simp add: sp_SetNonBlocking_def accounted_def)
next
  case (run_Reset p)
  then show ?case using reset_accounted by (simp add: sp_Reset_def)
qed


definition ex_option :: "bool \<Rightarrow> pool_option" where
  "ex_option fixed = \<lparr>po_preAllocMemCnt = 1, po_memSize = 16, po_maxMemCnt = 2, po_enableFixedSize = fixed, po_notifier = False\<rparr>"

definition ex_pool :: "bool \<Rightarrow> shm_pool" where
  "ex_pool fixed = snd (sp_Init (\<lambda>_ _. True) (ex_option fixed) new_shm_pool)"

lemma ex_pool_run: "pool_run (\<lambda>_ _. True) (ex_option fixed) (ex_pool fixed)"
  by (rule run_Init) (simp add: ex_pool_def ex_option_def sp_Init_def new_shm_pool_def sp_AllocMemory_def MAX_MEM_SIZE_def numeral_2_eq_2 Let_def)


lemma find_idle_small:
  "\<forall>b \<in> set bs. sz b < s \<and> sz b < mn \<Longrightarrow> bs \<noteq> [] \<or> m \<noteq> None \<Longrightarrow> \<exists>b. find_idle sz s mn m bs = (None, Some b) \<and> (b \<in> set bs \<or> m = Some b)"
proof (induction bs arbitrary: mn m)
  case (Cons b bs)
  then have b: "\<not> sz b \<ge> s" "sz b < mn" by auto
  have later: "\<exists>c. find_idle sz s k (Some b) bs = (None, Some c) \<and> (c = b \<or> c \<in> set bs)" for k
    using Cons.prems(1)
  proof (induction bs arbitrary: k b)
    case (Cons c cs)
    then show ?case by (cases "sz c < k") (fastforce simp: not_le)+
  qed simp
  show ?case using b later [of "sz b"] by auto
qed auto

text \<open>
  A pool of blocks of different sizes loses memory: when no idle block is big enough, one is there
  and the pool is not full, the acquisition makes a block, then frees the smallest idle block and makes
  another, so that the first one is in no list and nobody has it.
\<close>

theorem variable_pool_leaks:
  assumes "accounted p" "\<not> po_enableFixedSize (sp_option p)" "0 < s" "s \<le> INT32_MAX"
    and "sp_idle p \<noteq> []" "\<forall>b \<in> set (sp_idle p). block_size p b < s" "length (sp_busy p) + length (sp_idle p) < po_maxMemCnt (sp_option p)"
    and "can_make (sp_fresh p) s" "can_make (Suc (sp_fresh p)) s"
  shows "\<exists>p1. AcquireMemory can_make s blocking p = (Acquired (Suc (sp_fresh p)), p1) \<and> sp_live p1 (sp_fresh p) = Some s \<and>
    sp_fresh p \<notin> set (sp_idle p1) \<union> set (sp_busy p1) \<and> Suc (length (sp_idle p1)) = length (sp_idle p)"
proof -
  have "\<forall>b \<in> set (sp_idle p). block_size p b < s \<and> block_size p b < INT32_MAX" using assms(4,6) by fastforce
  then obtain m where m: "find_idle (block_size p) s INT32_MAX None (sp_idle p) = (None, Some m)" "m \<in> set (sp_idle p)"
    using find_idle_small [of "sp_idle p" "block_size p" s INT32_MAX None] assms(5) by auto
  have fresh: "sp_fresh p \<notin> set (sp_idle p)" "sp_fresh p \<notin> set (sp_busy p)" "m \<noteq> sp_fresh p"
    using accountedD [OF assms(1)] m(2) by auto
  let ?p = "p\<lparr>sp_live := ((sp_live p)(sp_fresh p \<mapsto> s))(m := None, Suc (sp_fresh p) \<mapsto> s), sp_fresh := Suc (Suc (sp_fresh p)),
      sp_idle := remove1 m (sp_idle p), sp_busy := sp_busy p @ [Suc (sp_fresh p)]\<rparr>"
  have "AcquireMemory can_make s blocking p = (Acquired (Suc (sp_fresh p)), ?p)"
    using assms(2,3,7-9) m by (simp add: AcquireMemory_def CheckSize_def acquire_turn_def DoAcquireMemory_def sp_AllocMemory_def Let_def)
  moreover have "Suc (length (remove1 m (sp_idle p))) = length (sp_idle p)"
    using m(2) length_pos_if_in_set [OF m(2)] by (simp add: length_remove1)
  ultimately show ?thesis using fresh notin_set_remove1 [OF fresh(1)] by (simp del: length_remove1)
qed

theorem variable_pool_leaks_witness:
  "\<exists>p1. AcquireMemory (\<lambda>_ _. True) 32 True (ex_pool False) = (Acquired 2, p1) \<and> sp_live p1 1 = Some 32 \<and>
    1 \<notin> set (sp_idle p1) \<union> set (sp_busy p1)"
proof -
  have p: "ex_pool False = \<lparr>sp_option = ex_option False, sp_idle = [0], sp_busy = [], sp_inited = True, sp_notifier = False,
      sp_forceNonBlocking = False, sp_live = [0 \<mapsto> 16], sp_fresh = 1\<rparr>"
    by (simp add: ex_pool_def ex_option_def sp_Init_def new_shm_pool_def sp_AllocMemory_def MAX_MEM_SIZE_def Let_def)
  have hyps: "accounted (ex_pool False)" "\<not> po_enableFixedSize (sp_option (ex_pool False))" "(0 :: int) < 32" "32 \<le> INT32_MAX"
    "sp_idle (ex_pool False) \<noteq> []" "\<forall>b \<in> set (sp_idle (ex_pool False)). block_size (ex_pool False) b < 32"
    "length (sp_busy (ex_pool False)) + length (sp_idle (ex_pool False)) < po_maxMemCnt (sp_option (ex_pool False))"
    by (simp_all add: p accounted_def ex_option_def INT32_MAX_def block_size_def)
  have "sp_fresh (ex_pool False) = 1" by (simp add: p)
  with variable_pool_leaks [OF hyps, of "\<lambda>_ _. True" True] show ?thesis by (auto simp: numeral_2_eq_2)
qed

text \<open>An acquisition that waits gets the block that is given back.\<close>

lemma woken_gets_released:
  assumes "sp_idle p = []" "b \<in> set (sp_busy p)" "s \<le> block_size p b" "sp_inited p" "\<not> sp_forceNonBlocking p"
  shows "fst (acquire_woken can_make s (snd (ReleaseMemory b p))) = Acquired b"
  using assms by (simp add: acquire_woken_def ReleaseMemory_def acquire_turn_def DoAcquireMemory_def block_size_def)

text \<open>A pool that was reset goes on to give out memory, and keeps the blocks that come back.\<close>

lemma reset_pool_still_gives:
  assumes "po_enableFixedSize (sp_option p)" "0 < po_memSize (sp_option p)" "length (sp_busy p) < po_maxMemCnt (sp_option p)"
    and "can_make (sp_fresh p) (po_memSize (sp_option p))"
  shows "fst (AcquireMemory can_make (- 1) blocking (sp_Reset p)) = Acquired (sp_fresh p)" "\<not> sp_inited (sp_Reset p)"
  using assms by (simp_all add: AcquireMemory_def CheckSize_def acquire_turn_def DoAcquireMemory_def sp_AllocMemory_def sp_Reset_def Let_def)

section \<open>A block of shared memory\<close>

text \<open>
  \<open>AVSharedMemoryBase\<close> (src/buffer/avsharedmemory/avsharedmemorybase.cpp): the descriptor (0 when there is
  none), whether the block has an address, whether it may be written through it, and how many mappings
  of it exist. What the system answers is in the arguments.
\<close>

record shm_block =
  sb_capacity :: int
  sb_readOnly :: bool
  sb_fd :: int
  sb_base :: bool
  sb_writable :: bool
  sb_mappings :: nat
  sb_data :: "u8 list"
  sb_size :: int

record shm_system =
  sy_create :: int
  sy_getSize :: int
  sy_setProt :: bool
  sy_mmap :: bool

definition new_shm :: "int \<Rightarrow> bool \<Rightarrow> shm_block" where
  "new_shm capacity readOnly = \<lparr>sb_capacity = capacity, sb_readOnly = readOnly, sb_fd = - 1, sb_base = False, sb_writable = False,
     sb_mappings = 0, sb_data = replicate (nat capacity) 0, sb_size = 0\<rparr>"

definition shm_Close :: "shm_block \<Rightarrow> shm_block" where
  "shm_Close m =
     (let m1 = (if sb_base m then m\<lparr>sb_base := False, sb_mappings := sb_mappings m - 1, sb_capacity := 0, sb_readOnly := False, sb_size := 0\<rparr> else m)
      in if sb_fd m1 > 0 then m1\<lparr>sb_fd := - 1\<rparr> else m1)"

definition MapMemory :: "shm_system \<Rightarrow> bool \<Rightarrow> shm_block \<Rightarrow> bool \<times> shm_block" where
  "MapMemory sys isRemote m =
     (if \<not> sy_setProt sys then (False, m)
      else if \<not> sy_mmap sys then (False, m)
      else (True, m\<lparr>sb_base := True, sb_mappings := Suc (sb_mappings m), sb_writable := \<not> (isRemote \<and> sb_readOnly m)\<rparr>))"

definition shm_Init :: "shm_system \<Rightarrow> bool \<Rightarrow> shm_block \<Rightarrow> status \<times> shm_block" where
  "shm_Init sys isMapVirAddr m =
     (if \<not> sb_capacity m > 0 then (ERROR_INVALID_PARAMETER, shm_Close m)
      else let isRemote = (sb_fd m > 0);
               m1 = (if isRemote then m else m\<lparr>sb_fd := sy_create sys\<rparr>)
           in if isRemote \<and> sy_getSize sys \<noteq> sb_capacity m then (ERROR_INVALID_PARAMETER, shm_Close m1)
              else if \<not> isRemote \<and> \<not> sb_fd m1 > 0 then (ERROR_INVALID_PARAMETER, shm_Close m1)
              else if isMapVirAddr then
                (case MapMemory sys isRemote m1 of (ok, m2) \<Rightarrow> if ok then (OK, m2) else (ERROR_INVALID_PARAMETER, shm_Close m2))
              else (OK, m1))"

definition shm_GetSize :: "shm_block \<Rightarrow> int" where
  "shm_GetSize m = (if sb_base m then sb_capacity m else - 1)"

text \<open>\<open>empty_ok\<close> is what \<open>memcpy_s\<close> of the securec library answers for a destination of no bytes.\<close>

definition shm_Write :: "bool \<Rightarrow> u8 list \<Rightarrow> int \<Rightarrow> shm_block \<Rightarrow> (fault, int \<times> shm_block) sum" where
  "shm_Write empty_ok bs position m =
     (if bs = [] then Inr (0, m)
      else let start = (if position = - 1 then sb_size m else min position (sb_capacity m));
               len = min (int (length bs)) (sb_capacity m - start)
           in if \<not> len + start \<le> sb_capacity m then Inr (0, m)
              else if \<not> sb_base m \<and> start = 0 then Inr (0, m)
              else if start < 0 \<or> \<not> sb_base m then Inl Out_Of_Bounds
              else if len = 0 \<and> \<not> empty_ok then Inr (0, m)
              else Inr (len, m\<lparr>sb_data := take (nat start) (sb_data m) @ take (nat len) bs @ drop (nat (start + len)) (sb_data m), sb_size := start + len\<rparr>))"

definition shm_Read :: "bool \<Rightarrow> int \<Rightarrow> int \<Rightarrow> shm_block \<Rightarrow> (fault, int \<times> u8 list) sum" where
  "shm_Read empty_ok readSize position m =
     (if \<not> readSize > 0 then Inr (0, [])
      else let start = (if position = - 1 then 0 else min position (sb_size m));
               len = min readSize (if position = - 1 then sb_size m else sb_size m - start)
           in if \<not> len + start \<le> sb_capacity m then Inr (0, [])
              else if \<not> sb_base m \<and> start = 0 then Inr (0, [])
              else if start < 0 \<or> \<not> sb_base m then Inl Out_Of_Bounds
              else if len = 0 \<and> \<not> empty_ok then Inr (0, [])
              else Inr (len, take (nat len) (drop (nat start) (sb_data m))))"

definition ClearUsedSize :: "shm_block \<Rightarrow> shm_block" where
  "ClearUsedSize m = m\<lparr>sb_size := 0\<rparr>"

definition shm_ok :: "shm_block \<Rightarrow> bool" where
  "shm_ok m \<longleftrightarrow> sb_base m \<and> int (length (sb_data m)) = sb_capacity m \<and> 0 \<le> sb_size m \<and> sb_size m \<le> sb_capacity m"

text \<open>What is written is read back.\<close>

lemma shm_write_read:
  assumes "shm_ok m" "0 \<le> position" "position + int (length bs) \<le> sb_capacity m" "bs \<noteq> []"
  shows "\<exists>m1. shm_Write e bs position m = Inr (int (length bs), m1) \<and> shm_ok m1 \<and> shm_Read e (int (length bs)) position m1 = Inr (int (length bs), bs)"
proof -
  let ?m = "m\<lparr>sb_data := take (nat position) (sb_data m) @ bs @ drop (nat (position + int (length bs))) (sb_data m), sb_size := position + int (length bs)\<rparr>"
  have len: "length (take (nat position) (sb_data m)) = nat position"
    using assms(1-3) unfolding shm_ok_def length_take by linarith
  have pos: "min position (sb_capacity m) = position" "0 < length bs" "position \<noteq> - 1" using assms(2-4) by simp_all
  have "shm_Write e bs position m = Inr (int (length bs), ?m)"
    using assms pos by (simp add: shm_Write_def shm_ok_def Let_def)
  moreover have "shm_ok ?m"
  proof -
    have "nat position + length bs \<le> length (sb_data m)" "nat (position + int (length bs)) = nat position + length bs"
      using assms(1-3) by (auto simp: shm_ok_def)
    then show ?thesis using assms(1-3) len by (simp add: shm_ok_def)
  qed
  moreover have "shm_Read e (int (length bs)) position ?m = Inr (int (length bs), bs)"
    using assms pos len by (simp add: shm_Read_def shm_ok_def Let_def)
  ultimately show ?thesis by blast
qed

text \<open>A position below the one that stands for none is not looked at: the bytes before the block are written.\<close>

lemma shm_write_before_block:
  "position < - 1 \<Longrightarrow> bs \<noteq> [] \<Longrightarrow> shm_ok m \<Longrightarrow> shm_Write e bs position m = Inl Out_Of_Bounds"
  by (auto simp: shm_Write_def shm_ok_def Let_def)

text \<open>How the pool makes a block: it is set up twice.\<close>

definition AllocMemory_block :: "shm_system \<Rightarrow> int \<Rightarrow> bool \<Rightarrow> shm_block option" where
  "AllocMemory_block sys s readOnly =
     (case shm_Init sys True (snd (shm_Init sys True (new_shm s readOnly))) of (ret, m) \<Rightarrow> if ret = OK then Some m else None)"

text \<open>
  Every block of the pool is mapped twice, so that after it is closed one mapping stays, and a
  block for reading only cannot be written by the process that owns it either, since the second time
  it is taken for a block of another process.
\<close>

theorem pool_block_mapped_twice:
  assumes "0 < s" "0 < sy_create sys" "sy_getSize sys = s" "sy_setProt sys" "sy_mmap sys"
  shows "\<exists>m. AllocMemory_block sys s readOnly = Some m \<and> shm_GetSize m = s \<and> sb_mappings (shm_Close m) = 1 \<and> sb_writable m = (\<not> readOnly)"
  using assms by (simp add: AllocMemory_block_def shm_Init_def new_shm_def MapMemory_def shm_Close_def shm_GetSize_def Let_def)

theorem pool_block_mapped_twice_witness:
  "\<exists>m. AllocMemory_block \<lparr>sy_create = 3, sy_getSize = 16, sy_setProt = True, sy_mmap = True\<rparr> 16 True = Some m \<and> shm_GetSize m = 16 \<and>
    sb_mappings (shm_Close m) = 1 \<and> sb_writable m = (\<not> True)"
  by (rule pool_block_mapped_twice) simp_all

end
