(* ===== verification/Type_Finder.thy ===== *)
theory Type_Finder
  imports Hst_Prelude
begin

text \<open>
  How the demuxer filter finds the plugin for its media (engine/pipeline/filters/demux/type_finder.cpp).

  What the plugin manager lists, what the sniffers of the plugins answer and whether a range of the
  source can be read are arguments; so is the sorting of the standard library, which gets the order
  the code hands to it. \<open>check k\<close> is what the \<open>k\<close>-th question for a range answers.
\<close>

section \<open>Plugins\<close>

record plugin_info =
  pi_name :: string
  pi_rank :: int
  pi_demuxer :: bool
  pi_extensions :: "string list option"

definition GetUriSuffix :: "string \<Rightarrow> string" where
  "GetUriSuffix uri = (if CHR ''.'' \<in> set uri then rev (takeWhile (\<lambda>c. c \<noteq> CHR ''.'') (rev uri)) else [])"

definition IsPluginSupportedExtension :: "plugin_info \<Rightarrow> string \<Rightarrow> bool" where
  "IsPluginSupportedExtension p ext =
     (if \<not> pi_demuxer p then False else case pi_extensions p of Some exts \<Rightarrow> ext \<in> set exts | None \<Rightarrow> False)"

definition lower_char :: "char \<Rightarrow> char" where
  "lower_char c = (if 65 \<le> (of_char c :: nat) \<and> (of_char c :: nat) \<le> 90 then char_of ((of_char c :: nat) + 32) else c)"

definition ToLower :: "string \<Rightarrow> string" where
  "ToLower s = map lower_char s"

section \<open>The finder\<close>

record type_finder =
  tf_sniffNeeded :: bool
  tf_uri :: string
  tf_mediaDataSize :: nat
  tf_pluginName :: string
  tf_plugins :: "plugin_info list"
  tf_pluginRegistryChanged :: bool

definition new_type_finder :: type_finder where
  "new_type_finder = \<lparr>tf_sniffNeeded = True, tf_uri = [], tf_mediaDataSize = 0, tf_pluginName = [], tf_plugins = [], tf_pluginRegistryChanged = True\<rparr>"

definition IsSniffNeeded :: "string \<Rightarrow> type_finder \<Rightarrow> bool" where
  "IsSniffNeeded uri f =
     (let uriChanged = (tf_uri f \<noteq> ToLower uri)
      in if uriChanged \<or> tf_pluginRegistryChanged f \<or> ToLower uri = [] then True else uriChanged)"

text \<open>The plugins listed with their descriptions, where there is one.\<close>

definition GetPlugins :: "plugin_info option list \<Rightarrow> type_finder \<Rightarrow> bool \<times> type_finder" where
  "GetPlugins listed f =
     (let f1 = (if tf_pluginRegistryChanged f
                then f\<lparr>tf_pluginRegistryChanged := False, tf_plugins := tf_plugins f @ map the (filter (\<lambda>p. p \<noteq> None) listed)\<rparr> else f)
      in (tf_plugins f1 \<noteq> [], f1))"

definition plugin_before :: "string \<Rightarrow> plugin_info \<Rightarrow> plugin_info \<Rightarrow> bool" where
  "plugin_before ext lhs rhs =
     (if IsPluginSupportedExtension lhs ext then pi_rank lhs \<ge> pi_rank rhs \<or> \<not> IsPluginSupportedExtension rhs ext
      else pi_rank lhs \<ge> pi_rank rhs \<and> \<not> IsPluginSupportedExtension rhs ext)"

type_synonym sorter = "(plugin_info \<Rightarrow> plugin_info \<Rightarrow> bool) \<Rightarrow> plugin_info list \<Rightarrow> plugin_info list"

definition SortPlugins :: "sorter \<Rightarrow> string \<Rightarrow> type_finder \<Rightarrow> type_finder" where
  "SortPlugins stable_sort ext f = (if ext = [] then f else f\<lparr>tf_plugins := stable_sort (plugin_before ext) (tf_plugins f)\<rparr>)"

definition tf_Init :: "sorter \<Rightarrow> plugin_info option list \<Rightarrow> string \<Rightarrow> nat \<Rightarrow> type_finder \<Rightarrow> type_finder" where
  "tf_Init stable_sort listed uri mediaDataSize f =
     (let f1 = f\<lparr>tf_mediaDataSize := mediaDataSize, tf_sniffNeeded := IsSniffNeeded uri f\<rparr>
      in if \<not> tf_sniffNeeded f1 then f1
         else case GetPlugins listed (f1\<lparr>tf_uri := uri, tf_pluginName := []\<rparr>) of
                (found, f2) \<Rightarrow> if found then SortPlugins stable_sort (GetUriSuffix (tf_uri f2)) f2 else f2)"

definition IsOffsetValid :: "int \<Rightarrow> type_finder \<Rightarrow> bool" where
  "IsOffsetValid offset f \<longleftrightarrow> tf_mediaDataSize f = 0 \<or> offset < int (tf_mediaDataSize f)"

text \<open>The counter after the loop that waits for a range; it goes one further where the loop gives up.\<close>

function range_tries :: "(nat \<Rightarrow> bool) \<Rightarrow> nat \<Rightarrow> nat" where
  "range_tries check i = (if check i then i else if i < 3 then range_tries check (Suc i) else Suc i)"
  by pat_completeness auto
termination by (relation "measure (\<lambda>(check, i). 3 - i)") auto

declare range_tries.simps [simp del]

text \<open>The status, and whether the range was read (into the buffer).\<close>

definition tf_ReadAt :: "(nat \<Rightarrow> bool) \<Rightarrow> int \<Rightarrow> nat \<Rightarrow> type_finder \<Rightarrow> status \<times> bool" where
  "tf_ReadAt check offset expectedLen f =
     (if expectedLen = 0 \<or> \<not> IsOffsetValid offset f then (ERROR_INVALID_PARAMETER, False)
      else if range_tries check 0 = 3 then (ERROR_NOT_ENOUGH_DATA, False)
      else (OK, True))"

definition tf_GetSize :: "type_finder \<Rightarrow> status \<times> nat" where
  "tf_GetSize f = (if tf_mediaDataSize f > 0 then OK else ERROR_UNKNOWN, tf_mediaDataSize f)"

fun sniff_plugins :: "(string \<Rightarrow> int) \<Rightarrow> int \<Rightarrow> string \<Rightarrow> plugin_info list \<Rightarrow> string" where
  "sniff_plugins prob maxProb name [] = name"
| "sniff_plugins prob maxProb name (p # ps) =
     (if prob (pi_name p) > 50 then pi_name p
      else if prob (pi_name p) > maxProb then sniff_plugins prob (prob (pi_name p)) (pi_name p) ps
      else sniff_plugins prob maxProb name ps)"

definition SniffMediaType :: "(string \<Rightarrow> int) \<Rightarrow> type_finder \<Rightarrow> string" where
  "SniffMediaType prob f = sniff_plugins prob 0 [] (tf_plugins f)"

definition GuessMediaType :: "type_finder \<Rightarrow> string" where
  "GuessMediaType f =
     (let uriSuffix = GetUriSuffix (tf_uri f)
      in if uriSuffix = [] then []
         else case List.find (\<lambda>p. IsPluginSupportedExtension p uriSuffix) (tf_plugins f) of Some p \<Rightarrow> pi_name p | None \<Rightarrow> [])"

definition FindMediaType :: "(string \<Rightarrow> int) \<Rightarrow> type_finder \<Rightarrow> string \<times> type_finder" where
  "FindMediaType prob f =
     (if tf_sniffNeeded f then
        let name = SniffMediaType prob f;
            name1 = (if name = [] then GuessMediaType f else name)
        in (name1, f\<lparr>tf_pluginName := name1, tf_sniffNeeded := False\<rparr>)
      else (tf_pluginName f, f))"

text \<open>The task for sources that cannot seek; the callback gets the name.\<close>

definition tf_DoTask :: "(string \<Rightarrow> int) \<Rightarrow> type_finder \<Rightarrow> string \<times> type_finder" where
  "tf_DoTask prob f = FindMediaType prob f"

section \<open>Sniffing\<close>

text \<open>The first plugin that is sure, and else the first of those that are least unsure.\<close>

definition best_plugin :: "(string \<Rightarrow> int) \<Rightarrow> plugin_info list \<Rightarrow> string" where
  "best_plugin prob ps =
     (case List.find (\<lambda>p. prob (pi_name p) > 50) ps of
        Some p \<Rightarrow> pi_name p
      | None \<Rightarrow> (case List.find (\<lambda>p. prob (pi_name p) > 0 \<and> (\<forall>q \<in> set ps. prob (pi_name q) \<le> prob (pi_name p))) ps of
                   Some p \<Rightarrow> pi_name p | None \<Rightarrow> []))"

lemma sniff_sure: "\<exists>p \<in> set ps. prob (pi_name p) > 50 \<Longrightarrow>
    sniff_plugins prob k name ps = pi_name (the (List.find (\<lambda>p. prob (pi_name p) > 50) ps))"
  by (induction ps arbitrary: k name) auto

lemma sniff_unsure:
  "\<forall>p \<in> set ps. prob (pi_name p) \<le> 50 \<Longrightarrow> sniff_plugins prob k name ps =
    (case List.find (\<lambda>p. prob (pi_name p) > k \<and> (\<forall>q \<in> set ps. prob (pi_name q) \<le> prob (pi_name p))) ps of
       Some p \<Rightarrow> pi_name p | None \<Rightarrow> name)"
proof (induction ps arbitrary: k name)
  case (Cons p ps)
  let ?ok = "\<lambda>k qs x. prob (pi_name x) > k \<and> (\<forall>q \<in> set qs. prob (pi_name q) \<le> prob (pi_name x))"
  let ?pp = "prob (pi_name p)"
  have p50: "?pp \<le> 50" "\<forall>q \<in> set ps. prob (pi_name q) \<le> 50" using Cons.prems by simp_all
  show ?case
  proof (cases "?pp > k")
    case True
    show ?thesis
    proof (cases "\<forall>q \<in> set ps. prob (pi_name q) \<le> ?pp")
      case le: True
      then have "List.find (?ok ?pp ps) ps = None" by (auto simp: find_None_iff)
      then show ?thesis using True le p50 Cons.IH [OF p50(2), of ?pp "pi_name p"] by simp
    next
      case False
      then have "\<And>x. x \<in> set ps \<Longrightarrow> ?ok k (p # ps) x = ?ok ?pp ps x" using True by fastforce
      then have "List.find (?ok k (p # ps)) ps = List.find (?ok ?pp ps) ps" by (rule find_cong [OF refl])
      moreover have "List.find (?ok ?pp ps) ps \<noteq> None"
      proof -
        from False have "ps \<noteq> []" by auto
        let ?m = "Max ((\<lambda>x. prob (pi_name x)) ` set ps)"
        have "?m \<in> (\<lambda>x. prob (pi_name x)) ` set ps" using \<open>ps \<noteq> []\<close> by (intro Max_in) auto
        then obtain x where x: "x \<in> set ps" "prob (pi_name x) = ?m" by auto
        have "\<forall>q \<in> set ps. prob (pi_name q) \<le> ?m" by simp
        moreover obtain q where "q \<in> set ps" "?pp < prob (pi_name q)" using False by (auto simp: not_le)
        ultimately have "?pp < ?m" by (meson less_le_trans)
        with \<open>\<forall>q \<in> set ps. prob (pi_name q) \<le> ?m\<close> have "?ok ?pp ps x" unfolding x(2) by blast
        then show ?thesis using x(1) by (auto simp: find_None_iff)
      qed
      ultimately show ?thesis using True False p50 Cons.IH [OF p50(2), of ?pp "pi_name p"] by (auto split: option.splits)
    qed
  next
    case False
    then have "\<And>x. x \<in> set ps \<Longrightarrow> ?ok k (p # ps) x = ?ok k ps x" by fastforce
    then have "List.find (?ok k (p # ps)) ps = List.find (?ok k ps) ps" by (rule find_cong [OF refl])
    then show ?thesis using False p50 Cons.IH [OF p50(2), of k name] by simp
  qed
qed simp

text \<open>
  The plugin that is found for a new medium is the best of the sniffers: the first one in the list
  that is sure (above 50), and when none is, the first with the highest probability above 0; only when
  all of them refuse the suffix of the uri decides. The answer is kept: asking again asks no sniffer.
\<close>

theorem finds_best_plugin:
  "case FindMediaType prob (f\<lparr>tf_sniffNeeded := True\<rparr>) of (name, f1) \<Rightarrow>
     name = (if best_plugin prob (tf_plugins f) = [] then GuessMediaType f else best_plugin prob (tf_plugins f)) \<and>
     FindMediaType other f1 = (name, f1)"
proof -
  have "SniffMediaType prob f = best_plugin prob (tf_plugins f)"
  proof (cases "\<exists>p \<in> set (tf_plugins f). prob (pi_name p) > 50")
    case True
    then have "List.find (\<lambda>p. prob (pi_name p) > 50) (tf_plugins f) \<noteq> None" by (auto simp: find_None_iff)
    then show ?thesis using sniff_sure [OF True, of 0 "[]"] by (auto simp: SniffMediaType_def best_plugin_def)
  next
    case False
    then have "List.find (\<lambda>p. prob (pi_name p) > 50) (tf_plugins f) = None" by (auto simp: find_None_iff)
    then show ?thesis using sniff_unsure [of "tf_plugins f" prob 0 "[]"] False by (simp add: SniffMediaType_def best_plugin_def not_less)
  qed
  then have "SniffMediaType prob (f\<lparr>tf_sniffNeeded := True\<rparr>) = best_plugin prob (tf_plugins f)"
    "GuessMediaType (f\<lparr>tf_sniffNeeded := True\<rparr>) = GuessMediaType f"
    by (simp_all add: SniffMediaType_def GuessMediaType_def Let_def)
  then show ?thesis by (simp add: FindMediaType_def Let_def)
qed

text \<open>
  The last of the tries to wait for data is judged the wrong way round: a range that can be read at
  the fourth question is refused, and one that cannot be read at any of the four is reported as read.
\<close>

theorem last_try_is_inverted:
  assumes "expectedLen \<noteq> 0" "IsOffsetValid offset f"
  shows "tf_ReadAt check offset expectedLen f =
    (if \<exists>k < 3. check k then (OK, True) else if check 3 then (ERROR_NOT_ENOUGH_DATA, False) else (OK, True))"
proof -
  have tries: "range_tries check 0 = (if check 0 then 0 else if check 1 then 1 else if check 2 then 2 else if check 3 then 3 else 4)"
    by (simp add: range_tries.simps numeral_2_eq_2 numeral_3_eq_3)
  have "(\<exists>k < 3. check k) \<longleftrightarrow> check 0 \<or> check 1 \<or> check 2" by (auto simp: numeral_3_eq_3 less_Suc_eq numeral_2_eq_2)
  then show ?thesis using assms tries by (auto simp: tf_ReadAt_def)
qed

theorem last_try_is_inverted_witness:
  "tf_ReadAt (\<lambda>k. k = 3) 0 4 new_type_finder = (ERROR_NOT_ENOUGH_DATA, False) \<and> tf_ReadAt (\<lambda>k. False) 0 4 new_type_finder = (OK, True)"
proof -
  have "IsOffsetValid 0 new_type_finder" by (simp add: IsOffsetValid_def new_type_finder_def)
  then show ?thesis
    using last_try_is_inverted [of 4 0 new_type_finder "\<lambda>k. k = 3"] last_try_is_inverted [of 4 0 new_type_finder "\<lambda>k. False"] by simp
qed

text \<open>The order given to the sorting says of every plugin that it comes before itself.\<close>

lemma plugin_before_refl: "plugin_before ext p p"
  by (simp add: plugin_before_def)

text \<open>A uri with a capital letter is taken for a new one whenever it comes again.\<close>

lemma ToLower_changes: "c \<in> set uri \<Longrightarrow> 65 \<le> (of_char c :: nat) \<Longrightarrow> (of_char c :: nat) \<le> 90 \<Longrightarrow> ToLower uri \<noteq> uri"
proof
  assume c: "c \<in> set uri" "65 \<le> (of_char c :: nat)" "(of_char c :: nat) \<le> 90" and eq: "ToLower uri = uri"
  have "lower_char c = c" using eq c(1) unfolding ToLower_def by (metis map_eq_conv list.map_ident)
  then have "(of_char (char_of ((of_char c :: nat) + 32)) :: nat) = of_char c" using c by (simp add: lower_char_def)
  then show False using c(3) by (simp add: of_char_of)
qed

lemma capital_uri_sniffed_again:
  assumes "c \<in> set uri" "65 \<le> (of_char c :: nat)" "(of_char c :: nat) \<le> 90"
  shows "tf_sniffNeeded (tf_Init sorter listed uri n (f\<lparr>tf_uri := uri\<rparr>))"
  using ToLower_changes [OF assms] by (auto simp: tf_Init_def IsSniffNeeded_def GetPlugins_def SortPlugins_def Let_def)

end
