(* ===== verification/Hi_Player_Props.thy ===== *)
theory Hi_Player_Props
  imports Hi_Player
begin

text \<open>What the application learns from the player, and when its operations return.\<close>

section \<open>Reports of the state\<close>

definition reports :: "looper_call list \<Rightarrow> player_state list" where
  "reports cs = List.map_filter (\<lambda>c. case c of L_Message (STATE_CHANGE p) \<Rightarrow> Some p | _ \<Rightarrow> None) cs"

lemma reports_simps [simp]:
  "reports [] = []" "reports (xs @ ys) = reports xs @ reports ys"
  "reports (L_Message (STATE_CHANGE p) # cs) = p # reports cs" "reports [L_Message (STATE_CHANGE p)] = [p]"
  by (simp_all add: reports_def List.map_filter_def)

lemma reports_map [simp]: "reports (map (\<lambda>p. L_Message (STATE_CHANGE p)) ps) = ps"
  by (induction ps) simp_all

text \<open>The reports that were made and those that wait for the observer.\<close>

definition known :: "('x, 'r, 'v) hiplayer \<Rightarrow> player_state list" where
  "known s = reports (hp_calls s) @ hp_pending s"

definition unreported :: "player_state \<Rightarrow> bool" where
  "unreported p \<longleftrightarrow> p = PLAYER_IDLE \<or> p = PLAYER_PREPARING"

text \<open>
  A player moves by changing its state with a report, or by changing nothing the reports are about.
\<close>

inductive moves :: "('x, 'r, 'v) hiplayer \<Rightarrow> ('x, 'r, 'v) hiplayer \<Rightarrow> bool" where
  still: "hp_state t = hp_state s \<Longrightarrow> reports (hp_calls t) = reports (hp_calls s) \<Longrightarrow> hp_pending t = hp_pending s \<Longrightarrow> hp_started t = hp_started s \<Longrightarrow> moves s t"
| change: "moves s (UpdateStateNoLock p s)"
| trans: "moves s t \<Longrightarrow> moves t u \<Longrightarrow> moves s u"

lemma UpdateState_known:
  "known (UpdateStateNoLock p s) = known s @ (if hp_state s = p \<or> unreported p then [] else [p])"
  "hp_state (UpdateStateNoLock p s) = p" "hp_started (UpdateStateNoLock p s) = hp_started s"
  "hp_pending s = [] \<Longrightarrow> hp_started s \<Longrightarrow> hp_pending (UpdateStateNoLock p s) = []"
  by (auto simp: UpdateStateNoLock_def known_def unreported_def ask_def Let_def)

definition reported :: "('x, 'r, 'v) hiplayer \<Rightarrow> bool" where
  "reported s \<longleftrightarrow> unreported (hp_state s) \<or> known s \<noteq> [] \<and> last (known s) = hp_state s"

lemma moves_reported: "moves s t \<Longrightarrow> reported s \<Longrightarrow> reported t"
proof (induction rule: moves.induct)
  case (change s p)
  then show ?case by (auto simp: reported_def UpdateState_known)
qed (auto simp: reported_def known_def)

lemma moves_started: "moves s t \<Longrightarrow> hp_started t = hp_started s \<and> (hp_started s \<longrightarrow> hp_pending s = [] \<longrightarrow> hp_pending t = [])"
  by (induction rule: moves.induct) (auto simp: UpdateState_known)

lemma moves_known: "moves s t \<Longrightarrow> \<exists>ps. known t = known s @ ps"
proof (induction rule: moves.induct)
  case (still t s)
  then show ?case by (simp add: known_def)
qed (auto simp: UpdateState_known)

lemma moves_refl: "moves s s"
  by (rule moves.still) simp_all

lemma moves_ask: "moves s t \<Longrightarrow> reports cs = [] \<Longrightarrow> moves s (ask cs t)"
  by (rule moves.trans, assumption, rule moves.still) (simp_all add: ask_def)

lemma reports_tell [simp]:
  "reports [L_StopReport, L_ManualReport] = []" "reports [L_StartReport n] = []"
  "reports [L_Message (BUFFERING_UPDATE b)] = []" "reports [L_Message (POSITION_UPDATE n)] = []"
  "reports [L_Message (DURATION_UPDATE n)] = []" "reports [L_Message (BITRATE_COLLECT bs)] = []"
  "reports [L_Message (SEEKDONE n)] = []" "reports [L_Message (VOLUME_CHANGE n)] = []" "reports [L_Message EOS_MESSAGE] = []"
  "reports [L_Message SPEEDDONE] = []" "reports [L_Message (RESOLUTION_CHANGE n h)] = []" "reports [L_Message RENDERING_START] = []"
  "reports [L_Message LIVE_STREAM] = []" "reports [L_Message (INTERRUPT_EVENT k1 k2 k3)] = []"
  "reports [L_Message (STATE_CHANGE_BY_AUDIO p)] = []" "reports [L_Message (PLAYER_ERROR e)] = []"
  "reports [L_Message (PLAYER_ERROR_UNKNOWN e)] = []"
  by (simp_all add: reports_def List.map_filter_def)

lemma moves_tell: "moves s t \<Longrightarrow> reports [L_Message m] = [] \<Longrightarrow> moves s (tell m t)"
  unfolding tell_def by (rule moves_ask)

text \<open>Fields the reports are not about.\<close>

lemma moves_fields [intro]:
  "moves s t \<Longrightarrow> moves s (t\<lparr>hp_world := x\<rparr>)" "moves s t \<Longrightarrow> moves s (t\<lparr>hp_sync := y\<rparr>)" "moves s t \<Longrightarrow> moves s (t\<lparr>hp_stats := z\<rparr>)"
  "moves s t \<Longrightarrow> moves s (t\<lparr>hp_loop := b\<rparr>)" "moves s t \<Longrightarrow> moves s (t\<lparr>hp_duration := d\<rparr>)" "moves s t \<Longrightarrow> moves s (t\<lparr>hp_volume := v\<rparr>)"
  "moves s t \<Longrightarrow> moves s (t\<lparr>hp_url := u\<rparr>)" "moves s t \<Longrightarrow> moves s (t\<lparr>hp_initialized := b\<rparr>)"
  "moves s t \<Longrightarrow> moves s (t\<lparr>hp_width := i\<rparr>)" "moves s t \<Longrightarrow> moves s (t\<lparr>hp_height := i\<rparr>)"
  "moves s t \<Longrightarrow> moves s (t\<lparr>hp_notified := n\<rparr>)"
  by (rule moves.trans, assumption, rule moves.still; simp)+

lemma moves_update [intro]:
  "moves s t \<Longrightarrow> moves s (UpdateStateNoLock p t)" "moves s t \<Longrightarrow> moves s (OnStateChanged st t)" "moves s t \<Longrightarrow> moves s (error_unless r t)"
  by (auto simp: OnStateChanged_def error_unless_def Let_def intro: moves.trans [OF _ moves.change])

lemma moves_volume: "moves s t \<Longrightarrow> moves s (snd (SetVolumeToSink E v b t))"
  by (auto simp: SetVolumeToSink_def intro!: moves_tell split: prod.splits)

lemma moves_ready: "moves s t \<Longrightarrow> moves s (snd (hi_DoOnReady E t))"
  by (auto simp: hi_DoOnReady_def Let_def intro!: moves_tell moves_volume split: prod.splits option.splits)

lemma moves_event: "moves s t \<Longrightarrow> moves s (hi_OnEvent E e t)"
proof (cases e)
  case HE_READY
  assume "moves s t"
  from moves_ready [OF this, of E] show ?thesis
    by (auto simp: HE_READY HandleReadyEvent_def intro!: moves_tell split: prod.splits)
qed (auto simp: HandleErrorEvent_def hi_DoOnError_def HandleCompleteEvent_def hi_DoOnComplete_def HandlePluginErrorEvent_def Let_def
    intro!: moves_tell moves_ask moves_fields moves_update split: option.splits bool.splits)

lemma moves_events: "moves s t \<Longrightarrow> moves s (OnEvents E es t)"
  unfolding OnEvents_def by (induction es arbitrary: t) (auto intro: moves_event)

lemma moves_pass: "moves s t \<Longrightarrow> moves s (snd (pipeline_pass E p t))"
  by (auto simp: pipeline_pass_def intro!: moves_events split: prod.splits)

text \<open>The operations, once each; \<open>moves\<close> rules are tried backwards from what the operation returns.\<close>

lemmas moves_ops = moves_refl moves_tell moves_ask moves_fields moves_update moves_pass moves_volume

declare wait_prepared.simps [simp del]

text \<open>In the form with the result named.\<close>

lemma moves_of:
  "pipeline_pass E p t = (r, u) \<Longrightarrow> moves s t \<Longrightarrow> moves s u"
  "SetVolumeToSink E v b t = (r, u) \<Longrightarrow> moves s t \<Longrightarrow> moves s u"
  using moves_pass [of s t] moves_volume [of s t] by (metis snd_conv)+

lemma moves_Init: "hi_Init E t = (r, u) \<Longrightarrow> moves s t \<Longrightarrow> moves s u"
  by (auto simp: hi_Init_def Let_def intro!: moves_ops split: prod.splits if_splits)

lemma moves_DoSetSource: "hi_DoSetSource E src t = (r, u) \<Longrightarrow> moves s t \<Longrightarrow> moves s u"
  by (auto simp: hi_DoSetSource_def intro!: moves_ops split: prod.splits)

lemma moves_SetSource: "moves s t \<Longrightarrow> moves s (snd (hi_SetSource E src t))"
proof -
  assume m: "moves s t"
  obtain r1 s1 where i: "hi_Init E t = (r1, s1)" by force
  obtain r2 s2 where d: "hi_DoSetSource E src s1 = (r2, s2)" by force
  have "moves s s1" by (rule moves_Init [OF i m])
  moreover from this have "moves s s2" by (rule moves_DoSetSource [OF d])
  ultimately show ?thesis using d
    by (cases src; cases "r1 = EC_SUCCESS") (auto simp: hi_SetSource_def i intro!: moves_update moves_fields)
qed

lemma moves_begin: "begin_prepare E t = (r, u) \<Longrightarrow> moves s t \<Longrightarrow> moves s u"
proof -
  assume b: "begin_prepare E t = (r, u)" and m: "moves s t"
  let ?s1 = "if hp_state t = PLAYER_STOPPED then snd (hi_SetSource E (Some (hp_url t)) t) else t"
  have "moves s (tell (BUFFERING_UPDATE True) ?s1)" using m moves_SetSource [OF m] by (simp add: moves_tell)
  then have "moves s (snd (pipeline_pass E P_Prepare (tell (BUFFERING_UPDATE True) ?s1)))" by (rule moves_pass)
  then show ?thesis using b
    by (auto simp: begin_prepare_def hi_PrepareFilters_def Let_def intro!: moves_update split: prod.splits)
qed

lemma moves_wait: "wait_prepared E awake env t = Some u \<Longrightarrow> moves s t \<Longrightarrow> moves s u"
proof (induction env arbitrary: t awake)
  case Nil
  then show ?case by (simp add: wait_prepared.simps split: if_splits)
next
  case (Cons e env)
  then show ?case by (subst (asm) (2) wait_prepared.simps) (auto simp: Let_def split: if_splits intro: moves_event)
qed

lemma moves_Prepare: "hi_Prepare E env s = Some (r, t) \<Longrightarrow> moves s t"
proof -
  assume p: "hi_Prepare E env s = Some (r, t)"
  obtain ret s1 where b: "begin_prepare E s = (ret, s1)" by force
  have s1: "moves s s1" by (rule moves_begin [OF b moves_refl])
  have "moves s u" if "wait_prepared E True env (OnStateChanged ST_PREPARING s1) = Some u" for u
    by (rule moves_wait [OF that moves_update(2) [OF s1]])
  then show ?thesis using p b s1 by (auto simp: hi_Prepare_def intro: moves_refl intro!: moves_tell split: if_splits option.splits)
qed

lemma moves_PrepareAsync: "moves s (snd (hi_PrepareAsync E s))"
  by (auto simp: hi_PrepareAsync_def intro!: moves_refl moves_tell moves_update split: prod.splits intro: moves_begin)

lemma moves_DoSeek: "hi_DoSeek E h mode t = (r, u) \<Longrightarrow> moves s t \<Longrightarrow> moves s u"
  by (auto simp: hi_DoSeek_def Let_def intro!: moves_ops split: prod.splits if_splits)

lemma moves_DoPlay: "hi_DoPlay E now t = (r, u) \<Longrightarrow> moves s t \<Longrightarrow> moves s u" "hi_DoResume E now t = (r, u) \<Longrightarrow> moves s t \<Longrightarrow> moves s u"
  by (auto simp: hi_DoPlay_def hi_DoResume_def intro!: moves_update intro: moves_of(1) moves_fields split: prod.splits)

lemma moves_DoPause: "hi_DoPause E A now t = (r, u) \<Longrightarrow> moves s t \<Longrightarrow> moves s u"
  by (auto simp: hi_DoPause_def intro!: moves_update moves_fields intro: moves_of(1) split: prod.splits)

lemma moves_DoStop: "hi_DoStop E A t = (r, u) \<Longrightarrow> moves s t \<Longrightarrow> moves s u"
  by (auto simp: hi_DoStop_def intro!: moves_update moves_fields(2) intro: moves_of(1) moves_fields split: prod.splits)

lemma moves_Play: "moves s (snd (hi_Play E now s))"
proof -
  have "moves s (ask [L_StartReport 100] s)" by (auto intro: moves_ops)
  then show ?thesis
    by (auto simp: hi_Play_def Let_def intro!: moves_update split: prod.splits if_splits intro: moves_DoSeek moves_DoPlay)
qed

lemma moves_Pause: "moves s (snd (hi_Pause E A now s))"
  by (auto simp: hi_Pause_def intro!: moves_update moves_ask split: prod.splits intro: moves_DoPause moves_refl)

lemma moves_Stop: "moves s (snd (hi_Stop E A s))"
  by (auto simp: hi_Stop_def intro!: moves_update moves_ask split: prod.splits intro: moves_DoStop moves_refl)

lemma moves_Reset: "moves s (snd (hi_Reset E A s))"
proof -
  have "moves s (s\<lparr>hp_loop := False, hp_stats := []\<rparr>)" by (auto intro: moves_ops)
  then show ?thesis by (auto simp: hi_Reset_def intro!: moves_update split: prod.splits intro: moves_DoStop moves_refl)
qed

lemma moves_Seek: "moves s (snd (hi_Seek E ms mode s))"
  by (auto simp: hi_Seek_def Let_def split: prod.splits option.splits intro: moves_DoSeek moves_refl)

lemma moves_SetVolume: "moves s (snd (hi_SetVolume E l r s))"
  by (auto simp: hi_SetVolume_def Let_def split: prod.splits intro: moves_of moves_fields moves_refl)

lemma moves_SetPlaybackSpeed: "moves s (snd (hi_SetPlaybackSpeed E A now v s))"
  by (auto simp: hi_SetPlaybackSpeed_def Let_def intro!: moves_ops split: prod.splits)

lemma moves_SelectBitRate: "moves s (snd (hi_SelectBitRate E b s))"
  by (auto simp: hi_SelectBitRate_def Let_def intro!: moves_ops split: prod.splits)

section \<open>Runs\<close>

inductive hi_step ::
  "('x, 'v) engine \<Rightarrow> 'r time_arith \<Rightarrow> ('x, 'r, 'v) hiplayer \<Rightarrow> ('x, 'r, 'v) hiplayer \<Rightarrow> bool" for E A
where
  set_obs: "hi_step E A s (snd (hi_SetObs s))"
| set_source: "hi_step E A s (snd (hi_SetSource E src s))"
| prepare: "hi_Prepare E env s = Some (r, t) \<Longrightarrow> hi_step E A s t"
| prepare_async: "hi_step E A s (snd (hi_PrepareAsync E s))"
| play: "hi_step E A s (snd (hi_Play E now s))"
| pause: "hi_step E A s (snd (hi_Pause E A now s))"
| stop: "hi_step E A s (snd (hi_Stop E A s))"
| reset: "hi_step E A s (snd (hi_Reset E A s))"
| seek: "hi_step E A s (snd (hi_Seek E ms mode s))"
| set_volume: "hi_step E A s (snd (hi_SetVolume E l r s))"
| set_looping: "hi_step E A s (snd (hi_SetLooping b s))"
| set_speed: "hi_step E A s (snd (hi_SetPlaybackSpeed E A now v s))"
| select_bit_rate: "hi_step E A s (snd (hi_SelectBitRate E bits s))"
| event: "hi_step E A s (hi_OnEvent E e s)"

inductive hi_run ::
  "('x, 'v) engine \<Rightarrow> 'r time_arith \<Rightarrow> ('x, 'r, 'v) hiplayer \<Rightarrow> ('x, 'r, 'v) hiplayer \<Rightarrow> bool" for E A
where
  refl: "hi_run E A s s"
| step: "hi_run E A s t \<Longrightarrow> hi_step E A t u \<Longrightarrow> hi_run E A s u"

lemma hi_step_moves: "hi_step E A s t \<Longrightarrow> moves (s\<lparr>hp_started := hp_started t\<rparr>) t \<or> moves s t"
proof (induction rule: hi_step.induct)
  case (set_obs s)
  show ?case by (rule disjI1) (auto simp: hi_SetObs_def intro: moves_refl)
next
  case (set_looping b s)
  show ?case by (auto simp: hi_SetLooping_def intro: moves_ops)
next
  case (event e s)
  show ?case using moves_event [OF moves_refl] by blast
qed (simp_all add: moves_SetSource [OF moves_refl] moves_Prepare moves_PrepareAsync moves_Play moves_Pause moves_Stop moves_Reset moves_Seek
    moves_SetVolume moves_SetPlaybackSpeed moves_SelectBitRate)

lemma hi_run_reported:
  assumes "hi_run E A s t" "reported s"
  shows "reported t \<and> (hp_started s \<longrightarrow> hp_pending s = [] \<longrightarrow> hp_started t \<and> hp_pending t = [])"
  using assms
proof (induction rule: hi_run.induct)
  case (step s t u)
  have start: "reported (t\<lparr>hp_started := b\<rparr>) = reported t" for b by (simp add: reported_def known_def)
  from hi_step_moves [OF step(2)] show ?case
  proof
    assume m: "moves (t\<lparr>hp_started := hp_started u\<rparr>) u"
    have "hp_started t \<longrightarrow> hp_started u"
      using step(2) moves_started by (cases rule: hi_step.cases)
        (auto simp: hi_SetObs_def hi_SetLooping_def dest!: moves_Prepare moves_started
          simp: moves_started [OF moves_SetSource [OF moves_refl]] moves_started [OF moves_PrepareAsync] moves_started [OF moves_Play]
            moves_started [OF moves_Pause] moves_started [OF moves_Stop] moves_started [OF moves_Reset] moves_started [OF moves_Seek]
            moves_started [OF moves_SetVolume] moves_started [OF moves_SetPlaybackSpeed] moves_started [OF moves_SelectBitRate]
            moves_started [OF moves_event [OF moves_refl]])
    then show ?thesis using moves_reported [OF m] moves_started [OF m] step start by auto
  next
    assume "moves t u"
    then show ?thesis using moves_reported moves_started step by blast
  qed
qed simp

section \<open>Waiting\<close>

text \<open>An event that leaves the state of the player alone.\<close>

fun calm :: "hi_event \<Rightarrow> bool" where
  "calm (HE_ERROR _) = False"
| "calm HE_READY = False"
| "calm (HE_COMPLETE _) = False"
| "calm _ = True"

lemma calm_state [simp]: "calm e \<Longrightarrow> hp_state (hi_OnEvent E e s) = hp_state s"
  by (cases e) (auto simp: HandlePluginErrorEvent_def tell_def ask_def split: option.split bool.split)

lemma calm_sync [simp]: "calm e \<Longrightarrow> hp_sync (hi_OnEvent E e s) = hp_sync s" "calm e \<Longrightarrow> hp_world (hi_OnEvent E e s) = hp_world s"
  by (cases e; auto simp: HandlePluginErrorEvent_def tell_def ask_def split: option.split bool.split)+

lemma calm_events: "list_all calm es \<Longrightarrow> hp_state (OnEvents E es s) = hp_state s \<and> hp_sync (OnEvents E es s) = hp_sync s \<and>
    hp_world (OnEvents E es s) = hp_world s"
  unfolding OnEvents_def by (induction es arbitrary: s) auto

lemma tell_state [simp]: "hp_state (tell m s) = hp_state s" "hp_state (ask cs s) = hp_state s" "hp_world (tell m s) = hp_world s"
  "hp_sync (tell m s) = hp_sync s" "hp_calls (tell m s) = hp_calls s @ [L_Message m]" "hp_duration (tell m s) = hp_duration s"
  by (simp_all add: tell_def ask_def)

lemma UpdateState_state [simp]: "hp_state (UpdateStateNoLock p s) = p" "hp_state (OnStateChanged st s) = TransStateId2PlayerState st"
  by (simp_all add: UpdateState_known OnStateChanged_def Let_def)

lemma ready_prepared: "hp_state (hi_OnEvent E HE_READY s) = PLAYER_PREPARED"
  by (auto simp: HandleReadyEvent_def hi_DoOnReady_def Let_def split: prod.splits)

text \<open>The events that notify whoever waits for the state: \<open>HE_READY\<close>, and a completion may.\<close>

fun silent :: "hi_event \<Rightarrow> bool" where
  "silent HE_READY = False"
| "silent (HE_COMPLETE _) = False"
| "silent _ = True"

lemma silent_event: "silent e \<Longrightarrow> hp_notified (hi_OnEvent E e s) = hp_notified s"
  by (cases e) (auto simp: HandlePluginErrorEvent_def HandleErrorEvent_def hi_DoOnError_def UpdateStateNoLock_def
      tell_def ask_def Let_def split: option.split bool.split)

lemma volume_notified: "hp_notified (snd (SetVolumeToSink E v b s)) = hp_notified s"
  by (auto simp: SetVolumeToSink_def tell_def ask_def split: prod.splits)

lemma ready_notifies: "hp_notified (hi_OnEvent E HE_READY s) = Suc (hp_notified s)"
  using volume_notified [of E "hp_volume s" False s]
  by (auto simp: HandleReadyEvent_def hi_DoOnReady_def OnStateChanged_def UpdateStateNoLock_def tell_def ask_def Let_def
      split: prod.splits option.splits)

lemma wait_asleep: "list_all silent es \<Longrightarrow> wait_prepared E False es s = None"
  by (induction es arbitrary: s) (simp_all add: wait_prepared.simps [of E] silent_event del: hi_OnEvent.simps)

lemma wait_woken: "list_all silent es \<Longrightarrow>
    \<exists>t. wait_prepared E False (es @ HE_READY # rest) s = Some t \<and> hp_state t = PLAYER_PREPARED"
proof (induction es arbitrary: s)
  case Nil
  have "wait_prepared E True rest (hi_OnEvent E HE_READY s) = Some (hi_OnEvent E HE_READY s)"
    by (subst wait_prepared.simps) (simp add: ready_prepared del: hi_OnEvent.simps)
  then show ?case using ready_prepared [of E s] ready_notifies [of E s]
    by (subst wait_prepared.simps) (simp del: hi_OnEvent.simps)
next
  case (Cons e es)
  then show ?case by (subst wait_prepared.simps) (simp add: silent_event del: hi_OnEvent.simps)
qed

lemma wait_begins: "hp_state s = PLAYER_PREPARING \<Longrightarrow> wait_prepared E True es s = wait_prepared E False es s"
  by (simp add: wait_prepared.simps [of E])

section \<open>Finished sinks\<close>

lemma stats_receive: "map fst (ms_ReceiveComplete src st) = map fst st"
  by (induction src st rule: ms_ReceiveComplete.induct) auto

lemma stats_flags: "distinct (map fst st) \<Longrightarrow> set (ms_ReceiveComplete src st) = (\<lambda>(r, c). (r, c \<or> r = src)) ` set st"
proof (induction src st rule: ms_ReceiveComplete.induct)
  case (2 src r c st)
  then have "r = src \<Longrightarrow> (\<lambda>(r, c). (r, c \<or> r = src)) ` set st = set st" by (force simp: image_iff)
  then show ?case using 2 by auto
qed simp

definition waiting_for :: "media_stats \<Rightarrow> string set" where
  "waiting_for st = fst ` {rc \<in> set st. \<not> snd rc}"

lemma waiting_receive: "distinct (map fst st) \<Longrightarrow> waiting_for (ms_ReceiveComplete src st) = waiting_for st - {src}"
  by (auto simp: waiting_for_def stats_flags image_iff) force

lemma all_received: "IsEventCompleteAllReceived st \<longleftrightarrow> waiting_for st = {}"
  by (force simp: IsEventCompleteAllReceived_def waiting_for_def list_all_iff)

lemma complete_rest: "hp_state s = PLAYER_PLAYBACK_COMPLETE \<Longrightarrow> \<not> hp_loop s \<Longrightarrow>
   hp_state (fold (hi_OnEvent E) (map HE_COMPLETE cs) s) = PLAYER_PLAYBACK_COMPLETE"
proof (induction cs arbitrary: s)
  case (Cons c cs)
  have "hp_state (hi_OnEvent E (HE_COMPLETE c) s) = PLAYER_PLAYBACK_COMPLETE \<and> \<not> hp_loop (hi_OnEvent E (HE_COMPLETE c) s)"
    using Cons.prems by (simp add: HandleCompleteEvent_def hi_DoOnComplete_def OnStateChanged_def UpdateStateNoLock_def ask_def Let_def)
  then show ?case using Cons.IH by simp
qed simp

lemma complete_state: "hp_state (hi_OnEvent E (HE_COMPLETE c) s) =
    (if waiting_for (ms_ReceiveComplete c (hp_stats s)) = {} \<and> \<not> hp_loop s then PLAYER_PLAYBACK_COMPLETE else hp_state s)"
  by (simp add: HandleCompleteEvent_def hi_DoOnComplete_def all_received Let_def)

lemma complete_loop: "hp_loop (hi_OnEvent E (HE_COMPLETE c) s) = hp_loop s"
  by (simp add: HandleCompleteEvent_def hi_DoOnComplete_def tell_def ask_def OnStateChanged_def UpdateStateNoLock_def Let_def)

lemma complete_stats: "waiting_for (ms_ReceiveComplete c (hp_stats s)) \<noteq> {} \<Longrightarrow>
    hp_stats (hi_OnEvent E (HE_COMPLETE c) s) = ms_ReceiveComplete c (hp_stats s)"
  by (simp add: HandleCompleteEvent_def all_received Let_def)

lemma complete_run:
  assumes "distinct (map fst (hp_stats s))" "\<not> hp_loop s" "hp_state s \<noteq> PLAYER_PLAYBACK_COMPLETE" "cs \<noteq> []"
  shows "hp_state (fold (hi_OnEvent E) (map HE_COMPLETE cs) s) = PLAYER_PLAYBACK_COMPLETE \<longleftrightarrow> waiting_for (hp_stats s) \<subseteq> set cs"
  using assms
proof (induction cs arbitrary: s)
  case (Cons c cs)
  let ?s = "hi_OnEvent E (HE_COMPLETE c) s"
  have w: "waiting_for (ms_ReceiveComplete c (hp_stats s)) = waiting_for (hp_stats s) - {c}" by (rule waiting_receive [OF Cons.prems(1)])
  show ?case
  proof (cases "waiting_for (hp_stats s) \<subseteq> {c}")
    case True
    then have "hp_state ?s = PLAYER_PLAYBACK_COMPLETE" using w Cons.prems(2) by (simp only: complete_state) auto
    then have "hp_state (fold (hi_OnEvent E) (map HE_COMPLETE cs) ?s) = PLAYER_PLAYBACK_COMPLETE"
      by (rule complete_rest) (simp only: complete_loop Cons.prems(2), simp)
    then show ?thesis using True by (auto simp del: hi_OnEvent.simps)
  next
    case False
    then have ne: "waiting_for (ms_ReceiveComplete c (hp_stats s)) \<noteq> {}" using w by blast
    have st: "hp_stats ?s = ms_ReceiveComplete c (hp_stats s)" by (rule complete_stats [OF ne])
    have state: "hp_state ?s \<noteq> PLAYER_PLAYBACK_COMPLETE" using ne Cons.prems(3) by (simp only: complete_state) auto
    show ?thesis
    proof (cases "cs = []")
      case True
      then show ?thesis using state False by (simp del: hi_OnEvent.simps)
    next
      case more: False
      have "distinct (map fst (hp_stats ?s))" "\<not> hp_loop ?s"
        using Cons.prems(1,2) by (simp_all only: st stats_receive complete_loop not_False_eq_True)
      from Cons.IH [OF this state more] show ?thesis unfolding st w by (auto simp del: hi_OnEvent.simps)
    qed
  qed
qed simp

lemma sink_wait_fields:
  "sm_isSeeking (fold (sink_WaitAllPrerolled b) is s) = sm_isSeeking s"
  "sm_seekingMedia (fold (sink_WaitAllPrerolled b) is s) = sm_seekingMedia s"
  by (induction "is" arbitrary: s) (simp_all add: sink_WaitAllPrerolled_def upd_sink_def)

lemma sm_wait_seeking:
  "sm_isSeeking (SetAllSyncShouldWaitNoLock s) = sm_isSeeking s" "sm_seekingMedia (SetAllSyncShouldWaitNoLock s) = sm_seekingMedia s"
  by (simp_all add: SetAllSyncShouldWaitNoLock_def Let_def sink_wait_fields)

section \<open>Properties\<close>

text \<open>
  C15. The application knows the state of its player: in every run of operations and events the last
  report of a state, made or waiting for the observer, is the player's state, but for the idle and
  the preparing state, which are not reported; and nothing waits when the observer is there from the
  start.
\<close>

theorem application_knows_state:
  assumes "hi_run E A ((new_player vol sync x)\<lparr>hp_started := b\<rparr>) s"
  shows "(unreported (hp_state s) \<or> known s \<noteq> [] \<and> last (known s) = hp_state s) \<and> (b \<longrightarrow> hp_pending s = [])"
proof -
  have "reported ((new_player vol sync x)\<lparr>hp_started := b\<rparr>)" by (simp add: reported_def unreported_def new_player_def)
  from hi_run_reported [OF assms this] show ?thesis by (auto simp: reported_def new_player_def)
qed

text \<open>An engine whose calls all succeed.\<close>

definition ex_engine :: "(nat, int) engine" where
  "ex_engine = \<lparr>en_AddFilters = \<lambda>x. (EC_SUCCESS, x), en_LinkFilters = \<lambda>x. (EC_SUCCESS, x), en_RemoveFilterChain = \<lambda>x. x,
     en_SetSource = \<lambda>u x. (EC_SUCCESS, x), en_pass = \<lambda>p x. (EC_SUCCESS, [], x + 1), en_StopTask = \<lambda>x. x,
     en_SeekToTime = \<lambda>t x. (EC_SUCCESS, x), en_SeekTo = \<lambda>t m r x. (EC_SUCCESS, r, x), en_seekable = \<lambda>x. True,
     en_SetVolume = \<lambda>v x. (EC_SUCCESS, x), en_globalDuration = \<lambda>x. Some 5000000000, en_streamDurations = \<lambda>x. [],
     en_bitRates = \<lambda>x. (EC_SUCCESS, []), en_SelectBitRate = \<lambda>b x. (EC_SUCCESS, x), en_SetSpeed = \<lambda>v x. x,
     vo_inRange = \<lambda>v. 0 \<le> v \<and> v \<le> 100, vo_tiny = \<lambda>v. v = 0, vo_mean = \<lambda>a b. (a + b) div 2, vo_normal = \<lambda>v. v, vo_set = \<lambda>v. v \<ge> 0,
     vo_to_int32 = \<lambda>v. v\<rparr>"

definition ex_arith :: "int time_arith" where
  "ex_arith = \<lparr>ar_one = 1, ar_neg = \<lambda>r. r < 0, ar_zero = \<lambda>r. r = 0, ar_media = \<lambda>a d r. a + d * r, ar_clock = \<lambda>a d r. a + d div r\<rparr>"

definition ex_sync :: "int sync_manager" where
  "ex_sync = (new_sync ex_arith (\<lambda>_. \<lparr>ss_priority = 0, ss_reported = False, ss_wait = False\<rparr>))\<lparr>sm_minStart := 0, sm_maxEnd := 9000000000\<rparr>"

theorem application_knows_state_witness:
  "last (known (snd (hi_SetSource ex_engine (Some ''file'') ((new_player 1 ex_sync 0)\<lparr>hp_started := True\<rparr>)))) = PLAYER_INITIALIZED"
proof -
  let ?new = "(new_player 1 ex_sync 0)\<lparr>hp_started := True\<rparr>" and ?s = "snd (hi_SetSource ex_engine (Some ''file'') ((new_player 1 ex_sync 0)\<lparr>hp_started := True\<rparr>))"
  have "hi_step ex_engine ex_arith ?new ?s" by (rule hi_step.set_source)
  from application_knows_state [OF hi_run.step [OF hi_run.refl this]] have "unreported (hp_state ?s) \<or> last (known ?s) = hp_state ?s" by blast
  moreover have "hp_state ?s = PLAYER_INITIALIZED" by (simp add: hi_SetSource_def hi_Init_def hi_DoSetSource_def ex_engine_def error_unless_def new_player_def Let_def)
  ultimately show ?thesis by (simp add: unreported_def)
qed

text \<open>
  C16. Preparing waits for the pipeline to be ready, and for nothing else: after the filters were
  prepared, \<open>Prepare\<close> returns success with the player prepared when the ready event arrives,
  whatever events but completions come before, errors included, and whatever comes after. But the
  event has to come while it waits: as long as neither it nor a completion comes \<open>Prepare\<close> does
  not return, not after an error, and not when the pipeline reported that it was ready, or anything
  else, while the filters were being prepared. (A thread that is not notified stays asleep; the
  prepared player was initialized, not stopped.)
\<close>

theorem prepare_waits_for_ready:
  assumes "hp_state s = PLAYER_INITIALIZED" "en_pass E P_Prepare (hp_world s) = (EC_SUCCESS, es, x)" "list_all silent us"
  shows "(\<exists>t. hi_Prepare E (us @ HE_READY # rest) s = Some (MSERR_OK, t) \<and> hp_state t = PLAYER_PREPARED) \<and> hi_Prepare E us s = None"
proof -
  let ?s1 = "OnEvents E es ((tell (BUFFERING_UPDATE True) s)\<lparr>hp_world := x\<rparr>)"
  have b: "begin_prepare E s = (EC_SUCCESS, ?s1)"
    using assms(1,2) by (simp add: begin_prepare_def hi_PrepareFilters_def pipeline_pass_def error_unless_def Let_def)
  have p: "hp_state (OnStateChanged ST_PREPARING ?s1) = PLAYER_PREPARING" by simp
  let ?s2 = "OnStateChanged ST_PREPARING ?s1"
  obtain t where "wait_prepared E False (us @ HE_READY # rest) ?s2 = Some t" "hp_state t = PLAYER_PREPARED"
    using wait_woken [OF assms(3)] by blast
  moreover have "wait_prepared E False us ?s2 = None" by (rule wait_asleep [OF assms(3)])
  ultimately show ?thesis using b assms(1) by (simp add: hi_Prepare_def may_prepare_def wait_begins [OF p])
qed

theorem prepare_waits_for_ready_witness:
  "(\<exists>t. hi_Prepare ex_engine ([HE_ERROR None] @ HE_READY # []) ((new_player 1 ex_sync 0)\<lparr>hp_state := PLAYER_INITIALIZED\<rparr>) =
      Some (MSERR_OK, t) \<and> hp_state t = PLAYER_PREPARED) \<and>
   hi_Prepare ex_engine [HE_ERROR None] ((new_player 1 ex_sync 0)\<lparr>hp_state := PLAYER_INITIALIZED\<rparr>) = None \<and>
   hi_Prepare (ex_engine\<lparr>en_pass := \<lambda>p x. (EC_SUCCESS, [HE_READY], x)\<rparr>) [HE_IS_LIVE_STREAM]
      ((new_player 1 ex_sync 0)\<lparr>hp_state := PLAYER_INITIALIZED\<rparr>) = None"
proof -
  let ?s = "(new_player 1 ex_sync 0)\<lparr>hp_state := PLAYER_INITIALIZED\<rparr>" and ?E = "ex_engine\<lparr>en_pass := \<lambda>p x. (EC_SUCCESS, [HE_READY], x)\<rparr>"
  have s: "hp_state ?s = PLAYER_INITIALIZED" by simp
  have e: "en_pass ex_engine P_Prepare (hp_world ?s) = (EC_SUCCESS, [], 1)" "en_pass ?E P_Prepare (hp_world ?s) = (EC_SUCCESS, [HE_READY], 0)"
    by (simp_all add: ex_engine_def new_player_def)
  have c: "list_all silent [HE_ERROR None]" "list_all silent [HE_IS_LIVE_STREAM]" by simp_all
  show ?thesis using prepare_waits_for_ready [OF s e(1) c(1), of "[]"] prepare_waits_for_ready [OF s e(2) c(2)] by blast
qed

text \<open>
  A failed asynchronous preparation leaves the player preparing: \<open>PrepareAsync\<close> returns the
  error, but puts the preparing state over the error state, and from there the player can neither be
  prepared again nor asked for its duration, nor does the application hear of a state but the error.
\<close>

theorem failed_async_prepare_hides_error:
  assumes "may_prepare s" "begin_prepare E s = (ret, s1)" "ret \<noteq> EC_SUCCESS"
  shows "case hi_PrepareAsync E s of (code, t) \<Rightarrow> code = TransErrorCode ret \<and> hp_state t = PLAYER_PREPARING \<and>
    known t = known s1 \<and> hi_Prepare E env t = Some (MSERR_INVALID_OPERATION, t) \<and>
    hi_PrepareAsync E t = (MSERR_INVALID_OPERATION, t) \<and> hi_GetDuration t = (MSERR_INVALID_STATE, 0)"
proof -
  let ?t = "tell (BUFFERING_UPDATE False) (OnStateChanged ST_PREPARING s1)"
  have t: "hi_PrepareAsync E s = (TransErrorCode ret, ?t)" using assms(1,2) by (simp add: hi_PrepareAsync_def)
  have "known ?t = known (OnStateChanged ST_PREPARING s1)" by (simp add: known_def tell_def ask_def)
  moreover have "known (UpdateStateNoLock PLAYER_PREPARING s1) = known s1" by (simp add: UpdateState_known unreported_def)
  ultimately have "known ?t = known s1" by (simp add: OnStateChanged_def known_def Let_def)
  then show ?thesis unfolding t by (simp add: hi_Prepare_def hi_PrepareAsync_def may_prepare_def hi_GetDuration_def)
qed

theorem failed_async_prepare_hides_error_witness:
  "let E = ex_engine\<lparr>en_pass := \<lambda>p x. (EC_ERROR_NO_MEMORY, [], x)\<rparr>; s = (new_player 1 ex_sync 0)\<lparr>hp_state := PLAYER_INITIALIZED\<rparr>
   in case hi_PrepareAsync E s of (code, t) \<Rightarrow> code = MSERR_EXT_NO_MEMORY \<and> hp_state t = PLAYER_PREPARING"
proof -
  let ?E = "ex_engine\<lparr>en_pass := \<lambda>p x. (EC_ERROR_NO_MEMORY, [], x)\<rparr>" and ?s = "(new_player 1 ex_sync 0)\<lparr>hp_state := PLAYER_INITIALIZED\<rparr>"
  have m: "may_prepare ?s" by (simp add: may_prepare_def)
  obtain s1 where b: "begin_prepare ?E ?s = (EC_ERROR_NO_MEMORY, s1)"
    by (simp add: begin_prepare_def hi_PrepareFilters_def pipeline_pass_def OnEvents_def)
  obtain code t where r: "hi_PrepareAsync ?E ?s = (code, t)" by force
  show ?thesis using failed_async_prepare_hides_error [OF m b, of "[]"] r by simp
qed

text \<open>
  C19. A seek lands within the media: with a known duration and a source that can seek, a seek to any
  number of milliseconds goes to that time, or to the start or the end of the media when it is
  outside; the application is told this position, and the media clock stands where the source or
  the demuxer really went, if that is within the range the clock knows.
\<close>

theorem seek_lands_within:
  assumes "\<not> unreported (hp_state s)" "0 \<le> hp_duration s" "hp_duration s < 2 ^ 31 * 1000000" "en_seekable E (hp_world s)"
    and "ms = max 0 (min mSeconds (HstTime2Ms (hp_duration s)))"
    and "en_pass E P_FlushStart (hp_world s) = (r1, es1, x1)" "list_all calm es1"
    and "(case en_SeekToTime E (ms * 1000000) x1 of (r, y) \<Rightarrow>
           if r \<noteq> EC_SUCCESS then en_SeekTo E (ms * 1000000) (Transform2SeekMode mode) (ms * 1000000) y
           else (r, ms * 1000000, y)) = (EC_SUCCESS, real, x2)"
    and "en_pass E P_FlushEnd x2 = (r3, es3, x3)" "list_all calm es3"
  shows "case hi_Seek E mSeconds mode s of (code, t) \<Rightarrow>
    code = MSERR_OK \<and> hp_state t = hp_state s \<and> 0 \<le> ms \<and> ms * 1000000 \<le> hp_duration s \<and>
    (\<exists>cs. hp_calls t = cs @ [L_Message (SEEKDONE ms), L_Message (POSITION_UPDATE ms)]) \<and>
    (sm_minStart (hp_sync s) \<noteq> HST_TIME_NONE \<longrightarrow> sm_maxEnd (hp_sync s) \<noteq> HST_TIME_NONE \<longrightarrow>
      sm_minStart (hp_sync s) \<le> real \<longrightarrow> real \<le> sm_maxEnd (hp_sync s) \<longrightarrow> GetMediaTimeNow A now (hp_sync t) = real)"
proof -
  have dur: "HstTime2Ms (hp_duration s) = hp_duration s div 1000000" using assms(2) by (simp add: HstTime2Ms_def)
  have d: "0 \<le> hp_duration s div 1000000" "hp_duration s div 1000000 < 2 ^ 31" using assms(2,3) by simp_all
  have small: "to_i32 k = k" if "0 \<le> k" "k < 2 ^ 31" for k using that by (simp add: to_i32_def)
  have ms: "0 \<le> ms" "ms \<le> hp_duration s div 1000000" using assms(5) d dur by simp_all
  have get: "hi_GetDuration s = (MSERR_OK, hp_duration s div 1000000)"
    using assms(1,2) small [OF d] by (simp add: hi_GetDuration_def unreported_def dur)
  have clamp: "(let ms1 = if mSeconds \<ge> hp_duration s div 1000000 then hp_duration s div 1000000 else mSeconds
      in if ms1 < 0 then 0 else ms1) = ms" using assms(5) d dur by (simp add: Let_def max_def min_def)
  have hst: "Ms2HstTime ms = Some (ms * 1000000)" using ms d by (simp add: Ms2HstTime_def)
  let ?s1 = "OnEvents E es1 (s\<lparr>hp_world := x1\<rparr>)"
  have s1: "hp_state ?s1 = hp_state s" "hp_sync ?s1 = hp_sync s" "hp_world ?s1 = x1" using calm_events [OF assms(7), of E "s\<lparr>hp_world := x1\<rparr>"] by simp_all
  let ?s3 = "?s1\<lparr>hp_world := x2, hp_sync := snd (sm_Seek real (hp_sync s))\<rparr>"
  let ?s4 = "OnEvents E es3 (?s3\<lparr>hp_world := x3\<rparr>)"
  have s4: "hp_state ?s4 = hp_state s" "hp_sync ?s4 = snd (sm_Seek real (hp_sync s))"
    using calm_events [OF assms(10), of E "?s3\<lparr>hp_world := x3\<rparr>"] s1 by simp_all
  have pos: "to_i32 (HstTime2Ms (ms * 1000000)) = ms" using ms d small [of ms] by (simp add: HstTime2Ms_def)
  obtain r y where r: "en_SeekToTime E (ms * 1000000) x1 = (r, y)" by force
  have "hi_DoSeek E (ms * 1000000) (Transform2SeekMode mode) s = (EC_SUCCESS, tell (POSITION_UPDATE ms) (tell (SEEKDONE ms) ?s4))"
    using ms(1) assms(6,8,9) s1 pos r
    by (cases "r = EC_SUCCESS") (simp_all add: hi_DoSeek_def pipeline_pass_def Let_def)
  then have seek: "hi_Seek E mSeconds mode s = (MSERR_OK, tell (POSITION_UPDATE ms) (tell (SEEKDONE ms) ?s4))"
    using get clamp hst assms(4) by (simp add: hi_Seek_def Let_def)
  have "GetMediaTimeNow A now (snd (sm_Seek real (hp_sync s))) = real"
    if "sm_minStart (hp_sync s) \<noteq> HST_TIME_NONE" "sm_maxEnd (hp_sync s) \<noteq> HST_TIME_NONE"
      "sm_minStart (hp_sync s) \<le> real" "real \<le> sm_maxEnd (hp_sync s)"
    using that by (simp add: sm_Seek_def GetMediaTimeNow_def ResetTimeAnchorNoLock_def SimpleUpdateTimeAnchor_def sm_wait_seeking)
  then show ?thesis unfolding seek using s4 ms assms(2) by simp
qed

theorem seek_lands_within_witness:
  "case hi_Seek ex_engine 7000 PSEEK_CLOSEST ((new_player 1 ex_sync 0)\<lparr>hp_state := PLAYER_STARTED, hp_duration := 5000000000\<rparr>) of (code, t) \<Rightarrow>
     code = MSERR_OK \<and> GetMediaTimeNow ex_arith 99 (hp_sync t) = 5000000000"
proof -
  let ?s = "(new_player 1 ex_sync 0)\<lparr>hp_state := PLAYER_STARTED, hp_duration := 5000000000\<rparr>"
  have "case hi_Seek ex_engine 7000 PSEEK_CLOSEST ?s of (code, t) \<Rightarrow>
    code = MSERR_OK \<and> hp_state t = hp_state ?s \<and> (0 :: int) \<le> 5000 \<and> 5000 * 1000000 \<le> hp_duration ?s \<and>
    (\<exists>cs. hp_calls t = cs @ [L_Message (SEEKDONE 5000), L_Message (POSITION_UPDATE 5000)]) \<and>
    (sm_minStart (hp_sync ?s) \<noteq> HST_TIME_NONE \<longrightarrow> sm_maxEnd (hp_sync ?s) \<noteq> HST_TIME_NONE \<longrightarrow>
      sm_minStart (hp_sync ?s) \<le> 5000000000 \<longrightarrow> 5000000000 \<le> sm_maxEnd (hp_sync ?s) \<longrightarrow> GetMediaTimeNow ex_arith 99 (hp_sync t) = 5000000000)"
    using seek_lands_within [of ?s ex_engine 5000 7000 EC_SUCCESS "[]" 1 PSEEK_CLOSEST 5000000000 1 EC_SUCCESS "[]" 2 ex_arith 99]
    by (simp add: unreported_def ex_engine_def new_player_def HstTime2Ms_def)
  then show ?thesis by (simp add: new_player_def ex_sync_def split: prod.splits)
qed

text \<open>
  Playback is complete with the last sink: when every sink has still to finish, the player is in
  the complete state after any number of complete events exactly when every sink has sent one, in
  whatever order and however often, unless it loops.
\<close>

theorem playback_completes_with_last_sink:
  assumes "hp_stats s = map (\<lambda>r. (r, False)) ns" "distinct ns" "\<not> hp_loop s" "hp_state s \<noteq> PLAYER_PLAYBACK_COMPLETE" "cs \<noteq> []"
  shows "hp_state (OnEvents E (map HE_COMPLETE cs) s) = PLAYER_PLAYBACK_COMPLETE \<longleftrightarrow> set ns \<subseteq> set cs"
proof -
  have "distinct (map fst (hp_stats s))" using assms(1,2) by (simp add: comp_def)
  moreover have "waiting_for (hp_stats s) = set ns" using assms(1) by (force simp: waiting_for_def)
  ultimately show ?thesis using complete_run [of s cs E] assms(3-5) unfolding OnEvents_def by blast
qed

theorem playback_completes_with_last_sink_witness:
  "hp_state (OnEvents ex_engine (map HE_COMPLETE [''videoSink'', ''audioSink'']) ((new_player 1 ex_sync 0)
     \<lparr>hp_state := PLAYER_STARTED, hp_stats := map (\<lambda>r. (r, False)) [''audioSink'', ''videoSink'']\<rparr>)) = PLAYER_PLAYBACK_COMPLETE"
proof -
  let ?s = "(new_player 1 ex_sync 0)\<lparr>hp_state := PLAYER_STARTED, hp_stats := map (\<lambda>r. (r, False)) [''audioSink'', ''videoSink'']\<rparr>"
  have "hp_stats ?s = map (\<lambda>r. (r, False)) [''audioSink'', ''videoSink'']" "distinct [''audioSink'', ''videoSink'']" "\<not> hp_loop ?s"
    "hp_state ?s \<noteq> PLAYER_PLAYBACK_COMPLETE" "[''videoSink'', ''audioSink''] \<noteq> []" by (simp_all add: new_player_def)
  from playback_completes_with_last_sink [OF this] show ?thesis by simp
qed

end
