(* ===== verification/Callback_Looper.thy ===== *)
theory Callback_Looper
  imports Hst_Prelude
begin

text \<open>
  The thread that calls the observer of a player
  (engine/scene/player/standard/hiplayer_callback_looper.cpp): a queue of events ordered by the time
  they are due, and the reports of the playback position, which put themselves into the queue again.

  Times are milliseconds; the system clock is the argument \<open>now\<close> of the operations that read it, and
  the position is what the player answers when asked. What the observer was called with is the list
  \<open>lp_seen\<close>. \<open>Next\<close> answers \<open>None\<close> where it waits.
\<close>

section \<open>State\<close>

datatype 'm what = WHAT_NONE | WHAT_MEDIA_PROGRESS | WHAT_MESSAGE 'm

text \<open>Of the four kinds of events the messages are two, information and errors; \<open>'m\<close> tells them apart.\<close>

record 'm lp_event =
  le_what :: "'m what"
  le_when :: int

datatype 'm report = R_Position int | R_Message 'm

record 'm looper =
  lp_queue :: "'m lp_event list"
  lp_quit :: bool
  lp_taskStarted :: bool
  lp_report :: bool
  lp_interval :: int
  lp_obs :: bool
  lp_seen :: "'m report list"

definition new_looper :: "'m looper" where
  "new_looper = \<lparr>lp_queue = [], lp_quit = False, lp_taskStarted = False, lp_report = False, lp_interval = 100,
     lp_obs = False, lp_seen = []\<rparr>"

section \<open>The queue\<close>

fun insert_event :: "'m lp_event \<Rightarrow> 'm lp_event list \<Rightarrow> 'm lp_event list" where
  "insert_event e [] = [e]"
| "insert_event e (x # q) = (if le_when x > le_when e then e # x # q else x # insert_event e q)"

definition Enqueue :: "'m lp_event \<Rightarrow> 'm looper \<Rightarrow> 'm looper" where
  "Enqueue e l = (if lp_quit l then l else l\<lparr>lp_queue := insert_event e (lp_queue l)\<rparr>)"

definition Next :: "int \<Rightarrow> 'm looper \<Rightarrow> ('m lp_event \<times> 'm looper) option" where
  "Next now l =
     (if lp_quit l then Some (\<lparr>le_what = WHAT_NONE, le_when = 0\<rparr>, l)
      else case lp_queue l of [] \<Rightarrow> None
      | e # q \<Rightarrow> if le_when e - now \<le> 0 then Some (e, l\<lparr>lp_queue := q\<rparr>) else None)"

definition Quit :: "'m looper \<Rightarrow> 'm looper" where "Quit l = l\<lparr>lp_quit := True\<rparr>"

section \<open>Operations\<close>

definition lp_Stop :: "'m looper \<Rightarrow> 'm looper" where
  "lp_Stop l = (if lp_taskStarted l then (Quit l)\<lparr>lp_taskStarted := False\<rparr> else l)"

definition StartWithPlayerEngineObs :: "bool \<Rightarrow> 'm looper \<Rightarrow> 'm looper" where
  "StartWithPlayerEngineObs obs l =
     (let l1 = l\<lparr>lp_obs := obs\<rparr> in if \<not> lp_taskStarted l1 then l1\<lparr>lp_taskStarted := True\<rparr> else l1)"

definition progress_at :: "int \<Rightarrow> 'm lp_event" where "progress_at t = \<lparr>le_what = WHAT_MEDIA_PROGRESS, le_when = t\<rparr>"

definition StartReportMediaProgress :: "int \<Rightarrow> int \<Rightarrow> 'm looper \<Rightarrow> 'm looper" where
  "StartReportMediaProgress updateIntervalMs now l =
     (let l1 = l\<lparr>lp_interval := updateIntervalMs\<rparr>
      in if lp_report l1 then l1 else Enqueue (progress_at now) (l1\<lparr>lp_report := True\<rparr>))"

definition ManualReportMediaProgressOnce :: "int \<Rightarrow> 'm looper \<Rightarrow> 'm looper" where
  "ManualReportMediaProgressOnce now l = Enqueue (progress_at now) l"

definition StopReportMediaProgress :: "'m looper \<Rightarrow> 'm looper" where
  "StopReportMediaProgress l = l\<lparr>lp_report := False\<rparr>"

definition DoReportMediaProgress :: "int option \<Rightarrow> int \<Rightarrow> 'm looper \<Rightarrow> 'm looper" where
  "DoReportMediaProgress position now l =
     (let l1 = (if lp_obs l then (case position of Some p \<Rightarrow> l\<lparr>lp_seen := lp_seen l @ [R_Position p]\<rparr> | None \<Rightarrow> l) else l)
      in if lp_report l1 then Enqueue (progress_at (now + lp_interval l1)) l1 else l1)"

text \<open>\<open>OnInfo\<close> and \<open>OnError\<close>.\<close>

definition OnMessage :: "'m \<Rightarrow> int \<Rightarrow> 'm looper \<Rightarrow> 'm looper" where
  "OnMessage m now l = Enqueue \<lparr>le_what = WHAT_MESSAGE m, le_when = now\<rparr> l"

text \<open>\<open>DoReportInfo\<close> and \<open>DoReportError\<close>.\<close>

definition DoReportMessage :: "'m \<Rightarrow> 'm looper \<Rightarrow> 'm looper" where
  "DoReportMessage m l = (if lp_obs l then l\<lparr>lp_seen := lp_seen l @ [R_Message m]\<rparr> else l)"

definition LoopOnce :: "int option \<Rightarrow> int \<Rightarrow> 'm looper \<Rightarrow> 'm looper option" where
  "LoopOnce position now l =
     (case Next now l of None \<Rightarrow> None
      | Some (item, l1) \<Rightarrow>
          Some (case le_what item of
             WHAT_MEDIA_PROGRESS \<Rightarrow> DoReportMediaProgress position now l1
           | WHAT_MESSAGE m \<Rightarrow> DoReportMessage m l1
           | WHAT_NONE \<Rightarrow> l1))"

section \<open>Runs\<close>

text \<open>
  What can happen: a message is sent, reporting is started, asked for once or stopped, and the
  thread goes round once. Each happens at a time.
\<close>

datatype 'm lp_action = Send 'm | Start_Report int | Manual_Report | Stop_Report | Loop "int option"

fun lp_act :: "'m lp_action \<times> int \<Rightarrow> 'm looper \<Rightarrow> 'm looper" where
  "lp_act (Send m, now) l = OnMessage m now l"
| "lp_act (Start_Report n, now) l = StartReportMediaProgress n now l"
| "lp_act (Manual_Report, now) l = ManualReportMediaProgressOnce now l"
| "lp_act (Stop_Report, now) l = StopReportMediaProgress l"
| "lp_act (Loop p, now) l = (case LoopOnce p now l of None \<Rightarrow> l | Some l1 \<Rightarrow> l1)"

definition lp_run :: "('m lp_action \<times> int) list \<Rightarrow> 'm looper \<Rightarrow> 'm looper" where
  "lp_run as l = fold lp_act as l"

definition sent :: "('m lp_action \<times> int) list \<Rightarrow> 'm list" where
  "sent as = List.map_filter (\<lambda>a. case fst a of Send m \<Rightarrow> Some m | _ \<Rightarrow> None) as"

definition messages :: "'m lp_event list \<Rightarrow> 'm lp_event list" where
  "messages q = filter (\<lambda>e. case le_what e of WHAT_MESSAGE m \<Rightarrow> True | _ \<Rightarrow> False) q"

definition texts :: "'m lp_event list \<Rightarrow> 'm list" where
  "texts q = List.map_filter (\<lambda>e. case le_what e of WHAT_MESSAGE m \<Rightarrow> Some m | _ \<Rightarrow> None) q"

definition heard :: "'m report list \<Rightarrow> 'm list" where
  "heard rs = List.map_filter (\<lambda>r. case r of R_Message m \<Rightarrow> Some m | R_Position _ \<Rightarrow> None) rs"

definition progress_count :: "'m lp_event list \<Rightarrow> nat" where
  "progress_count q = length (filter (\<lambda>e. le_what e = WHAT_MEDIA_PROGRESS) q)"

lemma texts_simps [simp]:
  "texts [] = []" "texts (e # q) = (case le_what e of WHAT_MESSAGE m \<Rightarrow> m # texts q | _ \<Rightarrow> texts q)"
  by (simp_all add: texts_def List.map_filter_def split: what.split)

lemma heard_simps [simp]: "heard [] = []" "heard (rs @ [R_Position p]) = heard rs" "heard (rs @ [R_Message m]) = heard rs @ [m]"
  by (simp_all add: heard_def List.map_filter_def)

lemma sent_simps [simp]:
  "sent [] = []" "sent (a # as) = (case fst a of Send m \<Rightarrow> m # sent as | _ \<Rightarrow> sent as)"
  by (simp_all add: sent_def List.map_filter_def split: lp_action.split)

lemma progress_count_simps [simp]:
  "progress_count [] = 0" "progress_count (e # q) = (if le_what e = WHAT_MEDIA_PROGRESS then Suc (progress_count q) else progress_count q)"
  by (simp_all add: progress_count_def)

lemma progress_count_insert [simp]: "progress_count (insert_event e q) = progress_count (e # q)"
  by (induction q) auto

lemma texts_insert_progress [simp]: "texts (insert_event (progress_at t) q) = texts q"
  by (induction q) (auto simp: progress_at_def split: what.split)

lemma set_insert_event [simp]: "set (insert_event e q) = insert e (set q)"
  by (induction q) auto

lemma sorted_insert_event:
  "sorted (map le_when q) \<Longrightarrow> sorted (map le_when (insert_event e q))"
  by (induction q) auto

text \<open>A message that is sent now goes behind all that were sent.\<close>

lemma texts_insert_message:
  "\<forall>e \<in> set q. (\<exists>m. le_what e = WHAT_MESSAGE m) \<longrightarrow> le_when e \<le> now \<Longrightarrow> sorted (map le_when q) \<Longrightarrow>
   texts (insert_event \<lparr>le_what = WHAT_MESSAGE m, le_when = now\<rparr> q) = texts q @ [m]"
proof (induction q)
  case (Cons e q)
  show ?case
  proof (cases "le_when e > now")
    case True
    have "\<nexists>m. le_what x = WHAT_MESSAGE m" if "x \<in> set (e # q)" for x
      using Cons.prems True that by fastforce
    then have "texts (e # q) = []"
      by (fastforce simp: texts_def List.map_filter_def filter_empty_conv split: what.splits)
    then show ?thesis using True by simp
  next
    case False
    then show ?thesis using Cons by (auto split: what.split)
  qed
qed simp

section \<open>Order\<close>

definition lp_inv :: "int \<Rightarrow> 'm looper \<Rightarrow> bool" where
  "lp_inv now l \<longleftrightarrow> \<not> lp_quit l \<and> lp_obs l \<and> sorted (map le_when (lp_queue l)) \<and>
     (\<forall>e \<in> set (lp_queue l). (\<exists>m. le_what e = WHAT_MESSAGE m) \<longrightarrow> le_when e \<le> now)"

lemma lp_inv_later: "lp_inv now l \<Longrightarrow> now \<le> now' \<Longrightarrow> lp_inv now' l"
  by (fastforce simp: lp_inv_def)

lemma lp_act_order:
  assumes "lp_inv now l"
  shows "lp_inv now (lp_act (a, now) l) \<and>
    heard (lp_seen (lp_act (a, now) l)) @ texts (lp_queue (lp_act (a, now) l)) =
      heard (lp_seen l) @ texts (lp_queue l) @ sent [(a, now)]"
proof (cases a)
  case (Send m)
  then show ?thesis using assms
    by (auto simp: lp_inv_def OnMessage_def Enqueue_def texts_insert_message sorted_insert_event)
next
  case (Loop p)
  show ?thesis
  proof (cases "LoopOnce p now l")
    case None
    then show ?thesis using assms Loop by simp
  next
    case (Some l1)
    then obtain e q where q: "lp_queue l = e # q"
      using assms by (auto simp: LoopOnce_def Next_def lp_inv_def split: list.splits option.splits if_splits)
    then show ?thesis
      using assms Some Loop
      by (auto simp: LoopOnce_def Next_def lp_inv_def DoReportMediaProgress_def DoReportMessage_def Enqueue_def Let_def progress_at_def
          sorted_insert_event texts_insert_progress [unfolded progress_at_def] split: if_splits what.splits option.splits)
  qed
qed (use assms in \<open>auto simp: lp_inv_def StartReportMediaProgress_def ManualReportMediaProgressOnce_def StopReportMediaProgress_def
    Enqueue_def Let_def progress_at_def sorted_insert_event texts_insert_progress [unfolded progress_at_def]\<close>)

lemma lp_run_order:
  assumes "lp_inv t0 l" "sorted (t0 # map snd as)"
  shows "lp_inv (last (t0 # map snd as)) (lp_run as l) \<and>
    heard (lp_seen (lp_run as l)) @ texts (lp_queue (lp_run as l)) = heard (lp_seen l) @ texts (lp_queue l) @ sent as"
  using assms
proof (induction as arbitrary: t0 l)
  case Nil
  then show ?case by (simp add: lp_run_def)
next
  case (Cons a as)
  obtain b t where a: "a = (b, t)" by (cases a)
  have "lp_inv t l" using lp_inv_later [OF Cons.prems(1)] Cons.prems(2) a by simp
  note step = lp_act_order [OF this, of b]
  have run: "lp_run (a # as) l = lp_run as (lp_act (b, t) l)" by (simp add: lp_run_def a)
  have "sorted (t # map snd as)" using Cons.prems(2) a by simp
  note ih = Cons.IH [OF _ this, of "lp_act (b, t) l"]
  have "sent (a # as) = sent [(b, t)] @ sent as" by (simp add: a split: lp_action.split)
  then have "heard (lp_seen (lp_run (a # as) l)) @ texts (lp_queue (lp_run (a # as) l)) =
      (heard (lp_seen l) @ texts (lp_queue l) @ sent [(b, t)]) @ sent as"
    unfolding run using ih step by (metis append_assoc)
  moreover have "heard (lp_seen l) @ texts (lp_queue l) @ sent (a # as) =
      (heard (lp_seen l) @ texts (lp_queue l) @ sent [(b, t)]) @ sent as"
    using \<open>sent (a # as) = _\<close> by simp
  moreover have "last (t0 # map snd (a # as)) = last (t # map snd as)" by (simp add: a)
  ultimately show ?case using ih step unfolding run by simp
qed

text \<open>A thread that waits has nothing to say.\<close>

lemma waiting_empty:
  assumes "lp_inv now l" "LoopOnce p now l = None"
  shows "texts (lp_queue l) = []"
proof (cases "lp_queue l")
  case (Cons e q)
  then have late: "le_when e > now" using assms by (auto simp: LoopOnce_def Next_def lp_inv_def split: if_splits)
  have "\<nexists>m. le_what x = WHAT_MESSAGE m" if "x \<in> set (e # q)" for x
    using assms(1) late that Cons by (fastforce simp: lp_inv_def)
  then show ?thesis using Cons by (fastforce simp: texts_def List.map_filter_def filter_empty_conv split: what.splits)
qed simp

text \<open>While the position is reported no report leaves the queue for good.\<close>

lemma progress_kept:
  assumes "lp_report l" "\<not> lp_quit l"
  shows "progress_count (lp_queue (lp_act (Loop p, now) l)) = progress_count (lp_queue l) \<and>
    lp_report (lp_act (Loop p, now) l) \<and> \<not> lp_quit (lp_act (Loop p, now) l)"
  using assms
  by (cases "lp_queue l")
    (auto simp: LoopOnce_def Next_def DoReportMediaProgress_def DoReportMessage_def Enqueue_def Let_def progress_at_def
      split: what.split option.split)

section \<open>Properties\<close>

definition pause_and_play :: "int \<Rightarrow> 'm lp_action list" where
  "pause_and_play n = [Stop_Report, Manual_Report, Start_Report n]"

definition observed :: "'m looper \<Rightarrow> bool" where
  "observed l \<longleftrightarrow> lp_queue l = [] \<and> \<not> lp_quit l \<and> lp_obs l"

text \<open>
  C18. The observer hears the messages of the player in the order they were sent, whatever the
  progress reports in between: in every run with a clock that does not go back, what was heard and
  what waits are together what was sent, and when the thread has to wait everything sent was heard.
\<close>

theorem observer_hears_in_order:
  assumes "observed l" "sorted (map snd as)" "as \<noteq> []"
  shows "heard (lp_seen (lp_run as l)) @ texts (lp_queue (lp_run as l)) = heard (lp_seen l) @ sent as \<and>
    (LoopOnce p (snd (last as)) (lp_run as l) = None \<longrightarrow> heard (lp_seen (lp_run as l)) = heard (lp_seen l) @ sent as)"
proof -
  obtain t0 where t0: "t0 = snd (hd as)" by blast
  have "lp_inv t0 l" using assms(1) by (simp add: observed_def lp_inv_def)
  moreover have "sorted (t0 # map snd as)" using assms(2,3) t0 by (cases as) auto
  ultimately have run: "lp_inv (last (t0 # map snd as)) (lp_run as l) \<and>
    heard (lp_seen (lp_run as l)) @ texts (lp_queue (lp_run as l)) = heard (lp_seen l) @ texts (lp_queue l) @ sent as"
    by (rule lp_run_order)
  have "last (t0 # map snd as) = snd (last as)" using assms(3) by (simp add: last_map)
  then show ?thesis using run waiting_empty [of "snd (last as)" "lp_run as l" p] assms(1) by (auto simp: observed_def)
qed

theorem observer_hears_in_order_witness:
  "heard (lp_seen (lp_run [(Send ''a'', 1), (Start_Report 100, 1), (Loop (Some 0), 2), (Send ''b'', 2), (Loop (Some 0), 3), (Loop None, 3)]
    (new_looper\<lparr>lp_obs := True\<rparr>))) = [''a'', ''b'']"
proof -
  let ?as = "[(Send ''a'', 1), (Start_Report 100, 1), (Loop (Some 0), 2), (Send ''b'', 2), (Loop (Some 0), 3), (Loop None, 3)]"
  have "observed (new_looper\<lparr>lp_obs := True\<rparr>)" by (simp add: observed_def new_looper_def)
  from observer_hears_in_order [OF this, of ?as None]
  show ?thesis
    by (simp add: lp_run_def new_looper_def OnMessage_def Enqueue_def StartReportMediaProgress_def LoopOnce_def Next_def
        DoReportMediaProgress_def DoReportMessage_def progress_at_def Let_def)
qed

text \<open>
  Pausing and playing multiplies the position reports: each time the player is paused and played
  again before the thread has gone round, two more reports are in the queue, and each of them comes
  again at every interval as long as the playback goes on.
\<close>

theorem pausing_multiplies_reports:
  assumes "lp_report l" "\<not> lp_quit l"
  shows "progress_count (lp_queue (lp_run (map (\<lambda>a. (a, now)) (concat (replicate k (pause_and_play n))) @ map (\<lambda>(p, t). (Loop p, t)) loops) l)) =
    progress_count (lp_queue l) + 2 * k"
proof -
  have loops: "lp_report l1 \<Longrightarrow> \<not> lp_quit l1 \<Longrightarrow> progress_count (lp_queue (lp_run (map (\<lambda>(p, t). (Loop p, t)) loops) l1)) = progress_count (lp_queue l1)"
    for l1 :: "'a looper"
    by (induction loops arbitrary: l1) (use progress_kept in \<open>force simp: lp_run_def\<close>)+
  have "lp_report (lp_run (map (\<lambda>a. (a, now)) (concat (replicate k (pause_and_play n)))) l1) \<and>
      \<not> lp_quit (lp_run (map (\<lambda>a. (a, now)) (concat (replicate k (pause_and_play n)))) l1) \<and>
      progress_count (lp_queue (lp_run (map (\<lambda>a. (a, now)) (concat (replicate k (pause_and_play n)))) l1)) = progress_count (lp_queue l1) + 2 * k"
    if "lp_report l1" "\<not> lp_quit l1" for l1 :: "'a looper"
    using that
    by (induction k arbitrary: l1)
      (simp_all add: lp_run_def pause_and_play_def StopReportMediaProgress_def ManualReportMediaProgressOnce_def
        StartReportMediaProgress_def Enqueue_def Let_def progress_at_def)
  then show ?thesis using assms loops by (simp add: lp_run_def)
qed

theorem pausing_multiplies_reports_witness:
  "progress_count (lp_queue (lp_run (map (\<lambda>a. (a, 5)) (concat (replicate 3 (pause_and_play 100))) @ map (\<lambda>(p, t). (Loop p, t)) [(Some 7, 6), (Some 7, 200)])
     (lp_act (Start_Report 100, 0) (new_looper :: string looper)))) = 1 + 2 * 3"
  using pausing_multiplies_reports [of "lp_act (Start_Report 100, 0) (new_looper :: string looper)" 5 3 100 "[(Some 7, 6), (Some 7, 200)]"]
  by (simp add: new_looper_def StartReportMediaProgress_def Enqueue_def progress_at_def Let_def)

end
