(* ===== verification/Task_Thread.thy ===== *)
theory Task_Thread
  imports Hst_Prelude
begin

text \<open>
  A task (engine/foundation/osal/thread/task.cpp): a thread that calls a handler again and again while
  it is started, and the calls that start, pause and stop it.

  A call runs with the mutex of the task up to where it waits; a caller that waits is in
  \<open>tk_waiting\<close>. The thread is where \<open>tk_worker\<close> says; it takes the mutex at each of its steps but the
  handler. A wait with a timeout can end at any time. Whether a thread can be created is an argument.
\<close>

section \<open>State\<close>

datatype running_state = TASK_STARTED | TASK_PAUSING | TASK_PAUSED | TASK_STOPPING | TASK_STOPPED

text \<open>At the top of the loop, in the handler, before the mutex, and in the wait of a paused thread.\<close>

datatype worker = At_Top | In_Handler | At_Lock | In_Wait

text \<open>In \<open>Stop\<close>; in \<open>Pause\<close> called when started, when stopping, when pausing.\<close>

datatype waiter = Stop_Stopped | Pause_Paused_Or_Stopped | Pause_Stopped | Pause_Paused

record task =
  tk_state :: running_state
  tk_loop :: bool
  tk_thread :: bool
  tk_worker :: "worker option"
  tk_waiting :: "waiter list"

definition new_task :: task where
  "new_task = \<lparr>tk_state = TASK_STOPPED, tk_loop = True, tk_thread = False, tk_worker = None, tk_waiting = []\<rparr>"

section \<open>Calls\<close>

definition tk_Start :: "bool \<Rightarrow> task \<Rightarrow> task" where
  "tk_Start created t =
     (let t1 = t\<lparr>tk_state := TASK_STARTED\<rparr>;
          t2 = (if \<not> tk_loop t1 then t1\<lparr>tk_loop := True, tk_thread := False\<rparr> else t1)
      in if \<not> tk_thread t2 \<and> created then t2\<lparr>tk_thread := True, tk_worker := Some At_Top\<rparr> else t2)"

definition waits :: "waiter \<Rightarrow> task \<Rightarrow> task" where
  "waits w t = t\<lparr>tk_waiting := tk_waiting t @ [w]\<rparr>"

definition tk_Stop :: "task \<Rightarrow> task" where
  "tk_Stop t = (if tk_state t \<noteq> TASK_STOPPED then waits Stop_Stopped (t\<lparr>tk_state := TASK_STOPPING\<rparr>) else t)"

definition tk_StopAsync :: "task \<Rightarrow> task" where
  "tk_StopAsync t = (if tk_state t \<noteq> TASK_STOPPED then t\<lparr>tk_state := TASK_STOPPING\<rparr> else t)"

definition tk_Pause :: "task \<Rightarrow> task" where
  "tk_Pause t =
     (case tk_state t of
        TASK_STARTED \<Rightarrow> waits Pause_Paused_Or_Stopped (t\<lparr>tk_state := TASK_PAUSING\<rparr>)
      | TASK_STOPPING \<Rightarrow> waits Pause_Stopped t
      | TASK_PAUSING \<Rightarrow> waits Pause_Paused t
      | _ \<Rightarrow> t)"

definition tk_PauseAsync :: "task \<Rightarrow> task" where
  "tk_PauseAsync t = (if tk_state t = TASK_STARTED then t\<lparr>tk_state := TASK_PAUSING\<rparr> else t)"

fun wakes :: "waiter \<Rightarrow> running_state \<Rightarrow> bool" where
  "wakes Stop_Stopped s \<longleftrightarrow> s = TASK_STOPPED"
| "wakes Pause_Paused_Or_Stopped s \<longleftrightarrow> s = TASK_PAUSED \<or> s = TASK_STOPPED"
| "wakes Pause_Stopped s \<longleftrightarrow> s = TASK_STOPPED"
| "wakes Pause_Paused s \<longleftrightarrow> s = TASK_PAUSED"

text \<open>What a caller still does when its wait is over: a \<open>Stop\<close> joins the thread.\<close>

definition return_from :: "waiter \<Rightarrow> task \<Rightarrow> task" where
  "return_from w t =
     (let t1 = t\<lparr>tk_waiting := remove1 w (tk_waiting t)\<rparr>
      in if w = Stop_Stopped \<and> tk_loop t1 \<and> tk_thread t1 then t1\<lparr>tk_loop := False, tk_thread := False\<rparr> else t1)"

section \<open>The thread\<close>

definition check_stop :: "task \<Rightarrow> task" where
  "check_stop t =
     (if tk_state t = TASK_STOPPING \<or> tk_state t = TASK_STOPPED then t\<lparr>tk_state := TASK_STOPPED, tk_worker := None\<rparr>
      else t\<lparr>tk_worker := Some At_Top\<rparr>)"

fun Run_step :: "worker \<Rightarrow> task \<Rightarrow> task" where
  "Run_step At_Top t = t\<lparr>tk_worker := Some (if tk_state t = TASK_STARTED then In_Handler else At_Lock)\<rparr>"
| "Run_step In_Handler t = t\<lparr>tk_worker := Some At_Lock\<rparr>"
| "Run_step At_Lock t =
     (if tk_state t = TASK_PAUSING \<or> tk_state t = TASK_PAUSED then t\<lparr>tk_state := TASK_PAUSED, tk_worker := Some In_Wait\<rparr>
      else check_stop t)"
| "Run_step In_Wait t = check_stop t"

definition Run_once :: "task \<Rightarrow> task" where
  "Run_once t = (case tk_worker t of None \<Rightarrow> t | Some pc \<Rightarrow> Run_step pc t)"

section \<open>Interleavings\<close>

inductive task_step :: "task \<Rightarrow> task \<Rightarrow> bool" where
  start: "task_step t (tk_Start created t)"
| stop: "task_step t (tk_Stop t)"
| stop_async: "task_step t (tk_StopAsync t)"
| pause: "task_step t (tk_Pause t)"
| pause_async: "task_step t (tk_PauseAsync t)"
| wake: "w \<in> set (tk_waiting t) \<Longrightarrow> wakes w (tk_state t) \<Longrightarrow> task_step t (return_from w t)"
| run: "task_step t (Run_once t)"

inductive task_run :: "task \<Rightarrow> task \<Rightarrow> bool" where
  refl: "task_run t t"
| step: "task_run t u \<Longrightarrow> task_step u v \<Longrightarrow> task_run t v"

lemmas task_defs = tk_Start_def tk_Stop_def tk_StopAsync_def tk_Pause_def tk_PauseAsync_def waits_def return_from_def
  Run_once_def check_stop_def Let_def

lemma Run_cases: "tk_worker t = Some pc \<Longrightarrow> P (Run_step At_Top t) \<Longrightarrow> P (Run_step In_Handler t) \<Longrightarrow> P (Run_step At_Lock t) \<Longrightarrow>
    P (Run_step In_Wait t) \<Longrightarrow> P (Run_once t)"
  by (cases pc) (simp_all add: Run_once_def)

text \<open>The state of a task whose thread, if there is one, is the only one.\<close>

definition task_ok :: "task \<Rightarrow> bool" where
  "task_ok t \<longleftrightarrow> (tk_thread t \<longrightarrow> tk_loop t) \<and> (tk_worker t \<noteq> None \<longrightarrow> tk_thread t) \<and>
     (tk_state t = TASK_STOPPED \<longrightarrow> tk_worker t = None) \<and> (tk_state t = TASK_PAUSED \<longrightarrow> tk_worker t \<noteq> Some In_Handler)"

lemma Run_step_ok: "task_ok t \<Longrightarrow> tk_worker t = Some pc \<Longrightarrow> task_ok (Run_step pc t)"
  by (cases pc) (auto simp: task_ok_def check_stop_def)

lemma task_step_ok: "task_step t u \<Longrightarrow> task_ok t \<Longrightarrow> task_ok u"
proof (induction rule: task_step.induct)
  case (run t)
  then show ?case using Run_step_ok by (cases "tk_worker t") (auto simp: Run_once_def)
next
  case (pause t)
  then show ?case by (cases "tk_state t") (auto simp: task_ok_def tk_Pause_def waits_def)
next
  case (wake w t)
  then show ?case by (cases w) (auto simp: task_ok_def return_from_def Let_def)
qed (auto simp: task_ok_def task_defs split: if_splits)

lemma task_run_ok: "task_run t u \<Longrightarrow> task_ok t \<Longrightarrow> task_ok u"
  by (induction rule: task_run.induct) (auto dest: task_step_ok)

text \<open>The handler is not running, and will not until the task is started.\<close>

definition quiet :: "task \<Rightarrow> bool" where
  "quiet t \<longleftrightarrow> tk_state t \<noteq> TASK_STARTED \<and> tk_worker t \<noteq> Some In_Handler"

inductive quiet_run :: "task \<Rightarrow> task \<Rightarrow> bool" where
  refl: "quiet_run t t"
| step: "quiet_run t u \<Longrightarrow> task_step u v \<Longrightarrow> tk_state v \<noteq> TASK_STARTED \<Longrightarrow> quiet_run t v"

lemma quiet_step: "task_step t u \<Longrightarrow> quiet t \<Longrightarrow> tk_state u \<noteq> TASK_STARTED \<Longrightarrow> quiet u"
proof (induction rule: task_step.induct)
  case (run t)
  then show ?case
  proof (cases "tk_worker t")
    case (Some pc)
    then show ?thesis using run by (cases pc) (auto simp: quiet_def Run_once_def check_stop_def split: if_splits)
  qed (simp add: Run_once_def)
qed (auto simp: quiet_def task_defs split: if_splits running_state.splits)

lemma quiet_run_quiet: "quiet_run t u \<Longrightarrow> quiet t \<Longrightarrow> quiet u"
  by (induction rule: quiet_run.induct) (auto dest: quiet_step)

text \<open>A task whose thread is gone and that still has its thread object, and is started.\<close>

definition orphaned :: "task \<Rightarrow> bool" where
  "orphaned t \<longleftrightarrow> tk_worker t = None \<and> tk_thread t \<and> tk_loop t \<and> tk_state t \<noteq> TASK_STOPPED \<and> tk_state t \<noteq> TASK_PAUSED"

lemma orphaned_step: "task_step t u \<Longrightarrow> orphaned t \<Longrightarrow> orphaned u"
proof (induction rule: task_step.induct)
  case (wake w t)
  show ?case by (cases w) (use wake in \<open>auto simp: orphaned_def\<close>)
qed (auto simp: orphaned_def task_defs split: running_state.splits)

lemma orphaned_run: "task_run t u \<Longrightarrow> orphaned t \<Longrightarrow> orphaned u"
  by (induction rule: task_run.induct) (auto dest: orphaned_step)

section \<open>Properties\<close>


lemma task_fold: "task_run t (fold (\<lambda>h. h) hs t)" if "\<forall>h \<in> set hs. \<forall>t. task_step t (h t)"
  using that
proof (induction hs rule: rev_induct)
  case (snoc h hs)
  then show ?case by (auto intro: task_run.step)
qed (simp add: task_run.refl)


text \<open>
  A task that stopped asynchronously cannot be started again: once its thread has ended after
  \<open>StopAsync\<close>, a later \<open>Start\<close> makes no new thread, so whatever follows the handler never runs, and
  whoever then calls \<open>Stop\<close> waits for ever.
\<close>

theorem restart_after_async_stop_hangs:
  assumes "tk_state t = TASK_STOPPED" "tk_worker t = None" "tk_thread t" "tk_loop t" "task_run (tk_Start created t) u"
  shows "tk_worker u = None \<and> (\<forall>v. task_run (tk_Stop u) v \<longrightarrow> tk_worker v = None \<and> \<not> wakes Stop_Stopped (tk_state v))"
proof -
  have "orphaned (tk_Start created t)" using assms(1-4) by (simp add: orphaned_def tk_Start_def Let_def)
  then have u: "orphaned u" using orphaned_run assms(5) by blast
  have "orphaned v" if "task_run (tk_Stop u) v" for v using orphaned_run [OF that] orphaned_step [OF task_step.stop u] by blast
  then show ?thesis using u by (auto simp: orphaned_def)
qed

theorem restart_after_async_stop_hangs_witness:
  "tk_worker (Run_once (tk_Stop (tk_Start True (fold (\<lambda>h. h) [tk_Start True, Run_once, tk_StopAsync, Run_once, Run_once] new_task)))) = None \<and>
   \<not> wakes Stop_Stopped (tk_state (Run_once (tk_Stop (tk_Start True (fold (\<lambda>h. h) [tk_Start True, Run_once, tk_StopAsync, Run_once, Run_once] new_task)))))"
proof -
  let ?t = "fold (\<lambda>h. h) [tk_Start True, Run_once, tk_StopAsync, Run_once, Run_once] new_task"
  have "tk_state ?t = TASK_STOPPED" "tk_worker ?t = None" "tk_thread ?t" "tk_loop ?t" by code_simp+
  moreover have "task_run (tk_Stop (tk_Start True ?t)) (Run_once (tk_Stop (tk_Start True ?t)))"
    by (rule task_run.step [OF task_run.refl task_step.run])
  ultimately show ?thesis using restart_after_async_stop_hangs [OF _ _ _ _ task_run.refl, of ?t True] by blast
qed

text \<open>Where nobody interferes, \<open>Stop\<close> returns: the thread comes to its end in at most four steps.\<close>

lemma stop_ends: "tk_state t = TASK_STOPPING \<Longrightarrow> tk_worker t \<noteq> None \<Longrightarrow>
    tk_state ((Run_once ^^ 4) t) = TASK_STOPPED \<and> tk_worker ((Run_once ^^ 4) t) = None"
  by (cases "tk_worker t"; cases "the (tk_worker t)") (simp_all add: numeral_eq_Suc Run_once_def check_stop_def)

text \<open>A second \<open>Pause\<close> that finds the task pausing does not wake when the task is stopped instead.\<close>

lemma second_pause_misses_stop: "\<not> wakes Pause_Paused TASK_STOPPED"
  by simp

end
