(* ===== verification/Cap_Check.thy ===== *)
theory Cap_Check
  imports Std_Map
begin

text \<open>
  Negotiation of capabilities (engine/pipeline/core/compatible_check.cpp): whether two capabilities
  go together, what both accept, and the fixed values a meta takes from what was negotiated.

  \<open>Any\<close> is one of the types the negotiation knows: a value, an interval or a vector of values of one
  of eight element types, a string, or something else. A value of an element type is its bit pattern
  in 64 bits. The mime types are compared in the C locale.
\<close>

section \<open>Values\<close>

datatype elem_type =
    T_uint32 | T_AudioChannelLayout | T_AudioSampleFormat | T_AudioAacProfile
  | T_AudioAacStreamFormat | T_VideoPixelFormat | T_VideoBitStreamFormat | T_int64

datatype value_type =
    FixedCapability elem_type u64
  | IntervalCapability elem_type u64 u64
  | DiscreteCapability elem_type "u64 list"
  | StringValue string
  | OtherValue

record capability =
  cp_mime :: string
  cp_keys :: "(u32, value_type) smap"

type_synonym meta = "(u32, value_type) smap"

definition TAG_MIME :: u32 where "TAG_MIME = 0x10001"
definition AUDIO_SAMPLE_RATE :: u32 where "AUDIO_SAMPLE_RATE = 0x30003"
definition AUDIO_CHANNELS :: u32 where "AUDIO_CHANNELS = 0x30001"
definition AUDIO_CHANNEL_LAYOUT :: u32 where "AUDIO_CHANNEL_LAYOUT = 0x30002"
definition AUDIO_SAMPLE_FORMAT :: u32 where "AUDIO_SAMPLE_FORMAT = 0x30004"
definition AUDIO_MPEG_VERSION :: u32 where "AUDIO_MPEG_VERSION = 0x40101"
definition AUDIO_MPEG_LAYER :: u32 where "AUDIO_MPEG_LAYER = 0x40102"
definition AUDIO_AAC_PROFILE :: u32 where "AUDIO_AAC_PROFILE = 0x40201"
definition AUDIO_AAC_LEVEL :: u32 where "AUDIO_AAC_LEVEL = 0x40202"
definition AUDIO_AAC_STREAM_FORMAT :: u32 where "AUDIO_AAC_STREAM_FORMAT = 0x40203"
definition VIDEO_PIXEL_FORMAT :: u32 where "VIDEO_PIXEL_FORMAT = 0x50003"
definition VIDEO_BIT_STREAM_FORMAT :: u32 where "VIDEO_BIT_STREAM_FORMAT = 0x50008"
definition MEDIA_BITRATE :: u32 where "MEDIA_BITRATE = 0x2000F"

lemmas key_defs = TAG_MIME_def AUDIO_SAMPLE_RATE_def AUDIO_CHANNELS_def AUDIO_CHANNEL_LAYOUT_def AUDIO_SAMPLE_FORMAT_def
  AUDIO_MPEG_VERSION_def AUDIO_MPEG_LAYER_def AUDIO_AAC_PROFILE_def AUDIO_AAC_LEVEL_def AUDIO_AAC_STREAM_FORMAT_def
  VIDEO_PIXEL_FORMAT_def VIDEO_BIT_STREAM_FORMAT_def MEDIA_BITRATE_def

section \<open>Comparing\<close>

text \<open>
  The comparison functions answer an \<open>int\<close> of 32 bits: the difference of two values of 32 or 64
  bits is cut off; that of two values of 8 bits is exact, as they are promoted.
\<close>

definition cmp32 :: "u64 \<Rightarrow> u64 \<Rightarrow> int" where
  "cmp32 a b = sint (ucast a - ucast b :: u32)"

definition cmp64 :: "u64 \<Rightarrow> u64 \<Rightarrow> int" where
  "cmp64 a b = sint (ucast (a - b) :: u32)"

definition cmp8 :: "u64 \<Rightarrow> u64 \<Rightarrow> int" where
  "cmp8 a b = uint (ucast a :: u8) - uint (ucast b :: u8)"

definition MaxV :: "(u64 \<Rightarrow> u64 \<Rightarrow> int) \<Rightarrow> u64 \<Rightarrow> u64 \<Rightarrow> u64" where
  "MaxV cmp a b = (if cmp a b \<ge> 0 then a else b)"

definition MinV :: "(u64 \<Rightarrow> u64 \<Rightarrow> int) \<Rightarrow> u64 \<Rightarrow> u64 \<Rightarrow> u64" where
  "MinV cmp a b = (if cmp a b \<le> 0 then a else b)"

section \<open>Two values\<close>

text \<open>The checks answer the out value when they hold.\<close>

definition FFCapabilityCheck :: "elem_type \<Rightarrow> (u64 \<Rightarrow> u64 \<Rightarrow> int) \<Rightarrow> u64 \<Rightarrow> u64 \<Rightarrow> value_type option" where
  "FFCapabilityCheck t cmp v1 v2 = (if cmp v1 v2 = 0 then Some (FixedCapability t v1) else None)"

definition FICapabilityCheck :: "elem_type \<Rightarrow> (u64 \<Rightarrow> u64 \<Rightarrow> int) \<Rightarrow> u64 \<Rightarrow> u64 \<times> u64 \<Rightarrow> value_type option" where
  "FICapabilityCheck t cmp v1 v2 =
     (let mx = MaxV cmp (fst v2) (snd v2); mn = MinV cmp (fst v2) (snd v2)
      in if cmp v1 mn \<ge> 0 \<and> cmp v1 mx \<le> 0 then Some (FixedCapability t v1) else None)"

definition FDCapabilityCheck :: "elem_type \<Rightarrow> (u64 \<Rightarrow> u64 \<Rightarrow> int) \<Rightarrow> u64 \<Rightarrow> u64 list \<Rightarrow> value_type option" where
  "FDCapabilityCheck t cmp v1 v2 = (if list_ex (\<lambda>tmp. cmp tmp v1 = 0) v2 then Some (FixedCapability t v1) else None)"

definition IICapabilityCheck :: "elem_type \<Rightarrow> (u64 \<Rightarrow> u64 \<Rightarrow> int) \<Rightarrow> u64 \<times> u64 \<Rightarrow> u64 \<times> u64 \<Rightarrow> value_type option" where
  "IICapabilityCheck t cmp v1 v2 =
     (let max1 = MaxV cmp (fst v1) (snd v1); min1 = MinV cmp (fst v1) (snd v1);
          max2 = MaxV cmp (fst v2) (snd v2); min2 = MinV cmp (fst v2) (snd v2);
          tmpMin = MaxV cmp min1 min2; tmpMax = MinV cmp max1 max2;
          compRes = cmp tmpMin tmpMax
      in if compRes > 0 then None
         else if compRes = 0 then Some (FixedCapability t tmpMin)
         else Some (IntervalCapability t tmpMin tmpMax))"

definition some_of :: "elem_type \<Rightarrow> u64 list \<Rightarrow> value_type option" where
  "some_of t tmpOut =
     (if tmpOut = [] then None
      else if length tmpOut = 1 then Some (FixedCapability t (tmpOut ! 0))
      else Some (DiscreteCapability t tmpOut))"

definition IDCapabilityCheck :: "elem_type \<Rightarrow> (u64 \<Rightarrow> u64 \<Rightarrow> int) \<Rightarrow> u64 \<times> u64 \<Rightarrow> u64 list \<Rightarrow> value_type option" where
  "IDCapabilityCheck t cmp v1 v2 =
     some_of t (filter (\<lambda>oneValue. cmp oneValue (fst v1) \<ge> 0 \<and> cmp oneValue (snd v1) \<le> 0) v2)"

definition DDCapabilityCheck :: "elem_type \<Rightarrow> (u64 \<Rightarrow> u64 \<Rightarrow> int) \<Rightarrow> u64 list \<Rightarrow> u64 list \<Rightarrow> value_type option" where
  "DDCapabilityCheck t cmp v1 v2 = some_of t (filter (\<lambda>cap1. list_ex (\<lambda>tmp. cmp cap1 tmp = 0) v2) v1)"

section \<open>By the kinds of the values\<close>

type_synonym flags = "bool \<times> bool \<times> bool"

text \<open>The flags: whether fixed values, intervals and discrete values are allowed.\<close>

definition IsFixedAllowed :: "flags \<Rightarrow> bool" where "IsFixedAllowed flags = fst flags"
definition IsIntervalAllowed :: "flags \<Rightarrow> bool" where "IsIntervalAllowed flags = fst (snd flags)"
definition IsDiscreteAllowed :: "flags \<Rightarrow> bool" where "IsDiscreteAllowed flags = snd (snd flags)"

definition FixedNumericalCapabilityCheck ::
  "elem_type \<Rightarrow> u64 \<Rightarrow> value_type \<Rightarrow> flags \<Rightarrow> (u64 \<Rightarrow> u64 \<Rightarrow> int) \<Rightarrow> value_type option"
where
  "FixedNumericalCapabilityCheck t value2 value1 flags cmp =
     (case value1 of
        FixedCapability t1 v1 \<Rightarrow> if t1 = t then FFCapabilityCheck t cmp value2 v1 else None
      | IntervalCapability t1 a b \<Rightarrow> if IsIntervalAllowed flags \<and> t1 = t then FICapabilityCheck t cmp value2 (a, b) else None
      | DiscreteCapability t1 vs \<Rightarrow> if IsDiscreteAllowed flags \<and> t1 = t then FDCapabilityCheck t cmp value2 vs else None
      | _ \<Rightarrow> None)"

definition IntervalNumericalCapabilityCheck ::
  "elem_type \<Rightarrow> u64 \<times> u64 \<Rightarrow> value_type \<Rightarrow> flags \<Rightarrow> (u64 \<Rightarrow> u64 \<Rightarrow> int) \<Rightarrow> value_type option"
where
  "IntervalNumericalCapabilityCheck t value2 value1 flags cmp =
     (case value1 of
        FixedCapability t1 v1 \<Rightarrow> if IsFixedAllowed flags \<and> t1 = t then FICapabilityCheck t cmp v1 value2 else None
      | IntervalCapability t1 a b \<Rightarrow> if t1 = t then IICapabilityCheck t cmp (a, b) value2 else None
      | DiscreteCapability t1 vs \<Rightarrow> if IsDiscreteAllowed flags \<and> t1 = t then IDCapabilityCheck t cmp value2 vs else None
      | _ \<Rightarrow> None)"

definition DiscreteNumericalCapabilityCheck ::
  "elem_type \<Rightarrow> u64 list \<Rightarrow> value_type \<Rightarrow> flags \<Rightarrow> (u64 \<Rightarrow> u64 \<Rightarrow> int) \<Rightarrow> value_type option"
where
  "DiscreteNumericalCapabilityCheck t value2 value1 flags cmp =
     (case value1 of
        FixedCapability t1 v1 \<Rightarrow> if IsFixedAllowed flags \<and> t1 = t then FDCapabilityCheck t cmp v1 value2 else None
      | IntervalCapability t1 a b \<Rightarrow> if IsIntervalAllowed flags \<and> t1 = t then IDCapabilityCheck t cmp (a, b) value2 else None
      | DiscreteCapability t1 vs \<Rightarrow> if t1 = t then DDCapabilityCheck t cmp vs value2 else None
      | _ \<Rightarrow> None)"

definition CapabilityValueCheck ::
  "elem_type \<Rightarrow> value_type \<times> value_type \<Rightarrow> flags \<Rightarrow> (u64 \<Rightarrow> u64 \<Rightarrow> int) \<Rightarrow> value_type option"
where
  "CapabilityValueCheck t inVals flags cmp =
     (case fst inVals of
        FixedCapability t1 v \<Rightarrow>
          if IsFixedAllowed flags \<and> t1 = t then FixedNumericalCapabilityCheck t v (snd inVals) flags cmp else None
      | IntervalCapability t1 a b \<Rightarrow>
          if IsIntervalAllowed flags \<and> t1 = t then IntervalNumericalCapabilityCheck t (a, b) (snd inVals) flags cmp else None
      | DiscreteCapability t1 vs \<Rightarrow>
          if IsDiscreteAllowed flags \<and> t1 = t then DiscreteNumericalCapabilityCheck t vs (snd inVals) flags cmp else None
      | _ \<Rightarrow> None)"

definition FixInvalDiscCapValCheck :: "elem_type \<Rightarrow> (u64 \<Rightarrow> u64 \<Rightarrow> int) \<Rightarrow> value_type \<Rightarrow> value_type \<Rightarrow> value_type option" where
  "FixInvalDiscCapValCheck t cmp val1 val2 = CapabilityValueCheck t (val1, val2) (True, True, True) cmp"

definition FixDiscCapValCheck :: "elem_type \<Rightarrow> (u64 \<Rightarrow> u64 \<Rightarrow> int) \<Rightarrow> value_type \<Rightarrow> value_type \<Rightarrow> value_type option" where
  "FixDiscCapValCheck t cmp val1 val2 = CapabilityValueCheck t (val1, val2) (True, False, True) cmp"

definition g_capabilityValueCheckMap :: "u32 \<Rightarrow> (value_type \<Rightarrow> value_type \<Rightarrow> value_type option) option" where
  "g_capabilityValueCheckMap = map_of
    [(AUDIO_SAMPLE_RATE, FixInvalDiscCapValCheck T_uint32 cmp32),
     (AUDIO_CHANNELS, FixInvalDiscCapValCheck T_uint32 cmp32),
     (AUDIO_CHANNEL_LAYOUT, FixDiscCapValCheck T_AudioChannelLayout cmp64),
     (AUDIO_SAMPLE_FORMAT, FixDiscCapValCheck T_AudioSampleFormat cmp8),
     (AUDIO_MPEG_VERSION, FixInvalDiscCapValCheck T_uint32 cmp32),
     (AUDIO_MPEG_LAYER, FixInvalDiscCapValCheck T_uint32 cmp32),
     (AUDIO_AAC_PROFILE, FixDiscCapValCheck T_AudioAacProfile cmp8),
     (AUDIO_AAC_LEVEL, FixInvalDiscCapValCheck T_uint32 cmp32),
     (AUDIO_AAC_STREAM_FORMAT, FixDiscCapValCheck T_AudioAacStreamFormat cmp8),
     (VIDEO_PIXEL_FORMAT, FixDiscCapValCheck T_VideoPixelFormat cmp32),
     (VIDEO_BIT_STREAM_FORMAT, FixDiscCapValCheck T_VideoBitStreamFormat cmp32),
     (MEDIA_BITRATE, FixInvalDiscCapValCheck T_int64 cmp64)]"

section \<open>Mime types\<close>

definition tolower :: "char \<Rightarrow> char" where
  "tolower c = (let n = of_char c :: nat in if 65 \<le> n \<and> n \<le> 90 then char_of (n + 32) else c)"

definition StringEqIgnoreCase :: "string \<Rightarrow> string \<Rightarrow> bool" where
  "StringEqIgnoreCase s1 s2 \<longleftrightarrow> length s1 = length s2 \<and> list_all2 (\<lambda>a b. tolower a = tolower b) s1 s2"

definition find_first_of :: "char \<Rightarrow> string \<Rightarrow> nat option" where
  "find_first_of c s = (let p = length (takeWhile (\<lambda>x. x \<noteq> c) s) in if p < length s then Some p else None)"

definition IsSubsetMime :: "string \<Rightarrow> string \<Rightarrow> bool" where
  "IsSubsetMime sub universe =
     (case find_first_of (CHR ''/'') sub of None \<Rightarrow> False
      | Some devLinePosInMeta \<Rightarrow>
          if devLinePosInMeta = 0 then False
          else if universe = ''*'' then True
          else case find_first_of (CHR ''/'') universe of None \<Rightarrow> False
          | Some devLinePosInCap \<Rightarrow>
              if devLinePosInCap = 0 then False
              else if \<not> StringEqIgnoreCase (take devLinePosInMeta sub) (take devLinePosInCap universe) then False
              else if drop (devLinePosInCap + 1) universe = ''*'' then True
              else StringEqIgnoreCase (drop (devLinePosInCap + 1) universe) (drop (devLinePosInMeta + 1) sub))"

section \<open>Capabilities\<close>

text \<open>\<open>std::map::insert\<close> keeps the value of a key that is there.\<close>

definition smap_insert :: "'k::linorder \<Rightarrow> 'v \<Rightarrow> ('k, 'v) smap \<Rightarrow> ('k, 'v) smap" where
  "smap_insert k v m = (if smap_find m k = None then smap_put k v m else m)"

fun merge_origin :: "(u32 \<times> value_type) list \<Rightarrow> (u32, value_type) smap \<Rightarrow> (u32, value_type) smap \<Rightarrow>
    bool \<times> (u32, value_type) smap" where
  "merge_origin [] other res = (True, res)"
| "merge_origin ((k, v) # ps) other res =
     (case smap_find other k of None \<Rightarrow> merge_origin ps other (smap_insert k v res)
      | Some o_v \<Rightarrow>
          (case g_capabilityValueCheckMap k of None \<Rightarrow> merge_origin ps other res
           | Some check \<Rightarrow>
               (case check v o_v of Some tmp \<Rightarrow> merge_origin ps other (smap_put k tmp res)
                | None \<Rightarrow> (False, []))))"

fun merge_other :: "(u32 \<times> value_type) list \<Rightarrow> (u32, value_type) smap \<Rightarrow> (u32, value_type) smap" where
  "merge_other [] res = res"
| "merge_other ((k, v) # ps) res = merge_other ps (if smap_find res k = None then smap_insert k v res else res)"

definition MergeCapabilityKeys :: "capability \<Rightarrow> capability \<Rightarrow> capability \<Rightarrow> bool \<times> capability" where
  "MergeCapabilityKeys originCap otherCap resCap =
     (case merge_origin (cp_keys originCap) (cp_keys otherCap) [] of (ok, res) \<Rightarrow>
        if \<not> ok then (False, resCap\<lparr>cp_keys := res\<rparr>)
        else (True, resCap\<lparr>cp_keys := merge_other (cp_keys otherCap) res\<rparr>))"

definition MergeCapability :: "capability \<Rightarrow> capability \<Rightarrow> capability \<Rightarrow> bool \<times> capability" where
  "MergeCapability originCap otherCap resCap =
     (let r1 = resCap\<lparr>cp_mime := [], cp_keys := []\<rparr>
      in if \<not> IsSubsetMime (cp_mime originCap) (cp_mime otherCap) then (False, r1)
         else case MergeCapabilityKeys originCap otherCap r1 of (ok, r2) \<Rightarrow>
           if \<not> ok then (False, r2) else (True, r2\<lparr>cp_mime := cp_mime originCap\<rparr>))"

fun ApplyCapabilitySet :: "capability \<Rightarrow> capability list \<Rightarrow> capability \<Rightarrow> bool \<times> capability" where
  "ApplyCapabilitySet originCap [] resCap = (False, resCap)"
| "ApplyCapabilitySet originCap (cap # capabilitySet) resCap =
     (case MergeCapability originCap cap resCap of (ok, r) \<Rightarrow>
        if ok then (True, r) else ApplyCapabilitySet originCap capabilitySet r)"

section \<open>Metas\<close>

definition ExtractFixedCap :: "elem_type \<Rightarrow> value_type \<Rightarrow> value_type option" where
  "ExtractFixedCap t value =
     (case value of
        FixedCapability t1 v \<Rightarrow> if t1 = t then Some (FixedCapability t v) else None
      | IntervalCapability t1 a b \<Rightarrow> if t1 = t then Some (FixedCapability t a) else None
      | DiscreteCapability t1 vs \<Rightarrow> if t1 = t \<and> vs \<noteq> [] then Some (FixedCapability t (vs ! 0)) else None
      | _ \<Rightarrow> None)"

definition g_capExtrMap :: "u32 \<Rightarrow> elem_type option" where
  "g_capExtrMap = map_of
    [(AUDIO_SAMPLE_RATE, T_uint32), (AUDIO_CHANNELS, T_uint32), (AUDIO_CHANNEL_LAYOUT, T_AudioChannelLayout),
     (AUDIO_SAMPLE_FORMAT, T_AudioSampleFormat), (AUDIO_MPEG_VERSION, T_uint32), (AUDIO_MPEG_LAYER, T_uint32),
     (AUDIO_AAC_PROFILE, T_AudioAacProfile), (AUDIO_AAC_LEVEL, T_uint32), (AUDIO_AAC_STREAM_FORMAT, T_AudioAacStreamFormat),
     (VIDEO_PIXEL_FORMAT, T_VideoPixelFormat), (VIDEO_BIT_STREAM_FORMAT, T_VideoBitStreamFormat), (MEDIA_BITRATE, T_int64)]"

definition g_allCapabilityId :: "u32 list" where
  "g_allCapabilityId =
     [AUDIO_SAMPLE_RATE, AUDIO_CHANNELS, AUDIO_CHANNEL_LAYOUT, AUDIO_SAMPLE_FORMAT, AUDIO_MPEG_VERSION, AUDIO_MPEG_LAYER,
      AUDIO_AAC_PROFILE, AUDIO_AAC_LEVEL, AUDIO_AAC_STREAM_FORMAT, VIDEO_PIXEL_FORMAT, VIDEO_BIT_STREAM_FORMAT, MEDIA_BITRATE]"

text \<open>The entries of a meta the negotiation speaks about; \<open>MetaToCapability\<close> adds the mime type.\<close>

definition meta_keys :: "meta \<Rightarrow> (u32, value_type) smap" where
  "meta_keys m = fold (\<lambda>key keys. case smap_find m key of None \<Rightarrow> keys | Some tmp \<Rightarrow> smap_put key tmp keys) g_allCapabilityId []"

definition MetaToCapability :: "meta \<Rightarrow> capability" where
  "MetaToCapability m =
     \<lparr>cp_mime = (case smap_find m TAG_MIME of Some (StringValue mime) \<Rightarrow> mime | _ \<Rightarrow> []), cp_keys = meta_keys m\<rparr>"

fun set_fixed :: "(u32 \<times> value_type) list \<Rightarrow> meta \<Rightarrow> meta" where
  "set_fixed [] m = m"
| "set_fixed ((k, v) # ps) m =
     (case g_capExtrMap k of None \<Rightarrow> set_fixed ps m
      | Some t \<Rightarrow>
          (case ExtractFixedCap t v of None \<Rightarrow> set_fixed ps m
           | Some tmp \<Rightarrow> set_fixed ps (smap_put k tmp m)))"

definition MergeMetaWithCapability :: "meta \<Rightarrow> capability \<Rightarrow> bool \<times> meta" where
  "MergeMetaWithCapability m cap =
     (case MergeCapability \<lparr>cp_mime = cp_mime cap, cp_keys = meta_keys m\<rparr> cap \<lparr>cp_mime = [], cp_keys = []\<rparr> of (ok, resCap) \<Rightarrow>
        if \<not> ok then (False, [])
        else (True, set_fixed (cp_keys resCap) (smap_put TAG_MIME (StringValue (cp_mime cap)) m)))"

end
