(* ===== verification/Cap_Props.thy ===== *)
theory Cap_Props
  imports Cap_Check
begin

text \<open>
  Negotiating capabilities is intersecting sets of values, as long as the differences of the values
  fit the 32-bit \<open>int\<close> the comparison functions answer and intervals are written from the smaller
  to the larger end; beyond that it is not.
\<close>

section \<open>The comparisons\<close>

text \<open>What the checks need of a comparison: on the values meant it is the difference.\<close>

locale difference =
  fixes cmp :: "u64 \<Rightarrow> u64 \<Rightarrow> int" and tame :: "u64 \<Rightarrow> bool"
  assumes cmp_difference: "tame a \<Longrightarrow> tame b \<Longrightarrow> cmp a b = uint a - uint b"
begin

lemma cmp_0: "tame a \<Longrightarrow> tame b \<Longrightarrow> cmp a b = 0 \<longleftrightarrow> a = b"
  and cmp_le: "tame a \<Longrightarrow> tame b \<Longrightarrow> cmp a b \<le> 0 \<longleftrightarrow> a \<le> b"
  and cmp_ge: "tame a \<Longrightarrow> tame b \<Longrightarrow> cmp a b \<ge> 0 \<longleftrightarrow> b \<le> a"
  by (simp_all add: cmp_difference word_le_def word_uint_eq_iff)

lemma MaxV_max: "tame a \<Longrightarrow> tame b \<Longrightarrow> MaxV cmp a b = max a b"
  and MinV_min: "tame a \<Longrightarrow> tame b \<Longrightarrow> MinV cmp a b = min a b"
  by (auto simp: MaxV_def MinV_def cmp_ge cmp_le max_def min_def)

end

definition small8 :: "u64 \<Rightarrow> bool" where "small8 a \<longleftrightarrow> uint a < 2 ^ 8"
definition small31 :: "u64 \<Rightarrow> bool" where "small31 a \<longleftrightarrow> uint a < 2 ^ 31"

lemma cmp64_cmp32: "cmp64 a b = cmp32 a b"
proof -
  have "take_bit 32 (take_bit 64 (uint a - uint b)) = take_bit 32 (uint a - uint b)" by (simp add: take_bit_take_bit)
  also have "\<dots> = take_bit 32 (take_bit 32 (uint a) - take_bit 32 (uint b))" by (simp add: take_bit_diff)
  finally have "uint (ucast (a - b) :: u32) = uint (ucast a - ucast b :: u32)"
    by (simp add: unsigned_ucast_eq uint_word_ariths take_bit_eq_mod)
  then have "(ucast (a - b) :: u32) = ucast a - ucast b" by (simp add: word_uint_eq_iff)
  then show ?thesis by (simp add: cmp64_def cmp32_def)
qed

interpretation d8: difference cmp8 small8
proof unfold_locales
  fix a b assume "small8 a" "small8 b"
  then show "cmp8 a b = uint a - uint b"
    by (simp add: cmp8_def small8_def unsigned_ucast_eq take_bit_int_eq_self)
qed

interpretation d32: difference cmp32 small31
proof unfold_locales
  fix a b assume s: "small31 a" "small31 b"
  have i: "sint (ucast x :: u32) = uint x" if "small31 x" for x :: u64
  proof -
    have "0 \<le> uint x" "uint x < 2 ^ 31" using that by (simp_all add: small31_def)
    then have "signed_take_bit 31 (uint x) = uint x" by (intro signed_take_bit_int_eq_self) linarith+
    then show ?thesis using that by (simp add: small31_def sint_uint unsigned_ucast_eq take_bit_int_eq_self)
  qed
  have "sint (ucast a - ucast b :: u32) = signed_take_bit 31 (uint a - uint b)"
    by (simp add: sint_word_ariths i s)
  also have "\<dots> = uint a - uint b"
  proof (rule signed_take_bit_int_eq_self)
    have "uint a \<ge> 0" "uint b \<ge> 0" by simp_all
    then show "- (2 ^ 31) \<le> uint a - uint b" "uint a - uint b < 2 ^ 31" using s unfolding small31_def by linarith+
  qed
  finally show "cmp32 a b = uint a - uint b" by (simp add: cmp32_def)
qed

interpretation d64: difference cmp64 small31
  by unfold_locales (simp add: cmp64_cmp32 d32.cmp_difference)

section \<open>Values as sets\<close>

fun accepts :: "value_type \<Rightarrow> u64 set" where
  "accepts (FixedCapability t v) = {v}"
| "accepts (IntervalCapability t a b) = {a..b}"
| "accepts (DiscreteCapability t vs) = set vs"
| "accepts _ = {}"

text \<open>Values of an element type, intervals only where they are allowed.\<close>

fun value_of :: "(u64 \<Rightarrow> bool) \<Rightarrow> bool \<Rightarrow> elem_type \<Rightarrow> value_type \<Rightarrow> bool" where
  "value_of tame iv t (FixedCapability t1 v) \<longleftrightarrow> t1 = t \<and> tame v"
| "value_of tame iv t (IntervalCapability t1 a b) \<longleftrightarrow> t1 = t \<and> iv \<and> tame a \<and> tame b \<and> a \<le> b"
| "value_of tame iv t (DiscreteCapability t1 vs) \<longleftrightarrow> t1 = t \<and> vs \<noteq> [] \<and> (\<forall>v \<in> set vs. tame v)"
| "value_of tame iv t _ \<longleftrightarrow> False"

definition intersects :: "(u64 \<Rightarrow> bool) \<Rightarrow> bool \<Rightarrow> elem_type \<Rightarrow> value_type \<Rightarrow> value_type \<Rightarrow> value_type option \<Rightarrow> bool" where
  "intersects tame iv t v1 v2 r \<longleftrightarrow>
     (case r of None \<Rightarrow> accepts v1 \<inter> accepts v2 = {}
      | Some out \<Rightarrow> value_of tame iv t out \<and> accepts out = accepts v1 \<inter> accepts v2)"

lemma some_of_cases:
  "some_of t vs = None \<longleftrightarrow> vs = []"
  "some_of t vs = Some out \<Longrightarrow> accepts out = set vs"
  "some_of t vs = Some out \<Longrightarrow> \<forall>v \<in> set vs. tame v \<Longrightarrow> value_of tame iv t out"
  by (auto simp: some_of_def length_Suc_conv split: if_splits)

context difference
begin

lemma FF: "tame a \<Longrightarrow> tame b \<Longrightarrow> intersects tame iv t (FixedCapability t a) (FixedCapability t b) (FFCapabilityCheck t cmp a b)"
  by (auto simp: intersects_def FFCapabilityCheck_def cmp_0)

lemma FI:
  assumes "tame v" "tame a" "tame b" "a \<le> b"
  shows "intersects tame iv t (FixedCapability t v) (IntervalCapability t a b) (FICapabilityCheck t cmp v (a, b))"
  using assms by (auto simp: intersects_def FICapabilityCheck_def MaxV_max MinV_min cmp_ge cmp_le max_def min_def)

lemma FD:
  assumes "tame v" "\<forall>x \<in> set vs. tame x"
  shows "intersects tame iv t (FixedCapability t v) (DiscreteCapability t vs) (FDCapabilityCheck t cmp v vs)"
  using assms by (auto simp: intersects_def FDCapabilityCheck_def list_ex_iff cmp_0)

lemma II:
  assumes "tame a" "tame b" "a \<le> b" "tame c" "tame d" "c \<le> d"
  shows "intersects tame True t (IntervalCapability t a b) (IntervalCapability t c d) (IICapabilityCheck t cmp (a, b) (c, d))"
proof -
  have t: "tame (max a c)" "tame (min b d)" using assms by (simp_all add: max_def min_def)
  have ends: "MaxV cmp a b = b" "MinV cmp a b = a" "MaxV cmp c d = d" "MinV cmp c d = c"
    using assms by (simp_all add: MaxV_max MinV_min max_absorb2 min_absorb1)
  have mm: "MaxV cmp a c = max a c" "MinV cmp b d = min b d" using assms by (simp_all add: MaxV_max MinV_min)
  have r: "IICapabilityCheck t cmp (a, b) (c, d) =
      (if min b d < max a c then None else if max a c = min b d then Some (FixedCapability t (max a c))
       else Some (IntervalCapability t (max a c) (min b d)))"
  proof -
    have "cmp (max a c) (min b d) > 0 \<longleftrightarrow> min b d < max a c" using cmp_le [OF t] by (meson not_le)
    moreover have "cmp (max a c) (min b d) = 0 \<longleftrightarrow> max a c = min b d" by (rule cmp_0 [OF t])
    ultimately show ?thesis unfolding IICapabilityCheck_def Let_def fst_conv snd_conv ends mm by simp
  qed
  have both: "{a..b} \<inter> {c..d} = {max a c..min b d}" by auto
  show ?thesis
  proof -
    consider "min b d < max a c" | "max a c = min b d" | "max a c < min b d" by (meson linorder_cases)
    then show ?thesis
    proof cases
      case 1
      then show ?thesis unfolding r intersects_def accepts.simps both by simp
    next
      case 2
      then have "{max a c..min b d} = {max a c}" by simp
      then show ?thesis unfolding r intersects_def accepts.simps both using 2 t by simp
    next
      case 3
      have n: "\<not> min b d < max a c" "max a c \<noteq> min b d" using less_not_sym [OF 3] less_imp_neq [OF 3] by blast+
      show ?thesis unfolding r intersects_def accepts.simps both if_not_P [OF n(1)] if_not_P [OF n(2)]
        using t less_imp_le [OF 3] by (simp only: option.case value_of.simps accepts.simps simp_thms)
    qed
  qed
qed

lemma ID:
  assumes "tame a" "tame b" "\<forall>x \<in> set vs. tame x"
  shows "intersects tame iv t (IntervalCapability t a b) (DiscreteCapability t vs) (IDCapabilityCheck t cmp (a, b) vs)"
proof -
  have f: "filter (\<lambda>x. cmp x (fst (a, b)) \<ge> 0 \<and> cmp x (snd (a, b)) \<le> 0) vs = filter (\<lambda>x. a \<le> x \<and> x \<le> b) vs"
    using assms by (intro filter_cong) (auto simp: cmp_ge cmp_le)
  show ?thesis unfolding IDCapabilityCheck_def f intersects_def
    using assms(3) some_of_cases [of t "filter (\<lambda>x. a \<le> x \<and> x \<le> b) vs"]
    by (auto split: option.split simp: filter_empty_conv)
qed

lemma DD:
  assumes "\<forall>x \<in> set us. tame x" "\<forall>x \<in> set vs. tame x"
  shows "intersects tame iv t (DiscreteCapability t us) (DiscreteCapability t vs) (DDCapabilityCheck t cmp us vs)"
proof -
  have f: "filter (\<lambda>x. list_ex (\<lambda>y. cmp x y = 0) vs) us = filter (\<lambda>x. x \<in> set vs) us"
    using assms by (intro filter_cong) (auto simp: list_ex_iff cmp_0)
  show ?thesis unfolding DDCapabilityCheck_def f intersects_def
    using assms(1) some_of_cases [of t "filter (\<lambda>x. x \<in> set vs) us"]
    by (auto split: option.split simp: filter_empty_conv)
qed

lemma intersects_sym: "intersects tame iv t v2 v1 r \<Longrightarrow> intersects tame iv t v1 v2 r"
  unfolding intersects_def by (simp only: Int_commute)

lemma value_check:
  assumes "value_of tame iv t v1" "value_of tame iv t v2"
  shows "intersects tame iv t v1 v2 (CapabilityValueCheck t (v1, v2) (True, iv, True) cmp)"
proof (cases v1)
  case (FixedCapability t1 a)
  then show ?thesis using assms FF FI FD
    by (cases v2) (simp_all add: CapabilityValueCheck_def FixedNumericalCapabilityCheck_def IsFixedAllowed_def
        IsIntervalAllowed_def IsDiscreteAllowed_def)
next
  case (IntervalCapability t1 a b)
  then have iv: iv using assms(1) by simp
  show ?thesis using IntervalCapability iv assms II ID intersects_sym [OF FI] intersects_sym [OF II]
    by (cases v2) (simp_all add: CapabilityValueCheck_def IntervalNumericalCapabilityCheck_def IsFixedAllowed_def
        IsIntervalAllowed_def IsDiscreteAllowed_def)
next
  case (DiscreteCapability t1 us)
  then show ?thesis using assms intersects_sym [OF FD] intersects_sym [OF ID] intersects_sym [OF DD]
    by (cases v2) (simp_all add: CapabilityValueCheck_def DiscreteNumericalCapabilityCheck_def IsFixedAllowed_def
        IsIntervalAllowed_def IsDiscreteAllowed_def)
qed (use assms in simp_all)

end

section \<open>Values of a key\<close>

definition tame_of :: "elem_type \<Rightarrow> u64 \<Rightarrow> bool" where
  "tame_of t = (if t \<in> {T_AudioSampleFormat, T_AudioAacProfile, T_AudioAacStreamFormat} then small8 else small31)"

definition interval_type :: "elem_type \<Rightarrow> bool" where
  "interval_type t \<longleftrightarrow> t = T_uint32 \<or> t = T_int64"

text \<open>
  The values the properties are about, key by key: of the key's type, below \<open>2 ^ 31\<close> (for the
  enumerations of 8 bits below \<open>2 ^ 8\<close>), an interval only where the key allows it and written from
  its smaller to its larger end, a list not empty. What is excluded the code treats differently:
  \<open>layouts_compared_in_32_bits\<close> and \<open>reversed_interval_refuses_lists\<close> below.
\<close>

definition value_ok :: "u32 \<Rightarrow> value_type \<Rightarrow> bool" where
  "value_ok k v \<longleftrightarrow> (\<exists>t. g_capExtrMap k = Some t \<and> value_of (tame_of t) (interval_type t) t v)"

definition check :: "u32 \<Rightarrow> value_type \<Rightarrow> value_type \<Rightarrow> value_type option" where
  "check k v w = (case g_capabilityValueCheckMap k of None \<Rightarrow> None | Some c \<Rightarrow> c v w)"

lemma value_check_key:
  assumes "value_ok k v" "value_ok k w"
  shows "g_capabilityValueCheckMap k \<noteq> None" "check k v w = None \<longleftrightarrow> accepts v \<inter> accepts w = {}"
    "check k v w = Some out \<Longrightarrow> value_ok k out \<and> accepts out = accepts v \<inter> accepts w"
proof -
  obtain t where t: "g_capExtrMap k = Some t" "value_of (tame_of t) (interval_type t) t v" "value_of (tame_of t) (interval_type t) t w"
    using assms by (auto simp: value_ok_def)
  consider (r32) "t = T_uint32" "g_capabilityValueCheckMap k = Some (FixInvalDiscCapValCheck T_uint32 cmp32)"
    | (r64) "t = T_int64" "g_capabilityValueCheckMap k = Some (FixInvalDiscCapValCheck T_int64 cmp64)"
    | (layout) "t = T_AudioChannelLayout" "g_capabilityValueCheckMap k = Some (FixDiscCapValCheck t cmp64)"
    | (e8) "t \<in> {T_AudioSampleFormat, T_AudioAacProfile, T_AudioAacStreamFormat}"
        "g_capabilityValueCheckMap k = Some (FixDiscCapValCheck t cmp8)"
    | (e32) "t \<in> {T_VideoPixelFormat, T_VideoBitStreamFormat}" "g_capabilityValueCheckMap k = Some (FixDiscCapValCheck t cmp32)"
    using t(1) by (simp add: g_capExtrMap_def g_capabilityValueCheckMap_def key_defs split: if_splits)
  then have r: "g_capabilityValueCheckMap k \<noteq> None \<and> intersects (tame_of t) (interval_type t) t v w (check k v w)"
  proof cases
    case r32
    then show ?thesis using d32.value_check [of True t v w] t
      by (simp add: check_def FixInvalDiscCapValCheck_def tame_of_def interval_type_def)
  next
    case r64
    then show ?thesis using d64.value_check [of True t v w] t
      by (simp add: check_def FixInvalDiscCapValCheck_def tame_of_def interval_type_def)
  next
    case layout
    then show ?thesis using d64.value_check [of False t v w] t
      by (simp add: check_def FixDiscCapValCheck_def tame_of_def interval_type_def)
  next
    case e8
    then have "tame_of t = small8" "interval_type t = False" by (auto simp: tame_of_def interval_type_def)
    then show ?thesis using e8 d8.value_check [of False t v w] t by (simp add: check_def FixDiscCapValCheck_def)
  next
    case e32
    then have "tame_of t = small31" "interval_type t = False" by (auto simp: tame_of_def interval_type_def)
    then show ?thesis using e32 d32.value_check [of False t v w] t by (simp add: check_def FixDiscCapValCheck_def)
  qed
  then show "g_capabilityValueCheckMap k \<noteq> None" by simp
  have i: "intersects (tame_of t) (interval_type t) t v w (check k v w)" using r by simp
  show "check k v w = Some out \<Longrightarrow> value_ok k out \<and> accepts out = accepts v \<inter> accepts w"
    using i t(1) by (simp add: intersects_def value_ok_def)
  have nonempty: "accepts out \<noteq> {}" if "value_of (tame_of t) (interval_type t) t out" for out
    using that by (cases out) auto
  show "check k v w = None \<longleftrightarrow> accepts v \<inter> accepts w = {}"
    using i nonempty by (auto simp: intersects_def split: option.splits)
qed

section \<open>Merging\<close>

definition cap_ok :: "capability \<Rightarrow> bool" where
  "cap_ok c \<longleftrightarrow> distinct (map fst (cp_keys c)) \<and> (\<forall>k v. smap_find (cp_keys c) k = Some v \<longrightarrow> value_ok k v)"

text \<open>What a capability accepts: a choice of a value for every key.\<close>

definition choices :: "(u32, value_type) smap \<Rightarrow> (u32 \<Rightarrow> u64) set" where
  "choices m = {f. \<forall>k v. smap_find m k = Some v \<longrightarrow> f k \<in> accepts v}"

lemma smap_find_None: "smap_find m k = None \<longleftrightarrow> k \<notin> set (map fst m)"
  by (induction m) (auto split: if_splits)

lemma smap_find_insert: "smap_find (smap_insert k v m) k' = (if k' = k \<and> smap_find m k = None then Some v else smap_find m k')"
  by (simp add: smap_insert_def smap_find_put)

lemma merge_other_find:
  "smap_find (merge_other ps res) k = (case smap_find res k of Some v \<Rightarrow> Some v | None \<Rightarrow> smap_find ps k)"
proof (induction ps arbitrary: res)
  case (Cons p ps)
  then show ?case by (cases p) (auto simp: smap_find_insert split: option.split)
qed (simp split: option.split)

definition merged :: "(u32, value_type) smap \<Rightarrow> u32 \<Rightarrow> value_type \<Rightarrow> value_type option" where
  "merged other k v = (case smap_find other k of None \<Rightarrow> Some v | Some w \<Rightarrow> check k v w)"

lemma merge_origin_run:
  assumes "distinct (map fst ps)" "\<forall>k \<in> set (map fst ps). smap_find res k = None"
    "\<And>k v w. smap_find ps k = Some v \<Longrightarrow> smap_find other k = Some w \<Longrightarrow> value_ok k v \<and> value_ok k w"
  shows "case merge_origin ps other res of (ok, r) \<Rightarrow>
    (ok \<longleftrightarrow> (\<forall>k v. smap_find ps k = Some v \<longrightarrow> merged other k v \<noteq> None)) \<and>
    (ok \<longrightarrow> (\<forall>k. smap_find r k = (case smap_find ps k of None \<Rightarrow> smap_find res k | Some v \<Rightarrow> merged other k v)))"
  using assms
proof (induction ps arbitrary: res)
  case Nil
  then show ?case by simp
next
  case (Cons p ps)
  obtain k v where p: "p = (k, v)" by force
  have k: "smap_find res k = None" "smap_find ps k = None" using Cons.prems(1,2) p by (auto simp: smap_find_None)
  have dist: "distinct (map fst ps)" using Cons.prems(1) by simp
  have oks: "value_ok j u \<and> value_ok j w" if "smap_find ps j = Some u" "smap_find other j = Some w" for j u w
    using Cons.prems(3) [of j u w] that k(2) p by (cases "j = k") auto
  have all: "(\<forall>j u. smap_find (p # ps) j = Some u \<longrightarrow> merged other j u \<noteq> None) \<longleftrightarrow>
      merged other k v \<noteq> None \<and> (\<forall>j u. smap_find ps j = Some u \<longrightarrow> merged other j u \<noteq> None)"
    using k(2) p by auto
  show ?case
  proof (cases "merged other k v")
    case None
    then obtain w where w: "smap_find other k = Some w" "check k v w = None" by (auto simp: merged_def split: option.splits)
    then have "value_ok k v" "value_ok k w" using Cons.prems(3) p by auto
    from value_check_key(1) [OF this] w have "merge_origin (p # ps) other res = (False, [])"
      by (auto simp: p check_def split: option.splits)
    then show ?thesis using None all by simp
  next
    case (Some out)
    let ?res = "smap_put k out res"
    have step: "merge_origin (p # ps) other res = merge_origin ps other ?res"
      using Some k(1) by (auto simp: p merged_def check_def smap_insert_def split: option.splits)
    have fresh: "\<forall>j \<in> set (map fst ps). smap_find ?res j = None"
      using Cons.prems(1,2) p by (auto simp: smap_find_put)
    from Cons.IH [OF dist fresh oks] show ?thesis
      unfolding step all using Some k p by (auto simp: smap_find_put split: option.split)
  qed
qed

lemma merge_keys:
  assumes a: "cap_ok a" and b: "cap_ok b"
  shows "case MergeCapabilityKeys a b r of (ok, res) \<Rightarrow> cp_mime res = cp_mime r \<and>
    (ok \<longleftrightarrow> choices (cp_keys a) \<inter> choices (cp_keys b) \<noteq> {}) \<and>
    (ok \<longrightarrow> (\<forall>k v. smap_find (cp_keys res) k = Some v \<longrightarrow> value_ok k v) \<and>
       choices (cp_keys res) = choices (cp_keys a) \<inter> choices (cp_keys b) \<and>
       (\<forall>k. smap_find (cp_keys res) k = (case smap_find (cp_keys a) k of None \<Rightarrow> smap_find (cp_keys b) k
              | Some v \<Rightarrow> merged (cp_keys b) k v)))"
proof -
  let ?a = "cp_keys a" and ?b = "cp_keys b"
  obtain ok res where m: "merge_origin ?a ?b [] = (ok, res)" by force
  have av: "value_ok k v" if "smap_find ?a k = Some v" for k v using a that by (simp add: cap_ok_def)
  have bv: "value_ok k v" if "smap_find ?b k = Some v" for k v using b that by (simp add: cap_ok_def)
  have run: "(ok \<longleftrightarrow> (\<forall>k v. smap_find ?a k = Some v \<longrightarrow> merged ?b k v \<noteq> None)) \<and>
      (ok \<longrightarrow> (\<forall>k. smap_find res k = (case smap_find ?a k of None \<Rightarrow> None | Some v \<Rightarrow> merged ?b k v)))"
    using merge_origin_run [of ?a "[]" ?b] a av bv m by (simp add: cap_ok_def cong: option.case_cong)
  have both: "merged ?b k v = None \<longleftrightarrow> (\<exists>w. smap_find ?b k = Some w \<and> accepts v \<inter> accepts w = {})"
    if "smap_find ?a k = Some v" for k v
    using value_check_key(2) [OF av [OF that] bv] by (auto simp: merged_def split: option.splits)
  have out: "value_ok k u \<and> accepts u = accepts v \<inter> (case smap_find ?b k of None \<Rightarrow> UNIV | Some w \<Rightarrow> accepts w)"
    if "smap_find ?a k = Some v" "merged ?b k v = Some u" for k v u
    using that av [OF that(1)] value_check_key(3) [OF av [OF that(1)] bv] by (auto simp: merged_def split: option.splits)
  have nonempty: "accepts u \<noteq> {}" if "value_ok k u" for k u using that by (cases u) (auto simp: value_ok_def)
  show ?thesis
  proof (cases ok)
    case False
    then obtain k v where kv: "smap_find ?a k = Some v" "merged ?b k v = None" using run by blast
    then obtain w where w: "smap_find ?b k = Some w" "accepts v \<inter> accepts w = {}" using both by blast
    have "f \<notin> choices ?a \<inter> choices ?b" for f
    proof
      assume "f \<in> choices ?a \<inter> choices ?b"
      then have "f k \<in> accepts v" "f k \<in> accepts w" using kv(1) w(1) by (simp_all add: choices_def)
      then show False using w(2) by blast
    qed
    then show ?thesis using False m by (auto simp: MergeCapabilityKeys_def)
  next
    case True
    let ?m = "merge_other ?b res"
    have res: "smap_find res k = (case smap_find ?a k of None \<Rightarrow> None | Some v \<Rightarrow> merged ?b k v)" for k using run True by blast
    have some: "merged ?b k v \<noteq> None" if "smap_find ?a k = Some v" for k v using run True that by blast
    have f: "smap_find ?m k = (case smap_find ?a k of None \<Rightarrow> smap_find ?b k | Some v \<Rightarrow> merged ?b k v)" for k
    proof (cases "smap_find ?a k")
      case None
      then show ?thesis by (simp add: merge_other_find res)
    next
      case (Some v)
      then obtain u where "merged ?b k v = Some u" using some by blast
      then show ?thesis using Some by (simp add: merge_other_find res)
    qed
    have vals: "value_ok k u" if "smap_find ?m k = Some u" for k u
      using that f out bv by (auto split: option.splits)
    have sem: "(\<forall>u. smap_find ?m k = Some u \<longrightarrow> x \<in> accepts u) \<longleftrightarrow>
        (\<forall>v. smap_find ?a k = Some v \<longrightarrow> x \<in> accepts v) \<and> (\<forall>w. smap_find ?b k = Some w \<longrightarrow> x \<in> accepts w)" for k x
    proof (cases "smap_find ?a k")
      case None
      then show ?thesis by (simp add: f)
    next
      case (Some v)
      then obtain u where u: "merged ?b k v = Some u" using some by blast
      show ?thesis using out [OF Some u] Some u by (cases "smap_find ?b k") (auto simp: f)
    qed
    have eq: "choices ?m = choices ?a \<inter> choices ?b" using sem by (auto simp: choices_def)
    have "\<exists>x. \<forall>u. smap_find ?m k = Some u \<longrightarrow> x \<in> accepts u" for k using vals [of k] nonempty [of k] by (cases "smap_find ?m k") fastforce+
    then have "\<exists>g. \<forall>k u. smap_find ?m k = Some u \<longrightarrow> g k \<in> accepts u" by metis
    then have "choices ?m \<noteq> {}" by (auto simp: choices_def)
    then show ?thesis using True m eq vals f by (simp add: MergeCapabilityKeys_def)
  qed
qed

section \<open>Metas\<close>

definition meta_ok :: "meta \<Rightarrow> bool" where
  "meta_ok m \<longleftrightarrow> (\<forall>k v. k \<in> set g_allCapabilityId \<longrightarrow> smap_find m k = Some v \<longrightarrow> value_ok k v)"

lemma known_keys: "g_capExtrMap k \<noteq> None \<longleftrightarrow> k \<in> set g_allCapabilityId" "TAG_MIME \<notin> set g_allCapabilityId"
  by (simp_all add: g_capExtrMap_def g_allCapabilityId_def key_defs)

lemma distinct_put: "distinct (map fst m) \<Longrightarrow> distinct (map fst (smap_put k v m))" if "smap_ok m"
  using smap_ok_put [OF that] by (simp add: smap_ok_def smap_keys_def strict_sorted_iff)

lemma meta_keys_find: "smap_find (meta_keys m) k = (if k \<in> set g_allCapabilityId then smap_find m k else None)"
  and meta_keys_ok: "smap_ok (meta_keys m)"
proof -
  let ?step = "\<lambda>key keys. case smap_find m key of None \<Rightarrow> keys | Some tmp \<Rightarrow> smap_put key tmp keys"
  have f: "smap_find (fold ?step ks r) k = (if k \<in> set ks \<and> smap_find m k \<noteq> None then smap_find m k else smap_find r k)" for ks r
    by (induction ks arbitrary: r) (auto simp: smap_find_put split: option.split)
  show "smap_find (meta_keys m) k = (if k \<in> set g_allCapabilityId then smap_find m k else None)"
    by (simp add: meta_keys_def f)
  have "smap_ok r \<Longrightarrow> smap_ok (fold ?step ks r)" for ks r
    by (induction ks arbitrary: r) (auto intro: smap_ok_put split: option.split)
  then show "smap_ok (meta_keys m)" by (simp add: meta_keys_def smap_ok_Nil)
qed

lemma cap_ok_meta: "meta_ok m \<Longrightarrow> cap_ok \<lparr>cp_mime = s, cp_keys = meta_keys m\<rparr>"
  using meta_keys_ok [of m]
  by (auto simp: cap_ok_def meta_ok_def meta_keys_find smap_ok_def smap_keys_def strict_sorted_iff split: if_splits)

lemma set_fixed_find:
  "distinct (map fst ps) \<Longrightarrow> smap_find (set_fixed ps m) k =
     (case smap_find ps k of None \<Rightarrow> smap_find m k
      | Some v \<Rightarrow> (case g_capExtrMap k of None \<Rightarrow> smap_find m k
          | Some t \<Rightarrow> (case ExtractFixedCap t v of None \<Rightarrow> smap_find m k | Some u \<Rightarrow> Some u)))"
proof (induction ps arbitrary: m)
  case (Cons p ps)
  obtain j v where p: "p = (j, v)" by force
  have "smap_find ps j = None" using Cons.prems p by (simp add: smap_find_None)
  then show ?case using Cons p by (auto simp: smap_find_put split: option.split)
qed simp

lemma extract_ok:
  assumes "value_ok k v"
  obtains t a where "g_capExtrMap k = Some t" "ExtractFixedCap t v = Some (FixedCapability t a)" "a \<in> accepts v"
  using assms by (cases v) (auto simp: value_ok_def ExtractFixedCap_def)

lemma merge_other_distinct:
  "distinct (map fst res) \<Longrightarrow> smap_ok res \<Longrightarrow> smap_ok (merge_other ps res)"
proof (induction ps arbitrary: res)
  case (Cons p ps)
  then show ?case by (cases p) (auto simp: smap_insert_def smap_ok_put distinct_put)
qed simp

lemma merge_origin_ok: "smap_ok res \<Longrightarrow> smap_ok (snd (merge_origin ps other res))"
  by (induction ps other res rule: merge_origin.induct)
    (auto simp: smap_insert_def smap_ok_Nil smap_ok_put split: option.split)

lemma MergeCapabilityKeys_ok: "smap_ok (cp_keys (snd (MergeCapabilityKeys a b r)))"
proof -
  have ok: "smap_ok (snd (merge_origin (cp_keys a) (cp_keys b) []))" by (rule merge_origin_ok) (rule smap_ok_Nil)
  then have "distinct (map fst (snd (merge_origin (cp_keys a) (cp_keys b) [])))"
    by (simp add: smap_ok_def smap_keys_def strict_sorted_iff)
  from merge_other_distinct [OF this ok] ok show ?thesis
    by (cases "merge_origin (cp_keys a) (cp_keys b) []") (simp add: MergeCapabilityKeys_def)
qed

section \<open>Properties\<close>




definition ex_cap :: "string \<Rightarrow> (u32 \<times> value_type) list \<Rightarrow> capability" where
  "ex_cap mime keys = \<lparr>cp_mime = mime, cp_keys = keys\<rparr>"


text \<open>A key of the merge of a meta with a capability: there is a value, and both accept what it accepts.\<close>

lemma negotiated_some:
  assumes "meta_ok m" "cap_ok c" and ne: "choices (meta_keys m) \<inter> choices (cp_keys c) \<noteq> {}"
    and find: "smap_find keys j = (case smap_find (meta_keys m) j of None \<Rightarrow> smap_find (cp_keys c) j | Some v \<Rightarrow> merged (cp_keys c) j v)"
    and j: "j \<in> set g_allCapabilityId" "smap_find m j \<noteq> None \<or> smap_find (cp_keys c) j \<noteq> None"
  shows "\<exists>u. smap_find keys j = Some u"
proof (cases "smap_find m j")
  case None
  then show ?thesis using j find by (simp add: meta_keys_find)
next
  case (Some v)
  have mj: "smap_find (meta_keys m) j = Some v" using j(1) Some by (simp add: meta_keys_find)
  have v: "value_ok j v" using assms(1) j(1) Some by (simp add: meta_ok_def)
  obtain h where h: "h \<in> choices (meta_keys m)" "h \<in> choices (cp_keys c)" using ne by blast
  have "merged (cp_keys c) j v \<noteq> None"
  proof (cases "smap_find (cp_keys c) j")
    case None
    then show ?thesis by (simp add: merged_def)
  next
    case w: (Some w)
    have "value_ok j w" using assms(2) w by (simp add: cap_ok_def)
    moreover have "h j \<in> accepts v \<inter> accepts w" using h w mj by (auto simp: choices_def)
    ultimately show ?thesis using value_check_key(2) [OF v, of w] w by (auto simp: merged_def)
  qed
  then show ?thesis using mj find by simp
qed

lemma negotiated_accepts:
  assumes "meta_ok m" "cap_ok c"
    and find: "smap_find keys j = (case smap_find (meta_keys m) j of None \<Rightarrow> smap_find (cp_keys c) j | Some v \<Rightarrow> merged (cp_keys c) j v)"
    and u: "smap_find keys j = Some u" "a \<in> accepts u" and j: "j \<in> set g_allCapabilityId"
  shows "(\<forall>v. smap_find m j = Some v \<longrightarrow> a \<in> accepts v) \<and> (\<forall>v. smap_find (cp_keys c) j = Some v \<longrightarrow> a \<in> accepts v)"
proof (cases "smap_find m j")
  case None
  then show ?thesis using u find j by (simp add: meta_keys_find)
next
  case (Some v)
  then have mv: "merged (cp_keys c) j v = Some u" using u find j by (simp add: meta_keys_find)
  have v: "value_ok j v" using assms(1) j Some by (simp add: meta_ok_def)
  show ?thesis
  proof (cases "smap_find (cp_keys c) j")
    case None
    then show ?thesis using Some mv u(2) by (simp add: merged_def)
  next
    case w: (Some w)
    then have "check j v w = Some u" using mv by (simp add: merged_def)
    moreover have "value_ok j w" using assms(2) w by (simp add: cap_ok_def)
    ultimately have "accepts u = accepts v \<inter> accepts w" using value_check_key(3) [OF v] by blast
    then show ?thesis using Some w u(2) by simp
  qed
qed

text \<open>
  The meta negotiated with a capability is fixed: when the merge succeeds, every key of the
  negotiation that the meta or the capability speaks of has one fixed value, which both accept, the
  mime type is the capability's, and everything else is as in the meta; it fails exactly when the
  capability's mime type is malformed or no values suit both.
\<close>

theorem negotiated_meta_is_fixed:
  assumes "meta_ok m" "cap_ok c"
  shows "case MergeMetaWithCapability m c of (ok, res) \<Rightarrow>
    (ok \<longleftrightarrow> IsSubsetMime (cp_mime c) (cp_mime c) \<and> choices (meta_keys m) \<inter> choices (cp_keys c) \<noteq> {}) \<and>
    (ok \<longrightarrow> smap_find res TAG_MIME = Some (StringValue (cp_mime c)) \<and>
       (\<forall>k \<in> set g_allCapabilityId. smap_find m k \<noteq> None \<or> smap_find (cp_keys c) k \<noteq> None \<longrightarrow>
          (\<exists>t a. smap_find res k = Some (FixedCapability t a) \<and>
             (\<forall>v. smap_find m k = Some v \<longrightarrow> a \<in> accepts v) \<and> (\<forall>v. smap_find (cp_keys c) k = Some v \<longrightarrow> a \<in> accepts v))) \<and>
       (\<forall>k. k \<noteq> TAG_MIME \<longrightarrow> smap_find m k = None \<or> k \<notin> set g_allCapabilityId \<longrightarrow> smap_find (cp_keys c) k = None \<longrightarrow>
          smap_find res k = smap_find m k))"
proof -
  let ?a = "\<lparr>cp_mime = cp_mime c, cp_keys = meta_keys m\<rparr>" and ?r = "\<lparr>cp_mime = [], cp_keys = []\<rparr> :: capability"
  let ?m = "smap_put TAG_MIME (StringValue (cp_mime c)) m"
  have ca: "cap_ok ?a" by (rule cap_ok_meta [OF assms(1)])
  obtain ok res where mk: "MergeCapabilityKeys ?a c ?r = (ok, res)" by force
  note k = merge_keys [OF ca assms(2), of ?r, unfolded mk, simplified]
  have dist: "distinct (map fst (cp_keys res))"
    using MergeCapabilityKeys_ok [of ?a c ?r] mk by (simp add: smap_ok_def smap_keys_def strict_sorted_iff)
  show ?thesis
  proof (cases "IsSubsetMime (cp_mime c) (cp_mime c) \<and> ok")
    case False
    then have "MergeMetaWithCapability m c = (False, [])"
      using mk by (auto simp: MergeMetaWithCapability_def MergeCapability_def Let_def split: prod.split)
    then show ?thesis using False k by auto
  next
    case True
    then have ok: ok and mm: "MergeMetaWithCapability m c = (True, set_fixed (cp_keys res) ?m)"
      using mk by (auto simp: MergeMetaWithCapability_def MergeCapability_def Let_def)
    let ?f = "smap_find (set_fixed (cp_keys res) ?m)"
    have vals: "value_ok j v" if "smap_find (cp_keys res) j = Some v" for j v using k ok that by blast
    have find: "smap_find (cp_keys res) j = (case smap_find (meta_keys m) j of None \<Rightarrow> smap_find (cp_keys c) j
              | Some v \<Rightarrow> merged (cp_keys c) j v)" for j using k ok by blast
    have unknown: "smap_find (cp_keys res) j = None" if "j \<notin> set g_allCapabilityId" for j
      using vals [of j] that known_keys(1) [of j] by (cases "smap_find (cp_keys res) j") (auto simp: value_ok_def)
    have mime: "?f TAG_MIME = Some (StringValue (cp_mime c))"
      using unknown [OF known_keys(2)] by (simp add: set_fixed_find [OF dist] smap_find_put)
    have ne: "choices (meta_keys m) \<inter> choices (cp_keys c) \<noteq> {}" using k ok by blast
    have fixed: "\<exists>t a. ?f j = Some (FixedCapability t a) \<and>
             (\<forall>v. smap_find m j = Some v \<longrightarrow> a \<in> accepts v) \<and> (\<forall>v. smap_find (cp_keys c) j = Some v \<longrightarrow> a \<in> accepts v)"
      if j: "j \<in> set g_allCapabilityId" "smap_find m j \<noteq> None \<or> smap_find (cp_keys c) j \<noteq> None" for j
    proof -
      obtain u where u: "smap_find (cp_keys res) j = Some u" using negotiated_some [OF assms ne find [of j] j] by blast
      obtain t a where e: "g_capExtrMap j = Some t" "ExtractFixedCap t u = Some (FixedCapability t a)" "a \<in> accepts u"
        by (rule extract_ok [OF vals [OF u]])
      have "?f j = Some (FixedCapability t a)" by (simp add: set_fixed_find [OF dist] u e)
      then show ?thesis using negotiated_accepts [OF assms find [of j] u e(3) j(1)] by blast
    qed
    have rest: "?f j = smap_find m j" if "j \<noteq> TAG_MIME" "smap_find m j = None \<or> j \<notin> set g_allCapabilityId" "smap_find (cp_keys c) j = None" for j
    proof -
      have "smap_find (cp_keys res) j = None" using that find by (auto simp: meta_keys_find)
      then show ?thesis using that(1) by (simp add: set_fixed_find [OF dist] smap_find_put)
    qed
    show ?thesis unfolding mm using True mime fixed rest ne by simp
  qed
qed

theorem negotiated_meta_is_fixed_witness:
  "\<exists>t a. smap_find (snd (MergeMetaWithCapability [(AUDIO_CHANNELS, FixedCapability T_uint32 2)]
       (ex_cap ''audio/raw'' [(AUDIO_CHANNELS, IntervalCapability T_uint32 1 6)]))) AUDIO_CHANNELS = Some (FixedCapability t a) \<and>
     a \<in> accepts (IntervalCapability T_uint32 1 6)"
proof -
  let ?m = "[(AUDIO_CHANNELS, FixedCapability T_uint32 2)]" and ?c = "ex_cap ''audio/raw'' [(AUDIO_CHANNELS, IntervalCapability T_uint32 1 6)]"
  have ok: "meta_ok ?m" "cap_ok ?c"
    by (auto simp: ex_cap_def meta_ok_def cap_ok_def value_ok_def g_capExtrMap_def key_defs tame_of_def interval_type_def small31_def word_le_nat_alt
        split: if_splits)
  have k: "AUDIO_CHANNELS \<in> set g_allCapabilityId" by (simp add: g_allCapabilityId_def)
  have "(\<lambda>_. 2) \<in> choices (meta_keys ?m) \<inter> choices (cp_keys ?c)"
    by (auto simp: ex_cap_def choices_def meta_keys_find word_le_nat_alt split: if_splits)
  then have ne: "choices (meta_keys ?m) \<inter> choices (cp_keys ?c) \<noteq> {}" by blast
  have mime: "IsSubsetMime (cp_mime ?c) (cp_mime ?c)" unfolding ex_cap_def by code_simp
  obtain b res where r: "MergeMetaWithCapability ?m ?c = (b, res)" by force
  note p = negotiated_meta_is_fixed [OF ok, unfolded r prod.case]
  have b using p ne mime by blast
  then have "\<exists>t a. smap_find res AUDIO_CHANNELS = Some (FixedCapability t a) \<and>
      (\<forall>v. smap_find (cp_keys ?c) AUDIO_CHANNELS = Some v \<longrightarrow> a \<in> accepts v)" using p k by fastforce
  then show ?thesis unfolding r snd_conv by (simp add: ex_cap_def)
qed

text \<open>
  Channel layouts are told apart by their lower 32 bits only, because the comparison function
  answers an \<open>int\<close>: two layouts that differ only in channels of the upper half count as the same,
  5.1.2 as 5.1 for one.
\<close>

theorem layouts_compared_in_32_bits:
  "\<exists>c. g_capabilityValueCheckMap AUDIO_CHANNEL_LAYOUT = Some c \<and>
     (\<forall>a b. c (FixedCapability T_AudioChannelLayout a) (FixedCapability T_AudioChannelLayout b) =
        (if (ucast a :: u32) = ucast b then Some (FixedCapability T_AudioChannelLayout a) else None)) \<and>
     c (FixedCapability T_AudioChannelLayout 0x300000060F) (FixedCapability T_AudioChannelLayout 0x60F) =
        Some (FixedCapability T_AudioChannelLayout 0x300000060F)"
proof -
  have "cmp64 a b = 0 \<longleftrightarrow> (ucast a :: u32) = ucast b" for a b
    unfolding cmp64_cmp32 cmp32_def by (metis right_minus_eq signed_0 signed_word_eqI)
  then have f: "FixDiscCapValCheck T_AudioChannelLayout cmp64 (FixedCapability T_AudioChannelLayout a) (FixedCapability T_AudioChannelLayout b) =
      (if (ucast a :: u32) = ucast b then Some (FixedCapability T_AudioChannelLayout a) else None)" for a b
    by (simp add: FixDiscCapValCheck_def CapabilityValueCheck_def FixedNumericalCapabilityCheck_def FFCapabilityCheck_def IsFixedAllowed_def)
  have "(ucast (0x300000060F :: u64) :: u32) = ucast (0x60F :: u64)" by simp
  then show ?thesis using f by (simp add: g_capabilityValueCheckMap_def key_defs)
qed

text \<open>An interval written from its larger to its smaller end accepts a value, but no list of it.\<close>

lemma reversed_interval_refuses_lists:
  "FixInvalDiscCapValCheck T_uint32 cmp32 (IntervalCapability T_uint32 48000 8000) (FixedCapability T_uint32 44100) =
     Some (FixedCapability T_uint32 44100)"
  "FixInvalDiscCapValCheck T_uint32 cmp32 (IntervalCapability T_uint32 48000 8000) (DiscreteCapability T_uint32 [44100]) = None"
  by code_simp+

end
