(* ===== verification/Sync_Sinks.thy ===== *)
theory Sync_Sinks
  imports Media_Sync Media_Source
begin

text \<open>
  How the sinks write a frame against the clock: \<open>DoSyncWrite\<close> and \<open>ResetSyncInfo\<close> of
  engine/pipeline/filters/sink/audio_sink/audio_sink_filter.cpp and
  engine/pipeline/filters/sink/video_sink/video_sink_filter.cpp. Arguments are the system clock
  (\<open>now\<close>), the latency the plugin reports (0 when it cannot), the result of the plugin's
  \<open>Write\<close> (\<open>wr\<close>) and the sink's number; the last component tells whether the plugin's \<open>Write\<close> was
  called. The sync center lives as long as the sinks.
\<close>

record frame =
  fr_eos :: bool
  fr_key :: bool
  fr_pts :: int
  fr_duration :: int

record audio_sink =
  as_reportAnchorDuration :: int
  as_lastReportedClockTime :: int
  as_forceUpdate :: bool
  as_latestPts :: int
  as_latestDuration :: int

definition audio_DoSyncWrite ::
  "int \<Rightarrow> int \<Rightarrow> status \<Rightarrow> nat \<Rightarrow> frame \<Rightarrow> audio_sink \<Rightarrow> 'r sync_manager \<Rightarrow> error_code \<times> bool \<times> audio_sink \<times> 'r sync_manager"
where
  "audio_DoSyncWrite now latency wr i buffer a s =
     (let (render, a2, s2) =
        (if fr_eos buffer then (True, a, s)
         else let nowCt = GetClockTimeNow now s;
                  (render, a1, s1) =
                    (if as_lastReportedClockTime a = HST_TIME_NONE \<or>
                        as_lastReportedClockTime a + as_reportAnchorDuration a \<le> nowCt \<or> as_forceUpdate a
                     then case UpdateTimeAnchor (nowCt + latency) (fr_pts buffer) (Some i) s of (render, s1) \<Rightarrow>
                            (render, a\<lparr>as_lastReportedClockTime := nowCt, as_forceUpdate := True\<rparr>, s1)
                     else (True, a, s))
              in (render, a1\<lparr>as_latestPts := fr_pts buffer, as_latestDuration := fr_duration buffer\<rparr>, s1))
      in if \<not> render then (EC_SUCCESS, False, a2, s2) else (TranslatePluginStatus wr, True, a2, s2))"

definition audio_ResetSyncInfo :: "nat \<Rightarrow> audio_sink \<Rightarrow> 'r sync_manager \<Rightarrow> audio_sink \<times> 'r sync_manager" where
  "audio_ResetSyncInfo i a s =
     (a\<lparr>as_lastReportedClockTime := HST_TIME_NONE, as_latestPts := HST_TIME_NONE, as_latestDuration := HST_TIME_NONE\<rparr>,
      ResetPrerollReported i s)"

record video_sink =
  vs_isFirstFrame :: bool
  vs_forceRenderNextFrame :: bool
  vs_renderFrameCnt :: nat
  vs_discardFrameCnt :: nat

text \<open>The answer, and the milliseconds slept for a frame that is early.\<close>

definition CheckBufferLatenessMayWait :: "'r time_arith \<Rightarrow> int \<Rightarrow> int \<Rightarrow> frame \<Rightarrow> 'r sync_manager \<Rightarrow> bool \<times> int" where
  "CheckBufferLatenessMayWait A now latency buffer s =
     (let ct4Buffer = GetClockTime A (fr_pts buffer) s
      in if ct4Buffer \<noteq> HST_TIME_NONE then
           let nowCt = GetClockTimeNow now s;
               diff = nowCt + latency - ct4Buffer;
               slept = (if diff < 0 then HstTime2Ms (0 - diff) else 0);
               tooLate = (\<not> diff < 0 \<and> diff > 0 \<and> HstTime2Ms diff > 40)
           in (tooLate \<and> \<not> fr_key buffer, slept)
         else (False, 0))"

definition video_DoSyncWrite ::
  "'r time_arith \<Rightarrow> int \<Rightarrow> int \<Rightarrow> status \<Rightarrow> nat \<Rightarrow> frame \<Rightarrow> video_sink \<Rightarrow> 'r sync_manager \<Rightarrow>
   error_code \<times> bool \<times> video_sink \<times> 'r sync_manager"
where
  "video_DoSyncWrite A now latency wr i buffer v s =
     (let (shouldDrop, render, v2, s2) =
        (if fr_eos buffer then (False, True, v, s)
         else let (drop, render, v1, s1) =
                    (if vs_isFirstFrame v
                     then case UpdateTimeAnchor (GetClockTimeNow now s + latency) (fr_pts buffer) (Some i) s of (render, s1) \<Rightarrow>
                            (False, render, v\<lparr>vs_isFirstFrame := False\<rparr>, s1)
                     else (fst (CheckBufferLatenessMayWait A now latency buffer s), True, v, s))
              in if vs_forceRenderNextFrame v1 then (False, render, v1\<lparr>vs_forceRenderNextFrame := False\<rparr>, s1)
                 else (drop, render, v1, s1))
      in if shouldDrop then (EC_SUCCESS, False, v2\<lparr>vs_discardFrameCnt := vs_discardFrameCnt v2 + 1\<rparr>, s2)
         else if \<not> render then (EC_SUCCESS, False, v2\<lparr>vs_discardFrameCnt := vs_discardFrameCnt v2 + 1\<rparr>, s2)
         else (TranslatePluginStatus wr, True, v2\<lparr>vs_renderFrameCnt := vs_renderFrameCnt v2 + 1\<rparr>, s2))"

definition video_ResetSyncInfo :: "nat \<Rightarrow> video_sink \<Rightarrow> 'r sync_manager \<Rightarrow> video_sink \<times> 'r sync_manager" where
  "video_ResetSyncInfo i v s = (v\<lparr>vs_isFirstFrame := True\<rparr>, ResetPrerollReported i s)"

end
