(* ===== verification/Sync_Props.thy ===== *)
theory Sync_Props
  imports Sync_Sinks
begin

text \<open>
  The clock counts the time that was played and nothing else, it follows the sink of the highest
  priority, the sinks are let go together, and what the sinks make of it.
\<close>

section \<open>Pauses\<close>

text \<open>Pauses (\<open>True\<close>) and resumes (\<open>False\<close>) with the time they come at.\<close>

definition switch :: "'r time_arith \<Rightarrow> bool \<times> int \<Rightarrow> 'r sync_manager \<Rightarrow> 'r sync_manager" where
  "switch A op s = (if fst op then snd (sm_Pause A (snd op) s) else snd (sm_Resume (snd op) s))"

text \<open>The specification: the time played since \<open>since\<close>, when the clock \<open>runs\<close> at first.\<close>

fun played :: "bool \<Rightarrow> int \<Rightarrow> (bool \<times> int) list \<Rightarrow> int \<Rightarrow> int" where
  "played runs since [] now = (if runs then now - since else 0)"
| "played runs since ((pause, t) # ops) now = (if runs then t - since else 0) + played (\<not> pause) t ops now"

lemma played_bounds:
  "sorted (since # map snd ops @ [now]) \<Longrightarrow> 0 \<le> played runs since ops now \<and> played runs since ops now \<le> now - since"
proof (induction ops arbitrary: runs since)
  case (Cons op ops)
  obtain p t where op: "op = (p, t)" by force
  have s: "sorted (t # map snd ops @ [now])" "since \<le> t" using Cons.prems op by auto
  show ?case using Cons.IH [OF s(1), of "\<not> p"] s(2) op by auto
qed auto

text \<open>The clock at rate 1: at time \<open>c\<close> it runs or is paused, and the media time is \<open>m\<close>.\<close>

definition clock_at :: "'r time_arith \<Rightarrow> bool \<Rightarrow> int \<Rightarrow> int \<Rightarrow> 'r sync_manager \<Rightarrow> bool" where
  "clock_at A runs c m s \<longleftrightarrow> \<not> sm_isSeeking s \<and> sm_playRate s = ar_one A \<and> sm_alreadyWait s \<and> 0 \<le> c \<and> 0 \<le> m \<and>
     (if runs then sm_clockState s = RESUMED \<and> 0 \<le> sm_anchorClock s \<and> sm_anchorClock s \<le> c \<and> 0 \<le> sm_anchorMedia s \<and>
           sm_anchorMedia s + (c - sm_anchorClock s) = m
      else sm_clockState s = PAUSED \<and> sm_pausedMedia s = m)"

definition in_range :: "'r sync_manager \<Rightarrow> int \<Rightarrow> int \<Rightarrow> bool" where
  "in_range s lo hi \<longleftrightarrow> (sm_minStart s = HST_TIME_NONE \<or> sm_minStart s \<le> lo) \<and> (sm_maxEnd s = HST_TIME_NONE \<or> hi \<le> sm_maxEnd s)"

definition exact_at_one :: "'r time_arith \<Rightarrow> bool" where
  "exact_at_one A \<longleftrightarrow> \<not> ar_zero A (ar_one A) \<and> (\<forall>a d. 0 \<le> a \<longrightarrow> 0 \<le> d \<longrightarrow> a + d \<le> 2 ^ 53 \<longrightarrow> ar_media A a d (ar_one A) = a + d)"

lemma clip_in_range: "in_range s lo hi \<Longrightarrow> lo \<le> t \<Longrightarrow> t \<le> hi \<Longrightarrow> ClipMediaTime s t = t"
  by (auto simp: in_range_def ClipMediaTime_def Let_def)

lemma running_media_time:
  assumes "clock_at A True c m s" "exact_at_one A" "c \<le> t" "m + (t - c) \<le> 2 ^ 53"
  shows "SimpleGetMediaTime A (sm_anchorClock s) t (sm_anchorMedia s) (sm_playRate s) = m + (t - c)"
proof -
  have a: "sm_anchorMedia s + (c - sm_anchorClock s) = m" "0 \<le> sm_anchorClock s" "sm_anchorClock s \<le> c" "0 \<le> sm_anchorMedia s"
    "sm_playRate s = ar_one A" using assms(1) by (simp_all add: clock_at_def)
  then have "sm_anchorMedia s + (t - sm_anchorClock s) \<le> 2 ^ 53" "0 \<le> t - sm_anchorClock s" using assms(3,4) by linarith+
  then have "ar_media A (sm_anchorMedia s) (t - sm_anchorClock s) (ar_one A) = sm_anchorMedia s + (t - sm_anchorClock s)"
    using assms(2) a(4) unfolding exact_at_one_def by blast
  then show ?thesis using a assms(2,3) by (simp add: SimpleGetMediaTime_def exact_at_one_def)
qed

lemma clock_reads:
  assumes "clock_at A runs c m s" "exact_at_one A" "in_range s lo hi" "lo \<le> m" "m + played runs c [] now \<le> hi"
    "hi \<le> 2 ^ 53" "c \<le> now"
  shows "GetMediaTimeNow A now s = m + played runs c [] now"
proof (cases runs)
  case True
  have "ClipMediaTime s (m + (now - c)) = m + (now - c)"
    by (rule clip_in_range [OF assms(3)]) (use assms True in auto)
  then show ?thesis using assms True running_media_time [of A c m s now] by (simp add: GetMediaTimeNow_def clock_at_def)
next
  case False
  then show ?thesis using assms(1) by (simp add: GetMediaTimeNow_def clock_at_def)
qed

lemma clock_switch:
  assumes "clock_at A runs c m s" "exact_at_one A" "in_range s lo hi" "lo \<le> m" "m + played runs c [] t \<le> hi"
    "hi \<le> 2 ^ 53" "c \<le> t"
  shows "clock_at A (\<not> pause) t (m + played runs c [] t) (switch A (pause, t) s) \<and> in_range (switch A (pause, t) s) lo hi"
proof (cases runs; cases pause)
  assume r: runs "\<not> pause"
  then show ?thesis using assms by (auto simp: switch_def sm_Resume_def clock_at_def Let_def)
next
  assume r: "\<not> runs" pause
  then show ?thesis using assms by (auto simp: switch_def sm_Pause_def clock_at_def Let_def)
next
  assume r: "\<not> runs" "\<not> pause"
  then show ?thesis using assms
    by (auto simp: switch_def sm_Resume_def clock_at_def Let_def SimpleUpdateTimeAnchor_def SetAllSyncShouldWaitNoLock_def in_range_def)
next
  assume r: runs pause
  have m: "m + (t - c) \<le> 2 ^ 53" "lo \<le> m + (t - c)" "m + (t - c) \<le> hi" using assms r by auto
  have "SimpleGetMediaTime A (sm_anchorClock s) t (sm_anchorMedia s) (sm_playRate s) = m + (t - c)"
    by (rule running_media_time) (use assms m r in auto)
  moreover have "in_range (s\<lparr>sm_pausedClock := t\<rparr>) lo hi" using assms(3) by (simp add: in_range_def)
  from clip_in_range [OF this m(2,3)] have "ClipMediaTime (s\<lparr>sm_pausedClock := t\<rparr>) (m + (t - c)) = m + (t - c)" .
  ultimately show ?thesis using assms r by (auto simp: switch_def sm_Pause_def clock_at_def Let_def in_range_def)
qed

lemma clock_run:
  assumes "exact_at_one A" "hi \<le> 2 ^ 53"
  shows "clock_at A runs c m s \<Longrightarrow> in_range s lo hi \<Longrightarrow> lo \<le> m \<Longrightarrow> sorted (c # map snd ops @ [now]) \<Longrightarrow>
    m + played runs c ops now \<le> hi \<Longrightarrow> GetMediaTimeNow A now (fold (switch A) ops s) = m + played runs c ops now"
proof (induction ops arbitrary: runs c m s)
  case Nil
  then show ?case using clock_reads [of A runs c m s lo hi now] assms by simp
next
  case (Cons op ops)
  obtain pause t where op: "op = (pause, t)" by force
  have s: "sorted (t # map snd ops @ [now])" "c \<le> t" using Cons.prems(4) op by auto
  have p: "played runs c (op # ops) now = played runs c [] t + played (\<not> pause) t ops now" by (simp add: op)
  have b: "0 \<le> played (\<not> pause) t ops now" "0 \<le> played runs c [] t" using played_bounds [OF s(1)] s(2) by auto
  then have "m + played runs c [] t \<le> hi" using Cons.prems(5) p by linarith
  from clock_switch [OF Cons.prems(1) assms(1) Cons.prems(2,3) this assms(2) s(2), of pause]
  have sw: "clock_at A (\<not> pause) t (m + played runs c [] t) (switch A op s)" "in_range (switch A op s) lo hi" by (simp_all add: op)
  have "lo \<le> m + played runs c [] t" "m + played runs c [] t + played (\<not> pause) t ops now \<le> hi"
    using Cons.prems(3,5) b p by linarith+
  from Cons.IH [OF sw this(1) s(1) this(2)] show ?case by (simp add: p)
qed

section \<open>Anchors\<close>

text \<open>Reports of clock and media time by synchronizers, and the state after them.\<close>

definition reported :: "(int \<times> int \<times> nat) list \<Rightarrow> 'r sync_manager \<Rightarrow> 'r sync_manager" where
  "reported rs s = fold (\<lambda>(c, m, i) s. snd (UpdateTimeAnchor c m (Some i) s)) rs s"

lemma UpdateTimeAnchor_frame:
  "sm_syncers (snd (UpdateTimeAnchor c m sp s)) = sm_syncers s" "sm_sinks (snd (UpdateTimeAnchor c m sp s)) = sm_sinks s"
  by (simp_all add: UpdateTimeAnchor_def SimpleUpdateTimeAnchor_def Let_def split: option.split)

lemma UpdateTimeAnchor_anchor:
  assumes "c \<noteq> -1" "m \<noteq> -1"
  shows "let s' = snd (UpdateTimeAnchor c m (Some i) s); wins = i \<in> set (sm_syncers s) \<and> sm_priority s \<le> ss_priority (sm_sinks s i)
    in sm_priority s' = (if wins then ss_priority (sm_sinks s i) else sm_priority s) \<and>
       (sm_anchorClock s', sm_anchorMedia s') = (if wins then (c, m) else (sm_anchorClock s, sm_anchorMedia s))"
  using assms by (simp add: UpdateTimeAnchor_def SimpleUpdateTimeAnchor_def Let_def IsSupplierValid_def GetPriority_def)

lemma reported_snoc: "reported (rs @ [(c, m, i)]) s = snd (UpdateTimeAnchor c m (Some i) (reported rs s))"
  by (simp add: reported_def)

lemma reported_frame: "sm_syncers (reported rs s) = sm_syncers s" "sm_sinks (reported rs s) = sm_sinks s"
  by (induction rs rule: rev_induct) (auto simp: reported_def UpdateTimeAnchor_frame split: prod.split)

lemma anchor_run:
  fixes s :: "'r sync_manager"
  assumes "sm_priority s = PRIORITY_NONE" "\<forall>i \<in> set (sm_syncers s). PRIORITY_NONE \<le> ss_priority (sm_sinks s i)"
    "\<forall>(c, m, i) \<in> set rs. c \<noteq> -1 \<and> m \<noteq> -1"
  defines "valid \<equiv> filter (\<lambda>(c, m, i). i \<in> set (sm_syncers s)) rs"
    and "prio \<equiv> \<lambda>(c :: int, m :: int, i). ss_priority (sm_sinks s i)"
  shows "(valid = [] \<longrightarrow> sm_priority (reported rs s) = PRIORITY_NONE \<and>
      (sm_anchorClock (reported rs s), sm_anchorMedia (reported rs s)) = (sm_anchorClock s, sm_anchorMedia s)) \<and>
    (valid \<noteq> [] \<longrightarrow> sm_priority (reported rs s) = Max (prio ` set valid) \<and>
      (\<exists>i. (sm_anchorClock (reported rs s), sm_anchorMedia (reported rs s), i) =
         last (filter (\<lambda>r. prio r = Max (prio ` set valid)) valid)))"
  using assms(3) unfolding valid_def
proof (induction rs rule: rev_induct)
  case Nil
  then show ?case using assms(1) by (simp add: reported_def)
next
  case (snoc r rs)
  obtain c m i where r: "r = (c, m, i)" by (cases r)
  let ?v = "filter (\<lambda>(c, m, i). i \<in> set (sm_syncers s)) rs"
  let ?s = "reported rs s"
  have nn: "c \<noteq> -1" "m \<noteq> -1" "\<forall>(c, m, i) \<in> set rs. c \<noteq> -1 \<and> m \<noteq> -1" using snoc.prems r by auto
  note IH = snoc.IH [OF nn(3)]
  have upd: "sm_priority (reported (rs @ [r]) s) =
        (if i \<in> set (sm_syncers s) \<and> sm_priority ?s \<le> prio r then prio r else sm_priority ?s)"
    "(sm_anchorClock (reported (rs @ [r]) s), sm_anchorMedia (reported (rs @ [r]) s)) =
        (if i \<in> set (sm_syncers s) \<and> sm_priority ?s \<le> prio r then (c, m) else (sm_anchorClock ?s, sm_anchorMedia ?s))"
    using UpdateTimeAnchor_anchor [OF nn(1,2), of i ?s]
    by (simp_all add: r reported_snoc reported_frame prio_def Let_def split: if_splits)
  show ?case
  proof (cases "i \<in> set (sm_syncers s)")
    case False
    then show ?thesis using IH upd by (simp add: r)
  next
    case True
    then have v: "filter (\<lambda>(c, m, i). i \<in> set (sm_syncers s)) (rs @ [r]) = ?v @ [r]" by (simp add: r)
    have low: "PRIORITY_NONE \<le> prio r" using assms(2) True by (simp add: r prio_def)
    show ?thesis
    proof (cases "?v = []")
      case True
      then show ?thesis using IH upd v low \<open>i \<in> _\<close> by (simp add: r)
    next
      case False
      have fin: "finite (prio ` set ?v)" "prio ` set ?v \<noteq> {}" using False unfolding image_is_empty set_empty by simp_all
      have mx: "Max (prio ` set (?v @ [r])) = max (prio r) (Max (prio ` set ?v))" using fin by simp
      have ps: "sm_priority ?s = Max (prio ` set ?v)" using IH False by blast
      show ?thesis
      proof (cases "Max (prio ` set ?v) \<le> prio r")
        case le: True
        have "last (filter (\<lambda>q. prio q = Max (prio ` set (?v @ [r]))) (?v @ [r])) = r" using mx le by simp
        then show ?thesis unfolding v using upd ps le True mx by (simp add: r)
      next
        case gt: False
        have "filter (\<lambda>q. prio q = Max (prio ` set (?v @ [r]))) (?v @ [r]) = filter (\<lambda>q. prio q = Max (prio ` set ?v)) ?v"
          using mx gt by simp
        then show ?thesis unfolding v using upd ps gt True mx IH False by (simp add: r)
      qed
    qed
  qed
qed

section \<open>Prerolling\<close>

lemma sinks_upd: "sm_sinks (upd_sink i h s) = (sm_sinks s)(i := h (sm_sinks s i))" "sm_syncers (upd_sink i h s) = sm_syncers s"
  "sm_prerolled (upd_sink i h s) = sm_prerolled s" "sm_shouldPreroll (upd_sink i h s) = sm_shouldPreroll s"
  by (simp_all add: upd_sink_def)

lemma notify_all:
  "sm_sinks (fold sink_NotifyAllPrerolled is s) =
     (\<lambda>j. if j \<in> set is then (sm_sinks s j)\<lparr>ss_wait := False\<rparr> else sm_sinks s j) \<and>
   sm_syncers (fold sink_NotifyAllPrerolled is s) = sm_syncers s \<and>
   sm_shouldPreroll (fold sink_NotifyAllPrerolled is s) = sm_shouldPreroll s"
  by (induction "is" arbitrary: s) (auto simp: sink_NotifyAllPrerolled_def sinks_upd fun_eq_iff)

definition report_all :: "nat list \<Rightarrow> 'r sync_manager \<Rightarrow> 'r sync_manager" where
  "report_all is s = fold (\<lambda>i. ReportPrerolled (Some i)) is s"

definition waiting_for_rest :: "'r sync_manager \<Rightarrow> nat list \<Rightarrow> 'r sync_manager \<Rightarrow> bool" where
  "waiting_for_rest s is s' \<longleftrightarrow> sm_sinks s' = sm_sinks s \<and> sm_syncers s' = sm_syncers s \<and> sm_shouldPreroll s' \<and>
     distinct (sm_prerolled s') \<and> set (sm_prerolled s') = set is"

lemma report_more:
  assumes "waiting_for_rest s is s'" "card (set (i # is)) < length (sm_syncers s)"
  shows "waiting_for_rest s (i # is) (ReportPrerolled (Some i) s')"
proof (cases "i \<in> set is")
  case True
  then show ?thesis using assms(1) by (auto simp: waiting_for_rest_def ReportPrerolled_def)
next
  case False
  have w: "sm_syncers s' = sm_syncers s" "sm_shouldPreroll s'" "distinct (sm_prerolled s')" "set (sm_prerolled s') = set is"
    "sm_sinks s' = sm_sinks s" using assms(1) by (simp_all add: waiting_for_rest_def)
  have "length (sm_prerolled s' @ [i]) = card (set (i # is))" using w False by (simp add: distinct_card [symmetric])
  also have "\<dots> < length (sm_syncers s')" using assms(2) w(1) by simp
  finally have "length (sm_prerolled s' @ [i]) \<noteq> length (sm_syncers s')" by simp
  then show ?thesis using w False by (simp add: waiting_for_rest_def ReportPrerolled_def Let_def)
qed

lemma report_some:
  assumes "sm_shouldPreroll s" "sm_prerolled s = []" "card (set is) < length (sm_syncers s)"
  shows "waiting_for_rest s (rev is) (report_all is s)"
  using assms(3)
proof (induction "is" rule: rev_induct)
  case Nil
  then show ?case using assms by (simp add: waiting_for_rest_def report_all_def)
next
  case (snoc i "is")
  have "card (set is) \<le> card (set (is @ [i]))" by (rule card_mono) auto
  then have sub: "card (set is) < length (sm_syncers s)" "card (set (i # rev is)) < length (sm_syncers s)"
    using snoc.prems by simp_all
  from report_more [OF snoc.IH [OF sub(1)] sub(2)] show ?case by (simp add: report_all_def)
qed

section \<open>Properties\<close>

text \<open>
  C13. The media clock counts the time that was played, and nothing else: at rate 1, from a clock
  that runs at media time m, after any pauses and resumes, repeated ones included, the media time is
  m plus the time the clock was not paused, as long as this is within the media's range. (Double
  arithmetic at rate 1 is exact below 2^53 nanoseconds, 104 days.)
\<close>

theorem media_clock_counts_played_time:
  assumes "exact_at_one A" "clock_at A True c m s" "in_range s m hi" "hi \<le> 2 ^ 53" "sorted (c # map snd ops @ [now])"
    "m + played True c ops now \<le> hi"
  shows "GetMediaTimeNow A now (fold (switch A) ops s) = m + played True c ops now"
  by (rule clock_run [OF assms(1,4,2,3) _ assms(5,6)]) simp

text \<open>Arithmetic with whole rates, exact.\<close>

definition whole_rates :: "int time_arith" where
  "whole_rates = \<lparr>ar_one = 1, ar_neg = (\<lambda>r. r < 0), ar_zero = (\<lambda>r. r = 0), ar_media = (\<lambda>a d r. a + d * r), ar_clock = (\<lambda>a d r. a + d div r)\<rparr>"

definition ex_center :: "int sync_manager" where
  "ex_center = (new_sync whole_rates (\<lambda>i. \<lparr>ss_priority = 2 * int i, ss_reported = False, ss_wait = False\<rparr>))
     \<lparr>sm_syncers := [0, 1], sm_clockState := RESUMED, sm_alreadyWait := True, sm_anchorClock := 1000, sm_anchorMedia := 40,
      sm_minStart := 0, sm_maxEnd := 5000\<rparr>"

theorem media_clock_counts_played_time_witness:
  "GetMediaTimeNow whole_rates 2000 (fold (switch whole_rates) [(True, 1100), (True, 1150), (False, 1500), (False, 1600)] ex_center) = 640"
proof -
  have "exact_at_one whole_rates" "clock_at whole_rates True 1000 40 ex_center" "in_range ex_center 40 5000"
    by (simp_all add: exact_at_one_def whole_rates_def clock_at_def ex_center_def new_sync_def in_range_def)
  from media_clock_counts_played_time [OF this, of "[(True, 1100), (True, 1150), (False, 1500), (False, 1600)]" 2000]
  show ?thesis by simp
qed

text \<open>
  The clock follows the sink of the highest priority: after any reports by synchronizers since
  the anchor was reset, those of sinks that are not registered have no effect, and the anchor is
  the last report of a registered sink of the highest priority that has reported, wherever it came
  among the others.
\<close>

theorem anchor_follows_priority:
  assumes "sm_priority s = PRIORITY_NONE" "\<forall>i \<in> set (sm_syncers s). PRIORITY_NONE \<le> ss_priority (sm_sinks s i)"
    "\<forall>(c, m, i) \<in> set rs. c \<noteq> -1 \<and> m \<noteq> -1" "\<exists>(c, m, i) \<in> set rs. i \<in> set (sm_syncers s)"
  shows "let valid = filter (\<lambda>(c, m, i). i \<in> set (sm_syncers s)) rs; prio = (\<lambda>(c, m, i). ss_priority (sm_sinks s i)) in
    \<exists>i. (sm_anchorClock (reported rs s), sm_anchorMedia (reported rs s), i) =
       last (filter (\<lambda>r. prio r = Max (prio ` set valid)) valid)"
proof -
  have "filter (\<lambda>(c, m, i). i \<in> set (sm_syncers s)) rs \<noteq> []" using assms(4) by (auto simp: filter_empty_conv)
  then show ?thesis using anchor_run [OF assms(1-3)] by (simp add: Let_def)
qed

theorem anchor_follows_priority_witness:
  "let s = reported [(10, 1, 1), (20, 2, 0), (30, 3, 1), (40, 4, 0), (50, 5, 7)] (snd (sm_Seek 100 ex_center)) in
     (sm_anchorClock s, sm_anchorMedia s) = (30, 3)"
proof -
  let ?s = "snd (sm_Seek 100 ex_center)" and ?rs = "[(10, 1, 1), (20, 2, 0), (30, 3, 1), (40, 4, 0), (50, 5, 7)] :: (int \<times> int \<times> nat) list"
  have s: "sm_syncers ?s = [0, 1]" "sm_priority ?s = PRIORITY_NONE" "ss_priority (sm_sinks ?s 0) = 0" "ss_priority (sm_sinks ?s (Suc 0)) = 2"
    by (simp_all add: sm_Seek_def ex_center_def new_sync_def ResetTimeAnchorNoLock_def SimpleUpdateTimeAnchor_def SetAllSyncShouldWaitNoLock_def
        sink_WaitAllPrerolled_def upd_sink_def Let_def)
  have "let valid = filter (\<lambda>(c, m, i). i \<in> set (sm_syncers ?s)) ?rs; prio = (\<lambda>(c, m, i). ss_priority (sm_sinks ?s i)) in
    \<exists>i. (sm_anchorClock (reported ?rs ?s), sm_anchorMedia (reported ?rs ?s), i) =
       last (filter (\<lambda>r. prio r = Max (prio ` set valid)) valid)"
    by (rule anchor_follows_priority) (simp_all add: s PRIORITY_NONE_def)
  then show ?thesis by (simp add: s Let_def)
qed



text \<open>
  After a seek the frames before the target are held back: from a seek that was accepted on,
  whatever frames the sinks report, as long as none is within 50 ms of the target none is to be
  rendered and the media time stands at the target; the first one within is to be rendered, and with
  it the seek is over.
\<close>

theorem seek_renders_from_target:
  assumes "fst (sm_Seek t s) = EC_SUCCESS" "\<forall>(c, m, i) \<in> set rs. c \<noteq> -1 \<and> m \<noteq> -1 \<and> HstTime2Ms \<bar>m - t\<bar> > 50"
    "c \<noteq> -1" "m \<noteq> -1"
  shows "sm_minStart s \<le> t \<and> t \<le> sm_maxEnd s \<and>
    GetMediaTimeNow A now (reported rs (snd (sm_Seek t s))) = t \<and>
    (fst (UpdateTimeAnchor c m (Some i) (reported rs (snd (sm_Seek t s)))) \<longleftrightarrow> HstTime2Ms \<bar>m - t\<bar> \<le> 50) \<and>
    (sm_isSeeking (snd (UpdateTimeAnchor c m (Some i) (reported rs (snd (sm_Seek t s))))) \<longleftrightarrow> HstTime2Ms \<bar>m - t\<bar> > 50)"
proof -
  have frame: "sm_isSeeking (fold (sink_WaitAllPrerolled b) js r) = sm_isSeeking r \<and>
      sm_seekingMedia (fold (sink_WaitAllPrerolled b) js r) = sm_seekingMedia r" for b js and r :: "'a sync_manager"
    by (induction js arbitrary: r) (simp_all add: sink_WaitAllPrerolled_def upd_sink_def)
  have sk: "sm_minStart s \<le> t \<and> t \<le> sm_maxEnd s \<and> sm_isSeeking (snd (sm_Seek t s)) \<and> sm_seekingMedia (snd (sm_Seek t s)) = t"
    using assms(1) frame
    by (auto simp: sm_Seek_def ResetTimeAnchorNoLock_def SimpleUpdateTimeAnchor_def SetAllSyncShouldWaitNoLock_def Let_def split: if_splits)
  have "sm_isSeeking (reported rs (snd (sm_Seek t s))) \<and> sm_seekingMedia (reported rs (snd (sm_Seek t s))) = t"
    using assms(2)
  proof (induction rs rule: rev_induct)
    case Nil
    then show ?case using sk by (simp add: reported_def)
  next
    case (snoc r rs)
    obtain c m i where r: "r = (c, m, i)" by (cases r)
    then show ?case using snoc by (simp add: reported_snoc UpdateTimeAnchor_def SimpleUpdateTimeAnchor_def Let_def)
  qed
  then show ?thesis using sk assms(3,4)
    by (auto simp: GetMediaTimeNow_def UpdateTimeAnchor_def SimpleUpdateTimeAnchor_def Let_def)
qed

theorem seek_renders_from_target_witness:
  "\<not> fst (UpdateTimeAnchor 5 200000000 (Some 0) (reported [(1, 300000000, 1)] (snd (sm_Seek 100 ex_center)))) \<and>
   fst (UpdateTimeAnchor 5 40000000 (Some 0) (reported [(1, 300000000, 1)] (snd (sm_Seek 100 ex_center))))"
proof -
  have ok: "fst (sm_Seek 100 ex_center) = EC_SUCCESS" by (simp add: sm_Seek_def ex_center_def new_sync_def)
  have far: "\<forall>(c, m, i) \<in> set [(1 :: int, 300000000 :: int, 1 :: nat)]. c \<noteq> -1 \<and> m \<noteq> -1 \<and> HstTime2Ms \<bar>m - 100\<bar> > 50" by (simp add: HstTime2Ms_def)
  from seek_renders_from_target [OF ok far, of 5 200000000 whole_rates 0 0] seek_renders_from_target [OF ok far, of 5 40000000 whole_rates 0 0]
  show ?thesis by (simp add: HstTime2Ms_def)
qed

section \<open>What the sinks make of it\<close>

text \<open>
  A sink that should wait for the others does not: the predicate of its wait is the flag that says
  that it should wait, so the wait ends before it sleeps while the others are not ready; it can
  sleep only when they were ready by the time it got the mutex.
\<close>

lemma sink_does_not_wait:
  assumes "ss_wait (sm_sinks (if \<not> ss_reported (sm_sinks s i) then ReportPrerolled (Some i) s else s) i)"
    "\<And>r. ss_wait (sm_sinks r i) \<Longrightarrow> ss_wait (sm_sinks (others r) i)"
  shows "fst (WriteToPluginRefTimeSync DoSyncWrite others env i s) = 0"
proof -
  let ?s = "if \<not> ss_reported (sm_sinks s i) then upd_sink i (\<lambda>k. k\<lparr>ss_reported := True\<rparr>) (ReportPrerolled (Some i) s) else s"
  have w: "ss_wait (sm_sinks ?s i)" using assms(1) by (auto simp: sinks_upd)
  have "WaitFor (\<lambda>s. ss_wait (sm_sinks s i)) env (others ?s) = (True, 0, others ?s)"
    using assms(2) [OF w] by (cases env) simp_all
  then show ?thesis using w by (simp add: WriteToPluginRefTimeSync_def Let_def)
qed

text \<open>The audio sink reports an anchor with every frame after the first, whatever the time between reports should be.\<close>

lemma audio_reports_every_frame:
  assumes "as_forceUpdate a" "\<not> fr_eos buffer"
  shows "as_forceUpdate (fst (snd (snd (audio_DoSyncWrite now latency wr i buffer a s)))) \<and>
    as_lastReportedClockTime (fst (snd (snd (audio_DoSyncWrite now latency wr i buffer a s)))) = GetClockTimeNow now s"
  using assms by (cases "UpdateTimeAnchor (GetClockTimeNow now s + latency) (fr_pts buffer) (Some i) s")
    (simp add: audio_DoSyncWrite_def Let_def)

text \<open>The video sink drops a frame after the first exactly when it is more than 40 ms late and no key frame, or forced.\<close>

lemma video_drops_late_frames:
  assumes "\<not> vs_isFirstFrame v" "\<not> fr_eos buffer"
  shows "fst (snd (video_DoSyncWrite A now latency wr i buffer v s)) \<longleftrightarrow>
    vs_forceRenderNextFrame v \<or> fr_key buffer \<or> GetClockTime A (fr_pts buffer) s = -1 \<or>
    HstTime2Ms (GetClockTimeNow now s + latency - GetClockTime A (fr_pts buffer) s) \<le> 40"
  using assms by (auto simp: video_DoSyncWrite_def CheckBufferLatenessMayWait_def HstTime2Ms_def Let_def)

end
