(* ===== verification/Demux_Pull.thy ===== *)
theory Demux_Pull
  imports Media_Source
begin

text \<open>
  Pull mode of \<open>DemuxerFilter\<close> (\<open>ActivatePullMode\<close> of
  engine/pipeline/filters/demux/demuxer_filter.cpp): the three functions the demuxer plugin and the
  type finder read the media through, over the data packer and the source filter. The main result
  follows a request from the demuxer down to the file and back.

  Nobody else touches the packer in pull mode, so a wait for room that does not end at once never
  does: such a request is \<open>None\<close>.
\<close>

section \<open>The range functions\<close>

record 's demux =
  dm_packer :: packer
  dm_source :: 's

definition checkRange ::
  "(nat \<Rightarrow> nat \<Rightarrow> abuf option \<Rightarrow> 's \<Rightarrow> (error_code \<times> abuf option \<times> 's) option) \<Rightarrow> nat \<Rightarrow> nat \<Rightarrow> 's demux
     \<Rightarrow> (bool \<times> 's demux) option"
where
  "checkRange pull offset sz d =
     (case IsDataAvailable offset sz offset (dm_packer d) of (available, curOffset, p1) \<Rightarrow>
      if available then Some (True, d\<lparr>dm_packer := p1\<rparr>)
      else case pull curOffset sz (Some (fresh_buf sz)) (dm_source d) of
        None \<Rightarrow> None
      | Some (ret, buf, src) \<Rightarrow>
        let d1 = d\<lparr>dm_packer := p1, dm_source := src\<rparr>
        in if ret = EC_SUCCESS then
             (case buf of None \<Rightarrow> None
              | Some b \<Rightarrow> (case dp_PushData [] b curOffset p1 of None \<Rightarrow> None
                          | Some p2 \<Rightarrow> Some (True, d1\<lparr>dm_packer := p2\<rparr>)))
           else if ret = EC_END_OF_STREAM then
             let hasDataToRead = (offset < curOffset \<and> \<not> dp_IsEmpty p1)
             in Some (hasDataToRead, d1\<lparr>dm_packer := (if hasDataToRead then dp_SetEos p1 else dp_Flush p1)\<rparr>)
           else Some (False, d1))"

definition peekRange ::
  "(nat \<Rightarrow> nat \<Rightarrow> abuf option \<Rightarrow> 's \<Rightarrow> (error_code \<times> abuf option \<times> 's) option) \<Rightarrow> nat \<Rightarrow> nat \<Rightarrow> abuf \<Rightarrow> 's demux
     \<Rightarrow> (bool \<times> abuf \<times> 's demux) option"
where
  "peekRange pull offset sz dst d =
     (case checkRange pull offset (to_u32 (int sz)) d of None \<Rightarrow> None
      | Some (ok, d1) \<Rightarrow>
        if \<not> ok then Some (False, dst, d1)
        else (case dp_PeekRange [] offset (to_u32 (int sz)) dst (dm_packer d1) of None \<Rightarrow> None
              | Some (ret, dst1, p) \<Rightarrow> Some (ret, dst1, d1\<lparr>dm_packer := p\<rparr>)))"

definition getRange ::
  "(nat \<Rightarrow> nat \<Rightarrow> abuf option \<Rightarrow> 's \<Rightarrow> (error_code \<times> abuf option \<times> 's) option) \<Rightarrow> nat \<Rightarrow> nat \<Rightarrow> abuf option \<Rightarrow> 's demux
     \<Rightarrow> (bool \<times> abuf option \<times> 's demux) option"
where
  "getRange pull offset sz out d =
     (case checkRange pull offset (to_u32 (int sz)) d of None \<Rightarrow> None
      | Some (ok, d1) \<Rightarrow>
        if \<not> ok then Some (False, out, d1)
        else (case dp_GetRange [] offset (to_u32 (int sz)) out (dm_packer d1) of None \<Rightarrow> None
              | Some (ret, out1, p) \<Rightarrow> Some (ret, out1, d1\<lparr>dm_packer := p\<rparr>)))"

text \<open>Push mode: the check asks the packer whether it is empty, the offset of a get is ignored.\<close>

definition checkRange_push :: "packer \<Rightarrow> bool" where "checkRange_push p \<longleftrightarrow> \<not> dp_IsEmpty p"

definition getRange_push :: "nat \<Rightarrow> abuf option \<Rightarrow> packer \<Rightarrow> (bool \<times> abuf option \<times> packer) option" where
  "getRange_push sz out p = dp_GetRange_live [] (to_u32 (int sz)) out p"

text \<open>A reader's requests, each into a buffer of the size it asks for, and their answers.\<close>

datatype request = Peek nat nat | Get nat nat

fun serve ::
  "(nat \<Rightarrow> nat \<Rightarrow> abuf option \<Rightarrow> 's \<Rightarrow> (error_code \<times> abuf option \<times> 's) option) \<Rightarrow> request \<Rightarrow> 's demux
     \<Rightarrow> (u8 list option \<times> 's demux) option"
where
  "serve pull (Peek off sz) d =
     (case peekRange pull off sz (fresh_buf sz) d of None \<Rightarrow> None
      | Some (ok, b, d1) \<Rightarrow> Some (if ok then Some (payload b) else None, d1))"
| "serve pull (Get off sz) d =
     (case getRange pull off sz (Some (fresh_buf sz)) d of None \<Rightarrow> None
      | Some (ok, out, d1) \<Rightarrow> Some (if ok then map_option payload out else None, d1))"

fun serve_all ::
  "(nat \<Rightarrow> nat \<Rightarrow> abuf option \<Rightarrow> 's \<Rightarrow> (error_code \<times> abuf option \<times> 's) option) \<Rightarrow> request list \<Rightarrow> 's demux
     \<Rightarrow> (u8 list option list \<times> 's demux) option"
where
  "serve_all pull [] d = Some ([], d)"
| "serve_all pull (r # rs) d =
     (case serve pull r d of None \<Rightarrow> None
      | Some (a, d1) \<Rightarrow> (case serve_all pull rs d1 of None \<Rightarrow> None | Some (as, d2) \<Rightarrow> Some (a # as, d2)))"

lemma serve_all_append:
  "serve_all pull (rs @ qs) d =
     (case serve_all pull rs d of None \<Rightarrow> None
      | Some (as, d1) \<Rightarrow> map_option (\<lambda>(bs, d2). (as @ bs, d2)) (serve_all pull qs d1))"
  by (induction rs arbitrary: d) (auto simp: option.map_id split: option.split)

section \<open>The window over a file\<close>

definition MAX_REQUEST :: nat where "MAX_REQUEST = 2 ^ 26"

definition win_ok :: "u8 list \<Rightarrow> packer \<Rightarrow> bool" where
  "win_ok F p \<longleftrightarrow> packer_ok p \<and> \<not> dp_isEos p \<and> length (dp_que p) \<le> MAX_BUFFER_NUMBER \<and> \<not> dp_stopped p \<and>
     (\<forall>b \<in> set (dp_que p). length (payload b) \<le> MAX_REQUEST) \<and>
     (dp_que p \<noteq> [] \<longrightarrow> dp_mediaOffset p + length (qbytes (dp_que p)) \<le> length F \<and>
        qbytes (dp_que p) = take (length (qbytes (dp_que p))) (drop (dp_mediaOffset p) F))"

fun valid_request :: "request \<Rightarrow> bool" where
  "valid_request (Peek off sz) \<longleftrightarrow> 0 < sz \<and> sz \<le> MAX_REQUEST \<and> off < 2 ^ 63"
| "valid_request (Get off sz) \<longleftrightarrow> 0 < sz \<and> sz \<le> MAX_REQUEST \<and> off < 2 ^ 63"

text \<open>The right answer: the bytes of the file; only a range that ends beyond it may be refused.\<close>

fun right_answer :: "u8 list \<Rightarrow> request \<Rightarrow> u8 list option \<Rightarrow> bool" where
  "right_answer F (Peek off sz) a \<longleftrightarrow> a = Some (take sz (drop off F)) \<or> a = None \<and> length F < off + sz"
| "right_answer F (Get off sz) a \<longleftrightarrow> a = Some (take sz (drop off F)) \<or> a = None \<and> length F < off + sz"

abbreviation win_end :: "packer \<Rightarrow> nat" where
  "win_end p \<equiv> dp_mediaOffset p + length (qbytes (dp_que p))"

lemma qbytes_bound: "\<forall>b \<in> set bs. length (payload b) \<le> m \<Longrightarrow> length (qbytes bs) \<le> length bs * m"
  by (induction bs) auto

lemma win_flush: "win_ok F p \<Longrightarrow> win_ok F (dp_FlushInternal p)"
  by (simp add: win_ok_def dp_FlushInternal_def packer_ok_def)

lemma win_new: "win_ok F new_packer"
  by (simp add: win_ok_def new_packer_def packer_ok_def)

lemma win_slice:
  assumes "win_ok F p" "dp_que p \<noteq> []" "dp_mediaOffset p \<le> off" "off + n \<le> win_end p \<or> win_end p = length F"
  shows "take n (drop (off - dp_mediaOffset p) (qbytes (dp_que p))) = take n (drop off F)"
proof -
  let ?m = "dp_mediaOffset p" and ?l = "length (qbytes (dp_que p))"
  have q: "qbytes (dp_que p) = take ?l (drop ?m F)" and e: "?m + ?l \<le> length F" using assms(1,2) by (auto simp: win_ok_def)
  have "take n (drop (off - ?m) (qbytes (dp_que p))) = take n (take (?l - (off - ?m)) (drop off F))"
    by (subst q) (simp add: drop_take assms(3))
  also have "\<dots> = take n (drop off F)"
  proof (cases "off + n \<le> ?m + ?l")
    case True
    then have "n \<le> ?l - (off - ?m)" using assms(3) by linarith
    then show ?thesis by (simp add: min_def)
  next
    case False
    then have "?l - (off - ?m) = length F - off" using assms(3,4) by linarith
    then show ?thesis by simp
  qed
  finally show ?thesis .
qed

lemma win_push:
  assumes win: "win_ok F p" and room: "length (dp_que p) < MAX_BUFFER_NUMBER"
    and b: "buf_ok b" "payload b = take n (drop cur F)" and n: "n \<le> MAX_REQUEST" and F: "length F < 2 ^ 63"
    and cur: "dp_que p \<noteq> [] \<Longrightarrow> cur = win_end p"
  shows "win_ok F (push_now b cur p) \<and> dp_que (push_now b cur p) \<noteq> [] \<and>
    dp_mediaOffset (push_now b cur p) = (if dp_que p = [] then cur else dp_mediaOffset p) \<and>
    win_end (push_now b cur p) = min (cur + n) (length F)"
proof -
  let ?q = "push_now b cur p"
  have ok: "packer_ok p" and small: "\<forall>b \<in> set (dp_que p). length (payload b) \<le> MAX_REQUEST" using win by (auto simp: win_ok_def)
  have lb: "length (payload b) = min (length F - cur) n" by (simp add: b(2))
  have cF: "cur < length F" using payload_nonempty [OF b(1)] b(2) by (cases "cur < length F") auto
  have "length (qbytes (dp_que p)) \<le> length (dp_que p) * MAX_REQUEST" by (rule qbytes_bound [OF small])
  also have "\<dots> \<le> 29 * MAX_REQUEST" using room by (intro mult_right_mono) (simp_all add: MAX_BUFFER_NUMBER_def)
  finally have fit1: "length (qbytes (dp_que p)) + length (payload b) < 2 ^ 31"
    using lb n by (simp add: MAX_REQUEST_def)
  have fit2: "(if dp_que p = [] then cur else dp_mediaOffset p) + length (qbytes (dp_que p)) + length (payload b) < 2 ^ 64"
    using F cF cur lb by (cases "dp_que p = []") auto
  note push = push_now_spec [OF ok b(1) fit1 fit2]
  have Q: "qbytes (dp_que ?q) = take (length (qbytes (dp_que ?q))) (drop (dp_mediaOffset ?q) F) \<and>
      win_end ?q = min (cur + n) (length F)"
  proof (cases "dp_que p = []")
    case True
    then show ?thesis using push(2,3) b(2) cF by (auto simp: min_def)
  next
    case False
    have "qbytes (dp_que p) = take (length (qbytes (dp_que p))) (drop (dp_mediaOffset p) F)"
      using win False by (simp add: win_ok_def)
    moreover have "take (length (payload b)) (drop cur F) = payload b" using lb b(2) by (simp add: min_def)
    ultimately have "qbytes (dp_que p) @ payload b =
        take (length (qbytes (dp_que p)) + length (payload b)) (drop (dp_mediaOffset p) F)"
      unfolding take_add drop_drop using cur [OF False] by (simp add: add.commute)
    moreover have "win_end p + length (payload b) = min (cur + n) (length F)"
      using lb cF cur [OF False] by linarith
    ultimately show ?thesis using push(2,3) False by (simp add: add.assoc)
  qed
  moreover have "length (payload b) \<le> MAX_REQUEST" using lb n by simp
  ultimately show ?thesis using push win room cF by (auto simp: win_ok_def)
qed

section \<open>Availability\<close>

lemma scan_available_spec:
  "\<forall>b \<in> set bs. buf_ok b \<Longrightarrow> pre + length (qbytes bs) < 2 ^ 64 \<Longrightarrow>
     scan_available pre e bs = (if e \<le> pre + length (qbytes bs) then None else Some (pre + length (qbytes bs)))"
proof (induction bs arbitrary: pre)
  case Nil
  then show ?case by simp
next
  case (Cons b bs)
  have "add64 pre (length (payload b)) = pre + length (payload b)" using Cons.prems(2) by (intro add64_eq) simp
  then show ?case using Cons.IH [of "pre + length (payload b)"] Cons.prems by (auto simp: size_payload Let_def add.assoc)
qed

lemma IsDataAvailable_spec:
  assumes ok: "packer_ok p" and off: "off + sz < 2 ^ 64"
  shows "IsDataAvailable off sz off p =
    (if dp_que p = [] \<or> off < dp_mediaOffset p \<or> win_end p < off then (False, off, dp_FlushInternal p)
     else if off + sz \<le> win_end p then (True, fst (snd (IsDataAvailable off sz off p)), p)
     else (False, win_end p, p))"
proof (cases "dp_que p")
  case Nil
  then show ?thesis by (simp add: IsDataAvailable_def)
next
  case (Cons b bs)
  note c = packer_ok_Cons [OF ok Cons]
  have a: "add64 (dp_mediaOffset p) (dp_size p) = win_end p" "add64 off sz = off + sz"
    "add64 (dp_mediaOffset p) (length (payload b)) = dp_mediaOffset p + length (payload b)"
    using c(3,4) off Cons by (simp_all add: add64_eq)
  show ?thesis
    using scan_available_spec [OF c(6), of "dp_mediaOffset p + length (payload b)" "off + sz"] c(4)
    by (cases bs) (auto simp: IsDataAvailable_def Cons a c(2) Let_def)
qed

section \<open>Requests over any source that keeps the contract\<close>

context pull_source
begin

definition demux_ok :: "'s demux \<Rightarrow> bool" where
  "demux_ok d \<longleftrightarrow> sok (dm_source d) \<and> win_ok (content (dm_source d)) (dm_packer d)"

text \<open>The range is cached, as far as the file has it.\<close>

definition served :: "u8 list \<Rightarrow> nat \<Rightarrow> nat \<Rightarrow> 's demux \<Rightarrow> bool" where
  "served F off sz d \<longleftrightarrow> demux_ok d \<and> content (dm_source d) = F \<and> dp_que (dm_packer d) \<noteq> [] \<and>
     dp_mediaOffset (dm_packer d) \<le> off \<and> off < win_end (dm_packer d) \<and>
     (off + sz \<le> win_end (dm_packer d) \<or> win_end (dm_packer d) = length F)"

definition refused :: "u8 list \<Rightarrow> 's demux \<Rightarrow> bool" where
  "refused F d \<longleftrightarrow> demux_ok d \<and> content (dm_source d) = F"

lemma pull_and_push:
  assumes d: "sok (dm_source d)" "content (dm_source d) = F" and win: "win_ok F p1"
    and room: "length (dp_que p1) < MAX_BUFFER_NUMBER" and cur: "cur < length F" "dp_que p1 \<noteq> [] \<Longrightarrow> cur = win_end p1"
    and sz: "0 < sz" "sz \<le> MAX_REQUEST" and off: "off \<le> cur" "dp_que p1 = [] \<Longrightarrow> off = cur" "dp_mediaOffset p1 \<le> off \<or> dp_que p1 = []"
    and av: "IsDataAvailable off sz off (dm_packer d) = (False, cur, p1)"
  shows "\<exists>d1. checkRange pull off sz d = Some (True, d1) \<and> served F off sz d1 \<and>
    length (dp_que (dm_packer d1)) = Suc (length (dp_que p1)) \<and> win_end (dm_packer d1) = min (cur + sz) (length F)"
proof -
  have sz32: "sz < 2 ^ 32" using sz(2) by (simp add: MAX_REQUEST_def)
  obtain b s where b: "pull cur sz (Some (fresh_buf sz)) (dm_source d) = Some (EC_SUCCESS, Some b, s)" "buf_ok b"
    "payload b = take sz (drop cur F)" "sok s" "content s = F"
    using pull_data [OF d(1), of cur sz] d(2) cur(1) sz(1) sz32 by auto
  have F: "length F < 2 ^ 63" using content_bound [OF d(1)] d(2) by simp
  note push = win_push [OF win room b(2,3) sz(2) F cur(2)]
  let ?d1 = "d\<lparr>dm_packer := push_now b cur p1, dm_source := s\<rparr>"
  have "checkRange pull off sz d = Some (True, ?d1)"
    by (simp add: checkRange_def av b(1) dp_PushData_room [OF b(2) room])
  moreover have "length (dp_que (dm_packer ?d1)) = Suc (length (dp_que p1))" by (simp add: push_now_def Let_def)
  moreover have "win_end (dm_packer ?d1) = min (cur + sz) (length F)" using push by simp
  moreover have "served F off sz ?d1"
    using push b(4,5) off sz(1) cur by (auto simp: served_def demux_ok_def)
  ultimately show ?thesis by blast
qed

lemma checkRange_full:
  assumes d: "demux_ok d" "content (dm_source d) = F" and sz: "0 < sz" "sz \<le> MAX_REQUEST" and off: "off < 2 ^ 63"
    and full: "dp_mediaOffset (dm_packer d) \<le> off" "off \<le> win_end (dm_packer d)" "win_end (dm_packer d) < off + sz"
      "win_end (dm_packer d) < length F" "MAX_BUFFER_NUMBER \<le> length (dp_que (dm_packer d))"
  shows "checkRange pull off sz d = None"
proof -
  have win: "win_ok F (dm_packer d)" and s: "sok (dm_source d)" using d by (auto simp: demux_ok_def)
  then have ok: "packer_ok (dm_packer d)" by (simp add: win_ok_def)
  have sz32: "sz < 2 ^ 32" using sz(2) by (simp add: MAX_REQUEST_def)
  have ne: "dp_que (dm_packer d) \<noteq> []" using full(5) by (auto simp: MAX_BUFFER_NUMBER_def)
  have "off + sz < 2 ^ 64" using off sz32 by simp
  then have part: "IsDataAvailable off sz off (dm_packer d) = (False, win_end (dm_packer d), dm_packer d)"
    using IsDataAvailable_spec [OF ok, of off sz] full(1-3) ne by simp
  obtain b s' where "pull (win_end (dm_packer d)) sz (Some (fresh_buf sz)) (dm_source d) = Some (EC_SUCCESS, Some b, s')"
    "buf_ok b"
    using pull_data [OF s, of "win_end (dm_packer d)" sz] d(2) full(4) sz(1) sz32 by auto
  then show ?thesis using full(5) win by (simp add: checkRange_def part dp_PushData_full win_ok_def)
qed

lemma checkRange_spec:
  assumes d: "demux_ok d" "content (dm_source d) = F" and sz: "0 < sz" "sz \<le> MAX_REQUEST" and off: "off < 2 ^ 63"
  shows "(\<exists>d1. checkRange pull off sz d = Some (True, d1) \<and> served F off sz d1) \<or>
    (\<exists>d1. checkRange pull off sz d = Some (False, d1) \<and> refused F d1 \<and> length F < off + sz) \<or>
    (checkRange pull off sz d = None \<and> MAX_BUFFER_NUMBER \<le> length (dp_que (dm_packer d)))"
proof -
  let ?p = "dm_packer d"
  have win: "win_ok F ?p" and s: "sok (dm_source d)" using d by (auto simp: demux_ok_def)
  have ok: "packer_ok ?p" using win by (simp add: win_ok_def)
  have sz32: "sz < 2 ^ 32" using sz(2) by (simp add: MAX_REQUEST_def)
  have "off + sz < 2 ^ 64" using off sz32 by simp
  note av = IsDataAvailable_spec [OF ok this]
  have eos: "pull cur sz (Some (fresh_buf sz)) (dm_source d) = Some (EC_END_OF_STREAM, Some (fresh_buf sz), dm_source d)"
    if "length F \<le> cur" for cur
    using pull_end [OF s, of cur sz] that d(2) sz(1) sz32 by simp
  have closed: "\<exists>d1. checkRange pull off sz d = Some (False, d1) \<and> refused F d1"
    if "IsDataAvailable off sz off ?p = (False, cur, p1)" "length F \<le> cur" "win_ok F p1" "off < cur \<Longrightarrow> dp_que p1 \<noteq> []" for cur p1
  proof -
    have "\<not> (off < cur \<and> \<not> dp_IsEmpty p1)"
      using that(3,4) qbytes_nonempty [of "dp_que p1"] by (auto simp: dp_IsEmpty_def win_ok_def packer_ok_def)
    then show ?thesis
      using that(1) eos [OF that(2)] win_flush [OF that(3)] s d(2)
      by (auto simp: checkRange_def dp_Flush_def refused_def demux_ok_def Let_def)
  qed
  show ?thesis
  proof (cases "dp_que ?p = [] \<or> off < dp_mediaOffset ?p \<or> win_end ?p < off")
    case True
    then have miss: "IsDataAvailable off sz off ?p = (False, off, dp_FlushInternal ?p)" using av by simp
    have q0: "dp_que (dp_FlushInternal ?p) = []" by (simp add: dp_FlushInternal_def)
    show ?thesis
    proof (cases "off < length F")
      case True
      from pull_and_push [OF s d(2) win_flush [OF win] _ True _ sz _ _ _ miss] q0
      show ?thesis by (auto simp: MAX_BUFFER_NUMBER_def)
    next
      case False
      then show ?thesis using closed [OF miss _ win_flush [OF win]] sz(1) by auto
    qed
  next
    case hit: False
    show ?thesis
    proof (cases "off + sz \<le> win_end ?p")
      case True
      then obtain c where "IsDataAvailable off sz off ?p = (True, c, ?p)" using av hit by simp
      then have "checkRange pull off sz d = Some (True, d)" by (simp add: checkRange_def)
      then show ?thesis using True hit sz(1) d by (auto simp: served_def)
    next
      case False
      then have part: "IsDataAvailable off sz off ?p = (False, win_end ?p, ?p)" using av hit by simp
      have le: "win_end ?p \<le> length F" using win hit by (simp add: win_ok_def)
      show ?thesis
      proof (cases "win_end ?p < length F")
        case True
        show ?thesis
        proof (cases "length (dp_que ?p) < MAX_BUFFER_NUMBER")
          case room: True
          from pull_and_push [OF s d(2) win room True _ sz _ _ _ part] hit show ?thesis by auto
        next
          case full: False
          have "checkRange pull off sz d = None"
            by (rule checkRange_full [OF d sz off]) (use hit False True full in auto)
          then show ?thesis using full by simp
        qed
      next
        case at_end: False
        then show ?thesis using closed [OF part _ win] hit le False by auto
      qed
    qed
  qed
qed

lemma peek_served:
  assumes "served F off sz d" "0 < sz" "sz \<le> MAX_REQUEST" "off < 2 ^ 63" "sz \<le> length (pm_bytes (ab_mem dst))"
    and p: "win_ok F p" "dp_que p = dp_que (dm_packer d)" "dp_mediaOffset p = dp_mediaOffset (dm_packer d)"
  obtains dst' i k where "PeekRangeInternal off sz dst isGet p = (True, dst',
      if isGet then p\<lparr>dp_currentGet := \<lparr>ps_index = int i, ps_bufferOffset = k, ps_mediaOffset = off\<rparr>\<rparr> else p)"
    "payload dst' = take sz (drop off F)" "i < length (dp_que p)" "k < length (payload (dp_que p ! i))"
proof -
  have ok: "packer_ok p" using p(1) by (simp add: win_ok_def)
  have ne: "dp_que p \<noteq> []" and le: "dp_mediaOffset p \<le> off" and lt: "off < win_end p"
    and cov: "off + sz \<le> win_end p \<or> win_end p = length F"
    using assms(1) p(2,3) by (auto simp: served_def)
  have sz: "sz < 2 ^ 32" "off + sz < 2 ^ 64" using assms(3,4) by (simp_all add: MAX_REQUEST_def)
  show thesis
    by (rule PeekRangeInternal_spec [OF ok ne le lt sz assms(5,2), of isGet, unfolded win_slice [OF p(1) ne le cov]])
      (rule that)
qed

lemma get_removes:
  assumes win: "win_ok F p" and i: "i < length (dp_que p)" "k < length (payload (dp_que p ! i))"
    and pos: "ps_index pos = int i" "ps_bufferOffset pos = k"
  shows "win_ok F (RemoveOldData pos p)"
proof -
  let ?c = "length (qbytes (take i (dp_que p))) + k"
  have ok: "packer_ok p" using win by (simp add: win_ok_def)
  have k: "ps_bufferOffset pos \<le> length (payload (dp_que p ! i))" using i(2) pos(2) by simp
  have c: "?c = length (qbytes (take i (dp_que p))) + (if i < length (dp_que p) then ps_bufferOffset pos else 0)"
    using i(1) pos(2) by simp
  note rem = RemoveOldData_spec [OF ok pos(1) less_imp_le [OF i(1)] k c]
  have "dp_que p \<noteq> []" using i(1) by auto
  then have w: "win_end p \<le> length F" "qbytes (dp_que p) = take (length (qbytes (dp_que p))) (drop (dp_mediaOffset p) F)"
    using win by (auto simp: win_ok_def)
  have lc: "?c < length (qbytes (dp_que p))"
    using arg_cong [OF qbytes_split [OF i(1)], of length] i(2) by simp
  note q = rem(2)
  have "dp_que (RemoveOldData pos p) \<noteq> []" using q lc by auto
  note m = rem(3) [OF this]
  have "qbytes (dp_que (RemoveOldData pos p)) =
      take (length (qbytes (dp_que p)) - ?c) (drop (dp_mediaOffset p + ?c) F)"
    unfolding q by (subst w(2)) (simp add: drop_take add.commute)
  moreover have "length (qbytes (dp_que (RemoveOldData pos p))) = length (qbytes (dp_que p)) - ?c" unfolding q by simp
  ultimately show ?thesis using rem(1,4-6) rem(7) [of MAX_REQUEST] win m w(1) lc by (simp add: win_ok_def)
qed

lemma get_served:
  assumes s: "served F off sz d" "0 < sz" "sz \<le> MAX_REQUEST" "off < 2 ^ 63" "sz \<le> length (pm_bytes (ab_mem dst))"
  shows "\<exists>dst' p. dp_GetRange [] off sz (Some dst) (dm_packer d) = Some (True, Some dst', p) \<and>
    payload dst' = take sz (drop off F) \<and> win_ok F p"
proof -
  let ?p = "(dm_packer d)\<lparr>dp_prevGet := dp_currentGet (dm_packer d)\<rparr>"
  have win: "win_ok F (dm_packer d)" and ne: "dp_que (dm_packer d) \<noteq> []" using s(1) by (auto simp: served_def demux_ok_def)
  have win': "win_ok F ?p" using win by (simp add: win_ok_def packer_ok_def)
  obtain dst' i k where r: "PeekRangeInternal off sz dst True ?p = (True, dst',
      if True then ?p\<lparr>dp_currentGet := \<lparr>ps_index = int i, ps_bufferOffset = k, ps_mediaOffset = off\<rparr>\<rparr> else ?p)"
    "payload dst' = take sz (drop off F)" "i < length (dp_que ?p)" "k < length (payload (dp_que ?p ! i))"
    by (rule peek_served [OF s win', where isGet = True]) simp_all
  let ?q = "?p\<lparr>dp_currentGet := \<lparr>ps_index = int i, ps_bufferOffset = k, ps_mediaOffset = off\<rparr>\<rparr>"
  have winq: "win_ok F ?q" using win by (simp add: win_ok_def packer_ok_def)
  have rm: "win_ok F (RemoveOldData (dp_currentGet ?q) ?q)"
    by (rule get_removes [OF winq, of i k]) (use r(3,4) in simp_all)
  have "\<not> dp_isEos ?q" using win by (simp add: win_ok_def)
  then have "dp_GetRange [] off sz (Some dst) (dm_packer d) = Some (True, Some dst',
      if position_less (dp_prevGet ?q) (dp_currentGet ?q) then RemoveOldData (dp_currentGet ?q) ?q else ?q)"
    using ne s(5) r(1) by (simp add: dp_GetRange_def pm_GetCapacity_def wait_data.simps Let_def)
  then show ?thesis using r(2) rm winq by (cases "position_less (dp_prevGet ?q) (dp_currentGet ?q)") auto
qed

text \<open>One request: the right answer, the contract's state again, or a packer that is full.\<close>

lemma serve_spec:
  assumes d: "demux_ok d" "content (dm_source d) = F" and v: "valid_request r"
  shows "(\<exists>a d1. serve pull r d = Some (a, d1) \<and> right_answer F r a \<and> demux_ok d1 \<and> content (dm_source d1) = F) \<or>
    (serve pull r d = None \<and> MAX_BUFFER_NUMBER \<le> length (dp_que (dm_packer d)))"
proof -
  obtain off sz where r: "(r = Peek off sz \<or> r = Get off sz) \<and> 0 < sz \<and> sz \<le> MAX_REQUEST \<and> off < 2 ^ 63"
    using v by (cases r) auto
  then have v: "0 < sz" "sz \<le> MAX_REQUEST" "off < 2 ^ 63" by auto
  have u: "to_u32 (int sz) = sz" using v(2) by (simp add: to_u32_def MAX_REQUEST_def)
  have cap: "sz \<le> length (pm_bytes (ab_mem (fresh_buf sz)))" by (simp add: fresh_buf_def new_pmem_def)
  consider (yes) d1 where "checkRange pull off sz d = Some (True, d1)" "served F off sz d1"
    | (no) d1 where "checkRange pull off sz d = Some (False, d1)" "refused F d1" "length F < off + sz"
    | (full) "checkRange pull off sz d = None" "MAX_BUFFER_NUMBER \<le> length (dp_que (dm_packer d))"
    using checkRange_spec [OF d v] by metis
  then show ?thesis
  proof cases
    case yes
    then have d1: "sok (dm_source d1)" "content (dm_source d1) = F" "win_ok F (dm_packer d1)" "dp_que (dm_packer d1) \<noteq> []"
      by (auto simp: served_def demux_ok_def)
    obtain b i k where pk: "PeekRangeInternal off sz (fresh_buf sz) False (dm_packer d1) = (True, b,
        if False then (dm_packer d1)\<lparr>dp_currentGet := \<lparr>ps_index = int i, ps_bufferOffset = k, ps_mediaOffset = off\<rparr>\<rparr>
        else dm_packer d1)" "payload b = take sz (drop off F)"
      by (rule peek_served [OF yes(2) v cap d1(3), where isGet = False]) simp_all
    obtain b' p where g: "dp_GetRange [] off sz (Some (fresh_buf sz)) (dm_packer d1) = Some (True, Some b', p)"
      "payload b' = take sz (drop off F)" "win_ok F p"
      using get_served [OF yes(2) v cap] by blast
    from r show ?thesis using yes(1) d1 pk g u
      by (auto simp: peekRange_def getRange_def dp_PeekRange_def wait_data.simps demux_ok_def)
  next
    case no
    then show ?thesis using r u by (auto simp: peekRange_def getRange_def refused_def)
  next
    case full
    then show ?thesis using r u by (auto simp: peekRange_def getRange_def)
  qed
qed

lemma serve_all_spec:
  "demux_ok d \<Longrightarrow> content (dm_source d) = F \<Longrightarrow> \<forall>r \<in> set rs. valid_request r \<Longrightarrow> serve_all pull rs d = Some (as, d') \<Longrightarrow>
     list_all2 (right_answer F) rs as \<and> demux_ok d' \<and> content (dm_source d') = F"
proof (induction rs arbitrary: d as)
  case Nil
  then show ?case by simp
next
  case (Cons r rs)
  obtain a d1 as' where s: "serve pull r d = Some (a, d1)" "serve_all pull rs d1 = Some (as', d')" "as = a # as'"
    using Cons.prems(4) by (auto split: option.splits prod.splits)
  have "right_answer F r a" "demux_ok d1" "content (dm_source d1) = F"
    using serve_spec [OF Cons.prems(1,2), of r] Cons.prems(3) s(1) by auto
  then show ?case using Cons.IH [of d1 as'] Cons.prems(3) s(2,3) by simp
qed

text \<open>At the end of the file: a range that starts in the window but ends beyond the file.\<close>

lemma checkRange_tail:
  assumes d: "demux_ok d" "content (dm_source d) = F" and sz: "0 < sz" "sz \<le> MAX_REQUEST" and off: "off < 2 ^ 63"
    and tail: "dp_que (dm_packer d) \<noteq> []" "dp_mediaOffset (dm_packer d) \<le> off" "off < win_end (dm_packer d)"
      "win_end (dm_packer d) = length F" "length F < off + sz"
  shows "checkRange pull off sz d = Some (False, d\<lparr>dm_packer := dp_FlushInternal (dm_packer d)\<rparr>)"
proof -
  have win: "packer_ok (dm_packer d)" using d(1) by (simp add: demux_ok_def win_ok_def)
  have "sz < 2 ^ 32" using sz(2) by (simp add: MAX_REQUEST_def)
  moreover from this have "off + sz < 2 ^ 64" using off by simp
  ultimately have "IsDataAvailable off sz off (dm_packer d) = (False, win_end (dm_packer d), dm_packer d)"
    "pull (win_end (dm_packer d)) sz (Some (fresh_buf sz)) (dm_source d) =
       Some (EC_END_OF_STREAM, Some (fresh_buf sz), dm_source d)"
    using IsDataAvailable_spec [OF win, of off sz] tail pull_end [of "dm_source d" "length F" sz] d sz(1)
    by (simp_all add: demux_ok_def)
  moreover have "dp_IsEmpty (dm_packer d)"
    using win tail(1) qbytes_nonempty [of "dp_que (dm_packer d)"] by (simp add: dp_IsEmpty_def packer_ok_def)
  ultimately show ?thesis by (simp add: checkRange_def dp_Flush_def)
qed

text \<open>Peeking forward a byte at a time, each byte is pulled into a buffer of its own.\<close>

lemma peek_forward:
  assumes d: "demux_ok d" "content (dm_source d) = F" and n: "n < length F" "win_end (dm_packer d) = n"
    "length (dp_que (dm_packer d)) = n" "dp_que (dm_packer d) = [] \<or> dp_mediaOffset (dm_packer d) \<le> n"
    and room: "n < MAX_BUFFER_NUMBER"
  shows "\<exists>a d1. serve pull (Peek n 1) d = Some (a, d1) \<and> demux_ok d1 \<and> content (dm_source d1) = F \<and>
    win_end (dm_packer d1) = Suc n \<and> length (dp_que (dm_packer d1)) = Suc n"
proof -
  let ?p = "dm_packer d"
  have win: "win_ok F ?p" and s: "sok (dm_source d)" using d by (auto simp: demux_ok_def)
  have ok: "packer_ok ?p" using win by (simp add: win_ok_def)
  have n64: "n + 1 < 2 ^ 64" using room by (simp add: MAX_BUFFER_NUMBER_def)
  have sz: "0 < (1::nat)" "1 \<le> MAX_REQUEST" by (simp_all add: MAX_REQUEST_def)
  have u: "to_u32 (int 1) = 1" by (simp add: to_u32_def)
  obtain p1 where av: "IsDataAvailable n 1 n ?p = (False, n, p1)" and p1: "win_ok F p1" "length (dp_que p1) = n"
    "dp_que p1 \<noteq> [] \<Longrightarrow> p1 = ?p"
    using IsDataAvailable_spec [OF ok n64] n(2-4) win win_flush [OF win]
    by (cases "dp_que ?p = []") (auto simp: dp_FlushInternal_def)
  have "\<exists>d1. checkRange pull n 1 d = Some (True, d1) \<and> served F n 1 d1 \<and>
      length (dp_que (dm_packer d1)) = Suc (length (dp_que p1)) \<and> win_end (dm_packer d1) = min (n + 1) (length F)"
  proof (rule pull_and_push [OF s d(2) p1(1) _ n(1) _ sz _ _ _ av])
    show "length (dp_que p1) < MAX_BUFFER_NUMBER" using p1(2) room by simp
    show "n = win_end p1" if "dp_que p1 \<noteq> []" using p1(3) [OF that] n(2) by simp
    show "dp_mediaOffset p1 \<le> n \<or> dp_que p1 = []" using p1(3) n(4) by metis
  qed simp_all
  then obtain d1 where d1: "checkRange pull n 1 d = Some (True, d1)" "served F n 1 d1"
    "length (dp_que (dm_packer d1)) = Suc n" "win_end (dm_packer d1) = Suc n"
    using p1(2) n(1) by auto
  have w1: "win_ok F (dm_packer d1)" using d1(2) by (auto simp: served_def demux_ok_def)
  have cap: "1 \<le> length (pm_bytes (ab_mem (fresh_buf 1)))" by (simp add: fresh_buf_def new_pmem_def)
  have off: "n < 2 ^ 63" using room by (simp add: MAX_BUFFER_NUMBER_def)
  obtain b i k where pk: "PeekRangeInternal n 1 (fresh_buf 1) False (dm_packer d1) = (True, b,
      if False then (dm_packer d1)\<lparr>dp_currentGet := \<lparr>ps_index = int i, ps_bufferOffset = k, ps_mediaOffset = n\<rparr>\<rparr>
      else dm_packer d1)"
    by (rule peek_served [OF d1(2) sz off cap w1, where isGet = False]) simp_all
  have "dp_que (dm_packer d1) \<noteq> []" using d1(3) by auto
  then have "serve pull (Peek n 1) d = Some (Some (payload b), d1)"
    using d1(1) pk u by (simp add: peekRange_def dp_PeekRange_def wait_data.simps)
  then show ?thesis using d1 by (auto simp: served_def)
qed

end

section \<open>Over a file\<close>

abbreviation file_pull where "file_pull \<equiv> ms_PullData fs_GetSize fs_SeekToPos fs_Read"

definition start_file :: "u8 list \<Rightarrow> file_source media_source demux" where
  "start_file F = \<lparr>dm_packer = new_packer, dm_source = file_filter F\<rparr>"

lemma start_file_ok:
  "F \<noteq> [] \<Longrightarrow> length F < 2 ^ 63 \<Longrightarrow> fss.fps.demux_ok (start_file F) \<and> fss.filter_bytes (dm_source (start_file F)) = F"
  by (simp add: start_file_def fss.fps.demux_ok_def file_filter_ok file_filter_bytes win_new)

text \<open>
  C2. In pull mode the demuxer reads the file. Whatever sequence of peeks and gets it makes, at any
  offsets, forwards or backwards: each request that is answered is answered with exactly the bytes
  of the file at its offset, as many as asked for or as the file has, and a request is refused only
  when it reaches beyond the end of the file. This holds through the packer's buffers of all sizes,
  its removal of old data, the filter's seeks and the file plugin's position.
\<close>

theorem pull_mode_reads_file:
  assumes "F \<noteq> []" "length F < 2 ^ 63" "\<forall>r \<in> set rs. valid_request r"
    and "serve_all file_pull rs (start_file F) = Some (as, d)"
  shows "list_all2 (right_answer F) rs as"
  using fss.fps.serve_all_spec [OF _ _ assms(3,4)] start_file_ok [OF assms(1,2)] by blast

text \<open>
  C26. The demuxer does not hang while fewer than 30 buffers are cached: after any answered requests
  the next one is answered too, and rightly.
\<close>

theorem pull_mode_progress:
  assumes "F \<noteq> []" "length F < 2 ^ 63" "\<forall>r \<in> set rs. valid_request r" "valid_request r"
    and "serve_all file_pull rs (start_file F) = Some (as, d)" "length (dp_que (dm_packer d)) < MAX_BUFFER_NUMBER"
  shows "\<exists>a d'. serve file_pull r d = Some (a, d') \<and> right_answer F r a"
proof -
  have "fss.fps.demux_ok d \<and> fss.filter_bytes (dm_source d) = F"
    using fss.fps.serve_all_spec [OF _ _ assms(3,5)] start_file_ok [OF assms(1,2)] by blast
  then show ?thesis using fss.fps.serve_spec [OF _ _ assms(4), of d F] assms(6) by fastforce
qed

lemma pull_mode_progress_witness:
  "\<exists>a d'. serve file_pull (Get 1 2) (start_file [10, 20, 30, 40]) = Some (a, d') \<and> right_answer [10, 20, 30, 40] (Get 1 2) a"
  by (rule pull_mode_progress [where rs = "[]" and as = "[]"])
    (simp_all add: MAX_REQUEST_def start_file_def new_packer_def MAX_BUFFER_NUMBER_def)

lemma pull_mode_reads_file_witness:
  "\<exists>as d. serve_all file_pull [Get 1 2] (start_file [10, 20, 30, 40]) = Some (as, d) \<and> as = [Some [20, 30]]"
proof -
  have v: "\<forall>r \<in> set [Get 1 2]. valid_request r" by (simp add: MAX_REQUEST_def)
  obtain a d where s: "serve file_pull (Get 1 2) (start_file [10, 20, 30, 40]) = Some (a, d)"
    using fss.fps.serve_spec [of "start_file [10, 20, 30, 40]" _ "Get 1 2"] start_file_ok [of "[10, 20, 30, 40]"] v
    by (fastforce simp: start_file_def new_packer_def MAX_BUFFER_NUMBER_def)
  then have all: "serve_all file_pull [Get 1 2] (start_file [10, 20, 30, 40]) = Some ([a], d)" by simp
  have "list_all2 (right_answer [10, 20, 30, 40]) [Get 1 2] [a]"
    by (rule pull_mode_reads_file [OF _ _ v all]) simp_all
  then show ?thesis using all by simp
qed

text \<open>
  But the end of the file is lost once it is cached: a request that starts within the cached data
  and reaches beyond the file is refused and the cache dropped, although the packer holds all the
  bytes from its offset to the end. (\<open>IsEmpty\<close> says whether there is data, its callers take it for
  the opposite, and so the branch that would announce the end of the stream is never taken.)
\<close>

theorem pull_mode_loses_tail:
  assumes "F \<noteq> []" "length F < 2 ^ 63" "\<forall>r \<in> set rs. valid_request r"
    and "serve_all file_pull rs (start_file F) = Some (as, d)"
    and "dp_que (dm_packer d) \<noteq> []" "dp_mediaOffset (dm_packer d) \<le> off" "off < length F"
      "win_end (dm_packer d) = length F" "length F < off + sz" "sz \<le> MAX_REQUEST"
  shows "\<exists>d'. serve file_pull (Get off sz) d = Some (None, d') \<and> dp_que (dm_packer d') = []"
proof -
  have d: "fss.fps.demux_ok d" "fss.filter_bytes (dm_source d) = F"
    using fss.fps.serve_all_spec [OF _ _ assms(3,4)] start_file_ok [OF assms(1,2)] by blast+
  have sz: "0 < sz" "sz < 2 ^ 32" using assms(7,9,10) by (simp_all add: MAX_REQUEST_def)
  have "off < 2 ^ 63" "off < win_end (dm_packer d)" using assms(2,7,8) by simp_all
  from fss.fps.checkRange_tail [OF d sz(1) assms(10) this(1) assms(5,6) this(2) assms(8,9)] sz
  show ?thesis by (simp add: getRange_def to_u32_def dp_FlushInternal_def)
qed

text \<open>
  And thirty-one peeks in a row hang it: peeking forward byte by byte fills the packer with thirty
  buffers, and the next peek waits for room that only a get could make.
\<close>

theorem pull_mode_peeks_hang:
  assumes "30 < length F" "length F < 2 ^ 63"
  shows "serve_all file_pull (map (\<lambda>n. Peek n 1) [0..<31]) (start_file F) = None"
proof -
  have "F \<noteq> []" using assms(1) by auto
  note start = start_file_ok [OF this assms(2)]
  have run: "n \<le> 30 \<Longrightarrow> \<exists>as d. serve_all file_pull (map (\<lambda>n. Peek n 1) [0..<n]) (start_file F) = Some (as, d) \<and>
      fss.fps.demux_ok d \<and> fss.filter_bytes (dm_source d) = F \<and> win_end (dm_packer d) = n \<and>
      length (dp_que (dm_packer d)) = n" for n
  proof (induction n)
    case 0
    then show ?case using start by (simp add: start_file_def new_packer_def)
  next
    case (Suc n)
    then obtain as d where d: "serve_all file_pull (map (\<lambda>n. Peek n 1) [0..<n]) (start_file F) = Some (as, d)"
      "fss.fps.demux_ok d" "fss.filter_bytes (dm_source d) = F" "win_end (dm_packer d) = n" "length (dp_que (dm_packer d)) = n"
      by auto
    have "n < length F" "n < MAX_BUFFER_NUMBER" "dp_que (dm_packer d) = [] \<or> dp_mediaOffset (dm_packer d) \<le> n"
      using Suc.prems assms(1) d(4) by (auto simp: MAX_BUFFER_NUMBER_def)
    then obtain a d1 where "serve file_pull (Peek n 1) d = Some (a, d1)" "fss.fps.demux_ok d1"
      "fss.filter_bytes (dm_source d1) = F" "win_end (dm_packer d1) = Suc n" "length (dp_que (dm_packer d1)) = Suc n"
      using fss.fps.peek_forward [OF d(2,3) _ d(4,5)] by blast
    then show ?case using d(1) by (simp add: serve_all_append)
  qed
  obtain as d where d: "serve_all file_pull (map (\<lambda>n. Peek n 1) [0..<30]) (start_file F) = Some (as, d)"
    "fss.fps.demux_ok d" "fss.filter_bytes (dm_source d) = F" "win_end (dm_packer d) = 30" "length (dp_que (dm_packer d)) = 30"
    using run [of 30] by auto
  have "checkRange file_pull 30 1 d = None"
    by (rule fss.fps.checkRange_full [OF d(2,3)]) (use d(4,5) assms in \<open>simp_all add: MAX_REQUEST_def MAX_BUFFER_NUMBER_def\<close>)
  then have "serve file_pull (Peek 30 1) d = None" by (simp add: peekRange_def to_u32_def)
  moreover have "[0..<31] = [0..<30] @ [30]" by (simp add: upt_Suc_append [of 0 30, simplified])
  ultimately show ?thesis using d(1) by (simp add: serve_all_append)
qed

lemma pull_mode_peeks_hang_witness:
  "serve_all file_pull (map (\<lambda>n. Peek n 1) [0..<31]) (start_file (replicate 40 7)) = None"
  by (rule pull_mode_peeks_hang) simp_all

lemma pull_mode_loses_tail_witness:
  "\<exists>d d'. serve_all file_pull [Peek 0 1] (start_file [5]) = Some ([Some [5]], d) \<and>
     serve file_pull (Get 0 2) d = Some (None, d')"
proof -
  have v: "\<forall>r \<in> set [Peek 0 1]. valid_request r" by (simp add: MAX_REQUEST_def)
  have "\<exists>a d. serve file_pull (Peek 0 1) (start_file [5]) = Some (a, d) \<and> fss.fps.demux_ok d \<and>
      fss.filter_bytes (dm_source d) = [5] \<and> win_end (dm_packer d) = Suc 0 \<and> length (dp_que (dm_packer d)) = Suc 0"
    by (rule fss.fps.peek_forward)
      (use start_file_ok [of "[5]"] in \<open>simp_all add: start_file_def new_packer_def MAX_BUFFER_NUMBER_def\<close>)
  then obtain a d where d: "serve file_pull (Peek 0 1) (start_file [5]) = Some (a, d)" "win_end (dm_packer d) = 1"
    "length (dp_que (dm_packer d)) = 1" "fss.fps.demux_ok d"
    by auto
  have all: "serve_all file_pull [Peek 0 1] (start_file [5]) = Some ([a], d)" using d(1) by simp
  have a: "a = Some [5]"
    using fss.fps.serve_all_spec [OF _ _ v all] start_file_ok [of "[5]"] by simp
  have q: "dp_que (dm_packer d) \<noteq> []" using d(3) by auto
  have "qbytes (dp_que (dm_packer d)) \<noteq> []"
    using q d(4) qbytes_nonempty [of "dp_que (dm_packer d)"] by (simp add: fss.fps.demux_ok_def win_ok_def packer_ok_def)
  then have "dp_mediaOffset (dm_packer d) = 0" using d(2) by (cases "qbytes (dp_que (dm_packer d))") auto
  then have "\<exists>d'. serve file_pull (Get 0 2) d = Some (None, d') \<and> dp_que (dm_packer d') = []"
    using d(2) q by (intro pull_mode_loses_tail [OF _ _ v all]) (simp_all add: MAX_REQUEST_def)
  then show ?thesis using all a by blast
qed

end
