(* ===== verification/Av_Buffer.thy ===== *)
theory Av_Buffer
  imports Av_Memory
begin

text \<open>
  \<open>AVBuffer\<close> (src/buffer/avbuffer/avbuffer.cpp): creation from a configuration, the
  configuration a live buffer reports, and the process-wide generator of unique ids.

  Allocation itself is the platform's: \<open>ini\<close>, the \<open>Init\<close> of the memory class an allocator
  selects, is an argument that returns the initialised memory or fails.
\<close>

section \<open>State\<close>

record av_buffer =
  ab_uid :: u64
  ab_config :: av_config
  ab_memory :: "av_memory option"
  ab_flag :: u32
  ab_pts :: int
  ab_dts :: int
  ab_duration :: int

text \<open>The static variables of \<open>AVBuffer::GetUniqueId\<close>.\<close>

record uid_gen =
  ug_startTime :: u64
  ug_processId :: u16
  ug_bufferId :: u32

definition EOS_FLAG :: u32 where "EOS_FLAG = 1"

definition empty_buffer :: av_buffer where
  "empty_buffer = \<lparr>ab_uid = 0, ab_config = default_config, ab_memory = None, ab_flag = 0,
     ab_pts = 0, ab_dts = 0, ab_duration = 0\<rparr>"

section \<open>Unique ids\<close>

text \<open>
  The union \<open>UniqueId\<close> on a little-endian machine: \<open>processId[1]\<close> overwrites bits 16 to 31 of the
  start time and \<open>bufferId[1]\<close> bits 32 to 63.
\<close>

definition mk_uid :: "u64 \<Rightarrow> u16 \<Rightarrow> u32 \<Rightarrow> u64" where
  "mk_uid startTime pid bid =
     (startTime AND 0xFFFF) OR push_bit 16 (ucast pid) OR push_bit 32 (ucast bid)"

definition next_bufferId :: "u32 \<Rightarrow> u32" where
  "next_bufferId b = (if b = - 1 then 0 else b) + 1"

definition GetUniqueId :: "av_buffer \<Rightarrow> uid_gen \<Rightarrow> u64 \<times> av_buffer \<times> uid_gen" where
  "GetUniqueId b g =
     (if ab_memory b = None then (0, b\<lparr>ab_uid := 0\<rparr>, g)
      else if ab_uid b = 0 then
        let bid = next_bufferId (ug_bufferId g);
            uid = mk_uid (ug_startTime g) (ug_processId g) bid
        in (uid, b\<lparr>ab_uid := uid\<rparr>, g\<lparr>ug_bufferId := bid\<rparr>)
      else (ab_uid b, b, g))"

section \<open>Creation and configuration\<close>

definition new_memory :: "mem_type \<Rightarrow> u8 \<Rightarrow> int \<Rightarrow> int \<Rightarrow> av_memory" where
  "new_memory ty fl capacity align =
     \<lparr>am_type = ty, am_flag = fl, am_capacity = capacity, am_align = align, am_offset = 0,
      am_size = 0, am_base = None, am_fd = - 1, am_surface = default_surface\<rparr>"

definition CreateAVBuffer :: "(av_memory \<Rightarrow> av_memory option) \<Rightarrow> av_config \<Rightarrow> av_buffer option" where
  "CreateAVBuffer ini config =
     (let capacity = max (cf_size config) (cf_capacity config);
          memflag = (case cf_memtype config of
              SHARED_MEMORY \<Rightarrow> cf_memflag config
            | HARDWARE_MEMORY \<Rightarrow> cf_memflag config
            | _ \<Rightarrow> MEMORY_READ_WRITE)
      in if cf_memtype config = UNKNOWN_MEMORY then None
         else if \<not> capacity \<ge> 0 then None
         else if \<not> cf_align config \<ge> 0 then None
         else case ini (new_memory (cf_memtype config) memflag capacity (cf_align config)) of
                None \<Rightarrow> None
              | Some mem \<Rightarrow> Some (empty_buffer\<lparr>ab_memory := Some mem,
                  ab_config := config\<lparr>cf_capacity := capacity, cf_memflag := memflag\<rparr>\<rparr>))"

definition CreateAVBuffer_ptr :: "u8 list option \<Rightarrow> int \<Rightarrow> int \<Rightarrow> av_buffer option" where
  "CreateAVBuffer_ptr ptr capacity n =
     (case ptr of None \<Rightarrow> None
      | Some bytes \<Rightarrow>
          if \<not> capacity \<ge> 0 then None
          else if \<not> (0 \<le> n \<and> n \<le> capacity) then None
          else Some (empty_buffer\<lparr>ab_memory := Some
            ((new_memory VIRTUAL_MEMORY MEMORY_READ_WRITE capacity 0)
               \<lparr>am_size := n, am_base := Some bytes\<rparr>)\<rparr>))"

definition GetConfig :: "av_buffer \<Rightarrow> av_config \<times> av_buffer" where
  "GetConfig b =
     (case ab_memory b of None \<Rightarrow> (ab_config b, b)
      | Some mem \<Rightarrow>
        let c1 = (ab_config b)\<lparr>cf_size := am_size mem\<rparr>;
            c2 = (if cf_memtype c1 = UNKNOWN_MEMORY then
                    let c = c1\<lparr>cf_memtype := am_type mem, cf_capacity := am_capacity mem,
                               cf_align := am_align mem, cf_memflag := am_flag mem\<rparr>
                    in (case am_type mem of
                          HARDWARE_MEMORY \<Rightarrow> c\<lparr>cf_dmafd := am_fd mem\<rparr>
                        | SURFACE_MEMORY \<Rightarrow>
                            c\<lparr>cf_surface := (am_surface mem)\<lparr>sc_timeout := sc_timeout (cf_surface c)\<rparr>\<rparr>
                        | _ \<Rightarrow> c)
                  else c1)
        in (c2, b\<lparr>ab_config := c2\<rparr>))"

section \<open>Facts\<close>

lemma drop_bit_mk_uid: "drop_bit 32 (mk_uid st pid bid) = ucast bid"
  unfolding mk_uid_def
  by (rule bit_word_eqI) (auto simp: bit_simps dest: bit_imp_le_length)

lemma unat_drop_mk_uid [simp]: "unat (drop_bit 32 (mk_uid st pid bid)) = unat bid"
  by (simp add: drop_bit_mk_uid unsigned_ucast_eq take_bit_nat_eq_self u32_less_2p [THEN less_trans])

lemma unat_next_bufferId:
  "unat (next_bufferId b) = (if unat b = 4294967295 then 1 else unat b + 1)"
proof (cases "b = - 1")
  case True
  then show ?thesis by (simp add: next_bufferId_def unsigned_minus_1_eq_mask mask_eq_exp_minus_1)
next
  case False
  then have "unat b \<noteq> 4294967295"
    using word_unat_eq_iff [of b "- 1"] by (auto simp: unsigned_minus_1_eq_mask mask_eq_exp_minus_1)
  moreover from this have "unat (b + 1) = unat b + 1"
    using unat_plus_no_wrap [of b 1] u32_less_2p [of b] by simp
  ultimately show ?thesis using False by (simp add: next_bufferId_def)
qed

lemma next_bufferId_range: "1 \<le> unat (next_bufferId b) \<and> unat (next_bufferId b) \<le> 4294967295"
  using u32_less_2p [of b] by (auto simp: unat_next_bufferId)

lemma mk_uid_nonzero: "bid \<noteq> 0 \<Longrightarrow> mk_uid st pid bid \<noteq> 0"
  by (metis drop_bit_of_0 drop_bit_mk_uid unat_drop_mk_uid unat_eq_zero unsigned_0)

lemma GetUniqueId_stable:
  assumes "GetUniqueId b g = (uid, b', g')" "ab_memory b \<noteq> None"
  shows "ab_uid b' = uid \<and> uid \<noteq> 0 \<and> GetUniqueId b' g'' = (uid, b', g'')"
proof -
  have "next_bufferId x \<noteq> 0" for x using next_bufferId_range [of x] by auto
  then show ?thesis
    using assms by (auto simp: GetUniqueId_def Let_def mk_uid_nonzero split: if_splits)
qed

lemma CreateAVBuffer_Some:
  "CreateAVBuffer ini c = Some b \<Longrightarrow>
     ab_memory b \<noteq> None \<and> ab_uid b = 0 \<and> cf_memtype (ab_config b) = cf_memtype c \<and>
     cf_memtype c \<noteq> UNKNOWN_MEMORY \<and> cf_capacity (ab_config b) = max (cf_size c) (cf_capacity c)"
  by (auto simp: CreateAVBuffer_def Let_def empty_buffer_def split: if_splits option.splits)

lemma GetConfig_frame:
  "GetConfig b = (c, b') \<Longrightarrow> ab_uid b' = ab_uid b \<and> ab_memory b' = ab_memory b \<and> ab_config b' = c \<and>
     ab_flag b' = ab_flag b"
  by (auto simp: GetConfig_def Let_def split: option.splits)

text \<open>The ids one process hands out, call after call.\<close>

fun nth_bufferId :: "u32 \<Rightarrow> nat \<Rightarrow> u32" where
  "nth_bufferId b 0 = b"
| "nth_bufferId b (Suc n) = next_bufferId (nth_bufferId b n)"

lemma unat_nth_bufferId:
  assumes "1 \<le> unat b"
  shows "unat (nth_bufferId b n) = (unat b - 1 + n) mod 4294967295 + 1"
proof (induction n)
  case 0
  have "unat b - 1 < 4294967295" using u32_less_2p [of b] by linarith
  then show ?case using assms by simp
next
  case (Suc n)
  let ?m = "(unat b - 1 + n) mod 4294967295"
  have "?m < 4294967295" by simp
  moreover have "(unat b - 1 + Suc n) mod 4294967295 = (if Suc ?m = 4294967295 then 0 else Suc ?m)"
    by (simp add: mod_Suc)
  ultimately show ?case using Suc.IH by (simp add: unat_next_bufferId)
qed

text \<open>
  Unique ids repeat only after 4294967295 buffers: two buffers of one process whose creation
  is less than \<open>UINT32_MAX\<close> apart get different ids, and no id is 0, the id of a buffer without
  memory.
\<close>

theorem unique_ids_window:
  assumes "i < j" "j - i < 4294967295"
  shows "mk_uid st pid (nth_bufferId 0 (Suc i)) \<noteq> mk_uid st pid (nth_bufferId 0 (Suc j)) \<and>
    mk_uid st pid (nth_bufferId 0 (Suc i)) \<noteq> 0"
proof -
  have shift: "nth_bufferId 0 (Suc n) = nth_bufferId 1 n" for n
    by (induction n) (simp_all add: next_bufferId_def)
  have u: "unat (nth_bufferId 0 (Suc n)) = n mod 4294967295 + 1" for n
    unfolding shift using unat_nth_bufferId [of 1 n] by simp
  have "i mod 4294967295 \<noteq> j mod 4294967295"
  proof
    assume "i mod 4294967295 = j mod 4294967295"
    then have "4294967295 dvd j - i"
      using assms(1) by (metis less_imp_le mod_eq_dvd_iff_nat)
    then show False using assms by (auto dest: dvd_imp_le)
  qed
  then have "unat (nth_bufferId 0 (Suc i)) \<noteq> unat (nth_bufferId 0 (Suc j))" by (simp only: u)
  moreover have "nth_bufferId 0 (Suc i) \<noteq> 0" using u [of i] by auto
  ultimately show ?thesis by (metis mk_uid_nonzero unat_drop_mk_uid)
qed

theorem unique_ids_window_witness:
  "mk_uid 1700000000 77 (nth_bufferId 0 1) \<noteq> mk_uid 1700000000 77 (nth_bufferId 0 3)"
  using unique_ids_window [of 0 2 1700000000 77] by simp

end
