(* ===== verification/Buffer_Queue.thy ===== *)
theory Buffer_Queue
  imports Av_Buffer
begin

text \<open>
  \<open>AVBufferQueueImpl\<close> (src/buffer/avbuffer_queue/avbuffer_queue.cpp): the queue through which a
  producer and a consumer hand media buffers to each other. This theory holds the state and one
  definition per operation; Buffer_Queue_Inv proves what they keep.

  Buffers are shared objects: a pointer is an index into the heap \<open>bq_heap\<close>, \<open>None\<close> is
  \<open>nullptr\<close>, and the client's writes to a buffer are writes to that heap. An operation is one
  critical section of \<open>queueMutex_\<close> or, where the code releases the lock in between, the
  composition of two (\<open>push_locked\<close> and \<open>return_locked\<close> are the sections themselves).
  \<open>RequestBuffer\<close> releases the lock while it waits; what the other threads do meanwhile is the
  argument \<open>env\<close>. An output parameter is the pointer the caller passed in (\<open>buf0\<close>) and comes back
  with the status. Notifications and listener calls are appended to \<open>bq_events\<close>.
\<close>

section \<open>State\<close>

datatype av_buffer_state =
    AVBUFFER_STATE_RELEASED
  | AVBUFFER_STATE_REQUESTED
  | AVBUFFER_STATE_PUSHED
  | AVBUFFER_STATE_RETURNED
  | AVBUFFER_STATE_ACQUIRED
  | AVBUFFER_STATE_ATTACHED

type_synonym bufptr = nat

record element =
  el_config :: av_config
  el_state :: av_buffer_state
  el_isDeleting :: bool
  el_buffer :: "bufptr option"

type_synonym cache = "(u64, element) smap"

datatype bq_event =
    Notify_Request
  | Broker_Filled "bufptr option"
  | Producer_Available
  | Consumer_Available

record bq =
  bq_size :: nat
  bq_memtype :: mem_type
  bq_disableAlloc :: bool
  bq_cache :: cache
  bq_free :: "u64 list"
  bq_dirty :: "u64 list"
  bq_broker :: bool
  bq_producer :: bool
  bq_consumer :: bool
  bq_heap :: "av_buffer list"
  bq_gen :: uid_gen
  bq_events :: "bq_event list"

definition AVBUFFER_QUEUE_MAX_QUEUE_SIZE :: nat where "AVBUFFER_QUEUE_MAX_QUEUE_SIZE = 32"

text \<open>The value-initialised element that \<open>cachedBufferMap_[k]\<close> creates.\<close>

definition default_element :: element where
  "default_element = \<lparr>el_config = default_config, el_state = AVBUFFER_STATE_RELEASED,
     el_isDeleting = False, el_buffer = None\<rparr>"

definition new_queue :: "nat \<Rightarrow> mem_type \<Rightarrow> bool \<Rightarrow> av_buffer list \<Rightarrow> uid_gen \<Rightarrow> bq" where
  "new_queue n ty disableAlloc heap gen =
     \<lparr>bq_size = (if n > AVBUFFER_QUEUE_MAX_QUEUE_SIZE then AVBUFFER_QUEUE_MAX_QUEUE_SIZE else n),
      bq_memtype = ty, bq_disableAlloc = disableAlloc, bq_cache = [], bq_free = [], bq_dirty = [],
      bq_broker = False, bq_producer = False, bq_consumer = False, bq_heap = heap, bq_gen = gen,
      bq_events = []\<rparr>"

definition emit :: "bq_event \<Rightarrow> bq \<Rightarrow> bq" where
  "emit e s = s\<lparr>bq_events := bq_events s @ [e]\<rparr>"

text \<open>\<open>buffer->GetUniqueId()\<close> and \<open>buffer->GetConfig()\<close> through a pointer.\<close>

definition ptr_uid :: "bufptr \<Rightarrow> bq \<Rightarrow> u64 \<times> bq" where
  "ptr_uid p s =
     (case GetUniqueId (bq_heap s ! p) (bq_gen s) of
        (uid, b, g) \<Rightarrow> (uid, s\<lparr>bq_heap := (bq_heap s)[p := b], bq_gen := g\<rparr>))"

definition ptr_config :: "bufptr \<Rightarrow> bq \<Rightarrow> av_config \<times> bq" where
  "ptr_config p s =
     (case GetConfig (bq_heap s ! p) of
        (c, b) \<Rightarrow> (c, s\<lparr>bq_heap := (bq_heap s)[p := b]\<rparr>))"

section \<open>Deleting\<close>

definition GetCachedBufferCount :: "bq \<Rightarrow> nat" where
  "GetCachedBufferCount s = length (bq_cache s)"

definition IsBufferInQueue :: "bufptr option \<Rightarrow> bq \<Rightarrow> bool \<times> bq" where
  "IsBufferInQueue buf s =
     (case buf of None \<Rightarrow> (False, s)
      | Some p \<Rightarrow> (case ptr_uid p s of (uid, s1) \<Rightarrow> (smap_find (bq_cache s1) uid \<noteq> None, s1)))"

text \<open>One of the two draining loops: the ids that stay, and how many are still to delete.\<close>

fun drain :: "nat \<Rightarrow> u64 list \<Rightarrow> cache \<Rightarrow> nat \<times> u64 list \<times> cache" where
  "drain c [] m = (c, [], m)"
| "drain c (k # ks) m =
     (if c - 1 \<le> 0 then (c - 1, ks, smap_erase k m) else drain (c - 1) ks (smap_erase k m))"

fun mark_deleting :: "nat \<Rightarrow> cache \<Rightarrow> cache" where
  "mark_deleting c [] = []"
| "mark_deleting c ((k, e) # m) =
     (k, e\<lparr>el_isDeleting := True\<rparr>) # (if c - 1 \<le> 0 then m else mark_deleting (c - 1) m)"

definition DeleteBuffers :: "nat \<Rightarrow> bq \<Rightarrow> bq" where
  "DeleteBuffers c s =
     (if \<not> c > 0 then s
      else case drain c (bq_free s) (bq_cache s) of (c1, f1, m1) \<Rightarrow>
        if c1 \<le> 0 then s\<lparr>bq_free := f1, bq_cache := m1\<rparr>
        else case drain c1 (bq_dirty s) m1 of (c2, d2, m2) \<Rightarrow>
          if c2 \<le> 0 then s\<lparr>bq_free := f1, bq_dirty := d2, bq_cache := m2\<rparr>
          else s\<lparr>bq_free := f1, bq_dirty := d2, bq_cache := mark_deleting c2 m2\<rparr>)"

definition SetQueueSize :: "nat \<Rightarrow> bq \<Rightarrow> status \<times> bq" where
  "SetQueueSize n s =
     (if \<not> (n > 0 \<and> n \<le> AVBUFFER_QUEUE_MAX_QUEUE_SIZE \<and> n \<noteq> bq_size s)
      then (ERROR_INVALID_BUFFER_SIZE, s)
      else if n > bq_size s then
        (let s1 = s\<lparr>bq_size := n\<rparr>
         in (OK, if \<not> bq_disableAlloc s then emit Notify_Request s1 else s1))
      else (OK, (DeleteBuffers (bq_size s - n) s)\<lparr>bq_size := n\<rparr>))"

section \<open>Requesting\<close>

text \<open>
  The search loop of \<open>PopFromFreeBufferList\<close>: the first free id whose cached configuration the
  request fits, with the ids left over. Every probe is a \<open>cachedBufferMap_[*it]\<close>.
\<close>

fun find_fit :: "av_config \<Rightarrow> cache \<Rightarrow> u64 list \<Rightarrow> cache \<times> (u64 \<times> u64 list) option" where
  "find_fit c m [] = (m, None)"
| "find_fit c m (k # ks) =
     (let m1 = smap_touch default_element k m
      in if config_le c (el_config (smap_at default_element m1 k)) then (m1, Some (k, ks))
         else case find_fit c m1 ks of
                (m2, None) \<Rightarrow> (m2, None)
              | (m2, Some (j, r)) \<Rightarrow> (m2, Some (j, k # r)))"

definition PopFromFreeBufferList :: "av_config \<Rightarrow> bq \<Rightarrow> status \<times> bufptr option \<times> bq" where
  "PopFromFreeBufferList c s =
     (case find_fit c (bq_cache s) (bq_free s) of
        (m, Some (k, rest)) \<Rightarrow>
          (OK, el_buffer (smap_at default_element m k), s\<lparr>bq_cache := m, bq_free := rest\<rparr>)
      | (m, None) \<Rightarrow>
          (case bq_free s of
             [] \<Rightarrow> (ERROR_NO_FREE_BUFFER, None, s\<lparr>bq_cache := m\<rparr>)
           | k # rest \<Rightarrow>
               let m1 = smap_touch default_element k m
               in (OK, el_buffer (smap_at default_element m1 k),
                   s\<lparr>bq_cache := m1, bq_free := rest\<rparr>)))"

definition AllocBuffer ::
  "(av_memory \<Rightarrow> av_memory option) \<Rightarrow> av_config \<Rightarrow> bq \<Rightarrow> status \<times> bufptr option \<times> bq" where
  "AllocBuffer ini c s =
     (case CreateAVBuffer ini c of None \<Rightarrow> (ERROR_CREATE_BUFFER, None, s)
      | Some b \<Rightarrow>
          let p = length (bq_heap s);
              (uid, s1) = ptr_uid p (s\<lparr>bq_heap := bq_heap s @ [b]\<rparr>);
              (cfg, s2) = ptr_config p s1
          in (OK, Some p,
              s2\<lparr>bq_cache := smap_put uid \<lparr>el_config = cfg, el_state = AVBUFFER_STATE_RELEASED,
                   el_isDeleting = False, el_buffer = Some p\<rparr> (bq_cache s2)\<rparr>))"

definition set_requested :: "bufptr \<Rightarrow> bq \<Rightarrow> bq" where
  "set_requested p s =
     (case ptr_uid p s of (uid, s1) \<Rightarrow>
        s1\<lparr>bq_cache := smap_put uid
             ((smap_at default_element (bq_cache s1) uid)\<lparr>el_state := AVBUFFER_STATE_REQUESTED\<rparr>)
             (bq_cache s1)\<rparr>)"

definition requested_opt :: "bufptr option \<Rightarrow> bq \<Rightarrow> bq" where
  "requested_opt buf s = (case buf of None \<Rightarrow> s | Some p \<Rightarrow> set_requested p s)"

definition RequestReuseBuffer ::
  "(av_memory \<Rightarrow> av_memory option) \<Rightarrow> bufptr option \<Rightarrow> av_config \<Rightarrow> bq \<Rightarrow> status \<times> bufptr option \<times> bq" where
  "RequestReuseBuffer ini buf c s =
     (case buf of None \<Rightarrow> (ERROR_NULL_POINT_BUFFER, None, s)
      | Some p \<Rightarrow>
        (case ptr_uid p s of (uid, s1) \<Rightarrow>
          (case smap_find (bq_cache s1) uid of None \<Rightarrow> (ERROR_CREATE_BUFFER, buf, s1)
           | Some e \<Rightarrow>
              if config_le c (el_config e) then
                (OK, buf, set_requested p (s1\<lparr>bq_cache := smap_put uid
                   (e\<lparr>el_config := (el_config e)\<lparr>cf_size := cf_size c\<rparr>\<rparr>) (bq_cache s1)\<rparr>))
              else
                (case AllocBuffer ini c (s1\<lparr>bq_cache := smap_erase uid (bq_cache s1)\<rparr>) of
                   (ret, nbuf, s2) \<Rightarrow>
                     if ret = OK then (ret, nbuf, requested_opt nbuf s2) else (ret, buf, s2)))))"

definition CheckConfig :: "av_config \<Rightarrow> bq \<Rightarrow> status \<times> bq" where
  "CheckConfig c s =
     (if cf_memtype c = UNKNOWN_MEMORY then (ERROR_UNEXPECTED_MEMORY_TYPE, s)
      else if \<not> (bq_memtype s = UNKNOWN_MEMORY \<or> cf_memtype c = bq_memtype s)
      then (ERROR_UNEXPECTED_MEMORY_TYPE, s)
      else (OK, s\<lparr>bq_memtype := cf_memtype c\<rparr>))"

text \<open>
  \<open>wait_for\<close>: a positive timeout waits with the predicate and reports it, a negative one waits
  once without predicate, zero does not wait. \<open>env\<close> is what happens while the lock is released.
\<close>

definition wait_for :: "(bq \<Rightarrow> bq) \<Rightarrow> int \<Rightarrow> bq \<Rightarrow> bool \<times> bq" where
  "wait_for env timeoutMs s =
     (if timeoutMs > 0 then
        (let s1 = env s
         in (bq_free s1 \<noteq> [] \<or> GetCachedBufferCount s1 < bq_size s1, s1))
      else if timeoutMs < 0 then (True, env s)
      else (True, s))"

definition alloc_requested ::
  "(av_memory \<Rightarrow> av_memory option) \<Rightarrow> av_config \<Rightarrow> bq \<Rightarrow> status \<times> bufptr option \<times> bq" where
  "alloc_requested ini c s =
     (case AllocBuffer ini c s of
        (ret, buf, s1) \<Rightarrow> (ret, buf, if ret = OK then requested_opt buf s1 else s1))"

text \<open>What \<open>RequestBuffer\<close> does once the wait is over and the lock is held again.\<close>

definition request_again ::
  "(av_memory \<Rightarrow> av_memory option) \<Rightarrow> av_config \<Rightarrow> bq \<Rightarrow> status \<times> bufptr option \<times> bq" where
  "request_again ini c s =
     (case PopFromFreeBufferList c s of (r, buf, s1) \<Rightarrow>
        if r = OK then RequestReuseBuffer ini buf c s1
        else if \<not> GetCachedBufferCount s1 < bq_size s1 then (ERROR_NO_FREE_BUFFER, buf, s1)
        else alloc_requested ini c s1)"

definition RequestBuffer ::
  "(bq \<Rightarrow> bq) \<Rightarrow> (av_memory \<Rightarrow> av_memory option) \<Rightarrow> bufptr option \<Rightarrow> av_config \<Rightarrow> int \<Rightarrow> bq
     \<Rightarrow> status \<times> bufptr option \<times> bq" where
  "RequestBuffer env ini buf0 config timeoutMs s =
     (let c = (if cf_memtype config = UNKNOWN_MEMORY
               then config\<lparr>cf_memtype := bq_memtype s\<rparr> else config)
      in case CheckConfig c s of (st, s1) \<Rightarrow>
        if st \<noteq> OK then (st, buf0, s1)
        else case PopFromFreeBufferList c s1 of (r, buf, s2) \<Rightarrow>
          if r = OK then RequestReuseBuffer ini buf c s2
          else if GetCachedBufferCount s2 \<ge> bq_size s2 then
            (case wait_for env timeoutMs s2 of (w, s3) \<Rightarrow>
              if \<not> w then (ERROR_WAIT_TIMEOUT, buf, s3) else request_again ini c s3)
          else alloc_requested ini c s2)"

section \<open>Giving back to the free list\<close>

fun insert_free :: "cache \<Rightarrow> u64 \<Rightarrow> u64 list \<Rightarrow> cache \<times> u64 list" where
  "insert_free m u [] = (m, [u])"
| "insert_free m u (k # ks) =
     (if k \<noteq> u then
        (let m1 = smap_touch default_element u (smap_touch default_element k m)
         in if cf_capacity (el_config (smap_at default_element m1 k))
                 \<ge> cf_capacity (el_config (smap_at default_element m1 u))
            then (m1, u # k # ks)
            else case insert_free m1 u ks of (m2, r) \<Rightarrow> (m2, k # r))
      else case insert_free m u ks of (m2, r) \<Rightarrow> (m2, k # r))"

definition InsertFreeBufferInOrder :: "u64 \<Rightarrow> bq \<Rightarrow> bq" where
  "InsertFreeBufferInOrder u s =
     (case insert_free (bq_cache s) u (bq_free s) of (m, f) \<Rightarrow> s\<lparr>bq_cache := m, bq_free := f\<rparr>)"

definition set_el_state :: "av_buffer_state \<Rightarrow> u64 \<Rightarrow> bq \<Rightarrow> bq" where
  "set_el_state st u s =
     s\<lparr>bq_cache := smap_put u
         ((smap_at default_element (bq_cache s) u)\<lparr>el_state := st\<rparr>) (bq_cache s)\<rparr>"

definition CancelBuffer :: "u64 \<Rightarrow> bq \<Rightarrow> status \<times> bq" where
  "CancelBuffer u s =
     (case smap_find (bq_cache s) u of None \<Rightarrow> (ERROR_INVALID_BUFFER_ID, s)
      | Some e \<Rightarrow>
          if \<not> (el_state e = AVBUFFER_STATE_REQUESTED \<or> el_state e = AVBUFFER_STATE_PUSHED)
          then (ERROR_INVALID_BUFFER_STATE, s)
          else (OK, emit Notify_Request
                      (set_el_state AVBUFFER_STATE_RELEASED u (InsertFreeBufferInOrder u s))))"

section \<open>Pushing and returning\<close>

text \<open>
  The locked parts: \<open>Some st\<close> is an early return with status \<open>st\<close>, \<open>None\<close> continues after
  the lock is released.
\<close>

definition return_locked :: "u64 \<Rightarrow> bool \<Rightarrow> bq \<Rightarrow> fault + (status option \<times> bq)" where
  "return_locked u available s =
     (case smap_find (bq_cache s) u of None \<Rightarrow> Inr (Some ERROR_INVALID_BUFFER_ID, s)
      | Some e \<Rightarrow>
          if el_isDeleting e then Inr (Some OK, s\<lparr>bq_cache := smap_erase u (bq_cache s)\<rparr>)
          else if \<not> el_state e = AVBUFFER_STATE_PUSHED then Inr (Some ERROR_INVALID_BUFFER_STATE, s)
          else if \<not> available then
            (case CancelBuffer u s of (st, s1) \<Rightarrow>
               Inr (if st = OK then None else Some st, s1))
          else
            (case el_buffer e of None \<Rightarrow> Inl Null_Deref
             | Some p \<Rightarrow>
                (case ptr_config p s of (cfg, s1) \<Rightarrow>
                  if ab_flag (bq_heap s1 ! p) AND EOS_FLAG = 0 \<and> \<not> cf_size cfg > 0
                  then Inr (Some ERROR_INVALID_BUFFER_SIZE, s1)
                  else Inr (None, s1\<lparr>bq_cache := smap_put u
                         (e\<lparr>el_config := cfg, el_state := AVBUFFER_STATE_RETURNED\<rparr>) (bq_cache s1),
                       bq_dirty := bq_dirty s1 @ [u]\<rparr>))))"

definition ReturnBuffer :: "u64 \<Rightarrow> bool \<Rightarrow> bq \<Rightarrow> fault + (status \<times> bq)" where
  "ReturnBuffer u available s =
     (case return_locked u available s of Inl f \<Rightarrow> Inl f
      | Inr (Some st, s1) \<Rightarrow> Inr (st, s1)
      | Inr (None, s1) \<Rightarrow>
          if \<not> available then
            Inr (OK, if bq_producer s1 then emit Producer_Available s1 else s1)
          else if \<not> bq_consumer s1 then Inr (ERROR_NO_CONSUMER_LISTENER, s1)
          else Inr (OK, emit Consumer_Available s1))"

definition push_locked :: "u64 \<Rightarrow> bool \<Rightarrow> bq \<Rightarrow> fault + (status option \<times> bq)" where
  "push_locked u available s =
     (case smap_find (bq_cache s) u of None \<Rightarrow> Inr (Some ERROR_INVALID_BUFFER_ID, s)
      | Some e \<Rightarrow>
          if el_isDeleting e then Inr (Some OK, s\<lparr>bq_cache := smap_erase u (bq_cache s)\<rparr>)
          else
            (case (if available then
                     (case el_buffer e of None \<Rightarrow> Inl Null_Deref
                      | Some p \<Rightarrow> (case ptr_config p s of (cfg, s1) \<Rightarrow> Inr (cf_size cfg \<ge> 0, s1)))
                   else Inr (True, s)) of
               Inl f \<Rightarrow> Inl f
             | Inr (sizeOk, s1) \<Rightarrow>
                 if \<not> sizeOk then Inr (Some ERROR_INVALID_BUFFER_SIZE, s1)
                 else if \<not> (el_state e = AVBUFFER_STATE_REQUESTED \<or> el_state e = AVBUFFER_STATE_ATTACHED)
                 then Inr (Some ERROR_INVALID_BUFFER_STATE, s1)
                 else Inr (None, set_el_state AVBUFFER_STATE_PUSHED u s1)))"

definition PushBuffer :: "u64 \<Rightarrow> bool \<Rightarrow> bq \<Rightarrow> fault + (status \<times> bq)" where
  "PushBuffer u available s =
     (case push_locked u available s of Inl f \<Rightarrow> Inl f
      | Inr (Some st, s1) \<Rightarrow> Inr (st, s1)
      | Inr (None, s1) \<Rightarrow>
          if available \<and> bq_broker s1
          then Inr (OK, emit (Broker_Filled (el_buffer (smap_at default_element (bq_cache s1) u))) s1)
          else ReturnBuffer u available s1)"

definition PushBuffer_ptr :: "bufptr option \<Rightarrow> bool \<Rightarrow> bq \<Rightarrow> fault + (status \<times> bq)" where
  "PushBuffer_ptr buf available s =
     (case buf of None \<Rightarrow> Inr (ERROR_NULL_POINT_BUFFER, s)
      | Some p \<Rightarrow> (case ptr_uid p s of (u, s1) \<Rightarrow> PushBuffer u available s1))"

definition ReturnBuffer_ptr :: "bufptr option \<Rightarrow> bool \<Rightarrow> bq \<Rightarrow> fault + (status \<times> bq)" where
  "ReturnBuffer_ptr buf available s =
     (case buf of None \<Rightarrow> Inr (ERROR_NULL_POINT_BUFFER, s)
      | Some p \<Rightarrow> (case ptr_uid p s of (u, s1) \<Rightarrow> ReturnBuffer u available s1))"

section \<open>Releasing, detaching, attaching, acquiring\<close>

definition ReleaseBuffer :: "u64 \<Rightarrow> bq \<Rightarrow> status \<times> bq" where
  "ReleaseBuffer u s =
     (case smap_find (bq_cache s) u of None \<Rightarrow> (ERROR_INVALID_BUFFER_ID, s)
      | Some e \<Rightarrow>
          if \<not> (el_state e = AVBUFFER_STATE_ACQUIRED \<or> el_state e = AVBUFFER_STATE_ATTACHED)
          then (ERROR_INVALID_BUFFER_STATE, s)
          else
            let s1 = set_el_state AVBUFFER_STATE_RELEASED u s
            in if el_isDeleting e then (OK, s1\<lparr>bq_cache := smap_erase u (bq_cache s1)\<rparr>)
               else let s2 = emit Notify_Request (InsertFreeBufferInOrder u s1)
                    in (OK, if bq_producer s2 then emit Producer_Available s2 else s2))"

definition ReleaseBuffer_ptr :: "bufptr option \<Rightarrow> bq \<Rightarrow> status \<times> bq" where
  "ReleaseBuffer_ptr buf s =
     (case buf of None \<Rightarrow> (ERROR_NULL_POINT_BUFFER, s)
      | Some p \<Rightarrow> (case ptr_uid p s of (u, s1) \<Rightarrow> ReleaseBuffer u s1))"

definition DetachBuffer :: "u64 \<Rightarrow> bool \<Rightarrow> bq \<Rightarrow> status \<times> bq" where
  "DetachBuffer u force s =
     (case smap_find (bq_cache s) u of None \<Rightarrow> (ERROR_INVALID_BUFFER_ID, s)
      | Some e \<Rightarrow>
          if \<not> force \<and> \<not> (el_state e = AVBUFFER_STATE_REQUESTED \<or> el_state e = AVBUFFER_STATE_ACQUIRED)
          then (ERROR_INVALID_BUFFER_STATE, s)
          else (OK, s\<lparr>bq_cache := smap_erase u (bq_cache s)\<rparr>))"

definition DetachBuffer_ptr :: "bufptr option \<Rightarrow> bq \<Rightarrow> status \<times> bq" where
  "DetachBuffer_ptr buf s =
     (case buf of None \<Rightarrow> (ERROR_NULL_POINT_BUFFER, s)
      | Some p \<Rightarrow> (case ptr_uid p s of (u, s1) \<Rightarrow> DetachBuffer u False s1))"

text \<open>The locked part of \<open>AttachBuffer\<close>: the id and the element enter the cache, or a status.\<close>

definition attach_locked :: "bufptr \<Rightarrow> bq \<Rightarrow> status \<times> u64 \<times> bq" where
  "attach_locked p s =
     (let (cfg, s1) = ptr_config p s; (u, s2) = ptr_uid p s1
      in if smap_find (bq_cache s2) u \<noteq> None then (ERROR_INVALID_BUFFER_ID, u, s2)
         else case CheckConfig cfg s2 of (st, s3) \<Rightarrow>
           if st \<noteq> OK then (st, u, s3)
           else let e = \<lparr>el_config = cfg, el_state = AVBUFFER_STATE_ATTACHED, el_isDeleting = False,
                         el_buffer = Some p\<rparr>;
                    put = (\<lambda>t. t\<lparr>bq_cache := smap_put u e (bq_cache t)\<rparr>)
                in if GetCachedBufferCount s3 \<ge> bq_size s3 then
                     let validCount = length (bq_dirty s3) + length (bq_free s3);
                         toBeDeleteCount = GetCachedBufferCount s3 - bq_size s3
                     in if validCount > toBeDeleteCount
                        then (OK, u, put (DeleteBuffers (toBeDeleteCount + 1) s3))
                        else (ERROR_OUT_OF_RANGE, u, s3)
                   else (OK, u, put s3))"

definition AttachBuffer :: "bufptr option \<Rightarrow> bool \<Rightarrow> bq \<Rightarrow> fault + (status \<times> bq)" where
  "AttachBuffer buf isFilled s =
     (case buf of None \<Rightarrow> Inr (ERROR_NULL_POINT_BUFFER, s)
      | Some p \<Rightarrow>
        (case attach_locked p s of (st, u, s1) \<Rightarrow>
          if st \<noteq> OK then Inr (st, s1)
          else if isFilled then
            (case PushBuffer u isFilled s1 of Inl f \<Rightarrow> Inl f
             | Inr (ret, s2) \<Rightarrow>
                 if ret \<noteq> OK then Inr (ret, snd (DetachBuffer u True s2)) else Inr (ret, s2))
          else Inr (ReleaseBuffer u s1)))"

definition PopFromDirtyBufferList :: "bufptr option \<Rightarrow> bq \<Rightarrow> status \<times> bufptr option \<times> bq" where
  "PopFromDirtyBufferList buf0 s =
     (case bq_dirty s of [] \<Rightarrow> (ERROR_NO_DIRTY_BUFFER, buf0, s)
      | k # ks \<Rightarrow>
          let m = smap_touch default_element k (bq_cache s)
          in (OK, el_buffer (smap_at default_element m k), s\<lparr>bq_cache := m, bq_dirty := ks\<rparr>))"

definition AcquireBuffer :: "bufptr option \<Rightarrow> bq \<Rightarrow> fault + (status \<times> bufptr option \<times> bq)" where
  "AcquireBuffer buf0 s =
     (case PopFromDirtyBufferList buf0 s of (ret, buf, s1) \<Rightarrow>
        if ret \<noteq> OK then Inr (ret, buf, s1)
        else (case buf of None \<Rightarrow> Inl Null_Deref
              | Some p \<Rightarrow> (case ptr_uid p s1 of (u, s2) \<Rightarrow>
                  Inr (OK, buf, set_el_state AVBUFFER_STATE_ACQUIRED u s2))))"

section \<open>Listeners\<close>

definition SetBrokerListener :: "bool \<Rightarrow> bq \<Rightarrow> status \<times> bq" where
  "SetBrokerListener l s = (OK, s\<lparr>bq_broker := l\<rparr>)"

definition SetProducerListener :: "bool \<Rightarrow> bq \<Rightarrow> status \<times> bq" where
  "SetProducerListener l s = (OK, s\<lparr>bq_producer := l\<rparr>)"

definition SetConsumerListener :: "bool \<Rightarrow> bq \<Rightarrow> status \<times> bq" where
  "SetConsumerListener l s = (OK, s\<lparr>bq_consumer := l\<rparr>)"

end
