(* ===== verification/Buffer_Queue_Inv.thy ===== *)
theory Buffer_Queue_Inv
  imports Buffer_Queue
begin

text \<open>
  What \<open>AVBufferQueueImpl\<close> keeps: the free list holds exactly the released buffers, in ascending
  order of capacity, the dirty list exactly the returned ones, every cached element points to a
  live buffer that carries its key as unique id. Each operation is shown to preserve this; the
  consequences (ownership, no null dereference, FIFO delivery, capacity) are in
  Buffer_Queue_Props.
\<close>

section \<open>Cache and lists\<close>

definition st_of :: "cache \<Rightarrow> u64 \<Rightarrow> av_buffer_state option" where
  "st_of m k = map_option el_state (smap_find m k)"

definition cap_of :: "cache \<Rightarrow> u64 \<Rightarrow> int" where
  "cap_of m k = cf_capacity (el_config (smap_at default_element m k))"

text \<open>
  \<open>hole k m f d\<close>: everything is in order but for \<open>k\<close>, which is in neither list (a buffer an
  operation holds in its hands). \<open>cache_wf m f d\<close>: everything is in order.
\<close>

definition hole :: "u64 set \<Rightarrow> cache \<Rightarrow> u64 list \<Rightarrow> u64 list \<Rightarrow> bool" where
  "hole K m f d \<longleftrightarrow>
     smap_ok m \<and> distinct f \<and> distinct d \<and> K \<inter> (set f \<union> set d) = {} \<and>
     (\<forall>k. k \<notin> K \<longrightarrow> (k \<in> set f \<longleftrightarrow> st_of m k = Some AVBUFFER_STATE_RELEASED)) \<and>
     (\<forall>k. k \<notin> K \<longrightarrow> (k \<in> set d \<longleftrightarrow> st_of m k = Some AVBUFFER_STATE_RETURNED)) \<and>
     (\<forall>k e. k \<in> set f \<union> set d \<longrightarrow> smap_find m k = Some e \<longrightarrow> \<not> el_isDeleting e) \<and>
     sorted (map (cap_of m) f)"

abbreviation cache_wf :: "cache \<Rightarrow> u64 list \<Rightarrow> u64 list \<Rightarrow> bool" where
  "cache_wf m f d \<equiv> hole {} m f d"

lemma st_of_put [simp]: "st_of (smap_put k e m) j = (if j = k then Some (el_state e) else st_of m j)"
  by (simp add: st_of_def)

lemma st_of_erase [simp]: "st_of (smap_erase k m) j = (if j = k then None else st_of m j)"
  by (simp add: st_of_def)

lemma cap_of_put_other [simp]: "j \<noteq> k \<Longrightarrow> cap_of (smap_put k e m) j = cap_of m j"
  by (simp add: cap_of_def smap_at_def)

lemma cap_of_put_same [simp]: "cap_of (smap_put k e m) k = cf_capacity (el_config e)"
  by (simp add: cap_of_def smap_at_def)

lemma cap_of_erase_other [simp]: "j \<noteq> k \<Longrightarrow> cap_of (smap_erase k m) j = cap_of m j"
  by (simp add: cap_of_def smap_at_def)

lemma map_cap_put: "k \<notin> set f \<Longrightarrow> map (cap_of (smap_put k e m)) f = map (cap_of m) f"
  by (rule map_cong_on) (auto intro: cap_of_put_other)

lemma map_cap_erase: "k \<notin> set f \<Longrightarrow> map (cap_of (smap_erase k m)) f = map (cap_of m) f"
  by (rule map_cong_on) (auto intro: cap_of_erase_other)

lemma sorted_cap_put [simp]:
  "k \<notin> set f \<Longrightarrow> sorted (map (cap_of (smap_put k e m)) f) = sorted (map (cap_of m) f)"
  by (metis map_cap_put)

lemma sorted_cap_erase [simp]:
  "k \<notin> set f \<Longrightarrow> sorted (map (cap_of (smap_erase k m)) f) = sorted (map (cap_of m) f)"
  by (metis map_cap_erase)

lemma hole_ok: "hole K m f d \<Longrightarrow> smap_ok m"
  by (simp add: hole_def)

lemma cache_wf_free:
  "cache_wf m f d \<Longrightarrow> k \<in> set f \<Longrightarrow> \<exists>e. smap_find m k = Some e \<and> el_state e = AVBUFFER_STATE_RELEASED
     \<and> \<not> el_isDeleting e"
  by (fastforce simp: hole_def st_of_def)

lemma cache_wf_dirty:
  "cache_wf m f d \<Longrightarrow> k \<in> set d \<Longrightarrow> \<exists>e. smap_find m k = Some e \<and> el_state e = AVBUFFER_STATE_RETURNED
     \<and> \<not> el_isDeleting e"
  by (fastforce simp: hole_def st_of_def)

lemma cache_wf_disjoint: "cache_wf m f d \<Longrightarrow> set f \<inter> set d = {}"
  by (fastforce simp: hole_def st_of_def)

text \<open>Opening a hole.\<close>

lemma hole_other:
  "cache_wf m f d \<Longrightarrow> st_of m k \<notin> {Some AVBUFFER_STATE_RELEASED, Some AVBUFFER_STATE_RETURNED} \<Longrightarrow>
     hole {k} m f d"
  by (auto simp: hole_def)

lemma sorted_map_remove: "sorted (map g (xs @ k # ys)) \<Longrightarrow> sorted (map g (xs @ ys))"
  by (auto simp: sorted_append)

lemma hole_pop_free:
  assumes "cache_wf m (xs @ k # ys) d"
  shows "hole {k} m (xs @ ys) d"
proof -
  have "k \<notin> set d" using cache_wf_disjoint [OF assms] by auto
  moreover have "sorted (map (cap_of m) (xs @ ys))"
    using assms unfolding hole_def by (blast intro: sorted_map_remove)
  ultimately show ?thesis
    using assms by (auto simp: hole_def)
qed

lemma hole_pop_dirty:
  assumes "cache_wf m f (k # ys)"
  shows "hole {k} m f ys"
proof -
  have "k \<notin> set f" using cache_wf_disjoint [OF assms] by auto
  then show ?thesis
    using assms by (auto simp: hole_def)
qed

text \<open>Closing it.\<close>

lemma hole_fill:
  assumes h: "hole {k} m f d"
    and st: "el_state e \<notin> {AVBUFFER_STATE_RELEASED, AVBUFFER_STATE_RETURNED}"
  shows "cache_wf (smap_put k e m) f d"
  using assms
  by (auto simp: hole_def smap_ok_put)

lemma hole_erase:
  assumes h: "hole {k} m f d"
  shows "cache_wf (smap_erase k m) f d"
  using assms
  by (auto simp: hole_def smap_ok_erase)

lemma hole_put:
  assumes h: "hole {k} m f d"
  shows "hole {k} (smap_put k e m) f d"
  using assms
  by (auto simp: hole_def smap_ok_put)

lemma hole_push_dirty:
  assumes h: "hole {k} m f d"
    and st: "el_state e = AVBUFFER_STATE_RETURNED" "\<not> el_isDeleting e"
  shows "cache_wf (smap_put k e m) f (d @ [k])"
  using assms
  by (auto simp: hole_def smap_ok_put)

text \<open>Inserting into the free list.\<close>

fun insort_cap :: "(u64 \<Rightarrow> int) \<Rightarrow> u64 \<Rightarrow> u64 list \<Rightarrow> u64 list" where
  "insort_cap g u [] = [u]"
| "insort_cap g u (k # ks) = (if g u \<le> g k then u # k # ks else k # insort_cap g u ks)"

lemma insert_free_eq:
  "u \<notin> set f \<Longrightarrow> smap_find m u \<noteq> None \<Longrightarrow> \<forall>k \<in> set f. smap_find m k \<noteq> None \<Longrightarrow>
     insert_free m u f = (m, insort_cap (cap_of m) u f)"
  by (induction m u f rule: insert_free.induct) (auto simp: Let_def cap_of_def)

lemma set_insort_cap [simp]: "set (insort_cap g u f) = insert u (set f)"
  by (induction f) auto

lemma distinct_insort_cap: "u \<notin> set f \<Longrightarrow> distinct f \<Longrightarrow> distinct (insort_cap g u f)"
  by (induction f) auto

lemma sorted_insort_cap: "sorted (map g f) \<Longrightarrow> sorted (map g (insort_cap g u f))"
proof (induction f)
  case (Cons k f)
  then have "sorted (map g (insort_cap g u f))" "\<forall>x \<in> set f. g k \<le> g x" by auto
  then show ?case using Cons.prems by (cases "g u \<le> g k") auto
qed simp

lemma insort_cap_cong:
  "(\<And>k. k \<in> insert u (set f) \<Longrightarrow> g k = h k) \<Longrightarrow> insort_cap g u f = insort_cap h u f"
  by (induction f) auto

lemma hole_find_free: "hole K m f d \<Longrightarrow> k \<in> set f \<Longrightarrow> smap_find m k \<noteq> None"
  by (auto simp: hole_def st_of_def)

lemma hole_insert_free:
  assumes h: "hole {k} m f d"
    and st: "el_state e = AVBUFFER_STATE_RELEASED" "\<not> el_isDeleting e"
  shows "cache_wf (smap_put k e m) (insort_cap (cap_of (smap_put k e m)) k f) d"
proof -
  have "sorted (map (cap_of (smap_put k e m)) f)"
    using h by (simp add: hole_def)
  then have "sorted (map (cap_of (smap_put k e m)) (insort_cap (cap_of (smap_put k e m)) k f))"
    by (rule sorted_insort_cap)
  then show ?thesis
    using assms by (auto simp: hole_def smap_ok_put distinct_insort_cap)
qed

text \<open>Draining and marking.\<close>

lemma drain_free_wf:
  "cache_wf m f d \<Longrightarrow> 0 < c \<Longrightarrow> drain c f m = (c', f', m') \<Longrightarrow>
     cache_wf m' f' d \<and> (c' > 0 \<longrightarrow> f' = []) \<and> (\<forall>k e. smap_find m' k = Some e \<longrightarrow> smap_find m k = Some e)
       \<and> length m = length m' + (c - c') \<and> c' \<le> c \<and> length f = length f' + (c - c')"
proof (induction c f m rule: drain.induct)
  case (1 c m)
  then show ?case by auto
next
  case (2 c k ks m)
  have wf: "cache_wf (smap_erase k m) ks d"
    using hole_erase [OF hole_pop_free [of m "[]" k ks d]] 2 by simp
  obtain e where e: "smap_find m k = Some e" using cache_wf_free [OF "2.prems"(1)] by auto
  then have len: "length m = Suc (length (smap_erase k m))"
    using smap_size_erase [OF hole_ok [OF "2.prems"(1)], of k]
    by (cases m) auto
  show ?case
  proof (cases "c - 1 \<le> 0")
    case True
    then show ?thesis using 2 wf len by (auto split: if_splits)
  next
    case False
    then have "drain (c - 1) ks (smap_erase k m) = (c', f', m')" "0 < c - 1" using 2 by auto
    with 2(1) False wf show ?thesis using len by (fastforce split: if_splits)
  qed
qed

lemma drain_dirty_wf:
  "cache_wf m f d \<Longrightarrow> 0 < c \<Longrightarrow> drain c d m = (c', d', m') \<Longrightarrow>
     cache_wf m' f d' \<and> (c' > 0 \<longrightarrow> d' = []) \<and> (\<forall>k e. smap_find m' k = Some e \<longrightarrow> smap_find m k = Some e)
       \<and> length m = length m' + (c - c') \<and> c' \<le> c \<and> length d = length d' + (c - c')"
proof (induction c d m rule: drain.induct)
  case (1 c m)
  then show ?case by auto
next
  case (2 c k ks m)
  have wf: "cache_wf (smap_erase k m) f ks"
    using hole_erase [OF hole_pop_dirty [OF "2.prems"(1)]] .
  obtain e where e: "smap_find m k = Some e" using cache_wf_dirty [OF "2.prems"(1)] by auto
  then have len: "length m = Suc (length (smap_erase k m))"
    using smap_size_erase [OF hole_ok [OF "2.prems"(1)], of k]
    by (cases m) auto
  show ?case
  proof (cases "c - 1 \<le> 0")
    case True
    then show ?thesis using 2 wf len by (auto split: if_splits)
  next
    case False
    then have "drain (c - 1) ks (smap_erase k m) = (c', d', m')" "0 < c - 1" using 2 by auto
    with 2(1) False wf show ?thesis using len by (fastforce split: if_splits)
  qed
qed

lemma map_fst_mark [simp]: "map fst (mark_deleting c m) = map fst m"
  by (induction c m rule: mark_deleting.induct) auto

lemma length_mark [simp]: "length (mark_deleting c m) = length m"
  by (induction c m rule: mark_deleting.induct) auto

lemma smap_find_mark:
  "smap_find (mark_deleting c m) k = Some e' \<Longrightarrow>
     \<exists>e b. smap_find m k = Some e \<and> e' = e\<lparr>el_isDeleting := b\<rparr> \<and> (el_isDeleting e \<longrightarrow> b)"
proof (induction c m arbitrary: e' rule: mark_deleting.induct)
  case (2 c j e m)
  then show ?case
    by (cases "j = k"; cases "c - 1 \<le> 0")
      (auto, (metis element.surjective element.update_convs(3) old.unit.exhaust)+)
qed simp

lemma st_of_mark [simp]: "st_of (mark_deleting c m) k = st_of m k"
proof (induction c m rule: mark_deleting.induct)
  case (2 c j e m)
  then show ?case by (auto simp: st_of_def)
qed (simp add: st_of_def)

lemma mark_wf: "cache_wf m [] [] \<Longrightarrow> cache_wf (mark_deleting c m) [] []"
  by (auto simp: hole_def smap_ok_def)


section \<open>The queue\<close>

definition heap_wf :: "cache \<Rightarrow> av_buffer list \<Rightarrow> uid_gen \<Rightarrow> bool" where
  "heap_wf m h g \<longleftrightarrow>
     (\<forall>k e. smap_find m k = Some e \<longrightarrow> k \<noteq> 0 \<and>
        (\<exists>p < length h. el_buffer e = Some p \<and> ab_uid (h ! p) = k \<and> ab_memory (h ! p) \<noteq> None)) \<and>
     (\<forall>b \<in> set h. ab_memory b = None \<longrightarrow> cf_memtype (ab_config b) = UNKNOWN_MEMORY) \<and>
     (\<forall>b \<in> set h. unat (drop_bit 32 (ab_uid b)) \<le> unat (ug_bufferId g))"

definition bq_hole :: "u64 set \<Rightarrow> bq \<Rightarrow> bool" where
  "bq_hole K s \<longleftrightarrow> hole K (bq_cache s) (bq_free s) (bq_dirty s) \<and>
     heap_wf (bq_cache s) (bq_heap s) (bq_gen s) \<and> bq_size s \<le> AVBUFFER_QUEUE_MAX_QUEUE_SIZE"

abbreviation bq_wf :: "bq \<Rightarrow> bool" where
  "bq_wf s \<equiv> bq_hole {} s"

text \<open>The id generator has not wrapped yet: fewer than \<open>UINT32_MAX\<close> buffers so far.\<close>

definition ids_left :: "bq \<Rightarrow> bool" where
  "ids_left s \<longleftrightarrow> unat (ug_bufferId (bq_gen s)) < 4294967295"

text \<open>Fields an access through a pointer leaves alone.\<close>

definition same_lists :: "bq \<Rightarrow> bq \<Rightarrow> bool" where
  "same_lists s t \<longleftrightarrow> bq_cache t = bq_cache s \<and> bq_free t = bq_free s \<and> bq_dirty t = bq_dirty s \<and>
     bq_size t = bq_size s \<and> bq_memtype t = bq_memtype s \<and> bq_broker t = bq_broker s \<and>
     bq_producer t = bq_producer s \<and> bq_consumer t = bq_consumer s \<and> bq_events t = bq_events s \<and>
     length (bq_heap t) = length (bq_heap s)"

lemma same_lists_refl [simp]: "same_lists s s"
  by (simp add: same_lists_def)

lemma ptr_uid_same: "ptr_uid p s = (u, t) \<Longrightarrow> same_lists s t"
  by (auto simp: ptr_uid_def same_lists_def split: prod.splits)

lemma ptr_config_same: "ptr_config p s = (c, t) \<Longrightarrow> same_lists s t"
  by (auto simp: ptr_config_def same_lists_def split: prod.splits)

lemma heap_wf_cached:
  "heap_wf m h g \<Longrightarrow> smap_find m k = Some e \<Longrightarrow>
     \<exists>p. el_buffer e = Some p \<and> p < length h \<and> ab_uid (h ! p) = k \<and> ab_memory (h ! p) \<noteq> None \<and> k \<noteq> 0"
  unfolding heap_wf_def by blast

lemma heap_wf_put:
  "heap_wf m h g \<Longrightarrow> smap_find m k = Some e \<Longrightarrow> el_buffer e' = el_buffer e \<Longrightarrow> heap_wf (smap_put k e' m) h g"
  unfolding heap_wf_def by (auto split: if_splits)

lemma heap_wf_erase: "heap_wf m h g \<Longrightarrow> heap_wf (smap_erase k m) h g"
  by (auto simp: heap_wf_def split: if_splits)

lemma heap_wf_sub:
  "heap_wf m h g \<Longrightarrow> (\<And>k e. smap_find m' k = Some e \<Longrightarrow> smap_find m k = Some e) \<Longrightarrow> heap_wf m' h g"
  unfolding heap_wf_def by blast

lemma heap_wf_mark: "heap_wf m h g \<Longrightarrow> heap_wf (mark_deleting c m) h g"
  unfolding heap_wf_def by (fastforce dest: smap_find_mark)

text \<open>Rewriting one buffer of the heap without touching what the cache relies on.\<close>

lemma heap_wf_update:
  assumes wf: "heap_wf m h g" and p: "p < length h"
    and b: "ab_memory b = None \<longleftrightarrow> ab_memory (h ! p) = None"
      "ab_memory b \<noteq> None \<Longrightarrow> ab_uid (h ! p) \<noteq> 0 \<Longrightarrow> ab_uid b = ab_uid (h ! p)"
      "ab_memory b = None \<Longrightarrow> cf_memtype (ab_config b) = UNKNOWN_MEMORY"
      "unat (drop_bit 32 (ab_uid b)) \<le> unat (ug_bufferId g')"
      "unat (ug_bufferId g) \<le> unat (ug_bufferId g')"
  shows "heap_wf m (h[p := b]) g'"
proof -
  have in_set: "x \<in> set h \<or> x = b" if "x \<in> set (h[p := b])" for x
    using that set_update_subset_insert [of h p b] by auto
  have "\<exists>q < length (h[p := b]). el_buffer e = Some q \<and> ab_uid (h[p := b] ! q) = k \<and>
      ab_memory (h[p := b] ! q) \<noteq> None" if k: "smap_find m k = Some e" for k e
  proof -
    obtain q where q: "el_buffer e = Some q" "q < length h" "ab_uid (h ! q) = k"
      "ab_memory (h ! q) \<noteq> None" "k \<noteq> 0"
      using heap_wf_cached [OF wf k] by auto
    then show ?thesis using b(1,2) p by (cases "q = p") auto
  qed
  moreover have "\<forall>x \<in> set (h[p := b]). ab_memory x = None \<longrightarrow> cf_memtype (ab_config x) = UNKNOWN_MEMORY"
    using in_set b(3) wf by (fastforce simp: heap_wf_def)
  moreover have "\<forall>x \<in> set (h[p := b]). unat (drop_bit 32 (ab_uid x)) \<le> unat (ug_bufferId g')"
    using in_set b(4,5) wf by (fastforce simp: heap_wf_def)
  ultimately show ?thesis using wf unfolding heap_wf_def by blast
qed

lemma ptr_config_hole:
  assumes wf: "bq_hole K s" and p: "p < length (bq_heap s)" and c: "ptr_config p s = (c, t)"
  shows "bq_hole K t \<and> same_lists s t \<and> bq_gen t = bq_gen s \<and>
    ab_uid (bq_heap t ! p) = ab_uid (bq_heap s ! p) \<and>
    ab_memory (bq_heap t ! p) = ab_memory (bq_heap s ! p) \<and>
    ab_flag (bq_heap t ! p) = ab_flag (bq_heap s ! p) \<and> ab_config (bq_heap t ! p) = c"
proof -
  obtain b where b: "GetConfig (bq_heap s ! p) = (c, b)" and t: "t = s\<lparr>bq_heap := (bq_heap s)[p := b]\<rparr>"
    using c by (auto simp: ptr_config_def split: prod.splits)
  note fr = GetConfig_frame [OF b]
  have mem: "bq_heap s ! p \<in> set (bq_heap s)" using p by simp
  have "heap_wf (bq_cache s) ((bq_heap s)[p := b]) (bq_gen s)"
  proof (rule heap_wf_update)
    show "heap_wf (bq_cache s) (bq_heap s) (bq_gen s)" using wf by (simp add: bq_hole_def)
    show "ab_memory b = None \<Longrightarrow> cf_memtype (ab_config b) = UNKNOWN_MEMORY"
      using fr wf mem b by (auto simp: bq_hole_def heap_wf_def GetConfig_def)
    show "unat (drop_bit 32 (ab_uid b)) \<le> unat (ug_bufferId (bq_gen s))"
      using fr wf mem by (simp add: bq_hole_def heap_wf_def)
  qed (use fr p in auto)
  then show ?thesis
    using wf fr p ptr_config_same [OF c] by (auto simp: t bq_hole_def)
qed

lemma ptr_uid_hole:
  assumes wf: "bq_hole K s" and p: "p < length (bq_heap s)" and ids: "ids_left s"
    and u: "ptr_uid p s = (u, t)"
  shows "bq_hole K t \<and> same_lists s t \<and>
    ab_config (bq_heap t ! p) = ab_config (bq_heap s ! p) \<and>
    ab_memory (bq_heap t ! p) = ab_memory (bq_heap s ! p) \<and> ab_uid (bq_heap t ! p) = u \<and>
    (ab_memory (bq_heap s ! p) \<noteq> None \<longrightarrow> u \<noteq> 0) \<and>
    (ab_uid (bq_heap s ! p) = 0 \<longrightarrow> smap_find (bq_cache s) u = None) \<and>
    (\<forall>q. q \<noteq> p \<longrightarrow> bq_heap t ! q = bq_heap s ! q)"
proof -
  let ?b = "bq_heap s ! p"
  obtain b g where g: "GetUniqueId ?b (bq_gen s) = (u, b, g)"
    and t: "t = s\<lparr>bq_heap := (bq_heap s)[p := b], bq_gen := g\<rparr>"
    using u by (auto simp: ptr_uid_def split: prod.splits)
  have hw: "heap_wf (bq_cache s) (bq_heap s) (bq_gen s)" using wf by (simp add: bq_hole_def)
  have mem: "?b \<in> set (bq_heap s)" using p by simp
  have inc: "unat (next_bufferId (ug_bufferId (bq_gen s))) = unat (ug_bufferId (bq_gen s)) + 1"
    using ids by (simp add: ids_left_def unat_next_bufferId)
  have nz: "next_bufferId x \<noteq> 0" for x using next_bufferId_range [of x] by auto
  have b: "ab_uid b = u" "ab_memory b = ab_memory ?b" "ab_config b = ab_config ?b"
    "ab_memory ?b \<noteq> None \<Longrightarrow> ab_uid ?b \<noteq> 0 \<Longrightarrow> u = ab_uid ?b" "ab_memory ?b \<noteq> None \<Longrightarrow> u \<noteq> 0"
    using g by (auto simp: GetUniqueId_def Let_def mk_uid_nonzero nz split: if_splits)
  have hw': "heap_wf (bq_cache s) ((bq_heap s)[p := b]) g"
  proof (rule heap_wf_update [OF hw p])
    show "unat (drop_bit 32 (ab_uid b)) \<le> unat (ug_bufferId g)"
      using g hw mem inc by (auto simp: GetUniqueId_def Let_def heap_wf_def split: if_splits)
    show "unat (ug_bufferId (bq_gen s)) \<le> unat (ug_bufferId g)"
      using g inc by (auto simp: GetUniqueId_def Let_def split: if_splits)
  qed (use b hw mem in \<open>auto simp: heap_wf_def\<close>)
  have "smap_find (bq_cache s) u = None" if z: "ab_uid ?b = 0"
  proof (rule ccontr)
    assume "smap_find (bq_cache s) u \<noteq> None"
    then obtain e where "smap_find (bq_cache s) u = Some e" by auto
    from heap_wf_cached [OF hw this] obtain q where q: "q < length (bq_heap s)"
      "ab_uid (bq_heap s ! q) = u" "u \<noteq> 0" by auto
    then have "unat (drop_bit 32 u) \<le> unat (ug_bufferId (bq_gen s))"
      using hw nth_mem [OF q(1)] unfolding heap_wf_def by blast
    then show False
      using g z q(3) inc by (auto simp: GetUniqueId_def Let_def split: if_splits)
  qed
  then show ?thesis
    using wf hw' b p ptr_uid_same [OF u] by (auto simp: t bq_hole_def)
qed

text \<open>An id is stable once given: the pointer of a cached element yields its key.\<close>

lemma ptr_uid_cached:
  assumes wf: "heap_wf (bq_cache s) (bq_heap s) (bq_gen s)" and k: "smap_find (bq_cache s) k = Some e"
    and p: "el_buffer e = Some p"
  shows "ptr_uid p s = (k, s) \<and> p < length (bq_heap s)"
proof -
  obtain q where "el_buffer e = Some q" "q < length (bq_heap s)" "ab_uid (bq_heap s ! q) = k"
    "ab_memory (bq_heap s ! q) \<noteq> None" "k \<noteq> 0"
    using heap_wf_cached [OF wf k] by auto
  then show ?thesis using p by (simp add: ptr_uid_def GetUniqueId_def)
qed

end
