(* ===== verification/Buffer_Queue_Ops.thy ===== *)
theory Buffer_Queue_Ops
  imports Buffer_Queue_Inv
begin

text \<open>
  Every operation of the queue keeps \<open>bq_wf\<close>. The lemmas follow the operations of
  Buffer_Queue in order; each also says what the operation did to the cache and the lists, so
  that the properties of Buffer_Queue_Props need not unfold the operations again.
\<close>

named_theorems bq_frame

lemma bq_hole_emit [simp]: "bq_hole K (emit e s) = bq_hole K s"
  by (simp add: bq_hole_def emit_def)

lemma emit_simps [simp]:
  "bq_cache (emit e s) = bq_cache s" "bq_free (emit e s) = bq_free s" "bq_dirty (emit e s) = bq_dirty s"
  "bq_size (emit e s) = bq_size s" "bq_heap (emit e s) = bq_heap s" "bq_gen (emit e s) = bq_gen s"
  "bq_consumer (emit e s) = bq_consumer s" "bq_broker (emit e s) = bq_broker s"
  "bq_producer (emit e s) = bq_producer s" "bq_memtype (emit e s) = bq_memtype s"
  "bq_events (emit e s) = bq_events s @ [e]"
  by (simp_all add: emit_def)

lemma bq_cache_same [simp]: "s\<lparr>bq_cache := bq_cache s\<rparr> = s"
  by simp

section \<open>Deleting and resizing\<close>

lemma DeleteBuffers_wf:
  assumes wf: "bq_wf s"
  shows "bq_wf (DeleteBuffers c s) \<and> bq_size (DeleteBuffers c s) = bq_size s \<and>
    bq_heap (DeleteBuffers c s) = bq_heap s \<and> bq_gen (DeleteBuffers c s) = bq_gen s \<and>
    bq_consumer (DeleteBuffers c s) = bq_consumer s \<and> bq_broker (DeleteBuffers c s) = bq_broker s \<and>
    (\<forall>k. smap_find (bq_cache s) k = None \<longrightarrow> smap_find (bq_cache (DeleteBuffers c s)) k = None) \<and>
    length (bq_cache (DeleteBuffers c s)) =
      length (bq_cache s) - min c (length (bq_free s) + length (bq_dirty s))"
proof (cases "c > 0")
  case False
  then show ?thesis using wf by (simp add: DeleteBuffers_def)
next
  case True
  have cw: "cache_wf (bq_cache s) (bq_free s) (bq_dirty s)" and sz: "bq_size s \<le> AVBUFFER_QUEUE_MAX_QUEUE_SIZE"
    and hw: "heap_wf (bq_cache s) (bq_heap s) (bq_gen s)"
    using wf by (auto simp: bq_hole_def)
  obtain c1 f1 m1 where d1: "drain c (bq_free s) (bq_cache s) = (c1, f1, m1)"
    by (metis prod_cases3)
  note w1 = drain_free_wf [OF cw True d1]
  have none1: "smap_find m1 k = None" if "smap_find (bq_cache s) k = None" for k
    using w1 that by (metis not_None_eq)
  have hw1: "heap_wf m1 (bq_heap s) (bq_gen s)" using hw w1 by (blast intro: heap_wf_sub)
  show ?thesis
  proof (cases "c1 > 0")
    case False
    then have D: "DeleteBuffers c s = s\<lparr>bq_free := f1, bq_cache := m1\<rparr>"
      using True by (simp add: DeleteBuffers_def d1)
    show ?thesis using w1 hw1 none1 sz False by (auto simp: D bq_hole_def)
  next
    case c1: True
    obtain c2 d2 m2 where d2: "drain c1 (bq_dirty s) m1 = (c2, d2, m2)"
      by (metis prod_cases3)
    have "cache_wf m1 f1 (bq_dirty s)" using w1 by simp
    note w2 = drain_dirty_wf [OF this c1 d2]
    have none2: "smap_find m2 k = None" if "smap_find (bq_cache s) k = None" for k
      using w2 none1 [OF that] by (metis not_None_eq)
    have hw2: "heap_wf m2 (bq_heap s) (bq_gen s)" using hw1 w2 by (blast intro: heap_wf_sub)
    show ?thesis
    proof (cases "c2 > 0")
      case False
      then have D: "DeleteBuffers c s = s\<lparr>bq_free := f1, bq_dirty := d2, bq_cache := m2\<rparr>"
        using True c1 by (simp add: DeleteBuffers_def d1 d2)
      show ?thesis using w1 w2 hw2 none2 sz False c1 by (auto simp: D bq_hole_def)
    next
      case c2: True
      then have D: "DeleteBuffers c s =
          s\<lparr>bq_free := f1, bq_dirty := d2, bq_cache := mark_deleting c2 m2\<rparr>"
        using True c1 by (simp add: DeleteBuffers_def d1 d2)
      have e: "f1 = []" "d2 = []" using w1 w2 c1 c2 by auto
      have none3: "smap_find (mark_deleting c2 m2) k = None" if "smap_find (bq_cache s) k = None" for k
        using none2 [OF that] smap_find_mark [of c2 m2 k] by (cases "smap_find (mark_deleting c2 m2) k") auto
      show ?thesis
        using w1 w2 hw2 none3 sz c1 c2 mark_wf [of m2 c2] heap_wf_mark [OF hw2]
        by (auto simp: D bq_hole_def e)
    qed
  qed
qed

lemma SetQueueSize_wf:
  assumes wf: "bq_wf s" and r: "SetQueueSize n s = (st, t)"
  shows "bq_wf t \<and> (st = OK \<longrightarrow> bq_size t = n) \<and> (st \<noteq> OK \<longrightarrow> t = s)"
  using r DeleteBuffers_wf [OF wf, of "bq_size s - n"] wf
  by (auto simp: SetQueueSize_def Let_def bq_hole_def split: if_splits)

section \<open>Requesting\<close>

definition fits :: "av_config \<Rightarrow> cache \<Rightarrow> u64 \<Rightarrow> bool" where
  "fits c m k \<longleftrightarrow> config_le c (el_config (smap_at default_element m k))"

definition fit_ok :: "av_config \<Rightarrow> cache \<Rightarrow> u64 list \<Rightarrow> (u64 \<times> u64 list) option \<Rightarrow> bool" where
  "fit_ok c m f r \<longleftrightarrow>
     (case r of None \<Rightarrow> (\<forall>k \<in> set f. \<not> fits c m k)
      | Some (k, rest) \<Rightarrow> (\<exists>xs ys. f = xs @ k # ys \<and> rest = xs @ ys \<and> fits c m k \<and>
          (\<forall>x \<in> set xs. \<not> fits c m x)))"

lemma fit_ok_skip:
  assumes "\<not> fits c m k" "fit_ok c m ks r"
  shows "fit_ok c m (k # ks) (map_option (\<lambda>(j, rest). (j, k # rest)) r)"
proof (cases r)
  case None
  with assms show ?thesis by (simp add: fit_ok_def)
next
  case (Some jr)
  then obtain j rest xs ys where x: "jr = (j, rest)" "ks = xs @ j # ys" "rest = xs @ ys" "fits c m j"
    "\<forall>x \<in> set xs. \<not> fits c m x"
    using assms(2) by (auto simp: fit_ok_def)
  have "k # ks = (k # xs) @ j # ys" "k # rest = (k # xs) @ ys" "\<forall>x \<in> set (k # xs). \<not> fits c m x"
    using x assms(1) by simp_all
  then show ?thesis unfolding fit_ok_def Some x(1) using x(4)
    by (simp only: option.map prod.case option.case) blast
qed

lemma find_fit_wf:
  assumes "\<forall>k \<in> set f. smap_find m k \<noteq> None"
  shows "\<exists>r. find_fit c m f = (m, r) \<and> fit_ok c m f r"
  using assms
proof (induction f)
  case Nil
  then show ?case by (simp add: fit_ok_def)
next
  case (Cons k ks)
  then obtain e where e: "smap_find m k = Some e" by auto
  have "\<forall>k \<in> set ks. smap_find m k \<noteq> None" using Cons.prems by simp
  from Cons.IH [OF this] obtain r where r: "find_fit c m ks = (m, r)" "fit_ok c m ks r" by blast
  show ?case
  proof (cases "fits c m k")
    case True
    then have "find_fit c m (k # ks) = (m, Some (k, ks))" using e by (simp add: fits_def)
    moreover have "fit_ok c m (k # ks) (Some (k, ks))"
      unfolding fit_ok_def option.case prod.case
      by (intro exI [of _ "[]"] exI [of _ ks]) (use True in simp)
    ultimately show ?thesis by blast
  next
    case False
    then have "find_fit c m (k # ks) = (m, map_option (\<lambda>(j, rest). (j, k # rest)) r)"
      using e r(1) by (cases r) (auto simp: fits_def)
    then show ?thesis using fit_ok_skip [OF False r(2)] by blast
  qed
qed

text \<open>
  What a pop leaves: the id \<open>k\<close> is out of the list and in the caller's hands; it fits the
  request and nothing before it did, or nothing at all fitted and it was the first.
\<close>

definition popped :: "av_config \<Rightarrow> bq \<Rightarrow> bufptr \<Rightarrow> u64 \<Rightarrow> bq \<Rightarrow> bool" where
  "popped c s p k t \<longleftrightarrow>
     (\<exists>xs ys e. bq_free s = xs @ k # ys \<and> t = s\<lparr>bq_free := xs @ ys\<rparr> \<and> bq_hole {k} t \<and>
        smap_find (bq_cache s) k = Some e \<and> el_buffer e = Some p \<and>
        (\<forall>x \<in> set xs. \<not> fits c (bq_cache s) x) \<and>
        (fits c (bq_cache s) k \<or> xs = [] \<and> (\<forall>x \<in> set (bq_free s). \<not> fits c (bq_cache s) x)))"

lemma poppedI:
  assumes "bq_free s = xs @ k # ys" "bq_hole {k} (s\<lparr>bq_free := xs @ ys\<rparr>)"
    "smap_find (bq_cache s) k = Some e" "el_buffer e = Some p" "\<forall>x \<in> set xs. \<not> fits c (bq_cache s) x"
    "fits c (bq_cache s) k \<or> xs = [] \<and> (\<forall>x \<in> set (bq_free s). \<not> fits c (bq_cache s) x)"
  shows "popped c s p k (s\<lparr>bq_free := xs @ ys\<rparr>)"
  unfolding popped_def using assms by blast

lemma bq_wf_free_elem:
  assumes wf: "bq_wf s" and k: "k \<in> set (bq_free s)"
  shows "\<exists>e p. smap_find (bq_cache s) k = Some e \<and> el_buffer e = Some p"
proof -
  have cw: "cache_wf (bq_cache s) (bq_free s) (bq_dirty s)" using wf by (simp add: bq_hole_def)
  have hw: "heap_wf (bq_cache s) (bq_heap s) (bq_gen s)" using wf by (simp add: bq_hole_def)
  obtain e where e: "smap_find (bq_cache s) k = Some e" using hole_find_free [OF cw k] by blast
  then show ?thesis using heap_wf_cached [OF hw e] by blast
qed

lemma bq_wf_pop:
  assumes wf: "bq_wf s" and f: "bq_free s = xs @ k # ys"
  shows "bq_hole {k} (s\<lparr>bq_free := xs @ ys\<rparr>)"
proof -
  have "cache_wf (bq_cache s) (xs @ k # ys) (bq_dirty s)" using wf f by (simp add: bq_hole_def)
  from hole_pop_free [OF this] show ?thesis using wf by (simp add: bq_hole_def)
qed

lemma Pop_free_first:
  assumes "find_fit c (bq_cache s) (bq_free s) = (bq_cache s, None)" "bq_free s = k # rest"
    "smap_find (bq_cache s) k = Some e" "el_buffer e = Some p"
  shows "PopFromFreeBufferList c s = (OK, Some p, s\<lparr>bq_free := rest\<rparr>)"
  using assms by (simp add: PopFromFreeBufferList_def del: find_fit.simps)

lemma Pop_free_fit:
  assumes "find_fit c (bq_cache s) (bq_free s) = (bq_cache s, Some (k, rest))"
    "smap_find (bq_cache s) k = Some e" "el_buffer e = Some p"
  shows "PopFromFreeBufferList c s = (OK, Some p, s\<lparr>bq_free := rest\<rparr>)"
  using assms by (simp add: PopFromFreeBufferList_def)

lemma Pop_free_wf:
  assumes wf: "bq_wf s" and r: "PopFromFreeBufferList c s = (st, buf, t)"
  shows "(st = OK \<and> (\<exists>p k. buf = Some p \<and> popped c s p k t)) \<or>
         (st = ERROR_NO_FREE_BUFFER \<and> bq_free s = [] \<and> buf = None \<and> t = s)"
proof -
  have cw: "cache_wf (bq_cache s) (bq_free s) (bq_dirty s)" using wf by (simp add: bq_hole_def)
  have all: "\<forall>k \<in> set (bq_free s). smap_find (bq_cache s) k \<noteq> None"
    using hole_find_free [OF cw] by blast
  obtain fr where ff: "find_fit c (bq_cache s) (bq_free s) = (bq_cache s, fr)"
    "fit_ok c (bq_cache s) (bq_free s) fr"
    using find_fit_wf [OF all] by blast
  show ?thesis
  proof (cases fr)
    case None
    have nofit: "\<forall>x \<in> set (bq_free s). \<not> fits c (bq_cache s) x"
      using ff(2) None by (simp add: fit_ok_def)
    show ?thesis
    proof (cases "bq_free s")
      case Nil
      then have "PopFromFreeBufferList c s = (ERROR_NO_FREE_BUFFER, None, s)"
        using ff(1) None by (simp add: PopFromFreeBufferList_def)
      then show ?thesis using r Nil by simp
    next
      case (Cons k rest)
      have kin: "k \<in> set (bq_free s)" by (simp add: Cons)
      obtain e p where e: "smap_find (bq_cache s) k = Some e" "el_buffer e = Some p"
        using bq_wf_free_elem [OF wf kin] by blast
      have x: "bq_free s = [] @ k # rest" by (simp add: Cons)
      have "popped c s p k (s\<lparr>bq_free := [] @ rest\<rparr>)"
        by (rule poppedI [OF x bq_wf_pop [OF wf x] e]) (use nofit in simp_all)
      moreover have "st = OK" "buf = Some p" "t = s\<lparr>bq_free := [] @ rest\<rparr>"
        using r Pop_free_first [OF ff(1) [unfolded None] Cons e] by simp_all
      ultimately show ?thesis by blast
    qed
  next
    case (Some jr)
    obtain j rs where jr: "jr = (j, rs)" by (cases jr)
    obtain xs ys where x: "bq_free s = xs @ j # ys" "rs = xs @ ys"
      "fits c (bq_cache s) j" "\<forall>x \<in> set xs. \<not> fits c (bq_cache s) x"
      using ff(2) unfolding fit_ok_def Some jr option.case prod.case by blast
    have jin: "j \<in> set (bq_free s)" by (simp add: x(1))
    obtain e p where e: "smap_find (bq_cache s) j = Some e" "el_buffer e = Some p"
      using bq_wf_free_elem [OF wf jin] by blast
    have "popped c s p j (s\<lparr>bq_free := xs @ ys\<rparr>)"
      by (rule poppedI [OF x(1) bq_wf_pop [OF wf x(1)] e x(4)]) (use x(3) in simp)
    moreover have "st = OK" "buf = Some p" "t = s\<lparr>bq_free := xs @ ys\<rparr>"
      using r Pop_free_fit [OF ff(1) [unfolded Some jr] e] x(2) by simp_all
    ultimately show ?thesis by blast
  qed
qed

lemma set_requested_wf:
  assumes wf: "bq_hole {k} s" and k: "smap_find (bq_cache s) k = Some e" "el_buffer e = Some p"
  shows "bq_wf (set_requested p s) \<and>
    set_requested p s = s\<lparr>bq_cache := smap_put k (e\<lparr>el_state := AVBUFFER_STATE_REQUESTED\<rparr>) (bq_cache s)\<rparr>"
proof -
  have hw: "heap_wf (bq_cache s) (bq_heap s) (bq_gen s)" using wf by (simp add: bq_hole_def)
  have eq: "set_requested p s = s\<lparr>bq_cache := smap_put k (e\<lparr>el_state := AVBUFFER_STATE_REQUESTED\<rparr>) (bq_cache s)\<rparr>"
    using ptr_uid_cached [OF hw k] k(1) by (simp add: set_requested_def)
  moreover have "bq_wf \<dots>"
    using wf hole_fill [of k "bq_cache s" "bq_free s" "bq_dirty s"] heap_wf_put [OF hw k(1)]
    by (auto simp: bq_hole_def)
  ultimately show ?thesis by simp
qed

lemma AllocBuffer_wf:
  assumes wf: "bq_wf s" and ids: "ids_left s" and r: "AllocBuffer ini c s = (st, buf, t)"
  shows "(st = OK \<and> (\<exists>u e p. buf = Some p \<and> p = length (bq_heap s) \<and> bq_hole {u} t \<and>
            smap_find (bq_cache s) u = None \<and> bq_cache t = smap_put u e (bq_cache s) \<and>
            el_buffer e = Some p \<and> bq_size t = bq_size s \<and> bq_free t = bq_free s \<and> bq_dirty t = bq_dirty s)) \<or>
         (st = ERROR_CREATE_BUFFER \<and> buf = None \<and> t = s)"
proof (cases "CreateAVBuffer ini c")
  case None
  then show ?thesis using r by (simp add: AllocBuffer_def)
next
  case (Some b)
  note cb = CreateAVBuffer_Some [OF Some]
  let ?p = "length (bq_heap s)"
  define s0 where "s0 = s\<lparr>bq_heap := bq_heap s @ [b]\<rparr>"
  have "heap_wf (bq_cache s) (bq_heap s @ [b]) (bq_gen s)"
    using wf cb unfolding bq_hole_def heap_wf_def by (fastforce simp: nth_append)
  then have w0: "bq_wf s0" using wf by (auto simp: bq_hole_def s0_def)
  have i0: "ids_left s0" using ids by (simp add: ids_left_def s0_def)
  have p0: "?p < length (bq_heap s0)" "bq_heap s0 ! ?p = b" by (simp_all add: s0_def)
  obtain u s1 where u: "ptr_uid ?p s0 = (u, s1)" by (cases "ptr_uid ?p s0")
  note h1 = ptr_uid_hole [OF w0 p0(1) i0 u]
  have l1: "?p < length (bq_heap s1)" using h1 p0(1) by (simp add: same_lists_def)
  obtain cfg s2 where cf: "ptr_config ?p s1 = (cfg, s2)" by (cases "ptr_config ?p s1")
  have w1: "bq_wf s1" using h1 by blast
  note h2 = ptr_config_hole [OF w1 l1 cf]
  define e where "e = \<lparr>el_config = cfg, el_state = AVBUFFER_STATE_RELEASED, el_isDeleting = False,
      el_buffer = Some ?p\<rparr>"
  have t: "st = OK" "buf = Some ?p" "t = s2\<lparr>bq_cache := smap_put u e (bq_cache s2)\<rparr>"
    using r Some u cf by (auto simp: AllocBuffer_def Let_def s0_def e_def)
  have fresh: "smap_find (bq_cache s) u = None" using h1 p0(2) cb by (simp add: s0_def)
  have same: "bq_cache s2 = bq_cache s" "bq_free s2 = bq_free s" "bq_dirty s2 = bq_dirty s"
    "bq_size s2 = bq_size s"
    using h1 h2 by (auto simp: same_lists_def s0_def)
  have w2: "bq_wf s2" using h2 by blast
  have "hole {u} (bq_cache s2) (bq_free s2) (bq_dirty s2)"
    using w2 fresh by (intro hole_other) (auto simp: bq_hole_def same st_of_def)
  then have "hole {u} (smap_put u e (bq_cache s2)) (bq_free s2) (bq_dirty s2)"
    by (rule hole_put)
  moreover have "heap_wf (smap_put u e (bq_cache s2)) (bq_heap s2) (bq_gen s2)"
  proof -
    have "u \<noteq> 0" "ab_uid (bq_heap s2 ! ?p) = u" "ab_memory (bq_heap s2 ! ?p) \<noteq> None"
      "?p < length (bq_heap s2)"
      using h1 h2 p0 l1 cb by (auto simp: same_lists_def)
    then show ?thesis
      using w2 unfolding bq_hole_def heap_wf_def by (auto simp: e_def split: if_splits)
  qed
  ultimately have "bq_hole {u} t" using w2 by (simp add: t bq_hole_def)
  moreover have "el_buffer e = Some ?p" by (simp add: e_def)
  moreover have "bq_cache t = smap_put u e (bq_cache s)" "bq_size t = bq_size s" "bq_free t = bq_free s"
    "bq_dirty t = bq_dirty s"
    using t(3) same by simp_all
  ultimately show ?thesis using t(1,2) fresh by blast
qed

lemma alloc_requested_wf:
  assumes wf: "bq_wf s" and ids: "ids_left s" and r: "alloc_requested ini c s = (st, buf, t)"
  shows "bq_wf t \<and>
    (st = OK \<longrightarrow> (\<exists>p u e. buf = Some p \<and> smap_find (bq_cache t) u = Some e \<and> el_buffer e = Some p \<and>
       el_state e = AVBUFFER_STATE_REQUESTED \<and> length (bq_cache t) = Suc (length (bq_cache s)) \<and>
       bq_size t = bq_size s)) \<and> (st \<noteq> OK \<longrightarrow> t = s)"
proof -
  obtain st1 b1 s1 where a: "AllocBuffer ini c s = (st1, b1, s1)" by (metis prod_cases3)
  show ?thesis
  proof (cases "st1 = OK")
    case True
    then obtain u e p where x: "b1 = Some p" "bq_hole {u} s1" "smap_find (bq_cache s) u = None"
      "bq_cache s1 = smap_put u e (bq_cache s)" "el_buffer e = Some p" "bq_size s1 = bq_size s"
      using AllocBuffer_wf [OF wf ids a] by auto
    have fe: "smap_find (bq_cache s1) u = Some e" using x(4) by simp
    note sr = set_requested_wf [OF x(2) fe x(5)]
    have t: "st = OK" "buf = Some p" "t = set_requested p s1"
      using r a True x(1) by (auto simp: alloc_requested_def requested_opt_def)
    have ok: "smap_ok (bq_cache s)" "smap_ok (bq_cache s1)" using wf x(2) by (auto simp: bq_hole_def hole_def)
    have "length (bq_cache t) = Suc (length (bq_cache s))"
      using sr t(3) x(3,4) smap_size_put [OF ok(1), of u e] smap_size_put [OF ok(2), of u] fe by auto
    then show ?thesis using sr t x(5,6) by (auto intro!: exI [of _ u])
  next
    case False
    then have "b1 = None" "s1 = s" using AllocBuffer_wf [OF wf ids a] by auto
    then show ?thesis using r a False wf by (auto simp: alloc_requested_def)
  qed
qed


text \<open>
  \<open>kept s t\<close>: an operation left \<open>t\<close> in order and the cache within the larger of what it was and
  the queue size. \<open>in_hand buf st t\<close>: the pointer the caller got is that of a cached buffer in
  state \<open>st\<close>, which therefore is in neither list.
\<close>

definition kept :: "bq \<Rightarrow> bq \<Rightarrow> bool" where
  "kept s t \<longleftrightarrow> bq_wf t \<and> bq_size t = bq_size s \<and>
     length (bq_cache t) \<le> max (length (bq_cache s)) (bq_size s)"

definition in_hand :: "bufptr option \<Rightarrow> av_buffer_state \<Rightarrow> bq \<Rightarrow> bool" where
  "in_hand buf st t \<longleftrightarrow> (\<exists>p u e. buf = Some p \<and> smap_find (bq_cache t) u = Some e \<and>
     el_buffer e = Some p \<and> el_state e = st)"

lemma kept_refl: "bq_wf s \<Longrightarrow> kept s s"
  by (simp add: kept_def)

lemma kept_trans: "kept s t \<Longrightarrow> kept t u \<Longrightarrow> kept s u"
  by (auto simp: kept_def)

lemma kept_emit [simp]: "kept s (emit e t) = kept s t"
  by (simp add: kept_def)

lemma kept_wf: "kept s t \<Longrightarrow> bq_wf t"
  by (simp add: kept_def)

lemma keptI: "bq_wf t \<Longrightarrow> bq_size t = bq_size s \<Longrightarrow> length (bq_cache t) \<le> length (bq_cache s) \<Longrightarrow> kept s t"
  by (simp add: kept_def)

lemma bq_hole_ok: "bq_hole K s \<Longrightarrow> smap_ok (bq_cache s)"
  by (simp add: bq_hole_def hole_def)

lemma length_put_same: "smap_ok m \<Longrightarrow> smap_find m k = Some e \<Longrightarrow> length (smap_put k e' m) = length m"
  by (simp add: smap_size_put)

lemma RequestReuse_eq:
  assumes wf: "bq_hole {k} s" and k: "smap_find (bq_cache s) k = Some e" "el_buffer e = Some p"
  shows "RequestReuseBuffer ini (Some p) c s =
    (if config_le c (el_config e)
     then (OK, Some p, set_requested p (s\<lparr>bq_cache :=
             smap_put k (e\<lparr>el_config := (el_config e)\<lparr>cf_size := cf_size c\<rparr>\<rparr>) (bq_cache s)\<rparr>))
     else case alloc_requested ini c (s\<lparr>bq_cache := smap_erase k (bq_cache s)\<rparr>) of
            (st, q, s2) \<Rightarrow> (st, if st = OK then q else Some p, s2))"
proof -
  have "ptr_uid p s = (k, s)" using ptr_uid_cached [OF _ k] wf by (simp add: bq_hole_def)
  then show ?thesis
    using k by (auto simp: RequestReuseBuffer_def alloc_requested_def split: prod.splits)
qed

lemma RequestReuse_wf:
  assumes wf: "bq_hole {k} s" and ids: "ids_left s"
    and k: "smap_find (bq_cache s) k = Some e" "el_buffer e = Some p"
    and r: "RequestReuseBuffer ini (Some p) c s = (st, buf, t)"
  shows "kept s t \<and> (st = OK \<longrightarrow> in_hand buf AVBUFFER_STATE_REQUESTED t)"
proof (cases "config_le c (el_config e)")
  case True
  let ?e = "e\<lparr>el_config := (el_config e)\<lparr>cf_size := cf_size c\<rparr>\<rparr>"
  let ?s = "s\<lparr>bq_cache := smap_put k ?e (bq_cache s)\<rparr>"
  have t: "st = OK" "buf = Some p" "t = set_requested p ?s"
    using r RequestReuse_eq [OF wf k] True by auto
  have "bq_hole {k} ?s"
    using wf hole_put [of k "bq_cache s"] heap_wf_put [OF _ k(1), of "bq_heap s" "bq_gen s" ?e]
    by (simp add: bq_hole_def)
  note h = this
  have fe: "smap_find (bq_cache ?s) k = Some ?e" "el_buffer ?e = Some p" using k(2) by simp_all
  have sr: "bq_wf t" "t = ?s\<lparr>bq_cache := smap_put k (?e\<lparr>el_state := AVBUFFER_STATE_REQUESTED\<rparr>) (bq_cache ?s)\<rparr>"
    using set_requested_wf [OF h fe] unfolding t(3) by blast+
  have "length (bq_cache t) = length (bq_cache s)"
    using bq_hole_ok [OF wf] k(1) by (simp add: sr(2) smap_size_put smap_ok_put)
  moreover have "in_hand buf AVBUFFER_STATE_REQUESTED t"
    unfolding in_hand_def t(2) sr(2) using k(2) by auto
  moreover have "bq_size t = bq_size s" by (simp add: sr(2))
  ultimately show ?thesis using sr(1) by (simp add: kept_def)
next
  case False
  let ?s = "s\<lparr>bq_cache := smap_erase k (bq_cache s)\<rparr>"
  obtain st1 b1 s1 where a: "alloc_requested ini c ?s = (st1, b1, s1)" by (metis prod_cases3)
  have w: "bq_wf ?s"
    using wf hole_erase [of k "bq_cache s"] heap_wf_erase by (simp add: bq_hole_def)
  have "ids_left ?s" using ids by (simp add: ids_left_def)
  note al = alloc_requested_wf [OF w this a]
  have len: "Suc (length (bq_cache ?s)) = length (bq_cache s)"
    using bq_hole_ok [OF wf] k(1) by (cases "bq_cache s") (auto simp: smap_size_erase)
  have t: "t = s1" "st = OK \<Longrightarrow> st1 = OK \<and> buf = b1"
    using r RequestReuse_eq [OF wf k] False a by auto
  show ?thesis
  proof (cases "st1 = OK")
    case True
    then have "bq_wf t" "in_hand b1 AVBUFFER_STATE_REQUESTED t" "length (bq_cache t) = length (bq_cache s)"
      "bq_size t = bq_size s"
      using al len t(1) by (auto simp: in_hand_def)
    then show ?thesis using t(2) by (simp add: kept_def)
  next
    case False
    then have "t = ?s" "st \<noteq> OK" using al t by auto
    then show ?thesis using w len by (auto simp: kept_def)
  qed
qed


lemma RequestReuse_popped:
  assumes pp: "popped c s p k s1" and ids: "ids_left s"
    and r: "RequestReuseBuffer ini (Some p) c s1 = (st, buf, t)"
  shows "kept s t \<and> (st = OK \<longrightarrow> in_hand buf AVBUFFER_STATE_REQUESTED t)"
proof -
  obtain xs ys e where x: "s1 = s\<lparr>bq_free := xs @ ys\<rparr>" "bq_hole {k} s1"
    "smap_find (bq_cache s) k = Some e" "el_buffer e = Some p"
    using pp unfolding popped_def by blast
  have i1: "ids_left s1" using ids by (simp add: x(1) ids_left_def)
  have f: "smap_find (bq_cache s1) k = Some e" using x(1,3) by simp
  have "kept s1 t \<and> (st = OK \<longrightarrow> in_hand buf AVBUFFER_STATE_REQUESTED t)"
    by (rule RequestReuse_wf [OF x(2) i1 f x(4) r])
  then show ?thesis by (simp add: kept_def x(1))
qed

lemma alloc_requested_kept:
  assumes wf: "bq_wf s" and ids: "ids_left s" and room: "length (bq_cache s) < bq_size s"
    and r: "alloc_requested ini c s = (st, buf, t)"
  shows "kept s t \<and> (st = OK \<longrightarrow> in_hand buf AVBUFFER_STATE_REQUESTED t)"
proof (cases "st = OK")
  case True
  then have "bq_wf t" "in_hand buf AVBUFFER_STATE_REQUESTED t" "length (bq_cache t) = Suc (length (bq_cache s))"
      "bq_size t = bq_size s"
    using alloc_requested_wf [OF wf ids r] by (auto simp: in_hand_def)
  then show ?thesis using room by (simp add: kept_def)
next
  case False
  then show ?thesis using alloc_requested_wf [OF wf ids r] kept_refl [OF wf] by simp
qed

lemma request_again_wf:
  assumes wf: "bq_wf s" and ids: "ids_left s" and r: "request_again ini c s = (st, buf, t)"
  shows "kept s t \<and> (st = OK \<longrightarrow> in_hand buf AVBUFFER_STATE_REQUESTED t)"
proof -
  obtain st1 b1 s1 where p: "PopFromFreeBufferList c s = (st1, b1, s1)" by (metis prod_cases3)
  from Pop_free_wf [OF wf p] show ?thesis
  proof (elim disjE conjE exE)
    fix p k assume "st1 = OK" "b1 = Some p" and pp: "popped c s p k s1"
    then have "RequestReuseBuffer ini (Some p) c s1 = (st, buf, t)"
      using r p by (simp add: request_again_def)
    then show ?thesis by (rule RequestReuse_popped [OF pp ids])
  next
    assume x: "st1 = ERROR_NO_FREE_BUFFER" "b1 = None" "s1 = s"
    show ?thesis
    proof (cases "GetCachedBufferCount s < bq_size s")
      case True
      then have "alloc_requested ini c s = (st, buf, t)" using r p x by (simp add: request_again_def)
      then show ?thesis using alloc_requested_kept [OF wf ids] True by (simp add: GetCachedBufferCount_def)
    next
      case False
      then have "t = s" "st \<noteq> OK" using r p x by (auto simp: request_again_def)
      then show ?thesis using kept_refl [OF wf] by simp
    qed
  qed
qed

lemma CheckConfig_wf:
  assumes wf: "bq_wf s" and r: "CheckConfig c s = (st, t)"
  shows "kept s t \<and> bq_gen t = bq_gen s \<and> bq_cache t = bq_cache s \<and> bq_heap t = bq_heap s \<and> bq_free t = bq_free s
     \<and> bq_dirty t = bq_dirty s \<and> bq_consumer t = bq_consumer s \<and> bq_broker t = bq_broker s"
  using assms by (auto simp: CheckConfig_def kept_def bq_hole_def split: if_splits)

lemma wait_for_env: "wait_for env n s = (w, t) \<Longrightarrow> t = s \<or> t = env s"
  by (auto simp: wait_for_def Let_def split: if_splits)

lemma RequestBuffer_wf:
  assumes wf: "bq_wf s" and ids: "ids_left s"
    and env: "\<And>x. bq_wf x \<Longrightarrow> ids_left x \<Longrightarrow> kept x (env x) \<and> ids_left (env x)"
    and r: "RequestBuffer env ini buf0 config n s = (st, buf, t)"
  shows "kept s t \<and> (st = OK \<longrightarrow> in_hand buf AVBUFFER_STATE_REQUESTED t)"
proof -
  define c where "c = (if cf_memtype config = UNKNOWN_MEMORY
    then config\<lparr>cf_memtype := bq_memtype s\<rparr> else config)"
  obtain st0 s1 where cc: "CheckConfig c s = (st0, s1)" by (cases "CheckConfig c s")
  note k1 = CheckConfig_wf [OF wf cc]
  have w1: "bq_wf s1" and i1: "ids_left s1" using k1 ids by (auto simp: kept_def ids_left_def)
  obtain st1 b1 s2 where p: "PopFromFreeBufferList c s1 = (st1, b1, s2)" by (metis prod_cases3)
  show ?thesis
  proof (cases "st0 = OK")
    case False
    then have "t = s1" "st \<noteq> OK" using r cc by (auto simp: RequestBuffer_def c_def Let_def)
    then show ?thesis using k1 by simp
  next
    case ok: True
    have "kept s1 t \<and> (st = OK \<longrightarrow> in_hand buf AVBUFFER_STATE_REQUESTED t)"
      using Pop_free_wf [OF w1 p]
    proof (elim disjE conjE exE)
      fix p' k assume x: "st1 = OK" "b1 = Some p'" and pp: "popped c s1 p' k s2"
      then have "RequestReuseBuffer ini (Some p') c s2 = (st, buf, t)"
        using r cc p ok by (simp add: RequestBuffer_def c_def [symmetric] Let_def)
      then show ?thesis by (rule RequestReuse_popped [OF pp i1])
    next
      assume x: "st1 = ERROR_NO_FREE_BUFFER" "b1 = None" "s2 = s1"
      show ?thesis
      proof (cases "GetCachedBufferCount s1 < bq_size s1")
        case True
        then have "alloc_requested ini c s1 = (st, buf, t)"
          using r cc p ok x by (simp add: RequestBuffer_def c_def [symmetric] Let_def)
        then show ?thesis using alloc_requested_kept [OF w1 i1] True by (simp add: GetCachedBufferCount_def)
      next
        case full: False
        obtain w s3 where wt: "wait_for env n s1 = (w, s3)" by (cases "wait_for env n s1")
        have k3: "kept s1 s3" "ids_left s3"
          using wait_for_env [OF wt] env [OF w1 i1] kept_refl [OF w1] i1 by auto
        show ?thesis
        proof (cases w)
          case False
          then have "t = s3" "st \<noteq> OK"
            using r cc p ok x full wt by (auto simp: RequestBuffer_def c_def [symmetric] Let_def)
          then show ?thesis using k3 by simp
        next
          case True
          then have "request_again ini c s3 = (st, buf, t)"
            using r cc p ok x full wt by (simp add: RequestBuffer_def c_def [symmetric] Let_def)
          then show ?thesis using request_again_wf [OF kept_wf [OF k3(1)] k3(2)] kept_trans [OF k3(1)] by blast
        qed
      qed
    qed
    then show ?thesis using k1 kept_trans by blast
  qed
qed

end
