(* ===== verification/Buffer_Queue_Flow.thy ===== *)
theory Buffer_Queue_Flow
  imports Buffer_Queue_Ops
begin

text \<open>
  The second half of the operations: a buffer's way from the producer's hands through the dirty
  list to the consumer's hands and back to the free list. Each keeps the queue in order, none
  dereferences a null pointer, and each is described by what it did to the lists.
\<close>

section \<open>Changing the state of a buffer in hand\<close>

lemma set_el_state_eq:
  "smap_find (bq_cache s) u = Some e \<Longrightarrow>
     set_el_state st u s = s\<lparr>bq_cache := smap_put u (e\<lparr>el_state := st\<rparr>) (bq_cache s)\<rparr>"
  by (simp add: set_el_state_def)

lemma bq_open:
  assumes wf: "bq_wf s" and e: "smap_find (bq_cache s) u = Some e"
    and st: "el_state e \<notin> {AVBUFFER_STATE_RELEASED, AVBUFFER_STATE_RETURNED}"
  shows "bq_hole {u} s"
  using wf hole_other [of "bq_cache s" "bq_free s" "bq_dirty s" u] e st
  by (auto simp: bq_hole_def st_of_def)

lemma set_el_state_kept:
  assumes h: "bq_hole {u} s" and e: "smap_find (bq_cache s) u = Some e"
    and st: "st \<notin> {AVBUFFER_STATE_RELEASED, AVBUFFER_STATE_RETURNED}"
  shows "kept s (set_el_state st u s)"
proof -
  have hw: "heap_wf (bq_cache s) (bq_heap s) (bq_gen s)" and ho: "hole {u} (bq_cache s) (bq_free s) (bq_dirty s)"
    using h by (simp_all add: bq_hole_def)
  have "cache_wf (smap_put u (e\<lparr>el_state := st\<rparr>) (bq_cache s)) (bq_free s) (bq_dirty s)"
    by (rule hole_fill [OF ho]) (use st in simp)
  moreover have "heap_wf (smap_put u (e\<lparr>el_state := st\<rparr>) (bq_cache s)) (bq_heap s) (bq_gen s)"
    by (rule heap_wf_put [OF hw e]) simp
  ultimately show ?thesis
    using h length_put_same [OF bq_hole_ok [OF h] e]
    by (simp add: kept_def set_el_state_eq [OF e] bq_hole_def)
qed

lemma InsertFree_eq:
  assumes h: "bq_hole {u} s" and e: "smap_find (bq_cache s) u = Some e"
  shows "InsertFreeBufferInOrder u s = s\<lparr>bq_free := insort_cap (cap_of (bq_cache s)) u (bq_free s)\<rparr>"
proof -
  have ho: "hole {u} (bq_cache s) (bq_free s) (bq_dirty s)" using h by (simp add: bq_hole_def)
  then have "u \<notin> set (bq_free s)" by (simp add: hole_def)
  moreover have "\<forall>k \<in> set (bq_free s). smap_find (bq_cache s) k \<noteq> None"
    using hole_find_free [OF ho] by blast
  ultimately show ?thesis using e by (simp add: InsertFreeBufferInOrder_def insert_free_eq)
qed

lemma release_kept:
  assumes h: "bq_hole {u} s" and e: "smap_find (bq_cache s) u = Some e" and nd: "\<not> el_isDeleting e"
  defines "t \<equiv> s\<lparr>bq_cache := smap_put u (e\<lparr>el_state := AVBUFFER_STATE_RELEASED\<rparr>) (bq_cache s),
             bq_free := insort_cap (cap_of (bq_cache s)) u (bq_free s)\<rparr>"
  shows "kept s t" "set_el_state AVBUFFER_STATE_RELEASED u (InsertFreeBufferInOrder u s) = t"
    "InsertFreeBufferInOrder u (set_el_state AVBUFFER_STATE_RELEASED u s) = t"
proof -
  let ?e = "e\<lparr>el_state := AVBUFFER_STATE_RELEASED\<rparr>"
  let ?m = "smap_put u ?e (bq_cache s)"
  have hw: "heap_wf (bq_cache s) (bq_heap s) (bq_gen s)" and ho: "hole {u} (bq_cache s) (bq_free s) (bq_dirty s)"
    using h by (simp_all add: bq_hole_def)
  have cap: "insort_cap (cap_of ?m) u (bq_free s) = insort_cap (cap_of (bq_cache s)) u (bq_free s)"
    by (rule insort_cap_cong) (use e in \<open>auto simp: cap_of_def smap_at_def\<close>)
  have hw': "heap_wf ?m (bq_heap s) (bq_gen s)" by (rule heap_wf_put [OF hw e]) simp
  have "cache_wf ?m (insort_cap (cap_of ?m) u (bq_free s)) (bq_dirty s)"
    by (rule hole_insert_free [OF ho]) (use nd in simp_all)
  then show "kept s t"
    using h hw' length_put_same [OF bq_hole_ok [OF h] e]
    by (simp add: kept_def t_def bq_hole_def cap)
  show "set_el_state AVBUFFER_STATE_RELEASED u (InsertFreeBufferInOrder u s) = t"
    using e by (simp add: InsertFree_eq [OF h e] set_el_state_def t_def)
  have "bq_hole {u} (set_el_state AVBUFFER_STATE_RELEASED u s)"
    using h hw' hole_put [OF ho] by (simp add: set_el_state_eq [OF e] bq_hole_def)
  from InsertFree_eq [OF this, of ?e]
  show "InsertFreeBufferInOrder u (set_el_state AVBUFFER_STATE_RELEASED u s) = t"
    by (simp add: set_el_state_eq [OF e] t_def cap)
qed

lemma erase_kept:
  assumes h: "bq_hole {u} s"
  shows "kept s (s\<lparr>bq_cache := smap_erase u (bq_cache s)\<rparr>)"
proof -
  have "heap_wf (bq_cache s) (bq_heap s) (bq_gen s)" "hole {u} (bq_cache s) (bq_free s) (bq_dirty s)"
    using h by (simp_all add: bq_hole_def)
  then show ?thesis
    using h hole_erase heap_wf_erase smap_size_erase [OF bq_hole_ok [OF h], of u]
    by (auto simp: kept_def bq_hole_def)
qed

lemma deleting_open:
  assumes wf: "bq_wf s" and e: "smap_find (bq_cache s) u = Some e" and d: "el_isDeleting e"
  shows "bq_hole {u} s"
proof (rule bq_open [OF wf e])
  have cw: "cache_wf (bq_cache s) (bq_free s) (bq_dirty s)" using wf by (simp add: bq_hole_def)
  then have "u \<notin> set (bq_free s)" "u \<notin> set (bq_dirty s)"
    using e d by (auto simp: hole_def)
  then show "el_state e \<notin> {AVBUFFER_STATE_RELEASED, AVBUFFER_STATE_RETURNED}"
    using cw e by (auto simp: hole_def st_of_def)
qed

section \<open>The operations\<close>

lemma CancelBuffer_wf:
  assumes wf: "bq_wf s" and e: "smap_find (bq_cache s) u = Some e" and nd: "\<not> el_isDeleting e"
    and r: "CancelBuffer u s = (st, t)"
  shows "kept s t \<and> (st = OK \<longrightarrow> bq_free t = insort_cap (cap_of (bq_cache s)) u (bq_free s))"
proof (cases "el_state e = AVBUFFER_STATE_REQUESTED \<or> el_state e = AVBUFFER_STATE_PUSHED")
  case False
  then have "t = s" "st \<noteq> OK" using r e by (auto simp: CancelBuffer_def)
  then show ?thesis using kept_refl [OF wf] by simp
next
  case True
  have h: "bq_hole {u} s" by (rule bq_open [OF wf e]) (use True in auto)
  have "t = emit Notify_Request
     (s\<lparr>bq_cache := smap_put u (e\<lparr>el_state := AVBUFFER_STATE_RELEASED\<rparr>) (bq_cache s),
        bq_free := insort_cap (cap_of (bq_cache s)) u (bq_free s)\<rparr>)"
    using r e True by (auto simp: CancelBuffer_def release_kept(2) [OF h e nd])
  then show ?thesis using release_kept(1) [OF h e nd] by simp
qed

lemma return_locked_wf:
  assumes wf: "bq_wf s"
  shows "\<exists>st t. return_locked u av s = Inr (st, t) \<and> kept s t \<and> bq_consumer t = bq_consumer s \<and>
    bq_gen t = bq_gen s \<and> length (bq_heap t) = length (bq_heap s) \<and>
    (st = None \<longrightarrow> bq_dirty t = (if av then bq_dirty s @ [u] else bq_dirty s) \<and>
      (\<exists>e. smap_find (bq_cache s) u = Some e \<and> el_state e = AVBUFFER_STATE_PUSHED)) \<and>
    (st \<noteq> None \<longrightarrow> bq_dirty t = bq_dirty s \<and> st_of (bq_cache t) u \<in> {None, st_of (bq_cache s) u})"
proof (cases "smap_find (bq_cache s) u")
  case None
  then show ?thesis using kept_refl [OF wf] by (simp add: return_locked_def)
next
  case (Some e)
  show ?thesis
  proof (cases "el_isDeleting e")
    case True
    then have "return_locked u av s = Inr (Some OK, s\<lparr>bq_cache := smap_erase u (bq_cache s)\<rparr>)"
      using Some by (simp add: return_locked_def)
    then show ?thesis using erase_kept [OF deleting_open [OF wf Some True]] by simp
  next
    case nd: False
    show ?thesis
    proof (cases "el_state e = AVBUFFER_STATE_PUSHED")
      case False
      then have "return_locked u av s = Inr (Some ERROR_INVALID_BUFFER_STATE, s)"
        using Some nd by (simp add: return_locked_def)
      then show ?thesis using kept_refl [OF wf] by simp
    next
      case True
      have h: "bq_hole {u} s" by (rule bq_open [OF wf Some]) (use True in simp)
      show ?thesis
      proof (cases av)
        case False
        obtain st t where c: "CancelBuffer u s = (st, t)" by (cases "CancelBuffer u s")
        have c': "st = OK" "t = emit Notify_Request
             (s\<lparr>bq_cache := smap_put u (e\<lparr>el_state := AVBUFFER_STATE_RELEASED\<rparr>) (bq_cache s),
                bq_free := insort_cap (cap_of (bq_cache s)) u (bq_free s)\<rparr>)"
          using c Some True by (auto simp: CancelBuffer_def release_kept(2) [OF h Some nd])
        have "return_locked u av s = Inr (None, t)"
          using Some nd True False c c'(1) by (simp add: return_locked_def)
        then show ?thesis using CancelBuffer_wf [OF wf Some nd c] Some True False c'(2) by simp
      next
        case av: True
        have hw: "heap_wf (bq_cache s) (bq_heap s) (bq_gen s)" using wf by (simp add: bq_hole_def)
        obtain p where p: "el_buffer e = Some p" "p < length (bq_heap s)"
          using heap_wf_cached [OF hw Some] by blast
        obtain cfg s1 where cf: "ptr_config p s = (cfg, s1)" by (cases "ptr_config p s")
        note h1 = ptr_config_hole [OF h p(2) cf]
        note w1 = ptr_config_hole [OF wf p(2) cf]
        have sl: "bq_cache s1 = bq_cache s" "bq_free s1 = bq_free s" "bq_dirty s1 = bq_dirty s"
          "bq_size s1 = bq_size s" "bq_consumer s1 = bq_consumer s" "bq_gen s1 = bq_gen s"
          "length (bq_heap s1) = length (bq_heap s)"
          using h1 by (auto simp: same_lists_def)
        let ?e = "e\<lparr>el_config := cfg, el_state := AVBUFFER_STATE_RETURNED\<rparr>"
        let ?t = "s1\<lparr>bq_cache := smap_put u ?e (bq_cache s1), bq_dirty := bq_dirty s1 @ [u]\<rparr>"
        have eq: "return_locked u av s =
           (if ab_flag (bq_heap s1 ! p) AND EOS_FLAG = 0 \<and> \<not> cf_size cfg > 0
            then Inr (Some ERROR_INVALID_BUFFER_SIZE, s1) else Inr (None, ?t))"
          using Some nd True av p cf by (simp add: return_locked_def)
        have "cache_wf (smap_put u ?e (bq_cache s1)) (bq_free s1) (bq_dirty s1 @ [u])"
          by (rule hole_push_dirty) (use h1 nd in \<open>simp_all add: bq_hole_def\<close>)
        moreover have "heap_wf (smap_put u ?e (bq_cache s1)) (bq_heap s1) (bq_gen s1)"
          using heap_wf_put [of "bq_cache s1" "bq_heap s1" "bq_gen s1" u e ?e] h1 Some sl(1,6)
          by (simp add: bq_hole_def)
        ultimately have "kept s ?t"
          using h1 length_put_same [OF bq_hole_ok [OF h] Some] sl by (simp add: kept_def bq_hole_def)
        moreover have "kept s s1" using w1 sl by (simp add: kept_def)
        ultimately show ?thesis
          unfolding eq using sl Some True av by simp
      qed
    qed
  qed
qed


lemma push_locked_wf:
  assumes wf: "bq_wf s"
  shows "\<exists>st t. push_locked u av s = Inr (st, t) \<and> kept s t \<and> bq_consumer t = bq_consumer s \<and>
    bq_broker t = bq_broker s \<and> bq_gen t = bq_gen s \<and> length (bq_heap t) = length (bq_heap s) \<and>
    bq_dirty t = bq_dirty s \<and>
    (st = None \<longrightarrow> st_of (bq_cache t) u = Some AVBUFFER_STATE_PUSHED) \<and>
    (st \<noteq> None \<longrightarrow> st_of (bq_cache t) u \<in> {None, st_of (bq_cache s) u})"
proof (cases "smap_find (bq_cache s) u")
  case None
  then show ?thesis using kept_refl [OF wf] by (simp add: push_locked_def)
next
  case (Some e)
  show ?thesis
  proof (cases "el_isDeleting e")
    case True
    then have "push_locked u av s = Inr (Some OK, s\<lparr>bq_cache := smap_erase u (bq_cache s)\<rparr>)"
      using Some by (simp add: push_locked_def)
    then show ?thesis using erase_kept [OF deleting_open [OF wf Some True]] by simp
  next
    case nd: False
    have hw: "heap_wf (bq_cache s) (bq_heap s) (bq_gen s)" using wf by (simp add: bq_hole_def)
    obtain p where p: "el_buffer e = Some p" "p < length (bq_heap s)"
      using heap_wf_cached [OF hw Some] by blast
    obtain cfg s' where cf: "ptr_config p s = (cfg, s')" by (cases "ptr_config p s")
    define s1 where "s1 = (if av then s' else s)"
    have w1: "bq_wf s1" and sl: "same_lists s s1" and g1: "bq_gen s1 = bq_gen s"
      using ptr_config_hole [OF wf p(2) cf] wf by (auto simp: s1_def)
    have k1: "kept s s1" using w1 sl by (simp add: kept_def same_lists_def)
    have f1: "smap_find (bq_cache s1) u = Some e" using sl Some by (simp add: same_lists_def)
    show ?thesis
    proof (cases "(av \<longrightarrow> cf_size cfg \<ge> 0) \<and>
        (el_state e = AVBUFFER_STATE_REQUESTED \<or> el_state e = AVBUFFER_STATE_ATTACHED)")
      case True
      then have eq: "push_locked u av s = Inr (None, set_el_state AVBUFFER_STATE_PUSHED u s1)"
        using Some nd p cf by (auto simp: push_locked_def s1_def)
      have "bq_hole {u} s1" by (rule bq_open [OF w1 f1]) (use True in auto)
      then have "kept s1 (set_el_state AVBUFFER_STATE_PUSHED u s1)"
        by (rule set_el_state_kept [OF _ f1]) simp
      then have "kept s (set_el_state AVBUFFER_STATE_PUSHED u s1)" by (rule kept_trans [OF k1])
      then show ?thesis unfolding eq using sl g1 by (simp add: same_lists_def set_el_state_def)
    next
      case False
      then have "\<exists>st. push_locked u av s = Inr (Some st, s1)"
        using Some nd p cf by (auto simp: push_locked_def s1_def)
      then show ?thesis using k1 sl g1 by (auto simp: same_lists_def)
    qed
  qed
qed

lemma ReturnBuffer_wf:
  assumes wf: "bq_wf s"
  shows "\<exists>st t. ReturnBuffer u av s = Inr (st, t) \<and> kept s t \<and> bq_gen t = bq_gen s \<and>
    length (bq_heap t) = length (bq_heap s) \<and> (bq_dirty t = bq_dirty s \<or> bq_dirty t = bq_dirty s @ [u]) \<and>
    (av \<longrightarrow> bq_consumer s \<or> st \<noteq> ERROR_NO_CONSUMER_LISTENER \<longrightarrow> st \<noteq> OK \<longrightarrow>
       st_of (bq_cache t) u \<in> {None, st_of (bq_cache s) u})"
proof -
  obtain st t where r: "return_locked u av s = Inr (st, t)" "kept s t" "bq_consumer t = bq_consumer s"
    "bq_gen t = bq_gen s" "length (bq_heap t) = length (bq_heap s)"
    "st = None \<longrightarrow> bq_dirty t = (if av then bq_dirty s @ [u] else bq_dirty s)"
    "st \<noteq> None \<longrightarrow> bq_dirty t = bq_dirty s \<and> st_of (bq_cache t) u \<in> {None, st_of (bq_cache s) u}"
    using return_locked_wf [OF wf, of u av] by blast
  show ?thesis
  proof (cases st)
    case None
    then show ?thesis using r by (simp add: ReturnBuffer_def)
  next
    case (Some x)
    then show ?thesis using r by (simp add: ReturnBuffer_def)
  qed
qed

lemma PushBuffer_wf:
  assumes wf: "bq_wf s"
  shows "\<exists>st t. PushBuffer u av s = Inr (st, t) \<and> kept s t \<and> bq_gen t = bq_gen s \<and>
    length (bq_heap t) = length (bq_heap s) \<and> (bq_dirty t = bq_dirty s \<or> bq_dirty t = bq_dirty s @ [u]) \<and>
    (av \<longrightarrow> bq_consumer s \<or> bq_broker s \<or> st \<noteq> ERROR_NO_CONSUMER_LISTENER \<longrightarrow>
       st_of (bq_cache s) u = Some AVBUFFER_STATE_ATTACHED \<longrightarrow> st \<noteq> OK \<longrightarrow> st_of (bq_cache t) u \<notin> {Some AVBUFFER_STATE_RELEASED, Some AVBUFFER_STATE_RETURNED})"
proof -
  obtain st t where r: "push_locked u av s = Inr (st, t)" "kept s t" "bq_consumer t = bq_consumer s"
    "bq_broker t = bq_broker s" "bq_gen t = bq_gen s" "length (bq_heap t) = length (bq_heap s)"
    "bq_dirty t = bq_dirty s" "st = None \<longrightarrow> st_of (bq_cache t) u = Some AVBUFFER_STATE_PUSHED"
    "st \<noteq> None \<longrightarrow> st_of (bq_cache t) u \<in> {None, st_of (bq_cache s) u}"
    using push_locked_wf [OF wf, of u av] by blast
  show ?thesis
  proof (cases st)
    case (Some x)
    then show ?thesis using r by (auto simp: PushBuffer_def)
  next
    case None
    show ?thesis
    proof (cases "av \<and> bq_broker t")
      case True
      then have "PushBuffer u av s = Inr (OK, emit (Broker_Filled (el_buffer
          (smap_at default_element (bq_cache t) u))) t)"
        using None r(1) by (simp add: PushBuffer_def)
      then show ?thesis using r by simp
    next
      case False
      then have P: "PushBuffer u av s = ReturnBuffer u av t"
        using None r(1) by (auto simp: PushBuffer_def)
      obtain st' t' where q: "ReturnBuffer u av t = Inr (st', t')" "kept t t'" "bq_gen t' = bq_gen t"
        "length (bq_heap t') = length (bq_heap t)" "bq_dirty t' = bq_dirty t \<or> bq_dirty t' = bq_dirty t @ [u]"
        "av \<longrightarrow> bq_consumer t \<or> st' \<noteq> ERROR_NO_CONSUMER_LISTENER \<longrightarrow> st' \<noteq> OK \<longrightarrow> st_of (bq_cache t') u \<in> {None, st_of (bq_cache t) u}"
        using ReturnBuffer_wf [OF kept_wf [OF r(2)], of u av] by blast
      have "kept s t'" by (rule kept_trans [OF r(2) q(2)])
      moreover have "av \<longrightarrow> bq_consumer s \<or> bq_broker s \<or> st' \<noteq> ERROR_NO_CONSUMER_LISTENER \<longrightarrow> st' \<noteq> OK \<longrightarrow>
          st_of (bq_cache t') u \<notin> {Some AVBUFFER_STATE_RELEASED, Some AVBUFFER_STATE_RETURNED}"
        using q(6) r(3,4,8) None False by auto
      ultimately show ?thesis unfolding P using q r by simp
    qed
  qed
qed


lemma ReleaseBuffer_wf:
  assumes wf: "bq_wf s" and r: "ReleaseBuffer u s = (st, t)"
  shows "kept s t \<and> bq_dirty t = bq_dirty s \<and> bq_gen t = bq_gen s \<and> bq_heap t = bq_heap s"
proof (cases "smap_find (bq_cache s) u")
  case None
  then show ?thesis using r kept_refl [OF wf] by (simp add: ReleaseBuffer_def)
next
  case (Some e)
  show ?thesis
  proof (cases "el_state e = AVBUFFER_STATE_ACQUIRED \<or> el_state e = AVBUFFER_STATE_ATTACHED")
    case False
    then show ?thesis using r Some kept_refl [OF wf] by (auto simp: ReleaseBuffer_def)
  next
    case True
    have h: "bq_hole {u} s" by (rule bq_open [OF wf Some]) (use True in auto)
    show ?thesis
    proof (cases "el_isDeleting e")
      case d: True
      have "t = s\<lparr>bq_cache := smap_erase u (smap_put u (e\<lparr>el_state := AVBUFFER_STATE_RELEASED\<rparr>) (bq_cache s))\<rparr>"
        using r Some True d by (simp add: ReleaseBuffer_def Let_def set_el_state_eq)
      also have "smap_erase u (smap_put u (e\<lparr>el_state := AVBUFFER_STATE_RELEASED\<rparr>) (bq_cache s))
          = smap_erase u (bq_cache s)"
        by simp
      finally show ?thesis using erase_kept [OF h] by simp
    next
      case nd: False
      note rk = release_kept [OF h Some nd]
      let ?t = "s\<lparr>bq_cache := smap_put u (e\<lparr>el_state := AVBUFFER_STATE_RELEASED\<rparr>) (bq_cache s),
             bq_free := insort_cap (cap_of (bq_cache s)) u (bq_free s)\<rparr>"
      have "t = emit Notify_Request ?t \<or> t = emit Producer_Available (emit Notify_Request ?t)"
        using r Some True nd by (auto simp: ReleaseBuffer_def Let_def rk(3) split: if_splits)
      then show ?thesis using rk(1) by (elim disjE) simp_all
    qed
  qed
qed

lemma DetachBuffer_wf:
  assumes wf: "bq_wf s" and r: "DetachBuffer u force s = (st, t)"
    and f: "force \<Longrightarrow> st_of (bq_cache s) u \<notin> {Some AVBUFFER_STATE_RELEASED, Some AVBUFFER_STATE_RETURNED}"
  shows "kept s t \<and> bq_dirty t = bq_dirty s \<and> bq_gen t = bq_gen s \<and> bq_heap t = bq_heap s \<and>
    (st = OK \<longrightarrow> smap_find (bq_cache t) u = None)"
proof (cases "smap_find (bq_cache s) u")
  case None
  then show ?thesis using r kept_refl [OF wf] by (simp add: DetachBuffer_def)
next
  case (Some e)
  show ?thesis
  proof (cases "\<not> force \<and> \<not> (el_state e = AVBUFFER_STATE_REQUESTED \<or> el_state e = AVBUFFER_STATE_ACQUIRED)")
    case True
    then show ?thesis using r Some kept_refl [OF wf] by (simp add: DetachBuffer_def)
  next
    case False
    then have "t = s\<lparr>bq_cache := smap_erase u (bq_cache s)\<rparr>"
      using r Some by (auto simp: DetachBuffer_def)
    moreover have "bq_hole {u} s"
      by (rule bq_open [OF wf Some]) (use False f Some in \<open>auto simp: st_of_def\<close>)
    ultimately show ?thesis using erase_kept [of u s] by simp
  qed
qed

lemma AcquireBuffer_wf:
  assumes wf: "bq_wf s"
  shows "\<exists>st buf t. AcquireBuffer buf0 s = Inr (st, buf, t) \<and> kept s t \<and> bq_gen t = bq_gen s \<and>
    bq_heap t = bq_heap s \<and>
    (case bq_dirty s of [] \<Rightarrow> st = ERROR_NO_DIRTY_BUFFER \<and> t = s \<and> buf = buf0
     | k # ks \<Rightarrow> st = OK \<and> bq_dirty t = ks \<and> in_hand buf AVBUFFER_STATE_ACQUIRED t \<and>
         st_of (bq_cache t) k = Some AVBUFFER_STATE_ACQUIRED \<and>
         buf = el_buffer (smap_at default_element (bq_cache s) k))"
proof (cases "bq_dirty s")
  case Nil
  then show ?thesis using kept_refl [OF wf] by (simp add: AcquireBuffer_def PopFromDirtyBufferList_def)
next
  case (Cons k ks)
  have cw: "cache_wf (bq_cache s) (bq_free s) (k # ks)" and hw: "heap_wf (bq_cache s) (bq_heap s) (bq_gen s)"
    using wf Cons by (simp_all add: bq_hole_def)
  obtain e where e: "smap_find (bq_cache s) k = Some e" using cache_wf_dirty [OF cw, of k] by auto
  obtain p where p: "el_buffer e = Some p" using heap_wf_cached [OF hw e] by blast
  let ?s = "s\<lparr>bq_dirty := ks\<rparr>"
  have h: "bq_hole {k} ?s" using wf hole_pop_dirty [OF cw] by (simp add: bq_hole_def)
  have e': "smap_find (bq_cache ?s) k = Some e" using e by simp
  have u: "ptr_uid p ?s = (k, ?s)"
    using ptr_uid_cached [of ?s k e p] hw e p by simp
  have pop: "PopFromDirtyBufferList buf0 s = (OK, Some p, ?s)"
    using Cons e p by (simp add: PopFromDirtyBufferList_def Let_def)
  have eq: "AcquireBuffer buf0 s = Inr (OK, Some p, set_el_state AVBUFFER_STATE_ACQUIRED k ?s)"
    unfolding AcquireBuffer_def pop by (simp add: u)
  have "kept ?s (set_el_state AVBUFFER_STATE_ACQUIRED k ?s)"
    by (rule set_el_state_kept [OF h e']) simp
  then have "kept s (set_el_state AVBUFFER_STATE_ACQUIRED k ?s)"
    by (simp add: kept_def)
  then show ?thesis
    unfolding eq using Cons e p by (auto simp: set_el_state_def in_hand_def)
qed

lemma attach_locked_wf:
  assumes wf: "bq_wf s" and ids: "ids_left s" and p: "p < length (bq_heap s)"
    and r: "attach_locked p s = (st, u, t)"
  shows "kept s t \<and> (st = OK \<longrightarrow> st_of (bq_cache t) u = Some AVBUFFER_STATE_ATTACHED) \<and>
    bq_consumer t = bq_consumer s \<and> bq_broker t = bq_broker s"
proof -
  obtain cfg s1 where cf: "ptr_config p s = (cfg, s1)" by (cases "ptr_config p s")
  note h1 = ptr_config_hole [OF wf p cf]
  have w1: "bq_wf s1" and p1: "p < length (bq_heap s1)" and i1: "ids_left s1"
    using h1 p ids by (auto simp: same_lists_def ids_left_def)
  obtain u' s2 where uq: "ptr_uid p s1 = (u', s2)" by (cases "ptr_uid p s1")
  note h2 = ptr_uid_hole [OF w1 p1 i1 uq]
  have w2: "bq_wf s2" and p2: "p < length (bq_heap s2)" using h2 p1 by (auto simp: same_lists_def)
  have k2: "kept s s2" "bq_consumer s2 = bq_consumer s" "bq_broker s2 = bq_broker s"
    using h1 h2 by (auto simp: kept_def same_lists_def)
  show ?thesis
  proof (cases "smap_find (bq_cache s2) u' \<noteq> None")
    case True
    then have "t = s2" "st \<noteq> OK" using r cf uq by (auto simp: attach_locked_def Let_def)
    then show ?thesis using k2 by simp
  next
    case new: False
    obtain st3 s3 where cc: "CheckConfig cfg s2 = (st3, s3)" by (cases "CheckConfig cfg s2")
    note h3 = CheckConfig_wf [OF w2 cc]
    have k3: "kept s s3" using kept_trans [OF k2(1)] h3 by blast
    show ?thesis
    proof (cases "st3 = OK")
      case False
      then have "t = s3" "st \<noteq> OK" using r cf uq new cc by (auto simp: attach_locked_def Let_def)
      then show ?thesis using k3 h3 k2 by simp
    next
      case ok: True
      define e where "e = \<lparr>el_config = cfg, el_state = AVBUFFER_STATE_ATTACHED, el_isDeleting = False,
                         el_buffer = Some p\<rparr>"
      have cfg_mem: "cf_memtype cfg \<noteq> UNKNOWN_MEMORY" using cc ok by (auto simp: CheckConfig_def split: if_splits)
      have "ab_memory (bq_heap s1 ! p) \<noteq> None"
      proof
        assume n: "ab_memory (bq_heap s1 ! p) = None"
        have "bq_heap s1 ! p \<in> set (bq_heap s1)" using p1 by simp
        then show False using n w1 h1 cfg_mem by (auto simp: bq_hole_def heap_wf_def)
      qed
      then have mem: "ab_memory (bq_heap s2 ! p) \<noteq> None" "ab_uid (bq_heap s2 ! p) = u'" "u' \<noteq> 0"
        using h2 by auto
      have put: "kept s (x\<lparr>bq_cache := smap_put u' e (bq_cache x)\<rparr>)"
        if x: "bq_wf x" "smap_find (bq_cache x) u' = None" "bq_heap x = bq_heap s2" "bq_gen x = bq_gen s3"
          "Suc (length (bq_cache x)) \<le> max (length (bq_cache s)) (bq_size s)" "bq_size x = bq_size s" for x
      proof -
        have "hole {u'} (bq_cache x) (bq_free x) (bq_dirty x)"
          by (rule hole_other) (use x(1,2) in \<open>auto simp: bq_hole_def st_of_def\<close>)
        then have "cache_wf (smap_put u' e (bq_cache x)) (bq_free x) (bq_dirty x)"
          by (rule hole_fill) (simp add: e_def)
        moreover have "heap_wf (smap_put u' e (bq_cache x)) (bq_heap x) (bq_gen x)"
          using x(1,3) mem p2 unfolding bq_hole_def heap_wf_def by (auto simp: e_def split: if_splits)
        ultimately show ?thesis
          using x by (simp add: kept_def bq_hole_def smap_size_put bq_hole_ok [OF x(1)])
      qed
      have new3: "smap_find (bq_cache s3) u' = None" using new h3 by simp
      have sz: "bq_size s3 = bq_size s" "length (bq_cache s3) = length (bq_cache s)"
        using k3 h3 h2 h1 by (auto simp: kept_def same_lists_def)
      have w3: "bq_wf s3" using k3 by (rule kept_wf)
      show ?thesis
      proof (cases "GetCachedBufferCount s3 \<ge> bq_size s3")
        case False
        then have t: "st = OK" "u = u'" "t = s3\<lparr>bq_cache := smap_put u' e (bq_cache s3)\<rparr>"
          using r cf uq new cc ok by (auto simp: attach_locked_def Let_def e_def)
        show ?thesis unfolding t(2,3)
          using put [of s3] w3 new3 h3 sz False k2 by (simp add: GetCachedBufferCount_def e_def)
      next
        case full: True
        let ?c = "length (bq_cache s3) - bq_size s3 + 1"
        let ?x = "DeleteBuffers ?c s3"
        note db = DeleteBuffers_wf [OF w3, of ?c]
        show ?thesis
        proof (cases "length (bq_dirty s3) + length (bq_free s3) > length (bq_cache s3) - bq_size s3")
          case False
          then have "t = s3" "st \<noteq> OK"
            using r cf uq new cc ok full by (auto simp: attach_locked_def Let_def GetCachedBufferCount_def)
          then show ?thesis using k3 h3 k2 by simp
        next
          case True
          then have t: "st = OK" "u = u'" "t = ?x\<lparr>bq_cache := smap_put u' e (bq_cache ?x)\<rparr>"
            using r cf uq new cc ok full by (auto simp: attach_locked_def Let_def e_def GetCachedBufferCount_def)
          have "bq_cache s3 \<noteq> []"
          proof
            assume e: "bq_cache s3 = []"
            have c3: "cache_wf (bq_cache s3) (bq_free s3) (bq_dirty s3)" using w3 by (simp add: bq_hole_def)
            have "bq_free s3 = []"
              using cache_wf_free [OF c3] e by (metis list.set_sel(1) option.distinct(1) smap_find.simps(1))
            moreover have "bq_dirty s3 = []"
              using cache_wf_dirty [OF c3] e by (metis list.set_sel(1) option.distinct(1) smap_find.simps(1))
            ultimately show False using True by simp
          qed
          then have "length (bq_cache s3) > 0" by simp
          moreover have "length (bq_cache ?x) = length (bq_cache s3) - ?c" using db True by simp
          ultimately have "Suc (length (bq_cache ?x)) \<le> max (length (bq_cache s)) (bq_size s)"
            using sz by linarith
          then show ?thesis unfolding t(2,3)
            using put [of ?x] db new3 h3 sz k2 by (simp add: e_def)
        qed
      qed
    qed
  qed
qed

text \<open>
  \<open>AttachBuffer\<close> keeps the queue in order but when it is given a filled buffer while neither a
  consumer nor a broker listens (\<open>attach_without_listener\<close> in Buffer_Queue_Props): then the
  buffer is already returned when it is detached by force.
\<close>

lemma AttachBuffer_wf:
  assumes wf: "bq_wf s" and ids: "ids_left s" and p: "p < length (bq_heap s)"
  shows "\<exists>st t. AttachBuffer (Some p) isFilled s = Inr (st, t) \<and>
    (kept s t \<or> isFilled \<and> st = ERROR_NO_CONSUMER_LISTENER \<and> \<not> bq_consumer s \<and> \<not> bq_broker s)"
proof -
  obtain st u s1 where a: "attach_locked p s = (st, u, s1)" by (metis prod_cases3)
  note h = attach_locked_wf [OF wf ids p a]
  have w1: "bq_wf s1" using h by (blast intro: kept_wf)
  show ?thesis
  proof (cases "st = OK")
    case False
    then show ?thesis using a h by (simp add: AttachBuffer_def)
  next
    case ok: True
    show ?thesis
    proof (cases isFilled)
      case False
      obtain st2 t where r: "ReleaseBuffer u s1 = (st2, t)" by (cases "ReleaseBuffer u s1")
      have "kept s t" using kept_trans ReleaseBuffer_wf [OF w1 r] h by blast
      then show ?thesis using a ok False r by (simp add: AttachBuffer_def)
    next
      case True
      obtain st2 s2 where q: "PushBuffer u isFilled s1 = Inr (st2, s2)" "kept s1 s2"
        "isFilled \<longrightarrow> bq_consumer s1 \<or> bq_broker s1 \<or> st2 \<noteq> ERROR_NO_CONSUMER_LISTENER \<longrightarrow> st_of (bq_cache s1) u = Some AVBUFFER_STATE_ATTACHED \<longrightarrow>
           st2 \<noteq> OK \<longrightarrow> st_of (bq_cache s2) u \<notin> {Some AVBUFFER_STATE_RELEASED, Some AVBUFFER_STATE_RETURNED}"
        using PushBuffer_wf [OF w1, of u isFilled] by blast
      have k2: "kept s s2" using kept_trans h q(2) by blast
      show ?thesis
      proof (cases "st2 = OK")
        case True
        then show ?thesis using a ok q(1) k2 \<open>isFilled\<close> by (simp add: AttachBuffer_def)
      next
        case False
        obtain st3 t where d: "DetachBuffer u True s2 = (st3, t)" by (cases "DetachBuffer u True s2")
        have A: "AttachBuffer (Some p) isFilled s = Inr (st2, t)"
          using a ok q(1) True False d by (simp add: AttachBuffer_def)
        show ?thesis
        proof (cases "st2 = ERROR_NO_CONSUMER_LISTENER \<and> \<not> bq_consumer s \<and> \<not> bq_broker s")
          case unheard: True
          then show ?thesis using A True by simp
        next
          case heard: False
          then have ns: "st_of (bq_cache s2) u \<notin> {Some AVBUFFER_STATE_RELEASED, Some AVBUFFER_STATE_RETURNED}"
            using q(3) h ok True False by auto
          have "kept s2 t" using DetachBuffer_wf [OF kept_wf [OF k2] d] ns by blast
          then show ?thesis using A kept_trans [OF k2] by simp
        qed
      qed
    qed
  qed
qed

end
