(* ===== verification/Buffer_Queue_Props.thy ===== *)
theory Buffer_Queue_Props
  imports Buffer_Queue_Flow Fifo_Spec
begin

text \<open>
  What the buffer queue guarantees. A run is a sequence of critical sections in any order, as
  threads interleave them: \<open>RequestBuffer\<close> contributes its first section and, after a wait, its
  second one; \<open>PushBuffer\<close> and \<open>ReturnBuffer\<close> contribute the sections that change the lists; the
  producer writes through the pointers it holds.
\<close>

section \<open>Runs\<close>

inductive bq_step :: "(av_memory \<Rightarrow> av_memory option) \<Rightarrow> bq \<Rightarrow> bq \<Rightarrow> bool"
  for ini where
  resize: "bq_step ini s (snd (SetQueueSize n s))"
| request: "bq_step ini s (snd (snd (RequestBuffer (\<lambda>x. x) ini b c n s)))"
| request_woken: "bq_step ini s (snd (snd (request_again ini c s)))"
| push: "push_locked u av s = Inr (st, t) \<Longrightarrow> bq_step ini s t"
| return: "return_locked u av s = Inr (st, t) \<Longrightarrow> bq_step ini s t"
| acquire: "AcquireBuffer b s = Inr (st, b', t) \<Longrightarrow> bq_step ini s t"
| release: "bq_step ini s (snd (ReleaseBuffer u s))"
| detach: "bq_step ini s (snd (DetachBuffer u False s))"
| attach_section: "p < length (bq_heap s) \<Longrightarrow> bq_step ini s (snd (snd (attach_locked p s)))"
| attach: "p < length (bq_heap s) \<Longrightarrow> AttachBuffer (Some p) isFilled s = Inr (st, t) \<Longrightarrow> bq_step ini s t"
| attach_failed: "bq_step ini s (snd (DetachBuffer u True s))"
| listeners: "bq_step ini s (s\<lparr>bq_broker := a, bq_producer := b, bq_consumer := c\<rparr>)"
| notify: "bq_step ini s (emit e s)"
| fill: "p < length (bq_heap s) \<Longrightarrow> ab_memory (bq_heap s ! p) = Some m \<Longrightarrow>
    bq_step ini s (s\<lparr>bq_heap := (bq_heap s)[p := (bq_heap s ! p)\<lparr>ab_memory := Some m', ab_flag := fl\<rparr>]\<rparr>)"

text \<open>
  \<open>orphans s t\<close>: the step from \<open>s\<close> to \<open>t\<close> leaves a listed id without its buffer. It is the call of
  \<open>AttachBuffer\<close> with a filled buffer while neither a consumer nor a broker listens: the push
  returns the buffer to the dirty list, answers \<open>ERROR_NO_CONSUMER_LISTENER\<close>, and the buffer is
  then detached by force. When the sections of such a call are interleaved with other calls, it is
  its last section, the forced detach of an id that is in a list.
\<close>

definition orphans :: "bq \<Rightarrow> bq \<Rightarrow> bool" where
  "orphans s t \<longleftrightarrow>
     \<not> bq_consumer s \<and> \<not> bq_broker s \<and>
       (\<exists>p < length (bq_heap s). AttachBuffer (Some p) True s = Inr (ERROR_NO_CONSUMER_LISTENER, t)) \<or>
     (\<exists>u. u \<in> set (bq_free s) \<union> set (bq_dirty s) \<and> t = snd (DetachBuffer u True s))"

text \<open>
  Runs of any steps in which the 32-bit id counter has not wrapped; the flag of a run says whether
  one of its steps orphaned an id.
\<close>

inductive bq_run :: "(av_memory \<Rightarrow> av_memory option) \<Rightarrow> bq \<Rightarrow> bool \<Rightarrow> bq \<Rightarrow> bool"
  for ini where
  start: "bq_run ini s False s"
| step: "bq_run ini s orphaned t \<Longrightarrow> ids_left t \<Longrightarrow> bq_step ini t u \<Longrightarrow> bq_run ini s (orphaned \<or> orphans t u) u"

definition bq_inv :: "bq \<Rightarrow> bool" where
  "bq_inv s \<longleftrightarrow> bq_wf s \<and> length (bq_cache s) \<le> AVBUFFER_QUEUE_MAX_QUEUE_SIZE"

lemma kept_inv: "bq_inv s \<Longrightarrow> kept s t \<Longrightarrow> bq_inv t"
  by (auto simp: bq_inv_def kept_def bq_hole_def)

lemma SetQueueSize_inv: "bq_inv s \<Longrightarrow> bq_inv (snd (SetQueueSize n s))"
proof -
  assume i: "bq_inv s"
  then have w: "bq_wf s" by (simp add: bq_inv_def)
  obtain st t where r: "SetQueueSize n s = (st, t)" by (cases "SetQueueSize n s")
  have "length (bq_cache t) \<le> length (bq_cache s)"
    using r DeleteBuffers_wf [OF w, of "bq_size s - n"]
    by (auto simp: SetQueueSize_def Let_def split: if_splits)
  then show ?thesis using SetQueueSize_wf [OF w r] r i by (simp add: bq_inv_def)
qed

lemma fill_wf:
  assumes wf: "bq_wf s" and p: "p < length (bq_heap s)" "ab_memory (bq_heap s ! p) = Some m"
  shows "kept s (s\<lparr>bq_heap := (bq_heap s)[p := (bq_heap s ! p)\<lparr>ab_memory := Some m', ab_flag := fl\<rparr>]\<rparr>)"
proof -
  let ?b = "(bq_heap s ! p)\<lparr>ab_memory := Some m', ab_flag := fl\<rparr>"
  have hw: "heap_wf (bq_cache s) (bq_heap s) (bq_gen s)" using wf by (simp add: bq_hole_def)
  have "bq_heap s ! p \<in> set (bq_heap s)" using p by simp
  then have "unat (drop_bit 32 (ab_uid (bq_heap s ! p))) \<le> unat (ug_bufferId (bq_gen s))"
    using hw by (simp add: heap_wf_def)
  then have "heap_wf (bq_cache s) ((bq_heap s)[p := ?b]) (bq_gen s)"
    by (intro heap_wf_update [OF hw p(1)]) (use p in simp_all)
  then show ?thesis using wf by (simp add: kept_def bq_hole_def)
qed

lemma bq_step_inv:
  assumes i: "bq_inv s" and ids: "ids_left s" and st: "bq_step ini s t" and o: "\<not> orphans s t"
  shows "bq_inv t"
proof -
  have w: "bq_wf s" using i by (simp add: bq_inv_def)
  have "kept s t \<or> (\<exists>n. t = snd (SetQueueSize n s))"
    using st
  proof cases
    case (request b c n)
    obtain st buf x where r: "RequestBuffer (\<lambda>x. x) ini b c n s = (st, buf, x)" by (metis prod_cases3)
    then show ?thesis using RequestBuffer_wf [OF w ids _ r] kept_refl request by simp
  next
    case (request_woken c)
    obtain st buf x where r: "request_again ini c s = (st, buf, x)" by (metis prod_cases3)
    then show ?thesis using request_again_wf [OF w ids r] request_woken by simp
  next
    case (push u av st)
    then show ?thesis using push_locked_wf [OF w, of u av] by auto
  next
    case (return u av st)
    then show ?thesis using return_locked_wf [OF w, of u av] by auto
  next
    case (acquire b st b')
    then show ?thesis using AcquireBuffer_wf [OF w, of b] by auto
  next
    case (release u)
    then show ?thesis using ReleaseBuffer_wf [OF w, of u] by (cases "ReleaseBuffer u s") simp
  next
    case (detach u)
    then show ?thesis using DetachBuffer_wf [OF w, of u False] by (cases "DetachBuffer u False s") simp
  next
    case (attach_section p)
    then show ?thesis using attach_locked_wf [OF w ids, of p] by (cases "attach_locked p s") auto
  next
    case (attach p isFilled st)
    then show ?thesis using AttachBuffer_wf [OF w ids attach(1), of isFilled] o
      by (auto simp: orphans_def)
  next
    case (attach_failed u)
    have "u \<notin> set (bq_free s) \<union> set (bq_dirty s)" using o attach_failed by (auto simp: orphans_def)
    then have "st_of (bq_cache s) u \<notin> {Some AVBUFFER_STATE_RELEASED, Some AVBUFFER_STATE_RETURNED}"
      using w by (auto simp: bq_hole_def hole_def)
    then show ?thesis using DetachBuffer_wf [OF w, of u True] attach_failed
      by (cases "DetachBuffer u True s") simp
  next
    case listeners
    then show ?thesis using w by (auto simp: kept_def bq_hole_def)
  next
    case (fill p m m' fl)
    then show ?thesis using fill_wf [OF w, of p m m' fl] by simp
  qed (use kept_refl [OF w] in auto)
  then show ?thesis using kept_inv [OF i] SetQueueSize_inv [OF i] by blast
qed

lemma new_queue_inv:
  assumes "heap_wf [] h g"
  shows "bq_inv (new_queue n ty dis h g)"
  using assms by (auto simp: new_queue_def bq_inv_def bq_hole_def hole_def st_of_def)

lemma bq_run_inv: "bq_run ini s orphaned t \<Longrightarrow> \<not> orphaned \<Longrightarrow> bq_inv s \<Longrightarrow> bq_inv t"
  by (induction rule: bq_run.induct) (auto intro: bq_step_inv)


section \<open>Which pointer a request yields\<close>

lemma AllocBuffer_ptr: "AllocBuffer ini c s = (OK, buf, t) \<Longrightarrow> buf = Some (length (bq_heap s))"
  by (auto simp: AllocBuffer_def Let_def split: option.splits prod.splits)

lemma alloc_requested_ptr: "alloc_requested ini c s = (OK, buf, t) \<Longrightarrow> buf = Some (length (bq_heap s))"
  by (auto simp: alloc_requested_def split: prod.splits dest: AllocBuffer_ptr)

text \<open>A pointer that is not one of a cached buffer outside the free list.\<close>

definition fresh_ptr :: "bq \<Rightarrow> bufptr \<Rightarrow> bool" where
  "fresh_ptr s q \<longleftrightarrow> q \<ge> length (bq_heap s) \<or>
     (\<exists>k e. k \<in> set (bq_free s) \<and> smap_find (bq_cache s) k = Some e \<and> el_buffer e = Some q)"

lemma RequestReuse_ptr:
  assumes pp: "popped c s p k s1" and r: "RequestReuseBuffer ini (Some p) c s1 = (OK, Some q, t)"
  shows "fresh_ptr s q"
proof -
  obtain xs ys e where x: "bq_free s = xs @ k # ys" "s1 = s\<lparr>bq_free := xs @ ys\<rparr>" "bq_hole {k} s1"
    "smap_find (bq_cache s) k = Some e" "el_buffer e = Some p"
    using pp unfolding popped_def by blast
  have f: "smap_find (bq_cache s1) k = Some e" using x(2,4) by simp
  let ?a = "alloc_requested ini c (s1\<lparr>bq_cache := smap_erase k (bq_cache s1)\<rparr>)"
  obtain st b s2 where a: "?a = (st, b, s2)" by (metis prod_cases3)
  have "q = p \<or> ?a = (OK, Some q, s2)"
    using r RequestReuse_eq [OF x(3) f x(5), of ini c] a by (auto split: if_splits)
  then have "q = p \<or> q = length (bq_heap s)"
    using alloc_requested_ptr [of ini c _ "Some q" s2] x(2) by fastforce
  then show ?thesis
  proof
    assume q: "q = p"
    have "k \<in> set (bq_free s)" using x(1) by simp
    then show ?thesis unfolding fresh_ptr_def q using x(4,5) by blast
  qed (simp add: fresh_ptr_def)
qed

lemma fresh_ptr_cong: "bq_heap s = bq_heap t \<Longrightarrow> bq_free s = bq_free t \<Longrightarrow> bq_cache s = bq_cache t \<Longrightarrow>
    fresh_ptr s q = fresh_ptr t q"
  by (simp add: fresh_ptr_def)

lemma RequestBuffer_ptr:
  assumes wf: "bq_wf s" and r: "RequestBuffer (\<lambda>x. x) ini b0 config n s = (OK, Some q, t)"
  shows "fresh_ptr s q"
proof -
  define c where "c = (if cf_memtype config = UNKNOWN_MEMORY
    then config\<lparr>cf_memtype := bq_memtype s\<rparr> else config)"
  obtain st0 s1 where cc: "CheckConfig c s = (st0, s1)" by (cases "CheckConfig c s")
  note k1 = CheckConfig_wf [OF wf cc]
  have w1: "bq_wf s1" using k1 by (simp add: kept_def)
  have eq: "fresh_ptr s q = fresh_ptr s1 q" by (rule fresh_ptr_cong) (use k1 in simp_all)
  have ok: "st0 = OK" using r cc by (auto simp: RequestBuffer_def c_def [symmetric] Let_def split: if_splits)
  obtain st1 b1 s2 where p: "PopFromFreeBufferList c s1 = (st1, b1, s2)" by (metis prod_cases3)
  have "fresh_ptr s1 q"
    using Pop_free_wf [OF w1 p]
  proof (elim disjE conjE exE)
    fix p' k assume x: "st1 = OK" "b1 = Some p'" and pp: "popped c s1 p' k s2"
    then have "RequestReuseBuffer ini (Some p') c s2 = (OK, Some q, t)"
      using r cc p ok by (simp add: RequestBuffer_def c_def [symmetric] Let_def)
    then show ?thesis by (rule RequestReuse_ptr [OF pp])
  next
    assume x: "st1 = ERROR_NO_FREE_BUFFER" "b1 = None" "s2 = s1"
    have "alloc_requested ini c s1 = (OK, Some q, t)"
    proof (cases "GetCachedBufferCount s1 < bq_size s1")
      case True
      then show ?thesis using r cc p ok x by (simp add: RequestBuffer_def c_def [symmetric] Let_def)
    next
      case False
      obtain w s3 where wt: "wait_for (\<lambda>x. x) n s1 = (w, s3)" by (cases "wait_for (\<lambda>x. x) n s1")
      have "s3 = s1" using wait_for_env [OF wt] by simp
      then show ?thesis
        using r cc p ok x False wt
        by (auto simp: RequestBuffer_def c_def [symmetric] Let_def request_again_def split: if_splits)
    qed
    then show ?thesis using alloc_requested_ptr by (fastforce simp: fresh_ptr_def)
  qed
  then show ?thesis using eq by simp
qed

lemma fresh_ptr_other:
  assumes wf: "bq_wf s" and e: "smap_find (bq_cache s) u = Some e" "el_buffer e = Some p"
    and st: "el_state e \<noteq> AVBUFFER_STATE_RELEASED" and f: "fresh_ptr s q"
  shows "q \<noteq> p"
proof
  assume qp: "q = p"
  have hw: "heap_wf (bq_cache s) (bq_heap s) (bq_gen s)" and cw: "cache_wf (bq_cache s) (bq_free s) (bq_dirty s)"
    using wf by (simp_all add: bq_hole_def)
  have pu: "p < length (bq_heap s)" "ab_uid (bq_heap s ! p) = u"
    using heap_wf_cached [OF hw e(1)] e(2) by auto
  then obtain k e' where k: "k \<in> set (bq_free s)" "smap_find (bq_cache s) k = Some e'" "el_buffer e' = Some p"
    using f qp by (auto simp: fresh_ptr_def)
  have "u = k" using heap_wf_cached [OF hw k(2)] k(3) pu by auto
  then show False using cw k e(1) st by (auto simp: hole_def st_of_def)
qed

section \<open>The properties\<close>





text \<open>
  Best fit: when some free buffer fits the request, \<open>RequestBuffer\<close> succeeds without allocating,
  and hands out a fitting buffer of the least capacity, whose cached size becomes the requested one.
\<close>

theorem request_best_fit:
  assumes wf: "bq_wf s" and mt: "cf_memtype config \<noteq> UNKNOWN_MEMORY" "fst (CheckConfig config s) = OK"
    and j: "j \<in> set (bq_free s)" "fits config (bq_cache s) j"
  shows "\<exists>k p t. RequestBuffer (\<lambda>x. x) ini b0 config tmo s = (OK, Some p, t) \<and> k \<in> set (bq_free s) \<and>
    fits config (bq_cache s) k \<and> el_buffer (smap_at default_element (bq_cache s) k) = Some p \<and>
    (\<forall>i \<in> set (bq_free s). fits config (bq_cache s) i \<longrightarrow> cap_of (bq_cache s) k \<le> cap_of (bq_cache s) i) \<and>
    length (bq_heap t) = length (bq_heap s) \<and>
    cf_size (el_config (smap_at default_element (bq_cache t) k)) = cf_size config"
proof -
  obtain s1 where cc: "CheckConfig config s = (OK, s1)" using mt(2) by (cases "CheckConfig config s") simp
  note k1 = CheckConfig_wf [OF wf cc]
  have w1: "bq_wf s1" using k1 by (simp add: kept_def)
  obtain st b s2 where p: "PopFromFreeBufferList config s1 = (st, b, s2)" by (metis prod_cases3)
  have j1: "j \<in> set (bq_free s1)" "fits config (bq_cache s1) j" using j k1 by simp_all
  obtain p k where pk: "st = OK" "b = Some p" "popped config s1 p k s2"
    using Pop_free_wf [OF w1 p] j1(1) by auto
  obtain xs ys e where x: "bq_free s1 = xs @ k # ys" "s2 = s1\<lparr>bq_free := xs @ ys\<rparr>" "bq_hole {k} s2"
    "smap_find (bq_cache s1) k = Some e" "el_buffer e = Some p" "\<forall>x \<in> set xs. \<not> fits config (bq_cache s1) x"
    "fits config (bq_cache s1) k \<or> xs = [] \<and> (\<forall>x \<in> set (bq_free s1). \<not> fits config (bq_cache s1) x)"
    using pk(3) unfolding popped_def by blast
  have fk: "fits config (bq_cache s1) k" using x(7) j1 by blast
  then have le: "config_le config (el_config e)" using x(4) by (simp add: fits_def)
  have f2: "smap_find (bq_cache s2) k = Some e" using x(2,4) by simp
  let ?e = "e\<lparr>el_config := (el_config e)\<lparr>cf_size := cf_size config\<rparr>\<rparr>"
  let ?t = "set_requested p (s2\<lparr>bq_cache := smap_put k ?e (bq_cache s2)\<rparr>)"
  have rb: "RequestBuffer (\<lambda>x. x) ini b0 config tmo s = (OK, Some p, ?t)"
    using mt(1) cc p pk RequestReuse_eq [OF x(3) f2 x(5), of ini config] le by (simp add: RequestBuffer_def Let_def)
  have "bq_hole {k} (s2\<lparr>bq_cache := smap_put k ?e (bq_cache s2)\<rparr>)"
    using x(3) hole_put [of k "bq_cache s2"] heap_wf_put [OF _ f2, of "bq_heap s2" "bq_gen s2" ?e]
    by (simp add: bq_hole_def)
  from set_requested_wf [OF this, of ?e p] x(5)
  have t: "length (bq_heap ?t) = length (bq_heap s)"
    "cf_size (el_config (smap_at default_element (bq_cache ?t) k)) = cf_size config"
    using k1 x(2) by auto
  have "sorted (map (cap_of (bq_cache s1)) (xs @ k # ys))"
    using w1 x(1) by (simp add: bq_hole_def hole_def)
  then have le_ys: "\<forall>i \<in> set ys. cap_of (bq_cache s1) k \<le> cap_of (bq_cache s1) i"
    by (simp add: sorted_append)
  have least: "\<forall>i \<in> set (bq_free s1). fits config (bq_cache s1) i \<longrightarrow> cap_of (bq_cache s1) k \<le> cap_of (bq_cache s1) i"
    using x(1,6) le_ys by auto
  have "k \<in> set (bq_free s1)" "el_buffer (smap_at default_element (bq_cache s1) k) = Some p"
    using x(1,4,5) by simp_all
  then show ?thesis using rb t least fk k1 by metis
qed

text \<open>
  \<open>PushBuffer\<close> accepts only buffers that a producer holds: for an id that is not cached, or whose
  buffer is neither requested nor attached, it reports an error and leaves the cache, both lists
  and the pending notifications as they were.
\<close>

theorem push_guard:
  assumes wf: "bq_wf s"
    and st: "st_of (bq_cache s) u \<notin> {Some AVBUFFER_STATE_REQUESTED, Some AVBUFFER_STATE_ATTACHED}"
    and nd: "\<not> el_isDeleting (smap_at default_element (bq_cache s) u)"
  shows "\<exists>r t. PushBuffer u av s = Inr (r, t) \<and> r \<noteq> OK \<and> bq_cache t = bq_cache s \<and> bq_free t = bq_free s \<and>
    bq_dirty t = bq_dirty s \<and> bq_events t = bq_events s"
proof (cases "smap_find (bq_cache s) u")
  case None
  then show ?thesis by (simp add: PushBuffer_def push_locked_def)
next
  case (Some e)
  have hw: "heap_wf (bq_cache s) (bq_heap s) (bq_gen s)" using wf by (simp add: bq_hole_def)
  obtain p where p: "el_buffer e = Some p" using heap_wf_cached [OF hw Some] by blast
  obtain cfg s' where cf: "ptr_config p s = (cfg, s')" by (cases "ptr_config p s")
  have sl: "same_lists s s'" by (rule ptr_config_same [OF cf])
  have "\<exists>r t. push_locked u av s = Inr (Some r, t) \<and> r \<noteq> OK \<and> (t = s \<or> t = s')"
    using Some p cf st nd by (auto simp: push_locked_def st_of_def)
  then show ?thesis using sl by (auto simp: PushBuffer_def same_lists_def)
qed

section \<open>First in, first out\<close>

text \<open>
  The queue as its two ends see it: the producer's return of a pushed buffer with data, and the
  consumer's \<open>AcquireBuffer\<close>.
\<close>

definition bq_put :: "u64 \<Rightarrow> bq \<Rightarrow> bool \<times> bq" where
  "bq_put u s = (case return_locked u True s of Inl f \<Rightarrow> (False, s) | Inr (st, t) \<Rightarrow> (st = None, t))"

definition bq_take :: "bq \<Rightarrow> u64 option \<times> bq" where
  "bq_take s = (case AcquireBuffer None s of
     Inr (OK, Some p, t) \<Rightarrow> (Some (fst (ptr_uid p t)), t)
   | Inr (st, b, t) \<Rightarrow> (None, t)
   | Inl f \<Rightarrow> (None, s))"

lemma bq_put_wf:
  assumes "bq_wf s"
  shows "bq_wf (snd (bq_put u s)) \<and>
    bq_dirty (snd (bq_put u s)) = (if fst (bq_put u s) then bq_dirty s @ [u] else bq_dirty s)"
proof -
  obtain st t where r: "return_locked u True s = Inr (st, t)" "kept s t"
    "st = None \<longrightarrow> bq_dirty t = bq_dirty s @ [u]" "st \<noteq> None \<longrightarrow> bq_dirty t = bq_dirty s"
    using return_locked_wf [OF assms, of u True] by fastforce
  then show ?thesis by (cases st) (simp_all add: bq_put_def kept_def)
qed

lemma bq_take_wf:
  assumes wf: "bq_wf s"
  shows "bq_wf (snd (bq_take s)) \<and>
    (case bq_dirty s of [] \<Rightarrow> bq_take s = (None, s)
     | k # ks \<Rightarrow> fst (bq_take s) = Some k \<and> bq_dirty (snd (bq_take s)) = ks)"
proof -
  obtain st buf t where A: "AcquireBuffer None s = Inr (st, buf, t)" "kept s t" "bq_heap t = bq_heap s"
    "bq_gen t = bq_gen s"
    "case bq_dirty s of [] \<Rightarrow> st = ERROR_NO_DIRTY_BUFFER \<and> t = s \<and> buf = None
     | k # ks \<Rightarrow> st = OK \<and> bq_dirty t = ks \<and> in_hand buf AVBUFFER_STATE_ACQUIRED t \<and>
         st_of (bq_cache t) k = Some AVBUFFER_STATE_ACQUIRED \<and>
         buf = el_buffer (smap_at default_element (bq_cache s) k)"
    using AcquireBuffer_wf [OF wf, of None] by blast
  show ?thesis
  proof (cases "bq_dirty s")
    case Nil
    then show ?thesis using A wf by (simp add: bq_take_def)
  next
    case (Cons k ks)
    have cw: "cache_wf (bq_cache s) (bq_free s) (k # ks)" and hw: "heap_wf (bq_cache s) (bq_heap s) (bq_gen s)"
      using wf Cons by (simp_all add: bq_hole_def)
    obtain e where e: "smap_find (bq_cache s) k = Some e" using cache_wf_dirty [OF cw, of k] by auto
    obtain p where p: "el_buffer e = Some p" using heap_wf_cached [OF hw e] by blast
    have b: "st = OK" "buf = Some p" "bq_dirty t = ks" using A(5) Cons e p by simp_all
    have "fst (ptr_uid p s) = k" using ptr_uid_cached [OF hw e p] by simp
    then have "fst (ptr_uid p t) = k" using A(3,4) by (simp add: ptr_uid_def split: prod.splits)
    then have "bq_take s = (Some k, t)" using A(1) b by (simp add: bq_take_def)
    then show ?thesis using Cons b(3) A(2) by (simp add: kept_def)
  qed
qed

interpretation bqf: fifo bq_put bq_take bq_dirty bq_wf
proof unfold_locales
  fix s :: bq and x :: u64
  assume w: "bq_wf s"
  show "bq_wf (snd (bq_put x s))"
    "bq_dirty (snd (bq_put x s)) = (if fst (bq_put x s) then bq_dirty s @ [x] else bq_dirty s)"
    using bq_put_wf [OF w] by blast+
  show "bq_wf (snd (bq_take s))" using bq_take_wf [OF w] by blast
  show "fst (bq_take s) = None \<Longrightarrow> bq_dirty (snd (bq_take s)) = bq_dirty s"
    using bq_take_wf [OF w] by (cases "bq_dirty s") auto
  show "fst (bq_take s) = Some x \<Longrightarrow> bq_dirty s = x # bq_dirty (snd (bq_take s))"
    using bq_take_wf [OF w] by (cases "bq_dirty s") auto
qed

text \<open>
  C4. Delivery order: however the producer's returns and the consumer's acquisitions interleave, the
  consumer receives the accepted buffers in the order in which they were returned, none lost,
  none twice; what has not come out is still in the dirty list.
\<close>

theorem queue_delivers_in_order:
  assumes "bq_wf s" "fifo_run bq_put bq_take ops s = (acc, got, t)"
  shows "bq_dirty s @ acc = got @ bq_dirty t \<and> bq_wf t"
  using bqf.run_fifo [OF assms] by blast


section \<open>One round trip\<close>

lemma ptr_config_size:
  assumes "ptr_config p s = (cfg, t)" "ab_memory (bq_heap s ! p) = Some m"
  shows "cf_size cfg = am_size m"
  using assms by (auto simp: ptr_config_def GetConfig_def Let_def split: prod.splits mem_type.splits if_splits)

lemma push_into_dirty:
  assumes wf: "bq_wf s" and e: "smap_find (bq_cache s) u = Some e" "el_state e = AVBUFFER_STATE_REQUESTED"
      "\<not> el_isDeleting e" "el_buffer e = Some p"
    and m: "ab_memory (bq_heap s ! p) = Some m" "am_size m > 0" and l: "bq_consumer s" "\<not> bq_broker s"
  shows "\<exists>t. PushBuffer u True s = Inr (OK, t) \<and> kept s t \<and> bq_dirty t = bq_dirty s @ [u] \<and>
    (\<exists>e'. smap_find (bq_cache t) u = Some e' \<and> el_buffer e' = Some p \<and>
       cf_size (el_config e') = am_size m)"
proof -
  have hw: "heap_wf (bq_cache s) (bq_heap s) (bq_gen s)" using wf by (simp add: bq_hole_def)
  have p: "p < length (bq_heap s)" using heap_wf_cached [OF hw e(1)] e(4) by auto
  obtain cfg s1 where cf: "ptr_config p s = (cfg, s1)" by (cases "ptr_config p s")
  note h1 = ptr_config_hole [OF wf p cf]
  have sl: "bq_cache s1 = bq_cache s" "bq_dirty s1 = bq_dirty s" "bq_consumer s1" "\<not> bq_broker s1"
    using h1 l by (auto simp: same_lists_def)
  let ?s2 = "set_el_state AVBUFFER_STATE_PUSHED u s1"
  have f1: "smap_find (bq_cache s1) u = Some e" using sl e by simp
  have s2: "bq_heap ?s2 = bq_heap s1" "bq_dirty ?s2 = bq_dirty s" "bq_consumer ?s2" "\<not> bq_broker ?s2"
    "smap_find (bq_cache ?s2) u = Some (e\<lparr>el_state := AVBUFFER_STATE_PUSHED\<rparr>)"
    using sl f1 by (simp_all add: set_el_state_eq)
  have m1: "ab_memory (bq_heap s1 ! p) = Some m" using h1 m by simp
  have pl: "push_locked u True s = Inr (None, ?s2)"
    using e cf ptr_config_size [OF cf m(1)] m(2) by (simp add: push_locked_def)
  obtain cfg2 s3 where cf2: "ptr_config p ?s2 = (cfg2, s3)" by (cases "ptr_config p ?s2")
  have sz2: "cf_size cfg2 = am_size m" using ptr_config_size [OF cf2] m1 s2(1) by simp
  let ?t = "s3\<lparr>bq_cache := smap_put u (e\<lparr>el_config := cfg2, el_state := AVBUFFER_STATE_RETURNED\<rparr>) (bq_cache s3),
       bq_dirty := bq_dirty s3 @ [u]\<rparr>"
  have s3: "bq_dirty s3 = bq_dirty s" "bq_consumer s3"
    using ptr_config_same [OF cf2] s2 by (auto simp: same_lists_def)
  have rl: "return_locked u True ?s2 = Inr (None, ?t)"
    using s2(5) e cf2 sz2 m(2) by (simp add: return_locked_def)
  have P: "PushBuffer u True s = Inr (OK, emit Consumer_Available ?t)"
    using pl s2(4) rl s3(2) by (simp add: PushBuffer_def ReturnBuffer_def)
  moreover have "kept s (emit Consumer_Available ?t)"
    using PushBuffer_wf [OF wf, of u True] P by auto
  ultimately show ?thesis using s3(1) sz2 e(4) by simp
qed

text \<open>
  A round trip: a requested buffer with data, pushed while a consumer listens and nothing else is
  waiting, is acquired by the consumer through the very same pointer, and released it is free
  again; its cached size is the size of the data.
\<close>

theorem queue_round_trip:
  assumes wf: "bq_wf s" and e: "smap_find (bq_cache s) u = Some e" "el_state e = AVBUFFER_STATE_REQUESTED"
      "\<not> el_isDeleting e" "el_buffer e = Some p"
    and m: "ab_memory (bq_heap s ! p) = Some m" "am_size m > 0" and l: "bq_consumer s" "\<not> bq_broker s"
    and d: "bq_dirty s = []"
  shows "\<exists>s1 s2 s3. PushBuffer u True s = Inr (OK, s1) \<and> AcquireBuffer b0 s1 = Inr (OK, Some p, s2) \<and>
    ReleaseBuffer u s2 = (OK, s3) \<and> u \<in> set (bq_free s3) \<and> bq_dirty s3 = [] \<and>
    cf_size (el_config (smap_at default_element (bq_cache s3) u)) = am_size m"
proof -
  obtain s1 e1 where p1: "PushBuffer u True s = Inr (OK, s1)" "kept s s1" "bq_dirty s1 = [u]"
    "smap_find (bq_cache s1) u = Some e1" "el_buffer e1 = Some p" "cf_size (el_config e1) = am_size m"
    using push_into_dirty [OF wf e m l] d by auto
  have w1: "bq_wf s1" by (rule kept_wf [OF p1(2)])
  have hw: "heap_wf (bq_cache s1) (bq_heap s1) (bq_gen s1)" and cw: "cache_wf (bq_cache s1) (bq_free s1) [u]"
    using w1 p1(3) by (simp_all add: bq_hole_def)
  let ?s = "s1\<lparr>bq_dirty := []\<rparr>"
  let ?s2 = "s1\<lparr>bq_dirty := [], bq_cache := smap_put u (e1\<lparr>el_state := AVBUFFER_STATE_ACQUIRED\<rparr>) (bq_cache s1)\<rparr>"
  have nd: "\<not> el_isDeleting e1" using cache_wf_dirty [OF cw, of u] p1(4) by simp
  have "ptr_uid p ?s = (u, ?s)" using ptr_uid_cached [of ?s u e1 p] hw p1(4,5) by simp
  then have aq: "AcquireBuffer b0 s1 = Inr (OK, Some p, ?s2)"
    using p1(3,4,5) by (simp add: AcquireBuffer_def PopFromDirtyBufferList_def set_el_state_def)
  have w2: "bq_wf ?s2" using AcquireBuffer_wf [OF w1, of b0] aq by (auto simp: kept_def)
  have f2: "smap_find (bq_cache ?s2) u = Some (e1\<lparr>el_state := AVBUFFER_STATE_ACQUIRED\<rparr>)" by simp
  have h2: "bq_hole {u} ?s2" by (rule bq_open [OF w2 f2]) simp
  note rk = release_kept(3) [OF h2 f2]
  obtain s3 where r: "ReleaseBuffer u ?s2 = (OK, s3)" "bq_free s3 = insort_cap (cap_of (bq_cache ?s2)) u (bq_free s1)"
    "bq_cache s3 = smap_put u (e1\<lparr>el_state := AVBUFFER_STATE_RELEASED\<rparr>) (bq_cache ?s2)" "bq_dirty s3 = []"
    using nd by (simp add: ReleaseBuffer_def Let_def rk)
  then show ?thesis using p1(1,6) aq by auto
qed

text \<open>
  Attaching never overfills: afterwards at most as many buffers are cached as the larger of the
  queue size and what was cached before, and when it succeeds the attached buffer is cached in
  state attached and in neither list.
\<close>

theorem attach_bounded:
  assumes wf: "bq_wf s" and ids: "ids_left s" and p: "p < length (bq_heap s)"
    and r: "attach_locked p s = (st, u, t)"
  shows "length (bq_cache t) \<le> max (length (bq_cache s)) (bq_size s) \<and>
    (st = OK \<longrightarrow> st_of (bq_cache t) u = Some AVBUFFER_STATE_ATTACHED \<and> u \<notin> set (bq_free t) \<and> u \<notin> set (bq_dirty t))"
proof -
  have k: "kept s t" "st = OK \<longrightarrow> st_of (bq_cache t) u = Some AVBUFFER_STATE_ATTACHED"
    using attach_locked_wf [OF wf ids p r] by blast+
  then have "cache_wf (bq_cache t) (bq_free t) (bq_dirty t)" by (simp add: kept_def bq_hole_def)
  then show ?thesis using k by (auto simp: kept_def hole_def)
qed


section \<open>Concrete queues\<close>

definition demo_ini :: "av_memory \<Rightarrow> av_memory option" where
  "demo_ini m = Some (m\<lparr>am_base := Some [1, 2, 3, 4], am_size := 4\<rparr>)"

definition demo_gen :: uid_gen where
  "demo_gen = \<lparr>ug_startTime = 7, ug_processId = 9, ug_bufferId = 0\<rparr>"

definition demo_config :: av_config where
  "demo_config = default_config\<lparr>cf_memtype := VIRTUAL_MEMORY, cf_size := 4, cf_capacity := 4\<rparr>"

definition demo_queue :: "nat \<Rightarrow> bool \<Rightarrow> bq" where
  "demo_queue n consumer =
     (new_queue n UNKNOWN_MEMORY False [the (CreateAVBuffer demo_ini demo_config)] demo_gen)\<lparr>bq_consumer := consumer\<rparr>"

definition demo_request :: "bq \<Rightarrow> bq" where
  "demo_request s = snd (snd (RequestBuffer (\<lambda>x. x) demo_ini None demo_config 0 s))"

definition demo_start :: bq where
  "demo_start = new_queue 2 UNKNOWN_MEMORY False [the (CreateAVBuffer demo_ini demo_config)] demo_gen"

lemma demo_heap: "heap_wf [] [the (CreateAVBuffer demo_ini demo_config)] demo_gen"
  by (simp add: heap_wf_def CreateAVBuffer_def Let_def demo_ini_def demo_config_def new_memory_def empty_buffer_def
      default_config_def)

text \<open>
  A filled buffer attached to a queue without consumer or broker listener: \<open>AttachBuffer\<close>
  reports \<open>ERROR_NO_CONSUMER_LISTENER\<close> and detaches the buffer by force, but its id stays in the
  dirty list, so the next \<open>AcquireBuffer\<close> pops it, finds no element and dereferences a null pointer.
\<close>

theorem attach_without_listener:
  "case AttachBuffer (Some 0) True demo_start of
     Inl f \<Rightarrow> False
   | Inr (st, t) \<Rightarrow> st = ERROR_NO_CONSUMER_LISTENER \<and> bq_cache t = [] \<and> length (bq_dirty t) = 1 \<and>
       AcquireBuffer None t = Inl Null_Deref"
  by code_simp

definition demo_four :: bq where
  "demo_four = demo_request (demo_request (demo_request (demo_request (demo_queue 4 True))))"

fun demo_return_all :: "u64 list \<Rightarrow> bq \<Rightarrow> bq" where
  "demo_return_all [] s = s"
| "demo_return_all (u # us) s =
     (case PushBuffer u False s of Inl f \<Rightarrow> s | Inr (st, t) \<Rightarrow> demo_return_all us t)"

definition demo_shrunk :: bq where
  "demo_shrunk = snd (SetQueueSize 2 (snd (SetQueueSize 3 demo_four)))"

text \<open>
  Shrinking twice while all buffers are out: each \<open>SetQueueSize\<close> marks from the start of the map,
  so the second one marks the buffer that is already marked. Of four buffers out, shrinking the
  queue to 3 and then to 2 gets only one deleted; with the queue idle again three remain.
\<close>

theorem shrink_twice_marks_once:
  "bq_size demo_shrunk = 2 \<and> length (bq_cache demo_shrunk) = 4 \<and>
   map (\<lambda>(k, e). el_isDeleting e) (bq_cache demo_shrunk) = [True, False, False, False] \<and>
   length (bq_cache (demo_return_all (map fst (bq_cache demo_shrunk)) demo_shrunk)) = 3"
  by code_simp

section \<open>The properties at work\<close>

definition demo_one :: bq where "demo_one = demo_request (demo_queue 2 True)"

definition demo_pushed :: bq where
  "demo_pushed = (case push_locked (fst (hd (bq_cache demo_one))) True demo_one of Inr (st, t) \<Rightarrow> t | Inl f \<Rightarrow> demo_one)"

lemma not_orphans_heard: "bq_consumer s \<Longrightarrow> bq_free s = [] \<Longrightarrow> bq_dirty s = [] \<Longrightarrow> \<not> orphans s t"
  by (simp add: orphans_def)

lemma bq_run_heard: "bq_run ini s orphaned t \<Longrightarrow> ids_left t \<Longrightarrow> bq_step ini t u \<Longrightarrow> \<not> orphans t u \<Longrightarrow>
    bq_run ini s orphaned u"
  using bq_run.step [of ini s orphaned t u] by simp

lemma demo_start_heard: "\<not> orphans demo_start (demo_queue 2 True)"
proof -
  have "case AttachBuffer (Some 0) True demo_start of Inl f \<Rightarrow> False | Inr (st, t) \<Rightarrow> \<not> bq_consumer t"
    "length (bq_heap demo_start) = 1" "bq_free demo_start = []" "bq_dirty demo_start = []"
    "bq_consumer (demo_queue 2 True)"
    by code_simp+
  then show ?thesis by (auto simp: orphans_def)
qed

lemma demo_run_queue: "bq_run demo_ini demo_start False (demo_queue 2 True)"
proof -
  have "demo_queue 2 True = demo_start\<lparr>bq_broker := False, bq_producer := False, bq_consumer := True\<rparr>"
    by (simp add: demo_queue_def demo_start_def new_queue_def)
  then have "bq_step demo_ini demo_start (demo_queue 2 True)"
    by (simp add: bq_step.listeners)
  moreover have "ids_left demo_start"
    by (simp add: ids_left_def demo_start_def new_queue_def demo_gen_def)
  ultimately show ?thesis
    using bq_run_heard [OF bq_run.start] demo_start_heard by blast
qed

lemma demo_run_one: "bq_run demo_ini (new_queue 2 UNKNOWN_MEMORY False
    [the (CreateAVBuffer demo_ini demo_config)] demo_gen) False demo_one"
proof -
  have "ids_left (demo_queue 2 True)"
    by (simp add: ids_left_def demo_queue_def new_queue_def demo_gen_def)
  moreover have "bq_step demo_ini (demo_queue 2 True) demo_one"
    unfolding demo_one_def demo_request_def by (rule bq_step.request)
  moreover have "\<not> orphans (demo_queue 2 True) demo_one"
    by (rule not_orphans_heard) (simp_all add: demo_queue_def new_queue_def)
  ultimately show ?thesis
    using bq_run_heard [OF demo_run_queue] unfolding demo_start_def by blast
qed

text \<open>
  The excluded call is the one of \<open>attach_without_listener\<close>: it is a run of one step, flagged, and
  the consumer of the queue it leaves dereferences a null pointer.
\<close>

lemma orphaned_queue_null_deref:
  "\<exists>t. bq_run demo_ini demo_start True t \<and> AcquireBuffer None t = Inl Null_Deref"
proof -
  obtain t where t: "AttachBuffer (Some 0) True demo_start = Inr (ERROR_NO_CONSUMER_LISTENER, t)"
    "AcquireBuffer None t = Inl Null_Deref"
    using attach_without_listener by (auto split: sum.splits)
  have d: "0 < length (bq_heap demo_start)" "\<not> bq_consumer demo_start" "\<not> bq_broker demo_start"
    by code_simp+
  then have "orphans demo_start t" using t(1) unfolding orphans_def by blast
  moreover have "ids_left demo_start"
    by (simp add: ids_left_def demo_start_def new_queue_def demo_gen_def)
  ultimately have "bq_run demo_ini demo_start True t"
    using bq_run.step [OF bq_run.start _ bq_step.attach [OF d(1) t(1), of demo_ini]] by simp
  then show ?thesis using t(2) by blast
qed

lemma demo_one_ids: "ids_left demo_one"
proof -
  have "ug_bufferId (bq_gen demo_one) = 1" by code_simp
  then show ?thesis by (simp add: ids_left_def)
qed

lemma demo_one_wf: "bq_wf demo_one"
  using bq_run_inv [OF demo_run_one _ new_queue_inv [OF demo_heap]] by (simp add: bq_inv_def)

lemma demo_run_pushed: "bq_run demo_ini (new_queue 2 UNKNOWN_MEMORY False
    [the (CreateAVBuffer demo_ini demo_config)] demo_gen) False demo_pushed"
proof -
  obtain st t where p: "push_locked (fst (hd (bq_cache demo_one))) True demo_one = Inr (st, t)"
    using push_locked_wf [OF demo_one_wf] by blast
  then have "bq_step demo_ini demo_one demo_pushed"
    using bq_step.push [OF p] by (simp add: demo_pushed_def)
  moreover have "\<not> orphans demo_one demo_pushed"
    by (rule not_orphans_heard; code_simp)
  ultimately show ?thesis using bq_run_heard [OF demo_run_one demo_one_ids] by blast
qed



definition demo_uid :: u64 where "demo_uid = fst (hd (bq_cache demo_one))"
definition demo_ptr :: bufptr where "demo_ptr = the (el_buffer (snd (hd (bq_cache demo_one))))"


lemma push_guard_witness:
  "\<exists>r t. PushBuffer 5 True demo_one = Inr (r, t) \<and> r \<noteq> OK \<and> bq_dirty t = bq_dirty demo_one"
proof -
  have "st_of (bq_cache demo_one) 5 \<notin> {Some AVBUFFER_STATE_REQUESTED, Some AVBUFFER_STATE_ATTACHED}"
    "\<not> el_isDeleting (smap_at default_element (bq_cache demo_one) 5)"
    by code_simp+
  from push_guard [OF demo_one_wf this, of True] show ?thesis by blast
qed

definition demo_free :: bq where
  "demo_free = (case PushBuffer demo_uid False demo_one of Inr (st, t) \<Rightarrow> t | Inl f \<Rightarrow> demo_one)"

lemma demo_free_wf: "bq_wf demo_free"
proof -
  obtain st t where "PushBuffer demo_uid False demo_one = Inr (st, t)" "kept demo_one t"
    using PushBuffer_wf [OF demo_one_wf, of demo_uid False] by blast
  then show ?thesis by (simp add: demo_free_def kept_def)
qed

lemma request_best_fit_witness:
  "\<exists>k p t. RequestBuffer (\<lambda>x. x) demo_ini None demo_config 0 demo_free = (OK, Some p, t) \<and>
     k \<in> set (bq_free demo_free) \<and> length (bq_heap t) = length (bq_heap demo_free)"
proof -
  have "cf_memtype demo_config \<noteq> UNKNOWN_MEMORY" "fst (CheckConfig demo_config demo_free) = OK"
    "demo_uid \<in> set (bq_free demo_free)" "fits demo_config (bq_cache demo_free) demo_uid"
    by code_simp+
  from request_best_fit [OF demo_free_wf this] show ?thesis by blast
qed

lemma queue_round_trip_witness:
  "\<exists>s1 s2 s3. PushBuffer demo_uid True demo_one = Inr (OK, s1) \<and>
     AcquireBuffer None s1 = Inr (OK, Some demo_ptr, s2) \<and> ReleaseBuffer demo_uid s2 = (OK, s3) \<and>
     demo_uid \<in> set (bq_free s3)"
proof -
  let ?e = "snd (hd (bq_cache demo_one))"
  let ?m = "the (ab_memory (bq_heap demo_one ! demo_ptr))"
  have c: "smap_find (bq_cache demo_one) demo_uid = Some ?e" "el_state ?e = AVBUFFER_STATE_REQUESTED"
    "\<not> el_isDeleting ?e" "el_buffer ?e = Some demo_ptr" "ab_memory (bq_heap demo_one ! demo_ptr) = Some ?m"
    "am_size ?m > 0" "bq_consumer demo_one" "\<not> bq_broker demo_one" "bq_dirty demo_one = []"
    by code_simp+
  show ?thesis using queue_round_trip [OF demo_one_wf c, of None] by blast
qed

lemma queue_delivers_in_order_witness:
  "\<exists>acc got t. fifo_run bq_put bq_take [Put demo_uid, Take, Take] demo_one = (acc, got, t) \<and>
     bq_dirty demo_one @ acc = got @ bq_dirty t"
proof -
  obtain acc got t where "fifo_run bq_put bq_take [Put demo_uid, Take, Take] demo_one = (acc, got, t)"
    by (metis prod_cases3)
  then show ?thesis using queue_delivers_in_order [OF demo_one_wf] by blast
qed

lemma attach_bounded_witness:
  "length (bq_cache (snd (snd (attach_locked 0 demo_one)))) \<le> 2"
proof -
  have p: "0 < length (bq_heap demo_one)" "length (bq_cache demo_one) = 1" "bq_size demo_one = 2"
    by code_simp+
  obtain st u t where "attach_locked 0 demo_one = (st, u, t)" by (metis prod_cases3)
  with attach_bounded [OF demo_one_wf demo_one_ids p(1) this] p show ?thesis by simp
qed

end
