(* ===== verification/Surface_Queue.thy ===== *)
theory Surface_Queue
  imports Buffer_Queue
begin

text \<open>
  \<open>AVBufferQueueSurfaceWrapper\<close> (src/buffer/avbuffer_queue/avbuffer_queue_surface.cpp): the buffer
  queue over a graphics surface. The surface is not part of the repository: its queue size is a
  number, and of each call to it the operations take whether it succeeded. Pointers and the heap
  are as in Buffer_Queue.
\<close>

section \<open>State\<close>

datatype wrapper_type = PRODUCER_WRAPPER | CONSUMER_WRAPPER | BOTH_WRAPPER

datatype surface_event = SF_Broker_Filled "bufptr option" | SF_Register bool

record squeue =
  sq_wrapper :: wrapper_type
  sq_free :: "u64 list"
  sq_cached :: "(u64, bufptr option) smap"
  sq_heap :: "av_buffer list"
  sq_gen :: uid_gen
  sq_broker :: bool
  sq_producer :: bool
  sq_consumer :: bool
  sq_events :: "surface_event list"

text \<open>\<open>CreateAVBuffer()\<close> and \<open>GetUniqueId\<close> on a buffer of the heap.\<close>

definition CreateAVBuffer_empty :: "squeue \<Rightarrow> bufptr \<times> squeue" where
  "CreateAVBuffer_empty s = (length (sq_heap s), s\<lparr>sq_heap := sq_heap s @ [empty_buffer]\<rparr>)"

definition sq_uid :: "bufptr \<Rightarrow> squeue \<Rightarrow> u64 \<times> squeue" where
  "sq_uid p s =
     (case GetUniqueId (sq_heap s ! p) (sq_gen s) of
        (uid, b, g) \<Rightarrow> (uid, s\<lparr>sq_heap := (sq_heap s)[p := b], sq_gen := g\<rparr>))"

text \<open>One round of the loops that fill the queue.\<close>

definition sq_add :: "squeue \<Rightarrow> squeue" where
  "sq_add s =
     (case CreateAVBuffer_empty s of (p, s1) \<Rightarrow>
      case sq_uid p s1 of (u, s2) \<Rightarrow>
      let s3 = s2\<lparr>sq_cached := smap_put u (Some p) (sq_cached s2)\<rparr>
      in case sq_uid p s3 of (v, s4) \<Rightarrow> s4\<lparr>sq_free := sq_free s4 @ [v]\<rparr>)"

fun sq_fill :: "nat \<Rightarrow> squeue \<Rightarrow> squeue" where
  "sq_fill 0 s = s"
| "sq_fill (Suc n) s = sq_fill n (sq_add s)"

definition new_squeue :: "nat \<Rightarrow> wrapper_type \<Rightarrow> uid_gen \<Rightarrow> squeue" where
  "new_squeue n ty g = sq_fill n
     \<lparr>sq_wrapper = ty, sq_free = [], sq_cached = [], sq_heap = [], sq_gen = g, sq_broker = False,
      sq_producer = False, sq_consumer = False, sq_events = []\<rparr>"

section \<open>Operations\<close>

definition sq_HasConsumer :: "squeue \<Rightarrow> bool" where
  "sq_HasConsumer s \<longleftrightarrow> sq_wrapper s \<noteq> PRODUCER_WRAPPER"

definition sq_GetSurfaceAsProducer :: "squeue \<Rightarrow> bool" where
  "sq_GetSurfaceAsProducer s \<longleftrightarrow> \<not> (sq_wrapper s = PRODUCER_WRAPPER \<or> sq_wrapper s = BOTH_WRAPPER)"

definition sq_GetSurfaceAsConsumer :: "squeue \<Rightarrow> bool" where
  "sq_GetSurfaceAsConsumer s \<longleftrightarrow> \<not> (sq_wrapper s = CONSUMER_WRAPPER \<or> sq_wrapper s = BOTH_WRAPPER)"

definition sq_SetQueueSize :: "bool \<Rightarrow> nat \<Rightarrow> squeue \<Rightarrow> status \<times> squeue" where
  "sq_SetQueueSize surfaceOk n s =
     (if \<not> surfaceOk then (ERROR_SURFACE_INNER, s)
      else let curSize = length (sq_cached s)
           in (OK, if n > curSize then sq_fill (n - curSize) s else s))"

definition BindSurface :: "squeue \<Rightarrow> status \<times> bufptr option \<times> squeue" where
  "BindSurface s =
     (case sq_free s of
        [] \<Rightarrow>
          (case CreateAVBuffer_empty s of (p, s1) \<Rightarrow>
           case sq_uid p s1 of (u, s2) \<Rightarrow>
             (OK, Some p, s2\<lparr>sq_cached := smap_put u (Some p) (sq_cached s2)\<rparr>))
      | u # us \<Rightarrow>
          let m = smap_touch None u (sq_cached s)
          in (OK, smap_at None m u, s\<lparr>sq_cached := m, sq_free := us\<rparr>))"

definition UnbindSurface :: "u64 \<Rightarrow> squeue \<Rightarrow> status \<times> squeue" where
  "UnbindSurface u s =
     (case smap_find (sq_cached s) u of None \<Rightarrow> (ERROR_INVALID_BUFFER_ID, s)
      | Some _ \<Rightarrow> (OK, s\<lparr>sq_free := sq_free s @ [u]\<rparr>))"

definition sq_RequestBuffer :: "bool \<Rightarrow> bool \<Rightarrow> bufptr option \<Rightarrow> squeue \<Rightarrow> status \<times> bufptr option \<times> squeue" where
  "sq_RequestBuffer hasConfig surfaceOk buf0 s =
     (if \<not> hasConfig then (ERROR_INVALID_PARAMETER, buf0, s)
      else if \<not> surfaceOk then (ERROR_SURFACE_INNER, buf0, s)
      else BindSurface s)"

definition sq_CancelBuffer :: "u64 \<Rightarrow> squeue \<Rightarrow> status \<times> squeue" where
  "sq_CancelBuffer u s = UnbindSurface u s"

definition sq_ReturnBuffer :: "bool \<Rightarrow> u64 \<Rightarrow> bool \<Rightarrow> squeue \<Rightarrow> status \<times> squeue" where
  "sq_ReturnBuffer flushOk u available s =
     (if \<not> available then sq_CancelBuffer u s
      else case UnbindSurface u s of (st, s1) \<Rightarrow>
        if st \<noteq> OK then (st, s1)
        else if \<not> flushOk then (ERROR_SURFACE_INNER, s1) else (OK, s1))"

definition sq_PushBuffer :: "bool \<Rightarrow> u64 \<Rightarrow> bool \<Rightarrow> squeue \<Rightarrow> status \<times> squeue" where
  "sq_PushBuffer flushOk u available s =
     (if sq_broker s then
        let m = smap_touch None u (sq_cached s)
        in (OK, s\<lparr>sq_cached := m, sq_events := sq_events s @ [SF_Broker_Filled (smap_at None m u)]\<rparr>)
      else sq_ReturnBuffer flushOk u available s)"

definition sq_ReturnBuffer_ptr :: "bool \<Rightarrow> bufptr option \<Rightarrow> bool \<Rightarrow> squeue \<Rightarrow> status \<times> squeue" where
  "sq_ReturnBuffer_ptr flushOk buf available s =
     (case buf of None \<Rightarrow> (ERROR_NULL_POINT_BUFFER, s)
      | Some p \<Rightarrow> (case sq_uid p s of (u, s1) \<Rightarrow> sq_ReturnBuffer flushOk u available s1))"

definition sq_PushBuffer_ptr :: "bool \<Rightarrow> bufptr option \<Rightarrow> bool \<Rightarrow> squeue \<Rightarrow> status \<times> squeue" where
  "sq_PushBuffer_ptr flushOk buf available s =
     (case buf of None \<Rightarrow> (ERROR_NULL_POINT_BUFFER, s)
      | Some p \<Rightarrow> (case sq_uid p s of (u, s1) \<Rightarrow> sq_PushBuffer flushOk u available s1))"

definition sq_AttachBuffer :: "bufptr option \<Rightarrow> bool \<Rightarrow> squeue \<Rightarrow> status \<times> squeue" where
  "sq_AttachBuffer buf isFilled s =
     (case buf of None \<Rightarrow> (ERROR_NULL_POINT_BUFFER, s)
      | Some p \<Rightarrow> (if isFilled then ERROR_INVALID_PARAMETER else OK, s))"

definition sq_DetachBuffer :: "bool \<Rightarrow> u64 \<Rightarrow> squeue \<Rightarrow> status \<times> squeue" where
  "sq_DetachBuffer surfaceOk u s =
     (case UnbindSurface u s of (st, s1) \<Rightarrow>
        if st \<noteq> OK then (st, s1)
        else if \<not> surfaceOk then (ERROR_SURFACE_INNER, s1) else (OK, s1))"

definition sq_DetachBuffer_ptr :: "bool \<Rightarrow> bufptr option \<Rightarrow> squeue \<Rightarrow> status \<times> squeue" where
  "sq_DetachBuffer_ptr surfaceOk buf s =
     (case buf of None \<Rightarrow> (ERROR_NULL_POINT_BUFFER, s)
      | Some p \<Rightarrow> (case sq_uid p s of (u, s1) \<Rightarrow> sq_DetachBuffer surfaceOk u s1))"

definition sq_AcquireBuffer :: "bool \<Rightarrow> bufptr option \<Rightarrow> squeue \<Rightarrow> status \<times> bufptr option \<times> squeue" where
  "sq_AcquireBuffer surfaceOk buf0 s =
     (if \<not> surfaceOk then (ERROR_SURFACE_INNER, buf0, s) else BindSurface s)"

definition sq_ReleaseBuffer :: "bool \<Rightarrow> u64 \<Rightarrow> squeue \<Rightarrow> status \<times> squeue" where
  "sq_ReleaseBuffer surfaceOk u s =
     (case UnbindSurface u s of (st, s1) \<Rightarrow>
        if st \<noteq> OK then (st, s1)
        else if \<not> surfaceOk then (ERROR_SURFACE_INNER, s1) else (OK, s1))"

definition sq_ReleaseBuffer_ptr :: "bool \<Rightarrow> bufptr option \<Rightarrow> squeue \<Rightarrow> status \<times> squeue" where
  "sq_ReleaseBuffer_ptr surfaceOk buf s =
     (case buf of None \<Rightarrow> (ERROR_NULL_POINT_BUFFER, s)
      | Some p \<Rightarrow> (case sq_uid p s of (u, s1) \<Rightarrow> sq_ReleaseBuffer surfaceOk u s1))"

definition sq_SetBrokerListener :: "bool \<Rightarrow> squeue \<Rightarrow> status \<times> squeue" where
  "sq_SetBrokerListener l s = (OK, s\<lparr>sq_broker := l\<rparr>)"

definition sq_SetProducerListener :: "bool \<Rightarrow> squeue \<Rightarrow> status \<times> squeue" where
  "sq_SetProducerListener l s = (OK, s\<lparr>sq_producer := l\<rparr>)"

definition sq_SetConsumerListener :: "bool \<Rightarrow> squeue \<Rightarrow> status \<times> squeue" where
  "sq_SetConsumerListener l s =
     (OK, s\<lparr>sq_consumer := l, sq_events := sq_events s @ [SF_Register l]\<rparr>)"

section \<open>Buffers without memory have no id\<close>

lemma GetUniqueId_empty: "GetUniqueId empty_buffer g = (0, empty_buffer, g)"
  by (simp add: GetUniqueId_def empty_buffer_def)

lemma sq_add_eq:
  "sq_add s = s\<lparr>sq_heap := sq_heap s @ [empty_buffer],
     sq_cached := smap_put 0 (Some (length (sq_heap s))) (sq_cached s), sq_free := sq_free s @ [0]\<rparr>"
proof -
  have "(sq_heap s @ [empty_buffer])[length (sq_heap s) := empty_buffer] = sq_heap s @ [empty_buffer]"
    by simp
  then show ?thesis
    by (simp add: sq_add_def CreateAVBuffer_empty_def sq_uid_def GetUniqueId_empty Let_def)
qed

lemma sq_fill_eq:
  "sq_cached s = [] \<or> (\<exists>p. sq_cached s = [(0, p)]) \<Longrightarrow>
     sq_free (sq_fill n s) = sq_free s @ replicate n 0 \<and> length (sq_heap (sq_fill n s)) = length (sq_heap s) + n \<and>
     sq_cached (sq_fill n s) = (if n = 0 then sq_cached s else [(0, Some (length (sq_heap s) + n - 1))])"
proof (induction n arbitrary: s)
  case (Suc n)
  have "\<exists>p. sq_cached (sq_add s) = [(0, p)]" using Suc.prems by (auto simp: sq_add_eq)
  from Suc.IH [of "sq_add s"] this show ?case
    using Suc.prems by (auto simp: sq_add_eq replicate_append_same)
qed simp

text \<open>
  The surface queue has one buffer only: its buffers have no memory of their own, so
  \<open>GetUniqueId\<close> is 0 for all of them and each overwrites the last in the map. A queue for a surface
  of \<open>n \<ge> 2\<close> buffers holds a single entry and \<open>n\<close> times the id 0 in its free list, and two
  requests in a row hand out the very same buffer.
\<close>

theorem surface_queue_single_buffer:
  assumes "n \<ge> 2"
  shows "length (sq_cached (new_squeue n ty g)) = 1 \<and> sq_free (new_squeue n ty g) = replicate n 0 \<and>
    (\<exists>p s1 s2. sq_RequestBuffer True True b (new_squeue n ty g) = (OK, Some p, s1) \<and>
       sq_RequestBuffer True True b s1 = (OK, Some p, s2))"
proof -
  define s where "s = new_squeue n ty g"
  have s: "sq_free s = replicate n 0" "sq_cached s = [(0, Some (n - 1))]"
    using sq_fill_eq [of "\<lparr>sq_wrapper = ty, sq_free = [], sq_cached = [], sq_heap = [], sq_gen = g,
        sq_broker = False, sq_producer = False, sq_consumer = False, sq_events = []\<rparr>" n] assms
    by (simp_all add: s_def new_squeue_def)
  obtain m where m: "n = Suc (Suc m)" using assms by (metis Suc_le_D numeral_2_eq_2 Suc_le_mono)
  let ?s1 = "s\<lparr>sq_free := 0 # replicate m 0\<rparr>"
  have "sq_RequestBuffer True True b s = (OK, Some (n - 1), ?s1)"
    using s m by (simp add: sq_RequestBuffer_def BindSurface_def Let_def smap_touch_def smap_at_def)
  moreover have "sq_RequestBuffer True True b ?s1 = (OK, Some (n - 1), s\<lparr>sq_free := replicate m 0\<rparr>)"
    using s by (simp add: sq_RequestBuffer_def BindSurface_def Let_def smap_touch_def smap_at_def)
  ultimately show ?thesis using s unfolding s_def by auto
qed

lemma surface_queue_single_buffer_witness:
  "length (sq_cached (new_squeue 3 BOTH_WRAPPER \<lparr>ug_startTime = 1, ug_processId = 2, ug_bufferId = 0\<rparr>)) = 1"
  using surface_queue_single_buffer [of 3 BOTH_WRAPPER _ None] by simp

text \<open>
  Releasing, cancelling and returning do not check that the buffer is out: the same id is accepted
  again and again, and the free list then holds it as often.
\<close>

theorem surface_double_release:
  assumes "smap_find (sq_cached s) u = Some p"
  shows "\<exists>s1 s2. sq_ReleaseBuffer True u s = (OK, s1) \<and> sq_ReleaseBuffer True u s1 = (OK, s2) \<and>
    sq_free s2 = sq_free s @ [u, u] \<and> sq_CancelBuffer u s2 = (OK, s2\<lparr>sq_free := sq_free s2 @ [u]\<rparr>)"
  using assms by (simp add: sq_ReleaseBuffer_def sq_CancelBuffer_def UnbindSurface_def)

lemma surface_double_release_witness:
  "\<exists>s1. sq_ReleaseBuffer True 0 (sq_add (new_squeue 0 BOTH_WRAPPER
     \<lparr>ug_startTime = 1, ug_processId = 2, ug_bufferId = 0\<rparr>)) = (OK, s1)"
proof -
  have "smap_find (sq_cached (sq_add (new_squeue 0 BOTH_WRAPPER
     \<lparr>ug_startTime = 1, ug_processId = 2, ug_bufferId = 0\<rparr>))) 0 = Some (Some 0)"
    by (simp add: sq_add_eq new_squeue_def)
  from surface_double_release [OF this] show ?thesis by blast
qed

end
