(* ===== verification/Player_Props.thy ===== *)
theory Player_Props
  imports Player_Fsm
begin

text \<open>
  What the player's state machine guarantees, for every executor: the diagram of its states, the
  order in which the executor is driven, the answer every caller gets, deferred play requests; and
  where it does not do what its states ask for (failed preparation).
\<close>

section \<open>Transitions\<close>

lemma TransitionTo_cur: "fs_cur (snd (TransitionTo ex st s)) = st"
  by (auto simp: TransitionTo_eq note_change_def split: prod.splits)

lemma TransitionTo_result:
  "fst (TransitionTo ex st s) =
     (if st = fs_cur s then EC_SUCCESS else fst (fst (sc_Enter (state_of ex st) (fs_last s) (fs_exec s))))"
  by (simp add: TransitionTo_eq split: prod.splits)

lemma note_change_frame [simp]:
  "fs_cur (note_change s) = fs_cur s" "fs_exec (note_change s) = fs_exec s"
  by (simp_all add: note_change_def)

lemma TransitionTo_frame:
  "fs_jobs (snd (TransitionTo ex st s)) = fs_jobs s \<and> fs_pending (snd (TransitionTo ex st s)) = fs_pending s \<and>
   fs_sync (snd (TransitionTo ex st s)) = fs_sync s \<and> fs_last (snd (TransitionTo ex st s)) = fs_last s"
  by (auto simp: TransitionTo_eq note_change_def split: prod.splits)

lemma ProcAction_cur:
  "fs_cur (snd (ProcAction ex a s)) = (case next_state a of None \<Rightarrow> fs_cur s | Some st \<Rightarrow> st)"
  by (simp add: ProcAction_eq TransitionTo_cur split: option.splits)

lemma ProcAction_frame:
  "fs_jobs (snd (ProcAction ex a s)) = fs_jobs s \<and> fs_pending (snd (ProcAction ex a s)) = fs_pending s \<and>
   fs_sync (snd (ProcAction ex a s)) = fs_sync s \<and> fs_last (snd (ProcAction ex a s)) = fs_last s"
  by (simp add: ProcAction_eq TransitionTo_frame split: option.splits)

lemma OnIntentExecuted_frame [simp]:
  "fs_cur (OnIntentExecuted i a r s) = fs_cur s" "fs_exec (OnIntentExecuted i a r s) = fs_exec s"
  "fs_jobs (OnIntentExecuted i a r s) = fs_jobs s" "fs_pending (OnIntentExecuted i a r s) = fs_pending s"
  "fs_changes (OnIntentExecuted i a r s) = fs_changes s"
  by (simp_all add: OnIntentExecuted_def Notify_def)

text \<open>An intent in two steps: the answer of the current state, then the action.\<close>

lemma execute_intent_split:
  assumes "execute_intent ex (i, p) s = (rtv, a, t)"
  shows "\<exists>r x. DispatchIntent (state_of ex (fs_cur s)) i p (fs_exec s) = ((r, a), x) \<and>
    t = snd (ProcAction ex a (s\<lparr>fs_last := i, fs_exec := x\<rparr>)) \<and>
    rtv = (if r = EC_SUCCESS then fst (ProcAction ex a (s\<lparr>fs_last := i, fs_exec := x\<rparr>)) else r)"
  using assms
  by (auto simp: execute_intent_def Let_def ProcAction_eq split: prod.splits if_splits)

lemma execute_intent_cur:
  "execute_intent ex (i, p) s = (rtv, a, t) \<Longrightarrow>
     fs_cur t = (case next_state a of None \<Rightarrow> fs_cur s | Some st \<Rightarrow> st) \<and>
     (a = ACTION_BUTT \<or> a \<in> set (may_ask (fs_cur s) i)) \<and> fs_jobs t = fs_jobs s \<and>
     fs_pending t = fs_pending s \<and> fs_sync t = fs_sync s"
  by (drule execute_intent_split)
    (auto simp: ProcAction_cur ProcAction_frame split: option.splits dest: Dispatch_may_ask)

text \<open>
  The machine moves only along its diagram: processing an intent either leaves the state or
  takes one of the transitions \<open>may_ask\<close> lists for that state and intent, whatever the executor
  answers; no other thread's data (job queue, pending jobs) is touched.
\<close>

theorem player_transitions:
  assumes "ProcessIntent ex (i, p) s = (act, t)"
  shows "(fs_cur t = fs_cur s \<or> (\<exists>a \<in> set (may_ask (fs_cur s) i). next_state a = Some (fs_cur t))) \<and>
    fs_jobs t = fs_jobs s \<and> fs_pending t = fs_pending s"
proof -
  obtain rtv a u where e: "execute_intent ex (i, p) s = (rtv, a, u)" by (metis prod_cases3)
  note c = execute_intent_cur [OF e]
  have t: "t = OnIntentExecuted i a rtv u" using assms e by (simp add: ProcessIntent_def)
  show ?thesis
  proof (cases "next_state a")
    case None
    then show ?thesis using c by (simp add: t)
  next
    case (Some st)
    then have "a \<in> set (may_ask (fs_cur s) i)" using c by auto
    then show ?thesis using c Some by (auto simp: t)
  qed
qed

text \<open>
  Reset is always possible: from every state the reset intent leaves the machine idle; outside
  the idle state the executor is reset once, and its answer is what the waiting caller gets.
\<close>

theorem player_reset:
  assumes "fs_cur s \<noteq> ST_IDLE" "pe_call ex DoReset (fs_exec s) = (r, x)"
  shows "\<exists>t. execute_intent ex (RESET, p) s = (r, TRANS_TO_IDLE, t) \<and> fs_cur t = ST_IDLE \<and> fs_exec t = x"
proof -
  have d: "DispatchIntent (state_of ex (fs_cur s)) RESET p (fs_exec s) = ((EC_SUCCESS, TRANS_TO_IDLE), fs_exec s)"
    by (cases "fs_cur s") (simp_all add: DispatchIntent_def class_defs reply_defs)
  show ?thesis
    using assms by (auto simp: execute_intent_def Let_def d ProcAction_eq TransitionTo_eq class_defs
        stay_after_def note_change_def)
qed

section \<open>The order of the executor's calls\<close>

text \<open>An executor that also writes down its calls with what they answered, newest first.\<close>

type_synonym call_log = "(player_call \<times> error_code) list"

definition recording :: "'x player_executor \<Rightarrow> ('x \<times> call_log) player_executor" where
  "recording ex =
     \<lparr>pe_call = (\<lambda>c (x, tr). case pe_call ex c x of (r, y) \<Rightarrow> (r, (y, (c, r) # tr))),
      pe_loop = (\<lambda>(x, tr). pe_loop ex x)\<rparr>"

lemma recording_call [simp]:
  "pe_call (recording ex) c (x, tr) =
     (fst (pe_call ex c x), (snd (pe_call ex c x), (c, fst (pe_call ex c x)) # tr))"
  by (simp add: recording_def split: prod.splits)

lemma recording_loop [simp]: "pe_loop (recording ex) (x, tr) = pe_loop ex x"
  by (simp add: recording_def)

text \<open>
  A session is what was called since the executor was last reset, stopped or told of an error. Its
  set-up calls are \<open>PrepareFilters\<close> and \<open>DoOnReady\<close>. Playback may be started when the session has
  made each of them once, the preparation first.
\<close>

fun ends_session :: "player_call \<Rightarrow> bool" where
  "ends_session DoReset = True"
| "ends_session DoStop = True"
| "ends_session (DoOnError e) = True"
| "ends_session c = False"

definition is_setup :: "player_call \<Rightarrow> bool" where
  "is_setup c \<longleftrightarrow> c = PrepareFilters \<or> c = DoOnReady"

definition setup_calls :: "call_log \<Rightarrow> call_log" where
  "setup_calls tr = filter (\<lambda>(c, r). is_setup c) (takeWhile (\<lambda>(c, r). \<not> ends_session c) tr)"

fun plays_ready :: "call_log \<Rightarrow> bool" where
  "plays_ready [] = True"
| "plays_ready ((c, r) # tr) =
     ((c = DoPlay \<or> c = DoResume \<longrightarrow> map fst (setup_calls tr) = [DoOnReady, PrepareFilters]) \<and> plays_ready tr)"

text \<open>The same with the answers: both calls of the session succeeded.\<close>

fun plays_prepared :: "call_log \<Rightarrow> bool" where
  "plays_prepared [] = True"
| "plays_prepared ((c, r) # tr) =
     ((c = DoPlay \<or> c = DoResume \<longrightarrow>
         setup_calls tr = [(DoOnReady, EC_SUCCESS), (PrepareFilters, EC_SUCCESS)]) \<and> plays_prepared tr)"

lemma setup_calls_Cons [simp]:
  "setup_calls ((c, r) # tr) =
     (if ends_session c then [] else if is_setup c then (c, r) # setup_calls tr else setup_calls tr)"
  by (simp add: setup_calls_def)

lemma setup_calls_sub: "set (setup_calls tr) \<subseteq> set tr"
  by (auto simp: setup_calls_def dest: set_takeWhileD)

lemma plays_prepared:
  "plays_ready tr \<Longrightarrow> (\<And>c r. (c, r) \<in> set tr \<Longrightarrow> is_setup c \<Longrightarrow> r = EC_SUCCESS) \<Longrightarrow> plays_prepared tr"
proof (induction tr rule: plays_ready.induct)
  case (2 c r tr)
  have ok: "q = EC_SUCCESS" if "(d, q) \<in> set (setup_calls tr)" for d q
  proof -
    have "(d, q) \<in> set tr" "is_setup d"
      using that setup_calls_sub [of tr] by (auto simp: setup_calls_def)
    then show ?thesis using "2.prems"(2) by auto
  qed
  have "setup_calls tr = [(DoOnReady, EC_SUCCESS), (PrepareFilters, EC_SUCCESS)]"
    if "map fst (setup_calls tr) = [DoOnReady, PrepareFilters]"
    using that ok [of DoOnReady] ok [of PrepareFilters] by (auto simp: map_eq_Cons_conv)
  then show ?case using 2 by auto
qed simp

fun enter_calls :: "state_id \<Rightarrow> intent \<Rightarrow> player_call list" where
  "enter_calls ST_IDLE i = [DoReset]"
| "enter_calls ST_INIT i = []"
| "enter_calls ST_PREPARING i = [PrepareFilters]"
| "enter_calls ST_READY i = [DoOnReady]"
| "enter_calls ST_PLAYING i = [if i = RESUME then DoResume else DoPlay]"
| "enter_calls ST_PAUSE i = [DoPause]"
| "enter_calls ST_STOPPED i = [DoStop]"
| "enter_calls ST_EOS i = [DoPause]"

lemma Enter_trace:
  "sc_Enter (state_of (recording ex) st) i (x, tr) = (r, (y, tr')) \<Longrightarrow>
     \<exists>cs. tr' = cs @ tr \<and> map fst cs = enter_calls st i"
  by (cases st) (auto simp: class_defs reply_defs)

text \<open>What a state calls in answer to an intent itself, before a transition.\<close>

fun plain_call :: "player_call \<Rightarrow> bool" where
  "plain_call (DoSetSource n) = True"
| "plain_call (DoSeek t m f) = True"
| "plain_call DoOnComplete = True"
| "plain_call c = False"

lemma Dispatch_trace:
  assumes "DispatchIntent (state_of (recording ex) st) i p (x, tr) = ((r, a), (y, tr'))"
  shows "\<exists>cs. tr' = cs @ tr \<and>
    ((\<forall>(c, q) \<in> set cs. plain_call c) \<or> (\<exists>e q. cs = [(DoOnError e, q)] \<and> a = TRANS_TO_INIT))"
  using assms
  by (cases st; cases i)
    (auto simp: DispatchIntent_def class_defs reply_defs Let_def split: any_param.splits option.splits if_splits)

text \<open>What each state knows about the calls of its session.\<close>

fun state_setup :: "state_id \<Rightarrow> player_call list" where
  "state_setup ST_IDLE = []"
| "state_setup ST_INIT = []"
| "state_setup ST_STOPPED = []"
| "state_setup ST_PREPARING = [PrepareFilters]"
| "state_setup st = [DoOnReady, PrepareFilters]"

definition ready_inv :: "state_id \<Rightarrow> call_log \<Rightarrow> bool" where
  "ready_inv st tr \<longleftrightarrow> plays_ready tr \<and> map fst (setup_calls tr) = state_setup st"

lemma plain_call_kinds: "plain_call c \<Longrightarrow> \<not> ends_session c \<and> \<not> is_setup c \<and> c \<noteq> DoPlay \<and> c \<noteq> DoResume"
  by (cases c) (auto simp: is_setup_def)

lemma ready_inv_plain:
  "ready_inv st tr \<Longrightarrow> \<forall>(c, q) \<in> set cs. plain_call c \<Longrightarrow> ready_inv st (cs @ tr)"
  by (induction cs) (auto simp: ready_inv_def dest: plain_call_kinds)

lemma ready_inv_enter:
  assumes "ready_inv st tr" "a \<in> set (may_ask st i)" "next_state a = Some st'" "st' \<noteq> st"
    "map fst cs = enter_calls st' i" "\<not> (a = TRANS_TO_INIT \<and> i = NOTIFY_ERROR)"
  shows "ready_inv st' (cs @ tr)"
  using assms
  by (cases st; cases i) (auto simp: ready_inv_def is_setup_def map_eq_Cons_conv)

lemma execute_ready_inv:
  assumes e: "execute_intent (recording ex) (i, p) s = (rtv, a, t)"
    and inv: "ready_inv (fs_cur s) (snd (fs_exec s))"
  shows "ready_inv (fs_cur t) (snd (fs_exec t))"
proof -
  obtain x tr where x: "fs_exec s = (x, tr)" by (cases "fs_exec s")
  obtain r y tr' where d: "DispatchIntent (state_of (recording ex) (fs_cur s)) i p (x, tr) = ((r, a), (y, tr'))"
    and t: "t = snd (ProcAction (recording ex) a (s\<lparr>fs_last := i, fs_exec := (y, tr')\<rparr>))"
    using execute_intent_split [OF e] x by auto
  obtain cs where cs: "tr' = cs @ tr"
    "(\<forall>(c, q) \<in> set cs. plain_call c) \<or> (\<exists>e q. cs = [(DoOnError e, q)] \<and> a = TRANS_TO_INIT)"
    using Dispatch_trace [OF d] by blast
  show ?thesis
  proof (cases "\<forall>(c, q) \<in> set cs. plain_call c")
    case False
    then have "fs_cur t = ST_INIT" "ready_inv ST_INIT (snd (fs_exec t))"
      using cs inv x
      by (auto simp: t ProcAction_eq TransitionTo_eq class_defs goes_to_def note_change_def ready_inv_def)
    then show ?thesis by simp
  next
    case True
    then have inv': "ready_inv (fs_cur s) tr'" using ready_inv_plain [OF _ True] inv x cs(1) by simp
    show ?thesis
    proof (cases "next_state a = None \<or> next_state a = Some (fs_cur s)")
      case True
      then show ?thesis using inv' by (auto simp: t ProcAction_eq TransitionTo_eq)
    next
      case False
      then obtain st' where st': "next_state a = Some st'" "st' \<noteq> fs_cur s" by auto
      have ma: "a \<in> set (may_ask (fs_cur s) i)" using Dispatch_may_ask [OF d] st' by auto
      have ne: "\<not> (a = TRANS_TO_INIT \<and> i = NOTIFY_ERROR)"
        using d True cs(1)
        by (cases "fs_cur s") (auto simp: DispatchIntent_def class_defs goes_to_def Let_def)
      obtain q z tr'' where q: "sc_Enter (state_of (recording ex) st') i (y, tr') = (q, (z, tr''))"
        by (metis prod_cases3)
      obtain ds where "tr'' = ds @ tr'" "map fst ds = enter_calls st' i" using Enter_trace [OF q] by blast
      then show ?thesis
        using ready_inv_enter [OF inv' ma st' _ ne] st' q
        by (auto simp: t ProcAction_eq TransitionTo_eq note_change_def split: prod.splits)
    qed
  qed
qed

text \<open>Runs: the machine's thread and its callers, in any order.\<close>

inductive fsm_step :: "'x player_executor \<Rightarrow> 'x fsm \<Rightarrow> 'x fsm \<Rightarrow> bool"
  for ex where
  intent: "fsm_step ex s (snd (ProcessIntent ex j s))"
| send: "SendEventAsync i p s = (r, t) \<Longrightarrow> fsm_step ex s t"
| wait: "fsm_step ex s (s\<lparr>fs_sync := y\<rparr>)"
| queue: "fsm_step ex s (s\<lparr>fs_jobs := q, fs_pending := js\<rparr>)"
| callback: "fsm_step ex s (SetStateCallback c s)"

inductive fsm_run :: "'x player_executor \<Rightarrow> 'x fsm \<Rightarrow> 'x fsm \<Rightarrow> bool"
  for ex where
  start: "fsm_run ex s s"
| step: "fsm_run ex s t \<Longrightarrow> fsm_step ex t u \<Longrightarrow> fsm_run ex s u"

lemma fsm_step_ready:
  assumes "fsm_step (recording ex) s t" "ready_inv (fs_cur s) (snd (fs_exec s))"
  shows "ready_inv (fs_cur t) (snd (fs_exec t))"
  using assms(1)
proof cases
  case (intent j)
  obtain i p where j: "j = (i, p)" by (cases j)
  obtain rtv a u where e: "execute_intent (recording ex) (i, p) s = (rtv, a, u)" by (metis prod_cases3)
  then show ?thesis using intent j execute_ready_inv [OF e assms(2)] by (simp add: ProcessIntent_def)
next
  case (send i p r)
  then show ?thesis using assms(2) by (auto simp: SendEventAsync_def split: prod.splits call.splits)
qed (use assms(2) in \<open>auto simp: SetStateCallback_def\<close>)

lemma fsm_run_ready:
  "fsm_run (recording ex) s t \<Longrightarrow> ready_inv (fs_cur s) (snd (fs_exec s)) \<Longrightarrow>
     ready_inv (fs_cur t) (snd (fs_exec t))"
  by (induction rule: fsm_run.induct) (simp, blast intro: fsm_step_ready)

text \<open>
  C3. In every run of the machine, each time the executor is told to play or resume, it has, since
  it was last reset, stopped or told of an error, been told to prepare its filters once and then
  that it is ready once, whatever it answered to them: the machine plays on after a failure of
  either (\<open>player_failed_ready_plays\<close>). When none of these calls failed in the run, both have
  succeeded each time.
\<close>

theorem player_plays_when_ready:
  assumes "fsm_run (recording ex) (new_fsm (x, [])) t"
  shows "plays_ready (snd (fs_exec t)) \<and>
    ((\<forall>(c, r) \<in> set (snd (fs_exec t)). is_setup c \<longrightarrow> r = EC_SUCCESS) \<longrightarrow> plays_prepared (snd (fs_exec t)))"
proof -
  have "ready_inv (fs_cur (new_fsm (x, []))) (snd (fs_exec (new_fsm (x, []))))"
    by (simp add: new_fsm_def ready_inv_def setup_calls_def)
  from fsm_run_ready [OF assms this] have r: "plays_ready (snd (fs_exec t))" by (simp add: ready_inv_def)
  then show ?thesis using plays_prepared [OF r] by blast
qed

section \<open>Answers\<close>

lemma bl_Pop_Cons:
  "bl_active q \<Longrightarrow> bl_que q = x # r \<Longrightarrow> bl_Pop q = (Returns (Some x), notify_one_full (q\<lparr>bl_que := r\<rparr>))"
  by (simp add: bl_ops)

text \<open>The result of an intent and the action it asked for, from the current state and executor.\<close>

definition intent_answer ::
  "'x player_executor \<Rightarrow> intent \<Rightarrow> any_param \<Rightarrow> state_id \<Rightarrow> 'x \<Rightarrow> error_code \<times> action" where
  "intent_answer ex i p st x =
     (case DispatchIntent (state_of ex st) i p x of ((r, a), y) \<Rightarrow>
        (if r \<noteq> EC_SUCCESS then r
         else case next_state a of
                None \<Rightarrow> EC_SUCCESS
              | Some st' \<Rightarrow> if st' = st then EC_SUCCESS else fst (fst (sc_Enter (state_of ex st') i y)), a))"

lemma execute_intent_answer:
  "execute_intent ex (i, p) s = (rtv, a, t) \<Longrightarrow> (rtv, a) = intent_answer ex i p (fs_cur s) (fs_exec s)"
proof -
  assume "execute_intent ex (i, p) s = (rtv, a, t)"
  from execute_intent_split [OF this] obtain r x
    where d: "DispatchIntent (state_of ex (fs_cur s)) i p (fs_exec s) = ((r, a), x)"
      "rtv = (if r = EC_SUCCESS then fst (ProcAction ex a (s\<lparr>fs_last := i, fs_exec := x\<rparr>)) else r)"
    by blast
  show ?thesis
    by (cases "next_state a") (auto simp: intent_answer_def d ProcAction_eq TransitionTo_result)
qed

lemma Notify_waiting:
  "i \<in> sy_wait (fs_sync s) \<Longrightarrow> sy_map (fs_sync s) i = None \<Longrightarrow>
     sy_map (fs_sync (Notify i r s)) i = Some r"
  by (simp add: Notify_def sy_Notify_def)

lemma ProcessIntent_notifies:
  assumes w: "i \<in> sy_wait (fs_sync s)" "sy_map (fs_sync s) i = None"
    and ans: "intent_answer ex i p (fs_cur s) (fs_exec s) = (rtv, a)"
    and r: "ProcessIntent ex (i, p) s = (act, t)"
  shows "sy_map (fs_sync t) i = (if a = ACTION_PENDING \<or> rtv = EC_ERROR_NO_NOTIFY then None else Some rtv) \<and>
    act = (if rtv = EC_SUCCESS then a else ACTION_BUTT) \<and> fs_pending t = fs_pending s"
proof -
  obtain rtv' a' u where e: "execute_intent ex (i, p) s = (rtv', a', u)" by (metis prod_cases3)
  have eq: "rtv' = rtv" "a' = a" using execute_intent_answer [OF e] ans by simp_all
  note c = execute_intent_cur [OF e]
  have "\<not> (i = NOTIFY_READY \<and> a = TRANS_TO_PLAYING)"
    using c eq by (cases "fs_cur s") auto
  then have t: "t = (if a = ACTION_PENDING \<or> rtv = EC_ERROR_NO_NOTIFY then u else Notify i rtv u)"
    using r e eq by (auto simp: ProcessIntent_def OnIntentExecuted_def)
  have u: "fs_sync u = fs_sync s" "fs_pending u = fs_pending s" using c by blast+
  then have "sy_map (fs_sync (Notify i rtv u)) i = Some rtv" using Notify_waiting [of i u] w by simp
  then show ?thesis using t u w r e eq by (auto simp: ProcessIntent_def Notify_def)
qed

text \<open>
  A caller gets the answer to its own intent: when the machine is idle between jobs,
  \<open>SendEvent\<close> returns exactly the result of carrying the intent out; only a deferred intent (play
  while preparing) and the result \<open>ERROR_NO_NOTIFY\<close> leave the caller waiting for its timeout.
\<close>

theorem player_answers_caller:
  assumes q: "bl_active (fs_jobs s)" "bl_que (fs_jobs s) = []" "bl_capacity (fs_jobs s) > 0"
    and y: "sy_map (fs_sync s) i = None" and pend: "fs_pending s = []"
    and ans: "intent_answer ex i p (fs_cur s) (fs_exec s) = (rtv, a)"
  shows "fst (SendEvent (DoTask ex) i p s) =
    Returns (if a = ACTION_PENDING \<or> rtv = EC_ERROR_NO_NOTIFY then EC_ERROR_TIMED_OUT else rtv)"
proof -
  let ?s1 = "s\<lparr>fs_sync := (fs_sync s)\<lparr>sy_wait := insert i (sy_wait (fs_sync s))\<rparr>\<rparr>"
  let ?q = "notify_all_empty ((fs_jobs s)\<lparr>bl_que := [(i, p)]\<rparr>)"
  let ?s2 = "?s1\<lparr>fs_jobs := ?q\<rparr>"
  let ?s3 = "?s2\<lparr>fs_jobs := notify_one_full (?q\<lparr>bl_que := []\<rparr>)\<rparr>"
  have send: "SendEventAsync i p ?s1 = (Returns EC_SUCCESS, ?s2)"
    using q by (simp add: SendEventAsync_def bl_ops)
  have pop: "bl_Pop (fs_jobs ?s2) = (Returns (Some (i, p)), notify_one_full (?q\<lparr>bl_que := []\<rparr>))"
    using q by (simp add: bl_Pop_Cons)
  obtain act t where pr: "ProcessIntent ex (i, p) ?s3 = (act, t)" by (metis surj_pair)
  have n: "sy_map (fs_sync t) i = (if a = ACTION_PENDING \<or> rtv = EC_ERROR_NO_NOTIFY then None else Some rtv)"
    "fs_pending t = []"
    using ProcessIntent_notifies [OF _ _ _ pr, of rtv a] y ans pend by simp_all
  have "fs_sync (DoTask ex ?s2) = fs_sync t"
    unfolding DoTask_def pop using pr n(2) by (simp add: run_pending_def)
  then show ?thesis
    using send n(1) by (auto simp: SendEvent_def Let_def)
qed

text \<open>
  A play request that arrives while the player is preparing is deferred, not lost: when the
  pipeline then reports ready, the machine starts playing in the same round, nothing stays
  pending, and whoever waits for the play request gets the executor's answer to it.
\<close>

theorem player_deferred_play:
  assumes st: "fs_cur s = ST_PREPARING" and pend: "fs_pending s = []"
    and q: "bl_active (fs_jobs s)" "bl_que (fs_jobs s) = [(PLAY, p1), (NOTIFY_READY, p2)]"
    and ready: "pe_call ex DoOnReady (fs_exec s) = (EC_SUCCESS, x)" and play: "pe_call ex DoPlay x = (r, z)"
    and w: "PLAY \<in> sy_wait (fs_sync s)" "sy_map (fs_sync s) PLAY = None" and nn: "r \<noteq> EC_ERROR_NO_NOTIFY"
  shows "\<exists>t. DoTask ex (DoTask ex s) = t \<and> fs_cur t = ST_PLAYING \<and> fs_exec t = z \<and> fs_pending t = [] \<and>
    bl_que (fs_jobs t) = [] \<and> sy_map (fs_sync t) PLAY = Some r"
proof -
  let ?q1 = "notify_one_full ((fs_jobs s)\<lparr>bl_que := [(NOTIFY_READY, p2)]\<rparr>)"
  let ?s1 = "s\<lparr>fs_jobs := ?q1, fs_last := PLAY, fs_pending := [(PLAY, p1)]\<rparr>"
  have pop1: "bl_Pop (fs_jobs s) = (Returns (Some (PLAY, p1)), ?q1)" by (rule bl_Pop_Cons [OF q])
  have pi1: "ProcessIntent ex (PLAY, p1) (s\<lparr>fs_jobs := ?q1\<rparr>) = (ACTION_PENDING, s\<lparr>fs_jobs := ?q1, fs_last := PLAY\<rparr>)"
    using st by (simp add: ProcessIntent_def execute_intent_def DispatchIntent_def class_defs reply_defs
        ProcAction_eq OnIntentExecuted_def)
  have d1: "DoTask ex s = ?s1" unfolding DoTask_def pop1 using pi1 pend by simp
  let ?q2 = "notify_one_full (?q1\<lparr>bl_que := []\<rparr>)"
  have pop2: "bl_Pop (fs_jobs ?s1) = (Returns (Some (NOTIFY_READY, p2)), ?q2)" using q(1) by (simp add: bl_Pop_Cons)
  let ?s2 = "?s1\<lparr>fs_jobs := ?q2, fs_last := NOTIFY_READY, fs_cur := ST_READY, fs_exec := x\<rparr>"
  have pi2: "ProcessIntent ex (NOTIFY_READY, p2) (?s1\<lparr>fs_jobs := ?q2\<rparr>) =
      (TRANS_TO_READY, Notify NOTIFY_READY EC_SUCCESS (note_change ?s2))"
    using st ready by (simp add: ProcessIntent_def execute_intent_def DispatchIntent_def class_defs reply_defs
        ProcAction_eq TransitionTo_eq OnIntentExecuted_def)
  define u where "u = (Notify NOTIFY_READY EC_SUCCESS (note_change ?s2))\<lparr>fs_pending := []\<rparr>"
  have u: "fs_cur u = ST_READY" "fs_exec u = x" "fs_pending u = []" "bl_que (fs_jobs u) = []"
    "PLAY \<in> sy_wait (fs_sync u)" "sy_map (fs_sync u) PLAY = None"
    using w by (auto simp: u_def Notify_def note_change_def sy_Notify_def split: option.splits)
  have "run_pending ex (Notify NOTIFY_READY EC_SUCCESS (note_change ?s2)) =
      (case ProcessIntent ex (PLAY, p1) u of (a, s1) \<Rightarrow>
         if a = ACTION_PENDING then s1\<lparr>fs_pending := fs_pending s1 @ [(PLAY, p1)]\<rparr> else s1)"
    by (simp add: run_pending_def u_def Notify_def note_change_def)
  moreover have pi3: "ProcessIntent ex (PLAY, p1) u =
      (if r = EC_SUCCESS then TRANS_TO_PLAYING else ACTION_BUTT,
       Notify PLAY r (note_change (u\<lparr>fs_last := PLAY, fs_cur := ST_PLAYING, fs_exec := z\<rparr>)))"
    using u play nn by (simp add: ProcessIntent_def execute_intent_def DispatchIntent_def class_defs reply_defs
        ProcAction_eq TransitionTo_eq OnIntentExecuted_def)
  ultimately have "DoTask ex ?s1 = Notify PLAY r (note_change (u\<lparr>fs_last := PLAY, fs_cur := ST_PLAYING, fs_exec := z\<rparr>))"
    unfolding DoTask_def pop2 using pi2 by simp
  then show ?thesis using d1 u by (auto simp: Notify_def note_change_def sy_Notify_def)
qed

text \<open>
  A failed preparation does not bring the player back: the preparing state answers the failure of
  \<open>PrepareFilters\<close> with \<open>TRANS_TO_INIT\<close>, but the machine follows that request only on success. So
  for every executor the error is reported, the machine stays in the preparing state, and there
  it refuses both a new source and a new preparation.
\<close>

theorem player_failed_prepare_stuck:
  assumes "fs_cur s = ST_INIT" "pe_call ex PrepareFilters (fs_exec s) = (r, x)" "r \<noteq> EC_SUCCESS"
  shows "\<exists>t. execute_intent ex (PREPARE, p) s = (r, TRANS_TO_PREPARING, t) \<and> fs_cur t = ST_PREPARING \<and>
    sc_Enter (PreparingState ex) PREPARE (fs_exec s) = ((r, TRANS_TO_INIT), x) \<and>
    (\<forall>q. fst (execute_intent ex (PREPARE, q) t) = EC_ERROR_INVALID_OPERATION) \<and>
    (\<forall>q. fst (execute_intent ex (SET_SOURCE, q) t) = EC_ERROR_INVALID_OPERATION)"
proof -
  have "execute_intent ex (PREPARE, p) s =
      (r, TRANS_TO_PREPARING, note_change (s\<lparr>fs_last := PREPARE, fs_cur := ST_PREPARING, fs_exec := x\<rparr>))"
    using assms by (simp add: execute_intent_def DispatchIntent_def class_defs reply_defs ProcAction_eq
        TransitionTo_eq Let_def)
  moreover have "fst (execute_intent ex (i, q) u) = EC_ERROR_INVALID_OPERATION"
    if "fs_cur u = ST_PREPARING" "i = PREPARE \<or> i = SET_SOURCE" for u i q
    using that by (auto simp: execute_intent_def DispatchIntent_def class_defs reply_defs Let_def)
  ultimately show ?thesis using assms by (simp add: class_defs reply_defs)
qed

text \<open>
  Likewise a failed \<open>DoOnReady\<close> leaves the machine in the ready state although that state asked
  to go back to init, and the next play request is carried out.
\<close>

theorem player_failed_ready_plays:
  assumes "fs_cur s = ST_PREPARING" "pe_call ex DoOnReady (fs_exec s) = (r, x)" "r \<noteq> EC_SUCCESS"
    "pe_call ex DoPlay x = (EC_SUCCESS, z)"
  shows "\<exists>t. execute_intent ex (NOTIFY_READY, p) s = (r, TRANS_TO_READY, t) \<and> fs_cur t = ST_READY \<and>
    (\<exists>u. execute_intent ex (PLAY, q) t = (EC_SUCCESS, TRANS_TO_PLAYING, u) \<and> fs_cur u = ST_PLAYING)"
proof -
  let ?t = "note_change (s\<lparr>fs_last := NOTIFY_READY, fs_cur := ST_READY, fs_exec := x\<rparr>)"
  have "execute_intent ex (NOTIFY_READY, p) s = (r, TRANS_TO_READY, ?t)"
    using assms by (simp add: execute_intent_def DispatchIntent_def class_defs reply_defs ProcAction_eq
        TransitionTo_eq Let_def)
  moreover have "execute_intent ex (PLAY, q) ?t =
      (EC_SUCCESS, TRANS_TO_PLAYING, note_change (?t\<lparr>fs_last := PLAY, fs_cur := ST_PLAYING, fs_exec := z\<rparr>))"
    using assms by (simp add: execute_intent_def DispatchIntent_def class_defs reply_defs ProcAction_eq
        TransitionTo_eq Let_def)
  ultimately show ?thesis by simp
qed

section \<open>The properties at work\<close>

definition demo_executor :: "(player_call \<Rightarrow> error_code) \<Rightarrow> unit player_executor" where
  "demo_executor f = \<lparr>pe_call = (\<lambda>c x. (f c, x)), pe_loop = (\<lambda>x. False)\<rparr>"

definition demo_fsm :: "state_id \<Rightarrow> job list \<Rightarrow> unit fsm" where
  "demo_fsm st js = (new_fsm ())\<lparr>fs_cur := st, fs_jobs := (new_bqueue 10)\<lparr>bl_que := js\<rparr>,
     fs_sync := \<lparr>sy_map = (\<lambda>_. None), sy_wait = {PLAY}\<rparr>\<rparr>"

lemmas demo_defs = demo_executor_def demo_fsm_def new_fsm_def new_bqueue_def

lemma player_transitions_witness:
  "fs_cur (snd (ProcessIntent (demo_executor (\<lambda>c. EC_SUCCESS)) (PREPARE, Any_Empty) (demo_fsm ST_INIT [])))
     \<in> {ST_INIT, ST_PREPARING}"
proof -
  obtain act t where r: "ProcessIntent (demo_executor (\<lambda>c. EC_SUCCESS)) (PREPARE, Any_Empty) (demo_fsm ST_INIT []) = (act, t)"
    by (metis surj_pair)
  show ?thesis using player_transitions [OF r] r by (auto simp: demo_defs)
qed

lemma player_reset_witness:
  "\<exists>t. execute_intent (demo_executor (\<lambda>c. EC_SUCCESS)) (RESET, Any_Empty) (demo_fsm ST_EOS []) =
     (EC_SUCCESS, TRANS_TO_IDLE, t) \<and> fs_cur t = ST_IDLE"
  using player_reset [of "demo_fsm ST_EOS []" "demo_executor (\<lambda>c. EC_SUCCESS)" EC_SUCCESS "()" Any_Empty]
  by (auto simp: demo_defs)

text \<open>A run that sets a source, prepares, gets ready, plays, pauses and resumes.\<close>

fun intents :: "'x player_executor \<Rightarrow> job list \<Rightarrow> 'x fsm \<Rightarrow> 'x fsm" where
  "intents ex [] s = s"
| "intents ex (j # js) s = intents ex js (snd (ProcessIntent ex j s))"

lemma intents_run: "fsm_run ex s t \<Longrightarrow> fsm_run ex s (intents ex js t)"
  by (induction js arbitrary: t) (auto intro: fsm_run.step fsm_step.intent)

definition demo_played :: "(unit \<times> call_log) fsm" where
  "demo_played = intents (recording (demo_executor (\<lambda>c. EC_SUCCESS)))
     [(SET_SOURCE, Any_Source (Some 0)), (PREPARE, Any_Empty), (NOTIFY_READY, Any_Empty), (PLAY, Any_Empty),
      (PAUSE, Any_Empty), (RESUME, Any_Empty)] (new_fsm ((), []))"

lemma player_plays_when_ready_witness:
  "map fst (snd (fs_exec demo_played)) =
     [DoResume, DoPause, DoPlay, DoOnReady, PrepareFilters, DoSetSource 0] \<and>
   plays_prepared (snd (fs_exec demo_played))"
proof -
  have "fsm_run (recording (demo_executor (\<lambda>c. EC_SUCCESS))) (new_fsm ((), [])) demo_played"
    unfolding demo_played_def by (rule intents_run [OF fsm_run.start])
  moreover have tr: "map fst (snd (fs_exec demo_played)) =
      [DoResume, DoPause, DoPlay, DoOnReady, PrepareFilters, DoSetSource 0]"
    "\<forall>(c, r) \<in> set (snd (fs_exec demo_played)). r = EC_SUCCESS"
    by code_simp+
  ultimately show ?thesis using player_plays_when_ready [of "demo_executor (\<lambda>c. EC_SUCCESS)" "()" demo_played]
    by blast
qed

lemma player_answers_caller_witness:
  "fst (SendEvent (DoTask (demo_executor (\<lambda>c. EC_ERROR_UNKNOWN))) PREPARE Any_Empty (demo_fsm ST_INIT [])) =
     Returns EC_ERROR_UNKNOWN"
proof -
  have "intent_answer (demo_executor (\<lambda>c. EC_ERROR_UNKNOWN)) PREPARE Any_Empty (fs_cur (demo_fsm ST_INIT []))
      (fs_exec (demo_fsm ST_INIT [])) = (EC_ERROR_UNKNOWN, TRANS_TO_PREPARING)"
    by (simp add: intent_answer_def DispatchIntent_def class_defs reply_defs demo_defs)
  from player_answers_caller [OF _ _ _ _ _ this] show ?thesis by (simp add: demo_defs)
qed

lemma player_deferred_play_witness:
  "fs_cur (DoTask (demo_executor (\<lambda>c. EC_SUCCESS)) (DoTask (demo_executor (\<lambda>c. EC_SUCCESS))
     (demo_fsm ST_PREPARING [(PLAY, Any_Empty), (NOTIFY_READY, Any_Empty)]))) = ST_PLAYING"
  using player_deferred_play [of "demo_fsm ST_PREPARING [(PLAY, Any_Empty), (NOTIFY_READY, Any_Empty)]"
      Any_Empty Any_Empty "demo_executor (\<lambda>c. EC_SUCCESS)" "()" EC_SUCCESS "()"]
  by (simp add: demo_defs)

lemma player_failed_prepare_stuck_witness:
  "\<exists>t. execute_intent (demo_executor (\<lambda>c. EC_ERROR_NO_MEMORY)) (PREPARE, Any_Empty) (demo_fsm ST_INIT []) =
     (EC_ERROR_NO_MEMORY, TRANS_TO_PREPARING, t) \<and> fs_cur t = ST_PREPARING"
  using player_failed_prepare_stuck [of "demo_fsm ST_INIT []" "demo_executor (\<lambda>c. EC_ERROR_NO_MEMORY)"
      EC_ERROR_NO_MEMORY "()" Any_Empty]
  by (auto simp: demo_defs)

lemma player_failed_ready_plays_witness:
  "\<exists>t. execute_intent (demo_executor (\<lambda>c. if c = DoOnReady then EC_ERROR_UNKNOWN else EC_SUCCESS))
     (NOTIFY_READY, Any_Empty) (demo_fsm ST_PREPARING []) = (EC_ERROR_UNKNOWN, TRANS_TO_READY, t) \<and>
     fs_cur t = ST_READY"
  using player_failed_ready_plays [of "demo_fsm ST_PREPARING []"
      "demo_executor (\<lambda>c. if c = DoOnReady then EC_ERROR_UNKNOWN else EC_SUCCESS)" EC_ERROR_UNKNOWN "()" "()"
      Any_Empty Any_Empty]
  by (auto simp: demo_defs)

end
