(* ===== verification/Spec2Isabelle.thy ===== *)
theory Spec2Isabelle
  imports Mp3_Decoder Hi_Recorder Filter_Tree Any_Storage Meta_Data Muxer_Filter Hls_Download Wav_Demuxer Codec_Config Aac_Demuxer Shared_Memory_Pool Type_Finder Hi_Player_Props Callback_Looper Task_Thread Hls_Props Pipeline_Props Cap_Props Sync_Props Demux_Pull Buffer_Queue_Props Surface_Queue Ring_Buffer Buffer_Pool Player_Props Recorder_Fsm
begin

text \<open>
  HiStreamer, a verification development.

  HiStreamer is the media engine of OpenHarmony. A player reads a media file or an HTTP stream through
  a source, takes it apart in a demuxer, decodes it and hands it to sinks that keep time with each
  other; these parts are filters, linked by ports to a pipeline. The newer half of the repository
  (src/src and src/interface) carries the buffers and the queue through which processes hand them on.
  The theories translate the core logic of these parts; paths below are relative to src/.

  \<^bold>\<open>Shared ground.\<close>
  \<^item> Hst_Prelude: machine types, the status codes \<open>status\<close> and \<open>error_code\<close>, the faults \<open>fault\<close> a C++
    program can run into (null pointer, out of bounds, division by zero, uninitialised value), and lemmas.
  \<^item> Std_Map: \<open>std::map\<close> with the locale \<open>std_map\<close>; Fifo_Spec: the locale \<open>fifo\<close> of a first-in first-out queue.

  \<^bold>\<open>Buffers and queues\<close> (src/buffer, src/common, engine/include/foundation/utils).
  \<^item> Av_Memory, Av_Buffer: \<open>AVMemory\<close>, \<open>AVBufferConfig\<close> and \<open>AVBuffer\<close> with its unique ids.
  \<^item> Buffer_Queue (operations), Buffer_Queue_Inv, _Ops, _Flow (invariant and its preservation),
    Buffer_Queue_Props (properties, interpretation \<open>bqf\<close> of \<open>fifo\<close>): \<open>AVBufferQueueImpl\<close>. Surface_Queue: the
    wrapper over a surface.
  \<^item> Blocking_Queue: \<open>BlockingQueue\<close> and \<open>Synchronizer\<close> (interpretation \<open>blf\<close> of \<open>fifo\<close>). Buffer_Pool:
    \<open>BufferPool\<close>. Ring_Buffer: \<open>RingBuffer\<close>, with the locale \<open>byte_stream\<close> (interpretation \<open>rbs\<close>).
  \<^item> Any_Storage: where \<open>Any\<close> keeps its value. Meta_Data: its transport in parcels, \<open>Meta\<close> with its tables of
    tags, and \<open>Format\<close> (src/meta, interface/inner_api/meta).
  \<^item> Shared_Memory_Pool: \<open>AVSharedMemoryPool\<close> and the block \<open>AVSharedMemoryBase\<close>.

  \<^bold>\<open>Sources and demuxing\<close> (engine/pipeline/filters, engine/plugin/plugins).
  \<^item> Plugin_Buffer, Data_Packer, Data_Packer_Props: the packer as a window of bytes (interpretation \<open>lps\<close> of
    \<open>byte_stream\<close>).
  \<^item> Media_Source: the file source plugin and the source filter, with the locales \<open>pull_source\<close> and
    \<open>seekable_source\<close> (sublocale \<open>fps\<close>, interpretation \<open>fss\<close> on the file source). Demux_Pull: the pull mode
    of the demuxer filter over them. Type_Finder: how the demuxer plugin is found.
  \<^item> Wav_Demuxer, Aac_Demuxer: two demuxer plugins. Bit_Reader, Codec_Config: the bit reader and the parsers
    of the configurations of AAC and AVC.
  \<^item> Downloader: requests, headers and the loop of the HTTP downloader, with \<open>RequestData\<close> of the client; where
    the data goes is the locale \<open>body_sink\<close> (interpretation \<open>col\<close> on a list of what was saved).
    Http_Media: the media of one url over a ring (interpretation \<open>hms\<close>). Download_Monitor: the monitor that
    tries again, and the HTTP source plugin.
  \<^item> Hls_Tags, M3u8, Hls_Props: HLS playlists. Hls_Download: the downloads of playlists and fragments, with the
    locale \<open>patient_sink\<close> (interpretation \<open>hls\<close>), which extends \<open>body_sink\<close>.

  \<^bold>\<open>Decoding and muxing\<close> (engine/pipeline/filters/codec and muxer, engine/plugin/plugins/minimp3_adapter).
  \<^item> Codec_Modes: \<open>SyncMode\<close>, which decodes on the thread of the caller, with the locale \<open>frame_codec\<close> of a plugin
    that is fed one packet at a time. Async_Codec: \<open>AsyncMode\<close> with three threads. Mp3_Decoder: the MP3 decoder
    plugin (interpretation \<open>mp3\<close> of \<open>frame_codec\<close>).
  \<^item> Muxer_Filter: the muxer filter of the recorder, several encoders pushing at the same time.

  \<^bold>\<open>Pipeline\<close> (engine/pipeline/core).
  \<^item> Filter_Graph, Filter_Graph_Props: filters, ports, links, and \<open>ReorderFilters\<close>. Pipeline_Core,
    Pipeline_Links, Pipeline_Props: \<open>PipelineCore\<close>. Cap_Check, Cap_Props: negotiation of capabilities (locale
    \<open>difference\<close>, interpreted for each width).
  \<^item> Filter_Tree: \<open>Filter\<close> and \<open>Pipeline\<close> of the new interface (src/filter, src/pipeline).
  \<^item> Media_Sync, Sync_Sinks, Sync_Props: \<open>MediaSyncManager\<close> and the sinks synchronised with it.

  \<^bold>\<open>Scenes\<close> (engine/scene, engine/foundation/osal/thread).
  \<^item> Player_Fsm, Player_Props: the player's state machine. Recorder_Fsm: the recorder's. Hi_Player,
    Hi_Player_Props: \<open>HiPlayerImpl\<close>. Hi_Recorder: \<open>HiRecorderImpl\<close>, the scene over the recorder's machine. Callback_Looper: the thread that calls its observer. Task_Thread: \<open>Task\<close>.

  \<^bold>\<open>How the code is rendered.\<close> A class is a record of its fields, an operation a function from the record to its
  result and the record after it; an enumeration is a datatype. Unsigned numbers whose wrap-around matters are
  words, others \<open>nat\<close> or \<open>int\<close> within the bounds stated as invariants. A fault is \<open>Inl\<close>; a status of the code is
  a value. An operation under a mutex is one step; one that waits is split where it waits, or takes an argument
  \<open>env\<close> for what the others do meanwhile, and one that may wait for ever answers \<open>None\<close> or \<open>Blocks\<close>. Runs are
  inductive relations or lists of steps, so their properties hold for every interleaving of these steps.
  Loops that may not end have fuel or are \<open>partial_function (option)\<close>; the termination properties say that they
  end and how soon.

  \<^bold>\<open>What stands for code outside.\<close> Arguments of the definitions stand for plugins and filters, the system clock,
  \<open>strtod\<close> and arithmetic with the playback rate, the answers of securec for empty destinations, servers, the
  sorting algorithm of the standard library, message parcels, and the kernel. Their documented behaviour is a named hypothesis
  where a property needs it, and the witness instantiates it.

  \<^bold>\<open>Bounds.\<close> A queue caches at most 32 buffers; a request for bytes is at most \<open>2 ^ 26\<close> long; whole
  numbers up to \<open>2 ^ 53\<close> are exact in double precision; the float arithmetic of AAC levels is rounded to 24 bits
  as written out in Codec_Config. Each bound is a hypothesis of the property that uses it.

  \<^bold>\<open>Not modelled.\<close> The FFmpeg, HDI, minimp4, SDL and audio server plugins, the capture plugins and the
  C and IPC interfaces, which convert and forward calls to libraries that are not in the repository; the threads
  and files of the operating system; surface and hardware memory; the loading of plugins.
  Also the codec filters around the modes, the capture filters, the MP3 demuxer, the lite player and the
  handle of libcurl.
  Logging, traces and dumps of buffers are left out everywhere.
\<close>

end
